(* ===== verification/Prelude.thy ===== *)
theory Prelude
  imports Main "HOL-Library.AList" "HOL-Library.Multiset" "HOL-Library.Word"
begin

text \<open>
  Shared vocabulary of the development: how the Go values the sources handle are represented,
  and the lemmas on them that every component uses.

  \<^item> \<open>bytes\<close> is a Go byte sequence (a \<open>char\<close> is one byte, 0 to 255); \<open>slice\<close> is a \<open>[]byte\<close>,
    with \<open>None\<close> for the nil slice, where the code tells it from an empty one.
  \<^item> \<open>error\<close> is a Go error value: \<open>ErrNew\<close> for \<open>errors.New\<close> and \<open>fmt.Errorf\<close> without \<open>%w\<close>,
    \<open>ErrWrap\<close> for \<open>fmt.Errorf\<close> with \<open>%w\<close>, and the sentinel errors of the standard library that
    the sources compare with. \<open>GoPanic\<close> stands for a run-time panic, which is not an error value but
    ends the call; it appears where the code dereferences a nil pointer. A function that returns only an error returns an \<open>error option\<close>
    (\<open>None\<close> is nil); one that returns a value and an error returns \<open>error + 'a\<close>.
  \<^item> \<open>gomap\<close> is a Go map: an association list with distinct keys. Its order is the order a
    \<open>range\<close> loop happens to visit, which Go leaves open: theorems quantify over every list.
  \<^item> \<open>dyn\<close> is a value of type \<open>any\<close> with its dynamic type; \<open>ctx\<close> is the value part of a
    \<open>context.Context\<close>.
\<close>

section \<open>Bytes, errors and results\<close>

type_synonym bytes = string
type_synonym slice = "bytes option"

datatype error =
    ErrNew string
  | ErrWrap string error
  | ErrEOF
  | ErrUnexpectedEOF
  | ErrCanceled
  | ErrDeadlineExceeded
  | ErrClosed
  | ErrJoin "error list"
  | GoPanic string

type_synonym 'a result = "error + 'a"

text \<open>\<open>errors.Is\<close>: the error itself or one it wraps; \<open>errors.Join\<close>: nil for no errors.\<close>

fun errors_Is :: "error \<Rightarrow> error \<Rightarrow> bool" where
  "errors_Is (ErrWrap s e) t = (ErrWrap s e = t \<or> errors_Is e t)"
| "errors_Is (ErrJoin es) t = (ErrJoin es = t \<or> list_ex (\<lambda>e. errors_Is e t) es)"
| "errors_Is e t = (e = t)"

definition errors_Join :: "error list \<Rightarrow> error option" where
  "errors_Join es = (if es = [] then None else Some (ErrJoin es))"

section \<open>Dynamic values\<close>

datatype gotype =
    TString
  | TInt
  | TBytes
  | TStruct string
  | TNamed string
  | TPtr gotype

fun type_String :: "gotype \<Rightarrow> string" where
  "type_String TString = ''string''"
| "type_String TInt = ''int''"
| "type_String TBytes = ''[]uint8''"
| "type_String (TStruct n) = n"
| "type_String (TNamed n) = n"
| "type_String (TPtr t) = ''*'' @ type_String t"

text \<open>
  \<open>DStruct n r\<close> is a struct value of the named type \<open>n\<close> with contents \<open>r\<close>; \<open>DOther n r\<close> a value
  of another named type; \<open>DPtr t p\<close> a pointer to \<open>t\<close>, nil when \<open>p\<close> is \<open>None\<close>; \<open>DMap m\<close> a value
  of the map type \<open>broker.Metadata\<close>.
\<close>

datatype dyn =
    DNil
  | DString string
  | DInt int
  | DBytes slice
  | DStruct string string
  | DOther string string
  | DPtr gotype "dyn option"
  | DMap "(string \<times> dyn) list"

fun typeof :: "dyn \<Rightarrow> gotype option" where
  "typeof DNil = None"
| "typeof (DString s) = Some TString"
| "typeof (DInt i) = Some TInt"
| "typeof (DBytes b) = Some TBytes"
| "typeof (DStruct n r) = Some (TStruct n)"
| "typeof (DOther n r) = Some (TNamed n)"
| "typeof (DPtr t p) = Some (TPtr t)"
| "typeof (DMap m) = Some (TNamed ''broker.Metadata'')"

text \<open>The value part of a \<open>context.Context\<close>: the innermost \<open>WithValue\<close> is found first.\<close>

type_synonym ctx = "(dyn \<times> dyn) list"

definition ctx_WithValue :: "ctx \<Rightarrow> dyn \<Rightarrow> dyn \<Rightarrow> ctx" where
  "ctx_WithValue c k v = (k, v) # c"

definition ctx_Value :: "ctx \<Rightarrow> dyn \<Rightarrow> dyn" where
  "ctx_Value c k = (case map_of c k of None \<Rightarrow> DNil | Some v \<Rightarrow> v)"

section \<open>Go maps\<close>

type_synonym ('k, 'v) gomap = "('k \<times> 'v) list"

definition gomap_put :: "'k \<Rightarrow> 'v \<Rightarrow> ('k, 'v) gomap \<Rightarrow> ('k, 'v) gomap" where
  "gomap_put k v m = AList.update k v m"

definition gomap_delete :: "'k \<Rightarrow> ('k, 'v) gomap \<Rightarrow> ('k, 'v) gomap" where
  "gomap_delete k m = AList.delete k m"

text \<open>\<open>for k, v := range src { dst[k] = v }\<close>.\<close>

definition gomap_put_all :: "('k, 'v) gomap \<Rightarrow> ('k, 'v) gomap \<Rightarrow> ('k, 'v) gomap" where
  "gomap_put_all src dst = fold (\<lambda>(k, v). gomap_put k v) src dst"

abbreviation gomap_wf :: "('k, 'v) gomap \<Rightarrow> bool" where
  "gomap_wf m \<equiv> distinct (map fst m)"

section \<open>Lemma collections\<close>

named_theorems gomap_simps \<open>lookup and well-formedness of Go maps\<close>
named_theorems broker_defs \<open>definitions of the broker package that unfold\<close>
named_theorems sess_defs \<open>definitions of the session layer that unfold\<close>
named_theorems sse_defs \<open>definitions of the SSE package that unfold\<close>
named_theorems timer_defs \<open>definitions of the timer package that unfold\<close>

section \<open>Lemmas on Go maps and contexts\<close>

lemma map_of_gomap_put [simp, gomap_simps]: "map_of (gomap_put k v m) = (map_of m)(k \<mapsto> v)"
  by (simp add: gomap_put_def update_conv')

lemma map_of_gomap_delete [simp, gomap_simps]: "map_of (gomap_delete k m) = (map_of m)(k := None)"
  by (simp add: gomap_delete_def delete_conv')

lemma gomap_wf_put [intro, gomap_simps]: "gomap_wf m \<Longrightarrow> gomap_wf (gomap_put k v m)"
  by (simp add: gomap_put_def distinct_update)

lemma gomap_wf_delete [intro, gomap_simps]: "gomap_wf m \<Longrightarrow> gomap_wf (gomap_delete k m)"
  by (simp add: gomap_delete_def distinct_delete)

lemma gomap_delete_absent: "k \<notin> fst ` set m \<Longrightarrow> gomap_delete k m = m"
  by (simp add: gomap_delete_def AList.delete_eq filter_id_conv) force

lemma gomap_put_absent: "k \<notin> fst ` set m \<Longrightarrow> gomap_put k v m = m @ [(k, v)]"
  by (induction m) (auto simp: gomap_put_def)

lemma keys_gomap_put: "fst ` set (gomap_put k v m) = insert k (fst ` set m)"
  by (simp add: gomap_put_def dom_update)

lemma keys_gomap_delete: "fst ` set (gomap_delete k m) = fst ` set m - {k}"
  by (auto simp: gomap_delete_def AList.delete_eq)

lemma dom_gomap: "dom (map_of m) = fst ` set m"
  by (simp add: dom_map_of_conv_image_fst)

lemma map_of_gomap_put_all: "map_of (gomap_put_all src dst) = map_of dst ++ map_of (rev src)"
  unfolding gomap_put_all_def
  by (induction src arbitrary: dst) (auto simp: map_add_def fun_eq_iff split: option.splits)

lemma map_of_rev_distinct: "gomap_wf m \<Longrightarrow> map_of (rev m) = map_of m"
  by (rule map_of_inject_set [THEN iffD2]) (simp_all add: rev_map [symmetric])

lemma gomap_wf_put_all: "gomap_wf dst \<Longrightarrow> gomap_wf (gomap_put_all src dst)"
  unfolding gomap_put_all_def by (induction src arbitrary: dst) auto

lemma gomap_put_all_append:
  "gomap_wf (dst @ src) \<Longrightarrow> gomap_put_all src dst = dst @ src"
proof (induction src arbitrary: dst)
  case Nil
  then show ?case by (simp add: gomap_put_all_def)
next
  case (Cons kv src)
  obtain k v where kv: "kv = (k, v)" by force
  from Cons.prems kv have "k \<notin> fst ` set dst" by auto
  then have "gomap_put_all (kv # src) dst = gomap_put_all src (dst @ [(k, v)])"
    by (simp add: gomap_put_all_def kv gomap_put_absent)
  also have "\<dots> = (dst @ [(k, v)]) @ src"
    using Cons.prems kv by (intro Cons.IH) simp
  finally show ?case by (simp add: kv)
qed

lemma gomap_copy_id: "gomap_wf m \<Longrightarrow> gomap_put_all m [] = m"
  using gomap_put_all_append [of "[]" m] by simp

lemma ctx_Value_WithValue [simp]:
  "ctx_Value (ctx_WithValue c k v) k' = (if k' = k then v else ctx_Value c k')"
  by (simp add: ctx_Value_def ctx_WithValue_def)

lemma errors_Is_refl [simp]: "errors_Is e e"
  by (cases e) auto

section \<open>Lemmas on lists\<close>

lemma mset_list_update_swap:
  assumes "i < length xs" "j < length xs"
  shows "mset (xs[i := xs ! j, j := xs ! i]) = mset xs"
  using assms by (simp add: mset_swap)

lemma prefix_snocE:
  assumes "xs @ ys = zs" "zs' = zs @ [z]"
  shows "xs @ (ys @ [z]) = zs'"
  using assms by simp

end
