(* ===== verification/Interfaces.thy ===== *)
theory Interfaces
  imports Prelude
begin

text \<open>
  The interfaces between components, as locales. A keyed store (subscribers by topic, sessions by
  id, streams by id, handlers by message type, timer tasks by id) promises how \<open>lookup\<close> answers
  after each operation; some stores let the last registration win, others the first. A framed
  byte stream promises that reading undoes writing, whatever follows on the stream. A time-ordered
  queue promises that the element at its front is minimal. Each locale is interpreted on the
  definitions of the components that provide it.
\<close>

section \<open>Keyed stores\<close>

locale kv_store =
  fixes lookup :: "'s \<Rightarrow> 'k \<Rightarrow> 'v option"
    and remove :: "'k \<Rightarrow> 's \<Rightarrow> 's"
    and keys :: "'s \<Rightarrow> 'k list"
    and invar :: "'s \<Rightarrow> bool"
  assumes lookup_remove: "invar s \<Longrightarrow> lookup (remove k s) = (lookup s)(k := None)"
    and invar_remove: "invar s \<Longrightarrow> invar (remove k s)"
    and keys_dom: "invar s \<Longrightarrow> set (keys s) = dom (lookup s)"
    and keys_distinct: "invar s \<Longrightarrow> distinct (keys s)"
begin

lemma card_dom: "invar s \<Longrightarrow> card (dom (lookup s)) = length (keys s)"
  using keys_dom keys_distinct distinct_card by metis

lemma length_keys_remove:
  "invar s \<Longrightarrow> lookup s k \<noteq> None \<Longrightarrow> length (keys (remove k s)) = length (keys s) - 1"
  using card_dom [of s] card_dom [OF invar_remove, of s k] keys_dom [of s]
  by (simp add: lookup_remove domIff dom_fun_upd card_Diff_singleton)

lemma invar_fold_remove: "invar s \<Longrightarrow> invar (fold remove ks s)"
  by (induction ks arbitrary: s) (auto simp: invar_remove)

lemma lookup_fold_remove:
  "invar s \<Longrightarrow> lookup (fold remove ks s) k = (if k \<in> set ks then None else lookup s k)"
  by (induction ks arbitrary: s) (auto simp: invar_remove lookup_remove)

lemma remove_all_keys: "invar s \<Longrightarrow> keys (fold remove (keys s) s) = []"
proof -
  assume inv: "invar s"
  have "dom (lookup (fold remove (keys s) s)) = {}"
    by (auto simp: dom_def lookup_fold_remove [OF inv] keys_dom [OF inv])
  then have "set (keys (fold remove (keys s) s)) = {}"
    using keys_dom [OF invar_fold_remove [OF inv]] by metis
  then show ?thesis by simp
qed

end

text \<open>The last value stored under a key is the one found.\<close>

locale last_wins_store = kv_store lookup remove keys invar
  for lookup :: "'s \<Rightarrow> 'k \<Rightarrow> 'v option" and remove keys invar +
  fixes add :: "'k \<Rightarrow> 'v \<Rightarrow> 's \<Rightarrow> 's"
  assumes lookup_add: "invar s \<Longrightarrow> lookup (add k v s) = (lookup s)(k \<mapsto> v)"
    and invar_add: "invar s \<Longrightarrow> invar (add k v s)"
begin

lemma invar_fold_add: "invar s \<Longrightarrow> invar (fold (\<lambda>(k, v). add k v) kvs s)"
  by (induction kvs arbitrary: s) (auto simp: invar_add)

lemma lookup_fold_add:
  "invar s \<Longrightarrow> lookup (fold (\<lambda>(k, v). add k v) kvs s) = lookup s ++ map_of (rev kvs)"
  by (induction kvs arbitrary: s)
    (auto simp: invar_add lookup_add map_add_def fun_eq_iff split: option.splits)

lemma lookup_add_remove:
  "invar s \<Longrightarrow> lookup (remove k (add k v s)) = (lookup s)(k := None)"
  by (simp add: invar_add lookup_add lookup_remove)

lemma length_keys_add:
  "invar s \<Longrightarrow> length (keys (add k v s)) =
     (if lookup s k = None then Suc (length (keys s)) else length (keys s))"
  using card_dom [of s] card_dom [OF invar_add, of s k v] keys_dom [of s]
  by (auto simp: lookup_add insert_absorb domIff)
    (metis List.finite_set card_insert_disjoint domIff)

end

text \<open>The first value stored under a key is kept until the key is removed.\<close>

locale first_wins_store = kv_store lookup remove keys invar
  for lookup :: "'s \<Rightarrow> 'k \<Rightarrow> 'v option" and remove keys invar +
  fixes register :: "'k \<Rightarrow> 'v \<Rightarrow> 's \<Rightarrow> 's"
  assumes lookup_register: "invar s \<Longrightarrow> lookup (register k v s) =
      (if lookup s k = None then (lookup s)(k \<mapsto> v) else lookup s)"
    and invar_register: "invar s \<Longrightarrow> invar (register k v s)"
begin

lemma invar_fold_register: "invar s \<Longrightarrow> invar (fold (\<lambda>(k, v). register k v) kvs s)"
  by (induction kvs arbitrary: s) (auto simp: invar_register)

lemma lookup_fold_register:
  "invar s \<Longrightarrow> lookup (fold (\<lambda>(k, v). register k v) kvs s) = map_of kvs ++ lookup s"
  by (induction kvs arbitrary: s)
    (auto simp: invar_register lookup_register map_add_def fun_eq_iff split: option.splits)

lemma register_after_remove:
  "invar s \<Longrightarrow> lookup (register k v (remove k s)) = (lookup s)(k \<mapsto> v)"
  by (simp add: invar_remove lookup_register lookup_remove)

end

section \<open>Framed byte streams\<close>

text \<open>The loop that reads frame after frame until the reader fails.\<close>

fun read_frames :: "('b list \<Rightarrow> error + ('p \<times> 'b list)) \<Rightarrow> nat \<Rightarrow> 'b list \<Rightarrow> 'p list \<times> 'b list" where
  "read_frames rd 0 inp = ([], inp)"
| "read_frames rd (Suc n) inp =
     (case rd inp of
        Inl e \<Rightarrow> ([], inp)
      | Inr (p, rest) \<Rightarrow> (let (ps, r) = read_frames rd n rest in (p # ps, r)))"

locale framing =
  fixes wr :: "'p \<Rightarrow> 'b list"
    and rd :: "'b list \<Rightarrow> error + ('p \<times> 'b list)"
    and okp :: "'p \<Rightarrow> bool"
  assumes rd_wr: "okp p \<Longrightarrow> rd (wr p @ rest) = Inr (p, rest)"
begin

lemma read_frames_concat:
  "list_all okp ps \<Longrightarrow> read_frames rd (length ps) (concat (map wr ps) @ rest) = (ps, rest)"
  by (induction ps) (auto simp: rd_wr)

lemma read_frames_stop:
  assumes "list_all okp ps" and "rd rest = Inl e" and "length ps \<le> n"
  shows "read_frames rd n (concat (map wr ps) @ rest) = (ps, rest)"
  using assms
proof (induction ps arbitrary: n)
  case Nil
  then show ?case by (cases n) auto
next
  case (Cons p ps)
  then obtain m where "n = Suc m" by (cases n) auto
  with Cons show ?case by (auto simp: rd_wr)
qed

text \<open>No two lists of frames are written as the same bytes, up to what follows them.\<close>

lemma wr_inj:
  assumes "list_all okp ps" "list_all okp qs" "length ps = length qs"
    and "concat (map wr ps) @ r = concat (map wr qs) @ t"
  shows "ps = qs \<and> r = t"
proof -
  have "(ps, r) = (qs, t)"
    using read_frames_concat [OF assms(1), of r] read_frames_concat [OF assms(2), of t] assms(3,4)
    by metis
  then show ?thesis by simp
qed

end

section \<open>Time-ordered queues\<close>

locale timed_queue =
  fixes elems :: "'q \<Rightarrow> 'a multiset"
    and before :: "'a \<Rightarrow> 'a \<Rightarrow> bool"
    and push :: "'a \<Rightarrow> 'q \<Rightarrow> 'q"
    and pop :: "'q \<Rightarrow> 'a \<times> 'q"
    and invar :: "'q \<Rightarrow> bool"
  assumes push_elems: "invar q \<Longrightarrow> elems (push x q) = add_mset x (elems q)"
    and push_invar: "invar q \<Longrightarrow> invar (push x q)"
    and pop_elems: "invar q \<Longrightarrow> elems q \<noteq> {#} \<Longrightarrow> elems q = add_mset (fst (pop q)) (elems (snd (pop q)))"
    and pop_invar: "invar q \<Longrightarrow> elems q \<noteq> {#} \<Longrightarrow> invar (snd (pop q))"
    and pop_min: "invar q \<Longrightarrow> elems q \<noteq> {#} \<Longrightarrow> y \<in># elems q \<Longrightarrow> \<not> before y (fst (pop q))"
begin

text \<open>Popping until the queue is empty.\<close>

primrec drain :: "nat \<Rightarrow> 'q \<Rightarrow> 'a list" where
  "drain 0 q = []"
| "drain (Suc n) q = (let (x, q') = pop q in x # drain n q')"

lemma drain_elems: "invar q \<Longrightarrow> size (elems q) = n \<Longrightarrow> mset (drain n q) = elems q"
proof (induction n arbitrary: q)
  case 0
  then show ?case by simp
next
  case (Suc n)
  then have ne: "elems q \<noteq> {#}" by auto
  have "size (elems (snd (pop q))) = n"
    using pop_elems [OF Suc.prems(1) ne] Suc.prems(2) by (metis size_add_mset nat.inject)
  then show ?case
    using Suc.IH [OF pop_invar [OF Suc.prems(1) ne]] pop_elems [OF Suc.prems(1) ne]
    by (simp add: case_prod_beta Let_def)
qed

lemma drain_sorted:
  "invar q \<Longrightarrow> size (elems q) = n \<Longrightarrow> sorted_wrt (\<lambda>x y. \<not> before y x) (drain n q)"
proof (induction n arbitrary: q)
  case 0
  then show ?case by simp
next
  case (Suc n)
  then have ne: "elems q \<noteq> {#}" by auto
  let ?q' = "snd (pop q)"
  have sz: "size (elems ?q') = n"
    using pop_elems [OF Suc.prems(1) ne] Suc.prems(2) by (metis size_add_mset nat.inject)
  have inv': "invar ?q'" using pop_invar [OF Suc.prems(1) ne] .
  have "\<not> before y (fst (pop q))" if "y \<in> set (drain n ?q')" for y
  proof -
    have "y \<in># elems ?q'" using that drain_elems [OF inv' sz] by (metis set_mset_mset)
    then have "y \<in># elems q" using pop_elems [OF Suc.prems(1) ne] by (metis insert_iff set_mset_add_mset_insert)
    then show ?thesis by (rule pop_min [OF Suc.prems(1) ne])
  qed
  then show ?case
    using Suc.IH [OF inv' sz] by (simp add: case_prod_beta Let_def)
qed

end

section \<open>Go maps provide keyed stores\<close>

definition gomap_keys :: "('k, 'v) gomap \<Rightarrow> 'k list" where
  "gomap_keys m = map fst m"

definition gomap_register :: "'k \<Rightarrow> 'v \<Rightarrow> ('k, 'v) gomap \<Rightarrow> ('k, 'v) gomap" where
  "gomap_register k v m = (if map_of m k = None then gomap_put k v m else m)"

interpretation gm_last: last_wins_store map_of gomap_delete gomap_keys "\<lambda>m. gomap_wf m" gomap_put
  by unfold_locales (auto simp: gomap_simps gomap_keys_def dom_gomap)

interpretation gm_first: first_wins_store map_of gomap_delete gomap_keys "\<lambda>m. gomap_wf m" gomap_register
  by unfold_locales (auto simp: gomap_simps gomap_keys_def dom_gomap gomap_register_def)

end
