(* ===== verification/Broker_Message.thy ===== *)
theory Broker_Message
  imports Interfaces
begin

text \<open>
  The message of the broker package (\<open>broker/message.go\<close>): the struct, its accessors, the
  functional options that build it, and the transfer of values between a context and the headers.
  A nil header or metadata map is \<open>None\<close>. What the dynamic types of the values can do (an \<open>Ack\<close>
  method, a \<open>String\<close> method, the verb \<open>%v\<close> on types other than strings) belongs to the caller's
  types and is the parameter \<open>methods\<close>.
\<close>

section \<open>Definitions\<close>

record methods =
  m_Ack :: "dyn \<Rightarrow> error option option"
  m_String :: "dyn \<Rightarrow> string option"
  m_fmt :: "dyn \<Rightarrow> string"

type_synonym Headers = "(string, string) gomap"
type_synonym Metadata = "(string, dyn) gomap"

record message =
  msg_ID :: string
  msg_Headers :: "Headers option"
  msg_Body :: dyn
  msg_Key :: string
  msg_Metadata :: "Metadata option"
  msg_Partition :: int
  msg_Offset :: int
  msg_Msg :: dyn

definition Creator :: "gotype \<Rightarrow> dyn \<Rightarrow> dyn" where
  "Creator t zero = DPtr t (Some zero)"

definition SetHeader :: "string \<Rightarrow> string \<Rightarrow> message \<Rightarrow> message" where
  "SetHeader key value m =
     (let h = (case msg_Headers m of None \<Rightarrow> [] | Some h \<Rightarrow> h)
      in m\<lparr>msg_Headers := Some (gomap_put key value h)\<rparr>)"

definition Message_WithHeader :: "string \<Rightarrow> string \<Rightarrow> message \<Rightarrow> message" where
  "Message_WithHeader key value m = SetHeader key value m"

definition GetHeader :: "message \<Rightarrow> string \<Rightarrow> string" where
  "GetHeader m key =
     (case msg_Headers m of
        None \<Rightarrow> ''''
      | Some h \<Rightarrow> (case map_of h key of None \<Rightarrow> '''' | Some v \<Rightarrow> v))"

definition HeadersCopy :: "message \<Rightarrow> Headers option" where
  "HeadersCopy m = (case msg_Headers m of None \<Rightarrow> None | Some h \<Rightarrow> Some (gomap_put_all h []))"

definition MergeHeaders :: "Headers option \<Rightarrow> message \<Rightarrow> message" where
  "MergeHeaders hdrs m =
     (case hdrs of None \<Rightarrow> m | Some h \<Rightarrow> fold (\<lambda>(k, v). SetHeader k v) h m)"

definition SetMetadata :: "string \<Rightarrow> dyn \<Rightarrow> message \<Rightarrow> message" where
  "SetMetadata key value m =
     (let d = (case msg_Metadata m of None \<Rightarrow> [] | Some d \<Rightarrow> d)
      in m\<lparr>msg_Metadata := Some (gomap_put key value d)\<rparr>)"

definition Message_WithMetadata :: "string \<Rightarrow> dyn \<Rightarrow> message \<Rightarrow> message" where
  "Message_WithMetadata key value m = SetMetadata key value m"

definition AckSuccess :: "methods \<Rightarrow> message \<Rightarrow> error option" where
  "AckSuccess ms m = (case m_Ack ms (msg_Msg m) of Some r \<Rightarrow> r | None \<Rightarrow> None)"

definition BodyBytes :: "message \<Rightarrow> slice" where
  "BodyBytes m = (case msg_Body m of DNil \<Rightarrow> None | DBytes b \<Rightarrow> b | _ \<Rightarrow> None)"

definition WithBody :: "dyn \<Rightarrow> message \<Rightarrow> message" where
  "WithBody body m = m\<lparr>msg_Body := body\<rparr>"

definition Message_WithKey :: "string \<Rightarrow> message \<Rightarrow> message" where
  "Message_WithKey key m = m\<lparr>msg_Key := key\<rparr>"

definition SetDelay :: "string \<Rightarrow> message \<Rightarrow> message" where
  "SetDelay level m = SetMetadata ''x-delay-level'' (DString level) m"

definition MetadataCopy :: "message \<Rightarrow> Metadata option" where
  "MetadataCopy m = (case msg_Metadata m of None \<Rightarrow> None | Some d \<Rightarrow> Some (gomap_put_all d []))"

definition Clone :: "message \<Rightarrow> message" where
  "Clone m =
     \<lparr>msg_ID = msg_ID m, msg_Headers = HeadersCopy m, msg_Body = msg_Body m, msg_Key = msg_Key m,
      msg_Metadata = MetadataCopy m, msg_Partition = msg_Partition m, msg_Offset = msg_Offset m,
      msg_Msg = msg_Msg m\<rparr>"

definition GetMetadata :: "message \<Rightarrow> string \<Rightarrow> dyn" where
  "GetMetadata m key =
     (case msg_Metadata m of
        None \<Rightarrow> DNil
      | Some d \<Rightarrow> (case map_of d key of None \<Rightarrow> DNil | Some v \<Rightarrow> v))"

definition metadataKey :: dyn where
  "metadataKey = DStruct ''broker.metadataKey'' ''''"

definition ExtractContext :: "message \<Rightarrow> ctx \<Rightarrow> ctx" where
  "ExtractContext m baseCtx =
     (case msg_Metadata m of
        None \<Rightarrow> baseCtx
      | Some d \<Rightarrow> ctx_WithValue baseCtx metadataKey (DMap d))"

definition GetMetadataFromContext :: "ctx \<Rightarrow> Metadata option" where
  "GetMetadataFromContext c = (case ctx_Value c metadataKey of DMap d \<Rightarrow> Some d | _ \<Rightarrow> None)"

text \<open>\<open>fmt.Sprintf("%v", x)\<close>: a string is printed as it is, a value with a \<open>String\<close> method by it.\<close>

fun sprintf_v :: "methods \<Rightarrow> dyn \<Rightarrow> string" where
  "sprintf_v ms (DString s) = s"
| "sprintf_v ms v = (case m_String ms v of Some s \<Rightarrow> s | None \<Rightarrow> m_fmt ms v)"

text \<open>\<open>reflect.TypeOf(key).Kind()\<close> is \<open>Struct\<close> or \<open>Ptr\<close>.\<close>

fun struct_or_ptr :: "dyn \<Rightarrow> bool" where
  "struct_or_ptr (DStruct n r) = True"
| "struct_or_ptr (DPtr t p) = True"
| "struct_or_ptr v = False"

definition formatKey :: "methods \<Rightarrow> dyn \<Rightarrow> string" where
  "formatKey ms key =
     (case key of
        DNil \<Rightarrow> ''''
      | DString s \<Rightarrow> s
      | _ \<Rightarrow> (case m_String ms key of
                Some s \<Rightarrow> s
              | None \<Rightarrow> if struct_or_ptr key
                        then (case typeof key of Some t \<Rightarrow> type_String t | None \<Rightarrow> '''')
                        else sprintf_v ms key))"

definition InjectContext :: "methods \<Rightarrow> ctx \<Rightarrow> dyn list \<Rightarrow> message \<Rightarrow> message" where
  "InjectContext ms c keys m =
     fold (\<lambda>key m. let val = ctx_Value c key in
            if val \<noteq> DNil then SetHeader (formatKey ms key) (sprintf_v ms val) m else m) keys m"

definition ExtractToContext :: "message \<Rightarrow> ctx \<Rightarrow> (string, dyn) gomap \<Rightarrow> ctx" where
  "ExtractToContext m baseCtx keyMapping =
     fold (\<lambda>(hKey, cKey) c. let val = GetHeader m hKey in
            if val \<noteq> '''' then ctx_WithValue c cKey (DString val) else c) keyMapping baseCtx"

type_synonym MessageOption = "message \<Rightarrow> message"

text \<open>A nil option is \<open>None\<close>.\<close>

definition NewMessage :: "dyn \<Rightarrow> MessageOption option list \<Rightarrow> message" where
  "NewMessage body opts =
     fold (\<lambda>opt m. case opt of None \<Rightarrow> m | Some f \<Rightarrow> f m) opts
       \<lparr>msg_ID = '''', msg_Headers = Some [], msg_Body = body, msg_Key = '''',
        msg_Metadata = Some [], msg_Partition = -1, msg_Offset = -1, msg_Msg = DNil\<rparr>"

definition NewMessageWithContext :: "methods \<Rightarrow> ctx \<Rightarrow> dyn \<Rightarrow> dyn list \<Rightarrow> message" where
  "NewMessageWithContext ms c body keys = InjectContext ms c keys (NewMessage body [])"

definition WithID :: "string \<Rightarrow> MessageOption" where
  "WithID i = (\<lambda>m. m\<lparr>msg_ID := i\<rparr>)"

definition WithKey :: "string \<Rightarrow> MessageOption" where
  "WithKey key = (\<lambda>m. m\<lparr>msg_Key := key\<rparr>)"

definition WithMsg :: "dyn \<Rightarrow> MessageOption" where
  "WithMsg msg = (\<lambda>m. m\<lparr>msg_Msg := msg\<rparr>)"

definition WithPartitionOffset :: "int \<Rightarrow> int \<Rightarrow> MessageOption" where
  "WithPartitionOffset part offset =
     (\<lambda>m. m\<lparr>msg_Partition := part, msg_Offset := offset\<rparr>)"

definition WithHeaders :: "Headers option \<Rightarrow> MessageOption" where
  "WithHeaders hs = (\<lambda>m.
     case hs of
       None \<Rightarrow> m
     | Some h \<Rightarrow>
         m\<lparr>msg_Headers :=
             Some (gomap_put_all h (case msg_Headers m of None \<Rightarrow> [] | Some h0 \<Rightarrow> h0))\<rparr>)"

definition WithHeader :: "string \<Rightarrow> string \<Rightarrow> MessageOption" where
  "WithHeader key value = (\<lambda>m. SetHeader key value m)"

definition WithMetadata :: "Metadata option \<Rightarrow> MessageOption" where
  "WithMetadata md = (\<lambda>m.
     case md of
       None \<Rightarrow> m
     | Some d \<Rightarrow>
         m\<lparr>msg_Metadata :=
             Some (gomap_put_all d (case msg_Metadata m of None \<Rightarrow> [] | Some d0 \<Rightarrow> d0))\<rparr>)"

definition WithMetadataKV :: "string \<Rightarrow> dyn \<Rightarrow> MessageOption" where
  "WithMetadataKV key value = (\<lambda>m. SetMetadata key value m)"

text \<open>The maps a message holds have distinct keys.\<close>

definition message_wf :: "message \<Rightarrow> bool" where
  "message_wf m =
     (pred_option (\<lambda>h. gomap_wf h) (msg_Headers m) \<and> pred_option (\<lambda>d. gomap_wf d) (msg_Metadata m))"

section \<open>Lemmas\<close>

lemmas header_defs [broker_defs] =
  SetHeader_def GetHeader_def Message_WithHeader_def WithHeader_def

lemma GetHeader_SetHeader [simp]:
  "GetHeader (SetHeader k v m) k' = (if k' = k then v else GetHeader m k')"
  by (auto simp: header_defs Let_def split: option.splits)

lemma SetHeader_frame [simp]:
  "msg_ID (SetHeader k v m) = msg_ID m" "msg_Body (SetHeader k v m) = msg_Body m"
  "msg_Key (SetHeader k v m) = msg_Key m" "msg_Metadata (SetHeader k v m) = msg_Metadata m"
  "msg_Partition (SetHeader k v m) = msg_Partition m" "msg_Offset (SetHeader k v m) = msg_Offset m"
  "msg_Msg (SetHeader k v m) = msg_Msg m"
  by (simp_all add: SetHeader_def Let_def)

lemma message_wf_SetHeader [intro]: "message_wf m \<Longrightarrow> message_wf (SetHeader k v m)"
  by (auto simp: message_wf_def SetHeader_def Let_def split: option.splits)

lemma message_wf_SetMetadata [intro]: "message_wf m \<Longrightarrow> message_wf (SetMetadata k v m)"
  by (auto simp: message_wf_def SetMetadata_def Let_def split: option.splits)

lemma GetHeader_fold_SetHeader:
  "GetHeader (fold (\<lambda>(k, v). SetHeader k v) h m) key =
     (case map_of (rev h) key of None \<Rightarrow> GetHeader m key | Some v \<Rightarrow> v)"
proof (induction h arbitrary: m)
  case Nil
  then show ?case by simp
next
  case (Cons kv h)
  obtain k v where kv: "kv = (k, v)" by force
  show ?case
    using Cons.IH [of "SetHeader k v m"] by (simp add: kv map_add_def split: option.splits)
qed

lemma fold_SetHeader_frame:
  "\<exists>hs. fold (\<lambda>(k, v). SetHeader k v) h m = m\<lparr>msg_Headers := hs\<rparr>"
proof (induction h arbitrary: m)
  case Nil
  have "m = m\<lparr>msg_Headers := msg_Headers m\<rparr>" by simp
  then show ?case by (metis fold_simps(1))
next
  case (Cons kv h)
  obtain k v where kv: "kv = (k, v)" by force
  obtain hs where "fold (\<lambda>(k, v). SetHeader k v) h (SetHeader k v m)
      = (SetHeader k v m)\<lparr>msg_Headers := hs\<rparr>"
    using Cons.IH by blast
  moreover have "(SetHeader k v m)\<lparr>msg_Headers := hs\<rparr> = m\<lparr>msg_Headers := hs\<rparr>"
    by (simp add: SetHeader_def Let_def)
  ultimately show ?case by (auto simp: kv)
qed

lemma message_wf_fold_SetHeader:
  "message_wf m \<Longrightarrow> message_wf (fold (\<lambda>(k, v). SetHeader k v) h m)"
  by (induction h arbitrary: m) (auto simp: message_wf_SetHeader)

lemma message_wf_InjectContext: "message_wf m \<Longrightarrow> message_wf (InjectContext ms c keys m)"
  unfolding InjectContext_def
  by (induction keys arbitrary: m) (auto simp: Let_def message_wf_SetHeader)

lemma InjectContext_strings:
  assumes "\<forall>k\<in>set ks. \<exists>v. ctx_Value c (DString k) = DString v"
  shows "GetHeader (InjectContext ms c (map DString ks) m) key =
           (if key \<in> set ks then (case ctx_Value c (DString key) of DString v \<Rightarrow> v) else GetHeader m key)"
  using assms
proof (induction ks arbitrary: m rule: rev_induct)
  case Nil
  then show ?case by (simp add: InjectContext_def)
next
  case (snoc k ks)
  then obtain v where "ctx_Value c (DString k) = DString v" by auto
  moreover have "GetHeader (InjectContext ms c (map DString ks) m) key =
      (if key \<in> set ks then (case ctx_Value c (DString key) of DString v \<Rightarrow> v) else GetHeader m key)"
    using snoc by simp
  ultimately show ?case
    by (auto simp: InjectContext_def formatKey_def Let_def)
qed

lemma ExtractToContext_strings:
  assumes "k \<in> set ks" and "GetHeader m k = v" and "v \<noteq> ''''"
  shows "ctx_Value (ExtractToContext m base (map (\<lambda>k. (k, DString k)) ks)) (DString k) = DString v"
  using assms
proof (induction ks arbitrary: base rule: rev_induct)
  case Nil
  then show ?case by simp
next
  case (snoc k' ks)
  then show ?case by (cases "k = k'") (auto simp: ExtractToContext_def Let_def)
qed

section \<open>Properties\<close>

text \<open>
  Merging headers into a message makes every merged key answer with its merged value and
  leaves every other header as it was, from a nil or a non-nil header map, and no other field of
  the message changes.
\<close>

theorem MergeHeaders_spec:
  assumes "gomap_wf h"
  shows "(\<forall>key. GetHeader (MergeHeaders (Some h) m) key =
             (case map_of h key of None \<Rightarrow> GetHeader m key | Some v \<Rightarrow> v))
         \<and> (\<exists>hs. MergeHeaders (Some h) m = m\<lparr>msg_Headers := hs\<rparr>)"
proof
  show "\<forall>key. GetHeader (MergeHeaders (Some h) m) key =
             (case map_of h key of None \<Rightarrow> GetHeader m key | Some v \<Rightarrow> v)"
    using assms by (simp add: MergeHeaders_def GetHeader_fold_SetHeader map_of_rev_distinct)
  show "\<exists>hs. MergeHeaders (Some h) m = m\<lparr>msg_Headers := hs\<rparr>"
    using fold_SetHeader_frame by (simp add: MergeHeaders_def)
qed

theorem MergeHeaders_spec_witness:
  "GetHeader (MergeHeaders (Some [(''a'', ''1''), (''b'', ''2'')])
      (NewMessage DNil [Some (WithHeader ''a'' ''0''), Some (WithHeader ''c'' ''3'')])) ''a'' = ''1''"
  using MergeHeaders_spec [of "[(''a'', ''1''), (''b'', ''2'')]"
      "NewMessage DNil [Some (WithHeader ''a'' ''0''), Some (WithHeader ''c'' ''3'')]"]
  by simp

text \<open>
  String values carried from a context into the headers by \<open>InjectContext\<close> and back into any
  context by \<open>ExtractToContext\<close> arrive unchanged, whatever headers the message had before.
\<close>

theorem context_header_roundtrip:
  assumes "\<forall>k\<in>set ks. \<exists>v. ctx_Value c (DString k) = DString v \<and> v \<noteq> ''''"
    and "k \<in> set ks"
  shows "ctx_Value (ExtractToContext (InjectContext ms c (map DString ks) m) base
                      (map (\<lambda>k. (k, DString k)) ks)) (DString k) = ctx_Value c (DString k)"
proof -
  obtain v where v: "ctx_Value c (DString k) = DString v" "v \<noteq> ''''"
    using assms by blast
  have "GetHeader (InjectContext ms c (map DString ks) m) k = v"
    using InjectContext_strings [of ks c ms m k] assms v by fastforce
  from ExtractToContext_strings [OF assms(2) this v(2)] v(1) show ?thesis by simp
qed

theorem context_header_roundtrip_witness:
  "ctx_Value (ExtractToContext
      (InjectContext \<lparr>m_Ack = (\<lambda>_. None), m_String = (\<lambda>_. None), m_fmt = (\<lambda>_. '''')\<rparr>
         [(DString ''user'', DString ''bob'')] [DString ''user''] (NewMessage DNil []))
      [] [(''user'', DString ''user'')]) (DString ''user'') = DString ''bob''"
  using context_header_roundtrip [of "[''user'']" "[(DString ''user'', DString ''bob'')]" "''user''"
      "\<lparr>m_Ack = (\<lambda>_. None), m_String = (\<lambda>_. None), m_fmt = (\<lambda>_. '''')\<rparr>" "NewMessage DNil []" "[]"]
  by (simp add: ctx_Value_def)

text \<open>
  \<open>Clone\<close> copies every field of a well-formed message, a nil map staying nil; metadata set on
  a message travels through a context unchanged.
\<close>

theorem Clone_and_metadata_context:
  assumes "message_wf m"
  shows "Clone m = m \<and>
         (msg_Metadata m \<noteq> None \<longrightarrow>
            GetMetadataFromContext (ExtractContext (SetMetadata k v (Clone m)) base)
              = Some (gomap_put k v (the (msg_Metadata m))))"
  using assms
  by (auto simp: message_wf_def Clone_def HeadersCopy_def MetadataCopy_def gomap_copy_id
      GetMetadataFromContext_def ExtractContext_def SetMetadata_def Let_def split: option.splits)

theorem Clone_and_metadata_context_witness:
  "Clone (NewMessage DNil [Some (WithID ''7'')]) = NewMessage DNil [Some (WithID ''7'')]"
  using Clone_and_metadata_context [of "NewMessage DNil [Some (WithID ''7'')]"]
  by (simp add: message_wf_def NewMessage_def WithID_def)

end
