(* ===== verification/Broker_Options.thy ===== *)
theory Broker_Options
  imports Broker_Message
begin

text \<open>
  The functional options of the broker package: \<open>broker/options.go\<close>, \<open>publish_options.go\<close>,
  \<open>request_options.go\<close> and \<open>subscribe_options.go\<close>. An option is a function on a pointer to the
  options struct: \<open>None\<close> is the nil pointer, and an outer \<open>None\<close> is the panic of a nil
  dereference, so the options that guard against nil and those that do not are told apart. Function
  values, codecs, TLS configurations and tracing options are opaque references here, because this
  code only stores them. A \<open>time.Duration\<close> is an \<open>int\<close> in nanoseconds: it is stored, never computed with.
\<close>

section \<open>Pointers to option structs\<close>

type_synonym ref = nat
type_synonym 'o opt_fn = "'o option \<Rightarrow> 'o option option"

definition guarded :: "('o \<Rightarrow> 'o) \<Rightarrow> 'o opt_fn" where
  "guarded f = (\<lambda>p. case p of None \<Rightarrow> Some None | Some x \<Rightarrow> Some (Some (f x)))"

definition unguarded :: "('o \<Rightarrow> 'o) \<Rightarrow> 'o opt_fn" where
  "unguarded f = (\<lambda>p. case p of None \<Rightarrow> None | Some x \<Rightarrow> Some (Some (f x)))"

fun apply_each :: "'o opt_fn list \<Rightarrow> 'o option \<Rightarrow> 'o option option" where
  "apply_each [] p = Some p"
| "apply_each (opt # opts) p = (case opt p of None \<Rightarrow> None | Some p' \<Rightarrow> apply_each opts p')"

definition seconds :: "int \<Rightarrow> int" where
  "seconds n = n * 1000000000"

section \<open>Broker options\<close>

datatype tracing_option =
    TracerProvider ref
  | Propagator ref
  | GlobalTracerProvider
  | GlobalPropagator

record Options =
  opt_Addrs :: "string list"
  opt_Codec :: "ref option"
  opt_ErrorHandler :: "ref option"
  opt_Secure :: bool
  opt_TLSConfig :: "ref option"
  opt_Context :: "ctx option"
  opt_Tracings :: "tracing_option list"
  opt_SubscriberMiddlewares :: "ref option list"
  opt_PublishMiddlewares :: "ref option list"

type_synonym Option = "Options opt_fn"

definition Options_Apply :: "Option list \<Rightarrow> Options option \<Rightarrow> Options option option" where
  "Options_Apply opts p = (case p of None \<Rightarrow> Some None | Some x \<Rightarrow> apply_each opts p)"

text \<open>\<open>DefaultCodec\<close> is \<open>encoding.GetCodec("json")\<close> of the kratos library, the parameter \<open>GetCodec\<close>.\<close>

definition NewOptions :: "(string \<Rightarrow> ref option) \<Rightarrow> Options" where
  "NewOptions GetCodec =
     \<lparr>opt_Addrs = [], opt_Codec = GetCodec ''json'', opt_ErrorHandler = None, opt_Secure = False,
      opt_TLSConfig = None, opt_Context = Some [], opt_Tracings = [],
      opt_SubscriberMiddlewares = [], opt_PublishMiddlewares = []\<rparr>"

definition NewOptionsAndApply :: "(string \<Rightarrow> ref option) \<Rightarrow> Option list \<Rightarrow> Options option" where
  "NewOptionsAndApply GetCodec opts =
     (case Options_Apply opts (Some (NewOptions GetCodec)) of None \<Rightarrow> None | Some p \<Rightarrow> p)"

definition WithOptionContext :: "ctx option \<Rightarrow> Option" where
  "WithOptionContext c = guarded (\<lambda>o'. o'\<lparr>opt_Context := c\<rparr>)"

definition OptionContextWithValue :: "dyn \<Rightarrow> dyn \<Rightarrow> Option" where
  "OptionContextWithValue k v =
     guarded (\<lambda>o'. o'\<lparr>opt_Context :=
       Some (ctx_WithValue (case opt_Context o' of None \<Rightarrow> [] | Some c \<Rightarrow> c) k v)\<rparr>)"

definition loggerOptionsKey :: dyn where
  "loggerOptionsKey = DStruct ''broker.loggerOptionsKey'' ''''"

definition WithLogger :: "dyn \<Rightarrow> Option" where
  "WithLogger logger =
     (\<lambda>p. case p of None \<Rightarrow> Some None | Some x \<Rightarrow> OptionContextWithValue loggerOptionsKey logger p)"

text \<open>\<open>is_logger\<close> tells whether a dynamic value implements the \<open>log.Logger\<close> interface.\<close>

definition LoggerFromOptions :: "(dyn \<Rightarrow> bool) \<Rightarrow> Options option \<Rightarrow> dyn" where
  "LoggerFromOptions is_logger p =
     (case p of
        None \<Rightarrow> DNil
      | Some x \<Rightarrow> (case opt_Context x of
                    None \<Rightarrow> DNil
                  | Some c \<Rightarrow> (let l = ctx_Value c loggerOptionsKey in if is_logger l then l else DNil)))"

definition WithAddress :: "string list \<Rightarrow> Option" where
  "WithAddress addressList = guarded (\<lambda>o'. o'\<lparr>opt_Addrs := addressList\<rparr>)"

definition WithCodec :: "(string \<Rightarrow> ref option) \<Rightarrow> string \<Rightarrow> Option" where
  "WithCodec GetCodec name = guarded (\<lambda>o'. o'\<lparr>opt_Codec := GetCodec name\<rparr>)"

definition WithErrorHandler :: "ref option \<Rightarrow> Option" where
  "WithErrorHandler h = guarded (\<lambda>o'. o'\<lparr>opt_ErrorHandler := h\<rparr>)"

definition WithEnableSecure :: "bool \<Rightarrow> Option" where
  "WithEnableSecure enable = guarded (\<lambda>o'. o'\<lparr>opt_Secure := enable\<rparr>)"

definition WithTLSConfig :: "ref option \<Rightarrow> Option" where
  "WithTLSConfig config =
     guarded (\<lambda>o'. let o1 = o'\<lparr>opt_TLSConfig := config\<rparr>
                   in if opt_TLSConfig o1 \<noteq> None then o1\<lparr>opt_Secure := True\<rparr> else o1)"

definition WithTracerProvider :: "ref \<Rightarrow> Option" where
  "WithTracerProvider p = guarded (\<lambda>o'. o'\<lparr>opt_Tracings := opt_Tracings o' @ [TracerProvider p]\<rparr>)"

definition WithPropagator :: "ref \<Rightarrow> Option" where
  "WithPropagator p = guarded (\<lambda>o'. o'\<lparr>opt_Tracings := opt_Tracings o' @ [Propagator p]\<rparr>)"

definition WithGlobalTracerProvider :: Option where
  "WithGlobalTracerProvider =
     guarded (\<lambda>o'. o'\<lparr>opt_Tracings := opt_Tracings o' @ [GlobalTracerProvider]\<rparr>)"

definition WithGlobalPropagator :: Option where
  "WithGlobalPropagator =
     guarded (\<lambda>o'. o'\<lparr>opt_Tracings := opt_Tracings o' @ [GlobalPropagator]\<rparr>)"

definition WithSubscriberMiddlewares :: "ref option list \<Rightarrow> Option" where
  "WithSubscriberMiddlewares mws = guarded (\<lambda>o'. o'\<lparr>opt_SubscriberMiddlewares := mws\<rparr>)"

definition WithPublishMiddlewares :: "ref option list \<Rightarrow> Option" where
  "WithPublishMiddlewares mws = guarded (\<lambda>o'. o'\<lparr>opt_PublishMiddlewares := mws\<rparr>)"

section \<open>Publish options\<close>

record PublishOptions =
  pub_Context :: "ctx option"
  pub_Timeout :: int
  pub_Retries :: int
  pub_Async :: bool
  pub_Callback :: "ref option"
  pub_RequiredAcks :: int
  pub_BodyCodec :: string

type_synonym PublishOption = "PublishOptions opt_fn"

definition PublishOptions_Apply ::
    "PublishOption list \<Rightarrow> PublishOptions option \<Rightarrow> PublishOptions option option" where
  "PublishOptions_Apply opts p = (case p of None \<Rightarrow> Some None | Some x \<Rightarrow> apply_each opts p)"

definition NewPublishOptions :: "PublishOption list \<Rightarrow> PublishOptions option" where
  "NewPublishOptions opts =
     (case PublishOptions_Apply opts
             (Some \<lparr>pub_Context = Some [], pub_Timeout = 0, pub_Retries = 0, pub_Async = False,
                    pub_Callback = None, pub_RequiredAcks = 0, pub_BodyCodec = ''''\<rparr>) of
        None \<Rightarrow> None | Some p \<Rightarrow> p)"

definition PublishContextWithValue :: "dyn \<Rightarrow> dyn \<Rightarrow> PublishOption" where
  "PublishContextWithValue k v =
     guarded (\<lambda>o'. o'\<lparr>pub_Context :=
       Some (ctx_WithValue (case pub_Context o' of None \<Rightarrow> [] | Some c \<Rightarrow> c) k v)\<rparr>)"

definition WithPublishContext :: "ctx option \<Rightarrow> PublishOption" where
  "WithPublishContext c = guarded (\<lambda>o'. o'\<lparr>pub_Context := c\<rparr>)"

definition WithPublishTimeout :: "int \<Rightarrow> PublishOption" where
  "WithPublishTimeout d = unguarded (\<lambda>o'. o'\<lparr>pub_Timeout := d\<rparr>)"

definition WithPublishAsync :: "ref option \<Rightarrow> PublishOption" where
  "WithPublishAsync callback = unguarded (\<lambda>o'. o'\<lparr>pub_Async := True, pub_Callback := callback\<rparr>)"

definition WithPublishRetries :: "int \<Rightarrow> PublishOption" where
  "WithPublishRetries n = unguarded (\<lambda>o'. o'\<lparr>pub_Retries := n\<rparr>)"

definition WithPublishRequiredAcks :: "int \<Rightarrow> PublishOption" where
  "WithPublishRequiredAcks acks = unguarded (\<lambda>o'. o'\<lparr>pub_RequiredAcks := acks\<rparr>)"

definition WithPublishBodyCodec :: "string \<Rightarrow> PublishOption" where
  "WithPublishBodyCodec codec = unguarded (\<lambda>o'. o'\<lparr>pub_BodyCodec := codec\<rparr>)"

definition WithPublishCallback :: "ref option \<Rightarrow> PublishOption" where
  "WithPublishCallback callback = unguarded (\<lambda>o'. o'\<lparr>pub_Callback := callback\<rparr>)"

section \<open>Request options\<close>

record RequestOptions =
  req_Context :: "ctx option"
  req_Timeout :: int
  req_ReplyTopic :: string
  req_BodyCodec :: string

type_synonym RequestOption = "RequestOptions opt_fn"

definition RequestOptions_Apply ::
    "RequestOption list \<Rightarrow> RequestOptions option \<Rightarrow> RequestOptions option option" where
  "RequestOptions_Apply opts p = (case p of None \<Rightarrow> Some None | Some x \<Rightarrow> apply_each opts p)"

definition NewRequestOptions :: "RequestOption list \<Rightarrow> RequestOptions option" where
  "NewRequestOptions opts =
     (case RequestOptions_Apply opts
             (Some \<lparr>req_Context = Some [], req_Timeout = seconds 10, req_ReplyTopic = '''',
                    req_BodyCodec = ''''\<rparr>) of
        None \<Rightarrow> None | Some p \<Rightarrow> p)"

definition RequestContextWithValue :: "dyn \<Rightarrow> dyn \<Rightarrow> RequestOption" where
  "RequestContextWithValue k v =
     guarded (\<lambda>o'. o'\<lparr>req_Context :=
       Some (ctx_WithValue (case req_Context o' of None \<Rightarrow> [] | Some c \<Rightarrow> c) k v)\<rparr>)"

definition WithRequestContext :: "ctx option \<Rightarrow> RequestOption" where
  "WithRequestContext c = guarded (\<lambda>o'. o'\<lparr>req_Context := c\<rparr>)"

definition WithRequestTimeout :: "int \<Rightarrow> RequestOption" where
  "WithRequestTimeout d = unguarded (\<lambda>o'. o'\<lparr>req_Timeout := d\<rparr>)"

definition WithReplyTopic :: "string \<Rightarrow> RequestOption" where
  "WithReplyTopic topic = unguarded (\<lambda>o'. o'\<lparr>req_ReplyTopic := topic\<rparr>)"

definition WithRequestBodyCodec :: "string \<Rightarrow> RequestOption" where
  "WithRequestBodyCodec codec = unguarded (\<lambda>o'. o'\<lparr>req_BodyCodec := codec\<rparr>)"

section \<open>Subscribe options\<close>

record SubscribeOptions =
  sub_Context :: "ctx option"
  sub_AutoAck :: bool
  sub_Queue :: string
  sub_Concurrency :: int
  sub_MaxRetries :: int
  sub_RetryDelay :: int
  sub_Middlewares :: "ref option list"

type_synonym SubscribeOption = "SubscribeOptions opt_fn"

definition SubscribeOptions_Apply ::
    "SubscribeOption list \<Rightarrow> SubscribeOptions option \<Rightarrow> SubscribeOptions option option" where
  "SubscribeOptions_Apply opts p = (case p of None \<Rightarrow> Some None | Some x \<Rightarrow> apply_each opts p)"

definition NewSubscribeOptions :: "SubscribeOption list \<Rightarrow> SubscribeOptions option" where
  "NewSubscribeOptions opts =
     (case SubscribeOptions_Apply opts
             (Some \<lparr>sub_Context = Some [], sub_AutoAck = True, sub_Queue = '''', sub_Concurrency = 1,
                    sub_MaxRetries = 0, sub_RetryDelay = 0, sub_Middlewares = []\<rparr>) of
        None \<Rightarrow> None | Some p \<Rightarrow> p)"

definition SubscribeContextWithValue :: "dyn \<Rightarrow> dyn \<Rightarrow> SubscribeOption" where
  "SubscribeContextWithValue k v =
     guarded (\<lambda>o'. o'\<lparr>sub_Context :=
       Some (ctx_WithValue (case sub_Context o' of None \<Rightarrow> [] | Some c \<Rightarrow> c) k v)\<rparr>)"

definition DisableAutoAck :: SubscribeOption where
  "DisableAutoAck = guarded (\<lambda>o'. o'\<lparr>sub_AutoAck := False\<rparr>)"

definition WithSubscribeAutoAck :: "bool \<Rightarrow> SubscribeOption" where
  "WithSubscribeAutoAck b = guarded (\<lambda>o'. o'\<lparr>sub_AutoAck := b\<rparr>)"

definition WithSubscribeQueueName :: "string \<Rightarrow> SubscribeOption" where
  "WithSubscribeQueueName name = guarded (\<lambda>o'. o'\<lparr>sub_Queue := name\<rparr>)"

definition WithSubscribeGroupID :: "string \<Rightarrow> SubscribeOption" where
  "WithSubscribeGroupID i = WithSubscribeQueueName i"

definition WithSubscribeContext :: "ctx option \<Rightarrow> SubscribeOption" where
  "WithSubscribeContext c = guarded (\<lambda>o'. o'\<lparr>sub_Context := c\<rparr>)"

definition WithSubscribeConcurrency :: "int \<Rightarrow> SubscribeOption" where
  "WithSubscribeConcurrency n = unguarded (\<lambda>o'. o'\<lparr>sub_Concurrency := n\<rparr>)"

definition WithSubscribeRetry :: "int \<Rightarrow> int \<Rightarrow> SubscribeOption" where
  "WithSubscribeRetry maxRetries delay =
     unguarded (\<lambda>o'. o'\<lparr>sub_MaxRetries := maxRetries, sub_RetryDelay := delay\<rparr>)"

definition WithSubscribeMiddlewares :: "ref option list \<Rightarrow> SubscribeOption" where
  "WithSubscribeMiddlewares mws =
     unguarded (\<lambda>o'. o'\<lparr>sub_Middlewares := sub_Middlewares o' @ mws\<rparr>)"

section \<open>Lemmas\<close>

text \<open>An option that neither panics nor loses a non-nil struct, which it changes by \<open>f\<close>.\<close>

definition acts_as :: "'o opt_fn \<Rightarrow> ('o \<Rightarrow> 'o) \<Rightarrow> bool" where
  "acts_as opt f = (\<forall>x. opt (Some x) = Some (Some (f x)))"

lemma acts_as_guarded [simp]: "acts_as (guarded f) f"
  by (simp add: acts_as_def guarded_def)

lemma acts_as_unguarded [simp]: "acts_as (unguarded f) f"
  by (simp add: acts_as_def unguarded_def)

lemma apply_each_acts:
  "list_all2 acts_as opts fs \<Longrightarrow> apply_each opts (Some x) = Some (Some (fold id fs x))"
  by (induction opts fs arbitrary: x rule: list_all2_induct) (auto simp: acts_as_def)

lemma apply_each_append:
  "apply_each (os @ os') p = (case apply_each os p of None \<Rightarrow> None | Some p' \<Rightarrow> apply_each os' p')"
  by (induction os arbitrary: p) (auto split: option.splits)

text \<open>An option that sets one field: the last one in a list of options decides the field.\<close>

locale field_option =
  fixes get :: "'o \<Rightarrow> 'v" and mk :: "'v \<Rightarrow> 'o opt_fn"
  assumes mk_sets: "\<exists>y. mk v (Some x) = Some (Some y) \<and> get y = v"
begin

definition keeps :: "'o opt_fn \<Rightarrow> bool" where
  "keeps opt = (\<forall>x. \<exists>y. opt (Some x) = Some (Some y) \<and> get y = get x)"

lemma apply_each_keeps:
  "list_all keeps os \<Longrightarrow> \<exists>y. apply_each os (Some x) = Some (Some y) \<and> get y = get x"
proof (induction os arbitrary: x)
  case Nil
  then show ?case by simp
next
  case (Cons opt os)
  then obtain y where y: "opt (Some x) = Some (Some y)" "get y = get x"
    by (auto simp: keeps_def)
  then show ?case using Cons.IH [of y] Cons.prems by auto
qed

lemma last_option_decides:
  assumes "apply_each os (Some x) = Some (Some z)" and "list_all keeps os'"
  shows "\<exists>y. apply_each (os @ mk v # os') (Some x) = Some (Some y) \<and> get y = v"
proof -
  obtain y where y: "mk v (Some z) = Some (Some y)" "get y = v"
    using mk_sets by blast
  obtain y' where "apply_each os' (Some y) = Some (Some y')" "get y' = get y"
    using apply_each_keeps [OF assms(2)] by blast
  then show ?thesis using assms(1) y by (simp add: apply_each_append)
qed

end

interpretation queue_opt: field_option sub_Queue WithSubscribeQueueName
  by unfold_locales (simp add: WithSubscribeQueueName_def guarded_def)

interpretation autoack_opt: field_option sub_AutoAck WithSubscribeAutoAck
  by unfold_locales (simp add: WithSubscribeAutoAck_def guarded_def)

interpretation timeout_opt: field_option req_Timeout WithRequestTimeout
  by unfold_locales (simp add: WithRequestTimeout_def unguarded_def)

interpretation secure_opt: field_option opt_Secure WithEnableSecure
  by unfold_locales (simp add: WithEnableSecure_def guarded_def)

lemmas opt_guard_defs [broker_defs] = guarded_def unguarded_def

lemma secure_opt_keeps [simp]:
  "secure_opt.keeps (WithAddress a)" "secure_opt.keeps (WithCodec g n)"
  "secure_opt.keeps (WithErrorHandler h)" "secure_opt.keeps (WithOptionContext c)"
  "secure_opt.keeps (OptionContextWithValue k v)" "secure_opt.keeps (WithTracerProvider p)"
  "secure_opt.keeps (WithPropagator p)" "secure_opt.keeps WithGlobalTracerProvider"
  "secure_opt.keeps WithGlobalPropagator" "secure_opt.keeps (WithSubscriberMiddlewares s)"
  "secure_opt.keeps (WithPublishMiddlewares s)" "secure_opt.keeps (WithTLSConfig None)"
  by (auto simp: secure_opt.keeps_def WithAddress_def WithCodec_def WithErrorHandler_def
      WithOptionContext_def OptionContextWithValue_def WithTracerProvider_def WithPropagator_def
      WithGlobalTracerProvider_def WithGlobalPropagator_def WithSubscriberMiddlewares_def
      WithPublishMiddlewares_def WithTLSConfig_def opt_guard_defs Let_def)

text \<open>The options a driver passes for a reply subscription.\<close>

lemma NewSubscribeOptions_reply:
  "NewSubscribeOptions [WithSubscribeAutoAck True, WithSubscribeQueueName q] =
     Some \<lparr>sub_Context = Some [], sub_AutoAck = True, sub_Queue = q, sub_Concurrency = 1,
           sub_MaxRetries = 0, sub_RetryDelay = 0, sub_Middlewares = []\<rparr>"
  by (simp add: NewSubscribeOptions_def SubscribeOptions_Apply_def WithSubscribeAutoAck_def
      WithSubscribeQueueName_def opt_guard_defs)

lemma NewRequestOptions_acts:
  assumes "list_all2 acts_as opts fs"
  shows "\<exists>r. NewRequestOptions opts = Some r"
  by (simp add: NewRequestOptions_def RequestOptions_Apply_def apply_each_acts [OF assms])

section \<open>Properties\<close>

text \<open>
  A TLS configuration makes the broker secure: whatever the options before it, and any options
  after it that do not set the field themselves, the options that \<open>NewOptionsAndApply\<close> builds have
  \<open>Secure\<close> true; no option in the list panics.
\<close>

theorem WithTLSConfig_secures:
  assumes "list_all2 acts_as os fs" and "list_all secure_opt.keeps os'"
  shows "\<exists>r. NewOptionsAndApply GetCodec (os @ WithTLSConfig (Some c) # os') = Some r
              \<and> opt_Secure r"
proof -
  let ?x = "fold id fs (NewOptions GetCodec)"
  let ?y = "?x\<lparr>opt_TLSConfig := Some c, opt_Secure := True\<rparr>"
  have "WithTLSConfig (Some c) (Some ?x) = Some (Some ?y)"
    by (simp add: WithTLSConfig_def guarded_def Let_def)
  moreover obtain r where "apply_each os' (Some ?y) = Some (Some r)" "opt_Secure r = opt_Secure ?y"
    using secure_opt.apply_each_keeps [OF assms(2)] by blast
  ultimately show ?thesis
    using apply_each_acts [OF assms(1), of "NewOptions GetCodec"]
    by (auto simp: NewOptionsAndApply_def Options_Apply_def apply_each_append)
qed

theorem WithTLSConfig_secures_witness:
  "\<exists>r. NewOptionsAndApply (\<lambda>_. None)
         ([WithEnableSecure False] @ WithTLSConfig (Some 7) # [WithAddress [''h:1'']]) = Some r
       \<and> opt_Secure r"
  using WithTLSConfig_secures [of "[WithEnableSecure False]" "[\<lambda>o'. o'\<lparr>opt_Secure := False\<rparr>]"
      "[WithAddress [''h:1'']]" "\<lambda>_. None" 7]
  by (simp add: WithEnableSecure_def)

end
