(* ===== verification/Broker_Encoding.thy ===== *)
theory Broker_Encoding
  imports Broker_Options
begin

text \<open>
  Message bodies as bytes: \<open>Marshal\<close> and \<open>Unmarshal\<close> of \<open>broker/encoding.go\<close>. The kratos codecs
  and the gob encoder are outside the repository: both are a \<open>codec\<close>, a parameter whose laws are
  named hypotheses of the theorems that need them. The target of \<open>Unmarshal\<close> is a pointer; the
  result is the pointer with what it points to after the call.
\<close>

section \<open>Definitions\<close>

record codec =
  c_Marshal :: "dyn \<Rightarrow> error + slice"
  c_Unmarshal :: "bytes \<Rightarrow> dyn \<Rightarrow> error + dyn"

definition Marshal :: "codec \<Rightarrow> codec option \<Rightarrow> dyn \<Rightarrow> error + slice" where
  "Marshal gob cod msg =
     (if msg = DNil then Inl (ErrNew ''message is nil'')
      else (case cod of
              Some c \<Rightarrow> c_Marshal c msg
            | None \<Rightarrow> (case msg of
                        DBytes b \<Rightarrow> Inr b
                      | DString s \<Rightarrow> Inr (Some s)
                      | _ \<Rightarrow> c_Marshal gob msg)))"

definition Unmarshal :: "codec \<Rightarrow> codec option \<Rightarrow> slice \<Rightarrow> dyn \<Rightarrow> error + dyn" where
  "Unmarshal gob cod inputData outValue =
     (case inputData of
        None \<Rightarrow> Inl (ErrNew ''inputData is nil'')
      | Some b \<Rightarrow>
          if outValue = DNil
          then Inl (ErrNew ''outValue is nil; must be a pointer to the target value'')
          else (case cod of
                  Some c \<Rightarrow> c_Unmarshal c b outValue
                | None \<Rightarrow>
                    (case outValue of
                       DPtr t p \<Rightarrow>
                         if t = TBytes then
                           (if p = None then Inl (GoPanic ''nil pointer dereference'')
                            else Inr (DPtr TBytes (Some (DBytes (Some b)))))
                         else if t = TString then
                           (if p = None then Inl (GoPanic ''nil pointer dereference'')
                            else Inr (DPtr TString (Some (DString b))))
                         else c_Unmarshal gob b outValue
                     | _ \<Rightarrow> c_Unmarshal gob b outValue)))"

text \<open>A codec decodes what it encoded: the documented law of a kratos codec and of gob.\<close>

definition codec_roundtrip :: "codec \<Rightarrow> gotype \<Rightarrow> dyn \<Rightarrow> bool" where
  "codec_roundtrip c t msg =
     (\<exists>b. c_Marshal c msg = Inr (Some b) \<and>
          (\<forall>v. c_Unmarshal c b (DPtr t (Some v)) = Inr (DPtr t (Some msg))))"

section \<open>Properties\<close>

text \<open>
  A body that is marshalled and unmarshalled into a pointer to its own type comes back
  unchanged: byte slices and strings without any codec, every other type when the codec in use (or
  gob, when there is none) decodes what it encoded. A nil byte slice is the exception: it marshals
  without error to a nil slice, which \<open>Unmarshal\<close> rejects.
\<close>

theorem Marshal_Unmarshal_roundtrip:
  assumes "typeof msg = Some t" and "msg \<noteq> DBytes None"
    and "\<And>c. cod = Some c \<Longrightarrow> codec_roundtrip c t msg"
    and "cod = None \<Longrightarrow> t \<notin> {TBytes, TString} \<Longrightarrow> codec_roundtrip gob t msg"
  shows "\<exists>b. Marshal gob cod msg = Inr b \<and>
             Unmarshal gob cod b (DPtr t (Some v)) = Inr (DPtr t (Some msg))
           \<and> (\<exists>e. Marshal gob None (DBytes None) = Inr None \<and>
                  Unmarshal gob None None (DPtr TBytes (Some v)) = Inl e)"
proof (cases cod)
  case None
  then show ?thesis
    using assms by (cases msg) (fastforce simp: Marshal_def Unmarshal_def codec_roundtrip_def)+
next
  case (Some c)
  moreover have "msg \<noteq> DNil" using assms(1) by auto
  ultimately show ?thesis
    using assms(3) [OF Some] by (fastforce simp: Marshal_def Unmarshal_def codec_roundtrip_def)
qed

theorem Marshal_Unmarshal_roundtrip_witness:
  "\<exists>b. Marshal \<lparr>c_Marshal = (\<lambda>_. Inr (Some ''x'')), c_Unmarshal = (\<lambda>_ _. Inr (DPtr TInt (Some (DInt 5))))\<rparr>
            None (DInt 5) = Inr b \<and>
       Unmarshal \<lparr>c_Marshal = (\<lambda>_. Inr (Some ''x'')), c_Unmarshal = (\<lambda>_ _. Inr (DPtr TInt (Some (DInt 5))))\<rparr>
            None b (DPtr TInt (Some DNil)) = Inr (DPtr TInt (Some (DInt 5)))"
  using Marshal_Unmarshal_roundtrip [of "DInt 5" TInt None
      "\<lparr>c_Marshal = (\<lambda>_. Inr (Some ''x'')), c_Unmarshal = (\<lambda>_ _. Inr (DPtr TInt (Some (DInt 5))))\<rparr>" DNil]
  by (auto simp: codec_roundtrip_def)

end
