(* ===== verification/Broker_Handler.thy ===== *)
theory Broker_Handler
  imports Broker_Encoding
begin

text \<open>
  Handlers and middleware of the broker package: \<open>broker/event.go\<close>, \<open>broker/publish.go\<close>,
  \<open>broker/typed_handler.go\<close>, the generic \<open>Subscribe\<close> of \<open>broker/broker.go\<close> and the generic
  \<open>RegisterSubscriber\<close> of \<open>transport/register.go\<close>. A handler may have effects: it takes and returns
  the state of the world, so that a theorem can say whether it ran and whether \<open>Ack\<close> was called.
  A type parameter \<open>T\<close> of the source is a \<open>gotype\<close>; the theorems are about concrete types (the
  type switch of the source is decided by the dynamic type of the body).
\<close>

section \<open>Definitions\<close>

record 'w event =
  evt_Topic :: string
  evt_Message :: "message option"
  evt_RawMessage :: dyn
  evt_Ack :: "'w \<Rightarrow> error option \<times> 'w"
  evt_Error :: "error option"

type_synonym 'w Handler = "ctx \<Rightarrow> 'w event option \<Rightarrow> 'w \<Rightarrow> error option \<times> 'w"
type_synonym 'w TypedHandler =
  "ctx \<Rightarrow> string \<Rightarrow> Headers option \<Rightarrow> dyn option \<Rightarrow> 'w \<Rightarrow> error option \<times> 'w"
type_synonym 'w PublishHandler =
  "ctx \<Rightarrow> string \<Rightarrow> message option \<Rightarrow> PublishOption list \<Rightarrow> 'w \<Rightarrow> error option \<times> 'w"

text \<open>
  \<open>for i := len(mws) - 1; i >= 0; i--\<close>: the second argument is \<open>i + 1\<close>. A nil middleware is skipped.
\<close>

fun chain_loop :: "('h \<Rightarrow> 'h) option list \<Rightarrow> nat \<Rightarrow> 'h \<Rightarrow> 'h" where
  "chain_loop mws 0 h = h"
| "chain_loop mws (Suc i) h =
     chain_loop mws i (case mws ! i of None \<Rightarrow> h | Some mw \<Rightarrow> mw h)"

definition ChainSubscriberMiddleware ::
    "'w Handler \<Rightarrow> ('w Handler \<Rightarrow> 'w Handler) option list \<Rightarrow> 'w Handler" where
  "ChainSubscriberMiddleware h mws =
     (if length mws = 0 then h else chain_loop mws (length mws) h)"

definition ChainPublishMiddleware ::
    "'w PublishHandler \<Rightarrow> ('w PublishHandler \<Rightarrow> 'w PublishHandler) option list \<Rightarrow> 'w PublishHandler" where
  "ChainPublishMiddleware h mws =
     (if length mws = 0 then h else chain_loop mws (length mws) h)"

definition WrapLegacyPublishHandler ::
    "(ctx \<Rightarrow> string \<Rightarrow> dyn \<Rightarrow> PublishOption list \<Rightarrow> 'w \<Rightarrow> error option \<times> 'w) \<Rightarrow> 'w PublishHandler" where
  "WrapLegacyPublishHandler h =
     (\<lambda>c topic msg opts.
        let payload = (case msg of
                         None \<Rightarrow> DNil
                       | Some m \<Rightarrow> if msg_Msg m \<noteq> DNil then msg_Msg m else msg_Body m)
        in h c topic payload opts)"

text \<open>What a pointer value points to.\<close>

fun pointee :: "dyn \<Rightarrow> dyn option" where
  "pointee (DPtr t p) = p"
| "pointee v = None"

text \<open>\<open>fmt.Sprintf("%T", v)\<close>.\<close>

definition type_name :: "dyn \<Rightarrow> string" where
  "type_name v = (case typeof v of Some t \<Rightarrow> type_String t | None \<Rightarrow> ''<nil>'')"

definition TypedToEventHandler :: "gotype \<Rightarrow> 'w TypedHandler \<Rightarrow> 'w Handler" where
  "TypedToEventHandler t h = (\<lambda>c evt w.
     case evt of
       None \<Rightarrow> (Some (ErrNew ''evt is nil''), w)
     | Some e \<Rightarrow>
         (case evt_Message e of
            None \<Rightarrow> (Some (ErrNew ''event message or body is nil''), w)
          | Some m \<Rightarrow>
              if msg_Body m = DNil then (Some (ErrNew ''event message or body is nil''), w)
              else if typeof (msg_Body m) = Some (TPtr t)
              then h c (evt_Topic e) (msg_Headers m) (pointee (msg_Body m)) w
              else if typeof (msg_Body m) = Some t
              then h c (evt_Topic e) (msg_Headers m) (Some (msg_Body m)) w
              else (Some (ErrNew (''unsupported body type: expected *'' @ type_String t @ '', got '' @ type_name (msg_Body m))), w)))"

text \<open>The closure that \<open>broker.Subscribe\<close> passes to the driver.\<close>

definition Subscribe_handler :: "gotype \<Rightarrow> 'w TypedHandler \<Rightarrow> 'w Handler" where
  "Subscribe_handler t h = (\<lambda>c evt w.
     case evt of
       None \<Rightarrow> (Some (ErrNew ''event or message body is nil''), w)
     | Some e \<Rightarrow>
         (case evt_Message e of
            None \<Rightarrow> (Some (ErrNew ''event or message body is nil''), w)
          | Some m \<Rightarrow>
              if msg_Body m = DNil then (Some (ErrNew ''event or message body is nil''), w)
              else if typeof (msg_Body m) = Some (TPtr t) then
                (case h c (evt_Topic e) (msg_Headers m) (pointee (msg_Body m)) w of
                   (Some er, w') \<Rightarrow> (Some er, w')
                 | (None, w') \<Rightarrow> (None, w'))
              else if typeof (msg_Body m) = Some t then
                (case h c (evt_Topic e) (msg_Headers m) (Some (msg_Body m)) w of
                   (Some er, w') \<Rightarrow> (Some er, w')
                 | (None, w') \<Rightarrow> (None, w'))
              else (Some (ErrNew (''unsupported type: expected *'' @ type_String t @ '', got '' @ type_name (msg_Body m))), w)))"

definition Binder :: "gotype \<Rightarrow> dyn \<Rightarrow> unit \<Rightarrow> dyn" where
  "Binder t zero = (\<lambda>_. DPtr t (Some zero))"

text \<open>\<open>broker.Subscribe\<close>: the driver's own method is the parameter \<open>drv\<close>.\<close>

definition Subscribe ::
    "(string \<Rightarrow> 'w Handler \<Rightarrow> (unit \<Rightarrow> dyn) \<Rightarrow> SubscribeOption list \<Rightarrow> 'r) \<Rightarrow>
     gotype \<Rightarrow> dyn \<Rightarrow> string \<Rightarrow> 'w TypedHandler \<Rightarrow> SubscribeOption list \<Rightarrow> 'r" where
  "Subscribe drv t zero topic h opts = drv topic (Subscribe_handler t h) (Binder t zero) opts"

text \<open>The closure of \<open>transport.RegisterSubscriber\<close>: with automatic ack disabled, success acks.\<close>

definition RegisterSubscriber_handler :: "bool \<Rightarrow> gotype \<Rightarrow> 'w TypedHandler \<Rightarrow> 'w Handler" where
  "RegisterSubscriber_handler disableAutoAck t h = (\<lambda>c evt w.
     case evt of
       None \<Rightarrow> (Some (ErrNew ''event or message body is nil''), w)
     | Some e \<Rightarrow>
         (case evt_Message e of
            None \<Rightarrow> (Some (ErrNew ''event or message body is nil''), w)
          | Some m \<Rightarrow>
              if msg_Body m = DNil then (Some (ErrNew ''event or message body is nil''), w)
              else
                (let after_switch =
                   (if typeof (msg_Body m) = Some (TPtr t)
                    then h c (evt_Topic e) (msg_Headers m) (pointee (msg_Body m)) w
                    else if typeof (msg_Body m) = Some t
                    then h c (evt_Topic e) (msg_Headers m) (Some (msg_Body m)) w
                    else (Some (ErrNew (''unsupported type: expected *'' @ type_String t @ '', got '' @ type_name (msg_Body m))), w))
                 in (case after_switch of
                       (Some er, w') \<Rightarrow> (Some er, w')
                     | (None, w') \<Rightarrow> if disableAutoAck then evt_Ack e w' else (None, w')))))"

definition RegisterSubscriber ::
    "(string \<Rightarrow> string \<Rightarrow> bool \<Rightarrow> 'w Handler \<Rightarrow> (unit \<Rightarrow> dyn) \<Rightarrow> SubscribeOption list \<Rightarrow> 'r) \<Rightarrow>
     gotype \<Rightarrow> dyn \<Rightarrow> string \<Rightarrow> string \<Rightarrow> bool \<Rightarrow> 'w TypedHandler \<Rightarrow> SubscribeOption list \<Rightarrow> 'r" where
  "RegisterSubscriber srv t zero topic queue disableAutoAck h opts =
     srv topic queue disableAutoAck (RegisterSubscriber_handler disableAutoAck t h) (Binder t zero) opts"

section \<open>Lemmas\<close>

text \<open>The reference: apply the non-nil middlewares from the last to the first.\<close>

definition chain_ref :: "('h \<Rightarrow> 'h) option list \<Rightarrow> 'h \<Rightarrow> 'h" where
  "chain_ref mws h = foldr (\<lambda>mw. case mw of None \<Rightarrow> id | Some f \<Rightarrow> f) mws h"

lemma chain_loop_take: "n \<le> length mws \<Longrightarrow> chain_loop mws n h = chain_ref (take n mws) h"
proof (induction n arbitrary: h)
  case 0
  then show ?case by (simp add: chain_ref_def)
next
  case (Suc n)
  then show ?case by (simp add: chain_ref_def take_Suc_conv_app_nth split: option.split)
qed

lemma ChainSubscriberMiddleware_ref: "ChainSubscriberMiddleware h mws = chain_ref mws h"
  by (simp add: ChainSubscriberMiddleware_def chain_loop_take) (simp add: chain_ref_def)

lemma ChainPublishMiddleware_ref: "ChainPublishMiddleware h mws = chain_ref mws h"
  by (simp add: ChainPublishMiddleware_def chain_loop_take) (simp add: chain_ref_def)

lemma chain_ref_append: "chain_ref (as @ bs) h = chain_ref as (chain_ref bs h)"
  by (simp add: chain_ref_def)

text \<open>A value whose pointers point to values of their type, as every Go value does; a pointer to an interface may point to any value.\<close>

fun well_typed :: "dyn \<Rightarrow> bool" where
  "well_typed (DPtr t (Some v)) \<longleftrightarrow> (t = TNamed ''interface {}'' \<or> typeof v = Some t) \<and> well_typed v"
| "well_typed v \<longleftrightarrow> True"

definition arg_of_type :: "gotype \<Rightarrow> dyn option \<Rightarrow> bool" where
  "arg_of_type t d \<longleftrightarrow> (case d of None \<Rightarrow> True | Some v \<Rightarrow> typeof v = Some t \<and> well_typed v)"

lemma pointee_typed:
  assumes "well_typed v" "typeof v = Some (TPtr t)" "t \<noteq> TNamed ''interface {}''"
  shows "arg_of_type t (pointee v)"
  using assms by (cases v rule: well_typed.cases) (auto simp: arg_of_type_def split: option.split)

section \<open>Properties\<close>

text \<open>
  C39: \<open>ChainSubscriberMiddleware\<close> and \<open>ChainPublishMiddleware\<close> build the composition of the non-nil
  middlewares with the first one outermost: the indexed loop equals the fold, nil entries have no
  effect, and chaining a concatenation nests the chains.
\<close>

theorem Chain_middleware_order:
  "ChainSubscriberMiddleware h (Some f # mws) = f (ChainSubscriberMiddleware h mws)
   \<and> ChainSubscriberMiddleware h (None # mws) = ChainSubscriberMiddleware h mws
   \<and> ChainSubscriberMiddleware h (as @ bs) = ChainSubscriberMiddleware (ChainSubscriberMiddleware h bs) as
   \<and> ChainSubscriberMiddleware h mws = foldr (\<lambda>mw. case mw of None \<Rightarrow> id | Some f \<Rightarrow> f) mws h
   \<and> ChainPublishMiddleware p (pas @ [Some g]) = ChainPublishMiddleware (g p) pas
   \<and> ChainPublishMiddleware p pas = foldr (\<lambda>mw. case mw of None \<Rightarrow> id | Some f \<Rightarrow> f) pas p"
  by (auto simp: ChainSubscriberMiddleware_ref ChainPublishMiddleware_ref chain_ref_append)
    (simp_all add: chain_ref_def)

text \<open>
  The handler that \<open>transport.RegisterSubscriber\<close> installs delivers the body to the typed handler
  exactly when its dynamic type is \<open>T\<close> or \<open>*T\<close>, and then acknowledges the event exactly when automatic
  acknowledgement is disabled and the handler returned nil; on a nil event, a nil message, a nil
  body or another type it returns an error and nothing runs.
\<close>

theorem RegisterSubscriber_acks_on_success:
  "RegisterSubscriber_handler d t h c evt w =
     (case evt of
        None \<Rightarrow> (Some (ErrNew ''event or message body is nil''), w)
      | Some e \<Rightarrow>
          (case Option.bind (evt_Message e) (\<lambda>m. typeof (msg_Body m)) of
             None \<Rightarrow> (Some (ErrNew ''event or message body is nil''), w)
           | Some bt \<Rightarrow>
               let m = the (evt_Message e) in
               if bt \<noteq> t \<and> bt \<noteq> TPtr t
               then (Some (ErrNew (''unsupported type: expected *'' @ type_String t @ '', got '' @ type_name (msg_Body m))), w)
               else let r = h c (evt_Topic e) (msg_Headers m)
                              (if bt = TPtr t then pointee (msg_Body m) else Some (msg_Body m)) w
                    in if fst r = None \<and> d then evt_Ack e (snd r) else r))"
proof -
  have body_nil: "(typeof b = None) = (b = DNil)" for b by (cases b) auto
  show ?thesis
    by (auto simp: RegisterSubscriber_handler_def body_nil Let_def split: option.splits prod.splits)
qed

text \<open>
  The adapter \<open>TypedToEventHandler\<close>, the closure of \<open>broker.Subscribe\<close> and the closure of
  \<open>transport.RegisterSubscriber\<close> with automatic acknowledgement are interchangeable: they leave the
  same world, succeed on the same events, and pass on the same error of the typed handler.
\<close>

theorem typed_adapters_agree:
  "Subscribe_handler t h c evt w = RegisterSubscriber_handler False t h c evt w
   \<and> snd (TypedToEventHandler t h c evt w) = snd (Subscribe_handler t h c evt w)
   \<and> (fst (TypedToEventHandler t h c evt w) = None) = (fst (Subscribe_handler t h c evt w) = None)"
  by (auto simp: Subscribe_handler_def RegisterSubscriber_handler_def TypedToEventHandler_def Let_def
      split: option.splits prod.splits)

text \<open>
  A typed handler only ever sees values of its type. For every type \<open>T\<close> that is not an interface and every event whose body is a Go
  value, the outcome of each of the three adapters depends only on what the handler does with a \<open>*T\<close> that is nil or points to a well-typed \<open>T\<close>:
  two handlers that agree there cannot be told apart, whatever they do with other arguments. The binder makes such a value.
\<close>

theorem typed_handlers_get_their_type:
  assumes body: "\<And>e m. \<lbrakk>evt = Some e; evt_Message e = Some m\<rbrakk> \<Longrightarrow> well_typed (msg_Body m)"
    and t: "t \<noteq> TNamed ''interface {}''" "typeof zero = Some t" "well_typed zero"
    and agree: "\<And>c topic hs d w. arg_of_type t d \<Longrightarrow> h c topic hs d w = h' c topic hs d w"
  shows "TypedToEventHandler t h c evt w = TypedToEventHandler t h' c evt w \<and> Subscribe_handler t h c evt w = Subscribe_handler t h' c evt w
     \<and> RegisterSubscriber_handler d t h c evt w = RegisterSubscriber_handler d t h' c evt w
     \<and> typeof (Binder t zero ()) = Some (TPtr t) \<and> well_typed (Binder t zero ())"
proof -
  have ptr: "h c topic hs (pointee (msg_Body m)) w = h' c topic hs (pointee (msg_Body m)) w"
    if "evt = Some e" "evt_Message e = Some m" "typeof (msg_Body m) = Some (TPtr t)" for e m topic hs
    using agree pointee_typed [OF body [OF that(1,2)] that(3) t(1)] by blast
  have val: "h c topic hs (Some (msg_Body m)) w = h' c topic hs (Some (msg_Body m)) w"
    if "evt = Some e" "evt_Message e = Some m" "typeof (msg_Body m) = Some t" for e m topic hs
    using agree body [OF that(1,2)] that(3) by (simp add: arg_of_type_def)
  show ?thesis
    using t ptr val
    by (simp add: TypedToEventHandler_def Subscribe_handler_def RegisterSubscriber_handler_def Binder_def Let_def split: option.split)
qed

theorem typed_handlers_get_their_type_witness:
  "Subscribe_handler TInt (\<lambda>c topic hs d w. (None, Suc w)) [] (Some \<lparr>evt_Topic = ''t'', evt_Message = Some (NewMessage (DPtr TInt (Some (DInt 7))) []),
       evt_RawMessage = DNil, evt_Ack = (\<lambda>w. (None, w)), evt_Error = None\<rparr>) 0
   = Subscribe_handler TInt (\<lambda>c topic hs d w. if \<exists>s. d = Some (DString s) then (None, 100) else (None, Suc w)) []
       (Some \<lparr>evt_Topic = ''t'', evt_Message = Some (NewMessage (DPtr TInt (Some (DInt 7))) []),
       evt_RawMessage = DNil, evt_Ack = (\<lambda>w. (None, w)), evt_Error = None\<rparr>) 0"
proof -
  let ?e = "\<lparr>evt_Topic = ''t'', evt_Message = Some (NewMessage (DPtr TInt (Some (DInt 7))) []), evt_RawMessage = DNil,
     evt_Ack = (\<lambda>w. (None, w)), evt_Error = None\<rparr> :: nat event"
  have "TypedToEventHandler TInt (\<lambda>c topic hs d w. (None, Suc w)) [] (Some ?e) 0
      = TypedToEventHandler TInt (\<lambda>c topic hs d w. if \<exists>s. d = Some (DString s) then (None, 100) else (None, Suc w)) [] (Some ?e) 0
     \<and> Subscribe_handler TInt (\<lambda>c topic hs d w. (None, Suc w)) [] (Some ?e) 0
      = Subscribe_handler TInt (\<lambda>c topic hs d w. if \<exists>s. d = Some (DString s) then (None, 100) else (None, Suc w)) [] (Some ?e) 0
     \<and> RegisterSubscriber_handler True TInt (\<lambda>c topic hs d w. (None, Suc w)) [] (Some ?e) 0
      = RegisterSubscriber_handler True TInt (\<lambda>c topic hs d w. if \<exists>s. d = Some (DString s) then (None, 100) else (None, Suc w)) [] (Some ?e) 0
     \<and> typeof (Binder TInt (DInt 0) ()) = Some (TPtr TInt) \<and> well_typed (Binder TInt (DInt 0) ())"
    by (rule typed_handlers_get_their_type) (auto simp: NewMessage_def arg_of_type_def)
  then show ?thesis by simp
qed

end
