(* ===== verification/Broker_Subscriber.thy ===== *)
theory Broker_Subscriber
  imports Broker_Handler
begin

text \<open>
  The table of live subscriptions, \<open>SubscriberSyncMap\<close> of \<open>broker/subscriber.go\<close>, and one driver
  that uses it: the subscriber of \<open>broker/kafka\<close> with its \<open>Unsubscribe\<close>, and the end of
  \<open>kafkaBroker.Subscribe\<close> that stores it. Every operation of the table runs under its mutex, so it
  is one atomic function of the table. The operations that call \<open>Unsubscribe\<close> do so after the mutex
  is released, on a state that holds the table and the driver's world, because a driver's
  \<open>Unsubscribe(true)\<close> calls back into the table (\<open>RemoveOnly\<close>). The interface between the two is the
  locale \<open>subscriber_driver\<close>.
\<close>

section \<open>The table\<close>

type_synonym 'sub SubscriberMap = "(string, 'sub) gomap"
type_synonym ('sub, 'w) sub_state = "'sub SubscriberMap \<times> 'w"
type_synonym ('sub, 'w) unsub_fn =
  "'sub \<Rightarrow> bool \<Rightarrow> ('sub, 'w) sub_state \<Rightarrow> error option \<times> ('sub, 'w) sub_state"

definition NewSubscriberSyncMap :: "'sub SubscriberMap" where
  "NewSubscriberSyncMap = []"

definition SubscriberSyncMap_Topics :: "'sub SubscriberMap \<Rightarrow> string list" where
  "SubscriberSyncMap_Topics m = map fst m"

definition SubscriberSyncMap_Len :: "'sub SubscriberMap \<Rightarrow> nat" where
  "SubscriberSyncMap_Len m = length m"

definition SubscriberSyncMap_Get :: "'sub SubscriberMap \<Rightarrow> string \<Rightarrow> 'sub option" where
  "SubscriberSyncMap_Get m topic = map_of m topic"

definition SubscriberSyncMap_GetAll :: "'sub SubscriberMap \<Rightarrow> 'sub SubscriberMap" where
  "SubscriberSyncMap_GetAll m = gomap_put_all m []"

definition SubscriberSyncMap_Has :: "'sub SubscriberMap \<Rightarrow> string \<Rightarrow> bool" where
  "SubscriberSyncMap_Has m topic = (map_of m topic \<noteq> None)"

definition SubscriberSyncMap_Add :: "string \<Rightarrow> 'sub \<Rightarrow> 'sub SubscriberMap \<Rightarrow> 'sub SubscriberMap" where
  "SubscriberSyncMap_Add topic sub m = gomap_put topic sub m"

definition SubscriberSyncMap_RemoveOnly :: "string \<Rightarrow> 'sub SubscriberMap \<Rightarrow> bool \<times> 'sub SubscriberMap" where
  "SubscriberSyncMap_RemoveOnly topic m =
     (if map_of m topic \<noteq> None then (True, gomap_delete topic m) else (False, m))"

definition SubscriberSyncMap_ForceClear :: "'sub SubscriberMap \<Rightarrow> 'sub SubscriberMap" where
  "SubscriberSyncMap_ForceClear m = []"

definition topic_not_found :: "string \<Rightarrow> error" where
  "topic_not_found topic = ErrNew (''topic['' @ topic @ ''] not found'')"

definition SubscriberSyncMap_Remove ::
    "('sub, 'w) unsub_fn \<Rightarrow> string \<Rightarrow> ('sub, 'w) sub_state \<Rightarrow> error option \<times> ('sub, 'w) sub_state" where
  "SubscriberSyncMap_Remove unsub topic st =
     (case map_of (fst st) topic of
        None \<Rightarrow> (Some (topic_not_found topic), st)
      | Some sub \<Rightarrow> unsub sub True (gomap_delete topic (fst st), snd st))"

definition SubscriberSyncMap_Clear ::
    "('sub, 'w) unsub_fn \<Rightarrow> ('sub, 'w) sub_state \<Rightarrow> ('sub, 'w) sub_state" where
  "SubscriberSyncMap_Clear unsub st =
     fold (\<lambda>sub st. snd (unsub sub False st)) (map snd (fst st)) ([], snd st)"

text \<open>
  The goroutine that unsubscribes keeps running after a timeout: the third component lists the
  calls still pending when the operation returns. \<open>timely\<close> says which calls finish in time.
\<close>

definition SubscriberSyncMap_RemoveWithTimeout ::
    "('sub, 'w) unsub_fn \<Rightarrow> ('sub \<Rightarrow> bool) \<Rightarrow> string \<Rightarrow> string \<Rightarrow> ('sub, 'w) sub_state \<Rightarrow>
     error option \<times> ('sub, 'w) sub_state \<times> ('sub \<times> bool) list" where
  "SubscriberSyncMap_RemoveWithTimeout unsub timely topic timeout st =
     (case map_of (fst st) topic of
        None \<Rightarrow> (Some (topic_not_found topic), st, [])
      | Some sub \<Rightarrow>
          (let st' = (gomap_delete topic (fst st), snd st) in
           if timely sub then (let (e, st'') = unsub sub True st' in (e, st'', []))
           else (Some (ErrNew (''unsubscribe topic['' @ topic @ ''] timeout after '' @ timeout)),
                 st', [(sub, True)])))"

definition SubscriberSyncMap_ClearWithTimeout ::
    "('sub, 'w) unsub_fn \<Rightarrow> ('sub \<Rightarrow> bool) \<Rightarrow> ('sub, 'w) sub_state \<Rightarrow>
     string list \<times> ('sub, 'w) sub_state \<times> ('sub \<times> bool) list" where
  "SubscriberSyncMap_ClearWithTimeout unsub timely st =
     (let subs = gomap_put_all (fst st) [] in
      (map fst (filter (\<lambda>(t, s). \<not> timely s) subs),
       fold (\<lambda>(t, s) st. if timely s then snd (unsub s False st) else st) subs ([], snd st),
       map (\<lambda>(t, s). (s, False)) (filter (\<lambda>(t, s). \<not> timely s) subs)))"

definition SubscriberSyncMap_Foreach ::
    "(string \<Rightarrow> 'sub \<Rightarrow> 'st \<Rightarrow> 'st) \<Rightarrow> 'sub SubscriberMap \<Rightarrow> 'st \<Rightarrow> 'st" where
  "SubscriberSyncMap_Foreach fnc m st = fold (\<lambda>(k, v). fnc k v) m st"

section \<open>The kafka subscriber\<close>

text \<open>
  A subscriber is a heap cell; the table holds its address. \<open>ks_reader\<close> is the kafka reader (nil is
  \<open>None\<close>), \<open>ks_done\<close> whether the done channel is non-nil. The world counts the calls of \<open>Close\<close> on
  each reader, whose result is the parameter \<open>reader_Close\<close>.
\<close>

record ksub =
  ks_topic :: string
  ks_reader :: "ref option"
  ks_closed :: bool
  ks_done :: bool

record kworld =
  kw_heap :: "nat \<Rightarrow> ksub"
  kw_closes :: "ref \<Rightarrow> nat"

definition kafka_newSubscriber :: "string \<Rightarrow> ref \<Rightarrow> ksub" where
  "kafka_newSubscriber topic reader =
     \<lparr>ks_topic = topic, ks_reader = Some reader, ks_closed = False, ks_done = True\<rparr>"

definition kafka_closeLocked :: "(ref \<Rightarrow> error option) \<Rightarrow> nat \<Rightarrow> kworld \<Rightarrow> error option \<times> kworld" where
  "kafka_closeLocked reader_Close s w =
     (let c = kw_heap w s in
      if ks_closed c then (None, w)
      else
        (let err = (case ks_reader c of Some r \<Rightarrow> reader_Close r | None \<Rightarrow> None);
             closes = (case ks_reader c of
                         Some r \<Rightarrow> (kw_closes w)(r := Suc (kw_closes w r))
                       | None \<Rightarrow> kw_closes w)
         in (err, w\<lparr>kw_heap := (kw_heap w)(s := c\<lparr>ks_closed := True, ks_done := False\<rparr>),
                    kw_closes := closes\<rparr>)))"

definition kafka_Unsubscribe :: "(ref \<Rightarrow> error option) \<Rightarrow> (nat, kworld) unsub_fn" where
  "kafka_Unsubscribe reader_Close s removeFromManager st =
     (let (err, w') = kafka_closeLocked reader_Close s (snd st);
          m' = (if removeFromManager
                then snd (SubscriberSyncMap_RemoveOnly (ks_topic (kw_heap w' s)) (fst st))
                else fst st)
      in (err, (m', w')))"

definition kafka_IsClosed :: "kworld \<Rightarrow> nat \<Rightarrow> bool" where
  "kafka_IsClosed w s = ks_closed (kw_heap w s)"

text \<open>The end of \<open>kafkaBroker.Subscribe\<close>: an old subscriber of the topic is unsubscribed first.\<close>

definition kafka_Subscribe_store ::
    "(ref \<Rightarrow> error option) \<Rightarrow> string \<Rightarrow> nat \<Rightarrow> (nat, kworld) sub_state \<Rightarrow> (nat, kworld) sub_state" where
  "kafka_Subscribe_store reader_Close topic sub st =
     (let st' = (case SubscriberSyncMap_Get (fst st) topic of
                   Some old \<Rightarrow> snd (kafka_Unsubscribe reader_Close old False st)
                 | None \<Rightarrow> st)
      in (SubscriberSyncMap_Add topic sub (fst st'), snd st'))"

section \<open>Lemmas\<close>

lemmas sync_map_defs [broker_defs] =
  SubscriberSyncMap_Topics_def SubscriberSyncMap_Len_def SubscriberSyncMap_Get_def
  SubscriberSyncMap_GetAll_def SubscriberSyncMap_Has_def SubscriberSyncMap_Add_def
  SubscriberSyncMap_RemoveOnly_def SubscriberSyncMap_ForceClear_def SubscriberSyncMap_Foreach_def

lemma SubscriberSyncMap_Get_eq: "SubscriberSyncMap_Get m = map_of m"
  by (simp add: fun_eq_iff SubscriberSyncMap_Get_def)

text \<open>The table is a keyed store in which the last subscriber added under a topic is found.\<close>

interpretation sync_map: last_wins_store SubscriberSyncMap_Get
    "\<lambda>t m. snd (SubscriberSyncMap_RemoveOnly t m)" SubscriberSyncMap_Topics "\<lambda>m. gomap_wf m"
    SubscriberSyncMap_Add
proof unfold_locales
  fix s :: "'b SubscriberMap" and k
  show "SubscriberSyncMap_Get (snd (SubscriberSyncMap_RemoveOnly k s)) =
      (SubscriberSyncMap_Get s)(k := None)"
    by (auto simp: SubscriberSyncMap_Get_def SubscriberSyncMap_RemoveOnly_def fun_eq_iff)
next
  fix s :: "'b SubscriberMap"
  show "set (SubscriberSyncMap_Topics s) = dom (SubscriberSyncMap_Get s)"
    by (simp add: SubscriberSyncMap_Get_eq SubscriberSyncMap_Topics_def dom_map_of_conv_image_fst)
qed (auto simp: sync_map_defs fun_eq_iff)

locale subscriber_driver =
  fixes unsub :: "('sub, 'w) unsub_fn"
    and topic_of :: "'w \<Rightarrow> 'sub \<Rightarrow> string"
    and is_closed :: "'w \<Rightarrow> 'sub \<Rightarrow> bool"
  assumes unsub_closes: "is_closed (snd (snd (unsub s b st))) s"
    and unsub_others: "s' \<noteq> s \<Longrightarrow> is_closed (snd (snd (unsub s b st))) s' = is_closed (snd st) s'"
    and unsub_table: "fst (snd (unsub s b st)) =
          (if b then gomap_delete (topic_of (snd st) s) (fst st) else fst st)"
    and unsub_topics: "topic_of (snd (snd (unsub s b st))) = topic_of (snd st)"
begin

abbreviation clear_fold :: "'sub list \<Rightarrow> ('sub, 'w) sub_state \<Rightarrow> ('sub, 'w) sub_state" where
  "clear_fold subs st \<equiv> fold (\<lambda>sub st. snd (unsub sub False st)) subs st"

lemma clear_fold_table: "fst (clear_fold subs st) = fst st"
  by (induction subs arbitrary: st) (auto simp: unsub_table)

lemma clear_fold_closed:
  "is_closed (snd (clear_fold subs st)) s = (s \<in> set subs \<or> is_closed (snd st) s)"
proof (induction subs arbitrary: st)
  case Nil
  then show ?case by simp
next
  case (Cons x subs)
  then show ?case using unsub_closes unsub_others by (cases "s = x") (auto simp: Cons.IH)
qed

lemma Clear_closes_all:
  "fst (SubscriberSyncMap_Clear unsub st) = []
   \<and> (\<forall>s. is_closed (snd (SubscriberSyncMap_Clear unsub st)) s =
           (s \<in> snd ` set (fst st) \<or> is_closed (snd st) s))"
  by (simp add: SubscriberSyncMap_Clear_def clear_fold_table clear_fold_closed)

lemma timely_fold_table:
  "fst (fold (\<lambda>(t, s) st. if timely s then snd (unsub s False st) else st) subs st) = fst st"
  by (induction subs arbitrary: st) (auto simp: unsub_table)

lemma timely_fold_closed:
  "is_closed (snd (fold (\<lambda>(t, s) st. if timely s then snd (unsub s False st) else st) subs st)) s =
     ((s \<in> snd ` set subs \<and> timely s) \<or> is_closed (snd st) s)"
proof (induction subs arbitrary: st)
  case Nil
  then show ?case by simp
next
  case (Cons x subs)
  obtain t x' where x: "x = (t, x')" by force
  show ?case by (simp add: x Cons.IH) (metis unsub_closes unsub_others)
qed

lemma Remove_known:
  assumes "map_of (fst st) topic = Some s"
  shows "is_closed (snd (snd (SubscriberSyncMap_Remove unsub topic st))) s
     \<and> map_of (fst (snd (SubscriberSyncMap_Remove unsub topic st))) =
         (map_of (fst st))(topic := None, topic_of (snd st) s := None)"
  using assms unsub_closes by (simp add: SubscriberSyncMap_Remove_def unsub_table)

end

interpretation kafka: subscriber_driver "kafka_Unsubscribe rc" "\<lambda>w s. ks_topic (kw_heap w s)"
    kafka_IsClosed for rc
proof unfold_locales
  fix s b and st :: "(nat, kworld) sub_state"
  show "fst (snd (kafka_Unsubscribe rc s b st)) =
      (if b then gomap_delete (ks_topic (kw_heap (snd st) s)) (fst st) else fst st)"
    by (auto simp: kafka_Unsubscribe_def kafka_closeLocked_def SubscriberSyncMap_RemoveOnly_def
        Let_def dom_gomap [symmetric] domIff gomap_delete_absent split: prod.splits)
qed (auto simp: kafka_Unsubscribe_def kafka_closeLocked_def kafka_IsClosed_def Let_def fun_eq_iff)

section \<open>Properties\<close>

text \<open>
  \<open>Clear\<close> of the subscription table empties it and unsubscribes exactly the subscribers it held:
  for the kafka driver, afterwards a subscriber is closed if and only if it was in the table or was
  closed before.
\<close>

theorem Clear_unsubscribes_all:
  "fst (SubscriberSyncMap_Clear (kafka_Unsubscribe rc) st) = []
   \<and> (\<forall>s. kafka_IsClosed (snd (SubscriberSyncMap_Clear (kafka_Unsubscribe rc) st)) s =
           (s \<in> snd ` set (fst st) \<or> kafka_IsClosed (snd st) s))"
  by (rule kafka.Clear_closes_all)

text \<open>
  \<open>Remove\<close> and \<open>RemoveWithTimeout\<close> take the topic out of the table before they unsubscribe, and
  fail without any effect when the topic is unknown; on a timeout the entry is gone and the call is
  still pending. \<open>ClearWithTimeout\<close> empties the table, reports exactly the topics whose
  unsubscription was late, and leaves exactly those calls pending.
\<close>

theorem Remove_variants_spec:
  assumes "gomap_wf (fst st)"
  shows "(map_of (fst st) topic = None \<longrightarrow>
            SubscriberSyncMap_Remove (kafka_Unsubscribe rc) topic st = (Some (topic_not_found topic), st) \<and>
            SubscriberSyncMap_RemoveWithTimeout (kafka_Unsubscribe rc) timely topic d st
              = (Some (topic_not_found topic), st, []))
       \<and> (\<forall>s. map_of (fst st) topic = Some s \<longrightarrow>
            map_of (fst (snd (SubscriberSyncMap_Remove (kafka_Unsubscribe rc) topic st))) topic = None \<and>
            kafka_IsClosed (snd (snd (SubscriberSyncMap_Remove (kafka_Unsubscribe rc) topic st))) s \<and>
            (\<not> timely s \<longrightarrow>
               snd (snd (SubscriberSyncMap_RemoveWithTimeout (kafka_Unsubscribe rc) timely topic d st))
                 = [(s, True)] \<and>
               map_of (fst (fst (snd (SubscriberSyncMap_RemoveWithTimeout
                 (kafka_Unsubscribe rc) timely topic d st)))) topic = None))
       \<and> (case SubscriberSyncMap_ClearWithTimeout (kafka_Unsubscribe rc) timely st of
            (failed, st', pending) \<Rightarrow>
              fst st' = [] \<and>
              set failed = {t. \<exists>s. (t, s) \<in> set (fst st) \<and> \<not> timely s} \<and>
              (\<forall>s\<in>snd ` set (fst st). (timely s \<longrightarrow> kafka_IsClosed (snd st') s) \<and>
                                       (\<not> timely s \<longrightarrow> (s, False) \<in> set pending)))"
  using assms kafka.Remove_known [of st topic _ rc]
  by (auto simp: SubscriberSyncMap_Remove_def SubscriberSyncMap_RemoveWithTimeout_def
      SubscriberSyncMap_ClearWithTimeout_def gomap_copy_id kafka.timely_fold_table
      kafka.timely_fold_closed image_iff Let_def split: prod.splits)

theorem Remove_variants_spec_witness:
  "gomap_wf (fst ([(''t'', 3)], \<lparr>kw_heap = (\<lambda>_. kafka_newSubscriber ''t'' 1), kw_closes = (\<lambda>_. 0)\<rparr>))
   \<and> map_of (fst (snd (SubscriberSyncMap_Remove (kafka_Unsubscribe (\<lambda>_. None)) ''t''
        ([(''t'', 3)], \<lparr>kw_heap = (\<lambda>_. kafka_newSubscriber ''t'' 1), kw_closes = (\<lambda>_. 0)\<rparr>)))) ''t'' = None"
  using Remove_variants_spec [of "([(''t'', 3)], \<lparr>kw_heap = (\<lambda>_. kafka_newSubscriber ''t'' 1), kw_closes = (\<lambda>_. 0)\<rparr>)"
      "''t''" "\<lambda>_. None" "\<lambda>_. True" "''1s''"]
  by simp

text \<open>
  However often a kafka subscriber is unsubscribed, its reader is closed once: a second
  \<open>Unsubscribe\<close> returns nil and closes nothing.
\<close>

theorem kafka_Unsubscribe_closes_reader_once:
  "fst (kafka_Unsubscribe rc s b' (snd (kafka_Unsubscribe rc s b st))) = None
   \<and> kw_closes (snd (snd (kafka_Unsubscribe rc s b' (snd (kafka_Unsubscribe rc s b st)))))
       = kw_closes (snd (snd (kafka_Unsubscribe rc s b st)))
   \<and> (\<forall>r. ks_reader (kw_heap (snd st) s) = Some r \<longrightarrow>
        kw_closes (snd (snd (kafka_Unsubscribe rc s b st))) r =
          (if kafka_IsClosed (snd st) s then kw_closes (snd st) r else Suc (kw_closes (snd st) r)))"
  by (auto simp: kafka_Unsubscribe_def kafka_closeLocked_def kafka_IsClosed_def Let_def)

theorem kafka_Unsubscribe_closes_reader_once_witness:
  "kw_closes (snd (snd (kafka_Unsubscribe (\<lambda>_. None) 0 True
     ([(''t'', 0)], \<lparr>kw_heap = (\<lambda>_. kafka_newSubscriber ''t'' 4), kw_closes = (\<lambda>_. 0)\<rparr>)))) 4 = Suc 0"
  using kafka_Unsubscribe_closes_reader_once [of "\<lambda>_. None" 0 True True
      "([(''t'', 0)], \<lparr>kw_heap = (\<lambda>_. kafka_newSubscriber ''t'' 4), kw_closes = (\<lambda>_. 0)\<rparr>)"]
  by (simp add: kafka_newSubscriber_def kafka_IsClosed_def)

text \<open>
  Subscribing again to a topic closes the old kafka subscriber and stores the new one; but the
  old handle still names the topic, so a later \<open>Unsubscribe(true)\<close> on it removes the new, live
  subscriber from the table: it stays open and no later \<open>Clear\<close> reaches it.
\<close>

theorem kafka_stale_Unsubscribe_drops_live_subscriber:
  assumes "map_of m topic = Some old" and "new \<noteq> old"
    and "ks_topic (kw_heap w old) = topic" and "\<not> kafka_IsClosed w new" and "gomap_wf m"
    and "new \<notin> snd ` set m"
  shows "let st1 = kafka_Subscribe_store rc topic new (m, w);
             st2 = snd (kafka_Unsubscribe rc old True st1)
         in kafka_IsClosed (snd st1) old \<and> SubscriberSyncMap_Get (fst st1) topic = Some new
          \<and> SubscriberSyncMap_Get (fst st2) topic = None
          \<and> \<not> kafka_IsClosed (snd (SubscriberSyncMap_Clear (kafka_Unsubscribe rc) st2)) new"
proof -
  define st1 where "st1 = kafka_Subscribe_store rc topic new (m, w)"
  define st2 where "st2 = snd (kafka_Unsubscribe rc old True st1)"
  let ?st = "snd (kafka_Unsubscribe rc old False (m, w))"
  have st1: "st1 = (gomap_put topic new m, snd ?st)"
    using assms(1) kafka.unsub_table [of rc old False "(m, w)"]
    by (simp add: st1_def kafka_Subscribe_store_def SubscriberSyncMap_Get_def SubscriberSyncMap_Add_def)
  have topic1: "ks_topic (kw_heap (snd ?st) old) = topic"
    using assms(3) kafka.unsub_topics [of rc old False "(m, w)"] by (metis snd_conv)
  have t2: "fst st2 = gomap_delete topic (gomap_put topic new m)"
    using kafka.unsub_table [of rc old True st1] topic1 by (simp add: st2_def st1)
  have open1: "\<not> kafka_IsClosed (snd st1) new"
    using kafka.unsub_others [OF assms(2), of rc False "(m, w)"] assms(4) by (simp add: st1)
  then have open2: "\<not> kafka_IsClosed (snd st2) new"
    using kafka.unsub_others [OF assms(2), of rc True st1] by (simp add: st2_def)
  have "new \<notin> snd ` set (fst st2)"
  proof
    assume "new \<in> snd ` set (fst st2)"
    then obtain t where t: "(t, new) \<in> set (fst st2)" by auto
    have wf: "gomap_wf (fst st2)" unfolding t2 using assms(5) by auto
    from t wf have "map_of (fst st2) t = Some new" by (simp add: map_of_eq_Some_iff)
    then have "map_of m t = Some new" by (auto simp: t2 split: if_splits)
    with assms(6) show False by (metis map_of_SomeD image_eqI snd_conv)
  qed
  then show ?thesis
    using kafka.Clear_closes_all [of rc st2] open2 kafka.unsub_closes [of rc old False "(m, w)"]
    by (simp add: Let_def st1_def [symmetric] st2_def [symmetric])
      (simp add: st1 t2 SubscriberSyncMap_Get_def)
qed

theorem kafka_stale_Unsubscribe_drops_live_subscriber_witness:
  "SubscriberSyncMap_Get (fst (snd (kafka_Unsubscribe (\<lambda>_. None) 0 True
      (kafka_Subscribe_store (\<lambda>_. None) ''t'' 1
        ([(''t'', 0)], \<lparr>kw_heap = (\<lambda>_. kafka_newSubscriber ''t'' 4), kw_closes = (\<lambda>_. 0)\<rparr>))))) ''t'' = None"
  using kafka_stale_Unsubscribe_drops_live_subscriber [of "[(''t'', 0)]" "''t''" 0 1
      "\<lparr>kw_heap = (\<lambda>_. kafka_newSubscriber ''t'' 4), kw_closes = (\<lambda>_. 0)\<rparr>" "\<lambda>_. None"]
  by (simp add: kafka_IsClosed_def kafka_newSubscriber_def Let_def)

end
