(* ===== verification/Broker_Request.thy ===== *)
theory Broker_Request
  imports Broker_Subscriber
begin

text \<open>
  Request and reply over publish and subscribe: \<open>broker/request_reply.go\<close>. The driver and the
  passing of time are the environment: whether \<open>Subscribe\<close> and \<open>Publish\<close> fail, which events the
  driver delivers to the reply handler before the request ends and in which order, the identifiers
  \<open>uuid.NewString\<close> returns, and when the context is done. The model returns the result together with
  the calls made on the driver, in order. \<open>None\<close> as a result means that the call blocks forever
  (no reply, and a context that is never done).
\<close>

section \<open>Definitions\<close>

definition HeaderReplyTo :: string where
  "HeaderReplyTo = ''Reply-To''"

definition HeaderCorrelationID :: string where
  "HeaderCorrelationID = ''Correlation-ID''"

definition ErrRequestMessageNil :: error where
  "ErrRequestMessageNil = ErrNew ''request message is nil''"

definition ErrRequestNoReplyTo :: error where
  "ErrRequestNoReplyTo = ErrNew ''request message has no Reply-To header''"

datatype broker_call =
    CallSubscribe string "SubscribeOptions option"
  | CallPublish string message
  | CallUnsubscribe bool

text \<open>
  \<open>env_deliveries\<close> are the messages of the events given to the reply handler (\<open>None\<close> for a nil
  event or message); \<open>env_ctx_err\<close> is \<open>ctx.Err()\<close> once the context is done, \<open>None\<close> if it never is;
  \<open>env_done_first\<close> tells that the \<open>select\<close> takes the done branch although a reply is there.
\<close>

record request_env =
  env_subscribe_err :: "error option"
  env_publish_err :: "error option"
  env_uuid_topic :: string
  env_uuid_id :: string
  env_deliveries :: "message option list"
  env_ctx_err :: "error option"
  env_done_first :: bool
  env_duration_String :: "int \<Rightarrow> string"

text \<open>The reply handler: the channel of capacity one is an option.\<close>

definition reply_handler :: "string \<Rightarrow> message option \<Rightarrow> message option \<Rightarrow> message option" where
  "reply_handler reqID evt replyCh =
     (case evt of
        None \<Rightarrow> replyCh
      | Some m \<Rightarrow>
          (let cid = GetHeader m HeaderCorrelationID in
           if cid \<noteq> '''' \<and> cid \<noteq> reqID then replyCh
           else (case replyCh of None \<Rightarrow> Some m | Some r \<Rightarrow> Some r)))"

text \<open>What \<open>GenericRequest\<close> writes into the request before it publishes it.\<close>

definition prepare_request :: "request_env \<Rightarrow> RequestOptions \<Rightarrow> message \<Rightarrow> string \<times> message" where
  "prepare_request env options msg =
     (let replyTopic = (if req_ReplyTopic options = ''''
                        then ''kratos.reply.'' @ env_uuid_topic env else req_ReplyTopic options);
          m1 = (if msg_ID msg = '''' then msg\<lparr>msg_ID := env_uuid_id env\<rparr> else msg);
          h0 = (case msg_Headers m1 of None \<Rightarrow> [] | Some h \<Rightarrow> h);
          h1 = gomap_put HeaderCorrelationID (msg_ID m1) (gomap_put HeaderReplyTo replyTopic h0)
      in (replyTopic, m1\<lparr>msg_Headers := Some h1\<rparr>))"

definition GenericRequest ::
    "request_env \<Rightarrow> bool \<Rightarrow> string \<Rightarrow> message option \<Rightarrow> RequestOption list \<Rightarrow>
     (error + message) option \<times> broker_call list" where
  "GenericRequest env broker_nil topic msg opts =
     (if broker_nil then (Some (Inl (ErrNew ''broker is nil'')), [])
      else (case msg of
        None \<Rightarrow> (Some (Inl ErrRequestMessageNil), [])
      | Some m0 \<Rightarrow>
          (case NewRequestOptions opts of
             None \<Rightarrow> (Some (Inl (GoPanic ''request option'')), [])
           | Some options \<Rightarrow>
               (let (replyTopic, m) = prepare_request env options m0;
                    subscribe = CallSubscribe replyTopic
                      (NewSubscribeOptions [WithSubscribeAutoAck True, WithSubscribeQueueName replyTopic])
                in case env_subscribe_err env of
                     Some e \<Rightarrow>
                       (Some (Inl (ErrWrap (''subscribe reply topic '' @ replyTopic @ '' failed'') e)),
                        [subscribe])
                   | None \<Rightarrow>
                       (case env_publish_err env of
                          Some e \<Rightarrow>
                            (Some (Inl (ErrWrap ''publish request failed'' e)),
                             [subscribe, CallPublish topic m, CallUnsubscribe True])
                        | None \<Rightarrow>
                            (let replyCh = fold (reply_handler (msg_ID m)) (env_deliveries env) None;
                                 done = (case env_ctx_err env of
                                           None \<Rightarrow> None
                                         | Some e \<Rightarrow>
                                             Some (Inl (if errors_Is e ErrDeadlineExceeded \<and> req_Timeout options > 0
                                                        then ErrNew (''request timeout after '' @
                                                               env_duration_String env (req_Timeout options))
                                                        else e)));
                                 calls = [subscribe, CallPublish topic m, CallUnsubscribe True]
                             in (case replyCh of
                                   Some reply \<Rightarrow>
                                     if env_done_first env \<and> done \<noteq> None then (done, calls)
                                     else (Some (Inr reply), calls)
                                 | None \<Rightarrow>
                                     (case done of
                                        None \<Rightarrow> (None, butlast calls)
                                      | Some r \<Rightarrow> (Some r, calls)))))))))"

definition NewReply :: "message option \<Rightarrow> dyn \<Rightarrow> message" where
  "NewReply request body =
     (let reply = NewMessage body [] in
      case request of
        None \<Rightarrow> reply
      | Some r \<Rightarrow> (let cid = GetHeader r HeaderCorrelationID in
                  if cid \<noteq> '''' then SetHeader HeaderCorrelationID cid reply else reply))"

text \<open>\<open>ReplyTo\<close>: the driver's \<open>Publish\<close> is the parameter \<open>pub\<close>.\<close>

definition ReplyTo ::
    "(string \<Rightarrow> message \<Rightarrow> PublishOption list \<Rightarrow> error option) \<Rightarrow> bool \<Rightarrow> message option \<Rightarrow> dyn \<Rightarrow>
     PublishOption list \<Rightarrow> error option \<times> broker_call list" where
  "ReplyTo pub broker_nil request body opts =
     (if broker_nil then (Some (ErrNew ''broker is nil''), [])
      else (case request of
        None \<Rightarrow> (Some ErrRequestMessageNil, [])
      | Some r \<Rightarrow>
          (let replyTopic = GetHeader r HeaderReplyTo in
           if replyTopic = '''' then (Some ErrRequestNoReplyTo, [])
           else (pub replyTopic (NewReply request body) opts,
                 [CallPublish replyTopic (NewReply request body)]))))"

section \<open>Lemmas\<close>

lemma header_names_differ [simp]: "HeaderReplyTo \<noteq> HeaderCorrelationID" "HeaderCorrelationID \<noteq> HeaderReplyTo"
  by (simp_all add: HeaderReplyTo_def HeaderCorrelationID_def)

definition reply_accepted :: "string \<Rightarrow> message \<Rightarrow> bool" where
  "reply_accepted reqID m =
     (GetHeader m HeaderCorrelationID = '''' \<or> GetHeader m HeaderCorrelationID = reqID)"

lemma reply_handler_simps [simp]:
  "reply_handler i evt (Some r) = Some r"
  "reply_handler i None None = None"
  "reply_handler i (Some m) None = (if reply_accepted i m then Some m else None)"
  by (auto simp: reply_handler_def reply_accepted_def Let_def split: option.splits)

text \<open>The channel keeps the first acceptable message; the rest are dropped.\<close>

lemma fold_reply_handler_Some [simp]: "fold (reply_handler i) ds (Some r) = Some r"
  by (induction ds) auto

lemma fold_reply_handler:
  "fold (reply_handler i) ds None = List.find (reply_accepted i) (List.map_filter id ds)"
proof (induction ds)
  case Nil
  then show ?case by (simp add: List.map_filter_simps)
next
  case (Cons d ds)
  then show ?case by (cases d) (auto simp: List.map_filter_simps)
qed

lemma prepare_request_headers:
  assumes "prepare_request env options m0 = (rt, m)"
  shows "GetHeader m HeaderReplyTo = rt" "GetHeader m HeaderCorrelationID = msg_ID m"
    and "msg_Body m = msg_Body m0"
    and "msg_ID m = (if msg_ID m0 = '''' then env_uuid_id env else msg_ID m0)"
  using assms by (auto simp: prepare_request_def Let_def GetHeader_def)

lemma GetHeader_NewMessage [simp]: "GetHeader (NewMessage body []) k = ''''"
  by (simp add: NewMessage_def GetHeader_def)

lemma NewReply_correlation:
  "GetHeader (NewReply (Some m) body) HeaderCorrelationID = GetHeader m HeaderCorrelationID"
  by (simp add: NewReply_def Let_def SetHeader_def GetHeader_def NewMessage_def split: option.split)

lemma NewReply_accepted:
  "GetHeader r HeaderCorrelationID = i \<Longrightarrow> reply_accepted i (NewReply (Some r) body)"
  by (simp add: NewReply_def reply_accepted_def Let_def)

lemma GenericRequest_ok:
  assumes "NewRequestOptions opts = Some options" and "prepare_request env options m0 = (rt, m)"
    and "env_subscribe_err env = None" and "env_publish_err env = None"
    and "fold (reply_handler (msg_ID m)) (env_deliveries env) None = Some reply"
    and "\<not> env_done_first env"
  shows "fst (GenericRequest env False topic (Some m0) opts) = Some (Inr reply)"
  using assms by (simp add: GenericRequest_def Let_def)

section \<open>Properties\<close>

text \<open>
  C22: a request answered through \<open>ReplyTo\<close> gets its answer. \<open>GenericRequest\<close> subscribes the reply topic
  \<open>rt\<close> with the queue of the same name, publishes the request and unsubscribes, in this order; a responder that
  answers the published request with \<open>ReplyTo\<close> publishes its reply, with the request's correlation id, to that same topic
  \<open>rt\<close>; and the requester returns this reply, whatever nil events and foreign replies with another nonempty correlation id were
  delivered before it, and whatever is delivered after it. The hypotheses: the options are valid and the reply topic is not
  empty, the driver's \<open>Subscribe\<close> and the publishing of the request succeed, the reply is
  among the messages delivered on the reply topic, and the context does not end before the select takes the reply.
\<close>

theorem request_reply_roundtrip:
  assumes "NewRequestOptions opts = Some options"
    and "prepare_request env options m0 = (rt, m)" and "rt \<noteq> ''''"
    and "env_subscribe_err env = None" and "env_publish_err env = None"
    and "env_deliveries env = before @ Some (NewReply (Some m) body) # after"
    and "\<forall>d\<in>set before. case d of None \<Rightarrow> True
           | Some f \<Rightarrow> GetHeader f HeaderCorrelationID \<notin> {'''', msg_ID m}"
    and "\<not> env_done_first env"
  shows "fst (GenericRequest env False topic (Some m0) opts) = Some (Inr (NewReply (Some m) body))
       \<and> snd (ReplyTo pub False (Some m) body []) = [CallPublish rt (NewReply (Some m) body)]
       \<and> (\<exists>so. snd (GenericRequest env False topic (Some m0) opts) = [CallSubscribe rt (Some so), CallPublish topic m, CallUnsubscribe True]
              \<and> sub_Queue so = rt)
       \<and> GetHeader (NewReply (Some m) body) HeaderCorrelationID = msg_ID m"
proof -
  let ?r = "NewReply (Some m) body"
  have skip: "List.find (reply_accepted (msg_ID m)) (List.map_filter id before) = None"
    using assms(7) by (fastforce simp: find_None_iff List.map_filter_def reply_accepted_def)
  have acc: "reply_accepted (msg_ID m) ?r"
    using NewReply_accepted prepare_request_headers(2) [OF assms(2)] .
  have cid: "GetHeader ?r HeaderCorrelationID = msg_ID m"
    using NewReply_correlation prepare_request_headers(2) [OF assms(2)] by simp
  have "fold (reply_handler (msg_ID m)) (env_deliveries env) None = Some ?r"
    using skip acc by (simp add: assms(6) fold_reply_handler [symmetric])
  from GenericRequest_ok [OF assms(1,2,4,5) this assms(8)] show ?thesis
    using assms(1-5,8) prepare_request_headers(1) [OF assms(2)] \<open>fold _ _ _ = _\<close> cid
    by (simp add: ReplyTo_def GenericRequest_def Let_def NewSubscribeOptions_reply)
qed

theorem request_reply_roundtrip_witness:
  "fst (GenericRequest
      \<lparr>env_subscribe_err = None, env_publish_err = None, env_uuid_topic = ''u'', env_uuid_id = ''i'',
       env_deliveries = [None, Some (NewReply (Some ((NewMessage (DInt 1) [])
          \<lparr>msg_ID := ''i'', msg_Headers := Some [(''Reply-To'', ''kratos.reply.u''), (''Correlation-ID'', ''i'')]\<rparr>)) (DInt 2))],
       env_ctx_err = None, env_done_first = False, env_duration_String = (\<lambda>_. '''')\<rparr>
      False ''t'' (Some (NewMessage (DInt 1) [])) [])
    = Some (Inr (NewReply (Some ((NewMessage (DInt 1) [])
          \<lparr>msg_ID := ''i'', msg_Headers := Some [(''Reply-To'', ''kratos.reply.u''), (''Correlation-ID'', ''i'')]\<rparr>)) (DInt 2)))"
  by (rule request_reply_roundtrip [where rt = "''kratos.reply.u''" and before = "[None]" and after = "[]"
        and options = "\<lparr>req_Context = Some [], req_Timeout = seconds 10, req_ReplyTopic = '''', req_BodyCodec = ''''\<rparr>",
        THEN conjunct1])
    (simp_all add: NewRequestOptions_def RequestOptions_Apply_def prepare_request_def NewMessage_def
      Let_def gomap_put_def HeaderReplyTo_def HeaderCorrelationID_def)

text \<open>
  \<open>GenericRequest\<close> never returns another request's answer: the message it returns is one that was
  delivered, and it carries this request's correlation id or none at all; it is the first such one.
\<close>

theorem GenericRequest_correlation:
  assumes "fst (GenericRequest env False topic (Some m0) opts) = Some (Inr reply)"
    and "NewRequestOptions opts = Some options" and "prepare_request env options m0 = (rt, m)"
  shows "List.find (\<lambda>d. GetHeader d HeaderCorrelationID = '''' \<or> GetHeader d HeaderCorrelationID = msg_ID m)
           (List.map_filter id (env_deliveries env)) = Some reply"
  using assms
  by (auto simp: GenericRequest_def Let_def fold_reply_handler reply_accepted_def [abs_def]
      split: option.splits if_splits)

theorem GenericRequest_correlation_witness:
  "List.find (\<lambda>d. GetHeader d HeaderCorrelationID = '''' \<or> GetHeader d HeaderCorrelationID = ''i'')
     (List.map_filter id [Some (NewMessage (DInt 2) [])]) = Some (NewMessage (DInt 2) [])"
proof -
  define env where "env = \<lparr>env_subscribe_err = None, env_publish_err = None, env_uuid_topic = ''u'', env_uuid_id = ''i'',
       env_deliveries = [Some (NewMessage (DInt 2) [])],
       env_ctx_err = None, env_done_first = False, env_duration_String = (\<lambda>_. '''')\<rparr>"
  define opt where "opt = \<lparr>req_Context = Some [], req_Timeout = seconds 10, req_ReplyTopic = '''', req_BodyCodec = ''''\<rparr>"
  define m where "m = (NewMessage (DInt 1) [])\<lparr>msg_ID := ''i'',
       msg_Headers := Some [(''Reply-To'', ''kratos.reply.u''), (''Correlation-ID'', ''i'')]\<rparr>"
  have o: "NewRequestOptions [] = Some opt"
    by (simp add: NewRequestOptions_def RequestOptions_Apply_def opt_def)
  have p: "prepare_request env opt (NewMessage (DInt 1) []) = (''kratos.reply.u'', m)"
    by (simp add: prepare_request_def env_def opt_def m_def NewMessage_def Let_def gomap_put_def
        HeaderReplyTo_def HeaderCorrelationID_def)
  have "fst (GenericRequest env False ''t'' (Some (NewMessage (DInt 1) [])) []) = Some (Inr (NewMessage (DInt 2) []))"
    by (rule GenericRequest_ok [OF o p]) (simp_all add: env_def reply_accepted_def)
  from GenericRequest_correlation [OF this o p] show ?thesis
    by (simp add: env_def m_def NewMessage_def)
qed

text \<open>
  The calls on the driver are always a prefix of subscribe, publish, unsubscribe, in this order:
  the reply topic is subscribed before the request is published, nothing is published when the
  subscription fails, and whenever the request returns after a successful subscription the
  subscription has been removed again with \<open>Unsubscribe(true)\<close>.
\<close>

theorem GenericRequest_call_order:
  assumes "NewRequestOptions opts = Some options" and "prepare_request env options m0 = (rt, m)"
    and "GenericRequest env False topic (Some m0) opts = (res, calls)"
  shows "\<exists>so. calls = take (length calls) [CallSubscribe rt so, CallPublish topic m, CallUnsubscribe True]
       \<and> so = Some \<lparr>sub_Context = Some [], sub_AutoAck = True, sub_Queue = rt, sub_Concurrency = 1,
                     sub_MaxRetries = 0, sub_RetryDelay = 0, sub_Middlewares = []\<rparr>
       \<and> (env_subscribe_err env \<noteq> None \<longrightarrow> length calls = 1)
       \<and> (env_subscribe_err env = None \<and> res \<noteq> None \<longrightarrow> length calls = 3)
       \<and> (env_ctx_err env \<noteq> None \<longrightarrow> res \<noteq> None)"
  using assms
  by (auto simp: GenericRequest_def Let_def NewSubscribeOptions_reply split: option.splits if_splits)

theorem GenericRequest_call_order_witness:
  "\<exists>so. snd (GenericRequest
      \<lparr>env_subscribe_err = Some ErrClosed, env_publish_err = None, env_uuid_topic = ''u'', env_uuid_id = ''i'',
       env_deliveries = [], env_ctx_err = None, env_done_first = False, env_duration_String = (\<lambda>_. '''')\<rparr>
      False ''t'' (Some (NewMessage (DInt 1) [])) []) = [CallSubscribe ''kratos.reply.u'' so]"
proof -
  define env where "env = \<lparr>env_subscribe_err = Some ErrClosed, env_publish_err = None, env_uuid_topic = ''u'',
       env_uuid_id = ''i'', env_deliveries = [], env_ctx_err = None, env_done_first = False,
       env_duration_String = (\<lambda>_. '''')\<rparr>"
  define opt where "opt = \<lparr>req_Context = Some [], req_Timeout = seconds 10, req_ReplyTopic = '''', req_BodyCodec = ''''\<rparr>"
  have o: "NewRequestOptions [] = Some opt"
    by (simp add: NewRequestOptions_def RequestOptions_Apply_def opt_def)
  obtain m where p: "prepare_request env opt (NewMessage (DInt 1) []) = (''kratos.reply.u'', m)"
    by (simp add: prepare_request_def env_def opt_def Let_def)
  obtain res calls where g: "GenericRequest env False ''t'' (Some (NewMessage (DInt 1) [])) [] = (res, calls)"
    by force
  have "length calls = 1"
    using GenericRequest_call_order [OF o p g] by (auto simp: env_def)
  with GenericRequest_call_order [OF o p g] have "\<exists>so. calls = [CallSubscribe ''kratos.reply.u'' so]"
    by auto
  with g show ?thesis by (simp add: env_def)
qed

end
