(* ===== verification/Kafka_Publish.thy ===== *)
theory Kafka_Publish
  imports Broker_Request
begin

text \<open>
  Publishing with the kafka driver: \<open>broker/kafka/writer.go\<close>, the conversion of messages, and the two publishing
  routines of \<open>kafka.go\<close> with their retries. The third-party \<open>kafka-go\<close> writers are numbers; what their
  \<open>WriteMessages\<close> and \<open>Close\<close> return is the environment: \<open>kp_write env n\<close> is the result of the \<open>n\<close>-th write of
  the run, \<open>kp_close env w\<close> that of closing writer \<open>w\<close>. The world counts the writes, and records which
  messages were accepted (\<open>kp_accepted\<close>: a call of \<open>WriteMessages\<close> returned nil) and which writers are open. An accepted message need not have reached kafka: the
  default writer is asynchronous and only queues it, and the driver learns nothing more. Tracing spans and the time of the pause before a second
  attempt are left out.
\<close>

section \<open>Messages of the driver\<close>

record kmsg =
  km_Topic :: string
  km_Value :: slice
  km_Key :: bytes
  km_Headers :: "(string \<times> bytes) list"
  km_Partition :: int
  km_Offset :: int

text \<open>The message that both routines build from a \<open>broker.Message\<close> whose body is already encoded.\<close>

definition kafka_message :: "string \<Rightarrow> message \<Rightarrow> kmsg" where
  "kafka_message topic msg =
     \<lparr>km_Topic = topic, km_Value = BodyBytes msg, km_Key = msg_Key msg,
      km_Headers = fold (\<lambda>(k, v) hs. hs @ [(k, v)]) (case msg_Headers msg of None \<Rightarrow> [] | Some h \<Rightarrow> h) [],
      km_Partition = msg_Partition msg, km_Offset = msg_Offset msg\<rparr>"

definition kafkaHeaderToMap :: "(string \<times> bytes) list \<Rightarrow> Headers" where
  "kafkaHeaderToMap h = fold (\<lambda>(k, v) m. gomap_put k v m) h []"

section \<open>Writers\<close>

text \<open>An error of \<open>WriteMessages\<close>; \<open>we_kafka\<close> holds \<open>Temporary()\<close> and \<open>Timeout()\<close> when it is a \<open>kafka.Error\<close>.\<close>

record werr =
  we_err :: error
  we_kafka :: "(bool \<times> bool) option"

record kp_env =
  kp_write :: "nat \<Rightarrow> werr option"
  kp_close :: "nat \<Rightarrow> error option"

record kwriter =
  kw_Writer :: "nat option"
  kw_Writers :: "(string, nat) gomap"
  kw_EnableOneTopicOneWriter :: bool

record kpub =
  kp_writer :: "kwriter option"
  kp_retriesCount :: nat
  kp_next :: nat
  kp_writes :: nat
  kp_accepted :: "(nat \<times> kmsg) list"
  kp_open :: "nat list"

definition NewWriter :: "bool \<Rightarrow> kwriter" where
  "NewWriter enableOneTopicOneWriter =
     \<lparr>kw_Writer = None, kw_Writers = [], kw_EnableOneTopicOneWriter = enableOneTopicOneWriter\<rparr>"

text \<open>\<open>CreateProducer\<close> with \<open>initPublishOption\<close>: a new writer, with its configuration left out.\<close>

definition CreateProducer :: "kpub \<Rightarrow> nat \<times> kpub" where
  "CreateProducer b = (kp_next b, b\<lparr>kp_next := Suc (kp_next b), kp_open := kp_next b # kp_open b\<rparr>)"

definition WriteMessages :: "kp_env \<Rightarrow> nat \<Rightarrow> kmsg \<Rightarrow> kpub \<Rightarrow> werr option \<times> kpub" where
  "WriteMessages env w m b =
     (case kp_write env (kp_writes b) of
        None \<Rightarrow> (None, b\<lparr>kp_writes := Suc (kp_writes b), kp_accepted := kp_accepted b @ [(w, m)]\<rparr>)
      | Some e \<Rightarrow> (Some e, b\<lparr>kp_writes := Suc (kp_writes b)\<rparr>))"

definition close_writer :: "kp_env \<Rightarrow> nat \<Rightarrow> kpub \<Rightarrow> error option \<times> kpub" where
  "close_writer env w b = (kp_close env w, b\<lparr>kp_open := removeAll w (kp_open b)\<rparr>)"

text \<open>\<open>Writer.Close\<close> closes the single writer and every writer of the table, and keeps an empty table.\<close>

definition Writer_Close :: "kp_env \<Rightarrow> kwriter \<Rightarrow> kpub \<Rightarrow> kwriter \<times> kpub" where
  "Writer_Close env w b =
     (let b1 = (case kw_Writer w of None \<Rightarrow> b | Some i \<Rightarrow> snd (close_writer env i b));
          b2 = fold (\<lambda>(t, i) b. snd (close_writer env i b)) (kw_Writers w) b1
      in (w\<lparr>kw_Writer := None, kw_Writers := []\<rparr>, b2))"

section \<open>Publishing\<close>

text \<open>An assignment to the table of writers, \<open>b.writer\<close>.\<close>

definition on_writer :: "(kwriter \<Rightarrow> kwriter) \<Rightarrow> kpub \<Rightarrow> kpub" where
  "on_writer f b = b\<lparr>kp_writer := map_option f (kp_writer b)\<rparr>"

text \<open>\<open>for i := 0; i < b.retriesCount; i++\<close> with the error before the loop; \<open>store\<close> puts a writer that worked into the table.\<close>

fun kafka_retry :: "kp_env \<Rightarrow> nat \<Rightarrow> nat \<Rightarrow> kmsg \<Rightarrow> (nat \<Rightarrow> kwriter \<Rightarrow> kwriter) \<Rightarrow> error option \<Rightarrow> kpub \<Rightarrow> error option \<times> kpub" where
  "kafka_retry env 0 w m store err b = (err, b)"
| "kafka_retry env (Suc n) w m store err b =
     (case WriteMessages env w m b of
        (None, b1) \<Rightarrow> (None, on_writer (store w) b1)
      | (Some e, b1) \<Rightarrow> kafka_retry env n w m store (Some (we_err e)) b1)"

text \<open>
  The two halves of replacing a cached writer that failed: under the lock it is closed and taken out of the
  table (\<open>unset\<close>); then, without the lock, a new writer is made, used, and stored or closed.
\<close>

definition kafka_unset :: "kp_env \<Rightarrow> nat \<Rightarrow> (kwriter \<Rightarrow> kwriter) \<Rightarrow> kpub \<Rightarrow> error option \<times> kpub" where
  "kafka_unset env w unset b =
     (case close_writer env w b of
        (Some ce, b1) \<Rightarrow> (Some ce, b1)
      | (None, b1) \<Rightarrow> (None, on_writer unset b1))"

definition kafka_replace :: "kp_env \<Rightarrow> kmsg \<Rightarrow> (nat \<Rightarrow> kwriter \<Rightarrow> kwriter) \<Rightarrow> kpub \<Rightarrow> error option \<times> kpub" where
  "kafka_replace env m store b =
     (let (w, b1) = CreateProducer b;
          (err, b2) = kafka_retry env (kp_retriesCount b1) w m store None b1
      in (err, if err \<noteq> None then snd (close_writer env w b2) else b2))"

text \<open>
  What both routines do after the writer was chosen: the first write, and on an error a second attempt
  for a fresh writer, or for a cached one its replacement.
\<close>

definition kafka_write ::
    "kp_env \<Rightarrow> bool \<Rightarrow> nat \<Rightarrow> kmsg \<Rightarrow> (kwriter \<Rightarrow> kwriter) \<Rightarrow> (nat \<Rightarrow> kwriter \<Rightarrow> kwriter) \<Rightarrow> kpub \<Rightarrow> error option \<times> kpub" where
  "kafka_write env cached w m unset store b =
     (case WriteMessages env w m b of
        (None, b1) \<Rightarrow> (None, b1)
      | (Some e, b1) \<Rightarrow>
          if \<not> cached
          then (case we_kafka e of
                  Some (temporary, timeout) \<Rightarrow>
                    if temporary \<and> \<not> timeout
                    then (case WriteMessages env w m b1 of (r, b2) \<Rightarrow> (map_option we_err r, b2))
                    else (Some (we_err e), b1)
                | None \<Rightarrow> (Some (we_err e), b1))
          else
            (case kafka_unset env w unset b1 of
               (Some ce, b2) \<Rightarrow> (Some ce, b2)
             | (None, b2) \<Rightarrow> kafka_replace env m store b2))"

definition put_topic_writer :: "string \<Rightarrow> nat \<Rightarrow> kwriter \<Rightarrow> kwriter" where
  "put_topic_writer topic w k = k\<lparr>kw_Writers := gomap_put topic w (kw_Writers k)\<rparr>"

definition drop_topic_writer :: "string \<Rightarrow> kwriter \<Rightarrow> kwriter" where
  "drop_topic_writer topic k = k\<lparr>kw_Writers := gomap_delete topic (kw_Writers k)\<rparr>"

definition set_one_writer :: "nat option \<Rightarrow> kwriter \<Rightarrow> kwriter" where
  "set_one_writer w k = k\<lparr>kw_Writer := w\<rparr>"

definition publishMultipleWriter :: "kp_env \<Rightarrow> string \<Rightarrow> message \<Rightarrow> kpub \<Rightarrow> error option \<times> kpub" where
  "publishMultipleWriter env topic msg b =
     (case kp_writer b of
        None \<Rightarrow> (Some (ErrNew ''kafka writer not initialized''), b)
      | Some k \<Rightarrow>
          (case map_of (kw_Writers k) topic of
             Some w \<Rightarrow> kafka_write env True w (kafka_message topic msg) (drop_topic_writer topic) (put_topic_writer topic) b
           | None \<Rightarrow>
               (let (w, b1) = CreateProducer b
                in kafka_write env False w (kafka_message topic msg) (drop_topic_writer topic) (put_topic_writer topic)
                     (on_writer (put_topic_writer topic w) b1))))"

definition publishOneWriter :: "kp_env \<Rightarrow> string \<Rightarrow> message \<Rightarrow> kpub \<Rightarrow> error option \<times> kpub" where
  "publishOneWriter env topic msg b =
     (case kp_writer b of
        None \<Rightarrow> (Some (ErrNew ''kafka writer not initialized''), b)
      | Some k \<Rightarrow>
          (case kw_Writer k of
             Some w \<Rightarrow> kafka_write env True w (kafka_message topic msg) (set_one_writer None) (\<lambda>w. set_one_writer (Some w)) b
           | None \<Rightarrow>
               (let (w, b1) = CreateProducer b
                in kafka_write env False w (kafka_message topic msg) (set_one_writer None) (\<lambda>w. set_one_writer (Some w))
                     (on_writer (set_one_writer (Some w)) b1))))"

text \<open>\<open>internalPublish\<close>: the body is encoded and a copy of the message is sent. A nil writer panics here.\<close>

definition kafka_internalPublish ::
    "codec \<Rightarrow> codec option \<Rightarrow> kp_env \<Rightarrow> string \<Rightarrow> message \<Rightarrow> kpub \<Rightarrow> error option \<times> kpub" where
  "kafka_internalPublish gob cod env topic msg b =
     (case Marshal gob cod (msg_Body msg) of
        Inl e \<Rightarrow> (Some e, b)
      | Inr buf \<Rightarrow>
          (let sendMsg = (Clone msg)\<lparr>msg_Body := DBytes buf\<rparr>
           in case kp_writer b of
                None \<Rightarrow> (Some (GoPanic ''nil pointer dereference''), b)
              | Some k \<Rightarrow> if kw_EnableOneTopicOneWriter k then publishMultipleWriter env topic sendMsg b
                          else publishOneWriter env topic sendMsg b))"

section \<open>Lemmas\<close>

lemma fold_snoc_id: "fold (\<lambda>(k, v) hs. hs @ [(k, v)]) xs acc = acc @ xs"
  by (induction xs arbitrary: acc) auto

lemma kafka_headers: "km_Headers (kafka_message topic msg) = (case msg_Headers msg of None \<Rightarrow> [] | Some h \<Rightarrow> h)"
  by (simp add: kafka_message_def fold_snoc_id)

lemma kafkaHeaderToMap_id: "gomap_wf h \<Longrightarrow> kafkaHeaderToMap h = h"
  using gomap_copy_id [of h] by (simp add: kafkaHeaderToMap_def gomap_put_all_def)

lemma WriteMessages_fields:
  assumes "WriteMessages env w m b = (r, b1)"
  shows "kp_accepted b1 = (if r = None then kp_accepted b @ [(w, m)] else kp_accepted b)" "kp_open b1 = kp_open b"
    "kp_retriesCount b1 = kp_retriesCount b" "kp_writer b1 = kp_writer b"
  using assms by (auto simp: WriteMessages_def split: option.splits)

lemma on_writer_fields [simp]:
  "kp_accepted (on_writer f b) = kp_accepted b" "kp_open (on_writer f b) = kp_open b" "kp_next (on_writer f b) = kp_next b"
  "kp_retriesCount (on_writer f b) = kp_retriesCount b" "kp_writer (on_writer f b) = map_option f (kp_writer b)"
  by (simp_all add: on_writer_def)

lemma kafka_retry_spec:
  assumes "kafka_retry env n w m store err b = (r, b')" "0 < n \<or> err \<noteq> None"
  shows "kp_accepted b' = (if r = None then kp_accepted b @ [(w, m)] else kp_accepted b)"
    and "kp_open b' = kp_open b" and "kp_writer b' = (if r = None then map_option (store w) (kp_writer b) else kp_writer b)"
proof -
  have "kp_accepted b' = (if r = None then kp_accepted b @ [(w, m)] else kp_accepted b) \<and> kp_open b' = kp_open b
      \<and> kp_writer b' = (if r = None then map_option (store w) (kp_writer b) else kp_writer b)"
    using assms
  proof (induction n arbitrary: err b)
    case (Suc n)
    obtain q b1 where q: "WriteMessages env w m b = (q, b1)" by force
    show ?case using Suc.prems Suc.IH [of _ b1] q WriteMessages_fields [OF q] by (cases q) auto
  qed auto
  then show "kp_accepted b' = (if r = None then kp_accepted b @ [(w, m)] else kp_accepted b)" "kp_open b' = kp_open b"
    "kp_writer b' = (if r = None then map_option (store w) (kp_writer b) else kp_writer b)" by simp_all
qed

lemma kafka_unset_fields:
  assumes "kafka_unset env w unset b = (ce, b')"
  shows "kp_accepted b' = kp_accepted b" "kp_open b' = removeAll w (kp_open b)" "kp_retriesCount b' = kp_retriesCount b"
    "kp_writer b' = (if ce = None then map_option unset (kp_writer b) else kp_writer b)"
  using assms by (auto simp: kafka_unset_def close_writer_def split: option.splits)

text \<open>A message is accepted exactly once if there is no error, and not at all otherwise.\<close>

definition wrote :: "kmsg \<Rightarrow> kpub \<Rightarrow> error option \<Rightarrow> kpub \<Rightarrow> bool" where
  "wrote m b r b' \<longleftrightarrow>
     (if r = None then \<exists>w. kp_accepted b' = kp_accepted b @ [(w, m)] else kp_accepted b' = kp_accepted b)"

lemma wrote_same: "\<lbrakk>wrote m b1 r b'; kp_accepted b1 = kp_accepted b\<rbrakk> \<Longrightarrow> wrote m b r b'"
  unfolding wrote_def by (simp split: if_splits)

lemma kafka_replace_fields:
  assumes "kafka_replace env m store b = (r, b')" "0 < kp_retriesCount b"
  shows "wrote m b r b'"
    and "set (kp_open b') \<subseteq> (if r = None then insert (kp_next b) (set (kp_open b)) else set (kp_open b))"
    and "kp_writer b' = (if r = None then map_option (store (kp_next b)) (kp_writer b) else kp_writer b)"
proof -
  let ?b1 = "b\<lparr>kp_next := Suc (kp_next b), kp_open := kp_next b # kp_open b\<rparr>"
  obtain b2 where b2: "kafka_retry env (kp_retriesCount b) (kp_next b) m store None ?b1 = (r, b2)"
    and b': "b' = (if r \<noteq> None then snd (close_writer env (kp_next b) b2) else b2)"
    using assms(1) by (auto simp: kafka_replace_def CreateProducer_def split: prod.splits)
  note f = kafka_retry_spec [OF b2 disjI1 [OF assms(2)]]
  show "wrote m b r b'" using f(1) b' by (auto simp: wrote_def close_writer_def)
  show "set (kp_open b') \<subseteq> (if r = None then insert (kp_next b) (set (kp_open b)) else set (kp_open b))"
    using f(2) b' by (auto simp: close_writer_def)
  show "kp_writer b' = (if r = None then map_option (store (kp_next b)) (kp_writer b) else kp_writer b)"
    using f(3) b' by (auto simp: close_writer_def)
qed

lemma kafka_write_wrote:
  assumes "0 < kp_retriesCount b" and "kafka_write env cached w m unset store b = (r, b')"
  shows "wrote m b r b'"
proof -
  obtain q b1 where q: "WriteMessages env w m b = (q, b1)" by force
  obtain q2 b2 where q2: "WriteMessages env w m b1 = (q2, b2)" by force
  obtain ce b3 where ce: "kafka_unset env w unset b1 = (ce, b3)" by force
  note f = WriteMessages_fields [OF q] and g = WriteMessages_fields [OF q2] and u = kafka_unset_fields [OF ce]
  show ?thesis
  proof (cases "cached \<and> q \<noteq> None \<and> ce = None")
    case True
    then have "kafka_replace env m store b3 = (r, b')" using assms(2) q ce by (auto simp: kafka_write_def)
    then have "wrote m b3 r b'" using kafka_replace_fields(1) u(3) f(3) assms(1) by metis
    then show ?thesis using True u(1) f(1) by (auto intro: wrote_same)
  next
    case False
    then show ?thesis
      using assms(2) q q2 f g ce u by (auto simp: kafka_write_def wrote_def split: option.splits if_splits)
  qed
qed

lemma kafka_write_fresh:
  assumes "kafka_write env False w m unset store b = (r, b')"
  shows "kp_writer b' = kp_writer b" "kp_open b' = kp_open b"
proof -
  obtain q b1 where q: "WriteMessages env w m b = (q, b1)" by force
  obtain q2 b2 where q2: "WriteMessages env w m b1 = (q2, b2)" by force
  show "kp_writer b' = kp_writer b" "kp_open b' = kp_open b"
    using assms q q2 WriteMessages_fields [OF q] WriteMessages_fields [OF q2]
    by (auto simp: kafka_write_def split: option.splits if_splits)
qed

section \<open>Open writers are in the table\<close>

text \<open>
  A writer is \<^emph>\<open>held\<close> by the table when \<open>Writer.Close\<close> will reach it. A broker is tracked when every open writer is held.
\<close>

definition held :: "kwriter \<Rightarrow> nat set" where
  "held k = set_option (kw_Writer k) \<union> snd ` set (kw_Writers k)"

definition kp_tracked :: "kpub \<Rightarrow> bool" where
  "kp_tracked b \<longleftrightarrow>
     (case kp_writer b of None \<Rightarrow> False | Some k \<Rightarrow> gomap_wf (kw_Writers k) \<and> set (kp_open b) \<subseteq> held k)"

text \<open>
  The interface of a slot of the table: where a routine looks for its writer, how it takes it out and how it
  puts another one in. The entry of a topic is one, the field \<open>Writer\<close> is another.
\<close>

locale writer_slot =
  fixes look :: "kwriter \<Rightarrow> nat option" and unset :: "kwriter \<Rightarrow> kwriter" and store :: "nat \<Rightarrow> kwriter \<Rightarrow> kwriter"
  assumes unset_free: "look (unset k) = None"
    and unset_wf: "gomap_wf (kw_Writers k) \<Longrightarrow> gomap_wf (kw_Writers (unset k))"
    and store_wf: "gomap_wf (kw_Writers k) \<Longrightarrow> gomap_wf (kw_Writers (store w k))"
    and unset_held: "\<lbrakk>gomap_wf (kw_Writers k); look k = Some w\<rbrakk> \<Longrightarrow> held k \<subseteq> insert w (held (unset k))"
    and store_held: "look k = None \<Longrightarrow> insert w (held k) \<subseteq> held (store w k)"
begin

text \<open>The part that both routines share, from the look at the slot to the result.\<close>

definition slot_publish :: "kp_env \<Rightarrow> kmsg \<Rightarrow> kwriter \<Rightarrow> kpub \<Rightarrow> error option \<times> kpub" where
  "slot_publish env m k b =
     (case look k of
        Some w \<Rightarrow> kafka_write env True w m unset store b
      | None \<Rightarrow> (let (w, b1) = CreateProducer b in kafka_write env False w m unset store (on_writer (store w) b1)))"

lemma slot_wrote:
  assumes "0 < kp_retriesCount b" and "slot_publish env m k b = (r, b')"
  shows "wrote m b r b'"
proof (cases "look k")
  case None
  then have "wrote m (on_writer (store (kp_next b)) (snd (CreateProducer b))) r b'"
    using assms by (intro kafka_write_wrote) (auto simp: slot_publish_def CreateProducer_def)
  then show ?thesis by (rule wrote_same) (simp add: CreateProducer_def)
next
  case (Some w)
  then show ?thesis using assms by (auto intro!: kafka_write_wrote simp: slot_publish_def)
qed

lemma store_tracked:
  assumes "look k = None" "gomap_wf (kw_Writers k)" "kp_writer b = Some (store w k)" "set (kp_open b) \<subseteq> insert w (held k)"
  shows "kp_tracked b"
  using assms(3,4) store_held [OF assms(1), of w] store_wf [OF assms(2), of w] by (auto simp: kp_tracked_def)

lemma replace_tracked:
  assumes k: "kp_writer b = Some k" "gomap_wf (kw_Writers k)" "set (kp_open b) \<subseteq> held k" "look k = None"
    and "0 < kp_retriesCount b" "kafka_replace env m store b = (r, b')"
  shows "kp_tracked b'"
proof -
  note f = kafka_replace_fields(2,3) [OF assms(6,5)]
  show ?thesis
  proof (cases r)
    case None
    then have "kp_writer b' = Some (store (kp_next b) k)" "set (kp_open b') \<subseteq> insert (kp_next b) (held k)"
      using f k by auto
    then show ?thesis by (rule store_tracked [OF k(4,2)])
  next
    case (Some e)
    then show ?thesis using f k by (auto simp: kp_tracked_def)
  qed
qed

lemma slot_tracked:
  assumes "kp_tracked b" and k: "kp_writer b = Some k" and "0 < kp_retriesCount b" and "slot_publish env m k b = (r, b')"
  shows "kp_tracked b'"
proof -
  have t: "gomap_wf (kw_Writers k)" "set (kp_open b) \<subseteq> held k" using assms(1) k by (auto simp: kp_tracked_def)
  show ?thesis
  proof (cases "look k")
    case None
    let ?b1 = "on_writer (store (kp_next b)) (snd (CreateProducer b))"
    have wr: "kafka_write env False (kp_next b) m unset store ?b1 = (r, b')"
      using assms(4) None by (simp add: slot_publish_def CreateProducer_def)
    have "kp_writer b' = Some (store (kp_next b) k)" "set (kp_open b') \<subseteq> insert (kp_next b) (held k)"
      using kafka_write_fresh [OF wr] k t by (auto simp: CreateProducer_def)
    then show ?thesis by (rule store_tracked [OF None t(1)])
  next
    case (Some w)
    obtain q b1 where q: "WriteMessages env w m b = (q, b1)" by force
    obtain ce b3 where ce: "kafka_unset env w unset b1 = (ce, b3)" by force
    note f = WriteMessages_fields [OF q] and u = kafka_unset_fields [OF ce]
    have wr: "kafka_write env True w m unset store b = (r, b')" using assms(4) Some by (simp add: slot_publish_def)
    consider "q = None" | "q \<noteq> None" "ce \<noteq> None" | "q \<noteq> None" "ce = None" by blast
    then show ?thesis
    proof cases
      case 3
      then have "kafka_replace env m store b3 = (r, b')" using wr q ce by (auto simp: kafka_write_def)
      moreover have "set (kp_open b3) \<subseteq> held (unset k)" using u(2) f(2) t(2) unset_held [OF t(1) Some] by auto
      moreover have "kp_writer b3 = Some (unset k)" using u(4) f(4) k 3 by simp
      ultimately show ?thesis
        using replace_tracked [OF _ unset_wf [OF t(1)] _ unset_free] u(3) f(3) assms(3) by simp
    qed (use wr q ce f u k t in \<open>auto simp: kafka_write_def kp_tracked_def\<close>)
  qed
qed

end

lemma snd_gomap_put: "map_of m k = None \<Longrightarrow> snd ` set (gomap_put k v m) = insert v (snd ` set m)"
  using gomap_put_absent [of k m v] by (auto simp: map_of_eq_None_iff)

lemma snd_gomap_delete: "\<lbrakk>gomap_wf m; map_of m k = Some v\<rbrakk> \<Longrightarrow> snd ` set m \<subseteq> insert v (snd ` set (gomap_delete k m))"
proof
  fix x
  assume m: "gomap_wf m" "map_of m k = Some v" and "x \<in> snd ` set m"
  then obtain k' where x: "(k', x) \<in> set m" by auto
  show "x \<in> insert v (snd ` set (gomap_delete k m))"
  proof (cases "k' = k")
    case True
    then show ?thesis using m map_of_is_SomeI [OF m(1) x] by simp
  next
    case False
    then have "(k', x) \<in> set (gomap_delete k m)" using x by (simp add: gomap_delete_def AList.delete_eq)
    then show ?thesis by force
  qed
qed

interpretation topic_slot: writer_slot "\<lambda>k. map_of (kw_Writers k) topic" "drop_topic_writer topic" "put_topic_writer topic" for topic
proof unfold_locales
  fix k w
  show "map_of (kw_Writers (drop_topic_writer topic k)) topic = None" by (simp add: drop_topic_writer_def)
  show "gomap_wf (kw_Writers (drop_topic_writer topic k))" if "gomap_wf (kw_Writers k)"
    using that by (simp add: drop_topic_writer_def gomap_wf_delete)
  show "gomap_wf (kw_Writers (put_topic_writer topic w k))" if "gomap_wf (kw_Writers k)"
    using that by (simp add: put_topic_writer_def gomap_wf_put)
  show "held k \<subseteq> insert w (held (drop_topic_writer topic k))"
    if "gomap_wf (kw_Writers k)" "map_of (kw_Writers k) topic = Some w"
    using snd_gomap_delete [OF that] by (auto simp: held_def drop_topic_writer_def)
  show "insert w (held k) \<subseteq> held (put_topic_writer topic w k)" if "map_of (kw_Writers k) topic = None"
    using snd_gomap_put [OF that] by (auto simp: held_def put_topic_writer_def)
qed

interpretation one_slot: writer_slot kw_Writer "set_one_writer None" "\<lambda>w. set_one_writer (Some w)"
  by unfold_locales (auto simp: set_one_writer_def held_def)

lemma publishMultipleWriter_slot:
  "kp_writer b = Some k \<Longrightarrow> publishMultipleWriter env topic msg b = topic_slot.slot_publish topic env (kafka_message topic msg) k b"
  by (simp add: publishMultipleWriter_def topic_slot.slot_publish_def)

lemma publishOneWriter_slot:
  "kp_writer b = Some k \<Longrightarrow> publishOneWriter env topic msg b = one_slot.slot_publish env (kafka_message topic msg) k b"
  by (simp add: publishOneWriter_def one_slot.slot_publish_def)

lemma kp_open_close_writer: "kp_open (snd (close_writer env i b)) = filter (\<lambda>w. w \<noteq> i) (kp_open b)"
  by (auto simp: close_writer_def removeAll_filter_not_eq intro: filter_cong)

lemma close_all_open: "kp_open (fold (\<lambda>(t, i) b. snd (close_writer env i b)) ws b) = filter (\<lambda>w. w \<notin> snd ` set ws) (kp_open b)"
  by (induction ws arbitrary: b) (auto simp: kp_open_close_writer intro: filter_cong)

lemma Writer_Close_open: "kp_open (snd (Writer_Close env k b)) = filter (\<lambda>w. w \<notin> held k) (kp_open b)"
  by (cases "kw_Writer k")
    (auto simp: Writer_Close_def close_all_open held_def kp_open_close_writer intro!: filter_cong)

lemma kafka_publish_outcome:
  assumes "0 < kp_retriesCount b" and "kp_tracked b" and "kafka_internalPublish gob cod env topic msg b = (r, b')"
  shows "(r = None \<longrightarrow> (\<exists>w buf. Marshal gob cod (msg_Body msg) = Inr buf
            \<and> kp_accepted b' = kp_accepted b @ [(w, kafka_message topic ((Clone msg)\<lparr>msg_Body := DBytes buf\<rparr>))]))
       \<and> (r \<noteq> None \<longrightarrow> kp_accepted b' = kp_accepted b)
       \<and> kp_tracked b' \<and> (\<exists>k. kp_writer b' = Some k \<and> kp_open (snd (Writer_Close env k b')) = [])"
proof -
  obtain k where k: "kp_writer b = Some k" using assms(2) by (auto simp: kp_tracked_def split: option.splits)
  let ?m = "\<lambda>buf. kafka_message topic ((Clone msg)\<lparr>msg_Body := DBytes buf\<rparr>)"
  have "kp_tracked b' \<and> ((\<exists>buf. Marshal gob cod (msg_Body msg) = Inr buf \<and> wrote (?m buf) b r b') \<or> r \<noteq> None \<and> b' = b)"
  proof (cases "Marshal gob cod (msg_Body msg)")
    case (Inl e)
    then show ?thesis using assms by (auto simp: kafka_internalPublish_def)
  next
    case (Inr buf)
    then have "topic_slot.slot_publish topic env (?m buf) k b = (r, b') \<or> one_slot.slot_publish env (?m buf) k b = (r, b')"
      using assms(3) k by (auto simp: kafka_internalPublish_def Let_def publishMultipleWriter_slot publishOneWriter_slot split: if_splits)
    then show ?thesis
      using topic_slot.slot_wrote topic_slot.slot_tracked one_slot.slot_wrote one_slot.slot_tracked assms(1,2) k Inr by metis
  qed
  moreover have "\<exists>k. kp_writer b' = Some k \<and> kp_open (snd (Writer_Close env k b')) = []" if "kp_tracked b'"
    using that by (auto simp: kp_tracked_def Writer_Close_open filter_empty_conv split: option.splits)
  ultimately show ?thesis by (auto simp: wrote_def split: if_splits)
qed

section \<open>Properties\<close>

text \<open>
  C21: publications that run one after the other, with a positive \<open>retriesCount\<close>. One that returns without an error was accepted by exactly one writer, exactly once: one call of
  \<open>WriteMessages\<close> with the encoded message returned nil (which for the default, asynchronous writer means that it was queued, not that it was written). One that returns an error
  was accepted by none, whatever failed in between: encoding, the first write, closing a cached writer, the writes of its
  replacement. In both modes no writer is left out of the table: every open writer stays in it, so that closing the
  table, as \<open>Disconnect\<close> does, leaves no writer open. (\<open>kafka_concurrent_replace_leaks\<close> shows that overlapping publications of a topic can leave one out.)
\<close>

theorem kafka_publish_is_accepted_once:
  assumes "0 < kp_retriesCount b" and "kp_tracked b" and "kafka_internalPublish gob cod env topic msg b = (r, b')"
  shows "(r = None \<longrightarrow> (\<exists>w buf. Marshal gob cod (msg_Body msg) = Inr buf
            \<and> kp_accepted b' = kp_accepted b @ [(w, kafka_message topic ((Clone msg)\<lparr>msg_Body := DBytes buf\<rparr>))]))
       \<and> (r \<noteq> None \<longrightarrow> kp_accepted b' = kp_accepted b)
       \<and> kp_tracked b' \<and> (\<exists>k. kp_writer b' = Some k \<and> kp_open (snd (Writer_Close env k b')) = [])"
  using assms by (rule kafka_publish_outcome)

definition kp_fresh :: kpub where
  "kp_fresh = \<lparr>kp_writer = Some (NewWriter True), kp_retriesCount = 1, kp_next = 0, kp_writes = 0, kp_accepted = [], kp_open = []\<rparr>"

theorem kafka_publish_is_accepted_once_witness:
  "kp_tracked (snd (kafka_internalPublish \<lparr>c_Marshal = (\<lambda>d. Inl (ErrNew ''gob'')), c_Unmarshal = (\<lambda>b d. Inl (ErrNew ''gob''))\<rparr> None
          \<lparr>kp_write = (\<lambda>n. None), kp_close = (\<lambda>w. None)\<rparr> ''t'' (NewMessage (DBytes (Some ''x'')) []) kp_fresh))"
proof -
  let ?gob = "\<lparr>c_Marshal = (\<lambda>d. Inl (ErrNew ''gob'')), c_Unmarshal = (\<lambda>b d. Inl (ErrNew ''gob''))\<rparr>"
  let ?env = "\<lparr>kp_write = (\<lambda>n. None), kp_close = (\<lambda>w. None)\<rparr>"
  obtain r b' where r: "kafka_internalPublish ?gob None ?env ''t'' (NewMessage (DBytes (Some ''x'')) []) kp_fresh = (r, b')" by force
  have "0 < kp_retriesCount kp_fresh" "kp_tracked kp_fresh" by (simp_all add: kp_fresh_def kp_tracked_def NewWriter_def)
  from kafka_publish_is_accepted_once [OF this r] show ?thesis by (simp only: r snd_conv)
qed

text \<open>
  Replacing a failed writer is not safe when two publications of a topic run at once. Both write with the
  cached writer and fail; the first one replaces it, then the second one closes the old writer again and takes the
  entry of the topic out, which by now is the \<^emph>\<open>new\<close> writer of the first: that writer stays open for ever, and
  closing the table does not reach it.
\<close>

theorem kafka_concurrent_replace_leaks:
  "\<exists>env b w. kp_tracked b \<and> 0 < kp_retriesCount b \<and>
     (let (r1, b1) = kafka_unset env w (drop_topic_writer ''t'') b;
          (e1, b2) = kafka_replace env m (put_topic_writer ''t'') b1;
          (r2, b3) = kafka_unset env w (drop_topic_writer ''t'') b2;
          (e2, b4) = kafka_replace env m (put_topic_writer ''t'') b3
      in r1 = None \<and> e1 = None \<and> r2 = None \<and> e2 = None \<and> \<not> kp_tracked b4
         \<and> (\<exists>k. kp_writer b4 = Some k \<and> kp_open (snd (Writer_Close env k b4)) \<noteq> []))"
proof -
  let ?env = "\<lparr>kp_write = (\<lambda>n. None), kp_close = (\<lambda>w. None)\<rparr>"
  let ?b = "kp_fresh\<lparr>kp_writer := Some ((NewWriter True)\<lparr>kw_Writers := [(''t'', 0)]\<rparr>), kp_next := 1, kp_open := [0]\<rparr>"
  show ?thesis
    by (intro exI [of _ ?env] exI [of _ ?b] exI [of _ 0])
      (simp add: kp_tracked_def kp_fresh_def NewWriter_def kafka_unset_def kafka_replace_def close_writer_def CreateProducer_def
        WriteMessages_def drop_topic_writer_def put_topic_writer_def held_def Writer_Close_def gomap_delete_def gomap_put_def on_writer_def)
qed

text \<open>
  What is published is what the consumer reads: headers, key and body of a message survive the driver's own
  format, and a body that was marshalled comes back through the codec. The message ID is not transported:
  the consumer takes the key for it.
\<close>

theorem kafka_message_roundtrip:
  assumes "msg_Headers msg = Some h" and "gomap_wf h" and "msg_Body msg = DBytes body"
  shows "kafkaHeaderToMap (km_Headers (kafka_message topic msg)) = h \<and> km_Value (kafka_message topic msg) = body
       \<and> km_Key (kafka_message topic msg) = msg_Key msg \<and> km_Topic (kafka_message topic msg) = topic"
  using assms by (simp add: kafka_headers kafkaHeaderToMap_id) (simp add: kafka_message_def BodyBytes_def)

theorem kafka_message_roundtrip_witness:
  "kafkaHeaderToMap (km_Headers (kafka_message ''t''
     ((NewMessage (DBytes (Some ''x'')) [])\<lparr>msg_Headers := Some [(''a'', ''1''), (''b'', ''2'')]\<rparr>))) = [(''a'', ''1''), (''b'', ''2'')]"
  using kafka_message_roundtrip [of "(NewMessage (DBytes (Some ''x'')) [])\<lparr>msg_Headers := Some [(''a'', ''1''), (''b'', ''2'')]\<rparr>"
      "[(''a'', ''1''), (''b'', ''2'')]" "Some ''x''" "''t''"]
  by (simp add: NewMessage_def)

end
