(* ===== verification/Kafka_Consumer.thy ===== *)
theory Kafka_Consumer
  imports Kafka_Publish
begin

text \<open>
  Consuming with the kafka driver: \<open>handleMessage\<close> and the two loops of \<open>broker/kafka/subscriber.go\<close>, and
  \<open>broker/kafka/publication.go\<close>. The world \<open>'w\<close> is what handlers and the reader's \<open>CommitMessages\<close> change; the latter
  belongs to \<open>kafka-go\<close> and is a parameter. An iteration of a loop is what its \<open>select\<close> chose, with the result of
  \<open>FetchMessage\<close> and what \<open>isFatalError\<close> reads at that moment. Durations are nanoseconds, 64 bits wide. A batch size
  is not negative (\<open>make\<close> would panic in the batch loop).
\<close>

section \<open>Messages and handlers\<close>

record 'w consumer =
  co_handler :: "'w Handler"
  co_binder :: "(unit \<Rightarrow> dyn) option"
  co_AutoAck :: bool
  co_ErrorHandler :: "'w Handler option"
  co_Codec :: "codec option"
  co_gob :: codec
  co_commit :: "(kmsg \<Rightarrow> 'w \<Rightarrow> error option \<times> 'w) option"
  co_raw :: "kmsg \<Rightarrow> dyn"
  co_batchSize :: nat
  co_batchInterval :: int
  co_deadlineMin :: int
  co_deadlineMax :: int
  co_errorMin :: int
  co_errorMax :: int

text \<open>\<open>publication.Ack\<close>, and the publication as the event that handlers get; \<open>co_commit\<close> is the reader, nil when \<open>None\<close>.\<close>

definition publication_Ack :: "'w consumer \<Rightarrow> kmsg \<Rightarrow> 'w \<Rightarrow> error option \<times> 'w" where
  "publication_Ack S km w =
     (case co_commit S of None \<Rightarrow> (Some (ErrNew ''read is nil''), w) | Some commit \<Rightarrow> commit km w)"

definition newPublication :: "'w consumer \<Rightarrow> kmsg \<Rightarrow> message \<Rightarrow> 'w event" where
  "newPublication S km bm =
     \<lparr>evt_Topic = km_Topic km, evt_Message = Some bm, evt_RawMessage = co_raw S km,
      evt_Ack = publication_Ack S km, evt_Error = None\<rparr>"

text \<open>The \<open>broker.Message\<close> of a fetched message, before it has a body.\<close>

definition kafka_received :: "'w consumer \<Rightarrow> kmsg \<Rightarrow> message" where
  "kafka_received S km =
     \<lparr>msg_ID = km_Key km, msg_Headers = Some (kafkaHeaderToMap (km_Headers km)), msg_Body = DNil, msg_Key = km_Key km,
      msg_Metadata = None, msg_Partition = km_Partition km, msg_Offset = km_Offset km, msg_Msg = co_raw S km\<rparr>"

text \<open>
  The body: decoded into what the binder made, through a pointer to the field \<open>Body\<close> of type \<open>any\<close>, or the raw value. After
  a failure the error handler sees the value of the binder; what a codec may have written into it
  before it failed is not modelled.
\<close>

definition kafka_body :: "'w consumer \<Rightarrow> kmsg \<Rightarrow> (error \<times> dyn) + dyn" where
  "kafka_body S km =
     (case co_binder S of
        None \<Rightarrow> Inr (DBytes (km_Value km))
      | Some binder \<Rightarrow>
          (case Unmarshal (co_gob S) (co_Codec S) (km_Value km) (DPtr (TNamed ''interface {}'') (Some (binder ()))) of
             Inl e \<Rightarrow> Inl (e, binder ())
           | Inr out \<Rightarrow> Inr (case pointee out of None \<Rightarrow> DNil | Some v \<Rightarrow> v)))"

definition kafka_fail :: "'w consumer \<Rightarrow> 'w event \<Rightarrow> 'w \<Rightarrow> bool \<times> 'w" where
  "kafka_fail S pub w = (True, case co_ErrorHandler S of None \<Rightarrow> w | Some eh \<Rightarrow> snd (eh [] (Some pub) w))"

definition handleMessage :: "'w consumer \<Rightarrow> kmsg \<Rightarrow> 'w \<Rightarrow> bool \<times> 'w" where
  "handleMessage S km w =
     (case kafka_body S km of
        Inl (e, body) \<Rightarrow> kafka_fail S (newPublication S km ((kafka_received S km)\<lparr>msg_Body := body\<rparr>)) w
      | Inr body \<Rightarrow>
          (let pub = newPublication S km ((kafka_received S km)\<lparr>msg_Body := body\<rparr>)
           in case co_handler S [] (Some pub) w of
                (Some e, w1) \<Rightarrow> kafka_fail S pub w1
              | (None, w1) \<Rightarrow>
                  if co_AutoAck S
                  then (case publication_Ack S km w1 of (Some e, w2) \<Rightarrow> (True, w2) | (None, w2) \<Rightarrow> (False, w2))
                  else (False, w1)))"

text \<open>The results of the messages of a batch are only logged.\<close>

definition handleBatchMessage :: "'w consumer \<Rightarrow> kmsg list \<Rightarrow> 'w \<Rightarrow> 'w" where
  "handleBatchMessage S ms w = fold (\<lambda>km w. snd (handleMessage S km w)) ms w"

section \<open>Backoff\<close>

definition ms :: int where "ms = 1000000"

text \<open>The bound \<open>d\<close> of the pause: \<open>min << uint(attempt)\<close> on 64 bits, and the two clamps.\<close>

definition backoff_min :: "int \<Rightarrow> int" where
  "backoff_min mn = (if mn \<le> 0 then 50 * ms else mn)"

definition backoff_bound :: "nat \<Rightarrow> int \<Rightarrow> int \<Rightarrow> int" where
  "backoff_bound attempt mn mx =
     (let mn = backoff_min mn;
          mx = (if mx < mn then mn else mx);
          d = signed_take_bit 63 (push_bit attempt mn);
          d = (if d < mn then mn else d)
      in if d > mx then mx else d)"

text \<open>\<open>rnd n\<close> is \<open>Int63n(n)\<close>; it panics when \<open>n\<close> is not positive.\<close>

definition backoffSleep :: "(int \<Rightarrow> int) \<Rightarrow> nat \<Rightarrow> int \<Rightarrow> int \<Rightarrow> error + int" where
  "backoffSleep rnd attempt mn mx =
     (let d = backoff_bound attempt mn mx
      in if d div 2 + 1 \<le> 0 then Inl (GoPanic ''invalid argument to Int63n'') else Inr (d div 2 + rnd (d div 2 + 1)))"

section \<open>The loops\<close>

text \<open>
  An error of \<open>FetchMessage\<close> with what \<open>isFatalError\<close> asks about: whether the context of the subscription has an error,
  whether the subscriber is closed, and for a network error whether it is temporary.
\<close>

record fetch_error =
  fe_err :: error
  fe_ctxErr :: bool
  fe_closed :: bool
  fe_temporary :: "bool option"

definition isFatalError :: "fetch_error \<Rightarrow> bool" where
  "isFatalError e \<longleftrightarrow>
     (errors_Is (fe_err e) ErrCanceled \<or> fe_ctxErr e) \<or> fe_closed e
     \<or> (case fe_temporary e of Some temporary \<Rightarrow> \<not> temporary | None \<Rightarrow> False)"

datatype turn = TDone | TTick | TFetched kmsg | TFailed fetch_error

text \<open>
  The variables of the loops: the buffer, the two counters; the arguments of the calls of \<open>backoffSleep\<close> so far; whether the loop has returned and whether it closed the subscriber.
\<close>

record 'w loop =
  lo_buffer :: "kmsg list"
  lo_deadlineAttempt :: nat
  lo_errorAttempt :: nat
  lo_sleeps :: "(nat \<times> int \<times> int) list"
  lo_returned :: bool
  lo_closes :: nat
  lo_world :: 'w

definition loop_init :: "'w \<Rightarrow> 'w loop" where
  "loop_init w = \<lparr>lo_buffer = [], lo_deadlineAttempt = 0, lo_errorAttempt = 0, lo_sleeps = [], lo_returned = False,
     lo_closes = 0, lo_world = w\<rparr>"

definition loop_error :: "'w consumer \<Rightarrow> 'w loop \<Rightarrow> 'w loop" where
  "loop_error S l =
     l\<lparr>lo_sleeps := lo_sleeps l @ [(lo_errorAttempt l, co_errorMin S, co_errorMax S)],
       lo_errorAttempt := (if lo_errorAttempt l < 6 then Suc (lo_errorAttempt l) else lo_errorAttempt l)\<rparr>"

definition loop_deadline :: "'w consumer \<Rightarrow> 'w loop \<Rightarrow> 'w loop" where
  "loop_deadline S l =
     l\<lparr>lo_sleeps := lo_sleeps l @ [(lo_deadlineAttempt l, co_deadlineMin S, co_deadlineMax S)],
       lo_deadlineAttempt := (if lo_deadlineAttempt l < 6 then Suc (lo_deadlineAttempt l) else lo_deadlineAttempt l)\<rparr>"

definition loop_flush :: "'w consumer \<Rightarrow> 'w loop \<Rightarrow> 'w loop" where
  "loop_flush S l = l\<lparr>lo_world := handleBatchMessage S (lo_buffer l) (lo_world l), lo_buffer := []\<rparr>"

fun batch_turn :: "'w consumer \<Rightarrow> turn \<Rightarrow> 'w loop \<Rightarrow> 'w loop" where
  "batch_turn S TDone l = l\<lparr>lo_returned := True, lo_closes := Suc (lo_closes l)\<rparr>"
| "batch_turn S TTick l = (if length (lo_buffer l) > 0 then loop_flush S l else l)"
| "batch_turn S (TFailed e) l =
     (if isFatalError e then l\<lparr>lo_returned := True\<rparr>
      else if errors_Is (fe_err e) ErrDeadlineExceeded then loop_deadline S l
      else loop_error S l)"
| "batch_turn S (TFetched km) l =
     (let l1 = l\<lparr>lo_deadlineAttempt := 0, lo_errorAttempt := 0, lo_buffer := lo_buffer l @ [km]\<rparr>
      in if length (lo_buffer l1) \<ge> co_batchSize S then loop_flush S l1 else l1)"

fun single_turn :: "'w consumer \<Rightarrow> turn \<Rightarrow> 'w loop \<Rightarrow> 'w loop" where
  "single_turn S TDone l = l\<lparr>lo_returned := True, lo_closes := Suc (lo_closes l)\<rparr>"
| "single_turn S TTick l = l"
| "single_turn S (TFailed e) l = (if isFatalError e then l\<lparr>lo_returned := True\<rparr> else loop_error S l)"
| "single_turn S (TFetched km) l = l\<lparr>lo_errorAttempt := 0, lo_world := snd (handleMessage S km (lo_world l))\<rparr>"

text \<open>A loop over the turns that the environment gives it; after it returned the rest is not used.\<close>

fun loop_run :: "(turn \<Rightarrow> 'w loop \<Rightarrow> 'w loop) \<Rightarrow> turn list \<Rightarrow> 'w loop \<Rightarrow> 'w loop" where
  "loop_run f [] l = l"
| "loop_run f (t # ts) l = (if lo_returned l then l else loop_run f ts (f t l))"

definition isBatchMode :: "'w consumer \<Rightarrow> bool" where
  "isBatchMode S \<longleftrightarrow> co_batchSize S > 0 \<or> co_batchInterval S > 0"

definition processBatchMessage :: "'w consumer \<Rightarrow> turn list \<Rightarrow> 'w \<Rightarrow> 'w loop" where
  "processBatchMessage S ts w = loop_run (batch_turn S) ts (loop_init w)"

definition processSingleMessage :: "'w consumer \<Rightarrow> turn list \<Rightarrow> 'w \<Rightarrow> 'w loop" where
  "processSingleMessage S ts w = loop_run (single_turn S) ts (loop_init w)"

definition subscriber_run :: "'w consumer \<Rightarrow> turn list \<Rightarrow> 'w \<Rightarrow> 'w loop" where
  "subscriber_run S ts w = (if isBatchMode S then processBatchMessage S ts w else processSingleMessage S ts w)"

section \<open>Specification\<close>

text \<open>The turns until the loop returns, and the messages fetched in them.\<close>

fun stops :: "turn \<Rightarrow> bool" where
  "stops TDone = True"
| "stops (TFailed e) = isFatalError e"
| "stops t = False"

fun fetched :: "turn list \<Rightarrow> kmsg list" where
  "fetched [] = []"
| "fetched (t # ts) = (if stops t then [] else (case t of TFetched km \<Rightarrow> km # fetched ts | _ \<Rightarrow> fetched ts))"

section \<open>Lemmas\<close>

lemma handleBatchMessage_append: "handleBatchMessage S (a @ b) w = handleBatchMessage S b (handleBatchMessage S a w)"
  by (simp add: handleBatchMessage_def)

lemma handleBatchMessage_simps [simp]:
  "handleBatchMessage S [] w = w" "handleBatchMessage S (m # a) w = handleBatchMessage S a (snd (handleMessage S m w))"
  by (simp_all add: handleBatchMessage_def)

lemma loop_fields [simp]:
  "lo_buffer (loop_error S l) = lo_buffer l" "lo_world (loop_error S l) = lo_world l" "lo_returned (loop_error S l) = lo_returned l"
  "lo_buffer (loop_deadline S l) = lo_buffer l" "lo_world (loop_deadline S l) = lo_world l"
  "lo_returned (loop_deadline S l) = lo_returned l" "lo_returned (loop_flush S l) = lo_returned l"
  "lo_buffer (loop_flush S l) = []" "lo_world (loop_flush S l) = handleBatchMessage S (lo_buffer l) (lo_world l)"
  by (simp_all add: loop_error_def loop_deadline_def loop_flush_def)

lemma loop_run_returned [simp]: "lo_returned l \<Longrightarrow> loop_run f ts l = l"
  by (cases ts) auto

text \<open>What a turn must do for a loop to be right: handle what was fetched, in order, up to what stays in the buffer.\<close>

definition turn_msgs :: "turn \<Rightarrow> kmsg list" where
  "turn_msgs t = (case t of TFetched km \<Rightarrow> [km] | _ \<Rightarrow> [])"

lemma fetched_Cons: "fetched (t # ts) = (if stops t then [] else turn_msgs t @ fetched ts)"
  by (cases t) (auto simp: turn_msgs_def)

locale consume_loop =
  fixes S :: "'w consumer" and turn_fn :: "turn \<Rightarrow> 'w loop \<Rightarrow> 'w loop" and bound :: nat
  assumes turn_returns: "lo_returned (turn_fn t l) \<longleftrightarrow> lo_returned l \<or> stops t"
    and turn_bound: "length (lo_buffer l) < bound \<Longrightarrow> length (lo_buffer (turn_fn t l)) < bound"
    and turn_stop: "stops t \<Longrightarrow> lo_world (turn_fn t l) = lo_world l \<and> lo_buffer (turn_fn t l) = lo_buffer l"
    and turn_msgs: "\<lbrakk>\<not> stops t; length (lo_buffer l) < bound\<rbrakk> \<Longrightarrow>
      \<exists>out. lo_buffer l @ turn_msgs t = out @ lo_buffer (turn_fn t l)
          \<and> lo_world (turn_fn t l) = handleBatchMessage S out (lo_world l)"
begin

lemma run_handles:
  assumes "length (lo_buffer l) < bound" "\<not> lo_returned l"
  shows "\<exists>out. lo_buffer l @ fetched ts = out @ lo_buffer (loop_run turn_fn ts l)
           \<and> lo_world (loop_run turn_fn ts l) = handleBatchMessage S out (lo_world l)
           \<and> length (lo_buffer (loop_run turn_fn ts l)) < bound
           \<and> (lo_returned (loop_run turn_fn ts l) \<longleftrightarrow> list_ex stops ts)"
  using assms
proof (induction ts arbitrary: l)
  case Nil
  then show ?case by (intro exI [of _ "[]"]) simp
next
  case (Cons t ts)
  note b = turn_bound [OF Cons.prems(1), of t]
  show ?case
  proof (cases "stops t")
    case True
    then show ?thesis
      using Cons.prems turn_stop [OF True, of l] turn_returns [of t l] by (intro exI [of _ "[]"]) (simp add: fetched_Cons)
  next
    case False
    obtain out where out: "lo_buffer l @ turn_msgs t = out @ lo_buffer (turn_fn t l)"
      "lo_world (turn_fn t l) = handleBatchMessage S out (lo_world l)" using turn_msgs [OF False Cons.prems(1)] by blast
    have "\<not> lo_returned (turn_fn t l)" using False Cons.prems(2) turn_returns by simp
    from Cons.IH [OF b this] obtain out' where o': "lo_buffer (turn_fn t l) @ fetched ts = out' @ lo_buffer (loop_run turn_fn ts (turn_fn t l))"
      "lo_world (loop_run turn_fn ts (turn_fn t l)) = handleBatchMessage S out' (lo_world (turn_fn t l))"
      "length (lo_buffer (loop_run turn_fn ts (turn_fn t l))) < bound"
      "lo_returned (loop_run turn_fn ts (turn_fn t l)) \<longleftrightarrow> list_ex stops ts" by blast
    have "lo_buffer l @ fetched (t # ts) = (out @ out') @ lo_buffer (loop_run turn_fn ts (turn_fn t l))"
      using out(1) o'(1) False unfolding fetched_Cons by (metis append_assoc)
    then show ?thesis
      using o' out(2) False Cons.prems(2) by (intro exI [of _ "out @ out'"]) (simp add: handleBatchMessage_append)
  qed
qed

lemma init_handles:
  assumes "0 < bound"
  shows "\<exists>out. fetched ts = out @ lo_buffer (loop_run turn_fn ts (loop_init w))
           \<and> lo_world (loop_run turn_fn ts (loop_init w)) = handleBatchMessage S out w
           \<and> length (lo_buffer (loop_run turn_fn ts (loop_init w))) < bound
           \<and> (lo_returned (loop_run turn_fn ts (loop_init w)) \<longleftrightarrow> list_ex stops ts)"
  using run_handles [of "loop_init w" ts] assms by (simp add: loop_init_def)

end

interpretation single: consume_loop S "single_turn S" 1 for S
proof
  fix t and l :: "'a loop"
  show "lo_returned (single_turn S t l) \<longleftrightarrow> lo_returned l \<or> stops t" by (cases t) auto
  show "length (lo_buffer l) < 1 \<Longrightarrow> length (lo_buffer (single_turn S t l)) < 1" by (cases t) auto
  show "stops t \<Longrightarrow> lo_world (single_turn S t l) = lo_world l \<and> lo_buffer (single_turn S t l) = lo_buffer l"
    by (cases t) auto
  show "\<exists>out. lo_buffer l @ turn_msgs t = out @ lo_buffer (single_turn S t l)
      \<and> lo_world (single_turn S t l) = handleBatchMessage S out (lo_world l)" if "\<not> stops t" "length (lo_buffer l) < 1"
    using that by (cases t) (auto simp: turn_msgs_def)
qed

interpretation batch: consume_loop S "batch_turn S" "max 1 (co_batchSize S)" for S
proof
  fix t and l :: "'a loop"
  show "lo_returned (batch_turn S t l) \<longleftrightarrow> lo_returned l \<or> stops t" by (cases t) (auto simp: Let_def)
  show "length (lo_buffer (batch_turn S t l)) < max 1 (co_batchSize S)" if "length (lo_buffer l) < max 1 (co_batchSize S)"
    using that by (cases t) (auto simp: Let_def)
  show "stops t \<Longrightarrow> lo_world (batch_turn S t l) = lo_world l \<and> lo_buffer (batch_turn S t l) = lo_buffer l"
    by (cases t) auto
  show "\<exists>out. lo_buffer l @ turn_msgs t = out @ lo_buffer (batch_turn S t l)
      \<and> lo_world (batch_turn S t l) = handleBatchMessage S out (lo_world l)" if "\<not> stops t" "length (lo_buffer l) < max 1 (co_batchSize S)"
    using that by (cases t) (auto simp: turn_msgs_def Let_def)
qed

lemma backoff_bound_range: "backoff_min mn \<le> backoff_bound n mn mx" "backoff_bound n mn mx \<le> max mx (backoff_min mn)" "0 < backoff_bound n mn mx"
  by (auto simp: backoff_bound_def backoff_min_def ms_def Let_def)

lemma backoff_bound_exact:
  assumes "0 < mn" "mn \<le> mx" "n \<le> 6" "mn < 2 ^ 57"
  shows "backoff_bound n mn mx = min (mn * 2 ^ n) mx"
proof -
  have "(2::int) ^ n \<le> 2 ^ 6" using assms(3) by (intro power_increasing) auto
  then have "mn * 2 ^ n \<le> mn * 64" using assms(1) by simp
  then have lt: "mn * 2 ^ n < 2 ^ 63" using assms(4) by simp
  have ge: "mn \<le> mn * 2 ^ n" using assms(1) by (simp add: mult_le_cancel_left1)
  have "signed_take_bit 63 (mn * 2 ^ n) = mn * 2 ^ n"
    using lt ge assms(1) by (intro signed_take_bit_int_eq_self) linarith+
  moreover have "\<not> (2::int) ^ n < 1" using one_le_power [of "2::int" n] by linarith
  ultimately show ?thesis using assms(1,2) by (simp add: backoff_bound_def backoff_min_def push_bit_eq_mult Let_def min_def)
qed

text \<open>The counters, and the counters recorded with the pauses, never exceed six.\<close>

definition counted :: "'w consumer \<Rightarrow> 'w loop \<Rightarrow> bool" where
  "counted S l \<longleftrightarrow> lo_deadlineAttempt l \<le> 6 \<and> lo_errorAttempt l \<le> 6
     \<and> (\<forall>(a, rng)\<in>set (lo_sleeps l). a \<le> 6 \<and> rng \<in> {(co_deadlineMin S, co_deadlineMax S), (co_errorMin S, co_errorMax S)})"

lemma counted_init: "counted S (loop_init w)"
  by (simp add: counted_def loop_init_def)

lemma counted_turn: "counted S l \<Longrightarrow> counted S (batch_turn S t l)" "counted S l \<Longrightarrow> counted S (single_turn S t l)"
  by (cases t; auto simp: counted_def loop_error_def loop_deadline_def loop_flush_def Let_def)+

lemma counted_run: "(\<And>t l. counted S l \<Longrightarrow> counted S (f t l)) \<Longrightarrow> counted S l \<Longrightarrow> counted S (loop_run f ts l)"
  by (induction ts arbitrary: l) auto

section \<open>Properties\<close>

text \<open>
  C9: whatever the environment does, a kafka subscriber handles each message that it fetches once and in the order of
  fetching, in both modes: the effect of the loop is the effect of handling a prefix of the fetched messages one by
  one, and the rest is still in the buffer. The buffer stays smaller than the batch size, and with a batch size of
  zero (only an interval configured) it is empty: every message is handled at once. The loop returns exactly
  when the context or the subscriber is done or a fatal error comes.
\<close>

theorem kafka_consumes_every_message_in_order:
  "\<exists>out. fetched ts = out @ lo_buffer (subscriber_run S ts w)
     \<and> lo_world (subscriber_run S ts w) = fold (\<lambda>km w. snd (handleMessage S km w)) out w
     \<and> length (lo_buffer (subscriber_run S ts w)) < max 1 (co_batchSize S)
     \<and> (lo_returned (subscriber_run S ts w) \<longleftrightarrow> list_ex stops ts)"
proof (cases "isBatchMode S")
  case True
  then show ?thesis
    using batch.init_handles [of S ts w] by (simp add: subscriber_run_def processBatchMessage_def handleBatchMessage_def)
next
  case False
  then have "co_batchSize S = 0" by (simp add: isBatchMode_def)
  then show ?thesis
    using False single.init_handles [where ts = ts and w = w and S = S] by (simp add: subscriber_run_def processSingleMessage_def handleBatchMessage_def)
qed

text \<open>
  C34: the pauses between failed fetches. For every configuration and counter, whatever the shift does on 64 bits, the pause exists (\<open>Int63n\<close> does not panic)
  and lies between half of the effective minimum and the effective maximum: the effective minimum is the configured one, or 50 milliseconds when that is not positive, and
  the effective maximum is the configured one, or the effective minimum when that is larger. The counters of the two loops stop
  at six; for a positive minimum below \<open>2 ^ 57\<close> nanoseconds that is at most the maximum the shift does not overflow there, and the bound of the pause doubles with each failure up to the
  maximum. The hypothesis is that the random number for \<open>n\<close> lies between 0 and \<open>n - 1\<close>.
\<close>

theorem kafka_backoff_is_bounded:
  assumes "\<And>n. 0 < n \<Longrightarrow> 0 \<le> rnd n \<and> rnd n < n"
  shows "(\<exists>t. backoffSleep rnd attempt mn mx = Inr t \<and> backoff_min mn div 2 \<le> t \<and> t \<le> max mx (backoff_min mn))
       \<and> (\<forall>(a, m, M)\<in>set (lo_sleeps (subscriber_run S ts w)).
            a \<le> 6 \<and> (m, M) \<in> {(co_deadlineMin S, co_deadlineMax S), (co_errorMin S, co_errorMax S)}
            \<and> (0 < m \<and> m \<le> M \<and> m < 2 ^ 57 \<longrightarrow> backoff_bound a m M = min (m * 2 ^ a) M))"
proof
  let ?d = "backoff_bound attempt mn mx"
  note d = backoff_bound_range [where mn = mn and n = attempt and mx = mx]
  have "0 < ?d div 2 + 1" using d(3) by simp
  then have "0 \<le> rnd (?d div 2 + 1) \<and> rnd (?d div 2 + 1) < ?d div 2 + 1" by (rule assms)
  then have "backoffSleep rnd attempt mn mx = Inr (?d div 2 + rnd (?d div 2 + 1))"
    "backoff_min mn div 2 \<le> ?d div 2 + rnd (?d div 2 + 1)" "?d div 2 + rnd (?d div 2 + 1) \<le> max mx (backoff_min mn)"
    using d by (auto simp: backoffSleep_def Let_def)
  then show "\<exists>t. backoffSleep rnd attempt mn mx = Inr t \<and> backoff_min mn div 2 \<le> t \<and> t \<le> max mx (backoff_min mn)" by blast
  have "counted S (subscriber_run S ts w)"
    unfolding subscriber_run_def processBatchMessage_def processSingleMessage_def
    by (auto intro!: counted_run counted_turn counted_init)
  then show "\<forall>(a, m, M)\<in>set (lo_sleeps (subscriber_run S ts w)).
            a \<le> 6 \<and> (m, M) \<in> {(co_deadlineMin S, co_deadlineMax S), (co_errorMin S, co_errorMax S)}
            \<and> (0 < m \<and> m \<le> M \<and> m < 2 ^ 57 \<longrightarrow> backoff_bound a m M = min (m * 2 ^ a) M)"
    unfolding counted_def by (auto simp: backoff_bound_exact)
qed

theorem kafka_backoff_is_bounded_witness:
  "\<exists>t. backoffSleep (\<lambda>n. 0) 3 (500 * ms) (5000 * ms) = Inr t \<and> 250 * ms \<le> t \<and> t \<le> 5000 * ms"
  using conjunct1 [OF kafka_backoff_is_bounded [of "\<lambda>n. 0" 3 "500 * ms" "5000 * ms" undefined "[]" "()"]]
  by (simp add: backoff_min_def ms_def)

text \<open>
  C6: from a publisher to a typed handler, through the kafka driver on both sides. When a publication with a positive \<open>retriesCount\<close> returns without an error, exactly one record
  was accepted by a writer. A subscriber with the same codec and a typed handler for \<open>T\<close>, to which kafka delivers a record with that topic, value and headers
  (partition, offset and key may be any), calls the handler given to \<open>broker.Subscribe\<close> once, with the topic, the headers (none becomes an empty map) and the body that were published.
  When the handler succeeds, the record is committed if the subscription has \<open>AutoAck\<close>, and otherwise nothing more is done; when it fails, the record is not committed and the error handler is called.
  Hypotheses: the codec decodes what it encoded into the value that the binder made, the subscriber has a reader, and the table of writers is consistent, as \<open>kafka_publish_is_accepted_once\<close> keeps it.
\<close>

theorem kafka_publish_consume_roundtrip:
  assumes "0 < kp_retriesCount b" and "kp_tracked b" and "kafka_internalPublish gob (Some c) env topic msg b = (None, b')"
    and "co_Codec S = Some c" and "co_binder S = Some (Binder t zero)" and "co_handler S = Subscribe_handler t h"
    and "\<And>buf. c_Marshal c (msg_Body msg) = Inr buf \<Longrightarrow> \<exists>x. buf = Some x \<and>
           c_Unmarshal c x (DPtr (TNamed ''interface {}'') (Some (DPtr t (Some zero))))
             = Inr (DPtr (TNamed ''interface {}'') (Some (DPtr t (Some (msg_Body msg)))))"
    and "hs = (case msg_Headers msg of None \<Rightarrow> [] | Some h \<Rightarrow> h)" and "gomap_wf hs" and "co_commit S = Some commit"
    and "h [] topic (Some hs) (Some (msg_Body msg)) w = (r, w1)"
  shows "\<exists>wr sent. kp_accepted b' = kp_accepted b @ [(wr, sent)]
     \<and> (\<forall>km. km_Topic km = km_Topic sent \<and> km_Value km = km_Value sent \<and> km_Headers km = km_Headers sent \<longrightarrow>
           (r = None \<longrightarrow> handleMessage S km w = (if co_AutoAck S then (fst (commit km w1) \<noteq> None, snd (commit km w1)) else (False, w1)))
         \<and> (r \<noteq> None \<longrightarrow> (\<exists>pub. handleMessage S km w = (True, case co_ErrorHandler S of None \<Rightarrow> w1 | Some eh \<Rightarrow> snd (eh [] (Some pub) w1)))))"
proof -
  obtain wr buf where buf: "Marshal gob (Some c) (msg_Body msg) = Inr buf"
    and wr: "kp_accepted b' = kp_accepted b @ [(wr, kafka_message topic ((Clone msg)\<lparr>msg_Body := DBytes buf\<rparr>))]"
    using kafka_publish_outcome [OF assms(1-3)] by auto
  from buf have "c_Marshal c (msg_Body msg) = Inr buf" by (simp add: Marshal_def split: if_splits)
  from assms(7) [OF this] obtain x where x: "buf = Some x"
    "c_Unmarshal c x (DPtr (TNamed ''interface {}'') (Some (DPtr t (Some zero))))
       = Inr (DPtr (TNamed ''interface {}'') (Some (DPtr t (Some (msg_Body msg)))))" by blast
  let ?sent = "kafka_message topic ((Clone msg)\<lparr>msg_Body := DBytes buf\<rparr>)"
  have val: "km_Value ?sent = Some x" "km_Topic ?sent = topic" by (simp_all add: kafka_message_def BodyBytes_def x(1))
  have hd': "kafkaHeaderToMap (km_Headers ?sent) = hs"
    using assms(8,9) by (auto simp: kafka_headers Clone_def HeadersCopy_def gomap_copy_id kafkaHeaderToMap_id split: option.splits)
  have "(r = None \<longrightarrow> handleMessage S km w = (if co_AutoAck S then (fst (commit km w1) \<noteq> None, snd (commit km w1)) else (False, w1)))
         \<and> (r \<noteq> None \<longrightarrow> (\<exists>pub. handleMessage S km w = (True, case co_ErrorHandler S of None \<Rightarrow> w1 | Some eh \<Rightarrow> snd (eh [] (Some pub) w1))))"
    if km: "km_Topic km = km_Topic ?sent" "km_Value km = km_Value ?sent" "km_Headers km = km_Headers ?sent" for km
  proof -
    have body: "kafka_body S km = Inr (DPtr t (Some (msg_Body msg)))"
      using assms(4,5) x(2) val(1) km(2) by (simp add: kafka_body_def Binder_def Unmarshal_def)
    have "co_handler S [] (Some (newPublication S km ((kafka_received S km)\<lparr>msg_Body := DPtr t (Some (msg_Body msg))\<rparr>))) w = (r, w1)"
      using assms(6,11) val(2) km(1,3) hd' by (cases r) (simp_all add: Subscribe_handler_def newPublication_def kafka_received_def)
    then show ?thesis
      using body assms(10) by (cases r) (auto simp: handleMessage_def publication_Ack_def kafka_fail_def Let_def split: option.split prod.split)
  qed
  then show ?thesis using wr by blast
qed

definition demo_consumer :: "int consumer" where
  "demo_consumer = \<lparr>co_handler = (\<lambda>c evt w. (None, w)), co_binder = None, co_AutoAck = True, co_ErrorHandler = None,
     co_Codec = None, co_gob = \<lparr>c_Marshal = (\<lambda>d. Inl (ErrNew ''gob'')), c_Unmarshal = (\<lambda>b d. Inl (ErrNew ''gob''))\<rparr>,
     co_commit = Some (\<lambda>km n. (None, max n (km_Offset km + 1))), co_raw = (\<lambda>km. DNil), co_batchSize = 0, co_batchInterval = 0,
     co_deadlineMin = 50 * ms, co_deadlineMax = 500 * ms, co_errorMin = 500 * ms, co_errorMax = 5000 * ms\<rparr>"

definition demo_codec :: codec where
  "demo_codec = \<lparr>c_Marshal = (\<lambda>d. Inr (Some ''x'')),
     c_Unmarshal = (\<lambda>b d. Inr (DPtr (TNamed ''interface {}'') (Some (DPtr TInt (Some (DInt 7))))))\<rparr>"

theorem kafka_publish_consume_roundtrip_witness:
  "\<exists>wr km. kp_accepted (snd (kafka_internalPublish demo_codec (Some demo_codec) \<lparr>kp_write = (\<lambda>n. None), kp_close = (\<lambda>w. None)\<rparr> ''t''
          ((NewMessage (DInt 7) [])\<lparr>msg_Headers := Some [(''k'', ''v'')], msg_Offset := 4\<rparr>) kp_fresh)) = [(wr, km)]
     \<and> snd (handleMessage (demo_consumer\<lparr>co_Codec := Some demo_codec, co_binder := Some (Binder TInt (DInt 0)),
          co_handler := Subscribe_handler TInt (\<lambda>c topic hs d w. (None, w + 100))\<rparr>) km 5) = max 105 (km_Offset km + 1)"
proof -
  let ?env = "\<lparr>kp_write = (\<lambda>n. None), kp_close = (\<lambda>w. None)\<rparr>"
  let ?msg = "(NewMessage (DInt 7) [])\<lparr>msg_Headers := Some [(''k'', ''v'')], msg_Offset := 4\<rparr>"
  let ?S = "demo_consumer\<lparr>co_Codec := Some demo_codec, co_binder := Some (Binder TInt (DInt 0)),
          co_handler := Subscribe_handler TInt (\<lambda>c topic hs d w. (None, w + 100))\<rparr>"
  let ?commit = "\<lambda>km n. (None, max n (km_Offset km + 1))"
  obtain b' where b': "kafka_internalPublish demo_codec (Some demo_codec) ?env ''t'' ?msg kp_fresh = (None, b')"
    by (simp add: kafka_internalPublish_def Marshal_def demo_codec_def NewMessage_def kp_fresh_def NewWriter_def
        publishMultipleWriter_def CreateProducer_def kafka_write_def WriteMessages_def)
  have f: "0 < kp_retriesCount kp_fresh" "kp_tracked kp_fresh" by (simp_all add: kp_fresh_def kp_tracked_def NewWriter_def)
  obtain wr sent where acc: "kp_accepted b' = kp_accepted kp_fresh @ [(wr, sent)]"
    and "\<forall>km. km_Topic km = km_Topic sent \<and> km_Value km = km_Value sent \<and> km_Headers km = km_Headers sent \<longrightarrow>
        (None = (None :: error option) \<longrightarrow> handleMessage ?S km 5 = (if co_AutoAck ?S then (fst (?commit km 105) \<noteq> (None :: error option), snd (?commit km 105)) else (False, 105)))
      \<and> (None \<noteq> (None :: error option) \<longrightarrow> (\<exists>pub. handleMessage ?S km 5 = (True, case co_ErrorHandler ?S of None \<Rightarrow> 105 | Some eh \<Rightarrow> snd (eh [] (Some pub) 105))))"
    using kafka_publish_consume_roundtrip [OF f b', of ?S TInt "DInt 0" "\<lambda>c topic hs d w. (None, w + 100)" "[(''k'', ''v'')]" ?commit 5 None 105]
    by (simp add: demo_consumer_def demo_codec_def NewMessage_def) blast
  then have "handleMessage ?S sent 5 = (False, max 105 (km_Offset sent + 1))" by (simp add: demo_consumer_def)
  moreover have "kp_accepted kp_fresh = []" by (simp add: kp_fresh_def)
  ultimately show ?thesis using acc by (intro exI [of _ wr] exI [of _ sent]) (simp add: b')
qed

text \<open>
  A message whose handler fails is not committed, but it is not delivered again either once a later message
  of its partition succeeds: the loop goes on, and committing the later message moves the position of the
  consumer group behind the failed one. \<open>pos\<close> is that position and commits move it forward, as kafka documents. Comments
  in \<open>register.go\<close> and in the kafka transport rely on the redelivery of failed messages.
\<close>

theorem kafka_failed_message_is_skipped:
  fixes pos :: "'w \<Rightarrow> int"
  assumes "co_commit S = Some commit" and "co_AutoAck S" and "co_ErrorHandler S = None" and "co_binder S = None" and "\<not> isBatchMode S"
    and "\<And>km w. commit km w = (None, snd (commit km w)) \<and> pos (snd (commit km w)) = max (pos w) (km_Offset km + 1)"
    and "\<And>evt w. pos (snd (co_handler S [] evt w)) = pos w"
    and "\<And>w. fst (handleMessage S m0 w)" and "\<And>w. \<not> fst (handleMessage S m1 w)" and "km_Offset m0 < km_Offset m1"
  shows "km_Offset m0 < pos (lo_world (subscriber_run S [TFetched m0, TFetched m1] w))
       \<and> pos (snd (handleMessage S m0 w)) = pos w"
proof -
  have pm: "pos (snd (handleMessage S m w)) = (if fst (handleMessage S m w) then pos w else max (pos w) (km_Offset m + 1))" for m w
  proof -
    let ?pub = "newPublication S m ((kafka_received S m)\<lparr>msg_Body := DBytes (km_Value m)\<rparr>)"
    obtain q w1 where q: "co_handler S [] (Some ?pub) w = (q, w1)" by force
    have "pos w1 = pos w" using assms(7) [of "Some ?pub" w] q by simp
    moreover obtain w2 where "commit m w1 = (None, w2)" "pos w2 = max (pos w1) (km_Offset m + 1)" using assms(6) by metis
    ultimately show ?thesis
      using q assms(1-4) by (cases q) (simp_all add: handleMessage_def kafka_body_def kafka_fail_def publication_Ack_def)
  qed
  show ?thesis
    using assms(5,8-10) by (simp add: subscriber_run_def processSingleMessage_def loop_init_def pm)
qed

definition odd_handler :: "int Handler" where
  "odd_handler c evt w =
     ((case evt of Some e \<Rightarrow> (case evt_Message e of Some m \<Rightarrow> if msg_Offset m = 0 then Some (ErrNew ''boom'') else None | None \<Rightarrow> None)
       | None \<Rightarrow> None), w)"

theorem kafka_failed_message_is_skipped_witness:
  "(0::int) < lo_world (subscriber_run (demo_consumer\<lparr>co_handler := odd_handler\<rparr>)
      [TFetched \<lparr>km_Topic = ''t'', km_Value = None, km_Key = [], km_Headers = [], km_Partition = 0, km_Offset = 0\<rparr>,
       TFetched \<lparr>km_Topic = ''t'', km_Value = None, km_Key = [], km_Headers = [], km_Partition = 0, km_Offset = 1\<rparr>] 0)"
proof -
  let ?m = "\<lambda>i. \<lparr>km_Topic = ''t'', km_Value = None, km_Key = [], km_Headers = [], km_Partition = 0, km_Offset = i\<rparr>"
  have "km_Offset (?m 0) < id (lo_world (subscriber_run (demo_consumer\<lparr>co_handler := odd_handler\<rparr>) [TFetched (?m 0), TFetched (?m 1)] 0))
       \<and> id (snd (handleMessage (demo_consumer\<lparr>co_handler := odd_handler\<rparr>) (?m 0) 0)) = id 0"
    by (rule kafka_failed_message_is_skipped) (auto simp: demo_consumer_def isBatchMode_def odd_handler_def handleMessage_def kafka_body_def
        newPublication_def kafka_received_def kafka_fail_def publication_Ack_def)
  then show ?thesis by simp
qed

end
