(* ===== verification/Transport_Utils.thy ===== *)
theory Transport_Utils
  imports Interfaces
begin

text \<open>
  Addresses and endpoints: \<open>transport/utils.go\<close>, used by every server to announce where it listens.
  The functions of \<open>net\<close> and \<open>strconv\<close> that the file calls on host and port strings are defined as the
  Go standard library has them. What the operating system reports (the interfaces, their addresses) is
  an argument; an address comes with its string form, and \<open>ParseIP\<close>, which reads such a form back, is a
  parameter.
\<close>

section \<open>Host and port strings\<close>

text \<open>\<open>net.SplitHostPort\<close>: \<open>i\<close> is the last colon, \<open>e\<close> the first closing bracket.\<close>

definition split_check :: "string \<Rightarrow> string \<Rightarrow> string \<Rightarrow> nat \<Rightarrow> nat \<Rightarrow> error + string \<times> string" where
  "split_check s host port j k =
     (if CHR ''['' \<in> set (drop j s) then Inl (ErrNew ''unexpected '[' in address'')
      else if CHR '']'' \<in> set (drop k s) then Inl (ErrNew ''unexpected ']' in address'')
      else Inr (host, port))"

definition SplitHostPort :: "string \<Rightarrow> error + string \<times> string" where
  "SplitHostPort s =
     (if CHR '':'' \<notin> set s then Inl (ErrNew ''missing port in address'')
      else
        let port = rev (takeWhile (\<lambda>c. c \<noteq> CHR '':'') (rev s));
            i = length s - length port - 1
        in if hd s = CHR ''['' then
             (if CHR '']'' \<notin> set s then Inl (ErrNew ''missing ']' in address'')
              else
                let e = length (takeWhile (\<lambda>c. c \<noteq> CHR '']'') s)
                in if e + 1 = length s then Inl (ErrNew ''missing port in address'')
                   else if e + 1 = i then split_check s (take (e - 1) (drop 1 s)) port 1 (e + 1)
                   else if s ! (e + 1) = CHR '':'' then Inl (ErrNew ''too many colons in address'')
                   else Inl (ErrNew ''missing port in address''))
           else
             let host = take i s
             in if CHR '':'' \<in> set host then Inl (ErrNew ''too many colons in address'')
                else split_check s host port 0 0)"

definition JoinHostPort :: "string \<Rightarrow> string \<Rightarrow> string" where
  "JoinHostPort host port =
     (if CHR '':'' \<in> set host then ''['' @ host @ '']:'' @ port else host @ '':'' @ port)"

text \<open>\<open>strconv.Itoa\<close> on a port, which is not negative, and \<open>strconv.ParseUint(s, 10, 16)\<close>.\<close>

definition digit_char :: "nat \<Rightarrow> char" where
  "digit_char d = char_of (48 + d)"

fun Itoa :: "nat \<Rightarrow> string" where
  "Itoa n = (if n < 10 then [digit_char n] else Itoa (n div 10) @ [digit_char (n mod 10)])"

declare Itoa.simps [simp del]

definition is_digit :: "char \<Rightarrow> bool" where
  "is_digit c = (48 \<le> (of_char c :: nat) \<and> (of_char c :: nat) \<le> 57)"

definition digits_value :: "string \<Rightarrow> nat" where
  "digits_value s = fold (\<lambda>c n. 10 * n + (of_char c - 48)) s 0"

definition ParseUint16 :: "string \<Rightarrow> error + nat" where
  "ParseUint16 s =
     (if s = [] \<or> \<not> list_all is_digit s then Inl (ErrNew ''invalid syntax'')
      else if digits_value s > 65535 then Inl (ErrNew ''value out of range'')
      else Inr (digits_value s))"

definition ExtractHostPort :: "string \<Rightarrow> error + string \<times> nat" where
  "ExtractHostPort addr =
     (case SplitHostPort addr of
        Inl e \<Rightarrow> Inl e
      | Inr (host, ports) \<Rightarrow> (case ParseUint16 ports of Inl e \<Rightarrow> Inl e | Inr port \<Rightarrow> Inr (host, port)))"

section \<open>IP addresses\<close>

text \<open>A parsed address: four bytes, or sixteen that are not an IPv4 address in disguise.\<close>

datatype ip = IPv4 nat nat nat nat | IPv6 "nat list"

fun IsLoopback :: "ip \<Rightarrow> bool" where
  "IsLoopback (IPv4 a b c d) = (a = 127)"
| "IsLoopback (IPv6 bs) = (bs = replicate 15 0 @ [1])"

fun IsUnspecified :: "ip \<Rightarrow> bool" where
  "IsUnspecified (IPv4 a b c d) = (a = 0 \<and> b = 0 \<and> c = 0 \<and> d = 0)"
| "IsUnspecified (IPv6 bs) = (bs = replicate 16 0)"

fun IsMulticast :: "ip \<Rightarrow> bool" where
  "IsMulticast (IPv4 a b c d) = (224 \<le> a \<and> a \<le> 239)"
| "IsMulticast (IPv6 bs) = (bs ! 0 = 255)"

fun IsLinkLocalUnicast :: "ip \<Rightarrow> bool" where
  "IsLinkLocalUnicast (IPv4 a b c d) = (a = 169 \<and> b = 254)"
| "IsLinkLocalUnicast (IPv6 bs) = (bs ! 0 = 254 \<and> bs ! 1 div 64 = 2)"

fun IsInterfaceLocalMulticast :: "ip \<Rightarrow> bool" where
  "IsInterfaceLocalMulticast (IPv4 a b c d) = False"
| "IsInterfaceLocalMulticast (IPv6 bs) = (bs ! 0 = 255 \<and> bs ! 1 mod 16 = 1)"

definition IsGlobalUnicast :: "ip \<Rightarrow> bool" where
  "IsGlobalUnicast p =
     (p \<noteq> IPv4 255 255 255 255 \<and> \<not> IsUnspecified p \<and> \<not> IsLoopback p \<and> \<not> IsMulticast p
      \<and> \<not> IsLinkLocalUnicast p)"

text \<open>A string that is no address parses to the nil IP, which is not global unicast.\<close>

definition IsValidIP :: "(string \<Rightarrow> ip option) \<Rightarrow> string \<Rightarrow> bool" where
  "IsValidIP ParseIP addr =
     (case ParseIP addr of
        None \<Rightarrow> False
      | Some p \<Rightarrow> IsGlobalUnicast p \<and> \<not> IsInterfaceLocalMulticast p)"

text \<open>\<open>ip[0]\<close>, \<open>ip[1]\<close>, \<open>ip[2]\<close> are read from the four-byte form, which \<open>GetLocalIP\<close> passes.\<close>

fun isValidBindableIPv4 :: "nat \<Rightarrow> nat \<Rightarrow> nat \<Rightarrow> nat \<Rightarrow> bool" where
  "isValidBindableIPv4 a b c d =
     (if IsLoopback (IPv4 a b c d) then False
      else if IsUnspecified (IPv4 a b c d) then False
      else if a \<ge> 224 \<and> a \<le> 239 then False
      else if a = 169 \<and> b = 254 then False
      else if a \<ge> 240 then False
      else if (a = 192 \<and> b = 0 \<and> c = 2) \<or> (a = 198 \<and> b = 51 \<and> c = 100) \<or> (a = 203 \<and> b = 0 \<and> c = 113)
      then False
      else True)"

text \<open>An address of an interface: \<open>*net.IPNet\<close>, \<open>*net.IPAddr\<close> or another type.\<close>

datatype raw_addr = RIPNet ip string | RIPAddr ip string | ROther

definition is_v4 :: "ip \<Rightarrow> bool" where
  "is_v4 p = (case p of IPv4 a b c d \<Rightarrow> True | IPv6 bs \<Rightarrow> False)"

fun GetLocalIP_loop :: "raw_addr list \<Rightarrow> error + string" where
  "GetLocalIP_loop [] = Inl (ErrNew ''no suitable local IPv4 address'')"
| "GetLocalIP_loop (RIPNet (IPv4 a b c d) s # as) =
     (if isValidBindableIPv4 a b c d then Inr s else GetLocalIP_loop as)"
| "GetLocalIP_loop (_ # as) = GetLocalIP_loop as"

definition GetLocalIP :: "error + raw_addr list \<Rightarrow> error + string" where
  "GetLocalIP addrs = (case addrs of Inl e \<Rightarrow> Inl e | Inr as \<Rightarrow> GetLocalIP_loop as)"

fun GetIPAddressByInterfaceName_loop :: "string \<Rightarrow> raw_addr list \<Rightarrow> error + string" where
  "GetIPAddressByInterfaceName_loop ifName [] = Inl (ErrNew (''no IPv4 address of interface '' @ ifName))"
| "GetIPAddressByInterfaceName_loop ifName (RIPNet p s # as) =
     (if is_v4 p then Inr s else GetIPAddressByInterfaceName_loop ifName as)"
| "GetIPAddressByInterfaceName_loop ifName (RIPAddr p s # as) =
     (if is_v4 p then Inr s else GetIPAddressByInterfaceName_loop ifName as)"
| "GetIPAddressByInterfaceName_loop ifName (ROther # as) = GetIPAddressByInterfaceName_loop ifName as"

text \<open>\<open>byName\<close> is \<open>net.InterfaceByName\<close> followed by \<open>iface.Addrs\<close>.\<close>

definition GetIPAddressByInterfaceName ::
    "(string \<Rightarrow> error + (error + raw_addr list)) \<Rightarrow> string \<Rightarrow> error + string" where
  "GetIPAddressByInterfaceName byName ifName =
     (case byName ifName of
        Inl e \<Rightarrow> Inl e
      | Inr (Inl e) \<Rightarrow> Inl e
      | Inr (Inr as) \<Rightarrow> GetIPAddressByInterfaceName_loop ifName as)"

section \<open>Endpoints\<close>

text \<open>A listener by its address: a TCP port, or an address that is not a \<open>*net.TCPAddr\<close>.\<close>

datatype listener = TcpListener nat | OtherListener string

fun ExtractPort :: "listener \<Rightarrow> nat \<times> bool" where
  "ExtractPort (TcpListener p) = (p, True)"
| "ExtractPort (OtherListener a) = (0, False)"

record iface =
  if_Up :: bool
  if_Index :: int
  if_Addrs :: "error + raw_addr list"

fun addr_ip :: "raw_addr \<Rightarrow> (ip \<times> string) option" where
  "addr_ip (RIPNet p s) = Some (p, s)"
| "addr_ip (RIPAddr p s) = Some (p, s)"
| "addr_ip ROther = None"

text \<open>
  The inner loop over the addresses of one interface: \<open>i\<close> is the index, the state is \<open>(minIndex, ips)\<close>.
  \<open>break\<close> on an IPv4 address ends it.
\<close>

fun addrs_loop ::
    "(string \<Rightarrow> ip option) \<Rightarrow> int \<Rightarrow> nat \<Rightarrow> raw_addr list \<Rightarrow> int \<times> (ip \<times> string) list \<Rightarrow> int \<times> (ip \<times> string) list"
where
  "addrs_loop pip index i [] st = st"
| "addrs_loop pip index i (raw # as) (minIndex, ips) =
     (case addr_ip raw of
        None \<Rightarrow> addrs_loop pip index (Suc i) as (minIndex, ips)
      | Some (p, s) \<Rightarrow>
          if IsValidIP pip s then
            (let ips1 = (if i = 0 then [] else ips) @ [(p, s)]
             in if is_v4 p then (index, ips1) else addrs_loop pip index (Suc i) as (index, ips1))
          else addrs_loop pip index (Suc i) as (minIndex, ips))"

definition iface_step ::
    "(string \<Rightarrow> ip option) \<Rightarrow> iface \<Rightarrow> int \<times> (ip \<times> string) list \<Rightarrow> int \<times> (ip \<times> string) list" where
  "iface_step pip f st =
     (if \<not> if_Up f then st
      else if if_Index f \<ge> fst st \<and> snd st \<noteq> [] then st
      else (case if_Addrs f of
              Inl e \<Rightarrow> st
            | Inr as \<Rightarrow> addrs_loop pip (if_Index f) 0 as st))"

text \<open>\<open>int(^uint(0) >> 1)\<close> on a 64-bit machine.\<close>

definition maxInt :: int where
  "maxInt = 9223372036854775807"

text \<open>
  \<open>AdjustAddress\<close>: \<open>ifaces\<close> is what \<open>net.Interfaces\<close> returns. With a listener a malformed \<open>hostPort\<close> is
  not an error: \<open>net.SplitHostPort\<close> then returned empty strings.
\<close>

definition AdjustAddress ::
    "(string \<Rightarrow> ip option) \<Rightarrow> error + iface list \<Rightarrow> string \<Rightarrow> listener option \<Rightarrow> error + string" where
  "AdjustAddress pip ifaces hostPort lis =
     (let split = SplitHostPort hostPort;
          addr = (case split of Inl e \<Rightarrow> [] | Inr (a, p) \<Rightarrow> a);
          port0 = (case split of Inl e \<Rightarrow> [] | Inr (a, p) \<Rightarrow> p)
      in case (split, lis) of
           (Inl e, None) \<Rightarrow> Inl e
         | _ \<Rightarrow>
           (case (case lis of
                    None \<Rightarrow> Some port0
                  | Some l \<Rightarrow> (let (p, ok) = ExtractPort l in if ok then Some (Itoa p) else None)) of
              None \<Rightarrow> Inl (ErrNew ''failed to extract port'')
            | Some port \<Rightarrow>
                if length addr > 0 \<and> addr \<noteq> ''0.0.0.0'' \<and> addr \<noteq> ''[::]'' \<and> addr \<noteq> ''::''
                then Inr (JoinHostPort addr port)
                else (case ifaces of
                        Inl e \<Rightarrow> Inl e
                      | Inr fs \<Rightarrow>
                          (let ips = snd (fold (iface_step pip) fs (maxInt, []))
                           in if ips \<noteq> [] then Inr (JoinHostPort (snd (last ips)) port) else Inr []))))"

definition AdjustScheme :: "string \<Rightarrow> bool \<Rightarrow> string" where
  "AdjustScheme scheme isSecure = (if isSecure then scheme @ ''s'' else scheme)"

record url =
  u_Scheme :: string
  u_Host :: string

definition NewRegistryEndpoint :: "string \<Rightarrow> string \<Rightarrow> url" where
  "NewRegistryEndpoint serviceKindName host = \<lparr>u_Scheme = serviceKindName, u_Host = host\<rparr>"

section \<open>Lemmas on host and port strings\<close>

lemma takeWhile_stop: "x \<notin> set xs \<Longrightarrow> takeWhile (\<lambda>c. c \<noteq> x) (xs @ x # ys) = xs"
  by (induction xs) auto

lemma takeWhile_rev_port:
  "CHR '':'' \<notin> set port \<Longrightarrow> takeWhile (\<lambda>c. c \<noteq> CHR '':'') (rev (h @ CHR '':'' # port)) = rev port"
  by (simp add: takeWhile_stop)

lemma Split_Join_plain:
  assumes "CHR '':'' \<notin> set host" "CHR ''['' \<notin> set host" "CHR '']'' \<notin> set host"
    and "CHR '':'' \<notin> set port" "CHR ''['' \<notin> set port" "CHR '']'' \<notin> set port"
  shows "SplitHostPort (host @ CHR '':'' # port) = Inr (host, port)"
proof -
  have "hd (host @ CHR '':'' # port) \<noteq> CHR ''[''" using assms(2) by (cases host) auto
  then show ?thesis
    using assms takeWhile_rev_port [of port host]
    by (simp add: SplitHostPort_def split_check_def Let_def)
qed

lemma Split_Join_bracket:
  assumes "CHR ''['' \<notin> set host" "CHR '']'' \<notin> set host"
    and "CHR '':'' \<notin> set port" "CHR ''['' \<notin> set port" "CHR '']'' \<notin> set port"
  shows "SplitHostPort (''['' @ host @ '']:'' @ port) = Inr (host, port)"
proof -
  let ?s = "''['' @ host @ '']:'' @ port"
  have tw: "takeWhile (\<lambda>c. c \<noteq> CHR '']'') ?s = CHR ''['' # host"
    using assms(2) by (simp add: takeWhile_stop)
  have pr: "takeWhile (\<lambda>c. c \<noteq> CHR '':'') (rev ?s) = rev port"
    using takeWhile_rev_port [OF assms(3), of "''['' @ host @ '']''"] by simp
  show ?thesis
    unfolding SplitHostPort_def Let_def tw pr using assms by (simp add: split_check_def)
qed

lemma Split_Join:
  assumes "CHR ''['' \<notin> set host" "CHR '']'' \<notin> set host"
    and "CHR '':'' \<notin> set port" "CHR ''['' \<notin> set port" "CHR '']'' \<notin> set port"
  shows "SplitHostPort (JoinHostPort host port) = Inr (host, port)"
  using Split_Join_bracket [OF assms] Split_Join_plain [of host port] assms
  by (simp add: JoinHostPort_def)

text \<open>A host that \<open>SplitHostPort\<close> returns has no bracket in it.\<close>

lemma takeWhile_index_clean:
  "CHR '']'' \<notin> set (take (length (takeWhile (\<lambda>c. c \<noteq> CHR '']'') s) - 1) (drop 1 s))"
proof -
  have "take (length (takeWhile (\<lambda>c. c \<noteq> CHR '']'') s) - 1) (drop 1 s)
      = drop 1 (take (length (takeWhile (\<lambda>c. c \<noteq> CHR '']'') s)) s)"
    by (simp add: drop_take)
  also have "\<dots> = drop 1 (takeWhile (\<lambda>c. c \<noteq> CHR '']'') s)"
    by (metis takeWhile_eq_take)
  finally show ?thesis using set_takeWhileD in_set_dropD by metis
qed

lemma SplitHostPort_host_clean:
  assumes "SplitHostPort s = Inr (host, port)"
  shows "CHR ''['' \<notin> set host \<and> CHR '']'' \<notin> set host"
  using assms takeWhile_index_clean [of s]
  by (auto simp: SplitHostPort_def split_check_def Let_def split: if_splits dest: in_set_takeD)

lemma Itoa_ne [simp]: "Itoa n \<noteq> []"
  by (subst Itoa.simps) simp

lemma of_char_digit: "d < 10 \<Longrightarrow> (of_char (digit_char d) :: nat) = 48 + d"
  by (simp add: digit_char_def)

lemma digit_char_is_digit: "d < 10 \<Longrightarrow> is_digit (digit_char d)"
  by (simp add: is_digit_def of_char_digit)

lemma Itoa_digits: "list_all is_digit (Itoa n)"
proof (induction n rule: Itoa.induct)
  case (1 n)
  then show ?case by (subst Itoa.simps) (auto simp: digit_char_is_digit)
qed

lemma Itoa_value: "digits_value (Itoa n) = n"
proof (induction n rule: Itoa.induct)
  case (1 n)
  then show ?case by (subst Itoa.simps) (auto simp: digits_value_def of_char_digit)
qed

lemma digit_not_delim:
  "list_all is_digit s \<Longrightarrow> CHR '':'' \<notin> set s \<and> CHR ''['' \<notin> set s \<and> CHR '']'' \<notin> set s"
  by (induction s) (auto simp: is_digit_def)

lemma ExtractHostPort_Join:
  assumes "CHR ''['' \<notin> set host" "CHR '']'' \<notin> set host" and "p \<le> 65535"
  shows "ExtractHostPort (JoinHostPort host (Itoa p)) = Inr (host, p)"
  using Split_Join [OF assms(1,2), of "Itoa p"] digit_not_delim [OF Itoa_digits, of p] assms(3)
  by (simp add: ExtractHostPort_def ParseUint16_def Itoa_digits Itoa_value)

section \<open>Lemmas on the choice of an address\<close>

definition valid_addrs :: "(string \<Rightarrow> ip option) \<Rightarrow> raw_addr list \<Rightarrow> (ip \<times> string) set" where
  "valid_addrs pip as = {(p, s). \<exists>r\<in>set as. addr_ip r = Some (p, s) \<and> IsValidIP pip s}"

definition iface_addrs :: "(string \<Rightarrow> ip option) \<Rightarrow> iface \<Rightarrow> (ip \<times> string) set" where
  "iface_addrs pip f =
     (if if_Up f then (case if_Addrs f of Inl e \<Rightarrow> {} | Inr as \<Rightarrow> valid_addrs pip as) else {})"

lemma valid_addrs_Cons:
  "valid_addrs pip (r # as) =
     (case addr_ip r of
        None \<Rightarrow> valid_addrs pip as
      | Some (p, s) \<Rightarrow> if IsValidIP pip s then insert (p, s) (valid_addrs pip as) else valid_addrs pip as)"
  by (auto simp: valid_addrs_def split: option.splits)

lemma addrs_loop_none: "valid_addrs pip as = {} \<Longrightarrow> addrs_loop pip idx i as st = st"
proof (induction as arbitrary: i st)
  case (Cons r as)
  then show ?case by (cases st) (auto simp: valid_addrs_Cons split: option.splits if_splits)
qed simp

lemma addrs_loop_keeps:
  "ips \<noteq> [] \<Longrightarrow> 0 < i \<Longrightarrow> addrs_loop pip idx i as (idx, ips) = (k, ips')
    \<Longrightarrow> k = idx \<and> ips' \<noteq> [] \<and> last ips' \<in> insert (last ips) (valid_addrs pip as)"
proof (induction as arbitrary: i ips)
  case (Cons r as)
  show ?case
  proof (cases "addr_ip r")
    case None
    then show ?thesis using Cons.prems Cons.IH [of ips "Suc i"] by (auto simp: valid_addrs_Cons)
  next
    case (Some ps)
    obtain p s where ps: "ps = (p, s)" by force
    show ?thesis
      using Some ps Cons.prems Cons.IH [of ips "Suc i"] Cons.IH [of "ips @ [(p, s)]" "Suc i"]
      by (auto simp: valid_addrs_Cons Let_def split: if_splits)
  qed
qed simp

lemma addrs_loop_some:
  "valid_addrs pip as \<noteq> {} \<Longrightarrow> addrs_loop pip idx i as (m, ips) = (k, ips')
    \<Longrightarrow> k = idx \<and> ips' \<noteq> [] \<and> last ips' \<in> valid_addrs pip as"
proof (induction as arbitrary: i)
  case Nil
  then show ?case by (simp add: valid_addrs_def)
next
  case (Cons r as)
  show ?case
  proof (cases "addr_ip r")
    case None
    then show ?thesis using Cons.prems Cons.IH [of "Suc i"] by (auto simp: valid_addrs_Cons)
  next
    case (Some ps)
    obtain p s where ps: "ps = (p, s)" by force
    show ?thesis
      using Some ps Cons.prems Cons.IH [of "Suc i"]
        addrs_loop_keeps [of "[(p, s)]" "Suc i" pip idx as k ips']
        addrs_loop_keeps [of "ips @ [(p, s)]" "Suc i" pip idx as k ips']
      by (auto simp: valid_addrs_Cons Let_def split: if_splits)
  qed
qed

text \<open>What holds of \<open>(minIndex, ips)\<close> after the interfaces \<open>fs\<close>.\<close>

definition pick_inv :: "(string \<Rightarrow> ip option) \<Rightarrow> iface list \<Rightarrow> int \<times> (ip \<times> string) list \<Rightarrow> bool" where
  "pick_inv pip fs st =
     (if snd st = [] then \<forall>f\<in>set fs. iface_addrs pip f = {}
      else (\<exists>f\<in>set fs. if_Index f = fst st \<and> last (snd st) \<in> iface_addrs pip f)
         \<and> (\<forall>g\<in>set fs. iface_addrs pip g \<noteq> {} \<longrightarrow> fst st \<le> if_Index g))"

lemma pick_inv_step:
  assumes "pick_inv pip fs st"
  shows "pick_inv pip (fs @ [f]) (iface_step pip f st)"
proof (cases "iface_addrs pip f = {}")
  case True
  have "iface_step pip f st = st"
  proof (cases "if_Addrs f")
    case (Inr as)
    then show ?thesis
      using True by (auto simp: iface_step_def iface_addrs_def addrs_loop_none split: if_splits)
  qed (simp add: iface_step_def)
  then show ?thesis using assms True by (auto simp: pick_inv_def)
next
  case False
  then obtain as where as: "if_Up f" "if_Addrs f = Inr as" "valid_addrs pip as \<noteq> {}"
    by (auto simp: iface_addrs_def split: if_splits sum.splits)
  show ?thesis
  proof (cases "if_Index f \<ge> fst st \<and> snd st \<noteq> []")
    case True
    then show ?thesis using assms by (auto simp: pick_inv_def iface_step_def)
  next
    case step: False
    let ?st = "iface_step pip f st"
    have st: "?st = addrs_loop pip (if_Index f) 0 as (fst st, snd st)"
      using step as by (auto simp: iface_step_def)
    have "fst ?st = if_Index f \<and> snd ?st \<noteq> [] \<and> last (snd ?st) \<in> iface_addrs pip f"
      using addrs_loop_some [OF as(3), of "if_Index f" 0 "fst st" "snd st" "fst ?st" "snd ?st"] as
      unfolding st by (simp add: iface_addrs_def)
    moreover have "if_Index f \<le> if_Index g" if "g \<in> set fs" "iface_addrs pip g \<noteq> {}" for g
      using that assms step by (force simp: pick_inv_def split: if_splits)
    ultimately show ?thesis by (simp add: pick_inv_def)
  qed
qed

lemma pick_inv_fold: "pick_inv pip fs (fold (iface_step pip) fs (m, []))"
proof (induction fs rule: rev_induct)
  case Nil
  then show ?case by (simp add: pick_inv_def)
next
  case (snoc f fs)
  then show ?case using pick_inv_step by simp
qed

section \<open>Properties\<close>

text \<open>
  A server that was given an explicit host announces that host with the port its listener really
  has: the announced address splits back into the host and the listener's port, also for IPv6 hosts and
  when the configured port was 0.
\<close>

theorem AdjustAddress_explicit_host:
  assumes "SplitHostPort hostPort = Inr (host, port)"
    and "host \<notin> {[], ''0.0.0.0'', ''[::]'', ''::''}" and "p \<le> 65535"
  shows "\<exists>a. AdjustAddress pip ifaces hostPort (Some (TcpListener p)) = Inr a
            \<and> ExtractHostPort a = Inr (host, p)"
  using assms ExtractHostPort_Join [of host p] SplitHostPort_host_clean [OF assms(1)]
  by (simp add: AdjustAddress_def Let_def)

theorem AdjustAddress_explicit_host_witness:
  "\<exists>a. AdjustAddress (\<lambda>_. None) (Inr []) ''[fd00::1]:0'' (Some (TcpListener 8080)) = Inr a
     \<and> ExtractHostPort a = Inr (''fd00::1'', 8080)"
  by (rule AdjustAddress_explicit_host [where port = "''0''"])
    (simp_all add: SplitHostPort_def split_check_def Let_def)

text \<open>
  For a wildcard address the announced host is a valid unicast address of an interface that is up,
  and no interface that is up and has a valid address has a smaller index; the announced address is
  empty, without an error, exactly when no interface has a valid address.
\<close>

theorem AdjustAddress_wildcard:
  assumes "SplitHostPort hostPort = Inr (host, port)" and "host \<in> {[], ''0.0.0.0'', ''::''}"
  shows "(\<forall>f\<in>set fs. iface_addrs pip f = {})
           \<and> AdjustAddress pip (Inr fs) hostPort (Some (TcpListener p)) = Inr []
       \<or> (\<exists>f ip s. f \<in> set fs \<and> if_Up f \<and> (ip, s) \<in> iface_addrs pip f \<and> IsValidIP pip s
           \<and> (\<forall>g\<in>set fs. iface_addrs pip g \<noteq> {} \<longrightarrow> if_Index f \<le> if_Index g)
           \<and> AdjustAddress pip (Inr fs) hostPort (Some (TcpListener p)) = Inr (JoinHostPort s (Itoa p)))"
proof -
  let ?st = "fold (iface_step pip) fs (maxInt, [])"
  have inv: "pick_inv pip fs ?st" by (rule pick_inv_fold)
  have adj: "AdjustAddress pip (Inr fs) hostPort (Some (TcpListener p)) =
      (if snd ?st \<noteq> [] then Inr (JoinHostPort (snd (last (snd ?st))) (Itoa p)) else Inr [])"
    using assms by (auto simp: AdjustAddress_def Let_def)
  show ?thesis
  proof (cases "snd ?st = []")
    case True
    then show ?thesis using inv adj by (simp add: pick_inv_def)
  next
    case False
    then obtain f where f: "f \<in> set fs" "if_Index f = fst ?st" "last (snd ?st) \<in> iface_addrs pip f"
        "\<forall>g\<in>set fs. iface_addrs pip g \<noteq> {} \<longrightarrow> fst ?st \<le> if_Index g"
      using inv by (auto simp: pick_inv_def)
    moreover obtain ip s where "last (snd ?st) = (ip, s)" by force
    moreover have "if_Up f \<and> IsValidIP pip s" if "(ip, s) \<in> iface_addrs pip f" for ip s
      using that by (auto simp: iface_addrs_def valid_addrs_def split: if_splits sum.splits)
    ultimately show ?thesis using adj False by (metis snd_conv)
  qed
qed

theorem AdjustAddress_wildcard_witness:
  "AdjustAddress (\<lambda>_. Some (IPv4 10 0 0 7)) (Inr [\<lparr>if_Up = True, if_Index = 2,
      if_Addrs = Inr [RIPNet (IPv4 10 0 0 7) ''10.0.0.7'']\<rparr>]) '':0'' (Some (TcpListener 80))
    = Inr (JoinHostPort ''10.0.0.7'' (Itoa 80))"
proof -
  let ?f = "\<lparr>if_Up = True, if_Index = 2, if_Addrs = Inr [RIPNet (IPv4 10 0 0 7) ''10.0.0.7'']\<rparr>"
  let ?pip = "\<lambda>_::string. Some (IPv4 10 0 0 7)"
  have a: "iface_addrs ?pip ?f = {(IPv4 10 0 0 7, ''10.0.0.7'')}"
    by (auto simp: iface_addrs_def valid_addrs_def IsValidIP_def IsGlobalUnicast_def)
  have h: "SplitHostPort '':0'' = Inr ([], ''0'')"
    by (simp add: SplitHostPort_def split_check_def Let_def)
  show ?thesis
    using AdjustAddress_wildcard [OF h, where fs = "[?f]" and pip = ?pip and p = 80] a by auto
qed

end
