(* ===== verification/Keepalive.thy ===== *)
theory Keepalive
  imports Transport_Utils
begin

text \<open>
  The keepalive server, \<open>transport/keepalive/server.go\<close>, \<open>options.go\<close>, \<open>utils.go\<close> and \<open>env.go\<close>: a gRPC health
  server that other servers start beside themselves. The network, the environment variables and the random
  number are parameters; a gRPC server is only nil or not. \<open>Start\<close> takes no lock, so it is
  given in the pieces between which another goroutine can run, and \<open>Stop\<close> in one piece.
\<close>

section \<open>State\<close>

record ka_env =
  ke_Listen :: "string \<Rightarrow> string \<Rightarrow> error + listener"
  ke_ParseIP :: "string \<Rightarrow> ip option"
  ke_Interfaces :: "error + iface list"
  ke_InterfaceByName :: "string \<Rightarrow> error + (error + raw_addr list)"
  ke_InterfaceAddrs :: "error + raw_addr list"
  ke_LookupEnv :: "string \<Rightarrow> string option"
  ke_Intn :: "nat \<Rightarrow> nat"

record ka_server =
  ka_Server :: bool
  ka_serving :: bool
  ka_grpcOpts :: "string list"
  ka_lis :: "listener option"
  ka_endpoint :: "url option"
  ka_network :: string
  ka_address :: string
  ka_serviceKind :: string
  ka_started :: bool
  ka_stopReq :: bool
  ka_err :: "error option"

definition KindKeepAlive :: string where "KindKeepAlive = ''keepalive''"
definition EnvKeyHost :: string where "EnvKeyHost = ''KRATOS_TRANSPORT_KEEPALIVE_HOST''"
definition EnvKeyInterface :: string where "EnvKeyInterface = ''KRATOS_TRANSPORT_KEEPALIVE_INTERFACE''"

section \<open>Options and construction\<close>

definition ka_WithTLSConfig :: "string option \<Rightarrow> ka_server \<Rightarrow> ka_server" where
  "ka_WithTLSConfig tlsConf s = (case tlsConf of None \<Rightarrow> s | Some c \<Rightarrow> s\<lparr>ka_grpcOpts := ka_grpcOpts s @ [c]\<rparr>)"

definition ka_WithNetwork :: "string \<Rightarrow> ka_server \<Rightarrow> ka_server" where
  "ka_WithNetwork network s = s\<lparr>ka_network := network\<rparr>"

definition ka_WithAddress :: "string \<Rightarrow> ka_server \<Rightarrow> ka_server" where
  "ka_WithAddress addr s = s\<lparr>ka_address := addr\<rparr>"

definition ka_WithEndpoint :: "url option \<Rightarrow> ka_server \<Rightarrow> ka_server" where
  "ka_WithEndpoint endpoint s = s\<lparr>ka_endpoint := endpoint\<rparr>"

definition ka_WithServiceKind :: "string \<Rightarrow> ka_server \<Rightarrow> ka_server" where
  "ka_WithServiceKind name s = s\<lparr>ka_serviceKind := name\<rparr>"

definition generateNumber :: "ka_env \<Rightarrow> nat \<Rightarrow> nat \<Rightarrow> nat" where
  "generateNumber env minNum maxNum = ke_Intn env (maxNum - minNum) + minNum"

definition generatePort :: "ka_env \<Rightarrow> nat" where
  "generatePort env = generateNumber env 10000 65535"

definition generateHost :: "ka_env \<Rightarrow> error + string" where
  "generateHost env =
     (case ke_LookupEnv env EnvKeyInterface of
        Some itf \<Rightarrow> GetIPAddressByInterfaceName (ke_InterfaceByName env) itf
      | None \<Rightarrow>
          (case ke_LookupEnv env EnvKeyHost of
             Some h \<Rightarrow> Inr h
           | None \<Rightarrow> GetLocalIP (ke_InterfaceAddrs env)))"

text \<open>\<open>addr, _ := generateHost()\<close>: on an error the host is empty.\<close>

definition ka_init :: "ka_env \<Rightarrow> (ka_server \<Rightarrow> ka_server) list \<Rightarrow> ka_server \<Rightarrow> ka_server" where
  "ka_init env opts s0 =
     (let s1 = fold (\<lambda>opt s. opt s) opts s0;
          s2 = (if ka_address s1 = ''''
                then s1\<lparr>ka_address := (case generateHost env of Inl e \<Rightarrow> '''' | Inr a \<Rightarrow> a) @ '':'' @ Itoa (generatePort env)\<rparr>
                else s1)
      in s2\<lparr>ka_Server := True\<rparr>)"

definition ka_NewServer :: "ka_env \<Rightarrow> (ka_server \<Rightarrow> ka_server) list \<Rightarrow> ka_server" where
  "ka_NewServer env opts = ka_init env opts
     \<lparr>ka_Server = False, ka_serving = True, ka_grpcOpts = [], ka_lis = None, ka_endpoint = None, ka_network = ''tcp'',
      ka_address = '''', ka_serviceKind = KindKeepAlive, ka_started = False, ka_stopReq = False, ka_err = None\<rparr>"

section \<open>Life cycle\<close>

definition ka_listenAndEndpoint :: "ka_env \<Rightarrow> ka_server \<Rightarrow> error option \<times> ka_server" where
  "ka_listenAndEndpoint env s =
     (case (case ka_lis s of
              Some l \<Rightarrow> Inr s
            | None \<Rightarrow> (case ke_Listen env (ka_network s) (ka_address s) of
                         Inl e \<Rightarrow> Inl e
                       | Inr lis \<Rightarrow> Inr (s\<lparr>ka_lis := Some lis\<rparr>))) of
        Inl e \<Rightarrow> (Some e, s)
      | Inr s1 \<Rightarrow>
          (if ka_endpoint s1 = None
           then (case AdjustAddress (ke_ParseIP env) (ke_Interfaces env) (ka_address s1) (ka_lis s1) of
                   Inl e \<Rightarrow> (Some e, s1)
                 | Inr addr \<Rightarrow> (None, s1\<lparr>ka_endpoint := Some (NewRegistryEndpoint (ka_serviceKind s1) addr)\<rparr>))
           else (None, s1)))"

definition ka_Endpoint :: "ka_env \<Rightarrow> ka_server \<Rightarrow> (error + url option) \<times> ka_server" where
  "ka_Endpoint env s =
     (case ka_listenAndEndpoint env s of
        (Some e, s1) \<Rightarrow> (Inl e, s1)
      | (None, s1) \<Rightarrow> (Inr (ka_endpoint s1), s1))"

text \<open>
  Where a call of \<open>Start\<close> is: after the latch and the listener, after the test of the latch, after the log
  line, inside \<open>Serve\<close>, back, or panicked on a nil pointer.
\<close>

datatype ka_pc = KaListened | KaChecked | KaLogged | KaServing | KaReturned "error option" | KaPanicked

definition ka_Start_listen :: "ka_env \<Rightarrow> ka_server \<Rightarrow> ka_pc \<times> ka_server" where
  "ka_Start_listen env s =
     (let s1 = s\<lparr>ka_stopReq := False, ka_Server := True\<rparr>
      in if ka_started s1 then (KaReturned None, s1)
         else
           (case ka_listenAndEndpoint env (s1\<lparr>ka_started := True\<rparr>) of
              (Some e, s2) \<Rightarrow> (KaReturned (Some e), s2\<lparr>ka_err := Some e, ka_started := False\<rparr>)
            | (None, s2) \<Rightarrow> (KaListened, s2\<lparr>ka_err := None\<rparr>)))"

definition ka_Start_check :: "ka_server \<Rightarrow> ka_pc \<times> ka_server" where
  "ka_Start_check s = (if ka_stopReq s then (KaReturned None, s\<lparr>ka_started := False\<rparr>) else (KaChecked, s))"

definition ka_Start_log :: "ka_server \<Rightarrow> ka_pc \<times> ka_server" where
  "ka_Start_log s =
     (case ka_lis s of None \<Rightarrow> (KaPanicked, s\<lparr>ka_serving := True\<rparr>) | Some l \<Rightarrow> (KaLogged, s\<lparr>ka_serving := True\<rparr>))"

definition ka_Start_serve :: "ka_server \<Rightarrow> ka_pc \<times> ka_server" where
  "ka_Start_serve s = (if ka_Server s then (KaServing, s) else (KaPanicked, s))"

text \<open>The end of \<open>Serve\<close> with its error; \<open>closed\<close> says that it is one of the two that mean a regular stop.\<close>

definition ka_Start_end :: "error option \<Rightarrow> bool \<Rightarrow> ka_server \<Rightarrow> ka_pc \<times> ka_server" where
  "ka_Start_end err closed s =
     (let s1 = s\<lparr>ka_err := err, ka_started := False\<rparr>
      in if err \<noteq> None \<and> \<not> closed then (KaReturned err, s1) else (KaReturned None, s1))"

definition ka_Stop :: "ka_server \<Rightarrow> ka_server" where
  "ka_Stop s =
     (let s1 = s\<lparr>ka_stopReq := True\<rparr>
      in if \<not> ka_started s1 then s1
         else s1\<lparr>ka_started := False, ka_serving := False, ka_Server := False, ka_lis := None, ka_endpoint := None,
                 ka_err := None\<rparr>)"

text \<open>\<open>Start\<close> with nothing in between, up to the blocking \<open>Serve\<close>.\<close>

fun ka_then :: "ka_pc \<times> ka_server \<Rightarrow> ka_pc \<Rightarrow> (ka_server \<Rightarrow> ka_pc \<times> ka_server) \<Rightarrow> ka_pc \<times> ka_server" where
  "ka_then (pc, s) at k = (if pc = at then k s else (pc, s))"

definition ka_Start :: "ka_env \<Rightarrow> ka_server \<Rightarrow> ka_pc \<times> ka_server" where
  "ka_Start env s =
     ka_then (ka_then (ka_then (ka_Start_listen env s) KaListened ka_Start_check) KaChecked ka_Start_log) KaLogged ka_Start_serve"

section \<open>The keepalive server of another server\<close>

text \<open>
  The servers of the other packages hold a pointer to a keepalive server and launch its \<open>Start\<close> in a goroutine,
  which keeps the pointer when the field is set to nil. A \<open>ka_slot\<close> is this field, its switch, the
  instances, and the goroutines that were launched and have not run yet.
\<close>

record ka_slot =
  sl_keepaliveServer :: "nat option"
  sl_enableKeepalive :: bool
  sl_heap :: "ka_server list"
  sl_go :: "nat list"

definition no_slot :: "bool \<Rightarrow> ka_slot" where
  "no_slot enable = \<lparr>sl_keepaliveServer = None, sl_enableKeepalive = enable, sl_heap = [], sl_go = []\<rparr>"

definition slot_new :: "ka_env \<Rightarrow> string \<Rightarrow> ka_slot \<Rightarrow> ka_slot" where
  "slot_new env kind s =
     s\<lparr>sl_keepaliveServer := Some (length (sl_heap s)),
       sl_heap := sl_heap s @ [ka_NewServer env [ka_WithServiceKind kind]]\<rparr>"

definition slot_launch :: "ka_slot \<Rightarrow> ka_slot" where
  "slot_launch s =
     (case sl_keepaliveServer s of
        Some ka \<Rightarrow> if sl_enableKeepalive s then s\<lparr>sl_go := sl_go s @ [ka]\<rparr> else s
      | None \<Rightarrow> s)"

text \<open>The goroutine \<open>ka.Start\<close>, up to its blocking \<open>Serve\<close>.\<close>

definition slot_run :: "ka_env \<Rightarrow> nat \<Rightarrow> ka_slot \<Rightarrow> ka_pc \<times> ka_slot" where
  "slot_run env ka s =
     (let (pc, k) = ka_Start env (sl_heap s ! ka)
      in (pc, s\<lparr>sl_heap := (sl_heap s)[ka := k], sl_go := remove1 ka (sl_go s)\<rparr>))"

definition slot_stop :: "ka_slot \<Rightarrow> ka_slot" where
  "slot_stop s =
     (case sl_keepaliveServer s of
        None \<Rightarrow> s
      | Some ka \<Rightarrow> s\<lparr>sl_heap := (sl_heap s)[ka := ka_Stop (sl_heap s ! ka)], sl_keepaliveServer := None\<rparr>)"

definition slot_Endpoint :: "ka_env \<Rightarrow> string \<Rightarrow> ka_slot \<Rightarrow> (error + url option) \<times> ka_slot" where
  "slot_Endpoint env nil_text s =
     (case sl_keepaliveServer s of
        None \<Rightarrow> (Inl (ErrNew nil_text), s)
      | Some ka \<Rightarrow> (let (r, k) = ka_Endpoint env (sl_heap s ! ka) in (r, s\<lparr>sl_heap := (sl_heap s)[ka := k]\<rparr>)))"

lemma slot_fields [simp]:
  "sl_enableKeepalive (slot_new env kind s) = sl_enableKeepalive s" "sl_go (slot_new env kind s) = sl_go s"
  "sl_enableKeepalive (slot_launch s) = sl_enableKeepalive s" "sl_keepaliveServer (slot_launch s) = sl_keepaliveServer s"
  "sl_heap (slot_launch s) = sl_heap s"
  "sl_enableKeepalive (slot_stop s) = sl_enableKeepalive s" "sl_keepaliveServer (slot_stop s) = None" "sl_go (slot_stop s) = sl_go s"
  by (simp_all add: slot_new_def slot_launch_def slot_stop_def split: option.split)

section \<open>Lemmas\<close>

lemma ka_listen_ok:
  assumes "ka_listenAndEndpoint env s = (None, s1)"
  shows "ka_lis s1 \<noteq> None \<and> ka_endpoint s1 \<noteq> None \<and> ka_started s1 = ka_started s \<and> ka_stopReq s1 = ka_stopReq s
       \<and> ka_Server s1 = ka_Server s"
  using assms by (auto simp: ka_listenAndEndpoint_def split: option.splits sum.splits if_splits)

lemma ka_listen_endpoint:
  assumes "ka_lis s = None" "ka_endpoint s = None" "ke_Listen env (ka_network s) (ka_address s) = Inr lis"
    and "AdjustAddress (ke_ParseIP env) (ke_Interfaces env) (ka_address s) (Some lis) = Inr a"
  shows "ka_listenAndEndpoint env s =
    (None, s\<lparr>ka_lis := Some lis, ka_endpoint := Some (NewRegistryEndpoint (ka_serviceKind s) a)\<rparr>)"
  using assms by (simp add: ka_listenAndEndpoint_def)

lemma AdjustAddress_total: "\<exists>a. AdjustAddress pip (Inr fs) hp (Some (TcpListener p)) = Inr a"
  by (cases "SplitHostPort hp") (auto simp: AdjustAddress_def Let_def)

lemma ka_NewServer_fields:
  "ka_started (ka_NewServer env []) = False" "ka_stopReq (ka_NewServer env []) = False" "ka_lis (ka_NewServer env []) = None"
  "ka_endpoint (ka_NewServer env []) = None"
  "ka_address (ka_NewServer env []) = (case generateHost env of Inl e \<Rightarrow> '''' | Inr a \<Rightarrow> a) @ '':'' @ Itoa (generatePort env)"
  by (simp_all add: ka_NewServer_def ka_init_def Let_def)

definition ka_test_env :: ka_env where
  "ka_test_env = \<lparr>ke_Listen = (\<lambda>n a. Inr (TcpListener 10007)), ke_ParseIP = (\<lambda>_. None), ke_Interfaces = Inr [],
     ke_InterfaceByName = (\<lambda>_. Inl (ErrNew ''no such interface'')), ke_InterfaceAddrs = Inr [],
     ke_LookupEnv = (\<lambda>k. if k = EnvKeyHost then Some ''10.0.0.7'' else None), ke_Intn = (\<lambda>n. 7 mod n)\<rparr>"

lemma ka_test_env_fields:
  "ke_Listen ka_test_env n a = Inr (TcpListener 10007)" "ke_Interfaces ka_test_env = Inr []"
  "generateHost ka_test_env = Inr ''10.0.0.7''"
  by (simp_all add: ka_test_env_def generateHost_def EnvKeyHost_def EnvKeyInterface_def)

section \<open>Properties\<close>

text \<open>
  A keepalive server can be restarted and announces its new address: after \<open>Stop\<close> of a running server the listener, the
  endpoint and the gRPC server are gone, \<open>Start\<close> listens again, serves, and \<open>Endpoint\<close> announces the address of
  the new listener.
\<close>

theorem keepalive_restart:
  assumes "ka_started s"
    and "ke_Listen env (ka_network s) (ka_address s) = Inr lis"
    and "AdjustAddress (ke_ParseIP env) (ke_Interfaces env) (ka_address s) (Some lis) = Inr a"
  shows "ka_lis (ka_Stop s) = None \<and> ka_endpoint (ka_Stop s) = None \<and> \<not> ka_started (ka_Stop s)
       \<and> (\<exists>s'. ka_Start env (ka_Stop s) = (KaServing, s') \<and> ka_started s' \<and> ka_lis s' = Some lis
            \<and> ka_Endpoint env s' = (Inr (Some (NewRegistryEndpoint (ka_serviceKind s) a)), s'))"
  using assms
  by (simp add: ka_Stop_def ka_Start_def ka_Start_listen_def ka_listen_endpoint ka_Start_check_def ka_Start_log_def
      ka_Start_serve_def ka_Endpoint_def ka_listenAndEndpoint_def Let_def)

theorem keepalive_restart_witness:
  "\<exists>s'. ka_Start ka_test_env (ka_Stop ((ka_NewServer ka_test_env [])\<lparr>ka_started := True\<rparr>)) = (KaServing, s')
     \<and> ka_lis s' = Some (TcpListener 10007)"
proof -
  let ?s = "(ka_NewServer ka_test_env [])\<lparr>ka_started := True\<rparr>"
  obtain a where a: "AdjustAddress (ke_ParseIP ka_test_env) (Inr []) (ka_address ?s) (Some (TcpListener 10007)) = Inr a"
    using AdjustAddress_total by blast
  have "\<exists>s'. ka_Start ka_test_env (ka_Stop ?s) = (KaServing, s') \<and> ka_started s' \<and> ka_lis s' = Some (TcpListener 10007)
            \<and> ka_Endpoint ka_test_env s' = (Inr (Some (NewRegistryEndpoint (ka_serviceKind ?s) a)), s')"
    by (rule keepalive_restart [THEN conjunct2, THEN conjunct2, THEN conjunct2])
      (use a in \<open>simp_all add: ka_test_env_fields\<close>)
  then show ?thesis by blast
qed

text \<open>
  A \<open>Stop\<close> that runs before the goroutine of \<open>Start\<close> is lost: \<open>Start\<close> resets the latch that \<open>Stop\<close> has set, so it
  listens and serves, although its owner has stopped it and forgets the instance.
\<close>

theorem keepalive_stop_before_start_is_lost:
  assumes "\<not> ka_started s" and "ka_listenAndEndpoint env (s\<lparr>ka_stopReq := False, ka_Server := True, ka_started := True\<rparr>) = (None, s1)"
  shows "ka_stopReq (ka_Stop s) \<and> (\<exists>s'. ka_Start env (ka_Stop s) = (KaServing, s') \<and> ka_started s' \<and> ka_lis s' \<noteq> None)"
proof -
  let ?s = "s\<lparr>ka_stopReq := False, ka_Server := True, ka_started := True\<rparr>"
  have st: "ka_Stop s = s\<lparr>ka_stopReq := True\<rparr>" using assms(1) by (simp add: ka_Stop_def)
  have "(s\<lparr>ka_stopReq := True\<rparr>)\<lparr>ka_stopReq := False, ka_Server := True, ka_started := True\<rparr> = ?s" by simp
  then have l: "ka_Start_listen env (ka_Stop s) = (KaListened, s1\<lparr>ka_err := None\<rparr>)"
    using assms by (simp add: st ka_Start_listen_def)
  have "ka_lis s1 \<noteq> None" "ka_started s1" "\<not> ka_stopReq s1" "ka_Server s1" using ka_listen_ok [OF assms(2)] by simp_all
  then show ?thesis
    using l st by (auto simp: ka_Start_def ka_Start_check_def ka_Start_log_def ka_Start_serve_def)
qed

theorem keepalive_stop_before_start_is_lost_witness:
  "\<exists>s'. ka_Start ka_test_env (ka_Stop (ka_NewServer ka_test_env [])) = (KaServing, s') \<and> ka_started s'"
proof -
  let ?s = "ka_NewServer ka_test_env []"
  let ?t = "?s\<lparr>ka_stopReq := False, ka_Server := True, ka_started := True\<rparr>"
  obtain a where a: "AdjustAddress (ke_ParseIP ka_test_env) (Inr []) (ka_address ?t) (Some (TcpListener 10007)) = Inr a"
    using AdjustAddress_total by blast
  obtain s1 where "ka_listenAndEndpoint ka_test_env ?t = (None, s1)"
    using ka_listen_endpoint [of ?t ka_test_env "TcpListener 10007" a] a
    by (auto simp: ka_test_env_fields ka_NewServer_fields)
  moreover have "\<not> ka_started ?s" by (simp add: ka_NewServer_fields)
  ultimately show ?thesis using keepalive_stop_before_start_is_lost [of ?s ka_test_env s1] by blast
qed

text \<open>
  A \<open>Stop\<close> that runs while \<open>Start\<close> is between its test of the latch and \<open>Serve\<close> makes \<open>Start\<close> panic on a nil
  pointer: on the listener in the log line, or on the gRPC server, which is read only after the
  log line.
\<close>

theorem keepalive_concurrent_stop_panics:
  assumes "ka_started s" and "\<not> ka_stopReq s"
  shows "ka_Start_check s = (KaChecked, s) \<and> fst (ka_Start_log (ka_Stop s)) = KaPanicked
       \<and> fst (ka_Start_serve (ka_Stop (snd (ka_Start_log s)))) = KaPanicked"
  using assms
  by (simp add: ka_Start_check_def ka_Start_log_def ka_Start_serve_def ka_Stop_def Let_def split: option.split)

theorem keepalive_concurrent_stop_panics_witness:
  "fst (ka_Start_log (ka_Stop ((ka_NewServer ka_test_env [])\<lparr>ka_started := True\<rparr>))) = KaPanicked"
  using keepalive_concurrent_stop_panics [of "(ka_NewServer ka_test_env [])\<lparr>ka_started := True\<rparr>"]
  by (simp add: ka_NewServer_fields)

text \<open>
  A server without a configured address gets a port from 10000 to 65534 on the host of the environment, and the address
  splits back into the two.
\<close>

theorem keepalive_default_address:
  assumes "\<forall>n>0. ke_Intn env n < n" and "generateHost env = Inr h" and "set h \<inter> {CHR '':'', CHR ''['', CHR '']''} = {}"
  shows "10000 \<le> generatePort env \<and> generatePort env < 65535
       \<and> ka_address (ka_NewServer env []) = JoinHostPort h (Itoa (generatePort env))
       \<and> ExtractHostPort (ka_address (ka_NewServer env [])) = Inr (h, generatePort env)"
proof -
  have p: "10000 \<le> generatePort env" "generatePort env < 65535"
    using assms(1) [rule_format, of 55535] by (simp_all add: generatePort_def generateNumber_def)
  have j: "ka_address (ka_NewServer env []) = JoinHostPort h (Itoa (generatePort env))"
    using assms(2,3) by (auto simp: ka_NewServer_fields JoinHostPort_def)
  have "ExtractHostPort (JoinHostPort h (Itoa (generatePort env))) = Inr (h, generatePort env)"
    using assms(3) p by (intro ExtractHostPort_Join) auto
  then show ?thesis using p j by simp
qed

theorem keepalive_default_address_witness:
  "ExtractHostPort (ka_address (ka_NewServer ka_test_env [])) = Inr (''10.0.0.7'', generatePort ka_test_env)"
  by (rule keepalive_default_address [THEN conjunct2, THEN conjunct2, THEN conjunct2])
    (simp_all add: ka_test_env_fields, simp add: ka_test_env_def)


text \<open>An instance that was stopped before its goroutine ran serves all the same when it runs.\<close>

lemma slot_stop_before_run:
  assumes "sl_heap s = [ka_NewServer env [ka_WithServiceKind kind]]" "sl_keepaliveServer s = Some 0"
    and "ke_Listen env ''tcp'' (ka_address (ka_NewServer env [])) = Inr lis"
    and "AdjustAddress (ke_ParseIP env) (ke_Interfaces env) (ka_address (ka_NewServer env [])) (Some lis) = Inr a"
  shows "\<exists>t. slot_run env 0 (slot_stop s) = (KaServing, t) \<and> sl_keepaliveServer t = None
       \<and> ka_started (sl_heap t ! 0) \<and> ka_lis (sl_heap t ! 0) = Some lis"
proof -
  let ?k = "ka_NewServer env [ka_WithServiceKind kind]"
  have k: "ka_address ?k = ka_address (ka_NewServer env [])" "ka_network ?k = ''tcp''" "\<not> ka_started ?k" "ka_lis ?k = None"
    "ka_endpoint ?k = None"
    by (simp_all add: ka_NewServer_def ka_init_def ka_WithServiceKind_def Let_def)
  let ?t = "?k\<lparr>ka_stopReq := False, ka_Server := True, ka_started := True\<rparr>"
  have l: "ka_listenAndEndpoint env ?t =
      (None, ?t\<lparr>ka_lis := Some lis, ka_endpoint := Some (NewRegistryEndpoint (ka_serviceKind ?t) a)\<rparr>)"
    using k assms(3,4) by (intro ka_listen_endpoint) simp_all
  have "\<exists>k'. ka_Start env (ka_Stop ?k) = (KaServing, k') \<and> ka_started k' \<and> ka_lis k' = Some lis"
    using k(3) l by (simp add: ka_Stop_def ka_Start_def ka_Start_listen_def ka_Start_check_def ka_Start_log_def ka_Start_serve_def)
  then obtain k' where k': "ka_Start env (ka_Stop ?k) = (KaServing, k')" "ka_started k'" "ka_lis k' = Some lis" by blast
  have "slot_stop s = s\<lparr>sl_heap := [ka_Stop ?k], sl_keepaliveServer := None\<rparr>" using assms(1,2) by (simp add: slot_stop_def)
  then show ?thesis using k' by (simp add: slot_run_def)
qed

end
