(* ===== verification/Mq_Server.thy ===== *)
theory Mq_Server
  imports Keepalive Broker_Handler
begin

text \<open>
  The server that the packages \<open>transport/redis\<close>, \<open>kafka\<close>, \<open>mqtt\<close>, \<open>nats\<close>, \<open>nsq\<close>, \<open>pulsar\<close>, \<open>rabbitmq\<close>, \<open>rocketmq\<close>, \<open>sqs\<close>,
  \<open>azuresb\<close>, \<open>gcpubsub\<close> and \<open>activemq\<close> share line by line: registrations, \<open>Start\<close>, \<open>Stop\<close>. The line numbers are those of
  \<open>transport/redis/server.go\<close>. The packages differ in how \<open>RegisterSubscriber\<close> completes the options (below), and some have a
  switch for the keepalive server. The broker is a parameter, a driver with a state \<open>'d\<close>; a subscription
  is a number. Calls run in goroutines: every call is cut at the points where another goroutine can come
  between, and \<open>mq_step\<close> interleaves any number of them.
\<close>

section \<open>State\<close>

record ('x, 'd) mq_driver =
  dr_Init :: "'d \<Rightarrow> error option \<times> 'd"
  dr_Connect :: "'d \<Rightarrow> error option \<times> 'd"
  dr_Disconnect :: "'d \<Rightarrow> error option \<times> 'd"
  dr_Subscribe :: "string \<Rightarrow> 'x \<Rightarrow> 'd \<Rightarrow> (error + nat) \<times> 'd"
  dr_Unsubscribe :: "nat \<Rightarrow> bool \<Rightarrow> 'd \<Rightarrow> error option \<times> 'd"

text \<open>\<open>'x\<close> stands for the arguments of a registration, the struct \<open>transport.SubscribeOption\<close>.\<close>

record ('x, 'd) mq_server =
  mq_Broker :: 'd
  mq_subscribers :: "(string, nat) gomap"
  mq_subscriberOpts :: "(string, 'x) gomap"
  mq_started :: bool
  mq_err :: "error option"
  mq_ka :: ka_slot

definition mq_init :: "ka_env \<Rightarrow> string \<Rightarrow> (('x, 'd) mq_server \<Rightarrow> ('x, 'd) mq_server) list \<Rightarrow> 'd \<Rightarrow> ('x, 'd) mq_server \<Rightarrow> ('x, 'd) mq_server" where
  "mq_init env kind opts b s =
     (let s1 = fold (\<lambda>opt s. opt s) opts s
      in s1\<lparr>mq_ka := slot_new env kind (mq_ka s1), mq_Broker := b\<rparr>)"

definition mq_NewServer :: "ka_env \<Rightarrow> string \<Rightarrow> (('x, 'd) mq_server \<Rightarrow> ('x, 'd) mq_server) list \<Rightarrow> 'd \<Rightarrow> ('x, 'd) mq_server" where
  "mq_NewServer env kind opts b =
     mq_init env kind opts b
       \<lparr>mq_Broker = b, mq_subscribers = [], mq_subscriberOpts = [], mq_started = False, mq_err = None, mq_ka = no_slot True\<rparr>"

definition mq_Endpoint :: "ka_env \<Rightarrow> ('x, 'd) mq_server \<Rightarrow> (error + url option) \<times> ('x, 'd) mq_server" where
  "mq_Endpoint env s =
     (if \<not> sl_enableKeepalive (mq_ka s) then (Inr (Some \<lparr>u_Scheme = '''', u_Host = ''''\<rparr>), s)
      else (let (r, k) = slot_Endpoint env ''keepalive server is nil'' (mq_ka s) in (r, s\<lparr>mq_ka := k\<rparr>)))"

section \<open>Calls, run alone\<close>

text \<open>The locked part of \<open>doRegisterSubscriber\<close>; the result is the subscription that has to be given up, if any.\<close>

definition reg_store :: "string \<Rightarrow> 'x \<Rightarrow> nat \<Rightarrow> ('x, 'd) mq_server \<Rightarrow> nat option \<times> ('x, 'd) mq_server" where
  "reg_store topic x sub s =
     (let s1 = s\<lparr>mq_subscriberOpts := gomap_put topic x (mq_subscriberOpts s)\<rparr>
      in if mq_started s
         then (map_of (mq_subscribers s) topic, s1\<lparr>mq_subscribers := gomap_put topic sub (mq_subscribers s)\<rparr>)
         else (Some sub, s1))"

definition mq_unsub :: "('x, 'd) mq_driver \<Rightarrow> nat \<Rightarrow> ('x, 'd) mq_server \<Rightarrow> ('x, 'd) mq_server" where
  "mq_unsub D i s = s\<lparr>mq_Broker := snd (dr_Unsubscribe D i False (mq_Broker s))\<rparr>"

definition doRegisterSubscriber :: "('x, 'd) mq_driver \<Rightarrow> string \<Rightarrow> 'x \<Rightarrow> ('x, 'd) mq_server \<Rightarrow> error option \<times> ('x, 'd) mq_server" where
  "doRegisterSubscriber D topic x s =
     (case dr_Subscribe D topic x (mq_Broker s) of
        (Inl e, b) \<Rightarrow> (Some e, s\<lparr>mq_Broker := b\<rparr>)
      | (Inr sub, b) \<Rightarrow>
          (case reg_store topic x sub (s\<lparr>mq_Broker := b\<rparr>) of
             (Some i, s1) \<Rightarrow> (None, mq_unsub D i s1)
           | (None, s1) \<Rightarrow> (None, s1)))"

fun doRegister_loop :: "('x, 'd) mq_driver \<Rightarrow> (string \<times> 'x) list \<Rightarrow> error list \<Rightarrow> ('x, 'd) mq_server \<Rightarrow> error list \<times> ('x, 'd) mq_server" where
  "doRegister_loop D [] errs s = (errs, s)"
| "doRegister_loop D ((topic, x) # rest) errs s =
     (case doRegisterSubscriber D topic x s of
        (None, s1) \<Rightarrow> doRegister_loop D rest errs s1
      | (Some e, s1) \<Rightarrow> doRegister_loop D rest (errs @ [e]) s1)"

definition doRegisterSubscriberMap :: "('x, 'd) mq_driver \<Rightarrow> ('x, 'd) mq_server \<Rightarrow> error option \<times> ('x, 'd) mq_server" where
  "doRegisterSubscriberMap D s =
     (let (errs, s1) = doRegister_loop D (mq_subscriberOpts s) [] (s\<lparr>mq_subscriberOpts := []\<rparr>)
      in (errors_Join errs, s1))"

definition mq_RegisterSubscriber :: "('x, 'd) mq_driver \<Rightarrow> string \<Rightarrow> 'x \<Rightarrow> ('x, 'd) mq_server \<Rightarrow> error option \<times> ('x, 'd) mq_server" where
  "mq_RegisterSubscriber D topic x s =
     (if \<not> mq_started s then (None, s\<lparr>mq_subscriberOpts := gomap_put topic x (mq_subscriberOpts s)\<rparr>)
      else doRegisterSubscriber D topic x s)"

text \<open>The parts of \<open>Start\<close>: up to \<open>Init\<close>, \<open>Connect\<close>, and the part that switches the server on.\<close>

definition start_begin :: "ka_env \<Rightarrow> string \<Rightarrow> ('x, 'd) mq_server \<Rightarrow> ('x, 'd) mq_server" where
  "start_begin env kind s =
     (if sl_keepaliveServer (mq_ka s) = None then s\<lparr>mq_ka := slot_new env kind (mq_ka s)\<rparr> else s)"

definition start_init :: "('x, 'd) mq_driver \<Rightarrow> ('x, 'd) mq_server \<Rightarrow> ('x, 'd) mq_server" where
  "start_init D s = (let (e, b) = dr_Init D (mq_Broker s) in s\<lparr>mq_err := e, mq_Broker := b\<rparr>)"

definition start_connect :: "('x, 'd) mq_driver \<Rightarrow> ('x, 'd) mq_server \<Rightarrow> ('x, 'd) mq_server" where
  "start_connect D s = (let (e, b) = dr_Connect D (mq_Broker s) in s\<lparr>mq_err := e, mq_Broker := b\<rparr>)"

definition start_on :: "('x, 'd) mq_server \<Rightarrow> ('x, 'd) mq_server" where
  "start_on s = s\<lparr>mq_started := True, mq_ka := slot_launch (mq_ka s)\<rparr>"

definition mq_Start :: "('x, 'd) mq_driver \<Rightarrow> ka_env \<Rightarrow> string \<Rightarrow> ('x, 'd) mq_server \<Rightarrow> error option \<times> ('x, 'd) mq_server" where
  "mq_Start D env kind s =
     (if mq_err s \<noteq> None then (mq_err s, s)
      else if mq_started s then (None, s)
      else
        let s1 = start_init D (start_begin env kind s)
        in if mq_err s1 \<noteq> None then (mq_err s1, s1)
           else
             let s2 = start_connect D s1
             in if mq_err s2 \<noteq> None then (mq_err s2, s2)
                else let (e, s3) = doRegisterSubscriberMap D (start_on s2) in (e, s3\<lparr>mq_err := e\<rparr>))"

definition stop_end :: "('x, 'd) mq_driver \<Rightarrow> ('x, 'd) mq_server \<Rightarrow> error option \<times> ('x, 'd) mq_server" where
  "stop_end D s =
     (let (e, b) = dr_Disconnect D (mq_Broker s) in (e, s\<lparr>mq_Broker := b, mq_err := None, mq_ka := slot_stop (mq_ka s)\<rparr>))"

definition mq_Stop :: "('x, 'd) mq_driver \<Rightarrow> ('x, 'd) mq_server \<Rightarrow> error option \<times> ('x, 'd) mq_server" where
  "mq_Stop D s =
     (if \<not> mq_started s then (None, s\<lparr>mq_err := None\<rparr>)
      else stop_end D (fold (mq_unsub D) (map snd (mq_subscribers s)) (s\<lparr>mq_started := False, mq_subscribers := []\<rparr>)))"

section \<open>Calls, interleaved\<close>

text \<open>
  Where a goroutine is. \<open>KRet\<close> is a call of \<open>RegisterSubscriber\<close>; \<open>KLoop\<close> the loop in \<open>doRegisterSubscriberMap\<close> with the topics to
  come and the errors so far.
\<close>

datatype 'x kont = KRet | KLoop "(string \<times> 'x) list" "error list"

datatype 'x mq_pc =
    PRegister string 'x
  | PSubscribe string 'x "'x kont"
  | PStore string 'x nat "'x kont"
  | PUnsub nat "'x kont"
  | PStart | PStartInit | PStartConnect | PStartOn | PStartMap
  | PLoop "(string \<times> 'x) list" "error list"
  | PStop | PStopSwap | PStopUnsub "nat list" | PStopEnd
  | PDone "error option"

fun resume :: "'x kont \<Rightarrow> error option \<Rightarrow> 'x mq_pc" where
  "resume KRet r = PDone r"
| "resume (KLoop rest errs) r = PLoop rest (case r of None \<Rightarrow> errs | Some e \<Rightarrow> errs @ [e])"

fun mq_exec :: "('x, 'd) mq_driver \<Rightarrow> ka_env \<Rightarrow> string \<Rightarrow> 'x mq_pc \<Rightarrow> ('x, 'd) mq_server \<Rightarrow> 'x mq_pc \<times> ('x, 'd) mq_server" where
  "mq_exec D env kind (PRegister t x) s =
     (if \<not> mq_started s then (PDone None, s\<lparr>mq_subscriberOpts := gomap_put t x (mq_subscriberOpts s)\<rparr>)
      else (PSubscribe t x KRet, s))"
| "mq_exec D env kind (PSubscribe t x k) s =
     (case dr_Subscribe D t x (mq_Broker s) of
        (Inl e, b) \<Rightarrow> (resume k (Some e), s\<lparr>mq_Broker := b\<rparr>)
      | (Inr i, b) \<Rightarrow> (PStore t x i k, s\<lparr>mq_Broker := b\<rparr>))"
| "mq_exec D env kind (PStore t x i k) s =
     (case reg_store t x i s of
        (Some j, s1) \<Rightarrow> (PUnsub j k, s1)
      | (None, s1) \<Rightarrow> (resume k None, s1))"
| "mq_exec D env kind (PUnsub j k) s = (resume k None, mq_unsub D j s)"
| "mq_exec D env kind PStart s =
     (if mq_err s \<noteq> None then (PDone (mq_err s), s)
      else if mq_started s then (PDone None, s)
      else (PStartInit, start_begin env kind s))"
| "mq_exec D env kind PStartInit s =
     (let s1 = start_init D s in (if mq_err s1 \<noteq> None then PDone (mq_err s1) else PStartConnect, s1))"
| "mq_exec D env kind PStartConnect s =
     (let s1 = start_connect D s in (if mq_err s1 \<noteq> None then PDone (mq_err s1) else PStartOn, s1))"
| "mq_exec D env kind PStartOn s = (PStartMap, start_on s)"
| "mq_exec D env kind PStartMap s = (PLoop (mq_subscriberOpts s) [], s\<lparr>mq_subscriberOpts := []\<rparr>)"
| "mq_exec D env kind (PLoop [] errs) s = (PDone (errors_Join errs), s\<lparr>mq_err := errors_Join errs\<rparr>)"
| "mq_exec D env kind (PLoop ((t, x) # rest) errs) s = (PSubscribe t x (KLoop rest errs), s)"
| "mq_exec D env kind PStop s =
     (if \<not> mq_started s then (PDone None, s\<lparr>mq_err := None\<rparr>) else (PStopSwap, s\<lparr>mq_started := False\<rparr>))"
| "mq_exec D env kind PStopSwap s = (PStopUnsub (map snd (mq_subscribers s)), s\<lparr>mq_subscribers := []\<rparr>)"
| "mq_exec D env kind (PStopUnsub []) s = (PStopEnd, s)"
| "mq_exec D env kind (PStopUnsub (j # js)) s = (PStopUnsub js, mq_unsub D j s)"
| "mq_exec D env kind PStopEnd s = (let (e, s1) = stop_end D s in (PDone e, s1))"
| "mq_exec D env kind (PDone r) s = (PDone r, s)"

text \<open>A server with its goroutines: a step is a new call or a piece of a running one.\<close>

type_synonym ('x, 'd) mq_conf = "('x, 'd) mq_server \<times> 'x mq_pc list"

inductive mq_step :: "('x, 'd) mq_driver \<Rightarrow> ka_env \<Rightarrow> string \<Rightarrow> ('x, 'd) mq_conf \<Rightarrow> ('x, 'd) mq_conf \<Rightarrow> bool"
  for D env kind where
  call: "pc = PStart \<or> pc = PStop \<or> pc = PRegister t x \<Longrightarrow> mq_step D env kind (s, ps) (s, ps @ [pc])"
| go: "i < length ps \<Longrightarrow> mq_exec D env kind (ps ! i) s = (pc, s') \<Longrightarrow> mq_step D env kind (s, ps) (s', ps[i := pc])"

inductive mq_reach :: "('x, 'd) mq_driver \<Rightarrow> ka_env \<Rightarrow> string \<Rightarrow> 'd \<Rightarrow> ('x, 'd) mq_conf \<Rightarrow> bool"
  for D env kind b where
  init: "mq_reach D env kind b (mq_NewServer env kind [] b, [])"
| step: "mq_reach D env kind b c \<Longrightarrow> mq_step D env kind c c' \<Longrightarrow> mq_reach D env kind b c'"

definition quiet :: "'x mq_pc list \<Rightarrow> bool" where
  "quiet ps \<longleftrightarrow> (\<forall>pc\<in>set ps. case pc of PDone r \<Rightarrow> True | _ \<Rightarrow> False)"

section \<open>A call alone runs to its end\<close>

definition mq_alone1 :: "('x, 'd) mq_driver \<Rightarrow> ka_env \<Rightarrow> string \<Rightarrow> 'x mq_pc \<times> ('x, 'd) mq_server \<Rightarrow> 'x mq_pc \<times> ('x, 'd) mq_server \<Rightarrow> bool" where
  "mq_alone1 D env kind c c' \<longleftrightarrow> c' = mq_exec D env kind (fst c) (snd c)"

abbreviation mq_alone where "mq_alone D env kind \<equiv> (mq_alone1 D env kind)\<^sup>*\<^sup>*"

lemma alone_step: "mq_alone D env kind (mq_exec D env kind pc s) c \<Longrightarrow> mq_alone D env kind (pc, s) c"
  by (rule converse_rtranclp_into_rtranclp) (auto simp: mq_alone1_def)

lemma alone_doRegister:
  "mq_alone D env kind (PSubscribe t x k, s) (resume k (fst (doRegisterSubscriber D t x s)), snd (doRegisterSubscriber D t x s))"
  by (rule alone_step)
    (auto simp: doRegisterSubscriber_def split: prod.splits sum.splits option.splits intro!: alone_step [of D env kind "PStore _ _ _ _"]
      alone_step [of D env kind "PUnsub _ _"])

lemma alone_loop:
  "mq_alone D env kind (PLoop l errs, s)
     (PDone (errors_Join (fst (doRegister_loop D l errs s))),
      (snd (doRegister_loop D l errs s))\<lparr>mq_err := errors_Join (fst (doRegister_loop D l errs s))\<rparr>)"
proof (induction D l errs s rule: doRegister_loop.induct)
  case (1 D errs s)
  then show ?case by (intro alone_step) simp
next
  case (2 D t x rest errs s)
  obtain r s1 where r: "doRegisterSubscriber D t x s = (r, s1)" by force
  let ?errs = "case r of None \<Rightarrow> errs | Some e \<Rightarrow> errs @ [e]"
  have step: "doRegister_loop D ((t, x) # rest) errs s = doRegister_loop D rest ?errs s1" using r by (cases r) auto
  have "mq_alone D env kind (PLoop ((t, x) # rest) errs, s) (PLoop rest ?errs, s1)"
    using alone_doRegister [of D env kind t x "KLoop rest errs" s] r by (intro alone_step) simp
  moreover have "mq_alone D env kind (PLoop rest ?errs, s1)
     (PDone (errors_Join (fst (doRegister_loop D rest ?errs s1))),
      (snd (doRegister_loop D rest ?errs s1))\<lparr>mq_err := errors_Join (fst (doRegister_loop D rest ?errs s1))\<rparr>)"
    using 2 r by (cases r) auto
  ultimately show ?case unfolding step by (rule rtranclp_trans)
qed

lemma alone_unsubs: "mq_alone D env kind (PStopUnsub js, s) (PStopEnd, fold (mq_unsub D) js s)"
  by (induction js arbitrary: s) (auto intro!: alone_step)

lemma alone_Start: "mq_alone D env kind (PStart, s) (PDone (fst (mq_Start D env kind s)), snd (mq_Start D env kind s))"
proof (cases "mq_err s \<noteq> None \<or> mq_started s")
  case True
  then show ?thesis by (intro alone_step) (auto simp: mq_Start_def)
next
  case False
  let ?s1 = "start_init D (start_begin env kind s)" let ?s2 = "start_connect D ?s1" let ?s3 = "start_on ?s2"
  have first: "mq_alone D env kind (PStart, s) (if mq_err ?s1 \<noteq> None then PDone (mq_err ?s1) else PStartConnect, ?s1)"
    using False by (auto intro!: alone_step [of D env kind PStart] alone_step [of D env kind PStartInit] simp: Let_def)
  show ?thesis
  proof (cases "mq_err ?s1 = None \<and> mq_err ?s2 = None")
    case True
    have "mq_alone D env kind (PStartConnect, ?s1) (PLoop (mq_subscriberOpts ?s3) [], ?s3\<lparr>mq_subscriberOpts := []\<rparr>)"
      using True by (auto intro!: alone_step [of D env kind PStartConnect] alone_step [of D env kind PStartOn]
          alone_step [of D env kind PStartMap] simp: Let_def)
    then have "mq_alone D env kind (PStartConnect, ?s1) (PDone (fst (mq_Start D env kind s)), snd (mq_Start D env kind s))"
      using alone_loop [of D env kind "mq_subscriberOpts ?s3" "[]" "?s3\<lparr>mq_subscriberOpts := []\<rparr>"] False True
      by (auto simp: mq_Start_def doRegisterSubscriberMap_def Let_def split: prod.splits elim: rtranclp_trans)
    then show ?thesis using first True by (auto elim: rtranclp_trans)
  next
    case err: False
    have "mq_alone D env kind (PStartConnect, ?s1) (PDone (mq_err ?s2), ?s2)" if "mq_err ?s2 \<noteq> None"
      using that by (intro alone_step) (auto simp: Let_def)
    then show ?thesis using first err False by (auto simp: mq_Start_def Let_def split: if_splits elim: rtranclp_trans)
  qed
qed

lemma alone_Stop: "mq_alone D env kind (PStop, s) (PDone (fst (mq_Stop D s)), snd (mq_Stop D s))"
proof (cases "mq_started s")
  case False
  then show ?thesis by (intro alone_step) (auto simp: mq_Stop_def)
next
  case True
  let ?s1 = "s\<lparr>mq_started := False, mq_subscribers := []\<rparr>" let ?js = "map snd (mq_subscribers s)"
  have "mq_alone D env kind (PStop, s) (PStopUnsub ?js, ?s1)"
    using True by (auto intro!: alone_step [of D env kind PStop] alone_step [of D env kind PStopSwap])
  moreover note alone_unsubs [of D env kind ?js ?s1]
  moreover have "mq_alone D env kind (PStopEnd, fold (mq_unsub D) ?js ?s1) (PDone (fst (mq_Stop D s)), snd (mq_Stop D s))"
    using True by (intro alone_step) (auto simp: mq_Stop_def split: prod.splits)
  ultimately show ?thesis by (meson rtranclp_trans)
qed

lemma alone_Register:
  "mq_alone D env kind (PRegister t x, s) (PDone (fst (mq_RegisterSubscriber D t x s)), snd (mq_RegisterSubscriber D t x s))"
  using alone_doRegister [of D env kind t x KRet s] by (intro alone_step) (simp add: mq_RegisterSubscriber_def)

section \<open>The interface of the broker\<close>

text \<open>
  What the server needs of a driver: \<open>live\<close> are the subscriptions that deliver messages. A call never makes a subscription
  live but \<open>Subscribe\<close> the one it returns, and \<open>Unsubscribe\<close> ends the one it is called on. \<open>ok\<close> is the invariant of the driver.
\<close>

locale mq_broker =
  fixes D :: "('x, 'd) mq_driver" and ok :: "'d \<Rightarrow> bool" and live :: "'d \<Rightarrow> nat set"
  assumes Init: "ok d \<Longrightarrow> ok (snd (dr_Init D d)) \<and> live (snd (dr_Init D d)) \<subseteq> live d"
    and Connect: "ok d \<Longrightarrow> ok (snd (dr_Connect D d)) \<and> live (snd (dr_Connect D d)) \<subseteq> live d"
    and Disconnect: "ok d \<Longrightarrow> ok (snd (dr_Disconnect D d)) \<and> live (snd (dr_Disconnect D d)) \<subseteq> live d"
    and Subscribe_ok: "\<lbrakk>ok d; dr_Subscribe D t x d = (Inr i, d')\<rbrakk> \<Longrightarrow> ok d' \<and> live d' \<subseteq> insert i (live d)"
    and Subscribe_err: "\<lbrakk>ok d; dr_Subscribe D t x d = (Inl e, d')\<rbrakk> \<Longrightarrow> ok d' \<and> live d' \<subseteq> live d"
    and Unsubscribe: "ok d \<Longrightarrow> ok (snd (dr_Unsubscribe D i b d)) \<and> live (snd (dr_Unsubscribe D i b d)) \<subseteq> live d - {i}"
begin

text \<open>The subscriptions that a goroutine still has to store or to give up, and the ones that nobody knows.\<close>

fun holds :: "'x mq_pc \<Rightarrow> nat set" where
  "holds (PStore t x i k) = {i}"
| "holds (PUnsub i k) = {i}"
| "holds (PStopUnsub js) = set js"
| "holds pc = {}"

definition lost :: "'x mq_pc \<Rightarrow> ('x, 'd) mq_server \<Rightarrow> nat set" where
  "lost pc s = live (mq_Broker s) - snd ` set (mq_subscribers s) - holds pc"

lemma holds_resume [simp]: "holds (resume k r) = {}"
  by (cases k) auto

lemma put_values: "gomap_wf m \<Longrightarrow> insert i (snd ` set m) \<subseteq> snd ` set (gomap_put t i m) \<union> set_option (map_of m t)"
proof
  fix j assume m: "gomap_wf m" and j: "j \<in> insert i (snd ` set m)"
  let ?m = "gomap_put t i m"
  have wf: "gomap_wf ?m" using m by blast
  have val: "j \<in> snd ` set ?m" if "map_of ?m k = Some j" for k using that map_of_SomeD by force
  show "j \<in> snd ` set ?m \<union> set_option (map_of m t)"
  proof (cases "j = i")
    case True
    then show ?thesis using val [of t] by simp
  next
    case False
    then obtain k where "map_of m k = Some j" using j m by auto
    then show ?thesis using val [of k] by (cases "k = t") auto
  qed
qed

lemma exec_lost:
  assumes "ok (mq_Broker s)" "gomap_wf (mq_subscribers s)" "mq_exec D env kind pc s = (pc', s')"
  shows "ok (mq_Broker s') \<and> gomap_wf (mq_subscribers s') \<and> lost pc' s' \<subseteq> lost pc s"
proof (cases pc)
  case (PSubscribe t x k)
  then show ?thesis
    using assms Subscribe_ok [OF assms(1), of t x] Subscribe_err [OF assms(1), of t x]
    by (auto simp: lost_def split: prod.splits sum.splits)
next
  case (PStore t x i k)
  show ?thesis
  proof (cases "mq_started s")
    case True
    then have "holds pc' = set_option (map_of (mq_subscribers s) t)" "mq_Broker s' = mq_Broker s"
      "mq_subscribers s' = gomap_put t i (mq_subscribers s)"
      using assms(3) PStore by (auto simp: reg_store_def Let_def split: option.splits)
    then show ?thesis
      using put_values [OF assms(2), of i t] assms(1) gomap_wf_put [OF assms(2), of t i] unfolding lost_def PStore by auto
  next
    case False
    then show ?thesis using assms PStore by (auto simp: lost_def reg_store_def Let_def)
  qed
next
  case (PUnsub i k)
  then show ?thesis using assms Unsubscribe [OF assms(1), of i False] by (auto simp: lost_def mq_unsub_def)
next
  case PStartInit
  then show ?thesis using assms Init [OF assms(1)] by (auto simp: lost_def start_init_def Let_def split: prod.splits if_splits)
next
  case PStartConnect
  then show ?thesis using assms Connect [OF assms(1)] by (auto simp: lost_def start_connect_def Let_def split: prod.splits if_splits)
next
  case (PLoop l errs)
  then show ?thesis using assms by (cases l) (auto simp: lost_def)
next
  case (PStopUnsub js)
  then show ?thesis
    using assms Unsubscribe [OF assms(1), of "hd js" False] by (cases js) (auto simp: lost_def mq_unsub_def)
next
  case PStopEnd
  then show ?thesis using assms Disconnect [OF assms(1)] by (auto simp: lost_def stop_end_def Let_def split: prod.splits)
next
  case PStopSwap
  then show ?thesis using assms by (auto simp: lost_def simp del: set_map) (auto simp: image_def)
qed (use assms in \<open>auto simp: lost_def start_begin_def start_on_def split: if_splits\<close>)

text \<open>A stopped server has an empty table, unless a \<open>Stop\<close> is about to empty it.\<close>

lemma exec_stopped:
  assumes "mq_exec D env kind pc s = (pc', s')" "mq_started s \<or> pc = PStopSwap \<or> mq_subscribers s = []"
  shows "mq_started s' \<or> pc' = PStopSwap \<or> mq_subscribers s' = []"
proof (cases pc)
  case (PStore t x i k)
  then show ?thesis using assms by (auto simp: reg_store_def Let_def split: if_splits option.splits)
next
  case (PLoop l errs)
  then show ?thesis using assms by (cases l) auto
next
  case (PStopUnsub js)
  then show ?thesis using assms by (cases js) (auto simp: mq_unsub_def)
qed (use assms in \<open>auto simp: start_begin_def start_on_def start_init_def start_connect_def stop_end_def mq_unsub_def Let_def
    split: if_splits prod.splits sum.splits\<close>)


definition tracked :: "('x, 'd) mq_conf \<Rightarrow> bool" where
  "tracked c \<longleftrightarrow> ok (mq_Broker (fst c)) \<and> gomap_wf (mq_subscribers (fst c))
     \<and> live (mq_Broker (fst c)) \<subseteq> snd ` set (mq_subscribers (fst c)) \<union> \<Union> (holds ` set (snd c))
     \<and> (mq_started (fst c) \<or> PStopSwap \<in> set (snd c) \<or> mq_subscribers (fst c) = [])"

lemma tracked_go:
  assumes "tracked (s, ps)" "i < length ps" "mq_exec D env kind (ps ! i) s = (pc, s')"
  shows "tracked (s', ps[i := pc])"
proof -
  have t: "ok (mq_Broker s)" "gomap_wf (mq_subscribers s)"
    "live (mq_Broker s) \<subseteq> snd ` set (mq_subscribers s) \<union> \<Union> (holds ` set ps)"
    "mq_started s \<or> PStopSwap \<in> set ps \<or> mq_subscribers s = []"
    using assms(1) by (simp_all add: tracked_def)
  note e = exec_lost [OF t(1,2) assms(3)]
  have other: "ps ! j \<in> set (ps[i := pc])" if "j < length ps" "j \<noteq> i" for j
    using that by (metis length_list_update nth_list_update_neq nth_mem)
  have new: "pc \<in> set (ps[i := pc])" using assms(2) by (rule set_update_memI)
  have "live (mq_Broker s') \<subseteq> snd ` set (mq_subscribers s') \<union> \<Union> (holds ` set (ps[i := pc]))"
  proof (rule subsetI, rule ccontr)
    fix x
    assume x: "x \<in> live (mq_Broker s')" "x \<notin> snd ` set (mq_subscribers s') \<union> \<Union> (holds ` set (ps[i := pc]))"
    then have "x \<in> lost pc s'" using new by (auto simp: lost_def)
    then have l: "x \<in> lost (ps ! i) s" using e by auto
    then have "x \<in> \<Union> (holds ` set ps)" using t(3) by (auto simp: lost_def)
    then obtain j where "j < length ps" "x \<in> holds (ps ! j)" by (metis UN_E in_set_conv_nth)
    moreover from this l have "j \<noteq> i" by (auto simp: lost_def)
    ultimately show False using x(2) other by auto
  qed
  moreover have "mq_started s' \<or> PStopSwap \<in> set (ps[i := pc]) \<or> mq_subscribers s' = []"
  proof (cases "\<exists>j<length ps. j \<noteq> i \<and> ps ! j = PStopSwap")
    case True
    then show ?thesis using other by metis
  next
    case False
    then have "mq_started s \<or> ps ! i = PStopSwap \<or> mq_subscribers s = []" using t(4) by (metis in_set_conv_nth)
    from exec_stopped [OF assms(3) this] show ?thesis using new by auto
  qed
  ultimately show ?thesis using e by (simp add: tracked_def)
qed

lemma reach_tracked:
  assumes "mq_reach D env kind b c" "ok b" "live b = {}"
  shows "tracked c"
  using assms
proof (induction rule: mq_reach.induct)
  case init
  then show ?case by (simp add: tracked_def mq_NewServer_def mq_init_def)
next
  case (step c c')
  then have "tracked c" by blast
  with step(2) show ?case
  proof (cases rule: mq_step.cases)
    case (call pc t x s ps)
    then show ?thesis using \<open>tracked c\<close> by (auto simp: tracked_def)
  next
    case (go i ps s pc s')
    then show ?thesis using tracked_go \<open>tracked c\<close> by blast
  qed
qed

lemma quiet_holds: "quiet ps \<Longrightarrow> \<Union> (holds ` set ps) = {} \<and> PStopSwap \<notin> set ps"
proof -
  assume q: "quiet ps"
  have "holds pc = {} \<and> pc \<noteq> PStopSwap" if "pc \<in> set ps" for pc using q that by (cases pc) (auto simp: quiet_def)
  then show ?thesis by auto
qed

lemma quiet_no_leak:
  assumes "mq_reach D env kind b (s, ps)" "ok b" "live b = {}" "quiet ps"
  shows "live (mq_Broker s) \<subseteq> snd ` set (mq_subscribers s)" "mq_started s \<or> live (mq_Broker s) = {}"
  using reach_tracked [OF assms(1-3)] quiet_holds [OF assms(4)] by (auto simp: tracked_def)

end

text \<open>
  A driver whose new subscriptions work: the one that \<open>Subscribe\<close> returns is live and belongs to the topic, and the ones of other
  topics stay live.
\<close>

locale mq_broker_live = mq_broker D ok live
  for D :: "('x, 'd) mq_driver" and ok :: "'d \<Rightarrow> bool" and live :: "'d \<Rightarrow> nat set" +
  fixes topic :: "'d \<Rightarrow> nat \<Rightarrow> string"
  assumes Subscribe_live: "\<lbrakk>ok d; dr_Subscribe D t x d = (Inr i, d')\<rbrakk> \<Longrightarrow>
      i \<in> live d' \<and> topic d' i = t \<and> (\<forall>j\<in>live d. topic d j \<noteq> t \<longrightarrow> j \<in> live d' \<and> topic d' j = topic d j)"
begin

definition all_live :: "('x, 'd) mq_server \<Rightarrow> bool" where
  "all_live s \<longleftrightarrow> ok (mq_Broker s) \<and> (\<forall>(t, i)\<in>set (mq_subscribers s). i \<in> live (mq_Broker s) \<and> topic (mq_Broker s) i = t)"

lemma register_live:
  assumes "all_live s" "mq_started s" "t \<notin> fst ` set (mq_subscribers s)" "dr_Subscribe D t x (mq_Broker s) = (Inr i, d')"
  shows "fst (doRegisterSubscriber D t x s) = None" "all_live (snd (doRegisterSubscriber D t x s))"
    "mq_started (snd (doRegisterSubscriber D t x s))"
    "mq_subscribers (snd (doRegisterSubscriber D t x s)) = mq_subscribers s @ [(t, i)]"
    "mq_subscriberOpts (snd (doRegisterSubscriber D t x s)) = gomap_put t x (mq_subscriberOpts s)"
proof -
  have none: "map_of (mq_subscribers s) t = None" using assms(3) by (simp add: map_of_eq_None_iff)
  have eq: "doRegisterSubscriber D t x s = (None, s\<lparr>mq_Broker := d', mq_subscriberOpts := gomap_put t x (mq_subscriberOpts s),
      mq_subscribers := mq_subscribers s @ [(t, i)]\<rparr>)"
    using assms none by (simp add: doRegisterSubscriber_def reg_store_def gomap_put_absent)
  have "ok (mq_Broker s)" using assms(1) by (simp add: all_live_def)
  note sub = Subscribe_live [OF this assms(4)] Subscribe_ok [OF this assms(4)]
  have "j \<in> live d' \<and> topic d' j = t'" if "(t', j) \<in> set (mq_subscribers s)" for t' j
    using that assms(1,3) sub(1) by (force simp: all_live_def)
  then have "all_live (snd (doRegisterSubscriber D t x s))" using sub by (auto simp: eq all_live_def)
  then show "fst (doRegisterSubscriber D t x s) = None" "all_live (snd (doRegisterSubscriber D t x s))"
    "mq_started (snd (doRegisterSubscriber D t x s))"
    "mq_subscribers (snd (doRegisterSubscriber D t x s)) = mq_subscribers s @ [(t, i)]"
    "mq_subscriberOpts (snd (doRegisterSubscriber D t x s)) = gomap_put t x (mq_subscriberOpts s)"
    using assms(2) by (simp_all add: eq)
qed

lemma loop_live:
  assumes "\<And>t x d. ok d \<Longrightarrow> \<exists>i d'. dr_Subscribe D t x d = (Inr i, d')"
    and "all_live s" "mq_started s" "gomap_wf l" "fst ` set l \<inter> fst ` set (mq_subscribers s) = {}"
    and "doRegister_loop D l errs s = (errs', s')"
  shows "errs' = errs \<and> all_live s' \<and> mq_started s' \<and> fst ` set (mq_subscribers s') = fst ` set (mq_subscribers s) \<union> fst ` set l
       \<and> mq_subscriberOpts s' = gomap_put_all l (mq_subscriberOpts s)"
  using assms(2-6)
proof (induction l arbitrary: s)
  case Nil
  then show ?case by (simp add: gomap_put_all_def)
next
  case (Cons tx l)
  obtain t x where tx: "tx = (t, x)" by force
  have "ok (mq_Broker s)" using Cons.prems(1) by (simp add: all_live_def)
  then obtain i d' where "dr_Subscribe D t x (mq_Broker s) = (Inr i, d')" using assms(1) by blast
  note reg = register_live [OF Cons.prems(1,2) _ this]
  have t: "t \<notin> fst ` set (mq_subscribers s)" using Cons.prems(4) tx by auto
  let ?s1 = "snd (doRegisterSubscriber D t x s)"
  have "doRegister_loop D l errs ?s1 = (errs', s')"
    using Cons.prems(5) reg(1) [OF t] tx by (cases "doRegisterSubscriber D t x s") simp
  moreover have "gomap_wf l" "fst ` set l \<inter> fst ` set (mq_subscribers ?s1) = {}"
    using Cons.prems(3,4) tx reg(4) [OF t] by auto
  ultimately show ?case
    using Cons.IH [of ?s1] reg [OF t] tx by (auto simp: gomap_put_all_def)
qed

lemma fold_unsub_ok:
  "ok (mq_Broker s) \<Longrightarrow> ok (mq_Broker (fold (mq_unsub D) js s)) \<and> mq_started (fold (mq_unsub D) js s) = mq_started s
     \<and> mq_subscribers (fold (mq_unsub D) js s) = mq_subscribers s \<and> mq_subscriberOpts (fold (mq_unsub D) js s) = mq_subscriberOpts s"
  by (induction js arbitrary: s) (auto simp: mq_unsub_def Unsubscribe)

lemma mq_Stop_fields:
  assumes "ok (mq_Broker s)" "mq_started s"
  shows "ok (mq_Broker (snd (mq_Stop D s)))" "\<not> mq_started (snd (mq_Stop D s))" "mq_err (snd (mq_Stop D s)) = None"
    "mq_subscribers (snd (mq_Stop D s)) = []" "mq_subscriberOpts (snd (mq_Stop D s)) = mq_subscriberOpts s"
  using assms fold_unsub_ok [of "s\<lparr>mq_started := False, mq_subscribers := []\<rparr>" "map snd (mq_subscribers s)"] Disconnect
  by (auto simp: mq_Stop_def stop_end_def Let_def split: prod.splits) (metis snd_conv)

lemma Start_live:
  assumes "\<And>t x d. ok d \<Longrightarrow> \<exists>i d'. dr_Subscribe D t x d = (Inr i, d')"
    and "\<And>d. ok d \<Longrightarrow> fst (dr_Init D d) = None" "\<And>d. ok d \<Longrightarrow> fst (dr_Connect D (snd (dr_Init D d))) = None"
    and "ok (mq_Broker s)" "\<not> mq_started s" "mq_err s = None" "mq_subscribers s = []" "gomap_wf (mq_subscriberOpts s)"
    and "mq_Start D env kind s = (r, s')"
  shows "r = None \<and> mq_started s' \<and> all_live s' \<and> mq_subscriberOpts s' = mq_subscriberOpts s
       \<and> fst ` set (mq_subscribers s') = fst ` set (mq_subscriberOpts s)"
proof -
  obtain d1 where d1: "dr_Init D (mq_Broker s) = (None, d1)" using assms(2) [OF assms(4)] by (metis prod.collapse)
  have ok1: "ok d1" using Init [OF assms(4)] d1 by simp
  obtain d2 where d2: "dr_Connect D d1 = (None, d2)" using assms(3) [OF assms(4)] d1 by (metis prod.collapse snd_conv)
  have ok2: "ok d2" using Connect [OF ok1] d2 by simp
  let ?b = "start_begin env kind s"
  let ?s = "start_on (?b\<lparr>mq_err := None, mq_Broker := d2\<rparr>)"
  have b: "mq_Broker ?b = mq_Broker s" "mq_subscribers ?b = []" "mq_subscriberOpts ?b = mq_subscriberOpts s"
    using assms(7) by (simp_all add: start_begin_def)
  obtain errs s3 where l: "doRegister_loop D (mq_subscriberOpts s) [] (?s\<lparr>mq_subscriberOpts := []\<rparr>) = (errs, s3)" by force
  have "errs = [] \<and> all_live s3 \<and> mq_started s3 \<and> fst ` set (mq_subscribers s3) = fst ` set (mq_subscriberOpts s)
       \<and> mq_subscriberOpts s3 = gomap_put_all (mq_subscriberOpts s) []"
    using loop_live [OF assms(1) _ _ assms(8) _ l] ok2 b by (simp add: all_live_def start_on_def)
  moreover have "mq_Start D env kind s = (errors_Join errs, s3\<lparr>mq_err := errors_Join errs\<rparr>)"
    using assms(5,6) d1 d2 b l
    by (simp add: mq_Start_def start_init_def start_connect_def doRegisterSubscriberMap_def start_on_def)
  ultimately show ?thesis using assms(9) gomap_copy_id [OF assms(8)] by (auto simp: all_live_def errors_Join_def)
qed

end

lemma Start_empty:
  assumes "mq_subscribers s = []" "mq_subscriberOpts s = []"
  shows "mq_subscribers (snd (mq_Start D env kind s)) = [] \<and> mq_subscriberOpts (snd (mq_Start D env kind s)) = []"
  using assms by (auto simp: mq_Start_def start_begin_def start_init_def start_connect_def start_on_def doRegisterSubscriberMap_def
      Let_def split: prod.splits)

section \<open>Properties\<close>

text \<open>
  The interleaved pieces fit together: a call that runs alone ends, with the result and the state that the
  sequential \<open>Start\<close>, \<open>Stop\<close> and \<open>RegisterSubscriber\<close> give, for every driver and every state.
\<close>

theorem mq_calls_run_to_completion:
  "(mq_alone1 D env kind)\<^sup>*\<^sup>* (PStart, s) (PDone (fst (mq_Start D env kind s)), snd (mq_Start D env kind s))
   \<and> (mq_alone1 D env kind)\<^sup>*\<^sup>* (PStop, s) (PDone (fst (mq_Stop D s)), snd (mq_Stop D s))
   \<and> (mq_alone1 D env kind)\<^sup>*\<^sup>* (PRegister t x, s)
       (PDone (fst (mq_RegisterSubscriber D t x s)), snd (mq_RegisterSubscriber D t x s))"
  by (intro conjI alone_Start alone_Stop alone_Register)

text \<open>
  A registration whose subscription fails during \<open>Start\<close> is forgotten. \<open>Start\<close> takes all registrations out of the table and puts
  back only those that succeed; after \<open>Stop\<close> the next \<open>Start\<close> does not subscribe to the topic, even when the broker works again. The
  comment in \<open>Stop\<close> says that the next \<open>Start\<close> registers all subscriptions.
\<close>

theorem mq_failed_registration_is_lost:
  assumes "mq_err s = None" and "\<not> mq_started s" and "mq_subscribers s = []" and "mq_subscriberOpts s = [(t, x)]"
    and "dr_Init D (mq_Broker s) = (None, d1)" and "dr_Connect D d1 = (None, d2)" and "dr_Subscribe D t x d2 = (Inl e, d3)"
  shows "let s1 = snd (mq_Start D env kind s); s2 = snd (mq_Stop D s1); s3 = snd (mq_Start D' env kind s2)
         in fst (mq_Start D env kind s) = Some (ErrJoin [e]) \<and> mq_started s1
          \<and> mq_subscribers s3 = [] \<and> mq_subscriberOpts s3 = []"
proof -
  define b where "b = start_begin env kind s"
  have b: "mq_Broker b = mq_Broker s" "mq_subscriberOpts b = [(t, x)]" "mq_subscribers b = []"
    using assms(3,4) by (simp_all add: b_def start_begin_def)
  have start: "mq_Start D env kind s
      = (Some (ErrJoin [e]), (start_on (b\<lparr>mq_err := None, mq_Broker := d2\<rparr>))\<lparr>mq_subscriberOpts := [], mq_Broker := d3, mq_err := Some (ErrJoin [e])\<rparr>)"
    using assms b by (simp add: mq_Start_def b_def [symmetric] start_init_def start_connect_def doRegisterSubscriberMap_def
        doRegisterSubscriber_def start_on_def errors_Join_def)
  define s1 where "s1 = snd (mq_Start D env kind s)"
  have s1: "mq_started s1" "mq_subscribers s1 = []" "mq_subscriberOpts s1 = []" using b by (simp_all add: s1_def start start_on_def)
  then have "mq_subscribers (snd (mq_Stop D s1)) = []" "mq_subscriberOpts (snd (mq_Stop D s1)) = []"
    by (simp_all add: mq_Stop_def stop_end_def split: prod.splits)
  note empty = Start_empty [OF this, of D' env kind]
  have "fst (mq_Start D env kind s) = Some (ErrJoin [e])" by (simp add: start)
  then show ?thesis using s1(1) empty unfolding Let_def s1_def [symmetric] by blast
qed

definition flaky_driver :: "(nat, nat) mq_driver" where
  "flaky_driver = \<lparr>dr_Init = (\<lambda>d. (None, d)), dr_Connect = (\<lambda>d. (None, d)), dr_Disconnect = (\<lambda>d. (None, d)),
     dr_Subscribe = (\<lambda>t x d. (if d = 0 then Inl (ErrNew ''down'') else Inr d, Suc d)), dr_Unsubscribe = (\<lambda>i b d. (None, d))\<rparr>"

theorem mq_failed_registration_is_lost_witness:
  "let s = (mq_NewServer ka_test_env ''redis'' [] 0)\<lparr>mq_subscriberOpts := [(''t'', 7)]\<rparr>;
       s1 = snd (mq_Start flaky_driver ka_test_env ''redis'' s); s2 = snd (mq_Stop flaky_driver s1);
       s3 = snd (mq_Start flaky_driver ka_test_env ''redis'' s2)
   in mq_started s1 \<and> mq_subscribers s3 = []"
  using mq_failed_registration_is_lost [of "(mq_NewServer ka_test_env ''redis'' [] 0)\<lparr>mq_subscriberOpts := [(''t'', 7)]\<rparr>" "''t''" 7
      flaky_driver 0 0 "ErrNew ''down''" 1 ka_test_env "''redis''" flaky_driver]
  by (simp add: Let_def mq_NewServer_def mq_init_def flaky_driver_def)

text \<open>
  \<open>Start\<close> can replace a newer registration by an older one. After it took the registrations out of the table, a call of
  \<open>RegisterSubscriber\<close> for the same topic subscribes and is stored; then the loop of \<open>Start\<close> subscribes with the old handler,
  replaces the entry, and ends the new subscription.
\<close>

theorem mq_start_replaces_newer_registration:
  assumes "mq_started s" and "map_of (mq_subscribers s) t = None" and "mq_subscriberOpts s = []"
    and "dr_Subscribe D t new (mq_Broker s) = (Inr i, d1)" and "dr_Subscribe D t old d1 = (Inr j, d2)"
  shows "let s1 = snd (mq_RegisterSubscriber D t new s); s2 = snd (doRegister_loop D [(t, old)] [] s1)
         in map_of (mq_subscribers s1) t = Some i \<and> map_of (mq_subscriberOpts s1) t = Some new
          \<and> map_of (mq_subscribers s2) t = Some j \<and> map_of (mq_subscriberOpts s2) t = Some old
          \<and> mq_Broker s2 = snd (dr_Unsubscribe D i False d2)"
  using assms by (simp add: mq_RegisterSubscriber_def doRegisterSubscriber_def reg_store_def mq_unsub_def Let_def)

theorem mq_start_replaces_newer_registration_witness:
  "let s = (mq_NewServer ka_test_env ''redis'' [] 1)\<lparr>mq_started := True\<rparr>;
       s1 = snd (mq_RegisterSubscriber flaky_driver ''t'' 8 s); s2 = snd (doRegister_loop flaky_driver [(''t'', 7)] [] s1)
   in map_of (mq_subscriberOpts s1) ''t'' = Some 8 \<and> map_of (mq_subscriberOpts s2) ''t'' = Some 7"
  using mq_start_replaces_newer_registration [of "(mq_NewServer ka_test_env ''redis'' [] 1)\<lparr>mq_started := True\<rparr>" "''t''" flaky_driver 8 1 2 7 2 3]
  by (simp add: Let_def mq_NewServer_def mq_init_def flaky_driver_def)

end
