(* ===== verification/Broker_Table.thy ===== *)
theory Broker_Table
  imports Broker_Subscriber
begin

text \<open>
  What a driver's use of the subscription table promises, for every driver whose \<open>Subscribe\<close> replaces the subscriber of a topic as the
  drivers of the repository do: the old one is unsubscribed, then the new one is stored. A subscriber is a number below \<open>n\<close>; it is
  live until it is closed. The lemmas are proved once in the locale \<open>subscription_table\<close>; the drivers interpret it.
\<close>

definition replace_subscriber :: "(nat, 'w) unsub_fn \<Rightarrow> string \<Rightarrow> nat \<Rightarrow> (nat, 'w) sub_state \<Rightarrow> (nat, 'w) sub_state" where
  "replace_subscriber unsub topic sub st =
     (let st' = (case SubscriberSyncMap_Get (fst st) topic of
                   Some old \<Rightarrow> snd (unsub old False st)
                 | None \<Rightarrow> st)
      in (SubscriberSyncMap_Add topic sub (fst st'), snd st'))"

definition drop_subscriber :: "string \<Rightarrow> (nat, 'w) sub_state \<Rightarrow> (nat, 'w) sub_state" where
  "drop_subscriber topic st = (snd (SubscriberSyncMap_RemoveOnly topic (fst st)), snd st)"

locale subscription_table = subscriber_driver unsub topic_of is_closed
  for unsub :: "(nat, 'w) unsub_fn" and topic_of :: "'w \<Rightarrow> nat \<Rightarrow> string" and is_closed :: "'w \<Rightarrow> nat \<Rightarrow> bool"
begin

definition tab_live :: "(nat, 'w) sub_state \<Rightarrow> nat \<Rightarrow> nat set" where
  "tab_live st n = {i. i < n \<and> \<not> is_closed (snd st) i}"

definition tab_ok :: "(nat, 'w) sub_state \<Rightarrow> nat \<Rightarrow> bool" where
  "tab_ok st n \<longleftrightarrow> gomap_wf (fst st) \<and> (\<forall>(t, i)\<in>set (fst st). i < n \<and> topic_of (snd st) i = t)"

lemma tab_unsub:
  assumes "tab_ok st n"
  shows "tab_ok (snd (unsub i b st)) n" "tab_live (snd (unsub i b st)) n = tab_live st n - {i}"
proof -
  let ?st = "snd (unsub i b st)"
  have m: "fst ?st = (if b then gomap_delete (topic_of (snd st) i) (fst st) else fst st)" by (rule unsub_table)
  then have "set (fst ?st) \<subseteq> set (fst st)" "gomap_wf (fst ?st)"
    using assms by (auto simp: tab_ok_def gomap_delete_def AList.delete_eq distinct_map_filter)
  then show "tab_ok ?st n" using assms unsub_topics [of i b st] by (auto simp: tab_ok_def)
  show "tab_live ?st n = tab_live st n - {i}"
  proof (rule set_eqI)
    fix x
    show "x \<in> tab_live ?st n \<longleftrightarrow> x \<in> tab_live st n - {i}"
      using unsub_closes [of i b st] unsub_others [of x i b st] by (cases "x = i") (simp_all add: tab_live_def)
  qed
qed

lemma tab_clear:
  shows "tab_ok (SubscriberSyncMap_Clear unsub st) n" "tab_live (SubscriberSyncMap_Clear unsub st) n = tab_live st n - snd ` set (fst st)"
  using Clear_closes_all [of st] by (auto simp: tab_ok_def tab_live_def)

lemma tab_replace:
  assumes ok: "tab_ok (m, w) n" and w1: "topic_of w1 = (topic_of w)(n := t)" "is_closed w1 = (is_closed w)(n := False)"
  defines "st' \<equiv> replace_subscriber unsub t n (m, w1)"
  shows "tab_ok st' (Suc n)" "n \<in> tab_live st' (Suc n)" "tab_live st' (Suc n) \<subseteq> insert n (tab_live (m, w) n)" "topic_of (snd st') n = t"
    "\<And>j. \<lbrakk>j \<in> tab_live (m, w) n; topic_of w j \<noteq> t\<rbrakk> \<Longrightarrow> j \<in> tab_live st' (Suc n) \<and> topic_of (snd st') j = topic_of w j"
    "tab_ok (drop_subscriber t st') n" "tab_live (drop_subscriber t st') n \<subseteq> tab_live (m, w) n"
proof -
  define st2 where "st2 = (case map_of m t of Some old \<Rightarrow> snd (unsub old False (m, w1)) | None \<Rightarrow> (m, w1))"
  have st': "st' = (gomap_put t n m, snd st2)"
    by (simp add: st'_def replace_subscriber_def st2_def SubscriberSyncMap_Get_def SubscriberSyncMap_Add_def unsub_table split: option.split)
  have ok1: "tab_ok (m, w1) (Suc n)" using ok w1(1) by (fastforce simp: tab_ok_def)
  have live1: "tab_live (m, w1) (Suc n) = insert n (tab_live (m, w) n)" using w1(2) by (auto simp: tab_live_def less_Suc_eq)
  have old: "map_of m t = Some j \<Longrightarrow> j < n \<and> topic_of w j = t" for j using ok by (fastforce simp: tab_ok_def dest: map_of_SomeD)
  have two: "tab_live st2 (Suc n) = tab_live (m, w1) (Suc n) - set_option (map_of m t)" "topic_of (snd st2) = topic_of w1"
    using tab_unsub(2) [OF ok1, of _ False] unsub_topics [of _ False "(m, w1)"] by (auto simp: st2_def split: option.split)
  have live': "tab_live st' (Suc n) = tab_live st2 (Suc n)" by (simp add: st' tab_live_def)
  have tp: "topic_of (snd st') = (topic_of w)(n := t)" using st' two(2) w1(1) by simp
  show "n \<in> tab_live st' (Suc n)" using live' two(1) live1 old by (cases "map_of m t") auto
  show sub: "tab_live st' (Suc n) \<subseteq> insert n (tab_live (m, w) n)" using live' two(1) live1 by auto
  show "topic_of (snd st') n = t" by (simp add: tp)
  show "j \<in> tab_live st' (Suc n) \<and> topic_of (snd st') j = topic_of w j" if "j \<in> tab_live (m, w) n" "topic_of w j \<noteq> t" for j
    using that live' two(1) live1 tp old by (auto simp: tab_live_def)
  have wf: "gomap_wf m" and mem: "\<And>u j. (u, j) \<in> set m \<Longrightarrow> j < n \<and> topic_of w j = u" using ok by (auto simp: tab_ok_def)
  have put: "u = t \<and> j = n \<or> u \<noteq> t \<and> (u, j) \<in> set m" if "(u, j) \<in> set (gomap_put t n m)" for u j
    using map_of_is_SomeI [OF gomap_wf_put [OF wf] that] by (auto split: if_splits dest: map_of_SomeD)
  have "j < Suc n \<and> topic_of (snd st') j = u" if "(u, j) \<in> set (gomap_put t n m)" for u j
    using put [OF that] mem [of u j] tp by auto
  then show "tab_ok st' (Suc n)" using gomap_wf_put [OF wf] by (auto simp: tab_ok_def st')
  have "fst (drop_subscriber t st') = gomap_delete t (gomap_put t n m)"
    by (simp add: drop_subscriber_def SubscriberSyncMap_RemoveOnly_def st')
  moreover have "(u, j) \<in> set m \<and> u \<noteq> t" if "(u, j) \<in> set (gomap_delete t (gomap_put t n m))" for u j
    using that put by (auto simp: gomap_delete_def AList.delete_eq)
  ultimately show "tab_ok (drop_subscriber t st') n"
    using mem tp gomap_wf_delete [OF gomap_wf_put [OF wf]] by (fastforce simp: tab_ok_def drop_subscriber_def)
  have "tab_live (drop_subscriber t st') n \<subseteq> tab_live st' (Suc n) - {n}" by (auto simp: tab_live_def drop_subscriber_def)
  then show "tab_live (drop_subscriber t st') n \<subseteq> tab_live (m, w) n" using sub by blast
qed

end

end
