(* ===== verification/Mq_Kafka.thy ===== *)
theory Mq_Kafka
  imports Mq_Server Kafka_Publish Broker_Table
begin

text \<open>
  The kafka driver as the broker of the kafka transport: the life cycle of \<open>kafkaBroker\<close> in \<open>broker/kafka/kafka.go\<close> and the
  registration functions of \<open>transport/kafka/server.go\<close> and its siblings. The configuration of readers and writers is left out;
  of \<open>Init\<close> it remains that the addresses are set and that the writers start from an empty table.
\<close>

section \<open>The driver\<close>

record kbroker =
  kb_Addrs :: "string list"
  kb_oneTopicOneWriter :: "bool option"
  kb_connected :: bool
  kb_subscribers :: "(nat, kworld) sub_state"
  kb_next :: nat
  kb_pub :: kpub

definition kafka_defaultAddr :: string where "kafka_defaultAddr = ''127.0.0.1:9092''"

definition kafka_NewBroker :: "string list \<Rightarrow> bool option \<Rightarrow> kworld \<Rightarrow> kbroker" where
  "kafka_NewBroker addrs one w =
     \<lparr>kb_Addrs = addrs, kb_oneTopicOneWriter = one, kb_connected = False, kb_subscribers = (NewSubscriberSyncMap, w), kb_next = 0,
      kb_pub = \<lparr>kp_writer = None, kp_retriesCount = 1, kp_next = 0, kp_writes = 0, kp_accepted = [], kp_open = []\<rparr>\<rparr>"

definition kafka_Init :: "kbroker \<Rightarrow> error option \<times> kbroker" where
  "kafka_Init b =
     (let addrs = filter (\<lambda>addr. length addr \<noteq> 0) (kb_Addrs b);
          addrs = (if length addrs = 0 then [kafka_defaultAddr] else addrs);
          one = (case kb_oneTopicOneWriter b of Some v \<Rightarrow> v | None \<Rightarrow> True)
      in (None, b\<lparr>kb_Addrs := addrs, kb_pub := (kb_pub b)\<lparr>kp_writer := Some (NewWriter one)\<rparr>\<rparr>))"

definition kafka_Connect :: "kbroker \<Rightarrow> error option \<times> kbroker" where
  "kafka_Connect b =
     (if kb_connected b then (None, b)
      else if length (kb_Addrs b) = 0 then (Some (ErrNew ''no available brokers''), b)
      else (None, b\<lparr>kb_connected := True\<rparr>))"

definition kafka_close_writers :: "kp_env \<Rightarrow> kpub \<Rightarrow> kpub" where
  "kafka_close_writers env p =
     (case kp_writer p of
        None \<Rightarrow> p
      | Some k \<Rightarrow> (let (k', p') = Writer_Close env k p in p'\<lparr>kp_writer := Some k'\<rparr>))"

definition kafka_Disconnect :: "(ref \<Rightarrow> error option) \<Rightarrow> kp_env \<Rightarrow> kbroker \<Rightarrow> error option \<times> kbroker" where
  "kafka_Disconnect rc env b =
     (if \<not> kb_connected b then (None, b)
      else (None, b\<lparr>kb_pub := kafka_close_writers env (kb_pub b),
                    kb_subscribers := SubscriberSyncMap_Clear (kafka_Unsubscribe rc) (kb_subscribers b), kb_connected := False\<rparr>))"

text \<open>\<open>Subscribe\<close> with a new subscriber and its reader; its goroutine is the subject of \<open>Kafka_Consumer\<close>.\<close>

definition kafka_Subscribe :: "(ref \<Rightarrow> error option) \<Rightarrow> string \<Rightarrow> 'x \<Rightarrow> kbroker \<Rightarrow> (error + nat) \<times> kbroker" where
  "kafka_Subscribe rc topic x b =
     (let (m, w) = kb_subscribers b;
          sub = kb_next b;
          w1 = w\<lparr>kw_heap := (kw_heap w)(sub := kafka_newSubscriber topic sub)\<rparr>
      in (Inr sub, b\<lparr>kb_subscribers := kafka_Subscribe_store rc topic sub (m, w1), kb_next := Suc sub\<rparr>))"

definition kb_Unsubscribe :: "(ref \<Rightarrow> error option) \<Rightarrow> nat \<Rightarrow> bool \<Rightarrow> kbroker \<Rightarrow> error option \<times> kbroker" where
  "kb_Unsubscribe rc sub rm b =
     (let (e, st) = kafka_Unsubscribe rc sub rm (kb_subscribers b) in (e, b\<lparr>kb_subscribers := st\<rparr>))"

definition kafka_driver :: "(ref \<Rightarrow> error option) \<Rightarrow> kp_env \<Rightarrow> ('x, kbroker) mq_driver" where
  "kafka_driver rc env =
     \<lparr>dr_Init = kafka_Init, dr_Connect = kafka_Connect, dr_Disconnect = kafka_Disconnect rc env,
      dr_Subscribe = kafka_Subscribe rc, dr_Unsubscribe = kb_Unsubscribe rc\<rparr>"

section \<open>It provides the interface\<close>

definition kb_live :: "kbroker \<Rightarrow> nat set" where
  "kb_live b = {i. i < kb_next b \<and> \<not> kafka_IsClosed (snd (kb_subscribers b)) i}"

definition kb_topic :: "kbroker \<Rightarrow> nat \<Rightarrow> string" where
  "kb_topic b i = ks_topic (kw_heap (snd (kb_subscribers b)) i)"

definition kb_ok :: "kbroker \<Rightarrow> bool" where
  "kb_ok b \<longleftrightarrow> gomap_wf (fst (kb_subscribers b)) \<and> (\<forall>(t, i)\<in>set (fst (kb_subscribers b)). i < kb_next b \<and> kb_topic b i = t)"

interpretation kafka_tab: subscription_table "kafka_Unsubscribe rc" "\<lambda>w s. ks_topic (kw_heap w s)" kafka_IsClosed for rc
  by unfold_locales

lemma kb_tab:
  "kb_live b = kafka_tab.tab_live (kb_subscribers b) (kb_next b)" "kb_ok b = kafka_tab.tab_ok (kb_subscribers b) (kb_next b)"
  by (simp_all add: kb_live_def kb_ok_def kb_topic_def kafka_tab.tab_live_def kafka_tab.tab_ok_def)

lemma Unsubscribe_facts:
  assumes "kb_ok b"
  shows "kb_ok (snd (kb_Unsubscribe rc i rm b))" "kb_live (snd (kb_Unsubscribe rc i rm b)) = kb_live b - {i}"
  using kafka_tab.tab_unsub [OF assms [unfolded kb_tab(2)], of rc i rm] by (simp_all add: kb_tab kb_Unsubscribe_def Let_def case_prod_unfold)

lemma Clear_facts:
  assumes "kb_ok b"
  shows "kb_ok (snd (kafka_Disconnect rc env b))" "kb_live (snd (kafka_Disconnect rc env b)) \<subseteq> kb_live b"
  using kafka_tab.tab_clear [of rc "kb_subscribers b" "kb_next b"] assms by (auto simp: kb_tab kafka_Disconnect_def)

lemma Subscribe_facts:
  assumes ok: "kb_ok b" and sub: "kafka_Subscribe rc t x b = (Inr i, b')"
  shows "kb_ok b'" "i \<in> kb_live b'" "kb_live b' \<subseteq> insert i (kb_live b)" "kb_topic b' i = t"
    "\<And>j. \<lbrakk>j \<in> kb_live b; kb_topic b j \<noteq> t\<rbrakk> \<Longrightarrow> j \<in> kb_live b' \<and> kb_topic b' j = kb_topic b j"
proof -
  obtain m w where st: "kb_subscribers b = (m, w)" by force
  let ?w = "w\<lparr>kw_heap := (kw_heap w)(kb_next b := kafka_newSubscriber t (kb_next b))\<rparr>"
  have i: "i = kb_next b" and b': "kb_subscribers b' = replace_subscriber (kafka_Unsubscribe rc) t (kb_next b) (m, ?w)" "kb_next b' = Suc i"
    using sub by (auto simp: kafka_Subscribe_def st kafka_Subscribe_store_def replace_subscriber_def Let_def)
  have w: "(\<lambda>s. ks_topic (kw_heap ?w s)) = (\<lambda>s. ks_topic (kw_heap w s))(kb_next b := t)"
    "kafka_IsClosed ?w = (kafka_IsClosed w)(kb_next b := False)"
    by (auto simp: fun_eq_iff kafka_newSubscriber_def kafka_IsClosed_def)
  note f = kafka_tab.tab_replace [OF ok [unfolded kb_tab(2) st] w, where rc = rc, folded b'(1)]
  show "kb_ok b'" "i \<in> kb_live b'" "kb_live b' \<subseteq> insert i (kb_live b)" "kb_topic b' i = t"
    using f(1-4) b'(2) i by (simp_all add: kb_tab st kb_topic_def)
  show "j \<in> kb_live b' \<and> kb_topic b' j = kb_topic b j" if "j \<in> kb_live b" "kb_topic b j \<noteq> t" for j
    using f(5) [of j] that b'(2) i by (simp add: kb_tab st kb_topic_def)
qed

interpretation kafka_mq: mq_broker_live "kafka_driver rc env" kb_ok kb_live kb_topic for rc env
proof unfold_locales
  fix d :: kbroker assume d: "kb_ok d"
  show "kb_ok (snd (dr_Init (kafka_driver rc env) d)) \<and> kb_live (snd (dr_Init (kafka_driver rc env) d)) \<subseteq> kb_live d"
    using d by (simp add: kafka_driver_def kafka_Init_def kb_ok_def kb_live_def kb_topic_def Let_def)
  show "kb_ok (snd (dr_Connect (kafka_driver rc env) d)) \<and> kb_live (snd (dr_Connect (kafka_driver rc env) d)) \<subseteq> kb_live d"
    using d by (simp add: kafka_driver_def kafka_Connect_def kb_ok_def kb_live_def kb_topic_def)
  show "kb_ok (snd (dr_Disconnect (kafka_driver rc env) d)) \<and> kb_live (snd (dr_Disconnect (kafka_driver rc env) d)) \<subseteq> kb_live d"
    using Clear_facts [OF d, of rc env] by (simp add: kafka_driver_def)
  show "kb_ok (snd (dr_Unsubscribe (kafka_driver rc env) i b d)) \<and> kb_live (snd (dr_Unsubscribe (kafka_driver rc env) i b d)) \<subseteq> kb_live d - {i}"
    for i b using Unsubscribe_facts [OF d, of rc i b] by (simp add: kafka_driver_def)
  fix t d' e i and x :: 'a
  show "kb_ok d' \<and> kb_live d' \<subseteq> insert i (kb_live d)" if "dr_Subscribe (kafka_driver rc env) t x d = (Inr i, d')"
    using that Subscribe_facts [OF d, of rc t x i d'] by (simp add: kafka_driver_def)
  show "kb_ok d' \<and> kb_live d' \<subseteq> kb_live d" if "dr_Subscribe (kafka_driver rc env) t x d = (Inl e, d')"
    using that by (simp add: kafka_driver_def kafka_Subscribe_def Let_def split: prod.splits)
  show "i \<in> kb_live d' \<and> kb_topic d' i = t \<and> (\<forall>j\<in>kb_live d. kb_topic d j \<noteq> t \<longrightarrow> j \<in> kb_live d' \<and> kb_topic d' j = kb_topic d j)"
    if "dr_Subscribe (kafka_driver rc env) t x d = (Inr i, d')"
    using that Subscribe_facts [OF d, of rc t x i d'] by (simp add: kafka_driver_def)
qed

section \<open>Registrations\<close>

text \<open>The arguments of a registration, \<open>transport.SubscribeOption\<close>, and how the packages complete the options.\<close>

record 'w registration =
  rg_Handler :: "'w Handler"
  rg_Binder :: "unit \<Rightarrow> dyn"
  rg_SubscribeOptions :: "SubscribeOption list"

definition kafka_RegisterSubscriber ::
    "('w registration, 'd) mq_driver \<Rightarrow> ctx option \<Rightarrow> string \<Rightarrow> string \<Rightarrow> bool \<Rightarrow> 'w Handler \<Rightarrow> (unit \<Rightarrow> dyn) \<Rightarrow> SubscribeOption list \<Rightarrow>
     ('w registration, 'd) mq_server \<Rightarrow> error option \<times> ('w registration, 'd) mq_server" where
  "kafka_RegisterSubscriber D c topic queue disableAutoAck handler binder opts s =
     (let opts = opts @ [WithSubscribeQueueName queue];
          opts = (if disableAutoAck then opts @ [WithSubscribeAutoAck False] else opts);
          opts = [WithSubscribeContext c] @ opts
      in mq_RegisterSubscriber D topic \<lparr>rg_Handler = handler, rg_Binder = binder, rg_SubscribeOptions = opts\<rparr> s)"

definition mqtt_RegisterSubscriber ::
    "('w registration, 'd) mq_driver \<Rightarrow> ctx option \<Rightarrow> string \<Rightarrow> 'w Handler \<Rightarrow> (unit \<Rightarrow> dyn) \<Rightarrow> SubscribeOption list \<Rightarrow>
     ('w registration, 'd) mq_server \<Rightarrow> error option \<times> ('w registration, 'd) mq_server" where
  "mqtt_RegisterSubscriber D c topic handler binder opts s =
     mq_RegisterSubscriber D topic
       \<lparr>rg_Handler = handler, rg_Binder = binder, rg_SubscribeOptions = [WithSubscribeContext c] @ opts\<rparr> s"

text \<open>
  \<open>pulsar\<close>, \<open>rabbitmq\<close> and \<open>activemq\<close> replace a nil context by the server's own, \<open>baseCtx\<close>, which is nil only before a first context
  was given; \<open>rocketmq\<close> adds the group.
\<close>

definition ctx_or_base :: "ctx option \<Rightarrow> ctx option \<Rightarrow> ctx option" where
  "ctx_or_base base c = (let base = (case base of None \<Rightarrow> Some [] | b \<Rightarrow> b) in case c of None \<Rightarrow> base | Some x \<Rightarrow> Some x)"

definition pulsar_RegisterSubscriber ::
    "('w registration, 'd) mq_driver \<Rightarrow> ctx option \<Rightarrow> ctx option \<Rightarrow> string \<Rightarrow> 'w Handler \<Rightarrow> (unit \<Rightarrow> dyn) \<Rightarrow> SubscribeOption list \<Rightarrow>
     ('w registration, 'd) mq_server \<Rightarrow> error option \<times> ('w registration, 'd) mq_server" where
  "pulsar_RegisterSubscriber D base c topic handler binder opts s =
     mq_RegisterSubscriber D topic
       \<lparr>rg_Handler = handler, rg_Binder = binder, rg_SubscribeOptions = [WithSubscribeContext (ctx_or_base base c)] @ opts\<rparr> s"

definition rocketmq_RegisterSubscriber ::
    "('w registration, 'd) mq_driver \<Rightarrow> ctx option \<Rightarrow> ctx option \<Rightarrow> string \<Rightarrow> string \<Rightarrow> 'w Handler \<Rightarrow> (unit \<Rightarrow> dyn) \<Rightarrow> SubscribeOption list \<Rightarrow>
     ('w registration, 'd) mq_server \<Rightarrow> error option \<times> ('w registration, 'd) mq_server" where
  "rocketmq_RegisterSubscriber D base c topic groupName handler binder opts s =
     (let opts = opts @ [WithSubscribeQueueName groupName];
          opts = [WithSubscribeContext (ctx_or_base base c)] @ opts
      in mq_RegisterSubscriber D topic \<lparr>rg_Handler = handler, rg_Binder = binder, rg_SubscribeOptions = opts\<rparr> s)"

text \<open>The typed functions \<open>RegisterSubscriber[T]\<close>: with the closures of \<open>Broker_Handler\<close>.\<close>

definition redis_RegisterSubscriber_typed ::
    "('w registration, 'd) mq_driver \<Rightarrow> gotype \<Rightarrow> dyn \<Rightarrow> string \<Rightarrow> 'w TypedHandler \<Rightarrow> SubscribeOption list \<Rightarrow>
     ('w registration, 'd) mq_server \<Rightarrow> error option \<times> ('w registration, 'd) mq_server" where
  "redis_RegisterSubscriber_typed D t zero topic handler opts s =
     mq_RegisterSubscriber D topic
       \<lparr>rg_Handler = Subscribe_handler t handler, rg_Binder = Binder t zero, rg_SubscribeOptions = opts\<rparr> s"

definition kafka_RegisterSubscriber_typed ::
    "('w registration, 'd) mq_driver \<Rightarrow> gotype \<Rightarrow> dyn \<Rightarrow> ctx option \<Rightarrow> string \<Rightarrow> string \<Rightarrow> bool \<Rightarrow> 'w TypedHandler \<Rightarrow> SubscribeOption list \<Rightarrow>
     ('w registration, 'd) mq_server \<Rightarrow> error option \<times> ('w registration, 'd) mq_server" where
  "kafka_RegisterSubscriber_typed D t zero c topic queue disableAutoAck handler opts s =
     RegisterSubscriber (kafka_RegisterSubscriber D c) t zero topic queue disableAutoAck handler opts s"

lemma kafka_registration_stored:
  assumes "\<not> mq_started s" "kafka_RegisterSubscriber D c topic queue disableAutoAck handler binder opts s = (r, s')"
  shows "r = None" "rg_SubscribeOptions (the (map_of (mq_subscriberOpts s') topic)) =
    (WithSubscribeContext c # opts) @ WithSubscribeQueueName queue # (if disableAutoAck then [WithSubscribeAutoAck False] else [])"
  using assms by (auto simp: kafka_RegisterSubscriber_def mq_RegisterSubscriber_def Let_def)

section \<open>Properties\<close>

text \<open>
  C4: no interleaving of calls of \<open>Start\<close>, \<open>Stop\<close> and \<open>RegisterSubscriber\<close> leaks a subscription of the kafka transport. Whenever no
  call is running, every live subscription is in the server's table, where each topic has one entry, and when the
  server is stopped there is none.
\<close>

theorem kafka_server_leaks_no_subscription:
  assumes "mq_reach (kafka_driver rc env) kenv kind (kafka_NewBroker addrs one w) (s, ps)" and "quiet ps"
  shows "kb_live (mq_Broker s) \<subseteq> snd ` set (mq_subscribers s) \<and> gomap_wf (mq_subscribers s)
       \<and> (mq_started s \<or> kb_live (mq_Broker s) = {})"
proof -
  have b: "kb_ok (kafka_NewBroker addrs one w)" "kb_live (kafka_NewBroker addrs one w) = {}"
    by (simp_all add: kb_ok_def kb_live_def kafka_NewBroker_def NewSubscriberSyncMap_def)
  show ?thesis
    using kafka_mq.quiet_no_leak [OF assms(1) b assms(2)] kafka_mq.reach_tracked [OF assms(1) b]
    by (simp add: kafka_mq.tracked_def)
qed

definition kworld0 :: kworld where
  "kworld0 = \<lparr>kw_heap = (\<lambda>_. kafka_newSubscriber '''' 0), kw_closes = (\<lambda>_. 0)\<rparr>"

definition kp_env0 :: kp_env where
  "kp_env0 = \<lparr>kp_write = (\<lambda>n. None), kp_close = (\<lambda>w. None)\<rparr>"

theorem kafka_server_leaks_no_subscription_witness:
  "kb_live (mq_Broker (snd (mq_exec (kafka_driver (\<lambda>r. None) kp_env0) ka_test_env ''kafka'' (PRegister ''t'' ())
      (mq_NewServer ka_test_env ''kafka'' [] (kafka_NewBroker [] None kworld0))))) = {}"
proof -
  let ?D = "kafka_driver (\<lambda>r. None) kp_env0 :: (unit, kbroker) mq_driver" and ?b = "kafka_NewBroker [] None kworld0"
  let ?s0 = "mq_NewServer ka_test_env ''kafka'' [] ?b :: (unit, kbroker) mq_server"
  obtain pc s where e: "mq_exec ?D ka_test_env ''kafka'' (PRegister ''t'' ()) ?s0 = (pc, s)" by force
  have pc: "pc = PDone None" "\<not> mq_started s" using e by (auto simp: mq_NewServer_def mq_init_def)
  have "mq_reach ?D ka_test_env ''kafka'' ?b (?s0, [PRegister ''t'' ()])"
    using mq_reach.step [OF mq_reach.init mq_step.call [of "PRegister ''t'' ()" "''t''" "()"]] by force
  from mq_reach.step [OF this mq_step.go [of 0]] have "mq_reach ?D ka_test_env ''kafka'' ?b (s, [pc])" using e by simp
  from kafka_server_leaks_no_subscription [OF this] show ?thesis using pc e by (simp add: quiet_def)
qed

text \<open>
  A kafka server can be stopped and started again: all registrations are kept over \<open>Stop\<close>, and the next \<open>Start\<close> succeeds and
  subscribes to exactly the registered topics with live subscriptions.
\<close>

theorem kafka_server_restart_resubscribes:
  assumes "kb_ok (mq_Broker s)" and "mq_started s" and "gomap_wf (mq_subscriberOpts s)"
    and "mq_Start (kafka_driver rc env) kenv kind (snd (mq_Stop (kafka_driver rc env) s)) = (r, s')"
  shows "r = None \<and> mq_started s' \<and> mq_subscriberOpts s' = mq_subscriberOpts s
       \<and> fst ` set (mq_subscribers s') = fst ` set (mq_subscriberOpts s)
       \<and> (\<forall>(t, i)\<in>set (mq_subscribers s'). i \<in> kb_live (mq_Broker s') \<and> kb_topic (mq_Broker s') i = t)"
proof -
  note st = kafka_mq.mq_Stop_fields [OF assms(1,2), of rc env]
  have "r = None \<and> mq_started s' \<and> kafka_mq.all_live s' \<and> mq_subscriberOpts s' = mq_subscriberOpts (snd (mq_Stop (kafka_driver rc env) s))
       \<and> fst ` set (mq_subscribers s') = fst ` set (mq_subscriberOpts (snd (mq_Stop (kafka_driver rc env) s)))"
  proof (rule kafka_mq.Start_live [OF _ _ _ st(1-4) _ assms(4)])
    show "\<exists>i d'. dr_Subscribe (kafka_driver rc env) t x d = (Inr i, d')" for t x d
      by (simp add: kafka_driver_def kafka_Subscribe_def Let_def split: prod.split)
    show "fst (dr_Init (kafka_driver rc env) d) = None" for d by (simp add: kafka_driver_def kafka_Init_def Let_def)
    show "fst (dr_Connect (kafka_driver rc env) (snd (dr_Init (kafka_driver rc env) d))) = None" for d
      by (simp add: kafka_driver_def kafka_Init_def kafka_Connect_def Let_def)
    show "gomap_wf (mq_subscriberOpts (snd (mq_Stop (kafka_driver rc env) s)))" using assms(3) st(5) by simp
  qed
  then show ?thesis using st(5) by (simp add: kafka_mq.all_live_def)
qed

theorem kafka_server_restart_resubscribes_witness:
  "\<exists>s'. fst ` set (mq_subscribers s') = {''t'', ''u''} \<and>
     snd (mq_Start (kafka_driver (\<lambda>r. None) kp_env0) ka_test_env ''kafka''
       (snd (mq_Stop (kafka_driver (\<lambda>r. None) kp_env0)
         ((mq_NewServer ka_test_env ''kafka'' [] (kafka_NewBroker [] None kworld0))\<lparr>mq_started := True,
            mq_subscriberOpts := [(''t'', ()), (''u'', ())]\<rparr>)))) = s'"
proof -
  let ?D = "kafka_driver (\<lambda>r. None) kp_env0 :: (unit, kbroker) mq_driver"
  let ?s = "(mq_NewServer ka_test_env ''kafka'' [] (kafka_NewBroker [] None kworld0))\<lparr>mq_started := True,
            mq_subscriberOpts := [(''t'', ()), (''u'', ())]\<rparr>"
  obtain r s' where e: "mq_Start ?D ka_test_env ''kafka'' (snd (mq_Stop ?D ?s)) = (r, s')" by force
  have "kb_ok (mq_Broker ?s)" "mq_started ?s" "gomap_wf (mq_subscriberOpts ?s)"
    by (simp_all add: mq_NewServer_def mq_init_def kb_ok_def kafka_NewBroker_def NewSubscriberSyncMap_def)
  from kafka_server_restart_resubscribes [OF this e] show ?thesis using e by (intro exI [of _ s']) simp
qed

text \<open>
  The options of a kafka registration. Whatever options the caller passes and whatever the defaults of the driver are, as long as
  no option panics the subscription gets the
  queue that was passed as an argument, and with \<open>disableAutoAck\<close> it is not acknowledged automatically: these options come last.
\<close>

theorem kafka_registration_options:
  assumes "\<not> mq_started s"
    and "kafka_RegisterSubscriber D c topic queue disableAutoAck handler binder opts s = (r, s')"
    and "apply_each (rg_SubscribeOptions (the (map_of (mq_subscriberOpts s') topic))) (Some so0) = Some (Some so)"
  shows "r = None \<and> sub_Queue so = queue \<and> (disableAutoAck \<longrightarrow> \<not> sub_AutoAck so)"
proof -
  let ?tail = "WithSubscribeQueueName queue # (if disableAutoAck then [WithSubscribeAutoAck False] else [])"
  note opts = kafka_registration_stored [OF assms(1,2)]
  obtain p where "apply_each ?tail p = Some (Some so)"
    using assms(3) unfolding opts(2) apply_each_append by (auto split: option.splits)
  then have "sub_Queue so = queue \<and> (disableAutoAck \<longrightarrow> \<not> sub_AutoAck so)"
    by (cases p) (auto simp: WithSubscribeQueueName_def WithSubscribeAutoAck_def guarded_def split: if_splits)
  then show ?thesis using opts(1) by blast
qed

theorem kafka_registration_options_witness:
  "\<exists>so. apply_each (rg_SubscribeOptions (the (map_of (mq_subscriberOpts (snd (kafka_RegisterSubscriber (kafka_driver (\<lambda>r. None) kp_env0)
       (Some []) ''t'' ''q'' True (\<lambda>c e w. (None, w::nat)) (\<lambda>u. DNil) [WithSubscribeQueueName ''mine'']
       (mq_NewServer ka_test_env ''kafka'' [] (kafka_NewBroker [] None kworld0))))) ''t'')))
       (Some \<lparr>sub_Context = Some [], sub_AutoAck = True, sub_Queue = ''u'', sub_Concurrency = 0, sub_MaxRetries = 0, sub_RetryDelay = 0,
              sub_Middlewares = []\<rparr>) = Some (Some so)
     \<and> sub_Queue so = ''q'' \<and> \<not> sub_AutoAck so"
proof -
  let ?s = "mq_NewServer ka_test_env ''kafka'' [] (kafka_NewBroker [] None kworld0)"
  let ?so = "\<lparr>sub_Context = Some [], sub_AutoAck = True, sub_Queue = ''u'', sub_Concurrency = 0, sub_MaxRetries = 0, sub_RetryDelay = 0,
              sub_Middlewares = []\<rparr>"
  obtain r s' where e: "kafka_RegisterSubscriber (kafka_driver (\<lambda>r. None) kp_env0)
       (Some []) ''t'' ''q'' True (\<lambda>c e w. (None, w::nat)) (\<lambda>u. DNil) [WithSubscribeQueueName ''mine''] ?s = (r, s')" by force
  have st: "\<not> mq_started ?s" by (simp add: mq_NewServer_def mq_init_def)
  obtain so where so: "apply_each (rg_SubscribeOptions (the (map_of (mq_subscriberOpts s') ''t''))) (Some ?so) = Some (Some so)"
    unfolding kafka_registration_stored(2) [OF st e]
    by (simp add: WithSubscribeQueueName_def WithSubscribeAutoAck_def WithSubscribeContext_def guarded_def)
  from kafka_registration_options [OF st e so] show ?thesis using so e by auto
qed

end
