(* ===== verification/Tcp_Frame.thy ===== *)
theory Tcp_Frame
  imports Broker_Request
begin

text \<open>
  The wire format of the TCP transport: \<open>transport/tcp/message.go\<close> and \<open>byte_order.go\<close> (the KCP
  transport has the same two files). A frame is a 32-bit length followed by the payload; a packet is
  a 32-bit message type followed by the body. The package-level byte order is an argument. A
  connection delivers its bytes in pieces of any size (\<open>conn_in\<close>, a list of chunks as \<open>Read\<close> returns
  them, after which the connection ends), so that the reader's independence of the pieces can be stated.
\<close>

unbundle bit_operations_syntax

section \<open>Byte order\<close>

datatype byteOrder = LittleEndian | BigEndian

definition byte_of :: "32 word \<Rightarrow> char" where
  "byte_of v = char_of (unat v)"

definition u32_of :: "char \<Rightarrow> 32 word" where
  "u32_of c = word_of_nat (of_char c)"

text \<open>\<open>PutUint32\<close> and \<open>Uint32\<close> of \<open>encoding/binary\<close>.\<close>

fun PutUint32 :: "byteOrder \<Rightarrow> 32 word \<Rightarrow> bytes" where
  "PutUint32 LittleEndian v =
     [byte_of v, byte_of (drop_bit 8 v), byte_of (drop_bit 16 v), byte_of (drop_bit 24 v)]"
| "PutUint32 BigEndian v =
     [byte_of (drop_bit 24 v), byte_of (drop_bit 16 v), byte_of (drop_bit 8 v), byte_of v]"

definition assemble :: "char \<Rightarrow> char \<Rightarrow> char \<Rightarrow> char \<Rightarrow> 32 word" where
  "assemble b0 b1 b2 b3 =
     u32_of b0 OR push_bit 8 (u32_of b1) OR push_bit 16 (u32_of b2) OR push_bit 24 (u32_of b3)"

fun Uint32 :: "byteOrder \<Rightarrow> bytes \<Rightarrow> 32 word" where
  "Uint32 LittleEndian (b0 # b1 # b2 # b3 # r) = assemble b0 b1 b2 b3"
| "Uint32 BigEndian (b0 # b1 # b2 # b3 # r) = assemble b3 b2 b1 b0"
| "Uint32 bo _ = 0"

section \<open>Packets\<close>

definition frameLengthSize :: nat where
  "frameLengthSize = 4"

text \<open>\<open>32 << 20\<close>.\<close>

definition maxFrameSize :: nat where
  "maxFrameSize = 33554432"

record NetPacket =
  np_Type :: "32 word"
  np_Payload :: bytes

definition NetPacket_Marshal :: "byteOrder \<Rightarrow> NetPacket \<Rightarrow> error + bytes" where
  "NetPacket_Marshal bo m = Inr (PutUint32 bo (np_Type m) @ np_Payload m)"

text \<open>
  \<open>binary.Read\<close> of a \<open>uint32\<close>: no byte is \<open>io.EOF\<close>, one to three bytes \<open>io.ErrUnexpectedEOF\<close>.
\<close>

definition NetPacket_Unmarshal :: "byteOrder \<Rightarrow> bytes \<Rightarrow> error + NetPacket" where
  "NetPacket_Unmarshal bo buf =
     (if buf = [] then Inl ErrEOF
      else if length buf < 4 then Inl ErrUnexpectedEOF
      else Inr \<lparr>np_Type = Uint32 bo (take 4 buf), np_Payload = drop 4 buf\<rparr>)"

section \<open>Frames\<close>

text \<open>\<open>WriteFrame\<close>: the bytes given to one \<open>conn.Write\<close>, or the error.\<close>

definition WriteFrame :: "byteOrder \<Rightarrow> bytes \<Rightarrow> error + bytes" where
  "WriteFrame bo payload =
     (if length payload > maxFrameSize then Inl (ErrNew ''frame too large'')
      else Inr (PutUint32 bo (word_of_nat (length payload)) @ payload))"

type_synonym conn_in = "bytes list"

text \<open>
  \<open>io.ReadFull\<close> of \<open>n\<close> bytes: chunk after chunk, \<open>got\<close> being what was read so far. At the end of the
  connection it is \<open>io.EOF\<close> when nothing was read and \<open>io.ErrUnexpectedEOF\<close> otherwise.
\<close>

fun ReadFull :: "nat \<Rightarrow> bytes \<Rightarrow> conn_in \<Rightarrow> error + bytes \<times> conn_in" where
  "ReadFull n got cs =
     (if length got \<ge> n then Inr (got, cs)
      else case cs of
             [] \<Rightarrow> Inl (if got = [] then ErrEOF else ErrUnexpectedEOF)
           | c # cs' \<Rightarrow>
               (let k = n - length got in
                if length c > k then Inr (got @ take k c, drop k c # cs')
                else ReadFull n (got @ c) cs'))"

declare ReadFull.simps [simp del]

definition ReadFrame :: "byteOrder \<Rightarrow> conn_in \<Rightarrow> error + bytes \<times> conn_in" where
  "ReadFrame bo conn =
     (case ReadFull frameLengthSize [] conn of
        Inl e \<Rightarrow> Inl e
      | Inr (hdr, conn1) \<Rightarrow>
          (let size = unat (Uint32 bo hdr) in
           if size > maxFrameSize then Inl (ErrNew ''invalid frame size'')
           else if size = 0 then Inr ([], conn1)
           else ReadFull size [] conn1))"

text \<open>The same reader on the bytes themselves, without the pieces.\<close>

definition read_full_bytes :: "nat \<Rightarrow> bytes \<Rightarrow> error + bytes \<times> bytes" where
  "read_full_bytes n bs =
     (if length bs \<ge> n then Inr (take n bs, drop n bs)
      else Inl (if bs = [] then ErrEOF else ErrUnexpectedEOF))"

definition read_frame_bytes :: "byteOrder \<Rightarrow> bytes \<Rightarrow> error + bytes \<times> bytes" where
  "read_frame_bytes bo bs =
     (case read_full_bytes 4 bs of
        Inl e \<Rightarrow> Inl e
      | Inr (hdr, bs1) \<Rightarrow>
          (let size = unat (Uint32 bo hdr) in
           if size > maxFrameSize then Inl (ErrNew ''invalid frame size'')
           else if size = 0 then Inr ([], bs1)
           else read_full_bytes size bs1))"

section \<open>Lemmas\<close>

lemma u32_of_byte_of [simp]: "u32_of (byte_of v) = take_bit 8 v"
proof -
  have "u32_of (byte_of v) = word_of_nat (unat v mod 256)"
    by (simp add: u32_of_def byte_of_def of_char_of)
  also have "\<dots> = take_bit 8 v"
    by (rule word_unat_eq_iff [THEN iffD2]) (simp add: take_bit_eq_mod unat_mod unat_of_nat)
  finally show ?thesis .
qed

lemma assemble_bytes:
  "take_bit 8 v OR push_bit 8 (take_bit 8 (drop_bit 8 v)) OR push_bit 16 (take_bit 8 (drop_bit 16 v))
     OR push_bit 24 (take_bit 8 (drop_bit 24 v)) = (v :: 32 word)"
proof (rule bit_word_eqI)
  fix n :: nat
  assume "n < LENGTH(32)"
  then show "bit (take_bit 8 v OR push_bit 8 (take_bit 8 (drop_bit 8 v))
      OR push_bit 16 (take_bit 8 (drop_bit 16 v)) OR push_bit 24 (take_bit 8 (drop_bit 24 v))) n = bit v n"
    by (cases "n < 8"; cases "n < 16"; cases "n < 24") (auto simp: bit_simps)
qed

lemma Uint32_PutUint32 [simp]: "Uint32 bo (PutUint32 bo v) = v"
  by (cases bo) (simp_all add: assemble_def assemble_bytes)

lemma length_PutUint32 [simp]: "length (PutUint32 bo v) = 4"
  by (cases bo) simp_all

lemma ReadFull_done: "length got \<ge> n \<Longrightarrow> ReadFull n got cs = Inr (got, cs)"
  by (simp add: ReadFull.simps [of n got cs])

lemma ReadFull_Nil: "length got < n \<Longrightarrow>
    ReadFull n got [] = Inl (if got = [] then ErrEOF else ErrUnexpectedEOF)"
  by (simp add: ReadFull.simps [of n got "[]"])

lemma ReadFull_Cons: "length got < n \<Longrightarrow> ReadFull n got (c # cs) =
    (if length c > n - length got
     then Inr (got @ take (n - length got) c, drop (n - length got) c # cs)
     else ReadFull n (got @ c) cs)"
  by (simp add: ReadFull.simps [of n got "c # cs"] Let_def)

text \<open>Reading depends on the bytes that remain, not on how they arrive.\<close>

lemma ReadFull_concat:
  "map_sum id (map_prod id concat) (ReadFull n got cs) =
     (if n \<le> length got then Inr (got, concat cs)
      else if n \<le> length got + length (concat cs)
      then Inr (got @ take (n - length got) (concat cs), drop (n - length got) (concat cs))
      else Inl (if got = [] \<and> concat cs = [] then ErrEOF else ErrUnexpectedEOF))"
proof (induction cs arbitrary: got)
  case Nil
  then show ?case by (cases "n \<le> length got") (auto simp: ReadFull_done ReadFull_Nil)
next
  case (Cons c cs)
  show ?case
  proof (cases "n \<le> length got")
    case True
    then show ?thesis by (simp add: ReadFull_done)
  next
    case False
    then show ?thesis
      using Cons.IH [of "got @ c"] by (auto simp: ReadFull_Cons)
  qed
qed

lemma ReadFull_bytes:
  "map_sum id (map_prod id concat) (ReadFull n [] cs) =
     (if n = 0 then Inr ([], concat cs) else read_full_bytes n (concat cs))"
  using ReadFull_concat [of n "[]" cs] by (auto simp: read_full_bytes_def)

lemma ReadFrame_bytes:
  "map_sum id (map_prod id concat) (ReadFrame bo cs) = read_frame_bytes bo (concat cs)"
proof (cases "ReadFull 4 [] cs")
  case (Inl e)
  then have "read_full_bytes 4 (concat cs) = Inl e"
    using ReadFull_bytes [of 4 cs] by simp
  with Inl show ?thesis by (simp add: ReadFrame_def read_frame_bytes_def frameLengthSize_def)
next
  case (Inr p)
  obtain hdr conn1 where p: "p = (hdr, conn1)" by force
  have "read_full_bytes 4 (concat cs) = Inr (hdr, concat conn1)"
    using ReadFull_bytes [of 4 cs] Inr p by simp
  then show ?thesis
    using ReadFull_bytes [of "unat (Uint32 bo hdr)" conn1] Inr p
    by (simp add: ReadFrame_def read_frame_bytes_def frameLengthSize_def Let_def)
qed

lemma max_frame_small: "length p \<le> maxFrameSize \<Longrightarrow> unat (word_of_nat (length p) :: 32 word) = length p"
  by (simp add: unat_of_nat maxFrameSize_def)

text \<open>Frames of the allowed size make a framed stream, in either byte order.\<close>

definition frame_bytes :: "byteOrder \<Rightarrow> bytes \<Rightarrow> bytes" where
  "frame_bytes bo p = (case WriteFrame bo p of Inr b \<Rightarrow> b | Inl e \<Rightarrow> [])"

interpretation tcp_frames: framing "frame_bytes bo" "read_frame_bytes bo"
    "\<lambda>p. length p \<le> maxFrameSize" for bo
proof unfold_locales
  fix p rest :: bytes
  assume "length p \<le> maxFrameSize"
  then show "read_frame_bytes bo (frame_bytes bo p @ rest) = Inr (p, rest)"
    by (cases "p = []") (auto simp: frame_bytes_def WriteFrame_def read_frame_bytes_def
        read_full_bytes_def Let_def max_frame_small)
qed

section \<open>Properties\<close>

text \<open>
  C2: whatever is written with \<open>WriteFrame\<close> comes back from \<open>ReadFrame\<close>, frame by frame and in order,
  however the byte stream is cut into pieces (several frames in one read, one frame over many
  reads); an empty payload is a frame of its own, and what follows the frames is left unread.
\<close>

theorem frames_survive_any_chunking:
  assumes "\<forall>p\<in>set ps. length p \<le> maxFrameSize"
    and "concat chunks = concat (map (frame_bytes bo) ps) @ rest"
  shows "\<exists>chunks'. concat chunks' = rest \<and>
           read_frames (ReadFrame bo) (length ps) chunks = (ps, chunks')"
  using assms
proof (induction ps arbitrary: chunks)
  case Nil
  then show ?case by auto
next
  case (Cons p ps)
  have "read_frame_bytes bo (concat chunks) = Inr (p, concat (map (frame_bytes bo) ps) @ rest)"
    using Cons.prems tcp_frames.rd_wr [of p bo] by simp
  then obtain chunks1 where c1: "ReadFrame bo chunks = Inr (p, chunks1)"
      "concat chunks1 = concat (map (frame_bytes bo) ps) @ rest"
    using ReadFrame_bytes [of bo chunks] by (cases "ReadFrame bo chunks") auto
  then show ?case using Cons.IH [OF _ c1(2)] Cons.prems(1) by auto
qed

theorem frames_survive_any_chunking_witness:
  "\<exists>chunks'. concat chunks' = ''Z'' \<and>
      read_frames (ReadFrame BigEndian) (Suc (Suc 0))
        [[CHR 0x00, CHR 0x00], [CHR 0x00, CHR 0x02, CHR ''h''], [CHR ''i'', CHR 0x00, CHR 0x00, CHR 0x00, CHR 0x00, CHR ''Z'']]
        = ([''hi'', ''''], chunks')"
proof -
  have b: "byte_of 0 = CHR 0x00" "byte_of 2 = CHR 0x02"
    by (simp_all add: byte_of_def char_of_def bit_0)
  have "concat [[CHR 0x00, CHR 0x00], [CHR 0x00, CHR 0x02, CHR ''h''], [CHR ''i'', CHR 0x00, CHR 0x00, CHR 0x00, CHR 0x00, CHR ''Z'']]
      = concat (map (frame_bytes BigEndian) [''hi'', '''']) @ ''Z''"
    by (simp add: frame_bytes_def WriteFrame_def maxFrameSize_def b)
  from frames_survive_any_chunking [OF _ this] show ?thesis
    by (simp add: maxFrameSize_def)
qed

text \<open>
  \<open>WriteFrame\<close> and \<open>ReadFrame\<close> agree on the size limit: a payload over the limit is refused before
  anything is written, every frame that is written carries a length the reader accepts, and a header
  that announces more than the limit is refused without reading the payload. The 32-bit length
  field never wraps.
\<close>

theorem frame_size_limit:
  "(WriteFrame bo p = Inl (ErrNew ''frame too large'')) = (length p > maxFrameSize)
   \<and> (\<forall>b. WriteFrame bo p = Inr b \<longrightarrow>
         unat (Uint32 bo b) = length p \<and> unat (Uint32 bo b) \<le> maxFrameSize \<and> length b = 4 + length p)
   \<and> (unat v > maxFrameSize \<longrightarrow>
         ReadFrame bo (PutUint32 bo v # rest) = Inl (ErrNew ''invalid frame size''))"
proof -
  have U: "Uint32 bo (PutUint32 bo v @ p) = v" for v
    by (cases bo) (simp_all add: assemble_def assemble_bytes)
  have "ReadFull 4 [] (PutUint32 bo v # rest) = Inr (PutUint32 bo v, rest)"
    by (simp add: ReadFull_Cons ReadFull_done)
  then show ?thesis
    by (auto simp: WriteFrame_def U max_frame_small ReadFrame_def frameLengthSize_def Let_def)
qed

theorem frame_size_limit_witness:
  "ReadFrame LittleEndian [PutUint32 LittleEndian 33554433] = Inl (ErrNew ''invalid frame size'')"
  using frame_size_limit [of LittleEndian "[]" 33554433 "[]"] by (simp add: maxFrameSize_def)

text \<open>
  A packet decodes to what was encoded, in either byte order and with any payload, the empty one
  included; a buffer shorter than the type field is an error.
\<close>

theorem NetPacket_roundtrip:
  "(\<exists>b. NetPacket_Marshal bo m = Inr b \<and> NetPacket_Unmarshal bo b = Inr m)
   \<and> (\<exists>e. NetPacket_Unmarshal bo buf = Inl e) = (length buf < 4)"
proof
  have "Uint32 bo (PutUint32 bo v @ []) = v" for v by simp
  then show "\<exists>b. NetPacket_Marshal bo m = Inr b \<and> NetPacket_Unmarshal bo b = Inr m"
    by (cases bo) (simp_all add: NetPacket_Marshal_def NetPacket_Unmarshal_def assemble_def assemble_bytes)
  show "(\<exists>e. NetPacket_Unmarshal bo buf = Inl e) = (length buf < 4)"
    by (auto simp: NetPacket_Unmarshal_def)
qed

end
