(* ===== verification/Tcp_Session.thy ===== *)
theory Tcp_Session
  imports Tcp_Frame
begin

text \<open>
  One TCP session and the table of sessions: \<open>transport/tcp/session.go\<close> and \<open>session_manager.go\<close>.
  A session is used by several goroutines at once: its write pump, its read pump, callers of
  \<open>SendMessage\<close> and callers of \<open>Close\<close>. The pumps are a step relation: a step is one turn of a pump's
  loop, one send, or one of the three statements of \<open>Close\<close>, which \<open>closeOnce\<close> runs once
  (\<open>close(done)\<close>, \<open>closeConnect\<close>, \<open>removeSession\<close>); other callers of \<open>Close\<close> wait until it has finished,
  so a pump ends only then. Whether a write succeeds and what a read returns is the environment's
  choice; \<open>select\<close> may take any ready branch.
\<close>

section \<open>The session\<close>

datatype close_stage = Open | DoneClosed | ConnClosed | Finished

datatype pump = NotStarted | Running | Blocked | Exiting | Exited

text \<open>
  \<open>s_stage\<close> stands for \<open>closeOnce\<close>, the done channel and the connection field: \<open>done\<close> is closed from
  \<open>DoneClosed\<close> on, and \<open>conn\<close> is nil from \<open>ConnClosed\<close> on. \<open>s_wire\<close> is what was written to the
  connection, \<open>s_conn_closes\<close> and \<open>s_removed\<close> count the calls of \<open>conn.Close\<close> and
  \<open>hooks.removeSession\<close> (\<open>s_hooks\<close>: the hooks are not nil), \<open>s_handled\<close> lists the frames given to \<open>hooks.handleSocketRawData\<close>, and
  \<open>s_accepted\<close>, \<open>s_dropped\<close> what senders put into or failed to put into the send channel.
\<close>

record session =
  s_id :: string
  s_hooks :: bool
  s_stage :: close_stage
  s_send :: "bytes list"
  s_listenOnce :: bool
  s_wg :: nat
  s_wpump :: pump
  s_rpump :: pump
  s_wire :: bytes
  s_conn_closes :: nat
  s_removed :: nat
  s_handled :: "bytes list"
  s_accepted :: "bytes list"
  s_dropped :: "bytes list"

definition channelBufSize :: nat where
  "channelBufSize = 256"

text \<open>\<open>NewSession\<close> panics on a nil connection.\<close>

definition NewSession :: "string \<Rightarrow> bool \<Rightarrow> bool \<Rightarrow> session option" where
  "NewSession i conn_nil hooks =
     (if conn_nil then None
      else Some \<lparr>s_id = i, s_hooks = hooks, s_stage = Open, s_send = [], s_listenOnce = False, s_wg = 0,
                 s_wpump = NotStarted, s_rpump = NotStarted, s_wire = [], s_conn_closes = 0,
                 s_removed = 0, s_handled = [], s_accepted = [], s_dropped = []\<rparr>)"

definition session_done :: "session \<Rightarrow> bool" where
  "session_done s = (s_stage s \<noteq> Open)"

text \<open>\<open>Conn()\<close>: whether the connection is still there.\<close>

definition Session_Conn :: "session \<Rightarrow> bool" where
  "Session_Conn s = (s_stage s = Open \<or> s_stage s = DoneClosed)"

text \<open>
  The three ways the \<open>select\<close> of \<open>SendMessage\<close> ends. The timer of five seconds is not tied to the rest
  of the state: it may fire at the moment another branch gets ready, so the model always allows it.
\<close>

datatype send_outcome = SendDone | SendQueued | SendTimeout

definition send_possible :: "send_outcome \<Rightarrow> session \<Rightarrow> bool" where
  "send_possible oc s =
     (case oc of
        SendDone \<Rightarrow> session_done s
      | SendQueued \<Rightarrow> length (s_send s) < channelBufSize
      | SendTimeout \<Rightarrow> True)"

definition Session_SendMessage :: "send_outcome \<Rightarrow> bytes \<Rightarrow> session \<Rightarrow> session" where
  "Session_SendMessage oc message s =
     (case oc of
        SendDone \<Rightarrow> s
      | SendQueued \<Rightarrow> s\<lparr>s_send := s_send s @ [message], s_accepted := s_accepted s @ [message]\<rparr>
      | SendTimeout \<Rightarrow> s\<lparr>s_dropped := s_dropped s @ [message]\<rparr>)"

text \<open>The statements of \<open>Close\<close>, in order.\<close>

definition closeConnect :: "session \<Rightarrow> session" where
  "closeConnect s =
     (if Session_Conn s then s\<lparr>s_stage := ConnClosed, s_conn_closes := Suc (s_conn_closes s)\<rparr>
      else s\<lparr>s_stage := ConnClosed\<rparr>)"

fun Session_Close_step :: "session \<Rightarrow> session" where
  "Session_Close_step s =
     (case s_stage s of
        Open \<Rightarrow> s\<lparr>s_stage := DoneClosed\<rparr>
      | DoneClosed \<Rightarrow> closeConnect s
      | ConnClosed \<Rightarrow> (if s_hooks s then s\<lparr>s_stage := Finished, s_removed := Suc (s_removed s)\<rparr>
                       else s\<lparr>s_stage := Finished\<rparr>)
      | Finished \<Rightarrow> s)"

text \<open>\<open>Close()\<close> run to its end without interruption.\<close>

definition Session_Close :: "session \<Rightarrow> session" where
  "Session_Close s = Session_Close_step (Session_Close_step (Session_Close_step s))"

definition Session_Listen :: "session \<Rightarrow> session" where
  "Session_Listen s =
     (if s_listenOnce s then s
      else s\<lparr>s_listenOnce := True, s_wg := s_wg s + 2, s_wpump := Running, s_rpump := Running\<rparr>)"

text \<open>
  One turn of the write pump. \<open>take_done\<close> chooses the done branch when both are ready; \<open>wr\<close> is
  \<open>None\<close> when \<open>conn.Write\<close> succeeds and \<open>Some n\<close> when it fails after \<open>n\<close> bytes. The result \<open>None\<close>: no
  branch of the \<open>select\<close> is ready.
\<close>

definition writePump_turn :: "byteOrder \<Rightarrow> bool \<Rightarrow> nat option \<Rightarrow> session \<Rightarrow> session option" where
  "writePump_turn bo take_done wr s =
     (if session_done s \<and> (take_done \<or> s_send s = []) then Some (s\<lparr>s_wpump := Exiting\<rparr>)
      else (case s_send s of
              [] \<Rightarrow> None
            | msg # q \<Rightarrow>
                (let s1 = s\<lparr>s_send := q\<rparr> in
                 if \<not> Session_Conn s then Some (s1\<lparr>s_wpump := Exiting\<rparr>)
                 else (case WriteFrame bo msg of
                         Inl e \<Rightarrow> Some (s1\<lparr>s_wpump := Exiting\<rparr>)
                       | Inr b \<Rightarrow>
                           (case wr of
                              None \<Rightarrow> Some (s1\<lparr>s_wire := s_wire s @ b\<rparr>)
                            | Some n \<Rightarrow> Some (s1\<lparr>s_wire := s_wire s @ take n b, s_wpump := Exiting\<rparr>))))))"

text \<open>
  One turn of the read pump: the checks before \<open>ReadFrame\<close>, and what follows when \<open>ReadFrame\<close> has
  returned \<open>frame\<close>. The session may be closed while the pump is blocked in between.
\<close>

definition readPump_check :: "session \<Rightarrow> session" where
  "readPump_check s =
     (if session_done s \<or> \<not> Session_Conn s then s\<lparr>s_rpump := Exiting\<rparr> else s\<lparr>s_rpump := Blocked\<rparr>)"

definition readPump_frame :: "error + bytes \<Rightarrow> session \<Rightarrow> session" where
  "readPump_frame frame s =
     (case frame of
        Inl e \<Rightarrow> s\<lparr>s_rpump := Exiting\<rparr>
      | Inr f \<Rightarrow> (if s_hooks s then s\<lparr>s_rpump := Running, s_handled := s_handled s @ [f]\<rparr>
                  else s\<lparr>s_rpump := Running\<rparr>))"

text \<open>The deferred \<open>Close\<close> and \<open>wg.Done\<close> of a pump whose loop has ended.\<close>

definition writePump_exit :: "session \<Rightarrow> session" where
  "writePump_exit s = s\<lparr>s_wpump := Exited, s_wg := s_wg s - 1\<rparr>"

definition readPump_exit :: "session \<Rightarrow> session" where
  "readPump_exit s = s\<lparr>s_rpump := Exited, s_wg := s_wg s - 1\<rparr>"

text \<open>\<open>Wait()\<close> returns when this holds.\<close>

definition Session_Wait_returns :: "session \<Rightarrow> bool" where
  "Session_Wait_returns s = (s_wg s = 0)"

inductive sess_step :: "byteOrder \<Rightarrow> session \<Rightarrow> session \<Rightarrow> bool" for bo where
  send: "send_possible oc s \<Longrightarrow> sess_step bo s (Session_SendMessage oc m s)"
| close_begin: "s_stage s = Open \<Longrightarrow> sess_step bo s (Session_Close_step s)"
| close_next: "s_stage s \<in> {DoneClosed, ConnClosed} \<Longrightarrow> sess_step bo s (Session_Close_step s)"
| listen: "sess_step bo s (Session_Listen s)"
| wturn: "s_wpump s = Running \<Longrightarrow> writePump_turn bo td wr s = Some s' \<Longrightarrow> sess_step bo s s'"
| rcheck: "s_rpump s = Running \<Longrightarrow> sess_step bo s (readPump_check s)"
| rframe: "s_rpump s = Blocked \<Longrightarrow> sess_step bo s (readPump_frame f s)"
| wexit: "s_wpump s = Exiting \<Longrightarrow> s_stage s = Finished \<Longrightarrow> sess_step bo s (writePump_exit s)"
| rexit: "s_rpump s = Exiting \<Longrightarrow> s_stage s = Finished \<Longrightarrow> sess_step bo s (readPump_exit s)"

text \<open>
  The steps that the goroutines of the session take by themselves, with no other caller and no peer: the pump that has left its loop runs its deferred \<open>Close\<close>, a \<open>Close\<close> that has begun goes
  on, a pump takes a turn, and a read on the connection fails once that is closed, as \<open>net.Conn\<close> documents. A read on an open connection, a \<open>Close\<close> from outside and a send are not among them.
\<close>

inductive sess_own :: "byteOrder \<Rightarrow> session \<Rightarrow> session \<Rightarrow> bool" for bo where
  own_wclose: "s_wpump s = Exiting \<Longrightarrow> s_stage s = Open \<Longrightarrow> sess_own bo s (Session_Close_step s)"
| own_rclose: "s_rpump s = Exiting \<Longrightarrow> s_stage s = Open \<Longrightarrow> sess_own bo s (Session_Close_step s)"
| own_close: "s_stage s \<in> {DoneClosed, ConnClosed} \<Longrightarrow> sess_own bo s (Session_Close_step s)"
| own_wturn: "s_wpump s = Running \<Longrightarrow> writePump_turn bo td wr s = Some s' \<Longrightarrow> sess_own bo s s'"
| own_rcheck: "s_rpump s = Running \<Longrightarrow> sess_own bo s (readPump_check s)"
| own_rclosed: "s_rpump s = Blocked \<Longrightarrow> \<not> Session_Conn s \<Longrightarrow> sess_own bo s (readPump_frame (Inl e) s)"
| own_wexit: "s_wpump s = Exiting \<Longrightarrow> s_stage s = Finished \<Longrightarrow> sess_own bo s (writePump_exit s)"
| own_rexit: "s_rpump s = Exiting \<Longrightarrow> s_stage s = Finished \<Longrightarrow> sess_own bo s (readPump_exit s)"

inductive sess_reachable :: "byteOrder \<Rightarrow> session \<Rightarrow> bool" for bo where
  init: "NewSession i False hooks = Some s \<Longrightarrow> sess_reachable bo s"
| step: "sess_reachable bo s \<Longrightarrow> sess_step bo s s' \<Longrightarrow> sess_reachable bo s'"

section \<open>The table of sessions\<close>

text \<open>
  \<open>'s\<close> is a pointer to a session and \<open>sid\<close> its \<open>SessionID()\<close>. \<open>sm_events\<close> lists the calls made on the
  observer: \<open>(id, True)\<close> for \<open>OnSessionAdded\<close>, \<open>(id, False)\<close> for \<open>OnSessionRemoved\<close>.
\<close>

record 's session_manager =
  sm_sessions :: "(string, 's) gomap"
  sm_observer :: bool
  sm_events :: "(string \<times> bool) list"

definition NewSessionManager :: "bool \<Rightarrow> 's session_manager" where
  "NewSessionManager observer = \<lparr>sm_sessions = [], sm_observer = observer, sm_events = []\<rparr>"

definition RegisterObserver :: "bool \<Rightarrow> 's session_manager \<Rightarrow> 's session_manager" where
  "RegisterObserver observer sm = sm\<lparr>sm_observer := observer\<rparr>"

definition SessionManager_Clean :: "'s session_manager \<Rightarrow> 's session_manager" where
  "SessionManager_Clean sm = sm\<lparr>sm_sessions := []\<rparr>"

definition SessionManager_count :: "'s session_manager \<Rightarrow> nat" where
  "SessionManager_count sm = fold (\<lambda>_ n. n + 1) (sm_sessions sm) 0"

definition addSession :: "('s \<Rightarrow> string) \<Rightarrow> 's option \<Rightarrow> 's session_manager \<Rightarrow> 's session_manager" where
  "addSession sid sess sm =
     (case sess of
        None \<Rightarrow> sm
      | Some s \<Rightarrow>
          (let sm1 = sm\<lparr>sm_sessions := gomap_put (sid s) s (sm_sessions sm)\<rparr>
           in if sm_observer sm1 then sm1\<lparr>sm_events := sm_events sm1 @ [(sid s, True)]\<rparr> else sm1))"

definition removeSession :: "('s \<Rightarrow> string) \<Rightarrow> 's option \<Rightarrow> 's session_manager \<Rightarrow> 's session_manager" where
  "removeSession sid sess sm =
     (case sess of
        None \<Rightarrow> sm
      | Some s \<Rightarrow>
          (let sm1 = sm\<lparr>sm_sessions := gomap_delete (sid s) (sm_sessions sm)\<rparr>
           in if sm_observer sm1 then sm1\<lparr>sm_events := sm_events sm1 @ [(sid s, False)]\<rparr> else sm1))"

definition getSession :: "'s session_manager \<Rightarrow> string \<Rightarrow> 's option" where
  "getSession sm sessionId = map_of (sm_sessions sm) sessionId"

text \<open>\<open>rangeSessions\<close>: a snapshot first, then \<open>fn\<close> on each; what \<open>fn\<close> returns is not looked at.\<close>

definition rangeSessions ::
    "('s \<Rightarrow> string) \<Rightarrow> (string \<Rightarrow> 's \<Rightarrow> 'st \<Rightarrow> bool \<times> 'st) \<Rightarrow> 's session_manager \<Rightarrow> 'st \<Rightarrow> 'st" where
  "rangeSessions sid fn sm st =
     (let sessions = map snd (sm_sessions sm)
      in fold (\<lambda>s st. snd (fn (sid s) s st)) sessions st)"

section \<open>Lemmas on the session\<close>

lemmas session_defs [sess_defs] =
  session_done_def Session_Conn_def send_possible_def Session_SendMessage_def closeConnect_def
  Session_Listen_def writePump_turn_def readPump_check_def readPump_frame_def writePump_exit_def readPump_exit_def

lemma NewSession_fields:
  assumes "NewSession i conn_nil hooks = Some s"
  shows "s_stage s = Open" "s_send s = []" "s_listenOnce s = False" "s_wg s = 0" "s_wpump s = NotStarted"
    "s_rpump s = NotStarted" "s_wire s = []" "s_conn_closes s = 0" "s_removed s = 0" "s_handled s = []"
    "s_accepted s = []" "s_dropped s = []" "s_hooks s = hooks" "s_id s = i"
proof -
  have "s = the (NewSession i False hooks)" using assms by (simp add: NewSession_def split: if_splits)
  then show "s_stage s = Open" "s_send s = []" "s_listenOnce s = False" "s_wg s = 0" "s_wpump s = NotStarted"
    "s_rpump s = NotStarted" "s_wire s = []" "s_conn_closes s = 0" "s_removed s = 0" "s_handled s = []"
    "s_accepted s = []" "s_dropped s = []" "s_hooks s = hooks" "s_id s = i"
    by (simp_all add: NewSession_def)
qed

text \<open>
  The invariant: each statement of \<open>Close\<close> has run as often as the stage says; the wait group counts
  the pumps that have not ended; while the write pump has not left its loop, what senders put into
  the channel is what was written, followed by what is still queued.
\<close>

definition pump_alive :: "pump \<Rightarrow> nat" where
  "pump_alive p = (if p \<in> {Running, Blocked, Exiting} then 1 else 0)"

definition wire_ok :: "byteOrder \<Rightarrow> session \<Rightarrow> bool" where
  "wire_ok bo s \<longleftrightarrow>
     (\<exists>written lost n. s_wire s = concat (map (frame_bytes bo) written)
                                  @ concat (map (take n \<circ> frame_bytes bo) lost) \<and>
        s_accepted s = written @ lost @ s_send s \<and>
        length lost \<le> (if s_wpump s \<in> {NotStarted, Running} then 0 else 1))"

definition sess_inv :: "byteOrder \<Rightarrow> session \<Rightarrow> bool" where
  "sess_inv bo s \<longleftrightarrow>
     s_conn_closes s = (if s_stage s \<in> {ConnClosed, Finished} then 1 else 0) \<and>
     s_removed s = (if s_stage s = Finished \<and> s_hooks s then 1 else 0) \<and>
     s_wg s = pump_alive (s_wpump s) + pump_alive (s_rpump s) \<and>
     (s_listenOnce s \<longleftrightarrow> s_wpump s \<noteq> NotStarted) \<and>
     (s_wpump s = NotStarted \<longleftrightarrow> s_rpump s = NotStarted) \<and>
     (s_wpump s = Exited \<or> s_rpump s = Exited \<longrightarrow> s_stage s = Finished) \<and>
     length (s_send s) \<le> channelBufSize \<and> s_wpump s \<noteq> Blocked \<and> wire_ok bo s"

lemma wire_ok_send: "wire_ok bo s \<Longrightarrow> wire_ok bo (Session_SendMessage oc m s)"
  by (cases oc) (fastforce simp: wire_ok_def Session_SendMessage_def)+

lemma wire_ok_cong:
  "wire_ok bo s \<Longrightarrow> s_wire s' = s_wire s \<Longrightarrow> s_accepted s' = s_accepted s \<Longrightarrow> s_send s' = s_send s
    \<Longrightarrow> (s_wpump s' \<in> {NotStarted, Running} \<Longrightarrow> s_wpump s \<in> {NotStarted, Running}) \<Longrightarrow> wire_ok bo s'"
proof -
  assume "wire_ok bo s" and eq: "s_wire s' = s_wire s" "s_accepted s' = s_accepted s" "s_send s' = s_send s"
    and run: "s_wpump s' \<in> {NotStarted, Running} \<Longrightarrow> s_wpump s \<in> {NotStarted, Running}"
  then obtain written lost n where w: "s_wire s = concat (map (frame_bytes bo) written)
        @ concat (map (take n \<circ> frame_bytes bo) lost)" "s_accepted s = written @ lost @ s_send s"
      "length lost \<le> (if s_wpump s \<in> {NotStarted, Running} then 0 else 1)"
    unfolding wire_ok_def by blast
  moreover have "length lost \<le> (if s_wpump s' \<in> {NotStarted, Running} then 0 else 1)"
    using w(3) run by (auto split: if_splits)
  ultimately show ?thesis unfolding wire_ok_def eq by blast
qed

lemma wire_ok_upd [simp]:
  "wire_ok bo (s\<lparr>s_stage := a\<rparr>) = wire_ok bo s" "wire_ok bo (s\<lparr>s_conn_closes := b\<rparr>) = wire_ok bo s"
  "wire_ok bo (s\<lparr>s_removed := c\<rparr>) = wire_ok bo s" "wire_ok bo (s\<lparr>s_rpump := d\<rparr>) = wire_ok bo s"
  "wire_ok bo (s\<lparr>s_wg := e\<rparr>) = wire_ok bo s" "wire_ok bo (s\<lparr>s_listenOnce := f\<rparr>) = wire_ok bo s"
  "wire_ok bo (s\<lparr>s_handled := g\<rparr>) = wire_ok bo s"
  by (simp_all add: wire_ok_def)

lemma wire_ok_wpump:
  "wire_ok bo s \<Longrightarrow> p \<in> {NotStarted, Running} \<longrightarrow> s_wpump s \<in> {NotStarted, Running}
    \<Longrightarrow> wire_ok bo (s\<lparr>s_wpump := p\<rparr>)"
  by (erule wire_ok_cong) auto

lemma wire_ok_running:
  assumes "wire_ok bo s" and "s_wpump s = Running"
  obtains written where "s_wire s = concat (map (frame_bytes bo) written)" "s_accepted s = written @ s_send s"
  using assms by (auto simp: wire_ok_def)

lemma wire_ok_lost:
  assumes "wire_ok bo s" "s_wpump s = Running" "s_send s = msg # q"
  shows "wire_ok bo (s\<lparr>s_send := q, s_wire := s_wire s @ take n (frame_bytes bo msg), s_wpump := Exiting\<rparr>)"
proof -
  obtain written where "s_wire s = concat (map (frame_bytes bo) written)" "s_accepted s = written @ s_send s"
    using wire_ok_running assms(1,2) by blast
  then show ?thesis
    unfolding wire_ok_def using assms(3) by (intro exI [of _ written] exI [of _ "[msg]"] exI [of _ n]) simp
qed

lemma wire_ok_wrote:
  assumes "wire_ok bo s" "s_wpump s = Running" "s_send s = msg # q"
  shows "wire_ok bo (s\<lparr>s_send := q, s_wire := s_wire s @ frame_bytes bo msg\<rparr>)"
proof -
  obtain written where "s_wire s = concat (map (frame_bytes bo) written)" "s_accepted s = written @ s_send s"
    using wire_ok_running assms(1,2) by blast
  then show ?thesis
    unfolding wire_ok_def using assms(3)
    by (intro exI [of _ "written @ [msg]"] exI [of _ "[]"] exI [of _ 0]) simp
qed

lemma wire_ok_empty: "s_wire s = [] \<Longrightarrow> s_accepted s = [] \<Longrightarrow> s_send s = [] \<Longrightarrow> wire_ok bo s"
  unfolding wire_ok_def by (intro exI [of _ "[]"] exI [of _ 0]) simp

lemma sess_inv_NewSession: "NewSession i False hooks = Some s \<Longrightarrow> sess_inv bo s"
  using wire_ok_empty [of s bo] by (simp add: NewSession_fields sess_inv_def pump_alive_def)

lemma sess_inv_send:
  assumes "sess_inv bo s" and "send_possible oc s"
  shows "sess_inv bo (Session_SendMessage oc m s)"
  using assms wire_ok_send [of bo s oc m]
  by (cases oc) (auto simp: sess_inv_def Session_SendMessage_def send_possible_def)

lemma sess_inv_close: "sess_inv bo s \<Longrightarrow> sess_inv bo (Session_Close_step s)"
  by (cases "s_stage s") (auto simp: sess_inv_def closeConnect_def Session_Conn_def intro!: wire_ok_wpump)

lemma sess_inv_listen: "sess_inv bo s \<Longrightarrow> sess_inv bo (Session_Listen s)"
  by (auto simp: sess_inv_def Session_Listen_def pump_alive_def intro!: wire_ok_wpump)

lemma sess_inv_exit:
  "sess_inv bo s \<Longrightarrow> s_wpump s = Exiting \<Longrightarrow> s_stage s = Finished \<Longrightarrow> sess_inv bo (writePump_exit s)"
  "sess_inv bo s \<Longrightarrow> s_rpump s = Exiting \<Longrightarrow> s_stage s = Finished \<Longrightarrow> sess_inv bo (readPump_exit s)"
  by (auto simp: sess_inv_def writePump_exit_def readPump_exit_def pump_alive_def intro!: wire_ok_wpump)

lemma sess_inv_read:
  "sess_inv bo s \<Longrightarrow> s_rpump s = Running \<Longrightarrow> sess_inv bo (readPump_check s)"
  "sess_inv bo s \<Longrightarrow> s_rpump s = Blocked \<Longrightarrow> sess_inv bo (readPump_frame f s)"
  by (auto simp: sess_inv_def readPump_check_def readPump_frame_def pump_alive_def
      intro!: wire_ok_wpump split: sum.splits)

text \<open>How a turn of the write pump changes the state: it ends, or it writes the oldest message.\<close>

lemma writePump_turn_cases:
  assumes "writePump_turn bo td wr s = Some s'"
  obtains (exit_idle) "s' = s\<lparr>s_wpump := Exiting\<rparr>"
  | (exit_lost) msg q n where "s_send s = msg # q"
      "s' = s\<lparr>s_send := q, s_wire := s_wire s @ take n (frame_bytes bo msg), s_wpump := Exiting\<rparr>"
  | (wrote) msg q where "s_send s = msg # q"
      "s' = s\<lparr>s_send := q, s_wire := s_wire s @ frame_bytes bo msg\<rparr>"
proof (cases "session_done s \<and> (td \<or> s_send s = [])")
  case True
  then show ?thesis using assms exit_idle by (simp add: writePump_turn_def)
next
  case False
  then obtain msg q where q: "s_send s = msg # q"
    using assms by (auto simp: writePump_turn_def split: list.splits)
  show ?thesis
  proof (cases "Session_Conn s \<and> length msg \<le> maxFrameSize")
    case True
    then show ?thesis using assms False q exit_lost wrote
      by (cases wr) (auto simp: writePump_turn_def frame_bytes_def WriteFrame_def Let_def)
  next
    case nope: False
    then have "s' = s\<lparr>s_send := q, s_wpump := Exiting\<rparr>"
      using assms False q by (auto simp: writePump_turn_def WriteFrame_def Let_def split: if_splits)
    with q exit_lost [of msg q 0] show ?thesis by simp
  qed
qed

lemma sess_inv_write:
  assumes inv: "sess_inv bo s" and run: "s_wpump s = Running"
    and turn: "writePump_turn bo td wr s = Some s'"
  shows "sess_inv bo s'"
  using turn
proof (cases rule: writePump_turn_cases)
  case exit_idle
  with inv run show ?thesis by (auto simp: sess_inv_def pump_alive_def intro!: wire_ok_wpump)
next
  case (exit_lost msg q n)
  with inv run wire_ok_lost [OF _ run exit_lost(1)] show ?thesis
    by (auto simp: sess_inv_def pump_alive_def)
next
  case (wrote msg q)
  with inv run wire_ok_wrote [OF _ run wrote(1)] show ?thesis
    by (auto simp: sess_inv_def pump_alive_def)
qed

lemma sess_step_inv: "sess_step bo s s' \<Longrightarrow> sess_inv bo s \<Longrightarrow> sess_inv bo s'"
  by (induction rule: sess_step.induct)
    (auto intro: sess_inv_send sess_inv_close sess_inv_listen sess_inv_write sess_inv_read sess_inv_exit
      simp del: Session_Close_step.simps)

lemma sess_reachable_inv: "sess_reachable bo s \<Longrightarrow> sess_inv bo s"
  by (induction rule: sess_reachable.induct) (auto intro: sess_inv_NewSession sess_step_inv)

text \<open>The steps of its own take a session to its end: they are steps, each brings it nearer, and only an ended session has none.\<close>

lemma own_step: "sess_own bo s s' \<Longrightarrow> sess_step bo s s'"
  by (induction rule: sess_own.induct) (auto intro: sess_step.intros simp del: Session_Close_step.simps)

fun stage_rank :: "close_stage \<Rightarrow> nat" where
  "stage_rank Open = 3" | "stage_rank DoneClosed = 2" | "stage_rank ConnClosed = 1" | "stage_rank Finished = 0"

fun pump_rank :: "pump \<Rightarrow> nat" where
  "pump_rank Running = 3" | "pump_rank Blocked = 2" | "pump_rank Exiting = 1" | "pump_rank _ = 0"

definition sess_fuel :: "session \<Rightarrow> nat" where
  "sess_fuel s = stage_rank (s_stage s) + pump_rank (s_wpump s) + pump_rank (s_rpump s) + length (s_send s)"

definition sess_ending :: "session \<Rightarrow> bool" where
  "sess_ending s = (session_done s \<or> s_wpump s = Exiting \<or> s_rpump s = Exiting)"

lemma own_turn:
  assumes "s_wpump s = Running" and "writePump_turn bo td wr s = Some s'"
  shows "sess_fuel s' < sess_fuel s \<and> (sess_ending s \<longrightarrow> sess_ending s')"
  using assms(2) by (cases rule: writePump_turn_cases) (use assms(1) in \<open>auto simp: sess_fuel_def sess_ending_def session_done_def\<close>)

lemma own_decreases: "sess_own bo s s' \<Longrightarrow> sess_fuel s' < sess_fuel s \<and> (sess_ending s \<longrightarrow> sess_ending s')"
proof (induction rule: sess_own.induct)
  case (own_wturn s td wr s')
  then show ?case by (rule own_turn)
next
  case (own_close s)
  then show ?case by (auto simp: sess_fuel_def sess_ending_def session_done_def closeConnect_def Session_Conn_def)
qed (auto simp: sess_fuel_def sess_ending_def session_done_def readPump_check_def readPump_frame_def writePump_exit_def readPump_exit_def)

lemma own_final:
  assumes "sess_inv bo s" and "sess_ending s" and stuck: "\<nexists>s'. sess_own bo s s'"
  shows "s_stage s = Finished" "s_wpump s \<in> {NotStarted, Exited}" "s_rpump s \<in> {NotStarted, Exited}"
proof -
  show fin: "s_stage s = Finished"
    using assms(2) stuck by (cases "s_stage s") (auto simp: sess_ending_def session_done_def intro: own_wclose own_rclose own_close)
  have "writePump_turn bo True None s = Some (s\<lparr>s_wpump := Exiting\<rparr>)" using fin by (simp add: writePump_turn_def session_done_def)
  then show "s_wpump s \<in> {NotStarted, Exited}"
    using stuck fin assms(1) by (cases "s_wpump s") (auto simp: sess_inv_def intro: own_wturn own_wexit)
  have "\<not> Session_Conn s" using fin by (simp add: Session_Conn_def)
  then show "s_rpump s \<in> {NotStarted, Exited}"
    using stuck fin by (cases "s_rpump s") (auto intro: own_rcheck own_rclosed own_rexit)
qed

section \<open>Lemmas on the table\<close>

lemmas session_manager_defs [sess_defs] =
  addSession_def removeSession_def getSession_def SessionManager_Clean_def RegisterObserver_def

definition sm_keys :: "'s session_manager \<Rightarrow> string list" where
  "sm_keys sm = map fst (sm_sessions sm)"

definition sm_wf :: "('s \<Rightarrow> string) \<Rightarrow> 's session_manager \<Rightarrow> bool" where
  "sm_wf sid sm = (gomap_wf (sm_sessions sm) \<and> (\<forall>(k, s)\<in>set (sm_sessions sm). k = sid s))"

lemma sm_sessions_add: "sm_sessions (addSession sid (Some s) sm) = gomap_put (sid s) s (sm_sessions sm)"
  by (simp add: addSession_def Let_def)

lemma sm_sessions_remove:
  "sm_sessions (removeSession sid (Some s) sm) = gomap_delete (sid s) (sm_sessions sm)"
  by (simp add: removeSession_def Let_def)

lemma getSession_eq: "getSession sm = map_of (sm_sessions sm)"
  by (simp add: fun_eq_iff getSession_def)

lemma SessionManager_count_length: "SessionManager_count sm = length (sm_sessions sm)"
proof -
  have "fold (\<lambda>_ n. n + 1) xs k = k + length xs" for xs :: "(string \<times> 'a) list" and k :: nat
    by (induction xs arbitrary: k) auto
  then show ?thesis by (simp add: SessionManager_count_def)
qed

text \<open>The table is a keyed store: a session is stored and found under its own id.\<close>

interpretation sess_table: last_wins_store getSession "\<lambda>i. removeSession (\<lambda>_. i) (Some undefined)"
    sm_keys "\<lambda>sm. gomap_wf (sm_sessions sm)" "\<lambda>i s. addSession (\<lambda>_. i) (Some s)"
  by unfold_locales
    (auto simp: getSession_eq sm_sessions_add sm_sessions_remove sm_keys_def dom_gomap)

lemma rangeSessions_visits_all:
  "rangeSessions sid (\<lambda>i s st. (b i s st, st @ [(i, s)])) sm st = st @ map (\<lambda>s. (sid s, s)) (map snd (sm_sessions sm))"
proof -
  have "fold (\<lambda>s st. st @ [(sid s, s)]) ss st = st @ map (\<lambda>s. (sid s, s)) ss" for ss
    by (induction ss arbitrary: st) auto
  then show ?thesis by (simp add: rangeSessions_def Let_def)
qed

section \<open>Properties\<close>

text \<open>
  C1: in every reachable state of a session, under any interleaving of its pumps, senders and closers,
  the bytes on the wire are the frames of a prefix of the messages the send channel accepted, whole and
  in the order in which they were accepted, followed at most by a part of the frame whose write failed;
  while the write pump runs nothing is lost (the accepted messages are exactly the written ones followed
  by the queued ones), and at most one message is lost when it stops.
\<close>

theorem session_sends_in_order:
  assumes "sess_reachable bo s"
  shows "\<exists>written lost n. s_wire s = concat (map (frame_bytes bo) written)
                                    @ concat (map (take n \<circ> frame_bytes bo) lost)
            \<and> s_accepted s = written @ lost @ s_send s
            \<and> length lost \<le> (if s_wpump s \<in> {NotStarted, Running} then 0 else 1)
            \<and> length (s_send s) \<le> channelBufSize"
  using sess_reachable_inv [OF assms] unfolding sess_inv_def wire_ok_def by blast

theorem session_sends_in_order_witness:
  "\<exists>s. sess_reachable LittleEndian s \<and> s_accepted s = [''m''] \<and>
     (\<exists>written lost n. s_wire s = concat (map (frame_bytes LittleEndian) written)
                                    @ concat (map (take n \<circ> frame_bytes LittleEndian) lost)
            \<and> s_accepted s = written @ lost @ s_send s
            \<and> length lost \<le> (if s_wpump s \<in> {NotStarted, Running} then 0 else 1)
            \<and> length (s_send s) \<le> channelBufSize)"
proof -
  obtain s0 where s0: "NewSession ''a'' False True = Some s0" by (simp add: NewSession_def)
  let ?s = "Session_SendMessage SendQueued ''m'' s0"
  have "send_possible SendQueued s0"
    by (simp add: NewSession_fields [OF s0] send_possible_def channelBufSize_def)
  then have r: "sess_reachable LittleEndian ?s"
    using sess_reachable.step [OF sess_reachable.init [OF s0] sess_step.send] by blast
  moreover have "s_accepted ?s = [''m'']" by (simp add: NewSession_fields [OF s0] Session_SendMessage_def)
  ultimately show ?thesis using session_sends_in_order [OF r] by blast
qed

text \<open>
  However many goroutines close a session, its connection is closed at most once and the session
  is removed from the server's table at most once; a pump that has ended implies that both have
  happened, and \<open>Wait\<close> returns exactly when no pump is alive.
\<close>

theorem session_closes_once:
  assumes "sess_reachable bo s"
  shows "s_conn_closes s \<le> 1 \<and> s_removed s \<le> 1
       \<and> (s_wpump s = Exited \<or> s_rpump s = Exited \<longrightarrow> s_conn_closes s = 1 \<and> (s_hooks s \<longrightarrow> s_removed s = 1))
       \<and> (Session_Wait_returns s \<longleftrightarrow> s_wpump s \<in> {NotStarted, Exited} \<and> s_rpump s \<in> {NotStarted, Exited})"
  using sess_reachable_inv [OF assms]
  by (cases "s_wpump s"; cases "s_rpump s") (auto simp: sess_inv_def Session_Wait_returns_def pump_alive_def)

theorem session_closes_once_witness:
  "\<exists>s. sess_reachable LittleEndian s \<and> s_conn_closes s = 1 \<and> s_removed s \<le> 1"
proof -
  obtain s0 where s0: "NewSession ''a'' False True = Some s0" by (simp add: NewSession_def)
  let ?s1 = "Session_Close_step s0"
  have "sess_step LittleEndian s0 ?s1" by (intro sess_step.close_begin) (simp add: NewSession_fields [OF s0])
  then have r1: "sess_reachable LittleEndian ?s1"
    using s0 sess_reachable.init sess_reachable.step by blast
  have "sess_step LittleEndian ?s1 (Session_Close_step ?s1)"
    by (intro sess_step.close_next) (simp add: NewSession_fields [OF s0])
  with r1 have r: "sess_reachable LittleEndian (Session_Close_step ?s1)" by (rule sess_reachable.step)
  from session_closes_once [OF r] r show ?thesis
    by (intro exI [of _ "Session_Close_step ?s1"])
      (simp add: NewSession_fields [OF s0] closeConnect_def Session_Conn_def)
qed

text \<open>
  C11: closing a session releases its goroutines. From every reachable state in which the session is
  closed (\<open>done\<close> is closed), or in which a pump has left its loop, every run of the session's own steps (no send, no \<open>Close\<close> from outside and nothing from the peer) has
  at most \<open>sess_fuel\<close> steps, and where no step is left both pumps have ended, so that \<open>Wait\<close> returns, the connection was closed once and the session was removed once. In
  particular a pump that fails ends the other one, through its deferred \<open>Close\<close>. Writes and message handlers are taken to return, and a read on a closed connection to fail.
\<close>

theorem closed_session_terminates:
  assumes "sess_reachable bo s" and "session_done s \<or> s_wpump s = Exiting \<or> s_rpump s = Exiting" and "(sess_own bo ^^ n) s s'"
  shows "n \<le> sess_fuel s \<and> ((\<exists>s''. sess_own bo s' s'')
       \<or> Session_Wait_returns s' \<and> s_conn_closes s' = 1 \<and> s_removed s' = (if s_hooks s' then 1 else 0))"
proof -
  have "sess_reachable bo s' \<and> sess_ending s' \<and> n + sess_fuel s' \<le> sess_fuel s"
    using assms(3)
  proof (induction n arbitrary: s')
    case 0
    then show ?case using assms(1,2) by (simp add: sess_ending_def)
  next
    case (Suc n)
    then obtain t where t: "(sess_own bo ^^ n) s t" "sess_own bo t s'" by auto
    show ?case using Suc.IH [OF t(1)] own_decreases [OF t(2)] sess_reachable.step [OF _ own_step [OF t(2)]] by auto
  qed
  then have r: "sess_inv bo s'" "sess_ending s'" "n \<le> sess_fuel s" using sess_reachable_inv by auto
  show ?thesis
  proof (cases "\<exists>s''. sess_own bo s' s''")
    case False
    from own_final [OF r(1,2) this] r(1) show ?thesis using r(3) by (auto simp: sess_inv_def Session_Wait_returns_def pump_alive_def)
  qed (use r(3) in blast)
qed

text \<open>In the witness the read pump fails on an open session; nobody calls \<open>Close\<close>.\<close>

theorem closed_session_terminates_witness:
  "\<exists>s s'. sess_reachable BigEndian s \<and> s_stage s = Open \<and> s_rpump s = Exiting \<and> (sess_own BigEndian ^^ 1) s s' \<and> s_stage s' = DoneClosed \<and> 1 \<le> sess_fuel s
     \<and> ((\<exists>s''. sess_own BigEndian s' s'') \<or> Session_Wait_returns s')"
proof -
  obtain s0 where s0: "NewSession ''a'' False True = Some s0" by (simp add: NewSession_def)
  let ?s1 = "Session_Listen s0"
  let ?s2 = "readPump_check ?s1"
  let ?s3 = "readPump_frame (Inl ErrEOF) ?s2"
  note f = NewSession_fields [OF s0]
  have "s_rpump ?s1 = Running" "s_stage ?s1 = Open" using f by (simp_all add: Session_Listen_def)
  then have p: "s_rpump ?s1 = Running" "s_rpump ?s2 = Blocked" "s_rpump ?s3 = Exiting" "s_stage ?s3 = Open"
    by (simp_all add: readPump_check_def readPump_frame_def session_done_def Session_Conn_def)
  have "sess_reachable BigEndian ?s1" by (rule sess_reachable.step [OF sess_reachable.init [OF s0] sess_step.listen])
  from sess_reachable.step [OF this sess_step.rcheck [OF p(1)]] have "sess_reachable BigEndian ?s2" .
  from sess_reachable.step [OF this sess_step.rframe [OF p(2)]] have r: "sess_reachable BigEndian ?s3" .
  have own: "(sess_own BigEndian ^^ 1) ?s3 (Session_Close_step ?s3)" 
    unfolding One_nat_def by (rule relpowp_Suc_I, rule relpowp_0_I, rule own_rclose [OF p(3,4)])
  have "s_stage (Session_Close_step ?s3) = DoneClosed" using p(4) by simp
  then show ?thesis using closed_session_terminates [OF r _ own] r own p(3,4) by blast
qed

text \<open>
  \<open>rangeSessions\<close> visits every session of the snapshot exactly once, whatever the callback returns;
  returning true does not stop the iteration.
\<close>

theorem rangeSessions_ignores_result:
  assumes "sm_wf sid sm"
  shows "rangeSessions sid (\<lambda>i s st. (True, st @ [i])) sm [] = sm_keys sm
       \<and> rangeSessions sid (\<lambda>i s st. (False, st @ [i])) sm [] = sm_keys sm
       \<and> SessionManager_count sm = length (sm_keys sm)"
proof -
  have ids: "map (\<lambda>(k, s). sid s) (sm_sessions sm) = map fst (sm_sessions sm)"
    using assms by (auto simp: sm_wf_def intro!: map_cong)
  have "fold (\<lambda>s st. st @ [sid s]) (map snd xs) st = st @ map (\<lambda>(k, s). sid s) xs"
      for xs :: "(string \<times> 'a) list" and st
    by (induction xs arbitrary: st) auto
  then show ?thesis
    by (simp add: rangeSessions_def sm_keys_def ids SessionManager_count_length)
qed

theorem rangeSessions_ignores_result_witness:
  "sm_wf id (addSession id (Some ''b'') (addSession id (Some ''a'') (NewSessionManager False))) \<and>
   rangeSessions id (\<lambda>i s st. (True, st @ [i]))
     (addSession id (Some ''b'') (addSession id (Some ''a'') (NewSessionManager False))) [] = [''a'', ''b'']"
proof -
  let ?sm = "addSession id (Some ''b'') (addSession id (Some ''a'') (NewSessionManager False))"
  have s: "sm_sessions ?sm = [(''a'', ''a''), (''b'', ''b'')]"
    by (simp add: sm_sessions_add NewSessionManager_def gomap_put_def)
  have w: "sm_wf id ?sm" unfolding sm_wf_def s by simp
  then show ?thesis using rangeSessions_ignores_result [OF w] by (simp add: sm_keys_def s)
qed

end
