(* ===== verification/Tcp_Server.thy ===== *)
theory Tcp_Server
  imports Tcp_Session Transport_Utils
begin

text \<open>
  The TCP server: \<open>transport/tcp/server.go\<close>, \<open>types.go\<close> and \<open>server_options.go\<close>. The server record has
  the fields of \<open>Server\<close>; \<open>sv_heap\<close> holds the sessions its table points to, \<open>sv_acceptors\<close> counts the
  accept loops that were started, and \<open>sv_app\<close> is the state of the application that the registered
  handlers read and change. What the process gets from outside the package (opening a listener, the
  interfaces, the registered codecs, gob) is the record \<open>tcp_env\<close>. A hook that \<open>init\<close> fills with the
  server's own method is \<open>DefaultHook\<close>.
\<close>

section \<open>State\<close>

record tcp_env =
  e_Listen :: "string \<Rightarrow> string \<Rightarrow> error + listener"
  e_Close :: "error option"
  e_ParseIP :: "string \<Rightarrow> ip option"
  e_Interfaces :: "error + iface list"
  e_GetCodec :: "string \<Rightarrow> codec option"
  e_gob :: codec

text \<open>\<open>types.go\<close>: a handler and the function that makes the value it is given; both may be nil.\<close>

record 'st MessageHandlerData =
  md_Handler :: "(string \<Rightarrow> dyn \<Rightarrow> 'st \<Rightarrow> error option \<times> 'st) option"
  md_Creator :: "(unit \<Rightarrow> dyn) option"

definition MessageHandlerData_Create :: "'st MessageHandlerData \<Rightarrow> dyn" where
  "MessageHandlerData_Create h = (case md_Creator h of Some f \<Rightarrow> f () | None \<Rightarrow> DNil)"

datatype 'f hook = DefaultHook | CustomHook 'f

record 'st tcp_server =
  sv_lis :: "(listener \<times> bool) option"
  sv_tlsConf :: "string option"
  sv_endpoint :: "url option"
  sv_network :: string
  sv_address :: string
  sv_timeout :: int
  sv_err :: "error option"
  sv_codec :: "codec option"
  sv_messageHandlers :: "(32 word, 'st MessageHandlerData) gomap"
  sv_socketConnectHandler :: "(string \<Rightarrow> bool \<Rightarrow> 'st \<Rightarrow> 'st) option"
  sv_socketRawDataHandler :: "(string \<Rightarrow> bytes \<Rightarrow> 'st \<Rightarrow> error option \<times> 'st) hook option"
  sv_netPacketMarshaler :: "(32 word \<Rightarrow> dyn \<Rightarrow> error + bytes) hook option"
  sv_netPacketUnmarshaler :: "(bytes \<Rightarrow> error + 'st MessageHandlerData \<times> dyn) hook option"
  sv_sessionManager :: "string session_manager"
  sv_running :: bool
  sv_heap :: "(string, session) gomap"
  sv_acceptors :: nat
  sv_app :: 'st

section \<open>Options and construction\<close>

definition WithAddress :: "string \<Rightarrow> 'st tcp_server \<Rightarrow> 'st tcp_server" where
  "WithAddress addr s = s\<lparr>sv_address := addr\<rparr>"

definition WithTimeout :: "int \<Rightarrow> 'st tcp_server \<Rightarrow> 'st tcp_server" where
  "WithTimeout timeout s = s\<lparr>sv_timeout := timeout\<rparr>"

definition WithTLSConfig_tcp :: "string option \<Rightarrow> 'st tcp_server \<Rightarrow> 'st tcp_server" where
  "WithTLSConfig_tcp c s = s\<lparr>sv_tlsConf := c\<rparr>"

definition WithCodec_tcp :: "tcp_env \<Rightarrow> string \<Rightarrow> 'st tcp_server \<Rightarrow> 'st tcp_server" where
  "WithCodec_tcp env c s = s\<lparr>sv_codec := e_GetCodec env c\<rparr>"

definition WithMessageMarshaler ::
    "(32 word \<Rightarrow> dyn \<Rightarrow> error + bytes) option \<Rightarrow> 'st tcp_server \<Rightarrow> 'st tcp_server" where
  "WithMessageMarshaler m s = s\<lparr>sv_netPacketMarshaler := map_option CustomHook m\<rparr>"

definition WithMessageUnmarshaler ::
    "(bytes \<Rightarrow> error + 'st MessageHandlerData \<times> dyn) option \<Rightarrow> 'st tcp_server \<Rightarrow> 'st tcp_server" where
  "WithMessageUnmarshaler m s = s\<lparr>sv_netPacketUnmarshaler := map_option CustomHook m\<rparr>"

definition WithSocketConnectHandler ::
    "(string \<Rightarrow> bool \<Rightarrow> 'st \<Rightarrow> 'st) option \<Rightarrow> 'st tcp_server \<Rightarrow> 'st tcp_server" where
  "WithSocketConnectHandler h s = s\<lparr>sv_socketConnectHandler := h\<rparr>"

definition WithSocketRawDataHandler ::
    "(string \<Rightarrow> bytes \<Rightarrow> 'st \<Rightarrow> error option \<times> 'st) option \<Rightarrow> 'st tcp_server \<Rightarrow> 'st tcp_server" where
  "WithSocketRawDataHandler h s =
     (case h of None \<Rightarrow> s | Some f \<Rightarrow> s\<lparr>sv_socketRawDataHandler := Some (CustomHook f)\<rparr>)"

definition Server_init :: "tcp_env \<Rightarrow> ('st tcp_server \<Rightarrow> 'st tcp_server) list \<Rightarrow> 'st tcp_server \<Rightarrow> 'st tcp_server"
where
  "Server_init env opts s =
     (let s0 = fold (\<lambda>opt s. opt s) opts s;
          s1 = (if sv_netPacketMarshaler s0 = None then s0\<lparr>sv_netPacketMarshaler := Some DefaultHook\<rparr> else s0);
          s2 = (if sv_netPacketUnmarshaler s1 = None then s1\<lparr>sv_netPacketUnmarshaler := Some DefaultHook\<rparr> else s1);
          s3 = (if sv_socketRawDataHandler s2 = None then s2\<lparr>sv_socketRawDataHandler := Some DefaultHook\<rparr> else s2)
      in if sv_codec s3 = None
         then (let s4 = s3\<lparr>sv_codec := e_GetCodec env ''json''\<rparr>
               in if sv_codec s4 = None then s4\<lparr>sv_codec := e_GetCodec env ''bytes''\<rparr> else s4)
         else s3)"

definition NewServer :: "tcp_env \<Rightarrow> ('st tcp_server \<Rightarrow> 'st tcp_server) list \<Rightarrow> 'st \<Rightarrow> 'st tcp_server" where
  "NewServer env opts app =
     (let s = \<lparr>sv_lis = None, sv_tlsConf = None, sv_endpoint = None, sv_network = ''tcp'', sv_address = '':0'',
               sv_timeout = 0, sv_err = None, sv_codec = None, sv_messageHandlers = [],
               sv_socketConnectHandler = None, sv_socketRawDataHandler = None, sv_netPacketMarshaler = None,
               sv_netPacketUnmarshaler = None, sv_sessionManager = NewSessionManager False,
               sv_running = False, sv_heap = [], sv_acceptors = 0, sv_app = app\<rparr>;
          s1 = s\<lparr>sv_sessionManager := RegisterObserver True (sv_sessionManager s)\<rparr>
      in Server_init env opts s1)"

section \<open>Endpoint\<close>

definition KindTcp :: string where
  "KindTcp = ''tcp''"

definition listenAndEndpoint :: "tcp_env \<Rightarrow> 'st tcp_server \<Rightarrow> error option \<times> 'st tcp_server" where
  "listenAndEndpoint env s =
     (case (case sv_lis s of
              Some l \<Rightarrow> Inr s
            | None \<Rightarrow>
                (case e_Listen env (sv_network s) (sv_address s) of
                   Inl e \<Rightarrow> Inl e
                 | Inr lis \<Rightarrow> Inr (s\<lparr>sv_lis := Some (lis, sv_tlsConf s \<noteq> None)\<rparr>))) of
        Inl e \<Rightarrow> (Some e, s)
      | Inr s1 \<Rightarrow>
          (if sv_endpoint s1 = None
           then (case AdjustAddress (e_ParseIP env) (e_Interfaces env) (sv_address s1)
                        (map_option fst (sv_lis s1)) of
                   Inl e \<Rightarrow> (Some e, s1)
                 | Inr addr \<Rightarrow> (None, s1\<lparr>sv_endpoint := Some (NewRegistryEndpoint KindTcp addr)\<rparr>))
           else (None, s1)))"

definition Endpoint :: "tcp_env \<Rightarrow> 'st tcp_server \<Rightarrow> (error + url) \<times> 'st tcp_server" where
  "Endpoint env s =
     (case listenAndEndpoint env s of
        (Some e, s1) \<Rightarrow> (Inl e, s1)
      | (None, s1) \<Rightarrow> (case sv_endpoint s1 of
                         Some u \<Rightarrow> (Inr u, s1)
                       | None \<Rightarrow> (Inl (GoPanic ''nil endpoint''), s1)))"

section \<open>Message handlers\<close>

definition RegisterMessageHandler ::
    "32 word \<Rightarrow> (string \<Rightarrow> dyn \<Rightarrow> 'st \<Rightarrow> error option \<times> 'st) option \<Rightarrow> (unit \<Rightarrow> dyn) option
      \<Rightarrow> 'st tcp_server \<Rightarrow> 'st tcp_server" where
  "RegisterMessageHandler messageType handler binder s =
     (if map_of (sv_messageHandlers s) messageType \<noteq> None then s
      else s\<lparr>sv_messageHandlers :=
               gomap_put messageType \<lparr>md_Handler = handler, md_Creator = binder\<rparr> (sv_messageHandlers s)\<rparr>)"

text \<open>The handler that \<open>RegisterServerMessageHandler[T]\<close> wraps: only a \<open>*T\<close> reaches the typed handler.\<close>

definition typed_handler ::
    "gotype \<Rightarrow> (string \<Rightarrow> dyn \<Rightarrow> 'st \<Rightarrow> error option \<times> 'st) \<Rightarrow> string \<Rightarrow> dyn \<Rightarrow> 'st \<Rightarrow> error option \<times> 'st" where
  "typed_handler t handler sessionId payload app =
     (if typeof payload = Some (TPtr t) then handler sessionId payload app
      else (Some (ErrNew ''invalid payload struct type''), app))"

definition RegisterServerMessageHandler ::
    "gotype \<Rightarrow> dyn \<Rightarrow> 32 word \<Rightarrow> (string \<Rightarrow> dyn \<Rightarrow> 'st \<Rightarrow> error option \<times> 'st) \<Rightarrow> 'st tcp_server \<Rightarrow> 'st tcp_server"
where
  "RegisterServerMessageHandler t zero messageType handler s =
     RegisterMessageHandler messageType (Some (typed_handler t handler)) (Some (\<lambda>_. DPtr t (Some zero))) s"

definition DeregisterMessageHandler :: "32 word \<Rightarrow> 'st tcp_server \<Rightarrow> 'st tcp_server" where
  "DeregisterMessageHandler messageType s =
     s\<lparr>sv_messageHandlers := gomap_delete messageType (sv_messageHandlers s)\<rparr>"

definition GetMessageHandler :: "'st tcp_server \<Rightarrow> 32 word \<Rightarrow> error + 'st MessageHandlerData" where
  "GetMessageHandler s msgType =
     (case map_of (sv_messageHandlers s) msgType of
        None \<Rightarrow> Inl (ErrNew (''['' @ Itoa (unat msgType) @ ''] message handler not found''))
      | Some h \<Rightarrow> Inr h)"

section \<open>Encoding and dispatch\<close>

text \<open>A pointer to the interface variable \<open>payload\<close>, which the codec may overwrite.\<close>

definition any_ptr :: "dyn \<Rightarrow> dyn" where
  "any_ptr v = DPtr (TNamed ''tcp.NetMessagePayload'') (Some v)"

fun any_deref :: "dyn \<Rightarrow> dyn \<Rightarrow> dyn" where
  "any_deref (DPtr t (Some v)) old = v"
| "any_deref _ old = old"

definition packet_bytes :: "byteOrder \<Rightarrow> 32 word \<Rightarrow> slice \<Rightarrow> error + bytes" where
  "packet_bytes bo t payload =
     NetPacket_Marshal bo \<lparr>np_Type = t, np_Payload = (case payload of None \<Rightarrow> [] | Some b \<Rightarrow> b)\<rparr>"

definition defaultMarshalNetPacket ::
    "tcp_env \<Rightarrow> byteOrder \<Rightarrow> 'st tcp_server \<Rightarrow> 32 word \<Rightarrow> dyn \<Rightarrow> error + bytes" where
  "defaultMarshalNetPacket env bo s messageType message =
     (case Marshal (e_gob env) (sv_codec s) message of
        Inl e \<Rightarrow> Inl e
      | Inr payload \<Rightarrow> packet_bytes bo messageType payload)"

definition marshalNetPacket ::
    "tcp_env \<Rightarrow> byteOrder \<Rightarrow> 'st tcp_server \<Rightarrow> 32 word \<Rightarrow> dyn \<Rightarrow> error + bytes" where
  "marshalNetPacket env bo s messageType message =
     (case sv_netPacketMarshaler s of
        Some (CustomHook f) \<Rightarrow> f messageType message
      | _ \<Rightarrow> defaultMarshalNetPacket env bo s messageType message)"

definition defaultUnmarshalNetPacket ::
    "tcp_env \<Rightarrow> byteOrder \<Rightarrow> 'st tcp_server \<Rightarrow> bytes \<Rightarrow> error + 'st MessageHandlerData \<times> dyn" where
  "defaultUnmarshalNetPacket env bo s buf =
     (case NetPacket_Unmarshal bo buf of
        Inl e \<Rightarrow> Inl e
      | Inr msg \<Rightarrow>
          (case GetMessageHandler s (np_Type msg) of
             Inl e \<Rightarrow> Inl e
           | Inr h \<Rightarrow>
               (let payload = MessageHandlerData_Create h
                in if payload = DNil then Inr (h, DBytes (Some (np_Payload msg)))
                   else (case Unmarshal (e_gob env) (sv_codec s) (Some (np_Payload msg)) (any_ptr payload) of
                           Inl e \<Rightarrow> Inl e
                         | Inr v \<Rightarrow> Inr (h, any_deref v payload)))))"

definition unmarshalNetPacket ::
    "tcp_env \<Rightarrow> byteOrder \<Rightarrow> 'st tcp_server \<Rightarrow> bytes \<Rightarrow> error + 'st MessageHandlerData \<times> dyn" where
  "unmarshalNetPacket env bo s buf =
     (case sv_netPacketUnmarshaler s of
        Some (CustomHook f) \<Rightarrow> f buf
      | _ \<Rightarrow> defaultUnmarshalNetPacket env bo s buf)"

definition defaultHandleSocketRawData ::
    "tcp_env \<Rightarrow> byteOrder \<Rightarrow> string \<Rightarrow> bytes \<Rightarrow> 'st tcp_server \<Rightarrow> error option \<times> 'st tcp_server" where
  "defaultHandleSocketRawData env bo sessionId buf s =
     (case unmarshalNetPacket env bo s buf of
        Inl e \<Rightarrow> (Some e, s)
      | Inr (h, payload) \<Rightarrow>
          (case md_Handler h of
             None \<Rightarrow> (Some (GoPanic ''nil handler''), s)
           | Some f \<Rightarrow> (let (e, app) = f sessionId payload (sv_app s) in (e, s\<lparr>sv_app := app\<rparr>))))"

definition handleSocketRawData ::
    "tcp_env \<Rightarrow> byteOrder \<Rightarrow> string \<Rightarrow> bytes \<Rightarrow> 'st tcp_server \<Rightarrow> error option \<times> 'st tcp_server" where
  "handleSocketRawData env bo sessionId buf s =
     (case sv_socketRawDataHandler s of
        Some (CustomHook f) \<Rightarrow> (let (e, app) = f sessionId buf (sv_app s) in (e, s\<lparr>sv_app := app\<rparr>))
      | _ \<Rightarrow> defaultHandleSocketRawData env bo sessionId buf s)"

section \<open>Sessions of the server\<close>

definition OnSessionAdded :: "string \<Rightarrow> 'st tcp_server \<Rightarrow> 'st tcp_server" where
  "OnSessionAdded i s =
     (case sv_socketConnectHandler s of None \<Rightarrow> s | Some f \<Rightarrow> s\<lparr>sv_app := f i True (sv_app s)\<rparr>)"

definition OnSessionRemoved :: "string \<Rightarrow> 'st tcp_server \<Rightarrow> 'st tcp_server" where
  "OnSessionRemoved i s =
     (case sv_socketConnectHandler s of None \<Rightarrow> s | Some f \<Rightarrow> s\<lparr>sv_app := f i False (sv_app s)\<rparr>)"

text \<open>An operation of the session table, with the calls it makes on its observer, the server.\<close>

definition observed ::
    "(string session_manager \<Rightarrow> string session_manager) \<Rightarrow> 'st tcp_server \<Rightarrow> 'st tcp_server" where
  "observed act s =
     (let sm0 = sv_sessionManager s; sm1 = act sm0;
          new = drop (length (sm_events sm0)) (sm_events sm1)
      in fold (\<lambda>(i, added). if added then OnSessionAdded i else OnSessionRemoved i) new
           (s\<lparr>sv_sessionManager := sm1\<rparr>))"

definition Server_removeSession :: "string \<Rightarrow> 'st tcp_server \<Rightarrow> 'st tcp_server" where
  "Server_removeSession i s = observed (removeSession id (Some i)) s"

text \<open>\<open>session.Close()\<close> for a session of this server; its hook is \<open>Server_removeSession\<close>.\<close>

definition Server_closeSession :: "string \<Rightarrow> 'st tcp_server \<Rightarrow> 'st tcp_server" where
  "Server_closeSession i s =
     (case map_of (sv_heap s) i of
        None \<Rightarrow> s
      | Some sess \<Rightarrow>
          (let sess' = Session_Close sess; s1 = s\<lparr>sv_heap := gomap_put i sess' (sv_heap s)\<rparr>
           in if s_removed sess' > s_removed sess then Server_removeSession i s1 else s1))"

definition session_send :: "(session \<Rightarrow> send_outcome) \<Rightarrow> bytes \<Rightarrow> string \<Rightarrow> 'st tcp_server \<Rightarrow> 'st tcp_server" where
  "session_send oc message i s =
     (case map_of (sv_heap s) i of
        None \<Rightarrow> s
      | Some sess \<Rightarrow> s\<lparr>sv_heap := gomap_put i (Session_SendMessage (oc sess) message sess) (sv_heap s)\<rparr>)"

definition SendRawData ::
    "(session \<Rightarrow> send_outcome) \<Rightarrow> string \<Rightarrow> bytes \<Rightarrow> 'st tcp_server \<Rightarrow> error option \<times> 'st tcp_server" where
  "SendRawData oc sessionId message s =
     (case getSession (sv_sessionManager s) sessionId of
        None \<Rightarrow> (Some (ErrNew (''session not found: '' @ sessionId)), s)
      | Some i \<Rightarrow> (None, session_send oc message i s))"

definition BroadcastRawData :: "(session \<Rightarrow> send_outcome) \<Rightarrow> bytes \<Rightarrow> 'st tcp_server \<Rightarrow> 'st tcp_server" where
  "BroadcastRawData oc message s =
     rangeSessions id (\<lambda>_ i s. (False, session_send oc message i s)) (sv_sessionManager s) s"

fun err_text :: "error \<Rightarrow> string" where
  "err_text (ErrNew s) = s"
| "err_text (ErrWrap s e) = s @ '': '' @ err_text e"
| "err_text ErrEOF = ''EOF''"
| "err_text ErrUnexpectedEOF = ''unexpected EOF''"
| "err_text ErrCanceled = ''context canceled''"
| "err_text ErrDeadlineExceeded = ''context deadline exceeded''"
| "err_text ErrClosed = ''use of closed network connection''"
| "err_text (GoPanic s) = s"

definition Server_SendMessage ::
    "tcp_env \<Rightarrow> byteOrder \<Rightarrow> (session \<Rightarrow> send_outcome) \<Rightarrow> string \<Rightarrow> 32 word \<Rightarrow> dyn \<Rightarrow> 'st tcp_server
      \<Rightarrow> error option \<times> 'st tcp_server" where
  "Server_SendMessage env bo oc sessionId messageType message s =
     (case marshalNetPacket env bo s messageType message of
        Inl e \<Rightarrow> (Some (ErrNew (''marshal message exception: '' @ err_text e)), s)
      | Inr buf \<Rightarrow> SendRawData oc sessionId buf s)"

definition Broadcast ::
    "tcp_env \<Rightarrow> byteOrder \<Rightarrow> (session \<Rightarrow> send_outcome) \<Rightarrow> 32 word \<Rightarrow> dyn \<Rightarrow> 'st tcp_server \<Rightarrow> 'st tcp_server" where
  "Broadcast env bo oc messageType message s =
     (case marshalNetPacket env bo s messageType message of
        Inl e \<Rightarrow> s
      | Inr buf \<Rightarrow> BroadcastRawData oc buf s)"

section \<open>Start, Stop and the accept loop\<close>

text \<open>\<open>Start\<close> in the two pieces between which the new goroutine can run: up to \<open>go s.doAccept()\<close>, and after.\<close>

definition Start_spawn :: "tcp_env \<Rightarrow> 'st tcp_server \<Rightarrow> error option \<times> 'st tcp_server" where
  "Start_spawn env s =
     (case listenAndEndpoint env s of
        (Some e, s1) \<Rightarrow> (Some e, s1\<lparr>sv_err := Some e\<rparr>)
      | (None, s1) \<Rightarrow> (None, s1\<lparr>sv_err := None, sv_acceptors := Suc (sv_acceptors s1)\<rparr>))"

definition Start_publish :: "'st tcp_server \<Rightarrow> 'st tcp_server" where
  "Start_publish s = s\<lparr>sv_running := True\<rparr>"

definition Start :: "tcp_env \<Rightarrow> 'st tcp_server \<Rightarrow> error option \<times> 'st tcp_server" where
  "Start env s =
     (if sv_running s then (None, s)
      else (case Start_spawn env s of
              (Some e, s1) \<Rightarrow> (Some e, s1)
            | (None, s1) \<Rightarrow> (None, Start_publish s1)))"

definition Stop :: "tcp_env \<Rightarrow> 'st tcp_server \<Rightarrow> error option \<times> 'st tcp_server" where
  "Stop env s =
     (if \<not> sv_running s then (None, s)
      else
        let s1 = s\<lparr>sv_running := False\<rparr>;
            (err, s2) = (case sv_lis s1 of None \<Rightarrow> (None, s1) | Some l \<Rightarrow> (e_Close env, s1\<lparr>sv_lis := None\<rparr>));
            s3 = rangeSessions id (\<lambda>_ i s. (True, Server_closeSession i s)) (sv_sessionManager s2) s2
        in (err, s3\<lparr>sv_err := None\<rparr>))"

datatype accept_pc = NoLoop | LoopHead | InAccept | LoopExited

text \<open>The head of the loop, and what follows when \<open>Accept\<close> has returned; \<open>i\<close> is the new session's GUID.\<close>

definition doAccept_head :: "'st tcp_server \<Rightarrow> accept_pc" where
  "doAccept_head s = (if \<not> sv_running s \<or> sv_lis s = None then LoopExited else InAccept)"

definition accept_session :: "string \<Rightarrow> 'st tcp_server \<Rightarrow> 'st tcp_server" where
  "accept_session i s =
     (case NewSession i False True of
        None \<Rightarrow> s
      | Some sess \<Rightarrow>
          (let s1 = observed (addSession id (Some i)) (s\<lparr>sv_heap := gomap_put i sess (sv_heap s)\<rparr>)
           in s1\<lparr>sv_heap := gomap_put i (Session_Listen sess) (sv_heap s1)\<rparr>))"

definition doAccept_conn :: "error + string \<Rightarrow> 'st tcp_server \<Rightarrow> accept_pc \<times> 'st tcp_server" where
  "doAccept_conn r s =
     (case r of
        Inl e \<Rightarrow> (if \<not> sv_running s \<or> errors_Is e ErrClosed then LoopExited else LoopHead, s)
      | Inr i \<Rightarrow> (LoopHead, accept_session i s))"

text \<open>\<open>Start\<close> and the accept loop it spawns, interleaved.\<close>

datatype start_pc = StartCalled | StartSpawned | StartReturned "error option"

inductive start_step ::
    "tcp_env \<Rightarrow> 'st tcp_server \<times> start_pc \<times> accept_pc \<Rightarrow> 'st tcp_server \<times> start_pc \<times> accept_pc \<Rightarrow> bool"
  for env where
  spawn: "\<not> sv_running s \<Longrightarrow> Start_spawn env s = (None, s') \<Longrightarrow>
     start_step env (s, StartCalled, NoLoop) (s', StartSpawned, LoopHead)"
| publish: "start_step env (s, StartSpawned, a) (Start_publish s, StartReturned None, a)"
| head: "start_step env (s, p, LoopHead) (s, p, doAccept_head s)"
| conn: "doAccept_conn r s = (a, s') \<Longrightarrow> start_step env (s, p, InAccept) (s', p, a)"

section \<open>Handlers: the first registration wins\<close>

definition handler_of :: "'st tcp_server \<Rightarrow> 32 word \<Rightarrow> 'st MessageHandlerData option" where
  "handler_of s t = map_of (sv_messageHandlers s) t"

lemma handler_of_eq: "handler_of s = map_of (sv_messageHandlers s)"
  by (simp add: fun_eq_iff handler_of_def)

interpretation tcp_handlers: first_wins_store handler_of DeregisterMessageHandler
    "\<lambda>s. gomap_keys (sv_messageHandlers s)" "\<lambda>s. gomap_wf (sv_messageHandlers s)"
    "\<lambda>t h. RegisterMessageHandler t (md_Handler h) (md_Creator h)"
  by unfold_locales
    (auto simp: handler_of_eq DeregisterMessageHandler_def RegisterMessageHandler_def
      gomap_simps gomap_keys_def dom_gomap)

section \<open>Lemmas on sessions of the server\<close>

lemma Server_removeSession_eq:
  "sm_observer (sv_sessionManager s) \<Longrightarrow>
     Server_removeSession i s =
       OnSessionRemoved i (s\<lparr>sv_sessionManager := removeSession id (Some i) (sv_sessionManager s)\<rparr>)"
  by (simp add: Server_removeSession_def observed_def removeSession_def Let_def)

lemma accept_session_eq:
  "sm_observer (sv_sessionManager s) \<Longrightarrow>
     accept_session i s = (let sess = the (NewSession i False True);
       s1 = OnSessionAdded i (s\<lparr>sv_heap := gomap_put i sess (sv_heap s),
              sv_sessionManager := addSession id (Some i) (sv_sessionManager s)\<rparr>)
       in s1\<lparr>sv_heap := gomap_put i (Session_Listen sess) (sv_heap s1)\<rparr>)"
  by (simp add: accept_session_def observed_def addSession_def NewSession_def Let_def)

lemma OnSession_fields [simp]:
  "sv_heap (OnSessionRemoved i s) = sv_heap s"
  "sv_sessionManager (OnSessionRemoved i s) = sv_sessionManager s"
  "sv_socketConnectHandler (OnSessionRemoved i s) = sv_socketConnectHandler s"
  "sv_running (OnSessionRemoved i s) = sv_running s" "sv_lis (OnSessionRemoved i s) = sv_lis s"
  "sv_endpoint (OnSessionRemoved i s) = sv_endpoint s"
  "sv_heap (OnSessionAdded i s) = sv_heap s"
  "sv_sessionManager (OnSessionAdded i s) = sv_sessionManager s"
  "sv_running (OnSessionAdded i s) = sv_running s" "sv_lis (OnSessionAdded i s) = sv_lis s"
  by (simp_all add: OnSessionRemoved_def OnSessionAdded_def split: option.splits)

lemma Session_Close_fields:
  "s_stage (Session_Close sess) = Finished" "s_hooks (Session_Close sess) = s_hooks sess"
  "s_hooks sess \<Longrightarrow> s_stage sess \<noteq> Finished \<Longrightarrow> s_removed (Session_Close sess) = Suc (s_removed sess)"
  "s_stage sess = Open \<Longrightarrow> s_conn_closes (Session_Close sess) = Suc (s_conn_closes sess)"
  by (cases "s_stage sess"; simp add: Session_Close_def closeConnect_def Session_Conn_def)+

text \<open>
  The invariant of the server's table: an entry is stored under its own id and points to a session that
  has not finished closing.
\<close>

definition tcp_wf :: "'st tcp_server \<Rightarrow> bool" where
  "tcp_wf s \<longleftrightarrow>
     gomap_wf (sm_sessions (sv_sessionManager s)) \<and> sm_observer (sv_sessionManager s) \<and>
     (\<forall>k i. map_of (sm_sessions (sv_sessionManager s)) k = Some i \<longrightarrow>
        k = i \<and> (\<exists>sess. map_of (sv_heap s) i = Some sess \<and> s_stage sess \<noteq> Finished \<and> s_hooks sess))"

definition tcp_ids :: "'st tcp_server \<Rightarrow> string set" where
  "tcp_ids s = dom (getSession (sv_sessionManager s))"

definition connect_event :: "'st tcp_server \<Rightarrow> bool \<Rightarrow> string \<Rightarrow> 'st \<Rightarrow> 'st" where
  "connect_event s added i app = (case sv_socketConnectHandler s of None \<Rightarrow> app | Some f \<Rightarrow> f i added app)"

lemma tcp_wf_NewServer_fields:
  "sv_sessionManager (Server_init env [] s) = sv_sessionManager s" "sv_heap (Server_init env [] s) = sv_heap s"
  by (simp_all add: Server_init_def Let_def)

lemma tcp_wf_accept:
  assumes "tcp_wf s" and "map_of (sv_heap s) i = None"
  shows "tcp_wf (accept_session i s)" and "tcp_ids (accept_session i s) = insert i (tcp_ids s)"
proof -
  obtain sess where sess: "NewSession i False True = Some sess" by (simp add: NewSession_def)
  have obs: "sm_observer (sv_sessionManager s)" using assms by (simp add: tcp_wf_def)
  have sm: "sm_sessions (sv_sessionManager (accept_session i s)) = gomap_put i i (sm_sessions (sv_sessionManager s))"
    "sm_observer (sv_sessionManager (accept_session i s))"
    using obs by (simp_all add: accept_session_eq Let_def sm_sessions_add addSession_def)
  have hp: "map_of (sv_heap (accept_session i s)) = (map_of (sv_heap s))(i \<mapsto> Session_Listen sess)"
    using obs by (simp add: accept_session_eq Let_def sess fun_eq_iff)
  have "s_stage (Session_Listen sess) \<noteq> Finished \<and> s_hooks (Session_Listen sess)"
    by (simp add: Session_Listen_def NewSession_fields [OF sess])
  then show "tcp_wf (accept_session i s)"
    using assms unfolding tcp_wf_def sm hp by (auto simp: gomap_wf_put sm)
  show "tcp_ids (accept_session i s) = insert i (tcp_ids s)"
    by (auto simp: tcp_ids_def getSession_eq sm)
qed

lemma Server_closeSession_eq:
  assumes "tcp_wf s" and "i \<in> tcp_ids s"
  obtains sess where "map_of (sv_heap s) i = Some sess" "s_stage sess \<noteq> Finished" "s_hooks sess"
    "Server_closeSession i s = OnSessionRemoved i
       (s\<lparr>sv_heap := gomap_put i (Session_Close sess) (sv_heap s),
          sv_sessionManager := removeSession id (Some i) (sv_sessionManager s)\<rparr>)"
proof -
  obtain sess where sess: "map_of (sv_heap s) i = Some sess" "s_stage sess \<noteq> Finished" "s_hooks sess"
    using assms by (auto simp: tcp_wf_def tcp_ids_def getSession_eq)
  have obs: "sm_observer (sv_sessionManager s)" using assms by (simp add: tcp_wf_def)
  have "Server_closeSession i s = OnSessionRemoved i
       (s\<lparr>sv_heap := gomap_put i (Session_Close sess) (sv_heap s),
          sv_sessionManager := removeSession id (Some i) (sv_sessionManager s)\<rparr>)"
    using sess obs by (simp add: Server_closeSession_def Let_def Session_Close_fields Server_removeSession_eq)
  with sess that show ?thesis by blast
qed

lemma closeSession_step:
  assumes "tcp_wf s" and "i \<in> tcp_ids s"
  shows "tcp_wf (Server_closeSession i s)"
    and "tcp_ids (Server_closeSession i s) = tcp_ids s - {i}"
    and "sv_app (Server_closeSession i s) = connect_event s False i (sv_app s)"
    and "sv_socketConnectHandler (Server_closeSession i s) = sv_socketConnectHandler s"
    and "\<exists>sess. map_of (sv_heap s) i = Some sess
          \<and> map_of (sv_heap (Server_closeSession i s)) = (map_of (sv_heap s))(i \<mapsto> Session_Close sess)"
    and "sv_running (Server_closeSession i s) = sv_running s" "sv_lis (Server_closeSession i s) = sv_lis s"
      "sv_endpoint (Server_closeSession i s) = sv_endpoint s"
proof -
  from assms obtain sess where sess: "map_of (sv_heap s) i = Some sess" "s_stage sess \<noteq> Finished" "s_hooks sess"
    and eq: "Server_closeSession i s = OnSessionRemoved i
       (s\<lparr>sv_heap := gomap_put i (Session_Close sess) (sv_heap s),
          sv_sessionManager := removeSession id (Some i) (sv_sessionManager s)\<rparr>)"
    by (rule Server_closeSession_eq)
  have sm: "sm_sessions (sv_sessionManager (Server_closeSession i s)) = gomap_delete i (sm_sessions (sv_sessionManager s))"
    "sm_observer (sv_sessionManager (Server_closeSession i s)) = sm_observer (sv_sessionManager s)"
    by (simp_all add: eq sm_sessions_remove removeSession_def Let_def)
  have hp: "map_of (sv_heap (Server_closeSession i s)) = (map_of (sv_heap s))(i \<mapsto> Session_Close sess)"
    by (simp add: eq)
  show "tcp_wf (Server_closeSession i s)"
    using assms unfolding tcp_wf_def sm hp by (auto simp: gomap_wf_delete)
  show "tcp_ids (Server_closeSession i s) = tcp_ids s - {i}"
    by (auto simp: tcp_ids_def getSession_eq sm)
  show "sv_app (Server_closeSession i s) = connect_event s False i (sv_app s)"
    by (simp add: eq OnSessionRemoved_def connect_event_def split: option.splits)
  show "\<exists>sess. map_of (sv_heap s) i = Some sess
      \<and> map_of (sv_heap (Server_closeSession i s)) = (map_of (sv_heap s))(i \<mapsto> Session_Close sess)"
    using sess hp by blast
qed (use assms in \<open>auto elim!: Server_closeSession_eq\<close>)

lemma closeSessions_fold:
  assumes "tcp_wf s" and "distinct ids" and "set ids \<subseteq> tcp_ids s"
  shows "let s' = fold Server_closeSession ids s in
     tcp_wf s' \<and> tcp_ids s' = tcp_ids s - set ids
     \<and> sv_app s' = fold (connect_event s False) ids (sv_app s)
     \<and> sv_running s' = sv_running s \<and> sv_lis s' = sv_lis s \<and> sv_endpoint s' = sv_endpoint s
     \<and> (\<forall>i sess. map_of (sv_heap s) i = Some sess \<longrightarrow>
          map_of (sv_heap s') i = Some (if i \<in> set ids then Session_Close sess else sess))"
  using assms
proof (induction ids arbitrary: s)
  case Nil
  then show ?case by simp
next
  case (Cons i ids)
  let ?s1 = "Server_closeSession i s"
  have i: "i \<in> tcp_ids s" using Cons.prems by simp
  note step = closeSession_step [OF Cons.prems(1) i]
  have ev: "connect_event ?s1 False = connect_event s False" by (simp add: fun_eq_iff connect_event_def step)
  from step(5) obtain sess where sess: "map_of (sv_heap s) i = Some sess"
      "map_of (sv_heap ?s1) = (map_of (sv_heap s))(i \<mapsto> Session_Close sess)" by blast
  have "set ids \<subseteq> tcp_ids ?s1" using Cons.prems step(2) by auto
  note IH = Cons.IH [OF step(1) _ this, unfolded Let_def]
  have "map_of (sv_heap (fold Server_closeSession ids ?s1)) j
      = Some (if j \<in> set (i # ids) then Session_Close sess' else sess')"
    if j: "map_of (sv_heap s) j = Some sess'" for j sess'
  proof (cases "j = i")
    case True
    then show ?thesis using IH Cons.prems(2) sess j by simp
  next
    case False
    then have "map_of (sv_heap ?s1) j = Some sess'" using sess(2) j by simp
    then show ?thesis using IH Cons.prems(2) False by simp
  qed
  moreover have "tcp_ids s - {i} - set ids = tcp_ids s - set (i # ids)" by auto
  ultimately show ?case using IH Cons.prems(2) by (simp add: Let_def step ev)
qed

lemma Stop_fields:
  assumes "tcp_wf s" and "sv_running s" and "Stop env s = (err, s')"
  shows "tcp_wf s' \<and> tcp_ids s' = {} \<and> \<not> sv_running s' \<and> sv_lis s' = None \<and> sv_endpoint s' = sv_endpoint s
     \<and> (\<exists>ids. distinct ids \<and> set ids = tcp_ids s \<and> sv_app s' = fold (connect_event s False) ids (sv_app s))
     \<and> (\<forall>i sess. map_of (sv_heap s) i = Some sess \<longrightarrow>
          map_of (sv_heap s') i = Some (if i \<in> tcp_ids s then Session_Close sess else sess))"
proof -
  let ?ids = "map snd (sm_sessions (sv_sessionManager s))"
  let ?t = "s\<lparr>sv_running := False, sv_lis := None\<rparr>"
  have keys: "?ids = map fst (sm_sessions (sv_sessionManager s))"
    by (intro map_cong refl) (use assms(1) in \<open>force simp: tcp_wf_def\<close>)
  have d: "distinct ?ids" using assms(1) unfolding keys by (simp add: tcp_wf_def)
  have set_ids: "set ?ids = tcp_ids s" unfolding keys by (simp add: tcp_ids_def getSession_eq dom_gomap)
  have wf2: "tcp_wf ?t" using assms(1) by (simp add: tcp_wf_def)
  have same: "tcp_ids ?t = tcp_ids s" "connect_event ?t = connect_event s"
    by (simp_all add: tcp_ids_def connect_event_def fun_eq_iff)
  have s2: "(case sv_lis s of None \<Rightarrow> (None, s\<lparr>sv_running := False\<rparr>)
      | Some l \<Rightarrow> (e_Close env, s\<lparr>sv_running := False, sv_lis := None\<rparr>)) = (err', t) \<Longrightarrow> t = ?t" for err' t
    by (cases s) (auto split: option.splits)
  have s': "s' = (fold Server_closeSession ?ids ?t)\<lparr>sv_err := None\<rparr>"
    using assms(2,3) by (auto simp: Stop_def rangeSessions_def Let_def dest: s2 split: prod.splits)
  note fold = closeSessions_fold [OF wf2 d, unfolded same set_ids, OF order_refl, unfolded Let_def]
  have "tcp_wf s'" "tcp_ids s' = {}" "\<not> sv_running s'" "sv_lis s' = None" "sv_endpoint s' = sv_endpoint s"
    using fold by (simp_all add: s' tcp_wf_def tcp_ids_def)
  moreover have "sv_app s' = fold (connect_event s False) ?ids (sv_app s)" using fold by (simp add: s')
  moreover have "\<forall>i sess. map_of (sv_heap s) i = Some sess \<longrightarrow>
      map_of (sv_heap s') i = Some (if i \<in> tcp_ids s then Session_Close sess else sess)"
    using fold by (simp add: s')
  ultimately show ?thesis using d set_ids by blast
qed

lemma packet_bytes_unmarshal:
  "packet_bytes bo t payload = Inr (PutUint32 bo t @ (case payload of None \<Rightarrow> [] | Some b \<Rightarrow> b))"
  "NetPacket_Unmarshal bo (PutUint32 bo t @ body) = Inr \<lparr>np_Type = t, np_Payload = body\<rparr>"
proof -
  have "PutUint32 bo t @ body \<noteq> []" using length_PutUint32 [of bo t] by (cases "PutUint32 bo t") auto
  then show "NetPacket_Unmarshal bo (PutUint32 bo t @ body) = Inr \<lparr>np_Type = t, np_Payload = body\<rparr>"
    by (simp add: NetPacket_Unmarshal_def)
qed (simp add: packet_bytes_def NetPacket_Marshal_def)

text \<open>The law of a codec when the target is an interface variable that holds a pointer to \<open>t\<close>.\<close>

definition codec_into :: "codec \<Rightarrow> gotype \<Rightarrow> dyn \<Rightarrow> bytes \<Rightarrow> bool" where
  "codec_into c t msg b \<longleftrightarrow> msg \<noteq> DNil \<and> c_Marshal c msg = Inr (Some b) \<and>
     (\<forall>v. c_Unmarshal c b (any_ptr (DPtr t (Some v))) = Inr (any_ptr (DPtr t (Some msg))))"

text \<open>What the default dispatch does with a packet whose type has a handler.\<close>

lemma dispatch_typed:
  assumes "codec_into c t msg b" "sv_codec s = Some c"
    and "sv_socketRawDataHandler s \<in> {None, Some DefaultHook}"
    and "sv_netPacketUnmarshaler s \<in> {None, Some DefaultHook}"
    and "handler_of s mt = Some \<lparr>md_Handler = Some (typed_handler t f), md_Creator = Some (\<lambda>_. DPtr t (Some zero))\<rparr>"
  shows "handleSocketRawData env bo sid (PutUint32 bo mt @ b) s =
     (let (e, app) = f sid (DPtr t (Some msg)) (sv_app s) in (e, s\<lparr>sv_app := app\<rparr>))"
proof -
  have "unmarshalNetPacket env bo s (PutUint32 bo mt @ b) =
      Inr (\<lparr>md_Handler = Some (typed_handler t f), md_Creator = Some (\<lambda>_. DPtr t (Some zero))\<rparr>, DPtr t (Some msg))"
    using assms
    by (auto simp: unmarshalNetPacket_def defaultUnmarshalNetPacket_def packet_bytes_unmarshal
        GetMessageHandler_def handler_of_def MessageHandlerData_Create_def Unmarshal_def codec_into_def any_ptr_def)
  then show ?thesis
    using assms by (auto simp: handleSocketRawData_def defaultHandleSocketRawData_def typed_handler_def)
qed

text \<open>A new server without options, and a small environment to evaluate it in.\<close>

lemma NewServer_fields:
  "sv_messageHandlers (NewServer env [] app) = []" "sv_heap (NewServer env [] app) = []"
  "sv_socketRawDataHandler (NewServer env [] app) = Some DefaultHook"
  "sv_netPacketMarshaler (NewServer env [] app) = Some DefaultHook"
  "sv_netPacketUnmarshaler (NewServer env [] app) = Some DefaultHook"
  "sv_running (NewServer env [] app) = False" "sv_lis (NewServer env [] app) = None"
  "sv_endpoint (NewServer env [] app) = None" "sv_address (NewServer env [] app) = '':0''"
  "sv_network (NewServer env [] app) = ''tcp''" "sv_tlsConf (NewServer env [] app) = None"
  "sm_sessions (sv_sessionManager (NewServer env [] app)) = []"
  "sm_observer (sv_sessionManager (NewServer env [] app))"
  "sv_socketConnectHandler (NewServer env [] app) = None" "sv_app (NewServer env [] app) = app"
  "e_GetCodec env ''json'' = Some c \<Longrightarrow> sv_codec (NewServer env [] app) = Some c"
  by (simp_all add: NewServer_def Server_init_def Let_def RegisterObserver_def NewSessionManager_def)

definition test_codec :: codec where
  "test_codec = \<lparr>c_Marshal = (\<lambda>v. case v of DString s \<Rightarrow> Inr (Some s) | _ \<Rightarrow> Inl (ErrNew ''unsupported'')),
     c_Unmarshal = (\<lambda>b v. Inr (any_ptr (DPtr TString (Some (DString b)))))\<rparr>"

definition test_env :: tcp_env where
  "test_env = \<lparr>e_Listen = (\<lambda>_ _. Inr (TcpListener 4711)), e_Close = None, e_ParseIP = (\<lambda>_. Some (IPv4 10 0 0 7)),
     e_Interfaces = Inr [\<lparr>if_Up = True, if_Index = 1, if_Addrs = Inr [RIPNet (IPv4 10 0 0 7) ''10.0.0.7'']\<rparr>],
     e_GetCodec = (\<lambda>_. Some test_codec), e_gob = test_codec\<rparr>"

lemma test_env_Listen: "e_Listen test_env n a = Inr (TcpListener 4711)" "e_Close test_env = None"
  by (simp_all add: test_env_def)

lemma wildcard_test: "\<exists>a. AdjustAddress (e_ParseIP test_env) (e_Interfaces test_env) '':0'' (Some (TcpListener p)) = Inr a"
  by (auto simp: AdjustAddress_def Let_def test_env_def split: sum.splits)

lemma test_codec_into: "codec_into test_codec TString (DString b) b"
  by (simp add: codec_into_def test_codec_def)

section \<open>Properties\<close>

text \<open>
  Handlers are dispatched by message type. A packet whose type has no handler, or that is shorter
  than its type field, is answered with an error and no handler runs; of several registrations of a type
  the first is kept until the type is deregistered, and registering again after that takes effect.
\<close>

theorem tcp_handler_dispatch:
  assumes "gomap_wf (sv_messageHandlers s)"
    and "sv_socketRawDataHandler s \<in> {None, Some DefaultHook}"
    and "sv_netPacketUnmarshaler s \<in> {None, Some DefaultHook}"
  shows "(length buf < 4 \<longrightarrow> (\<exists>e. handleSocketRawData env bo sid buf s = (Some e, s)))
    \<and> (handler_of s t = None \<longrightarrow> handleSocketRawData env bo sid (PutUint32 bo t @ body) s =
           (Some (ErrNew (''['' @ Itoa (unat t) @ ''] message handler not found'')), s))
    \<and> handler_of (RegisterMessageHandler t g2 b2 (RegisterMessageHandler t g1 b1 s)) t =
           (if handler_of s t = None then Some \<lparr>md_Handler = g1, md_Creator = b1\<rparr> else handler_of s t)
    \<and> handler_of (RegisterMessageHandler t g1 b1 (DeregisterMessageHandler t s)) =
           (handler_of s)(t \<mapsto> \<lparr>md_Handler = g1, md_Creator = b1\<rparr>)"
proof (intro conjI impI)
  assume "length buf < 4"
  then show "\<exists>e. handleSocketRawData env bo sid buf s = (Some e, s)"
    using assms(2,3)
    by (auto simp: handleSocketRawData_def defaultHandleSocketRawData_def unmarshalNetPacket_def
        defaultUnmarshalNetPacket_def NetPacket_Unmarshal_def)
next
  assume "handler_of s t = None"
  then show "handleSocketRawData env bo sid (PutUint32 bo t @ body) s =
      (Some (ErrNew (''['' @ Itoa (unat t) @ ''] message handler not found'')), s)"
    using assms(2,3)
    by (auto simp: handleSocketRawData_def defaultHandleSocketRawData_def unmarshalNetPacket_def
        defaultUnmarshalNetPacket_def packet_bytes_unmarshal GetMessageHandler_def handler_of_def)
next
  let ?h1 = "\<lparr>md_Handler = g1, md_Creator = b1\<rparr>" and ?h2 = "\<lparr>md_Handler = g2, md_Creator = b2\<rparr>"
  show "handler_of (RegisterMessageHandler t g2 b2 (RegisterMessageHandler t g1 b1 s)) t =
      (if handler_of s t = None then Some ?h1 else handler_of s t)"
    using tcp_handlers.lookup_fold_register [OF assms(1), of "[(t, ?h1), (t, ?h2)]"]
    by (simp add: map_add_def split: option.splits)
  show "handler_of (RegisterMessageHandler t g1 b1 (DeregisterMessageHandler t s)) = (handler_of s)(t \<mapsto> ?h1)"
    using tcp_handlers.register_after_remove [OF assms(1), of t ?h1] by simp
qed

theorem tcp_handler_dispatch_witness:
  "fst (handleSocketRawData test_env LittleEndian ''s'' (PutUint32 LittleEndian 7 @ ''x'')
      (NewServer test_env [] ())) = Some (ErrNew (''['' @ Itoa 7 @ ''] message handler not found''))"
proof -
  let ?s = "NewServer test_env [] () :: unit tcp_server"
  have "gomap_wf (sv_messageHandlers ?s)" "sv_socketRawDataHandler ?s \<in> {None, Some DefaultHook}"
    "sv_netPacketUnmarshaler ?s \<in> {None, Some DefaultHook}" "handler_of ?s 7 = None"
    by (simp_all add: NewServer_fields handler_of_def)
  from tcp_handler_dispatch [OF this(1-3), of "[]" test_env LittleEndian "''s''" 7] this(4) show ?thesis
    by simp
qed

text \<open>
  C10: a typed handler registered for a message type is run on a pointer to exactly the value that was
  sent. When \<open>SendMessage\<close> is called for a session of the table and the session's channel takes the message, it returns no error and appends one byte string to the queue of that session
  and leaves the other sessions alone; when a peer with the same codec and byte order, on which the type was not registered before, registers the typed handler and gets that
  byte string, it calls the handler once, with its own result. Hypotheses: the codec decodes what it encoded into a new value of the type, and packets are neither marshalled on
  the one side nor handled or unmarshalled on the other by hooks of the application.
\<close>

theorem tcp_typed_dispatch_roundtrip:
  assumes "codec_into c t msg b" and "sv_codec s = Some c" and "sv_codec r = Some c"
    and "sv_netPacketMarshaler s \<in> {None, Some DefaultHook}"
    and "sv_socketRawDataHandler r \<in> {None, Some DefaultHook}"
    and "sv_netPacketUnmarshaler r \<in> {None, Some DefaultHook}" and "handler_of r mt = None"
    and "getSession (sv_sessionManager s) to = Some i" and "map_of (sv_heap s) i = Some sess" and "oc sess = SendQueued"
  shows "\<exists>buf s' sess'. Server_SendMessage env bo oc to mt msg s = (None, s')
     \<and> map_of (sv_heap s') i = Some sess' \<and> s_send sess' = s_send sess @ [buf] \<and> (\<forall>j. j \<noteq> i \<longrightarrow> map_of (sv_heap s') j = map_of (sv_heap s) j)
     \<and> handleSocketRawData env bo sid buf (RegisterServerMessageHandler t zero mt f r) =
         (let (e, app) = f sid (DPtr t (Some msg)) (sv_app r)
          in (e, (RegisterServerMessageHandler t zero mt f r)\<lparr>sv_app := app\<rparr>))"
proof -
  let ?r = "RegisterServerMessageHandler t zero mt f r" and ?buf = "PutUint32 bo mt @ b"
  have m: "marshalNetPacket env bo s mt msg = Inr ?buf"
    using assms(1,2,4)
    by (auto simp: marshalNetPacket_def defaultMarshalNetPacket_def codec_into_def Marshal_def
        packet_bytes_unmarshal)
  have "handler_of ?r mt =
      Some \<lparr>md_Handler = Some (typed_handler t f), md_Creator = Some (\<lambda>_. DPtr t (Some zero))\<rparr>"
    and fields: "sv_codec ?r = Some c" "sv_socketRawDataHandler ?r = sv_socketRawDataHandler r"
      "sv_netPacketUnmarshaler ?r = sv_netPacketUnmarshaler r" "sv_app ?r = sv_app r"
    using assms(3,7) by (simp_all add: RegisterServerMessageHandler_def RegisterMessageHandler_def handler_of_def)
  then have d: "handleSocketRawData env bo sid ?buf ?r = (let (e, app) = f sid (DPtr t (Some msg)) (sv_app r) in (e, ?r\<lparr>sv_app := app\<rparr>))"
    using dispatch_typed [of c t msg b ?r mt f zero env bo sid] assms by simp
  let ?sess = "Session_SendMessage SendQueued ?buf sess"
  have "Server_SendMessage env bo oc to mt msg s = (None, s\<lparr>sv_heap := gomap_put i ?sess (sv_heap s)\<rparr>)"
    using m assms(8-10) by (simp add: Server_SendMessage_def SendRawData_def session_send_def)
  moreover have "s_send ?sess = s_send sess @ [?buf]" by (simp add: Session_SendMessage_def)
  ultimately show ?thesis
    using d by (intro exI [of _ ?buf] exI [of _ "s\<lparr>sv_heap := gomap_put i ?sess (sv_heap s)\<rparr>"] exI [of _ ?sess]) simp
qed

theorem tcp_typed_dispatch_roundtrip_witness:
  "\<exists>buf s' sess'. Server_SendMessage test_env BigEndian (\<lambda>_. SendQueued) ''a'' 7 (DString ''hi'')
        ((NewServer test_env [] ([] :: dyn list))\<lparr>sv_sessionManager := addSession id (Some ''a'') (NewSessionManager False),
           sv_heap := [(''a'', the (NewSession ''a'' False True))]\<rparr>) = (None, s')
     \<and> map_of (sv_heap s') ''a'' = Some sess' \<and> s_send sess' = [buf]
     \<and> sv_app (snd (handleSocketRawData test_env BigEndian ''s'' buf
       (RegisterServerMessageHandler TString (DString '''') 7 (\<lambda>_ v app. (None, app @ [v]))
         (NewServer test_env [] [])))) = [DPtr TString (Some (DString ''hi''))]"
proof -
  let ?r = "NewServer test_env [] ([] :: dyn list)"
  let ?s = "?r\<lparr>sv_sessionManager := addSession id (Some ''a'') (NewSessionManager False), sv_heap := [(''a'', the (NewSession ''a'' False True))]\<rparr>"
  have c: "sv_codec ?s = Some test_codec" "sv_codec ?r = Some test_codec" by (simp_all add: NewServer_fields test_env_def)
  have "getSession (sv_sessionManager ?s) ''a'' = Some ''a''" "map_of (sv_heap ?s) ''a'' = Some (the (NewSession ''a'' False True))"
    by (simp_all add: getSession_def addSession_def NewSessionManager_def)
  from tcp_typed_dispatch_roundtrip [OF test_codec_into c _ _ _ _ this, where mt = 7 and env = test_env and bo = BigEndian and oc = "\<lambda>_. SendQueued"
      and sid = "''s''" and zero = "DString ''''" and f = "\<lambda>_ v app. (None, app @ [v])" and b = "''hi''"]
  obtain buf s' sess' where x: "Server_SendMessage test_env BigEndian (\<lambda>_. SendQueued) ''a'' 7 (DString ''hi'') ?s = (None, s')"
    "map_of (sv_heap s') ''a'' = Some sess'" "s_send sess' = s_send (the (NewSession ''a'' False True)) @ [buf]"
    "sv_app (snd (handleSocketRawData test_env BigEndian ''s'' buf (RegisterServerMessageHandler TString (DString '''') 7 (\<lambda>_ v app. (None, app @ [v])) ?r))) = [DPtr TString (Some (DString ''hi''))]"
    by (auto simp: NewServer_fields handler_of_def)
  moreover have "s_send (the (NewSession ''a'' False True)) = []" by (simp add: NewSession_def)
  ultimately show ?thesis by (intro exI [of _ buf] exI [of _ s'] exI [of _ sess']) simp
qed

text \<open>
  C28: \<open>Stop\<close> of a running server releases everything: the listener is gone, every session of the table
  has been closed (with its connection), the table is empty, and the connect handler was called with
  \<open>false\<close> exactly once for each session, whatever the order; a second \<open>Stop\<close> does nothing, and so does
  \<open>Start\<close> on a running server.
\<close>

theorem tcp_Stop_closes_all_sessions:
  assumes "tcp_wf s" and "sv_running s" and "Stop env s = (err, s')"
  shows "\<not> sv_running s' \<and> sv_lis s' = None \<and> tcp_ids s' = {} \<and> tcp_wf s'
       \<and> (\<forall>i\<in>tcp_ids s. \<exists>sess. map_of (sv_heap s) i = Some sess
            \<and> map_of (sv_heap s') i = Some (Session_Close sess) \<and> s_stage (Session_Close sess) = Finished)
       \<and> (\<exists>ids. distinct ids \<and> set ids = tcp_ids s \<and> sv_app s' = fold (connect_event s False) ids (sv_app s))
       \<and> Stop env s' = (None, s') \<and> Start env s = (None, s)"
proof -
  note st = Stop_fields [OF assms]
  have "\<exists>sess. map_of (sv_heap s) i = Some sess \<and> map_of (sv_heap s') i = Some (Session_Close sess)"
    if i: "i \<in> tcp_ids s" for i
  proof -
    obtain sess where "map_of (sv_heap s) i = Some sess"
      using assms(1) i by (auto simp: tcp_wf_def tcp_ids_def getSession_eq)
    then show ?thesis using st i by simp
  qed
  then show ?thesis
    using st assms(2) by (auto simp: Stop_def Start_def Session_Close_fields)
qed

theorem tcp_Stop_closes_all_sessions_witness:
  "\<exists>(s :: unit tcp_server) s'. tcp_ids s = {''a''} \<and> Stop test_env s = (None, s') \<and> tcp_ids s' = {} \<and> \<not> sv_running s'"
proof -
  let ?new = "NewServer test_env [] ()"
  have wf0: "tcp_wf ?new" by (simp add: tcp_wf_def NewServer_fields)
  let ?acc = "accept_session ''a'' ?new" and ?run = "(accept_session ''a'' ?new)\<lparr>sv_running := True\<rparr>"
  have "tcp_wf ?acc" "tcp_ids ?acc = insert ''a'' (tcp_ids ?new)"
    by (rule tcp_wf_accept [OF wf0], simp add: NewServer_fields)+
  moreover have "tcp_ids ?new = {}" by (simp add: tcp_ids_def getSession_eq NewServer_fields)
  ultimately have "tcp_wf ?acc" "tcp_ids ?acc = {''a''}" by simp_all
  then have wf: "tcp_wf ?run \<and> tcp_ids ?run = {''a''} \<and> sv_running ?run" unfolding tcp_wf_def tcp_ids_def by simp_all
  then obtain s :: "unit tcp_server" where s: "tcp_wf s" "tcp_ids s = {''a''}" "sv_running s" by blast
  obtain err s' where st: "Stop test_env s = (err, s')" by force
  then have "err = None"
    using s(3) by (auto simp: Stop_def Let_def test_env_Listen split: option.splits)
  with tcp_Stop_closes_all_sessions [OF s(1,3) st] s(2) st show ?thesis by blast
qed

text \<open>
  \<open>Start\<close> starts the accept loop before it sets \<open>running\<close>, and the loop's first act is to read
  \<open>running\<close>. So \<open>Start\<close> can return nil with the server marked as running and its listener open, although
  the accept loop has already ended: no connection is ever accepted, and calling \<open>Start\<close> again does
  nothing.
\<close>

theorem tcp_Start_can_lose_accept_loop:
  assumes "\<not> sv_running s" and "listenAndEndpoint env s = (None, s1)"
  shows "\<exists>s'. (start_step env)\<^sup>*\<^sup>* (s, StartCalled, NoLoop) (s', StartReturned None, LoopExited)
            \<and> sv_running s' \<and> sv_lis s' \<noteq> None \<and> sv_endpoint s' \<noteq> None \<and> Start env s' = (None, s')"
proof -
  let ?t = "s1\<lparr>sv_err := None, sv_acceptors := Suc (sv_acceptors s1)\<rparr>"
  have s1: "\<not> sv_running s1" "sv_lis s1 \<noteq> None" "sv_endpoint s1 \<noteq> None"
    using assms by (auto simp: listenAndEndpoint_def split: option.splits sum.splits if_splits)
  have "start_step env (s, StartCalled, NoLoop) (?t, StartSpawned, LoopHead)"
    using assms by (intro start_step.spawn) (simp_all add: Start_spawn_def)
  moreover have "start_step env (?t, StartSpawned, LoopHead) (?t, StartSpawned, LoopExited)"
    using start_step.head [of env ?t StartSpawned] s1 by (simp add: doAccept_head_def)
  moreover have "start_step env (?t, StartSpawned, LoopExited) (Start_publish ?t, StartReturned None, LoopExited)"
    by (rule start_step.publish)
  ultimately have "(start_step env)\<^sup>*\<^sup>* (s, StartCalled, NoLoop) (Start_publish ?t, StartReturned None, LoopExited)"
    by (meson converse_rtranclp_into_rtranclp rtranclp.rtrancl_refl)
  moreover have "sv_running (Start_publish ?t) \<and> sv_lis (Start_publish ?t) \<noteq> None
      \<and> sv_endpoint (Start_publish ?t) \<noteq> None"
    using s1 by (simp add: Start_publish_def)
  ultimately show ?thesis by (auto simp: Start_def)
qed

theorem tcp_Start_can_lose_accept_loop_witness:
  "\<exists>s'. (start_step test_env)\<^sup>*\<^sup>* (NewServer test_env [] (), StartCalled, NoLoop) (s', StartReturned None, LoopExited)
     \<and> sv_running s' \<and> sv_lis s' \<noteq> None"
proof -
  let ?s = "NewServer test_env [] ()"
  have "\<not> sv_running ?s" by (simp add: NewServer_fields)
  moreover obtain r s1 where r: "listenAndEndpoint test_env ?s = (r, s1)" by force
  moreover obtain a where "AdjustAddress (e_ParseIP test_env) (e_Interfaces test_env) '':0''
      (Some (TcpListener 4711)) = Inr a"
    using wildcard_test by blast
  then have "r = None" using r by (simp add: listenAndEndpoint_def NewServer_fields test_env_Listen)
  ultimately show ?thesis using tcp_Start_can_lose_accept_loop [of ?s test_env s1] by blast
qed

text \<open>
  Restarting a server announces the address of its first run: \<open>Stop\<close> clears the listener but not the
  endpoint, so after \<open>Stop\<close> and \<open>Start\<close> the server listens where the system put the new listener while
  \<open>Endpoint\<close> still returns the old address.
\<close>

theorem tcp_restart_keeps_old_endpoint:
  assumes "tcp_wf s" and "sv_running s" and "sv_endpoint s = Some u"
    and "Stop env s = (err, s1)" and "Start env s1 = (None, s2)"
    and "e_Listen env (sv_network s1) (sv_address s1) = Inr lis"
  shows "sv_running s2 \<and> (\<exists>tls. sv_lis s2 = Some (lis, tls)) \<and> fst (Endpoint env s2) = Inr u"
proof -
  have lis: "sv_lis s1 = None" and ep: "sv_endpoint s1 = Some u" and nr: "\<not> sv_running s1"
    using Stop_fields [OF assms(1,2,4)] assms(3) by simp_all
  then show ?thesis
    using assms(5,6) by (auto simp: Start_def Start_spawn_def Start_publish_def listenAndEndpoint_def Endpoint_def)
qed

theorem tcp_restart_keeps_old_endpoint_witness:
  "\<exists>(s :: unit tcp_server) s1 s2. sv_endpoint s = Some (NewRegistryEndpoint KindTcp ''10.0.0.7:80'')
     \<and> Stop test_env s = (None, s1) \<and> Start test_env s1 = (None, s2)
     \<and> sv_lis s2 = Some (TcpListener 4711, False)
     \<and> fst (Endpoint test_env s2) = Inr (NewRegistryEndpoint KindTcp ''10.0.0.7:80'')"
proof -
  let ?u = "NewRegistryEndpoint KindTcp ''10.0.0.7:80''"
  let ?r = "(NewServer test_env [] ())\<lparr>sv_running := True, sv_lis := Some (TcpListener 80, False),
      sv_endpoint := Some ?u\<rparr>"
  have wf: "tcp_wf ?r" by (simp add: tcp_wf_def NewServer_fields)
  have sess: "sm_sessions (sv_sessionManager ?r) = []" by (simp add: NewServer_fields)
  define s1 where "s1 = ?r\<lparr>sv_running := False, sv_lis := None, sv_err := None\<rparr>"
  have st: "Stop test_env ?r = (None, s1)"
    by (simp add: Stop_def Let_def rangeSessions_def NewServer_fields s1_def test_env_Listen)
  define s2 where "s2 = s1\<lparr>sv_lis := Some (TcpListener 4711, False), sv_acceptors := Suc (sv_acceptors s1),
      sv_running := True\<rparr>"
  have lis: "e_Listen test_env (sv_network s1) (sv_address s1) = Inr (TcpListener 4711)"
    by (simp add: test_env_def)
  have go: "Start test_env s1 = (None, s2)"
    using lis by (simp add: Start_def Start_spawn_def Start_publish_def listenAndEndpoint_def s1_def s2_def
        NewServer_fields)
  have "fst (Endpoint test_env s2) = Inr ?u"
    using tcp_restart_keeps_old_endpoint [OF wf _ _ st go lis] by simp
  then show ?thesis using st go
    by (intro exI [of _ ?r] exI [of _ s1] exI [of _ s2]) (simp add: s2_def)
qed

end
