(* ===== verification/Tcp_Client.thy ===== *)
theory Tcp_Client
  imports Tcp_Server
begin

text \<open>
  The TCP client: \<open>transport/tcp/client.go\<close> and \<open>client_options.go\<close>. A connection is a number; the client
  keeps the current one, \<open>cl_closed\<close> lists the connections that were closed and \<open>cl_sent\<close> what was written
  to each. The read loop of a connection is the function \<open>run\<close> on what that connection delivers.
\<close>

section \<open>State and options\<close>

record 'st ClientHandlerData =
  cd_Handler :: "(dyn \<Rightarrow> 'st \<Rightarrow> error option \<times> 'st) option"
  cd_Creator :: "(unit \<Rightarrow> dyn) option"

record 'st tcp_client =
  cl_conn :: "nat option"
  cl_url :: string
  cl_endpoint :: "string option"
  cl_codec :: "codec option"
  cl_messageHandlers :: "(32 word, 'st ClientHandlerData) gomap"
  cl_rawMessageHandler :: "(bytes \<Rightarrow> 'st \<Rightarrow> error option \<times> 'st) option"
  cl_closed :: "nat list"
  cl_sent :: "(nat \<times> bytes) list"
  cl_app :: 'st

definition WithClientCodec :: "tcp_env \<Rightarrow> string \<Rightarrow> 'st tcp_client \<Rightarrow> 'st tcp_client" where
  "WithClientCodec env codec c = c\<lparr>cl_codec := e_GetCodec env codec\<rparr>"

definition WithEndpoint :: "string \<Rightarrow> 'st tcp_client \<Rightarrow> 'st tcp_client" where
  "WithEndpoint uri c = c\<lparr>cl_url := uri\<rparr>"

definition WithClientRawDataHandler ::
    "(bytes \<Rightarrow> 'st \<Rightarrow> error option \<times> 'st) option \<Rightarrow> 'st tcp_client \<Rightarrow> 'st tcp_client" where
  "WithClientRawDataHandler h c = c\<lparr>cl_rawMessageHandler := h\<rparr>"

text \<open>\<open>parse\<close> is \<open>url.Parse\<close> followed by \<open>String\<close>: \<open>None\<close> when the URL is malformed.\<close>

definition Client_init ::
    "(string \<Rightarrow> string option) \<Rightarrow> ('st tcp_client \<Rightarrow> 'st tcp_client) list \<Rightarrow> 'st tcp_client \<Rightarrow> 'st tcp_client" where
  "Client_init parse opts c =
     (let c1 = fold (\<lambda>opt c. opt c) opts c in c1\<lparr>cl_endpoint := parse (cl_url c1)\<rparr>)"

definition NewClient ::
    "tcp_env \<Rightarrow> (string \<Rightarrow> string option) \<Rightarrow> ('st tcp_client \<Rightarrow> 'st tcp_client) list \<Rightarrow> 'st \<Rightarrow> 'st tcp_client" where
  "NewClient env parse opts app =
     Client_init parse opts
       \<lparr>cl_conn = None, cl_url = '''', cl_endpoint = None, cl_codec = e_GetCodec env ''json'',
        cl_messageHandlers = [], cl_rawMessageHandler = None, cl_closed = [], cl_sent = [], cl_app = app\<rparr>"

section \<open>Connecting\<close>

text \<open>\<open>dial\<close> is the result of \<open>net.Dial\<close>: an error or the new connection.\<close>

definition Connect :: "error + nat \<Rightarrow> 'st tcp_client \<Rightarrow> error option \<times> 'st tcp_client" where
  "Connect dial c =
     (case cl_endpoint c of
        None \<Rightarrow> (Some (ErrNew ''endpoint is nil''), c)
      | Some u \<Rightarrow> (case dial of
                    Inl e \<Rightarrow> (Some e, c)
                  | Inr conn \<Rightarrow> (None, c\<lparr>cl_conn := Some conn\<rparr>)))"

definition Disconnect :: "'st tcp_client \<Rightarrow> 'st tcp_client" where
  "Disconnect c =
     (case cl_conn c of
        None \<Rightarrow> c
      | Some conn \<Rightarrow> c\<lparr>cl_conn := None, cl_closed := cl_closed c @ [conn]\<rparr>)"

section \<open>Handlers and sending\<close>

definition Client_RegisterMessageHandler ::
    "32 word \<Rightarrow> (dyn \<Rightarrow> 'st \<Rightarrow> error option \<times> 'st) option \<Rightarrow> (unit \<Rightarrow> dyn) option \<Rightarrow> 'st tcp_client \<Rightarrow> 'st tcp_client"
where
  "Client_RegisterMessageHandler messageType handler binder c =
     (if map_of (cl_messageHandlers c) messageType \<noteq> None then c
      else c\<lparr>cl_messageHandlers :=
               gomap_put messageType \<lparr>cd_Handler = handler, cd_Creator = binder\<rparr> (cl_messageHandlers c)\<rparr>)"

definition client_typed_handler ::
    "gotype \<Rightarrow> (dyn \<Rightarrow> 'st \<Rightarrow> error option \<times> 'st) \<Rightarrow> dyn \<Rightarrow> 'st \<Rightarrow> error option \<times> 'st" where
  "client_typed_handler t handler payload app =
     (if typeof payload = Some (TPtr t) then handler payload app
      else (Some (ErrNew ''invalid payload struct type''), app))"

definition RegisterClientMessageHandler ::
    "gotype \<Rightarrow> dyn \<Rightarrow> 32 word \<Rightarrow> (dyn \<Rightarrow> 'st \<Rightarrow> error option \<times> 'st) \<Rightarrow> 'st tcp_client \<Rightarrow> 'st tcp_client" where
  "RegisterClientMessageHandler t zero messageType handler c =
     Client_RegisterMessageHandler messageType (Some (client_typed_handler t handler))
       (Some (\<lambda>_. DPtr t (Some zero))) c"

definition Client_DeregisterMessageHandler :: "32 word \<Rightarrow> 'st tcp_client \<Rightarrow> 'st tcp_client" where
  "Client_DeregisterMessageHandler messageType c =
     c\<lparr>cl_messageHandlers := gomap_delete messageType (cl_messageHandlers c)\<rparr>"

text \<open>\<open>wr\<close> is the error of \<open>conn.Write\<close>, if it fails; the write lock makes one frame one write.\<close>

definition Client_SendRawData ::
    "byteOrder \<Rightarrow> error option \<Rightarrow> bytes \<Rightarrow> 'st tcp_client \<Rightarrow> error option \<times> 'st tcp_client" where
  "Client_SendRawData bo wr message c =
     (case cl_conn c of
        None \<Rightarrow> (Some (ErrNew ''client is not connected''), c)
      | Some conn \<Rightarrow>
          (case WriteFrame bo message of
             Inl e \<Rightarrow> (Some e, c)
           | Inr b \<Rightarrow> (case wr of
                        Some e \<Rightarrow> (Some e, c)
                      | None \<Rightarrow> (None, c\<lparr>cl_sent := cl_sent c @ [(conn, b)]\<rparr>))))"

text \<open>\<open>messageType\<close> is an \<open>int\<close> and converted to the 32-bit \<open>NetMessageType\<close>.\<close>

definition Client_SendMessage ::
    "tcp_env \<Rightarrow> byteOrder \<Rightarrow> error option \<Rightarrow> int \<Rightarrow> dyn \<Rightarrow> 'st tcp_client \<Rightarrow> error option \<times> 'st tcp_client" where
  "Client_SendMessage env bo wr messageType message c =
     (case Marshal (e_gob env) (cl_codec c) message of
        Inl e \<Rightarrow> (Some e, c)
      | Inr payload \<Rightarrow>
          (case packet_bytes bo (word_of_int messageType) payload of
             Inl e \<Rightarrow> (Some e, c)
           | Inr buff \<Rightarrow> Client_SendRawData bo wr buff c))"

section \<open>Receiving\<close>

definition messageHandler :: "tcp_env \<Rightarrow> byteOrder \<Rightarrow> bytes \<Rightarrow> 'st tcp_client \<Rightarrow> error option \<times> 'st tcp_client" where
  "messageHandler env bo buf c =
     (case NetPacket_Unmarshal bo buf of
        Inl e \<Rightarrow> (Some e, c)
      | Inr msg \<Rightarrow>
          (case map_of (cl_messageHandlers c) (np_Type msg) of
             None \<Rightarrow> (Some (ErrNew ''message handler not found''), c)
           | Some h \<Rightarrow>
               (case (case cd_Creator h of
                        Some cr \<Rightarrow>
                          (case Unmarshal (e_gob env) (cl_codec c) (Some (np_Payload msg)) (any_ptr (cr ())) of
                             Inl e \<Rightarrow> Inl e
                           | Inr v \<Rightarrow> Inr (any_deref v (cr ())))
                      | None \<Rightarrow> Inr (DBytes (Some (np_Payload msg)))) of
                  Inl e \<Rightarrow> (Some e, c)
                | Inr payload \<Rightarrow>
                    (case cd_Handler h of
                       None \<Rightarrow> (Some (GoPanic ''nil handler''), c)
                     | Some f \<Rightarrow> (let (e, app) = f payload (cl_app c) in (e, c\<lparr>cl_app := app\<rparr>))))))"

text \<open>One turn of the read loop on a frame: errors are logged and the loop goes on.\<close>

definition run_dispatch :: "tcp_env \<Rightarrow> byteOrder \<Rightarrow> bytes \<Rightarrow> 'st tcp_client \<Rightarrow> 'st tcp_client" where
  "run_dispatch env bo frame c =
     (case cl_rawMessageHandler c of
        Some f \<Rightarrow> c\<lparr>cl_app := snd (f frame (cl_app c))\<rparr>
      | None \<Rightarrow> snd (messageHandler env bo frame c))"

text \<open>The deferred function of \<open>run\<close>: only this connection is forgotten and closed.\<close>

definition run_exit :: "nat \<Rightarrow> 'st tcp_client \<Rightarrow> 'st tcp_client" where
  "run_exit conn c =
     (let c1 = (if cl_conn c = Some conn then c\<lparr>cl_conn := None\<rparr> else c)
      in c1\<lparr>cl_closed := cl_closed c1 @ [conn]\<rparr>)"

lemma read_frame_bytes_shrinks: "read_frame_bytes bo bs = Inr (p, rest) \<Longrightarrow> length rest < length bs"
  by (auto simp: read_frame_bytes_def read_full_bytes_def Let_def split: if_splits)

lemma ReadFrame_shrinks: "ReadFrame bo cs = Inr (f, cs') \<Longrightarrow> length (concat cs') < length (concat cs)"
  using ReadFrame_bytes [of bo cs] read_frame_bytes_shrinks [of bo "concat cs" f "concat cs'"] by simp

function run_loop :: "tcp_env \<Rightarrow> byteOrder \<Rightarrow> conn_in \<Rightarrow> 'st tcp_client \<Rightarrow> 'st tcp_client" where
  "run_loop env bo cs c =
     (case ReadFrame bo cs of
        Inl e \<Rightarrow> c
      | Inr (frame, cs') \<Rightarrow> run_loop env bo cs' (run_dispatch env bo frame c))"
  by pat_completeness auto
termination
  by (relation "measure (\<lambda>(env, bo, cs, c). length (concat cs))")
    (auto dest: ReadFrame_shrinks simp del: length_concat)

declare run_loop.simps [simp del]

definition Client_run :: "tcp_env \<Rightarrow> byteOrder \<Rightarrow> conn_in \<Rightarrow> 'st tcp_client \<Rightarrow> 'st tcp_client" where
  "Client_run env bo cs c =
     (case cl_conn c of None \<Rightarrow> c | Some conn \<Rightarrow> run_exit conn (run_loop env bo cs c))"

section \<open>Lemmas\<close>

definition client_handler_of :: "'st tcp_client \<Rightarrow> 32 word \<Rightarrow> 'st ClientHandlerData option" where
  "client_handler_of c t = map_of (cl_messageHandlers c) t"

lemma client_handler_of_eq: "client_handler_of c = map_of (cl_messageHandlers c)"
  by (simp add: fun_eq_iff client_handler_of_def)

interpretation client_handlers: first_wins_store client_handler_of Client_DeregisterMessageHandler
    "\<lambda>c. gomap_keys (cl_messageHandlers c)" "\<lambda>c. gomap_wf (cl_messageHandlers c)"
    "\<lambda>t h. Client_RegisterMessageHandler t (cd_Handler h) (cd_Creator h)"
  by unfold_locales
    (auto simp: client_handler_of_eq Client_DeregisterMessageHandler_def Client_RegisterMessageHandler_def
      gomap_simps gomap_keys_def dom_gomap)

lemma ReadFrame_of_bytes:
  assumes "read_frame_bytes bo (concat cs) = Inr (p, rest)"
  obtains cs' where "ReadFrame bo cs = Inr (p, cs')" "concat cs' = rest"
  using assms ReadFrame_bytes [of bo cs] by (cases "ReadFrame bo cs") auto

text \<open>The loop handles exactly the frames that were written, however they are cut into pieces.\<close>

lemma run_loop_frames:
  assumes "list_all (\<lambda>p. length p \<le> maxFrameSize) ps"
    and "concat cs = concat (map (frame_bytes bo) ps) @ rest" and "read_frame_bytes bo rest = Inl e"
  shows "run_loop env bo cs c = fold (run_dispatch env bo) ps c"
  using assms
proof (induction ps arbitrary: cs c)
  case Nil
  then have "ReadFrame bo cs = Inl e" using ReadFrame_bytes [of bo cs] by (cases "ReadFrame bo cs") auto
  then show ?case by (simp add: run_loop.simps [of env bo cs])
next
  case (Cons p ps)
  then have "read_frame_bytes bo (concat cs) = Inr (p, concat (map (frame_bytes bo) ps) @ rest)"
    using tcp_frames.rd_wr [of p bo] by simp
  then obtain cs' where "ReadFrame bo cs = Inr (p, cs')" "concat cs' = concat (map (frame_bytes bo) ps) @ rest"
    by (rule ReadFrame_of_bytes)
  then show ?case using Cons.IH [of cs'] Cons.prems by (simp add: run_loop.simps [of env bo cs])
qed

lemma Client_SendMessage_wire:
  assumes "codec_into cd t msg b" and "cl_codec c = Some cd" and "cl_conn c = Some conn"
    and "length b + 4 \<le> maxFrameSize"
  shows "Client_SendMessage env bo None mt msg c =
     (None, c\<lparr>cl_sent := cl_sent c @ [(conn, frame_bytes bo (PutUint32 bo (word_of_int mt) @ b))]\<rparr>)"
  using assms
  by (simp add: Client_SendMessage_def codec_into_def Marshal_def packet_bytes_unmarshal
      Client_SendRawData_def frame_bytes_def WriteFrame_def)

lemma client_dispatch_typed:
  assumes "codec_into cd t msg b" and "cl_codec c = Some cd" and "cl_rawMessageHandler c = None"
    and "client_handler_of c mt =
      Some \<lparr>cd_Handler = Some (client_typed_handler t f), cd_Creator = Some (\<lambda>_. DPtr t (Some zero))\<rparr>"
  shows "run_dispatch env bo (PutUint32 bo mt @ b) c = c\<lparr>cl_app := snd (f (DPtr t (Some msg)) (cl_app c))\<rparr>"
  using assms
  by (simp add: run_dispatch_def messageHandler_def packet_bytes_unmarshal client_handler_of_def
      Unmarshal_def codec_into_def any_ptr_def client_typed_handler_def case_prod_beta Let_def)

section \<open>Properties\<close>

text \<open>
  C30: a TCP client and a server that share codec and byte order exchange typed messages: the bytes that one
  \<open>SendMessage\<close> of the client writes, cut into pieces in any way by the network, are read back by the
  server as one frame whose dispatch runs the handler registered for that message type on a pointer to
  the value sent, with the handler's error and its effect on the application. The \<open>int\<close> message type of the client is taken modulo
  \<open>2 ^ 32\<close>. The hypotheses: the codec decodes what it encoded for this value, the client is connected and its write succeeds, the encoded
  value with the type fits into a frame, the server has no raw data hook and no packet unmarshaler of its own, and a typed
  handler is registered for the type.
\<close>

theorem tcp_client_to_server:
  assumes "codec_into cd t msg b" and "cl_codec c = Some cd" and "cl_conn c = Some conn"
    and "length b + 4 \<le> maxFrameSize" and "sv_codec s = Some cd"
    and "sv_socketRawDataHandler s \<in> {None, Some DefaultHook}"
    and "sv_netPacketUnmarshaler s \<in> {None, Some DefaultHook}"
    and "handler_of s (word_of_int mt) =
      Some \<lparr>md_Handler = Some (typed_handler t f), md_Creator = Some (\<lambda>_. DPtr t (Some zero))\<rparr>"
  shows "\<exists>wire. Client_SendMessage env bo None mt msg c = (None, c\<lparr>cl_sent := cl_sent c @ [(conn, wire)]\<rparr>) \<and>
     (\<forall>cs. concat cs = wire \<longrightarrow> (\<exists>frame cs'. ReadFrame bo cs = Inr (frame, cs') \<and> concat cs' = [] \<and>
        handleSocketRawData env bo sid frame s =
          (let (e, app) = f sid (DPtr t (Some msg)) (sv_app s) in (e, s\<lparr>sv_app := app\<rparr>))))"
proof -
  let ?buf = "PutUint32 bo (word_of_int mt) @ b"
  let ?wire = "frame_bytes bo ?buf"
  have send: "Client_SendMessage env bo None mt msg c = (None, c\<lparr>cl_sent := cl_sent c @ [(conn, ?wire)]\<rparr>)"
    by (rule Client_SendMessage_wire [OF assms(1-4)])
  have rd: "read_frame_bytes bo ?wire = Inr (?buf, [])"
    using tcp_frames.rd_wr [of ?buf bo "[]"] assms(4) by simp
  have hd: "handleSocketRawData env bo sid ?buf s =
      (let (e, app) = f sid (DPtr t (Some msg)) (sv_app s) in (e, s\<lparr>sv_app := app\<rparr>))"
    by (rule dispatch_typed [OF assms(1,5-8)])
  have "\<exists>frame cs'. ReadFrame bo cs = Inr (frame, cs') \<and> concat cs' = [] \<and>
        handleSocketRawData env bo sid frame s =
          (let (e, app) = f sid (DPtr t (Some msg)) (sv_app s) in (e, s\<lparr>sv_app := app\<rparr>))"
    if "concat cs = ?wire" for cs
    using ReadFrame_of_bytes [of bo cs ?buf "[]"] rd hd that by metis
  with send show ?thesis by blast
qed

theorem tcp_client_to_server_witness:
  "\<exists>wire. snd (Client_SendMessage test_env LittleEndian None 7 (DString ''hi'')
        ((NewClient test_env Some [] ())\<lparr>cl_conn := Some 1\<rparr>)) =
      (NewClient test_env Some [] ())\<lparr>cl_conn := Some 1, cl_sent := [(1, wire)]\<rparr>"
proof -
  let ?c = "(NewClient test_env Some [] ())\<lparr>cl_conn := Some 1\<rparr>"
  let ?s = "RegisterServerMessageHandler TString (DString '''') 7 (\<lambda>_ v app. (None, app @ [v]))
     (NewServer test_env [] ([] :: dyn list))"
  have c: "cl_codec ?c = Some test_codec" "cl_conn ?c = Some 1" "cl_sent ?c = []"
    by (simp_all add: NewClient_def Client_init_def test_env_def)
  have s: "sv_codec ?s = Some test_codec" "sv_socketRawDataHandler ?s \<in> {None, Some DefaultHook}"
    "sv_netPacketUnmarshaler ?s \<in> {None, Some DefaultHook}"
    "handler_of ?s (word_of_int 7) = Some \<lparr>md_Handler = Some (typed_handler TString (\<lambda>_ v app. (None, app @ [v]))),
       md_Creator = Some (\<lambda>_. DPtr TString (Some (DString '''')))\<rparr>"
    by (simp_all add: RegisterServerMessageHandler_def RegisterMessageHandler_def NewServer_fields handler_of_def
        test_env_def)
  have "length ''hi'' + 4 \<le> maxFrameSize" by (simp add: maxFrameSize_def)
  from tcp_client_to_server [OF test_codec_into c(1,2) this s, of test_env LittleEndian "''s''"]
  obtain wire where "Client_SendMessage test_env LittleEndian None 7 (DString ''hi'') ?c =
      (None, ?c\<lparr>cl_sent := cl_sent ?c @ [(1, wire)]\<rparr>)" by blast
  then show ?thesis unfolding c(3) by (intro exI [of _ wire]) simp
qed

text \<open>
  The client's read loop dispatches every frame the server wrote, once and in order, whatever pieces
  the network cuts them into, then forgets and closes its connection; a frame whose handler fails or
  whose type is unknown does not stop it.
\<close>

theorem client_run_handles_all_frames:
  assumes "list_all (\<lambda>p. length p \<le> maxFrameSize) ps" and "cl_conn c = Some conn"
    and "concat cs = concat (map (frame_bytes bo) ps)"
  shows "Client_run env bo cs c = run_exit conn (fold (run_dispatch env bo) ps c)"
proof -
  have "read_frame_bytes bo [] = Inl ErrEOF" by (simp add: read_frame_bytes_def read_full_bytes_def)
  then show ?thesis
    using run_loop_frames [OF assms(1), of cs bo "[]" ErrEOF env c] assms by (simp add: Client_run_def)
qed

theorem client_run_handles_all_frames_witness:
  "Client_run test_env LittleEndian [[CHR 0x01, CHR 0x00], [CHR 0x00], [CHR 0x00, CHR ''a'']]
      ((NewClient test_env Some [WithClientRawDataHandler (Some (\<lambda>b app. (None, app @ [b])))] [])\<lparr>cl_conn := Some 1\<rparr>)
    = run_exit 1 (run_dispatch test_env LittleEndian ''a''
      ((NewClient test_env Some [WithClientRawDataHandler (Some (\<lambda>b app. (None, app @ [b])))] [])\<lparr>cl_conn := Some 1\<rparr>))"
proof -
  have "PutUint32 LittleEndian 1 = [CHR 0x01, CHR 0x00, CHR 0x00, CHR 0x00]"
    by (simp add: byte_of_def char_of_def bit_0)
  then have w: "concat [[CHR 0x01, CHR 0x00], [CHR 0x00], [CHR 0x00, CHR ''a'']]
      = concat (map (frame_bytes LittleEndian) [''a''])"
    by (simp add: frame_bytes_def WriteFrame_def maxFrameSize_def)
  let ?c = "(NewClient test_env Some [WithClientRawDataHandler (Some (\<lambda>b app. (None, app @ [b])))] [])\<lparr>cl_conn := Some 1\<rparr>"
  show ?thesis
    using client_run_handles_all_frames [OF _ _ w, where c = ?c and conn = 1] by (simp add: maxFrameSize_def)
qed

text \<open>
  The read loop of an old connection does not harm a newer one: when it ends after the client has
  connected again, the new connection stays in place and only the old one is closed; when nothing was
  connected since, the client is left unconnected, so that sending reports it.
\<close>

theorem run_exit_spares_new_connection:
  assumes "cl_conn c = Some conn"
  shows "(conn \<noteq> old \<longrightarrow> cl_conn (run_exit old c) = Some conn)
       \<and> cl_closed (run_exit old c) = cl_closed c @ [old]
       \<and> fst (Client_SendRawData bo wr m (run_exit conn c)) = Some (ErrNew ''client is not connected'')"
  using assms by (simp add: run_exit_def Client_SendRawData_def Let_def)

theorem run_exit_spares_new_connection_witness:
  "cl_conn (run_exit 1 ((NewClient test_env Some [] ())\<lparr>cl_conn := Some 2\<rparr>)) = Some 2"
  using run_exit_spares_new_connection [of "(NewClient test_env Some [] ())\<lparr>cl_conn := Some 2\<rparr>" 2 1] by simp

end
