(* ===== verification/Base64.thy ===== *)
theory Base64
  imports Prelude
begin

text \<open>
  The standard base64 encoding of Go's \<open>encoding/base64\<close> (\<open>StdEncoding\<close>), which the SSE package applies to
  event data: \<open>b64_Encode\<close> with padding, and \<open>b64_Decode\<close>, which returns the bytes decoded before the
  first error and whether there was one. Line breaks in the input are skipped.
\<close>

section \<open>Definitions\<close>

definition b64_alphabet :: string where
  "b64_alphabet = ''ABCDEFGHIJKLMNOPQRSTUVWXYZabcdefghijklmnopqrstuvwxyz0123456789+/''"

definition b64_char :: "nat \<Rightarrow> char" where
  "b64_char n = b64_alphabet ! n"

definition b64_val :: "char \<Rightarrow> nat option" where
  "b64_val c = map_of (zip b64_alphabet [0..<64]) c"

fun b64_Encode :: "bytes \<Rightarrow> bytes" where
  "b64_Encode [] = []"
| "b64_Encode [a] =
     (let x = of_char a in [b64_char (x div 4), b64_char (x mod 4 * 16), CHR ''='', CHR ''=''])"
| "b64_Encode [a, b] =
     (let x = of_char a; y = of_char b in
      [b64_char (x div 4), b64_char (x mod 4 * 16 + y div 16), b64_char (y mod 16 * 4), CHR ''=''])"
| "b64_Encode (a # b # c # r) =
     (let x = of_char a; y = of_char b; z = of_char c in
      [b64_char (x div 4), b64_char (x mod 4 * 16 + y div 16), b64_char (y mod 16 * 4 + z div 64),
       b64_char (z mod 64)] @ b64_Encode r)"

text \<open>One quantum of four characters after the other; the flag is true on a corrupt input.\<close>

fun b64_quanta :: "bytes \<Rightarrow> bytes \<times> bool" where
  "b64_quanta [] = ([], False)"
| "b64_quanta (a # b # c # d # r) =
     (case (b64_val a, b64_val b) of
        (Some p, Some q) \<Rightarrow>
          (case b64_val c of
             Some s \<Rightarrow>
               (case b64_val d of
                  Some t \<Rightarrow>
                    (let (bs, err) = b64_quanta r
                     in (char_of (p * 4 + q div 16) # char_of (q mod 16 * 16 + s div 4)
                           # char_of (s mod 4 * 64 + t) # bs, err))
                | None \<Rightarrow>
                    if d = CHR ''=''
                    then ([char_of (p * 4 + q div 16), char_of (q mod 16 * 16 + s div 4)], r \<noteq> [])
                    else ([], True))
           | None \<Rightarrow>
               if c = CHR ''='' \<and> d = CHR ''='' then ([char_of (p * 4 + q div 16)], r \<noteq> [])
               else ([], True))
      | _ \<Rightarrow> ([], True))"
| "b64_quanta _ = ([], True)"

definition b64_Decode :: "bytes \<Rightarrow> bytes \<times> bool" where
  "b64_Decode s = b64_quanta (filter (\<lambda>c. c \<noteq> CHR 0x0A \<and> c \<noteq> CHR 0x0D) s)"

section \<open>Lemmas\<close>

lemma b64_alphabet_props:
  "length b64_alphabet = 64" "distinct b64_alphabet"
  "CHR 0x0A \<notin> set b64_alphabet" "CHR 0x0D \<notin> set b64_alphabet" "CHR ''='' \<notin> set b64_alphabet"
  unfolding b64_alphabet_def by simp_all

lemma b64_val_char: "n < 64 \<Longrightarrow> b64_val (b64_char n) = Some n"
  unfolding b64_val_def b64_char_def
  using b64_alphabet_props by (simp add: map_of_zip_nth)

lemma b64_val_pad: "b64_val (CHR ''='') = None"
  unfolding b64_val_def using b64_alphabet_props by (simp add: map_of_zip_is_None)

lemma b64_char_in: "n < 64 \<Longrightarrow> b64_char n \<in> set b64_alphabet"
  unfolding b64_char_def by (intro nth_mem) (simp add: b64_alphabet_props)

lemma byte_lt: "(of_char (c :: char) :: nat) < 256"
  by (metis of_char_mod_256 mod_less_divisor zero_less_numeral)

lemma sextets:
  fixes x y z :: nat
  assumes "x < 256" "y < 256" "z < 256"
  shows "x div 4 < 64" "x mod 4 * 16 < 64" "y mod 16 * 4 < 64" "z mod 64 < 64"
    "x mod 4 * 16 + y div 16 < 64" "y mod 16 * 4 + z div 64 < 64"
proof -
  have "x mod 4 < 4" "y mod 16 < 16" "y div 16 < 16" "z div 64 < 4" using assms by simp_all
  then show "x mod 4 * 16 < 64" "y mod 16 * 4 < 64" "x mod 4 * 16 + y div 16 < 64" "y mod 16 * 4 + z div 64 < 64"
    by linarith+
qed (use assms in simp_all)

lemma octets:
  fixes x y z :: nat
  assumes "x < 256" "y < 256" "z < 256"
  shows "x div 4 * 4 + (x mod 4 * 16 + y div 16) div 16 = x"
    "(x mod 4 * 16 + y div 16) mod 16 * 16 + (y mod 16 * 4 + z div 64) div 4 = y"
    "(y mod 16 * 4 + z div 64) mod 4 * 64 + z mod 64 = z"
proof -
  have "y div 16 < 16" "z div 64 < 4" using assms by simp_all
  then have "(x mod 4 * 16 + y div 16) div 16 = x mod 4" "(x mod 4 * 16 + y div 16) mod 16 = y div 16"
    "(y mod 16 * 4 + z div 64) div 4 = y mod 16" "(y mod 16 * 4 + z div 64) mod 4 = z div 64"
    by simp_all
  then show "x div 4 * 4 + (x mod 4 * 16 + y div 16) div 16 = x"
    "(x mod 4 * 16 + y div 16) mod 16 * 16 + (y mod 16 * 4 + z div 64) div 4 = y"
    "(y mod 16 * 4 + z div 64) mod 4 * 64 + z mod 64 = z"
    by (simp_all only: div_mult_mod_eq)
qed

lemma b64_Encode_set: "set (b64_Encode s) \<subseteq> insert (CHR ''='') (set b64_alphabet)"
proof (induction s rule: b64_Encode.induct)
  case (2 a)
  show ?case using b64_char_in [OF sextets(1) [OF byte_lt byte_lt byte_lt, of a]]
      b64_char_in [OF sextets(2) [OF byte_lt byte_lt byte_lt, of a]] by (simp add: Let_def)
next
  case (3 a b)
  show ?case using b64_char_in [OF sextets(1) [OF byte_lt byte_lt byte_lt, of a]]
      b64_char_in [OF sextets(5) [OF byte_lt byte_lt byte_lt, of a b]]
      b64_char_in [OF sextets(3) [OF byte_lt byte_lt byte_lt, of b]] by (simp add: Let_def)
next
  case (4 a b c r)
  show ?case using 4 b64_char_in [OF sextets(1) [OF byte_lt byte_lt byte_lt, of a]]
      b64_char_in [OF sextets(5) [OF byte_lt byte_lt byte_lt, of a b]]
      b64_char_in [OF sextets(6) [OF byte_lt byte_lt byte_lt, of b c]]
      b64_char_in [OF sextets(4) [OF byte_lt byte_lt byte_lt, of c]] by (simp add: Let_def)
qed simp

lemma b64_Encode_plain: "CHR 0x0A \<notin> set (b64_Encode s)" "CHR 0x0D \<notin> set (b64_Encode s)" "CHR '':'' \<notin> set (b64_Encode s)"
proof -
  have "CHR 0x0A \<notin> insert (CHR ''='') (set b64_alphabet)" "CHR 0x0D \<notin> insert (CHR ''='') (set b64_alphabet)"
    "CHR '':'' \<notin> insert (CHR ''='') (set b64_alphabet)"
    unfolding b64_alphabet_def by simp_all
  then show "CHR 0x0A \<notin> set (b64_Encode s)" "CHR 0x0D \<notin> set (b64_Encode s)" "CHR '':'' \<notin> set (b64_Encode s)"
    using b64_Encode_set [of s] by blast+
qed

lemma quantum:
  fixes x y z :: nat
  assumes "x < 256" "y < 256" "z < 256"
  shows "b64_quanta (b64_char (x div 4) # b64_char (x mod 4 * 16 + y div 16) # b64_char (y mod 16 * 4 + z div 64)
      # b64_char (z mod 64) # r) = (let (bs, err) = b64_quanta r in (char_of x # char_of y # char_of z # bs, err))"
    "b64_quanta [b64_char (x div 4), b64_char (x mod 4 * 16 + y div 16), b64_char (y mod 16 * 4), CHR ''='']
      = ([char_of x, char_of y], False)"
    "b64_quanta [b64_char (x div 4), b64_char (x mod 4 * 16), CHR ''='', CHR ''=''] = ([char_of x], False)"
  using sextets [OF assms] octets [OF assms] octets [OF assms(1,2), of 0] octets [OF assms(1), of 0 0]
  by (simp_all only: b64_quanta.simps b64_val_char b64_val_pad Let_def option.case prod.case if_True
      add_0_right div_0 zero_less_numeral simp_thms)

lemma b64_quanta_Encode: "b64_quanta (b64_Encode s) = (s, False)"
  by (induction s rule: b64_Encode.induct)
    (simp_all only: b64_Encode.simps Let_def quantum [OF byte_lt byte_lt byte_lt] append.simps
      char_of_char prod.case b64_quanta.simps(1))

text \<open>Decoding gives back what was encoded, without an error; line breaks may be put in anywhere.\<close>

lemma b64_Decode_Encode:
  assumes "filter (\<lambda>c. c \<noteq> CHR 0x0A \<and> c \<noteq> CHR 0x0D) t = b64_Encode s"
  shows "b64_Decode t = (s, False)"
  unfolding b64_Decode_def assms by (rule b64_quanta_Encode)

lemma b64_filter_Encode: "filter (\<lambda>c. c \<noteq> CHR 0x0A \<and> c \<noteq> CHR 0x0D) (b64_Encode s) = b64_Encode s"
  using b64_Encode_plain [of s] by (auto simp: filter_id_conv)

lemma b64_Encode_Nil_iff [simp]: "b64_Encode s = [] \<longleftrightarrow> s = []"
  by (cases s rule: b64_Encode.cases) (auto simp: Let_def)

end
