(* ===== verification/Sse_Wire.thy ===== *)
theory Sse_Wire
  imports Base64 Interfaces
begin

text \<open>
  Server-sent events on the wire: the event type and the reader of \<open>transport/sse/event.go\<close>, the
  helpers of \<open>utils.go\<close>, the part of \<open>ServeHTTP\<close> (\<open>http.go\<close>) that writes events, and the part of the
  client (\<open>client.go\<close>) that reads them. The body of a response arrives in pieces of any size, and the
  scanner is the loop of \<open>bufio.Scanner\<close> with its limit on the buffer. Line feed and carriage return
  are \<open>LF\<close> and \<open>CR\<close>.
\<close>

section \<open>Events\<close>

abbreviation LF :: char where "LF \<equiv> CHR 0x0A"
abbreviation CR :: char where "CR \<equiv> CHR 0x0D"

text \<open>The timestamp is \<open>None\<close> for Go's zero time.\<close>

record event =
  ev_timestamp :: "int option"
  ev_ID :: bytes
  ev_Data :: bytes
  ev_Event :: bytes
  ev_Retry :: bytes
  ev_Comment :: bytes

definition empty_event :: event where
  "empty_event = \<lparr>ev_timestamp = None, ev_ID = [], ev_Data = [], ev_Event = [], ev_Retry = [], ev_Comment = []\<rparr>"

definition WithEventID :: "string \<Rightarrow> event \<Rightarrow> event" where
  "WithEventID i e = (if i \<noteq> '''' then e\<lparr>ev_ID := i\<rparr> else e)"

definition WithEventName :: "string \<Rightarrow> event \<Rightarrow> event" where
  "WithEventName name e = (if name \<noteq> '''' then e\<lparr>ev_Event := name\<rparr> else e)"

definition WithEventRetry :: "string \<Rightarrow> event \<Rightarrow> event" where
  "WithEventRetry retry e = (if retry \<noteq> '''' then e\<lparr>ev_Retry := retry\<rparr> else e)"

definition WithEventComment :: "string \<Rightarrow> event \<Rightarrow> event" where
  "WithEventComment comment e = (if comment \<noteq> '''' then e\<lparr>ev_Comment := comment\<rparr> else e)"

definition hasContent :: "event \<Rightarrow> bool" where
  "hasContent e = (length (ev_ID e) > 0 \<or> length (ev_Data e) > 0 \<or> length (ev_Event e) > 0 \<or> length (ev_Retry e) > 0)"

definition encodeBase64 :: "event \<Rightarrow> event" where
  "encodeBase64 e = (if length (ev_Data e) > 0 then e\<lparr>ev_Data := b64_Encode (ev_Data e)\<rparr> else e)"

section \<open>Finding the end of an event\<close>

text \<open>\<open>bytes.Index\<close>: the first position, or -1.\<close>

fun bytes_Index :: "bytes \<Rightarrow> bytes \<Rightarrow> int" where
  "bytes_Index d p =
     (if take (length p) d = p then 0
      else case d of
             [] \<Rightarrow> -1
           | c # d' \<Rightarrow> (let r = bytes_Index d' p in if r < 0 then -1 else r + 1))"

declare bytes_Index.simps [simp del]

definition minPosInt :: "int \<Rightarrow> int \<Rightarrow> int" where
  "minPosInt a b = (if a < 0 then b else if b < 0 then a else if a > b then b else a)"

definition containsDoubleNewline :: "bytes \<Rightarrow> int \<times> nat" where
  "containsDoubleNewline d =
     (let crCr = bytes_Index d [CR, CR];
          lfLf = bytes_Index d [LF, LF];
          crLfLf = bytes_Index d [CR, LF, LF];
          lfCrLf = bytes_Index d [LF, CR, LF];
          crLfCrLf = bytes_Index d [CR, LF, CR, LF];
          minPos = minPosInt crCr (minPosInt lfLf (minPosInt crLfLf (minPosInt lfCrLf crLfCrLf)));
          nLen = (if minPos = crLfCrLf then 4 else if minPos = crLfLf \<or> minPos = lfCrLf then 3 else 2)
      in (minPos, nLen))"

text \<open>The split function of \<open>NewEventStreamReader\<close>: how far to advance, and the token if there is one.\<close>

definition split_event :: "bytes \<Rightarrow> bool \<Rightarrow> nat \<times> bytes option" where
  "split_event d atEOF =
     (if atEOF \<and> d = [] then (0, None)
      else
        let (i, nLen) = containsDoubleNewline d
        in if i \<ge> 0 then (nat i + nLen, Some (take (nat i) d))
           else if atEOF then (length d, Some d)
           else (0, None))"

text \<open>
  \<open>Scan\<close> and \<open>ReadEvent\<close>: \<open>buf\<close> is what the scanner holds, \<open>cs\<close> the pieces to come; a buffer that is full
  without a token is \<open>bufio.ErrTooLong\<close>, also at the end of the body, which a read of its own reports. \<open>fin\<close> is the error with which the body ends, \<open>io.EOF\<close> or
  another; a cancelled context counts as \<open>io.EOF\<close>. The result has the token and what is left.
\<close>

definition ErrTooLong :: error where
  "ErrTooLong = ErrNew ''bufio.Scanner: token too long''"

function ReadEvent :: "nat \<Rightarrow> error \<Rightarrow> bytes \<Rightarrow> bytes list \<Rightarrow> error + bytes \<times> bytes \<times> bytes list" where
  "ReadEvent mx fin buf cs =
     (case (if buf = [] then (0, None) else split_event buf False) of
        (adv, Some tok) \<Rightarrow> Inr (tok, drop adv buf, cs)
      | (adv, None) \<Rightarrow>
          if length buf \<ge> mx then Inl ErrTooLong
          else (case cs of
             [] \<Rightarrow> (case split_event buf True of
                     (adv, Some tok) \<Rightarrow> Inr (tok, drop adv buf, [])
                   | (adv, None) \<Rightarrow> Inl (if errors_Is fin ErrCanceled then ErrEOF else fin))
           | c # cs' \<Rightarrow>
               if length c > mx - length buf
               then ReadEvent mx fin (buf @ take (mx - length buf) c) (drop (mx - length buf) c # cs')
               else ReadEvent mx fin (buf @ c) cs'))"
  by pat_completeness auto
termination
  by (relation "measure (\<lambda>(mx, fin, buf, cs). length (concat cs) + length cs)") auto

declare ReadEvent.simps [simp del]

section \<open>Writing events\<close>

definition writeData :: "string \<Rightarrow> bytes \<Rightarrow> bytes" where
  "writeData field v = field @ '': '' @ v @ [LF]"

text \<open>\<open>bytes.Split(data, "\n")\<close>.\<close>

fun split_lf :: "bytes \<Rightarrow> bytes list" where
  "split_lf [] = [[]]"
| "split_lf (c # d) =
     (if c = LF then [] # split_lf d
      else case split_lf d of [] \<Rightarrow> [[c]] | l # ls \<Rightarrow> (c # l) # ls)"

text \<open>The body of the loop over \<open>sub.connection\<close>, for an event that is written.\<close>

definition write_event :: "bool \<Rightarrow> event \<Rightarrow> bytes" where
  "write_event splitData ev =
     (if length (ev_Data ev) > 0
      then writeData ''id'' (ev_ID ev) @
        (if splitData then concat (map (writeData ''data'') (split_lf (ev_Data ev)))
         else if take 1 (ev_Data ev) = '':'' then ev_Data ev @ [LF]
         else writeData ''data'' (ev_Data ev)) @
        (if length (ev_Event ev) > 0 then writeData ''event'' (ev_Event ev) else []) @
        (if length (ev_Retry ev) > 0 then writeData ''retry'' (ev_Retry ev) else [])
      else []) @
     (if length (ev_Comment ev) > 0 then writeData '''' (ev_Comment ev) else []) @ [LF]"

text \<open>
  The loop: an event with no field at all ends the response, an event older than \<open>ttl\<close> is skipped.
  \<open>now\<close> is the time at which the event is taken from the channel; the zero time is before all others.
\<close>

definition expired :: "int \<Rightarrow> int \<Rightarrow> event \<Rightarrow> bool" where
  "expired ttl now ev = (ttl \<noteq> 0 \<and> (case ev_timestamp ev of None \<Rightarrow> True | Some t \<Rightarrow> now > t + ttl))"

fun serve_loop :: "bool \<Rightarrow> int \<Rightarrow> (int \<times> event) list \<Rightarrow> bytes" where
  "serve_loop splitData ttl [] = []"
| "serve_loop splitData ttl ((now, ev) # evs) =
     (if ev_Data ev = [] \<and> ev_Comment ev = [] \<and> ev_Retry ev = [] \<and> ev_ID ev = [] \<and> ev_Event ev = [] then []
      else if expired ttl now ev then serve_loop splitData ttl evs
      else write_event splitData ev @ serve_loop splitData ttl evs)"

section \<open>Reading events\<close>

text \<open>\<open>bytes.FieldsFunc\<close> with line breaks as separators: the non-empty lines.\<close>

fun fields_lines :: "bytes \<Rightarrow> bytes \<Rightarrow> bytes list" where
  "fields_lines cur [] = (if cur = [] then [] else [cur])"
| "fields_lines cur (c # d) =
     (if c = LF \<or> c = CR then (if cur = [] then fields_lines [] d else cur # fields_lines [] d)
      else fields_lines (cur @ [c]) d)"

definition trimHeader :: "nat \<Rightarrow> bytes \<Rightarrow> bytes" where
  "trimHeader sz d =
     (if length d < sz then d
      else
        let d1 = drop sz d;
            d2 = (if length d1 > 0 \<and> hd d1 = CHR 0x20 then tl d1 else d1)
        in if length d2 > 0 \<and> last d2 = LF then butlast d2 else d2)"

definition has_prefix :: "bytes \<Rightarrow> bytes \<Rightarrow> bool" where
  "has_prefix l p = (take (length p) l = p)"

definition process_line :: "bytes \<Rightarrow> event \<Rightarrow> event" where
  "process_line l e =
     (if has_prefix l ''id:'' then e\<lparr>ev_ID := trimHeader 3 l\<rparr>
      else if has_prefix l ''data:'' then e\<lparr>ev_Data := ev_Data e @ trimHeader 5 l @ [LF]\<rparr>
      else if l = ''data'' then e\<lparr>ev_Data := ev_Data e @ [LF]\<rparr>
      else if has_prefix l ''event:'' then e\<lparr>ev_Event := trimHeader 6 l\<rparr>
      else if has_prefix l ''retry:'' then e\<lparr>ev_Retry := trimHeader 6 l\<rparr>
      else e)"

definition trim_lf :: "bytes \<Rightarrow> bytes" where
  "trim_lf d = (if d \<noteq> [] \<and> last d = LF then butlast d else d)"

text \<open>
  \<open>processEvent\<close>. In the base64 branch \<open>n, err := ...\<close> declares a new \<open>err\<close>, so the decoding error is not
  the one that the function returns: the result has no error.
\<close>

definition processEvent :: "bool \<Rightarrow> bytes \<Rightarrow> error + event" where
  "processEvent encodingBase64 msg =
     (if length msg < 1 then Inl (ErrNew ''event message was empty'')
      else
        let e = fold process_line (fields_lines [] msg) empty_event;
            e1 = e\<lparr>ev_Data := trim_lf (ev_Data e)\<rparr>
        in Inr (if encodingBase64 then e1\<lparr>ev_Data := fst (b64_Decode (ev_Data e1))\<rparr> else e1))"

text \<open>
  What \<open>readLoop\<close> keeps in the client: the last event id (empty when none was stored), whether it is
  connected, and whether the two callbacks are set; \<open>sc_calls\<close> lists their calls, true for \<open>connectedcb\<close>.
\<close>

record sse_client =
  sc_LastEventID :: bytes
  sc_Connected :: bool
  sc_connectedcb :: bool
  sc_disconnectcb :: bool
  sc_calls :: "bool list"

definition on_connect :: "sse_client \<Rightarrow> sse_client" where
  "on_connect c =
     (if \<not> sc_Connected c \<and> sc_connectedcb c then c\<lparr>sc_Connected := True, sc_calls := sc_calls c @ [True]\<rparr> else c)"

definition on_disconnect :: "sse_client \<Rightarrow> sse_client" where
  "on_disconnect c =
     (if sc_disconnectcb c then c\<lparr>sc_Connected := False, sc_calls := sc_calls c @ [False]\<rparr> else c)"

text \<open>What one event block gives to the consumer.\<close>

definition deliver :: "bool \<Rightarrow> bytes \<Rightarrow> sse_client \<Rightarrow> event list \<times> sse_client" where
  "deliver encodingBase64 tok c =
     (case processEvent encodingBase64 tok of
        Inl e \<Rightarrow> ([], c)
      | Inr msg \<Rightarrow>
          (let (msg1, c1) = (if length (ev_ID msg) > 0 then (msg, c\<lparr>sc_LastEventID := ev_ID msg\<rparr>)
                             else (msg\<lparr>ev_ID := sc_LastEventID c\<rparr>, c))
           in (if hasContent msg1 then [msg1] else [], c1)))"

lemma containsDoubleNewline_len: "containsDoubleNewline d = (i, n) \<Longrightarrow> 0 < n"
  by (auto simp: containsDoubleNewline_def Let_def)

lemma bytes_Index_Nil [simp]: "p \<noteq> [] \<Longrightarrow> bytes_Index [] p = -1"
  by (simp add: bytes_Index.simps)

lemma containsDoubleNewline_Nil: "containsDoubleNewline [] = (i, n) \<Longrightarrow> i < 0"
  by (auto simp: containsDoubleNewline_def Let_def minPosInt_def)

lemma split_event_advance:
  assumes "split_event d b = (adv, Some tok)"
  shows "d \<noteq> [] \<and> 0 < adv"
proof -
  obtain i n where c: "containsDoubleNewline d = (i, n)" by force
  then show ?thesis
    using assms containsDoubleNewline_len [OF c] containsDoubleNewline_Nil [of i n]
    by (cases "d = []") (auto simp: split_event_def split: if_splits)
qed

lemma ReadEvent_shrinks:
  "ReadEvent mx fin buf cs = Inr (tok, buf', cs') \<Longrightarrow> length (buf' @ concat cs') < length (buf @ concat cs)"
proof (induction mx fin buf cs rule: ReadEvent.induct)
  case (1 mx fin buf cs)
  let ?r = "if buf = [] then (0, None) else split_event buf False"
  obtain adv t where r: "?r = (adv, t)" by force
  show ?case
  proof (cases t)
    case (Some tok1)
    then have "split_event buf False = (adv, Some tok1)" using r by (auto split: if_splits)
    then show ?thesis
      using 1(3) r Some split_event_advance [of buf False adv tok1] by (auto simp: ReadEvent.simps [of mx fin buf])
  next
    case None
    show ?thesis
    proof (cases cs)
      case Nil
      obtain adv2 t2 where r2: "split_event buf True = (adv2, t2)" by force
      then show ?thesis
        using 1(3) r None Nil split_event_advance [of buf True adv2]
        by (cases t2) (auto simp: ReadEvent.simps [of mx fin buf] split: if_splits)
    next
      case (Cons c cs1)
      show ?thesis
        using 1(3) r None Cons 1(1) [OF r [symmetric] None _ Cons] 1(2) [OF r [symmetric] None _ Cons]
        by (auto simp: ReadEvent.simps [of mx fin buf] split: if_splits)
    qed
  qed
qed

text \<open>
  \<open>readLoop\<close> on one response: the events given to the consumer, the client afterwards and the error sent
  at the end (\<open>None\<close> at the end of the body).
\<close>

function readLoop ::
    "bool \<Rightarrow> nat \<Rightarrow> error \<Rightarrow> bytes \<Rightarrow> bytes list \<Rightarrow> sse_client \<Rightarrow> event list \<times> sse_client \<times> error option" where
  "readLoop b64 mx fin buf cs c =
     (case ReadEvent mx fin buf cs of
        Inl e \<Rightarrow> (if e = ErrEOF then ([], c, None) else ([], on_disconnect c, Some e))
      | Inr (tok, buf', cs') \<Rightarrow>
          (let (out, c1) = deliver b64 tok (on_connect c);
               (outs, c2, err) = readLoop b64 mx fin buf' cs' c1
           in (out @ outs, c2, err)))"
  by pat_completeness auto
termination
  by (relation "measure (\<lambda>(b64, mx, fin, buf, cs, c). length (buf @ concat cs))")
    (auto dest: ReadEvent_shrinks simp del: length_concat length_append)

declare readLoop.simps [simp del]

section \<open>Lemmas on the reader\<close>

lemma bytes_Index_Cons:
  "bytes_Index (c # d) p = (if take (length p) (c # d) = p then 0
     else if bytes_Index d p < 0 then -1 else bytes_Index d p + 1)"
  by (simp add: bytes_Index.simps [of "c # d"] Let_def)

lemma bytes_Index_hit:
  "p \<noteq> [] \<Longrightarrow> 0 \<le> bytes_Index d p \<Longrightarrow> take (length p) (drop (nat (bytes_Index d p)) d) = p"
proof (induction d)
  case (Cons c d)
  then show ?case by (auto simp: bytes_Index_Cons nat_add_distrib split: if_splits)
qed simp

lemma bytes_Index_le:
  "p \<noteq> [] \<Longrightarrow> take (length p) (drop i d) = p \<Longrightarrow> 0 \<le> bytes_Index d p \<and> bytes_Index d p \<le> int i"
proof (induction d arbitrary: i)
  case Nil
  then show ?case by simp
next
  case (Cons c d)
  show ?case
  proof (cases i)
    case 0
    then show ?thesis using Cons.prems by (simp add: bytes_Index_Cons)
  next
    case (Suc k)
    then have "0 \<le> bytes_Index d p \<and> bytes_Index d p \<le> int k" using Cons by simp
    then show ?thesis using Suc by (auto simp: bytes_Index_Cons)
  qed
qed

lemma bytes_Index_neg: "p \<noteq> [] \<Longrightarrow> bytes_Index d p < 0 \<Longrightarrow> bytes_Index d p = -1"
  by (cases d) (auto simp: bytes_Index_Cons split: if_splits)

lemma bytes_Index_char:
  assumes "0 \<le> bytes_Index d p" and "k < length p"
  shows "nat (bytes_Index d p) + k < length d \<and> d ! (nat (bytes_Index d p) + k) = p ! k"
proof -
  let ?i = "nat (bytes_Index d p)"
  have hit: "take (length p) (drop ?i d) = p"
    using assms by (intro bytes_Index_hit) auto
  have "length (take (length p) (drop ?i d)) = length p" using hit by simp
  then have len: "?i + k < length d" using assms(2) by (simp add: min_def split: if_splits)
  have "p ! k = take (length p) (drop ?i d) ! k" using hit by simp
  also have "\<dots> = d ! (?i + k)" using assms(2) len by simp
  finally show ?thesis using len by simp
qed

lemma minPosInt_above:
  "a < 0 \<or> n < a \<Longrightarrow> b < 0 \<or> n < b \<Longrightarrow> minPosInt a b < 0 \<or> n < minPosInt a b"
  by (auto simp: minPosInt_def)

lemma minPosInt_pick:
  assumes "0 \<le> n" "a < 0 \<or> n < a" "c < 0 \<or> n < c" "d < 0 \<or> n < d" "e < 0 \<or> n < e"
  shows "minPosInt a (minPosInt n (minPosInt c (minPosInt d e))) = n" "n \<noteq> c" "n \<noteq> d" "n \<noteq> e"
proof -
  have "minPosInt n (minPosInt c (minPosInt d e)) = n"
    using minPosInt_above [OF assms(3) minPosInt_above [OF assms(4,5)]] assms(1)
    by (auto simp: minPosInt_def [of n])
  then show "minPosInt a (minPosInt n (minPosInt c (minPosInt d e))) = n"
    using assms by (auto simp: minPosInt_def [of a])
qed (use assms in auto)

lemma bytes_Index_hit2:
  "0 \<le> bytes_Index d [a, b] \<Longrightarrow> take 2 (drop (nat (bytes_Index d [a, b])) d) = [a, b]"
  using bytes_Index_hit [of "[a, b]" d] by (simp add: numeral_2_eq_2)

lemma bytes_Index_le2: "take 2 (drop i d) = [a, b] \<Longrightarrow> bytes_Index d [a, b] \<le> int i"
  using bytes_Index_le [of "[a, b]" i d] by (simp add: numeral_2_eq_2)

lemma minPosInt_neg: "a < 0 \<Longrightarrow> b < 0 \<Longrightarrow> minPosInt a b < 0"
  by (simp add: minPosInt_def)

lemma take_drop_take: "i + n \<le> k \<Longrightarrow> take n (drop i (take k xs)) = take n (drop i xs)"
  by (simp add: drop_take min_def)

text \<open>The lines of an event block, each ended by a line feed.\<close>

definition body :: "bytes list \<Rightarrow> bytes" where
  "body ls = concat (map (\<lambda>l. l @ [LF]) ls)"

definition line_ok :: "bytes \<Rightarrow> bool" where
  "line_ok l = (l \<noteq> [] \<and> LF \<notin> set l \<and> CR \<notin> set l)"

lemma body_simps [simp]: "body [] = []" "body (l # ls) = l @ LF # body ls" "body (ls @ ms) = body ls @ body ms"
  by (simp_all add: body_def)

lemma body_ne [simp]: "body ls = [] \<longleftrightarrow> ls = []"
  by (cases ls) simp_all

lemma Index_LF_line:
  "LF \<notin> set l \<Longrightarrow> bytes_Index (l @ d) [LF, LF] =
     (if bytes_Index d [LF, LF] < 0 then -1 else bytes_Index d [LF, LF] + int (length l))"
  using bytes_Index_neg [of "[LF, LF]" d] by (induction l) (auto simp: bytes_Index_Cons)

lemma Index_block:
  "list_all line_ok ls \<Longrightarrow> ls \<noteq> [] \<Longrightarrow> bytes_Index (body ls @ LF # x) [LF, LF] = int (length (body ls)) - 1"
proof (induction ls)
  case (Cons l ls)
  show ?case
  proof (cases ls)
    case Nil
    then show ?thesis using Cons.prems by (simp add: Index_LF_line line_ok_def bytes_Index_Cons)
  next
    case (Cons m ms)
    then obtain c m' where m: "m = c # m'" "c \<noteq> LF"
      using Cons.prems Cons by (cases m) (auto simp: line_ok_def)
    have "bytes_Index (body ls @ LF # x) [LF, LF] = int (length (body ls)) - 1"
      using Cons.IH Cons.prems Cons by simp
    moreover have "bytes_Index (LF # body ls @ LF # x) [LF, LF] = bytes_Index (body ls @ LF # x) [LF, LF] + 1"
      using calculation Cons m by (simp add: bytes_Index_Cons [of LF])
    ultimately show ?thesis using Cons.prems Cons by (simp add: Index_LF_line line_ok_def)
  qed
qed simp

lemma body_no_CR: "list_all line_ok ls \<Longrightarrow> CR \<notin> set (body ls)"
  by (induction ls) (auto simp: line_ok_def)

lemma Index_CR_late:
  assumes "CR \<notin> set D" and "k < length p" and "p ! k = CR"
  shows "bytes_Index (D @ x) p < 0 \<or> int (length D) \<le> bytes_Index (D @ x) p + int k"
proof (rule ccontr)
  assume n: "\<not> ?thesis"
  then have pos: "0 \<le> bytes_Index (D @ x) p" by linarith
  from bytes_Index_char [OF pos assms(2)] assms(3)
  have "(D @ x) ! (nat (bytes_Index (D @ x) p) + k) = CR" by simp
  moreover have "nat (bytes_Index (D @ x) p) + k < length D" using n pos by linarith
  ultimately show False using assms(1) by (metis nth_append nth_mem)
qed

lemma cdn_block:
  assumes "list_all line_ok ls" and "ls \<noteq> []"
  shows "containsDoubleNewline (body ls @ LF # x) = (int (length (body ls)) - 1, 2)"
proof -
  let ?D = "body ls @ [LF]" and ?n = "int (length (body ls))"
  have "CR \<notin> set ?D" using body_no_CR [OF assms(1)] by simp
  from Index_CR_late [OF this, where x = x]
  have late: "k < length p \<Longrightarrow> p ! k = CR \<Longrightarrow> bytes_Index (body ls @ LF # x) p < 0
      \<or> ?n + 1 \<le> bytes_Index (body ls @ LF # x) p + int k" for k p by force
  have lf: "bytes_Index (body ls @ LF # x) [LF, LF] = ?n - 1" by (rule Index_block [OF assms])
  have n0: "0 \<le> ?n - 1" using assms by (cases ls) auto
  have "bytes_Index (body ls @ LF # x) p < 0 \<or> ?n - 1 < bytes_Index (body ls @ LF # x) p"
    if "p ! 0 = CR \<or> p ! 1 = CR" "2 \<le> length p" for p
    using that late [of 0 p] late [of 1 p] by force
  then have r: "bytes_Index (body ls @ LF # x) [CR, CR] < 0 \<or> ?n - 1 < bytes_Index (body ls @ LF # x) [CR, CR]"
    "bytes_Index (body ls @ LF # x) [CR, LF, LF] < 0 \<or> ?n - 1 < bytes_Index (body ls @ LF # x) [CR, LF, LF]"
    "bytes_Index (body ls @ LF # x) [LF, CR, LF] < 0 \<or> ?n - 1 < bytes_Index (body ls @ LF # x) [LF, CR, LF]"
    "bytes_Index (body ls @ LF # x) [CR, LF, CR, LF] < 0 \<or> ?n - 1 < bytes_Index (body ls @ LF # x) [CR, LF, CR, LF]"
    by simp_all
  show ?thesis
    unfolding containsDoubleNewline_def Let_def lf
    using minPosInt_pick [OF n0 r] by simp
qed

lemma cdn_prefix:
  assumes "list_all line_ok ls" and "ls \<noteq> []" and "k \<le> length (body ls)"
  shows "fst (containsDoubleNewline (take k (body ls @ [LF]))) < 0"
proof -
  let ?d = "take k (body ls @ [LF])"
  have "CR \<notin> set ?d" using body_no_CR [OF assms(1)] by (auto dest: in_set_takeD)
  from Index_CR_late [OF this, where x = "[]"]
  have late: "j < length p \<Longrightarrow> p ! j = CR \<Longrightarrow> bytes_Index ?d p < 0" for j p
    using bytes_Index_char [of ?d p j] by fastforce
  have "bytes_Index ?d [LF, LF] < 0"
  proof (rule ccontr)
    assume "\<not> ?thesis"
    then have pos: "0 \<le> bytes_Index ?d [LF, LF]" by simp
    let ?i = "nat (bytes_Index ?d [LF, LF])"
    have len: "?i + 1 < length ?d" using bytes_Index_char [OF pos, of 1] by simp
    have "take 2 (drop ?i ?d) = [LF, LF]" using bytes_Index_hit2 [OF pos] .
    moreover have "?i + 2 \<le> k" using len assms(3) by simp
    ultimately have "take 2 (drop ?i (body ls @ [LF])) = [LF, LF]" using take_drop_take by metis
    then have "bytes_Index (body ls @ [LF]) [LF, LF] \<le> int ?i"
      by (rule bytes_Index_le2)
    then have "int (length (body ls)) - 1 \<le> int ?i" unfolding Index_block [OF assms(1,2)] .
    moreover have "length ?d \<le> length (body ls)" using assms(3) by simp
    ultimately show False using len by linarith
  qed
  then show ?thesis
    using late [of 0 "[CR, CR]"] late [of 0 "[CR, LF, LF]"] late [of 1 "[LF, CR, LF]"]
      late [of 0 "[CR, LF, CR, LF]"]
    unfolding containsDoubleNewline_def Let_def fst_conv by (intro minPosInt_neg) simp_all
qed

text \<open>One block is read whole, however the body of the response is cut into pieces.\<close>

lemma split_block:
  assumes "list_all line_ok ls" and "ls \<noteq> []" and "buf @ y = body ls @ LF # rest" and "length (body ls) < length buf"
  shows "split_event buf False = (length (body ls) + 1, Some (butlast (body ls)))"
    and "drop (length (body ls) + 1) buf @ y = rest"
proof -
  obtain x where x: "buf = body ls @ LF # x" "rest = x @ y"
  proof -
    have "take (length (body ls) + 1) (buf @ y) = body ls @ [LF]" using assms(3) by simp
    then have "take (length (body ls) + 1) buf = body ls @ [LF]" using assms(4) by simp
    then have "buf = body ls @ LF # drop (length (body ls) + 1) buf"
      by (metis append_take_drop_id append.assoc append_Cons append_Nil)
    then show ?thesis using assms(3) that by (metis append.assoc append_Cons same_append_eq list.inject)
  qed
  obtain d where d: "body ls = d @ [LF]" using assms(2) by (cases ls rule: rev_cases) auto
  show "split_event buf False = (length (body ls) + 1, Some (butlast (body ls)))"
    using cdn_block [OF assms(1,2), of x] d by (simp add: split_event_def x(1))
  show "drop (length (body ls) + 1) buf @ y = rest" by (simp add: x)
qed

lemma split_prefix:
  assumes "list_all line_ok ls" and "ls \<noteq> []" and "buf @ y = body ls @ LF # rest" and "length buf \<le> length (body ls)"
  shows "split_event buf False = (0, None)"
proof -
  have "buf = take (length buf) (body ls @ LF # rest)" using assms(3) by (metis append_eq_conv_conj)
  then have "buf = take (length buf) (body ls @ [LF])" using assms(4) by simp
  then have "fst (containsDoubleNewline buf) < 0" using cdn_prefix [OF assms(1,2,4)] by simp
  then show ?thesis by (simp add: split_event_def case_prod_beta)
qed

text \<open>One block is read whole, however the body of the response is cut into pieces.\<close>

lemma ReadEvent_block:
  assumes "list_all line_ok ls" and "ls \<noteq> []" and "length (body ls) < mx"
    and "buf @ concat cs = body ls @ LF # rest"
  shows "\<exists>buf' cs'. ReadEvent mx fin buf cs = Inr (butlast (body ls), buf', cs') \<and> buf' @ concat cs' = rest"
  using assms(3,4)
proof (induction mx fin buf cs rule: ReadEvent.induct)
  case (1 mx fin buf cs)
  show ?case
  proof (cases "length (body ls) < length buf")
    case True
    then show ?thesis
      using split_block [OF assms(1,2) 1(4) True] by (auto simp: ReadEvent.simps [of mx fin buf])
  next
    case False
    then have sp: "split_event buf False = (0, None)" using split_prefix [OF assms(1,2) 1(4)] by simp
    have r: "(0, None) = (if buf = [] then (0, None) else split_event buf False)" using sp by simp
    obtain c cs1 where cs: "cs = c # cs1"
      using 1(4) False by (cases cs) auto
    have len: "length buf < mx" using False 1(3) by simp
    have eq: "ReadEvent mx fin buf cs = (if length c > mx - length buf
        then ReadEvent mx fin (buf @ take (mx - length buf) c) (drop (mx - length buf) c # cs1)
        else ReadEvent mx fin (buf @ c) cs1)"
      using sp len by (subst ReadEvent.simps) (simp add: cs)
    show ?thesis
    proof (cases "length c > mx - length buf")
      case True
      have "take (mx - length buf) c @ drop (mx - length buf) c @ concat cs1 = c @ concat cs1"
        by (metis append.assoc append_take_drop_id)
      then have "(buf @ take (mx - length buf) c) @ concat (drop (mx - length buf) c # cs1) = body ls @ LF # rest"
        using 1(4) by (simp only: cs concat.simps append_assoc)
      from 1(1) [OF r refl _ cs True 1(3) this] len eq True show ?thesis by simp
    next
      case nc: False
      then show ?thesis using 1(2) [OF r refl _ cs nc 1(3)] 1(4) len eq cs by simp
    qed
  qed
qed

lemma ReadEvent_end: "0 < mx \<Longrightarrow> concat cs = [] \<Longrightarrow> ReadEvent mx ErrEOF [] cs = Inl ErrEOF"
proof (induction cs)
  case Nil
  then show ?case by (simp add: ReadEvent.simps [of mx _ "[]"] split_event_def)
next
  case (Cons c cs)
  then have "c = []" "ReadEvent mx ErrEOF [] cs = Inl ErrEOF" by simp_all
  then show ?case using Cons.prems(1) by (subst ReadEvent.simps) simp
qed

section \<open>Lemmas on the fields\<close>

lemma fields_lines_line:
  "LF \<notin> set l \<Longrightarrow> CR \<notin> set l \<Longrightarrow> fields_lines cur (l @ d) = fields_lines (cur @ l) d"
  by (induction l arbitrary: cur) auto

lemma butlast_body: "butlast (body (l # ls)) = (if ls = [] then l else l @ LF # butlast (body ls))"
  by (simp add: butlast_append)

lemma fields_lines_body: "list_all line_ok ls \<Longrightarrow> fields_lines [] (butlast (body ls)) = ls"
proof (induction ls)
  case (Cons l ls)
  then have l: "LF \<notin> set l" "CR \<notin> set l" "l \<noteq> []" by (auto simp: line_ok_def)
  show ?case
    using Cons fields_lines_line [OF l(1,2), of "[]" "[]"] fields_lines_line [OF l(1,2), of "[]" "LF # butlast (body ls)"] l(3)
    unfolding butlast_body by (cases "ls = []") simp_all
qed simp

lemma trimHeader_field:
  assumes "LF \<notin> set v" and "n = length f"
  shows "trimHeader n (f @ CHR 0x20 # v) = v"
proof -
  have "v \<noteq> [] \<Longrightarrow> last v \<noteq> LF" using assms(1) last_in_set [of v] by metis
  then show ?thesis using assms(2) by (auto simp: trimHeader_def Let_def)
qed

text \<open>The lines that an event with data is written as, data split at line feeds.\<close>

definition field_line :: "string \<Rightarrow> bytes \<Rightarrow> bytes" where
  "field_line f v = f @ '': '' @ v"

definition event_lines :: "event \<Rightarrow> bytes list" where
  "event_lines ev =
     [field_line ''id'' (ev_ID ev)] @ map (field_line ''data'') (split_lf (ev_Data ev)) @
     (if ev_Event ev \<noteq> [] then [field_line ''event'' (ev_Event ev)] else []) @
     (if ev_Retry ev \<noteq> [] then [field_line ''retry'' (ev_Retry ev)] else []) @
     (if ev_Comment ev \<noteq> [] then [field_line '''' (ev_Comment ev)] else [])"

lemma writeData_line: "writeData f v = field_line f v @ [LF]"
  by (simp add: writeData_def field_line_def)

lemma body_map: "body (map (field_line ''data'') xs) = concat (map (writeData ''data'') xs)"
  by (induction xs) (simp_all add: writeData_line)

lemma write_event_lines: "ev_Data ev \<noteq> [] \<Longrightarrow> write_event True ev = body (event_lines ev) @ [LF]"
  by (simp add: write_event_def event_lines_def body_map) (simp add: writeData_line)

definition plain :: "bytes \<Rightarrow> bool" where
  "plain v = (LF \<notin> set v \<and> CR \<notin> set v)"

lemma split_lf_ne [simp]: "split_lf d \<noteq> []"
  by (induction d) (auto split: list.splits)

lemma split_lf_join: "body (split_lf d) = d @ [LF]"
proof (induction d)
  case (Cons c d)
  then show ?case by (cases "split_lf d") auto
qed simp

lemma split_lf_plain: "CR \<notin> set d \<Longrightarrow> list_all plain (split_lf d)"
proof (induction d)
  case (Cons c d)
  then show ?case by (cases "split_lf d") (auto simp: plain_def)
qed (simp add: plain_def)

text \<open>An event that survives the trip: it has data, and no field but the data has a line break.\<close>

definition wire_event :: "event \<Rightarrow> bool" where
  "wire_event ev = (ev_Data ev \<noteq> [] \<and> CR \<notin> set (ev_Data ev) \<and> plain (ev_ID ev) \<and> plain (ev_Event ev)
     \<and> plain (ev_Retry ev) \<and> plain (ev_Comment ev))"

lemma event_lines_ok: "wire_event ev \<Longrightarrow> list_all line_ok (event_lines ev) \<and> event_lines ev \<noteq> []"
proof -
  assume w: "wire_event ev"
  then have "list_all plain (split_lf (ev_Data ev))" by (simp add: wire_event_def split_lf_plain)
  then have "list_all line_ok (map (field_line ''data'') (split_lf (ev_Data ev)))"
    by (induction "split_lf (ev_Data ev)") (auto simp: list_all_iff line_ok_def plain_def field_line_def)
  then show ?thesis using w by (auto simp: event_lines_def wire_event_def line_ok_def plain_def field_line_def)
qed

lemma process_id: "plain v \<Longrightarrow> process_line (field_line ''id'' v) e = e\<lparr>ev_ID := v\<rparr>"
  using trimHeader_field [of v 3 "''id:''"] by (simp add: process_line_def has_prefix_def plain_def field_line_def)

lemma process_data: "plain v \<Longrightarrow> process_line (field_line ''data'' v) e = e\<lparr>ev_Data := ev_Data e @ v @ [LF]\<rparr>"
  using trimHeader_field [of v 5 "''data:''"] by (simp add: process_line_def has_prefix_def plain_def field_line_def)

lemma process_event: "plain v \<Longrightarrow> process_line (field_line ''event'' v) e = e\<lparr>ev_Event := v\<rparr>"
  using trimHeader_field [of v 6 "''event:''"] by (simp add: process_line_def has_prefix_def plain_def field_line_def)

lemma process_retry: "plain v \<Longrightarrow> process_line (field_line ''retry'' v) e = e\<lparr>ev_Retry := v\<rparr>"
  using trimHeader_field [of v 6 "''retry:''"] by (simp add: process_line_def has_prefix_def plain_def field_line_def)

lemma process_comment: "process_line (field_line '''' v) e = e"
  by (simp add: process_line_def has_prefix_def field_line_def)

lemma process_data_lines:
  "list_all plain ls \<Longrightarrow> fold process_line (map (field_line ''data'') ls) e = e\<lparr>ev_Data := ev_Data e @ body ls\<rparr>"
proof (induction ls arbitrary: e)
  case (Cons l ls)
  then show ?case using process_data [of l e] by simp
qed simp

text \<open>What the client gets of an event: comment and time stay behind.\<close>

definition strip :: "event \<Rightarrow> event" where
  "strip ev = ev\<lparr>ev_timestamp := None, ev_Comment := []\<rparr>"

lemma process_event_lines:
  assumes "wire_event ev"
  shows "fold process_line (event_lines ev) empty_event = (strip ev)\<lparr>ev_Data := ev_Data ev @ [LF]\<rparr>"
proof -
  have pl: "list_all plain (split_lf (ev_Data ev))" using assms by (simp add: wire_event_def split_lf_plain)
  have p: "plain (ev_ID ev)" "plain (ev_Event ev)" "plain (ev_Retry ev)" using assms by (simp_all add: wire_event_def)
  have "fold process_line (event_lines ev) empty_event = empty_event\<lparr>ev_ID := ev_ID ev,
      ev_Data := ev_Data ev @ [LF], ev_Event := ev_Event ev, ev_Retry := ev_Retry ev\<rparr>"
    using p by (simp add: event_lines_def process_id process_data_lines [OF pl] split_lf_join process_event
        process_retry process_comment empty_event_def)
  also have "\<dots> = (strip ev)\<lparr>ev_Data := ev_Data ev @ [LF]\<rparr>"
    by (cases ev) (simp add: strip_def empty_event_def)
  finally show ?thesis .
qed

lemma processEvent_block:
  assumes "wire_event ev"
  shows "processEvent False (butlast (body (event_lines ev))) = Inr (strip ev)"
    and "processEvent True (butlast (body (event_lines ev))) = Inr ((strip ev)\<lparr>ev_Data := fst (b64_Decode (ev_Data ev))\<rparr>)"
proof -
  have ne: "\<not> length (butlast (body (event_lines ev))) < 1"
    by (simp add: event_lines_def field_line_def butlast_append)
  have f: "fields_lines [] (butlast (body (event_lines ev))) = event_lines ev"
    using fields_lines_body event_lines_ok [OF assms] by blast
  show "processEvent False (butlast (body (event_lines ev))) = Inr (strip ev)"
    "processEvent True (butlast (body (event_lines ev))) = Inr ((strip ev)\<lparr>ev_Data := fst (b64_Decode (ev_Data ev))\<rparr>)"
    using ne by (simp_all add: processEvent_def f process_event_lines [OF assms] trim_lf_def Let_def strip_def)
qed

section \<open>A stream of events is a framed stream\<close>

definition sse_ok :: "nat \<Rightarrow> event \<Rightarrow> bool" where
  "sse_ok mx ev = (wire_event ev \<and> length (write_event True ev) \<le> mx)"

definition read_one_event :: "nat \<Rightarrow> bytes \<Rightarrow> error + event \<times> bytes" where
  "read_one_event mx inp =
     (case ReadEvent mx ErrEOF [] [inp] of
        Inl e \<Rightarrow> Inl e
      | Inr (tok, buf, cs) \<Rightarrow>
          (case processEvent False tok of Inl e \<Rightarrow> Inl e | Inr ev \<Rightarrow> Inr (ev, buf @ concat cs)))"

lemma ReadEvent_event:
  assumes "sse_ok mx ev" and "buf @ concat cs = write_event True ev @ rest"
  obtains buf' cs' where "ReadEvent mx fin buf cs = Inr (butlast (body (event_lines ev)), buf', cs')"
    "buf' @ concat cs' = rest"
proof -
  have w: "wire_event ev" and d: "write_event True ev = body (event_lines ev) @ [LF]"
    using assms(1) by (simp_all add: sse_ok_def write_event_lines wire_event_def)
  have "\<exists>buf' cs'. ReadEvent mx fin buf cs = Inr (butlast (body (event_lines ev)), buf', cs')
      \<and> buf' @ concat cs' = rest"
    using assms d event_lines_ok [OF w] by (intro ReadEvent_block) (auto simp: sse_ok_def)
  then show ?thesis using that by blast
qed

interpretation sse_frames: framing "write_event True" "read_one_event mx" "\<lambda>ev. sse_ok mx ev \<and> strip ev = ev" for mx
proof unfold_locales
  fix ev rest
  assume ok: "sse_ok mx ev \<and> strip ev = ev"
  then obtain buf' cs' where "ReadEvent mx ErrEOF [] [write_event True ev @ rest]
      = Inr (butlast (body (event_lines ev)), buf', cs')" "buf' @ concat cs' = rest"
    using ReadEvent_event [of mx ev "[]" "[write_event True ev @ rest]" rest] by auto
  then show "read_one_event mx (write_event True ev @ rest) = Inr (ev, rest)"
    using ok by (simp add: read_one_event_def sse_ok_def processEvent_block)
qed

text \<open>What the client makes of the data field.\<close>

definition received :: "bool \<Rightarrow> event \<Rightarrow> event" where
  "received b64 ev = (if b64 then (strip ev)\<lparr>ev_Data := fst (b64_Decode (ev_Data ev))\<rparr> else strip ev)"

lemma deliver_block:
  assumes "wire_event ev" and "ev_ID ev \<noteq> []"
  shows "deliver b64 (butlast (body (event_lines ev))) c = ([received b64 ev], c\<lparr>sc_LastEventID := ev_ID ev\<rparr>)"
  using assms processEvent_block [OF assms(1)]
  by (cases b64) (simp_all add: deliver_def received_def strip_def hasContent_def)

lemma readLoop_events:
  assumes "0 < mx" and "\<forall>ev\<in>set evs. sse_ok mx ev \<and> ev_ID ev \<noteq> []"
    and "buf @ concat cs = concat (map (write_event True) evs)"
  shows "\<exists>c'. readLoop b64 mx ErrEOF buf cs c = (map (received b64) evs, c', None)
            \<and> sc_LastEventID c' = (if evs = [] then sc_LastEventID c else ev_ID (last evs))"
  using assms(2,3)
proof (induction evs arbitrary: buf cs c)
  case Nil
  then have "ReadEvent mx ErrEOF buf cs = Inl ErrEOF" using ReadEvent_end [OF assms(1), of cs] by simp
  then show ?case by (simp add: readLoop.simps [of b64 mx ErrEOF buf cs])
next
  case (Cons ev evs)
  have ok: "sse_ok mx ev" "wire_event ev" "ev_ID ev \<noteq> []" using Cons.prems by (auto simp: sse_ok_def)
  obtain buf' cs' where rd: "ReadEvent mx ErrEOF buf cs = Inr (butlast (body (event_lines ev)), buf', cs')"
      "buf' @ concat cs' = concat (map (write_event True) evs)"
    using ReadEvent_event [OF ok(1), of buf cs "concat (map (write_event True) evs)"] Cons.prems(2) by auto
  let ?c1 = "(on_connect c)\<lparr>sc_LastEventID := ev_ID ev\<rparr>"
  obtain c' where c': "readLoop b64 mx ErrEOF buf' cs' ?c1 = (map (received b64) evs, c', None)"
      "sc_LastEventID c' = (if evs = [] then sc_LastEventID ?c1 else ev_ID (last evs))"
    using Cons.IH [OF _ rd(2), of ?c1] Cons.prems(1) by auto
  have "readLoop b64 mx ErrEOF buf cs c = (map (received b64) (ev # evs), c', None)"
    using rd(1) deliver_block [OF ok(2,3), of b64 "on_connect c"] c'(1)
    by (simp add: readLoop.simps [of b64 mx ErrEOF buf cs])
  with c'(2) show ?case by auto
qed

lemma split_lf_single: "LF \<notin> set d \<Longrightarrow> split_lf d = [d]"
  by (induction d) auto

lemma write_event_mode:
  assumes "LF \<notin> set (ev_Data ev)" and "CHR '':'' \<notin> set (ev_Data ev)"
  shows "write_event sd ev = write_event True ev"
  using assms by (cases "ev_Data ev") (auto simp: write_event_def split_lf_single simp del: split_lf.simps)

lemma serve_loop_concat:
  "\<forall>(now, ev)\<in>set evs. ev_Data ev \<noteq> [] \<Longrightarrow> serve_loop sd ttl evs =
     concat (map (write_event sd) (map snd (filter (\<lambda>(now, ev). \<not> expired ttl now ev) evs)))"
  by (induction evs) auto

section \<open>Properties\<close>

text \<open>
  C8: events reach the subscriber as they were published. The hypotheses on each event are those of \<open>sse_ok\<close> and a non-empty id: it has data (of any number of lines), no
  carriage return anywhere and no line feed in its id, name, retry and comment, and its block with the blank line fits the client's buffer of \<open>mx\<close> bytes. Then the bytes that the server writes in
  split-data mode, delivered in pieces of any size until the body ends with \<open>io.EOF\<close>, are read by a client that does not decode base64 as exactly the events that have not
  expired, in order and with id, name, retry and data as published (\<open>strip\<close> keeps these and drops the timestamp and the comment), and the client's last event id is that of the last one. An
  event without an id is not covered: the client gives it the id of the last event that had one.
\<close>

theorem sse_text_roundtrip:
  assumes "0 < mx" and "\<forall>(now, ev)\<in>set evs. sse_ok mx ev \<and> ev_ID ev \<noteq> []"
    and "concat cs = serve_loop True ttl evs"
    and "sent = map snd (filter (\<lambda>(now, ev). \<not> expired ttl now ev) evs)"
  shows "\<exists>c'. readLoop False mx ErrEOF [] cs c = (map strip sent, c', None)
            \<and> sc_LastEventID c' = (if sent = [] then sc_LastEventID c else ev_ID (last sent))"
proof -
  have "serve_loop True ttl evs = concat (map (write_event True) sent)"
    using assms(2,4) by (subst serve_loop_concat) (auto simp: sse_ok_def wire_event_def)
  moreover have "\<forall>ev\<in>set sent. sse_ok mx ev \<and> ev_ID ev \<noteq> []" using assms(2,4) by auto
  moreover have "received False = strip" by (simp add: fun_eq_iff received_def)
  ultimately show ?thesis using readLoop_events [OF assms(1), of sent "[]" cs False c] assms(3) by (metis append_Nil)
qed

theorem sse_text_roundtrip_witness:
  "\<exists>c'. readLoop False 65536 ErrEOF [] [''id: 7'' @ [LF], ''data: a'' @ [LF], ''data: b'' @ [LF, LF]]
       \<lparr>sc_LastEventID = [], sc_Connected = False, sc_connectedcb = True, sc_disconnectcb = False, sc_calls = []\<rparr>
     = ([empty_event\<lparr>ev_ID := ''7'', ev_Data := ''a'' @ LF # ''b''\<rparr>], c', None) \<and> sc_LastEventID c' = ''7''"
proof -
  let ?ev = "empty_event\<lparr>ev_ID := ''7'', ev_Data := ''a'' @ LF # ''b''\<rparr>"
  have w: "write_event True ?ev = ''id: 7'' @ [LF] @ ''data: a'' @ [LF] @ ''data: b'' @ [LF, LF]"
    by (simp add: write_event_def writeData_def empty_event_def)
  have ok: "sse_ok 65536 ?ev"
    unfolding sse_ok_def w by (simp add: wire_event_def plain_def empty_event_def)
  have s: "serve_loop True 0 [(0, ?ev)] = write_event True ?ev"
    by (simp add: expired_def empty_event_def)
  have "strip ?ev = ?ev" by (simp add: strip_def empty_event_def)
  then show ?thesis
    using sse_text_roundtrip [of 65536 "[(0, ?ev)]" "[''id: 7'' @ [LF], ''data: a'' @ [LF], ''data: b'' @ [LF, LF]]"
        0 "[?ev]"] ok s w by (simp add: expired_def empty_event_def)
qed

text \<open>
  With base64 on both sides any bytes can be sent, line breaks and carriage returns included and in
  either data mode: what the client hands out is the data that was published.
\<close>

theorem sse_base64_roundtrip:
  assumes "0 < mx" and "concat cs = concat (map (write_event sd \<circ> encodeBase64) evs)"
    and "\<forall>ev\<in>set evs. ev_Data ev \<noteq> [] \<and> ev_ID ev \<noteq> [] \<and> plain (ev_ID ev) \<and> plain (ev_Event ev)
          \<and> plain (ev_Retry ev) \<and> plain (ev_Comment ev) \<and> length (write_event True (encodeBase64 ev)) \<le> mx"
  shows "\<exists>c'. readLoop True mx ErrEOF [] cs c = (map strip evs, c', None)"
proof -
  let ?es = "map encodeBase64 evs"
  have "write_event sd (encodeBase64 ev) = write_event True (encodeBase64 ev)" for ev
    using b64_Encode_plain [of "ev_Data ev"] by (intro write_event_mode) (simp_all add: encodeBase64_def)
  then have "concat cs = concat (map (write_event True) ?es)" using assms(2) by (simp add: comp_def)
  moreover have "\<forall>ev\<in>set ?es. sse_ok mx ev \<and> ev_ID ev \<noteq> []"
    using assms(3) b64_Encode_plain by (auto simp: sse_ok_def wire_event_def encodeBase64_def plain_def)
  ultimately obtain c' where "readLoop True mx ErrEOF [] cs c = (map (received True) ?es, c', None)"
    using readLoop_events [OF assms(1), of ?es "[]" cs True c] by auto
  moreover have "map (received True) ?es = map strip evs"
    using assms(3) by (auto simp: received_def encodeBase64_def strip_def b64_Decode_Encode b64_filter_Encode)
  ultimately show ?thesis by simp
qed

theorem sse_base64_roundtrip_witness:
  "\<exists>cs c'. concat cs = write_event False (encodeBase64 (empty_event\<lparr>ev_ID := ''1'', ev_Data := [CR, LF, LF]\<rparr>)) \<and>
     readLoop True 65536 ErrEOF [] cs
       \<lparr>sc_LastEventID = [], sc_Connected = False, sc_connectedcb = True, sc_disconnectcb = False, sc_calls = []\<rparr>
     = ([empty_event\<lparr>ev_ID := ''1'', ev_Data := [CR, LF, LF]\<rparr>], c', None)"
proof -
  let ?ev = "empty_event\<lparr>ev_ID := ''1'', ev_Data := [CR, LF, LF]\<rparr>"
  let ?cs = "[write_event False (encodeBase64 ?ev)]"
  have len: "length (write_event True (encodeBase64 ?ev)) \<le> 65536"
    using b64_Encode_plain [of "[CR, LF, LF]"]
    by (simp add: encodeBase64_def write_event_def split_lf_single writeData_def empty_event_def Let_def del: split_lf.simps)
  have "strip ?ev = ?ev" by (simp add: strip_def empty_event_def)
  then show ?thesis
    using sse_base64_roundtrip [of 65536 ?cs False "[?ev]"] len
    by (intro exI [of _ ?cs]) (simp add: plain_def empty_event_def)
qed

text \<open>
  An event that carries only metadata (an id, a name or a retry delay, but neither data nor a comment)
  does not end the response, but none of its fields is written: the client receives a blank line, and
  hands out no event, or one with nothing but the id of an earlier event.
\<close>

theorem sse_metadata_event_is_lost:
  assumes "ev_Data ev = []" and "ev_Comment ev = []" and "ev_ID ev \<noteq> [] \<or> ev_Retry ev \<noteq> [] \<or> ev_Event ev \<noteq> []"
    and "\<not> expired ttl now ev"
  shows "serve_loop sd ttl ((now, ev) # evs) = [LF] @ serve_loop sd ttl evs
       \<and> fst (readLoop b64 65536 ErrEOF [] [serve_loop sd ttl [(now, ev)]] c) =
            (if sc_LastEventID c = [] then [] else [empty_event\<lparr>ev_ID := sc_LastEventID c\<rparr>])"
proof -
  have l: "serve_loop sd ttl [(now, ev)] = [LF]" using assms by (auto simp: write_event_def)
  have cdn: "fst (containsDoubleNewline [LF]) = -1"
    by (simp add: containsDoubleNewline_def Let_def bytes_Index_Cons minPosInt_def)
  have rd: "ReadEvent 65536 ErrEOF [] [[LF]] = Inr ([LF], [], [])"
    using cdn by (simp add: ReadEvent.simps split_event_def case_prod_beta)
  have dl: "fst (deliver b64 [LF] c1) = (if sc_LastEventID c1 = [] then [] else [empty_event\<lparr>ev_ID := sc_LastEventID c1\<rparr>])"
    for c1
    by (simp add: deliver_def processEvent_def empty_event_def trim_lf_def hasContent_def b64_Decode_def Let_def)
  have nil: "ReadEvent 65536 ErrEOF [] [] = Inl ErrEOF" by (intro ReadEvent_end) simp_all
  have oc: "sc_LastEventID (on_connect c) = sc_LastEventID c" by (simp add: on_connect_def)
  show ?thesis
    using assms l rd nil dl [of "on_connect c"] oc
    by (simp add: readLoop.simps [of b64 _ _ "[]" "[[LF]]"] readLoop.simps [of b64 _ _ "[]" "[]"] case_prod_beta Let_def
        write_event_def)
qed

theorem sse_metadata_event_is_lost_witness:
  "serve_loop True 0 [(0, empty_event\<lparr>ev_Retry := ''500''\<rparr>)] = [LF]"
  using sse_metadata_event_is_lost [of "empty_event\<lparr>ev_Retry := ''500''\<rparr>" 0 0 True "[]"]
  by (simp add: empty_event_def expired_def)

text \<open>
  A client that decodes base64 does not notice corrupt data: \<open>processEvent\<close> returns the bytes decoded
  before the corruption and no error, so the consumer gets a truncated event.
\<close>

theorem sse_corrupt_base64_is_delivered:
  assumes "wire_event ev" and "snd (b64_Decode (ev_Data ev))"
  shows "\<exists>e. processEvent True (butlast (body (event_lines ev))) = Inr e
            \<and> ev_Data e = fst (b64_Decode (ev_Data ev)) \<and> ev_ID e = ev_ID ev"
  using processEvent_block(2) [OF assms(1)] by (simp add: strip_def)

theorem sse_corrupt_base64_is_delivered_witness:
  "\<exists>e. processEvent True (butlast (body (event_lines (empty_event\<lparr>ev_ID := ''1'', ev_Data := ''aGkh!bad''\<rparr>)))) = Inr e
     \<and> ev_Data e = ''hi!''"
proof -
  let ?ev = "empty_event\<lparr>ev_ID := ''1'', ev_Data := ''aGkh!bad''\<rparr>"
  have d: "b64_Decode ''aGkh!bad'' = (''hi!'', True)"
    by code_simp
  have "wire_event ?ev" by (simp add: wire_event_def plain_def empty_event_def)
  from sse_corrupt_base64_is_delivered [OF this] d show ?thesis by auto
qed

end
