(* ===== verification/Sse_Stream.thy ===== *)
theory Sse_Stream
  imports Sse_Wire "HOL-Library.Char_ord" "HOL-Library.List_Lexorder"
begin

text \<open>
  One SSE stream: \<open>transport/sse/event_log.go\<close>, \<open>stream.go\<close> and the channels of \<open>subscriber.go\<close>. A stream
  is a goroutine that takes registrations, deregistrations, events and the quit signal from channels and
  sends events to the bounded channels of its subscribers, where it can block. The model is a step
  relation: a step is one branch of the loop's \<open>select\<close>, one send of a branch that sends several events,
  or one act of a publisher, a subscriber or a consumer. Event ids are compared as Go compares strings,
  byte by byte (the lexicographic order on strings).
\<close>

section \<open>The event log\<close>

definition maxEventLogSize :: nat where
  "maxEventLogSize = 1024"

text \<open>
  \<open>Add\<close>: \<open>nid\<close> is the result of \<open>newEventID\<close> (the 32 digits of a UUID, so not empty) and \<open>now\<close> the time. It changes the event it is given (a
  pointer), so it returns the event with the log.
\<close>

definition EventLog_Add :: "string \<Rightarrow> int \<Rightarrow> event \<Rightarrow> event list \<Rightarrow> event \<times> event list" where
  "EventLog_Add nid now ev log =
     (if \<not> hasContent ev then (ev, log)
      else
        let ev1 = ev\<lparr>ev_ID := nid, ev_timestamp := Some now\<rparr>;
            log1 = log @ [ev1];
            n = length log1
        in (ev1, if n > maxEventLogSize then drop (n - maxEventLogSize) log1 else log1))"

definition EventLog_Clear :: "event list \<Rightarrow> event list" where
  "EventLog_Clear log = []"

text \<open>\<open>Replay\<close>: the events sent to a subscriber, in order.\<close>

definition EventLog_Replay :: "event list \<Rightarrow> string \<Rightarrow> event list" where
  "EventLog_Replay log eventId = filter (\<lambda>e. ev_ID e > eventId) log"

section \<open>State\<close>

text \<open>
  A subscriber. \<open>su_conn\<close> is the content of its connection channel, \<open>su_closed\<close> whether that was closed,
  \<open>su_removed\<close> the signals on the removed channel (made when \<open>su_hasRemoved\<close>). For the statements:
  \<open>su_sent\<close> lists what was ever sent to the channel, \<open>su_replay\<close> what was due for replay and \<open>su_from\<close> how
  many events the stream had handled when the subscriber was registered.
\<close>

record subscriber =
  su_eventId :: string
  su_conn :: "event list"
  su_closed :: bool
  su_hasRemoved :: bool
  su_removed :: nat
  su_sent :: "event list"
  su_replay :: "event list"
  su_from :: nat

text \<open>What the goroutine is doing: waiting, sending what a branch still has to send, or ended.\<close>

datatype loop = Idle | Sending "(nat \<times> event) list" | Stopped

text \<open>
  The counter is an \<open>int32\<close> that wraps. \<open>st_registering\<close> and \<open>st_deregistering\<close> are the subscribers whose goroutines wait in a send on the
  unbuffered channels; \<open>st_history\<close> lists the events the loop has handled and \<open>st_calls\<close> the callbacks
  started (true for \<open>onSubscribe\<close>).
\<close>

record stream =
  st_id :: string
  st_bufSize :: nat
  st_autoReplay :: bool
  st_autoStream :: bool
  st_onSubscribe :: bool
  st_onUnsubscribe :: bool
  st_event :: "event list"
  st_quit :: bool
  st_eventLog :: "event list"
  st_subscribers :: "nat list"
  st_subscriberCount :: "32 word"
  st_registering :: "nat list"
  st_deregistering :: "nat list"
  st_loop :: loop
  st_subs :: "nat \<Rightarrow> subscriber option"
  st_next :: nat
  st_history :: "event list"
  st_calls :: "(bool \<times> nat) list"

definition newStream :: "string \<Rightarrow> nat \<Rightarrow> bool \<Rightarrow> bool \<Rightarrow> bool \<Rightarrow> bool \<Rightarrow> stream" where
  "newStream i buffSize replay autoStream onSubscribe onUnsubscribe =
     \<lparr>st_id = i, st_bufSize = buffSize, st_autoReplay = replay, st_autoStream = autoStream,
      st_onSubscribe = onSubscribe, st_onUnsubscribe = onUnsubscribe, st_event = [], st_quit = False,
      st_eventLog = [], st_subscribers = [], st_subscriberCount = 0, st_registering = [],
      st_deregistering = [], st_loop = Idle, st_subs = (\<lambda>_. None), st_next = 0, st_history = [], st_calls = []\<rparr>"

section \<open>Operations of other goroutines\<close>

text \<open>\<open>addSubscriber\<close> up to its send on \<open>register\<close>, which waits for the loop.\<close>

definition addSubscriber :: "string \<Rightarrow> stream \<Rightarrow> stream" where
  "addSubscriber eventId s =
     (let sub = \<lparr>su_eventId = eventId, su_conn = [], su_closed = False, su_hasRemoved = st_autoStream s,
                 su_removed = 0, su_sent = [], su_replay = [], su_from = 0\<rparr>
      in s\<lparr>st_subscriberCount := st_subscriberCount s + 1, st_subs := (st_subs s)(st_next s \<mapsto> sub),
           st_registering := st_registering s @ [st_next s], st_next := Suc (st_next s)\<rparr>)"

definition Stream_close :: "stream \<Rightarrow> stream" where
  "Stream_close s = s\<lparr>st_quit := True\<rparr>"

text \<open>A send to the event channel that goes through; \<open>Publish\<close> and \<open>TryPublish\<close> differ only in waiting.\<close>

definition send_event :: "event \<Rightarrow> stream \<Rightarrow> stream" where
  "send_event ev s = s\<lparr>st_event := st_event s @ [ev]\<rparr>"

text \<open>\<open>Subscriber.close\<close>: the goroutine waits to send on the deregister channel, and may give up.\<close>

definition Subscriber_close :: "nat \<Rightarrow> stream \<Rightarrow> stream" where
  "Subscriber_close i s = s\<lparr>st_deregistering := st_deregistering s @ [i]\<rparr>"

definition Subscriber_close_gives_up :: "nat \<Rightarrow> stream \<Rightarrow> stream" where
  "Subscriber_close_gives_up i s = s\<lparr>st_deregistering := remove1 i (st_deregistering s)\<rparr>"

text \<open>The consumer takes an event from its connection channel.\<close>

definition receive :: "nat \<Rightarrow> stream \<Rightarrow> stream" where
  "receive i s =
     (case st_subs s i of
        Some sub \<Rightarrow> s\<lparr>st_subs := (st_subs s)(i \<mapsto> sub\<lparr>su_conn := tl (su_conn sub)\<rparr>)\<rparr>
      | None \<Rightarrow> s)"

section \<open>The loop\<close>

definition getSubIndex :: "stream \<Rightarrow> nat \<Rightarrow> int" where
  "getSubIndex s sub =
     (let k = length (takeWhile (\<lambda>j. j \<noteq> sub) (st_subscribers s))
      in if k < length (st_subscribers s) then int k else -1)"

text \<open>Closing a subscriber's channels; a second close would panic, which the invariant excludes.\<close>

definition close_sub :: "nat \<Rightarrow> stream \<Rightarrow> stream" where
  "close_sub i s =
     (case st_subs s i of
        Some sub \<Rightarrow> s\<lparr>st_subs := (st_subs s)(i \<mapsto> sub\<lparr>su_closed := True,
             su_removed := (if su_hasRemoved sub then Suc (su_removed sub) else su_removed sub)\<rparr>)\<rparr>
      | None \<Rightarrow> s)"

definition removeSubscriber :: "nat \<Rightarrow> stream \<Rightarrow> stream" where
  "removeSubscriber k s =
     (let s1 = close_sub (st_subscribers s ! k) (s\<lparr>st_subscriberCount := st_subscriberCount s - 1\<rparr>)
      in s1\<lparr>st_subscribers := take k (st_subscribers s) @ drop (Suc k) (st_subscribers s)\<rparr>)"

definition removeAllSubscribers :: "stream \<Rightarrow> stream" where
  "removeAllSubscribers s =
     (let s1 = fold close_sub (st_subscribers s) s in s1\<lparr>st_subscriberCount := 0, st_subscribers := []\<rparr>)"

definition getSubscriberCount :: "stream \<Rightarrow> int" where
  "getSubscriberCount s = sint (st_subscriberCount s)"

definition sending :: "(nat \<times> event) list \<Rightarrow> loop" where
  "sending ps = (if ps = [] then Idle else Sending ps)"

text \<open>The four branches of \<open>run\<close>. After a registration its caller goes on and starts \<open>onSubscribe\<close>.\<close>

definition run_register :: "nat \<Rightarrow> stream \<Rightarrow> stream" where
  "run_register i s =
     (case st_subs s i of
        None \<Rightarrow> s
      | Some sub \<Rightarrow>
          (let due = (if st_autoReplay s then EventLog_Replay (st_eventLog s) (su_eventId sub) else [])
           in s\<lparr>st_registering := remove1 i (st_registering s),
                st_subscribers := st_subscribers s @ [i],
                st_subs := (st_subs s)(i \<mapsto> sub\<lparr>su_replay := due, su_from := length (st_history s)\<rparr>),
                st_loop := sending (map (Pair i) due),
                st_calls := (if st_onSubscribe s then st_calls s @ [(True, i)] else st_calls s)\<rparr>))"

definition run_deregister :: "nat \<Rightarrow> stream \<Rightarrow> stream" where
  "run_deregister i s =
     (let k = getSubIndex s i;
          s1 = (if k \<noteq> -1 then removeSubscriber (nat k) s else s)
      in s1\<lparr>st_deregistering := remove1 i (st_deregistering s1),
            st_calls := (if st_onUnsubscribe s1 then st_calls s1 @ [(False, i)] else st_calls s1)\<rparr>)"

definition run_event :: "string \<Rightarrow> int \<Rightarrow> stream \<Rightarrow> stream" where
  "run_event nid now s =
     (case st_event s of
        [] \<Rightarrow> s
      | ev # q \<Rightarrow>
          (let (ev1, log1) = (if st_autoReplay s then EventLog_Add nid now ev (st_eventLog s)
                              else (ev, st_eventLog s))
           in s\<lparr>st_event := q, st_eventLog := log1, st_history := st_history s @ [ev1],
                st_loop := sending (map (\<lambda>i. (i, ev1)) (st_subscribers s))\<rparr>))"

definition run_quit :: "stream \<Rightarrow> stream" where
  "run_quit s = (removeAllSubscribers s)\<lparr>st_loop := Stopped\<rparr>"

text \<open>One send to a connection channel, of capacity 64.\<close>

definition connCap :: nat where
  "connCap = 64"

definition run_send :: "stream \<Rightarrow> stream" where
  "run_send s =
     (case st_loop s of
        Sending ((i, ev) # ps) \<Rightarrow>
          (case st_subs s i of
             Some sub \<Rightarrow> s\<lparr>st_subs := (st_subs s)(i \<mapsto> sub\<lparr>su_conn := su_conn sub @ [ev], su_sent := su_sent sub @ [ev]\<rparr>),
                           st_loop := sending ps\<rparr>
           | None \<Rightarrow> s)
      | _ \<Rightarrow> s)"

text \<open>Whether the send at hand goes through: \<open>Some True\<close>; \<open>None\<close> is Go's panic on a closed channel.\<close>

definition send_ready :: "stream \<Rightarrow> bool option" where
  "send_ready s =
     (case st_loop s of
        Sending ((i, ev) # ps) \<Rightarrow>
          (case st_subs s i of
             Some sub \<Rightarrow> if su_closed sub then None else Some (length (su_conn sub) < connCap)
           | None \<Rightarrow> None)
      | _ \<Rightarrow> Some False)"

text \<open>
  Sending to the event channel puts the event into its buffer; without a buffer (\<open>hand_over\<close>) the loop takes it from the sender at once.
\<close>

inductive stream_step :: "stream \<Rightarrow> stream \<Rightarrow> bool" where
  subscribe: "stream_step s (addSubscriber eventId s)"
| register: "st_loop s = Idle \<Longrightarrow> i \<in> set (st_registering s) \<Longrightarrow> stream_step s (run_register i s)"
| unsubscribe: "i < st_next s \<Longrightarrow> stream_step s (Subscriber_close i s)"
| give_up: "i \<in> set (st_deregistering s) \<Longrightarrow> stream_step s (Subscriber_close_gives_up i s)"
| deregister: "st_loop s = Idle \<Longrightarrow> i \<in> set (st_deregistering s) \<Longrightarrow> stream_step s (run_deregister i s)"
| publish: "length (st_event s) < st_bufSize s \<Longrightarrow> stream_step s (send_event ev s)"
| hand_over: "st_bufSize s = 0 \<Longrightarrow> st_loop s = Idle \<Longrightarrow> st_event s = [] \<Longrightarrow> nid \<noteq> [] \<Longrightarrow> stream_step s (run_event nid now (send_event ev s))"
| handle: "st_loop s = Idle \<Longrightarrow> st_event s \<noteq> [] \<Longrightarrow> nid \<noteq> [] \<Longrightarrow> stream_step s (run_event nid now s)"
| quit: "st_loop s = Idle \<Longrightarrow> st_quit s \<Longrightarrow> stream_step s (run_quit s)"
| close: "stream_step s (Stream_close s)"
| send: "send_ready s = Some True \<Longrightarrow> stream_step s (run_send s)"
| consume: "st_subs s i = Some sub \<Longrightarrow> su_conn sub \<noteq> [] \<Longrightarrow> stream_step s (receive i s)"

inductive stream_reachable :: "stream \<Rightarrow> bool" where
  init: "stream_reachable (newStream i buffSize replay autoStream onSub onUnsub)"
| step: "stream_reachable s \<Longrightarrow> stream_step s s' \<Longrightarrow> stream_reachable s'"

section \<open>The invariant\<close>

definition pend :: "stream \<Rightarrow> nat \<Rightarrow> event list" where
  "pend s i = (case st_loop s of Sending ps \<Rightarrow> map snd (filter (\<lambda>(j, e). j = i) ps) | _ \<Rightarrow> [])"

definition loop_ok :: "stream \<Rightarrow> bool" where
  "loop_ok s = (case st_loop s of
      Idle \<Rightarrow> True
    | Sending ps \<Rightarrow> ps \<noteq> [] \<and> fst ` set ps \<subseteq> set (st_subscribers s)
    | Stopped \<Rightarrow> st_subscribers s = [])"

text \<open>Subscribers are open, known and listed once; the counter counts them and those about to register.\<close>

definition stream_wf :: "stream \<Rightarrow> bool" where
  "stream_wf s \<longleftrightarrow>
     distinct (st_subscribers s @ st_registering s) \<and>
     (\<forall>i\<in>set (st_subscribers s) \<union> set (st_registering s). \<exists>sub. st_subs s i = Some sub \<and> \<not> su_closed sub) \<and>
     (\<forall>i\<in>set (st_registering s). \<exists>sub. st_subs s i = Some sub \<and> su_sent sub = []) \<and>
     (\<forall>i\<ge>st_next s. st_subs s i = None) \<and> loop_ok s \<and>
     (st_loop s \<noteq> Stopped \<longrightarrow>
        st_subscriberCount s = word_of_nat (length (st_subscribers s) + length (st_registering s)))"

text \<open>What was sent to a subscriber, with what is being sent, is its replay and all events since.\<close>

definition delivered :: "stream \<Rightarrow> bool" where
  "delivered s \<longleftrightarrow>
     (\<forall>i\<in>set (st_subscribers s). \<forall>sub. st_subs s i = Some sub \<longrightarrow>
        su_sent sub @ pend s i = su_replay sub @ drop (su_from sub) (st_history s)
        \<and> su_from sub \<le> length (st_history s))"

definition lastn :: "nat \<Rightarrow> 'a list \<Rightarrow> 'a list" where
  "lastn n xs = drop (length xs - n) xs"

definition log_window :: "stream \<Rightarrow> bool" where
  "log_window s \<longleftrightarrow> length (st_eventLog s) \<le> maxEventLogSize \<and>
     (st_autoReplay s \<longrightarrow> st_eventLog s = lastn maxEventLogSize (filter hasContent (st_history s)))"

definition conn_ok :: "subscriber \<Rightarrow> bool" where
  "conn_ok sub \<longleftrightarrow> length (su_conn sub) \<le> connCap \<and> (\<exists>got. su_sent sub = got @ su_conn sub)"

definition channels :: "stream \<Rightarrow> bool" where
  "channels s \<longleftrightarrow> (\<forall>i sub. st_subs s i = Some sub \<longrightarrow> conn_ok sub)"

definition stream_inv :: "stream \<Rightarrow> bool" where
  "stream_inv s \<longleftrightarrow> stream_wf s \<and> delivered s \<and> log_window s \<and> channels s"

lemma lastn_snoc: "0 < n \<Longrightarrow> lastn n (xs @ [x]) = drop (length (lastn n xs @ [x]) - n) (lastn n xs @ [x])"
  by (cases "length xs < n") (auto simp: lastn_def Suc_diff_le)

lemma length_lastn [simp]: "length (lastn n xs) = min n (length xs)"
  by (auto simp: lastn_def)

lemma inv_new: "stream_inv (newStream i b r a f g)"
  by (simp add: stream_inv_def newStream_def stream_wf_def loop_ok_def delivered_def log_window_def
      channels_def lastn_def)

text \<open>Steps that leave subscribers, loop, log and history alone.\<close>

lemma inv_frame:
  assumes "stream_inv s" and "st_subscribers s' = st_subscribers s" "st_registering s' = st_registering s"
    "st_subs s' = st_subs s" "st_next s' = st_next s" "st_loop s' = st_loop s"
    "st_subscriberCount s' = st_subscriberCount s" "st_history s' = st_history s"
    "st_eventLog s' = st_eventLog s" "st_autoReplay s' = st_autoReplay s"
  shows "stream_inv s'"
  using assms(1)
  unfolding stream_inv_def stream_wf_def delivered_def log_window_def channels_def loop_ok_def pend_def
    assms(2-10) .

lemma stream_wfD:
  assumes "stream_wf s" and "st_subs s i = Some sub"
  shows "i < st_next s" and "i \<in> set (st_subscribers s) \<union> set (st_registering s) \<Longrightarrow> \<not> su_closed sub"
    and "i \<in> set (st_registering s) \<Longrightarrow> su_sent sub = []"
proof -
  show "i < st_next s"
  proof (rule ccontr)
    assume "\<not> i < st_next s"
    then have "st_subs s i = None" using assms(1) by (simp add: stream_wf_def)
    then show False using assms(2) by simp
  qed
  show "\<not> su_closed sub" if "i \<in> set (st_subscribers s) \<union> set (st_registering s)"
    using that assms unfolding stream_wf_def by (metis option.inject)
  show "su_sent sub = []" if "i \<in> set (st_registering s)"
    using that assms unfolding stream_wf_def by (metis option.inject)
qed

text \<open>Changing the record of one subscriber, without closing it.\<close>

lemma stream_wf_upd:
  assumes "stream_wf s" and "st_subs s i = Some sub" and "su_closed sub' = su_closed sub"
    and "i \<in> set (st_registering s) \<Longrightarrow> su_sent sub' = su_sent sub"
  shows "stream_wf (s\<lparr>st_subs := (st_subs s)(i \<mapsto> sub')\<rparr>)"
  using assms(1) stream_wfD [OF assms(1,2)] assms(3,4)
  by (auto simp: stream_wf_def loop_ok_def split: loop.splits)

lemma inv_subscribe: "stream_inv s \<Longrightarrow> stream_inv (addSubscriber e s)"
proof -
  assume inv: "stream_inv s"
  then have wf: "stream_wf s" by (simp add: stream_inv_def)
  then have fresh: "st_next s \<notin> set (st_subscribers s) \<union> set (st_registering s)"
  proof -
    have "st_subs s (st_next s) = None" using wf by (simp add: stream_wf_def)
    moreover have "\<forall>i\<in>set (st_subscribers s) \<union> set (st_registering s). st_subs s i \<noteq> None"
      using wf unfolding stream_wf_def by (metis option.distinct(1))
    ultimately show ?thesis by blast
  qed
  let ?s = "addSubscriber e s"
  have "stream_wf ?s"
    using wf fresh by (auto simp: stream_wf_def addSubscriber_def Let_def loop_ok_def split: loop.splits)
  moreover have "delivered ?s"
    using inv fresh by (auto simp: stream_inv_def delivered_def addSubscriber_def Let_def pend_def)
  moreover have "log_window ?s" using inv by (simp add: stream_inv_def log_window_def addSubscriber_def Let_def)
  moreover have "channels ?s"
    using inv by (auto simp: stream_inv_def channels_def addSubscriber_def Let_def conn_ok_def)
  ultimately show ?thesis by (simp add: stream_inv_def)
qed

lemma inv_register:
  assumes inv: "stream_inv s" and idle: "st_loop s = Idle" and i: "i \<in> set (st_registering s)"
  shows "stream_inv (run_register i s)"
proof -
  have wf: "stream_wf s" using inv by (simp add: stream_inv_def)
  then obtain sub where sub: "st_subs s i = Some sub" "\<not> su_closed sub" "su_sent sub = []"
    using i by (fastforce simp: stream_wf_def)
  have ni: "i \<notin> set (st_subscribers s)" using wf i by (auto simp: stream_wf_def)
  let ?s = "run_register i s"
  let ?due = "if st_autoReplay s then EventLog_Replay (st_eventLog s) (su_eventId sub) else []"
  have "length (st_registering s) = Suc (length (remove1 i (st_registering s)))"
    using i length_pos_if_in_set [of i "st_registering s"] by (simp add: length_remove1)
  then have len: "(word_of_nat (length (st_registering s)) :: 32 word) = 1 + word_of_nat (length (remove1 i (st_registering s)))" by simp
  have "stream_wf ?s"
    using wf sub i ni len idle
    by (auto simp: stream_wf_def run_register_def Let_def loop_ok_def sending_def distinct_remove1
        dest: notin_set_remove1)
  moreover have "delivered ?s"
    using inv sub ni idle
    by (auto simp: stream_inv_def delivered_def run_register_def Let_def pend_def sending_def filter_map comp_def)
  moreover have "log_window ?s"
    using inv sub by (simp add: stream_inv_def log_window_def run_register_def Let_def)
  moreover have "conn_ok sub" using inv sub by (simp add: stream_inv_def channels_def)
  then have "channels ?s"
    using inv sub by (auto simp: stream_inv_def channels_def run_register_def Let_def conn_ok_def [of "sub\<lparr>su_replay := _, su_from := _\<rparr>"] conn_ok_def [of sub])
  ultimately show ?thesis by (simp add: stream_inv_def)
qed

lemma one_of_each:
  "distinct xs \<Longrightarrow> i \<in> set xs \<Longrightarrow> map snd (filter (\<lambda>(j, e). j = i) (map (\<lambda>i. (i, ev)) xs)) = [ev]"
proof (induction xs)
  case (Cons x xs)
  have "filter (\<lambda>(j, e). j = i) (map (\<lambda>i. (i, ev)) xs) = []" if "i \<notin> set xs"
    using that by (auto simp: filter_empty_conv)
  then show ?case using Cons by auto
qed simp

lemma log_window_add:
  assumes "log_window s" and "st_autoReplay s" and "EventLog_Add nid now ev (st_eventLog s) = (ev1, log1)"
    and "nid \<noteq> []"
  shows "length log1 \<le> maxEventLogSize \<and> log1 = lastn maxEventLogSize (filter hasContent (st_history s @ [ev1]))"
proof (cases "hasContent ev")
  case False
  then show ?thesis using assms by (auto simp: EventLog_Add_def log_window_def)
next
  case True
  let ?h = "filter hasContent (st_history s)"
  have "hasContent ev1" using assms(3,4) True by (auto simp: EventLog_Add_def hasContent_def Let_def)
  moreover have "log1 = drop (length (st_eventLog s @ [ev1]) - maxEventLogSize) (st_eventLog s @ [ev1])"
    using assms(3) True by (auto simp: EventLog_Add_def Let_def split: if_splits)
  moreover have "st_eventLog s = lastn maxEventLogSize ?h" using assms(1,2) by (simp add: log_window_def)
  ultimately show ?thesis
    using lastn_snoc [of maxEventLogSize ?h ev1] by (simp add: maxEventLogSize_def)
qed

lemma inv_event:
  assumes inv: "stream_inv s" and idle: "st_loop s = Idle" and ne: "st_event s \<noteq> []" and nid: "nid \<noteq> []"
  shows "stream_inv (run_event nid now s)"
proof -
  obtain ev q where ev: "st_event s = ev # q" using ne by (cases "st_event s") auto
  obtain ev1 log1 where ev1: "(if st_autoReplay s then EventLog_Add nid now ev (st_eventLog s)
      else (ev, st_eventLog s)) = (ev1, log1)" by force
  let ?s = "run_event nid now s"
  have s': "?s = s\<lparr>st_event := q, st_eventLog := log1, st_history := st_history s @ [ev1],
      st_loop := sending (map (\<lambda>i. (i, ev1)) (st_subscribers s))\<rparr>"
    using ev ev1 by (simp add: run_event_def)
  have wf: "stream_wf s" using inv by (simp add: stream_inv_def)
  then have "stream_wf ?s" using idle unfolding s' by (auto simp: stream_wf_def loop_ok_def sending_def)
  moreover have "delivered ?s"
  proof -
    have "pend ?s i = [ev1]" if "i \<in> set (st_subscribers s)" for i
      using that wf one_of_each [of "st_subscribers s" i ev1] unfolding s'
      by (auto simp: pend_def sending_def stream_wf_def)
    then show ?thesis using inv idle unfolding s' by (auto simp: stream_inv_def delivered_def pend_def)
  qed
  moreover have "log_window ?s"
    using inv ev1 log_window_add [of s nid now ev ev1 log1] nid unfolding s'
    by (auto simp: stream_inv_def log_window_def split: if_splits)
  moreover have "channels ?s" using inv unfolding s' by (auto simp: stream_inv_def channels_def)
  ultimately show ?thesis by (simp add: stream_inv_def)
qed

lemma inv_send:
  assumes inv: "stream_inv s" and rdy: "send_ready s = Some True"
  shows "stream_inv (run_send s)"
proof -
  obtain i ev ps sub where lp: "st_loop s = Sending ((i, ev) # ps)" and sub: "st_subs s i = Some sub"
      "\<not> su_closed sub" "length (su_conn sub) < connCap"
    using rdy by (auto simp: send_ready_def split: loop.splits list.splits option.splits if_splits)
  let ?s = "run_send s"
  have s': "?s = s\<lparr>st_subs := (st_subs s)(i \<mapsto> sub\<lparr>su_conn := su_conn sub @ [ev], su_sent := su_sent sub @ [ev]\<rparr>),
      st_loop := sending ps\<rparr>"
    using lp sub by (simp add: run_send_def)
  have wf: "stream_wf s" using inv by (simp add: stream_inv_def)
  have i: "i \<in> set (st_subscribers s)" "i \<notin> set (st_registering s)"
    using wf lp by (auto simp: stream_wf_def loop_ok_def)
  let ?sub = "sub\<lparr>su_conn := su_conn sub @ [ev], su_sent := su_sent sub @ [ev]\<rparr>"
  have "stream_wf (s\<lparr>st_subs := (st_subs s)(i \<mapsto> ?sub)\<rparr>)"
    using i by (intro stream_wf_upd [OF wf sub(1)]) simp_all
  then have "stream_wf ?s"
    using lp unfolding s' by (auto simp: stream_wf_def loop_ok_def sending_def)
  moreover have "delivered ?s"
  proof -
    have "pend s j = (if j = i then ev # pend ?s j else pend ?s j)" for j
      using lp unfolding s' by (auto simp: pend_def sending_def)
    then show ?thesis using inv sub i unfolding s' by (auto simp: stream_inv_def delivered_def)
  qed
  moreover have "log_window ?s" using inv unfolding s' by (auto simp: stream_inv_def log_window_def)
  moreover have "channels ?s" using inv sub unfolding s' by (auto simp: stream_inv_def channels_def conn_ok_def)
  ultimately show ?thesis by (simp add: stream_inv_def)
qed

lemma inv_receive:
  assumes inv: "stream_inv s" and sub: "st_subs s i = Some sub" and ne: "su_conn sub \<noteq> []"
  shows "stream_inv (receive i s)"
proof -
  let ?s = "receive i s"
  have s': "?s = s\<lparr>st_subs := (st_subs s)(i \<mapsto> sub\<lparr>su_conn := tl (su_conn sub)\<rparr>)\<rparr>"
    using sub by (simp add: receive_def)
  obtain x xs where xs: "su_conn sub = x # xs" using ne by (cases "su_conn sub") auto
  have "stream_wf ?s"
    using inv unfolding s' by (intro stream_wf_upd [OF _ sub]) (simp_all add: stream_inv_def)
  moreover have "delivered ?s" using inv sub unfolding s' by (auto simp: stream_inv_def delivered_def pend_def)
  moreover have "log_window ?s" using inv unfolding s' by (auto simp: stream_inv_def log_window_def)
  moreover have "channels ?s"
  proof -
    have "conn_ok sub" using inv sub by (auto simp: stream_inv_def channels_def)
    then have "conn_ok (sub\<lparr>su_conn := xs\<rparr>)" using xs by (auto simp: conn_ok_def)
    then show ?thesis using inv xs unfolding s' by (auto simp: stream_inv_def channels_def)
  qed
  ultimately show ?thesis by (simp add: stream_inv_def)
qed

lemma index_remove:
  assumes "i \<in> set xs"
  shows "length (takeWhile (\<lambda>j. j \<noteq> i) xs) < length xs" "xs ! length (takeWhile (\<lambda>j. j \<noteq> i) xs) = i"
    "take (length (takeWhile (\<lambda>j. j \<noteq> i) xs)) xs @ drop (Suc (length (takeWhile (\<lambda>j. j \<noteq> i) xs))) xs = remove1 i xs"
  using assms by (induction xs) auto

lemma index_absent: "i \<notin> set xs \<Longrightarrow> takeWhile (\<lambda>j. j \<noteq> i) xs = xs"
  by (simp add: takeWhile_eq_all_conv) blast

definition closed_sub :: "subscriber \<Rightarrow> subscriber" where
  "closed_sub sub = sub\<lparr>su_closed := True,
     su_removed := (if su_hasRemoved sub then Suc (su_removed sub) else su_removed sub)\<rparr>"

lemma close_sub_eq: "close_sub i s = s\<lparr>st_subs := (st_subs s)(i := map_option closed_sub (st_subs s i))\<rparr>"
  by (cases "st_subs s i") (simp_all add: close_sub_def closed_sub_def fun_upd_idem)

lemma fold_close_sub:
  "distinct is \<Longrightarrow> fold close_sub is s =
     s\<lparr>st_subs := (\<lambda>i. if i \<in> set is then map_option closed_sub (st_subs s i) else st_subs s i)\<rparr>"
proof (induction "is" arbitrary: s)
  case (Cons i "is")
  then show ?case by (simp add: close_sub_eq) (rule arg_cong [where f = "\<lambda>f. s\<lparr>st_subs := f\<rparr>"], auto simp: fun_eq_iff)
qed simp

lemma run_deregister_eq:
  assumes "i \<in> set (st_subscribers s)"
  shows "run_deregister i s = s\<lparr>st_subscriberCount := st_subscriberCount s - 1,
      st_subs := (st_subs s)(i := map_option closed_sub (st_subs s i)),
      st_subscribers := remove1 i (st_subscribers s), st_deregistering := remove1 i (st_deregistering s),
      st_calls := (if st_onUnsubscribe s then st_calls s @ [(False, i)] else st_calls s)\<rparr>"
  using index_remove [OF assms]
  by (simp add: run_deregister_def getSubIndex_def removeSubscriber_def close_sub_eq Let_def)

lemma run_deregister_absent:
  assumes "i \<notin> set (st_subscribers s)"
  shows "run_deregister i s = s\<lparr>st_deregistering := remove1 i (st_deregistering s),
      st_calls := (if st_onUnsubscribe s then st_calls s @ [(False, i)] else st_calls s)\<rparr>"
proof -
  have "getSubIndex s i = -1" unfolding getSubIndex_def index_absent [OF assms] by simp
  then show ?thesis by (simp add: run_deregister_def Let_def)
qed

lemma inv_deregister:
  assumes inv: "stream_inv s" and idle: "st_loop s = Idle"
  shows "stream_inv (run_deregister i s)"
proof (cases "i \<in> set (st_subscribers s)")
  case False
  then show ?thesis using inv by (intro inv_frame [OF inv]) (simp_all add: run_deregister_absent)
next
  case True
  have wf: "stream_wf s" using inv by (simp add: stream_inv_def)
  have ni: "i \<notin> set (st_registering s)" "distinct (st_subscribers s)" using wf True by (auto simp: stream_wf_def)
  have len: "(word_of_nat (length (remove1 i (st_subscribers s))) :: 32 word) = word_of_nat (length (st_subscribers s)) - 1"
    using True length_pos_if_in_set [of i "st_subscribers s"] by (simp add: length_remove1 of_nat_diff Suc_leI)
  let ?s = "run_deregister i s"
  have "stream_wf ?s"
    using wf ni len idle unfolding run_deregister_eq [OF True]
    by (auto simp: stream_wf_def loop_ok_def set_remove1_eq)
  moreover have "delivered ?s"
    using inv ni idle unfolding run_deregister_eq [OF True]
    by (auto simp: stream_inv_def delivered_def pend_def set_remove1_eq)
  moreover have "log_window ?s"
    using inv unfolding run_deregister_eq [OF True] by (simp add: stream_inv_def log_window_def)
  moreover have "channels ?s"
    using inv unfolding run_deregister_eq [OF True]
    by (auto simp: stream_inv_def channels_def conn_ok_def closed_sub_def)
  ultimately show ?thesis by (simp add: stream_inv_def)
qed

lemma inv_quit:
  assumes inv: "stream_inv s"
  shows "stream_inv (run_quit s)"
proof -
  have wf: "stream_wf s" using inv by (simp add: stream_inv_def)
  then have d: "distinct (st_subscribers s)" by (simp add: stream_wf_def)
  let ?s = "run_quit s"
  have s': "?s = s\<lparr>st_subs := (\<lambda>i. if i \<in> set (st_subscribers s) then map_option closed_sub (st_subs s i) else st_subs s i),
      st_subscriberCount := 0, st_subscribers := [], st_loop := Stopped\<rparr>"
    by (simp add: run_quit_def removeAllSubscribers_def fold_close_sub [OF d] Let_def)
  have "stream_wf ?s" using wf unfolding s' by (auto simp: stream_wf_def loop_ok_def)
  moreover have "delivered ?s" unfolding s' by (simp add: delivered_def)
  moreover have "log_window ?s" using inv unfolding s' by (simp add: stream_inv_def log_window_def)
  moreover have "channels ?s"
    using inv unfolding s' by (auto simp: stream_inv_def channels_def conn_ok_def closed_sub_def split: if_splits)
  ultimately show ?thesis by (simp add: stream_inv_def)
qed

lemma stream_step_inv: "stream_step s s' \<Longrightarrow> stream_inv s \<Longrightarrow> stream_inv s'"
proof (induction rule: stream_step.induct)
  case (unsubscribe i s)
  then show ?case by (intro inv_frame [OF unsubscribe(2)]) (simp_all add: Subscriber_close_def)
next
  case (give_up i s)
  then show ?case by (intro inv_frame [OF give_up(2)]) (simp_all add: Subscriber_close_gives_up_def)
next
  case (publish s ev)
  then show ?case by (intro inv_frame [OF publish(2)]) (simp_all add: send_event_def)
next
  case (hand_over s nid now ev)
  have "stream_inv (send_event ev s)" by (intro inv_frame [OF hand_over(5)]) (simp_all add: send_event_def)
  then show ?case by (rule inv_event) (use hand_over in \<open>simp_all add: send_event_def\<close>)
next
  case (close s)
  then show ?case by (intro inv_frame [OF close]) (simp_all add: Stream_close_def)
qed (auto intro: inv_subscribe inv_register inv_deregister inv_event inv_quit inv_send inv_receive)

lemma stream_reachable_inv: "stream_reachable s \<Longrightarrow> stream_inv s"
  by (induction rule: stream_reachable.induct) (auto intro: inv_new stream_step_inv)

section \<open>Properties\<close>

text \<open>
  C3: every subscriber of a stream gets every event exactly once and in the order in which the stream
  handled them: in every reachable state, what was sent to a registered subscriber together with what the
  loop is about to send to it is its replay followed by all events handled since it registered, and its
  channel, never over capacity, holds the last part of what was sent.
\<close>

theorem sse_every_subscriber_gets_every_event:
  assumes "stream_reachable s" and "i \<in> set (st_subscribers s)"
  shows "\<exists>sub. st_subs s i = Some sub \<and> \<not> su_closed sub
       \<and> su_sent sub @ pend s i = su_replay sub @ drop (su_from sub) (st_history s)
       \<and> (\<exists>got. su_sent sub = got @ su_conn sub) \<and> length (su_conn sub) \<le> connCap"
proof -
  have inv: "stream_inv s" by (rule stream_reachable_inv [OF assms(1)])
  then obtain sub where "st_subs s i = Some sub" "\<not> su_closed sub"
    using assms(2) unfolding stream_inv_def stream_wf_def by blast
  then show ?thesis
    using inv assms(2) by (auto simp: stream_inv_def delivered_def channels_def conn_ok_def)
qed

lemma reachable_registered:
  "stream_reachable (run_register 0 (addSubscriber e (newStream n b r a f g)))"
proof -
  have "stream_reachable (addSubscriber e (newStream n b r a f g))"
    by (rule stream_reachable.step [OF stream_reachable.init stream_step.subscribe])
  moreover have "stream_step (addSubscriber e (newStream n b r a f g))
      (run_register 0 (addSubscriber e (newStream n b r a f g)))"
    by (rule stream_step.register) (simp_all add: addSubscriber_def newStream_def Let_def)
  ultimately show ?thesis by (rule stream_reachable.step)
qed

theorem sse_every_subscriber_gets_every_event_witness:
  "\<exists>s. stream_reachable s \<and> 0 \<in> set (st_subscribers s) \<and>
     (\<exists>sub. st_subs s 0 = Some sub \<and> \<not> su_closed sub
       \<and> su_sent sub @ pend s 0 = su_replay sub @ drop (su_from sub) (st_history s))"
proof -
  let ?s = "run_register 0 (addSubscriber '''' (newStream ''a'' 8 True False False False))"
  have "0 \<in> set (st_subscribers ?s)" by (simp add: run_register_def addSubscriber_def newStream_def Let_def)
  from sse_every_subscriber_gets_every_event [OF reachable_registered this] this reachable_registered
  show ?thesis by blast
qed

text \<open>
  C35: the replay log is the window of the last 1024 events with content, in order; it never grows beyond
  that, whatever is published.
\<close>

theorem sse_log_is_a_window:
  assumes "stream_reachable s"
  shows "length (st_eventLog s) \<le> 1024
       \<and> (st_autoReplay s \<longrightarrow> st_eventLog s = lastn 1024 (filter hasContent (st_history s)))"
  using stream_reachable_inv [OF assms] by (simp add: stream_inv_def log_window_def maxEventLogSize_def)

theorem sse_log_is_a_window_witness:
  "\<exists>s. stream_reachable s \<and> st_autoReplay s \<and> st_eventLog s = lastn 1024 (filter hasContent (st_history s))
     \<and> length (st_eventLog s) = 1"
proof -
  let ?new = "newStream ''a'' 8 True False False False" and ?ev = "empty_event\<lparr>ev_Data := ''x''\<rparr>"
  let ?s = "run_event ''1'' 0 (send_event ?ev ?new)"
  have "stream_step ?new (send_event ?ev ?new)" by (rule stream_step.publish) (simp add: newStream_def)
  then have "stream_reachable (send_event ?ev ?new)" by (rule stream_reachable.step [OF stream_reachable.init])
  moreover have "stream_step (send_event ?ev ?new) ?s"
    by (rule stream_step.handle) (simp_all add: send_event_def newStream_def)
  ultimately have r: "stream_reachable ?s" by (rule stream_reachable.step)
  have "st_autoReplay ?s" "length (st_eventLog ?s) = 1"
    by (simp_all add: run_event_def send_event_def newStream_def EventLog_Add_def hasContent_def empty_event_def
        maxEventLogSize_def Let_def)
  with sse_log_is_a_window [OF r] r show ?thesis by blast
qed

text \<open>
  C25: a subscriber that reconnects with the id of the last event it saw misses nothing and gets nothing
  twice, on a stream with automatic replay. As long as that event is in the log, and ids were given in increasing order (which version 7
  UUIDs promise), registering makes due for it exactly the logged events after that one. A subscriber
  without an id gets the whole log, if every logged event has an id. The events due are what the loop sends to it next, and it gets the events
  handled from then on.
\<close>

theorem sse_replay_after_last_event_id:
  assumes "st_subs s i = Some sub" and "st_autoReplay s"
  shows "(\<forall>before seen after. sorted_wrt (<) (map ev_ID (st_eventLog s)) \<and> st_eventLog s = before @ seen # after \<and> su_eventId sub = ev_ID seen \<longrightarrow>
            (\<exists>sub'. st_subs (run_register i s) i = Some sub' \<and> su_replay sub' = after
               \<and> su_from sub' = length (st_history s) \<and> pend (run_register i s) i = after))
       \<and> (su_eventId sub = [] \<and> list_all (\<lambda>e. ev_ID e \<noteq> []) (st_eventLog s) \<longrightarrow>
            (\<exists>sub'. st_subs (run_register i s) i = Some sub' \<and> su_replay sub' = st_eventLog s
               \<and> su_from sub' = length (st_history s) \<and> pend (run_register i s) i = st_eventLog s))"
proof -
  have after: "EventLog_Replay (st_eventLog s) (ev_ID seen) = after"
    if "sorted_wrt (<) (map ev_ID (st_eventLog s))" "st_eventLog s = before @ seen # after" for before seen after
  proof -
    have "\<not> ev_ID e > ev_ID seen" if "e \<in> set before" for e
      using \<open>sorted_wrt _ _\<close> \<open>st_eventLog s = _\<close> that by (auto simp: sorted_wrt_append dest: less_not_sym)
    moreover have "ev_ID e > ev_ID seen" if "e \<in> set after" for e
      using \<open>sorted_wrt _ _\<close> \<open>st_eventLog s = _\<close> that by (simp add: sorted_wrt_append)
    ultimately show ?thesis using \<open>st_eventLog s = _\<close> by (simp add: EventLog_Replay_def filter_empty_conv filter_id_conv)
  qed
  have "[] < x \<longleftrightarrow> x \<noteq> []" for x :: string by (cases x) auto
  then have all: "EventLog_Replay (st_eventLog s) [] = st_eventLog s" if "list_all (\<lambda>e. ev_ID e \<noteq> []) (st_eventLog s)"
    using that by (simp add: EventLog_Replay_def filter_id_conv list_all_iff)
  have due: "\<exists>sub'. st_subs (run_register i s) i = Some sub' \<and> su_replay sub' = due \<and> su_from sub' = length (st_history s) \<and> pend (run_register i s) i = due"
    if "EventLog_Replay (st_eventLog s) (su_eventId sub) = due" for due
    using assms that by (simp add: run_register_def Let_def pend_def sending_def filter_map comp_def)
  show ?thesis using after all due by metis
qed

theorem sse_replay_after_last_event_id_witness:
  "\<exists>sub'. st_subs (run_register 0 (addSubscriber ''1'' ((newStream ''a'' 8 True False False False)
        \<lparr>st_eventLog := [empty_event\<lparr>ev_ID := ''1''\<rparr>, empty_event\<lparr>ev_ID := ''2''\<rparr>]\<rparr>))) 0 = Some sub'
     \<and> su_replay sub' = [empty_event\<lparr>ev_ID := ''2''\<rparr>]"
proof -
  let ?s = "addSubscriber ''1'' ((newStream ''a'' 8 True False False False)
      \<lparr>st_eventLog := [empty_event\<lparr>ev_ID := ''1''\<rparr>, empty_event\<lparr>ev_ID := ''2''\<rparr>]\<rparr>)"
  obtain sub where sub: "st_subs ?s 0 = Some sub" "su_eventId sub = ''1''"
    by (simp add: addSubscriber_def newStream_def Let_def)
  have r: "st_autoReplay ?s" and "sorted_wrt (<) (map ev_ID (st_eventLog ?s))"
    "st_eventLog ?s = [] @ (empty_event\<lparr>ev_ID := ''1''\<rparr>) # [empty_event\<lparr>ev_ID := ''2''\<rparr>]"
    by (simp_all add: addSubscriber_def newStream_def Let_def less_char_def)
  then have "sorted_wrt (<) (map ev_ID (st_eventLog ?s)) \<and> st_eventLog ?s = [] @ (empty_event\<lparr>ev_ID := ''1''\<rparr>) # [empty_event\<lparr>ev_ID := ''2''\<rparr>]
      \<and> su_eventId sub = ev_ID (empty_event\<lparr>ev_ID := ''1''\<rparr>)" using sub(2) by simp
  with conjunct1 [OF sse_replay_after_last_event_id [OF sub(1) r]] show ?thesis by blast
qed

text \<open>
  C29: the loop never panics: it never sends on a closed connection channel and never closes one twice
  (subscribers in its list are open and listed once). While the loop runs, the counter, an \<open>int32\<close> that wraps, is the number
  of registered subscribers and of those about to register, modulo \<open>2 ^ 32\<close>; below \<open>2 ^ 31\<close> of them
  \<open>getSubscriberCount\<close> returns exactly that number.
\<close>

theorem sse_loop_is_safe:
  assumes "stream_reachable s"
  shows "send_ready s \<noteq> None \<and> distinct (st_subscribers s)
       \<and> (\<forall>i\<in>set (st_subscribers s). \<exists>sub. st_subs s i = Some sub \<and> \<not> su_closed sub)
       \<and> (st_loop s \<noteq> Stopped \<longrightarrow>
            st_subscriberCount s = word_of_nat (length (st_subscribers s) + length (st_registering s))
            \<and> (length (st_subscribers s) + length (st_registering s) < 2 ^ 31 \<longrightarrow>
                 getSubscriberCount s = int (length (st_subscribers s) + length (st_registering s))))"
proof -
  have wf: "stream_wf s" using stream_reachable_inv [OF assms] by (simp add: stream_inv_def)
  then have open_: "\<forall>i\<in>set (st_subscribers s). \<exists>sub. st_subs s i = Some sub \<and> \<not> su_closed sub"
    by (simp add: stream_wf_def)
  have "send_ready s \<noteq> None"
  proof (cases "st_loop s")
    case (Sending ps)
    then have "ps \<noteq> []" "fst ` set ps \<subseteq> set (st_subscribers s)" using wf by (auto simp: stream_wf_def loop_ok_def)
    then obtain i ev qs where ps: "ps = (i, ev) # qs" "i \<in> set (st_subscribers s)" by (cases ps) auto
    then obtain sub where "st_subs s i = Some sub" "\<not> su_closed sub" using open_ by blast
    then show ?thesis using Sending ps by (simp add: send_ready_def)
  qed (simp_all add: send_ready_def)
  moreover have "sint (word_of_nat n :: 32 word) = int n" if "n < 2 ^ 31" for n
    using that by (simp add: signed_of_nat signed_take_bit_int_eq_self)
  ultimately show ?thesis using wf open_ by (simp add: stream_wf_def getSubscriberCount_def del: of_nat_add)
qed

theorem sse_loop_is_safe_witness:
  "\<exists>s. stream_reachable s \<and> st_subscribers s = [0] \<and> send_ready s \<noteq> None \<and> getSubscriberCount s = 1"
proof -
  let ?s = "run_register 0 (addSubscriber '''' (newStream ''a'' 8 True False False False))"
  have "st_subscribers ?s = [0]" "st_registering ?s = []" "st_loop ?s \<noteq> Stopped"
    by (simp_all add: run_register_def addSubscriber_def newStream_def Let_def sending_def)
  with sse_loop_is_safe [OF reachable_registered, of "''''" "''a''" 8 True False False False] reachable_registered
  show ?thesis by fastforce
qed

text \<open>
  Subscribing to a stream whose loop has ended hangs: \<open>addSubscriber\<close> sends on the register channel
  without watching \<open>quit\<close>, so once the loop has stopped the subscriber is never registered, however the
  system goes on, and the request that called it never returns.
\<close>

theorem sse_subscribe_after_stop_hangs:
  assumes "st_loop s = Stopped" and "stream_step\<^sup>*\<^sup>* (addSubscriber e s) s'"
  shows "st_next s \<in> set (st_registering s') \<and> st_loop s' = Stopped"
  using assms(2)
proof (induction rule: rtranclp_induct)
  case base
  then show ?case using assms(1) by (simp add: addSubscriber_def Let_def)
next
  case (step t t')
  from step(2) step(3) show ?case
    by (cases rule: stream_step.cases)
      (auto simp: addSubscriber_def Let_def Subscriber_close_def Subscriber_close_gives_up_def send_event_def
        Stream_close_def receive_def send_ready_def split: option.splits)
qed

theorem sse_subscribe_after_stop_hangs_witness:
  "\<exists>s. stream_reachable s \<and> st_loop s = Stopped \<and>
     (\<forall>s'. stream_step\<^sup>*\<^sup>* (addSubscriber '''' s) s' \<longrightarrow> st_next s \<in> set (st_registering s'))"
proof -
  let ?s = "run_quit (Stream_close (newStream ''a'' 8 True False False False))"
  let ?cl = "Stream_close (newStream ''a'' 8 True False False False)"
  have "stream_reachable ?cl" by (rule stream_reachable.step [OF stream_reachable.init stream_step.close])
  moreover have "stream_step ?cl ?s" by (rule stream_step.quit) (simp_all add: Stream_close_def newStream_def)
  ultimately have r: "stream_reachable ?s" by (rule stream_reachable.step)
  have st: "st_loop ?s = Stopped" by (simp add: run_quit_def)
  show ?thesis using r st sse_subscribe_after_stop_hangs [OF st] by blast
qed

text \<open>
  With replay enabled the id a publisher chose is lost: \<open>Add\<close> replaces the id of every event with
  content by a new one, also an id set with \<open>WithEventID\<close>; without replay it is kept.
\<close>

theorem sse_replay_overwrites_event_id:
  assumes "st_event s = WithEventID pid ev # q" and "pid \<noteq> []"
  shows "st_history (run_event nid now s) =
     st_history s @ [if st_autoReplay s then ev\<lparr>ev_ID := nid, ev_timestamp := Some now\<rparr> else ev\<lparr>ev_ID := pid\<rparr>]"
  using assms by (simp add: run_event_def WithEventID_def EventLog_Add_def hasContent_def Let_def)

theorem sse_replay_overwrites_event_id_witness:
  "map ev_ID (st_history (run_event ''n'' 0 (send_event (WithEventID ''mine'' empty_event)
     (newStream ''a'' 8 True False False False)))) = [''n'']"
  using sse_replay_overwrites_event_id [of "send_event (WithEventID ''mine'' empty_event)
     (newStream ''a'' 8 True False False False)" "''mine''" empty_event "[]" "''n''" 0]
  by (simp add: send_event_def newStream_def)

end
