(* ===== verification/Sse_Server.thy ===== *)
theory Sse_Server
  imports Sse_Stream Transport_Utils Broker_Encoding
begin

text \<open>
  The SSE server: \<open>transport/sse/stream_manager.go\<close>, \<open>server.go\<close>, \<open>server_options.go\<close>, \<open>auth.go\<close>, the
  request handling of \<open>http.go\<close>, the token functions of \<open>subscriber.go\<close> and the request of \<open>client.go\<close>.
  Streams are shared by pointer (the manager, the running requests): a stream is an address in \<open>ss_heap\<close>.
  A request is its method, its query values and its headers as \<open>Header.Get\<close> answers them. \<open>TrimSpace\<close>
  trims the ASCII white space that can occur in a header value.
\<close>

section \<open>State\<close>

record request =
  rq_Method :: string
  rq_Header :: "string \<Rightarrow> string"
  rq_Query :: "string \<Rightarrow> string"

record sse_env =
  se_Listen :: "string \<Rightarrow> string \<Rightarrow> error + listener"
  se_ParseIP :: "string \<Rightarrow> ip option"
  se_Interfaces :: "error + iface list"
  se_GetCodec :: "string \<Rightarrow> codec option"
  se_gob :: codec

record sse_server =
  ss_lis :: "listener option"
  ss_tlsConf :: "string option"
  ss_endpoint :: "url option"
  ss_network :: string
  ss_address :: string
  ss_path :: string
  ss_streamIdKey :: string
  ss_err :: "error option"
  ss_codec :: "codec option"
  ss_headers :: "(string, string) gomap"
  ss_eventTTL :: int
  ss_bufferSize :: nat
  ss_encodeBase64 :: bool
  ss_splitData :: bool
  ss_autoStream :: bool
  ss_autoReplay :: bool
  ss_corsAllowOrigin :: string
  ss_subscribeFunc :: bool
  ss_unsubscribeFunc :: bool
  ss_authorizeFunc :: "(request \<Rightarrow> string \<Rightarrow> error option) option"
  ss_tokenExtractor :: "(request \<Rightarrow> string) option"
  ss_streams :: "(string, nat) gomap"
  ss_heap :: "nat \<Rightarrow> stream option"
  ss_nextp :: nat

section \<open>Tokens\<close>

definition is_space :: "char \<Rightarrow> bool" where
  "is_space c = (c \<in> {CHR 0x09, CHR 0x0A, CHR 0x0B, CHR 0x0C, CHR 0x0D, CHR 0x20})"

definition TrimSpace :: "string \<Rightarrow> string" where
  "TrimSpace s = rev (dropWhile is_space (rev (dropWhile is_space s)))"

definition to_lower :: "char \<Rightarrow> char" where
  "to_lower c = (let n = of_char c :: nat in if 65 \<le> n \<and> n \<le> 90 then char_of (n + 32) else c)"

definition EqualFold :: "string \<Rightarrow> string \<Rightarrow> bool" where
  "EqualFold a b = (map to_lower a = map to_lower b)"

definition extractBearerToken :: "string \<Rightarrow> string" where
  "extractBearerToken auth0 =
     (let auth = TrimSpace auth0
      in if auth = '''' then ''''
         else if length auth \<ge> 7 \<and> EqualFold (take 7 auth) ''Bearer '' then TrimSpace (drop 7 auth)
         else auth)"

definition DefaultTokenExtractor :: "request option \<Rightarrow> string" where
  "DefaultTokenExtractor r =
     (case r of
        None \<Rightarrow> ''''
      | Some rq \<Rightarrow>
          if extractBearerToken (rq_Header rq ''Authorization'') \<noteq> ''''
          then extractBearerToken (rq_Header rq ''Authorization'')
          else if TrimSpace (rq_Header rq ''X-Token'') \<noteq> '''' then TrimSpace (rq_Header rq ''X-Token'')
          else if TrimSpace (rq_Query rq ''token'') \<noteq> '''' then TrimSpace (rq_Query rq ''token'')
          else '''')"

definition ErrForbidden :: error where
  "ErrForbidden = ErrNew ''forbidden''"

definition ErrUnauthorized :: error where
  "ErrUnauthorized = ErrNew ''unauthorized''"

definition isForbidden :: "error \<Rightarrow> bool" where
  "isForbidden err = errors_Is err ErrForbidden"

text \<open>A subscriber keeps a copy of the URL and the headers of its request (\<open>None\<close>: it was nil).\<close>

definition HeaderValue :: "request option \<Rightarrow> string \<Rightarrow> string" where
  "HeaderValue s key = (case s of None \<Rightarrow> '''' | Some rq \<Rightarrow> rq_Header rq key)"

definition Authorization :: "request option \<Rightarrow> string" where
  "Authorization s = HeaderValue s ''Authorization''"

definition BearerToken :: "request option \<Rightarrow> string" where
  "BearerToken s =
     (let auth = TrimSpace (Authorization s)
      in if auth = '''' then ''''
         else if length auth \<ge> 7 \<and> EqualFold (take 7 auth) ''Bearer '' then TrimSpace (drop 7 auth)
         else auth)"

definition Token :: "request option \<Rightarrow> string \<Rightarrow> string" where
  "Token s headerKey =
     (if headerKey \<noteq> '''' \<and> TrimSpace (HeaderValue s headerKey) \<noteq> '''' then TrimSpace (HeaderValue s headerKey)
      else if BearerToken s \<noteq> '''' then BearerToken s
      else (case s of None \<Rightarrow> '''' | Some rq \<Rightarrow> TrimSpace (rq_Query rq ''token'')))"

section \<open>Options\<close>

definition WithBufferSize :: "nat \<Rightarrow> sse_server \<Rightarrow> sse_server" where
  "WithBufferSize n s = s\<lparr>ss_bufferSize := n\<rparr>"

definition WithEncodeBase64 :: "bool \<Rightarrow> sse_server \<Rightarrow> sse_server" where
  "WithEncodeBase64 enable s = s\<lparr>ss_encodeBase64 := enable\<rparr>"

definition WithAutoStream :: "bool \<Rightarrow> sse_server \<Rightarrow> sse_server" where
  "WithAutoStream enable s = s\<lparr>ss_autoStream := enable\<rparr>"

definition WithAutoReply :: "bool \<Rightarrow> sse_server \<Rightarrow> sse_server" where
  "WithAutoReply enable s = s\<lparr>ss_autoReplay := enable\<rparr>"

definition WithSplitData :: "bool \<Rightarrow> sse_server \<Rightarrow> sse_server" where
  "WithSplitData enable s = s\<lparr>ss_splitData := enable\<rparr>"

definition WithHeaders_sse :: "(string, string) gomap \<Rightarrow> sse_server \<Rightarrow> sse_server" where
  "WithHeaders_sse headers s = s\<lparr>ss_headers := headers\<rparr>"

definition WithEventTTL :: "int \<Rightarrow> sse_server \<Rightarrow> sse_server" where
  "WithEventTTL timeout s = s\<lparr>ss_eventTTL := timeout\<rparr>"

definition WithStreamIdKey :: "string \<Rightarrow> sse_server \<Rightarrow> sse_server" where
  "WithStreamIdKey key s = s\<lparr>ss_streamIdKey := key\<rparr>"

definition WithTokenExtractor :: "(request \<Rightarrow> string) option \<Rightarrow> sse_server \<Rightarrow> sse_server" where
  "WithTokenExtractor extractor s = s\<lparr>ss_tokenExtractor := extractor\<rparr>"

definition WithAuthorizeFunc :: "(request \<Rightarrow> string \<Rightarrow> error option) option \<Rightarrow> sse_server \<Rightarrow> sse_server" where
  "WithAuthorizeFunc f s = s\<lparr>ss_authorizeFunc := f\<rparr>"

definition WithTokenHeader :: "string \<Rightarrow> sse_server \<Rightarrow> sse_server" where
  "WithTokenHeader headerKey s =
     s\<lparr>ss_tokenExtractor := Some (\<lambda>r.
        if headerKey \<noteq> '''' \<and> rq_Header r headerKey \<noteq> '''' then rq_Header r headerKey
        else DefaultTokenExtractor (Some r))\<rparr>"

definition WithCORSAllowOrigin :: "string \<Rightarrow> sse_server \<Rightarrow> sse_server" where
  "WithCORSAllowOrigin origin s = s\<lparr>ss_corsAllowOrigin := origin\<rparr>"

section \<open>The stream manager\<close>

definition StreamManager_Get :: "sse_server \<Rightarrow> string \<Rightarrow> nat option" where
  "StreamManager_Get s streamId = map_of (ss_streams s) streamId"

definition StreamManager_Exist :: "sse_server \<Rightarrow> string \<Rightarrow> bool" where
  "StreamManager_Exist s streamId = (StreamManager_Get s streamId \<noteq> None)"

definition StreamManager_Count :: "sse_server \<Rightarrow> nat" where
  "StreamManager_Count s = length (ss_streams s)"

definition heap_upd :: "nat \<Rightarrow> (stream \<Rightarrow> stream) \<Rightarrow> sse_server \<Rightarrow> sse_server" where
  "heap_upd p f s = s\<lparr>ss_heap := (ss_heap s)(p := map_option f (ss_heap s p))\<rparr>"

text \<open>\<open>k\<close> is \<open>stream.StreamID()\<close>.\<close>

definition StreamManager_Add :: "string \<Rightarrow> nat \<Rightarrow> sse_server \<Rightarrow> sse_server" where
  "StreamManager_Add k p s =
     (if map_of (ss_streams s) k \<noteq> None then s else s\<lparr>ss_streams := gomap_put k p (ss_streams s)\<rparr>)"

definition StreamManager_RemoveWithID :: "string \<Rightarrow> sse_server \<Rightarrow> sse_server" where
  "StreamManager_RemoveWithID streamId s =
     (case map_of (ss_streams s) streamId of
        None \<Rightarrow> s
      | Some p \<Rightarrow> (heap_upd p Stream_close s)\<lparr>ss_streams := gomap_delete streamId (ss_streams s)\<rparr>)"

fun Remove_loop :: "nat \<Rightarrow> (string \<times> nat) list \<Rightarrow> sse_server \<Rightarrow> sse_server" where
  "Remove_loop p [] s = s"
| "Remove_loop p ((k, v) # rest) s =
     (if p = v then (heap_upd v Stream_close s)\<lparr>ss_streams := gomap_delete k (ss_streams s)\<rparr>
      else Remove_loop p rest s)"

definition StreamManager_Remove :: "nat \<Rightarrow> sse_server \<Rightarrow> sse_server" where
  "StreamManager_Remove p s = Remove_loop p (ss_streams s) s"

definition StreamManager_Clean :: "sse_server \<Rightarrow> sse_server" where
  "StreamManager_Clean s = (fold (\<lambda>(k, p). heap_upd p Stream_close) (ss_streams s) s)\<lparr>ss_streams := []\<rparr>"

definition StreamManager_Range :: "(nat \<Rightarrow> sse_server \<Rightarrow> sse_server) \<Rightarrow> sse_server \<Rightarrow> sse_server" where
  "StreamManager_Range fn s = (let streams = map snd (ss_streams s) in fold fn streams s)"

section \<open>Creating streams\<close>

definition createStream :: "string \<Rightarrow> sse_server \<Rightarrow> nat \<times> sse_server" where
  "createStream streamId s =
     (let st = newStream streamId (ss_bufferSize s) (ss_autoReplay s) (ss_autoStream s)
                 (ss_subscribeFunc s) (ss_unsubscribeFunc s);
          p = ss_nextp s
      in (p, s\<lparr>ss_heap := (ss_heap s)(p \<mapsto> st), ss_nextp := Suc p\<rparr>))"

text \<open>\<open>CreateStream\<close> in the two pieces between which another goroutine can run: the lookup, and the rest.\<close>

definition CreateStream_make :: "string \<Rightarrow> sse_server \<Rightarrow> nat \<times> sse_server" where
  "CreateStream_make streamId s =
     (let (p, s1) = createStream streamId s in (p, StreamManager_Add streamId p s1))"

definition CreateStream :: "string \<Rightarrow> sse_server \<Rightarrow> nat \<times> sse_server" where
  "CreateStream streamId s =
     (case StreamManager_Get s streamId of Some p \<Rightarrow> (p, s) | None \<Rightarrow> CreateStream_make streamId s)"

section \<open>Publishing\<close>

definition process :: "int \<Rightarrow> sse_server \<Rightarrow> event \<Rightarrow> event" where
  "process now s ev =
     (let clone = (if ev_timestamp ev = None then ev\<lparr>ev_timestamp := Some now\<rparr> else ev)
      in if ss_encodeBase64 s then encodeBase64 clone else clone)"

text \<open>
  The \<open>select\<close> of \<open>Publish\<close> and \<open>Notify\<close> on one stream: \<open>take_quit\<close> chooses the quit branch when both are
  ready; \<open>None\<close> when neither is, so that the caller waits.
\<close>

definition offer :: "bool \<Rightarrow> event \<Rightarrow> nat \<Rightarrow> sse_server \<Rightarrow> sse_server option" where
  "offer take_quit ev p s =
     (case ss_heap s p of
        None \<Rightarrow> None
      | Some st \<Rightarrow>
          let full = (length (st_event st) \<ge> st_bufSize st)
          in if st_quit st \<and> (take_quit \<or> full) then Some s
             else if \<not> full then Some (heap_upd p (send_event ev) s)
             else None)"

definition Publish :: "bool \<Rightarrow> int \<Rightarrow> string \<Rightarrow> event \<Rightarrow> sse_server \<Rightarrow> sse_server option" where
  "Publish take_quit now streamId ev s =
     (case StreamManager_Get s streamId of
        None \<Rightarrow> Some s
      | Some p \<Rightarrow> offer take_quit (process now s ev) p s)"

definition TryPublish :: "int \<Rightarrow> string \<Rightarrow> event \<Rightarrow> sse_server \<Rightarrow> bool \<times> sse_server" where
  "TryPublish now streamId ev s =
     (case StreamManager_Get s streamId of
        None \<Rightarrow> (False, s)
      | Some p \<Rightarrow>
          (case ss_heap s p of
             None \<Rightarrow> (False, s)
           | Some st \<Rightarrow> if length (st_event st) < st_bufSize st
                        then (True, heap_upd p (send_event (process now s ev)) s) else (False, s)))"

definition marshalEvent :: "sse_env \<Rightarrow> sse_server \<Rightarrow> dyn \<Rightarrow> error + event" where
  "marshalEvent env s d =
     (if d = DNil then Inr empty_event
      else (case Marshal (se_gob env) (ss_codec s) d of
              Inl e \<Rightarrow> Inl e
            | Inr b \<Rightarrow> Inr (empty_event\<lparr>ev_Data := (case b of None \<Rightarrow> [] | Some x \<Rightarrow> x)\<rparr>)))"

definition PublishDataWithMeta ::
    "sse_env \<Rightarrow> bool \<Rightarrow> int \<Rightarrow> string \<Rightarrow> dyn \<Rightarrow> (event \<Rightarrow> event) list \<Rightarrow> sse_server \<Rightarrow> (error option \<times> sse_server) option" where
  "PublishDataWithMeta env take_quit now streamId d opts s =
     (case marshalEvent env s d of
        Inl e \<Rightarrow> Some (Some e, s)
      | Inr ev \<Rightarrow> map_option (Pair None) (Publish take_quit now streamId (fold (\<lambda>f e. f e) opts ev) s))"

definition PublishData ::
    "sse_env \<Rightarrow> bool \<Rightarrow> int \<Rightarrow> string \<Rightarrow> dyn \<Rightarrow> sse_server \<Rightarrow> (error option \<times> sse_server) option" where
  "PublishData env take_quit now streamId d s =
     (case marshalEvent env s d of
        Inl e \<Rightarrow> Some (Some e, s)
      | Inr ev \<Rightarrow> map_option (Pair None) (Publish take_quit now streamId ev s))"

definition PublishDataWithEventName ::
    "sse_env \<Rightarrow> bool \<Rightarrow> int \<Rightarrow> string \<Rightarrow> string \<Rightarrow> dyn \<Rightarrow> sse_server \<Rightarrow> (error option \<times> sse_server) option" where
  "PublishDataWithEventName env take_quit now streamId eventName d s =
     PublishDataWithMeta env take_quit now streamId d [WithEventName eventName] s"

text \<open>\<open>Notify\<close>: a snapshot of the streams, then one after the other; \<open>None\<close> when one of them makes it wait.\<close>

fun offer_all :: "bool \<Rightarrow> event \<Rightarrow> nat list \<Rightarrow> sse_server \<Rightarrow> sse_server option" where
  "offer_all take_quit ev [] s = Some s"
| "offer_all take_quit ev (p # ps) s =
     (case offer take_quit ev p s of None \<Rightarrow> None | Some s1 \<Rightarrow> offer_all take_quit ev ps s1)"

definition Notify :: "bool \<Rightarrow> int \<Rightarrow> event \<Rightarrow> sse_server \<Rightarrow> sse_server option" where
  "Notify take_quit now ev s = offer_all take_quit (process now s ev) (map snd (ss_streams s)) s"

definition NotifyDataWithMeta ::
    "sse_env \<Rightarrow> bool \<Rightarrow> int \<Rightarrow> dyn \<Rightarrow> (event \<Rightarrow> event) list \<Rightarrow> sse_server \<Rightarrow> (error option \<times> sse_server) option" where
  "NotifyDataWithMeta env take_quit now d opts s =
     (case marshalEvent env s d of
        Inl e \<Rightarrow> Some (Some e, s)
      | Inr ev \<Rightarrow> map_option (Pair None) (Notify take_quit now (fold (\<lambda>f e. f e) opts ev) s))"

definition NotifyData ::
    "sse_env \<Rightarrow> bool \<Rightarrow> int \<Rightarrow> dyn \<Rightarrow> sse_server \<Rightarrow> (error option \<times> sse_server) option" where
  "NotifyData env take_quit now d s =
     (case marshalEvent env s d of
        Inl e \<Rightarrow> Some (Some e, s)
      | Inr ev \<Rightarrow> map_option (Pair None) (Notify take_quit now ev s))"

definition NotifyDataWithEventName ::
    "sse_env \<Rightarrow> bool \<Rightarrow> int \<Rightarrow> string \<Rightarrow> dyn \<Rightarrow> sse_server \<Rightarrow> (error option \<times> sse_server) option" where
  "NotifyDataWithEventName env take_quit now eventName d s =
     NotifyDataWithMeta env take_quit now d [WithEventName eventName] s"

section \<open>Serving requests\<close>

text \<open>How a request ends, or that it goes on as a stream: to which stream and as which subscriber.\<close>

datatype http_result = Responded nat string | Streaming nat nat

definition prepareHeaderForSSE :: "sse_server \<Rightarrow> (string, string) gomap \<Rightarrow> (string, string) gomap" where
  "prepareHeaderForSSE s h =
     gomap_put_all (ss_headers s)
       (gomap_put ''Access-Control-Allow-Headers'' ''Content-Type''
         (gomap_put ''Access-Control-Allow-Origin'' (ss_corsAllowOrigin s)
           (gomap_put ''Connection'' ''keep-alive''
             (gomap_put ''Cache-Control'' ''no-cache''
               (gomap_put ''Content-Type'' ''text/event-stream'' h)))))"

definition options_headers :: "sse_server \<Rightarrow> (string, string) gomap" where
  "options_headers s =
     [(''Access-Control-Allow-Origin'', ss_corsAllowOrigin s),
      (''Access-Control-Allow-Methods'', ''GET, OPTIONS''),
      (''Access-Control-Allow-Headers'', ''Content-Type, Authorization, X-Token, Last-Event-ID''),
      (''Access-Control-Max-Age'', ''86400'')]"

text \<open>The text of an error, as the response shows it.\<close>

fun error_text :: "error \<Rightarrow> string" where
  "error_text (ErrNew t) = t"
| "error_text (ErrWrap t e) = t @ '': '' @ error_text e"
| "error_text ErrEOF = ''EOF''"
| "error_text ErrUnexpectedEOF = ''unexpected EOF''"
| "error_text ErrCanceled = ''context canceled''"
| "error_text ErrDeadlineExceeded = ''context deadline exceeded''"
| "error_text ErrClosed = ''use of closed network connection''"
| "error_text (GoPanic t) = t"

definition authorize :: "sse_server \<Rightarrow> request \<Rightarrow> error option" where
  "authorize s r =
     (case ss_authorizeFunc s of
        None \<Rightarrow> None
      | Some f \<Rightarrow> f r (case ss_tokenExtractor s of None \<Rightarrow> '''' | Some x \<Rightarrow> x r))"

text \<open>\<open>ServeHTTP\<close> up to the loop over the subscriber's connection: the result, the headers, the server.\<close>

definition ServeHTTP :: "bool \<Rightarrow> request \<Rightarrow> sse_server \<Rightarrow> http_result \<times> (string, string) gomap \<times> sse_server" where
  "ServeHTTP flusher r s =
     (if rq_Method r = ''OPTIONS'' then (Responded 204 '''', options_headers s, s)
      else (case authorize s r of
              Some e \<Rightarrow> (Responded (if isForbidden e then 403 else 401) (error_text e), [], s)
            | None \<Rightarrow>
                if \<not> flusher then (Responded 500 ''Streaming unsupported!'', [], s)
                else
                  let h = prepareHeaderForSSE s []; streamID = rq_Query r (ss_streamIdKey s)
                  in if streamID = '''' then (Responded 500 ''Please specify a stream!'', h, s)
                     else
                       (case (case StreamManager_Get s streamID of
                                Some p \<Rightarrow> Some (p, s)
                              | None \<Rightarrow> if \<not> ss_autoStream s then None else Some (CreateStream streamID s)) of
                          None \<Rightarrow> (Responded 500 ''Stream not found!'', h, s)
                        | Some (p, s1) \<Rightarrow>
                            (Streaming p (case ss_heap s1 p of Some st \<Rightarrow> st_next st | None \<Rightarrow> 0), h,
                             heap_upd p (addSubscriber (rq_Header r ''Last-Event-ID'')) s1))))"

text \<open>The goroutine that waits for the end of the request: after \<open>sub.close\<close> it may remove the stream.\<close>

definition ServeHTTP_done :: "string \<Rightarrow> nat \<Rightarrow> sse_server \<Rightarrow> sse_server" where
  "ServeHTTP_done streamID p s =
     (case ss_heap s p of
        Some st \<Rightarrow> (if ss_autoStream s \<and> \<not> ss_autoReplay s \<and> getSubscriberCount st = 0
                    then StreamManager_RemoveWithID streamID s else s)
      | None \<Rightarrow> s)"

section \<open>Listening, starting and stopping\<close>

definition sse_listen :: "sse_env \<Rightarrow> sse_server \<Rightarrow> error option \<times> sse_server" where
  "sse_listen env s =
     (case ss_lis s of
        Some l \<Rightarrow> (None, s)
      | None \<Rightarrow> (case se_Listen env (ss_network s) (ss_address s) of
                   Inl e \<Rightarrow> (Some e, s)
                 | Inr l \<Rightarrow> (None, s\<lparr>ss_lis := Some l\<rparr>)))"

definition sse_listenAndEndpoint :: "sse_env \<Rightarrow> sse_server \<Rightarrow> error option \<times> sse_server" where
  "sse_listenAndEndpoint env s =
     (case sse_listen env s of
        (Some e, s1) \<Rightarrow> (Some e, s1)
      | (None, s1) \<Rightarrow>
          (if ss_endpoint s1 = None
           then (case AdjustAddress (se_ParseIP env) (se_Interfaces env) (ss_address s1) (ss_lis s1) of
                   Inl e \<Rightarrow> (Some e, s1\<lparr>ss_err := Some e\<rparr>)
                 | Inr addr \<Rightarrow> (None, s1\<lparr>ss_endpoint := Some (NewRegistryEndpoint ''sse'' addr)\<rparr>))
           else (None, s1)))"

definition sse_NewServer :: "sse_env \<Rightarrow> (sse_server \<Rightarrow> sse_server) list \<Rightarrow> sse_server" where
  "sse_NewServer env opts =
     (let s = \<lparr>ss_lis = None, ss_tlsConf = None, ss_endpoint = None, ss_network = ''tcp'', ss_address = '':0'',
               ss_path = ''/'', ss_streamIdKey = ''stream'', ss_err = None, ss_codec = None, ss_headers = [],
               ss_eventTTL = 0, ss_bufferSize = 1024, ss_encodeBase64 = False, ss_splitData = False,
               ss_autoStream = False, ss_autoReplay = True, ss_corsAllowOrigin = ''*'',
               ss_subscribeFunc = False, ss_unsubscribeFunc = False, ss_authorizeFunc = None,
               ss_tokenExtractor = Some (\<lambda>r. DefaultTokenExtractor (Some r)), ss_streams = [],
               ss_heap = (\<lambda>_. None), ss_nextp = 0\<rparr>;
          (err, s1) = sse_listen env (fold (\<lambda>opt s. opt s) opts s)
      in s1\<lparr>ss_err := err\<rparr>)"

text \<open>\<open>serve\<close> is what \<open>Serve\<close> returned in the end: \<open>None\<close> for \<open>http.ErrServerClosed\<close>.\<close>

definition sse_Start :: "sse_env \<Rightarrow> error option \<Rightarrow> sse_server \<Rightarrow> error option \<times> sse_server" where
  "sse_Start env serve s =
     (case sse_listenAndEndpoint env s of
        (Some e, s1) \<Rightarrow> (Some e, s1)
      | (None, s1) \<Rightarrow> (case ss_err s1 of Some e \<Rightarrow> (Some e, s1) | None \<Rightarrow> (serve, s1)))"

definition sse_Stop :: "error option \<Rightarrow> sse_server \<Rightarrow> error option \<times> sse_server" where
  "sse_Stop shutdown s =
     (shutdown, (StreamManager_Clean s)\<lparr>ss_lis := None, ss_endpoint := None, ss_err := None\<rparr>)"

definition sse_Endpoint :: "sse_env \<Rightarrow> sse_server \<Rightarrow> (error + url option) \<times> sse_server" where
  "sse_Endpoint env s =
     (case sse_listenAndEndpoint env s of
        (Some e, s1) \<Rightarrow> (Inl e, s1)
      | (None, s1) \<Rightarrow> (Inr (ss_endpoint s1), s1))"

section \<open>The client's request\<close>

text \<open>The headers and the query of \<open>request\<close>; headers of the client override the others.\<close>

definition sse_request_headers :: "bytes \<Rightarrow> (string, string) gomap \<Rightarrow> (string, string) gomap" where
  "sse_request_headers lastEventID headers =
     gomap_put_all headers
       ((if lastEventID \<noteq> [] then gomap_put ''Last-Event-ID'' lastEventID else id)
         (gomap_put ''Connection'' ''keep-alive''
           (gomap_put ''Accept'' ''text/event-stream'' (gomap_put ''Cache-Control'' ''no-cache'' []))))"

definition sse_request :: "bytes \<Rightarrow> (string, string) gomap \<Rightarrow> string \<Rightarrow> request" where
  "sse_request lastEventID headers stream =
     \<lparr>rq_Method = ''GET'',
      rq_Header = (\<lambda>k. case map_of (sse_request_headers lastEventID headers) k of None \<Rightarrow> '''' | Some v \<Rightarrow> v),
      rq_Query = (\<lambda>k. if stream \<noteq> '''' \<and> k = ''stream'' then stream else '''')\<rparr>"

section \<open>Lemmas\<close>

lemma heap_upd_fields [simp]:
  "ss_streams (heap_upd p f s) = ss_streams s" "ss_heap (heap_upd p f s) = (ss_heap s)(p := map_option f (ss_heap s p))"
  "ss_nextp (heap_upd p f s) = ss_nextp s" "ss_encodeBase64 (heap_upd p f s) = ss_encodeBase64 s"
  "ss_autoStream (heap_upd p f s) = ss_autoStream s"
  by (simp_all add: heap_upd_def)

definition sse_keys :: "sse_server \<Rightarrow> string list" where
  "sse_keys s = map fst (ss_streams s)"

lemma Get_eq: "StreamManager_Get s = map_of (ss_streams s)"
  by (simp add: fun_eq_iff StreamManager_Get_def)

lemma RemoveWithID_streams:
  "gomap_wf (ss_streams s) \<Longrightarrow> map_of (ss_streams (StreamManager_RemoveWithID k s)) = (map_of (ss_streams s))(k := None)"
  "gomap_wf (ss_streams s) \<Longrightarrow> gomap_wf (ss_streams (StreamManager_RemoveWithID k s))"
  by (auto simp: StreamManager_RemoveWithID_def gomap_simps fun_upd_idem split: option.splits)

text \<open>The manager keeps the first stream that was added under an id.\<close>

interpretation sse_manager: first_wins_store StreamManager_Get StreamManager_RemoveWithID sse_keys
    "\<lambda>s. gomap_wf (ss_streams s)" StreamManager_Add
  by unfold_locales
    (auto simp: Get_eq RemoveWithID_streams sse_keys_def dom_gomap StreamManager_Add_def gomap_simps)

text \<open>Streams of the manager are in the heap, under their own id; new addresses are unused.\<close>

definition sse_wf :: "sse_server \<Rightarrow> bool" where
  "sse_wf s \<longleftrightarrow> gomap_wf (ss_streams s) \<and> distinct (map snd (ss_streams s)) \<and>
     (\<forall>k p. map_of (ss_streams s) k = Some p \<longrightarrow> p < ss_nextp s \<and> (\<exists>st. ss_heap s p = Some st \<and> st_id st = k)) \<and>
     (\<forall>p\<ge>ss_nextp s. ss_heap s p = None)"

lemma sse_wf_CreateStream:
  assumes "sse_wf s" and "CreateStream k s = (p, s')"
  shows "sse_wf s'" "StreamManager_Get s' k = Some p" "j \<noteq> k \<Longrightarrow> StreamManager_Get s' j = StreamManager_Get s j"
proof -
  have fresh: "ss_nextp s \<notin> set (map snd (ss_streams s))"
    using assms(1) by (force simp: sse_wf_def)
  have "sse_wf s' \<and> StreamManager_Get s' k = Some p \<and> (j \<noteq> k \<longrightarrow> StreamManager_Get s' j = StreamManager_Get s j)"
  proof (cases "map_of (ss_streams s) k")
    case (Some q)
    then show ?thesis using assms by (simp add: CreateStream_def Get_eq)
  next
    case None
    have abs: "k \<notin> fst ` set (ss_streams s)" using None by (simp add: map_of_eq_None_iff)
    have eq: "p = ss_nextp s" "s' = s\<lparr>ss_heap := (ss_heap s)(ss_nextp s \<mapsto> newStream k (ss_bufferSize s) (ss_autoReplay s)
        (ss_autoStream s) (ss_subscribeFunc s) (ss_unsubscribeFunc s)), ss_nextp := Suc (ss_nextp s),
        ss_streams := ss_streams s @ [(k, ss_nextp s)]\<rparr>"
      using assms(2) None
      by (auto simp: CreateStream_def CreateStream_make_def createStream_def Get_eq StreamManager_Add_def Let_def
          gomap_put_absent [OF abs])
    have "sse_wf s'"
      using assms(1) fresh abs unfolding eq(2)
      by (force simp: sse_wf_def newStream_def map_of_append map_add_Some_iff less_Suc_eq split: if_splits)
    moreover have "StreamManager_Get s' k = Some p"
      using None by (simp add: eq Get_eq map_add_def)
    moreover have "j \<noteq> k \<longrightarrow> StreamManager_Get s' j = StreamManager_Get s j"
      by (simp add: eq Get_eq map_add_def split: option.splits)
    ultimately show ?thesis by blast
  qed
  then show "sse_wf s'" "StreamManager_Get s' k = Some p" "j \<noteq> k \<Longrightarrow> StreamManager_Get s' j = StreamManager_Get s j"
    by auto
qed

lemma offer_all_spec:
  assumes "distinct ps" and "\<forall>p\<in>set ps. \<exists>st. ss_heap s p = Some st \<and> \<not> st_quit st \<and> length (st_event st) < st_bufSize st"
  shows "\<exists>s'. offer_all tq ev ps s = Some s' \<and> ss_streams s' = ss_streams s
     \<and> (\<forall>p. ss_heap s' p = (if p \<in> set ps then map_option (send_event ev) (ss_heap s p) else ss_heap s p))"
  using assms
proof (induction ps arbitrary: s)
  case (Cons p ps)
  obtain st where st: "ss_heap s p = Some st" "\<not> st_quit st" "length (st_event st) < st_bufSize st"
    using Cons.prems(2) by auto
  let ?t = "heap_upd p (send_event ev) s"
  have o: "offer tq ev p s = Some ?t" using st by (simp add: offer_def Let_def)
  have "\<forall>q\<in>set ps. \<exists>st. ss_heap ?t q = Some st \<and> \<not> st_quit st \<and> length (st_event st) < st_bufSize st"
    using Cons.prems by auto
  from Cons.IH [OF _ this] Cons.prems(1) obtain s' where s': "offer_all tq ev ps ?t = Some s'"
      "ss_streams s' = ss_streams s"
      "\<forall>q. ss_heap s' q = (if q \<in> set ps then map_option (send_event ev) (ss_heap ?t q) else ss_heap ?t q)"
    by auto
  then show ?case using o Cons.prems(1) by (intro exI [of _ s']) auto
qed simp

lemma fold_close_streams:
  "ss_streams (fold (\<lambda>(k, p). heap_upd p Stream_close) kps s) = ss_streams s"
  "ss_heap (fold (\<lambda>(k, p). heap_upd p Stream_close) kps s) p =
     (if p \<in> snd ` set kps then map_option Stream_close (ss_heap s p) else ss_heap s p)"
proof (induction kps arbitrary: s)
  case (Cons kp kps)
  have cc: "map_option (Stream_close \<circ> Stream_close) x = map_option Stream_close x" for x
    by (cases x) (simp_all add: Stream_close_def)
  {
    case 1
    then show ?case using Cons.IH(1) by (simp add: case_prod_beta)
  next
    case 2
    then show ?case using Cons.IH(2) cc by (auto simp: case_prod_beta option.map_comp)
  }
qed simp_all

lemma TrimSpace_id:
  assumes "s = [] \<or> \<not> is_space (hd s) \<and> \<not> is_space (last s)"
  shows "TrimSpace s = s"
proof (cases "s = []")
  case False
  then have h: "\<not> is_space (hd s)" "\<not> is_space (last s)" using assms by auto
  have "dropWhile is_space s = s" using h False by (cases s) auto
  moreover have "dropWhile is_space (rev s) = rev s" using h False by (cases s rule: rev_cases) auto
  ultimately show ?thesis by (simp add: TrimSpace_def)
qed (simp add: TrimSpace_def)

section \<open>Properties\<close>

text \<open>
  C40: no request gets past the authorization function: when it rejects a request, the response is 403 if
  the error is or wraps \<open>ErrForbidden\<close> and 401 otherwise, and the server is unchanged (no stream is made
  and nobody is subscribed). Only preflight \<open>OPTIONS\<close> requests are answered without it, with 204 and
  without touching any stream.
\<close>

theorem sse_authorization_is_enforced:
  assumes "rq_Method r \<noteq> ''OPTIONS''" and "ss_authorizeFunc s = Some f"
    and "f r (case ss_tokenExtractor s of None \<Rightarrow> '''' | Some x \<Rightarrow> x r) = Some e"
  shows "ServeHTTP flusher r s = (Responded (if errors_Is e ErrForbidden then 403 else 401) (error_text e), [], s)
       \<and> ServeHTTP flusher (r\<lparr>rq_Method := ''OPTIONS''\<rparr>) s = (Responded 204 '''', options_headers s, s)"
  using assms by (simp add: ServeHTTP_def authorize_def isForbidden_def)

definition test_sse_env :: sse_env where
  "test_sse_env = \<lparr>se_Listen = (\<lambda>_ _. Inr (TcpListener 80)), se_ParseIP = (\<lambda>_. None), se_Interfaces = Inr [],
     se_GetCodec = (\<lambda>_. None), se_gob = \<lparr>c_Marshal = (\<lambda>_. Inl (ErrNew ''gob'')), c_Unmarshal = (\<lambda>_ _. Inl (ErrNew ''gob''))\<rparr>\<rparr>"

lemma test_sse_server:
  "ss_streams (sse_NewServer test_sse_env []) = []" "ss_heap (sse_NewServer test_sse_env []) = (\<lambda>_. None)"
  "ss_nextp (sse_NewServer test_sse_env []) = 0" "sse_wf (sse_NewServer test_sse_env [])"
  "ss_bufferSize (sse_NewServer test_sse_env []) = 1024" "ss_encodeBase64 (sse_NewServer test_sse_env []) = False"
  by (simp_all add: sse_NewServer_def sse_listen_def test_sse_env_def sse_wf_def)

theorem sse_authorization_is_enforced_witness:
  "fst (ServeHTTP True (sse_request [] [] ''news'')
     (WithAuthorizeFunc (Some (\<lambda>r tok. if tok = '''' then Some (ErrWrap ''no token'' ErrForbidden) else None))
       (sse_NewServer test_sse_env []))) = Responded 403 ''no token: forbidden''"
proof -
  let ?f = "\<lambda>(r :: request) tok. if tok = '''' then Some (ErrWrap ''no token'' ErrForbidden) else None"
  let ?s = "WithAuthorizeFunc (Some ?f) (sse_NewServer test_sse_env [])"
  let ?r = "sse_request [] [] ''news''"
  have "?f ?r (case ss_tokenExtractor ?s of None \<Rightarrow> '''' | Some x \<Rightarrow> x ?r) = Some (ErrWrap ''no token'' ErrForbidden)"
    by (simp add: WithAuthorizeFunc_def sse_NewServer_def sse_listen_def test_sse_env_def DefaultTokenExtractor_def
        sse_request_def sse_request_headers_def gomap_put_def gomap_put_all_def extractBearerToken_def TrimSpace_def)
  then show ?thesis
    using sse_authorization_is_enforced [of ?r ?s ?f "ErrWrap ''no token'' ErrForbidden" True]
    by (simp add: sse_request_def WithAuthorizeFunc_def ErrForbidden_def)
qed

text \<open>
  \<open>Notify\<close> gives every stream of the server the event exactly once, encoded exactly once (also with
  base64, where encoding in place would encode it again for each stream), and \<open>Publish\<close> reaches the
  named stream and no other; neither touches streams the manager does not know.
\<close>

theorem sse_notify_reaches_every_stream_once:
  assumes "sse_wf s" and "\<forall>k p st. StreamManager_Get s k = Some p \<longrightarrow> ss_heap s p = Some st \<longrightarrow>
      \<not> st_quit st \<and> length (st_event st) < st_bufSize st" and "ev_Data ev \<noteq> []"
  shows "(\<exists>s'. Notify tq now ev s = Some s' \<and> (\<forall>p. ss_heap s' p =
       (if p \<in> ran (StreamManager_Get s) then map_option (send_event (process now s ev)) (ss_heap s p) else ss_heap s p)))
    \<and> ev_Data (process now s ev) = (if ss_encodeBase64 s then b64_Encode (ev_Data ev) else ev_Data ev)
    \<and> (\<forall>k p. StreamManager_Get s k = Some p \<longrightarrow>
         Publish tq now k ev s = Some (heap_upd p (send_event (process now s ev)) s))"
proof (intro conjI allI impI)
  have ran: "set (map snd (ss_streams s)) = ran (StreamManager_Get s)"
    using assms(1) by (simp add: Get_eq sse_wf_def ran_distinct)
  have hp: "\<exists>st. ss_heap s p = Some st" if "StreamManager_Get s k = Some p" for k p
    using that assms(1) unfolding sse_wf_def Get_eq by blast
  have "\<forall>p\<in>set (map snd (ss_streams s)). \<exists>st. ss_heap s p = Some st \<and> \<not> st_quit st \<and> length (st_event st) < st_bufSize st"
    unfolding ran ran_def using hp assms(2) by blast
  from offer_all_spec [OF _ this, of tq "process now s ev"] assms(1)
  show "\<exists>s'. Notify tq now ev s = Some s' \<and> (\<forall>p. ss_heap s' p =
       (if p \<in> ran (StreamManager_Get s) then map_option (send_event (process now s ev)) (ss_heap s p) else ss_heap s p))"
    unfolding ran Notify_def sse_wf_def by blast
  show "ev_Data (process now s ev) = (if ss_encodeBase64 s then b64_Encode (ev_Data ev) else ev_Data ev)"
    using assms(3) by (simp add: process_def encodeBase64_def Let_def)
  show "Publish tq now k ev s = Some (heap_upd p (send_event (process now s ev)) s)" if "StreamManager_Get s k = Some p" for k p
  proof -
    from hp [OF that] obtain st where st: "ss_heap s p = Some st" by blast
    with assms(2) \<open>StreamManager_Get s k = Some p\<close> have "\<not> st_quit st \<and> length (st_event st) < st_bufSize st" by blast
    with st \<open>StreamManager_Get s k = Some p\<close> show ?thesis by (simp add: Publish_def offer_def Let_def)
  qed
qed

theorem sse_notify_reaches_every_stream_once_witness:
  "\<exists>s s'. sse_wf s \<and> ran (StreamManager_Get s) = {0, 1} \<and> Notify False 5 (empty_event\<lparr>ev_Data := ''x''\<rparr>) s = Some s'
     \<and> ss_heap s' 1 = map_option (send_event (empty_event\<lparr>ev_Data := ''x'', ev_timestamp := Some 5\<rparr>)) (ss_heap s 1)"
proof -
  let ?ev = "empty_event\<lparr>ev_Data := ''x''\<rparr>"
  define s where "s = (sse_NewServer test_sse_env [])\<lparr>ss_streams := [(''a'', 0), (''b'', 1)], ss_nextp := 2,
      ss_heap := [0 \<mapsto> newStream ''a'' 8 True True True True, 1 \<mapsto> newStream ''b'' 8 True True True True]\<rparr>"
  have sq: "ss_streams s = [(''a'', 0), (''b'', 1)]" "ss_encodeBase64 s = False" "ss_nextp s = 2"
    "ss_heap s = [0 \<mapsto> newStream ''a'' 8 True True True True, 1 \<mapsto> newStream ''b'' 8 True True True True]"
    by (simp_all add: s_def test_sse_server)
  have wf: "sse_wf s" unfolding sse_wf_def sq by (simp add: newStream_def)
  have ran: "ran (StreamManager_Get s) = {0, 1}" 
    unfolding Get_eq sq by (subst ran_distinct) simp_all
  have rdy: "\<forall>k p st. StreamManager_Get s k = Some p \<longrightarrow> ss_heap s p = Some st \<longrightarrow>
      \<not> st_quit st \<and> length (st_event st) < st_bufSize st"
    unfolding Get_eq sq by (auto simp: newStream_def split: if_splits)
  have ev: "process 5 s ?ev = empty_event\<lparr>ev_Data := ''x'', ev_timestamp := Some 5\<rparr>"
    by (simp add: process_def sq empty_event_def Let_def)
  have "ev_Data ?ev \<noteq> []" by simp
  from sse_notify_reaches_every_stream_once [OF wf rdy this, of False 5] wf ran
  show ?thesis unfolding ev by (metis insertCI)
qed

text \<open>
  \<open>CreateStream\<close> returns the manager's stream for the id, making it if there is none, and changes no
  other id; creating again returns the same stream.
\<close>

theorem sse_CreateStream_spec:
  assumes "sse_wf s" and "CreateStream k s = (p, s')"
  shows "sse_wf s' \<and> StreamManager_Get s' k = Some p \<and> CreateStream k s' = (p, s')
       \<and> (\<forall>j. j \<noteq> k \<longrightarrow> StreamManager_Get s' j = StreamManager_Get s j)
       \<and> (\<forall>q. StreamManager_Get s k = Some q \<longrightarrow> p = q \<and> s' = s)"
proof -
  note wf = sse_wf_CreateStream [OF assms]
  have "CreateStream k s' = (p, s')" using wf(2) by (simp add: CreateStream_def)
  moreover have "p = q \<and> s' = s" if "StreamManager_Get s k = Some q" for q
    using that assms(2) by (simp add: CreateStream_def)
  ultimately show ?thesis using wf by blast
qed

theorem sse_CreateStream_spec_witness:
  "\<exists>p s'. CreateStream ''a'' (sse_NewServer test_sse_env []) = (p, s') \<and> StreamManager_Get s' ''a'' = Some p"
proof -
  obtain p s' where c: "CreateStream ''a'' (sse_NewServer test_sse_env []) = (p, s')" by force
  have "StreamManager_Get s' ''a'' = Some p" using sse_CreateStream_spec [OF test_sse_server(4) c] by (elim conjE)
  with c show ?thesis by (intro exI conjI)
qed

text \<open>
  Two goroutines that create the same stream at the same time can both find it missing. Then the
  second one gets a running stream of its own that the manager does not have: nothing published under the
  id ever reaches the subscribers of that stream, and neither \<open>Stop\<close> nor removal by id closes it.
\<close>

theorem sse_concurrent_create_orphans_a_stream:
  assumes "sse_wf s" and "StreamManager_Get s k = None"
    and "CreateStream_make k s = (p, s1)" and "CreateStream_make k s1 = (q, s2)"
  shows "q \<noteq> p \<and> StreamManager_Get s2 k = Some p \<and> (\<exists>st. ss_heap s2 q = Some st \<and> st_loop st = Idle \<and> \<not> st_quit st)
       \<and> (\<forall>tq now ev s3. Publish tq now k ev s2 = Some s3 \<longrightarrow> ss_heap s3 q = ss_heap s2 q)
       \<and> ss_heap (snd (sse_Stop None s2)) q = ss_heap s2 q
       \<and> ss_heap (StreamManager_RemoveWithID k s2) q = ss_heap s2 q"
proof -
  have fresh: "map_of (ss_streams s) k = None" "\<And>j r. map_of (ss_streams s) j = Some r \<Longrightarrow> r < ss_nextp s"
    using assms(1,2) unfolding sse_wf_def Get_eq by blast+
  have abs: "k \<notin> fst ` set (ss_streams s)" using fresh(1) by (simp add: map_of_eq_None_iff)
  have s1: "p = ss_nextp s" "ss_streams s1 = ss_streams s @ [(k, p)]" "ss_nextp s1 = Suc p"
    using assms(3) fresh(1) by (auto simp: CreateStream_make_def createStream_def StreamManager_Add_def Let_def gomap_put_absent [OF abs])
  have g1: "map_of (ss_streams s1) k = Some p" using fresh(1) by (simp add: s1 map_add_def)
  have s2: "q = Suc p" "ss_streams s2 = ss_streams s1" "\<exists>st. ss_heap s2 q = Some st \<and> st_loop st = Idle \<and> \<not> st_quit st"
    using assms(4) g1 s1(3) by (auto simp: CreateStream_make_def createStream_def StreamManager_Add_def Let_def newStream_def)
  have "q \<notin> snd ` set (ss_streams s2)"
  proof -
    have "r < ss_nextp s" if "(j, r) \<in> set (ss_streams s)" for j r
      using that assms(1) by (auto simp: sse_wf_def)
    then show ?thesis using s1 s2 by force
  qed
  then have clean: "ss_heap (snd (sse_Stop None s2)) q = ss_heap s2 q"
    by (simp add: sse_Stop_def StreamManager_Clean_def fold_close_streams)
  have g2: "map_of (ss_streams s2) k = Some p" using g1 s2 by simp
  have "ss_heap s3 q = ss_heap s2 q" if "Publish tq now k ev s2 = Some s3" for tq now ev s3
    using that g2 s2(1) by (auto simp: Publish_def Get_eq offer_def Let_def split: option.splits if_splits)
  moreover have "ss_heap (StreamManager_RemoveWithID k s2) q = ss_heap s2 q"
    using g2 s2(1) by (simp add: StreamManager_RemoveWithID_def)
  ultimately show ?thesis using s2 g2 clean by (simp add: Get_eq)
qed

theorem sse_concurrent_create_orphans_a_stream_witness:
  "\<exists>s1 s2 p q. CreateStream_make ''a'' (sse_NewServer test_sse_env []) = (p, s1) \<and> CreateStream_make ''a'' s1 = (q, s2)
     \<and> q \<noteq> p \<and> StreamManager_Get s2 ''a'' = Some p"
proof -
  let ?s = "sse_NewServer test_sse_env []"
  obtain p s1 where m1: "CreateStream_make ''a'' ?s = (p, s1)" by (meson surj_pair)
  obtain q s2 where m2: "CreateStream_make ''a'' s1 = (q, s2)" by (meson surj_pair)
  have "StreamManager_Get ?s ''a'' = None" by (simp add: Get_eq test_sse_server)
  from sse_concurrent_create_orphans_a_stream [OF test_sse_server(4) this m1 m2] m1 m2 show ?thesis by blast
qed

text \<open>
  \<open>Stop\<close> closes every stream of the manager and empties it, and a server that is started again
  announces the address of its new listener, because \<open>Stop\<close> forgets listener and endpoint.
\<close>

theorem sse_Stop_closes_all_streams:
  assumes "sse_wf s"
  shows "ss_streams (snd (sse_Stop e s)) = []
       \<and> (\<forall>k p. StreamManager_Get s k = Some p \<longrightarrow>
            (\<exists>st. ss_heap (snd (sse_Stop e s)) p = Some st \<and> st_quit st))
       \<and> (\<forall>env l a err s2. se_Listen env (ss_network s) (ss_address s) = Inr l \<longrightarrow>
            AdjustAddress (se_ParseIP env) (se_Interfaces env) (ss_address s) (Some l) = Inr a \<longrightarrow>
            sse_Start env err (snd (sse_Stop e s)) = (err, s2) \<longrightarrow>
            ss_lis s2 = Some l \<and> ss_endpoint s2 = Some (NewRegistryEndpoint ''sse'' a))"
proof (intro conjI allI impI)
  show "ss_streams (snd (sse_Stop e s)) = []" by (simp add: sse_Stop_def StreamManager_Clean_def)
next
  fix k p
  assume g: "StreamManager_Get s k = Some p"
  then obtain st where "ss_heap s p = Some st" using assms unfolding sse_wf_def Get_eq by blast
  moreover have "p \<in> snd ` set (ss_streams s)" using g by (force simp: Get_eq dest: map_of_SomeD)
  ultimately show "\<exists>st. ss_heap (snd (sse_Stop e s)) p = Some st \<and> st_quit st"
    by (simp add: sse_Stop_def StreamManager_Clean_def fold_close_streams Stream_close_def)
next
  fix env l a err s2
  assume l: "se_Listen env (ss_network s) (ss_address s) = Inr l"
    and a: "AdjustAddress (se_ParseIP env) (se_Interfaces env) (ss_address s) (Some l) = Inr a"
    and st: "sse_Start env err (snd (sse_Stop e s)) = (err, s2)"
  have nw: "ss_network (fold (\<lambda>(k, p). heap_upd p Stream_close) kps t) = ss_network t
      \<and> ss_address (fold (\<lambda>(k, p). heap_upd p Stream_close) kps t) = ss_address t" for kps t
    by (induction kps arbitrary: t) (auto simp: heap_upd_def)
  show "ss_lis s2 = Some l" "ss_endpoint s2 = Some (NewRegistryEndpoint ''sse'' a)"
    using l a st
    by (auto simp: sse_Start_def sse_listenAndEndpoint_def sse_listen_def sse_Stop_def StreamManager_Clean_def nw)
qed

theorem sse_Stop_closes_all_streams_witness:
  "\<exists>s p. sse_wf s \<and> StreamManager_Get s ''a'' = Some p \<and> (\<exists>st. ss_heap (snd (sse_Stop None s)) p = Some st \<and> st_quit st)"
proof -
  obtain p s where c: "CreateStream ''a'' (sse_NewServer test_sse_env []) = (p, s)" by (meson surj_pair)
  note wf = sse_wf_CreateStream [OF test_sse_server(4) c]
  from sse_Stop_closes_all_streams [OF wf(1), of None] wf show ?thesis by blast
qed

text \<open>
  The default extractor finds a bearer token whatever the case of the scheme, and without the scheme
  takes the whole header; it prefers the authorization header to \<open>X-Token\<close> and that to the query.
\<close>

theorem sse_bearer_token:
  assumes "map to_lower scheme = ''bearer''" and "tok \<noteq> []" and "\<not> is_space (hd tok)" and "\<not> is_space (last tok)"
    and "rq_Header r ''Authorization'' = scheme @ '' '' @ tok"
  shows "DefaultTokenExtractor (Some r) = tok \<and> BearerToken (Some r) = tok
       \<and> DefaultTokenExtractor (Some (r\<lparr>rq_Header := (\<lambda>k. if k = ''X-Token'' then tok else '''')\<rparr>)) = tok"
proof -
  have len: "length scheme = 6" using arg_cong [OF assms(1), of length] by simp
  have hd: "\<not> is_space (hd scheme)"
  proof
    assume sp: "is_space (hd scheme)"
    have "to_lower (hd scheme) = CHR ''b''" using assms(1) by (cases scheme) auto
    moreover have "to_lower (hd scheme) = hd scheme" using sp by (auto simp: is_space_def to_lower_def Let_def)
    ultimately show False using sp by (simp add: is_space_def)
  qed
  have "TrimSpace (scheme @ '' '' @ tok) = scheme @ '' '' @ tok"
    using hd assms(2,4) len by (intro TrimSpace_id) (cases scheme; auto)
  moreover have "TrimSpace tok = tok" using assms(2-4) by (intro TrimSpace_id) simp
  moreover have "EqualFold (scheme @ '' '') ''Bearer ''" 
  proof -
    have "map to_lower ''Bearer '' = ''bearer ''" "to_lower (CHR '' '') = CHR '' ''" by code_simp+
    then show ?thesis using assms(1) by (simp add: EqualFold_def)
  qed
  ultimately have "extractBearerToken (scheme @ '' '' @ tok) = tok"
    using len by (simp add: extractBearerToken_def Let_def)
  moreover have "extractBearerToken '''' = ''''" "TrimSpace '''' = ''''"
    by (simp_all add: extractBearerToken_def TrimSpace_def)
  moreover have "BearerToken (Some r) = extractBearerToken (rq_Header r ''Authorization'')"
    by (simp add: BearerToken_def Authorization_def HeaderValue_def extractBearerToken_def)
  ultimately show ?thesis
    using assms(2,5) \<open>TrimSpace tok = tok\<close> by (simp add: DefaultTokenExtractor_def)
qed

theorem sse_bearer_token_witness:
  "DefaultTokenExtractor (Some \<lparr>rq_Method = ''GET'', rq_Header = (\<lambda>_. ''bEARER abc''), rq_Query = (\<lambda>_. '''')\<rparr>) = ''abc''"
proof -
  have "map to_lower ''bEARER'' = ''bearer''" by code_simp
  then show ?thesis
    using sse_bearer_token [of "''bEARER''" "''abc''" "\<lparr>rq_Method = ''GET'', rq_Header = (\<lambda>_. ''bEARER abc''), rq_Query = (\<lambda>_. '''')\<rparr>"]
    by (simp add: is_space_def)
qed

end
