(* ===== verification/Timer_Heap.thy ===== *)
theory Timer_Heap
  imports Interfaces "HOL-Library.Product_Lexorder"
begin

text \<open>
  The task heap of the high precision timer: \<open>transport/hptimer/timer_task.go\<close> and \<open>timer_heap.go\<close>, with
  the operations of Go's \<open>container/heap\<close> on it, loop by loop. A time is an integer, 0 being Go's zero
  time; a context and a callback are numbers. The heap is the slice; \<open>Less\<close> compares the time and then the
  priority.
\<close>

section \<open>Tasks\<close>

record task =
  tk_ID :: string
  tk_At :: int
  tk_Interval :: int
  tk_Cron :: string
  tk_Data :: dyn
  tk_Priority :: int
  tk_Callback :: "nat option"
  tk_Ctx :: "nat option"
  tk_cancel :: bool

definition PriorityHigh :: int where "PriorityHigh = 0"
definition PriorityMedium :: int where "PriorityMedium = 1"
definition PriorityLow :: int where "PriorityLow = 2"

definition WithInterval :: "int \<Rightarrow> task \<Rightarrow> task" where
  "WithInterval d t = t\<lparr>tk_Interval := d\<rparr>"

definition WithCron :: "string \<Rightarrow> task \<Rightarrow> task" where
  "WithCron expr t = t\<lparr>tk_Cron := expr\<rparr>"

definition WithData :: "dyn \<Rightarrow> task \<Rightarrow> task" where
  "WithData v t = t\<lparr>tk_Data := v\<rparr>"

definition WithCallback :: "nat option \<Rightarrow> task \<Rightarrow> task" where
  "WithCallback cb t = t\<lparr>tk_Callback := cb\<rparr>"

definition WithPriority :: "int \<Rightarrow> task \<Rightarrow> task" where
  "WithPriority p t = t\<lparr>tk_Priority := p\<rparr>"

text \<open>\<open>child\<close> is the new context that \<open>context.WithCancel\<close> makes; a nil parent changes nothing.\<close>

definition WithContext :: "nat option \<Rightarrow> nat \<Rightarrow> task \<Rightarrow> task" where
  "WithContext parent child t =
     (case parent of None \<Rightarrow> t | Some p \<Rightarrow> t\<lparr>tk_Ctx := Some child, tk_cancel := True\<rparr>)"

definition NewTimerTask :: "nat \<Rightarrow> nat \<Rightarrow> string \<Rightarrow> int \<Rightarrow> (task \<Rightarrow> task) list \<Rightarrow> task" where
  "NewTimerTask ctx ctx2 i at opts =
     (let t = fold (\<lambda>opt t. opt t) opts
            \<lparr>tk_ID = i, tk_At = at, tk_Interval = 0, tk_Cron = '''', tk_Data = DNil, tk_Priority = PriorityLow,
             tk_Callback = None, tk_Ctx = Some ctx, tk_cancel = True\<rparr>
      in if tk_Ctx t \<noteq> None \<and> \<not> tk_cancel t then t\<lparr>tk_Ctx := Some ctx2, tk_cancel := True\<rparr> else t)"

section \<open>The heap\<close>

definition task_less :: "task \<Rightarrow> task \<Rightarrow> bool" where
  "task_less a b = (if tk_At a \<noteq> tk_At b then tk_At a < tk_At b else tk_Priority a < tk_Priority b)"

definition Less :: "task list \<Rightarrow> nat \<Rightarrow> nat \<Rightarrow> bool" where
  "Less h i j = task_less (h ! i) (h ! j)"

definition Swap :: "task list \<Rightarrow> nat \<Rightarrow> nat \<Rightarrow> task list" where
  "Swap h i j = h[i := h ! j, j := h ! i]"

definition timerHeap_Push :: "task \<Rightarrow> task list \<Rightarrow> task list" where
  "timerHeap_Push x h = h @ [x]"

definition timerHeap_Pop :: "task list \<Rightarrow> task \<times> task list" where
  "timerHeap_Pop h = (last h, butlast h)"

text \<open>The loops of \<open>container/heap\<close>; \<open>parent\<close> is its \<open>(j - 1) / 2\<close>.\<close>

definition parent :: "nat \<Rightarrow> nat" where
  "parent j = (j - 1) div 2"

lemma parent_lt: "0 < j \<Longrightarrow> parent j < j"
  unfolding parent_def by linarith

lemma parent_le: "parent j \<le> j"
  unfolding parent_def by linarith

function heap_up :: "task list \<Rightarrow> nat \<Rightarrow> task list" where
  "heap_up h j =
     (let i = parent j
      in if i = j \<or> \<not> Less h j i then h else heap_up (Swap h i j) i)"
  by pat_completeness auto
termination
  by (relation "measure snd") (auto simp: le_neq_implies_less parent_le)

declare heap_up.simps [simp del]

function heap_down :: "task list \<Rightarrow> nat \<Rightarrow> nat \<Rightarrow> task list \<times> nat" where
  "heap_down h i n =
     (let j1 = 2 * i + 1
      in if j1 \<ge> n then (h, i)
         else
           let j = (if j1 + 1 < n \<and> Less h (j1 + 1) j1 then j1 + 1 else j1)
           in if \<not> Less h j i then (h, i) else heap_down (Swap h i j) j n)"
  by pat_completeness auto
termination
  by (relation "measure (\<lambda>(h, i, n). n - i)") auto

declare heap_down.simps [simp del]

definition heap_Push :: "task \<Rightarrow> task list \<Rightarrow> task list" where
  "heap_Push x h = (let h1 = timerHeap_Push x h in heap_up h1 (length h1 - 1))"

definition heap_Pop :: "task list \<Rightarrow> task \<times> task list" where
  "heap_Pop h =
     (let n = length h - 1; h1 = Swap h 0 n; (h2, _) = heap_down h1 0 n in timerHeap_Pop h2)"

text \<open>\<open>down\<close> reports whether the element moved.\<close>

definition heap_Remove :: "task list \<Rightarrow> nat \<Rightarrow> task \<times> task list" where
  "heap_Remove h i =
     (let n = length h - 1
      in if n \<noteq> i
         then (let (h2, k) = heap_down (Swap h i n) i n
               in timerHeap_Pop (if k > i then h2 else heap_up h2 i))
         else timerHeap_Pop h)"

fun heap_Init_loop :: "task list \<Rightarrow> nat \<Rightarrow> task list" where
  "heap_Init_loop h 0 = h"
| "heap_Init_loop h (Suc i) = heap_Init_loop (fst (heap_down h i (length h))) i"

definition heap_Init :: "task list \<Rightarrow> task list" where
  "heap_Init h = heap_Init_loop h (length h div 2)"

section \<open>Order and heap property\<close>

definition tkey :: "task \<Rightarrow> int \<times> int" where
  "tkey t = (tk_At t, tk_Priority t)"

lemma task_less_key: "task_less a b = (tkey a < tkey b)"
  by (auto simp: task_less_def tkey_def)

text \<open>The first \<open>n\<close> elements of the slice form a heap.\<close>

definition heap_upto :: "task list \<Rightarrow> nat \<Rightarrow> bool" where
  "heap_upto h n = (\<forall>j<n. 0 < j \<longrightarrow> tkey (h ! (parent j)) \<le> tkey (h ! j))"

definition is_heap :: "task list \<Rightarrow> bool" where
  "is_heap h = heap_upto h (length h)"

lemma Swap_length [simp]: "length (Swap h i j) = length h"
  by (simp add: Swap_def)

lemma Swap_nth:
  assumes "i < length h" "j < length h"
  shows "Swap h i j ! k = (if k = j then h ! i else if k = i then h ! j else h ! k)"
  using assms by (auto simp: Swap_def nth_list_update)

lemma Swap_mset: "i < length h \<Longrightarrow> j < length h \<Longrightarrow> mset (Swap h i j) = mset h"
  by (simp add: Swap_def mset_list_update_swap)

lemma heap_root_min: "heap_upto h n \<Longrightarrow> j < n \<Longrightarrow> tkey (h ! 0) \<le> tkey (h ! j)"
proof (induction j rule: less_induct)
  case (less j)
  show ?case
  proof (cases "j = 0")
    case False
    then have "tkey (h ! 0) \<le> tkey (h ! (parent j))" using less parent_lt [of j] by simp
    also have "\<dots> \<le> tkey (h ! j)" using less.prems False by (simp add: heap_upto_def)
    finally show ?thesis .
  qed simp
qed

section \<open>Sifting up\<close>

text \<open>A heap but for the element at \<open>j\<close>, which may be smaller than its parent.\<close>

definition up_inv :: "task list \<Rightarrow> nat \<Rightarrow> nat \<Rightarrow> bool" where
  "up_inv h n j \<longleftrightarrow>
     (\<forall>k<n. 0 < k \<longrightarrow> k \<noteq> j \<longrightarrow> tkey (h ! (parent k)) \<le> tkey (h ! k)) \<and>
     (\<forall>k<n. 0 < k \<longrightarrow> parent k = j \<longrightarrow> 0 < j \<longrightarrow> tkey (h ! (parent j)) \<le> tkey (h ! k))"

lemma heap_up_mset: "j < length h \<Longrightarrow> mset (heap_up h j) = mset h \<and> length (heap_up h j) = length h"
proof (induction h j rule: heap_up.induct)
  case (1 h j)
  show ?case
  proof (cases "parent j = j \<or> \<not> Less h j (parent j)")
    case True
    then show ?thesis by (simp add: heap_up.simps [of h j])
  next
    case False
    then have lt: "parent j < length h" using 1(2) parent_le [of j] by linarith
    have "heap_up h j = heap_up (Swap h (parent j) j) (parent j)"
      using False by (simp add: heap_up.simps [of h j] Let_def)
    then show ?thesis using 1(1) [OF refl False] lt 1(2) Swap_mset [OF lt 1(2)] by simp
  qed
qed

lemma up_inv_swap:
  assumes inv: "up_inv h n j" and j: "j < n" "n \<le> length h" "0 < j" and less: "tkey (h ! j) < tkey (h ! (parent j))"
  shows "up_inv (Swap h (parent j) j) n (parent j)"
proof -
  let ?i = "parent j"
  have i: "?i < j" "?i < length h" "j < length h" using j parent_lt [of j] by simp_all
  note nth = Swap_nth [OF i(2,3)]
  have all: "tkey (h ! (parent k)) \<le> tkey (h ! k)" if "k < n" "0 < k" "k \<noteq> j" for k
    using inv that by (simp add: up_inv_def)
  have ch: "tkey (h ! ?i) \<le> tkey (h ! k)" if "k < n" "0 < k" "parent k = j" for k
    using inv that j by (simp add: up_inv_def)
  have "tkey (Swap h ?i j ! (parent k)) \<le> tkey (Swap h ?i j ! k)" if k: "k < n" "0 < k" "k \<noteq> ?i" for k
  proof -
    have "parent k < k" using k parent_lt by simp
    then consider "k = j" | "parent k = j" "k \<noteq> j" | "parent k = ?i" "k \<noteq> j" | "parent k \<noteq> j" "parent k \<noteq> ?i" "k \<noteq> j"
      by blast
    then show ?thesis
    proof cases
      case 1 then show ?thesis using less i by (simp add: nth less_imp_le)
    next
      case 2 then show ?thesis using ch [of k] k i by (simp add: nth)
    next
      case 3
      then have "tkey (h ! ?i) \<le> tkey (h ! k)" using all [of k] k by simp
      then show ?thesis using 3 less k i by (simp add: nth)
    next
      case 4 then show ?thesis using all [of k] k by (simp add: nth)
    qed
  qed
  moreover have "tkey (Swap h ?i j ! (parent ?i)) \<le> tkey (Swap h ?i j ! k)"
    if k: "k < n" "0 < k" "parent k = ?i" "0 < ?i" for k
  proof -
    have p: "parent ?i < ?i" using k(4) by (rule parent_lt)
    have g: "tkey (h ! (parent ?i)) \<le> tkey (h ! ?i)" using all [of ?i] k(4) i j by simp
    show ?thesis
    proof (cases "k = j")
      case True then show ?thesis using g p i by (simp add: nth)
    next
      case False
      then have "tkey (h ! parent ?i) \<le> tkey (h ! k)" using all [of k] k g order_trans by simp
      moreover have "k \<noteq> ?i" using k parent_lt [of k] by auto
      ultimately show ?thesis using p i False by (simp add: nth)
    qed
  qed
  ultimately show ?thesis by (simp add: up_inv_def)
qed

lemma heap_up_heap: "up_inv h n j \<Longrightarrow> j < n \<Longrightarrow> n \<le> length h \<Longrightarrow> heap_upto (heap_up h j) n"
proof (induction h j rule: heap_up.induct)
  case (1 h j)
  show ?case
  proof (cases "parent j = j \<or> \<not> Less h j (parent j)")
    case True
    have "tkey (h ! (parent k)) \<le> tkey (h ! k)" if "k < n" "0 < k" for k
    proof (cases "k = j")
      case kj: True
      then have "parent j \<noteq> j" using that parent_lt [of j] by simp
      then show ?thesis using True kj by (simp add: Less_def task_less_key not_less)
    next
      case False
      then show ?thesis using 1(2) that by (simp add: up_inv_def)
    qed
    then show ?thesis using True by (simp add: heap_up.simps [of h j] heap_upto_def)
  next
    case False
    then have less: "tkey (h ! j) < tkey (h ! (parent j))" by (simp add: Less_def task_less_key)
    have j0: "0 < j" using False by (cases j) (auto simp: parent_def)
    have lt: "parent j < n" using 1(3) parent_le [of j] by linarith
    have "heap_up h j = heap_up (Swap h (parent j) j) (parent j)"
      using False by (simp add: heap_up.simps [of h j] Let_def)
    then show ?thesis
      using 1(1) [OF refl False up_inv_swap [OF 1(2,3,4) j0 less] lt] 1(4) by simp
  qed
qed

section \<open>Sifting down\<close>

lemma parent_child: "0 < k \<Longrightarrow> (parent k = i) = (k = 2 * i + 1 \<or> k = 2 * i + 2)"
  unfolding parent_def by linarith

text \<open>A heap but for the element at \<open>i\<close>, which may be in the wrong place in either direction.\<close>

definition hole_inv :: "task list \<Rightarrow> nat \<Rightarrow> nat \<Rightarrow> bool" where
  "hole_inv h n i \<longleftrightarrow>
     (\<forall>k<n. 0 < k \<longrightarrow> parent k \<noteq> i \<longrightarrow> k \<noteq> i \<longrightarrow> tkey (h ! parent k) \<le> tkey (h ! k)) \<and>
     (\<forall>k<n. 0 < k \<longrightarrow> parent k = i \<longrightarrow> 0 < i \<longrightarrow> tkey (h ! parent i) \<le> tkey (h ! k))"

definition parent_ok :: "task list \<Rightarrow> nat \<Rightarrow> bool" where
  "parent_ok h i \<longleftrightarrow> (0 < i \<longrightarrow> tkey (h ! parent i) \<le> tkey (h ! i))"

definition smaller_child :: "task list \<Rightarrow> nat \<Rightarrow> nat \<Rightarrow> nat" where
  "smaller_child h i n = (if 2 * i + 2 < n \<and> Less h (2 * i + 2) (2 * i + 1) then 2 * i + 2 else 2 * i + 1)"

lemma heap_down_eq:
  "heap_down h i n =
     (if n \<le> 2 * i + 1 \<or> \<not> Less h (smaller_child h i n) i then (h, i)
      else heap_down (Swap h i (smaller_child h i n)) (smaller_child h i n) n)"
  by (subst heap_down.simps) (simp add: smaller_child_def Let_def)

lemma heap_down_induct:
  assumes "\<And>h i n. (\<not> (n \<le> 2 * i + 1 \<or> \<not> Less h (smaller_child h i n) i)
             \<Longrightarrow> P (Swap h i (smaller_child h i n)) (smaller_child h i n) n) \<Longrightarrow> P h i n"
  shows "P h i n"
proof (induction h i n rule: heap_down.induct)
  case (1 h i n)
  show ?case
  proof (rule assms)
    assume a: "\<not> (n \<le> 2 * i + 1 \<or> \<not> Less h (smaller_child h i n) i)"
    show "P (Swap h i (smaller_child h i n)) (smaller_child h i n) n"
      by (rule 1 [OF refl]) (use a in \<open>simp_all add: smaller_child_def\<close>)
  qed
qed

lemma smaller_child_props:
  assumes "2 * i + 1 < n"
  shows "i < smaller_child h i n" "smaller_child h i n < n" "parent (smaller_child h i n) = i"
    "\<lbrakk>k < n; 0 < k; parent k = i\<rbrakk> \<Longrightarrow> tkey (h ! smaller_child h i n) \<le> tkey (h ! k)"
proof -
  show "i < smaller_child h i n" "smaller_child h i n < n" using assms by (auto simp: smaller_child_def)
  show "parent (smaller_child h i n) = i" by (auto simp: smaller_child_def parent_def)
  show "tkey (h ! smaller_child h i n) \<le> tkey (h ! k)" if "k < n" "0 < k" "parent k = i"
    using that parent_child [of k i] by (auto simp: smaller_child_def Less_def task_less_key)
qed

lemma hole_inv_swap:
  assumes inv: "hole_inv h n i" and n: "2 * i + 1 < n" "n \<le> length h"
    and less: "tkey (h ! smaller_child h i n) < tkey (h ! i)"
  shows "hole_inv (Swap h i (smaller_child h i n)) n (smaller_child h i n)
       \<and> parent_ok (Swap h i (smaller_child h i n)) (smaller_child h i n)"
proof -
  let ?j = "smaller_child h i n"
  note sc = smaller_child_props [OF n(1), where h = h]
  have lt: "i < length h" "?j < length h" using n sc by linarith+
  note nth = Swap_nth [OF lt]
  have all: "tkey (h ! parent k) \<le> tkey (h ! k)" if "k < n" "0 < k" "parent k \<noteq> i" "k \<noteq> i" for k
    using inv that by (simp add: hole_inv_def)
  have "tkey (Swap h i ?j ! parent k) \<le> tkey (Swap h i ?j ! k)"
    if k: "k < n" "0 < k" "parent k \<noteq> ?j" "k \<noteq> ?j" for k
  proof -
    have pk: "parent k < k" using k parent_lt by simp
    consider "parent k = i" | "k = i" | "parent k \<noteq> i" "k \<noteq> i" by blast
    then show ?thesis
    proof cases
      case 1 then show ?thesis using sc(4) [of k] k pk by (simp add: nth)
    next
      case 2
      then have "tkey (h ! parent i) \<le> tkey (h ! ?j)" using inv sc k by (simp add: hole_inv_def)
      then show ?thesis using 2 pk k sc(1) by (simp add: nth)
    next
      case 3 then show ?thesis using all [of k] k by (simp add: nth)
    qed
  qed
  moreover have "tkey (Swap h i ?j ! parent ?j) \<le> tkey (Swap h i ?j ! k)"
    if k: "k < n" "0 < k" "parent k = ?j" for k
  proof -
    have "?j < k" using k parent_lt [of k] by simp
    then have "tkey (h ! ?j) \<le> tkey (h ! k)" using all [of k] k sc(1) by simp
    then show ?thesis using sc k \<open>?j < k\<close> by (simp add: nth)
  qed
  moreover have "parent_ok (Swap h i ?j) ?j" using sc less by (simp add: parent_ok_def nth less_imp_le)
  ultimately show ?thesis by (simp add: hole_inv_def)
qed

lemma hole_inv_stay:
  assumes "hole_inv h n i" and "n \<le> 2 * i + 1 \<or> \<not> Less h (smaller_child h i n) i"
  shows "up_inv h n i" and "parent_ok h i \<Longrightarrow> heap_upto h n"
proof -
  have ch: "tkey (h ! i) \<le> tkey (h ! k)" if k: "k < n" "0 < k" "parent k = i" for k
  proof -
    have "2 * i + 1 < n" using k parent_child [of k i] by auto
    then have "tkey (h ! i) \<le> tkey (h ! smaller_child h i n)" "tkey (h ! smaller_child h i n) \<le> tkey (h ! k)"
      using assms(2) smaller_child_props(4) [of i n k h] k by (auto simp: Less_def task_less_key)
    then show ?thesis by (rule order_trans)
  qed
  have all: "tkey (h ! parent k) \<le> tkey (h ! k)" if "k < n" "0 < k" "k \<noteq> i" for k
    using assms(1) ch that by (cases "parent k = i") (auto simp: hole_inv_def)
  then show "up_inv h n i" using assms(1) by (simp add: up_inv_def hole_inv_def)
  show "heap_upto h n" if "parent_ok h i"
    using all that by (auto simp: heap_upto_def parent_ok_def)
qed

lemma heap_down_heap:
  "hole_inv h n i \<Longrightarrow> parent_ok h i \<Longrightarrow> i < n \<Longrightarrow> n \<le> length h \<Longrightarrow> heap_upto (fst (heap_down h i n)) n"
proof (induction h i n rule: heap_down_induct)
  case (1 h i n)
  let ?j = "smaller_child h i n"
  show ?case
  proof (cases "n \<le> 2 * i + 1 \<or> \<not> Less h ?j i")
    case True
    then show ?thesis using hole_inv_stay [OF 1(2) True] 1(3) by (simp add: heap_down_eq [of h i n])
  next
    case False
    then have n: "2 * i + 1 < n" and less: "tkey (h ! ?j) < tkey (h ! i)" by (auto simp: Less_def task_less_key)
    have IH: "heap_upto (fst (heap_down (Swap h i ?j) ?j n)) n"
      using 1(1) [OF False] hole_inv_swap [OF 1(2) n 1(5) less] smaller_child_props(2) [OF n, where h = h] 1(5)
      by simp
    then show ?thesis using False by (subst heap_down_eq) simp
  qed
qed

lemma heap_down_props:
  "i < n \<Longrightarrow> n \<le> length h \<Longrightarrow> mset (fst (heap_down h i n)) = mset h \<and> length (fst (heap_down h i n)) = length h
     \<and> i \<le> snd (heap_down h i n) \<and> (snd (heap_down h i n) = i \<longrightarrow> fst (heap_down h i n) = h)
     \<and> (\<forall>m\<ge>n. fst (heap_down h i n) ! m = h ! m)"
proof (induction h i n rule: heap_down_induct)
  case (1 h i n)
  let ?j = "smaller_child h i n"
  show ?case
  proof (cases "n \<le> 2 * i + 1 \<or> \<not> Less h ?j i")
    case True
    then show ?thesis by (simp add: heap_down_eq [of h i n])
  next
    case False
    then have n: "2 * i + 1 < n" by auto
    note sc = smaller_child_props [OF n, where h = h]
    have lt: "i < length h" "?j < length h" using sc 1(2,3) by linarith+
    have eq: "heap_down h i n = heap_down (Swap h i ?j) ?j n" using False by (subst heap_down_eq) simp
    have IH: "mset (fst (heap_down (Swap h i ?j) ?j n)) = mset (Swap h i ?j)
        \<and> length (fst (heap_down (Swap h i ?j) ?j n)) = length (Swap h i ?j)
        \<and> ?j \<le> snd (heap_down (Swap h i ?j) ?j n) \<and> (\<forall>m\<ge>n. fst (heap_down (Swap h i ?j) ?j n) ! m = Swap h i ?j ! m)"
      using 1(1) [OF False] sc(2) 1(3) by simp
    then show ?thesis using sc lt 1(2) unfolding eq by (auto simp: Swap_mset Swap_nth [OF lt])
  qed
qed

lemma heap_down_moved:
  assumes "hole_inv h n i" "i < n" "n \<le> length h" "snd (heap_down h i n) \<noteq> i"
  shows "heap_upto (fst (heap_down h i n)) n"
proof -
  let ?j = "smaller_child h i n"
  have f: "\<not> (n \<le> 2 * i + 1 \<or> \<not> Less h ?j i)" using assms(4) by (subst (asm) heap_down_eq) (auto split: if_splits)
  then have n: "2 * i + 1 < n" and less: "tkey (h ! ?j) < tkey (h ! i)" by (auto simp: Less_def task_less_key)
  have "heap_down h i n = heap_down (Swap h i ?j) ?j n" using f by (subst heap_down_eq) simp
  then show ?thesis
    using heap_down_heap [of "Swap h i ?j" n ?j] hole_inv_swap [OF assms(1) n assms(3) less]
      smaller_child_props(2) [OF n] assms(3) by simp
qed


lemma heap_down_stayed:
  assumes "i < n" "n \<le> length h" "snd (heap_down h i n) = i"
  shows "fst (heap_down h i n) = h" "n \<le> 2 * i + 1 \<or> \<not> Less h (smaller_child h i n) i"
proof -
  show "fst (heap_down h i n) = h" using heap_down_props [OF assms(1,2)] assms(3) by simp
  show "n \<le> 2 * i + 1 \<or> \<not> Less h (smaller_child h i n) i"
  proof (rule ccontr)
    assume f: "\<not> (n \<le> 2 * i + 1 \<or> \<not> Less h (smaller_child h i n) i)"
    let ?j = "smaller_child h i n"
    have n: "2 * i + 1 < n" using f by auto
    note sc = smaller_child_props [OF n, where h = h]
    have "heap_down h i n = heap_down (Swap h i ?j) ?j n" using f by (subst heap_down_eq) simp
    then show False using heap_down_props [of ?j n "Swap h i ?j"] sc assms by simp
  qed
qed

lemma heap_up_nth: "j < m \<Longrightarrow> m < length h \<Longrightarrow> heap_up h j ! m = h ! m"
proof (induction h j rule: heap_up.induct)
  case (1 h j)
  show ?case
  proof (cases "parent j = j \<or> \<not> Less h j (parent j)")
    case True
    then show ?thesis by (simp add: heap_up.simps [of h j])
  next
    case False
    have le: "parent j \<le> j" by (rule parent_le)
    then have lt: "parent j < length h" "j < length h" using 1(2,3) by linarith+
    have "heap_up h j = heap_up (Swap h (parent j) j) (parent j)"
      using False by (simp add: heap_up.simps [of h j] Let_def)
    then show ?thesis using 1(1) [OF refl False] le 1(2,3) by (simp add: Swap_nth [OF lt])
  qed
qed

section \<open>The operations of the heap\<close>

text \<open>What \<open>timerHeap.Pop\<close> leaves of a slice whose first part is a heap.\<close>

lemma heap_upto_butlast:
  assumes "heap_upto h (length h - 1)" shows "is_heap (butlast h)"
proof -
  have "tkey (butlast h ! parent j) \<le> tkey (butlast h ! j)" if "j < length h - 1" "0 < j" for j
    using assms that parent_lt [of j] by (simp add: heap_upto_def nth_butlast)
  then show ?thesis by (simp add: is_heap_def heap_upto_def)
qed

lemma mset_last_butlast: "h \<noteq> [] \<Longrightarrow> mset h = add_mset (last h) (mset (butlast h))"
  by (induction h) auto

lemma Push_mset: "mset (heap_Push x h) = add_mset x (mset h)"
  using heap_up_mset [of "length h" "h @ [x]"] by (simp add: heap_Push_def timerHeap_Push_def)

lemma Push_heap:
  assumes "is_heap h" shows "is_heap (heap_Push x h)"
proof -
  let ?h = "h @ [x]"
  have "tkey (?h ! parent k) \<le> tkey (?h ! k)" if "k < length h" "0 < k" for k
    using assms that parent_lt [of k] by (simp add: is_heap_def heap_upto_def nth_append)
  moreover have "parent k \<noteq> length h" if "k < Suc (length h)" "0 < k" for k
    using that parent_lt [of k] by simp
  ultimately have "up_inv ?h (length ?h) (length h)" by (auto simp: up_inv_def less_Suc_eq)
  then have "heap_upto (heap_up ?h (length h)) (length ?h)" by (rule heap_up_heap) simp_all
  then show ?thesis
    using heap_up_mset [of "length h" ?h] by (simp add: is_heap_def heap_Push_def timerHeap_Push_def)
qed

lemma swap_last_hole:
  assumes h: "is_heap h" and l: "length h = Suc n" and i: "i < n"
  shows "hole_inv (Swap h i n) n i"
proof -
  have lt: "i < length h" "n < length h" using i l by linarith+
  note nth = Swap_nth [OF lt]
  have all: "tkey (h ! parent k) \<le> tkey (h ! k)" if "k < length h" "0 < k" for k
    using h that by (simp add: is_heap_def heap_upto_def)
  have "tkey (Swap h i n ! parent k) \<le> tkey (Swap h i n ! k)"
    if "k < n" "0 < k" "parent k \<noteq> i" "k \<noteq> i" for k
    using that all [of k] parent_lt [of k] l by (simp add: nth)
  moreover have "tkey (Swap h i n ! parent i) \<le> tkey (Swap h i n ! k)"
    if k: "k < n" "0 < k" "parent k = i" "0 < i" for k
  proof -
    have "tkey (h ! parent i) \<le> tkey (h ! i)" "tkey (h ! i) \<le> tkey (h ! k)" using all [of i] all [of k] k i l by auto
    then have "tkey (h ! parent i) \<le> tkey (h ! k)" by (rule order_trans)
    moreover have "parent i < i" "i < k" using k parent_lt [of i] parent_lt [of k] by auto
    ultimately show ?thesis using k i by (simp add: nth)
  qed
  ultimately show ?thesis by (simp add: hole_inv_def)
qed

text \<open>Both \<open>heap.Pop\<close> and \<open>heap.Remove\<close>: element \<open>i\<close> goes to the end, the rest is repaired, the end is cut off.\<close>

definition sift :: "task list \<Rightarrow> nat \<Rightarrow> task list" where
  "sift h i =
     (let n = length h - 1; (h2, k) = heap_down (Swap h i n) i n in if k > i then h2 else heap_up h2 i)"

lemma sift_props:
  assumes h: "is_heap h" and l: "length h = Suc n" and i: "i < n"
  shows "mset (sift h i) = mset h" "last (sift h i) = h ! i" "is_heap (butlast (sift h i))"
proof -
  let ?h1 = "Swap h i n"
  let ?h2 = "fst (heap_down ?h1 i n)"
  have lt: "i < length h" "n < length h" using i l by linarith+
  have hole: "hole_inv ?h1 n i" by (rule swap_last_hole [OF h l i])
  have p: "mset ?h2 = mset h" "length ?h2 = length h" "i \<le> snd (heap_down ?h1 i n)" "?h2 ! n = h ! i"
    using heap_down_props [of i n ?h1] i l Swap_mset [OF lt] by (auto simp: Swap_nth [OF lt])
  have s: "sift h i = (if snd (heap_down ?h1 i n) > i then ?h2 else heap_up ?h2 i)"
    by (simp add: sift_def case_prod_beta Let_def l)
  have main: "mset (sift h i) = mset h \<and> length (sift h i) = length h \<and> sift h i ! n = h ! i
      \<and> heap_upto (sift h i) n"
  proof (cases "snd (heap_down ?h1 i n) > i")
    case True
    then show ?thesis using s p heap_down_moved [OF hole i] l by simp
  next
    case False
    then have eq: "snd (heap_down ?h1 i n) = i" using p(3) by simp
    note st = heap_down_stayed [OF i _ eq]
    have "up_inv ?h1 n i" using hole_inv_stay(1) [OF hole] st(2) l by simp
    then have "heap_upto (heap_up ?h2 i) n" using heap_up_heap [of ?h1 n i] i st(1) l by simp
    then show ?thesis using s False p i heap_up_mset [of i ?h2] heap_up_nth [of i n ?h2] lt by simp
  qed
  then have "sift h i \<noteq> []" using lt by auto
  then show "last (sift h i) = h ! i" "is_heap (butlast (sift h i))" "mset (sift h i) = mset h"
    using main heap_upto_butlast [of "sift h i"] by (auto simp: last_conv_nth l)
qed

lemma heap_Remove_sift:
  "heap_Remove h i = (if length h - 1 \<noteq> i then timerHeap_Pop (sift h i) else timerHeap_Pop h)"
  by (simp add: heap_Remove_def sift_def case_prod_beta Let_def)

lemma Remove_props:
  assumes h: "is_heap h" and i: "i < length h"
  shows "fst (heap_Remove h i) = h ! i" "mset h = add_mset (h ! i) (mset (snd (heap_Remove h i)))"
    "is_heap (snd (heap_Remove h i))"
proof -
  have "fst (heap_Remove h i) = h ! i \<and> mset h = add_mset (h ! i) (mset (snd (heap_Remove h i)))
      \<and> is_heap (snd (heap_Remove h i))"
  proof (cases "length h - 1 = i")
    case True
    have ne: "h \<noteq> []" using i by auto
    have "heap_upto h (length h - 1)" using h by (simp add: is_heap_def heap_upto_def)
    then show ?thesis
      using True heap_upto_butlast [of h] mset_last_butlast [OF ne] last_conv_nth [OF ne]
      by (simp add: heap_Remove_sift timerHeap_Pop_def)
  next
    case False
    then obtain n where l: "length h = Suc n" "i < n" using i by (cases "length h") auto
    note sp = sift_props [OF h l]
    have "sift h i \<noteq> []" using sp(1) i by auto
    then show ?thesis
      using False sp mset_last_butlast [of "sift h i"] by (simp add: heap_Remove_sift timerHeap_Pop_def)
  qed
  then show "fst (heap_Remove h i) = h ! i" "mset h = add_mset (h ! i) (mset (snd (heap_Remove h i)))"
    "is_heap (snd (heap_Remove h i))" by auto
qed

lemma heap_up_root [simp]: "heap_up h 0 = h"
  by (simp add: heap_up.simps parent_def)

text \<open>\<open>heap.Pop\<close> is \<open>heap.Remove\<close> of the root.\<close>

lemma Pop_Remove:
  assumes "h \<noteq> []" shows "heap_Pop h = heap_Remove h 0"
proof (cases "length h - 1 = 0")
  case True
  then have "heap_down (Swap h 0 0) 0 0 = (Swap h 0 0, 0)" by (simp add: heap_down_eq)
  moreover have "Swap h 0 0 = h" by (simp add: Swap_def)
  ultimately show ?thesis using True by (simp add: heap_Pop_def heap_Remove_def)
next
  case False
  then show ?thesis by (simp add: heap_Pop_def heap_Remove_def case_prod_beta Let_def)
qed

lemma Pop_props:
  assumes h: "is_heap h" and ne: "h \<noteq> []"
  shows "fst (heap_Pop h) = h ! 0" "mset h = add_mset (h ! 0) (mset (snd (heap_Pop h)))" "is_heap (snd (heap_Pop h))"
  using Remove_props [OF h, of 0] Pop_Remove [OF ne] ne by auto

lemma Pop_min:
  assumes h: "is_heap h" and ne: "h \<noteq> []" and y: "y \<in># mset h"
  shows "\<not> task_less y (fst (heap_Pop h))"
proof -
  obtain j where "j < length h" "y = h ! j" using y by (auto simp: in_set_conv_nth)
  then show ?thesis
    using heap_root_min [of h "length h" j] h Pop_props(1) [OF h ne] by (simp add: is_heap_def task_less_key not_less)
qed

interpretation timer_queue: timed_queue mset task_less heap_Push heap_Pop is_heap
  proof
  show "\<not> task_less y (fst (heap_Pop q))" if "is_heap q" "mset q \<noteq> {#}" "y \<in># mset q" for q y
    using Pop_min that by simp
qed (simp_all add: Push_mset Push_heap Pop_props)


lemma fold_Push: "is_heap h \<Longrightarrow> is_heap (fold heap_Push ts h) \<and> mset (fold heap_Push ts h) = mset ts + mset h"
  by (induction ts arbitrary: h) (simp_all add: Push_heap Push_mset)

section \<open>Properties\<close>

text \<open>
  C26: the task heap sorts: tasks that are pushed in any order are popped, each exactly once, by time and among tasks
  with the same time by priority.
\<close>

theorem timer_heap_pops_in_order:
  "mset (timer_queue.drain (length ts) (fold heap_Push ts [])) = mset ts
   \<and> sorted_wrt (\<lambda>x y. \<not> task_less y x) (timer_queue.drain (length ts) (fold heap_Push ts []))"
proof -
  have h: "is_heap (fold heap_Push ts [])" "mset (fold heap_Push ts []) = mset ts"
    using fold_Push [of "[]" ts] by (simp_all add: is_heap_def heap_upto_def)
  then show ?thesis using timer_queue.drain_elems [OF h(1)] timer_queue.drain_sorted [OF h(1)] by simp
qed

text \<open>
  Removing a task from the middle of the heap, as \<open>RemoveTask\<close> does, takes out exactly that task and leaves
  a heap.
\<close>

theorem timer_heap_Remove:
  assumes "is_heap h" and "i < length h"
  shows "fst (heap_Remove h i) = h ! i \<and> mset h = add_mset (h ! i) (mset (snd (heap_Remove h i)))
       \<and> is_heap (snd (heap_Remove h i))"
  using Remove_props [OF assms] by blast

theorem timer_heap_Remove_witness:
  "is_heap (snd (heap_Remove [NewTimerTask 0 1 ''a'' 5 []] 0))"
  using timer_heap_Remove [of "[NewTimerTask 0 1 ''a'' 5 []]" 0] by (simp add: is_heap_def heap_upto_def)

end
