(* ===== verification/Timer_Engine.thy ===== *)
theory Timer_Engine
  imports Timer_Heap
begin

text \<open>
  The engine of the high precision timer, \<open>transport/hptimer/high_precision_timer.go\<close>. The clock is an
  argument of the operations that read it. \<open>cron\<close> stands for the third-party \<open>cronexpr\<close>: \<open>cron s\<close> is
  \<open>None\<close> when \<open>Parse\<close> fails and otherwise the function \<open>Next\<close> of the parsed expression, which returns the
  zero time when there is no next instant. A context is a number, \<open>ht_cancelled\<close> lists the cancelled ones and
  \<open>ht_fresh\<close> is the number of the next one that \<open>context.WithCancel\<close> makes.

  Tasks are values here and pointers in the code. The only comparison of pointers, the test for a new heap
  top in \<open>AddTask\<close>, is the same as a comparison of values since a heap holds at most one task with a given ID; the
  only writes through the pointer, in \<open>AddTask\<close>, come before the task is in the heap.

  The main loop is a program counter: \<open>RunTop\<close> at the top of the loop, \<open>RunIdle\<close> in the select of the
  empty heap, \<open>RunWaiting\<close> in the select of the timer, \<open>RunPopped\<close> after the lock is released with a task
  that is due, \<open>RunFiring\<close> after the observer was told, \<open>RunExited\<close> outside, \<open>RunPanicked\<close> after
  the use of a nil context.
\<close>

section \<open>State\<close>

datatype observer = ObsNil | ObsEngine | Obs nat

datatype run_pc =
    RunExited
  | RunTop
  | RunIdle nat
  | RunWaiting nat int
  | RunPopped task int
  | RunFiring task int
  | RunPanicked

record engine =
  ht_heap :: "task list"
  ht_timer :: "int option"
  ht_timer_armed :: bool
  ht_running :: bool
  ht_loop :: run_pc
  ht_tasks :: "(string, task) gomap"
  ht_ctx :: nat
  ht_wakeup :: bool
  ht_observer :: observer
  ht_cancelled :: "nat list"
  ht_fresh :: nat
  ht_told :: "(observer \<times> task \<times> int) list"
  ht_calls :: "(nat \<times> nat option) list"

definition ctx_Err :: "engine \<Rightarrow> nat \<Rightarrow> bool" where
  "ctx_Err ht c = (c \<in> set (ht_cancelled ht))"

definition cancel_ctx :: "nat \<Rightarrow> engine \<Rightarrow> engine" where
  "cancel_ctx c ht = ht\<lparr>ht_cancelled := c # ht_cancelled ht\<rparr>"

text \<open>\<open>if task.cancel != nil { task.cancel() }\<close>.\<close>

definition cancel_task :: "task \<Rightarrow> engine \<Rightarrow> engine" where
  "cancel_task t ht =
     (if tk_cancel t then (case tk_Ctx t of Some c \<Rightarrow> cancel_ctx c ht | None \<Rightarrow> ht) else ht)"

section \<open>Operations\<close>

definition NewHighPrecisionTimer :: "observer \<Rightarrow> nat \<Rightarrow> engine" where
  "NewHighPrecisionTimer obs fresh =
     \<lparr>ht_heap = heap_Init [], ht_timer = None, ht_timer_armed = False, ht_running = False, ht_loop = RunExited,
      ht_tasks = [], ht_ctx = fresh, ht_wakeup = False,
      ht_observer = (if obs = ObsNil then ObsEngine else obs),
      ht_cancelled = [], ht_fresh = Suc fresh, ht_told = [], ht_calls = []\<rparr>"

definition SetObserver :: "observer \<Rightarrow> engine \<Rightarrow> engine" where
  "SetObserver obs ht = ht\<lparr>ht_observer := obs\<rparr>"

definition Timer_Start :: "engine \<Rightarrow> engine" where
  "Timer_Start ht =
     (if ht_running ht then ht
      else
        let ht1 = ht\<lparr>ht_running := True\<rparr>;
            ht2 = (if ctx_Err ht1 (ht_ctx ht1) then ht1\<lparr>ht_ctx := ht_fresh ht1, ht_fresh := Suc (ht_fresh ht1)\<rparr> else ht1)
        in ht2\<lparr>ht_loop := RunTop\<rparr>)"

text \<open>
  \<open>Stop\<close> in its three parts: the cancellation before the lock, the part under the lock, and the wait for
  the main loop, which is over when the loop has exited.
\<close>

definition Stop_cancel :: "engine \<Rightarrow> engine" where
  "Stop_cancel ht = cancel_ctx (ht_ctx ht) ht"

definition Stop_locked :: "engine \<Rightarrow> engine" where
  "Stop_locked ht =
     (if \<not> ht_running ht then ht
      else fold (\<lambda>(i, t). cancel_task t) (ht_tasks ht) (ht\<lparr>ht_running := False, ht_timer_armed := False\<rparr>))"

definition Stop_done :: "engine \<Rightarrow> bool" where
  "Stop_done ht = (ht_loop ht = RunExited)"

text \<open>\<open>AddTask\<close>: the ID of the task, or the empty string when it is refused.\<close>

definition AddTask ::
    "(string \<Rightarrow> (int \<Rightarrow> int) option) \<Rightarrow> int \<Rightarrow> task option \<Rightarrow> engine \<Rightarrow> string \<times> engine" where
  "AddTask cron now tsk ht =
     (case tsk of
        None \<Rightarrow> ([], ht)
      | Some t0 \<Rightarrow>
          if \<not> ht_running ht \<or> tk_ID t0 = [] then ([], ht)
          else
            let (t1, ht1) = (if tk_Ctx t0 = None
                             then (t0\<lparr>tk_Ctx := Some (ht_fresh ht), tk_cancel := True\<rparr>, ht\<lparr>ht_fresh := Suc (ht_fresh ht)\<rparr>)
                             else (t0, ht))
            in case (if tk_At t1 = 0 \<and> tk_Cron t1 \<noteq> []
                     then map_option (\<lambda>Next. t1\<lparr>tk_At := Next now\<rparr>) (cron (tk_Cron t1))
                     else Some t1) of
                 None \<Rightarrow> ([], ht1)
               | Some t \<Rightarrow>
                   if tk_At t = 0 then ([], ht1)
                   else if map_of (ht_tasks ht1) (tk_ID t) \<noteq> None then ([], ht1)
                   else
                     let ht2 = ht1\<lparr>ht_heap := heap_Push t (ht_heap ht1), ht_tasks := gomap_put (tk_ID t) t (ht_tasks ht1)\<rparr>
                     in (tk_ID t,
                         if ht_timer ht2 \<noteq> None \<and> ht_heap ht2 \<noteq> [] \<and> ht_heap ht2 ! 0 = t
                         then ht2\<lparr>ht_wakeup := True\<rparr> else ht2))"

fun heap_index :: "string \<Rightarrow> task list \<Rightarrow> nat \<Rightarrow> nat option" where
  "heap_index i [] n = None"
| "heap_index i (t # ts) n = (if tk_ID t = i then Some n else heap_index i ts (Suc n))"

definition RemoveTask :: "string \<Rightarrow> engine \<Rightarrow> bool \<times> engine" where
  "RemoveTask taskID ht =
     (case map_of (ht_tasks ht) taskID of
        None \<Rightarrow> (False, ht)
      | Some t \<Rightarrow>
          if \<not> ht_running ht then (False, ht)
          else
            let ht1 = cancel_task t ht;
                ht2 = (case heap_index taskID (ht_heap ht1) 0 of
                         None \<Rightarrow> ht1
                       | Some i \<Rightarrow> ht1\<lparr>ht_heap := snd (heap_Remove (ht_heap ht1) i)\<rparr>)
            in (True, ht2\<lparr>ht_tasks := gomap_delete taskID (ht_tasks ht2)\<rparr>))"

text \<open>The default observer runs the callback; its error is only logged.\<close>

definition OnTimerTrigger :: "task \<Rightarrow> engine \<Rightarrow> engine" where
  "OnTimerTrigger t ht =
     (case tk_Callback t of None \<Rightarrow> ht | Some cb \<Rightarrow> ht\<lparr>ht_calls := ht_calls ht @ [(cb, tk_Ctx t)]\<rparr>)"

definition nextAt :: "(string \<Rightarrow> (int \<Rightarrow> int) option) \<Rightarrow> task \<Rightarrow> int \<Rightarrow> int option" where
  "nextAt cron t now =
     (if tk_Interval t > 0 then Some (now + tk_Interval t)
      else if tk_Cron t \<noteq> [] then map_option (\<lambda>Next. Next now) (cron (tk_Cron t))
      else None)"

text \<open>\<open>None\<close> is the panic on a nil context. \<open>clock\<close> is the time when \<open>AddTask\<close> runs.\<close>

definition handleRepeatTask ::
    "(string \<Rightarrow> (int \<Rightarrow> int) option) \<Rightarrow> int \<Rightarrow> task \<Rightarrow> int \<Rightarrow> engine \<Rightarrow> engine option" where
  "handleRepeatTask cron clock t now ht =
     (case tk_Ctx t of
        None \<Rightarrow> None
      | Some c \<Rightarrow>
          if ctx_Err ht c then Some ht
          else
            (case nextAt cron t now of
               None \<Rightarrow> Some ht
             | Some at \<Rightarrow>
                 if at = 0 then Some ht
                 else
                   let newTask = \<lparr>tk_ID = tk_ID t, tk_At = at, tk_Interval = tk_Interval t, tk_Cron = tk_Cron t,
                                  tk_Data = DNil, tk_Priority = tk_Priority t, tk_Callback = tk_Callback t,
                                  tk_Ctx = tk_Ctx t, tk_cancel = tk_cancel t\<rparr>
                   in Some (snd (AddTask cron clock (Some newTask) ht))))"

section \<open>The main loop\<close>

text \<open>The part of a turn under the lock.\<close>

definition run_top :: "int \<Rightarrow> engine \<Rightarrow> engine" where
  "run_top now ht =
     (if \<not> ht_running ht \<or> ctx_Err ht (ht_ctx ht) then ht\<lparr>ht_loop := RunExited\<rparr>
      else if ht_heap ht = [] then ht\<lparr>ht_loop := RunIdle (ht_ctx ht)\<rparr>
      else
        let nextTask = ht_heap ht ! 0;
            delay = tk_At nextTask - now
        in if delay \<le> 0
           then ht\<lparr>ht_heap := snd (heap_Pop (ht_heap ht)),
                   ht_tasks := gomap_delete (tk_ID nextTask) (ht_tasks ht),
                   ht_loop := RunPopped nextTask now\<rparr>
           else ht\<lparr>ht_timer := Some (now + delay), ht_timer_armed := True,
                   ht_loop := RunWaiting (ht_ctx ht) (now + delay)\<rparr>)"

text \<open>A task that is due: skipped when cancelled, else the observer is told.\<close>

definition run_popped :: "task \<Rightarrow> int \<Rightarrow> engine \<Rightarrow> engine" where
  "run_popped t now ht =
     (case tk_Ctx t of
        None \<Rightarrow> ht\<lparr>ht_loop := RunPanicked\<rparr>
      | Some c \<Rightarrow>
          if ctx_Err ht c then ht\<lparr>ht_loop := RunTop\<rparr>
          else
            (case ht_observer ht of
               ObsNil \<Rightarrow> ht\<lparr>ht_loop := RunFiring t now\<rparr>
             | ObsEngine \<Rightarrow> (OnTimerTrigger t ht)\<lparr>ht_told := ht_told ht @ [(ObsEngine, t, now)], ht_loop := RunFiring t now\<rparr>
             | Obs i \<Rightarrow> ht\<lparr>ht_told := ht_told ht @ [(Obs i, t, now)], ht_loop := RunFiring t now\<rparr>))"

definition run_repeat :: "(string \<Rightarrow> (int \<Rightarrow> int) option) \<Rightarrow> int \<Rightarrow> task \<Rightarrow> int \<Rightarrow> engine \<Rightarrow> engine" where
  "run_repeat cron clock t now ht =
     (case handleRepeatTask cron clock t now ht of
        None \<Rightarrow> ht\<lparr>ht_loop := RunPanicked\<rparr>
      | Some ht1 \<Rightarrow> ht1\<lparr>ht_loop := RunTop\<rparr>)"

text \<open>The moves of the main loop at time \<open>now\<close>.\<close>

inductive run_step :: "(string \<Rightarrow> (int \<Rightarrow> int) option) \<Rightarrow> int \<Rightarrow> engine \<Rightarrow> engine \<Rightarrow> bool" for cron now where
  top: "ht_loop ht = RunTop \<Longrightarrow> run_step cron now ht (run_top now ht)"
| idle: "ht_loop ht = RunIdle c \<Longrightarrow> run_step cron now ht (ht\<lparr>ht_loop := RunTop\<rparr>)"
| idle_done: "ht_loop ht = RunIdle c \<Longrightarrow> ctx_Err ht c \<Longrightarrow> run_step cron now ht (ht\<lparr>ht_loop := RunExited\<rparr>)"
| wait_timer: "ht_loop ht = RunWaiting c d \<Longrightarrow> ht_timer_armed ht \<Longrightarrow> d \<le> now
      \<Longrightarrow> run_step cron now ht (ht\<lparr>ht_timer_armed := False, ht_loop := RunTop\<rparr>)"
| wait_wakeup: "ht_loop ht = RunWaiting c d \<Longrightarrow> ht_wakeup ht
      \<Longrightarrow> run_step cron now ht (ht\<lparr>ht_wakeup := False, ht_timer_armed := False, ht_loop := RunTop\<rparr>)"
| wait_done: "ht_loop ht = RunWaiting c d \<Longrightarrow> ctx_Err ht c
      \<Longrightarrow> run_step cron now ht (ht\<lparr>ht_timer_armed := False, ht_loop := RunExited\<rparr>)"
| popped: "ht_loop ht = RunPopped t t0 \<Longrightarrow> run_step cron now ht (run_popped t t0 ht)"
| firing: "ht_loop ht = RunFiring t t0 \<Longrightarrow> run_step cron now ht (run_repeat cron now t t0 ht)"

text \<open>
  The engine and its callers: any interleaving of the main loop, the client calls, the parts of \<open>Stop\<close>,
  the cancellation of a context by its owner and the clock, which never goes back. \<open>Start\<close> is not called
  while a \<open>Stop\<close> is in progress.
\<close>

inductive timer_step ::
    "(string \<Rightarrow> (int \<Rightarrow> int) option) \<Rightarrow> engine \<times> int \<Rightarrow> engine \<times> int \<Rightarrow> bool" for cron where
  tick: "now \<le> now' \<Longrightarrow> timer_step cron (ht, now) (ht, now')"
| add: "timer_step cron (ht, now) (snd (AddTask cron now t ht), now)"
| remove: "timer_step cron (ht, now) (snd (RemoveTask i ht), now)"
| observe: "timer_step cron (ht, now) (SetObserver obs ht, now)"
| cancel: "timer_step cron (ht, now) (cancel_ctx c ht, now)"
| start: "ht_running ht \<or> ht_loop ht = RunExited \<Longrightarrow> timer_step cron (ht, now) (Timer_Start ht, now)"
| stop_cancel: "timer_step cron (ht, now) (Stop_cancel ht, now)"
| stop_locked: "ctx_Err ht (ht_ctx ht) \<Longrightarrow> timer_step cron (ht, now) (Stop_locked ht, now)"
| loop: "run_step cron now ht ht' \<Longrightarrow> timer_step cron (ht, now) (ht', now)"

inductive timer_reachable :: "(string \<Rightarrow> (int \<Rightarrow> int) option) \<Rightarrow> engine \<times> int \<Rightarrow> bool" for cron where
  init: "timer_reachable cron (NewHighPrecisionTimer obs fresh, now)"
| step: "timer_reachable cron s \<Longrightarrow> timer_step cron s s' \<Longrightarrow> timer_reachable cron s'"

section \<open>Invariants\<close>

fun loop_task :: "run_pc \<Rightarrow> (task \<times> int) option" where
  "loop_task (RunPopped t at) = Some (t, at)"
| "loop_task (RunFiring t at) = Some (t, at)"
| "loop_task _ = None"

definition task_ok :: "task \<Rightarrow> bool" where
  "task_ok t \<longleftrightarrow> tk_Ctx t \<noteq> None \<and> tk_At t \<noteq> 0 \<and> tk_ID t \<noteq> []"

text \<open>The heap and the index agree, and every task has a context, a time and an ID.\<close>

definition store_inv :: "task list \<Rightarrow> (string, task) gomap \<Rightarrow> bool" where
  "store_inv h m \<longleftrightarrow>
     is_heap h \<and> distinct (map tk_ID h) \<and> gomap_wf m
     \<and> (\<forall>i t. map_of m i = Some t \<longleftrightarrow> t \<in> set h \<and> tk_ID t = i) \<and> (\<forall>t\<in>set h. task_ok t)"

definition timer_inv :: "engine \<Rightarrow> bool" where
  "timer_inv ht \<longleftrightarrow>
     store_inv (ht_heap ht) (ht_tasks ht)
     \<and> ht_loop ht \<noteq> RunPanicked \<and> (\<forall>t at. loop_task (ht_loop ht) = Some (t, at) \<longrightarrow> task_ok t)"

lemma Push_set: "set (heap_Push x h) = insert x (set h)"
  using Push_mset [of x h] by (metis set_mset_add_mset_insert set_mset_mset)

lemma store_inv_push:
  assumes inv: "store_inv h m" and t: "task_ok t" and new: "map_of m (tk_ID t) = None"
  shows "store_inv (heap_Push t h) (gomap_put (tk_ID t) t m)"
proof -
  have fresh: "tk_ID t \<notin> tk_ID ` set h"
  proof
    assume "tk_ID t \<in> tk_ID ` set h"
    then obtain u where "u \<in> set h" "tk_ID u = tk_ID t" by auto
    then have "map_of m (tk_ID t) = Some u" using inv by (simp add: store_inv_def)
    then show False using new by simp
  qed
  have "mset (map tk_ID (heap_Push t h)) = mset (tk_ID t # map tk_ID h)"
    by (simp add: Push_mset)
  moreover have "distinct (tk_ID t # map tk_ID h)" using fresh inv by (simp add: store_inv_def)
  ultimately have d: "distinct (map tk_ID (heap_Push t h))" using mset_eq_imp_distinct_iff by blast
  have i: "map_of (gomap_put (tk_ID t) t m) i = Some u \<longleftrightarrow> u \<in> set (heap_Push t h) \<and> tk_ID u = i" for i u
  proof (cases "i = tk_ID t")
    case True
    have "u \<notin> set h" if "tk_ID u = tk_ID t" using fresh that by (metis imageI)
    then show ?thesis using True by (auto simp: Push_set)
  next
    case False
    have "map_of m i = Some u \<longleftrightarrow> u \<in> set h \<and> tk_ID u = i" using inv by (simp add: store_inv_def)
    then show ?thesis using False by (auto simp: Push_set)
  qed
  have o: "\<forall>u\<in>set (heap_Push t h). task_ok u" using inv t by (auto simp: store_inv_def Push_set)
  show ?thesis
    using inv d i o Push_heap [of h t] unfolding store_inv_def by (intro conjI allI) auto
qed

text \<open>Taking the task at a position out of the heap and its ID out of the index.\<close>

lemma store_inv_take:
  assumes inv: "store_inv h m" and h': "mset h = add_mset t (mset h')" "is_heap h'"
  shows "store_inv h' (gomap_delete (tk_ID t) m)"
proof -
  have s: "set h = insert t (set h')" using h'(1) by (metis set_mset_add_mset_insert set_mset_mset)
  have "mset (map tk_ID h) = mset (tk_ID t # map tk_ID h')" using h'(1) by simp
  moreover have "distinct (map tk_ID h)" using inv by (simp add: store_inv_def)
  ultimately have "distinct (tk_ID t # map tk_ID h')" using mset_eq_imp_distinct_iff by blast
  then have d: "distinct (map tk_ID h')" "tk_ID t \<notin> tk_ID ` set h'" by simp_all
  have i: "map_of (gomap_delete (tk_ID t) m) i = Some u \<longleftrightarrow> u \<in> set h' \<and> tk_ID u = i" for i u
  proof (cases "i = tk_ID t")
    case True
    have "u \<notin> set h'" if "tk_ID u = tk_ID t" using d(2) that by (metis imageI)
    then show ?thesis using True by auto
  next
    case False
    have "map_of m i = Some u \<longleftrightarrow> u \<in> set h \<and> tk_ID u = i" using inv by (simp add: store_inv_def)
    then show ?thesis using False by (auto simp: s)
  qed
  show ?thesis
    using inv d i h'(2) s unfolding store_inv_def by (intro conjI allI) auto
qed

lemma heap_index_Some:
  "heap_index i ts n = Some k \<Longrightarrow> n \<le> k \<and> k - n < length ts \<and> tk_ID (ts ! (k - n)) = i"
proof (induction i ts n rule: heap_index.induct)
  case (2 i t ts n)
  show ?case
  proof (cases "tk_ID t = i")
    case False
    then have "Suc n \<le> k \<and> k - Suc n < length ts \<and> tk_ID (ts ! (k - Suc n)) = i" using 2 by simp
    moreover from this have "k - n = Suc (k - Suc n)" by linarith
    ultimately show ?thesis by simp
  qed (use 2 in simp)
qed simp

lemma heap_index_None: "heap_index i ts n = None \<Longrightarrow> i \<notin> tk_ID ` set ts"
  by (induction i ts n rule: heap_index.induct) (auto split: if_splits)


section \<open>AddTask and RemoveTask\<close>

text \<open>The task that \<open>AddTask\<close> accepts, with its context and its time filled in, and the way it enters.\<close>

definition admitted :: "(string \<Rightarrow> (int \<Rightarrow> int) option) \<Rightarrow> int \<Rightarrow> task \<Rightarrow> engine \<Rightarrow> task option" where
  "admitted cron now t0 ht =
     (let at = (if tk_At t0 = 0 \<and> tk_Cron t0 \<noteq> []
                then (case cron (tk_Cron t0) of None \<Rightarrow> 0 | Some Next \<Rightarrow> Next now) else tk_At t0);
          t1 = (if tk_Ctx t0 = None then t0\<lparr>tk_Ctx := Some (ht_fresh ht), tk_cancel := True\<rparr> else t0)
      in if ht_running ht \<and> tk_ID t0 \<noteq> [] \<and> at \<noteq> 0 \<and> map_of (ht_tasks ht) (tk_ID t0) = None
         then Some (t1\<lparr>tk_At := at\<rparr>) else None)"

definition enter :: "task \<Rightarrow> engine \<Rightarrow> engine" where
  "enter t ht =
     ht\<lparr>ht_heap := heap_Push t (ht_heap ht), ht_tasks := gomap_put (tk_ID t) t (ht_tasks ht),
        ht_wakeup := ht_wakeup ht \<or> ht_timer ht \<noteq> None \<and> heap_Push t (ht_heap ht) ! 0 = t\<rparr>"

lemma Push_nonempty [simp]: "heap_Push t h \<noteq> []"
  using Push_set [of t h] by auto

lemma enter_eq:
  "(let ht2 = ht\<lparr>ht_heap := heap_Push t (ht_heap ht), ht_tasks := gomap_put (tk_ID t) t (ht_tasks ht)\<rparr>
    in if ht_timer ht2 \<noteq> None \<and> ht_heap ht2 \<noteq> [] \<and> ht_heap ht2 ! 0 = t then ht2\<lparr>ht_wakeup := True\<rparr> else ht2)
   = enter t ht"
  by (auto simp: enter_def Let_def)

lemma AddTask_eq:
  "\<exists>f. AddTask cron now (Some t0) ht =
     (case admitted cron now t0 ht of
        None \<Rightarrow> ([], ht\<lparr>ht_fresh := f\<rparr>)
      | Some t \<Rightarrow> (tk_ID t0, enter t (ht\<lparr>ht_fresh := f\<rparr>)))"
proof (cases "ht_running ht \<and> tk_ID t0 \<noteq> []")
  case False
  then have "AddTask cron now (Some t0) ht = ([], ht\<lparr>ht_fresh := ht_fresh ht\<rparr>)" "admitted cron now t0 ht = None"
    by (auto simp: AddTask_def admitted_def)
  then show ?thesis by (intro exI [of _ "ht_fresh ht"]) simp
next
  case True
  define f where "f = (if tk_Ctx t0 = None then Suc (ht_fresh ht) else ht_fresh ht)"
  define t1 where "t1 = (if tk_Ctx t0 = None then t0\<lparr>tk_Ctx := Some (ht_fresh ht), tk_cancel := True\<rparr> else t0)"
  have s: "(if tk_Ctx t0 = None
            then (t0\<lparr>tk_Ctx := Some (ht_fresh ht), tk_cancel := True\<rparr>, ht\<lparr>ht_fresh := Suc (ht_fresh ht)\<rparr>)
            else (t0, ht)) = (t1, ht\<lparr>ht_fresh := f\<rparr>)"
    by (auto simp: f_def t1_def)
  have t1: "tk_At t1 = tk_At t0" "tk_Cron t1 = tk_Cron t0" "tk_ID t1 = tk_ID t0" by (simp_all add: t1_def)
  have add: "AddTask cron now (Some t0) ht =
      (case (if tk_At t1 = 0 \<and> tk_Cron t1 \<noteq> []
             then map_option (\<lambda>Next. t1\<lparr>tk_At := Next now\<rparr>) (cron (tk_Cron t1)) else Some t1) of
         None \<Rightarrow> ([], ht\<lparr>ht_fresh := f\<rparr>)
       | Some t \<Rightarrow> if tk_At t = 0 then ([], ht\<lparr>ht_fresh := f\<rparr>)
           else if map_of (ht_tasks ht) (tk_ID t) \<noteq> None then ([], ht\<lparr>ht_fresh := f\<rparr>)
           else (tk_ID t, enter t (ht\<lparr>ht_fresh := f\<rparr>)))"
    using True by (simp add: AddTask_def s enter_eq [symmetric] Let_def del: not_None_eq cong: option.case_cong if_cong)
  have adm: "admitted cron now t0 ht =
      (let at = (if tk_At t0 = 0 \<and> tk_Cron t0 \<noteq> []
                 then (case cron (tk_Cron t0) of None \<Rightarrow> 0 | Some Next \<Rightarrow> Next now) else tk_At t0)
       in if at \<noteq> 0 \<and> map_of (ht_tasks ht) (tk_ID t0) = None then Some (t1\<lparr>tk_At := at\<rparr>) else None)"
    using True by (simp add: admitted_def t1_def Let_def)
  have "AddTask cron now (Some t0) ht =
     (case admitted cron now t0 ht of
        None \<Rightarrow> ([], ht\<lparr>ht_fresh := f\<rparr>) | Some t \<Rightarrow> (tk_ID t0, enter t (ht\<lparr>ht_fresh := f\<rparr>)))"
  proof (cases "tk_At t0 = 0 \<and> tk_Cron t0 \<noteq> []")
    case True
    then show ?thesis by (cases "cron (tk_Cron t0)") (auto simp: add adm t1)
  next
    case False
    have "t1\<lparr>tk_At := tk_At t1\<rparr> = t1" by simp
    then have same: "t1\<lparr>tk_At := tk_At t0\<rparr> = t1" by (simp only: t1)
    have if0: "(if tk_At t1 = 0 \<and> tk_Cron t1 \<noteq> [] then X else Some t1) = Some t1" for X
      using False by (simp only: t1 if_False)
    have if1: "(if tk_At t0 = 0 \<and> tk_Cron t0 \<noteq> [] then Y else tk_At t0) = tk_At t0" for Y
      using False by (simp only: if_False)
    show ?thesis unfolding add adm if0 if1 Let_def same by (simp add: t1)
  qed
  then show ?thesis by blast
qed

lemma admitted_ok:
  "admitted cron now t0 ht = Some t \<Longrightarrow>
     task_ok t \<and> tk_ID t = tk_ID t0 \<and> map_of (ht_tasks ht) (tk_ID t0) = None \<and> ht_running ht"
  by (auto simp: admitted_def task_ok_def Let_def split: if_splits)

lemma enter_fields [simp]:
  "ht_running (enter t ht) = ht_running ht" "ht_loop (enter t ht) = ht_loop ht" "ht_ctx (enter t ht) = ht_ctx ht"
  "ht_timer (enter t ht) = ht_timer ht" "ht_timer_armed (enter t ht) = ht_timer_armed ht"
  "ht_cancelled (enter t ht) = ht_cancelled ht" "ht_told (enter t ht) = ht_told ht" "ht_calls (enter t ht) = ht_calls ht"
  "ht_heap (enter t ht) = heap_Push t (ht_heap ht)" "ht_tasks (enter t ht) = gomap_put (tk_ID t) t (ht_tasks ht)"
  "ht_observer (enter t ht) = ht_observer ht"
  by (simp_all add: enter_def)

lemma AddTask_fields [simp]:
  "ht_running (snd (AddTask cron now t ht)) = ht_running ht" "ht_loop (snd (AddTask cron now t ht)) = ht_loop ht"
  "ht_ctx (snd (AddTask cron now t ht)) = ht_ctx ht" "ht_timer (snd (AddTask cron now t ht)) = ht_timer ht"
  "ht_timer_armed (snd (AddTask cron now t ht)) = ht_timer_armed ht"
  "ht_cancelled (snd (AddTask cron now t ht)) = ht_cancelled ht"
  "ht_told (snd (AddTask cron now t ht)) = ht_told ht"
proof -
  have "t = None \<or> (\<exists>t0. t = Some t0)" by auto
  then have "ht_running (snd (AddTask cron now t ht)) = ht_running ht \<and> ht_loop (snd (AddTask cron now t ht)) = ht_loop ht
    \<and> ht_ctx (snd (AddTask cron now t ht)) = ht_ctx ht \<and> ht_timer (snd (AddTask cron now t ht)) = ht_timer ht
    \<and> ht_timer_armed (snd (AddTask cron now t ht)) = ht_timer_armed ht
    \<and> ht_cancelled (snd (AddTask cron now t ht)) = ht_cancelled ht \<and> ht_told (snd (AddTask cron now t ht)) = ht_told ht"
  proof
    assume "\<exists>t0. t = Some t0"
    then obtain t0 where t: "t = Some t0" by blast
    obtain f where "AddTask cron now (Some t0) ht =
       (case admitted cron now t0 ht of None \<Rightarrow> ([], ht\<lparr>ht_fresh := f\<rparr>) | Some t \<Rightarrow> (tk_ID t0, enter t (ht\<lparr>ht_fresh := f\<rparr>)))"
      using AddTask_eq by blast
    then show ?thesis by (simp add: t split: option.split)
  qed (simp add: AddTask_def)
  then show "ht_running (snd (AddTask cron now t ht)) = ht_running ht" "ht_loop (snd (AddTask cron now t ht)) = ht_loop ht"
    "ht_ctx (snd (AddTask cron now t ht)) = ht_ctx ht" "ht_timer (snd (AddTask cron now t ht)) = ht_timer ht"
    "ht_timer_armed (snd (AddTask cron now t ht)) = ht_timer_armed ht"
    "ht_cancelled (snd (AddTask cron now t ht)) = ht_cancelled ht" "ht_told (snd (AddTask cron now t ht)) = ht_told ht"
    by simp_all
qed

lemma cancel_task_fields [simp]:
  "ht_running (cancel_task t ht) = ht_running ht" "ht_loop (cancel_task t ht) = ht_loop ht"
  "ht_ctx (cancel_task t ht) = ht_ctx ht" "ht_timer (cancel_task t ht) = ht_timer ht"
  "ht_timer_armed (cancel_task t ht) = ht_timer_armed ht" "ht_told (cancel_task t ht) = ht_told ht"
  "ht_heap (cancel_task t ht) = ht_heap ht" "ht_tasks (cancel_task t ht) = ht_tasks ht"
  "ht_wakeup (cancel_task t ht) = ht_wakeup ht"
  "set (ht_cancelled (cancel_task t ht)) =
     (if tk_cancel t then set_option (tk_Ctx t) else {}) \<union> set (ht_cancelled ht)"
  by (auto simp: cancel_task_def cancel_ctx_def split: option.split)

text \<open>The one task with an ID is at the position that the loop of \<open>RemoveTask\<close> finds.\<close>

lemma heap_index_task:
  assumes inv: "store_inv h m" and t: "map_of m i = Some t"
  obtains k where "heap_index i h 0 = Some k" "k < length h" "h ! k = t"
proof -
  have "t \<in> set h" "tk_ID t = i" using inv t by (simp_all add: store_inv_def)
  then obtain k where k: "heap_index i h 0 = Some k" using heap_index_None [of i h 0] by fastforce
  then have kk: "k < length h" "tk_ID (h ! k) = i" using heap_index_Some [OF k] by simp_all
  then have "map_of m i = Some (h ! k)" using inv by (simp add: store_inv_def)
  then show ?thesis using that k kk t by simp
qed

lemma RemoveTask_eq:
  assumes "store_inv (ht_heap ht) (ht_tasks ht)" "map_of (ht_tasks ht) i = Some t" "ht_running ht"
  obtains h' where "RemoveTask i ht = (True, (cancel_task t ht)\<lparr>ht_heap := h', ht_tasks := gomap_delete i (ht_tasks ht)\<rparr>)"
    "mset (ht_heap ht) = add_mset t (mset h')" "is_heap h'"
proof -
  obtain k where k: "heap_index i (ht_heap ht) 0 = Some k" "k < length (ht_heap ht)" "ht_heap ht ! k = t"
    using heap_index_task [OF assms(1,2)] by blast
  have "is_heap (ht_heap ht)" using assms(1) by (simp add: store_inv_def)
  note r = Remove_props [OF this k(2)]
  show ?thesis
    by (rule that [of "snd (heap_Remove (ht_heap ht) k)"]) (use assms k r in \<open>simp_all add: RemoveTask_def Let_def\<close>)
qed


section \<open>Every step keeps the invariants\<close>

text \<open>Waiting: the timer is armed unless the context is cancelled, and it is not set too late unless a wake-up is pending.\<close>

definition wait_inv :: "engine \<Rightarrow> bool" where
  "wait_inv ht \<longleftrightarrow>
     (\<forall>c d. ht_loop ht = RunWaiting c d \<longrightarrow>
        c = ht_ctx ht \<and> ht_timer ht \<noteq> None \<and> (ht_timer_armed ht \<or> ctx_Err ht c)
        \<and> (ht_wakeup ht \<or> ht_heap ht = [] \<or> d \<le> tk_At (ht_heap ht ! 0)))"

text \<open>No task is told early, and the times at which tasks are told never go back.\<close>

definition told_inv :: "engine \<Rightarrow> int \<Rightarrow> bool" where
  "told_inv ht now \<longleftrightarrow>
     (\<forall>x\<in>set (ht_told ht). tk_At (fst (snd x)) \<le> snd (snd x) \<and> snd (snd x) \<le> now)
     \<and> sorted (map (snd \<circ> snd) (ht_told ht))
     \<and> (\<forall>t at. loop_task (ht_loop ht) = Some (t, at) \<longrightarrow>
          tk_At t \<le> at \<and> at \<le> now \<and> (\<forall>x\<in>set (ht_told ht). snd (snd x) \<le> at))"

lemma top_first: "is_heap h \<Longrightarrow> t \<in> set h \<Longrightarrow> tk_At (h ! 0) \<le> tk_At t"
proof -
  assume h: "is_heap h" and "t \<in> set h"
  then obtain j where "j < length h" "t = h ! j" by (auto simp: in_set_conv_nth)
  then show ?thesis using heap_root_min [of h "length h" j] h by (auto simp: is_heap_def tkey_def)
qed

lemma timer_inv_AddTask:
  assumes inv: "timer_inv ht" shows "timer_inv (snd (AddTask cron now t ht))"
proof (cases t)
  case None
  then show ?thesis using inv by (simp add: AddTask_def)
next
  case (Some t0)
  obtain f where eq: "AddTask cron now (Some t0) ht =
     (case admitted cron now t0 ht of None \<Rightarrow> ([], ht\<lparr>ht_fresh := f\<rparr>) | Some t \<Rightarrow> (tk_ID t0, enter t (ht\<lparr>ht_fresh := f\<rparr>)))"
    using AddTask_eq by blast
  show ?thesis
  proof (cases "admitted cron now t0 ht")
    case None
    then show ?thesis using inv eq Some by (simp add: timer_inv_def)
  next
    case (Some u)
    then have "store_inv (heap_Push u (ht_heap ht)) (gomap_put (tk_ID u) u (ht_tasks ht))"
      using inv admitted_ok [OF Some] by (intro store_inv_push) (simp_all add: timer_inv_def)
    then show ?thesis using inv eq \<open>t = Some t0\<close> Some by (simp add: timer_inv_def)
  qed
qed

lemma wait_inv_AddTask:
  assumes inv: "timer_inv ht" and w: "wait_inv ht" shows "wait_inv (snd (AddTask cron now t ht))"
proof (cases t)
  case None
  then show ?thesis using w by (simp add: AddTask_def)
next
  case (Some t0)
  obtain f where eq: "AddTask cron now (Some t0) ht =
     (case admitted cron now t0 ht of None \<Rightarrow> ([], ht\<lparr>ht_fresh := f\<rparr>) | Some t \<Rightarrow> (tk_ID t0, enter t (ht\<lparr>ht_fresh := f\<rparr>)))"
    using AddTask_eq by blast
  show ?thesis
  proof (cases "admitted cron now t0 ht")
    case None
    then show ?thesis using w eq Some by (simp add: wait_inv_def ctx_Err_def)
  next
    case (Some u)
    let ?h = "heap_Push u (ht_heap ht)"
    have h: "is_heap (ht_heap ht)" using inv by (simp add: timer_inv_def store_inv_def)
    have "?h ! 0 \<in> set ?h" by (intro nth_mem) (simp add: Push_nonempty)
    then have top: "?h ! 0 = u \<or> ?h ! 0 \<in> set (ht_heap ht)" by (simp add: Push_set)
    have "?h ! 0 = u \<or> ht_heap ht \<noteq> [] \<and> tk_At (ht_heap ht ! 0) \<le> tk_At (?h ! 0)"
      using top top_first [OF h, of "?h ! 0"] by auto
    then have "wait_inv (enter u (ht\<lparr>ht_fresh := f\<rparr>))"
      using w by (auto simp: wait_inv_def ctx_Err_def enter_def)
    then show ?thesis using eq \<open>t = Some t0\<close> Some by simp
  qed
qed

lemma RemoveTask_inv:
  assumes inv: "timer_inv ht" and w: "wait_inv ht"
  shows "timer_inv (snd (RemoveTask i ht)) \<and> wait_inv (snd (RemoveTask i ht))
       \<and> ht_told (snd (RemoveTask i ht)) = ht_told ht \<and> ht_loop (snd (RemoveTask i ht)) = ht_loop ht"
proof (cases "map_of (ht_tasks ht) i = None \<or> \<not> ht_running ht")
  case True
  then have "RemoveTask i ht = (False, ht)" by (auto simp: RemoveTask_def split: option.split)
  then show ?thesis using inv w by simp
next
  case False
  then obtain t where t: "map_of (ht_tasks ht) i = Some t" and r: "ht_running ht" by auto
  have st: "store_inv (ht_heap ht) (ht_tasks ht)" using inv by (simp add: timer_inv_def)
  obtain h' where h': "RemoveTask i ht = (True, (cancel_task t ht)\<lparr>ht_heap := h', ht_tasks := gomap_delete i (ht_tasks ht)\<rparr>)"
    "mset (ht_heap ht) = add_mset t (mset h')" "is_heap h'"
    using RemoveTask_eq [OF st t r] by blast
  have id: "tk_ID t = i" using st t by (simp add: store_inv_def)
  have sub: "set h' \<subseteq> set (ht_heap ht)" using h'(2) by (metis set_mset_mset set_mset_add_mset_insert subset_insertI)
  have hp: "is_heap (ht_heap ht)" using st by (simp add: store_inv_def)
  have "h' = [] \<or> tk_At (ht_heap ht ! 0) \<le> tk_At (h' ! 0)"
    using top_first [OF hp] nth_mem [of 0 h'] sub by blast
  moreover have "ht_heap ht \<noteq> []" using h'(2) by auto
  ultimately have "wait_inv (snd (RemoveTask i ht))"
    using w unfolding h'(1) by (auto simp: wait_inv_def ctx_Err_def)
  moreover have "timer_inv (snd (RemoveTask i ht))"
    using store_inv_take [OF st h'(2,3)] inv id unfolding h'(1) by (simp add: timer_inv_def)
  ultimately show ?thesis by (simp add: h'(1))
qed


lemma cancel_task_cancelled: "set (ht_cancelled ht) \<subseteq> set (ht_cancelled (cancel_task t ht))"
  by auto

lemma cancel_all_fields [simp]:
  "ht_loop (fold (\<lambda>(i, t). cancel_task t) ts ht) = ht_loop ht" "ht_heap (fold (\<lambda>(i, t). cancel_task t) ts ht) = ht_heap ht"
  "ht_tasks (fold (\<lambda>(i, t). cancel_task t) ts ht) = ht_tasks ht" "ht_told (fold (\<lambda>(i, t). cancel_task t) ts ht) = ht_told ht"
  "ht_ctx (fold (\<lambda>(i, t). cancel_task t) ts ht) = ht_ctx ht" "ht_timer (fold (\<lambda>(i, t). cancel_task t) ts ht) = ht_timer ht"
  "ht_wakeup (fold (\<lambda>(i, t). cancel_task t) ts ht) = ht_wakeup ht"
  "ht_running (fold (\<lambda>(i, t). cancel_task t) ts ht) = ht_running ht"
  by (induction ts arbitrary: ht) auto

lemma cancel_all_cancelled:
  "set (ht_cancelled (fold (\<lambda>(i, t). cancel_task t) ts ht)) =
     set (ht_cancelled ht) \<union> {c. \<exists>(i, t)\<in>set ts. tk_cancel t \<and> tk_Ctx t = Some c}"
  by (induction ts arbitrary: ht) (auto split: prod.splits if_splits option.splits)

lemma ctx_Err_update [simp]:
  "ctx_Err (ht\<lparr>ht_loop := l\<rparr>) c = ctx_Err ht c" "ctx_Err (ht\<lparr>ht_running := b\<rparr>) c = ctx_Err ht c"
  "ctx_Err (ht\<lparr>ht_observer := ob\<rparr>) c = ctx_Err ht c" "ctx_Err (ht\<lparr>ht_timer_armed := b\<rparr>) c = ctx_Err ht c"
  by (simp_all add: ctx_Err_def)

lemmas engine_inv_defs = timer_inv_def wait_inv_def told_inv_def

lemma Timer_Start_inv:
  assumes "ht_running ht \<or> ht_loop ht = RunExited" "timer_inv ht" "wait_inv ht" "told_inv ht now"
  shows "timer_inv (Timer_Start ht) \<and> wait_inv (Timer_Start ht) \<and> told_inv (Timer_Start ht) now"
  using assms by (simp add: Timer_Start_def Let_def engine_inv_defs)

lemma Stop_locked_inv:
  assumes "ctx_Err ht (ht_ctx ht)" "timer_inv ht" "wait_inv ht" "told_inv ht now"
  shows "timer_inv (Stop_locked ht) \<and> wait_inv (Stop_locked ht) \<and> told_inv (Stop_locked ht) now"
proof -
  have "ctx_Err (Stop_locked ht) c" if "ctx_Err ht c" for c
    using that by (simp add: Stop_locked_def ctx_Err_def cancel_all_cancelled)
  then show ?thesis using assms by (auto simp: Stop_locked_def engine_inv_defs)
qed

lemma run_top_inv:
  assumes inv: "timer_inv ht" and told: "told_inv ht now" and l: "ht_loop ht = RunTop"
  shows "timer_inv (run_top now ht) \<and> wait_inv (run_top now ht) \<and> told_inv (run_top now ht) now"
proof (cases "\<not> ht_running ht \<or> ctx_Err ht (ht_ctx ht) \<or> ht_heap ht = []")
  case True
  then show ?thesis using inv told by (auto simp: run_top_def engine_inv_defs)
next
  case False
  let ?t = "ht_heap ht ! 0"
  have st: "store_inv (ht_heap ht) (ht_tasks ht)" using inv by (simp add: timer_inv_def)
  then have hp: "is_heap (ht_heap ht)" by (simp add: store_inv_def)
  have ne: "ht_heap ht \<noteq> []" using False by simp
  note pop = Pop_props [OF hp ne]
  have ok: "task_ok ?t" using st ne by (simp add: store_inv_def)
  show ?thesis
  proof (cases "tk_At ?t \<le> now")
    case True
    then have eq: "run_top now ht = ht\<lparr>ht_heap := snd (heap_Pop (ht_heap ht)),
        ht_tasks := gomap_delete (tk_ID ?t) (ht_tasks ht), ht_loop := RunPopped ?t now\<rparr>"
      using False by (simp add: run_top_def Let_def)
    show ?thesis unfolding eq
      using store_inv_take [OF st pop(2,3)] ok told True by (auto simp: engine_inv_defs)
  next
    case late: False
    then have eq: "run_top now ht = ht\<lparr>ht_timer := Some (tk_At ?t), ht_timer_armed := True,
        ht_loop := RunWaiting (ht_ctx ht) (tk_At ?t)\<rparr>"
      using False by (simp add: run_top_def Let_def)
    show ?thesis unfolding eq using st told by (auto simp: engine_inv_defs)
  qed
qed

lemma run_popped_inv:
  assumes inv: "timer_inv ht" and told: "told_inv ht now" and l: "ht_loop ht = RunPopped t at"
  shows "timer_inv (run_popped t at ht) \<and> wait_inv (run_popped t at ht) \<and> told_inv (run_popped t at ht) now"
proof -
  have ok: "task_ok t" using inv l by (simp add: timer_inv_def)
  then obtain c where c: "tk_Ctx t = Some c" by (auto simp: task_ok_def)
  have at: "tk_At t \<le> at" "at \<le> now" "\<forall>x\<in>set (ht_told ht). snd (snd x) \<le> at"
    using told l by (simp_all add: told_inv_def)
  show ?thesis
    using inv told at ok c
    by (auto simp: run_popped_def OnTimerTrigger_def engine_inv_defs sorted_append split: observer.split option.split)
qed

lemma run_repeat_inv:
  assumes inv: "timer_inv ht" and told: "told_inv ht now" and l: "ht_loop ht = RunFiring t at"
  shows "timer_inv (run_repeat cron clock t at ht) \<and> wait_inv (run_repeat cron clock t at ht)
       \<and> told_inv (run_repeat cron clock t at ht) now"
proof -
  have ok: "task_ok t" using inv l by (simp add: timer_inv_def)
  then obtain c where c: "tk_Ctx t = Some c" by (auto simp: task_ok_def)
  have "\<exists>u. handleRepeatTask cron clock t at ht = Some ht \<or>
      handleRepeatTask cron clock t at ht = Some (snd (AddTask cron clock u ht))"
    using c by (auto simp: handleRepeatTask_def Let_def split: option.split)
  then obtain u where "handleRepeatTask cron clock t at ht = Some ht \<or>
      handleRepeatTask cron clock t at ht = Some (snd (AddTask cron clock u ht))" by blast
  then show ?thesis
    using inv told timer_inv_AddTask [OF inv, of cron clock u] by (auto simp: run_repeat_def engine_inv_defs)
qed

lemma run_step_inv:
  assumes "run_step cron now ht ht'" "timer_inv ht" "wait_inv ht" "told_inv ht now"
  shows "timer_inv ht' \<and> wait_inv ht' \<and> told_inv ht' now"
  using assms
proof cases
  case top
  then show ?thesis using run_top_inv assms by simp
next
  case (popped t t0)
  then show ?thesis using run_popped_inv assms by simp
next
  case (firing t t0)
  then show ?thesis using run_repeat_inv assms by simp
qed (use assms in \<open>simp_all add: engine_inv_defs\<close>)

lemma timer_step_inv:
  assumes "timer_step cron (ht, now) (ht', now')" "timer_inv ht" "wait_inv ht" "told_inv ht now"
  shows "timer_inv ht' \<and> wait_inv ht' \<and> told_inv ht' now'"
  using assms
proof cases
  case tick
  then show ?thesis using assms by (auto simp: told_inv_def)
next
  case (add t)
  then show ?thesis using assms timer_inv_AddTask wait_inv_AddTask by (simp add: told_inv_def)
next
  case (remove i)
  then show ?thesis using assms RemoveTask_inv [of ht i] by (auto simp: told_inv_def)
next
  case start
  then show ?thesis using assms Timer_Start_inv by simp
next
  case stop_locked
  then show ?thesis using assms Stop_locked_inv by simp
next
  case loop
  then show ?thesis using assms run_step_inv by simp
qed (use assms in \<open>auto simp: engine_inv_defs SetObserver_def cancel_ctx_def Stop_cancel_def ctx_Err_def\<close>)

lemma timer_reachable_inv:
  "timer_reachable cron s \<Longrightarrow> timer_inv (fst s) \<and> wait_inv (fst s) \<and> told_inv (fst s) (snd s)"
proof (induction rule: timer_reachable.induct)
  case (init obs fresh now)
  show ?case
    by (simp add: engine_inv_defs NewHighPrecisionTimer_def heap_Init_def store_inv_def is_heap_def heap_upto_def)
next
  case (step s s')
  then show ?case using timer_step_inv [of cron "fst s" "snd s" "fst s'" "snd s'"] by simp
qed


text \<open>What a repeating task comes back as.\<close>

lemma repeat_readds:
  assumes "tk_Ctx t = Some c" and "\<not> ctx_Err ht c" and "tk_Interval t > 0" and "at + tk_Interval t \<noteq> 0"
    and "ht_running ht" and "tk_ID t \<noteq> []" and "map_of (ht_tasks ht) (tk_ID t) = None"
  shows "\<exists>ht'. handleRepeatTask cron clock t at ht = Some ht'
       \<and> map_of (ht_tasks ht') (tk_ID t) = Some (t\<lparr>tk_At := at + tk_Interval t, tk_Data := DNil\<rparr>)"
proof -
  let ?u = "t\<lparr>tk_At := at + tk_Interval t, tk_Data := DNil\<rparr>"
  have u: "\<lparr>tk_ID = tk_ID t, tk_At = at + tk_Interval t, tk_Interval = tk_Interval t, tk_Cron = tk_Cron t, tk_Data = DNil,
      tk_Priority = tk_Priority t, tk_Callback = tk_Callback t, tk_Ctx = tk_Ctx t, tk_cancel = tk_cancel t\<rparr> = ?u"
    by simp
  have r: "handleRepeatTask cron clock t at ht = Some (snd (AddTask cron clock (Some ?u) ht))"
    using assms(1-4) by (simp add: handleRepeatTask_def nextAt_def Let_def u [unfolded assms(1)])
  have adm: "admitted cron clock ?u ht = Some ?u" using assms by (simp add: admitted_def Let_def)
  obtain f where "AddTask cron clock (Some ?u) ht =
     (case admitted cron clock ?u ht of None \<Rightarrow> ([], ht\<lparr>ht_fresh := f\<rparr>) | Some v \<Rightarrow> (tk_ID ?u, enter v (ht\<lparr>ht_fresh := f\<rparr>)))"
    using AddTask_eq by blast
  then have "snd (AddTask cron clock (Some ?u) ht) = enter ?u (ht\<lparr>ht_fresh := f\<rparr>)" by (simp add: adm)
  then show ?thesis using r by simp
qed

text \<open>How many moves a loop whose context is cancelled has left.\<close>

fun run_rank :: "run_pc \<Rightarrow> nat" where
  "run_rank RunExited = 0"
| "run_rank RunPanicked = 0"
| "run_rank RunTop = 1"
| "run_rank (RunIdle c) = 2"
| "run_rank (RunWaiting c d) = 2"
| "run_rank (RunFiring t at) = 2"
| "run_rank (RunPopped t at) = 3"

lemma run_popped_loop: "task_ok t \<Longrightarrow> ht_loop (run_popped t at ht) \<in> {RunTop, RunFiring t at}"
  by (auto simp: run_popped_def task_ok_def split: option.split observer.split)

lemma run_repeat_loop: "task_ok t \<Longrightarrow> ht_loop (run_repeat cron clock t at ht) = RunTop"
  by (auto simp: run_repeat_def handleRepeatTask_def task_ok_def Let_def split: option.splits)

lemma run_step_ctx:
  "run_step cron now ht ht' \<Longrightarrow> ht_ctx ht' = ht_ctx ht \<and> ht_cancelled ht' = ht_cancelled ht"
  by (induction rule: run_step.induct)
    (auto simp: run_top_def run_popped_def run_repeat_def handleRepeatTask_def OnTimerTrigger_def Let_def
      split: option.splits observer.splits)

section \<open>A concrete run\<close>

text \<open>A repeating task that is due, from its addition to its firing; it serves the witnesses.\<close>

definition demo_task :: task where
  "demo_task = \<lparr>tk_ID = ''job'', tk_At = 3, tk_Interval = 10, tk_Cron = '''', tk_Data = DInt 7, tk_Priority = PriorityLow,
     tk_Callback = None, tk_Ctx = Some 9, tk_cancel = True\<rparr>"

definition demo_added :: "int \<Rightarrow> engine" where
  "demo_added now = snd (AddTask (\<lambda>_. None) now (Some demo_task) (Timer_Start (NewHighPrecisionTimer ObsNil 0)))"

definition demo_fired :: engine where
  "demo_fired = run_popped demo_task 5 (run_top 5 (demo_added 5))"

lemma Push_single: "heap_Push t [] = [t]"
  by (simp add: heap_Push_def timerHeap_Push_def)

lemma demo_fields:
  "tk_At demo_task = 3" "tk_ID demo_task = ''job''" "tk_Ctx demo_task = Some 9" "tk_Callback demo_task = None"
  "tk_Interval demo_task = 10" "tk_Data demo_task = DInt 7" "tk_cancel demo_task"
  by (simp_all add: demo_task_def)

lemma demo_added_eq:
  "demo_added now = \<lparr>ht_heap = [demo_task], ht_timer = None, ht_timer_armed = False, ht_running = True, ht_loop = RunTop,
     ht_tasks = [(''job'', demo_task)], ht_ctx = 0, ht_wakeup = False, ht_observer = ObsEngine, ht_cancelled = [],
     ht_fresh = 1, ht_told = [], ht_calls = []\<rparr>"
  by (simp add: demo_added_def demo_task_def AddTask_def Timer_Start_def NewHighPrecisionTimer_def ctx_Err_def
      heap_Init_def Push_single gomap_put_def)

lemma demo_fired_eq:
  "demo_fired = \<lparr>ht_heap = [], ht_timer = None, ht_timer_armed = False, ht_running = True, ht_loop = RunFiring demo_task 5,
     ht_tasks = [], ht_ctx = 0, ht_wakeup = False, ht_observer = ObsEngine, ht_cancelled = [],
     ht_fresh = 1, ht_told = [(ObsEngine, demo_task, 5)], ht_calls = []\<rparr>"
proof -
  have "snd (heap_Pop [demo_task]) = []"
    using Pop_props(2) [of "[demo_task]"] by (simp add: is_heap_def heap_upto_def)
  then show ?thesis
    by (simp add: demo_fields demo_fired_def demo_added_eq run_top_def run_popped_def ctx_Err_def OnTimerTrigger_def gomap_delete_def Let_def)
qed

lemma demo_added_reachable: "timer_reachable (\<lambda>_. None) (demo_added now, now)"
proof -
  have "timer_reachable (\<lambda>_. None) (NewHighPrecisionTimer ObsNil 0, now)" by (rule timer_reachable.init)
  then have "timer_reachable (\<lambda>_. None) (Timer_Start (NewHighPrecisionTimer ObsNil 0), now)"
    by (rule timer_reachable.step) (rule timer_step.start, simp add: NewHighPrecisionTimer_def)
  then show ?thesis unfolding demo_added_def by (rule timer_reachable.step) (rule timer_step.add)
qed

lemma demo_fired_reachable: "timer_reachable (\<lambda>_. None) (demo_fired, 5)"
proof -
  have "timer_reachable (\<lambda>_. None) (run_top 5 (demo_added 5), 5)"
    using demo_added_reachable [of 5]
    by (rule timer_reachable.step) (rule timer_step.loop, rule run_step.top, simp add: demo_added_eq)
  then show ?thesis unfolding demo_fired_def
    by (rule timer_reachable.step) (rule timer_step.loop, rule run_step.popped,
        simp add: demo_added_eq run_top_def ctx_Err_def Let_def demo_fields)
qed

section \<open>Properties\<close>

text \<open>
  C23: in every state that the timer reaches, the slice of tasks is a heap, no two of its tasks have the same ID, the map of
  tasks holds exactly the tasks of the heap, each under its ID, and the loop has not dereferenced a nil context. The states
  are those that any interleaving of the main loop, of \<open>AddTask\<close>, \<open>RemoveTask\<close>, \<open>SetObserver\<close>, \<open>Start\<close> and \<open>Stop\<close>, of cancelled
  contexts and of a clock that does not go back leads to from a new timer, where \<open>Start\<close> is not called while a \<open>Stop\<close>
  is in progress.
\<close>

theorem timer_heap_and_index_agree:
  assumes "timer_reachable cron (ht, now)"
  shows "is_heap (ht_heap ht) \<and> distinct (map tk_ID (ht_heap ht))
       \<and> (\<forall>i t. (map_of (ht_tasks ht) i = Some t) = (t \<in> set (ht_heap ht) \<and> tk_ID t = i))
       \<and> ht_loop ht \<noteq> RunPanicked"
  using timer_reachable_inv [OF assms] by (simp add: timer_inv_def store_inv_def)

theorem timer_heap_and_index_agree_witness:
  "is_heap (ht_heap (demo_added 2)) \<and> map_of (ht_tasks (demo_added 2)) ''job'' = Some demo_task"
  using timer_heap_and_index_agree [OF demo_added_reachable [of 2]] by (simp add: demo_added_eq)

text \<open>
  C5: no task is fired early, and tasks are fired in the order of time: every notification happened at or after the
  task's time, the times of the notifications never go back, and the task that a turn of the loop takes is
  one that no other task of the heap precedes in the order of time and then priority.
\<close>

theorem timer_fires_in_order:
  assumes "timer_reachable cron (ht, now)"
  shows "(\<forall>x\<in>set (ht_told ht). tk_At (fst (snd x)) \<le> snd (snd x) \<and> snd (snd x) \<le> now)
       \<and> sorted (map (snd \<circ> snd) (ht_told ht))
       \<and> (\<forall>t at. ht_loop (run_top now ht) = RunPopped t at \<longrightarrow> ht_loop ht = RunTop \<longrightarrow>
            at = now \<and> tk_At t \<le> now \<and> mset (ht_heap ht) = add_mset t (mset (ht_heap (run_top now ht)))
            \<and> (\<forall>u\<in>set (ht_heap ht). \<not> task_less u t))"
proof -
  have inv: "told_inv ht now" "is_heap (ht_heap ht)"
    using timer_reachable_inv [OF assms] by (simp_all add: timer_inv_def store_inv_def)
  have "at = now \<and> tk_At t \<le> now \<and> mset (ht_heap ht) = add_mset t (mset (ht_heap (run_top now ht)))
      \<and> (\<forall>u\<in>set (ht_heap ht). \<not> task_less u t)"
    if p: "ht_loop (run_top now ht) = RunPopped t at" for t at
  proof -
    have ne: "ht_heap ht \<noteq> []" and t: "t = ht_heap ht ! 0" "at = now" "tk_At t \<le> now"
      "ht_heap (run_top now ht) = snd (heap_Pop (ht_heap ht))"
      using p by (auto simp: run_top_def Let_def split: if_splits)
    have "\<forall>u\<in>set (ht_heap ht). \<not> task_less u t"
      using Pop_min [OF inv(2) ne] Pop_props(1) [OF inv(2) ne] t(1) by simp
    then show ?thesis using Pop_props(2) [OF inv(2) ne] t by metis
  qed
  then show ?thesis using inv(1) by (simp add: told_inv_def)
qed

theorem timer_fires_in_order_witness:
  "ht_told demo_fired = [(ObsEngine, demo_task, 5)] \<and> tk_At demo_task \<le> 5"
  using timer_fires_in_order [OF demo_fired_reachable] by (simp add: demo_fired_eq demo_fields)

text \<open>
  C12: the loop never oversleeps: when the first task of the heap is due while the loop waits, some case of
  its select is ready, also when the task was added after the timer was set, and the next turn takes the
  task.
\<close>

theorem timer_never_oversleeps:
  assumes "timer_reachable cron (ht, now)" and "ht_loop ht = RunWaiting c d" and "ht_heap ht \<noteq> []"
    and "tk_At (ht_heap ht ! 0) \<le> now" and "ht_running ht" and "\<not> ctx_Err ht (ht_ctx ht)"
  shows "\<exists>ht1 ht2. run_step cron now ht ht1 \<and> run_step cron now ht1 ht2
            \<and> ht_loop ht2 = RunPopped (ht_heap ht ! 0) now"
proof -
  have w: "ht_timer_armed ht" "ht_wakeup ht \<or> d \<le> now"
    using timer_reachable_inv [OF assms(1)] assms by (auto simp: wait_inv_def)
  have "\<exists>ht1. run_step cron now ht ht1 \<and> ht_loop ht1 = RunTop \<and> ht_heap ht1 = ht_heap ht \<and> ht_running ht1
      \<and> \<not> ctx_Err ht1 (ht_ctx ht1)"
    using w(2)
  proof
    assume "ht_wakeup ht"
    from run_step.wait_wakeup [OF assms(2) this, of cron now] show ?thesis
      using assms by (intro exI conjI) (assumption, simp_all add: ctx_Err_def)
  next
    assume "d \<le> now"
    from run_step.wait_timer [OF assms(2) w(1) this, of cron] show ?thesis
      using assms by (intro exI conjI) (assumption, simp_all add: ctx_Err_def)
  qed
  then obtain ht1 where 1: "run_step cron now ht ht1" "ht_loop ht1 = RunTop" "ht_heap ht1 = ht_heap ht" "ht_running ht1"
    "\<not> ctx_Err ht1 (ht_ctx ht1)" by blast
  have "ht_loop (run_top now ht1) = RunPopped (ht_heap ht ! 0) now"
    using 1 assms(3,4) by (simp add: run_top_def Let_def)
  then show ?thesis using 1(1) run_step.top [OF 1(2), of cron now] by blast
qed


theorem timer_never_oversleeps_witness:
  "\<exists>ht1 ht2. run_step (\<lambda>_. None) 4 (run_top 2 (demo_added 2)) ht1 \<and> run_step (\<lambda>_. None) 4 ht1 ht2
     \<and> ht_loop ht2 = RunPopped demo_task 4"
proof -
  let ?ht = "run_top 2 (demo_added 2)"
  have eq: "?ht = (demo_added 2)\<lparr>ht_timer := Some 3, ht_timer_armed := True, ht_loop := RunWaiting 0 3\<rparr>"
    by (simp add: demo_added_eq run_top_def ctx_Err_def demo_fields)
  have "timer_reachable (\<lambda>_. None) (?ht, 2)"
    using demo_added_reachable [of 2]
    by (rule timer_reachable.step) (rule timer_step.loop, rule run_step.top, simp add: demo_added_eq)
  then have "timer_reachable (\<lambda>_. None) (?ht, 4)"
    by (rule timer_reachable.step) (rule timer_step.tick, simp)
  from timer_never_oversleeps [OF this, of 0 3] show ?thesis
    unfolding eq by (simp add: demo_added_eq ctx_Err_def demo_fields)
qed

text \<open>
  \<open>AddTask\<close> accepts a task exactly when the engine runs, the task has an ID that is not in use and a time,
  its own or the next one of its cron expression; then it returns the ID and the task, with a context, is
  in the heap and in the index. A task that is refused leaves both as they were.
\<close>

theorem AddTask_spec:
  "AddTask cron now None ht = ([], ht)
   \<and> (case admitted cron now t ht of
        None \<Rightarrow> fst (AddTask cron now (Some t) ht) = []
          \<and> ht_heap (snd (AddTask cron now (Some t) ht)) = ht_heap ht
          \<and> ht_tasks (snd (AddTask cron now (Some t) ht)) = ht_tasks ht
      | Some u \<Rightarrow> fst (AddTask cron now (Some t) ht) = tk_ID t \<and> tk_ID t \<noteq> []
          \<and> mset (ht_heap (snd (AddTask cron now (Some t) ht))) = add_mset u (mset (ht_heap ht))
          \<and> map_of (ht_tasks (snd (AddTask cron now (Some t) ht))) = (map_of (ht_tasks ht))(tk_ID t \<mapsto> u)
          \<and> task_ok u \<and> tk_ID u = tk_ID t \<and> tk_Data u = tk_Data t \<and> tk_Interval u = tk_Interval t)"
proof -
  obtain f where eq: "AddTask cron now (Some t) ht =
     (case admitted cron now t ht of None \<Rightarrow> ([], ht\<lparr>ht_fresh := f\<rparr>) | Some u \<Rightarrow> (tk_ID t, enter u (ht\<lparr>ht_fresh := f\<rparr>)))"
    using AddTask_eq by blast
  have none: "AddTask cron now None ht = ([], ht)" by (simp add: AddTask_def)
  show ?thesis
  proof (cases "admitted cron now t ht")
    case None
    then show ?thesis using eq none by simp
  next
    case (Some u)
    have "tk_Data u = tk_Data t \<and> tk_Interval u = tk_Interval t"
      using Some by (auto simp: admitted_def Let_def split: if_splits)
    then show ?thesis
      using Some eq none admitted_ok [OF Some] Push_mset [of u "ht_heap ht"] by (auto simp: task_ok_def)
  qed
qed

text \<open>
  \<open>RemoveTask\<close> of a task that is waiting takes exactly this task out of the heap and out of the index, cancels
  its context, keeps the heap a heap and returns true; a second call, and a call for an unknown ID, return
  false and change nothing.
\<close>

theorem RemoveTask_spec:
  assumes "timer_reachable cron (ht, now)" and "ht_running ht" and "map_of (ht_tasks ht) i = Some t"
  shows "\<exists>ht'. RemoveTask i ht = (True, ht') \<and> mset (ht_heap ht) = add_mset t (mset (ht_heap ht'))
       \<and> is_heap (ht_heap ht') \<and> map_of (ht_tasks ht') = (map_of (ht_tasks ht))(i := None)
       \<and> (tk_cancel t \<longrightarrow> ctx_Err ht' (the (tk_Ctx t))) \<and> RemoveTask i ht' = (False, ht')"
proof -
  have st: "store_inv (ht_heap ht) (ht_tasks ht)"
    using timer_reachable_inv [OF assms(1)] by (simp add: timer_inv_def)
  obtain h' where h': "RemoveTask i ht = (True, (cancel_task t ht)\<lparr>ht_heap := h', ht_tasks := gomap_delete i (ht_tasks ht)\<rparr>)"
    "mset (ht_heap ht) = add_mset t (mset h')" "is_heap h'"
    using RemoveTask_eq [OF st assms(3,2)] by blast
  have "t \<in> set (ht_heap ht)" using st assms(3) by (simp add: store_inv_def)
  then obtain c where "tk_Ctx t = Some c" using st by (auto simp: store_inv_def task_ok_def)
  then show ?thesis
    using h' by (intro exI [of _ "(cancel_task t ht)\<lparr>ht_heap := h', ht_tasks := gomap_delete i (ht_tasks ht)\<rparr>"])
      (simp add: ctx_Err_def RemoveTask_def)
qed

theorem RemoveTask_spec_witness:
  "\<exists>ht'. RemoveTask ''job'' (demo_added 2) = (True, ht') \<and> ht_heap ht' = [] \<and> ctx_Err ht' 9"
proof -
  have "ht_running (demo_added 2)" "map_of (ht_tasks (demo_added 2)) ''job'' = Some demo_task"
    by (simp_all add: demo_added_eq)
  from RemoveTask_spec [OF demo_added_reachable this] show ?thesis
    by (auto simp: demo_added_eq demo_fields)
qed

text \<open>
  A repeating task is put back under its ID with the same priority, callback and context, one interval after
  the turn that fired it; but its data is gone: the copy that \<open>handleRepeatTask\<close> makes has no \<open>Data\<close>, so an
  observer sees the payload of a repeating task only on its first firing.
\<close>

theorem timer_repeat_drops_data:
  assumes "tk_Ctx t = Some c" and "\<not> ctx_Err ht c" and "tk_Interval t > 0" and "at + tk_Interval t \<noteq> 0"
    and "ht_running ht" and "tk_ID t \<noteq> []" and "map_of (ht_tasks ht) (tk_ID t) = None"
  shows "\<exists>ht'. handleRepeatTask cron clock t at ht = Some ht'
       \<and> map_of (ht_tasks ht') (tk_ID t) = Some (t\<lparr>tk_At := at + tk_Interval t, tk_Data := DNil\<rparr>)"
  by (rule repeat_readds [OF assms])

theorem timer_repeat_drops_data_witness:
  "\<exists>ht'. handleRepeatTask (\<lambda>_. None) 5 demo_task 5 demo_fired = Some ht'
     \<and> map_of (ht_tasks ht') ''job'' = Some (demo_task\<lparr>tk_At := 15, tk_Data := DNil\<rparr>) \<and> tk_Data demo_task \<noteq> DNil"
  using timer_repeat_drops_data [of demo_task 9 demo_fired 5 "\<lambda>_. None" 5]
  by (simp add: demo_fired_eq ctx_Err_def demo_fields)

text \<open>
  A repeating task cannot be removed while it fires: between the turn that took it and its return to the heap
  \<open>RemoveTask\<close> answers false, its context is not cancelled, and the loop puts the task back.
\<close>

theorem timer_remove_during_trigger_is_lost:
  assumes "ht_loop ht = RunFiring t at" and "tk_Ctx t = Some c" and "\<not> ctx_Err ht c" and "tk_Interval t > 0"
    and "at + tk_Interval t \<noteq> 0" and "ht_running ht" and "tk_ID t \<noteq> []" and "map_of (ht_tasks ht) (tk_ID t) = None"
  shows "RemoveTask (tk_ID t) ht = (False, ht)
       \<and> (\<exists>u. map_of (ht_tasks (run_repeat cron clock t at (snd (RemoveTask (tk_ID t) ht)))) (tk_ID t) = Some u)"
proof -
  have r: "RemoveTask (tk_ID t) ht = (False, ht)" using assms(8) by (simp add: RemoveTask_def)
  obtain ht' where "handleRepeatTask cron clock t at ht = Some ht'" "map_of (ht_tasks ht') (tk_ID t) \<noteq> None"
    using repeat_readds [OF assms(2-8)] by blast
  then show ?thesis using r by (simp add: run_repeat_def)
qed

theorem timer_remove_during_trigger_is_lost_witness:
  "timer_reachable (\<lambda>_. None) (demo_fired, 5) \<and> RemoveTask ''job'' demo_fired = (False, demo_fired)
   \<and> (\<exists>u. map_of (ht_tasks (run_repeat (\<lambda>_. None) 5 demo_task 5 demo_fired)) ''job'' = Some u)"
proof -
  have "ht_loop demo_fired = RunFiring demo_task 5" "\<not> ctx_Err demo_fired 9" "ht_running demo_fired"
    "map_of (ht_tasks demo_fired) ''job'' = None" by (simp_all add: demo_fired_eq ctx_Err_def)
  then show ?thesis
    using timer_remove_during_trigger_is_lost [of demo_fired demo_task 5 9 "\<lambda>_. None" 5] demo_fired_reachable by (auto simp: demo_fields)
qed


text \<open>
  \<open>Stop\<close> ends the main loop: once the context of the engine is cancelled, the loop can always move until it has
  exited, and every move brings it nearer to its end, so the wait of \<open>Stop\<close> is over after at most three
  moves.
\<close>

theorem timer_Stop_ends_loop:
  assumes "timer_reachable cron (ht, now)" and "ctx_Err ht (ht_ctx ht)"
  shows "(Stop_done ht \<or> (\<exists>ht'. run_step cron now ht ht'))
       \<and> (\<forall>ht'. run_step cron now ht ht' \<longrightarrow> run_rank (ht_loop ht') < run_rank (ht_loop ht) \<and> ctx_Err ht' (ht_ctx ht'))
       \<and> run_rank (ht_loop ht) \<le> 3"
proof -
  have inv: "timer_inv ht" "wait_inv ht" using timer_reachable_inv [OF assms(1)] by simp_all
  have "Stop_done ht \<or> (\<exists>ht'. run_step cron now ht ht')"
  proof (cases "ht_loop ht")
    case RunExited
    then show ?thesis by (simp add: Stop_done_def)
  next
    case (RunWaiting c d)
    then have "ctx_Err ht c" using inv(2) assms(2) by (simp add: wait_inv_def)
    then show ?thesis using run_step.wait_done [OF RunWaiting] by blast
  next
    case RunPanicked
    then show ?thesis using inv(1) by (simp add: timer_inv_def)
  qed (blast intro: run_step.intros)+
  moreover have "run_rank (ht_loop ht') < run_rank (ht_loop ht)" if "run_step cron now ht ht'" for ht'
    using that
  proof cases
    case top
    then show ?thesis using assms(2) by (simp add: run_top_def)
  next
    case (popped t t0)
    then show ?thesis using run_popped_loop [of t t0 ht] inv(1) by (auto simp: timer_inv_def)
  next
    case (firing t t0)
    then show ?thesis using run_repeat_loop [of t cron now t0 ht] inv(1) by (simp add: timer_inv_def)
  qed simp_all
  moreover have "ctx_Err ht' (ht_ctx ht')" if "run_step cron now ht ht'" for ht'
    using run_step_ctx [OF that] assms(2) by (simp add: ctx_Err_def)
  moreover have "run_rank (ht_loop ht) \<le> 3" by (cases "ht_loop ht") simp_all
  ultimately show ?thesis by blast
qed

theorem timer_Stop_ends_loop_witness:
  "\<exists>ht'. run_step (\<lambda>_. None) 5 (Stop_cancel demo_fired) ht' \<and> run_rank (ht_loop ht') < 2"
proof -
  have "timer_reachable (\<lambda>_. None) (Stop_cancel demo_fired, 5)"
    using demo_fired_reachable by (rule timer_reachable.step) (rule timer_step.stop_cancel)
  moreover have "ctx_Err (Stop_cancel demo_fired) (ht_ctx (Stop_cancel demo_fired))"
    by (simp add: Stop_cancel_def cancel_ctx_def ctx_Err_def)
  moreover have "ht_loop (Stop_cancel demo_fired) = RunFiring demo_task 5"
    by (simp add: Stop_cancel_def cancel_ctx_def demo_fired_eq)
  ultimately show ?thesis using timer_Stop_ends_loop [of "\<lambda>_. None" "Stop_cancel demo_fired" 5] by (auto simp: Stop_done_def)
qed

text \<open>
  An engine that is stopped and started again runs with a fresh context, but it still holds the tasks of its first
  run: their contexts are cancelled, so they will never fire, and their IDs are refused.
\<close>

theorem timer_restart_refuses_old_tasks:
  assumes "timer_reachable cron (ht, now)" and "ht_running ht" and "t \<in> set (ht_heap ht)" and "tk_cancel t"
    and "ht' = Timer_Start (Stop_locked (Stop_cancel ht))"
  shows "ht_running ht' \<and> ht_heap ht' = ht_heap ht \<and> ctx_Err ht' (the (tk_Ctx t))
       \<and> fst (AddTask cron now (Some (t\<lparr>tk_Ctx := None\<rparr>)) ht') = []"
proof -
  have st: "store_inv (ht_heap ht) (ht_tasks ht)" using timer_reachable_inv [OF assms(1)] by (simp add: timer_inv_def)
  then have m: "map_of (ht_tasks ht) (tk_ID t) = Some t" and "task_ok t" using assms(3) by (simp_all add: store_inv_def)
  then obtain c where c: "tk_Ctx t = Some c" by (auto simp: task_ok_def)
  let ?s = "Stop_locked (Stop_cancel ht)"
  have s: "\<not> ht_running ?s" "ht_heap ?s = ht_heap ht" "ht_tasks ?s = ht_tasks ht"
    using assms(2) by (simp_all add: Stop_locked_def Stop_cancel_def cancel_ctx_def)
  have "(tk_ID t, t) \<in> set (ht_tasks ht)" using m by (rule map_of_SomeD)
  then have can: "c \<in> set (ht_cancelled ?s)"
    using assms(2,4) c by (auto simp: Stop_locked_def Stop_cancel_def cancel_ctx_def cancel_all_cancelled)
  have h: "ht_running ht'" "ht_heap ht' = ht_heap ht" "ht_tasks ht' = ht_tasks ht" "ht_cancelled ht' = ht_cancelled ?s"
    using s assms(5) by (simp_all add: Timer_Start_def Let_def)
  have "admitted cron now (t\<lparr>tk_Ctx := None\<rparr>) ht' = None" using m h(3) by (simp add: admitted_def Let_def)
  moreover obtain f where "AddTask cron now (Some (t\<lparr>tk_Ctx := None\<rparr>)) ht' =
     (case admitted cron now (t\<lparr>tk_Ctx := None\<rparr>) ht' of None \<Rightarrow> ([], ht'\<lparr>ht_fresh := f\<rparr>)
      | Some u \<Rightarrow> (tk_ID (t\<lparr>tk_Ctx := None\<rparr>), enter u (ht'\<lparr>ht_fresh := f\<rparr>)))"
    using AddTask_eq by blast
  ultimately show ?thesis using h c can by (simp add: ctx_Err_def)
qed

theorem timer_restart_refuses_old_tasks_witness:
  "ctx_Err (Timer_Start (Stop_locked (Stop_cancel (demo_added 2)))) 9"
  using timer_restart_refuses_old_tasks [OF demo_added_reachable [of 2], of demo_task] by (simp add: demo_added_eq demo_fields)

end
