(* ===== verification/Timer_Server.thy ===== *)
theory Timer_Server
  imports Timer_Engine Keepalive
begin

text \<open>
  The timer server, \<open>transport/hptimer/server.go\<close> and \<open>options.go\<close>: it owns a timer engine and a keepalive
  server.
\<close>

section \<open>State and options\<close>

record hp_server =
  hs_started :: bool
  hs_stopping :: bool
  hs_ctxDone :: bool
  hs_err :: "error option"
  hs_gracefullyShutdown :: bool
  hs_ka :: ka_slot
  hs_hpTimer :: "engine option"
  hs_timerObserver :: observer

definition KindHighPrecisionTimer :: string where "KindHighPrecisionTimer = ''hptimer''"

definition hp_WithEnableKeepAlive :: "bool \<Rightarrow> hp_server \<Rightarrow> hp_server" where
  "hp_WithEnableKeepAlive enable s = s\<lparr>hs_ka := (hs_ka s)\<lparr>sl_enableKeepalive := enable\<rparr>\<rparr>"

definition hp_WithGracefullyShutdown :: "bool \<Rightarrow> hp_server \<Rightarrow> hp_server" where
  "hp_WithGracefullyShutdown enable s = s\<lparr>hs_gracefullyShutdown := enable\<rparr>"

definition hp_WithTimerObserver :: "observer \<Rightarrow> hp_server \<Rightarrow> hp_server" where
  "hp_WithTimerObserver obs s = s\<lparr>hs_timerObserver := obs\<rparr>"

text \<open>\<open>if s.enableKeepalive && s.keepaliveServer == nil { s.keepaliveServer = keepalive.NewServer(...) }\<close>.\<close>

definition hp_ensure_keepalive :: "ka_env \<Rightarrow> hp_server \<Rightarrow> hp_server" where
  "hp_ensure_keepalive env s =
     (if sl_enableKeepalive (hs_ka s) \<and> sl_keepaliveServer (hs_ka s) = None
      then s\<lparr>hs_ka := slot_new env KindHighPrecisionTimer (hs_ka s)\<rparr> else s)"

definition hp_init :: "ka_env \<Rightarrow> (hp_server \<Rightarrow> hp_server) list \<Rightarrow> hp_server \<Rightarrow> hp_server" where
  "hp_init env opts s = hp_ensure_keepalive env (fold (\<lambda>opt s. opt s) opts s)"

definition hp_NewServer :: "ka_env \<Rightarrow> (hp_server \<Rightarrow> hp_server) list \<Rightarrow> hp_server" where
  "hp_NewServer env opts = hp_init env opts
     \<lparr>hs_started = False, hs_stopping = False, hs_ctxDone = False, hs_err = None, hs_gracefullyShutdown = True,
      hs_ka = no_slot True, hs_hpTimer = None, hs_timerObserver = ObsNil\<rparr>"

section \<open>Life cycle\<close>

definition hp_Start :: "ka_env \<Rightarrow> hp_server \<Rightarrow> error option \<times> hp_server" where
  "hp_Start env s =
     (if hs_started s then (Some (ErrNew ''hptimer server already started''), s)
      else if hs_err s \<noteq> None then (hs_err s, s)
      else
        let s1 = s\<lparr>hs_hpTimer := Some (Timer_Start (NewHighPrecisionTimer (hs_timerObserver s) 0))\<rparr>;
            s2 = hp_ensure_keepalive env s1
        in (None, s2\<lparr>hs_ka := slot_launch (hs_ka s2), hs_started := True\<rparr>))"

text \<open>
  \<open>Stop\<close> until it waits for the engine, and after the wait: the engine has stopped, or, with a graceful
  shutdown, ten seconds are over.
\<close>

definition hp_Stop_begin :: "hp_server \<Rightarrow> (error option + unit) \<times> hp_server" where
  "hp_Stop_begin s =
     (if \<not> hs_started s then (Inl (Some (ErrNew ''hptimer server not started'')), s)
      else if hs_stopping s then (Inl None, s)
      else (Inr (), s\<lparr>hs_stopping := True, hs_ctxDone := True,
                     hs_hpTimer := map_option (\<lambda>e. Stop_locked (Stop_cancel e)) (hs_hpTimer s)\<rparr>))"

definition hp_Stop_may_end :: "bool \<Rightarrow> hp_server \<Rightarrow> bool" where
  "hp_Stop_may_end timeout s =
     ((case hs_hpTimer s of None \<Rightarrow> True | Some e \<Rightarrow> Stop_done e) \<or> hs_gracefullyShutdown s \<and> timeout)"

definition hp_Stop_end :: "hp_server \<Rightarrow> hp_server" where
  "hp_Stop_end s = s\<lparr>hs_ka := slot_stop (hs_ka s), hs_stopping := False, hs_started := False\<rparr>"

definition hp_Endpoint :: "ka_env \<Rightarrow> hp_server \<Rightarrow> (error + url option) \<times> hp_server" where
  "hp_Endpoint env s =
     (if \<not> sl_enableKeepalive (hs_ka s) then (Inr (Some \<lparr>u_Scheme = '''', u_Host = ''''\<rparr>), s)
      else (let (r, k) = slot_Endpoint env ''hptimer server keepalive instance is nil'' (hs_ka s) in (r, s\<lparr>hs_ka := k\<rparr>)))"

definition hp_AddTask :: "(string \<Rightarrow> (int \<Rightarrow> int) option) \<Rightarrow> int \<Rightarrow> task option \<Rightarrow> hp_server \<Rightarrow> string \<times> hp_server" where
  "hp_AddTask cron now t s =
     (if \<not> hs_started s then ([], s)
      else (case hs_hpTimer s of
              None \<Rightarrow> ([], s)
            | Some e \<Rightarrow> (let (i, e1) = AddTask cron now t e in (i, s\<lparr>hs_hpTimer := Some e1\<rparr>))))"

definition hp_RemoveTask :: "string \<Rightarrow> hp_server \<Rightarrow> bool \<times> hp_server" where
  "hp_RemoveTask i s =
     (if \<not> hs_started s then (False, s)
      else (case hs_hpTimer s of
              None \<Rightarrow> (False, s)
            | Some e \<Rightarrow> (let (b, e1) = RemoveTask i e in (b, s\<lparr>hs_hpTimer := Some e1\<rparr>))))"

section \<open>Lemmas\<close>

lemma ensure_fields [simp]:
  "hs_started (hp_ensure_keepalive env s) = hs_started s" "hs_hpTimer (hp_ensure_keepalive env s) = hs_hpTimer s"
  "hs_stopping (hp_ensure_keepalive env s) = hs_stopping s"
  by (simp_all add: hp_ensure_keepalive_def)

lemma hp_Start_fields:
  assumes "\<not> hs_started s" "hs_err s = None"
  shows "fst (hp_Start env s) = None" "hs_started (snd (hp_Start env s))"
    "hs_hpTimer (snd (hp_Start env s)) = Some (Timer_Start (NewHighPrecisionTimer (hs_timerObserver s) 0))"
  using assms by (simp_all add: hp_Start_def Let_def)

lemma started_engine:
  "Timer_Start (NewHighPrecisionTimer obs f) =
     (NewHighPrecisionTimer obs f)\<lparr>ht_running := True, ht_loop := RunTop\<rparr>"
  by (simp add: Timer_Start_def NewHighPrecisionTimer_def ctx_Err_def)

lemma stopped_engine_refuses:
  "fst (AddTask cron now t (Stop_locked e)) = [] \<and> fst (RemoveTask i (Stop_locked e)) = False"
proof -
  have "\<not> ht_running (Stop_locked e)" by (simp add: Stop_locked_def)
  then show ?thesis by (auto simp: AddTask_def RemoveTask_def split: option.split)
qed

section \<open>Properties\<close>

text \<open>
  The timer server takes tasks exactly while it runs, and a restart starts clean: before \<open>Start\<close> and from the
  beginning of \<open>Stop\<close> on \<open>AddTask\<close> and \<open>RemoveTask\<close> are refused; a started server has a running engine without
  tasks, whatever happened before, and adding a valid task to it succeeds.
\<close>

theorem hptimer_server_takes_tasks_while_running:
  assumes "hs_err s = None" and "tk_ID t \<noteq> []" and "tk_At t \<noteq> 0"
  shows "(\<not> hs_started s \<longrightarrow> fst (hp_AddTask cron now (Some t) s) = [] \<and> \<not> fst (hp_RemoveTask i s)
            \<and> fst (hp_Start env s) = None \<and> fst (hp_AddTask cron now (Some t) (snd (hp_Start env s))) = tk_ID t)
       \<and> (hs_started s \<longrightarrow> fst (hp_Start env s) \<noteq> None
            \<and> (\<not> hs_stopping s \<longrightarrow> fst (hp_AddTask cron now (Some t) (snd (hp_Stop_begin s))) = []
                 \<and> \<not> fst (hp_RemoveTask i (snd (hp_Stop_begin s)))))"
proof (intro conjI impI)
  assume n: "\<not> hs_started s"
  show "fst (hp_AddTask cron now (Some t) s) = []" "\<not> fst (hp_RemoveTask i s)"
    using n by (simp_all add: hp_AddTask_def hp_RemoveTask_def)
  note st = hp_Start_fields [OF n assms(1), of env]
  show "fst (hp_Start env s) = None" by (rule st(1))
  let ?e = "Timer_Start (NewHighPrecisionTimer (hs_timerObserver s) 0)"
  have "ht_running ?e" "ht_tasks ?e = []" by (simp_all add: started_engine) (simp add: NewHighPrecisionTimer_def)
  then obtain u where "admitted cron now t ?e = Some u" using assms(2,3) by (simp add: admitted_def Let_def)
  then have "fst (AddTask cron now (Some t) ?e) = tk_ID t"
    using AddTask_eq [of cron now t ?e] by auto
  then show "fst (hp_AddTask cron now (Some t) (snd (hp_Start env s))) = tk_ID t"
    using st(2,3) by (simp add: hp_AddTask_def case_prod_beta Let_def)
next
  assume y: "hs_started s"
  show "fst (hp_Start env s) \<noteq> None" using y by (simp add: hp_Start_def)
  assume "\<not> hs_stopping s"
  then show "fst (hp_AddTask cron now (Some t) (snd (hp_Stop_begin s))) = []" "\<not> fst (hp_RemoveTask i (snd (hp_Stop_begin s)))"
    using y stopped_engine_refuses
    by (auto simp: hp_AddTask_def hp_RemoveTask_def hp_Stop_begin_def case_prod_beta Let_def split: option.split)
qed

theorem hptimer_server_takes_tasks_while_running_witness:
  "fst (hp_AddTask (\<lambda>_. None) 1 (Some demo_task) (hp_NewServer ka_test_env [])) = []
   \<and> fst (hp_AddTask (\<lambda>_. None) 1 (Some demo_task) (snd (hp_Start ka_test_env (hp_NewServer ka_test_env [])))) = ''job''"
  using hptimer_server_takes_tasks_while_running [of "hp_NewServer ka_test_env []" demo_task "\<lambda>_. None" 1 "''job''" ka_test_env]
  by (simp add: hp_NewServer_def hp_init_def hp_ensure_keepalive_def demo_fields)

text \<open>
  Stopping a timer server soon after its start leaks its keepalive server: if the goroutine that \<open>Start\<close> launched has
  not run yet when \<open>Stop\<close> ends, it later listens and serves on an instance that the server no longer refers to,
  so that no further \<open>Stop\<close> can reach it.
\<close>

theorem hptimer_early_stop_leaks_keepalive:
  assumes "s1 = snd (hp_Start env (hp_NewServer env []))" and "s2 = hp_Stop_end (snd (hp_Stop_begin s1))"
    and "ke_Listen env ''tcp'' (ka_address (ka_NewServer env [])) = Inr lis"
    and "AdjustAddress (ke_ParseIP env) (ke_Interfaces env) (ka_address (ka_NewServer env [])) (Some lis) = Inr a"
  shows "\<exists>ka t. sl_go (hs_ka s2) = [ka] \<and> \<not> hs_started s2 \<and> slot_run env ka (hs_ka s2) = (KaServing, t)
       \<and> sl_keepaliveServer t = None \<and> ka_started (sl_heap t ! ka) \<and> ka_lis (sl_heap t ! ka) = Some lis"
proof -
  have s1: "hs_ka s1 = slot_launch (slot_new env KindHighPrecisionTimer (no_slot True))" "hs_started s1" "\<not> hs_stopping s1"
    by (simp_all add: assms(1) hp_Start_def hp_NewServer_def hp_init_def hp_ensure_keepalive_def no_slot_def slot_new_def Let_def)
  then have s2: "hs_ka s2 = slot_stop (hs_ka s1)" "\<not> hs_started s2"
    using assms(2) by (simp_all add: hp_Stop_end_def hp_Stop_begin_def)
  have k: "sl_heap (hs_ka s1) = [ka_NewServer env [ka_WithServiceKind KindHighPrecisionTimer]]"
    "sl_keepaliveServer (hs_ka s1) = Some 0" "sl_go (hs_ka s1) = [0]"
    by (simp_all add: s1(1) slot_launch_def slot_new_def no_slot_def)
  show ?thesis using slot_stop_before_run [OF k(1,2) assms(3,4)] s2 k(3) by (intro exI [of _ 0]) auto
qed

theorem hptimer_early_stop_leaks_keepalive_witness:
  "\<exists>ka t. slot_run ka_test_env ka (hs_ka (hp_Stop_end (snd (hp_Stop_begin (snd (hp_Start ka_test_env
       (hp_NewServer ka_test_env []))))))) = (KaServing, t) \<and> sl_keepaliveServer t = None"
proof -
  obtain a where a: "AdjustAddress (ke_ParseIP ka_test_env) (ke_Interfaces ka_test_env) (ka_address (ka_NewServer ka_test_env []))
      (Some (TcpListener 10007)) = Inr a"
    using AdjustAddress_total unfolding ka_test_env_fields by blast
  have l: "ke_Listen ka_test_env ''tcp'' (ka_address (ka_NewServer ka_test_env [])) = Inr (TcpListener 10007)"
    by (simp add: ka_test_env_fields)
  show ?thesis using hptimer_early_stop_leaks_keepalive [OF refl refl l a] by blast
qed

end
