(* ===== verification/Cron_Server.thy ===== *)
theory Cron_Server
  imports Keepalive
begin

text \<open>
  The cron server, \<open>transport/cron/server.go\<close> and \<open>options.go\<close>. The scheduler is the third-party \<open>robfig/cron\<close>: a state \<open>'c\<close>
  with the operations that the code calls. \<open>cl_Entries\<close> gives the jobs it holds. The hypotheses on it,
  \<open>cron_lib_ok\<close>, are its documented behaviour: \<open>AddFunc\<close> gives a new ID to an expression it can parse,
  \<open>Remove\<close> removes the entry with an ID, starting and stopping the scheduler keeps the entries.
\<close>

section \<open>The scheduler\<close>

record 'c cron_lib =
  cl_AddFunc :: "string \<Rightarrow> nat \<Rightarrow> 'c \<Rightarrow> (error + nat) \<times> 'c"
  cl_Remove :: "nat \<Rightarrow> 'c \<Rightarrow> 'c"
  cl_Start :: "'c \<Rightarrow> 'c"
  cl_Stop :: "'c \<Rightarrow> 'c"
  cl_Entries :: "'c \<Rightarrow> nat set"

definition cron_lib_ok :: "'c cron_lib \<Rightarrow> bool" where
  "cron_lib_ok L \<longleftrightarrow>
     (\<forall>spec cmd c i c'. cl_AddFunc L spec cmd c = (Inr i, c') \<longrightarrow> i \<notin> cl_Entries L c \<and> cl_Entries L c' = insert i (cl_Entries L c))
     \<and> (\<forall>spec cmd c e c'. cl_AddFunc L spec cmd c = (Inl e, c') \<longrightarrow> cl_Entries L c' = cl_Entries L c)
     \<and> (\<forall>i c. cl_Entries L (cl_Remove L i c) = cl_Entries L c - {i})
     \<and> (\<forall>c. cl_Entries L (cl_Start L c) = cl_Entries L c) \<and> (\<forall>c. cl_Entries L (cl_Stop L c) = cl_Entries L c)"

section \<open>The server\<close>

record 'c cron_server =
  cs_started :: bool
  cs_stopping :: bool
  cs_ctxDone :: bool
  cs_err :: "error option"
  cs_gracefullyShutdown :: bool
  cs_ka :: ka_slot
  cs_cronScheduler :: 'c
  cs_entryIDs :: "(nat, string) gomap"

definition KindCron :: string where "KindCron = ''cron''"

definition cron_WithEnableKeepAlive :: "bool \<Rightarrow> 'c cron_server \<Rightarrow> 'c cron_server" where
  "cron_WithEnableKeepAlive enable s = s\<lparr>cs_ka := (cs_ka s)\<lparr>sl_enableKeepalive := enable\<rparr>\<rparr>"

definition cron_WithGracefullyShutdown :: "bool \<Rightarrow> 'c cron_server \<Rightarrow> 'c cron_server" where
  "cron_WithGracefullyShutdown enable s = s\<lparr>cs_gracefullyShutdown := enable\<rparr>"

definition cron_ensure_keepalive :: "ka_env \<Rightarrow> 'c cron_server \<Rightarrow> 'c cron_server" where
  "cron_ensure_keepalive env s =
     (if sl_enableKeepalive (cs_ka s) \<and> sl_keepaliveServer (cs_ka s) = None
      then s\<lparr>cs_ka := slot_new env KindCron (cs_ka s)\<rparr> else s)"

definition cron_init :: "ka_env \<Rightarrow> ('c cron_server \<Rightarrow> 'c cron_server) list \<Rightarrow> 'c cron_server \<Rightarrow> 'c cron_server" where
  "cron_init env opts s = cron_ensure_keepalive env (fold (\<lambda>opt s. opt s) opts s)"

definition cron_NewServer :: "ka_env \<Rightarrow> 'c \<Rightarrow> ('c cron_server \<Rightarrow> 'c cron_server) list \<Rightarrow> 'c cron_server" where
  "cron_NewServer env scheduler opts = cron_init env opts
     \<lparr>cs_started = False, cs_stopping = False, cs_ctxDone = False, cs_err = None, cs_gracefullyShutdown = True,
      cs_ka = no_slot True, cs_cronScheduler = scheduler, cs_entryIDs = []\<rparr>"

definition cron_Start :: "'c cron_lib \<Rightarrow> ka_env \<Rightarrow> 'c cron_server \<Rightarrow> error option \<times> 'c cron_server" where
  "cron_Start L env s =
     (if cs_started s then (Some (ErrNew ''cron server already started''), s)
      else if cs_err s \<noteq> None then (cs_err s, s)
      else
        let s1 = s\<lparr>cs_cronScheduler := cl_Start L (cs_cronScheduler s), cs_started := True\<rparr>;
            s2 = cron_ensure_keepalive env s1
        in (None, s2\<lparr>cs_ka := slot_launch (cs_ka s2)\<rparr>))"

text \<open>
  The goroutine that stops the scheduler may be late: then \<open>timeout\<close> holds and \<open>Stop\<close> returns with the
  scheduler still running. \<open>gracefullyShutdown\<close> is not read.
\<close>

definition cron_Stop :: "'c cron_lib \<Rightarrow> bool \<Rightarrow> 'c cron_server \<Rightarrow> error option \<times> 'c cron_server" where
  "cron_Stop L timeout s =
     (if \<not> cs_started s then (Some (ErrNew ''cron server not started''), s)
      else if cs_stopping s then (None, s)
      else (None, s\<lparr>cs_ctxDone := True,
                   cs_cronScheduler := (if timeout then cs_cronScheduler s else cl_Stop L (cs_cronScheduler s)),
                   cs_ka := slot_stop (cs_ka s), cs_stopping := False, cs_started := False\<rparr>))"

definition cron_Endpoint :: "ka_env \<Rightarrow> 'c cron_server \<Rightarrow> (error + url option) \<times> 'c cron_server" where
  "cron_Endpoint env s =
     (if \<not> sl_enableKeepalive (cs_ka s) then (Inr (Some \<lparr>u_Scheme = '''', u_Host = ''''\<rparr>), s)
      else (let (r, k) = slot_Endpoint env ''cron server keepalive instance is nil'' (cs_ka s) in (r, s\<lparr>cs_ka := k\<rparr>)))"

definition StartTimerJob :: "'c cron_lib \<Rightarrow> string \<Rightarrow> nat \<Rightarrow> 'c cron_server \<Rightarrow> (error + nat) \<times> 'c cron_server" where
  "StartTimerJob L spec cmd s =
     (if \<not> cs_started s then (Inl (ErrNew ''cron server not started, please start server first''), s)
      else (case cl_AddFunc L spec cmd (cs_cronScheduler s) of
              (Inl e, c) \<Rightarrow> (Inl e, s\<lparr>cs_cronScheduler := c\<rparr>)
            | (Inr i, c) \<Rightarrow> (Inr i, s\<lparr>cs_cronScheduler := c, cs_entryIDs := gomap_put i spec (cs_entryIDs s)\<rparr>)))"

definition StopTimerJob :: "'c cron_lib \<Rightarrow> nat \<Rightarrow> 'c cron_server \<Rightarrow> 'c cron_server" where
  "StopTimerJob L i s =
     s\<lparr>cs_cronScheduler := cl_Remove L i (cs_cronScheduler s), cs_entryIDs := gomap_delete i (cs_entryIDs s)\<rparr>"

definition StopAllJobs :: "'c cron_lib \<Rightarrow> 'c cron_server \<Rightarrow> 'c cron_server" where
  "StopAllJobs L s =
     s\<lparr>cs_cronScheduler := fold (\<lambda>(i, spec). cl_Remove L i) (cs_entryIDs s) (cs_cronScheduler s), cs_entryIDs := []\<rparr>"

definition GetJobCount :: "'c cron_server \<Rightarrow> nat" where
  "GetJobCount s = fold (\<lambda>x count. Suc count) (cs_entryIDs s) 0"

section \<open>Every history of calls\<close>

datatype cron_call =
    CallStart
  | CallStop bool
  | CallStartJob string nat
  | CallStopJob nat
  | CallStopAll

fun cron_apply :: "'c cron_lib \<Rightarrow> ka_env \<Rightarrow> cron_call \<Rightarrow> 'c cron_server \<Rightarrow> 'c cron_server" where
  "cron_apply L env CallStart s = snd (cron_Start L env s)"
| "cron_apply L env (CallStop timeout) s = snd (cron_Stop L timeout s)"
| "cron_apply L env (CallStartJob spec cmd) s = snd (StartTimerJob L spec cmd s)"
| "cron_apply L env (CallStopJob i) s = StopTimerJob L i s"
| "cron_apply L env CallStopAll s = StopAllJobs L s"

definition cron_inv :: "'c cron_lib \<Rightarrow> 'c cron_server \<Rightarrow> bool" where
  "cron_inv L s \<longleftrightarrow> gomap_wf (cs_entryIDs s) \<and> fst ` set (cs_entryIDs s) = cl_Entries L (cs_cronScheduler s)"

lemma cron_ensure_fields [simp]:
  "cs_entryIDs (cron_ensure_keepalive env s) = cs_entryIDs s"
  "cs_cronScheduler (cron_ensure_keepalive env s) = cs_cronScheduler s"
  by (simp_all add: cron_ensure_keepalive_def)

lemma Entries_remove_all:
  "cron_lib_ok L \<Longrightarrow> cl_Entries L (fold (\<lambda>(i, spec). cl_Remove L i) m c) = cl_Entries L c - fst ` set m"
  by (induction m arbitrary: c) (auto simp: cron_lib_ok_def)

lemma cron_inv_apply:
  assumes L: "cron_lib_ok L" and inv: "cron_inv L s"
  shows "cron_inv L (cron_apply L env call s)"
proof (cases call)
  case CallStart
  then show ?thesis using inv L by (simp add: cron_Start_def cron_inv_def cron_lib_ok_def Let_def)
next
  case (CallStop timeout)
  then show ?thesis using inv L by (simp add: cron_Stop_def cron_inv_def cron_lib_ok_def)
next
  case (CallStartJob spec cmd)
  obtain r c where r: "cl_AddFunc L spec cmd (cs_cronScheduler s) = (r, c)" by force
  have "cl_Entries L c = (case r of Inl e \<Rightarrow> cl_Entries L (cs_cronScheduler s) | Inr i \<Rightarrow> insert i (cl_Entries L (cs_cronScheduler s)))"
    using L r by (auto simp: cron_lib_ok_def split: sum.split)
  then show ?thesis
    using CallStartJob inv r
    by (auto simp: StartTimerJob_def cron_inv_def keys_gomap_put gomap_wf_put split: sum.splits)
next
  case (CallStopJob i)
  then show ?thesis
    using inv L by (simp add: StopTimerJob_def cron_inv_def cron_lib_ok_def keys_gomap_delete gomap_wf_delete)
next
  case CallStopAll
  then show ?thesis using inv by (simp add: StopAllJobs_def cron_inv_def Entries_remove_all [OF L])
qed

lemma cron_inv_calls:
  assumes "cron_lib_ok L" "cron_inv L s"
  shows "cron_inv L (fold (cron_apply L env) calls s)"
  using assms(2) by (induction calls arbitrary: s) (simp_all add: cron_inv_apply [OF assms(1)])

lemma GetJobCount_length: "GetJobCount s = length (cs_entryIDs s)"
proof -
  have "fold (\<lambda>x count. Suc count) m n = n + length m" for m :: "(nat, string) gomap" and n
    by (induction m arbitrary: n) simp_all
  then show ?thesis by (simp add: GetJobCount_def)
qed

section \<open>Properties\<close>

text \<open>A scheduler that counts its IDs up; an empty expression does not parse.\<close>

definition counting_lib :: "(nat list \<times> nat) cron_lib" where
  "counting_lib = \<lparr>cl_AddFunc = (\<lambda>spec cmd (es, n). if spec = [] then (Inl (ErrNew ''empty spec''), (es, n))
                                   else (Inr (Suc (Max (insert n (set es)))), (Suc (Max (insert n (set es))) # es, Suc (Max (insert n (set es)))))),
     cl_Remove = (\<lambda>i (es, n). (removeAll i es, n)), cl_Start = id, cl_Stop = id, cl_Entries = (\<lambda>(es, n). set es)\<rparr>"

lemma counting_lib_ok: "cron_lib_ok counting_lib"
proof -
  have "Suc (Max (insert n (set es))) \<notin> set es" for es and n :: nat
    by (metis List.finite_set Max_ge Suc_n_not_le_n finite_insert insertI2)
  then show ?thesis by (auto simp: cron_lib_ok_def counting_lib_def split: if_splits)
qed

text \<open>
  C37: the job table of a cron server is exact: after any sequence of calls, restarts included, the IDs it stores are the
  entries of the scheduler, \<open>GetJobCount\<close> is their number, and \<open>StopAllJobs\<close> leaves the scheduler
  without a job.
\<close>

theorem cron_job_table_is_exact:
  assumes "cron_lib_ok L" and "cl_Entries L scheduler = {}" and "s = fold (cron_apply L env) calls (cron_NewServer env scheduler [])"
  shows "fst ` set (cs_entryIDs s) = cl_Entries L (cs_cronScheduler s)
       \<and> GetJobCount s = card (cl_Entries L (cs_cronScheduler s))
       \<and> cl_Entries L (cs_cronScheduler (StopAllJobs L s)) = {} \<and> GetJobCount (StopAllJobs L s) = 0"
proof -
  have "cron_inv L (cron_NewServer env scheduler [])"
    using assms(2) by (simp add: cron_inv_def cron_NewServer_def cron_init_def)
  then have inv: "cron_inv L s" using cron_inv_calls [OF assms(1)] assms(3) by simp
  then have "cron_inv L (StopAllJobs L s)" using cron_inv_apply [OF assms(1) inv, of env CallStopAll] by simp
  moreover have "length (cs_entryIDs s) = card (fst ` set (cs_entryIDs s))"
    using inv distinct_card [of "map fst (cs_entryIDs s)"] by (simp add: cron_inv_def)
  ultimately show ?thesis
    using inv by (simp add: cron_inv_def GetJobCount_length StopAllJobs_def)
qed

theorem cron_job_table_is_exact_witness:
  "GetJobCount (fold (cron_apply counting_lib ka_test_env) [CallStart, CallStartJob ''@daily'' 1, CallStop False, CallStart]
     (cron_NewServer ka_test_env ([], 0) [])) = card (cl_Entries counting_lib (cs_cronScheduler
       (fold (cron_apply counting_lib ka_test_env) [CallStart, CallStartJob ''@daily'' 1, CallStop False, CallStart]
         (cron_NewServer ka_test_env ([], 0) []))))"
  using cron_job_table_is_exact [OF counting_lib_ok _ refl, of "([], 0)" ka_test_env
      "[CallStart, CallStartJob ''@daily'' 1, CallStop False, CallStart]"]
  by (simp add: counting_lib_def)

end
