(* ===== verification/Asynq_Options.thy ===== *)
theory Asynq_Options
  imports Keepalive Broker_Encoding
begin

text \<open>
  The data of the task queue server, \<open>transport/asynq\<close>: the server with its options (\<open>options.go\<close>) and how \<open>init\<close> carries the
  options into the connection of the third-party \<open>asynq\<close> library. An option may panic: it returns an error or the server. Time
  zones, logging, callbacks and the tuning parameters of the library's configuration are left out.
\<close>

section \<open>Connections\<close>

record redis_client =
  rc_Network :: string
  rc_Addr :: string
  rc_Username :: string
  rc_Password :: string
  rc_DB :: int
  rc_DialTimeout :: int
  rc_ReadTimeout :: int
  rc_WriteTimeout :: int
  rc_PoolSize :: int
  rc_TLSConfig :: "nat option"

record redis_cluster =
  rl_Addrs :: "string list"
  rl_MaxRedirects :: int
  rl_Username :: string
  rl_Password :: string
  rl_DialTimeout :: int
  rl_ReadTimeout :: int
  rl_WriteTimeout :: int
  rl_TLSConfig :: "nat option"

record redis_failover =
  rf_MasterName :: string
  rf_SentinelAddrs :: "string list"
  rf_SentinelUsername :: string
  rf_SentinelPassword :: string
  rf_Username :: string
  rf_Password :: string
  rf_DB :: int
  rf_DialTimeout :: int
  rf_ReadTimeout :: int
  rf_WriteTimeout :: int
  rf_PoolSize :: int
  rf_TLSConfig :: "nat option"

datatype redis_opt =
    RedisClientOpt redis_client
  | RedisClusterClientOpt redis_cluster
  | RedisFailoverClientOpt redis_failover

text \<open>The interface \<open>asynq.RedisConnOpt\<close> holds a pointer to a struct, or a copy of it.\<close>

datatype conn_opt = ByPtr redis_opt | ByVal redis_opt

definition defaultRedisAddress :: string where "defaultRedisAddress = ''127.0.0.1:6379''"

definition newRedisClientOpt :: conn_opt where
  "newRedisClientOpt = ByPtr (RedisClientOpt
     \<lparr>rc_Network = '''', rc_Addr = defaultRedisAddress, rc_Username = '''', rc_Password = '''', rc_DB = 0, rc_DialTimeout = 0,
      rc_ReadTimeout = 0, rc_WriteTimeout = 0, rc_PoolSize = 0, rc_TLSConfig = None\<rparr>)"

definition newRedisClusterClientOpt :: conn_opt where
  "newRedisClusterClientOpt = ByPtr (RedisClusterClientOpt
     \<lparr>rl_Addrs = [defaultRedisAddress], rl_MaxRedirects = 0, rl_Username = '''', rl_Password = '''', rl_DialTimeout = 0,
      rl_ReadTimeout = 0, rl_WriteTimeout = 0, rl_TLSConfig = None\<rparr>)"

definition newRedisFailoverClientOpt :: conn_opt where
  "newRedisFailoverClientOpt = ByPtr (RedisFailoverClientOpt
     \<lparr>rf_MasterName = ''mymaster'', rf_SentinelAddrs = [defaultRedisAddress], rf_SentinelUsername = '''', rf_SentinelPassword = '''',
      rf_Username = '''', rf_Password = '''', rf_DB = 0, rf_DialTimeout = 0, rf_ReadTimeout = 0, rf_WriteTimeout = 0, rf_PoolSize = 0,
      rf_TLSConfig = None\<rparr>)"

section \<open>The server\<close>

datatype lifecycleState = stateStopped | stateStarting | stateRunning | stateStopping

text \<open>A task of the queue.\<close>

record task_msg =
  tk_Type :: string
  tk_Payload :: slice

text \<open>
  \<open>as_server\<close> is \<open>None\<close> for nil and else says whether the library's server runs; \<open>as_client\<close> and \<open>as_inspector\<close> say whether
  the pointers are set; the scheduler has a state \<open>'c\<close>, the mux of handlers is an \<open>'m\<close>.
\<close>

record ('c, 'm) asynq_server =
  as_started :: bool
  as_state :: lifecycleState
  as_err :: "error option"
  as_server :: "bool option"
  as_client :: bool
  as_scheduler :: "'c option"
  as_inspector :: bool
  as_serverEnabled :: bool
  as_clientEnabled :: bool
  as_schedulerEnabled :: bool
  as_mux :: 'm
  as_redisConnOpt :: conn_opt
  as_concurrency :: int
  as_queues :: "(string, int) gomap option"
  as_addresses :: "string list"
  as_username :: "string option"
  as_password :: "string option"
  as_db :: "int option"
  as_poolSize :: "int option"
  as_dialTimeout :: "int option"
  as_readTimeout :: "int option"
  as_writeTimeout :: "int option"
  as_tlsConfig :: "nat option"
  as_maxRedirects :: "int option"
  as_masterName :: "string option"
  as_sentinelUsername :: "string option"
  as_sentinelPassword :: "string option"
  as_network :: "string option"
  as_gracefullyShutdown :: bool
  as_codec :: "codec option"
  as_entryIDs :: "(string, string) gomap"
  as_typeNameMap :: "(string, bool) gomap"
  as_ka :: ka_slot

type_synonym ('c, 'm) as_option = "('c, 'm) asynq_server \<Rightarrow> error + ('c, 'm) asynq_server"

section \<open>Options\<close>

definition WithRedisType :: "string \<Rightarrow> ('c, 'm) as_option" where
  "WithRedisType redisType s =
     (if redisType = ''single'' then Inr (s\<lparr>as_redisConnOpt := newRedisClientOpt\<rparr>)
      else if redisType = ''cluster'' then Inr (s\<lparr>as_redisConnOpt := newRedisClusterClientOpt\<rparr>)
      else if redisType = ''sentinel'' then Inr (s\<lparr>as_redisConnOpt := newRedisFailoverClientOpt\<rparr>)
      else Inl (GoPanic (''unknown redis type '' @ redisType)))"

definition WithRedisConnOpt :: "conn_opt \<Rightarrow> ('c, 'm) as_option" where
  "WithRedisConnOpt opt s = Inr (s\<lparr>as_redisConnOpt := opt\<rparr>)"

text \<open>\<open>parse\<close> is \<open>asynq.ParseRedisURI\<close>.\<close>

definition WithRedisURI :: "(string \<Rightarrow> error + conn_opt) \<Rightarrow> string \<Rightarrow> ('c, 'm) as_option" where
  "WithRedisURI parse uri s = (case parse uri of Inl e \<Rightarrow> Inl e | Inr opt \<Rightarrow> Inr (s\<lparr>as_redisConnOpt := opt\<rparr>))"

definition WithRedisAddress :: "string \<Rightarrow> ('c, 'm) as_option" where
  "WithRedisAddress addr s = Inr (s\<lparr>as_addresses := [addr]\<rparr>)"

definition WithRedisAddresses :: "string list \<Rightarrow> ('c, 'm) as_option" where
  "WithRedisAddresses addrs s = Inr (s\<lparr>as_addresses := addrs\<rparr>)"

definition WithRedisUsername :: "string \<Rightarrow> ('c, 'm) as_option" where
  "WithRedisUsername u s = Inr (s\<lparr>as_username := Some u\<rparr>)"

definition WithRedisPassword :: "string \<Rightarrow> ('c, 'm) as_option" where
  "WithRedisPassword p s = Inr (s\<lparr>as_password := Some p\<rparr>)"

definition WithRedisAuth :: "string \<Rightarrow> string \<Rightarrow> ('c, 'm) as_option" where
  "WithRedisAuth u p s = Inr (s\<lparr>as_username := Some u, as_password := Some p\<rparr>)"

definition WithRedisDB :: "int \<Rightarrow> ('c, 'm) as_option" where
  "WithRedisDB db s = Inr (s\<lparr>as_db := Some db\<rparr>)"

definition WithRedisPoolSize :: "int \<Rightarrow> ('c, 'm) as_option" where
  "WithRedisPoolSize n s = Inr (s\<lparr>as_poolSize := Some n\<rparr>)"

definition WithDialTimeout :: "int \<Rightarrow> ('c, 'm) as_option" where
  "WithDialTimeout t s = Inr (s\<lparr>as_dialTimeout := Some t\<rparr>)"

definition WithReadTimeout :: "int \<Rightarrow> ('c, 'm) as_option" where
  "WithReadTimeout t s = Inr (s\<lparr>as_readTimeout := Some t\<rparr>)"

definition WithWriteTimeout :: "int \<Rightarrow> ('c, 'm) as_option" where
  "WithWriteTimeout t s = Inr (s\<lparr>as_writeTimeout := Some t\<rparr>)"

definition as_WithTLSConfig :: "nat option \<Rightarrow> ('c, 'm) as_option" where
  "as_WithTLSConfig c s = Inr (s\<lparr>as_tlsConfig := c\<rparr>)"

definition WithMaxRedirects :: "int option \<Rightarrow> ('c, 'm) as_option" where
  "WithMaxRedirects n s = Inr (s\<lparr>as_maxRedirects := n\<rparr>)"

definition WithMasterName :: "string option \<Rightarrow> ('c, 'm) as_option" where
  "WithMasterName n s = Inr (s\<lparr>as_masterName := n\<rparr>)"

definition WithSentinelAuth :: "string option \<Rightarrow> string option \<Rightarrow> ('c, 'm) as_option" where
  "WithSentinelAuth u p s = Inr (s\<lparr>as_sentinelUsername := u, as_sentinelPassword := p\<rparr>)"

definition as_WithNetwork :: "string option \<Rightarrow> ('c, 'm) as_option" where
  "as_WithNetwork n s = Inr (s\<lparr>as_network := n\<rparr>)"

definition WithConcurrency :: "int \<Rightarrow> ('c, 'm) as_option" where
  "WithConcurrency n s = Inr (s\<lparr>as_concurrency := n\<rparr>)"

definition WithQueues :: "(string, int) gomap \<Rightarrow> ('c, 'm) as_option" where
  "WithQueues queues s =
     (let qs = (case as_queues s of None \<Rightarrow> [] | Some q \<Rightarrow> q)
      in if length queues = 0
         then Inr (s\<lparr>as_queues := Some (if length qs = 0
                                        then gomap_put ''default'' (if as_concurrency s > 0 then as_concurrency s else 1) qs
                                        else qs)\<rparr>)
         else Inr (s\<lparr>as_queues := Some (gomap_put_all queues qs)\<rparr>))"

definition as_WithGracefullyShutdown :: "bool \<Rightarrow> ('c, 'm) as_option" where
  "as_WithGracefullyShutdown b s = Inr (s\<lparr>as_gracefullyShutdown := b\<rparr>)"

definition WithServerEnabled :: "bool \<Rightarrow> ('c, 'm) as_option" where
  "WithServerEnabled b s = Inr (s\<lparr>as_serverEnabled := b\<rparr>)"

definition WithClientEnabled :: "bool \<Rightarrow> ('c, 'm) as_option" where
  "WithClientEnabled b s = Inr (s\<lparr>as_clientEnabled := b\<rparr>)"

definition WithSchedulerEnabled :: "bool \<Rightarrow> ('c, 'm) as_option" where
  "WithSchedulerEnabled b s = Inr (s\<lparr>as_schedulerEnabled := b\<rparr>)"

definition as_WithEnableKeepAlive :: "bool \<Rightarrow> ('c, 'm) as_option" where
  "as_WithEnableKeepAlive b s = Inr (s\<lparr>as_ka := (as_ka s)\<lparr>sl_enableKeepalive := b\<rparr>\<rparr>)"

section \<open>From the options to the connection\<close>

text \<open>\<open>if x != nil { opt.F = *x }\<close>.\<close>

definition if_set :: "'a option \<Rightarrow> ('a \<Rightarrow> 'r \<Rightarrow> 'r) \<Rightarrow> 'r \<Rightarrow> 'r" where
  "if_set x f r = (case x of None \<Rightarrow> r | Some v \<Rightarrow> f v r)"

definition updateRedisClientOpt :: "('c, 'm) asynq_server \<Rightarrow> redis_client \<Rightarrow> redis_client" where
  "updateRedisClientOpt s opt =
     (if_set (as_network s) (\<lambda>v r. r\<lparr>rc_Network := v\<rparr>)
     (if_set (as_tlsConfig s) (\<lambda>v r. r\<lparr>rc_TLSConfig := Some v\<rparr>)
     (if_set (as_writeTimeout s) (\<lambda>v r. r\<lparr>rc_WriteTimeout := v\<rparr>)
     (if_set (as_readTimeout s) (\<lambda>v r. r\<lparr>rc_ReadTimeout := v\<rparr>)
     (if_set (as_dialTimeout s) (\<lambda>v r. r\<lparr>rc_DialTimeout := v\<rparr>)
     (if_set (as_poolSize s) (\<lambda>v r. r\<lparr>rc_PoolSize := v\<rparr>)
     ((\<lambda>r. if length (as_addresses s) > 0 then r\<lparr>rc_Addr := as_addresses s ! 0\<rparr> else r)
     (if_set (as_db s) (\<lambda>v r. r\<lparr>rc_DB := v\<rparr>)
     (if_set (as_password s) (\<lambda>v r. r\<lparr>rc_Password := v\<rparr>)
     (if_set (as_username s) (\<lambda>v r. r\<lparr>rc_Username := v\<rparr>) opt))))))))))"

definition updateRedisClusterClientOpt :: "('c, 'm) asynq_server \<Rightarrow> redis_cluster \<Rightarrow> redis_cluster" where
  "updateRedisClusterClientOpt s opt =
     (if_set (as_maxRedirects s) (\<lambda>v r. r\<lparr>rl_MaxRedirects := v\<rparr>)
     (if_set (as_tlsConfig s) (\<lambda>v r. r\<lparr>rl_TLSConfig := Some v\<rparr>)
     (if_set (as_writeTimeout s) (\<lambda>v r. r\<lparr>rl_WriteTimeout := v\<rparr>)
     (if_set (as_readTimeout s) (\<lambda>v r. r\<lparr>rl_ReadTimeout := v\<rparr>)
     (if_set (as_dialTimeout s) (\<lambda>v r. r\<lparr>rl_DialTimeout := v\<rparr>)
     ((\<lambda>r. if length (as_addresses s) > 0 then r\<lparr>rl_Addrs := as_addresses s\<rparr> else r)
     (if_set (as_password s) (\<lambda>v r. r\<lparr>rl_Password := v\<rparr>)
     (if_set (as_username s) (\<lambda>v r. r\<lparr>rl_Username := v\<rparr>) opt))))))))"

definition updateRedisFailoverClientOpt :: "('c, 'm) asynq_server \<Rightarrow> redis_failover \<Rightarrow> redis_failover" where
  "updateRedisFailoverClientOpt s opt =
     (if_set (as_sentinelPassword s) (\<lambda>v r. r\<lparr>rf_SentinelPassword := v\<rparr>)
     (if_set (as_sentinelUsername s) (\<lambda>v r. r\<lparr>rf_SentinelUsername := v\<rparr>)
     (if_set (as_masterName s) (\<lambda>v r. r\<lparr>rf_MasterName := v\<rparr>)
     (if_set (as_tlsConfig s) (\<lambda>v r. r\<lparr>rf_TLSConfig := Some v\<rparr>)
     (if_set (as_writeTimeout s) (\<lambda>v r. r\<lparr>rf_WriteTimeout := v\<rparr>)
     (if_set (as_readTimeout s) (\<lambda>v r. r\<lparr>rf_ReadTimeout := v\<rparr>)
     (if_set (as_dialTimeout s) (\<lambda>v r. r\<lparr>rf_DialTimeout := v\<rparr>)
     (if_set (as_poolSize s) (\<lambda>v r. r\<lparr>rf_PoolSize := v\<rparr>)
     ((\<lambda>r. if length (as_addresses s) > 0 then r\<lparr>rf_SentinelAddrs := as_addresses s\<rparr> else r)
     (if_set (as_db s) (\<lambda>v r. r\<lparr>rf_DB := v\<rparr>)
     (if_set (as_password s) (\<lambda>v r. r\<lparr>rf_Password := v\<rparr>)
     (if_set (as_username s) (\<lambda>v r. r\<lparr>rf_Username := v\<rparr>) opt))))))))))))"

fun update_redis :: "('c, 'm) asynq_server \<Rightarrow> redis_opt \<Rightarrow> redis_opt" where
  "update_redis s (RedisClientOpt v) = RedisClientOpt (updateRedisClientOpt s v)"
| "update_redis s (RedisClusterClientOpt v) = RedisClusterClientOpt (updateRedisClusterClientOpt s v)"
| "update_redis s (RedisFailoverClientOpt v) = RedisFailoverClientOpt (updateRedisFailoverClientOpt s v)"

text \<open>The type switch of \<open>init\<close>: for a struct held by value, \<open>v\<close> is a copy, and it is the copy that is updated.\<close>

fun init_conn :: "('c, 'm) asynq_server \<Rightarrow> conn_opt \<Rightarrow> conn_opt" where
  "init_conn s (ByPtr v) = ByPtr (update_redis s v)"
| "init_conn s (ByVal v) = (let copy = update_redis s v in ByVal v)"

fun conn_redis :: "conn_opt \<Rightarrow> redis_opt" where
  "conn_redis (ByPtr v) = v"
| "conn_redis (ByVal v) = v"

fun redis_auth :: "redis_opt \<Rightarrow> string \<times> string" where
  "redis_auth (RedisClientOpt v) = (rc_Username v, rc_Password v)"
| "redis_auth (RedisClusterClientOpt v) = (rl_Username v, rl_Password v)"
| "redis_auth (RedisFailoverClientOpt v) = (rf_Username v, rf_Password v)"

fun redis_addrs :: "redis_opt \<Rightarrow> string list" where
  "redis_addrs (RedisClientOpt v) = [rc_Addr v]"
| "redis_addrs (RedisClusterClientOpt v) = rl_Addrs v"
| "redis_addrs (RedisFailoverClientOpt v) = rf_SentinelAddrs v"

fun single_addr :: "redis_opt \<Rightarrow> bool" where
  "single_addr (RedisClientOpt v) = True"
| "single_addr v = False"

lemma case_option_same [simp]: "(case x of None \<Rightarrow> a | Some v \<Rightarrow> a) = a"
  by (simp split: option.split)

lemma if_set_read: "g (if_set x f r) = (case x of None \<Rightarrow> g r | Some v \<Rightarrow> g (f v r))"
  by (simp add: if_set_def split: option.split)

lemmas read_rules =
  if_set_read [of rc_Username] if_set_read [of rc_Password] if_set_read [of rc_Addr]
  if_set_read [of rl_Username] if_set_read [of rl_Password] if_set_read [of rl_Addrs]
  if_set_read [of rf_Username] if_set_read [of rf_Password] if_set_read [of rf_SentinelAddrs]
  if_distrib [of rc_Username] if_distrib [of rc_Password] if_distrib [of rc_Addr]
  if_distrib [of rl_Username] if_distrib [of rl_Password] if_distrib [of rl_Addrs]
  if_distrib [of rf_Username] if_distrib [of rf_Password] if_distrib [of rf_SentinelAddrs]

lemma update_auth:
  "redis_auth (update_redis s v)
     = ((case as_username s of None \<Rightarrow> fst (redis_auth v) | Some u \<Rightarrow> u), (case as_password s of None \<Rightarrow> snd (redis_auth v) | Some p \<Rightarrow> p))"
  by (cases v) (simp_all add: updateRedisClientOpt_def updateRedisClusterClientOpt_def updateRedisFailoverClientOpt_def read_rules cong: option.case_cong)

lemma update_addrs:
  "redis_addrs (update_redis s v)
     = (if as_addresses s = [] then redis_addrs v else if single_addr v then [hd (as_addresses s)] else as_addresses s)"
  by (cases v) (simp_all add: updateRedisClientOpt_def updateRedisClusterClientOpt_def updateRedisFailoverClientOpt_def read_rules hd_conv_nth
      cong: option.case_cong)

section \<open>Properties\<close>

text \<open>
  Credentials and addresses that are given as options reach the connection, in every mode and whatever the order of the
  options, when the connection is held by a pointer; a single client takes the first address. When the connection is a
  struct held by value, which is what \<open>ParseRedisURI\<close> returns for \<open>WithRedisURI\<close>, every option is lost: \<open>init\<close> updates a
  copy.
\<close>

theorem asynq_connection_options:
  "redis_auth (conn_redis (init_conn s (ByPtr v)))
     = ((case as_username s of None \<Rightarrow> fst (redis_auth v) | Some u \<Rightarrow> u), (case as_password s of None \<Rightarrow> snd (redis_auth v) | Some p \<Rightarrow> p))
   \<and> redis_addrs (conn_redis (init_conn s (ByPtr v)))
     = (if as_addresses s = [] then redis_addrs v else if single_addr v then [hd (as_addresses s)] else as_addresses s)
   \<and> init_conn s (ByVal v) = ByVal v"
  by (simp add: update_auth update_addrs)

end
