(* ===== verification/Asynq_Server.thy ===== *)
theory Asynq_Server
  imports Asynq_Options
begin

text \<open>
  The task queue server, \<open>transport/asynq/server.go\<close>. The third-party library is a parameter: \<open>sched_lib\<close> is its scheduler with a
  state \<open>'c\<close>, \<open>mux_lib\<close> its mux of handlers, \<open>as_env\<close> what the constructors and \<open>Close\<close> return. \<open>Start\<close> and \<open>Stop\<close> hold the
  mutex of the server from beginning to end, so that each is one step. The world \<open>'q\<close> is the queue in redis.
\<close>

section \<open>The library\<close>

record 'c sched_lib =
  al_New :: "'c option"
  al_Start :: "'c \<Rightarrow> error option \<times> 'c"
  al_Register :: "string \<Rightarrow> task_msg \<Rightarrow> 'c \<Rightarrow> (error + string) \<times> 'c"
  al_Unregister :: "string \<Rightarrow> 'c \<Rightarrow> error option \<times> 'c"
  al_running :: "'c \<Rightarrow> bool"
  al_entries :: "'c \<Rightarrow> string set"

type_synonym 'w task_handler = "ctx \<Rightarrow> task_msg \<Rightarrow> 'w \<Rightarrow> error option \<times> 'w"

record ('m, 'w) mux_lib =
  ml_HandleFunc :: "string \<Rightarrow> 'w task_handler \<Rightarrow> 'm \<Rightarrow> error + 'm"
  ml_match :: "'m \<Rightarrow> string \<Rightarrow> 'w task_handler option"

record as_env =
  ae_NewServer :: bool
  ae_NewClient :: bool
  ae_NewInspector :: bool
  ae_client_Close :: "error option"
  ae_inspector_Close :: "error option"

text \<open>
  What the documentation of the scheduler promises: a new one is idle and empty, it can be started once, \<open>Register\<close> gives a new ID,
  \<open>Unregister\<close> removes one.
\<close>

definition sched_ok :: "'c sched_lib \<Rightarrow> bool" where
  "sched_ok L \<longleftrightarrow>
     (\<forall>c. al_New L = Some c \<longrightarrow> \<not> al_running L c \<and> al_entries L c = {})
     \<and> (\<forall>c e c'. al_Start L c = (e, c') \<longrightarrow> al_entries L c' = al_entries L c \<and> (al_running L c \<longrightarrow> e \<noteq> None) \<and> (e = None \<longrightarrow> al_running L c'))
     \<and> (\<forall>spec t c i c'. al_Register L spec t c = (Inr i, c') \<longrightarrow>
           i \<notin> al_entries L c \<and> al_entries L c' = insert i (al_entries L c) \<and> al_running L c' = al_running L c)
     \<and> (\<forall>spec t c e c'. al_Register L spec t c = (Inl e, c') \<longrightarrow> al_entries L c' = al_entries L c \<and> al_running L c' = al_running L c)
     \<and> (\<forall>i c e c'. al_Unregister L i c = (e, c') \<longrightarrow>
           al_entries L c' = (if e = None then al_entries L c - {i} else al_entries L c) \<and> al_running L c' = al_running L c)"

section \<open>Parts of the server\<close>

definition createAsynqServer :: "as_env \<Rightarrow> ('c, 'm) asynq_server \<Rightarrow> error option \<times> ('c, 'm) asynq_server" where
  "createAsynqServer E s =
     (if \<not> as_serverEnabled s then (None, s)
      else if as_server s \<noteq> None then (None, s)
      else if ae_NewServer E then (None, s\<lparr>as_server := Some False\<rparr>)
      else (Some (ErrNew ''create asynq server failed''), s))"

definition createAsynqClient :: "as_env \<Rightarrow> ('c, 'm) asynq_server \<Rightarrow> error option \<times> ('c, 'm) asynq_server" where
  "createAsynqClient E s =
     (if \<not> as_clientEnabled s then (None, s)
      else if as_client s then (None, s)
      else if ae_NewClient E then (None, s\<lparr>as_client := True\<rparr>)
      else (Some (ErrNew ''create asynq client failed''), s))"

definition createAsynqScheduler :: "'c sched_lib \<Rightarrow> ('c, 'm) asynq_server \<Rightarrow> error option \<times> ('c, 'm) asynq_server" where
  "createAsynqScheduler L s =
     (if \<not> as_schedulerEnabled s then (None, s)
      else if as_scheduler s \<noteq> None then (None, s)
      else (case al_New L of
              Some c \<Rightarrow> (None, s\<lparr>as_scheduler := Some c\<rparr>)
            | None \<Rightarrow> (Some (ErrNew ''create asynq scheduler failed''), s)))"

definition createAsynqInspector :: "as_env \<Rightarrow> ('c, 'm) asynq_server \<Rightarrow> error option \<times> ('c, 'm) asynq_server" where
  "createAsynqInspector E s =
     (if as_inspector s then (None, s)
      else if ae_NewInspector E then (None, s\<lparr>as_inspector := True\<rparr>)
      else (Some (ErrNew ''create asynq inspector failed''), s))"

definition runAsynqScheduler :: "'c sched_lib \<Rightarrow> ('c, 'm) asynq_server \<Rightarrow> error option \<times> ('c, 'm) asynq_server" where
  "runAsynqScheduler L s =
     (case as_scheduler s of
        None \<Rightarrow> (Some (ErrNew ''asynq scheduler is nil''), s)
      | Some c \<Rightarrow> (let (e, c') = al_Start L c in (e, s\<lparr>as_scheduler := Some c'\<rparr>)))"

definition runAsynqServer :: "('c, 'm) asynq_server \<Rightarrow> error option \<times> ('c, 'm) asynq_server" where
  "runAsynqServer s =
     (if as_state s \<noteq> stateStarting \<and> as_state s \<noteq> stateRunning then (Some (ErrNew ''server is not in startable state''), s)
      else (case as_server s of
              None \<Rightarrow> (Some (ErrNew ''asynq server is nil''), s)
            | Some r \<Rightarrow> (None, s\<lparr>as_server := Some True\<rparr>)))"

section \<open>Construction\<close>

fun apply_options :: "('c, 'm) as_option list \<Rightarrow> ('c, 'm) asynq_server \<Rightarrow> error + ('c, 'm) asynq_server" where
  "apply_options [] s = Inr s"
| "apply_options (opt # opts) s = (case opt s of Inl e \<Rightarrow> Inl e | Inr s1 \<Rightarrow> apply_options opts s1)"

text \<open>\<open>if err != nil { if s.err == nil { s.err = err } }\<close>.\<close>

definition keep_err :: "error option \<times> ('c, 'm) asynq_server \<Rightarrow> ('c, 'm) asynq_server" where
  "keep_err r = (case r of (e, s) \<Rightarrow> if e \<noteq> None \<and> as_err s = None then s\<lparr>as_err := e\<rparr> else s)"

definition KindAsynq :: string where "KindAsynq = ''asynq''"

definition as_ensure_keepalive :: "ka_env \<Rightarrow> ('c, 'm) asynq_server \<Rightarrow> ('c, 'm) asynq_server" where
  "as_ensure_keepalive kenv s =
     (if sl_enableKeepalive (as_ka s) \<and> sl_keepaliveServer (as_ka s) = None
      then s\<lparr>as_ka := slot_new kenv KindAsynq (as_ka s)\<rparr> else s)"

definition as_init :: "'c sched_lib \<Rightarrow> as_env \<Rightarrow> ka_env \<Rightarrow> ('c, 'm) as_option list \<Rightarrow> ('c, 'm) asynq_server \<Rightarrow> error + ('c, 'm) asynq_server" where
  "as_init L E kenv opts s =
     (case apply_options opts s of
        Inl e \<Rightarrow> Inl e
      | Inr s1 \<Rightarrow>
          let s2 = s1\<lparr>as_redisConnOpt := init_conn s1 (as_redisConnOpt s1)\<rparr>;
              s3 = keep_err (createAsynqServer E s2);
              s4 = keep_err (createAsynqClient E s3);
              s5 = keep_err (createAsynqScheduler L s4);
              s6 = keep_err (createAsynqInspector E s5)
          in Inr (as_ensure_keepalive kenv s6))"

definition as_blank :: "codec option \<Rightarrow> 'm \<Rightarrow> ('c, 'm) asynq_server" where
  "as_blank json mux =
     \<lparr>as_started = False, as_state = stateStopped, as_err = None, as_server = None, as_client = False, as_scheduler = None,
      as_inspector = False, as_serverEnabled = True, as_clientEnabled = True, as_schedulerEnabled = True, as_mux = mux,
      as_redisConnOpt = newRedisClientOpt, as_concurrency = 20, as_queues = None, as_addresses = [], as_username = None,
      as_password = None, as_db = None, as_poolSize = None, as_dialTimeout = None, as_readTimeout = None, as_writeTimeout = None,
      as_tlsConfig = None, as_maxRedirects = None, as_masterName = None, as_sentinelUsername = None, as_sentinelPassword = None,
      as_network = None, as_gracefullyShutdown = False, as_codec = json, as_entryIDs = [], as_typeNameMap = [], as_ka = no_slot True\<rparr>"

definition as_NewServer :: "'c sched_lib \<Rightarrow> as_env \<Rightarrow> ka_env \<Rightarrow> codec option \<Rightarrow> 'm \<Rightarrow> ('c, 'm) as_option list \<Rightarrow> error + ('c, 'm) asynq_server" where
  "as_NewServer L E kenv json mux opts = as_init L E kenv opts (as_blank json mux)"

section \<open>Handlers and tasks\<close>

definition TaskTypeExists :: "('c, 'm) asynq_server \<Rightarrow> string \<Rightarrow> bool" where
  "TaskTypeExists s taskType = (map_of (as_typeNameMap s) taskType \<noteq> None)"

definition GetRegisteredTaskTypes :: "('c, 'm) asynq_server \<Rightarrow> string list" where
  "GetRegisteredTaskTypes s = map fst (as_typeNameMap s)"

definition handleFunc :: "('m, 'w) mux_lib \<Rightarrow> string \<Rightarrow> 'w task_handler \<Rightarrow> ('c, 'm) asynq_server \<Rightarrow> error option \<times> ('c, 'm) asynq_server" where
  "handleFunc M pattern h s =
     (if as_started s then (Some (ErrNew ''cannot handle func, server already started''), s)
      else (case ml_HandleFunc M pattern h (as_mux s) of
              Inl e \<Rightarrow> (Some e, s)
            | Inr m \<Rightarrow> (None, s\<lparr>as_mux := m\<rparr>)))"

text \<open>The closure that \<open>RegisterSubscriberWithCtx\<close> gives to the mux; \<open>RegisterSubscriber\<close> ignores the context.\<close>

definition task_closure ::
    "codec \<Rightarrow> codec option \<Rightarrow> (ctx \<Rightarrow> string \<Rightarrow> dyn \<Rightarrow> 'w \<Rightarrow> error option \<times> 'w) \<Rightarrow> (unit \<Rightarrow> dyn) option \<Rightarrow> 'w task_handler" where
  "task_closure gob cod handler creator = (\<lambda>c task w.
     case creator of
       None \<Rightarrow> handler c (tk_Type task) (DBytes (tk_Payload task)) w
     | Some create \<Rightarrow>
         (case Unmarshal gob cod (tk_Payload task) (DPtr (TNamed ''asynq.MessagePayload'') (Some (create ()))) of
            Inl e \<Rightarrow> (Some e, w)
          | Inr out \<Rightarrow> handler c (tk_Type task) (case out of DPtr t (Some v) \<Rightarrow> v | _ \<Rightarrow> DNil) w))"

definition RegisterSubscriberWithCtx ::
    "('m, 'w) mux_lib \<Rightarrow> codec \<Rightarrow> string \<Rightarrow> (ctx \<Rightarrow> string \<Rightarrow> dyn \<Rightarrow> 'w \<Rightarrow> error option \<times> 'w) \<Rightarrow> (unit \<Rightarrow> dyn) option \<Rightarrow>
     ('c, 'm) asynq_server \<Rightarrow> error option \<times> ('c, 'm) asynq_server" where
  "RegisterSubscriberWithCtx M gob taskType handler creator s =
     (case handleFunc M taskType (task_closure gob (as_codec s) handler creator) s of
        (Some e, s1) \<Rightarrow> (Some e, s1)
      | (None, s1) \<Rightarrow> (None, s1\<lparr>as_typeNameMap := gomap_put taskType True (as_typeNameMap s1)\<rparr>))"

definition as_RegisterSubscriber ::
    "('m, 'w) mux_lib \<Rightarrow> codec \<Rightarrow> string \<Rightarrow> (string \<Rightarrow> dyn \<Rightarrow> 'w \<Rightarrow> error option \<times> 'w) \<Rightarrow> (unit \<Rightarrow> dyn) option \<Rightarrow>
     ('c, 'm) asynq_server \<Rightarrow> error option \<times> ('c, 'm) asynq_server" where
  "as_RegisterSubscriber M gob taskType handler creator s =
     RegisterSubscriberWithCtx M gob taskType (\<lambda>c. handler) creator s"

text \<open>The closure and the creator of the typed \<open>RegisterSubscriber[T]\<close>.\<close>

definition typed_task_handler :: "gotype \<Rightarrow> (string \<Rightarrow> dyn option \<Rightarrow> 'w \<Rightarrow> error option \<times> 'w) \<Rightarrow> string \<Rightarrow> dyn \<Rightarrow> 'w \<Rightarrow> error option \<times> 'w" where
  "typed_task_handler t handler taskType payload w =
     (case payload of
        DPtr t' p \<Rightarrow> if t' = t then handler taskType p w else (Some (ErrNew ''invalid payload struct type''), w)
      | _ \<Rightarrow> (Some (ErrNew ''invalid payload struct type''), w))"

definition as_RegisterSubscriber_typed ::
    "('m, 'w) mux_lib \<Rightarrow> codec \<Rightarrow> gotype \<Rightarrow> dyn \<Rightarrow> string \<Rightarrow> (string \<Rightarrow> dyn option \<Rightarrow> 'w \<Rightarrow> error option \<times> 'w) \<Rightarrow>
     ('c, 'm) asynq_server \<Rightarrow> error option \<times> ('c, 'm) asynq_server" where
  "as_RegisterSubscriber_typed M gob t zero taskType handler s =
     as_RegisterSubscriber M gob taskType (typed_task_handler t handler) (Some (\<lambda>u. DPtr t (Some zero))) s"

definition as_RegisterSubscriberWithCtx_typed ::
    "('m, 'w) mux_lib \<Rightarrow> codec \<Rightarrow> gotype \<Rightarrow> dyn \<Rightarrow> string \<Rightarrow> (ctx \<Rightarrow> string \<Rightarrow> dyn option \<Rightarrow> 'w \<Rightarrow> error option \<times> 'w) \<Rightarrow>
     ('c, 'm) asynq_server \<Rightarrow> error option \<times> ('c, 'm) asynq_server" where
  "as_RegisterSubscriberWithCtx_typed M gob t zero taskType handler s =
     RegisterSubscriberWithCtx M gob taskType (\<lambda>c. typed_task_handler t (handler c)) (Some (\<lambda>u. DPtr t (Some zero))) s"

text \<open>\<open>enqueue\<close> is the client's \<open>Enqueue\<close>; a nil client is dereferenced.\<close>

definition NewTask ::
    "as_env \<Rightarrow> codec \<Rightarrow> (task_msg \<Rightarrow> 'q \<Rightarrow> error option \<times> 'q) \<Rightarrow> string \<Rightarrow> dyn \<Rightarrow> ('c, 'm) asynq_server \<Rightarrow> 'q \<Rightarrow>
     error option \<times> ('c, 'm) asynq_server \<times> 'q" where
  "NewTask E gob enqueue typeName msg s q =
     (if typeName = '''' then (Some (ErrNew ''typeName cannot be empty''), s, q)
      else
        (case (if as_client s then (None, s) else createAsynqClient E s) of
           (Some e, s1) \<Rightarrow> (Some e, s1, q)
         | (None, s1) \<Rightarrow>
             (case Marshal gob (as_codec s1) msg of
                Inl e \<Rightarrow> (Some e, s1, q)
              | Inr payload \<Rightarrow>
                  if \<not> as_client s1 then (Some (GoPanic ''nil pointer dereference''), s1, q)
                  else (case enqueue \<lparr>tk_Type = typeName, tk_Payload = payload\<rparr> q of (e, q1) \<Rightarrow> (e, s1, q1)))))"

section \<open>Waiting for a result\<close>

datatype task_state = TaskStateCompleted | TaskStateArchived | TaskStateOther string

text \<open>
  \<open>poll n\<close> is the answer of the inspector to the \<open>n\<close>-th question, an error with whether it is \<open>ErrTaskNotFound\<close>, \<open>now n\<close> the clock (in
  seconds) after it. The first argument is fuel.
\<close>

fun waitResult :: "nat \<Rightarrow> (nat \<Rightarrow> (bool \<times> error) + task_state) \<Rightarrow> (nat \<Rightarrow> int) \<Rightarrow> int \<Rightarrow> nat \<Rightarrow> (error option) option" where
  "waitResult 0 poll now deadline n = None"
| "waitResult (Suc k) poll now deadline n =
     (case poll n of
        Inl (notFound, e) \<Rightarrow> if notFound then Some None else Some (Some e)
      | Inr TaskStateCompleted \<Rightarrow> Some None
      | Inr TaskStateArchived \<Rightarrow> Some (Some (ErrNew ''task state is archived''))
      | Inr (TaskStateOther st) \<Rightarrow>
          if now n > deadline then Some (Some (ErrNew (''wait result timed out after 5m0s (task state: '' @ st @ '')'')))
          else waitResult k poll now deadline (Suc n))"

text \<open>
  \<open>NewWaitResultTask\<close>: \<open>NewTask\<close>, then the inspector is asked until the task ends. The deadline is five minutes after the first
  reading of the clock; 302 questions are enough (\<open>asynq_wait_terminates\<close>). \<open>None\<close> is a call that has not returned.
\<close>

definition NewWaitResultTask ::
    "as_env \<Rightarrow> codec \<Rightarrow> (task_msg \<Rightarrow> 'q \<Rightarrow> error option \<times> 'q) \<Rightarrow> (nat \<Rightarrow> (bool \<times> error) + task_state) \<Rightarrow> (nat \<Rightarrow> int) \<Rightarrow> string \<Rightarrow> dyn \<Rightarrow>
     ('c, 'm) asynq_server \<Rightarrow> 'q \<Rightarrow> (error option \<times> ('c, 'm) asynq_server \<times> 'q) option" where
  "NewWaitResultTask E gob enqueue poll now typeName msg s q =
     (case NewTask E gob enqueue typeName msg s q of
        (Some e, s1, q1) \<Rightarrow> Some (Some e, s1, q1)
      | (None, s1, q1) \<Rightarrow>
          (case (if as_inspector s1 then (None, s1) else createAsynqInspector E s1) of
             (Some e, s2) \<Rightarrow> Some (Some e, s2, q1)
           | (None, s2) \<Rightarrow>
               (case waitResult 302 poll now (now 0 + 300) 0 of
                  None \<Rightarrow> None
                | Some e \<Rightarrow> Some (e, s2, q1))))"

section \<open>Periodic tasks\<close>

definition addPeriodicTaskEntryID :: "string \<Rightarrow> string \<Rightarrow> ('c, 'm) asynq_server \<Rightarrow> ('c, 'm) asynq_server" where
  "addPeriodicTaskEntryID taskId entryId s = s\<lparr>as_entryIDs := gomap_put taskId entryId (as_entryIDs s)\<rparr>"

definition removePeriodicTaskEntryID :: "string \<Rightarrow> ('c, 'm) asynq_server \<Rightarrow> ('c, 'm) asynq_server" where
  "removePeriodicTaskEntryID taskId s = s\<lparr>as_entryIDs := gomap_delete taskId (as_entryIDs s)\<rparr>"

definition removePeriodicTaskEntryIDByEntryID :: "string \<Rightarrow> ('c, 'm) asynq_server \<Rightarrow> ('c, 'm) asynq_server" where
  "removePeriodicTaskEntryIDByEntryID entryId s =
     s\<lparr>as_entryIDs := fold (\<lambda>(taskId, i) m. if i = entryId then gomap_delete taskId m else m) (as_entryIDs s) (as_entryIDs s)\<rparr>"

definition QueryPeriodicTaskEntryID :: "('c, 'm) asynq_server \<Rightarrow> string \<Rightarrow> string" where
  "QueryPeriodicTaskEntryID s taskId = (case map_of (as_entryIDs s) taskId of None \<Rightarrow> '''' | Some i \<Rightarrow> i)"

definition NewPeriodicTask ::
    "'c sched_lib \<Rightarrow> codec \<Rightarrow> string \<Rightarrow> string \<Rightarrow> dyn \<Rightarrow> ('c, 'm) asynq_server \<Rightarrow> (error + string) \<times> ('c, 'm) asynq_server" where
  "NewPeriodicTask L gob cronSpec typeName msg s =
     (if cronSpec = '''' then (Inl (ErrNew ''cronSpec cannot be empty''), s)
      else if typeName = '''' then (Inl (ErrNew ''typeName cannot be empty''), s)
      else
        (case (if as_scheduler s = None
               then (case createAsynqScheduler L s of (Some e, s1) \<Rightarrow> (Some e, s1) | (None, s1) \<Rightarrow> runAsynqScheduler L s1)
               else (None, s)) of
           (Some e, s1) \<Rightarrow> (Inl e, s1)
         | (None, s1) \<Rightarrow>
             (case Marshal gob (as_codec s1) msg of
                Inl e \<Rightarrow> (Inl e, s1)
              | Inr payload \<Rightarrow>
                  (case as_scheduler s1 of
                     None \<Rightarrow> (Inl (GoPanic ''nil pointer dereference''), s1)
                   | Some c \<Rightarrow>
                       (case al_Register L cronSpec \<lparr>tk_Type = typeName, tk_Payload = payload\<rparr> c of
                          (Inl e, c') \<Rightarrow> (Inl e, s1\<lparr>as_scheduler := Some c'\<rparr>)
                        | (Inr entryID, c') \<Rightarrow> (Inr entryID, addPeriodicTaskEntryID typeName entryID (s1\<lparr>as_scheduler := Some c'\<rparr>)))))))"

definition unregisterPeriodicTask :: "'c sched_lib \<Rightarrow> string \<Rightarrow> ('c, 'm) asynq_server \<Rightarrow> error option \<times> ('c, 'm) asynq_server" where
  "unregisterPeriodicTask L entryId s =
     (case as_scheduler s of
        None \<Rightarrow> (None, s)
      | Some c \<Rightarrow> (let (e, c') = al_Unregister L entryId c in (e, s\<lparr>as_scheduler := Some c'\<rparr>)))"

definition RemovePeriodicTask :: "'c sched_lib \<Rightarrow> string \<Rightarrow> ('c, 'm) asynq_server \<Rightarrow> error option \<times> ('c, 'm) asynq_server" where
  "RemovePeriodicTask L taskId s =
     (let entryId = QueryPeriodicTaskEntryID s taskId
      in if entryId = '''' then (Some (ErrNew (''['' @ taskId @ ''] periodic task not exist'')), s)
         else (case unregisterPeriodicTask L entryId s of
                 (Some e, s1) \<Rightarrow> (Some e, s1)
               | (None, s1) \<Rightarrow> (None, removePeriodicTaskEntryID taskId s1)))"

definition RemovePeriodicTaskByID :: "'c sched_lib \<Rightarrow> string \<Rightarrow> ('c, 'm) asynq_server \<Rightarrow> error option \<times> ('c, 'm) asynq_server" where
  "RemovePeriodicTaskByID L entryId s =
     (if entryId = '''' then (Some (ErrNew ''entryId cannot be empty''), s)
      else (case unregisterPeriodicTask L entryId s of
              (Some e, s1) \<Rightarrow> (Some e, s1)
            | (None, s1) \<Rightarrow> (None, removePeriodicTaskEntryIDByEntryID entryId s1)))"

definition RemoveAllPeriodicTask :: "'c sched_lib \<Rightarrow> ('c, 'm) asynq_server \<Rightarrow> ('c, 'm) asynq_server" where
  "RemoveAllPeriodicTask L s =
     fold (\<lambda>(t, v) s. snd (unregisterPeriodicTask L v s)) (as_entryIDs s) (s\<lparr>as_entryIDs := []\<rparr>)"

section \<open>Life cycle\<close>

definition as_Start :: "'c sched_lib \<Rightarrow> as_env \<Rightarrow> ka_env \<Rightarrow> ('c, 'm) asynq_server \<Rightarrow> error option \<times> ('c, 'm) asynq_server" where
  "as_Start L E kenv s =
     (if as_err s \<noteq> None then (as_err s, s)
      else if as_state s = stateRunning \<or> as_state s = stateStarting then (None, s)
      else if as_state s = stateStopping then (Some (ErrNew ''server is stopping''), s)
      else
        (case createAsynqServer E (s\<lparr>as_state := stateStarting\<rparr>) of
           (Some e, s1) \<Rightarrow> (Some e, s1\<lparr>as_err := Some e, as_state := stateStopped\<rparr>)
         | (None, s1) \<Rightarrow>
             (case createAsynqScheduler L s1 of
                (Some e, s2) \<Rightarrow> (Some e, s2\<lparr>as_err := Some e, as_state := stateStopped\<rparr>)
              | (None, s2) \<Rightarrow>
                  let s3 = as_ensure_keepalive kenv s2;
                      s4 = s3\<lparr>as_ka := slot_launch (as_ka s3)\<rparr>
                  in (case runAsynqScheduler L s4 of
                        (Some e, s5) \<Rightarrow> (Some e, s5\<lparr>as_err := Some e, as_state := stateStopped\<rparr>)
                      | (None, s5) \<Rightarrow>
                          (case runAsynqServer (s5\<lparr>as_err := None\<rparr>) of
                             (Some e, s6) \<Rightarrow> (Some e, s6\<lparr>as_err := Some e, as_state := stateStopped\<rparr>)
                           | (None, s6) \<Rightarrow> (None, s6\<lparr>as_err := None, as_state := stateRunning, as_started := True\<rparr>))))))"

text \<open>The keepalive server's \<open>Stop\<close> never fails; the way the library's server is shut down makes no difference to the state.\<close>

definition as_Stop :: "'c sched_lib \<Rightarrow> as_env \<Rightarrow> ('c, 'm) asynq_server \<Rightarrow> error option \<times> ('c, 'm) asynq_server" where
  "as_Stop L E s =
     (if as_state s = stateStopped \<or> as_state s = stateStopping then (None, s)
      else
        let s1 = s\<lparr>as_state := stateStopping, as_ka := slot_stop (as_ka s)\<rparr>;
            s2 = RemoveAllPeriodicTask L s1;
            s3 = s2\<lparr>as_scheduler := None, as_server := None\<rparr>;
            e1 = (if as_client s then ae_client_Close E else None);
            e2 = (if as_inspector s then ae_inspector_Close E else None)
        in (if e1 \<noteq> None then e1 else e2,
            s3\<lparr>as_client := False, as_inspector := False, as_started := False, as_state := stateStopped\<rparr>))"

definition as_Endpoint :: "ka_env \<Rightarrow> ('c, 'm) asynq_server \<Rightarrow> (error + url option) \<times> ('c, 'm) asynq_server" where
  "as_Endpoint kenv s =
     (if \<not> sl_enableKeepalive (as_ka s) then (Inr (Some \<lparr>u_Scheme = '''', u_Host = ''''\<rparr>), s)
      else (let (r, k) = slot_Endpoint kenv ''asynq server keepalive instance is nil'' (as_ka s) in (r, s\<lparr>as_ka := k\<rparr>)))"

section \<open>Every history of calls\<close>

datatype 'w as_call =
    CStart
  | CStop
  | CNewPeriodic string string dyn
  | CRemove string
  | CRemoveByID string
  | CRemoveAll
  | CNewTask string dyn
  | CRegister string "'w task_handler"

fun as_apply :: "'c sched_lib \<Rightarrow> ('m, 'w) mux_lib \<Rightarrow> as_env \<Rightarrow> ka_env \<Rightarrow> codec \<Rightarrow> 'w as_call \<Rightarrow> ('c, 'm) asynq_server \<Rightarrow> ('c, 'm) asynq_server" where
  "as_apply L M E kenv gob CStart s = snd (as_Start L E kenv s)"
| "as_apply L M E kenv gob CStop s = snd (as_Stop L E s)"
| "as_apply L M E kenv gob (CNewPeriodic spec t msg) s = snd (NewPeriodicTask L gob spec t msg s)"
| "as_apply L M E kenv gob (CRemove t) s = snd (RemovePeriodicTask L t s)"
| "as_apply L M E kenv gob (CRemoveByID i) s = snd (RemovePeriodicTaskByID L i s)"
| "as_apply L M E kenv gob CRemoveAll s = RemoveAllPeriodicTask L s"
| "as_apply L M E kenv gob (CNewTask t msg) s = fst (snd (NewTask E gob (\<lambda>task q. (None, q)) t msg s ()))"
| "as_apply L M E kenv gob (CRegister t h) s = snd (handleFunc M t h s)"

text \<open>The table of periodic tasks against the scheduler, and the states that are visible between two calls.\<close>

definition sched_entries :: "'c sched_lib \<Rightarrow> 'c option \<Rightarrow> string set" where
  "sched_entries L sch = (case sch of None \<Rightarrow> {} | Some c \<Rightarrow> al_entries L c)"

definition table_inv :: "'c sched_lib \<Rightarrow> (string, string) gomap \<Rightarrow> 'c option \<Rightarrow> bool" where
  "table_inv L ids sch \<longleftrightarrow>
     gomap_wf ids \<and> distinct (map snd ids) \<and> snd ` set ids \<subseteq> sched_entries L sch"

definition run_inv :: "'c sched_lib \<Rightarrow> lifecycleState \<Rightarrow> bool \<Rightarrow> bool option \<Rightarrow> 'c option \<Rightarrow> bool" where
  "run_inv L st started srv sch \<longleftrightarrow>
     (st = stateStopped \<and> \<not> started \<or>
      st = stateRunning \<and> started \<and> srv = Some True \<and> (case sch of None \<Rightarrow> False | Some c \<Rightarrow> al_running L c))"

definition as_inv :: "'c sched_lib \<Rightarrow> ('c, 'm) asynq_server \<Rightarrow> bool" where
  "as_inv L s \<longleftrightarrow> table_inv L (as_entryIDs s) (as_scheduler s) \<and> run_inv L (as_state s) (as_started s) (as_server s) (as_scheduler s)"

section \<open>Lemmas\<close>

lemma create_fields [simp]:
  "as_entryIDs (snd (createAsynqServer E s)) = as_entryIDs s" "as_scheduler (snd (createAsynqServer E s)) = as_scheduler s"
  "as_started (snd (createAsynqServer E s)) = as_started s" "as_state (snd (createAsynqServer E s)) = as_state s"
  "as_entryIDs (snd (createAsynqClient E s)) = as_entryIDs s" "as_scheduler (snd (createAsynqClient E s)) = as_scheduler s"
  "as_started (snd (createAsynqClient E s)) = as_started s" "as_state (snd (createAsynqClient E s)) = as_state s"
  "as_server (snd (createAsynqClient E s)) = as_server s"
  "as_entryIDs (snd (createAsynqScheduler L s)) = as_entryIDs s"
  "as_started (snd (createAsynqScheduler L s)) = as_started s" "as_state (snd (createAsynqScheduler L s)) = as_state s"
  "as_entryIDs (snd (runAsynqScheduler L s)) = as_entryIDs s"
  "as_started (snd (runAsynqScheduler L s)) = as_started s" "as_state (snd (runAsynqScheduler L s)) = as_state s"
  "as_entryIDs (snd (runAsynqServer s)) = as_entryIDs s" "as_scheduler (snd (runAsynqServer s)) = as_scheduler s"
  "as_started (snd (runAsynqServer s)) = as_started s"
  "as_entryIDs (as_ensure_keepalive kenv s) = as_entryIDs s" "as_scheduler (as_ensure_keepalive kenv s) = as_scheduler s"
  "as_started (as_ensure_keepalive kenv s) = as_started s" "as_state (as_ensure_keepalive kenv s) = as_state s"
  "as_server (as_ensure_keepalive kenv s) = as_server s"
  by (simp_all add: createAsynqServer_def createAsynqClient_def createAsynqScheduler_def runAsynqScheduler_def runAsynqServer_def
      as_ensure_keepalive_def split: option.split prod.split)

lemma create_table: "table_inv L ids (as_scheduler s) \<Longrightarrow> table_inv L ids (as_scheduler (snd (createAsynqScheduler L s)))"
  by (auto simp: createAsynqScheduler_def table_inv_def sched_entries_def split: option.splits)

lemma run_table: "\<lbrakk>sched_ok L; table_inv L ids (as_scheduler s)\<rbrakk> \<Longrightarrow> table_inv L ids (as_scheduler (snd (runAsynqScheduler L s)))"
  by (auto simp: runAsynqScheduler_def table_inv_def sched_entries_def sched_ok_def split: option.splits prod.splits)

lemma run_running:
  "\<lbrakk>sched_ok L; runAsynqScheduler L s = (None, s')\<rbrakk> \<Longrightarrow> \<exists>c. as_scheduler s' = Some c \<and> al_running L c"
  by (auto simp: runAsynqScheduler_def sched_ok_def split: option.splits prod.splits)

lemma server_running: "runAsynqServer s = (None, s') \<Longrightarrow> as_server s' = Some True"
  by (auto simp: runAsynqServer_def split: option.splits if_splits)

lemma as_inv_Start:
  assumes L: "sched_ok L" and inv: "as_inv L s"
  shows "as_inv L (snd (as_Start L E kenv s))"
proof (cases "as_err s \<noteq> None \<or> as_state s \<noteq> stateStopped")
  case True
  then show ?thesis using inv by (auto simp: as_Start_def as_inv_def run_inv_def)
next
  case False
  obtain e1 s1 where s1: "createAsynqServer E (s\<lparr>as_state := stateStarting\<rparr>) = (e1, s1)" by force
  obtain e2 s2 where s2: "createAsynqScheduler L s1 = (e2, s2)" by force
  define s4 where "s4 = (let s3 = as_ensure_keepalive kenv s2 in s3\<lparr>as_ka := slot_launch (as_ka s3)\<rparr>)"
  obtain e5 s5 where s5: "runAsynqScheduler L s4 = (e5, s5)" by force
  obtain e6 s6 where s6: "runAsynqServer (s5\<lparr>as_err := None\<rparr>) = (e6, s6)" by force
  have st: "\<not> as_started s" "table_inv L (as_entryIDs s) (as_scheduler s)" using inv False by (auto simp: as_inv_def run_inv_def)
  have t1: "table_inv L (as_entryIDs s1) (as_scheduler s1)" "\<not> as_started s1"
    using st create_fields(1-3) [of E "s\<lparr>as_state := stateStarting\<rparr>"] s1 by simp_all
  have t2: "table_inv L (as_entryIDs s2) (as_scheduler s2)" "\<not> as_started s2"
    using t1 create_table [of L "as_entryIDs s1" s1] create_fields(10,11) [of L s1] s2 by simp_all
  then have t4: "table_inv L (as_entryIDs s4) (as_scheduler s4)" "\<not> as_started s4" by (simp_all add: s4_def Let_def)
  have t5: "table_inv L (as_entryIDs s5) (as_scheduler s5)" "\<not> as_started s5"
    using t4 run_table [OF L t4(1)] create_fields(13,14) [of L s4] s5 by simp_all
  have t6: "table_inv L (as_entryIDs s6) (as_scheduler s6)" "\<not> as_started s6" "as_scheduler s6 = as_scheduler s5"
    using t5 create_fields(16,17,18) [of "s5\<lparr>as_err := None\<rparr>"] s6 by simp_all
  have eq: "as_Start L E kenv s =
     (case e1 of Some e \<Rightarrow> (Some e, s1\<lparr>as_err := Some e, as_state := stateStopped\<rparr>)
      | None \<Rightarrow> (case e2 of Some e \<Rightarrow> (Some e, s2\<lparr>as_err := Some e, as_state := stateStopped\<rparr>)
      | None \<Rightarrow> (case e5 of Some e \<Rightarrow> (Some e, s5\<lparr>as_err := Some e, as_state := stateStopped\<rparr>)
      | None \<Rightarrow> (case e6 of Some e \<Rightarrow> (Some e, s6\<lparr>as_err := Some e, as_state := stateStopped\<rparr>)
      | None \<Rightarrow> (None, s6\<lparr>as_err := None, as_state := stateRunning, as_started := True\<rparr>)))))"
    using False s1 s2 s5 s6 by (simp add: as_Start_def s4_def Let_def split: option.split)
  consider e where "e1 = Some e" | e where "e1 = None" "e2 = Some e" | e where "e1 = None" "e2 = None" "e5 = Some e"
    | e where "e1 = None" "e2 = None" "e5 = None" "e6 = Some e" | "e1 = None" "e2 = None" "e5 = None" "e6 = None"
    by (cases e1; cases e2; cases e5; cases e6) auto
  then show ?thesis
  proof cases
    case 5
    then have "as_server s6 = Some True" "\<exists>c. as_scheduler s5 = Some c \<and> al_running L c"
      using server_running s6 run_running [OF L] s5 by auto
    then show ?thesis using 5 t6 by (auto simp: eq as_inv_def run_inv_def)
  qed (use t1 t2 t5 t6 in \<open>auto simp: eq as_inv_def run_inv_def\<close>)
qed

lemma unregister_fields:
  assumes "sched_ok L" "unregisterPeriodicTask L i s = (e, s')"
  shows "as_entryIDs s' = as_entryIDs s" "as_state s' = as_state s" "as_started s' = as_started s" "as_server s' = as_server s"
    "run_inv L st b srv (as_scheduler s') = run_inv L st b srv (as_scheduler s)"
    "sched_entries L (as_scheduler s') = sched_entries L (as_scheduler s) - (if e = None then {i} else {})"
  using assms by (auto simp: unregisterPeriodicTask_def run_inv_def sched_entries_def sched_ok_def split: option.splits prod.splits)

lemma gomap_delete_subset: "set (gomap_delete k m) \<subseteq> set m"
  by (auto simp: gomap_delete_def AList.delete_eq)

lemma distinct_snd_delete: "distinct (map snd m) \<Longrightarrow> distinct (map snd (gomap_delete k m))"
  by (simp add: gomap_delete_def AList.delete_eq distinct_map_filter)

lemma delete_value:
  assumes "gomap_wf m" "distinct (map snd m)" "map_of m k = Some v"
  shows "v \<notin> snd ` set (gomap_delete k m)"
proof
  assume "v \<in> snd ` set (gomap_delete k m)"
  then obtain k' where k': "(k', v) \<in> set m" "k' \<noteq> k" by (auto simp: gomap_delete_def AList.delete_eq)
  moreover have "(k, v) \<in> set m" using assms(3) by (rule map_of_SomeD)
  ultimately show False using assms(2) inj_onD [of snd "set m" "(k', v)" "(k, v)"] by (simp add: distinct_map)
qed

lemma delete_by_value:
  "set (fold (\<lambda>(t, i) m. if i = v then gomap_delete t m else m) l m) = set m - {(t, w). \<exists>x\<in>set l. snd x = v \<and> fst x = t}"
  "gomap_wf m \<Longrightarrow> gomap_wf (fold (\<lambda>(t, i) m. if i = v then gomap_delete t m else m) l m)"
  "distinct (map snd m) \<Longrightarrow> distinct (map snd (fold (\<lambda>(t, i) m. if i = v then gomap_delete t m else m) l m))"
proof (induction l arbitrary: m)
  case (Cons x l)
  {
    case 1
    show ?case using Cons.IH(1) by (cases x) (auto simp: gomap_delete_def AList.delete_eq)
  next
    case 2
    then show ?case using Cons.IH(2) by (cases x) auto
  next
    case 3
    then show ?case using Cons.IH(3) by (cases x) (auto simp: distinct_snd_delete)
  }
qed auto

lemma as_inv_unregister:
  assumes L: "sched_ok L" and inv: "as_inv L s" and u: "unregisterPeriodicTask L i s = (None, s')"
    and ids: "gomap_wf ids" "distinct (map snd ids)" "set ids \<subseteq> set (as_entryIDs s)" "i \<notin> snd ` set ids"
  shows "as_inv L (s'\<lparr>as_entryIDs := ids\<rparr>)"
proof -
  note f = unregister_fields [OF L u]
  have "snd ` set ids \<subseteq> snd ` set (as_entryIDs s)" using ids(3) by blast
  also have "\<dots> \<subseteq> sched_entries L (as_scheduler s)" using inv by (simp add: as_inv_def table_inv_def)
  finally have "snd ` set ids \<subseteq> sched_entries L (as_scheduler s')" using ids(4) f(6) by (simp add: subset_Diff_insert)
  moreover have "run_inv L (as_state s') (as_started s') (as_server s') (as_scheduler s')"
    using inv f(2-5) by (simp add: as_inv_def)
  ultimately show ?thesis using ids(1,2) by (simp add: as_inv_def table_inv_def)
qed

lemma as_inv_failed:
  assumes L: "sched_ok L" and inv: "as_inv L s" and u: "unregisterPeriodicTask L i s = (Some e, s')"
  shows "as_inv L s'"
proof -
  note f = unregister_fields [OF L u]
  have "run_inv L (as_state s') (as_started s') (as_server s') (as_scheduler s')" using inv f(2-5) by (simp add: as_inv_def)
  then show ?thesis using inv f(1,6) by (simp add: as_inv_def table_inv_def)
qed

lemma as_inv_Remove:
  assumes L: "sched_ok L" and inv: "as_inv L s"
  shows "as_inv L (snd (RemovePeriodicTask L t s))"
proof -
  let ?i = "QueryPeriodicTaskEntryID s t"
  obtain e s1 where u: "unregisterPeriodicTask L ?i s = (e, s1)" by force
  note f = unregister_fields [OF L u]
  show ?thesis
  proof (cases "?i = '''' \<or> e \<noteq> None")
    case True
    then show ?thesis using inv as_inv_failed [OF L inv] u by (auto simp: RemovePeriodicTask_def Let_def)
  next
    case False
    then have m: "map_of (as_entryIDs s) t = Some ?i" by (auto simp: QueryPeriodicTaskEntryID_def split: option.splits)
    have t: "gomap_wf (as_entryIDs s)" "distinct (map snd (as_entryIDs s))" using inv by (auto simp: as_inv_def table_inv_def)
    have "as_inv L (s1\<lparr>as_entryIDs := gomap_delete t (as_entryIDs s)\<rparr>)"
      by (rule as_inv_unregister [OF L inv _ gomap_wf_delete [OF t(1)] distinct_snd_delete [OF t(2)] gomap_delete_subset delete_value [OF t m]])
        (use u False in simp)
    then show ?thesis using False u f(1) by (simp add: RemovePeriodicTask_def Let_def removePeriodicTaskEntryID_def)
  qed
qed

lemma as_inv_RemoveByID:
  assumes L: "sched_ok L" and inv: "as_inv L s"
  shows "as_inv L (snd (RemovePeriodicTaskByID L i s))"
proof -
  obtain e s1 where u: "unregisterPeriodicTask L i s = (e, s1)" by force
  note f = unregister_fields [OF L u]
  show ?thesis
  proof (cases "i = '''' \<or> e \<noteq> None")
    case True
    then show ?thesis using inv as_inv_failed [OF L inv] u by (auto simp: RemovePeriodicTaskByID_def)
  next
    case False
    let ?ids = "fold (\<lambda>(t, j) m. if j = i then gomap_delete t m else m) (as_entryIDs s) (as_entryIDs s)"
    have t: "gomap_wf (as_entryIDs s)" "distinct (map snd (as_entryIDs s))" using inv by (auto simp: as_inv_def table_inv_def)
    have ids: "gomap_wf ?ids" "distinct (map snd ?ids)" "set ?ids \<subseteq> set (as_entryIDs s)" "i \<notin> snd ` set ?ids"
      using delete_by_value(2) [OF t(1)] delete_by_value(3) [OF t(2)] delete_by_value(1) [of i "as_entryIDs s" "as_entryIDs s"] by auto
    have "as_inv L (s1\<lparr>as_entryIDs := ?ids\<rparr>)" by (rule as_inv_unregister [OF L inv _ ids]) (use u False in simp)
    then show ?thesis using False u f(1) by (simp add: RemovePeriodicTaskByID_def removePeriodicTaskEntryIDByEntryID_def)
  qed
qed

lemma RemoveAll_fields:
  assumes L: "sched_ok L"
  shows "as_entryIDs (RemoveAllPeriodicTask L s) = []" "as_state (RemoveAllPeriodicTask L s) = as_state s"
    "as_started (RemoveAllPeriodicTask L s) = as_started s" "as_server (RemoveAllPeriodicTask L s) = as_server s"
    "run_inv L st b srv (as_scheduler (RemoveAllPeriodicTask L s)) = run_inv L st b srv (as_scheduler s)"
proof -
  define l where "l = as_entryIDs s"
  have "as_entryIDs (fold (\<lambda>(t, v) s. snd (unregisterPeriodicTask L v s)) l r) = as_entryIDs r
      \<and> as_state (fold (\<lambda>(t, v) s. snd (unregisterPeriodicTask L v s)) l r) = as_state r
      \<and> as_started (fold (\<lambda>(t, v) s. snd (unregisterPeriodicTask L v s)) l r) = as_started r
      \<and> as_server (fold (\<lambda>(t, v) s. snd (unregisterPeriodicTask L v s)) l r) = as_server r
      \<and> run_inv L st b srv (as_scheduler (fold (\<lambda>(t, v) s. snd (unregisterPeriodicTask L v s)) l r)) = run_inv L st b srv (as_scheduler r)" for r
  proof (induction l arbitrary: r)
    case (Cons x l)
    obtain e r1 where u: "unregisterPeriodicTask L (snd x) r = (e, r1)" by force
    show ?case using Cons.IH [of r1] unregister_fields [OF L u] u by (cases x) simp
  qed simp
  from this [of "s\<lparr>as_entryIDs := []\<rparr>"] show "as_entryIDs (RemoveAllPeriodicTask L s) = []" "as_state (RemoveAllPeriodicTask L s) = as_state s"
    "as_started (RemoveAllPeriodicTask L s) = as_started s" "as_server (RemoveAllPeriodicTask L s) = as_server s"
    "run_inv L st b srv (as_scheduler (RemoveAllPeriodicTask L s)) = run_inv L st b srv (as_scheduler s)"
    by (simp_all add: RemoveAllPeriodicTask_def l_def)
qed

lemma as_inv_RemoveAll: "\<lbrakk>sched_ok L; as_inv L s\<rbrakk> \<Longrightarrow> as_inv L (RemoveAllPeriodicTask L s)"
  by (simp add: as_inv_def RemoveAll_fields table_inv_def)

lemma as_inv_Stop: "\<lbrakk>sched_ok L; as_inv L s\<rbrakk> \<Longrightarrow> as_inv L (snd (as_Stop L E s))"
  by (auto simp: as_Stop_def Let_def as_inv_def RemoveAll_fields table_inv_def run_inv_def)

lemma put_distinct:
  "\<lbrakk>i \<notin> snd ` set m; distinct (map snd m)\<rbrakk> \<Longrightarrow>
     distinct (map snd (gomap_put t i m)) \<and> snd ` set (gomap_put t i m) \<subseteq> insert i (snd ` set m)"
  unfolding gomap_put_def by (induction m) auto

lemma as_inv_NewPeriodic:
  assumes L: "sched_ok L" and inv: "as_inv L s"
  shows "as_inv L (snd (NewPeriodicTask L gob spec t msg s))"
proof -
  obtain e s1 where s1: "(if as_scheduler s = None
      then (case createAsynqScheduler L s of (Some e, s1) \<Rightarrow> (Some e, s1) | (None, s1) \<Rightarrow> runAsynqScheduler L s1) else (None, s)) = (e, s1)"
    by (rule prod.exhaust)
  have inv1: "as_inv L s1"
  proof (cases "as_scheduler s = None")
    case True
    then have st: "as_state s = stateStopped" "\<not> as_started s" using inv by (auto simp: as_inv_def run_inv_def)
    obtain e1 r where r: "createAsynqScheduler L s = (e1, r)" by force
    have tr: "table_inv L (as_entryIDs r) (as_scheduler r)" "as_state r = stateStopped" "\<not> as_started r"
      using create_table [of L "as_entryIDs s" s] create_fields(10-12) [of L s] r inv st by (simp_all add: as_inv_def)
    obtain e2 r2 where r2: "runAsynqScheduler L r = (e2, r2)" by force
    have "table_inv L (as_entryIDs r2) (as_scheduler r2)" "as_state r2 = stateStopped" "\<not> as_started r2"
      using run_table [OF L tr(1)] create_fields(13-15) [of L r] r2 tr by simp_all
    then have "as_inv L r2" "as_inv L r" using tr by (simp_all add: as_inv_def run_inv_def)
    moreover have "s1 = r \<or> s1 = r2" using s1 True r r2 by (cases e1) simp_all
    ultimately show ?thesis by blast
  next
    case False
    then have "s1 = s" using s1 by (cases "as_scheduler s") auto
    then show ?thesis using inv by simp
  qed
  have reg: "as_inv L (addPeriodicTaskEntryID t i (s1\<lparr>as_scheduler := Some c'\<rparr>))"
    if "as_scheduler s1 = Some c" "al_Register L spec k c = (Inr i, c')" for c k i c'
  proof -
    have c': "i \<notin> al_entries L c" "al_entries L c' = insert i (al_entries L c)" "al_running L c' = al_running L c"
      using L that(2) by (auto simp: sched_ok_def)
    let ?ids = "gomap_put t i (as_entryIDs s1)"
    have t: "gomap_wf (as_entryIDs s1)" "distinct (map snd (as_entryIDs s1))" "snd ` set (as_entryIDs s1) \<subseteq> al_entries L c"
      using inv1 that(1) by (auto simp: as_inv_def table_inv_def sched_entries_def)
    have "i \<notin> snd ` set (as_entryIDs s1)" using t(3) c'(1) by auto
    note d = put_distinct [OF this t(2), of t]
    have "snd ` set ?ids \<subseteq> al_entries L c'" using d t(3) c'(2) by blast
    then show ?thesis
      using inv1 that(1) c'(3) d gomap_wf_put [OF t(1), of t i]
      by (simp add: as_inv_def table_inv_def sched_entries_def run_inv_def addPeriodicTaskEntryID_def)
  qed
  have fail: "as_inv L (s1\<lparr>as_scheduler := Some c'\<rparr>)" if "as_scheduler s1 = Some c" "al_Register L spec k c = (Inl er, c')" for c k er c'
    using L that inv1 by (auto simp: sched_ok_def as_inv_def table_inv_def sched_entries_def run_inv_def)
  show ?thesis
  proof (cases "spec = '''' \<or> t = ''''")
    case True
    then show ?thesis using inv by (auto simp: NewPeriodicTask_def)
  next
    case False
    then show ?thesis
      unfolding NewPeriodicTask_def s1 using inv1 reg fail by (auto split: option.splits sum.splits prod.splits)
  qed
qed

lemma as_inv_apply:
  assumes L: "sched_ok L" and inv: "as_inv L s"
  shows "as_inv L (as_apply L M E kenv gob call s)"
proof (cases call)
  case (CNewTask t msg)
  obtain e s1 where s1: "(if as_client s then (None, s) else createAsynqClient E s) = (e, s1)" by (rule prod.exhaust)
  have "s1 = s \<or> s1 = snd (createAsynqClient E s)" using s1 by (auto split: if_splits)
  then have "as_inv L s1" using inv by (auto simp: as_inv_def)
  then show ?thesis
    unfolding CNewTask as_apply.simps NewTask_def s1 using inv by (auto split: option.splits sum.splits)
next
  case (CRegister t h)
  then show ?thesis using inv by (auto simp: handleFunc_def as_inv_def split: sum.splits)
qed (use assms in \<open>simp_all add: as_inv_Start as_inv_Stop as_inv_NewPeriodic as_inv_Remove as_inv_RemoveByID as_inv_RemoveAll\<close>)

lemma as_inv_keep [simp]: "as_inv L (keep_err r) = as_inv L (snd r)"
  by (cases r) (simp add: keep_err_def as_inv_def)

lemma as_inv_NewServer:
  fixes s0 :: "('c, 'm) asynq_server"
  assumes "as_NewServer L E kenv json mux [] = Inr s0"
  shows "as_inv L s0"
proof -
  define a :: "('c, 'm) asynq_server" where "a = as_blank json mux"
  define b where "b = a\<lparr>as_redisConnOpt := init_conn a (as_redisConnOpt a)\<rparr>"
  define s3 where "s3 = keep_err (createAsynqServer E b)"
  define s4 where "s4 = keep_err (createAsynqClient E s3)"
  define s5 where "s5 = keep_err (createAsynqScheduler L s4)"
  have st: "as_entryIDs b = []" "as_state b = stateStopped" "\<not> as_started b" by (simp_all add: b_def a_def as_blank_def)
  have k: "as_entryIDs (keep_err r) = as_entryIDs (snd r)" "as_state (keep_err r) = as_state (snd r)"
    "as_started (keep_err r) = as_started (snd r)" for r :: "error option \<times> ('c, 'm) asynq_server"
    by (cases r; simp add: keep_err_def)+
  have "as_entryIDs s5 = []" "as_state s5 = stateStopped" "\<not> as_started s5" using st by (simp_all add: s5_def s4_def s3_def k)
  then have "as_inv L (snd (createAsynqInspector E s5))"
    by (simp add: createAsynqInspector_def as_inv_def table_inv_def run_inv_def)
  then have "as_inv L (keep_err (createAsynqInspector E s5))" by simp
  moreover have "s0 = as_ensure_keepalive kenv (keep_err (createAsynqInspector E s5))"
    using assms by (auto simp: as_NewServer_def as_init_def Let_def s5_def s4_def s3_def b_def a_def)
  ultimately show ?thesis by (simp add: as_inv_def del: as_inv_keep)
qed

section \<open>Properties\<close>

text \<open>
  C19: after every history of calls of a task queue server the visible states are stopped and running (the mutex hides the other
  two), running means that the library's server and its scheduler run, and the table of periodic tasks is sound: each task
  type has at most one entry, no two share an ID, and every ID is an entry of the scheduler in use, so that no removal by
  type or by ID leaves a dangling entry.
\<close>

theorem asynq_table_and_state_are_sound:
  assumes "sched_ok L" and "as_NewServer L E kenv json mux [] = Inr s0"
  shows "let s = fold (as_apply L M E kenv gob) calls s0
         in gomap_wf (as_entryIDs s) \<and> distinct (map snd (as_entryIDs s)) \<and> snd ` set (as_entryIDs s) \<subseteq> sched_entries L (as_scheduler s)
          \<and> (as_state s = stateStopped \<and> \<not> as_started s \<or>
             as_state s = stateRunning \<and> as_started s \<and> as_server s = Some True \<and> (\<exists>c. as_scheduler s = Some c \<and> al_running L c))"
proof -
  have "as_inv L s0" by (rule as_inv_NewServer [OF assms(2)])
  then have "as_inv L (fold (as_apply L M E kenv gob) calls s0)"
    by (induction calls arbitrary: s0) (simp_all add: as_inv_apply [OF assms(1)])
  then show ?thesis by (auto simp: Let_def as_inv_def table_inv_def run_inv_def split: option.splits)
qed

text \<open>A scheduler as the library's documentation describes it: whether it runs, the entries, and the next ID.\<close>

definition demo_sched :: "(bool \<times> string set \<times> nat) sched_lib" where
  "demo_sched =
     \<lparr>al_New = Some (False, {}, 0),
      al_Start = (\<lambda>(r, es, n). if r then (Some (ErrNew ''asynq: the scheduler is already running''), (r, es, n)) else (None, (True, es, n))),
      al_Register = (\<lambda>spec t (r, es, n). if replicate n CHR ''x'' @ ''e'' \<in> es then (Inl (ErrNew ''id''), (r, es, n))
                       else (Inr (replicate n CHR ''x'' @ ''e''), (r, insert (replicate n CHR ''x'' @ ''e'') es, Suc n))),
      al_Unregister = (\<lambda>i (r, es, n). if i \<in> es then (None, (r, es - {i}, n)) else (Some (ErrNew ''not found''), (r, es, n))),
      al_running = fst, al_entries = (\<lambda>(r, es, n). es)\<rparr>"

lemma demo_sched_ok: "sched_ok demo_sched"
  by (auto simp: sched_ok_def demo_sched_def split: prod.splits if_splits)

definition demo_as_env :: as_env where
  "demo_as_env = \<lparr>ae_NewServer = True, ae_NewClient = True, ae_NewInspector = True, ae_client_Close = None, ae_inspector_Close = None\<rparr>"

definition demo_mux :: "((string, 'w task_handler) gomap, 'w) mux_lib" where
  "demo_mux = \<lparr>ml_HandleFunc = (\<lambda>p h m. if p \<in> fst ` set m then Inl (GoPanic ''multiple registrations'') else Inr (gomap_put p h m)),
     ml_match = map_of\<rparr>"

definition demo_gob :: codec where
  "demo_gob = \<lparr>c_Marshal = (\<lambda>d. Inl (ErrNew ''gob'')), c_Unmarshal = (\<lambda>b d. Inl (ErrNew ''gob''))\<rparr>"

theorem asynq_table_and_state_are_sound_witness:
  "\<exists>s0. as_NewServer demo_sched demo_as_env ka_test_env None [] [] = Inr s0
     \<and> distinct (map snd (as_entryIDs (fold (as_apply demo_sched demo_mux demo_as_env ka_test_env demo_gob)
          [CNewPeriodic ''@every 1s'' ''mail'' (DString ''x''), CStart, CRemove ''mail'', CRegister ''t'' (\<lambda>c k w. (None, w::nat)), CStop] s0)))"
proof -
  obtain s0 :: "(bool \<times> string set \<times> nat, (string, nat task_handler) gomap) asynq_server"
    where s0: "as_NewServer demo_sched demo_as_env ka_test_env None [] [] = Inr s0" by (simp add: as_NewServer_def as_init_def Let_def)
  then show ?thesis
    using asynq_table_and_state_are_sound [OF demo_sched_ok s0, of demo_mux demo_gob
        "[CNewPeriodic ''@every 1s'' ''mail'' (DString ''x''), CStart, CRemove ''mail'', CRegister ''t'' (\<lambda>c k w. (None, w::nat)), CStop]"]
    by (simp only: Let_def) blast
qed

text \<open>
  A task that is enqueued reaches the handler that was registered for its type, with the value that was enqueued:
  \<open>NewTask\<close> marshals it, and the closure of \<open>RegisterSubscriber[T]\<close> unmarshals it into a fresh value of its type. Both sides use the codec of
  the server; the codec must decode what it encoded, the mux must find a handler under the exact pattern, and the queue must
  keep the task.
\<close>

theorem asynq_task_roundtrip:
  assumes "as_RegisterSubscriber_typed M gob t zero taskType handler s = (None, s1)"
    and "\<And>h m m'. ml_HandleFunc M taskType h m = Inr m' \<Longrightarrow> ml_match M m' taskType = Some h"
    and "NewTask E gob (\<lambda>task q. (None, q @ [task])) taskType msg s1 [] = (None, s2, q)"
    and "as_codec s = Some c"
    and "\<And>b. c_Marshal c msg = Inr b \<Longrightarrow> \<exists>x. b = Some x \<and>
          c_Unmarshal c x (DPtr (TNamed ''asynq.MessagePayload'') (Some (DPtr t (Some zero)))) = Inr (DPtr (TNamed ''asynq.MessagePayload'') (Some (DPtr t (Some msg))))"
  shows "\<exists>h task. q = [task] \<and> ml_match M (as_mux s2) (tk_Type task) = Some h \<and> h ctx task w = handler taskType (Some msg) w"
proof -
  let ?h = "task_closure gob (as_codec s) (\<lambda>c. typed_task_handler t handler) (Some (\<lambda>u. DPtr t (Some zero)))"
  obtain m where m: "ml_HandleFunc M taskType ?h (as_mux s) = Inr m" and s1: "as_mux s1 = m" "as_codec s1 = as_codec s"
    using assms(1) by (auto simp: as_RegisterSubscriber_typed_def as_RegisterSubscriber_def RegisterSubscriberWithCtx_def handleFunc_def
        split: option.splits prod.splits sum.splits if_splits)
  obtain e r where r: "(if as_client s1 then (None, s1) else createAsynqClient E s1) = (e, r)" by (rule prod.exhaust)
  have "r = s1 \<or> r = snd (createAsynqClient E s1)" using r by (auto split: if_splits)
  then have r1: "as_mux r = m" "as_codec r = Some c" using s1 assms(4) by (auto simp: createAsynqClient_def)
  obtain b where b: "Marshal gob (Some c) msg = Inr b" "q = [\<lparr>tk_Type = taskType, tk_Payload = b\<rparr>]" "s2 = r"
    using assms(3) r1(2) unfolding NewTask_def r by (auto split: option.splits sum.splits if_splits)
  have "c_Marshal c msg = Inr b" using b(1) by (auto simp: Marshal_def split: if_splits)
  from assms(5) [OF this] obtain x where x: "b = Some x"
    "c_Unmarshal c x (DPtr (TNamed ''asynq.MessagePayload'') (Some (DPtr t (Some zero)))) = Inr (DPtr (TNamed ''asynq.MessagePayload'') (Some (DPtr t (Some msg))))"
    by blast
  have "?h ctx \<lparr>tk_Type = taskType, tk_Payload = b\<rparr> w = handler taskType (Some msg) w"
    using x assms(4) by (simp add: task_closure_def Unmarshal_def typed_task_handler_def)
  then show ?thesis using assms(2) [OF m] b(2,3) r1(1) by auto
qed

definition demo_codec :: codec where
  "demo_codec = \<lparr>c_Marshal = (\<lambda>d. case d of DString t \<Rightarrow> Inr (Some t) | _ \<Rightarrow> Inl (ErrNew ''codec'')),
     c_Unmarshal = (\<lambda>b d. Inr (DPtr (TNamed ''asynq.MessagePayload'') (Some (DPtr (TNamed ''string'') (Some (DString b))))))\<rparr>"

theorem asynq_task_roundtrip_witness:
  "\<exists>s1 s2 q h task. as_RegisterSubscriber_typed demo_mux demo_gob (TNamed ''string'') (DString '''') ''mail'' (\<lambda>t p (w::dyn option). (None, p))
       (as_blank (Some demo_codec) [] :: (nat, (string, dyn option task_handler) gomap) asynq_server) = (None, s1)
     \<and> NewTask demo_as_env demo_gob (\<lambda>task q. (None, q @ [task])) ''mail'' (DString ''hi'') s1 [] = (None, s2, q)
     \<and> q = [task] \<and> h [] task None = (None, Some (DString ''hi''))"
proof -
  let ?s = "as_blank (Some demo_codec) [] :: (nat, (string, dyn option task_handler) gomap) asynq_server"
  let ?hd = "\<lambda>t p (w::dyn option). (None :: error option, p)"
  obtain s1 where s1: "as_RegisterSubscriber_typed demo_mux demo_gob (TNamed ''string'') (DString '''') ''mail'' ?hd ?s = (None, s1)"
    and f: "as_codec s1 = Some demo_codec" "\<not> as_client s1" "as_clientEnabled s1"
    by (simp add: as_RegisterSubscriber_typed_def as_RegisterSubscriber_def RegisterSubscriberWithCtx_def handleFunc_def as_blank_def demo_mux_def)
  have m: "Marshal demo_gob (Some demo_codec) (DString ''hi'') = Inr (Some ''hi'')" by (simp add: Marshal_def demo_codec_def)
  obtain s2 q where n: "NewTask demo_as_env demo_gob (\<lambda>task q. (None, q @ [task])) ''mail'' (DString ''hi'') s1 [] = (None, s2, q)"
    using f m by (simp add: NewTask_def createAsynqClient_def demo_as_env_def)
  have mux: "ml_match demo_mux m' ''mail'' = Some h" if "ml_HandleFunc demo_mux ''mail'' h m = Inr m'"
    for h :: "dyn option task_handler" and m m'
    using that by (auto simp: demo_mux_def gomap_put_def update_conv' split: if_splits)
  have cod: "as_codec ?s = Some demo_codec" by (simp add: as_blank_def)
  have dec: "\<exists>x. b = Some x \<and> c_Unmarshal demo_codec x (DPtr (TNamed ''asynq.MessagePayload'') (Some (DPtr (TNamed ''string'') (Some (DString '''')))))
      = Inr (DPtr (TNamed ''asynq.MessagePayload'') (Some (DPtr (TNamed ''string'') (Some (DString ''hi'')))))"
    if "c_Marshal demo_codec (DString ''hi'') = Inr b" for b
    using that by (simp add: demo_codec_def)
  have "\<exists>h task. q = [task] \<and> ml_match demo_mux (as_mux s2) (tk_Type task) = Some h \<and> h [] task None = ?hd ''mail'' (Some (DString ''hi'')) None"
    by (rule asynq_task_roundtrip [OF s1 mux n cod dec])
  then show ?thesis using s1 n by metis
qed

lemma waitResult_ends:
  assumes "\<And>n. now n + 1 \<le> now (Suc n)" and "deadline < now (n + k)"
  shows "\<exists>r. waitResult (Suc k) poll now deadline n = Some r"
  using assms(2)
proof (induction k arbitrary: n)
  case 0
  then show ?case by (cases "poll n") (auto split: task_state.split prod.split)
next
  case (Suc k)
  from Suc.IH [of "Suc n"] Suc.prems obtain r where "waitResult (Suc k) poll now deadline (Suc n) = Some r" by auto
  then show ?case by (simp only: waitResult.simps(2) [of "Suc k"]) (auto split: sum.split task_state.split prod.split)
qed

lemma waitResult_success:
  "waitResult k poll now deadline n = Some None \<Longrightarrow> \<exists>j. poll j = Inr TaskStateCompleted \<or> (\<exists>e. poll j = Inl (True, e))"
  by (induction k poll now deadline n rule: waitResult.induct) (auto split: sum.splits task_state.splits prod.splits if_splits)

text \<open>
  C33: waiting for a task ends. With a clock that advances by at least the poll interval between two questions, \<open>waitResult\<close> returns
  after at most 302 questions, whatever the inspector answers; and it reports success only when the task was completed or gone.
\<close>

theorem asynq_wait_terminates:
  assumes "\<And>n. now n + 1 \<le> now (Suc n)"
  shows "\<exists>r. waitResult 302 poll now (now 0 + 300) 0 = Some r
     \<and> (r = None \<longrightarrow> (\<exists>j. poll j = Inr TaskStateCompleted \<or> (\<exists>e. poll j = Inl (True, e))))"
proof -
  have "now 0 + int n \<le> now n" for n
  proof (induction n)
    case (Suc n)
    then show ?case using assms [of n] by simp
  qed simp
  from this [of 301] have "now 0 + 300 < now (0 + 301)" by simp
  from waitResult_ends [of now, OF assms this, of poll] obtain r where r: "waitResult 302 poll now (now 0 + 300) 0 = Some r"
    by (auto simp: eval_nat_numeral)
  then show ?thesis using waitResult_success [of 302 poll now "now 0 + 300" 0] by auto
qed

theorem asynq_wait_terminates_witness:
  "\<exists>r. waitResult 302 (\<lambda>n. Inr (TaskStateOther ''retry'')) int (int 0 + 300) 0 = Some r"
  using asynq_wait_terminates [of int "\<lambda>n. Inr (TaskStateOther ''retry'')"] by auto

text \<open>
  A server whose scheduler is switched off cannot be started. \<open>Start\<close> asks for the scheduler that \<open>createAsynqScheduler\<close> was told not to
  create; the error is kept, so that every later \<open>Start\<close> fails as well, and \<open>Stop\<close> does nothing because the state is already
  stopped, although the keepalive server was launched.
\<close>

theorem asynq_disabled_scheduler_cannot_start:
  fixes s0 :: "('c, 'm) asynq_server"
  assumes "as_NewServer L E kenv json mux [WithSchedulerEnabled False] = Inr s0"
    and "ae_NewServer E" "ae_NewClient E" "ae_NewInspector E"
  shows "\<exists>s1. as_Start L E kenv s0 = (Some (ErrNew ''asynq scheduler is nil''), s1)
     \<and> as_Start L E kenv s1 = (Some (ErrNew ''asynq scheduler is nil''), s1) \<and> as_Stop L E s1 = (None, s1)
     \<and> sl_go (as_ka s1) = [0] \<and> sl_keepaliveServer (as_ka s1) = Some 0"
proof -
  have f: "as_err s0 = None" "as_state s0 = stateStopped" "\<not> as_schedulerEnabled s0" "as_scheduler s0 = None" "as_server s0 = Some False"
    "sl_enableKeepalive (as_ka s0)" "sl_keepaliveServer (as_ka s0) = Some 0" "sl_go (as_ka s0) = []"
    using assms by (auto simp: as_NewServer_def as_init_def WithSchedulerEnabled_def as_blank_def createAsynqServer_def createAsynqClient_def
        createAsynqScheduler_def createAsynqInspector_def keep_err_def as_ensure_keepalive_def no_slot_def slot_new_def)
  then show ?thesis
    by (simp add: as_Start_def as_Stop_def createAsynqServer_def createAsynqScheduler_def as_ensure_keepalive_def runAsynqScheduler_def
        slot_launch_def)
qed

theorem asynq_disabled_scheduler_cannot_start_witness:
  "\<exists>s0. as_NewServer demo_sched demo_as_env ka_test_env None () [WithSchedulerEnabled False] = Inr s0
     \<and> fst (as_Start demo_sched demo_as_env ka_test_env s0) = Some (ErrNew ''asynq scheduler is nil'')"
proof -
  obtain s0 :: "(bool \<times> string set \<times> nat, unit) asynq_server"
    where s0: "as_NewServer demo_sched demo_as_env ka_test_env None () [WithSchedulerEnabled False] = Inr s0"
    by (simp add: as_NewServer_def as_init_def WithSchedulerEnabled_def Let_def)
  have "\<exists>s1. as_Start demo_sched demo_as_env ka_test_env s0 = (Some (ErrNew ''asynq scheduler is nil''), s1)"
    using asynq_disabled_scheduler_cannot_start [OF s0] by (auto simp: demo_as_env_def)
  then show ?thesis using s0 by auto
qed

text \<open>
  A periodic task that is added to a stopped server makes the server impossible to start again: \<open>NewPeriodicTask\<close> creates and starts a
  scheduler of its own, and the next \<open>Start\<close> tries to start it once more. The library refuses, and the error is kept for ever.
\<close>

theorem asynq_periodic_task_blocks_restart:
  assumes L: "sched_ok L" and run: "as_state s = stateRunning"
    and new: "NewPeriodicTask L gob spec t msg (snd (as_Stop L E s)) = (Inr i, s2)"
  shows "\<exists>e s3. as_Start L E kenv s2 = (Some e, s3) \<and> as_Start L E kenv s3 = (Some e, s3)"
proof -
  let ?s1 = "snd (as_Stop L E s)"
  have s1: "as_scheduler ?s1 = None" "as_state ?s1 = stateStopped" using run by (simp_all add: as_Stop_def Let_def)
  obtain r r1 where r: "createAsynqScheduler L ?s1 = (None, r)" "runAsynqScheduler L r = (None, r1)"
    and s2: "\<exists>c k c'. as_scheduler r1 = Some c \<and> al_Register L spec k c = (Inr i, c') \<and> s2 = addPeriodicTaskEntryID t i (r1\<lparr>as_scheduler := Some c'\<rparr>)"
    using new s1(1) by (auto simp: NewPeriodicTask_def split: if_splits prod.splits option.splits sum.splits)
  obtain c where c: "as_scheduler s2 = Some c" "al_running L c"
    using s2 run_running [OF L r(2)] L by (auto simp: addPeriodicTaskEntryID_def sched_ok_def)
  have st: "as_state s2 = stateStopped"
    using s2 r create_fields(12) [of L ?s1] create_fields(15) [of L r] s1(2) by (auto simp: addPeriodicTaskEntryID_def)
  obtain e c' where e: "al_Start L c = (Some e, c')" using L c(2) by (cases "al_Start L c"; cases "fst (al_Start L c)") (auto simp: sched_ok_def)
  have sticky: "as_Start L E kenv x = (Some e, x)" if "as_err x = Some e" for x e using that by (simp add: as_Start_def)
  obtain e1 x1 where x1: "createAsynqServer E (s2\<lparr>as_state := stateStarting\<rparr>) = (e1, x1)" by (rule prod.exhaust)
  then have "as_scheduler x1 = Some c" using create_fields(2) [of E "s2\<lparr>as_state := stateStarting\<rparr>"] c(1) by simp
  then have x2: "createAsynqScheduler L x1 = (None, x1)" "as_scheduler (as_ensure_keepalive kenv x1) = Some c"
    by (simp_all add: createAsynqScheduler_def)
  have "\<exists>e3 s3. as_Start L E kenv s2 = (Some e3, s3) \<and> as_err s3 = Some e3"
  proof (cases "as_err s2")
    case None
    then show ?thesis using st x1 x2 e by (cases e1) (simp_all add: as_Start_def runAsynqScheduler_def Let_def)
  next
    case (Some e0)
    then show ?thesis by (simp add: as_Start_def)
  qed
  then obtain e3 s3 where "as_Start L E kenv s2 = (Some e3, s3)" "as_err s3 = Some e3" by blast
  then show ?thesis using sticky by blast
qed

theorem asynq_periodic_task_blocks_restart_witness:
  "\<exists>(s :: (bool \<times> string set \<times> nat, unit) asynq_server) i s2 e s3. as_state s = stateRunning
     \<and> NewPeriodicTask demo_sched demo_gob ''@every 1s'' ''mail'' (DString ''x'') (snd (as_Stop demo_sched demo_as_env s)) = (Inr i, s2)
     \<and> as_Start demo_sched demo_as_env ka_test_env s2 = (Some e, s3)"
proof -
  define s :: "(bool \<times> string set \<times> nat, unit) asynq_server"
    where "s = (as_blank (Some demo_codec) ())\<lparr>as_state := stateRunning, as_scheduler := Some (True, {}, 0), as_server := Some True, as_started := True\<rparr>"
  have run: "as_state s = stateRunning" by (simp add: s_def)
  obtain i s2 where n: "NewPeriodicTask demo_sched demo_gob ''@every 1s'' ''mail'' (DString ''x'') (snd (as_Stop demo_sched demo_as_env s)) = (Inr i, s2)"
    by (simp add: s_def as_blank_def as_Stop_def RemoveAllPeriodicTask_def NewPeriodicTask_def createAsynqScheduler_def runAsynqScheduler_def
        Marshal_def demo_codec_def demo_sched_def)
  show ?thesis using asynq_periodic_task_blocks_restart [OF demo_sched_ok run n, of ka_test_env] run n by blast
qed

end
