(* ===== verification/Rabbit_Message.thy ===== *)
theory Rabbit_Message
  imports Rabbit_Connection Broker_Handler
begin

text \<open>
  Messages of the RabbitMQ driver: publishing with its options (\<open>options.go\<close>, \<open>rabbitmq.go\<close>), the headers (\<open>message.go\<close>, \<open>utils.go\<close>) and the
  closure that \<open>Subscribe\<close> runs for every delivery. What the AMQP channel answers to a publication is a parameter; the world
  records the publications that were accepted. Tracing spans are left out.
\<close>

section \<open>Publishing\<close>

record publishing =
  pb_Headers :: "(string, dyn) gomap"
  pb_ContentType :: string
  pb_ContentEncoding :: string
  pb_DeliveryMode :: "8 word"
  pb_Priority :: "8 word"
  pb_CorrelationId :: string
  pb_ReplyTo :: string
  pb_Expiration :: string
  pb_MessageId :: string
  pb_Timestamp :: int
  pb_Type :: string
  pb_UserId :: string
  pb_AppId :: string
  pb_Body :: slice

record queue_info =
  qi_QueueArguments :: "(string, dyn) gomap option"
  qi_BindArguments :: "(string, dyn) gomap option"
  qi_Durable :: bool
  qi_AutoDelete :: bool
  qi_Queue :: string

text \<open>What the publish options put into the context.\<close>

record rb_pub_options =
  po_deliveryMode :: "8 word option"
  po_priority :: "8 word option"
  po_contentType :: "string option"
  po_contentEncoding :: "string option"
  po_correlationID :: "string option"
  po_replyTo :: "string option"
  po_expiration :: "string option"
  po_messageID :: "string option"
  po_timestamp :: "int option"
  po_messageType :: "string option"
  po_userID :: "string option"
  po_appID :: "string option"
  po_headers :: "(string, dyn) gomap option"
  po_declareQueue :: "queue_info option"
  po_mandatory :: "bool option"
  po_exchange :: "string option"

definition rb_no_pub_options :: rb_pub_options where
  "rb_no_pub_options =
     \<lparr>po_deliveryMode = None, po_priority = None, po_contentType = None, po_contentEncoding = None, po_correlationID = None,
      po_replyTo = None, po_expiration = None, po_messageID = None, po_timestamp = None, po_messageType = None, po_userID = None,
      po_appID = None, po_headers = None, po_declareQueue = None, po_mandatory = None, po_exchange = None\<rparr>"

definition WithDeliveryMode :: "8 word \<Rightarrow> rb_pub_options \<Rightarrow> rb_pub_options" where
  "WithDeliveryMode v p = p\<lparr>po_deliveryMode := Some v\<rparr>"

definition WithPriority :: "8 word \<Rightarrow> rb_pub_options \<Rightarrow> rb_pub_options" where
  "WithPriority v p = p\<lparr>po_priority := Some v\<rparr>"

definition WithContentType :: "string \<Rightarrow> rb_pub_options \<Rightarrow> rb_pub_options" where
  "WithContentType v p = p\<lparr>po_contentType := Some v\<rparr>"

definition WithContentEncoding :: "string \<Rightarrow> rb_pub_options \<Rightarrow> rb_pub_options" where
  "WithContentEncoding v p = p\<lparr>po_contentEncoding := Some v\<rparr>"

definition WithCorrelationID :: "string \<Rightarrow> rb_pub_options \<Rightarrow> rb_pub_options" where
  "WithCorrelationID v p = p\<lparr>po_correlationID := Some v\<rparr>"

definition WithReplyTo :: "string \<Rightarrow> rb_pub_options \<Rightarrow> rb_pub_options" where
  "WithReplyTo v p = p\<lparr>po_replyTo := Some v\<rparr>"

definition WithExpiration :: "string \<Rightarrow> rb_pub_options \<Rightarrow> rb_pub_options" where
  "WithExpiration v p = p\<lparr>po_expiration := Some v\<rparr>"

definition WithMessageId :: "string \<Rightarrow> rb_pub_options \<Rightarrow> rb_pub_options" where
  "WithMessageId v p = p\<lparr>po_messageID := Some v\<rparr>"

definition WithTimestamp :: "int \<Rightarrow> rb_pub_options \<Rightarrow> rb_pub_options" where
  "WithTimestamp v p = p\<lparr>po_timestamp := Some v\<rparr>"

definition WithTypeMsg :: "string \<Rightarrow> rb_pub_options \<Rightarrow> rb_pub_options" where
  "WithTypeMsg v p = p\<lparr>po_messageType := Some v\<rparr>"

definition WithUserID :: "string \<Rightarrow> rb_pub_options \<Rightarrow> rb_pub_options" where
  "WithUserID v p = p\<lparr>po_userID := Some v\<rparr>"

definition WithAppID :: "string \<Rightarrow> rb_pub_options \<Rightarrow> rb_pub_options" where
  "WithAppID v p = p\<lparr>po_appID := Some v\<rparr>"

definition WithPublishHeaders :: "(string, dyn) gomap \<Rightarrow> rb_pub_options \<Rightarrow> rb_pub_options" where
  "WithPublishHeaders h p = p\<lparr>po_headers := Some h\<rparr>"

definition WithPublishDeclareQueue ::
    "string \<Rightarrow> bool \<Rightarrow> bool \<Rightarrow> (string, dyn) gomap option \<Rightarrow> (string, dyn) gomap option \<Rightarrow> rb_pub_options \<Rightarrow> rb_pub_options" where
  "WithPublishDeclareQueue queueName durableQueue autoDelete queueArgs bindArgs p =
     p\<lparr>po_declareQueue := Some \<lparr>qi_QueueArguments = queueArgs, qi_BindArguments = bindArgs, qi_Durable = durableQueue,
         qi_AutoDelete = autoDelete, qi_Queue = queueName\<rparr>\<rparr>"

definition WithMandatory :: "rb_pub_options \<Rightarrow> rb_pub_options" where
  "WithMandatory p = p\<lparr>po_mandatory := Some True\<rparr>"

definition WithPublishExchange :: "string \<Rightarrow> rb_pub_options \<Rightarrow> rb_pub_options" where
  "WithPublishExchange name p = p\<lparr>po_exchange := Some name\<rparr>"

text \<open>\<open>if value, ok := ctx.Value(key).(T); ok { field = value }\<close> over the zero value.\<close>

definition or_zero :: "'a option \<Rightarrow> 'a \<Rightarrow> 'a" where
  "or_zero v zero = (case v of None \<Rightarrow> zero | Some x \<Rightarrow> x)"

definition rabbit_publishing :: "rb_pub_options \<Rightarrow> message \<Rightarrow> publishing" where
  "rabbit_publishing p msg =
     (let h0 = fold (\<lambda>(k, v) h. gomap_put k (DString v) h) (case msg_Headers msg of None \<Rightarrow> [] | Some h \<Rightarrow> h) [];
          h1 = (case po_headers p of None \<Rightarrow> h0 | Some h \<Rightarrow> gomap_put_all h h0)
      in \<lparr>pb_Headers = h1, pb_ContentType = or_zero (po_contentType p) '''', pb_ContentEncoding = or_zero (po_contentEncoding p) '''',
          pb_DeliveryMode = or_zero (po_deliveryMode p) 0, pb_Priority = or_zero (po_priority p) 0,
          pb_CorrelationId = or_zero (po_correlationID p) '''', pb_ReplyTo = or_zero (po_replyTo p) '''',
          pb_Expiration = or_zero (po_expiration p) '''', pb_MessageId = or_zero (po_messageID p) '''',
          pb_Timestamp = or_zero (po_timestamp p) 0, pb_Type = or_zero (po_messageType p) '''', pb_UserId = or_zero (po_userID p) '''',
          pb_AppId = or_zero (po_appID p) '''', pb_Body = BodyBytes msg\<rparr>)"

text \<open>What the AMQP library answers during a publication, and one accepted publication.\<close>

record rb_answers =
  an_Channel :: "error option"
  an_Confirm :: "error option"
  an_op :: "amqp_op \<Rightarrow> error option"
  an_Publish :: "string \<Rightarrow> string \<Rightarrow> publishing \<Rightarrow> error option"

record rb_sent =
  st_exchange :: string
  st_routingKey :: string
  st_mandatory :: bool
  st_channel :: rb_channel
  st_msg :: publishing

definition rc_Publish ::
    "rb_answers \<Rightarrow> string \<Rightarrow> string \<Rightarrow> bool \<Rightarrow> publishing \<Rightarrow> rconn \<Rightarrow> rb_sent list \<Rightarrow> error option \<times> rconn \<times> rb_sent list" where
  "rc_Publish A exchangeName routingKey mandatory msg r sent =
     (case lazyInitPublishChannel (an_Channel A) (an_Confirm A) r of
        (Some e, r1) \<Rightarrow> (Some e, r1, sent)
      | (None, r1) \<Rightarrow>
          (case rc_ExchangeChannel r1 of
             None \<Rightarrow> (Some (GoPanic ''nil pointer dereference''), r1, sent)
           | Some ch \<Rightarrow>
               (case an_Publish A exchangeName routingKey msg of
                  Some e \<Rightarrow> (Some e, r1, sent)
                | None \<Rightarrow> (None, r1, sent @ [\<lparr>st_exchange = exchangeName, st_routingKey = routingKey, st_mandatory = mandatory,
                                              st_channel = ch, st_msg = msg\<rparr>]))))"

definition rabbit_publish ::
    "rb_answers \<Rightarrow> string \<Rightarrow> message \<Rightarrow> rb_pub_options \<Rightarrow> rconn option \<Rightarrow> rb_sent list \<Rightarrow> error option \<times> rconn option \<times> rb_sent list" where
  "rabbit_publish A routingKey msg p conn sent =
     (case conn of
        None \<Rightarrow> (Some (ErrNew ''connection is nil''), None, sent)
      | Some r \<Rightarrow>
          let rMsg = rabbit_publishing p msg;
              exchangeName = (case po_exchange p of Some v \<Rightarrow> if v \<noteq> '''' then v else rc_defaultExchangeName r
                                                  | None \<Rightarrow> rc_defaultExchangeName r);
              (e, r1) = (case po_declareQueue p of
                           None \<Rightarrow> (None, r)
                         | Some q \<Rightarrow>
                             (case DeclarePublishQueue (an_Channel A) (an_Confirm A) (an_op A) exchangeName (qi_Queue q) routingKey
                                     (qi_BindArguments q) (qi_QueueArguments q) (qi_Durable q) (if qi_Durable q then False else qi_AutoDelete q) r of
                                (e, ops, r1) \<Rightarrow> (e, r1)))
          in (case e of
                Some e \<Rightarrow> (Some e, Some r1, sent)
              | None \<Rightarrow>
                  (case rc_Publish A exchangeName routingKey (or_zero (po_mandatory p) False) rMsg r1 sent of
                     (e, r2, sent') \<Rightarrow> (e, Some r2, sent'))))"

definition rabbit_internalPublish ::
    "codec \<Rightarrow> codec option \<Rightarrow> rb_answers \<Rightarrow> string \<Rightarrow> message \<Rightarrow> rb_pub_options \<Rightarrow> rconn option \<Rightarrow> rb_sent list \<Rightarrow>
     error option \<times> rconn option \<times> rb_sent list" where
  "rabbit_internalPublish gob cod A topic msg p conn sent =
     (case Marshal gob cod (msg_Body msg) of
        Inl e \<Rightarrow> (Some e, conn, sent)
      | Inr buf \<Rightarrow> rabbit_publish A topic ((Clone msg)\<lparr>msg_Body := DBytes buf\<rparr>) p conn sent)"

section \<open>Deliveries\<close>

record delivery =
  dv_Headers :: "(string, dyn) gomap"
  dv_RoutingKey :: string
  dv_Body :: slice

definition rabbitHeaderToMap :: "(string, dyn) gomap \<Rightarrow> Headers" where
  "rabbitHeaderToMap h = fold (\<lambda>(k, v) m. gomap_put k (case v of DString s \<Rightarrow> s | _ \<Rightarrow> '''') m) h []"

text \<open>The carriers of \<open>message.go\<close>; \<open>FormatInt\<close> prints a decimal number.\<close>

definition formatHeaderValue :: "(int \<Rightarrow> string) \<Rightarrow> dyn \<Rightarrow> string" where
  "formatHeaderValue FormatInt v =
     (case v of
        DBytes b \<Rightarrow> (case b of None \<Rightarrow> '''' | Some t \<Rightarrow> t)
      | DString t \<Rightarrow> t
      | DInt i \<Rightarrow> FormatInt i
      | _ \<Rightarrow> '''')"

definition carrier_Get :: "(int \<Rightarrow> string) \<Rightarrow> (string, dyn) gomap \<Rightarrow> string \<Rightarrow> string" where
  "carrier_Get FormatInt h key = (case map_of h key of None \<Rightarrow> '''' | Some v \<Rightarrow> formatHeaderValue FormatInt v)"

definition carrier_Set :: "string \<Rightarrow> string \<Rightarrow> (string, dyn) gomap \<Rightarrow> (string, dyn) gomap" where
  "carrier_Set key val h = gomap_put key (DString val) h"

definition carrier_Keys :: "(string, dyn) gomap \<Rightarrow> string list" where
  "carrier_Keys h = map fst h"

text \<open>
  What \<open>fn\<close> uses of its subscription: the handler with its middleware, the binder, the error handler, the codec, the acknowledgements
  of the delivery, and the flags that \<open>Subscribe\<close> computes from the options.
\<close>

record 'w rb_consumer =
  cs_ctx :: ctx
  cs_handler :: "'w Handler"
  cs_binder :: "(unit \<Rightarrow> dyn) option"
  cs_ErrorHandler :: "'w Handler option"
  cs_gob :: codec
  cs_Codec :: "codec option"
  cs_Ack :: "delivery \<Rightarrow> 'w \<Rightarrow> error option \<times> 'w"
  cs_Nack :: "bool \<Rightarrow> delivery \<Rightarrow> 'w \<Rightarrow> error option \<times> 'w"
  cs_AutoAck :: bool
  cs_ackSuccess :: bool
  cs_requeueOnError :: bool

definition rb_publication :: "'w rb_consumer \<Rightarrow> delivery \<Rightarrow> dyn \<Rightarrow> error option \<Rightarrow> 'w event" where
  "rb_publication C d body err =
     \<lparr>evt_Topic = dv_RoutingKey d,
      evt_Message = Some \<lparr>msg_ID = '''', msg_Headers = Some (rabbitHeaderToMap (dv_Headers d)), msg_Body = body, msg_Key = '''',
        msg_Metadata = None, msg_Partition = 0, msg_Offset = 0, msg_Msg = DNil\<rparr>,
      evt_RawMessage = DOther ''amqp091.Delivery'' (dv_RoutingKey d), evt_Ack = cs_Ack C d, evt_Error = err\<rparr>"

definition rb_on_error :: "'w rb_consumer \<Rightarrow> 'w event \<Rightarrow> 'w \<Rightarrow> 'w" where
  "rb_on_error C p w = (case cs_ErrorHandler C of None \<Rightarrow> w | Some eh \<Rightarrow> snd (eh (cs_ctx C) (Some p) w))"

definition rb_body :: "'w rb_consumer \<Rightarrow> delivery \<Rightarrow> (error \<times> dyn) + dyn" where
  "rb_body C d =
     (case cs_binder C of
        None \<Rightarrow> Inr (DBytes (dv_Body d))
      | Some binder \<Rightarrow>
          (case Unmarshal (cs_gob C) (cs_Codec C) (dv_Body d) (DPtr (TNamed ''interface {}'') (Some (binder ()))) of
             Inl e \<Rightarrow> Inl (e, binder ())
           | Inr out \<Rightarrow> Inr (case pointee out of None \<Rightarrow> DNil | Some v \<Rightarrow> v)))"

definition rb_fn :: "'w rb_consumer \<Rightarrow> delivery \<Rightarrow> 'w \<Rightarrow> 'w" where
  "rb_fn C d w =
     (case rb_body C d of
        Inl (e, body) \<Rightarrow>
          (let w1 = rb_on_error C (rb_publication C d body (Some e)) w
           in if \<not> cs_AutoAck C then snd (cs_Nack C (cs_requeueOnError C) d w1) else w1)
      | Inr body \<Rightarrow>
          (let (err, w1) = cs_handler C (cs_ctx C) (Some (rb_publication C d body None)) w;
               w2 = (if err \<noteq> None then rb_on_error C (rb_publication C d body err) w1 else w1)
           in if err = None \<and> cs_ackSuccess C \<and> \<not> cs_AutoAck C then snd (cs_Ack C d w2)
              else if err \<noteq> None \<and> \<not> cs_AutoAck C then snd (cs_Nack C (cs_requeueOnError C) d w2)
              else w2))"

section \<open>Lemmas\<close>

lemma rabbit_headers:
  assumes "gomap_wf hs"
  shows "fold (\<lambda>(k, v) h. gomap_put k (DString v) h) hs [] = map (\<lambda>(k, v). (k, DString v)) hs"
proof -
  have "fold (\<lambda>(k, v) h. gomap_put k (DString v) h) hs h0 = h0 @ map (\<lambda>(k, v). (k, DString v)) hs"
    if "gomap_wf (h0 @ map (\<lambda>(k, v). (k, DString v)) hs)" for h0
    using that
  proof (induction hs arbitrary: h0)
    case (Cons x hs)
    obtain k v where x: "x = (k, v)" by force
    have "k \<notin> fst ` set h0" using Cons.prems x by auto
    then show ?case using Cons.IH [of "h0 @ [(k, DString v)]"] Cons.prems x by (simp add: gomap_put_absent)
  qed simp
  from this [of "[]"] show ?thesis using assms by (simp add: case_prod_unfold comp_def)
qed

lemma header_map_id:
  assumes "gomap_wf hs"
  shows "rabbitHeaderToMap (map (\<lambda>(k, v). (k, DString v)) hs) = hs"
proof -
  have "rabbitHeaderToMap (map (\<lambda>(k, v). (k, DString v)) hs) = gomap_put_all hs []"
    by (simp add: rabbitHeaderToMap_def gomap_put_all_def fold_map comp_def case_prod_unfold)
  then show ?thesis using gomap_copy_id [OF assms] by simp
qed

lemma rabbit_publish_ok:
  assumes "rabbit_publish A key msg p (Some r) sent = (None, conn', sent')"
  shows "\<exists>r' ch. conn' = Some r' \<and> rc_ExchangeChannel r' = Some ch \<and> (\<exists>ex m. sent' = sent @
    [\<lparr>st_exchange = ex, st_routingKey = key, st_mandatory = m, st_channel = ch, st_msg = rabbit_publishing p msg\<rparr>])"
  using assms by (auto simp: rabbit_publish_def rc_Publish_def Let_def split: option.splits prod.splits)

section \<open>Properties\<close>

text \<open>
  C14: A message that was published with the RabbitMQ driver reaches the typed handler as it was: when \<open>Publish\<close> reports success, exactly one
  publication was sent (accepted by the channel), and a delivery with its routing key, headers and body to a subscription of the same type and codec runs the handler once with the routing key, the headers
  (none becomes an empty map) and the body that were published. If the handler succeeds, the delivery is acknowledged when the subscription asks for it (\<open>ackSuccess\<close>) and does not have
  \<open>AutoAck\<close>; if it fails, the error handler is called, and the delivery is refused (with the subscription's requeue flag) unless it has \<open>AutoAck\<close>; nothing else is done to it.
  Hypotheses: the codec decodes what it encoded, and the publish options set no headers of their own (all other options are arbitrary).
\<close>

theorem rabbit_publish_consume_roundtrip:
  assumes "rabbit_internalPublish gob (Some c) A key msg p (Some rc) sent = (None, conn', sent')" and "po_headers p = None"
    and "cs_Codec C = Some c" and "cs_binder C = Some (Binder t zero)" and "cs_handler C = Subscribe_handler t h"
    and "\<And>buf. c_Marshal c (msg_Body msg) = Inr buf \<Longrightarrow> \<exists>x. buf = Some x \<and>
           c_Unmarshal c x (DPtr (TNamed ''interface {}'') (Some (DPtr t (Some zero))))
             = Inr (DPtr (TNamed ''interface {}'') (Some (DPtr t (Some (msg_Body msg)))))"
    and "hs = (case msg_Headers msg of None \<Rightarrow> [] | Some h \<Rightarrow> h)" and "gomap_wf hs"
    and "h (cs_ctx C) key (Some hs) (Some (msg_Body msg)) w = (r, w1)"
  shows "\<exists>x. sent' = sent @ [x] \<and> (\<forall>d. dv_RoutingKey d = st_routingKey x \<and> dv_Headers d = pb_Headers (st_msg x) \<and> dv_Body d = pb_Body (st_msg x) \<longrightarrow>
     (r = None \<longrightarrow> rb_fn C d w = (if cs_ackSuccess C \<and> \<not> cs_AutoAck C then snd (cs_Ack C d w1) else w1))
   \<and> (r \<noteq> None \<longrightarrow> (\<exists>pub. evt_Error pub = r
        \<and> rb_fn C d w = (if cs_AutoAck C then rb_on_error C pub w1 else snd (cs_Nack C (cs_requeueOnError C) d (rb_on_error C pub w1))))))"
proof -
  obtain buf where buf: "Marshal gob (Some c) (msg_Body msg) = Inr buf"
    and pub: "rabbit_publish A key ((Clone msg)\<lparr>msg_Body := DBytes buf\<rparr>) p (Some rc) sent = (None, conn', sent')"
    using assms(1) by (auto simp: rabbit_internalPublish_def split: sum.splits)
  from buf have "c_Marshal c (msg_Body msg) = Inr buf" by (simp add: Marshal_def split: if_splits)
  from assms(6) [OF this] obtain b where b: "buf = Some b"
    "c_Unmarshal c b (DPtr (TNamed ''interface {}'') (Some (DPtr t (Some zero))))
       = Inr (DPtr (TNamed ''interface {}'') (Some (DPtr t (Some (msg_Body msg)))))" by blast
  from rabbit_publish_ok [OF pub] obtain x where x: "sent' = sent @ [x]" "st_routingKey x = key"
    "st_msg x = rabbit_publishing p ((Clone msg)\<lparr>msg_Body := DBytes buf\<rparr>)" by auto
  have f: "pb_Body (st_msg x) = Some b" "rabbitHeaderToMap (pb_Headers (st_msg x)) = hs"
    using x b(1) assms(2,7,8) by (auto simp: rabbit_publishing_def BodyBytes_def Clone_def HeadersCopy_def
        gomap_copy_id rabbit_headers header_map_id rabbitHeaderToMap_def [of "[]"] split: option.splits)
  have "(r = None \<longrightarrow> rb_fn C d w = (if cs_ackSuccess C \<and> \<not> cs_AutoAck C then snd (cs_Ack C d w1) else w1))
   \<and> (r \<noteq> None \<longrightarrow> (\<exists>pub. evt_Error pub = r
        \<and> rb_fn C d w = (if cs_AutoAck C then rb_on_error C pub w1 else snd (cs_Nack C (cs_requeueOnError C) d (rb_on_error C pub w1)))))"
    if d: "dv_RoutingKey d = st_routingKey x" "dv_Headers d = pb_Headers (st_msg x)" "dv_Body d = pb_Body (st_msg x)" for d
  proof -
    have body: "rb_body C d = Inr (DPtr t (Some (msg_Body msg)))"
      using assms(3,4) d(3) f(1) b(2) by (simp add: rb_body_def Binder_def Unmarshal_def)
    have hd': "cs_handler C (cs_ctx C) (Some (rb_publication C d (DPtr t (Some (msg_Body msg))) None)) w = (r, w1)"
      using assms(5,9) d(1,2) f(2) x(2) by (cases r) (simp_all add: Subscribe_handler_def rb_publication_def)
    have "evt_Error (rb_publication C d (DPtr t (Some (msg_Body msg))) r) = r" by (simp add: rb_publication_def)
    moreover have "rb_fn C d w = (if r = None then (if cs_ackSuccess C \<and> \<not> cs_AutoAck C then snd (cs_Ack C d w1) else w1)
        else if cs_AutoAck C then rb_on_error C (rb_publication C d (DPtr t (Some (msg_Body msg))) r) w1
        else snd (cs_Nack C (cs_requeueOnError C) d (rb_on_error C (rb_publication C d (DPtr t (Some (msg_Body msg))) r) w1)))"
      using body hd' by (simp add: rb_fn_def Let_def)
    ultimately show ?thesis by auto
  qed
  then show ?thesis using x(1) by blast
qed

definition demo_answers :: rb_answers where
  "demo_answers = \<lparr>an_Channel = None, an_Confirm = None, an_op = (\<lambda>x. None), an_Publish = (\<lambda>e k m. None)\<rparr>"

definition any_codec :: codec where
  "any_codec = \<lparr>c_Marshal = (\<lambda>d. Inr (Some ''x'')),
     c_Unmarshal = (\<lambda>b d. Inr (DPtr (TNamed ''interface {}'') (Some (DPtr TInt (Some (DInt 7))))))\<rparr>"

definition demo_rb_consumer :: "int rb_consumer" where
  "demo_rb_consumer = \<lparr>cs_ctx = [], cs_handler = Subscribe_handler TInt (\<lambda>c key hs d w. (None, w + 100)), cs_binder = Some (Binder TInt (DInt 0)),
     cs_ErrorHandler = None, cs_gob = any_codec, cs_Codec = Some any_codec, cs_Ack = (\<lambda>d w. (None, w + 1)), cs_Nack = (\<lambda>b d w. (None, w - 1)),
     cs_AutoAck = False, cs_ackSuccess = True, cs_requeueOnError = False\<rparr>"

theorem rabbit_publish_consume_roundtrip_witness:
  "\<exists>x. snd (snd (rabbit_internalPublish any_codec (Some any_codec) demo_answers ''k'' ((NewMessage (DInt 7) [])\<lparr>msg_Headers := Some [(''a'', ''b'')]\<rparr>)
       rb_no_pub_options (Some (demo_rabbit\<lparr>rc_Connection := Some 0, rc_ExchangeChannel := None\<rparr>)) [])) = [x]
     \<and> rb_fn demo_rb_consumer \<lparr>dv_Headers = pb_Headers (st_msg x), dv_RoutingKey = st_routingKey x, dv_Body = pb_Body (st_msg x)\<rparr> 5 = 106"
proof -
  let ?m = "(NewMessage (DInt 7) [])\<lparr>msg_Headers := Some [(''a'', ''b'')]\<rparr>"
  let ?r = "demo_rabbit\<lparr>rc_Connection := Some 0, rc_ExchangeChannel := None\<rparr>"
  obtain e conn' sent' where p: "rabbit_internalPublish any_codec (Some any_codec) demo_answers ''k'' ?m rb_no_pub_options (Some ?r) [] = (e, conn', sent')"
    by (metis prod.exhaust)
  have body: "msg_Body ?m = DInt 7" by (simp add: NewMessage_def)
  have "e = None"
    using p body by (auto simp: rabbit_internalPublish_def Marshal_def any_codec_def rabbit_publish_def rb_no_pub_options_def rc_Publish_def
        lazyInitPublishChannel_def newRabbitChannel_def demo_answers_def Let_def)
  note p' = p [unfolded this]
  have "\<exists>x. sent' = [] @ [x] \<and> (\<forall>d. dv_RoutingKey d = st_routingKey x \<and> dv_Headers d = pb_Headers (st_msg x) \<and> dv_Body d = pb_Body (st_msg x) \<longrightarrow>
       (None = (None :: error option) \<longrightarrow> rb_fn demo_rb_consumer d 5
          = (if cs_ackSuccess demo_rb_consumer \<and> \<not> cs_AutoAck demo_rb_consumer then snd (cs_Ack demo_rb_consumer d 105) else 105))
     \<and> (None \<noteq> (None :: error option) \<longrightarrow> (\<exists>pub. evt_Error pub = None \<and> rb_fn demo_rb_consumer d 5 = (if cs_AutoAck demo_rb_consumer
          then rb_on_error demo_rb_consumer pub 105
          else snd (cs_Nack demo_rb_consumer (cs_requeueOnError demo_rb_consumer) d (rb_on_error demo_rb_consumer pub 105))))))"
    by (rule rabbit_publish_consume_roundtrip [OF p', where t = TInt and zero = "DInt 0" and hs = "[(''a'', ''b'')]"
          and h = "\<lambda>c key hs d w. (None, w + 100)"])
      (simp_all add: demo_rb_consumer_def any_codec_def body rb_no_pub_options_def)
  then obtain x where x: "sent' = [x]" "rb_fn demo_rb_consumer \<lparr>dv_Headers = pb_Headers (st_msg x), dv_RoutingKey = st_routingKey x, dv_Body = pb_Body (st_msg x)\<rparr> 5 = 106"
    by (auto simp: demo_rb_consumer_def)
  then show ?thesis using p by (intro exI [of _ x]) simp
qed

datatype settle = Handled dyn | Acked | Nacked bool

definition log_consumer :: "(dyn \<Rightarrow> error option) \<Rightarrow> codec \<Rightarrow> codec option \<Rightarrow> (unit \<Rightarrow> dyn) option \<Rightarrow> bool \<Rightarrow> bool \<Rightarrow> bool \<Rightarrow> settle list rb_consumer" where
  "log_consumer verdict gob cod binder autoAck ackSuccess requeue =
     \<lparr>cs_ctx = [], cs_handler = (\<lambda>c evt l. case evt of
         None \<Rightarrow> (None, l)
       | Some p \<Rightarrow> (case evt_Message p of None \<Rightarrow> (None, l) | Some m \<Rightarrow> (verdict (msg_Body m), l @ [Handled (msg_Body m)]))),
      cs_binder = binder, cs_ErrorHandler = None, cs_gob = gob, cs_Codec = cod,
      cs_Ack = (\<lambda>d l. (None, l @ [Acked])), cs_Nack = (\<lambda>b d l. (None, l @ [Nacked b])),
      cs_AutoAck = autoAck, cs_ackSuccess = ackSuccess, cs_requeueOnError = requeue\<rparr>"

text \<open>
  Every delivery is settled at most once by the driver, and in the right way. A body that cannot be decoded never reaches the
  handler. When the server waits for an acknowledgement, the delivery of such a body or of one that the handler refuses is
  answered negatively, with the requeue flag of the subscription; one that the handler accepts is acknowledged when that was
  asked for, and is otherwise left to the handler.
\<close>

theorem rabbit_settles_each_delivery_once:
  "rb_fn (log_consumer verdict gob cod binder autoAck ackSuccess requeue) d l =
     l @ (case rb_body (log_consumer verdict gob cod binder autoAck ackSuccess requeue) d of
            Inl x \<Rightarrow> if autoAck then [] else [Nacked requeue]
          | Inr body \<Rightarrow> Handled body # (if autoAck then []
              else (case verdict body of None \<Rightarrow> if ackSuccess then [Acked] else [] | Some e \<Rightarrow> [Nacked requeue])))"
  by (cases "rb_body (log_consumer verdict gob cod binder autoAck ackSuccess requeue) d")
    (auto simp: rb_fn_def rb_on_error_def rb_publication_def log_consumer_def split: option.split)

end
