(* ===== verification/Rabbit_Broker.thy ===== *)
theory Rabbit_Broker
  imports Rabbit_Message Broker_Table
begin

text \<open>
  The RabbitMQ broker and its subscribers: the life cycle and \<open>Subscribe\<close> of \<open>broker/rabbitmq/rabbitmq.go\<close>, \<open>subscriber.go\<close> with its
  goroutine \<open>resubscribe\<close>. The table of subscribers is the one of \<open>Broker_Subscriber\<close>. The goroutine is a program counter, cut where
  it waits and where it takes a lock; \<open>resub_step\<close> interleaves it with \<open>Unsubscribe\<close>, with deliveries and with the loss of its
  channel. An AMQP channel is a number into a list that says whether it is open.
\<close>

section \<open>Subscribe options\<close>

record rb_sub_options =
  so_AutoAck :: bool
  so_Queue :: string
  so_durableQueue :: "bool option"
  so_autoDeleteQueue :: "bool option"
  so_bindArgs :: "(string, dyn) gomap option"
  so_queueArgs :: "(string, dyn) gomap option"
  so_requeueOnError :: "bool option"
  so_ackSuccess :: "bool option"
  so_exchange :: "string option"

definition rb_no_sub_options :: rb_sub_options where
  "rb_no_sub_options =
     \<lparr>so_AutoAck = True, so_Queue = '''', so_durableQueue = None, so_autoDeleteQueue = None, so_bindArgs = None, so_queueArgs = None,
      so_requeueOnError = None, so_ackSuccess = None, so_exchange = None\<rparr>"

definition WithDurableQueue :: "rb_sub_options \<Rightarrow> rb_sub_options" where
  "WithDurableQueue x = x\<lparr>so_durableQueue := Some True\<rparr>"

definition WithAutoDeleteQueue :: "rb_sub_options \<Rightarrow> rb_sub_options" where
  "WithAutoDeleteQueue x = x\<lparr>so_autoDeleteQueue := Some True\<rparr>"

definition WithBindArguments :: "(string, dyn) gomap \<Rightarrow> rb_sub_options \<Rightarrow> rb_sub_options" where
  "WithBindArguments args x = x\<lparr>so_bindArgs := Some args\<rparr>"

definition WithQueueArguments :: "(string, dyn) gomap \<Rightarrow> rb_sub_options \<Rightarrow> rb_sub_options" where
  "WithQueueArguments args x = x\<lparr>so_queueArgs := Some args\<rparr>"

definition WithRequeueOnError :: "rb_sub_options \<Rightarrow> rb_sub_options" where
  "WithRequeueOnError x = x\<lparr>so_requeueOnError := Some True\<rparr>"

definition WithAckOnSuccess :: "rb_sub_options \<Rightarrow> rb_sub_options" where
  "WithAckOnSuccess x = x\<lparr>so_ackSuccess := Some True\<rparr>"

definition WithSubscribeExchange :: "string \<Rightarrow> rb_sub_options \<Rightarrow> rb_sub_options" where
  "WithSubscribeExchange name x = x\<lparr>so_exchange := Some name\<rparr>"

text \<open>The three flags of the closure: \<open>AutoAck\<close>, \<open>ackSuccess\<close> and \<open>requeueOnError\<close>.\<close>

definition ack_flags :: "rb_sub_options \<Rightarrow> bool \<times> bool \<times> bool" where
  "ack_flags x =
     (let requeueOnError = (case so_requeueOnError x of None \<Rightarrow> False | Some v \<Rightarrow> v)
      in if so_ackSuccess x = Some True then (False, True, requeueOnError) else (so_AutoAck x, False, requeueOnError))"

section \<open>Subscribers and the broker\<close>

record rsub =
  rs_topic :: string
  rs_ch :: "nat option"
  rs_closed :: bool
  rs_exchangeName :: string
  rs_Queue :: string
  rs_AutoAck :: bool
  rs_headers :: "(string, dyn) gomap option"
  rs_queueArgs :: "(string, dyn) gomap option"
  rs_durableQueue :: bool
  rs_autoDelete :: bool

text \<open>The subscribers, and which AMQP channels are open.\<close>

record rworld =
  rw_heap :: "nat \<Rightarrow> rsub"
  rw_open :: "bool list"

definition rabbit_subscriber :: "string \<Rightarrow> string \<Rightarrow> rb_sub_options \<Rightarrow> rsub" where
  "rabbit_subscriber routingKey defaultExchange x =
     (let (autoAck, ackSuccess, requeue) = ack_flags x;
          s0 = \<lparr>rs_topic = routingKey, rs_ch = None, rs_closed = False,
                rs_exchangeName = (case so_exchange x of Some v \<Rightarrow> if v \<noteq> '''' then v else defaultExchange | None \<Rightarrow> defaultExchange),
                rs_Queue = so_Queue x, rs_AutoAck = autoAck, rs_headers = so_bindArgs x, rs_queueArgs = so_queueArgs x,
                rs_durableQueue = True, rs_autoDelete = False\<rparr>;
          s1 = (case so_durableQueue x of None \<Rightarrow> s0 | Some v \<Rightarrow> s0\<lparr>rs_durableQueue := v, rs_autoDelete := False\<rparr>)
      in (case so_autoDeleteQueue x of None \<Rightarrow> s1 | Some v \<Rightarrow> s1\<lparr>rs_autoDelete := v, rs_durableQueue := False\<rparr>))"

text \<open>\<open>s.ch.Close()\<close>; the library reports an error when the channel is closed already.\<close>

definition close_channel :: "nat \<Rightarrow> rworld \<Rightarrow> error option \<times> rworld" where
  "close_channel ch w =
     (if rw_open w ! ch then None else Some (ErrNew ''channel/connection is not open''), w\<lparr>rw_open := (rw_open w)[ch := False]\<rparr>)"

definition rabbit_Unsubscribe :: "(nat, rworld) unsub_fn" where
  "rabbit_Unsubscribe s removeFromManager st =
     (let w = snd st;
          w1 = w\<lparr>rw_heap := (rw_heap w)(s := (rw_heap w s)\<lparr>rs_closed := True\<rparr>)\<rparr>;
          (err, w2) = (case rs_ch (rw_heap w s) of None \<Rightarrow> (None, w1) | Some ch \<Rightarrow> close_channel ch w1);
          m = (if removeFromManager then snd (SubscriberSyncMap_RemoveOnly (rs_topic (rw_heap w s)) (fst st)) else fst st)
      in (err, (m, w2)))"

definition rabbit_IsClosed :: "rworld \<Rightarrow> nat \<Rightarrow> bool" where
  "rabbit_IsClosed w s = rs_closed (rw_heap w s)"

record rbroker =
  bk_options :: rb_options
  bk_conn :: "rconn option"
  bk_subscribers :: "(nat, rworld) sub_state"
  bk_next :: nat

definition rabbit_NewBroker :: "rb_options \<Rightarrow> rworld \<Rightarrow> rbroker" where
  "rabbit_NewBroker opts w = \<lparr>bk_options = opts, bk_conn = None, bk_subscribers = (NewSubscriberSyncMap, w), bk_next = 0\<rparr>"

definition rabbit_Address :: "rbroker \<Rightarrow> string" where
  "rabbit_Address b = (if length (ro_Addrs (bk_options b)) > 0 then ro_Addrs (bk_options b) ! 0 else '''')"

definition rabbit_addrs :: "string list \<Rightarrow> string list" where
  "rabbit_addrs as =
     (let addrs = map (\<lambda>addr. if hasUrlPrefix addr then addr else ''amqp://'' @ addr) (filter (\<lambda>addr. length addr \<noteq> 0) as)
      in if length addrs = 0 then [DefaultRabbitURL] else addrs)"

definition rabbit_Init :: "rbroker \<Rightarrow> error option \<times> rbroker" where
  "rabbit_Init b = (None, b\<lparr>bk_options := (bk_options b)\<lparr>ro_Addrs := rabbit_addrs (ro_Addrs (bk_options b))\<rparr>\<rparr>)"

text \<open>
  \<open>Connect\<close> runs the turns of a call of the connection's \<open>Connect\<close> without a pause; \<open>d\<close> is what dialling answers. The goroutine it starts
  is the subject of \<open>Rabbit_Connection\<close>.
\<close>

definition rc_Connect :: "bool \<Rightarrow> dial \<Rightarrow> rconn \<Rightarrow> error option \<times> rconn" where
  "rc_Connect lazy d r =
     (case rb_Connect_begin r of
        (RDone e, r1) \<Rightarrow> (e, r1)
      | (pc, r1) \<Rightarrow>
          (case tryConnect lazy d r1 of
             (Some e, r2) \<Rightarrow> (Some e, r2)
           | (None, r2) \<Rightarrow>
               (case close_chan (rc_waitConnection r2) (mark_connected r2) of
                  None \<Rightarrow> (Some (GoPanic ''close of closed channel''), mark_connected r2)
                | Some r3 \<Rightarrow> (None, r3))))"

definition rabbit_Connect :: "bool \<Rightarrow> dial \<Rightarrow> rbroker \<Rightarrow> error option \<times> rbroker" where
  "rabbit_Connect lazy d b =
     (let r = (case bk_conn b of None \<Rightarrow> newRabbitMQConnection (bk_options b) | Some r \<Rightarrow> r);
          (e, r1) = rc_Connect lazy d r
      in (e, b\<lparr>bk_conn := Some r1\<rparr>))"

definition rabbit_Disconnect :: "rbroker \<Rightarrow> error option \<times> rbroker" where
  "rabbit_Disconnect b =
     (case bk_conn b of
        None \<Rightarrow> (Some (ErrNew ''connection is nil''), b)
      | Some r \<Rightarrow>
          (let (e, r1) = rb_Close r
           in (e, b\<lparr>bk_subscribers := SubscriberSyncMap_Clear rabbit_Unsubscribe (bk_subscribers b), bk_conn := Some r1\<rparr>)))"

text \<open>\<open>declareAndBind\<close> on the publish channel of the connection.\<close>

definition declareAndBind :: "rb_answers \<Rightarrow> rsub \<Rightarrow> rconn \<Rightarrow> error option \<times> rconn" where
  "declareAndBind A s r =
     (if \<not> rc_connected r then (Some (ErrNew ''rabbitmq: not connected''), r)
      else (case DeclarePublishQueue (an_Channel A) (an_Confirm A) (an_op A) (rs_exchangeName s) (rs_Queue s) (rs_topic s) (rs_headers s)
                   (rs_queueArgs s) (rs_durableQueue s) (rs_autoDelete s) r of
              (e, ops, r1) \<Rightarrow> (e, r1)))"

text \<open>
  The new subscriber gets the next free number, which it keeps only when the call succeeds. Its goroutine is \<open>resub_turn\<close> below.
\<close>

definition rabbit_Subscribe :: "rb_answers \<Rightarrow> string \<Rightarrow> rb_sub_options \<Rightarrow> rbroker \<Rightarrow> (error + nat) \<times> rbroker" where
  "rabbit_Subscribe A routingKey x b =
     (case bk_conn b of
        None \<Rightarrow> (Inl (ErrNew ''not connected''), b)
      | Some r \<Rightarrow>
          let (m, w) = bk_subscribers b;
              sub = bk_next b;
              cell = rabbit_subscriber routingKey (rc_defaultExchangeName r) x;
              st1 = replace_subscriber rabbit_Unsubscribe routingKey sub (m, w\<lparr>rw_heap := (rw_heap w)(sub := cell)\<rparr>)
          in (case declareAndBind A cell r of
                (Some e, r1) \<Rightarrow> (Inl e, b\<lparr>bk_conn := Some r1, bk_subscribers := drop_subscriber routingKey st1\<rparr>)
              | (None, r1) \<Rightarrow> (Inr sub, b\<lparr>bk_conn := Some r1, bk_subscribers := st1, bk_next := Suc sub\<rparr>)))"

definition bk_Unsubscribe :: "nat \<Rightarrow> bool \<Rightarrow> rbroker \<Rightarrow> error option \<times> rbroker" where
  "bk_Unsubscribe sub rm b = (let (e, st) = rabbit_Unsubscribe sub rm (bk_subscribers b) in (e, b\<lparr>bk_subscribers := st\<rparr>))"

section \<open>The goroutine of a subscriber\<close>

text \<open>
  \<open>SCheck\<close> tests \<open>IsClosed\<close>, \<open>SWait\<close> is the \<open>select\<close>, \<open>SConsume\<close> the part under the broker's lock, \<open>SStore\<close> the assignment of the new channel,
  \<open>SRange\<close> the loop over the deliveries. The number is the delay before the next attempt, in milliseconds.
\<close>

datatype spc =
    SCheck int
  | SWait int
  | SConsume int
  | SStore int nat
  | SRange int nat
  | SDone

text \<open>\<open>rz_open\<close> says which of the AMQP channels opened so far are open, \<open>rz_cons\<close> on which the server has not cancelled the consumer; the range over the deliveries ends when either ends.\<close>

record resub =
  rz_sub :: rsub
  rz_open :: "bool list"
  rz_cons :: "bool list"
  rz_handled :: "delivery list"
  rz_slept :: "int list"

definition min_delay :: int where "min_delay = 100"

definition max_delay :: int where "max_delay = 30000"

text \<open>
  One turn. \<open>conn_close\<close> and \<open>wait_closed\<close> say whether the channels of the \<open>select\<close> are closed, \<open>connected\<close> is the field, \<open>cons\<close> the error of \<open>Consume\<close>,
  \<open>delivered\<close> a delivery. A failed method of an AMQP channel closes the channel, so that a failed \<open>Consume\<close> leaves none open.
\<close>

record turn_in =
  ti_conn_close :: bool
  ti_wait_closed :: bool
  ti_pick_close :: bool
  ti_connected :: bool
  ti_consume :: "error option"
  ti_delivery :: "delivery option"

fun resub_turn :: "turn_in \<Rightarrow> spc \<Rightarrow> resub \<Rightarrow> (spc \<times> resub) option" where
  "resub_turn i (SCheck dl) z = Some (if rs_closed (rz_sub z) then SDone else SWait dl, z)"
| "resub_turn i (SWait dl) z =
     (if ti_conn_close i \<and> (ti_pick_close i \<or> \<not> ti_wait_closed i) then Some (SDone, z)
      else if ti_wait_closed i then Some (SConsume dl, z)
      else None)"
| "resub_turn i (SConsume dl) z =
     (if \<not> ti_connected i then Some (SCheck dl, z)
      else (case ti_consume i of
              None \<Rightarrow> Some (SStore min_delay (length (rz_open z)), z\<lparr>rz_open := rz_open z @ [True], rz_cons := rz_cons z @ [True]\<rparr>)
            | Some e \<Rightarrow>
                (let d1 = (if dl > max_delay then max_delay else dl)
                 in Some (SCheck (d1 * 2), z\<lparr>rz_slept := rz_slept z @ [d1]\<rparr>))))"
| "resub_turn i (SStore dl ch) z = Some (SRange dl ch, z\<lparr>rz_sub := (rz_sub z)\<lparr>rs_ch := Some ch\<rparr>\<rparr>)"
| "resub_turn i (SRange dl ch) z =
     (if rz_open z ! ch \<and> rz_cons z ! ch
      then (case ti_delivery i of None \<Rightarrow> None | Some d \<Rightarrow> Some (SRange dl ch, z\<lparr>rz_handled := rz_handled z @ [d]\<rparr>))
      else Some (SCheck dl, z))"
| "resub_turn i SDone z = None"

text \<open>\<open>Unsubscribe\<close> as the goroutine sees it.\<close>

definition resub_Unsubscribe :: "resub \<Rightarrow> resub" where
  "resub_Unsubscribe z =
     (let z1 = z\<lparr>rz_sub := (rz_sub z)\<lparr>rs_closed := True\<rparr>\<rparr>
      in (case rs_ch (rz_sub z) of None \<Rightarrow> z1 | Some ch \<Rightarrow> z1\<lparr>rz_open := (rz_open z1)[ch := False]\<rparr>))"

inductive resub_step :: "spc \<times> resub \<Rightarrow> spc \<times> resub \<Rightarrow> bool" where
  turn: "resub_turn i pc z = Some (pc', z') \<Longrightarrow> resub_step (pc, z) (pc', z')"
| unsubscribe: "resub_step (pc, z) (pc, resub_Unsubscribe z)"
| lose: "ch < length (rz_open z) \<Longrightarrow> resub_step (pc, z) (pc, z\<lparr>rz_open := (rz_open z)[ch := False]\<rparr>)"
| cancel: "ch < length (rz_cons z) \<Longrightarrow> resub_step (pc, z) (pc, z\<lparr>rz_cons := (rz_cons z)[ch := False]\<rparr>)"

inductive resub_reach :: "rsub \<Rightarrow> spc \<times> resub \<Rightarrow> bool" for s where
  init: "rs_ch s = None \<Longrightarrow> resub_reach s (SCheck min_delay, \<lparr>rz_sub = s, rz_open = [], rz_cons = [], rz_handled = [], rz_slept = []\<rparr>)"
| step: "\<lbrakk>resub_reach s st; resub_step st st'\<rbrakk> \<Longrightarrow> resub_reach s st'"

text \<open>The goroutine alone, with the given inputs.\<close>

fun resub_run :: "turn_in list \<Rightarrow> spc \<Rightarrow> resub \<Rightarrow> spc \<times> resub" where
  "resub_run [] pc z = (pc, z)"
| "resub_run (i # is) pc z =
     (case resub_turn i pc z of None \<Rightarrow> resub_run is pc z | Some (pc', z') \<Rightarrow> resub_run is pc' z')"

definition link_up :: turn_in where
  "link_up = \<lparr>ti_conn_close = False, ti_wait_closed = True, ti_pick_close = False, ti_connected = True, ti_consume = None, ti_delivery = None\<rparr>"

section \<open>Lemmas\<close>

text \<open>The driver provides the interface of the table.\<close>

interpretation rabbit_tab: subscription_table rabbit_Unsubscribe "\<lambda>w s. rs_topic (rw_heap w s)" rabbit_IsClosed
proof unfold_locales
  fix s b and st :: "(nat, rworld) sub_state"
  show "fst (snd (rabbit_Unsubscribe s b st)) = (if b then gomap_delete (rs_topic (rw_heap (snd st) s)) (fst st) else fst st)"
    by (auto simp: rabbit_Unsubscribe_def SubscriberSyncMap_RemoveOnly_def Let_def dom_gomap [symmetric] domIff gomap_delete_absent
        split: option.splits prod.splits)
qed (auto simp: rabbit_Unsubscribe_def close_channel_def rabbit_IsClosed_def Let_def fun_eq_iff split: option.splits prod.splits)

subsection \<open>The goroutine\<close>

fun spc_channel :: "spc \<Rightarrow> nat set" where
  "spc_channel (SStore dl ch) = {ch}"
| "spc_channel (SRange dl ch) = {ch}"
| "spc_channel pc = {}"

fun spc_delay :: "spc \<Rightarrow> int option" where
  "spc_delay (SCheck dl) = Some dl"
| "spc_delay (SWait dl) = Some dl"
| "spc_delay (SConsume dl) = Some dl"
| "spc_delay pc = None"

definition resub_inv :: "spc \<times> resub \<Rightarrow> bool" where
  "resub_inv st \<longleftrightarrow> (case st of (pc, z) \<Rightarrow>
     length (rz_cons z) = length (rz_open z)
     \<and> {c. c < length (rz_open z) \<and> rz_open z ! c \<and> rz_cons z ! c} \<subseteq> spc_channel pc \<and> spc_channel pc \<subseteq> {..<length (rz_open z)}
     \<and> (\<forall>dl ch. pc = SRange dl ch \<longrightarrow> rs_ch (rz_sub z) = Some ch \<and> dl = min_delay)
     \<and> (\<forall>dl ch. pc = SStore dl ch \<longrightarrow> dl = min_delay)
     \<and> (\<forall>dl. spc_delay pc = Some dl \<longrightarrow> min_delay \<le> dl \<and> dl \<le> 2 * max_delay)
     \<and> (\<forall>d\<in>set (rz_slept z). min_delay \<le> d \<and> d \<le> max_delay))"

lemma resub_inv_turn:
  assumes "resub_inv (pc, z)" "resub_turn i pc z = Some (pc', z')"
  shows "resub_inv (pc', z')"
  using assms
  by (cases pc) (auto simp: resub_inv_def min_delay_def max_delay_def nth_append less_Suc_eq Let_def split: if_splits option.splits)

lemma close_shrinks: "\<lbrakk>xs[i := False] ! x; x < length xs\<rbrakk> \<Longrightarrow> xs ! x"
  by (cases "i = x") auto

lemma resub_reach_inv: "resub_reach s st \<Longrightarrow> resub_inv st"
proof (induction rule: resub_reach.induct)
  case init
  then show ?case by (simp add: resub_inv_def min_delay_def max_delay_def)
next
  case (step st st')
  from step.hyps(2) show ?case
  proof cases
    case (turn i pc z pc' z')
    then show ?thesis using resub_inv_turn step.IH by blast
  next
    case (unsubscribe pc z)
    then show ?thesis using step.IH by (auto simp: resub_inv_def resub_Unsubscribe_def Let_def dest: close_shrinks split: option.splits)
  next
    case (lose ch z pc)
    then show ?thesis using step.IH by (auto simp: resub_inv_def dest: close_shrinks)
  next
    case (cancel ch z pc)
    then show ?thesis using step.IH by (auto simp: resub_inv_def dest: close_shrinks)
  qed
qed

lemma run_deliveries:
  assumes "rz_open z ! ch" and "rz_cons z ! ch"
  shows "\<exists>z'. resub_run (map (\<lambda>d. link_up\<lparr>ti_delivery := Some d\<rparr>) ds) (SRange dl ch) z = (SRange dl ch, z')
     \<and> rz_handled z' = rz_handled z @ ds \<and> rz_sub z' = rz_sub z \<and> rz_open z' = rz_open z"
  using assms
proof (induction ds arbitrary: z)
  case (Cons d ds)
  from Cons.IH [of "z\<lparr>rz_handled := rz_handled z @ [d]\<rparr>"] Cons.prems show ?case by (auto simp: link_up_def)
qed simp

section \<open>Properties\<close>

text \<open>
  C15: A subscriber of the RabbitMQ driver never has two consumers. Whatever losses of channels, consumers cancelled by the server, failed attempts and calls of
  \<open>Unsubscribe\<close> happen in whatever interleaving with its goroutine, at most one AMQP channel of the subscriber is open with a consumer on it, it is the one
  that the goroutine is about to store or reads from, and every pause before a new attempt is between 100 milliseconds and 30
  seconds. Any other channel that is open is one whose consumer the server has cancelled, so that without a
  cancelled consumer at most one channel is open.
\<close>

theorem rabbit_one_consumer_per_subscriber:
  assumes "resub_reach s (pc, z)"
  shows "card {c. c < length (rz_open z) \<and> rz_open z ! c \<and> rz_cons z ! c} \<le> 1
     \<and> (\<forall>c<length (rz_open z). rz_open z ! c \<and> rz_cons z ! c \<longrightarrow> (\<exists>dl. pc = SStore dl c \<or> pc = SRange dl c \<and> rs_ch (rz_sub z) = Some c))
     \<and> (list_all id (rz_cons z) \<longrightarrow> card {c. c < length (rz_open z) \<and> rz_open z ! c} \<le> 1)
     \<and> (\<forall>d\<in>set (rz_slept z). 100 \<le> d \<and> d \<le> 30000)"
proof -
  have inv: "resub_inv (pc, z)" by (rule resub_reach_inv [OF assms])
  then have sub: "{c. c < length (rz_open z) \<and> rz_open z ! c \<and> rz_cons z ! c} \<subseteq> spc_channel pc" by (simp add: resub_inv_def)
  have "finite (spc_channel pc)" "card (spc_channel pc) \<le> 1" by (cases pc; simp)+
  then have one: "card {c. c < length (rz_open z) \<and> rz_open z ! c \<and> rz_cons z ! c} \<le> 1" using card_mono [OF _ sub] by linarith
  moreover have "\<exists>dl. pc = SStore dl c \<or> pc = SRange dl c \<and> rs_ch (rz_sub z) = Some c" if "c < length (rz_open z)" "rz_open z ! c" "rz_cons z ! c" for c
  proof -
    have "c \<in> spc_channel pc" using sub that by blast
    then show ?thesis using inv by (cases pc) (auto simp: resub_inv_def)
  qed
  moreover have "{c. c < length (rz_open z) \<and> rz_open z ! c} = {c. c < length (rz_open z) \<and> rz_open z ! c \<and> rz_cons z ! c}" if "list_all id (rz_cons z)"
    using that inv by (auto simp: resub_inv_def list_all_length)
  ultimately show ?thesis using inv by (simp add: resub_inv_def min_delay_def max_delay_def)
qed

definition demo_rsub :: rsub where
  "demo_rsub = rabbit_subscriber ''key'' ''amq.topic'' (WithAckOnSuccess rb_no_sub_options)"

definition demo_resub :: resub where
  "demo_resub = \<lparr>rz_sub = demo_rsub, rz_open = [], rz_cons = [], rz_handled = [], rz_slept = []\<rparr>"

lemma demo_rsub_fields: "rs_ch demo_rsub = None" "\<not> rs_closed demo_rsub"
  by (simp_all add: demo_rsub_def rabbit_subscriber_def WithAckOnSuccess_def rb_no_sub_options_def ack_flags_def)

lemma demo_waits: "resub_reach demo_rsub (SWait min_delay, demo_resub)"
  using resub_reach.step [OF resub_reach.init [OF demo_rsub_fields(1)] resub_step.turn [of link_up]]
  by (simp add: demo_resub_def demo_rsub_fields)

theorem rabbit_one_consumer_per_subscriber_witness:
  "\<exists>z. resub_reach demo_rsub (SStore min_delay 0, z) \<and> rz_open z = [True] \<and> card {c. c < length (rz_open z) \<and> rz_open z ! c \<and> rz_cons z ! c} \<le> 1"
proof -
  let ?z = "demo_resub\<lparr>rz_open := [True], rz_cons := [True]\<rparr>"
  have "resub_reach demo_rsub (SConsume min_delay, demo_resub)"
    using resub_reach.step [OF demo_waits resub_step.turn [of link_up]] by (simp add: link_up_def)
  from resub_reach.step [OF this resub_step.turn [of link_up]] have r: "resub_reach demo_rsub (SStore min_delay 0, ?z)"
    by (simp add: link_up_def demo_resub_def)
  show ?thesis using rabbit_one_consumer_per_subscriber [OF r] r by (intro exI [of _ ?z]) simp
qed

text \<open>
  When the server cancels the consumer of a channel that stays open, the goroutine opens a second channel and forgets the first one: it stays open, and \<open>Unsubscribe\<close> closes only the second.
\<close>

theorem rabbit_cancelled_consumer_leaks_channel:
  assumes "resub_reach s (SRange dl ch, z)" and "rz_open z ! ch" and "\<not> rs_closed (rz_sub z)"
  shows "\<exists>ch' z'. resub_run [link_up, link_up, link_up, link_up, link_up] (SRange dl ch) (z\<lparr>rz_cons := (rz_cons z)[ch := False]\<rparr>) = (SRange min_delay ch', z')
     \<and> ch' \<noteq> ch \<and> rz_open z' ! ch \<and> rz_open z' ! ch' \<and> rz_open (resub_Unsubscribe z') ! ch \<and> \<not> rz_open (resub_Unsubscribe z') ! ch'"
proof -
  have inv: "ch < length (rz_open z)" "length (rz_cons z) = length (rz_open z)" using resub_reach_inv [OF assms(1)] by (simp_all add: resub_inv_def)
  let ?n = "length (rz_open z)"
  let ?z = "z\<lparr>rz_cons := (rz_cons z)[ch := False] @ [True], rz_open := rz_open z @ [True], rz_sub := (rz_sub z)\<lparr>rs_ch := Some ?n\<rparr>\<rparr>"
  have "resub_run [link_up, link_up, link_up, link_up, link_up] (SRange dl ch) (z\<lparr>rz_cons := (rz_cons z)[ch := False]\<rparr>) = (SRange min_delay ?n, ?z)"
    using inv assms(3) by (simp add: link_up_def)
  then show ?thesis
    using inv assms(2) by (intro exI [of _ ?n] exI [of _ ?z]) (simp add: resub_Unsubscribe_def Let_def nth_append)
qed

theorem rabbit_cancelled_consumer_leaks_channel_witness:
  "\<exists>ch' z'. resub_run [link_up, link_up, link_up, link_up, link_up] (SRange min_delay 0)
       (demo_resub\<lparr>rz_sub := demo_rsub\<lparr>rs_ch := Some 0\<rparr>, rz_open := [True], rz_cons := [False]\<rparr>) = (SRange min_delay ch', z')
     \<and> rz_open (resub_Unsubscribe z') ! 0"
proof -
  let ?z = "demo_resub\<lparr>rz_open := [True], rz_cons := [True]\<rparr>"
  let ?z1 = "?z\<lparr>rz_sub := demo_rsub\<lparr>rs_ch := Some 0\<rparr>\<rparr>"
  have "resub_reach demo_rsub (SConsume min_delay, demo_resub)"
    using resub_reach.step [OF demo_waits resub_step.turn [of link_up]] by (simp add: link_up_def)
  from resub_reach.step [OF this resub_step.turn [of link_up]] have r: "resub_reach demo_rsub (SStore min_delay 0, ?z)"
    by (simp add: link_up_def demo_resub_def)
  from resub_reach.step [OF this resub_step.turn [of link_up]] have r: "resub_reach demo_rsub (SRange min_delay 0, ?z1)"
    by (simp add: demo_resub_def)
  have "rz_open ?z1 ! 0" "\<not> rs_closed (rz_sub ?z1)" by (simp_all add: demo_rsub_fields)
  note leak = rabbit_cancelled_consumer_leaks_channel [OF r this]
  have "?z1\<lparr>rz_cons := (rz_cons ?z1)[0 := False]\<rparr> = demo_resub\<lparr>rz_sub := demo_rsub\<lparr>rs_ch := Some 0\<rparr>, rz_open := [True], rz_cons := [False]\<rparr>"
    by (simp add: demo_resub_def)
  from leak [unfolded this] show ?thesis by blast
qed

text \<open>
  \<open>Unsubscribe\<close> ends a goroutine that reads deliveries: its channel is closed, and it ends in two turns without another call of the
  handler. But a goroutine that waits for the connection misses the call, because it tests \<open>closed\<close> only at the top of its loop:
  when the connection comes back it opens a channel for the closed subscriber and goes on handling its messages.
\<close>

theorem rabbit_unsubscribe_during_outage_is_lost:
  assumes "resub_reach s (pc, z)"
  shows "(\<forall>dl ch i j. pc = SRange dl ch \<longrightarrow> resub_run [i, j] pc (resub_Unsubscribe z) = (SDone, resub_Unsubscribe z))
     \<and> (\<forall>dl ds. pc = SWait dl \<longrightarrow> (\<exists>ch z'. resub_run ([link_up, link_up, link_up] @ map (\<lambda>d. link_up\<lparr>ti_delivery := Some d\<rparr>) ds) pc (resub_Unsubscribe z)
             = (SRange min_delay ch, z') \<and> rs_closed (rz_sub z') \<and> rz_open z' ! ch \<and> rz_handled z' = rz_handled z @ ds))"
proof (intro conjI allI impI)
  have inv: "resub_inv (pc, z)" by (rule resub_reach_inv [OF assms])
  show "resub_run [i, j] pc (resub_Unsubscribe z) = (SDone, resub_Unsubscribe z)" if "pc = SRange dl ch" for dl ch i j
    using inv that by (simp add: resub_inv_def resub_Unsubscribe_def Let_def)
  fix dl ds assume pc: "pc = SWait dl"
  define z1 where "z1 = resub_Unsubscribe z"
  have z1: "rs_closed (rz_sub z1)" "rz_handled z1 = rz_handled z" by (simp_all add: z1_def resub_Unsubscribe_def Let_def split: option.split)
  define ch where "ch = length (rz_open z1)"
  define z2 where "z2 = z1\<lparr>rz_open := rz_open z1 @ [True], rz_cons := rz_cons z1 @ [True], rz_sub := (rz_sub z1)\<lparr>rs_ch := Some ch\<rparr>\<rparr>"
  have "resub_run ([link_up, link_up, link_up] @ is) pc z1 = resub_run is (SRange min_delay ch) z2" for "is"
    by (simp add: pc link_up_def z2_def ch_def)
  moreover have "rz_open z2 ! ch" "rz_cons z2 ! ch" using inv by (simp_all add: z2_def ch_def z1_def resub_inv_def resub_Unsubscribe_def Let_def nth_append split: option.split)
  from run_deliveries [OF this, of ds min_delay] obtain z' where "resub_run (map (\<lambda>d. link_up\<lparr>ti_delivery := Some d\<rparr>) ds) (SRange min_delay ch) z2 = (SRange min_delay ch, z')"
    "rz_handled z' = rz_handled z2 @ ds" "rz_sub z' = rz_sub z2" "rz_open z' = rz_open z2" by blast
  ultimately show "\<exists>ch z'. resub_run ([link_up, link_up, link_up] @ map (\<lambda>d. link_up\<lparr>ti_delivery := Some d\<rparr>) ds) pc (resub_Unsubscribe z)
             = (SRange min_delay ch, z') \<and> rs_closed (rz_sub z') \<and> rz_open z' ! ch \<and> rz_handled z' = rz_handled z @ ds"
    using z1 by (intro exI [of _ ch] exI [of _ z']) (simp add: z1_def [symmetric] z2_def ch_def)
qed

theorem rabbit_unsubscribe_during_outage_is_lost_witness:
  "\<exists>ch z'. resub_run ([link_up, link_up, link_up] @ map (\<lambda>d. link_up\<lparr>ti_delivery := Some d\<rparr>) [\<lparr>dv_Headers = [], dv_RoutingKey = ''key'', dv_Body = None\<rparr>])
       (SWait min_delay) (resub_Unsubscribe demo_resub) = (SRange min_delay ch, z')
     \<and> rs_closed (rz_sub z') \<and> rz_handled z' = [\<lparr>dv_Headers = [], dv_RoutingKey = ''key'', dv_Body = None\<rparr>]"
proof -
  have h: "rz_handled demo_resub = []" by (simp add: demo_resub_def)
  show ?thesis using rabbit_unsubscribe_during_outage_is_lost [OF demo_waits] unfolding h append_Nil by blast
qed

text \<open>
  A connection that is not in an outage can be closed and opened again: \<open>Close\<close> and then \<open>Connect\<close> to a server that accepts it
  give a new open connection, a fresh \<open>close\<close> channel, and wake the subscribers that wait on the fresh \<open>waitConnection\<close>.
\<close>

theorem rabbit_reopens:
  assumes "rc_wf r" and "\<not> rc_chans r ! rc_close r" and "rb_Close r = (e, r1)"
  shows "\<exists>r2. rc_Connect lazy dial_ok r1 = (None, r2) \<and> rc_connected r2 \<and> \<not> rc_chans r2 ! rc_close r2 \<and> rc_chans r2 ! rc_waitConnection r2
     \<and> rc_Connection r2 = Some (length (rc_conns r1)) \<and> rc_conns r2 = rc_conns r1 @ [True]"
proof -
  have c: "rc_close r < length (rc_chans r)" using assms(1) by (simp add: rc_wf_def)
  note f = Close_fields [OF assms(3) c]
  have begin1: "rb_Connect_begin r1 = (PTry, make_close r1)" using f(3) f(6) [OF assms(2)] by (simp add: rb_Connect_begin_def)
  obtain x where x: "tryConnect lazy dial_ok (make_close r1) = (None, x)" using try_ok by blast
  note g = try_fields [OF x]
  have wait: "rc_waitConnection x < length (rc_chans r1)" "\<not> rc_chans x ! rc_waitConnection x"
    using f(5) [OF assms(2)] g by (auto simp: nth_append)
  obtain r2 where r2: "close_chan (rc_waitConnection x) (mark_connected x) = Some r2" using wait(2) by (simp add: close_chan_def)
  note h = close_chan_fields [OF r2]
  have "rc_Connect lazy dial_ok r1 = (None, r2)" using begin1 x r2 by (simp add: rc_Connect_def)
  then show ?thesis using h g wait by (simp add: nth_append)
qed

theorem rabbit_reopens_witness:
  "\<exists>r2. rc_Connect True dial_ok (snd (rb_Close (newRabbitMQConnection (rb_no_options [])))) = (None, r2) \<and> rc_connected r2"
proof -
  let ?r = "newRabbitMQConnection (rb_no_options [])"
  obtain e r1 where c: "rb_Close ?r = (e, r1)" by (rule prod.exhaust)
  have "rc_wf ?r" "\<not> rc_chans ?r ! rc_close ?r" by (simp_all add: rc_wf_def new_connection)
  from rabbit_reopens [OF this c, of True] c show ?thesis by auto
qed

text \<open>
  The addresses of a broker that was initialised all have a scheme, there is at least one, and a second \<open>Init\<close> changes nothing; a
  secure connection is dialled with the scheme of TLS.
\<close>

theorem rabbit_addresses:
  assumes "rabbit_Init b = (e, b1)"
  shows "ro_Addrs (bk_options b1) \<noteq> [] \<and> (\<forall>u\<in>set (ro_Addrs (bk_options b1)). hasUrlPrefix u \<and> prefix ''amqps://'' (dial_url True tls u))
     \<and> rabbit_Init b1 = (None, b1) \<and> rabbit_Address b1 = hd (ro_Addrs (bk_options b1))"
proof -
  let ?as = "rabbit_addrs (ro_Addrs (bk_options b))"
  have ne: "?as \<noteq> []" by (simp add: rabbit_addrs_def Let_def)
  have pre: "hasUrlPrefix u" if "u \<in> set ?as" for u
    using that by (auto simp: rabbit_addrs_def hasUrlPrefix_def DefaultRabbitURL_def Let_def split: if_splits)
  have "prefix ''amqps://'' (dial_url True tls u)" if "hasUrlPrefix u" for u
    using that by (auto simp: hasUrlPrefix_def dial_url_def prefix_def)
  moreover have "rabbit_addrs ?as = ?as"
  proof -
    have "u \<noteq> []" if "u \<in> set ?as" for u using pre [OF that] by (auto simp: hasUrlPrefix_def)
    then have "map (\<lambda>addr. if hasUrlPrefix addr then addr else ''amqp://'' @ addr) (filter (\<lambda>addr. length addr \<noteq> 0) ?as) = ?as"
      using pre by (simp add: map_idI)
    then show ?thesis using ne unfolding rabbit_addrs_def [of ?as] by (simp add: Let_def)
  qed
  ultimately show ?thesis using assms ne pre by (auto simp: rabbit_Init_def rabbit_Address_def hd_conv_nth)
qed

theorem rabbit_addresses_witness:
  "ro_Addrs (bk_options (snd (rabbit_Init (rabbit_NewBroker (rb_no_options ['''', ''host:5672'']) \<lparr>rw_heap = (\<lambda>i. demo_rsub), rw_open = []\<rparr>)))) = [''amqp://host:5672'']
   \<and> rabbit_Address (snd (rabbit_Init (rabbit_NewBroker (rb_no_options ['''', ''host:5672'']) \<lparr>rw_heap = (\<lambda>i. demo_rsub), rw_open = []\<rparr>))) = ''amqp://host:5672''"
proof -
  let ?b = "rabbit_NewBroker (rb_no_options ['''', ''host:5672'']) \<lparr>rw_heap = (\<lambda>i. demo_rsub), rw_open = []\<rparr>"
  obtain e b1 where b1: "rabbit_Init ?b = (e, b1)" by (rule prod.exhaust)
  have a: "ro_Addrs (bk_options (snd (rabbit_Init ?b))) = [''amqp://host:5672'']"
    by (simp add: rabbit_Init_def rabbit_NewBroker_def rb_no_options_def rabbit_addrs_def hasUrlPrefix_def)
  then show ?thesis using rabbit_addresses [OF b1] b1 by simp
qed

end
