(* ===== verification/Mq_Rabbit.thy ===== *)
theory Mq_Rabbit
  imports Mq_Server Rabbit_Broker
begin

text \<open>
  The RabbitMQ driver as the broker of the RabbitMQ transport, whose server is the one of \<open>Mq_Server\<close>. The registration of a topic is
  its subscribe options; \<open>lazy\<close>, \<open>d\<close> and \<open>A\<close> are what the AMQP library answers.
\<close>

definition rabbit_driver :: "bool \<Rightarrow> dial \<Rightarrow> rb_answers \<Rightarrow> (rb_sub_options, rbroker) mq_driver" where
  "rabbit_driver lazy d A =
     \<lparr>dr_Init = rabbit_Init, dr_Connect = rabbit_Connect lazy d, dr_Disconnect = rabbit_Disconnect,
      dr_Subscribe = rabbit_Subscribe A, dr_Unsubscribe = bk_Unsubscribe\<rparr>"

definition bk_live :: "rbroker \<Rightarrow> nat set" where
  "bk_live b = {i. i < bk_next b \<and> \<not> rabbit_IsClosed (snd (bk_subscribers b)) i}"

definition bk_topic :: "rbroker \<Rightarrow> nat \<Rightarrow> string" where
  "bk_topic b i = rs_topic (rw_heap (snd (bk_subscribers b)) i)"

definition bk_ok :: "rbroker \<Rightarrow> bool" where
  "bk_ok b \<longleftrightarrow> gomap_wf (fst (bk_subscribers b)) \<and> (\<forall>(t, i)\<in>set (fst (bk_subscribers b)). i < bk_next b \<and> bk_topic b i = t)"

lemma bk_tab:
  "bk_live b = rabbit_tab.tab_live (bk_subscribers b) (bk_next b)" "bk_ok b = rabbit_tab.tab_ok (bk_subscribers b) (bk_next b)"
  by (simp_all add: bk_live_def bk_ok_def bk_topic_def rabbit_tab.tab_live_def rabbit_tab.tab_ok_def)

lemma subscriber_cell: "rs_topic (rabbit_subscriber t d x) = t" "\<not> rs_closed (rabbit_subscriber t d x)"
  by (simp_all add: rabbit_subscriber_def Let_def split: prod.split option.split)

lemma rabbit_Subscribe_facts:
  assumes ok: "bk_ok b" and sub: "rabbit_Subscribe A t x b = (r, b')"
  shows "(case r of
      Inl e \<Rightarrow> bk_ok b' \<and> bk_live b' \<subseteq> bk_live b
    | Inr i \<Rightarrow> bk_ok b' \<and> i \<in> bk_live b' \<and> bk_live b' \<subseteq> insert i (bk_live b) \<and> bk_topic b' i = t
        \<and> (\<forall>j\<in>bk_live b. bk_topic b j \<noteq> t \<longrightarrow> j \<in> bk_live b' \<and> bk_topic b' j = bk_topic b j))"
proof (cases "bk_conn b")
  case None
  then show ?thesis using ok sub by (auto simp: rabbit_Subscribe_def)
next
  case (Some c)
  obtain m w where st: "bk_subscribers b = (m, w)" by force
  define n where "n = bk_next b"
  define w1 where "w1 = w\<lparr>rw_heap := (rw_heap w)(n := rabbit_subscriber t (rc_defaultExchangeName c) x)\<rparr>"
  define st1 where "st1 = replace_subscriber rabbit_Unsubscribe t n (m, w1)"
  have w: "(\<lambda>s. rs_topic (rw_heap w1 s)) = (\<lambda>s. rs_topic (rw_heap w s))(n := t)" "rabbit_IsClosed w1 = (rabbit_IsClosed w)(n := False)"
    by (auto simp: w1_def fun_eq_iff subscriber_cell rabbit_IsClosed_def)
  have ok': "rabbit_tab.tab_ok (m, w) n" using ok by (simp add: bk_tab st n_def)
  note f = rabbit_tab.tab_replace [OF ok' w, folded st1_def]
  obtain e c1 where d: "declareAndBind A (rabbit_subscriber t (rc_defaultExchangeName c) x) c = (e, c1)" by (rule prod.exhaust)
  show ?thesis
  proof (cases e)
    case None
    then have "r = Inr n" "bk_subscribers b' = st1" "bk_next b' = Suc n"
      using sub Some d by (auto simp: rabbit_Subscribe_def st Let_def st1_def w1_def n_def)
    then show ?thesis using f(1-4) f(5) by (auto simp: bk_tab st n_def bk_topic_def)
  next
    case (Some er)
    then have "r = Inl er" "bk_subscribers b' = drop_subscriber t st1" "bk_next b' = n"
      using sub \<open>bk_conn b = Some c\<close> d by (auto simp: rabbit_Subscribe_def st Let_def st1_def w1_def n_def)
    then show ?thesis using f(6,7) by (simp add: bk_tab st n_def)
  qed
qed

interpretation rabbit_mq: mq_broker_live "rabbit_driver lazy d A" bk_ok bk_live bk_topic for lazy d A
proof unfold_locales
  fix b :: rbroker assume b: "bk_ok b"
  show "bk_ok (snd (dr_Init (rabbit_driver lazy d A) b)) \<and> bk_live (snd (dr_Init (rabbit_driver lazy d A) b)) \<subseteq> bk_live b"
    using b by (simp add: rabbit_driver_def rabbit_Init_def bk_tab)
  show "bk_ok (snd (dr_Connect (rabbit_driver lazy d A) b)) \<and> bk_live (snd (dr_Connect (rabbit_driver lazy d A) b)) \<subseteq> bk_live b"
    using b by (simp add: rabbit_driver_def rabbit_Connect_def bk_tab Let_def split: prod.split)
  show "bk_ok (snd (dr_Disconnect (rabbit_driver lazy d A) b)) \<and> bk_live (snd (dr_Disconnect (rabbit_driver lazy d A) b)) \<subseteq> bk_live b"
    using b rabbit_tab.tab_clear [of "bk_subscribers b" "bk_next b"]
    by (auto simp: rabbit_driver_def rabbit_Disconnect_def bk_tab split: option.splits prod.splits)
  show "bk_ok (snd (dr_Unsubscribe (rabbit_driver lazy d A) i rm b)) \<and> bk_live (snd (dr_Unsubscribe (rabbit_driver lazy d A) i rm b)) \<subseteq> bk_live b - {i}"
    for i rm using rabbit_tab.tab_unsub [OF b [unfolded bk_tab(2)], of i rm]
    by (simp add: rabbit_driver_def bk_Unsubscribe_def bk_tab Let_def case_prod_unfold)
  fix t d' e i x
  show "bk_ok d' \<and> bk_live d' \<subseteq> insert i (bk_live b)" if "dr_Subscribe (rabbit_driver lazy d A) t x b = (Inr i, d')"
    using that rabbit_Subscribe_facts [OF b, of A t x "Inr i" d'] by (simp add: rabbit_driver_def)
  show "bk_ok d' \<and> bk_live d' \<subseteq> bk_live b" if "dr_Subscribe (rabbit_driver lazy d A) t x b = (Inl e, d')"
    using that rabbit_Subscribe_facts [OF b, of A t x "Inl e" d'] by (simp add: rabbit_driver_def)
  show "i \<in> bk_live d' \<and> bk_topic d' i = t \<and> (\<forall>j\<in>bk_live b. bk_topic b j \<noteq> t \<longrightarrow> j \<in> bk_live d' \<and> bk_topic d' j = bk_topic b j)"
    if "dr_Subscribe (rabbit_driver lazy d A) t x b = (Inr i, d')"
    using that rabbit_Subscribe_facts [OF b, of A t x "Inr i" d'] by (simp add: rabbit_driver_def)
qed

section \<open>Properties\<close>

text \<open>
  No interleaving of calls of \<open>Start\<close>, \<open>Stop\<close> and \<open>RegisterSubscriber\<close> leaks a subscription of the RabbitMQ transport, whatever the AMQP
  library answers: whenever no call is running, every subscriber that is not closed is in the server's table, where each
  topic has one entry, and when the server is stopped there is none.
\<close>

theorem rabbit_server_leaks_no_subscription:
  assumes "mq_reach (rabbit_driver lazy d A) kenv kind (rabbit_NewBroker opts w) (s, ps)" and "quiet ps"
  shows "bk_live (mq_Broker s) \<subseteq> snd ` set (mq_subscribers s) \<and> gomap_wf (mq_subscribers s)
       \<and> (mq_started s \<or> bk_live (mq_Broker s) = {})"
proof -
  have b: "bk_ok (rabbit_NewBroker opts w)" "bk_live (rabbit_NewBroker opts w) = {}"
    by (simp_all add: bk_ok_def bk_live_def rabbit_NewBroker_def NewSubscriberSyncMap_def)
  show ?thesis
    using rabbit_mq.quiet_no_leak [OF assms(1) b assms(2)] rabbit_mq.reach_tracked [OF assms(1) b]
    by (simp add: rabbit_mq.tracked_def)
qed

definition rworld0 :: rworld where "rworld0 = \<lparr>rw_heap = (\<lambda>i. demo_rsub), rw_open = []\<rparr>"

theorem rabbit_server_leaks_no_subscription_witness:
  "bk_live (mq_Broker (snd (mq_exec (rabbit_driver True dial_ok demo_answers) ka_test_env ''rabbitmq'' (PRegister ''t'' rb_no_sub_options)
      (mq_NewServer ka_test_env ''rabbitmq'' [] (rabbit_NewBroker (rb_no_options []) rworld0))))) = {}"
proof -
  let ?D = "rabbit_driver True dial_ok demo_answers" and ?b = "rabbit_NewBroker (rb_no_options []) rworld0"
  let ?pc = "PRegister ''t'' rb_no_sub_options"
  let ?s0 = "mq_NewServer ka_test_env ''rabbitmq'' [] ?b :: (rb_sub_options, rbroker) mq_server"
  obtain pc s where e: "mq_exec ?D ka_test_env ''rabbitmq'' ?pc ?s0 = (pc, s)" by force
  have pc: "pc = PDone None" "\<not> mq_started s" using e by (auto simp: mq_NewServer_def mq_init_def)
  have "mq_reach ?D ka_test_env ''rabbitmq'' ?b (?s0, [?pc])"
    using mq_reach.step [OF mq_reach.init mq_step.call [of ?pc "''t''" rb_no_sub_options]] by force
  from mq_reach.step [OF this mq_step.go [of 0]] have "mq_reach ?D ka_test_env ''rabbitmq'' ?b (s, [pc])" using e by simp
  from rabbit_server_leaks_no_subscription [OF this] show ?thesis using pc e by (simp add: quiet_def)
qed

end
