(* ===== verification/Redis_Stream.thy ===== *)
theory Redis_Stream
  imports Broker_Request
begin

text \<open>
  Messages over the two redis drivers: \<open>broker/redis/stream\<close> (\<open>XADD\<close>, \<open>XREADGROUP\<close>, \<open>XAUTOCLAIM\<close>, \<open>XACK\<close>) and the message path of
  \<open>broker/redis/pubsub\<close>. A reply of the redigo client is a \<open>reply\<close>: as its documentation says, a bulk string is a byte slice, a
  simple string a string, an array a slice of replies, and nil is nil. The commands are the environment: what \<open>XACK\<close> does to the world is
  the parameter of a subscription, what a read returns is an argument of a turn of the loop.
\<close>

section \<open>Replies\<close>

datatype reply =
    RNil
  | RBulk bytes
  | RStatus string
  | RInt int
  | RArray "reply list"

text \<open>An argument of a command, as redigo sends it: every argument becomes a bulk string.\<close>

datatype arg = AString string | AInt int | ABytes slice

definition arg_bulk :: "(int \<Rightarrow> string) \<Rightarrow> arg \<Rightarrow> bytes" where
  "arg_bulk FormatInt a = (case a of AString s \<Rightarrow> s | AInt i \<Rightarrow> FormatInt i | ABytes b \<Rightarrow> (case b of None \<Rightarrow> '''' | Some x \<Rightarrow> x))"

section \<open>Publishing\<close>

text \<open>The arguments of \<open>XADD\<close>; \<open>maxLen\<close> is what \<open>WithStreamMaxLen\<close> put into the context.\<close>

definition xadd_args :: "string \<Rightarrow> int option \<Rightarrow> message \<Rightarrow> arg list" where
  "xadd_args stream maxLen msg =
     (let n = (case maxLen of None \<Rightarrow> 0 | Some v \<Rightarrow> v);
          a1 = [AString stream] @ (if n > 0 then [AString ''MAXLEN'', AString ''~'', AInt n] else []);
          a2 = a1 @ [AString ''*''] @ [AString ''body'', ABytes (BodyBytes msg)]
      in fold (\<lambda>(k, v) as. as @ [AString k, AString v]) (case msg_Headers msg of None \<Rightarrow> [] | Some h \<Rightarrow> h) a2)"

definition stream_publish ::
    "(arg list \<Rightarrow> error option) \<Rightarrow> bool \<Rightarrow> string \<Rightarrow> int option \<Rightarrow> message \<Rightarrow> error option \<times> arg list option" where
  "stream_publish xadd pool stream maxLen msg =
     (if \<not> pool then (Some (ErrNew ''redis-stream: not connected''), None)
      else (xadd (xadd_args stream maxLen msg), Some (xadd_args stream maxLen msg)))"

definition stream_internalPublish ::
    "codec \<Rightarrow> codec option \<Rightarrow> (arg list \<Rightarrow> error option) \<Rightarrow> bool \<Rightarrow> string \<Rightarrow> int option \<Rightarrow> message \<Rightarrow> error option \<times> arg list option" where
  "stream_internalPublish gob cod xadd pool topic maxLen msg =
     (case Marshal gob cod (msg_Body msg) of
        Inl e \<Rightarrow> (Some e, None)
      | Inr buf \<Rightarrow> stream_publish xadd pool topic maxLen ((Clone msg)\<lparr>msg_Body := DBytes buf\<rparr>))"

definition pubsub_publish :: "(string \<Rightarrow> slice \<Rightarrow> error option) \<Rightarrow> bool \<Rightarrow> string \<Rightarrow> message \<Rightarrow> error option \<times> (string \<times> slice) option" where
  "pubsub_publish publish pool topic msg =
     (if \<not> pool then (Some (ErrNew ''redis: not connected''), None)
      else (publish topic (BodyBytes msg), Some (topic, BodyBytes msg)))"

definition pubsub_internalPublish ::
    "codec \<Rightarrow> codec option \<Rightarrow> (string \<Rightarrow> slice \<Rightarrow> error option) \<Rightarrow> bool \<Rightarrow> string \<Rightarrow> message \<Rightarrow> error option \<times> (string \<times> slice) option" where
  "pubsub_internalPublish gob cod publish pool topic msg =
     (case Marshal gob cod (msg_Body msg) of
        Inl e \<Rightarrow> (Some e, None)
      | Inr buf \<Rightarrow> pubsub_publish publish pool topic ((Clone msg)\<lparr>msg_Body := DBytes buf\<rparr>))"

section \<open>A message\<close>

text \<open>A subscription. The flag beside the world is \<open>acked\<close> of the publication at hand.\<close>

record 'w stream_sub =
  ss_topic :: string
  ss_group :: string
  ss_ctx :: ctx
  ss_handler :: "('w \<times> bool) Handler"
  ss_binder :: "(unit \<Rightarrow> dyn) option"
  ss_ErrorHandler :: "('w \<times> bool) Handler option"
  ss_gob :: codec
  ss_Codec :: "codec option"
  ss_AutoAck :: bool
  ss_pool :: bool
  ss_xack :: "string \<Rightarrow> string \<Rightarrow> string \<Rightarrow> 'w \<Rightarrow> error option \<times> 'w"
  ss_closed :: "'w \<Rightarrow> bool"

definition empty_message :: message where
  "empty_message = \<lparr>msg_ID = '''', msg_Headers = None, msg_Body = DNil, msg_Key = '''', msg_Metadata = None, msg_Partition = 0,
     msg_Offset = 0, msg_Msg = DNil\<rparr>"

definition stream_Ack :: "'w stream_sub \<Rightarrow> string \<Rightarrow> 'w \<times> bool \<Rightarrow> error option \<times> 'w \<times> bool" where
  "stream_Ack S msgID st =
     (case st of (w, acked) \<Rightarrow>
        if acked then (None, w, acked)
        else if \<not> ss_pool S then (None, w, acked)
        else (case ss_xack S (ss_topic S) (ss_group S) msgID w of
                (Some e, w1) \<Rightarrow> (Some e, w1, acked)
              | (None, w1) \<Rightarrow> (None, w1, True)))"

definition stream_publication :: "'w stream_sub \<Rightarrow> string \<Rightarrow> dyn \<Rightarrow> error option \<Rightarrow> ('w \<times> bool) event" where
  "stream_publication S msgID body err =
     \<lparr>evt_Topic = ss_topic S, evt_Message = Some (empty_message\<lparr>msg_Body := body\<rparr>), evt_RawMessage = DOther ''broker.Message'' '''',
      evt_Ack = stream_Ack S msgID, evt_Error = err\<rparr>"

definition redis_body :: "codec \<Rightarrow> codec option \<Rightarrow> (unit \<Rightarrow> dyn) option \<Rightarrow> bytes \<Rightarrow> error + dyn" where
  "redis_body gob cod binder data =
     (case binder of
        None \<Rightarrow> Inr (DBytes (Some data))
      | Some b \<Rightarrow>
          (case Unmarshal gob cod (Some data) (DPtr (TNamed ''interface {}'') (Some (b ()))) of
             Inl e \<Rightarrow> Inl e
           | Inr out \<Rightarrow> Inr (case pointee out of None \<Rightarrow> DNil | Some v \<Rightarrow> v)))"

definition stream_eh :: "'w stream_sub \<Rightarrow> ('w \<times> bool) event \<Rightarrow> 'w \<times> bool \<Rightarrow> 'w \<times> bool" where
  "stream_eh S p st = (case ss_ErrorHandler S of None \<Rightarrow> st | Some eh \<Rightarrow> snd (eh (ss_ctx S) (Some p) st))"

definition stream_onMessage :: "'w stream_sub \<Rightarrow> string \<Rightarrow> bytes \<Rightarrow> 'w \<Rightarrow> error option \<times> 'w" where
  "stream_onMessage S msgID data w =
     (case redis_body (ss_gob S) (ss_Codec S) (ss_binder S) data of
        Inl e \<Rightarrow>
          (Some e, fst (stream_eh S \<lparr>evt_Topic = ss_topic S, evt_Message = Some empty_message, evt_RawMessage = DOther ''broker.Message'' '''',
              evt_Ack = (\<lambda>st. (None, st)), evt_Error = Some e\<rparr> (w, False)))
      | Inr body \<Rightarrow>
          (case ss_handler S (ss_ctx S) (Some (stream_publication S msgID body None)) (w, False) of
             (Some e, st) \<Rightarrow> (Some e, fst (stream_eh S (stream_publication S msgID body (Some e)) st))
           | (None, st) \<Rightarrow>
               if ss_AutoAck S then (case stream_Ack S msgID st of (e, st1) \<Rightarrow> (e, fst st1)) else (None, fst st)))"

section \<open>A batch\<close>

text \<open>\<open>for i := 0; i < len(fields)-1; i += 2\<close>; \<open>RNil\<close> is the nil that the function returns when it finds nothing.\<close>

fun extractField :: "reply list \<Rightarrow> string \<Rightarrow> reply" where
  "extractField (k # v # rest) key = (if k = RBulk key then v else extractField rest key)"
| "extractField rest key = RNil"

text \<open>One entry: \<open>[id, [field, value, ...]]\<close>. The comma-ok assertions that ignore \<open>ok\<close> give the zero value.\<close>

definition stream_entry :: "'w stream_sub \<Rightarrow> reply \<Rightarrow> 'w \<Rightarrow> 'w" where
  "stream_entry S entry w =
     (case entry of
        RArray (i # f # rest) \<Rightarrow>
          (let msgID = (case i of RStatus s \<Rightarrow> s | _ \<Rightarrow> '''');
               flds = (case f of RArray fs \<Rightarrow> fs | _ \<Rightarrow> [])
           in (case extractField flds ''body'' of
                 RBulk data \<Rightarrow> snd (stream_onMessage S msgID data w)
               | _ \<Rightarrow> w))
      | _ \<Rightarrow> w)"

text \<open>The loop over the entries of a stream: \<open>None\<close> instead of \<open>False\<close> would be an error; the flag says that the subscriber was closed.\<close>

fun stream_entries :: "'w stream_sub \<Rightarrow> reply list \<Rightarrow> 'w \<Rightarrow> bool \<times> 'w" where
  "stream_entries S [] w = (False, w)"
| "stream_entries S (e # es) w = (if ss_closed S w then (True, w) else stream_entries S es (stream_entry S e w))"

fun stream_streams :: "'w stream_sub \<Rightarrow> reply list \<Rightarrow> 'w \<Rightarrow> bool \<times> 'w" where
  "stream_streams S [] w = (False, w)"
| "stream_streams S (s # ss) w =
     (case s of
        RArray (n # RArray messages # rest) \<Rightarrow>
          (case stream_entries S messages w of (True, w1) \<Rightarrow> (True, w1) | (False, w1) \<Rightarrow> stream_streams S ss w1)
      | _ \<Rightarrow> stream_streams S ss w)"

definition claimPending :: "'w stream_sub \<Rightarrow> error + reply \<Rightarrow> 'w \<Rightarrow> 'w" where
  "claimPending S rep w =
     (if \<not> ss_pool S then w
      else (case rep of
              Inl e \<Rightarrow> w
            | Inr (RArray (c # RArray messages # rest)) \<Rightarrow> snd (stream_entries S messages w)
            | Inr r \<Rightarrow> w))"

text \<open>
  One turn of \<open>receiveLoop\<close>: \<open>Some err\<close> when it returns. \<open>due\<close> says that it is time to claim; \<open>claim\<close> and \<open>rep\<close> are the replies.
\<close>

definition receive_turn :: "'w stream_sub \<Rightarrow> bool \<Rightarrow> bool \<Rightarrow> error + reply \<Rightarrow> error + reply \<Rightarrow> 'w \<Rightarrow> error option option \<times> 'w" where
  "receive_turn S ctx_done due claim rep w =
     (if ss_closed S w then (Some None, w)
      else if ctx_done then (Some None, w)
      else
        (let w1 = (if due then claimPending S claim w else w)
         in if \<not> ss_pool S then (Some (Some (ErrNew ''redis-stream: broker disconnected'')), w1)
            else (case rep of
                    Inl e \<Rightarrow> (Some (Some e), w1)
                  | Inr (RArray streams) \<Rightarrow>
                      (case stream_streams S streams w1 of (True, w2) \<Rightarrow> (Some None, w2) | (False, w2) \<Rightarrow> (None, w2))
                  | Inr r \<Rightarrow> (None, w1))))"

section \<open>The receiving goroutine\<close>

text \<open>
  \<open>recv\<close> of the stream driver after its loop has returned \<open>err\<close>: it ends (\<open>None\<close>), or waits for the delay, in seconds, and goes on with the
  next one. The goroutine of the pubsub driver is in \<open>Redis_Broker\<close>.
\<close>

definition recv_after :: "bool \<Rightarrow> bool \<Rightarrow> error option \<Rightarrow> int \<Rightarrow> int option" where
  "recv_after closed ctx_done err delay =
     (if err = None \<or> closed then None
      else if ctx_done then None
      else Some (if delay < 30 then delay * 2 else delay))"

definition ensureGroup :: "error option \<Rightarrow> bool \<Rightarrow> error option" where
  "ensureGroup err busygroup = (case err of None \<Rightarrow> None | Some e \<Rightarrow> if busygroup then None else Some e)"

section \<open>The pubsub message path\<close>

record 'w pubsub_sub =
  pv_ctx :: ctx
  pv_handler :: "'w Handler"
  pv_binder :: "(unit \<Rightarrow> dyn) option"
  pv_ErrorHandler :: "'w Handler option"
  pv_gob :: codec
  pv_Codec :: "codec option"
  pv_AutoAck :: bool

definition pubsub_publication :: "string \<Rightarrow> dyn \<Rightarrow> error option \<Rightarrow> 'w event" where
  "pubsub_publication channel body err =
     \<lparr>evt_Topic = channel, evt_Message = Some (empty_message\<lparr>msg_Body := body\<rparr>), evt_RawMessage = DOther ''broker.Message'' '''',
      evt_Ack = (\<lambda>w. (None, w)), evt_Error = err\<rparr>"

definition pubsub_onMessage :: "'w pubsub_sub \<Rightarrow> string \<Rightarrow> bytes \<Rightarrow> 'w \<Rightarrow> error option \<times> 'w" where
  "pubsub_onMessage S channel data w =
     (let eh = (\<lambda>p w. case pv_ErrorHandler S of None \<Rightarrow> w | Some h \<Rightarrow> snd (h (pv_ctx S) (Some p) w))
      in (case redis_body (pv_gob S) (pv_Codec S) (pv_binder S) data of
            Inl e \<Rightarrow> (None, eh (pubsub_publication channel (case pv_binder S of None \<Rightarrow> DNil | Some b \<Rightarrow> b ()) (Some e)) w)
          | Inr body \<Rightarrow>
              (case pv_handler S (pv_ctx S) (Some (pubsub_publication channel body None)) w of
                 (Some e, w1) \<Rightarrow> (Some e, eh (pubsub_publication channel body (Some e)) w1)
               | (None, w1) \<Rightarrow> (None, w1))))"

datatype pubsub_frame = PubError error | PubMessage string bytes | PubSubscription nat | PubPong

text \<open>One turn of its \<open>receiveLoop\<close>: \<open>ping\<close> is what the health check has reported, \<open>conn\<close> whether the connection is set.\<close>

definition pubsub_turn :: "'w pubsub_sub \<Rightarrow> error option option \<Rightarrow> bool \<Rightarrow> pubsub_frame \<Rightarrow> 'w \<Rightarrow> error option option \<times> 'w" where
  "pubsub_turn S ping conn frame w =
     (case ping of
        Some err \<Rightarrow> (Some err, w)
      | None \<Rightarrow>
          if \<not> conn then (Some (Some (ErrNew ''connection is nil'')), w)
          else (case frame of
                  PubError e \<Rightarrow> (Some (Some e), w)
                | PubMessage channel data \<Rightarrow> (None, snd (pubsub_onMessage S channel data w))
                | PubSubscription n \<Rightarrow> (if n = 0 then Some None else None, w)
                | PubPong \<Rightarrow> (None, w)))"

section \<open>Lemmas\<close>

text \<open>What the server stores of an \<open>XADD\<close>, and the entry with that ID as the client returns it: the ID and all fields are bulk strings.\<close>

definition xadd_skip :: "int option \<Rightarrow> nat" where
  "xadd_skip maxLen = (if (case maxLen of None \<Rightarrow> 0 | Some v \<Rightarrow> v) > 0 then 5 else 2)"

definition bulk_entry :: "string \<Rightarrow> bytes list \<Rightarrow> reply" where
  "bulk_entry i flds = RArray [RBulk i, RArray (map RBulk flds)]"

lemma fold_snoc2: "fold (\<lambda>(k, v) as. as @ [f k, g v]) hs as = as @ concat (map (\<lambda>(k, v). [f k, g v]) hs)"
  by (induction hs arbitrary: as) auto

lemma xadd_fields:
  "\<exists>hs. drop (xadd_skip maxLen) (xadd_args stream maxLen msg) = AString ''body'' # ABytes (BodyBytes msg) # hs"
  by (auto simp: xadd_args_def xadd_skip_def fold_snoc2 Let_def)

lemma entry_bulk:
  "stream_entry S (bulk_entry i (''body'' # data # rest)) w = snd (stream_onMessage S '''' data w)"
  by (simp add: stream_entry_def bulk_entry_def)

section \<open>Properties\<close>

text \<open>
  A message that is published to a redis stream and read by a subscription of its type reaches the handler with the body that was published,
  whatever the length limit of the stream. But the handler gets no headers, although \<open>XADD\<close> stores them, and the message is
  acknowledged under the empty ID: the client returns the ID as a byte slice, and the code asserts a string.
\<close>

theorem redis_stream_delivery:
  assumes "stream_internalPublish gob (Some c) xadd True topic maxLen msg = (None, Some args)"
    and "ss_Codec S = Some c" and "ss_binder S = Some (Binder t zero)" and "ss_handler S = Subscribe_handler t h"
    and "\<And>buf. c_Marshal c (msg_Body msg) = Inr buf \<Longrightarrow> \<exists>x. buf = Some x \<and>
           c_Unmarshal c x (DPtr (TNamed ''interface {}'') (Some (DPtr t (Some zero))))
             = Inr (DPtr (TNamed ''interface {}'') (Some (DPtr t (Some (msg_Body msg)))))"
    and "h (ss_ctx S) (ss_topic S) None (Some (msg_Body msg)) (w, False) = (None, st)"
  shows "stream_entry S (bulk_entry i (map (arg_bulk F) (drop (xadd_skip maxLen) args))) w
       = fst (if ss_AutoAck S then snd (stream_Ack S '''' st) else st)"
proof -
  obtain buf where buf: "Marshal gob (Some c) (msg_Body msg) = Inr buf"
    and args: "args = xadd_args topic maxLen ((Clone msg)\<lparr>msg_Body := DBytes buf\<rparr>)"
    using assms(1) by (auto simp: stream_internalPublish_def stream_publish_def split: sum.splits)
  from buf have "c_Marshal c (msg_Body msg) = Inr buf" by (simp add: Marshal_def split: if_splits)
  from assms(5) [OF this] obtain x where x: "buf = Some x"
    "c_Unmarshal c x (DPtr (TNamed ''interface {}'') (Some (DPtr t (Some zero))))
       = Inr (DPtr (TNamed ''interface {}'') (Some (DPtr t (Some (msg_Body msg)))))" by blast
  obtain hs where "drop (xadd_skip maxLen) args = AString ''body'' # ABytes (Some x) # hs"
    using xadd_fields [of maxLen topic "(Clone msg)\<lparr>msg_Body := DBytes buf\<rparr>"] args x(1) by (auto simp: BodyBytes_def)
  then have "stream_entry S (bulk_entry i (map (arg_bulk F) (drop (xadd_skip maxLen) args))) w = snd (stream_onMessage S '''' x w)"
    by (simp add: arg_bulk_def entry_bulk)
  also have "\<dots> = fst (if ss_AutoAck S then snd (stream_Ack S '''' st) else st)"
    using assms(2,3,4,6) x(2)
    by (simp add: stream_onMessage_def redis_body_def Binder_def Unmarshal_def Subscribe_handler_def stream_publication_def empty_message_def
        split: prod.split)
  finally show ?thesis .
qed

definition redis_codec :: codec where
  "redis_codec = \<lparr>c_Marshal = (\<lambda>d. Inr (Some ''x'')),
     c_Unmarshal = (\<lambda>b d. Inr (DPtr (TNamed ''interface {}'') (Some (DPtr TInt (Some (DInt 7))))))\<rparr>"

text \<open>A world of pending IDs and a count of the handler's runs; \<open>XACK\<close> takes an ID off the list, and refuses one that is none.\<close>

definition demo_stream :: "(string list \<times> nat) stream_sub" where
  "demo_stream = \<lparr>ss_topic = ''t'', ss_group = ''g'', ss_ctx = [], ss_handler = Subscribe_handler TInt (\<lambda>c topic hs d ((p, n), a). (None, (p, Suc n), a)),
     ss_binder = Some (Binder TInt (DInt 0)), ss_ErrorHandler = None, ss_gob = redis_codec, ss_Codec = Some redis_codec, ss_AutoAck = True,
     ss_pool = True, ss_xack = (\<lambda>t g i (p, n). if i = '''' then (Some (ErrNew ''ERR Invalid stream ID''), p, n) else (None, removeAll i p, n)),
     ss_closed = (\<lambda>w. False)\<rparr>"

theorem redis_stream_delivery_witness:
  "stream_entry demo_stream (bulk_entry ''1-0'' (map (arg_bulk (\<lambda>i. ''0'')) (drop (xadd_skip None)
       (the (snd (stream_internalPublish redis_codec (Some redis_codec) (\<lambda>a. None) True ''t'' None (NewMessage (DInt 7) []))))))) ([''1-0''], 0)
     = ([''1-0''], Suc 0)"
proof -
  obtain args where p: "stream_internalPublish redis_codec (Some redis_codec) (\<lambda>a. None) True ''t'' None (NewMessage (DInt 7) []) = (None, Some args)"
    by (simp add: stream_internalPublish_def stream_publish_def Marshal_def redis_codec_def NewMessage_def)
  have body: "msg_Body (NewMessage (DInt 7) []) = DInt 7" by (simp add: NewMessage_def)
  have "stream_entry demo_stream (bulk_entry ''1-0'' (map (arg_bulk (\<lambda>i. ''0'')) (drop (xadd_skip None) args))) ([''1-0''], 0)
      = fst (if ss_AutoAck demo_stream then snd (stream_Ack demo_stream '''' (([''1-0''], Suc 0), False)) else (([''1-0''], Suc 0), False))"
    by (rule redis_stream_delivery [OF p, where t = TInt and zero = "DInt 0" and h = "\<lambda>c topic hs d ((p, n), a). (None, (p, Suc n), a)"])
      (simp_all add: demo_stream_def redis_codec_def body)
  then show ?thesis using p by (simp add: demo_stream_def stream_Ack_def)
qed

text \<open>
  C17: a redis stream subscription never acknowledges anything. Entries come as the client returns them, with the ID a bulk string
  (a byte slice); \<open>onMessage\<close> asserts it as a Go string, gets the empty string, and the \<open>XACK\<close> of \<open>publication.Ack\<close> names no message, although
  the comment on \<open>Ack\<close> says that it confirms the message. So neither a batch that was read nor a batch that was claimed changes the
  list of pending messages, also when every message was handled and acknowledged. The hypotheses are that an \<open>XACK\<close>
  of the empty string changes no pending message, and that the handler and the error handler, if there is one, change the pending
  messages only by the \<open>Ack\<close> of the event they get.
\<close>

theorem redis_stream_never_acknowledges:
  assumes xack: "\<And>t g w. pending (snd (ss_xack S t g '''' w)) = pending w"
    and handler: "\<And>c p st. \<lbrakk>\<And>st. pending (fst (snd (evt_Ack p st))) = pending (fst st)\<rbrakk> \<Longrightarrow>
           pending (fst (snd (ss_handler S c (Some p) st))) = pending (fst st)"
    and eh: "\<And>h c p st. \<lbrakk>ss_ErrorHandler S = Some h; \<And>st. pending (fst (snd (evt_Ack p st))) = pending (fst st)\<rbrakk> \<Longrightarrow>
           pending (fst (snd (h c (Some p) st))) = pending (fst st)"
    and entries: "es = map (\<lambda>(i, flds). bulk_entry i flds) ms"
  shows "pending (snd (stream_entries S es w)) = pending w
       \<and> pending (claimPending S (Inr (RArray [RBulk cursor, RArray es])) w) = pending w"
proof -
  have ack: "pending (fst (snd (stream_Ack S '''' st))) = pending (fst st)" for st
  proof (cases st)
    case (Pair w b)
    obtain e w1 where x: "ss_xack S (ss_topic S) (ss_group S) '''' w = (e, w1)" by (rule prod.exhaust)
    then show ?thesis using xack [of "ss_topic S" "ss_group S" w] Pair by (cases e) (simp_all add: stream_Ack_def)
  qed
  have pub: "pending (fst (snd (evt_Ack (stream_publication S '''' body err) st))) = pending (fst st)" for body err st
    using ack by (simp add: stream_publication_def)
  have on_err: "pending (fst (stream_eh S p st)) = pending (fst st)" if "\<And>st. pending (fst (snd (evt_Ack p st))) = pending (fst st)" for p st
    using eh that by (auto simp: stream_eh_def split: option.split)
  have msg: "pending (snd (stream_onMessage S '''' data w)) = pending w" for data w
  proof (cases "redis_body (ss_gob S) (ss_Codec S) (ss_binder S) data")
    case (Inl e)
    then show ?thesis using on_err by (simp add: stream_onMessage_def)
  next
    case (Inr body)
    obtain e st where h: "ss_handler S (ss_ctx S) (Some (stream_publication S '''' body None)) (w, False) = (e, st)" by (rule prod.exhaust)
    have "pending (fst st) = pending w" using handler [of "stream_publication S '''' body None", OF pub] h by (metis fst_conv snd_conv)
    then show ?thesis using Inr h on_err [OF pub] ack [of st] by (cases e) (simp_all add: stream_onMessage_def case_prod_unfold)
  qed
  have one: "pending (stream_entry S (bulk_entry i flds) w) = pending w" for i flds w
    using msg by (auto simp: stream_entry_def bulk_entry_def split: reply.split)
  have all: "pending (snd (stream_entries S (map (\<lambda>(i, flds). bulk_entry i flds) ms) w)) = pending w" for w
    by (induction ms arbitrary: w) (auto simp: one)
  then show ?thesis using entries by (simp add: claimPending_def)
qed

theorem redis_stream_never_acknowledges_witness:
  "fst (snd (stream_entries demo_stream [bulk_entry ''1-0'' [''body'', ''x''], bulk_entry ''2-0'' [''body'', ''y'']] ([''1-0'', ''2-0''], 0)))
     = [''1-0'', ''2-0'']"
proof -
  have h: "fst (fst (snd (ss_handler demo_stream c (Some p) st))) = fst (fst st)" for c p and st :: "(string list \<times> nat) \<times> bool"
    by (cases st) (auto simp: demo_stream_def Subscribe_handler_def split: option.split)
  have x: "fst (snd (ss_xack demo_stream t g '''' w)) = fst w" for t g and w :: "string list \<times> nat"
    by (cases w) (simp add: demo_stream_def)
  have eh: "ss_ErrorHandler demo_stream = None" by (simp add: demo_stream_def)
  have "fst (snd (stream_entries demo_stream (map (\<lambda>(i, flds). bulk_entry i flds) [(''1-0'', [''body'', ''x'']), (''2-0'', [''body'', ''y''])])
       ([''1-0'', ''2-0''], 0))) = fst ([''1-0'', ''2-0''], 0 :: nat)
     \<and> fst (claimPending demo_stream (Inr (RArray [RBulk ''0-0'', RArray (map (\<lambda>(i, flds). bulk_entry i flds)
         [(''1-0'', [''body'', ''x'']), (''2-0'', [''body'', ''y''])])])) ([''1-0'', ''2-0''], 0)) = fst ([''1-0'', ''2-0''], 0 :: nat)"
    by (rule redis_stream_never_acknowledges) (rule x, rule h, simp add: eh, rule refl)
  then show ?thesis by simp
qed

text \<open>
  A request over a redis driver is never answered with \<open>ReplyTo\<close>: \<open>GenericRequest\<close> puts the reply topic into the headers, and neither driver
  gives headers to the receiving side, so that \<open>ReplyTo\<close> refuses without publishing anything.
\<close>

theorem redis_request_cannot_be_answered:
  assumes "prepare_request env options m0 = (replyTopic, m)"
  shows "GetHeader m HeaderReplyTo = replyTopic
     \<and> ReplyTo pub False (evt_Message (pubsub_publication channel d1 e1)) answer opts = (Some ErrRequestNoReplyTo, [])
     \<and> ReplyTo pub False (evt_Message (stream_publication S msgID d2 e2)) answer opts = (Some ErrRequestNoReplyTo, [])"
  using prepare_request_headers [OF assms]
  by (simp add: ReplyTo_def pubsub_publication_def stream_publication_def empty_message_def GetHeader_def)

theorem redis_request_cannot_be_answered_witness:
  "\<exists>env options m0 rt m. prepare_request env options m0 = (rt, m) \<and> rt = ''replies'' \<and> GetHeader m HeaderReplyTo = rt
     \<and> ReplyTo (\<lambda>t m opts. None) False (evt_Message (stream_publication demo_stream ''1-0'' (DInt 7) None)) (DInt 8) [] = (Some ErrRequestNoReplyTo, [])"
proof -
  let ?env = "\<lparr>env_subscribe_err = None, env_publish_err = None, env_uuid_topic = ''u'', env_uuid_id = ''i'', env_deliveries = [], env_ctx_err = None,
     env_done_first = False, env_duration_String = (\<lambda>d. ''1s'')\<rparr>"
  let ?options = "\<lparr>req_Context = None, req_Timeout = 0, req_ReplyTopic = ''replies'', req_BodyCodec = ''''\<rparr>"
  obtain rt m where p: "prepare_request ?env ?options (NewMessage (DInt 7) []) = (rt, m)" by (rule prod.exhaust)
  have "rt = ''replies''" using p by (auto simp: prepare_request_def Let_def)
  then show ?thesis using redis_request_cannot_be_answered [OF p] p by blast
qed

end
