(* ===== verification/Redis_Broker.thy ===== *)
theory Redis_Broker
  imports Redis_Stream Broker_Table "HOL-Library.Sublist"
begin

text \<open>
  The two redis brokers, \<open>broker/redis/pubsub/redis.go\<close> and \<open>broker/redis/stream/redis.go\<close>, their options (\<open>broker/redis/option\<close>), their
  subscribers, and the receiving goroutine of the pubsub driver. The two broker structs have the same fields, so that they are one
  record over the heap of their subscribers. The locale \<open>pooled_broker\<close> says what \<open>Subscribe\<close> needs of a driver's own part of
  the work; both drivers interpret it.
\<close>

section \<open>Options\<close>

text \<open>Durations are nanoseconds.\<close>

record CommonOptions =
  co_MaxIdle :: int
  co_MaxActive :: int
  co_IdleTimeout :: int
  co_ConnectTimeout :: int
  co_ReadTimeout :: int
  co_WriteTimeout :: int
  co_Password :: string

definition Second :: int where "Second = 1000000000"

definition defaultCommonOptions :: CommonOptions where
  "defaultCommonOptions = \<lparr>co_MaxIdle = 256, co_MaxActive = 0, co_IdleTimeout = 0, co_ConnectTimeout = 30 * Second,
     co_ReadTimeout = 30 * Second, co_WriteTimeout = 30 * Second, co_Password = ''''\<rparr>"

definition DefaultHealthCheckPeriod :: int where "DefaultHealthCheckPeriod = 60 * Second"

text \<open>The options of a broker: the addresses, and what the context holds under \<open>OptionsKey\<close>.\<close>

record rd_options =
  rdo_Addrs :: "string list"
  rdo_common :: "CommonOptions option"

type_synonym rd_option = "rd_options \<Rightarrow> rd_options"

definition commonOptions :: "rd_options \<Rightarrow> CommonOptions" where
  "commonOptions opt = (case rdo_common opt of Some x \<Rightarrow> x | None \<Rightarrow> defaultCommonOptions)"

definition redis_WithAddress :: "string list \<Rightarrow> rd_option" where
  "redis_WithAddress addressList opt = opt\<lparr>rdo_Addrs := addressList\<rparr>"

definition redis_WithConnectTimeout :: "int \<Rightarrow> rd_option" where
  "redis_WithConnectTimeout d opt = opt\<lparr>rdo_common := Some ((commonOptions opt)\<lparr>co_ConnectTimeout := d\<rparr>)\<rparr>"

definition redis_WithReadTimeout :: "int \<Rightarrow> rd_option" where
  "redis_WithReadTimeout d opt = opt\<lparr>rdo_common := Some ((commonOptions opt)\<lparr>co_ReadTimeout := d\<rparr>)\<rparr>"

definition redis_WithWriteTimeout :: "int \<Rightarrow> rd_option" where
  "redis_WithWriteTimeout d opt = opt\<lparr>rdo_common := Some ((commonOptions opt)\<lparr>co_WriteTimeout := d\<rparr>)\<rparr>"

definition redis_WithIdleTimeout :: "int \<Rightarrow> rd_option" where
  "redis_WithIdleTimeout d opt = opt\<lparr>rdo_common := Some ((commonOptions opt)\<lparr>co_IdleTimeout := d\<rparr>)\<rparr>"

definition redis_WithMaxIdle :: "int \<Rightarrow> rd_option" where
  "redis_WithMaxIdle n opt = opt\<lparr>rdo_common := Some ((commonOptions opt)\<lparr>co_MaxIdle := n\<rparr>)\<rparr>"

definition redis_WithMaxActive :: "int \<Rightarrow> rd_option" where
  "redis_WithMaxActive n opt = opt\<lparr>rdo_common := Some ((commonOptions opt)\<lparr>co_MaxActive := n\<rparr>)\<rparr>"

definition redis_WithPassword :: "string \<Rightarrow> rd_option" where
  "redis_WithPassword p opt = opt\<lparr>rdo_common := Some ((commonOptions opt)\<lparr>co_Password := p\<rparr>)\<rparr>"

definition redis_WithDefaultOptions :: rd_option where
  "redis_WithDefaultOptions opt = opt\<lparr>rdo_common := Some defaultCommonOptions\<rparr>"

section \<open>The broker\<close>

text \<open>\<open>rk_pool\<close> says whether the pool is set; \<open>rk_next\<close> is the number of the next subscriber.\<close>

record 'w redis_broker =
  rk_addr :: string
  rk_pool :: bool
  rk_options :: rd_options
  rk_commonOpts :: CommonOptions
  rk_subscribers :: "(nat, 'w) sub_state"
  rk_next :: nat

definition defaultRedisBroker :: string where "defaultRedisBroker = ''redis://127.0.0.1:6379''"

definition redis_normalizeAddr :: "string list \<Rightarrow> string" where
  "redis_normalizeAddr addressList =
     (if length addressList = 0 \<or> addressList ! 0 = '''' then defaultRedisBroker
      else let addr = addressList ! 0 in if \<not> prefix ''redis://'' addr then ''redis://'' @ addr else addr)"

definition redis_NewBroker :: "rd_option list \<Rightarrow> 'w \<Rightarrow> 'w redis_broker" where
  "redis_NewBroker opts w =
     \<lparr>rk_addr = '''', rk_pool = False, rk_options = fold (\<lambda>f. f) opts \<lparr>rdo_Addrs = [], rdo_common = None\<rparr>,
      rk_commonOpts = defaultCommonOptions, rk_subscribers = (NewSubscriberSyncMap, w), rk_next = 0\<rparr>"

definition redis_Init :: "string \<Rightarrow> rd_option list \<Rightarrow> 'w redis_broker \<Rightarrow> error option \<times> 'w redis_broker" where
  "redis_Init name opts b =
     (if rk_pool b then (Some (ErrNew (name @ '': cannot init while connected'')), b)
      else
        (let o1 = fold (\<lambda>f. f) opts (rk_options b)
         in (None, b\<lparr>rk_options := o1, rk_commonOpts := (case rdo_common o1 of Some v \<Rightarrow> v | None \<Rightarrow> rk_commonOpts b),
                     rk_addr := redis_normalizeAddr (rdo_Addrs o1)\<rparr>)))"

definition redis_Connect :: "'w redis_broker \<Rightarrow> error option \<times> 'w redis_broker" where
  "redis_Connect b =
     (if rk_pool b then (None, b)
      else (None, b\<lparr>rk_addr := (if rk_addr b = '''' then redis_normalizeAddr (rdo_Addrs (rk_options b)) else rk_addr b), rk_pool := True\<rparr>))"

text \<open>What the pool dials with: the address, the three timeouts and the password.\<close>

definition redis_Dial :: "'w redis_broker \<Rightarrow> string \<times> int \<times> int \<times> int \<times> string" where
  "redis_Dial b =
     (rk_addr b, co_ConnectTimeout (rk_commonOpts b), signed_take_bit 63 (DefaultHealthCheckPeriod + co_ReadTimeout (rk_commonOpts b)),
      co_WriteTimeout (rk_commonOpts b), co_Password (rk_commonOpts b))"

text \<open>\<open>ce\<close> is the error of closing the pool.\<close>

definition redis_Disconnect :: "error option \<Rightarrow> (nat, 'w) unsub_fn \<Rightarrow> 'w redis_broker \<Rightarrow> error option \<times> 'w redis_broker" where
  "redis_Disconnect ce unsub b =
     (if \<not> rk_pool b then (None, b)
      else (ce, b\<lparr>rk_pool := False, rk_addr := '''', rk_subscribers := SubscriberSyncMap_Clear unsub (rk_subscribers b)\<rparr>))"

text \<open>\<open>prep\<close> is the driver's own part: it makes the subscriber with the given number, or fails.\<close>

definition redis_Subscribe ::
    "string \<Rightarrow> (nat, 'w) unsub_fn \<Rightarrow> (nat \<Rightarrow> string \<Rightarrow> 'x \<Rightarrow> 'w \<Rightarrow> error option \<times> 'w) \<Rightarrow> string \<Rightarrow> 'x \<Rightarrow> 'w redis_broker
      \<Rightarrow> (error + nat) \<times> 'w redis_broker" where
  "redis_Subscribe name unsub prep topic x b =
     (if \<not> rk_pool b then (Inl (ErrNew (name @ '': not connected'')), b)
      else
        (let (m, w) = rk_subscribers b; sub = rk_next b
         in (case prep sub topic x w of
               (Some e, w1) \<Rightarrow> (Inl e, b\<lparr>rk_subscribers := (m, w1)\<rparr>)
             | (None, w1) \<Rightarrow> (Inr sub, b\<lparr>rk_subscribers := replace_subscriber unsub topic sub (m, w1), rk_next := Suc sub\<rparr>))))"

definition redis_Unsubscribe :: "(nat, 'w) unsub_fn \<Rightarrow> nat \<Rightarrow> bool \<Rightarrow> 'w redis_broker \<Rightarrow> error option \<times> 'w redis_broker" where
  "redis_Unsubscribe unsub sub rm b = (let (e, st) = unsub sub rm (rk_subscribers b) in (e, b\<lparr>rk_subscribers := st\<rparr>))"

section \<open>The subscribers of the stream driver\<close>

record rd_sub_options =
  rx_group :: "string option"
  rx_consumer :: "string option"
  rx_blockTime :: "int option"
  rx_count :: "int option"

definition WithStreamGroup :: "string \<Rightarrow> rd_sub_options \<Rightarrow> rd_sub_options" where
  "WithStreamGroup grp x = x\<lparr>rx_group := Some grp\<rparr>"

definition WithStreamConsumer :: "string \<Rightarrow> rd_sub_options \<Rightarrow> rd_sub_options" where
  "WithStreamConsumer consumer x = x\<lparr>rx_consumer := Some consumer\<rparr>"

definition WithStreamBlockTime :: "int \<Rightarrow> rd_sub_options \<Rightarrow> rd_sub_options" where
  "WithStreamBlockTime d x = x\<lparr>rx_blockTime := Some d\<rparr>"

definition WithStreamCount :: "int \<Rightarrow> rd_sub_options \<Rightarrow> rd_sub_options" where
  "WithStreamCount n x = x\<lparr>rx_count := Some n\<rparr>"

record ssub =
  sb_topic :: string
  sb_group :: string
  sb_consumer :: string
  sb_blockTime :: int
  sb_count :: int
  sb_closed :: bool

definition new_ssub :: "string \<Rightarrow> rd_sub_options \<Rightarrow> ssub" where
  "new_ssub topic x =
     \<lparr>sb_topic = topic,
      sb_group = (case rx_group x of Some v \<Rightarrow> if v \<noteq> '''' then v else ''kratos-group'' | None \<Rightarrow> ''kratos-group''),
      sb_consumer = (case rx_consumer x of Some v \<Rightarrow> if v \<noteq> '''' then v else ''kratos-consumer'' | None \<Rightarrow> ''kratos-consumer''),
      sb_blockTime = (case rx_blockTime x of Some v \<Rightarrow> if v > 0 then v else 5 * Second | None \<Rightarrow> 5 * Second),
      sb_count = (case rx_count x of Some v \<Rightarrow> if v > 0 then v else 10 | None \<Rightarrow> 10),
      sb_closed = False\<rparr>"

text \<open>\<open>G\<close> answers \<open>XGROUP CREATE\<close>: its error, and whether the error's text contains \<open>BUSYGROUP\<close>.\<close>

definition stream_prep :: "(string \<Rightarrow> string \<Rightarrow> error option \<times> bool) \<Rightarrow> nat \<Rightarrow> string \<Rightarrow> rd_sub_options \<Rightarrow> (nat \<Rightarrow> ssub) \<Rightarrow> error option \<times> (nat \<Rightarrow> ssub)" where
  "stream_prep G n topic x w =
     (let s = new_ssub topic x
      in (case ensureGroup (fst (G topic (sb_group s))) (snd (G topic (sb_group s))) of
            Some e \<Rightarrow> (Some e, w)
          | None \<Rightarrow> (None, w(n := s))))"

definition stream_Unsubscribe :: "(nat, nat \<Rightarrow> ssub) unsub_fn" where
  "stream_Unsubscribe s removeFromManager st =
     (None, (if removeFromManager then snd (SubscriberSyncMap_RemoveOnly (sb_topic (snd st s)) (fst st)) else fst st,
             (snd st)(s := (snd st s)\<lparr>sb_closed := True\<rparr>)))"

section \<open>The subscribers of the pubsub driver\<close>

text \<open>
  A connection of the pool: open until the client closes it, broken when the network has lost it; \<open>cn_sub\<close> says that the server has it
  subscribed.
\<close>

record pconn =
  cn_open :: bool
  cn_broken :: bool
  cn_sub :: bool

definition new_conn :: pconn where "new_conn = \<lparr>cn_open = True, cn_broken = False, cn_sub = True\<rparr>"

record psub =
  pb_topic :: string
  pb_closed :: bool
  pb_conn :: "nat option"

text \<open>\<open>U\<close> is the error of the command \<open>UNSUBSCRIBE\<close> on a connection.\<close>

definition psub_Unsubscribe :: "(pconn \<Rightarrow> error option) \<Rightarrow> psub \<Rightarrow> pconn list \<Rightarrow> error option \<times> psub \<times> pconn list" where
  "psub_Unsubscribe U s cs =
     (case pb_conn s of
        None \<Rightarrow> (None, s\<lparr>pb_closed := True\<rparr>, cs)
      | Some c \<Rightarrow> (U (cs ! c), s\<lparr>pb_closed := True\<rparr>, cs[c := (cs ! c)\<lparr>cn_sub := False\<rparr>]))"

record pworld =
  pw_heap :: "nat \<Rightarrow> psub"
  pw_conns :: "pconn list"

definition pubsub_Unsubscribe :: "(pconn \<Rightarrow> error option) \<Rightarrow> (nat, pworld) unsub_fn" where
  "pubsub_Unsubscribe U s removeFromManager st =
     (let w = snd st;
          (err, s1, cs) = psub_Unsubscribe U (pw_heap w s) (pw_conns w);
          m = (if removeFromManager then snd (SubscriberSyncMap_RemoveOnly (pb_topic (pw_heap w s)) (fst st)) else fst st)
      in (err, (m, w\<lparr>pw_heap := (pw_heap w)(s := s1), pw_conns := cs\<rparr>)))"

text \<open>\<open>V\<close> is the error of the command \<open>SUBSCRIBE\<close> on a new connection; it also covers a failed dial.\<close>

definition pubsub_prep :: "(string \<Rightarrow> error option) \<Rightarrow> nat \<Rightarrow> string \<Rightarrow> rd_sub_options \<Rightarrow> pworld \<Rightarrow> error option \<times> pworld" where
  "pubsub_prep V n topic x w =
     (case V topic of
        Some e \<Rightarrow> (Some e, w)
      | None \<Rightarrow> (None, w\<lparr>pw_heap := (pw_heap w)(n := \<lparr>pb_topic = topic, pb_closed = False, pb_conn = Some (length (pw_conns w))\<rparr>),
                         pw_conns := pw_conns w @ [new_conn]\<rparr>))"

section \<open>The receiving goroutine of the pubsub driver\<close>

text \<open>
  \<open>recv\<close> cut where it tests \<open>closed\<close> and where it takes the lock: \<open>VCheck\<close> is the top of the loop, \<open>VConn\<close> the test for a connection, \<open>VReconnect\<close>
  the call of \<open>reconnect\<close>, \<open>VLoop\<close> a turn of \<open>receiveLoop\<close>, \<open>VClose\<close> the closing of the connection, \<open>VAfter\<close> the test after it, \<open>VSleep\<close> a pause.
  The number is the delay in seconds.
\<close>

datatype vpc =
    VCheck int
  | VConn int
  | VReconnect int
  | VLoop int
  | VClose int "error option"
  | VAfter int "error option"
  | VSleep int
  | VDone

record 'w prun =
  pr_sub :: psub
  pr_conns :: "pconn list"
  pr_world :: 'w

text \<open>What a turn meets: whether a pause ends because the context is done, whether the pool is set, the error of \<open>SUBSCRIBE\<close>, the health check, a frame.\<close>

record vturn =
  vi_ctx_done :: bool
  vi_pool :: bool
  vi_subscribe :: "error option"
  vi_ping :: "error option option"
  vi_frame :: pubsub_frame

definition pubsub_reconnect :: "bool \<Rightarrow> error option \<Rightarrow> 'w prun \<Rightarrow> bool \<times> 'w prun" where
  "pubsub_reconnect pool err z =
     (if \<not> pool then (False, z)
      else (case err of
              Some e \<Rightarrow> (False, z)
            | None \<Rightarrow> (True, z\<lparr>pr_sub := (pr_sub z)\<lparr>pb_conn := Some (length (pr_conns z))\<rparr>, pr_conns := pr_conns z @ [new_conn]\<rparr>)))"

fun recv_turn :: "'w pubsub_sub \<Rightarrow> vturn \<Rightarrow> vpc \<Rightarrow> 'w prun \<Rightarrow> (vpc \<times> 'w prun) option" where
  "recv_turn S i (VCheck dl) z = Some (if pb_closed (pr_sub z) then VDone else VConn dl, z)"
| "recv_turn S i (VConn dl) z = Some (if pb_conn (pr_sub z) \<noteq> None then VLoop dl else VReconnect dl, z)"
| "recv_turn S i (VReconnect dl) z =
     Some (case pubsub_reconnect (vi_pool i) (vi_subscribe i) z of (True, z1) \<Rightarrow> (VLoop 1, z1) | (False, z1) \<Rightarrow> (VSleep dl, z1))"
| "recv_turn S i (VLoop dl) z =
     Some (case pubsub_turn S (vi_ping i) (pb_conn (pr_sub z) \<noteq> None) (vi_frame i) (pr_world z) of
             (Some err, w1) \<Rightarrow> (VClose dl err, z\<lparr>pr_world := w1\<rparr>)
           | (None, w1) \<Rightarrow> (VLoop dl, z\<lparr>pr_world := w1\<rparr>))"
| "recv_turn S i (VClose dl err) z =
     Some (VAfter dl err,
       (case pb_conn (pr_sub z) of
          None \<Rightarrow> z
        | Some c \<Rightarrow> z\<lparr>pr_conns := (pr_conns z)[c := (pr_conns z ! c)\<lparr>cn_open := False, cn_sub := False\<rparr>], pr_sub := (pr_sub z)\<lparr>pb_conn := None\<rparr>\<rparr>))"
| "recv_turn S i (VAfter dl err) z = Some (if err = None \<or> pb_closed (pr_sub z) then VDone else VSleep dl, z)"
| "recv_turn S i (VSleep dl) z = Some (if vi_ctx_done i then VDone else VCheck (if dl < 30 then dl * 2 else dl), z)"
| "recv_turn S i VDone z = None"

text \<open>
  What a connection can give the loop: a broken one only errors, and the server confirms that the last subscription is gone only
  after it has dropped it.
\<close>

definition frame_ok :: "pconn \<Rightarrow> pubsub_frame \<Rightarrow> bool" where
  "frame_ok c f \<longleftrightarrow> (case f of PubError e \<Rightarrow> True | PubSubscription n \<Rightarrow> \<not> cn_broken c \<and> (n = 0 \<longrightarrow> \<not> cn_sub c) | _ \<Rightarrow> \<not> cn_broken c)"

definition turn_ok :: "vturn \<Rightarrow> vpc \<Rightarrow> 'w prun \<Rightarrow> bool" where
  "turn_ok i pc z \<longleftrightarrow> (case (pc, pb_conn (pr_sub z)) of (VLoop dl, Some c) \<Rightarrow> vi_ping i = None \<longrightarrow> frame_ok (pr_conns z ! c) (vi_frame i) | _ \<Rightarrow> True)"

definition prun_Unsubscribe :: "(pconn \<Rightarrow> error option) \<Rightarrow> 'w prun \<Rightarrow> 'w prun" where
  "prun_Unsubscribe U z = (case psub_Unsubscribe U (pr_sub z) (pr_conns z) of (e, s, cs) \<Rightarrow> z\<lparr>pr_sub := s, pr_conns := cs\<rparr>)"

inductive recv_step :: "'w pubsub_sub \<Rightarrow> vpc \<times> 'w prun \<Rightarrow> vpc \<times> 'w prun \<Rightarrow> bool" for S where
  turn: "\<lbrakk>turn_ok i pc z; recv_turn S i pc z = Some (pc', z')\<rbrakk> \<Longrightarrow> recv_step S (pc, z) (pc', z')"
| unsubscribe: "recv_step S (pc, z) (pc, prun_Unsubscribe U z)"
| lose: "c < length (pr_conns z) \<Longrightarrow> recv_step S (pc, z) (pc, z\<lparr>pr_conns := (pr_conns z)[c := (pr_conns z ! c)\<lparr>cn_broken := True, cn_sub := False\<rparr>]\<rparr>)"

definition recv_start :: "string \<Rightarrow> 'w \<Rightarrow> vpc \<times> 'w prun" where
  "recv_start topic w = (VCheck 1, \<lparr>pr_sub = \<lparr>pb_topic = topic, pb_closed = False, pb_conn = Some 0\<rparr>, pr_conns = [new_conn], pr_world = w\<rparr>)"

fun recv_run :: "'w pubsub_sub \<Rightarrow> vturn list \<Rightarrow> vpc \<Rightarrow> 'w prun \<Rightarrow> vpc \<times> 'w prun" where
  "recv_run S [] pc z = (pc, z)"
| "recv_run S (i # is) pc z = (case recv_turn S i pc z of None \<Rightarrow> recv_run S is pc z | Some (pc', z') \<Rightarrow> recv_run S is pc' z')"

section \<open>Lemmas\<close>

subsection \<open>The table\<close>

text \<open>What a driver's own part of \<open>Subscribe\<close> does to the heap of the subscribers.\<close>

locale pooled_broker = subscription_table unsub topic_of is_closed
  for unsub :: "(nat, 'w) unsub_fn" and topic_of :: "'w \<Rightarrow> nat \<Rightarrow> string" and is_closed :: "'w \<Rightarrow> nat \<Rightarrow> bool" +
  fixes prep :: "nat \<Rightarrow> string \<Rightarrow> 'x \<Rightarrow> 'w \<Rightarrow> error option \<times> 'w"
  assumes prep_ok: "prep n t x w = (None, w1) \<Longrightarrow> topic_of w1 = (topic_of w)(n := t) \<and> is_closed w1 = (is_closed w)(n := False)"
    and prep_err: "prep n t x w = (Some e, w1) \<Longrightarrow> topic_of w1 = topic_of w \<and> is_closed w1 = is_closed w"
begin

definition rk_ok :: "'w redis_broker \<Rightarrow> bool" where
  "rk_ok b \<longleftrightarrow> tab_ok (rk_subscribers b) (rk_next b)"

definition rk_live :: "'w redis_broker \<Rightarrow> nat set" where
  "rk_live b = tab_live (rk_subscribers b) (rk_next b)"

definition rk_topic :: "'w redis_broker \<Rightarrow> nat \<Rightarrow> string" where
  "rk_topic b = topic_of (snd (rk_subscribers b))"

lemma pooled_Subscribe:
  assumes ok: "rk_ok b" and sub: "redis_Subscribe name unsub prep t x b = (r, b')"
  shows "(case r of
      Inl e \<Rightarrow> rk_ok b' \<and> rk_live b' \<subseteq> rk_live b
    | Inr i \<Rightarrow> rk_ok b' \<and> i \<in> rk_live b' \<and> rk_live b' \<subseteq> insert i (rk_live b) \<and> rk_topic b' i = t
        \<and> (\<forall>j\<in>rk_live b. rk_topic b j \<noteq> t \<longrightarrow> j \<in> rk_live b' \<and> rk_topic b' j = rk_topic b j))"
proof (cases "rk_pool b")
  case False
  then show ?thesis using ok sub by (auto simp: redis_Subscribe_def)
next
  case pool: True
  obtain m w where st: "rk_subscribers b = (m, w)" by force
  have ok': "tab_ok (m, w) (rk_next b)" using ok by (simp add: rk_ok_def st)
  obtain e w1 where p: "prep (rk_next b) t x w = (e, w1)" by (rule prod.exhaust)
  show ?thesis
  proof (cases e)
    case None
    then have "r = Inr (rk_next b)" "rk_subscribers b' = replace_subscriber unsub t (rk_next b) (m, w1)" "rk_next b' = Suc (rk_next b)"
      using sub pool p by (auto simp: redis_Subscribe_def st Let_def)
    moreover have "topic_of w1 = (topic_of w)(rk_next b := t)" "is_closed w1 = (is_closed w)(rk_next b := False)"
      using prep_ok p None by auto
    note tab_replace [OF ok' this]
    ultimately show ?thesis by (auto simp: rk_ok_def rk_live_def rk_topic_def st)
  next
    case (Some er)
    then have "r = Inl er" "rk_subscribers b' = (m, w1)" "rk_next b' = rk_next b" using sub pool p by (auto simp: redis_Subscribe_def st Let_def)
    then show ?thesis using ok' prep_err p Some by (auto simp: rk_ok_def rk_live_def st tab_ok_def tab_live_def)
  qed
qed

lemma pooled_Init: "rk_ok (snd (redis_Init name opts b)) = rk_ok b" "rk_live (snd (redis_Init name opts b)) = rk_live b"
  by (simp_all add: redis_Init_def rk_ok_def rk_live_def Let_def)

lemma pooled_Connect: "rk_ok (snd (redis_Connect b)) = rk_ok b" "rk_live (snd (redis_Connect b)) = rk_live b"
  by (simp_all add: redis_Connect_def rk_ok_def rk_live_def)

lemma pooled_Disconnect:
  assumes "rk_ok b"
  shows "rk_ok (snd (redis_Disconnect ce unsub b))" "rk_live (snd (redis_Disconnect ce unsub b)) \<subseteq> rk_live b"
  using assms tab_clear [of "rk_subscribers b" "rk_next b"] by (auto simp: redis_Disconnect_def rk_ok_def rk_live_def)

lemma pooled_Unsubscribe:
  assumes "rk_ok b"
  shows "rk_ok (snd (redis_Unsubscribe unsub i rm b))" "rk_live (snd (redis_Unsubscribe unsub i rm b)) = rk_live b - {i}"
  using tab_unsub [OF assms [unfolded rk_ok_def], of i rm] by (simp_all add: redis_Unsubscribe_def rk_ok_def rk_live_def Let_def case_prod_unfold)

lemma pooled_new: "rk_ok (redis_NewBroker opts w)" "rk_live (redis_NewBroker opts w) = {}"
  by (simp_all add: rk_ok_def rk_live_def tab_ok_def tab_live_def redis_NewBroker_def NewSubscriberSyncMap_def)

end

lemma new_ssub_fields [simp]: "sb_topic (new_ssub t x) = t" "\<not> sb_closed (new_ssub t x)"
  by (simp_all add: new_ssub_def)

lemma stream_prep_world:
  "stream_prep G n t x w = (e, w1) \<Longrightarrow> w1 = (if e = None then w(n := new_ssub t x) else w)"
  by (auto simp: stream_prep_def Let_def split: option.splits)

interpretation stream_pool: pooled_broker stream_Unsubscribe "\<lambda>w s. sb_topic (w s)" "\<lambda>w s. sb_closed (w s)" "stream_prep G" for G
proof unfold_locales
  fix s b and st :: "(nat, nat \<Rightarrow> ssub) sub_state"
  show "fst (snd (stream_Unsubscribe s b st)) = (if b then gomap_delete (sb_topic (snd st s)) (fst st) else fst st)"
    by (auto simp: stream_Unsubscribe_def SubscriberSyncMap_RemoveOnly_def dom_gomap [symmetric] domIff gomap_delete_absent split: option.splits)
qed (auto simp: stream_Unsubscribe_def fun_eq_iff dest!: stream_prep_world)

interpretation pubsub_pool: pooled_broker "pubsub_Unsubscribe U" "\<lambda>w s. pb_topic (pw_heap w s)" "\<lambda>w s. pb_closed (pw_heap w s)" "pubsub_prep V" for U V
proof unfold_locales
  fix s b and st :: "(nat, pworld) sub_state"
  show "fst (snd (pubsub_Unsubscribe U s b st)) = (if b then gomap_delete (pb_topic (pw_heap (snd st) s)) (fst st) else fst st)"
    by (auto simp: pubsub_Unsubscribe_def psub_Unsubscribe_def SubscriberSyncMap_RemoveOnly_def Let_def dom_gomap [symmetric] domIff gomap_delete_absent
        split: option.splits prod.splits)
qed (auto simp: pubsub_Unsubscribe_def psub_Unsubscribe_def pubsub_prep_def Let_def fun_eq_iff split: option.splits prod.splits)

subsection \<open>The goroutine\<close>

fun vpc_delay :: "vpc \<Rightarrow> int option" where
  "vpc_delay (VCheck dl) = Some dl"
| "vpc_delay (VConn dl) = Some dl"
| "vpc_delay (VReconnect dl) = Some dl"
| "vpc_delay (VLoop dl) = Some dl"
| "vpc_delay (VClose dl err) = Some dl"
| "vpc_delay (VAfter dl err) = Some dl"
| "vpc_delay (VSleep dl) = Some dl"
| "vpc_delay VDone = None"

text \<open>Where the subscriber is known to have a connection, and where it is known to have none.\<close>

fun vpc_conn :: "vpc \<Rightarrow> bool option" where
  "vpc_conn (VReconnect dl) = Some False"
| "vpc_conn (VLoop dl) = Some True"
| "vpc_conn (VClose dl err) = Some True"
| "vpc_conn (VAfter dl err) = Some False"
| "vpc_conn (VSleep dl) = Some False"
| "vpc_conn pc = None"

definition conns_ok :: "psub \<Rightarrow> pconn list \<Rightarrow> bool" where
  "conns_ok s cs \<longleftrightarrow> (\<forall>c<length cs. cn_open (cs ! c) \<longleftrightarrow> pb_conn s = Some c) \<and> (\<forall>c. pb_conn s = Some c \<longrightarrow> c < length cs)
     \<and> (\<forall>c<length cs. cn_sub (cs ! c) \<longrightarrow> cn_open (cs ! c))"

lemma update_nth: "xs[i := y] ! j = (if i = j \<and> i < length xs then y else xs ! j)"
  by (cases "i < length xs") (simp_all add: nth_list_update list_update_beyond)

lemma conns_ok_new: "\<lbrakk>conns_ok s cs; pb_conn s = None\<rbrakk> \<Longrightarrow> conns_ok (s\<lparr>pb_conn := Some (length cs)\<rparr>) (cs @ [new_conn])"
  by (auto simp: conns_ok_def new_conn_def nth_append)

lemma conns_ok_close:
  "\<lbrakk>conns_ok s cs; pb_conn s = Some c\<rbrakk> \<Longrightarrow> conns_ok (s\<lparr>pb_conn := None\<rparr>) (cs[c := (cs ! c)\<lparr>cn_open := False, cn_sub := False\<rparr>])"
  by (auto simp: conns_ok_def update_nth)

lemma conns_ok_unsub:
  assumes "conns_ok s cs" "psub_Unsubscribe U s cs = (e, s', cs')"
  shows "conns_ok s' cs'" "pb_conn s' = pb_conn s" "pb_closed s'" "c < length cs' \<Longrightarrow> \<not> cn_sub (cs' ! c)"
proof -
  show conn: "pb_conn s' = pb_conn s" and "pb_closed s'" using assms(2) by (simp_all add: psub_Unsubscribe_def split: option.splits) auto
  have len: "length cs' = length cs" "cn_open (cs' ! d) = cn_open (cs ! d)" "cn_sub (cs' ! d) \<longrightarrow> cn_sub (cs ! d)" for d
    using assms(2) by (auto simp: psub_Unsubscribe_def update_nth split: option.splits if_splits)
  then show "conns_ok s' cs'" using assms(1) conn unfolding conns_ok_def by (metis (no_types, lifting))
  have "\<not> cn_sub (cs' ! d)" if "pb_conn s = Some d" "d < length cs" for d using that assms(2) by (auto simp: psub_Unsubscribe_def)
  then show "\<not> cn_sub (cs' ! c)" if "c < length cs'" using that len(1) len(2) [of c] len(3) [of c] assms(1) by (metis conns_ok_def)
qed

lemma conns_ok_open: "conns_ok s cs \<Longrightarrow> {c. c < length cs \<and> cn_open (cs ! c)} = set_option (pb_conn s)"
  unfolding conns_ok_def by (cases "pb_conn s") force+

lemma conns_ok_lose: "conns_ok s cs \<Longrightarrow> conns_ok s (cs[c := (cs ! c)\<lparr>cn_broken := True, cn_sub := False\<rparr>])"
  by (auto simp: conns_ok_def update_nth)

definition pc_ok :: "vpc \<Rightarrow> psub \<Rightarrow> bool" where
  "pc_ok pc s \<longleftrightarrow> vpc_conn pc \<in> {None, Some (pb_conn s \<noteq> None)} \<and> (\<forall>dl. vpc_delay pc = Some dl \<longrightarrow> dl \<in> {1, 2, 4, 8, 16, 32})"

definition pr_inv :: "vpc \<times> 'w prun \<Rightarrow> bool" where
  "pr_inv st \<longleftrightarrow> conns_ok (pr_sub (snd st)) (pr_conns (snd st)) \<and> pc_ok (fst st) (pr_sub (snd st))"

lemma pr_inv_reconnect:
  assumes "pr_inv (VReconnect dl, z)" "recv_turn S i (VReconnect dl) z = Some (pc', z')"
  shows "pr_inv (pc', z')"
  using assms conns_ok_new [of "pr_sub z" "pr_conns z"] by (auto simp: pr_inv_def pc_ok_def pubsub_reconnect_def split: if_splits option.splits)

lemma pr_inv_turn:
  assumes "pr_inv (pc, z)" "recv_turn S i pc z = Some (pc', z')"
  shows "pr_inv (pc', z')"
proof (cases pc)
  case (VReconnect dl)
  then show ?thesis using assms pr_inv_reconnect by blast
next
  case (VLoop dl)
  then show ?thesis using assms by (auto simp: pr_inv_def pc_ok_def split: prod.splits option.splits)
next
  case (VClose dl err)
  then show ?thesis using assms conns_ok_close [of "pr_sub z" "pr_conns z"] by (auto simp: pr_inv_def pc_ok_def split: option.splits)
qed (use assms in \<open>auto simp: pr_inv_def pc_ok_def split: if_splits\<close>)

lemma pr_inv_unsubscribe:
  assumes "pr_inv (pc, z)"
  shows "pr_inv (pc, prun_Unsubscribe U z)"
proof -
  obtain e s cs where u: "psub_Unsubscribe U (pr_sub z) (pr_conns z) = (e, s, cs)" by (metis prod.exhaust)
  show ?thesis using conns_ok_unsub [OF _ u] assms by (simp add: prun_Unsubscribe_def u pr_inv_def pc_ok_def)
qed

lemma pr_inv_step: "\<lbrakk>recv_step S st st'; pr_inv st\<rbrakk> \<Longrightarrow> pr_inv st'"
proof (induction rule: recv_step.induct)
  case (lose c z pc)
  then show ?case using conns_ok_lose by (simp add: pr_inv_def)
qed (simp_all add: pr_inv_turn pr_inv_unsubscribe)

lemma pr_inv_steps: "\<lbrakk>(recv_step S)\<^sup>*\<^sup>* st st'; pr_inv st\<rbrakk> \<Longrightarrow> pr_inv st'"
  by (induction rule: rtranclp_induct) (simp_all add: pr_inv_step)

lemma pr_inv_reach: "(recv_step S)\<^sup>*\<^sup>* (recv_start topic w) st \<Longrightarrow> pr_inv st"
  by (erule pr_inv_steps) (simp add: pr_inv_def recv_start_def new_conn_def conns_ok_def pc_ok_def)

text \<open>The subscriber is closed, the server has none of its connections subscribed, and no new one is on its way.\<close>

definition pr_quiet :: "vpc \<times> 'w prun \<Rightarrow> bool" where
  "pr_quiet st \<longleftrightarrow> (case st of (pc, z) \<Rightarrow>
     pb_closed (pr_sub z) \<and> (\<forall>c<length (pr_conns z). \<not> cn_sub (pr_conns z ! c))
     \<and> (\<forall>dl. pc \<noteq> VReconnect dl) \<and> (\<forall>dl. pc = VConn dl \<longrightarrow> pb_conn (pr_sub z) \<noteq> None))"

lemma pr_quiet_step: "\<lbrakk>recv_step S st st'; pr_quiet st\<rbrakk> \<Longrightarrow> pr_quiet st'"
proof (induction rule: recv_step.induct)
  case (turn i pc z pc' z')
  then show ?case by (cases pc) (auto simp: pr_quiet_def update_nth split: if_splits option.splits prod.splits)
next
  case (unsubscribe pc z U)
  then show ?case by (auto simp: pr_quiet_def prun_Unsubscribe_def psub_Unsubscribe_def update_nth split: option.splits)
next
  case (lose c z pc)
  then show ?case by (auto simp: pr_quiet_def update_nth)
qed

lemma pr_quiet_steps: "\<lbrakk>(recv_step S)\<^sup>*\<^sup>* st st'; pr_quiet st\<rbrakk> \<Longrightarrow> pr_quiet st'"
  by (induction rule: rtranclp_induct) (auto intro: pr_quiet_step)

definition msg_turn :: "string \<Rightarrow> bytes \<Rightarrow> vturn" where
  "msg_turn channel data = \<lparr>vi_ctx_done = False, vi_pool = True, vi_subscribe = None, vi_ping = None, vi_frame = PubMessage channel data\<rparr>"

lemma run_messages:
  assumes "pb_conn (pr_sub z) = Some c"
  shows "recv_run S (map (msg_turn ch) ds) (VLoop dl) z = (VLoop dl, z\<lparr>pr_world := fold (\<lambda>d w. snd (pubsub_onMessage S ch d w)) ds (pr_world z)\<rparr>)"
  using assms by (induction ds arbitrary: z) (simp_all add: msg_turn_def pubsub_turn_def)

section \<open>Properties\<close>

text \<open>
  The receiving goroutine of a pubsub subscriber keeps at most one connection. Whatever losses of connections, failed attempts and calls
  of \<open>Unsubscribe\<close> happen in whatever interleaving with it, a connection of the subscriber is open exactly when it is the one the
  subscriber holds, the goroutine only receives while there is one, and every pause lasts 1, 2, 4, 8, 16 or 32 seconds.
\<close>

theorem pubsub_one_connection_per_subscriber:
  assumes "(recv_step S)\<^sup>*\<^sup>* (recv_start topic w) (pc, z)"
  shows "{c. c < length (pr_conns z) \<and> cn_open (pr_conns z ! c)} = set_option (pb_conn (pr_sub z))
     \<and> (\<forall>dl. pc = VLoop dl \<longrightarrow> pb_conn (pr_sub z) \<noteq> None) \<and> (\<forall>dl. pc = VSleep dl \<longrightarrow> dl \<in> {1, 2, 4, 8, 16, 32})"
proof -
  have "conns_ok (pr_sub z) (pr_conns z)" and pc: "pc_ok pc (pr_sub z)" using pr_inv_reach [OF assms] by (simp_all add: pr_inv_def)
  note conns_ok_open [OF this(1)]
  moreover have "pb_conn (pr_sub z) \<noteq> None" if "pc = VLoop dl" for dl using pc that by (simp add: pc_ok_def)
  moreover have "dl \<in> {1, 2, 4, 8, 16, 32}" if "pc = VSleep dl" for dl using pc that by (simp add: pc_ok_def)
  ultimately show ?thesis by simp
qed

definition demo_pubsub :: "string list pubsub_sub" where
  "demo_pubsub = \<lparr>pv_ctx = [], pv_handler = (\<lambda>c e w. (None, w @ [''run''])), pv_binder = None, pv_ErrorHandler = None, pv_gob = redis_codec,
     pv_Codec = None, pv_AutoAck = True\<rparr>"

lemma demo_recv_loops: "(recv_step demo_pubsub)\<^sup>*\<^sup>* (recv_start ''t'' []) (VLoop 1, snd (recv_start ''t'' []))"
proof -
  let ?i = "msg_turn ''t'' ''x''" and ?z = "snd (recv_start ''t'' [])"
  have "recv_step demo_pubsub (recv_start ''t'' []) (VConn 1, ?z)"
    using recv_step.turn [of ?i "VCheck 1" ?z demo_pubsub "VConn 1" ?z] by (simp add: recv_start_def turn_ok_def)
  moreover have "recv_step demo_pubsub (VConn 1, ?z) (VLoop 1, ?z)"
    using recv_step.turn [of ?i "VConn 1" ?z demo_pubsub "VLoop 1" ?z] by (simp add: recv_start_def turn_ok_def)
  ultimately show ?thesis by (meson converse_rtranclp_into_rtranclp r_into_rtranclp)
qed

theorem pubsub_one_connection_per_subscriber_witness:
  "{c. c < length (pr_conns (snd (recv_start ''t'' []))) \<and> cn_open (pr_conns (snd (recv_start ''t'' ([] :: string list))) ! c)} = {0}"
  using pubsub_one_connection_per_subscriber [OF demo_recv_loops] by (simp add: recv_start_def)

text \<open>
  C16: \<open>Unsubscribe\<close> ends a pubsub subscription that is not being reconnected: afterwards, whatever happens, the server never has a connection
  of the subscriber subscribed again, and when the confirmation of the server arrives the goroutine closes its connection and ends
  without another pause.
\<close>

theorem pubsub_unsubscribe_is_final:
  assumes "(recv_step S)\<^sup>*\<^sup>* (recv_start topic w) (pc, z)"
    and "\<And>dl. pc \<noteq> VReconnect dl" and "\<And>dl. pc = VConn dl \<Longrightarrow> pb_conn (pr_sub z) \<noteq> None"
    and "(recv_step S)\<^sup>*\<^sup>* (pc, prun_Unsubscribe U z) (pc', z')"
  shows "(\<forall>c<length (pr_conns z'). \<not> cn_sub (pr_conns z' ! c))
     \<and> (\<forall>dl i j k pc2 z2. pc' = VLoop dl \<longrightarrow> vi_ping i = None \<longrightarrow> vi_frame i = PubSubscription 0 \<longrightarrow> recv_run S [i, j, k] pc' z' = (pc2, z2)
          \<longrightarrow> pc2 = VDone \<and> (\<forall>c<length (pr_conns z2). \<not> cn_open (pr_conns z2 ! c)))"
proof -
  have inv: "pr_inv (pc, z)" by (rule pr_inv_reach [OF assms(1)])
  then have ok: "conns_ok (pr_sub z) (pr_conns z)" by (simp add: pr_inv_def)
  obtain e s cs where u: "psub_Unsubscribe U (pr_sub z) (pr_conns z) = (e, s, cs)" by (metis prod.exhaust)
  have "pr_quiet (pc, prun_Unsubscribe U z)"
    using assms(2,3) conns_ok_unsub [OF ok u] by (auto simp: pr_quiet_def prun_Unsubscribe_def u)
  then have q: "pr_quiet (pc', z')" by (rule pr_quiet_steps [OF assms(4)])
  have inv': "pr_inv (pc', z')" by (rule pr_inv_steps [OF assms(4) pr_inv_unsubscribe [OF inv]])
  have "pc2 = VDone \<and> (\<forall>c<length (pr_conns z2). \<not> cn_open (pr_conns z2 ! c))"
    if "pc' = VLoop dl" "vi_ping i = None" "vi_frame i = PubSubscription 0" "recv_run S [i, j, k] pc' z' = (pc2, z2)" for dl i j k pc2 z2
  proof -
    have "pb_conn (pr_sub z') \<noteq> None" using inv' that(1) by (simp add: pr_inv_def pc_ok_def)
    then obtain c where c: "pb_conn (pr_sub z') = Some c" by blast
    define cs where "cs = (pr_conns z')[c := (pr_conns z' ! c)\<lparr>cn_open := False, cn_sub := False\<rparr>]"
    have "pc2 = VDone" "pr_conns z2 = cs" using that c by (auto simp: pubsub_turn_def cs_def)
    moreover have "conns_ok ((pr_sub z')\<lparr>pb_conn := None\<rparr>) cs" using inv' conns_ok_close [OF _ c] by (simp add: pr_inv_def cs_def)
    ultimately show ?thesis by (simp add: conns_ok_def)
  qed
  then show ?thesis using q by (auto simp: pr_quiet_def)
qed

theorem pubsub_unsubscribe_is_final_witness:
  "\<not> cn_sub (pr_conns (prun_Unsubscribe (\<lambda>c. None) (snd (recv_start ''t'' ([] :: string list)))) ! 0)"
proof -
  have "0 < length (pr_conns (prun_Unsubscribe (\<lambda>c. None) (snd (recv_start ''t'' ([] :: string list)))))"
    by (simp add: recv_start_def prun_Unsubscribe_def psub_Unsubscribe_def)
  then show ?thesis using pubsub_unsubscribe_is_final [OF demo_recv_loops _ _ rtranclp.rtrancl_refl, of "\<lambda>c. None"] by blast
qed

text \<open>
  But a goroutine that is about to reconnect misses the call, because \<open>reconnect\<close> does not test \<open>closed\<close>: it subscribes a new connection for the
  closed subscriber, and its handler gets every message that arrives there. And a goroutine that finds the subscriber closed before
  its first turn ends without closing the connection that \<open>Subscribe\<close> took from the pool.
\<close>

theorem pubsub_unsubscribe_while_reconnecting_is_lost:
  assumes "(recv_step S)\<^sup>*\<^sup>* (recv_start topic w) (VReconnect dl, z)"
  shows "\<exists>c z'. recv_run S (msg_turn ch d0 # map (msg_turn ch) ds) (VReconnect dl) (prun_Unsubscribe U z) = (VLoop 1, z')
       \<and> pb_closed (pr_sub z') \<and> pb_conn (pr_sub z') = Some c \<and> cn_sub (pr_conns z' ! c)
       \<and> pr_world z' = fold (\<lambda>d w. snd (pubsub_onMessage S ch d w)) ds (pr_world z)"
proof -
  have none: "pb_conn (pr_sub z) = None" using pr_inv_reach [OF assms] by (simp add: pr_inv_def pc_ok_def)
  define z1 where "z1 = prun_Unsubscribe U z"
  define z2 where "z2 = z1\<lparr>pr_sub := (pr_sub z1)\<lparr>pb_conn := Some (length (pr_conns z1))\<rparr>, pr_conns := pr_conns z1 @ [new_conn]\<rparr>"
  have "recv_turn S (msg_turn ch d0) (VReconnect dl) z1 = Some (VLoop 1, z2)" by (simp add: msg_turn_def pubsub_reconnect_def z2_def)
  moreover have "pb_conn (pr_sub z2) = Some (length (pr_conns z1))" by (simp add: z2_def)
  note run_messages [OF this, of S ch ds 1]
  moreover have "pb_closed (pr_sub z1)" "pr_world z1 = pr_world z"
    using none by (simp_all add: z1_def prun_Unsubscribe_def psub_Unsubscribe_def)
  ultimately show ?thesis by (simp add: z1_def [symmetric]) (simp add: z2_def new_conn_def)
qed

theorem pubsub_unsubscribe_while_reconnecting_is_lost_witness:
  "\<exists>z z'. recv_run demo_pubsub (msg_turn ''t'' ''y'' # map (msg_turn ''t'') [''x'']) (VReconnect 2) (prun_Unsubscribe (\<lambda>c. None) z) = (VLoop 1, z')
       \<and> pb_closed (pr_sub z') \<and> pr_world z' = [''run'']"
proof -
  let ?z = "snd (recv_start ''t'' []) :: string list prun"
  let ?i = "(msg_turn ''t'' ''x'')\<lparr>vi_frame := PubError (ErrNew ''EOF'')\<rparr>"
  let ?z1 = "?z\<lparr>pr_conns := [new_conn\<lparr>cn_open := False, cn_sub := False\<rparr>], pr_sub := (pr_sub ?z)\<lparr>pb_conn := None\<rparr>\<rparr>"
  note st = recv_step.turn [where S = demo_pubsub and i = ?i]
  have "recv_step demo_pubsub (VLoop 1, ?z) (VClose 1 (Some (ErrNew ''EOF'')), ?z)"
    by (rule st) (simp_all add: turn_ok_def recv_start_def frame_ok_def msg_turn_def pubsub_turn_def)
  moreover have "recv_step demo_pubsub (VClose 1 (Some (ErrNew ''EOF'')), ?z) (VAfter 1 (Some (ErrNew ''EOF'')), ?z1)"
    by (rule st) (simp_all add: turn_ok_def recv_start_def)
  moreover have "recv_step demo_pubsub (VAfter 1 (Some (ErrNew ''EOF'')), ?z1) (VSleep 1, ?z1)"
    by (rule st) (simp_all add: turn_ok_def recv_start_def)
  moreover have "recv_step demo_pubsub (VSleep 1, ?z1) (VCheck 2, ?z1)" by (rule st) (simp_all add: turn_ok_def msg_turn_def)
  moreover have "recv_step demo_pubsub (VCheck 2, ?z1) (VConn 2, ?z1)" by (rule st) (simp_all add: turn_ok_def recv_start_def)
  moreover have "recv_step demo_pubsub (VConn 2, ?z1) (VReconnect 2, ?z1)" by (rule st) (simp_all add: turn_ok_def)
  ultimately have "(recv_step demo_pubsub)\<^sup>*\<^sup>* (recv_start ''t'' []) (VReconnect 2, ?z1)"
    using demo_recv_loops by (meson rtranclp.rtrancl_into_rtrancl)
  from pubsub_unsubscribe_while_reconnecting_is_lost [OF this, of "''t''" "''y''" "[''x'']" "\<lambda>c. None"]
  show ?thesis by (auto simp: pubsub_onMessage_def redis_body_def demo_pubsub_def recv_start_def)
qed

theorem pubsub_early_unsubscribe_keeps_connection:
  "\<exists>z'. recv_turn S i (fst (recv_start topic w)) (prun_Unsubscribe U (snd (recv_start topic w))) = Some (VDone, z')
     \<and> cn_open (pr_conns z' ! 0) \<and> recv_turn S i VDone z' = None"
  by (simp add: recv_start_def prun_Unsubscribe_def psub_Unsubscribe_def new_conn_def)

text \<open>The options as data, and what they mean for the configuration of the pool.\<close>

datatype rd_setting = SAddress "string list" | SConnect int | SRead int | SWrite int | SIdle int | SMaxIdle int | SMaxActive int | SPassword string | SDefault

fun rd_with :: "rd_setting \<Rightarrow> rd_option" where
  "rd_with (SAddress a) = redis_WithAddress a"
| "rd_with (SConnect d) = redis_WithConnectTimeout d"
| "rd_with (SRead d) = redis_WithReadTimeout d"
| "rd_with (SWrite d) = redis_WithWriteTimeout d"
| "rd_with (SIdle d) = redis_WithIdleTimeout d"
| "rd_with (SMaxIdle n) = redis_WithMaxIdle n"
| "rd_with (SMaxActive n) = redis_WithMaxActive n"
| "rd_with (SPassword p) = redis_WithPassword p"
| "rd_with SDefault = redis_WithDefaultOptions"

fun rd_set :: "rd_setting \<Rightarrow> CommonOptions \<Rightarrow> CommonOptions" where
  "rd_set (SAddress a) c = c"
| "rd_set (SConnect d) c = c\<lparr>co_ConnectTimeout := d\<rparr>"
| "rd_set (SRead d) c = c\<lparr>co_ReadTimeout := d\<rparr>"
| "rd_set (SWrite d) c = c\<lparr>co_WriteTimeout := d\<rparr>"
| "rd_set (SIdle d) c = c\<lparr>co_IdleTimeout := d\<rparr>"
| "rd_set (SMaxIdle n) c = c\<lparr>co_MaxIdle := n\<rparr>"
| "rd_set (SMaxActive n) c = c\<lparr>co_MaxActive := n\<rparr>"
| "rd_set (SPassword p) c = c\<lparr>co_Password := p\<rparr>"
| "rd_set SDefault c = defaultCommonOptions"

lemma rd_with_set: "commonOptions (rd_with x opt) = rd_set x (commonOptions opt)"
  by (cases x) (simp_all add: commonOptions_def redis_WithAddress_def redis_WithConnectTimeout_def redis_WithReadTimeout_def
    redis_WithWriteTimeout_def redis_WithIdleTimeout_def redis_WithMaxIdle_def redis_WithMaxActive_def redis_WithPassword_def redis_WithDefaultOptions_def)

lemma fold_rd_with: "commonOptions (fold rd_with xs opt) = fold rd_set xs (commonOptions opt)"
  by (induction xs arbitrary: opt) (simp_all add: rd_with_set)

lemma fold_id_map: "fold (\<lambda>f. f) (map g xs) a = fold g xs a"
  by (simp add: fold_map comp_def)

lemma redis_Init_common:
  assumes "rk_commonOpts b = defaultCommonOptions" "\<not> rk_pool b"
  shows "rk_commonOpts (snd (redis_Init name opts b)) = commonOptions (fold (\<lambda>f. f) opts (rk_options b))"
  using assms by (simp add: redis_Init_def commonOptions_def Let_def split: option.split)

lemma pool_config:
  "rk_commonOpts (snd (redis_Init name (map rd_with ys) (redis_NewBroker (map rd_with xs) w))) = fold rd_set (xs @ ys) defaultCommonOptions"
proof -
  have "rk_commonOpts (snd (redis_Init name (map rd_with ys) (redis_NewBroker (map rd_with xs) w)))
      = fold rd_set ys (commonOptions (rk_options (redis_NewBroker (map rd_with xs) w)))"
    by (subst redis_Init_common) (simp_all add: redis_NewBroker_def fold_id_map fold_rd_with)
  also have "\<dots> = fold rd_set (xs @ ys) defaultCommonOptions" by (simp add: redis_NewBroker_def fold_id_map fold_rd_with) (simp add: commonOptions_def)
  finally show ?thesis .
qed

text \<open>
  The redis brokers configure their pool with exactly what was asked for: after \<open>NewBroker\<close> and \<open>Init\<close> every field of the configuration has
  the last value that an option gave it, and its default when none did, in whatever order and number the options came; a single
  option never resets the others. Without \<open>Init\<close>, the options of \<open>NewBroker\<close> are ignored and the pool has the defaults.
\<close>

theorem redis_options_keep_defaults:
  "rk_commonOpts (snd (redis_Init name (map rd_with ys) (redis_NewBroker (map rd_with xs) w))) = fold rd_set (xs @ ys) defaultCommonOptions
   \<and> rk_commonOpts (snd (redis_Connect (redis_NewBroker (map rd_with xs) w))) = defaultCommonOptions"
  unfolding pool_config by (simp add: redis_NewBroker_def redis_Connect_def)

end
