(* ===== verification/Mq_Redis.thy ===== *)
theory Mq_Redis
  imports Mq_Server Redis_Broker
begin

text \<open>
  The redis brokers as the broker of the redis transport, whose server is the one of \<open>Mq_Server\<close>. The locale of the brokers gives the
  one of the server's broker; \<open>G\<close>, \<open>U\<close>, \<open>V\<close> and \<open>ce\<close> are what the redis client answers.
\<close>

definition redis_driver ::
    "string \<Rightarrow> error option \<Rightarrow> (nat, 'w) unsub_fn \<Rightarrow> (nat \<Rightarrow> string \<Rightarrow> 'x \<Rightarrow> 'w \<Rightarrow> error option \<times> 'w) \<Rightarrow> ('x, 'w redis_broker) mq_driver" where
  "redis_driver name ce unsub prep =
     \<lparr>dr_Init = redis_Init name [], dr_Connect = redis_Connect, dr_Disconnect = redis_Disconnect ce unsub,
      dr_Subscribe = redis_Subscribe name unsub prep, dr_Unsubscribe = redis_Unsubscribe unsub\<rparr>"

definition pubsub_driver ::
    "(pconn \<Rightarrow> error option) \<Rightarrow> (string \<Rightarrow> error option) \<Rightarrow> error option \<Rightarrow> (rd_sub_options, pworld redis_broker) mq_driver" where
  "pubsub_driver U V ce = redis_driver ''redis'' ce (pubsub_Unsubscribe U) (pubsub_prep V)"

definition stream_driver ::
    "(string \<Rightarrow> string \<Rightarrow> error option \<times> bool) \<Rightarrow> error option \<Rightarrow> (rd_sub_options, (nat \<Rightarrow> ssub) redis_broker) mq_driver" where
  "stream_driver G ce = redis_driver ''redis-stream'' ce stream_Unsubscribe (stream_prep G)"

text \<open>\<open>NewServer\<close> appends its own two timeouts to the options it gets.\<close>

definition redis_server_options :: "rd_setting list \<Rightarrow> rd_setting list" where
  "redis_server_options opts = opts @ [SRead (24 * 3600 * Second)] @ [SIdle (24 * 3600 * Second)]"

definition redis_live :: "('w \<Rightarrow> nat \<Rightarrow> bool) \<Rightarrow> 'w redis_broker \<Rightarrow> nat set" where
  "redis_live is_closed b = {i. i < rk_next b \<and> \<not> is_closed (snd (rk_subscribers b)) i}"

section \<open>Lemmas\<close>

sublocale pooled_broker \<subseteq> pooled_mq: mq_broker_live "redis_driver name ce unsub prep" rk_ok rk_live rk_topic for name ce
proof unfold_locales
  fix b assume b: "rk_ok b"
  let ?D = "redis_driver name ce unsub prep"
  show "rk_ok (snd (dr_Init ?D b)) \<and> rk_live (snd (dr_Init ?D b)) \<subseteq> rk_live b"
    using b by (simp add: redis_driver_def pooled_Init)
  show "rk_ok (snd (dr_Connect ?D b)) \<and> rk_live (snd (dr_Connect ?D b)) \<subseteq> rk_live b"
    using b by (simp add: redis_driver_def pooled_Connect)
  show "rk_ok (snd (dr_Disconnect ?D b)) \<and> rk_live (snd (dr_Disconnect ?D b)) \<subseteq> rk_live b"
    using pooled_Disconnect [OF b] by (simp add: redis_driver_def)
  show "rk_ok (snd (dr_Unsubscribe ?D i rm b)) \<and> rk_live (snd (dr_Unsubscribe ?D i rm b)) \<subseteq> rk_live b - {i}" for i rm
    using pooled_Unsubscribe [OF b] by (simp add: redis_driver_def)
  fix t x b' i e
  show "rk_ok b' \<and> rk_live b' \<subseteq> insert i (rk_live b)" if "dr_Subscribe ?D t x b = (Inr i, b')"
    using that pooled_Subscribe [OF b, of name t x "Inr i" b'] by (simp add: redis_driver_def)
  show "rk_ok b' \<and> rk_live b' \<subseteq> rk_live b" if "dr_Subscribe ?D t x b = (Inl e, b')"
    using that pooled_Subscribe [OF b, of name t x "Inl e" b'] by (simp add: redis_driver_def)
  show "i \<in> rk_live b' \<and> rk_topic b' i = t \<and> (\<forall>j\<in>rk_live b. rk_topic b j \<noteq> t \<longrightarrow> j \<in> rk_live b' \<and> rk_topic b' j = rk_topic b j)"
    if "dr_Subscribe ?D t x b = (Inr i, b')"
    using that pooled_Subscribe [OF b, of name t x "Inr i" b'] by (simp add: redis_driver_def)
qed

lemma live_is_tab:
  "pubsub_pool.rk_live b = redis_live (\<lambda>w s. pb_closed (pw_heap w s)) b" "stream_pool.rk_live c = redis_live (\<lambda>w s. sb_closed (w s)) c"
  by (simp_all add: redis_live_def pubsub_pool.rk_live_def stream_pool.rk_live_def pubsub_pool.tab_live_def stream_pool.tab_live_def)

section \<open>Properties\<close>

text \<open>
  No interleaving of calls of \<open>Start\<close>, \<open>Stop\<close> and \<open>RegisterSubscriber\<close> leaks a subscription of the redis transport, with either driver and
  whatever the redis client answers: whenever no call is running, every subscriber that is not closed is in the server's table,
  where each topic has one entry, and when the server is stopped there is none.
\<close>

theorem redis_server_leaks_no_subscription:
  "(mq_reach (pubsub_driver U V ce) kenv kind (redis_NewBroker opts w) (s, ps) \<longrightarrow> quiet ps \<longrightarrow>
      redis_live (\<lambda>w s. pb_closed (pw_heap w s)) (mq_Broker s) \<subseteq> snd ` set (mq_subscribers s) \<and> gomap_wf (mq_subscribers s)
      \<and> (mq_started s \<or> redis_live (\<lambda>w s. pb_closed (pw_heap w s)) (mq_Broker s) = {}))
   \<and> (mq_reach (stream_driver G ce) kenv kind (redis_NewBroker opts h) (s', ps') \<longrightarrow> quiet ps' \<longrightarrow>
      redis_live (\<lambda>w s. sb_closed (w s)) (mq_Broker s') \<subseteq> snd ` set (mq_subscribers s') \<and> gomap_wf (mq_subscribers s')
      \<and> (mq_started s' \<or> redis_live (\<lambda>w s. sb_closed (w s)) (mq_Broker s') = {}))"
proof (intro conjI impI)
  assume r: "mq_reach (pubsub_driver U V ce) kenv kind (redis_NewBroker opts w) (s, ps)" and q: "quiet ps"
  note n = pubsub_pool.pooled_new [of opts w] and r = r [unfolded pubsub_driver_def]
  note f = pubsub_pool.pooled_mq.quiet_no_leak [OF r n q] pubsub_pool.pooled_mq.reach_tracked [OF r n]
  show "redis_live (\<lambda>w s. pb_closed (pw_heap w s)) (mq_Broker s) \<subseteq> snd ` set (mq_subscribers s)" "gomap_wf (mq_subscribers s)"
    "mq_started s \<or> redis_live (\<lambda>w s. pb_closed (pw_heap w s)) (mq_Broker s) = {}"
    using f by (simp_all add: live_is_tab pubsub_pool.pooled_mq.tracked_def)
next
  assume r: "mq_reach (stream_driver G ce) kenv kind (redis_NewBroker opts h) (s', ps')" and q: "quiet ps'"
  note n = stream_pool.pooled_new [of opts h] and r = r [unfolded stream_driver_def]
  note f = stream_pool.pooled_mq.quiet_no_leak [OF r n q] stream_pool.pooled_mq.reach_tracked [OF r n]
  show "redis_live (\<lambda>w s. sb_closed (w s)) (mq_Broker s') \<subseteq> snd ` set (mq_subscribers s')" "gomap_wf (mq_subscribers s')"
    "mq_started s' \<or> redis_live (\<lambda>w s. sb_closed (w s)) (mq_Broker s') = {}"
    using f by (simp_all add: live_is_tab stream_pool.pooled_mq.tracked_def)
qed

definition demo_pworld :: pworld where
  "demo_pworld = \<lparr>pw_heap = (\<lambda>i. \<lparr>pb_topic = '''', pb_closed = True, pb_conn = None\<rparr>), pw_conns = []\<rparr>"

definition no_rd_sub_options :: rd_sub_options where
  "no_rd_sub_options = \<lparr>rx_group = None, rx_consumer = None, rx_blockTime = None, rx_count = None\<rparr>"

theorem redis_server_leaks_no_subscription_witness:
  "redis_live (\<lambda>w s. pb_closed (pw_heap w s)) (mq_Broker (snd (mq_exec (pubsub_driver (\<lambda>c. None) (\<lambda>t. None) None) ka_test_env ''redis''
      (PRegister ''t'' no_rd_sub_options) (mq_NewServer ka_test_env ''redis'' [] (redis_NewBroker [] demo_pworld))))) = {}"
proof -
  let ?D = "pubsub_driver (\<lambda>c. None) (\<lambda>t. None) None" and ?b = "redis_NewBroker [] demo_pworld"
  let ?pc = "PRegister ''t'' no_rd_sub_options"
  let ?s0 = "mq_NewServer ka_test_env ''redis'' [] ?b :: (rd_sub_options, pworld redis_broker) mq_server"
  obtain pc s where e: "mq_exec ?D ka_test_env ''redis'' ?pc ?s0 = (pc, s)" by force
  have pc: "pc = PDone None" "\<not> mq_started s" using e by (auto simp: mq_NewServer_def mq_init_def)
  have "mq_reach ?D ka_test_env ''redis'' ?b (?s0, [?pc])"
    using mq_reach.step [OF mq_reach.init mq_step.call [of ?pc "''t''" no_rd_sub_options]] by force
  from mq_reach.step [OF this mq_step.go [of 0]] have "mq_reach ?D ka_test_env ''redis'' ?b (s, [pc])" using e by simp
  then show ?thesis using redis_server_leaks_no_subscription pc e by (force simp: quiet_def)
qed

text \<open>
  The redis transport's own timeouts win over the ones that its user gives: whatever options \<open>NewServer\<close> gets, the pool of the started server
  dials with a read timeout of a day and a minute and drops connections only after a day.
\<close>

theorem redis_server_fixes_timeouts:
  assumes "redis_Init name [] (redis_NewBroker (map rd_with (redis_server_options opts)) w) = (e, b)"
  shows "fst (snd (snd (redis_Dial b))) = (24 * 3600 + 60) * Second \<and> co_IdleTimeout (rk_commonOpts b) = 24 * 3600 * Second"
proof -
  have "rk_commonOpts b = fold rd_set (redis_server_options opts) defaultCommonOptions"
    using pool_config [of name "[]" "redis_server_options opts" w] assms by simp
  then show ?thesis by (simp add: redis_server_options_def redis_Dial_def DefaultHealthCheckPeriod_def Second_def signed_take_bit_int_eq_self)
qed

theorem redis_server_fixes_timeouts_witness:
  "co_IdleTimeout (rk_commonOpts (snd (redis_Init ''redis'' [] (redis_NewBroker (map rd_with (redis_server_options [SIdle 5, SPassword ''x''])) demo_pworld))))
     = 24 * 3600 * Second"
  using redis_server_fixes_timeouts [of "''redis''" "[SIdle 5, SPassword ''x'']" demo_pworld] by (metis prod.collapse)

end
