(* ===== verification/Nats_Broker.thy ===== *)
theory Nats_Broker
  imports Redis_Stream Broker_Table "HOL-Library.Sublist"
begin

text \<open>
  The NATS drivers: core NATS (\<open>broker/nats/nats.go\<close>) and JetStream (\<open>jetstream.go\<close>, \<open>jetstream_pub.go\<close>, \<open>jetstream_sub.go\<close>), with \<open>subscriber.go\<close>,
  \<open>publication.go\<close>, \<open>utils.go\<close> and the options they read. The two broker structs differ in the field \<open>js\<close> only, so that they are one record. The
  client library is the environment: the status of a connection, the errors of its calls, what \<open>Ack\<close> and \<open>Nak\<close> of a message do. The
  channel \<open>closeCh\<close> has no reader, so that it is the number of values in its buffer, and an operation that would block on it has no result.
\<close>

section \<open>Options\<close>

record nats_opts =
  no_Servers :: "string list"
  no_Secure :: bool
  no_TLSConfig :: "string option"

text \<open>The options of the broker: \<open>nq_opts\<close> is what \<open>Options\<close> put into the context, \<open>nq_drain\<close> says that \<open>DrainConnection\<close> was given.\<close>

record nats_options =
  nq_Addrs :: "string list"
  nq_Secure :: bool
  nq_TLSConfig :: "string option"
  nq_opts :: "nats_opts option"
  nq_drain :: bool

text \<open>\<open>durl\<close> and \<open>dflt\<close> below are \<open>DefaultURL\<close> and \<open>GetDefaultOptions\<close> of the client library.\<close>

definition defaultAddr :: string where "defaultAddr = ''nats://127.0.0.1:4222''"

definition nats_setAddrs :: "string \<Rightarrow> string list \<Rightarrow> string list" where
  "nats_setAddrs durl addrs =
     (let cAddrs = map (\<lambda>a. if prefix ''nats://'' a then a else ''nats://'' @ a) (filter (\<lambda>a. length a \<noteq> 0) addrs)
      in if length cAddrs = 0 then [durl] else cAddrs)"

section \<open>The broker\<close>

datatype nats_status = DISCONNECTED | CONNECTED | CLOSED | RECONNECTING | CONNECTING | DRAINING

record nsub =
  nu_Subject :: string
  nu_closed :: bool

record nats_broker =
  nb_once :: bool
  nb_connected :: bool
  nb_options :: nats_options
  nb_conn :: "nats_status option"
  nb_js :: bool
  nb_natsOpts :: nats_opts
  nb_drain :: bool
  nb_closeCh :: "nat option"
  nb_subscribers :: "(nat, nat \<Rightarrow> nsub) sub_state"
  nb_next :: nat

definition nats_NewBroker :: "nats_options \<Rightarrow> (nat \<Rightarrow> nsub) \<Rightarrow> nats_broker" where
  "nats_NewBroker opts w =
     \<lparr>nb_once = False, nb_connected = False, nb_options = opts, nb_conn = None, nb_js = False,
      nb_natsOpts = \<lparr>no_Servers = [], no_Secure = False, no_TLSConfig = None\<rparr>, nb_drain = False, nb_closeCh = None,
      nb_subscribers = (NewSubscriberSyncMap, w), nb_next = 0\<rparr>"

text \<open>\<open>url\<close> is the URL of a connection that is connected.\<close>

definition nats_Address :: "string \<Rightarrow> nats_broker \<Rightarrow> string" where
  "nats_Address url b =
     (if nb_conn b = Some CONNECTED then url
      else if length (nq_Addrs (nb_options b)) > 0 then nq_Addrs (nb_options b) ! 0 else defaultAddr)"

definition nats_setOption :: "string \<Rightarrow> nats_opts \<Rightarrow> nats_broker \<Rightarrow> nats_broker" where
  "nats_setOption durl dflt b =
     (let b1 = (if nb_once b then b else b\<lparr>nb_once := True, nb_natsOpts := dflt\<rparr>);
          n = (case nq_opts (nb_options b1) of Some v \<Rightarrow> v | None \<Rightarrow> nb_natsOpts b1);
          q = nb_options b1;
          q1 = (if length (nq_Addrs q) = 0 then q\<lparr>nq_Addrs := no_Servers n\<rparr> else q);
          q2 = (if \<not> nq_Secure q1 then q1\<lparr>nq_Secure := no_Secure n\<rparr> else q1);
          q3 = (if nq_TLSConfig q2 = None then q2\<lparr>nq_TLSConfig := no_TLSConfig n\<rparr> else q2);
          q4 = q3\<lparr>nq_Addrs := nats_setAddrs durl (nq_Addrs q3)\<rparr>;
          b2 = b1\<lparr>nb_natsOpts := n, nb_options := q4\<rparr>
      in if nq_drain q4 then b2\<lparr>nb_drain := True, nb_closeCh := Some 0\<rparr> else b2)"

definition nats_Init :: "string \<Rightarrow> nats_opts \<Rightarrow> nats_broker \<Rightarrow> error option \<times> nats_broker" where
  "nats_Init durl dflt b = (None, nats_setOption durl dflt b)"

text \<open>\<open>dial\<close> is the error of \<open>Connect\<close> of the library, \<open>js\<close> that of making a JetStream context, which only the JetStream broker does.\<close>

definition nats_Connect :: "error option \<Rightarrow> nats_broker \<Rightarrow> error option \<times> nats_broker" where
  "nats_Connect dial b =
     (if nb_connected b then (None, b)
      else if nb_conn b \<in> {Some CONNECTED, Some RECONNECTING, Some CONNECTING} then (None, b\<lparr>nb_connected := True\<rparr>)
      else (case dial of
              Some e \<Rightarrow> (Some e, b)
            | None \<Rightarrow> (None, b\<lparr>nb_conn := Some CONNECTED, nb_connected := True\<rparr>)))"

definition js_Connect :: "error option \<Rightarrow> error option \<Rightarrow> nats_broker \<Rightarrow> error option \<times> nats_broker" where
  "js_Connect dial js b =
     (if nb_connected b then (None, b)
      else if nb_conn b \<in> {Some CONNECTED, Some RECONNECTING, Some CONNECTING} then (None, b\<lparr>nb_connected := True\<rparr>)
      else (case dial of
              Some e \<Rightarrow> (Some (ErrWrap ''failed to connect to NATS server'' e), b)
            | None \<Rightarrow>
                (case js of
                   Some e \<Rightarrow> (Some (ErrWrap ''failed to create JetStream context'' e), b\<lparr>nb_conn := Some CLOSED\<rparr>)
                 | None \<Rightarrow> (None, b\<lparr>nb_conn := Some CONNECTED, nb_js := True, nb_connected := True\<rparr>))))"

text \<open>A send on \<open>closeCh\<close>; \<open>None\<close>: it blocks for ever, on a full buffer or on the nil channel.\<close>

definition closeCh_send :: "nats_broker \<Rightarrow> nats_broker option" where
  "closeCh_send b =
     (case nb_closeCh b of
        None \<Rightarrow> None
      | Some n \<Rightarrow> if n < 8 then Some (b\<lparr>nb_closeCh := Some (Suc n)\<rparr>) else None)"

definition nats_onClose :: "nats_broker \<Rightarrow> nats_broker option" where
  "nats_onClose b = (if \<not> nb_drain b then Some b else closeCh_send b)"

definition nats_onAsyncError :: "bool \<Rightarrow> nats_broker \<Rightarrow> nats_broker option" where
  "nats_onAsyncError drain_timeout b = (if drain_timeout then closeCh_send b else Some b)"

definition nats_onDisconnectedError :: "nats_broker \<Rightarrow> nats_broker option" where
  "nats_onDisconnectedError b = (if \<not> nb_drain b then Some b else closeCh_send b)"

definition js_onClose :: "nats_broker \<Rightarrow> nats_broker option" where
  "js_onClose b = closeCh_send b"

section \<open>Subscribers\<close>

text \<open>\<open>U\<close> is the error of \<open>Unsubscribe\<close> of the library.\<close>

definition nats_Unsubscribe :: "(nsub \<Rightarrow> error option) \<Rightarrow> (nat, nat \<Rightarrow> nsub) unsub_fn" where
  "nats_Unsubscribe U s removeFromManager st =
     (U (snd st s),
      (if removeFromManager then snd (SubscriberSyncMap_RemoveOnly (nu_Subject (snd st s)) (fst st)) else fst st,
       (snd st)(s := (snd st s)\<lparr>nu_closed := True\<rparr>)))"

text \<open>\<open>Disconnect\<close> under the broker's lock; \<open>None\<close>: it never returns and keeps the lock.\<close>

definition nats_Disconnect :: "(nsub \<Rightarrow> error option) \<Rightarrow> nats_broker \<Rightarrow> (error option \<times> nats_broker) option" where
  "nats_Disconnect U b =
     (case (if nb_drain b
            then (let b1 = (case nb_conn b of None \<Rightarrow> b | Some st \<Rightarrow> b\<lparr>nb_conn := Some DRAINING\<rparr>)
                  in if nb_closeCh b1 = None then Some b1 else closeCh_send b1)
            else Some b) of
        None \<Rightarrow> None
      | Some b2 \<Rightarrow>
          Some (None, b2\<lparr>nb_subscribers := SubscriberSyncMap_Clear (nats_Unsubscribe U) (nb_subscribers b2),
                         nb_conn := map_option (\<lambda>_. CLOSED) (nb_conn b2), nb_connected := False\<rparr>))"

text \<open>
  \<open>Subscribe\<close> of the two brokers; \<open>ready\<close> says that the connection, or the JetStream context, is there, \<open>V\<close> is the error of the library's call
  for the topic and the queue, \<open>wrap\<close> what the broker makes of it.
\<close>

definition nats_Subscribe_with ::
    "bool \<Rightarrow> (string \<Rightarrow> string \<Rightarrow> error option) \<Rightarrow> (string \<Rightarrow> error \<Rightarrow> error) \<Rightarrow> (nsub \<Rightarrow> error option) \<Rightarrow> string \<Rightarrow> string
      \<Rightarrow> nats_broker \<Rightarrow> (error + nat) \<times> nats_broker" where
  "nats_Subscribe_with ready V wrap U topic queue b =
     (if \<not> ready then (Inl (ErrNew ''not connected''), b)
      else (case V topic queue of
              Some e \<Rightarrow> (Inl (wrap topic e), b)
            | None \<Rightarrow>
                (let (m, w) = nb_subscribers b; sub = nb_next b
                 in (Inr sub, b\<lparr>nb_subscribers :=
                       replace_subscriber (nats_Unsubscribe U) topic sub (m, w(sub := \<lparr>nu_Subject = topic, nu_closed = False\<rparr>)),
                       nb_next := Suc sub\<rparr>))))"

definition nats_Subscribe ::
    "(string \<Rightarrow> string \<Rightarrow> error option) \<Rightarrow> (nsub \<Rightarrow> error option) \<Rightarrow> string \<Rightarrow> string \<Rightarrow> nats_broker \<Rightarrow> (error + nat) \<times> nats_broker" where
  "nats_Subscribe V U topic queue b = nats_Subscribe_with (nb_conn b \<noteq> None) V (\<lambda>t e. e) U topic queue b"

definition js_Subscribe ::
    "(string \<Rightarrow> string \<Rightarrow> error option) \<Rightarrow> (nsub \<Rightarrow> error option) \<Rightarrow> bool \<Rightarrow> string \<Rightarrow> string \<Rightarrow> nats_broker \<Rightarrow> (error + nat) \<times> nats_broker" where
  "js_Subscribe V U isPull topic queue b =
     nats_Subscribe_with (nb_js b) V
       (\<lambda>t e. if isPull then ErrWrap ''failed to create pull subscription'' e else ErrWrap (''failed to subscribe to '' @ t) e)
       U topic (if isPull then '''' else queue) b"

definition nb_Unsubscribe :: "(nsub \<Rightarrow> error option) \<Rightarrow> nat \<Rightarrow> bool \<Rightarrow> nats_broker \<Rightarrow> error option \<times> nats_broker" where
  "nb_Unsubscribe U sub rm b = (let (e, st) = nats_Unsubscribe U sub rm (nb_subscribers b) in (e, b\<lparr>nb_subscribers := st\<rparr>))"

section \<open>Messages\<close>

type_synonym nats_header = "(string, string list) gomap"

record nats_msg =
  nm_Subject :: string
  nm_Reply :: string
  nm_Header :: nats_header
  nm_Data :: bytes

text \<open>\<open>m.Header.Add\<close>; the keys of a NATS header keep their case.\<close>

definition header_add :: "string \<Rightarrow> string \<Rightarrow> nats_header \<Rightarrow> nats_header" where
  "header_add k v h = gomap_put k ((case map_of h k of None \<Rightarrow> [] | Some vs \<Rightarrow> vs) @ [v]) h"

definition nats_msg_of :: "string \<Rightarrow> nats_header option \<Rightarrow> message \<Rightarrow> nats_msg" where
  "nats_msg_of topic hs msg =
     \<lparr>nm_Subject = topic, nm_Reply = '''',
      nm_Header = fold (\<lambda>(k, vs). fold (header_add k) vs) (case hs of None \<Rightarrow> [] | Some h \<Rightarrow> h) [],
      nm_Data = (case BodyBytes msg of None \<Rightarrow> '''' | Some x \<Rightarrow> x)\<rparr>"

text \<open>\<open>hs\<close> is what \<open>WithHeaders\<close> put into the context of the call; \<open>pub\<close> publishes on the connection.\<close>

definition nats_publish :: "(nats_msg \<Rightarrow> error option) \<Rightarrow> bool \<Rightarrow> string \<Rightarrow> nats_header option \<Rightarrow> message \<Rightarrow> error option \<times> nats_msg option" where
  "nats_publish pub conn topic hs msg =
     (if \<not> conn then (Some (ErrNew ''not connected''), None)
      else (pub (nats_msg_of topic hs msg), Some (nats_msg_of topic hs msg)))"

definition nats_internalPublish ::
    "codec \<Rightarrow> codec option \<Rightarrow> (nats_msg \<Rightarrow> error option) \<Rightarrow> bool \<Rightarrow> string \<Rightarrow> nats_header option \<Rightarrow> message \<Rightarrow> error option \<times> nats_msg option" where
  "nats_internalPublish gob cod pub conn topic hs msg =
     (case Marshal gob cod (msg_Body msg) of
        Inl e \<Rightarrow> (Some e, None)
      | Inr buf \<Rightarrow> nats_publish pub conn topic hs ((Clone msg)\<lparr>msg_Body := DBytes buf\<rparr>))"

text \<open>The publish options of JetStream, and what becomes of them; \<open>jp_raw\<close> are the library's own options, by name.\<close>

record js_pub_options =
  jp_headers :: "nats_header option"
  jp_msgId :: "string option"
  jp_expectStream :: "string option"
  jp_expectLastSequence :: "64 word option"
  jp_expectLastSequencePerSubject :: "64 word option"
  jp_expectLastMsgId :: "string option"
  jp_raw :: "string list option"

datatype js_pub_opt =
    MsgId string | ExpectStream string | ExpectLastSequence "64 word" | ExpectLastSequencePerSubject "64 word" | ExpectLastMsgId string | RawPubOpt string

definition js_pubOpts :: "js_pub_options \<Rightarrow> js_pub_opt list" where
  "js_pubOpts x =
     (case jp_msgId x of Some v \<Rightarrow> if v \<noteq> '''' then [MsgId v] else [] | None \<Rightarrow> [])
   @ (case jp_expectStream x of Some v \<Rightarrow> if v \<noteq> '''' then [ExpectStream v] else [] | None \<Rightarrow> [])
   @ (case jp_expectLastSequence x of Some v \<Rightarrow> [ExpectLastSequence v] | None \<Rightarrow> [])
   @ (case jp_expectLastSequencePerSubject x of Some v \<Rightarrow> [ExpectLastSequencePerSubject v] | None \<Rightarrow> [])
   @ (case jp_expectLastMsgId x of Some v \<Rightarrow> if v \<noteq> '''' then [ExpectLastMsgId v] else [] | None \<Rightarrow> [])
   @ (case jp_raw x of Some vs \<Rightarrow> map RawPubOpt vs | None \<Rightarrow> [])"

definition js_publish ::
    "(nats_msg \<Rightarrow> js_pub_opt list \<Rightarrow> error option) \<Rightarrow> bool \<Rightarrow> string \<Rightarrow> js_pub_options \<Rightarrow> message \<Rightarrow> error option \<times> (nats_msg \<times> js_pub_opt list) option" where
  "js_publish pub js topic x msg =
     (if \<not> js then (Some (ErrNew ''not connected''), None)
      else (let m = nats_msg_of topic (jp_headers x) msg in (pub m (js_pubOpts x), Some (m, js_pubOpts x))))"

definition js_internalPublish ::
    "codec \<Rightarrow> codec option \<Rightarrow> (nats_msg \<Rightarrow> js_pub_opt list \<Rightarrow> error option) \<Rightarrow> bool \<Rightarrow> string \<Rightarrow> js_pub_options \<Rightarrow> message
      \<Rightarrow> error option \<times> (nats_msg \<times> js_pub_opt list) option" where
  "js_internalPublish gob cod pub js topic x msg =
     (case Marshal gob cod (msg_Body msg) of
        Inl e \<Rightarrow> (Some e, None)
      | Inr buf \<Rightarrow> js_publish pub js topic x ((Clone msg)\<lparr>msg_Body := DBytes buf\<rparr>))"

text \<open>The timeout of a request, in nanoseconds: \<open>key\<close> is what the driver's own option put into the context.\<close>

definition nats_request_timeout :: "int \<Rightarrow> int option \<Rightarrow> int" where
  "nats_request_timeout timeout key =
     (let t = (if timeout > 0 then timeout else 2000000000)
      in (case key of Some v \<Rightarrow> if v > 0 then v else t | None \<Rightarrow> t))"

text \<open>
  \<open>Request\<close> of the two brokers; \<open>req\<close> is \<open>RequestMsg\<close> of the library with its timeout. The answer of the library is a message, which becomes
  the body of the result as it is.
\<close>

definition nats_answer :: "nats_msg \<Rightarrow> dyn" where
  "nats_answer res = DOther ''*nats.Msg'' (nm_Data res)"

definition nats_request ::
    "(nats_msg \<Rightarrow> int \<Rightarrow> error + nats_msg) \<Rightarrow> bool \<Rightarrow> string \<Rightarrow> int \<Rightarrow> int option \<Rightarrow> nats_header option \<Rightarrow> message \<Rightarrow> error + message" where
  "nats_request req conn topic timeout key hs msg =
     (if \<not> conn then Inl (ErrNew ''not connected'')
      else (case req (nats_msg_of topic hs msg) (nats_request_timeout timeout key) of
              Inl e \<Rightarrow> Inl e
            | Inr res \<Rightarrow> Inr (NewMessage (nats_answer res) [Some (WithMsg (nats_answer res))])))"

definition nats_Request ::
    "codec \<Rightarrow> codec option \<Rightarrow> (nats_msg \<Rightarrow> int \<Rightarrow> error + nats_msg) \<Rightarrow> bool \<Rightarrow> string \<Rightarrow> int \<Rightarrow> int option \<Rightarrow> nats_header option \<Rightarrow> message option
      \<Rightarrow> error + message" where
  "nats_Request gob cod req conn topic timeout key hs msg =
     (case msg of
        None \<Rightarrow> Inl ErrRequestMessageNil
      | Some m \<Rightarrow>
          (case Marshal gob cod (msg_Body m) of
             Inl e \<Rightarrow> Inl e
           | Inr buf \<Rightarrow> nats_request req conn topic timeout key hs ((Clone m)\<lparr>msg_Body := DBytes buf\<rparr>)))"

definition js_Request ::
    "codec \<Rightarrow> codec option \<Rightarrow> (nats_msg \<Rightarrow> int \<Rightarrow> error + nats_msg) \<Rightarrow> bool \<Rightarrow> string \<Rightarrow> int \<Rightarrow> int option \<Rightarrow> nats_header option \<Rightarrow> message option
      \<Rightarrow> error + message" where
  "js_Request gob cod req conn topic timeout key hs msg =
     (case msg of
        None \<Rightarrow> Inl ErrRequestMessageNil
      | Some m \<Rightarrow>
          if \<not> conn then Inl (ErrNew ''not connected'')
          else (case Marshal gob cod (msg_Body m) of
                  Inl e \<Rightarrow> Inl e
                | Inr buf \<Rightarrow>
                    (case req (nats_msg_of topic hs (m\<lparr>msg_Body := DBytes buf\<rparr>)) (nats_request_timeout timeout key) of
                       Inl e \<Rightarrow> Inl e
                     | Inr res \<Rightarrow> Inr (NewMessage (nats_answer res) [Some (WithMsg (nats_answer res))]))))"

text \<open>\<open>natsHeaderToMap\<close>: a header without a value is an index out of range.\<close>

fun natsHeaderToMap :: "nats_header \<Rightarrow> Headers \<Rightarrow> error + Headers" where
  "natsHeaderToMap [] m = Inr m"
| "natsHeaderToMap ((k, vs) # h) m =
     (case vs of [] \<Rightarrow> Inl (GoPanic ''index out of range'') | v # _ \<Rightarrow> natsHeaderToMap h (gomap_put k v m))"

text \<open>A subscription: what the closure uses of the broker and of the options.\<close>

record 'w nats_sub =
  nk_ctx :: ctx
  nk_bctx :: ctx
  nk_handler :: "'w Handler"
  nk_binder :: "(unit \<Rightarrow> dyn) option"
  nk_ErrorHandler :: "'w Handler option"
  nk_gob :: codec
  nk_Codec :: "codec option"
  nk_proto :: bool
  nk_is_proto :: "dyn \<Rightarrow> bool"
  nk_AutoAck :: bool
  nk_manualAck :: bool
  nk_Ack :: "nats_msg \<Rightarrow> 'w \<Rightarrow> error option \<times> 'w"
  nk_Nak :: "nats_msg \<Rightarrow> 'w \<Rightarrow> 'w"

definition pub_Ack :: "'w nats_sub \<Rightarrow> nats_msg \<Rightarrow> 'w \<Rightarrow> error option \<times> 'w" where
  "pub_Ack S msg w = (if prefix ''$JS.ACK.'' (nm_Reply msg) then nk_Ack S msg w else (None, w))"

definition nats_publication :: "'w nats_sub \<Rightarrow> nats_msg \<Rightarrow> Headers \<Rightarrow> dyn \<Rightarrow> error option \<Rightarrow> 'w event" where
  "nats_publication S msg hs body err =
     \<lparr>evt_Topic = nm_Subject msg, evt_Message = Some (empty_message\<lparr>msg_Headers := Some hs, msg_Body := body, msg_Msg := DOther ''*nats.Msg'' (nm_Reply msg)\<rparr>),
      evt_RawMessage = DOther ''broker.Message'' '''', evt_Ack = pub_Ack S msg, evt_Error = err\<rparr>"

text \<open>The value that the body is decoded into, and the decoded body.\<close>

definition nats_target :: "'w nats_sub \<Rightarrow> (unit \<Rightarrow> dyn) \<Rightarrow> bytes \<Rightarrow> dyn" where
  "nats_target S binder data = (if nk_proto S \<and> \<not> nk_is_proto S (binder ()) then DBytes (Some data) else binder ())"

definition nats_body :: "'w nats_sub \<Rightarrow> bytes \<Rightarrow> (error \<times> dyn) + dyn" where
  "nats_body S data =
     (case nk_binder S of
        None \<Rightarrow> Inr (DBytes (Some data))
      | Some b \<Rightarrow>
          (case Unmarshal (nk_gob S) (nk_Codec S) (Some data) (DPtr (TNamed ''interface {}'') (Some (nats_target S b data))) of
             Inl e \<Rightarrow> Inl (e, nats_target S b data)
           | Inr out \<Rightarrow> Inr (case pointee out of None \<Rightarrow> DNil | Some v \<Rightarrow> v)))"

definition nats_eh :: "'w nats_sub \<Rightarrow> ctx \<Rightarrow> 'w event \<Rightarrow> 'w \<Rightarrow> 'w" where
  "nats_eh S c p w = (case nk_ErrorHandler S of None \<Rightarrow> w | Some eh \<Rightarrow> snd (eh c (Some p) w))"

text \<open>The closures that the brokers give to the library; \<open>Inl\<close> is a panic.\<close>

definition nats_fn :: "'w nats_sub \<Rightarrow> nats_msg \<Rightarrow> 'w \<Rightarrow> error + 'w" where
  "nats_fn S msg w =
     (case natsHeaderToMap (nm_Header msg) [] of
        Inl e \<Rightarrow> Inl e
      | Inr hs \<Rightarrow>
          (case nats_body S (nm_Data msg) of
             Inl (e, body) \<Rightarrow> Inr (nats_eh S (nk_bctx S) (nats_publication S msg hs body (Some e)) w)
           | Inr body \<Rightarrow>
               (case nk_handler S (nk_ctx S) (Some (nats_publication S msg hs body None)) w of
                  (Some e, w1) \<Rightarrow> Inr (nats_eh S (nk_ctx S) (nats_publication S msg hs body (Some e)) w1)
                | (None, w1) \<Rightarrow> Inr (if nk_AutoAck S then snd (pub_Ack S msg w1) else w1))))"

definition js_fn :: "'w nats_sub \<Rightarrow> nats_msg \<Rightarrow> 'w \<Rightarrow> error + 'w" where
  "js_fn S msg w =
     (case natsHeaderToMap (nm_Header msg) [] of
        Inl e \<Rightarrow> Inl e
      | Inr hs \<Rightarrow>
          (case nats_body S (nm_Data msg) of
             Inl (e, body) \<Rightarrow> Inr (nk_Nak S msg (nats_eh S (nk_bctx S) (nats_publication S msg hs body (Some e)) w))
           | Inr body \<Rightarrow>
               (case nk_handler S [] (Some (nats_publication S msg hs body None)) w of
                  (Some e, w1) \<Rightarrow> Inr (nk_Nak S msg (nats_eh S (nk_bctx S) (nats_publication S msg hs body (Some e)) w1))
                | (None, w1) \<Rightarrow> Inr (if nk_AutoAck S \<and> \<not> nk_manualAck S then snd (pub_Ack S msg w1) else w1))))"

section \<open>The pull loop\<close>

datatype fetch_result = FetchMsgs "nats_msg list" | FetchTimeout | FetchConnectionClosed | FetchError

text \<open>
  One turn: \<open>None\<close> when the loop has ended. \<open>closed\<close> and \<open>closed'\<close> are the flag before the fetch and after it, \<open>ctx_done\<close> ends the pause after
  a lost connection.
\<close>

definition pull_turn :: "'w nats_sub \<Rightarrow> bool \<Rightarrow> bool \<Rightarrow> bool \<Rightarrow> fetch_result \<Rightarrow> 'w \<Rightarrow> (error + 'w) option" where
  "pull_turn S closed closed' ctx_done r w =
     (if closed then None
      else (case r of
              FetchMsgs msgs \<Rightarrow> Some (fold (\<lambda>m acc. case acc of Inl e \<Rightarrow> Inl e | Inr w \<Rightarrow> js_fn S m w) msgs (Inr w))
            | FetchTimeout \<Rightarrow> Some (Inr w)
            | FetchConnectionClosed \<Rightarrow> if ctx_done then None else Some (Inr w)
            | FetchError \<Rightarrow> if closed' then None else Some (Inr w)))"

section \<open>Subscribe options of JetStream\<close>

record js_sub_options =
  jo_durable :: "string option"
  jo_deliverAll :: bool
  jo_deliverLast :: bool
  jo_deliverNew :: bool
  jo_startSequence :: "64 word option"
  jo_startTime :: "int option"
  jo_ackWait :: "int option"
  jo_maxAckPending :: "int option"
  jo_bindStream :: "string option"
  jo_replayInstant :: bool
  jo_description :: "string option"
  jo_manualAck :: bool
  jo_raw :: "string list option"

datatype js_opt =
    Durable string | DeliverAll | DeliverLast | DeliverNew | StartSequence "64 word" | StartTime int | AckWait int | MaxAckPending int
  | BindStream string | ReplayInstant | Description string | ManualAck | RawSubOpt string

text \<open>\<open>jo_startTime\<close> holds a time that is not the zero time as \<open>Some t\<close> with \<open>t\<close> its nanoseconds.\<close>

definition buildSubOpts :: "js_sub_options \<Rightarrow> js_opt list" where
  "buildSubOpts x =
     (case jo_durable x of Some v \<Rightarrow> if v \<noteq> '''' then [Durable v] else [] | None \<Rightarrow> [])
   @ (if jo_deliverAll x then [DeliverAll] else [])
   @ (if jo_deliverLast x then [DeliverLast] else [])
   @ (if jo_deliverNew x then [DeliverNew] else [])
   @ (case jo_startSequence x of Some v \<Rightarrow> [StartSequence v] | None \<Rightarrow> [])
   @ (case jo_startTime x of Some v \<Rightarrow> [StartTime v] | None \<Rightarrow> [])
   @ (case jo_ackWait x of Some v \<Rightarrow> if v > 0 then [AckWait v] else [] | None \<Rightarrow> [])
   @ (case jo_maxAckPending x of Some v \<Rightarrow> if v > 0 then [MaxAckPending v] else [] | None \<Rightarrow> [])
   @ (case jo_bindStream x of Some v \<Rightarrow> if v \<noteq> '''' then [BindStream v] else [] | None \<Rightarrow> [])
   @ (if jo_replayInstant x then [ReplayInstant] else [])
   @ (case jo_description x of Some v \<Rightarrow> if v \<noteq> '''' then [Description v] else [] | None \<Rightarrow> [])
   @ (if jo_manualAck x then [ManualAck] else [])
   @ (case jo_raw x of Some vs \<Rightarrow> map RawSubOpt vs | None \<Rightarrow> [])"

section \<open>Lemmas\<close>

interpretation nats_tab: subscription_table "nats_Unsubscribe U" "\<lambda>w s. nu_Subject (w s)" "\<lambda>w s. nu_closed (w s)" for U
proof unfold_locales
  fix s b and st :: "(nat, nat \<Rightarrow> nsub) sub_state"
  show "fst (snd (nats_Unsubscribe U s b st)) = (if b then gomap_delete (nu_Subject (snd st s)) (fst st) else fst st)"
    by (auto simp: nats_Unsubscribe_def SubscriberSyncMap_RemoveOnly_def dom_gomap [symmetric] domIff gomap_delete_absent split: option.splits)
qed (auto simp: nats_Unsubscribe_def fun_eq_iff)

text \<open>The callbacks of the library that send on \<open>closeCh\<close>.\<close>

datatype nats_event = NClosed | NDisconnected | NDrainTimeout

fun nats_callback :: "nats_event \<Rightarrow> nats_broker \<Rightarrow> nats_broker option" where
  "nats_callback NClosed b = nats_onClose b"
| "nats_callback NDisconnected b = nats_onDisconnectedError b"
| "nats_callback NDrainTimeout b = nats_onAsyncError True b"

fun nats_callbacks :: "nats_event list \<Rightarrow> nats_broker \<Rightarrow> nats_broker option" where
  "nats_callbacks [] b = Some b"
| "nats_callbacks (e # es) b = (case nats_callback e b of None \<Rightarrow> None | Some b1 \<Rightarrow> nats_callbacks es b1)"

lemma callback_sends: "nb_drain b \<Longrightarrow> nats_callback e b = closeCh_send b"
  by (cases e) (simp_all add: nats_onClose_def nats_onDisconnectedError_def nats_onAsyncError_def)

lemma callbacks_fill:
  assumes "nb_drain b" "nb_closeCh b = Some n" "n + length es \<le> 8"
  shows "\<exists>b'. nats_callbacks es b = Some b' \<and> nb_drain b' \<and> nb_closeCh b' = Some (n + length es) \<and> nb_subscribers b' = nb_subscribers b"
  using assms
proof (induction es arbitrary: b n)
  case (Cons e es)
  let ?b = "b\<lparr>nb_closeCh := Some (Suc n)\<rparr>"
  have "nats_callback e b = Some ?b" using Cons.prems by (simp add: callback_sends closeCh_send_def)
  moreover have "\<exists>b'. nats_callbacks es ?b = Some b' \<and> nb_drain b' \<and> nb_closeCh b' = Some (Suc n + length es) \<and> nb_subscribers b' = nb_subscribers ?b"
    using Cons.prems by (intro Cons.IH) simp_all
  ultimately show ?case by auto
qed simp

lemma nats_Init_drain:
  assumes "nq_drain (nb_options b)"
  shows "nb_drain (snd (nats_Init durl dflt b))" "nb_closeCh (snd (nats_Init durl dflt b)) = Some 0"
    "nb_subscribers (snd (nats_Init durl dflt b)) = nb_subscribers b"
  using assms by (simp_all add: nats_Init_def nats_setOption_def Let_def)

lemma put_last: "k \<notin> fst ` set m \<Longrightarrow> gomap_put k v (m @ [(k, u)]) = m @ [(k, v)]"
  by (induction m) (auto simp: gomap_put_def)

lemma add_values: "k \<notin> fst ` set acc \<Longrightarrow> fold (header_add k) vs acc = (if vs = [] then acc else acc @ [(k, vs)])"
proof (induction vs rule: rev_induct)
  case (snoc v vs)
  have "map_of acc k = None" using snoc.prems by (simp add: map_of_eq_None_iff)
  then show ?case using snoc
    by (auto simp: header_add_def gomap_put_absent put_last map_add_def split: option.split)
qed simp

lemma sent_headers:
  "gomap_wf hs \<Longrightarrow> fst ` set acc \<inter> fst ` set hs = {} \<Longrightarrow>
     fold (\<lambda>(k, vs). fold (header_add k) vs) hs acc = acc @ filter (\<lambda>(k, vs). vs \<noteq> []) hs"
proof (induction hs arbitrary: acc)
  case (Cons p hs)
  obtain k vs where p: "p = (k, vs)" by (rule prod.exhaust)
  show ?case
  proof (cases "vs = []")
    case True
    then show ?thesis using Cons by (auto simp: p)
  next
    case False
    have "fold (header_add k) vs acc = acc @ [(k, vs)]" using Cons.prems False by (simp add: p add_values)
    moreover have "fst ` set (acc @ [(k, vs)]) \<inter> fst ` set hs = {}" "gomap_wf hs" using Cons.prems by (auto simp: p)
    ultimately show ?thesis using Cons.IH [of "acc @ [(k, vs)]"] False by (simp add: p)
  qed
qed simp

lemma received_headers:
  "gomap_wf h \<Longrightarrow> [] \<notin> snd ` set h \<Longrightarrow> fst ` set acc \<inter> fst ` set h = {} \<Longrightarrow> natsHeaderToMap h acc = Inr (acc @ map (\<lambda>(k, vs). (k, vs ! 0)) h)"
proof (induction h arbitrary: acc)
  case (Cons p h)
  obtain k vs where p: "p = (k, vs)" by (rule prod.exhaust)
  obtain v vs' where vs: "vs = v # vs'" using Cons.prems(2) by (cases vs) (auto simp: p)
  have "fst ` set (acc @ [(k, v)]) \<inter> fst ` set h = {}" using Cons.prems by (auto simp: p)
  then show ?case using Cons by (simp add: p vs gomap_put_absent)
qed simp

lemma headers_readable: "[] \<notin> snd ` set h \<Longrightarrow> \<exists>hs. natsHeaderToMap h acc = Inr hs"
  by (induction h arbitrary: acc) (auto split: list.split)

text \<open>The settlements of a delivery: what \<open>fn\<close> adds to a log of them.\<close>

datatype js_settle = JsAcked (js_settled: nats_msg) | JsNaked (js_settled: nats_msg)

lemma js_fn_settles:
  assumes hs: "natsHeaderToMap (nm_Header m) [] = Inr hs" and pre: "prefix ''$JS.ACK.'' (nm_Reply m)"
    and ack: "\<And>m w. settled (snd (nk_Ack S m w)) = settled w @ [JsAcked m]" and nak: "\<And>m w. settled (nk_Nak S m w) = settled w @ [JsNaked m]"
    and handler: "\<And>body w. nats_body S (nm_Data m) = Inr body \<Longrightarrow> fst (nk_handler S [] (Some (nats_publication S m hs body None)) w) = outcome
        \<and> settled (snd (nk_handler S [] (Some (nats_publication S m hs body None)) w)) = settled w"
    and eh: "\<And>h c p w. nk_ErrorHandler S = Some h \<Longrightarrow> settled (snd (h c (Some p) w)) = settled w"
  shows "\<exists>w1. js_fn S m w = Inr w1 \<and> settled w1 = settled w
       @ (if isl (nats_body S (nm_Data m)) \<or> outcome \<noteq> None then [JsNaked m] else if nk_AutoAck S \<and> \<not> nk_manualAck S then [JsAcked m] else [])"
proof -
  have e: "settled (nats_eh S c p w) = settled w" for c p w using eh by (simp add: nats_eh_def split: option.split)
  show ?thesis
  proof (cases "nats_body S (nm_Data m)")
    case (Inl x)
    then show ?thesis using hs e nak by (cases x) (simp add: js_fn_def)
  next
    case (Inr body)
    obtain r w1 where h: "nk_handler S [] (Some (nats_publication S m hs body None)) w = (r, w1)" by (rule prod.exhaust)
    with handler [OF Inr, of w] have "settled w1 = settled w" "outcome = r" by simp_all
    then show ?thesis using hs Inr h e nak ack pre by (cases r) (simp_all add: js_fn_def pub_Ack_def)
  qed
qed

section \<open>Properties\<close>

text \<open>
  A message that is published to a subject and received by a subscription of its type reaches the handler with the body that was published
  and is settled with nothing further to do. The headers that the handler gets are the first values of those given with \<open>WithHeaders\<close>: the headers
  of the message itself are not sent, so that the handler's result does not depend on them.
\<close>

theorem nats_publish_consume_roundtrip:
  assumes "nats_internalPublish gob (Some c) pub True topic (Some hs) msg = (None, Some m)" and "gomap_wf hs"
    and "nk_Codec S = Some c" and "nk_binder S = Some (Binder t zero)" and "nk_handler S = Subscribe_handler t h"
    and "nk_proto S \<Longrightarrow> nk_is_proto S (DPtr t (Some zero))"
    and "\<And>buf. c_Marshal c (msg_Body msg) = Inr buf \<Longrightarrow> \<exists>x. buf = Some x \<and>
           c_Unmarshal c x (DPtr (TNamed ''interface {}'') (Some (DPtr t (Some zero))))
             = Inr (DPtr (TNamed ''interface {}'') (Some (DPtr t (Some (msg_Body msg)))))"
    and "h (nk_ctx S) topic (Some (map (\<lambda>(k, vs). (k, vs ! 0)) (filter (\<lambda>(k, vs). vs \<noteq> []) hs))) (Some (msg_Body msg)) w = (None, w1)"
  shows "nats_fn S m w = Inr w1
       \<and> snd (nats_internalPublish gob (Some c) pub True topic (Some hs) (msg\<lparr>msg_Headers := other\<rparr>)) = Some m"
proof -
  obtain buf where buf: "Marshal gob (Some c) (msg_Body msg) = Inr buf"
    and m: "m = nats_msg_of topic (Some hs) ((Clone msg)\<lparr>msg_Body := DBytes buf\<rparr>)"
    using assms(1) by (auto simp: nats_internalPublish_def nats_publish_def split: sum.splits)
  from buf have "c_Marshal c (msg_Body msg) = Inr buf" by (simp add: Marshal_def split: if_splits)
  from assms(7) [OF this] obtain x where x: "buf = Some x"
    "c_Unmarshal c x (DPtr (TNamed ''interface {}'') (Some (DPtr t (Some zero))))
       = Inr (DPtr (TNamed ''interface {}'') (Some (DPtr t (Some (msg_Body msg)))))" by blast
  have f: "nm_Header m = filter (\<lambda>(k, vs). vs \<noteq> []) hs" "nm_Data m = x" "nm_Subject m = topic" "nm_Reply m = ''''"
    using m x(1) sent_headers [OF assms(2), of "[]"] by (simp_all add: nats_msg_of_def BodyBytes_def)
  have wf: "gomap_wf (filter (\<lambda>(k, vs). vs \<noteq> []) hs)" using assms(2) distinct_map_filter by blast
  have hm: "natsHeaderToMap (filter (\<lambda>(k, vs). vs \<noteq> []) hs) [] = Inr (map (\<lambda>(k, vs). (k, vs ! 0)) (filter (\<lambda>(k, vs). vs \<noteq> []) hs))"
    using received_headers [OF wf, of "[]"] by force
  have "nats_fn S m w = Inr w1"
    using assms(3,4,5,6,8) x(2) hm
    by (auto simp: nats_fn_def f nats_body_def nats_target_def Binder_def Unmarshal_def Subscribe_handler_def nats_publication_def pub_Ack_def)
  moreover have "nats_internalPublish gob (Some c) pub True topic (Some hs) (msg\<lparr>msg_Headers := other\<rparr>) = (pub m, Some m)"
    using buf m by (simp add: nats_internalPublish_def nats_publish_def nats_msg_of_def BodyBytes_def)
  ultimately show ?thesis by simp
qed

definition demo_nats :: "nat nats_sub" where
  "demo_nats = \<lparr>nk_ctx = [], nk_bctx = [], nk_handler = Subscribe_handler TInt (\<lambda>c topic hs d n. (None, n + length (the hs))),
     nk_binder = Some (Binder TInt (DInt 0)), nk_ErrorHandler = None, nk_gob = redis_codec, nk_Codec = Some redis_codec, nk_proto = False,
     nk_is_proto = (\<lambda>d. False), nk_AutoAck = True, nk_manualAck = False, nk_Ack = (\<lambda>m n. (None, n)), nk_Nak = (\<lambda>m n. n)\<rparr>"

theorem nats_publish_consume_roundtrip_witness:
  "nats_fn demo_nats (the (snd (nats_internalPublish redis_codec (Some redis_codec) (\<lambda>m. None) True ''t'' (Some [(''a'', [''1'', ''2'']), (''b'', [])])
       (NewMessage (DInt 7) [Some (WithHeader ''k'' ''v'')])))) 5 = Inr 6"
proof -
  let ?msg = "NewMessage (DInt 7) [Some (WithHeader ''k'' ''v'')]" and ?hs = "[(''a'', [''1'', ''2'']), (''b'', [])]"
  have body: "msg_Body ?msg = DInt 7" by (simp add: NewMessage_def WithHeader_def SetHeader_def)
  obtain m where p: "nats_internalPublish redis_codec (Some redis_codec) (\<lambda>m. None) True ''t'' (Some ?hs) ?msg = (None, Some m)"
    by (simp add: nats_internalPublish_def nats_publish_def Marshal_def redis_codec_def body)
  have "nats_fn demo_nats m 5 = Inr 6 \<and> snd (nats_internalPublish redis_codec (Some redis_codec) (\<lambda>m. None) True ''t'' (Some ?hs) (?msg\<lparr>msg_Headers := None\<rparr>)) = Some m"
    by (rule nats_publish_consume_roundtrip [OF p, where t = TInt and zero = "DInt 0" and h = "\<lambda>c topic hs d n. (None, n + length (the hs))"])
      (simp_all add: demo_nats_def redis_codec_def body)
  then show ?thesis using p by simp
qed

text \<open>
  C36: A JetStream delivery of the pull loop is settled at most once, and as its outcome says. A batch adds to the settlements, in the order of its messages, exactly these: a message
  whose body cannot be decoded or whose handler fails is refused with \<open>Nak\<close>; one that was handled is acknowledged when the subscription has \<open>AutoAck\<close>
  and not \<open>WithManualAck\<close>, and otherwise left to the handler. The hypotheses: every delivery has a value for each header and a
  reply subject of JetStream, \<open>Ack\<close> and \<open>Nak\<close> are recorded, the handler's result for a message is \<open>outcome\<close>, and neither the handler nor the error handler,
  if there is one, settles messages itself.
\<close>

theorem js_settles_each_delivery_once:
  assumes ack: "\<And>m w. settled (snd (nk_Ack S m w)) = settled w @ [JsAcked m]" and nak: "\<And>m w. settled (nk_Nak S m w) = settled w @ [JsNaked m]"
    and handler: "\<And>m hs body w. m \<in> set msgs \<Longrightarrow> fst (nk_handler S [] (Some (nats_publication S m hs body None)) w) = outcome m
        \<and> settled (snd (nk_handler S [] (Some (nats_publication S m hs body None)) w)) = settled w"
    and eh: "\<And>h c p w. nk_ErrorHandler S = Some h \<Longrightarrow> settled (snd (h c (Some p) w)) = settled w"
    and msgs: "\<forall>m\<in>set msgs. [] \<notin> snd ` set (nm_Header m) \<and> prefix ''$JS.ACK.'' (nm_Reply m)"
  shows "\<exists>w1. pull_turn S False closed' ctx_done (FetchMsgs msgs) w = Some (Inr w1)
       \<and> settled w1 = settled w @ concat (map (\<lambda>m.
            if isl (nats_body S (nm_Data m)) \<or> outcome m \<noteq> None then [JsNaked m]
            else if nk_AutoAck S \<and> \<not> nk_manualAck S then [JsAcked m] else []) msgs)"
  using msgs handler
proof (induction msgs arbitrary: w)
  case Nil
  show ?case by (simp add: pull_turn_def)
next
  case (Cons m msgs)
  from Cons.prems(1) obtain hs where hs: "natsHeaderToMap (nm_Header m) [] = Inr hs" using headers_readable [of "nm_Header m" "[]"] by auto
  have pre: "prefix ''$JS.ACK.'' (nm_Reply m)" using Cons.prems(1) by simp
  obtain w1 where one: "js_fn S m w = Inr w1" "settled w1 = settled w
       @ (if isl (nats_body S (nm_Data m)) \<or> outcome m \<noteq> None then [JsNaked m] else if nk_AutoAck S \<and> \<not> nk_manualAck S then [JsAcked m] else [])"
    using js_fn_settles [where settled = settled and outcome = "outcome m" and w = w, OF hs pre ack nak] Cons.prems(2) [of m] eh by auto
  from Cons.IH [of w1] Cons.prems obtain w2 where "pull_turn S False closed' ctx_done (FetchMsgs msgs) w1 = Some (Inr w2)"
    "settled w2 = settled w1 @ concat (map (\<lambda>m. if isl (nats_body S (nm_Data m)) \<or> outcome m \<noteq> None then [JsNaked m]
            else if nk_AutoAck S \<and> \<not> nk_manualAck S then [JsAcked m] else []) msgs)" by auto
  with one show ?case by (intro exI [of _ w2]) (simp add: pull_turn_def)
qed

definition log_nats :: "js_settle list nats_sub" where
  "log_nats = \<lparr>nk_ctx = [], nk_bctx = [], nk_handler = (\<lambda>c evt l. (if map_option evt_Topic evt = Some ''bad'' then Some (ErrNew ''no'') else None, l)),
     nk_binder = None, nk_ErrorHandler = None, nk_gob = redis_codec, nk_Codec = None, nk_proto = False, nk_is_proto = (\<lambda>d. False), nk_AutoAck = True,
     nk_manualAck = False, nk_Ack = (\<lambda>m l. (None, l @ [JsAcked m])), nk_Nak = (\<lambda>m l. l @ [JsNaked m])\<rparr>"

definition demo_delivery :: "string \<Rightarrow> nats_msg" where
  "demo_delivery subject = \<lparr>nm_Subject = subject, nm_Reply = ''$JS.ACK.s.c.1'', nm_Header = [(''a'', [''1''])], nm_Data = ''x''\<rparr>"

theorem js_settles_each_delivery_once_witness:
  "pull_turn log_nats False False False (FetchMsgs [demo_delivery ''good'', demo_delivery ''bad'']) []
     = Some (Inr [JsAcked (demo_delivery ''good''), JsNaked (demo_delivery ''bad'')])"
proof -
  let ?ms = "[demo_delivery ''good'', demo_delivery ''bad'']" and ?out = "\<lambda>m. if nm_Subject m = ''bad'' then Some (ErrNew ''no'') else None"
  have ms: "\<forall>m\<in>set ?ms. [] \<notin> snd ` set (nm_Header m) \<and> prefix ''$JS.ACK.'' (nm_Reply m)" by (simp add: demo_delivery_def)
  have "\<exists>w1. pull_turn log_nats False False False (FetchMsgs ?ms) [] = Some (Inr w1)
       \<and> id w1 = id [] @ concat (map (\<lambda>m. if isl (nats_body log_nats (nm_Data m)) \<or> ?out m \<noteq> None then [JsNaked m]
            else if nk_AutoAck log_nats \<and> \<not> nk_manualAck log_nats then [JsAcked m] else []) ?ms)"
    by (rule js_settles_each_delivery_once [where settled = id and outcome = ?out, OF _ _ _ _ ms]) (simp_all add: log_nats_def nats_publication_def)
  then show ?thesis by (simp add: log_nats_def nats_body_def demo_delivery_def)
qed

text \<open>
  A request over NATS is answered by the library's own reply subject, which the receiving handler cannot use: the receiver of the request gets
  no reply topic in its headers, so that \<open>ReplyTo\<close> refuses without publishing. And the body of an answer that does come back is the
  library's message and not its data.
\<close>

theorem nats_request_cannot_be_answered:
  assumes "natsHeaderToMap (nm_Header (nats_msg_of topic None m)) [] = Inr hs"
  shows "ReplyTo pub False (evt_Message (nats_publication S (nats_msg_of topic None m) hs body err)) answer opts = (Some ErrRequestNoReplyTo, [])
     \<and> (\<forall>res. (\<forall>q t. req q t = Inr res) \<longrightarrow>
          map_sum id msg_Body (nats_request req True topic timeout key None m) = Inr (DOther ''*nats.Msg'' (nm_Data res)))"
proof -
  have "hs = []" using assms by (simp add: nats_msg_of_def)
  then show ?thesis
    by (simp add: ReplyTo_def nats_publication_def empty_message_def GetHeader_def nats_request_def NewMessage_def WithMsg_def nats_answer_def)
qed

theorem nats_request_cannot_be_answered_witness:
  "ReplyTo (\<lambda>t m opts. None) False (evt_Message (nats_publication demo_nats (nats_msg_of ''t'' None (NewMessage (DInt 7) [])) [] (DInt 7) None)) (DInt 8) []
     = (Some ErrRequestNoReplyTo, [])"
proof -
  have "natsHeaderToMap (nm_Header (nats_msg_of ''t'' None (NewMessage (DInt 7) []))) [] = Inr []" by (simp add: nats_msg_of_def)
  from nats_request_cannot_be_answered [OF this] show ?thesis by blast
qed

text \<open>
  With \<open>DrainConnection\<close>, nothing reads the channel that the callbacks report on: the callbacks since the last \<open>Init\<close> fill its eight places, and
  as long as there is room \<open>Disconnect\<close> returns and closes every subscriber of the table; after the eighth event, a further callback never
  returns, and neither does \<open>Disconnect\<close>, which holds the lock of the broker.
\<close>

theorem nats_drain_blocks_disconnect:
  assumes "nq_drain (nb_options b)" and "nats_callbacks es (snd (nats_Init durl dflt b)) = Some b1"
  shows "(length es < 8 \<longrightarrow> (\<exists>b2. nats_Disconnect U b1 = Some (None, b2) \<and> \<not> nb_connected b2 \<and> fst (nb_subscribers b2) = []
            \<and> (\<forall>(t, i)\<in>set (fst (nb_subscribers b)). nu_closed (snd (nb_subscribers b2) i))))
     \<and> (length es = 8 \<longrightarrow> nats_Disconnect U b1 = None \<and> (\<forall>e. nats_callback e b1 = None)) \<and> length es \<le> 8"
proof -
  let ?b0 = "snd (nats_Init durl dflt b)"
  note i = nats_Init_drain [OF assms(1), of durl dflt]
  have le: "length es \<le> 8"
  proof (rule ccontr)
    assume "\<not> length es \<le> 8"
    then obtain xs y ys where es: "es = xs @ y # ys" "length xs = 8" by (metis id_take_nth_drop length_take min.absorb4 not_less)
    obtain b' where b': "nats_callbacks xs ?b0 = Some b'" "nb_drain b'" "nb_closeCh b' = Some 8"
      using callbacks_fill [OF i(1,2), of xs] es(2) by auto
    have app: "nats_callbacks (xs @ zs) c = (case nats_callbacks xs c of None \<Rightarrow> None | Some c' \<Rightarrow> nats_callbacks zs c')" for zs c
      by (induction xs arbitrary: c) (simp_all split: option.split)
    have "nats_callbacks es ?b0 = None" using b' by (simp add: es app callback_sends closeCh_send_def)
    then show False using assms(2) by simp
  qed
  then obtain b' where b': "nats_callbacks es ?b0 = Some b'" "nb_drain b'" "nb_closeCh b' = Some (length es)" "nb_subscribers b' = nb_subscribers b"
    using callbacks_fill [OF i(1,2), of es] i(3) by auto
  then have b1: "b1 = b'" using assms(2) by simp
  have "\<exists>b2. nats_Disconnect U b1 = Some (None, b2) \<and> \<not> nb_connected b2 \<and> fst (nb_subscribers b2) = []
      \<and> (\<forall>(t, i)\<in>set (fst (nb_subscribers b)). nu_closed (snd (nb_subscribers b2) i))" if "length es < 8"
    using that b' b1 nats_tab.Clear_closes_all [of U "nb_subscribers b"]
    by (auto simp: nats_Disconnect_def closeCh_send_def Let_def image_iff split: option.split) force+
  moreover have "nats_Disconnect U b1 = None" if "length es = 8"
    using that b' b1 by (auto simp: nats_Disconnect_def closeCh_send_def Let_def split: option.split)
  moreover have "nats_callback e b1 = None" if "length es = 8" for e using that b' b1 by (simp add: callback_sends closeCh_send_def)
  ultimately show ?thesis using le by blast
qed

definition demo_drain :: nats_broker where
  "demo_drain = nats_NewBroker \<lparr>nq_Addrs = [], nq_Secure = False, nq_TLSConfig = None, nq_opts = None, nq_drain = True\<rparr> (\<lambda>i. \<lparr>nu_Subject = '''', nu_closed = False\<rparr>)"

theorem nats_drain_blocks_disconnect_witness:
  "nats_Disconnect (\<lambda>s. None) (the (nats_callbacks (replicate 8 NDisconnected)
      (snd (nats_Init ''nats://x'' \<lparr>no_Servers = [], no_Secure = False, no_TLSConfig = None\<rparr> demo_drain)))) = None"
proof -
  let ?o = "\<lparr>no_Servers = [], no_Secure = False, no_TLSConfig = None\<rparr> :: nats_opts"
  have d: "nq_drain (nb_options demo_drain)" by (simp add: demo_drain_def nats_NewBroker_def)
  obtain b' where b': "nats_callbacks (replicate 8 NDisconnected) (snd (nats_Init ''nats://x'' ?o demo_drain)) = Some b'"
    using callbacks_fill [OF nats_Init_drain(1,2) [OF d, of "''nats://x''" ?o], of "replicate 8 NDisconnected"] by auto
  from nats_drain_blocks_disconnect [OF d this, of "\<lambda>s. None"] show ?thesis using b' by simp
qed

end
