(* ===== verification/Mq_Nats.thy ===== *)
theory Mq_Nats
  imports Mq_Server Nats_Broker
begin

text \<open>
  The two NATS brokers as the broker of the NATS transport, whose server is the one of \<open>Mq_Server\<close>. The registration of a topic is whether
  it pulls and its queue; \<open>dial\<close>, \<open>je\<close>, \<open>V\<close> and \<open>U\<close> are what the NATS library answers. The driver is only used for brokers without
  \<open>DrainConnection\<close>, whose \<open>Disconnect\<close> always returns.
\<close>

definition nats_Disconnect_total :: "(nsub \<Rightarrow> error option) \<Rightarrow> nats_broker \<Rightarrow> error option \<times> nats_broker" where
  "nats_Disconnect_total U b = (case nats_Disconnect U b of Some r \<Rightarrow> r | None \<Rightarrow> (None, b))"

definition nats_driver ::
    "string \<Rightarrow> nats_opts \<Rightarrow> bool \<Rightarrow> error option \<Rightarrow> error option \<Rightarrow> (string \<Rightarrow> string \<Rightarrow> error option) \<Rightarrow> (nsub \<Rightarrow> error option)
      \<Rightarrow> (bool \<times> string, nats_broker) mq_driver" where
  "nats_driver durl dflt useJetStream dial je V U =
     \<lparr>dr_Init = nats_Init durl dflt, dr_Connect = (if useJetStream then js_Connect dial je else nats_Connect dial),
      dr_Disconnect = nats_Disconnect_total U,
      dr_Subscribe = (\<lambda>t (isPull, queue). if useJetStream then js_Subscribe V U isPull t queue else nats_Subscribe V U t queue),
      dr_Unsubscribe = nb_Unsubscribe U\<rparr>"

definition nb_live :: "nats_broker \<Rightarrow> nat set" where
  "nb_live b = {i. i < nb_next b \<and> \<not> nu_closed (snd (nb_subscribers b) i)}"

definition nb_topic :: "nats_broker \<Rightarrow> nat \<Rightarrow> string" where
  "nb_topic b i = nu_Subject (snd (nb_subscribers b) i)"

definition nb_ok :: "nats_broker \<Rightarrow> bool" where
  "nb_ok b \<longleftrightarrow> gomap_wf (fst (nb_subscribers b)) \<and> (\<forall>(t, i)\<in>set (fst (nb_subscribers b)). i < nb_next b \<and> nb_topic b i = t)
     \<and> \<not> nb_drain b \<and> \<not> nq_drain (nb_options b)"

section \<open>Lemmas\<close>

lemma nb_tab:
  "nb_live b = nats_tab.tab_live (nb_subscribers b) (nb_next b)"
  "nb_ok b \<longleftrightarrow> nats_tab.tab_ok (nb_subscribers b) (nb_next b) \<and> \<not> nb_drain b \<and> \<not> nq_drain (nb_options b)"
  by (auto simp: nb_live_def nb_ok_def nb_topic_def nats_tab.tab_live_def nats_tab.tab_ok_def)

lemma nats_frames:
  "nb_subscribers (snd (nats_Connect dial b)) = nb_subscribers b \<and> nb_next (snd (nats_Connect dial b)) = nb_next b
     \<and> nb_drain (snd (nats_Connect dial b)) = nb_drain b \<and> nb_options (snd (nats_Connect dial b)) = nb_options b"
  "nb_subscribers (snd (js_Connect dial je b)) = nb_subscribers b \<and> nb_next (snd (js_Connect dial je b)) = nb_next b
     \<and> nb_drain (snd (js_Connect dial je b)) = nb_drain b \<and> nb_options (snd (js_Connect dial je b)) = nb_options b"
  by (simp_all add: nats_Connect_def js_Connect_def split: option.split)

lemma nats_Init_frame:
  assumes "\<not> nq_drain (nb_options b)"
  shows "nb_subscribers (snd (nats_Init durl dflt b)) = nb_subscribers b \<and> nb_next (snd (nats_Init durl dflt b)) = nb_next b
     \<and> nb_drain (snd (nats_Init durl dflt b)) = nb_drain b \<and> \<not> nq_drain (nb_options (snd (nats_Init durl dflt b)))"
  using assms by (simp add: nats_Init_def nats_setOption_def Let_def)

lemma nats_Subscribe_facts:
  assumes ok: "nb_ok b" and sub: "nats_Subscribe_with ready V wrap U t q b = (r, b')"
  shows "(case r of
      Inl e \<Rightarrow> nb_ok b' \<and> nb_live b' \<subseteq> nb_live b
    | Inr i \<Rightarrow> nb_ok b' \<and> i \<in> nb_live b' \<and> nb_live b' \<subseteq> insert i (nb_live b) \<and> nb_topic b' i = t
        \<and> (\<forall>j\<in>nb_live b. nb_topic b j \<noteq> t \<longrightarrow> j \<in> nb_live b' \<and> nb_topic b' j = nb_topic b j))"
proof (cases "ready \<and> V t q = None")
  case False
  then show ?thesis using ok sub by (auto simp: nats_Subscribe_with_def split: if_splits)
next
  case True
  obtain m w where st: "nb_subscribers b = (m, w)" by force
  define n where "n = nb_next b"
  define w1 where "w1 = w(n := \<lparr>nu_Subject = t, nu_closed = False\<rparr>)"
  define st1 where "st1 = replace_subscriber (nats_Unsubscribe U) t n (m, w1)"
  have w: "(\<lambda>s. nu_Subject (w1 s)) = (\<lambda>s. nu_Subject (w s))(n := t)" "(\<lambda>s. nu_closed (w1 s)) = (\<lambda>s. nu_closed (w s))(n := False)"
    by (auto simp: w1_def fun_eq_iff)
  have ok': "nats_tab.tab_ok (m, w) n" using ok by (simp add: nb_tab st n_def)
  note f = nats_tab.tab_replace [where U = U, OF ok' w, folded st1_def]
  have r: "r = Inr n" "nb_subscribers b' = st1" "nb_next b' = Suc n" "nb_drain b' = nb_drain b" "nb_options b' = nb_options b"
    using sub True by (auto simp: nats_Subscribe_with_def st Let_def st1_def w1_def n_def)
  then show ?thesis using ok f(1-4) f(5) by (auto simp: nb_tab st n_def nb_topic_def)
qed

lemma nats_Disconnect_facts:
  assumes "nb_ok b"
  shows "nats_Disconnect U b = Some (None, snd (nats_Disconnect_total U b))"
    "nb_ok (snd (nats_Disconnect_total U b)) \<and> nb_live (snd (nats_Disconnect_total U b)) \<subseteq> nb_live b"
  using assms nats_tab.tab_clear [of U "nb_subscribers b" "nb_next b"]
  by (simp_all add: nats_Disconnect_total_def nats_Disconnect_def nb_tab)

interpretation nats_mq: mq_broker_live "nats_driver durl dflt useJetStream dial je V U" nb_ok nb_live nb_topic
  for durl dflt useJetStream dial je V U
proof unfold_locales
  fix b :: nats_broker assume b: "nb_ok b"
  let ?D = "nats_driver durl dflt useJetStream dial je V U"
  show "nb_ok (snd (dr_Init ?D b)) \<and> nb_live (snd (dr_Init ?D b)) \<subseteq> nb_live b"
    using b nats_Init_frame [of b durl dflt] by (simp add: nats_driver_def nb_tab)
  show "nb_ok (snd (dr_Connect ?D b)) \<and> nb_live (snd (dr_Connect ?D b)) \<subseteq> nb_live b"
    using b nats_frames by (simp add: nats_driver_def nb_tab)
  show "nb_ok (snd (dr_Disconnect ?D b)) \<and> nb_live (snd (dr_Disconnect ?D b)) \<subseteq> nb_live b"
    using nats_Disconnect_facts [OF b] by (simp add: nats_driver_def)
  show "nb_ok (snd (dr_Unsubscribe ?D i rm b)) \<and> nb_live (snd (dr_Unsubscribe ?D i rm b)) \<subseteq> nb_live b - {i}" for i rm
    using b nats_tab.tab_unsub [of "nb_subscribers b" "nb_next b" U i rm]
    by (simp add: nats_driver_def nb_Unsubscribe_def nb_tab Let_def case_prod_unfold)
  have sub: "\<exists>ready wrap q. nats_Subscribe_with ready V wrap U t q b = (r, b')" if "dr_Subscribe ?D t x b = (r, b')" for t x r b'
    using that by (auto simp: nats_driver_def js_Subscribe_def nats_Subscribe_def split: prod.splits if_splits)
  fix t x b' i e
  show "nb_ok b' \<and> nb_live b' \<subseteq> insert i (nb_live b)" if "dr_Subscribe ?D t x b = (Inr i, b')"
    using sub [OF that] nats_Subscribe_facts [OF b, of _ V _ U t _ "Inr i" b'] by fastforce
  show "nb_ok b' \<and> nb_live b' \<subseteq> nb_live b" if "dr_Subscribe ?D t x b = (Inl e, b')"
    using sub [OF that] nats_Subscribe_facts [OF b, of _ V _ U t _ "Inl e" b'] by fastforce
  show "i \<in> nb_live b' \<and> nb_topic b' i = t \<and> (\<forall>j\<in>nb_live b. nb_topic b j \<noteq> t \<longrightarrow> j \<in> nb_live b' \<and> nb_topic b' j = nb_topic b j)"
    if "dr_Subscribe ?D t x b = (Inr i, b')"
    using sub [OF that] nats_Subscribe_facts [OF b, of _ V _ U t _ "Inr i" b'] by fastforce
qed

section \<open>Properties\<close>

text \<open>
  No interleaving of calls of \<open>Start\<close>, \<open>Stop\<close> and \<open>RegisterSubscriber\<close> leaks a subscription of the NATS transport, over core NATS and
  over JetStream and whatever the library answers, as long as the connection is not to be drained: whenever no call is running, every
  subscriber that is not closed is in the server's table, where each topic has one entry, when the server is stopped there is none, and
  \<open>Disconnect\<close> returns.
\<close>

theorem nats_server_leaks_no_subscription:
  assumes "mq_reach (nats_driver durl dflt useJetStream dial je V U) kenv kind (nats_NewBroker opts w) (s, ps)" and "quiet ps"
    and "\<not> nq_drain opts"
  shows "nb_live (mq_Broker s) \<subseteq> snd ` set (mq_subscribers s) \<and> gomap_wf (mq_subscribers s)
       \<and> (mq_started s \<or> nb_live (mq_Broker s) = {}) \<and> nats_Disconnect U (mq_Broker s) \<noteq> None"
proof -
  have b: "nb_ok (nats_NewBroker opts w)" "nb_live (nats_NewBroker opts w) = {}"
    using assms(3) by (simp_all add: nb_ok_def nb_live_def nats_NewBroker_def NewSubscriberSyncMap_def)
  have ok: "nb_ok (mq_Broker s)" using nats_mq.reach_tracked [OF assms(1) b] by (simp add: nats_mq.tracked_def)
  show ?thesis
    using nats_mq.quiet_no_leak [OF assms(1) b assms(2)] nats_mq.reach_tracked [OF assms(1) b] nats_Disconnect_facts(1) [OF ok]
    by (simp add: nats_mq.tracked_def)
qed

definition demo_nats_options :: nats_options where
  "demo_nats_options = \<lparr>nq_Addrs = [], nq_Secure = False, nq_TLSConfig = None, nq_opts = None, nq_drain = False\<rparr>"

definition demo_nats_opts :: nats_opts where "demo_nats_opts = \<lparr>no_Servers = [], no_Secure = False, no_TLSConfig = None\<rparr>"

definition demo_nsubs :: "nat \<Rightarrow> nsub" where "demo_nsubs i = \<lparr>nu_Subject = '''', nu_closed = False\<rparr>"

theorem nats_server_leaks_no_subscription_witness:
  "nb_live (mq_Broker (snd (mq_exec (nats_driver ''nats://x'' demo_nats_opts True None None (\<lambda>t q. None) (\<lambda>s. None)) ka_test_env ''nats'' (PRegister ''t'' (True, ''''))
      (mq_NewServer ka_test_env ''nats'' [] (nats_NewBroker demo_nats_options demo_nsubs))))) = {}"
proof -
  let ?D = "nats_driver ''nats://x'' demo_nats_opts True None None (\<lambda>t q. None) (\<lambda>s. None)" and ?b = "nats_NewBroker demo_nats_options demo_nsubs"
  let ?pc = "PRegister ''t'' (True, '''')"
  let ?s0 = "mq_NewServer ka_test_env ''nats'' [] ?b :: (bool \<times> string, nats_broker) mq_server"
  obtain pc s where e: "mq_exec ?D ka_test_env ''nats'' ?pc ?s0 = (pc, s)" by force
  have pc: "pc = PDone None" "\<not> mq_started s" using e by (auto simp: mq_NewServer_def mq_init_def)
  have "mq_reach ?D ka_test_env ''nats'' ?b (?s0, [?pc])"
    using mq_reach.step [OF mq_reach.init mq_step.call [of ?pc "''t''" "(True, '''')"]] by force
  from mq_reach.step [OF this mq_step.go [of 0]] have "mq_reach ?D ka_test_env ''nats'' ?b (s, [pc])" using e by simp
  from nats_server_leaks_no_subscription [OF this] show ?thesis using pc e by (simp add: quiet_def demo_nats_options_def)
qed

end
