(* ===== verification/Ws_Session.thy ===== *)
theory Ws_Session
  imports Tcp_Session
begin

text \<open>
  A websocket session: \<open>transport/websocket/session.go\<close>. The table of sessions is the code of the TCP transport (\<open>session_manager.go\<close>) and is
  shared with \<open>Tcp_Session\<close>. As there, a step is a turn of a pump, a send, or a statement of \<open>Close\<close>; the connection now carries whole
  messages, written with the type that the server is configured for. The read pump has a first part before its loop, where it sets
  a deadline when a timeout is configured; a method call on the nil connection of a closed session ends the process.
\<close>

section \<open>Definitions\<close>

datatype payload_type = PayloadTypeBinary | PayloadTypeText | PayloadTypeOther

datatype ws_kind = TextMessage | BinaryMessage | CloseMessage | PingMessage | PongMessage

datatype read_pump = RNot | RStarting | RRunning | RBlocked | RExiting | RExited

text \<open>The fields are those of \<open>session\<close>; \<open>w_wire\<close> lists the messages written, \<open>w_panic\<close> says that the process has crashed.\<close>

record wsession =
  w_id :: string
  w_queries :: "(string, string list) gomap"
  w_readTimeout :: int
  w_stage :: close_stage
  w_send :: "bytes list"
  w_listenOnce :: bool
  w_wg :: nat
  w_wpump :: pump
  w_rpump :: read_pump
  w_wire :: "(ws_kind \<times> bytes) list"
  w_pongs :: nat
  w_conn_closes :: nat
  w_removed :: nat
  w_handled :: "bytes list"
  w_accepted :: "bytes list"
  w_panic :: bool

definition ws_NewSession :: "string \<Rightarrow> (string, string list) gomap \<Rightarrow> int \<Rightarrow> wsession" where
  "ws_NewSession i vars readTimeout =
     \<lparr>w_id = i, w_queries = vars, w_readTimeout = readTimeout, w_stage = Open, w_send = [], w_listenOnce = False, w_wg = 0,
      w_wpump = NotStarted, w_rpump = RNot, w_wire = [], w_pongs = 0, w_conn_closes = 0, w_removed = 0, w_handled = [],
      w_accepted = [], w_panic = False\<rparr>"

definition ws_done :: "wsession \<Rightarrow> bool" where "ws_done s = (w_stage s \<noteq> Open)"

definition ws_Conn :: "wsession \<Rightarrow> bool" where "ws_Conn s = (w_stage s \<in> {Open, DoneClosed})"

definition ws_send_possible :: "send_outcome \<Rightarrow> wsession \<Rightarrow> bool" where
  "ws_send_possible oc s =
     (case oc of SendDone \<Rightarrow> ws_done s | SendQueued \<Rightarrow> length (w_send s) < channelBufSize | SendTimeout \<Rightarrow> True)"

definition ws_SendMessage :: "send_outcome \<Rightarrow> bytes \<Rightarrow> wsession \<Rightarrow> wsession" where
  "ws_SendMessage oc message s =
     (case oc of
        SendQueued \<Rightarrow> s\<lparr>w_send := w_send s @ [message], w_accepted := w_accepted s @ [message]\<rparr>
      | _ \<Rightarrow> s)"

definition ws_closeConnect :: "wsession \<Rightarrow> wsession" where
  "ws_closeConnect s = s\<lparr>w_stage := ConnClosed, w_conn_closes := (if ws_Conn s then Suc (w_conn_closes s) else w_conn_closes s)\<rparr>"

text \<open>The next statement of \<open>Close\<close>; the hooks of a server's session are never nil.\<close>

definition ws_Close_step :: "wsession \<Rightarrow> wsession" where
  "ws_Close_step s =
     (case w_stage s of
        Open \<Rightarrow> s\<lparr>w_stage := DoneClosed\<rparr>
      | DoneClosed \<Rightarrow> ws_closeConnect s
      | ConnClosed \<Rightarrow> s\<lparr>w_stage := Finished, w_removed := Suc (w_removed s)\<rparr>
      | Finished \<Rightarrow> s)"

definition ws_Close :: "wsession \<Rightarrow> wsession" where
  "ws_Close s = ws_Close_step (ws_Close_step (ws_Close_step s))"

definition ws_Listen :: "wsession \<Rightarrow> wsession" where
  "ws_Listen s =
     (if w_listenOnce s then s
      else s\<lparr>w_listenOnce := True, w_wg := w_wg s + 2, w_wpump := Running, w_rpump := RStarting\<rparr>)"

text \<open>\<open>sendBinaryMessage\<close> and \<open>sendTextMessage\<close>: nothing happens, and no error, when the connection is gone; \<open>ok\<close> is whether the write succeeds.\<close>

definition ws_write :: "ws_kind \<Rightarrow> bool \<Rightarrow> bytes \<Rightarrow> wsession \<Rightarrow> bool \<times> wsession" where
  "ws_write k ok message s =
     (if \<not> ws_Conn s then (True, s)
      else if ok then (True, s\<lparr>w_wire := w_wire s @ [(k, message)]\<rparr>)
      else (False, s))"

text \<open>One turn of the write pump; \<open>None\<close>: no branch of the \<open>select\<close> is ready.\<close>

definition ws_writePump_turn :: "payload_type \<Rightarrow> bool \<Rightarrow> bool \<Rightarrow> wsession \<Rightarrow> wsession option" where
  "ws_writePump_turn pt take_done ok s =
     (if ws_done s \<and> (take_done \<or> w_send s = []) then Some (s\<lparr>w_wpump := Exiting\<rparr>)
      else (case w_send s of
              [] \<Rightarrow> None
            | msg # q \<Rightarrow>
                (let s1 = s\<lparr>w_send := q\<rparr>;
                     r = (case pt of
                            PayloadTypeBinary \<Rightarrow> ws_write BinaryMessage ok msg s1
                          | PayloadTypeText \<Rightarrow> ws_write TextMessage ok msg s1
                          | PayloadTypeOther \<Rightarrow> (True, s1))
                 in Some (if fst r then snd r else (snd r)\<lparr>w_wpump := Exiting\<rparr>))))"

text \<open>The read pump before its loop, at the checks of a turn, and after \<open>ReadMessage\<close>; \<open>pong\<close> is whether the pong is written.\<close>

definition ws_readPump_start :: "wsession \<Rightarrow> wsession" where
  "ws_readPump_start s =
     (if w_readTimeout s > 0 \<and> \<not> ws_Conn s then s\<lparr>w_panic := True\<rparr> else s\<lparr>w_rpump := RRunning\<rparr>)"

definition ws_readPump_check :: "wsession \<Rightarrow> wsession" where
  "ws_readPump_check s = (if ws_done s \<or> \<not> ws_Conn s then s\<lparr>w_rpump := RExiting\<rparr> else s\<lparr>w_rpump := RBlocked\<rparr>)"

definition ws_readPump_message :: "error + ws_kind \<times> bytes \<Rightarrow> bool \<Rightarrow> wsession \<Rightarrow> wsession" where
  "ws_readPump_message r pong s =
     (case r of
        Inl e \<Rightarrow> s\<lparr>w_rpump := RExiting\<rparr>
      | Inr (k, data) \<Rightarrow>
          (case k of
             CloseMessage \<Rightarrow> s\<lparr>w_rpump := RExiting\<rparr>
           | BinaryMessage \<Rightarrow> s\<lparr>w_rpump := RRunning, w_handled := w_handled s @ [data]\<rparr>
           | TextMessage \<Rightarrow> s\<lparr>w_rpump := RRunning, w_handled := w_handled s @ [data]\<rparr>
           | PingMessage \<Rightarrow>
               (if \<not> ws_Conn s then s\<lparr>w_rpump := RRunning\<rparr>
                else if pong then s\<lparr>w_rpump := RRunning, w_pongs := Suc (w_pongs s)\<rparr>
                else s\<lparr>w_rpump := RExiting\<rparr>)
           | PongMessage \<Rightarrow> s\<lparr>w_rpump := RRunning\<rparr>))"

definition ws_writePump_exit :: "wsession \<Rightarrow> wsession" where
  "ws_writePump_exit s = s\<lparr>w_wpump := Exited, w_wg := w_wg s - 1\<rparr>"

definition ws_readPump_exit :: "wsession \<Rightarrow> wsession" where
  "ws_readPump_exit s = s\<lparr>w_rpump := RExited, w_wg := w_wg s - 1\<rparr>"

text \<open>Nothing happens after a crash.\<close>

inductive ws_step :: "payload_type \<Rightarrow> wsession \<Rightarrow> wsession \<Rightarrow> bool" for pt where
  send: "\<lbrakk>\<not> w_panic s; ws_send_possible oc s\<rbrakk> \<Longrightarrow> ws_step pt s (ws_SendMessage oc m s)"
| close: "\<lbrakk>\<not> w_panic s; w_stage s \<noteq> Finished\<rbrakk> \<Longrightarrow> ws_step pt s (ws_Close_step s)"
| listen: "\<not> w_panic s \<Longrightarrow> ws_step pt s (ws_Listen s)"
| wturn: "\<lbrakk>\<not> w_panic s; w_wpump s = Running; ws_writePump_turn pt td ok s = Some s'\<rbrakk> \<Longrightarrow> ws_step pt s s'"
| rstart: "\<lbrakk>\<not> w_panic s; w_rpump s = RStarting\<rbrakk> \<Longrightarrow> ws_step pt s (ws_readPump_start s)"
| rcheck: "\<lbrakk>\<not> w_panic s; w_rpump s = RRunning\<rbrakk> \<Longrightarrow> ws_step pt s (ws_readPump_check s)"
| rmessage: "\<lbrakk>\<not> w_panic s; w_rpump s = RBlocked\<rbrakk> \<Longrightarrow> ws_step pt s (ws_readPump_message r pong s)"
| wexit: "\<lbrakk>\<not> w_panic s; w_wpump s = Exiting; w_stage s = Finished\<rbrakk> \<Longrightarrow> ws_step pt s (ws_writePump_exit s)"
| rexit: "\<lbrakk>\<not> w_panic s; w_rpump s = RExiting; w_stage s = Finished\<rbrakk> \<Longrightarrow> ws_step pt s (ws_readPump_exit s)"

inductive ws_reachable :: "payload_type \<Rightarrow> wsession \<Rightarrow> bool" for pt where
  init: "ws_reachable pt (ws_NewSession i vars readTimeout)"
| step: "\<lbrakk>ws_reachable pt s; ws_step pt s s'\<rbrakk> \<Longrightarrow> ws_reachable pt s'"

section \<open>Lemmas\<close>

lemmas ws_defs [sess_defs] =
  ws_done_def ws_Conn_def ws_send_possible_def ws_SendMessage_def ws_closeConnect_def ws_Close_step_def ws_Listen_def ws_readPump_start_def
  ws_readPump_check_def ws_readPump_message_def ws_writePump_exit_def ws_readPump_exit_def

definition ws_kind_of :: "payload_type \<Rightarrow> ws_kind" where
  "ws_kind_of pt = (case pt of PayloadTypeText \<Rightarrow> TextMessage | _ \<Rightarrow> BinaryMessage)"

definition rpump_alive :: "read_pump \<Rightarrow> nat" where
  "rpump_alive p = (if p \<in> {RNot, RExited} then 0 else 1)"

text \<open>What was accepted is what was written, then what was lost, then what is queued.\<close>

definition ws_wire_ok :: "payload_type \<Rightarrow> wsession \<Rightarrow> bool" where
  "ws_wire_ok pt s \<longleftrightarrow>
     (\<exists>lost. w_accepted s = map snd (w_wire s) @ lost @ w_send s
        \<and> (ws_Conn s \<and> w_wpump s \<in> {NotStarted, Running} \<and> pt \<noteq> PayloadTypeOther \<longrightarrow> lost = []))
     \<and> (\<forall>(k, m)\<in>set (w_wire s). k = ws_kind_of pt)"

definition ws_life_ok :: "wsession \<Rightarrow> bool" where
  "ws_life_ok s \<longleftrightarrow>
     w_conn_closes s = (if w_stage s \<in> {ConnClosed, Finished} then 1 else 0) \<and>
     w_removed s = (if w_stage s = Finished then 1 else 0) \<and>
     w_wg s = pump_alive (w_wpump s) + rpump_alive (w_rpump s) \<and>
     (w_listenOnce s \<longleftrightarrow> w_wpump s \<noteq> NotStarted) \<and> (w_wpump s = NotStarted \<longleftrightarrow> w_rpump s = RNot) \<and>
     (w_wpump s = Exited \<or> w_rpump s = RExited \<longrightarrow> w_stage s = Finished) \<and>
     length (w_send s) \<le> channelBufSize \<and> w_wpump s \<noteq> Blocked \<and> (w_panic s \<longrightarrow> w_readTimeout s > 0)"

lemma wire_frame:
  assumes "ws_wire_ok pt s" "w_wire s' = w_wire s" "w_accepted s' = w_accepted s" "w_send s' = w_send s"
    "ws_Conn s' \<Longrightarrow> ws_Conn s" "w_wpump s' \<in> {NotStarted, Running} \<Longrightarrow> w_wpump s \<in> {NotStarted, Running}"
  shows "ws_wire_ok pt s'"
  using assms unfolding ws_wire_ok_def by (metis (no_types, lifting))

lemma wire_send: "ws_wire_ok pt s \<Longrightarrow> ws_wire_ok pt (ws_SendMessage oc m s)"
  by (cases oc) (fastforce simp: ws_wire_ok_def ws_SendMessage_def ws_Conn_def)+

text \<open>A turn of the write pump ends it, writes the oldest message, or drops it.\<close>

lemma ws_writePump_cases:
  assumes "ws_writePump_turn pt td ok s = Some s'"
  obtains (idle) "s' = s\<lparr>w_wpump := Exiting\<rparr>"
  | (lost) msg q p where "w_send s = msg # q" "s' = s\<lparr>w_send := q, w_wpump := p\<rparr>"
      "p = Exiting \<or> p = w_wpump s \<and> (\<not> ws_Conn s \<or> pt = PayloadTypeOther)"
  | (wrote) msg q where "w_send s = msg # q" "s' = s\<lparr>w_send := q, w_wire := w_wire s @ [(ws_kind_of pt, msg)]\<rparr>"
      "ws_Conn s" "pt \<noteq> PayloadTypeOther"
proof (cases "ws_done s \<and> (td \<or> w_send s = [])")
  case True
  then show ?thesis using assms idle by (simp add: ws_writePump_turn_def)
next
  case False
  then obtain msg q where q: "w_send s = msg # q" using assms by (auto simp: ws_writePump_turn_def split: list.splits)
  have c: "ws_Conn (s\<lparr>w_send := q\<rparr>) = ws_Conn s" by (simp add: ws_Conn_def)
  have same: "s\<lparr>w_send := q\<rparr> = s\<lparr>w_send := q, w_wpump := w_wpump s\<rparr>" by simp
  show ?thesis
  proof (cases "pt = PayloadTypeOther \<or> \<not> ws_Conn s")
    case True
    then have "s' = s\<lparr>w_send := q\<rparr>" using assms False q c by (auto simp: ws_writePump_turn_def ws_write_def Let_def split: payload_type.splits)
    then show ?thesis using lost [OF q, of "w_wpump s"] True same by auto
  next
    case conn: False
    then have "s' = (if ok then s\<lparr>w_send := q, w_wire := w_wire s @ [(ws_kind_of pt, msg)]\<rparr> else s\<lparr>w_send := q, w_wpump := Exiting\<rparr>)"
      using assms False q c by (cases pt) (auto simp: ws_writePump_turn_def ws_write_def ws_kind_of_def Let_def)
    then show ?thesis using lost [OF q, of Exiting] wrote [OF q] conn by (cases ok) auto
  qed
qed

lemma wire_write:
  assumes "ws_wire_ok pt s" "w_wpump s = Running" "ws_writePump_turn pt td ok s = Some s'"
  shows "ws_wire_ok pt s'"
  using assms(3)
proof (cases rule: ws_writePump_cases)
  case idle
  then show ?thesis using wire_frame [OF assms(1), of s'] assms(2) by (simp add: ws_Conn_def)
next
  case (lost msg q p)
  obtain l where "w_accepted s = map snd (w_wire s) @ l @ w_send s" using assms(1) by (auto simp: ws_wire_ok_def)
  then have "w_accepted s' = map snd (w_wire s') @ (l @ [msg]) @ w_send s'" using lost by simp
  moreover have "\<not> (ws_Conn s' \<and> w_wpump s' \<in> {NotStarted, Running} \<and> pt \<noteq> PayloadTypeOther)"
    using lost(2,3) assms(2) by (auto simp: ws_Conn_def)
  ultimately show ?thesis using assms(1) lost(2) unfolding ws_wire_ok_def by auto
next
  case (wrote msg q)
  obtain l where "w_accepted s = map snd (w_wire s) @ l @ w_send s"
    "ws_Conn s \<and> w_wpump s \<in> {NotStarted, Running} \<and> pt \<noteq> PayloadTypeOther \<longrightarrow> l = []" using assms(1) by (auto simp: ws_wire_ok_def)
  then have "w_accepted s' = map snd (w_wire s') @ [] @ w_send s'" using wrote(1,2,3,4) assms(2) by simp
  then show ?thesis using assms(1) wrote(2) unfolding ws_wire_ok_def by auto
qed

lemma life_write:
  assumes "ws_life_ok s" "w_wpump s = Running" "ws_writePump_turn pt td ok s = Some s'"
  shows "ws_life_ok s'"
  using assms(3) by (cases rule: ws_writePump_cases) (use assms(1,2) in \<open>auto simp: ws_life_ok_def pump_alive_def\<close>)

lemma life_close: "ws_life_ok s \<Longrightarrow> ws_life_ok (ws_Close_step s)"
  by (cases "w_stage s") (simp_all add: ws_life_ok_def ws_Close_step_def ws_closeConnect_def ws_Conn_def)

lemma wire_close: "ws_wire_ok pt s \<Longrightarrow> ws_wire_ok pt (ws_Close_step s)"
  by (erule wire_frame) (auto simp: ws_Close_step_def ws_closeConnect_def ws_Conn_def split: close_stage.splits)

lemma ws_step_inv:
  assumes "ws_step pt s s'" "ws_life_ok s" "ws_wire_ok pt s"
  shows "ws_life_ok s' \<and> ws_wire_ok pt s'"
  using assms
proof (induction rule: ws_step.induct)
  case (send s oc m)
  then have "ws_life_ok (ws_SendMessage oc m s)" by (cases oc) (auto simp: ws_life_ok_def ws_send_possible_def ws_SendMessage_def)
  then show ?case using wire_send send by blast
next
  case (close s)
  then show ?case using life_close wire_close by blast
next
  case (listen s)
  moreover have "ws_wire_ok pt (ws_Listen s)"
    by (rule wire_frame [OF listen(3)]) (use listen(2) in \<open>auto simp: ws_Listen_def ws_Conn_def ws_life_ok_def\<close>)
  ultimately show ?case by (auto simp: ws_Listen_def ws_life_ok_def pump_alive_def rpump_alive_def)
next
  case (wturn s td ok s')
  then show ?case using life_write wire_write by blast
next
  case (rstart s)
  moreover have "ws_wire_ok pt (ws_readPump_start s)" by (rule wire_frame [OF rstart(4)]) (auto simp: ws_readPump_start_def ws_Conn_def split: if_splits)
  ultimately show ?case by (auto simp: ws_readPump_start_def ws_life_ok_def rpump_alive_def)
next
  case (rcheck s)
  moreover have "ws_wire_ok pt (ws_readPump_check s)" by (rule wire_frame [OF rcheck(4)]) (auto simp: ws_readPump_check_def ws_Conn_def split: if_splits)
  ultimately show ?case by (auto simp: ws_readPump_check_def ws_life_ok_def rpump_alive_def)
next
  case (rmessage s r pong)
  moreover have "ws_wire_ok pt (ws_readPump_message r pong s)"
    by (rule wire_frame [OF rmessage(4)]) (auto simp: ws_readPump_message_def ws_Conn_def split: sum.splits ws_kind.splits if_splits)
  ultimately show ?case by (auto simp: ws_readPump_message_def ws_life_ok_def rpump_alive_def split: sum.splits ws_kind.splits)
next
  case (wexit s)
  moreover have "ws_wire_ok pt (ws_writePump_exit s)" by (rule wire_frame [OF wexit(5)]) (auto simp: ws_writePump_exit_def ws_Conn_def)
  ultimately show ?case by (auto simp: ws_writePump_exit_def ws_life_ok_def pump_alive_def)
next
  case (rexit s)
  moreover have "ws_wire_ok pt (ws_readPump_exit s)" by (rule wire_frame [OF rexit(5)]) (auto simp: ws_readPump_exit_def ws_Conn_def)
  ultimately show ?case by (auto simp: ws_readPump_exit_def ws_life_ok_def rpump_alive_def)
qed

lemma ws_reachable_inv: "ws_reachable pt s \<Longrightarrow> ws_life_ok s \<and> ws_wire_ok pt s"
proof (induction rule: ws_reachable.induct)
  case (init i vars readTimeout)
  then show ?case by (simp add: ws_NewSession_def ws_life_ok_def ws_wire_ok_def pump_alive_def rpump_alive_def)
qed (use ws_step_inv in blast)

lemma ws_reachable_steps: "\<lbrakk>(ws_step pt)\<^sup>*\<^sup>* s s'; ws_reachable pt s\<rbrakk> \<Longrightarrow> ws_reachable pt s'"
  by (induction rule: rtranclp_induct) (auto intro: ws_reachable.step)

text \<open>The statements of \<open>Close\<close> that are left, and the end of each pump of a closed session.\<close>

lemma ws_close_runs:
  assumes "\<not> w_panic s"
  shows "\<exists>s'. (ws_step pt)\<^sup>*\<^sup>* s s' \<and> w_stage s' = Finished \<and> \<not> w_panic s' \<and> w_wpump s' = w_wpump s \<and> w_rpump s' = w_rpump s
     \<and> w_readTimeout s' = w_readTimeout s"
proof -
  have one: "(ws_step pt)\<^sup>*\<^sup>* s (ws_Close_step s) \<and> \<not> w_panic (ws_Close_step s) \<and> w_wpump (ws_Close_step s) = w_wpump s
      \<and> w_rpump (ws_Close_step s) = w_rpump s \<and> w_readTimeout (ws_Close_step s) = w_readTimeout s" if "\<not> w_panic s" for s
  proof (cases "w_stage s = Finished")
    case True
    then show ?thesis using that by (simp add: ws_Close_step_def)
  next
    case False
    then show ?thesis using ws_step.close [OF that False, of pt] that
      by (auto simp: ws_Close_step_def ws_closeConnect_def split: close_stage.splits)
  qed
  define a where "a = ws_Close_step s"
  define b where "b = ws_Close_step a"
  have "w_stage (ws_Close_step b) = Finished"
    by (cases "w_stage s") (simp_all add: a_def b_def ws_Close_step_def ws_closeConnect_def)
  moreover note one [OF assms, folded a_def]
  moreover from this have "\<not> w_panic a" by simp
  note one [OF this, folded b_def]
  moreover from this have "\<not> w_panic b" by simp
  note one [OF this]
  ultimately show ?thesis by (intro exI [of _ "ws_Close_step b"]) (metis rtranclp_trans)
qed

lemma ws_wpump_ends:
  assumes "w_stage s = Finished" "\<not> w_panic s" "w_wpump s \<noteq> Blocked"
  shows "\<exists>s'. (ws_step pt)\<^sup>*\<^sup>* s s' \<and> w_stage s' = Finished \<and> \<not> w_panic s' \<and> w_wpump s' \<in> {NotStarted, Exited}
     \<and> w_rpump s' = w_rpump s \<and> w_readTimeout s' = w_readTimeout s"
proof -
  have ex: "ws_step pt t (ws_writePump_exit t)" if "w_wpump t = Exiting" "w_stage t = Finished" "\<not> w_panic t" for t
    using that by (intro ws_step.wexit)
  show ?thesis
  proof (cases "w_wpump s")
    case Running
    let ?t = "s\<lparr>w_wpump := Exiting\<rparr>"
    have "ws_writePump_turn pt True True s = Some ?t" using assms(1) by (simp add: ws_writePump_turn_def ws_done_def)
    from ws_step.wturn [OF assms(2) Running this] ex [of ?t] assms
    have "(ws_step pt)\<^sup>*\<^sup>* s (ws_writePump_exit ?t)" by (simp add: converse_rtranclp_into_rtranclp)
    then show ?thesis using assms by (intro exI [of _ "ws_writePump_exit ?t"]) (simp add: ws_writePump_exit_def)
  next
    case Exiting
    then show ?thesis using ex [of s] assms by (intro exI [of _ "ws_writePump_exit s"]) (auto simp: ws_writePump_exit_def)
  qed (use assms in auto)
qed

lemma ws_rpump_ends:
  assumes "w_stage s = Finished" "\<not> w_panic s" "w_rpump s = RStarting \<Longrightarrow> w_readTimeout s \<le> 0"
  shows "\<exists>s'. (ws_step pt)\<^sup>*\<^sup>* s s' \<and> w_stage s' = Finished \<and> \<not> w_panic s' \<and> w_rpump s' \<in> {RNot, RExited} \<and> w_wpump s' = w_wpump s"
proof -
  let ?x = "s\<lparr>w_rpump := RExiting\<rparr>" and ?run = "s\<lparr>w_rpump := RRunning\<rparr>"
  have "ws_step pt ?x (ws_readPump_exit ?x)" using assms by (intro ws_step.rexit) simp_all
  then have ends: ?thesis if "(ws_step pt)\<^sup>*\<^sup>* s ?x"
    using that assms by (intro exI [of _ "ws_readPump_exit ?x"]) (auto simp: ws_readPump_exit_def)
  have check: "ws_step pt ?run ?x" using ws_step.rcheck [of ?run pt] assms by (simp add: ws_readPump_check_def ws_done_def)
  show ?thesis
  proof (cases "w_rpump s")
    case RStarting
    then have "ws_step pt s ?run" using ws_step.rstart [of s pt] assms by (simp add: ws_readPump_start_def)
    then show ?thesis using ends check by (meson converse_rtranclp_into_rtranclp r_into_rtranclp)
  next
    case RRunning
    then have "?run = s" by simp
    then show ?thesis using ends check by (metis r_into_rtranclp)
  next
    case RBlocked
    then have "ws_step pt s ?x" using ws_step.rmessage [of s pt "Inl ErrEOF" True] assms by (simp add: ws_readPump_message_def)
    then show ?thesis using ends by blast
  next
    case RExiting
    then have "?x = s" by simp
    then show ?thesis using ends by (metis rtranclp.rtrancl_refl)
  qed (use assms in auto)
qed

section \<open>Properties\<close>

text \<open>
  In every reachable state of a websocket session, under any interleaving of its pumps, senders and closers, the peer was sent a
  prefix of the messages that the send channel accepted, whole, in the order in which they were accepted and with the type the server is
  configured for; as long as the connection is there and the write pump runs, nothing is lost; the connection is closed and the session
  removed at most once, and without a timeout the read pump never touches a connection that is gone.
\<close>

theorem ws_session_sends_in_order:
  assumes "ws_reachable pt s"
  shows "(\<exists>lost. w_accepted s = map snd (w_wire s) @ lost @ w_send s
        \<and> (ws_Conn s \<and> w_wpump s \<in> {NotStarted, Running} \<and> pt \<noteq> PayloadTypeOther \<longrightarrow> lost = []))
     \<and> fst ` set (w_wire s) \<subseteq> {ws_kind_of pt} \<and> length (w_send s) \<le> channelBufSize
     \<and> w_conn_closes s \<le> 1 \<and> w_removed s \<le> 1 \<and> (w_wpump s = Exited \<or> w_rpump s = RExited \<longrightarrow> w_conn_closes s = 1 \<and> w_removed s = 1)
     \<and> (w_readTimeout s \<le> 0 \<longrightarrow> \<not> w_panic s)"
proof -
  have "ws_life_ok s" "ws_wire_ok pt s" using ws_reachable_inv [OF assms] by auto
  moreover have "fst ` set (w_wire s) \<subseteq> {ws_kind_of pt}" using \<open>ws_wire_ok pt s\<close> by (auto simp: ws_wire_ok_def)
  moreover have "w_readTimeout s \<le> 0 \<longrightarrow> \<not> w_panic s" using \<open>ws_life_ok s\<close> by (auto simp: ws_life_ok_def)
  ultimately show ?thesis by (simp add: ws_life_ok_def ws_wire_ok_def)
qed

theorem ws_session_sends_in_order_witness:
  "\<exists>s. ws_reachable PayloadTypeText s \<and> w_wire s = [(TextMessage, ''m'')] \<and> w_conn_closes s \<le> 1"
proof -
  let ?s0 = "ws_NewSession ''a'' [] 0"
  let ?s1 = "ws_SendMessage SendQueued ''m'' ?s0"
  let ?s2 = "ws_Listen ?s1"
  let ?s3 = "?s2\<lparr>w_send := [], w_wire := [(TextMessage, ''m'')]\<rparr>"
  have "ws_reachable PayloadTypeText ?s1"
    by (rule ws_reachable.step [OF ws_reachable.init ws_step.send]) (simp_all add: ws_NewSession_def ws_send_possible_def channelBufSize_def)
  then have "ws_reachable PayloadTypeText ?s2"
    by (rule ws_reachable.step [OF _ ws_step.listen]) (simp add: ws_NewSession_def ws_SendMessage_def)
  then have r: "ws_reachable PayloadTypeText ?s3"
    by (rule ws_reachable.step [OF _ ws_step.wturn [where td = False and ok = True]])
      (simp_all add: ws_NewSession_def ws_SendMessage_def ws_Listen_def ws_writePump_turn_def ws_done_def ws_write_def ws_Conn_def)
  show ?thesis using ws_session_sends_in_order [OF r] r by (intro exI [of _ ?s3]) simp
qed

text \<open>
  Closing a websocket session releases its goroutines: from every reachable state in which it is closed there is a run of its own steps after
  which both pumps have ended, the wait group is zero, the connection is closed and the session removed, unless the read pump of a session
  with a timeout has not started yet.
\<close>

theorem ws_closed_session_terminates:
  assumes "ws_reachable pt s" and "\<not> w_panic s" and "w_rpump s = RStarting \<Longrightarrow> w_readTimeout s \<le> 0"
  shows "\<exists>s'. (ws_step pt)\<^sup>*\<^sup>* s s' \<and> w_wg s' = 0 \<and> w_conn_closes s' = 1 \<and> w_removed s' = 1 \<and> \<not> w_panic s'"
proof -
  note reach = ws_reachable_steps [OF _ assms(1)]
  obtain a where a: "(ws_step pt)\<^sup>*\<^sup>* s a" "w_stage a = Finished" "\<not> w_panic a" "w_rpump a = w_rpump s" "w_readTimeout a = w_readTimeout s"
    using ws_close_runs [OF assms(2)] by blast
  have "w_wpump a \<noteq> Blocked" using ws_reachable_inv [OF reach [OF a(1)]] by (simp add: ws_life_ok_def)
  then obtain b where b: "(ws_step pt)\<^sup>*\<^sup>* a b" "w_stage b = Finished" "\<not> w_panic b" "w_wpump b \<in> {NotStarted, Exited}"
    "w_rpump b = w_rpump a" "w_readTimeout b = w_readTimeout a" using ws_wpump_ends [OF a(2,3)] by blast
  have "w_rpump b = RStarting \<Longrightarrow> w_readTimeout b \<le> 0" using a b assms(3) by simp
  then obtain c where c: "(ws_step pt)\<^sup>*\<^sup>* b c" "w_stage c = Finished" "\<not> w_panic c" "w_rpump c \<in> {RNot, RExited}" "w_wpump c = w_wpump b"
    using ws_rpump_ends [OF b(2,3)] by blast
  have run: "(ws_step pt)\<^sup>*\<^sup>* s c" using a(1) b(1) c(1) by (meson rtranclp_trans)
  then have "ws_life_ok c" using ws_reachable_inv reach by blast
  then show ?thesis using run b(4) c by (intro exI [of _ c]) (auto simp: ws_life_ok_def pump_alive_def rpump_alive_def)
qed

theorem ws_closed_session_terminates_witness:
  "\<exists>s'. (ws_step PayloadTypeBinary)\<^sup>*\<^sup>* (ws_NewSession ''a'' [] 0) s' \<and> w_wg s' = 0 \<and> w_removed s' = 1"
  using ws_closed_session_terminates [OF ws_reachable.init [of PayloadTypeBinary "''a''" "[]" 0]] by (auto simp: ws_NewSession_def)

text \<open>
  C31: But with a timeout the process can crash: when a session is closed before its read pump has run its first statements, which \<open>Stop\<close> does to a
  session that was just accepted, the pump calls \<open>SetReadDeadline\<close> on a nil connection.
\<close>

theorem ws_early_close_crashes:
  assumes "readTimeout > 0"
  shows "\<exists>s. (ws_step pt)\<^sup>*\<^sup>* (ws_Listen (ws_NewSession i vars readTimeout)) s \<and> w_panic s \<and> w_removed s = 1 \<and> (\<forall>s'. \<not> ws_step pt s s')"
proof -
  let ?l = "ws_Listen (ws_NewSession i vars readTimeout)"
  have l: "\<not> w_panic ?l" "w_rpump ?l = RStarting" "w_readTimeout ?l = readTimeout" "w_wpump ?l = Running" "w_stage ?l = Open"
    by (simp_all add: ws_Listen_def ws_NewSession_def)
  obtain a where a: "(ws_step pt)\<^sup>*\<^sup>* ?l a" "w_stage a = Finished" "\<not> w_panic a" "w_rpump a = RStarting" "w_readTimeout a = readTimeout"
    using ws_close_runs [OF l(1), of pt] l by auto
  let ?s = "a\<lparr>w_panic := True\<rparr>"
  have "ws_step pt a ?s" using ws_step.rstart [of a pt] a assms by (simp add: ws_readPump_start_def ws_Conn_def)
  moreover have "\<not> ws_step pt ?s s'" for s' by (auto elim: ws_step.cases)
  moreover have "ws_reachable pt ?l" using ws_reachable.step [OF ws_reachable.init ws_step.listen] by (simp add: ws_NewSession_def)
  then have "ws_reachable pt a" by (rule ws_reachable_steps [OF a(1)])
  then have "w_removed a = 1" using ws_reachable_inv a(2) by (auto simp: ws_life_ok_def)
  ultimately show ?thesis using a(1) by (intro exI [of _ ?s]) auto
qed

theorem ws_early_close_crashes_witness:
  "\<exists>s. (ws_step PayloadTypeBinary)\<^sup>*\<^sup>* (ws_Listen (ws_NewSession ''a'' [] 60)) s \<and> w_panic s"
  using ws_early_close_crashes [of 60 PayloadTypeBinary "''a''" "[]"] by auto

end
