(* ===== verification/Ws_Server.thy ===== *)
theory Ws_Server
  imports Ws_Session Tcp_Server
begin

text \<open>
  The websocket transport: \<open>transport/websocket/server.go\<close>, \<open>server_options.go\<close>, \<open>client.go\<close>, \<open>client_options.go\<close> and \<open>message.go\<close>. The types
  of \<open>types.go\<close>, the address utilities and the table of sessions are the ones of the TCP transport. The record \<open>ws_env\<close> has what comes from
  outside: opening a listener, the codecs, \<open>encoding/json\<close> on a text packet, the HTTP server's errors. The HTTP server is new, serving,
  or shut down for good, as \<open>net/http\<close> documents. A request is a handler goroutine, cut at the points where \<open>Stop\<close> can come between.
\<close>

section \<open>State\<close>

record ws_env =
  we_Listen :: "string \<Rightarrow> string \<Rightarrow> error + listener"
  we_ParseIP :: "string \<Rightarrow> ip option"
  we_Interfaces :: "error + iface list"
  we_GetCodec :: "string \<Rightarrow> codec option"
  we_gob :: codec
  we_json_Marshal :: "32 word \<Rightarrow> string \<Rightarrow> error + bytes"
  we_json_Unmarshal :: "bytes \<Rightarrow> error + 32 word \<times> string"
  we_Shutdown :: "error option"

type_synonym queries = "(string, string list) gomap"

datatype http_state = HttpNew | HttpServing | HttpShut

record 'st ws_server =
  wv_http :: http_state
  wv_lis :: "listener option"
  wv_endpoint :: "url option"
  wv_network :: string
  wv_address :: string
  wv_path :: string
  wv_strictSlash :: bool
  wv_injectToken :: bool
  wv_tokenKey :: string
  wv_err :: "error option"
  wv_codec :: "codec option"
  wv_sessionManager :: "string session_manager"
  wv_payloadType :: payload_type
  wv_messageHandlers :: "(32 word, 'st MessageHandlerData) gomap"
  wv_netPacketMarshaler :: "(32 word \<Rightarrow> dyn \<Rightarrow> error + bytes) hook option"
  wv_netPacketUnmarshaler :: "(bytes \<Rightarrow> error + 'st MessageHandlerData \<times> dyn) hook option"
  wv_socketConnectHandler :: "(string \<Rightarrow> queries \<Rightarrow> bool \<Rightarrow> 'st \<Rightarrow> 'st) option"
  wv_socketRawDataHandler :: "(string \<Rightarrow> bytes \<Rightarrow> 'st \<Rightarrow> error option \<times> 'st) hook option"
  wv_running :: bool
  wv_timeout :: int
  wv_heap :: "(string, wsession) gomap"
  wv_app :: 'st

section \<open>Options and construction\<close>

type_synonym 'st ws_option = "'st ws_server \<Rightarrow> 'st ws_server"

definition ws_WithNetwork :: "string \<Rightarrow> 'st ws_option" where
  "ws_WithNetwork network s = (if network \<noteq> '''' then s\<lparr>wv_network := network\<rparr> else s)"

definition ws_WithAddress :: "string \<Rightarrow> 'st ws_option" where
  "ws_WithAddress addr s = (if addr \<noteq> '''' then s\<lparr>wv_address := addr\<rparr> else s)"

definition ws_WithStrictSlash :: "bool \<Rightarrow> 'st ws_option" where
  "ws_WithStrictSlash b s = s\<lparr>wv_strictSlash := b\<rparr>"

definition ws_WithPath :: "string \<Rightarrow> 'st ws_option" where
  "ws_WithPath p s = (if p \<noteq> '''' then s\<lparr>wv_path := p\<rparr> else s)"

definition ws_WithListener :: "listener option \<Rightarrow> 'st ws_option" where
  "ws_WithListener lis s = s\<lparr>wv_lis := lis\<rparr>"

definition ws_WithCodec :: "ws_env \<Rightarrow> string \<Rightarrow> 'st ws_option" where
  "ws_WithCodec env c s = (if c \<noteq> '''' then s\<lparr>wv_codec := we_GetCodec env c\<rparr> else s)"

definition ws_WithPayloadType :: "payload_type \<Rightarrow> 'st ws_option" where
  "ws_WithPayloadType pt s = s\<lparr>wv_payloadType := pt\<rparr>"

definition ws_WithInjectTokenToQuery :: "bool \<Rightarrow> string \<Rightarrow> 'st ws_option" where
  "ws_WithInjectTokenToQuery enable key s = s\<lparr>wv_injectToken := enable, wv_tokenKey := key\<rparr>"

definition ws_WithMessageMarshaler :: "(32 word \<Rightarrow> dyn \<Rightarrow> error + bytes) option \<Rightarrow> 'st ws_option" where
  "ws_WithMessageMarshaler m s = s\<lparr>wv_netPacketMarshaler := map_option CustomHook m\<rparr>"

definition ws_WithMessageUnmarshaler :: "(bytes \<Rightarrow> error + 'st MessageHandlerData \<times> dyn) option \<Rightarrow> 'st ws_option" where
  "ws_WithMessageUnmarshaler m s = s\<lparr>wv_netPacketUnmarshaler := map_option CustomHook m\<rparr>"

definition ws_WithSocketConnectHandler :: "(string \<Rightarrow> queries \<Rightarrow> bool \<Rightarrow> 'st \<Rightarrow> 'st) option \<Rightarrow> 'st ws_option" where
  "ws_WithSocketConnectHandler h s = s\<lparr>wv_socketConnectHandler := h\<rparr>"

definition ws_WithSocketRawDataHandler :: "(string \<Rightarrow> bytes \<Rightarrow> 'st \<Rightarrow> error option \<times> 'st) option \<Rightarrow> 'st ws_option" where
  "ws_WithSocketRawDataHandler h s = (case h of None \<Rightarrow> s | Some f \<Rightarrow> s\<lparr>wv_socketRawDataHandler := Some (CustomHook f)\<rparr>)"

definition ws_WithTimeout :: "int \<Rightarrow> 'st ws_option" where
  "ws_WithTimeout timeout s = s\<lparr>wv_timeout := timeout\<rparr>"

definition ws_init :: "ws_env \<Rightarrow> 'st ws_option list \<Rightarrow> 'st ws_server \<Rightarrow> 'st ws_server" where
  "ws_init env opts s =
     (let s0 = fold (\<lambda>opt s. opt s) opts s;
          s1 = (if wv_netPacketMarshaler s0 = None then s0\<lparr>wv_netPacketMarshaler := Some DefaultHook\<rparr> else s0);
          s2 = (if wv_netPacketUnmarshaler s1 = None then s1\<lparr>wv_netPacketUnmarshaler := Some DefaultHook\<rparr> else s1);
          s3 = (if wv_socketRawDataHandler s2 = None then s2\<lparr>wv_socketRawDataHandler := Some DefaultHook\<rparr> else s2)
      in if wv_codec s3 = None
         then (let s4 = s3\<lparr>wv_codec := we_GetCodec env ''json''\<rparr>
               in if wv_codec s4 = None then s4\<lparr>wv_codec := we_GetCodec env ''bytes''\<rparr> else s4)
         else s3)"

definition ws_NewServer :: "ws_env \<Rightarrow> 'st ws_option list \<Rightarrow> 'st \<Rightarrow> 'st ws_server" where
  "ws_NewServer env opts app =
     ws_init env opts
       \<lparr>wv_http = HttpNew, wv_lis = None, wv_endpoint = None, wv_network = ''tcp'', wv_address = '':0'', wv_path = ''/'', wv_strictSlash = True,
        wv_injectToken = True, wv_tokenKey = ''token'', wv_err = None, wv_codec = None,
        wv_sessionManager = RegisterObserver True (NewSessionManager False), wv_payloadType = PayloadTypeBinary, wv_messageHandlers = [],
        wv_netPacketMarshaler = None, wv_netPacketUnmarshaler = None, wv_socketConnectHandler = None, wv_socketRawDataHandler = None,
        wv_running = False, wv_timeout = 0, wv_heap = [], wv_app = app\<rparr>"

section \<open>Messages\<close>

definition ws_RegisterMessageHandler ::
    "32 word \<Rightarrow> (string \<Rightarrow> dyn \<Rightarrow> 'st \<Rightarrow> error option \<times> 'st) option \<Rightarrow> (unit \<Rightarrow> dyn) option \<Rightarrow> 'st ws_server \<Rightarrow> 'st ws_server" where
  "ws_RegisterMessageHandler messageType handler binder s =
     (if map_of (wv_messageHandlers s) messageType \<noteq> None then s
      else s\<lparr>wv_messageHandlers := gomap_put messageType \<lparr>md_Handler = handler, md_Creator = binder\<rparr> (wv_messageHandlers s)\<rparr>)"

definition ws_RegisterServerMessageHandler ::
    "gotype \<Rightarrow> dyn \<Rightarrow> 32 word \<Rightarrow> (string \<Rightarrow> dyn \<Rightarrow> 'st \<Rightarrow> error option \<times> 'st) \<Rightarrow> 'st ws_server \<Rightarrow> 'st ws_server" where
  "ws_RegisterServerMessageHandler t zero messageType handler s =
     ws_RegisterMessageHandler messageType (Some (typed_handler t handler)) (Some (\<lambda>_. DPtr t (Some zero))) s"

definition ws_DeregisterMessageHandler :: "32 word \<Rightarrow> 'st ws_server \<Rightarrow> 'st ws_server" where
  "ws_DeregisterMessageHandler messageType s = s\<lparr>wv_messageHandlers := gomap_delete messageType (wv_messageHandlers s)\<rparr>"

definition ws_GetMessageHandler :: "'st ws_server \<Rightarrow> 32 word \<Rightarrow> 'st MessageHandlerData option" where
  "ws_GetMessageHandler s messageType = map_of (wv_messageHandlers s) messageType"

text \<open>The packets of \<open>message.go\<close>: a binary packet is the TCP one with little-endian byte order; the payload of a text packet is a string.\<close>

definition slice_bytes :: "slice \<Rightarrow> bytes" where
  "slice_bytes b = (case b of None \<Rightarrow> '''' | Some x \<Rightarrow> x)"

definition ws_packet :: "ws_env \<Rightarrow> payload_type \<Rightarrow> 32 word \<Rightarrow> slice \<Rightarrow> error + bytes" where
  "ws_packet env pt messageType payload =
     (case pt of
        PayloadTypeBinary \<Rightarrow> NetPacket_Marshal LittleEndian \<lparr>np_Type = messageType, np_Payload = slice_bytes payload\<rparr>
      | PayloadTypeText \<Rightarrow> we_json_Marshal env messageType (slice_bytes payload)
      | PayloadTypeOther \<Rightarrow> Inr [])"

definition ws_unpacket :: "ws_env \<Rightarrow> payload_type \<Rightarrow> bytes \<Rightarrow> error + 32 word \<times> bytes" where
  "ws_unpacket env pt buf =
     (case pt of
        PayloadTypeBinary \<Rightarrow>
          (case NetPacket_Unmarshal LittleEndian buf of Inl e \<Rightarrow> Inl e | Inr msg \<Rightarrow> Inr (np_Type msg, np_Payload msg))
      | PayloadTypeText \<Rightarrow> we_json_Unmarshal env buf
      | PayloadTypeOther \<Rightarrow> Inr (0, []))"

text \<open>With a payload type that is neither of the two, nothing is marshalled at all.\<close>

definition ws_defaultMarshalNetPacket :: "ws_env \<Rightarrow> codec option \<Rightarrow> payload_type \<Rightarrow> 32 word \<Rightarrow> dyn \<Rightarrow> error + bytes" where
  "ws_defaultMarshalNetPacket env cod pt messageType message =
     (if pt = PayloadTypeOther then Inr []
      else (case Marshal (we_gob env) cod message of Inl e \<Rightarrow> Inl e | Inr payload \<Rightarrow> ws_packet env pt messageType payload))"

definition ws_marshalMessage :: "ws_env \<Rightarrow> 'st ws_server \<Rightarrow> 32 word \<Rightarrow> dyn \<Rightarrow> error + bytes" where
  "ws_marshalMessage env s messageType message =
     (case wv_netPacketMarshaler s of
        Some (CustomHook f) \<Rightarrow> f messageType message
      | _ \<Rightarrow> ws_defaultMarshalNetPacket env (wv_codec s) (wv_payloadType s) messageType message)"

definition ws_any_ptr :: "dyn \<Rightarrow> dyn" where
  "ws_any_ptr v = DPtr (TNamed ''websocket.MessagePayload'') (Some v)"

definition ws_defaultUnmarshalNetPacket :: "ws_env \<Rightarrow> 'st ws_server \<Rightarrow> bytes \<Rightarrow> error + 'st MessageHandlerData \<times> dyn" where
  "ws_defaultUnmarshalNetPacket env s buf =
     (case ws_unpacket env (wv_payloadType s) buf of
        Inl e \<Rightarrow> Inl e
      | Inr (messageType, rawPayload) \<Rightarrow>
          (case ws_GetMessageHandler s messageType of
             None \<Rightarrow> Inl (ErrNew ''message handler not found'')
           | Some h \<Rightarrow>
               (let payload = MessageHandlerData_Create h
                in if payload = DNil then Inr (h, DBytes (Some rawPayload))
                   else (case Unmarshal (we_gob env) (wv_codec s) (Some rawPayload) (ws_any_ptr payload) of
                           Inl e \<Rightarrow> Inl e
                         | Inr v \<Rightarrow> Inr (h, any_deref v payload)))))"

definition ws_unmarshalNetPacket :: "ws_env \<Rightarrow> 'st ws_server \<Rightarrow> bytes \<Rightarrow> error + 'st MessageHandlerData \<times> dyn" where
  "ws_unmarshalNetPacket env s buf =
     (case wv_netPacketUnmarshaler s of Some (CustomHook f) \<Rightarrow> f buf | _ \<Rightarrow> ws_defaultUnmarshalNetPacket env s buf)"

definition ws_defaultHandleSocketRawData :: "ws_env \<Rightarrow> string \<Rightarrow> bytes \<Rightarrow> 'st ws_server \<Rightarrow> error option \<times> 'st ws_server" where
  "ws_defaultHandleSocketRawData env sessionId buf s =
     (case ws_unmarshalNetPacket env s buf of
        Inl e \<Rightarrow> (Some e, s)
      | Inr (h, payload) \<Rightarrow>
          (case md_Handler h of
             None \<Rightarrow> (Some (GoPanic ''nil handler''), s)
           | Some f \<Rightarrow> (let (e, app) = f sessionId payload (wv_app s) in (e, s\<lparr>wv_app := app\<rparr>))))"

definition ws_handleSocketRawData :: "ws_env \<Rightarrow> string \<Rightarrow> bytes \<Rightarrow> 'st ws_server \<Rightarrow> error option \<times> 'st ws_server" where
  "ws_handleSocketRawData env sessionId buf s =
     (case wv_socketRawDataHandler s of
        Some (CustomHook f) \<Rightarrow> (let (e, app) = f sessionId buf (wv_app s) in (e, s\<lparr>wv_app := app\<rparr>))
      | _ \<Rightarrow> ws_defaultHandleSocketRawData env sessionId buf s)"

section \<open>Sessions of the server\<close>

definition ws_queries :: "'st ws_server \<Rightarrow> string \<Rightarrow> queries" where
  "ws_queries s i = (case map_of (wv_heap s) i of None \<Rightarrow> [] | Some sess \<Rightarrow> w_queries sess)"

definition ws_OnSession :: "bool \<Rightarrow> string \<Rightarrow> 'st ws_server \<Rightarrow> 'st ws_server" where
  "ws_OnSession added i s =
     (case wv_socketConnectHandler s of None \<Rightarrow> s | Some f \<Rightarrow> s\<lparr>wv_app := f i (ws_queries s i) added (wv_app s)\<rparr>)"

definition ws_addSession :: "string \<Rightarrow> 'st ws_server \<Rightarrow> 'st ws_server" where
  "ws_addSession i s =
     (let s1 = s\<lparr>wv_sessionManager := addSession id (Some i) (wv_sessionManager s)\<rparr>
      in if sm_observer (wv_sessionManager s) then ws_OnSession True i s1 else s1)"

definition ws_removeSession :: "string \<Rightarrow> 'st ws_server \<Rightarrow> 'st ws_server" where
  "ws_removeSession i s =
     (let s1 = s\<lparr>wv_sessionManager := removeSession id (Some i) (wv_sessionManager s)\<rparr>
      in if sm_observer (wv_sessionManager s) then ws_OnSession False i s1 else s1)"

text \<open>\<open>session.Close()\<close> of a session that the server knows.\<close>

definition ws_closeSession :: "string \<Rightarrow> 'st ws_server \<Rightarrow> 'st ws_server" where
  "ws_closeSession i s =
     (case map_of (wv_heap s) i of
        None \<Rightarrow> s
      | Some sess \<Rightarrow>
          (let s1 = s\<lparr>wv_heap := gomap_put i (ws_Close sess) (wv_heap s)\<rparr>
           in if w_removed (ws_Close sess) > w_removed sess then ws_removeSession i s1 else s1))"

definition ws_session_send :: "(wsession \<Rightarrow> send_outcome) \<Rightarrow> bytes \<Rightarrow> string \<Rightarrow> 'st ws_server \<Rightarrow> 'st ws_server" where
  "ws_session_send oc message i s =
     (case map_of (wv_heap s) i of
        None \<Rightarrow> s
      | Some sess \<Rightarrow> s\<lparr>wv_heap := gomap_put i (ws_SendMessage (oc sess) message sess) (wv_heap s)\<rparr>)"

definition ws_SendRawMessage :: "(wsession \<Rightarrow> send_outcome) \<Rightarrow> string \<Rightarrow> bytes \<Rightarrow> 'st ws_server \<Rightarrow> error option \<times> 'st ws_server" where
  "ws_SendRawMessage oc sessionId message s =
     (case getSession (wv_sessionManager s) sessionId of
        None \<Rightarrow> (Some (ErrNew ''session not found''), s)
      | Some i \<Rightarrow> (None, ws_session_send oc message i s))"

text \<open>\<open>SendMessage\<close> marshals only for the two payload types it knows.\<close>

definition ws_Server_SendMessage ::
    "ws_env \<Rightarrow> (wsession \<Rightarrow> send_outcome) \<Rightarrow> string \<Rightarrow> 32 word \<Rightarrow> dyn \<Rightarrow> 'st ws_server \<Rightarrow> error option \<times> 'st ws_server" where
  "ws_Server_SendMessage env oc sessionId messageType message s =
     (case (if wv_payloadType s = PayloadTypeOther then Inr [] else ws_marshalMessage env s messageType message) of
        Inl e \<Rightarrow> (Some e, s)
      | Inr buf \<Rightarrow> ws_SendRawMessage oc sessionId buf s)"

definition ws_Broadcast :: "ws_env \<Rightarrow> (wsession \<Rightarrow> send_outcome) \<Rightarrow> 32 word \<Rightarrow> dyn \<Rightarrow> 'st ws_server \<Rightarrow> 'st ws_server" where
  "ws_Broadcast env oc messageType message s =
     (case ws_marshalMessage env s messageType message of
        Inl e \<Rightarrow> s
      | Inr buf \<Rightarrow> rangeSessions id (\<lambda>_ i s. (True, ws_session_send oc buf i s)) (wv_sessionManager s) s)"

section \<open>Requests\<close>

text \<open>The query of the session: the subprotocol header, when it is there, is the token.\<close>

definition ws_vars :: "string \<Rightarrow> queries \<Rightarrow> 'st ws_server \<Rightarrow> queries" where
  "ws_vars token query s = (if token \<noteq> '''' \<and> wv_injectToken s then gomap_put (wv_tokenKey s) [token] query else query)"

text \<open>A handler after \<open>Upgrade\<close>, after \<open>addSession\<close>, and at its end; \<open>i\<close> is the GUID of its session.\<close>

datatype handler_pc = HUpgraded string queries | HAdded string | HDone

fun wsHandler_turn :: "handler_pc \<Rightarrow> 'st ws_server \<Rightarrow> handler_pc \<times> 'st ws_server" where
  "wsHandler_turn (HUpgraded i vars) s =
     (HAdded i, ws_addSession i (s\<lparr>wv_heap := gomap_put i (ws_NewSession i vars (wv_timeout s)) (wv_heap s)\<rparr>))"
| "wsHandler_turn (HAdded i) s =
     (HDone, (case map_of (wv_heap s) i of None \<Rightarrow> s | Some sess \<Rightarrow> s\<lparr>wv_heap := gomap_put i (ws_Listen sess) (wv_heap s)\<rparr>))"
| "wsHandler_turn HDone s = (HDone, s)"

section \<open>Start and Stop\<close>

definition ws_listenAndEndpoint :: "ws_env \<Rightarrow> 'st ws_server \<Rightarrow> error option \<times> 'st ws_server" where
  "ws_listenAndEndpoint env s =
     (case (case wv_lis s of
              Some l \<Rightarrow> Inr s
            | None \<Rightarrow> (case we_Listen env (wv_network s) (wv_address s) of Inl e \<Rightarrow> Inl e | Inr lis \<Rightarrow> Inr (s\<lparr>wv_lis := Some lis\<rparr>))) of
        Inl e \<Rightarrow> (Some e, s)
      | Inr s1 \<Rightarrow>
          (if wv_endpoint s1 = None
           then (case AdjustAddress (we_ParseIP env) (we_Interfaces env) (wv_address s1) (wv_lis s1) of
                   Inl e \<Rightarrow> (Some e, s1)
                 | Inr addr \<Rightarrow> (None, s1\<lparr>wv_endpoint := Some (NewRegistryEndpoint ''websocket'' addr)\<rparr>))
           else (None, s1)))"

definition ws_Endpoint :: "ws_env \<Rightarrow> 'st ws_server \<Rightarrow> (error + url option) \<times> 'st ws_server" where
  "ws_Endpoint env s =
     (case ws_listenAndEndpoint env s of (Some e, s1) \<Rightarrow> (Inl e, s1) | (None, s1) \<Rightarrow> (Inr (wv_endpoint s1), s1))"

text \<open>
  \<open>Start\<close> up to \<open>Serve\<close>, and \<open>Serve\<close>. \<open>StartServing\<close>: the call blocks until the server is shut down. \<open>Serve\<close> of a server that was
  shut down returns \<open>ErrServerClosed\<close> at once, which \<open>Start\<close> turns into nil.
\<close>

datatype ws_start = StartServing | StartReturns "error option"

definition ws_Start_begin :: "ws_env \<Rightarrow> 'st ws_server \<Rightarrow> error option option \<times> 'st ws_server" where
  "ws_Start_begin env s =
     (if wv_running s then (Some None, s)
      else (case ws_listenAndEndpoint env s of
              (Some e, s1) \<Rightarrow> (Some (Some e), s1\<lparr>wv_err := Some e\<rparr>)
            | (None, s1) \<Rightarrow> (None, s1\<lparr>wv_err := None, wv_running := True\<rparr>)))"

definition ws_Serve :: "'st ws_server \<Rightarrow> ws_start \<times> 'st ws_server" where
  "ws_Serve s = (if wv_http s = HttpShut then (StartReturns None, s) else (StartServing, s\<lparr>wv_http := HttpServing\<rparr>))"

definition ws_Start :: "ws_env \<Rightarrow> 'st ws_server \<Rightarrow> ws_start \<times> 'st ws_server" where
  "ws_Start env s =
     (case ws_Start_begin env s of
        (Some e, s1) \<Rightarrow> (StartReturns e, s1)
      | (None, s1) \<Rightarrow> ws_Serve s1)"

text \<open>\<open>Stop\<close> up to the end of \<open>Shutdown\<close>, and the closing of the sessions.\<close>

definition ws_Stop_shutdown :: "'st ws_server \<Rightarrow> 'st ws_server" where
  "ws_Stop_shutdown s = s\<lparr>wv_running := False, wv_http := HttpShut\<rparr>"

definition ws_Stop_sessions :: "'st ws_server \<Rightarrow> 'st ws_server" where
  "ws_Stop_sessions s = (rangeSessions id (\<lambda>_ i s. (True, ws_closeSession i s)) (wv_sessionManager s) s)\<lparr>wv_err := None\<rparr>"

definition ws_Stop :: "ws_env \<Rightarrow> 'st ws_server \<Rightarrow> error option \<times> 'st ws_server" where
  "ws_Stop env s = (if \<not> wv_running s then (None, s) else (we_Shutdown env, ws_Stop_sessions (ws_Stop_shutdown s)))"

section \<open>The client\<close>

record 'st ws_client_handler =
  wd_Handler :: "(dyn \<Rightarrow> 'st \<Rightarrow> error option \<times> 'st) option"
  wd_Creator :: "(unit \<Rightarrow> dyn) option"

text \<open>\<open>wc_sent\<close> is what was written to the connection.\<close>

record 'st ws_client =
  wc_conn :: bool
  wc_url :: string
  wc_endpoint :: "string option"
  wc_codec :: "codec option"
  wc_messageHandlers :: "(32 word, 'st ws_client_handler) gomap"
  wc_timeout :: int
  wc_payloadType :: payload_type
  wc_sent :: "(ws_kind \<times> bytes) list"
  wc_app :: 'st

definition ws_WithClientCodec :: "ws_env \<Rightarrow> string \<Rightarrow> 'st ws_client \<Rightarrow> 'st ws_client" where
  "ws_WithClientCodec env c cl = cl\<lparr>wc_codec := we_GetCodec env c\<rparr>"

definition ws_WithEndpoint :: "string \<Rightarrow> 'st ws_client \<Rightarrow> 'st ws_client" where
  "ws_WithEndpoint uri cl = cl\<lparr>wc_url := uri\<rparr>"

definition ws_WithClientPayloadType :: "payload_type \<Rightarrow> 'st ws_client \<Rightarrow> 'st ws_client" where
  "ws_WithClientPayloadType pt cl = cl\<lparr>wc_payloadType := pt\<rparr>"

definition ws_NewClient :: "ws_env \<Rightarrow> (string \<Rightarrow> string option) \<Rightarrow> ('st ws_client \<Rightarrow> 'st ws_client) list \<Rightarrow> 'st \<Rightarrow> 'st ws_client" where
  "ws_NewClient env parse opts app =
     (let c = fold (\<lambda>opt c. opt c) opts
            \<lparr>wc_conn = False, wc_url = '''', wc_endpoint = None, wc_codec = we_GetCodec env ''json'', wc_messageHandlers = [],
             wc_timeout = 1000000000, wc_payloadType = PayloadTypeBinary, wc_sent = [], wc_app = app\<rparr>
      in c\<lparr>wc_endpoint := parse (wc_url c)\<rparr>)"

definition ws_Connect :: "error option \<Rightarrow> 'st ws_client \<Rightarrow> error option \<times> 'st ws_client" where
  "ws_Connect dial c =
     (if wc_endpoint c = None then (Some (ErrNew ''endpoint is nil''), c)
      else (case dial of Some e \<Rightarrow> (Some e, c) | None \<Rightarrow> (None, c\<lparr>wc_conn := True\<rparr>)))"

definition ws_Disconnect :: "'st ws_client \<Rightarrow> 'st ws_client" where
  "ws_Disconnect c = c\<lparr>wc_conn := False\<rparr>"

definition ws_Client_RegisterMessageHandler ::
    "32 word \<Rightarrow> (dyn \<Rightarrow> 'st \<Rightarrow> error option \<times> 'st) option \<Rightarrow> (unit \<Rightarrow> dyn) option \<Rightarrow> 'st ws_client \<Rightarrow> 'st ws_client" where
  "ws_Client_RegisterMessageHandler messageType handler binder c =
     (if map_of (wc_messageHandlers c) messageType \<noteq> None then c
      else c\<lparr>wc_messageHandlers := gomap_put messageType \<lparr>wd_Handler = handler, wd_Creator = binder\<rparr> (wc_messageHandlers c)\<rparr>)"

definition ws_client_typed :: "gotype \<Rightarrow> (dyn \<Rightarrow> 'st \<Rightarrow> error option \<times> 'st) \<Rightarrow> dyn \<Rightarrow> 'st \<Rightarrow> error option \<times> 'st" where
  "ws_client_typed t handler payload app =
     (if typeof payload = Some (TPtr t) then handler payload app else (Some (ErrNew ''invalid payload struct type''), app))"

definition ws_RegisterClientMessageHandler ::
    "gotype \<Rightarrow> dyn \<Rightarrow> 32 word \<Rightarrow> (dyn \<Rightarrow> 'st \<Rightarrow> error option \<times> 'st) \<Rightarrow> 'st ws_client \<Rightarrow> 'st ws_client" where
  "ws_RegisterClientMessageHandler t zero messageType handler c =
     ws_Client_RegisterMessageHandler messageType (Some (ws_client_typed t handler)) (Some (\<lambda>_. DPtr t (Some zero))) c"

definition ws_Client_DeregisterMessageHandler :: "32 word \<Rightarrow> 'st ws_client \<Rightarrow> 'st ws_client" where
  "ws_Client_DeregisterMessageHandler messageType c = c\<lparr>wc_messageHandlers := gomap_delete messageType (wc_messageHandlers c)\<rparr>"

text \<open>\<open>wr\<close> is the error of \<open>WriteMessage\<close>.\<close>

definition ws_client_write :: "error option \<Rightarrow> ws_kind \<Rightarrow> bytes \<Rightarrow> 'st ws_client \<Rightarrow> error option \<times> 'st ws_client" where
  "ws_client_write wr k message c =
     (if \<not> wc_conn c then (Some (ErrNew ''websocket: client is not connected''), c)
      else (case wr of Some e \<Rightarrow> (Some e, c) | None \<Rightarrow> (None, c\<lparr>wc_sent := wc_sent c @ [(k, message)]\<rparr>)))"

definition ws_Client_SendMessage :: "ws_env \<Rightarrow> error option \<Rightarrow> 32 word \<Rightarrow> dyn \<Rightarrow> 'st ws_client \<Rightarrow> error option \<times> 'st ws_client" where
  "ws_Client_SendMessage env wr messageType message c =
     (case ws_defaultMarshalNetPacket env (wc_codec c) (wc_payloadType c) messageType message of
        Inl e \<Rightarrow> (Some e, c)
      | Inr buff \<Rightarrow>
          (case wc_payloadType c of
             PayloadTypeBinary \<Rightarrow> ws_client_write wr BinaryMessage buff c
           | PayloadTypeText \<Rightarrow> ws_client_write wr TextMessage buff c
           | PayloadTypeOther \<Rightarrow> (None, c)))"

text \<open>\<open>unmarshalMessage\<close>: with no creator the payload is the byte slice of a binary packet, the string of a text packet.\<close>

definition ws_unmarshalMessage :: "ws_env \<Rightarrow> 'st ws_client \<Rightarrow> bytes \<Rightarrow> error + 'st ws_client_handler option \<times> dyn" where
  "ws_unmarshalMessage env c buf =
     (if wc_payloadType c = PayloadTypeOther then Inr (None, DNil)
      else (case ws_unpacket env (wc_payloadType c) buf of
              Inl e \<Rightarrow> Inl e
            | Inr (messageType, raw) \<Rightarrow>
                (case map_of (wc_messageHandlers c) messageType of
                   None \<Rightarrow> Inl (ErrNew ''message handler not found'')
                 | Some h \<Rightarrow>
                     (case wd_Creator h of
                        None \<Rightarrow> Inr (Some h, if wc_payloadType c = PayloadTypeText then DString raw else DBytes (Some raw))
                      | Some f \<Rightarrow>
                          (case Unmarshal (we_gob env) (wc_codec c) (Some raw) (ws_any_ptr (f ())) of
                             Inl e \<Rightarrow> Inl e
                           | Inr v \<Rightarrow> Inr (Some h, any_deref v (f ())))))))"

definition ws_messageHandler :: "ws_env \<Rightarrow> bytes \<Rightarrow> 'st ws_client \<Rightarrow> error option \<times> 'st ws_client" where
  "ws_messageHandler env buf c =
     (case ws_unmarshalMessage env c buf of
        Inl e \<Rightarrow> (Some e, c)
      | Inr (Some h, payload) \<Rightarrow>
          (case wd_Handler h of
             None \<Rightarrow> (Some (GoPanic ''nil handler''), c)
           | Some f \<Rightarrow> (let (e, app) = f payload (wc_app c) in (e, c\<lparr>wc_app := app\<rparr>)))
      | Inr (None, payload) \<Rightarrow> (Some (GoPanic ''nil handler''), c))"

text \<open>The read loop on what the connection delivers; an error ends it and disconnects.\<close>

fun ws_client_run :: "ws_env \<Rightarrow> (error + ws_kind \<times> bytes) list \<Rightarrow> 'st ws_client \<Rightarrow> 'st ws_client" where
  "ws_client_run env [] c = c"
| "ws_client_run env (r # rs) c =
     (if \<not> wc_conn c then ws_Disconnect c
      else (case r of
              Inl e \<Rightarrow> ws_Disconnect c
            | Inr (k, data) \<Rightarrow>
                ws_client_run env rs (if k = BinaryMessage \<or> k = TextMessage then snd (ws_messageHandler env data c) else c)))"

section \<open>Lemmas\<close>

text \<open>The handler tables of the server and of the client keep the first registration.\<close>

interpretation ws_handlers: first_wins_store "\<lambda>s. map_of (wv_messageHandlers s)" ws_DeregisterMessageHandler
    "\<lambda>s. gomap_keys (wv_messageHandlers s)" "\<lambda>s. gomap_wf (wv_messageHandlers s)"
    "\<lambda>t h. ws_RegisterMessageHandler t (md_Handler h) (md_Creator h)"
  by unfold_locales (auto simp: ws_DeregisterMessageHandler_def ws_RegisterMessageHandler_def gomap_simps gomap_keys_def dom_gomap)

interpretation ws_client_handlers: first_wins_store "\<lambda>c. map_of (wc_messageHandlers c)" ws_Client_DeregisterMessageHandler
    "\<lambda>c. gomap_keys (wc_messageHandlers c)" "\<lambda>c. gomap_wf (wc_messageHandlers c)"
    "\<lambda>t h. ws_Client_RegisterMessageHandler t (wd_Handler h) (wd_Creator h)"
  by unfold_locales
    (auto simp: ws_Client_DeregisterMessageHandler_def ws_Client_RegisterMessageHandler_def gomap_simps gomap_keys_def dom_gomap)

subsection \<open>Messages\<close>

definition ws_codec_into :: "codec \<Rightarrow> gotype \<Rightarrow> dyn \<Rightarrow> bytes \<Rightarrow> bool" where
  "ws_codec_into c t msg b \<longleftrightarrow> msg \<noteq> DNil \<and> c_Marshal c msg = Inr (Some b) \<and>
     (\<forall>v. c_Unmarshal c b (ws_any_ptr (DPtr t (Some v))) = Inr (ws_any_ptr (DPtr t (Some msg))))"

definition ws_json_ok :: "ws_env \<Rightarrow> 32 word \<Rightarrow> string \<Rightarrow> bool" where
  "ws_json_ok env mt x \<longleftrightarrow> (\<exists>j. we_json_Marshal env mt x = Inr j \<and> we_json_Unmarshal env j = Inr (mt, x))"

lemma ws_packet_roundtrip:
  assumes "pt \<noteq> PayloadTypeOther" "pt = PayloadTypeText \<Longrightarrow> ws_json_ok env mt b"
  shows "\<exists>buf. ws_packet env pt mt (Some b) = Inr buf \<and> ws_unpacket env pt buf = Inr (mt, b)"
proof (cases pt)
  case PayloadTypeBinary
  then show ?thesis
    using packet_bytes_unmarshal [of LittleEndian mt] by (simp add: ws_packet_def ws_unpacket_def slice_bytes_def NetPacket_Marshal_def)
next
  case PayloadTypeText
  then show ?thesis using assms(2) by (auto simp: ws_packet_def ws_unpacket_def slice_bytes_def ws_json_ok_def)
qed (use assms in simp)

lemma ws_marshal_ok:
  assumes "ws_codec_into c t msg b" "pt \<noteq> PayloadTypeOther"
  shows "ws_defaultMarshalNetPacket env (Some c) pt mt msg = ws_packet env pt mt (Some b)"
  using assms by (simp add: ws_defaultMarshalNetPacket_def ws_codec_into_def Marshal_def)

lemma ws_server_dispatch:
  assumes "ws_codec_into c t msg b" "wv_codec s = Some c" "ws_unpacket env (wv_payloadType s) buf = Inr (mt, b)"
    and "wv_socketRawDataHandler s \<in> {None, Some DefaultHook}" "wv_netPacketUnmarshaler s \<in> {None, Some DefaultHook}"
    and "map_of (wv_messageHandlers s) mt = Some \<lparr>md_Handler = Some (typed_handler t f), md_Creator = Some (\<lambda>_. DPtr t (Some zero))\<rparr>"
  shows "ws_handleSocketRawData env sid buf s = (let (e, app) = f sid (DPtr t (Some msg)) (wv_app s) in (e, s\<lparr>wv_app := app\<rparr>))"
proof -
  have "ws_unmarshalNetPacket env s buf =
      Inr (\<lparr>md_Handler = Some (typed_handler t f), md_Creator = Some (\<lambda>_. DPtr t (Some zero))\<rparr>, DPtr t (Some msg))"
    using assms by (auto simp: ws_unmarshalNetPacket_def ws_defaultUnmarshalNetPacket_def ws_GetMessageHandler_def MessageHandlerData_Create_def
        Unmarshal_def ws_codec_into_def ws_any_ptr_def)
  then show ?thesis using assms(4) by (auto simp: ws_handleSocketRawData_def ws_defaultHandleSocketRawData_def typed_handler_def)
qed

lemma ws_client_dispatch:
  assumes "ws_codec_into c t msg b" "wc_codec cl = Some c" "wc_payloadType cl \<noteq> PayloadTypeOther"
    and "ws_unpacket env (wc_payloadType cl) buf = Inr (mt, b)"
    and "map_of (wc_messageHandlers cl) mt = Some \<lparr>wd_Handler = Some (ws_client_typed t f), wd_Creator = Some (\<lambda>_. DPtr t (Some zero))\<rparr>"
  shows "ws_messageHandler env buf cl = (let (e, app) = f (DPtr t (Some msg)) (wc_app cl) in (e, cl\<lparr>wc_app := app\<rparr>))"
proof -
  have "ws_unmarshalMessage env cl buf =
      Inr (Some \<lparr>wd_Handler = Some (ws_client_typed t f), wd_Creator = Some (\<lambda>_. DPtr t (Some zero))\<rparr>, DPtr t (Some msg))"
    using assms by (simp add: ws_unmarshalMessage_def Unmarshal_def ws_codec_into_def ws_any_ptr_def)
  then show ?thesis by (simp add: ws_messageHandler_def ws_client_typed_def)
qed

subsection \<open>Stop\<close>

lemma ws_Close_fields: "w_stage (ws_Close sess) = Finished" "w_stage sess \<noteq> Finished \<Longrightarrow> w_removed (ws_Close sess) = Suc (w_removed sess)"
  by (cases "w_stage sess"; simp add: ws_Close_def ws_Close_step_def ws_closeConnect_def)+

definition ws_table :: "'st ws_server \<Rightarrow> (string, string) gomap" where
  "ws_table s = sm_sessions (wv_sessionManager s)"

text \<open>A session of the table is stored under its own ID and is not closed.\<close>

definition ws_wf :: "'st ws_server \<Rightarrow> bool" where
  "ws_wf s \<longleftrightarrow> gomap_wf (ws_table s) \<and>
     (\<forall>k i. map_of (ws_table s) k = Some i \<longrightarrow> k = i \<and> (\<exists>sess. map_of (wv_heap s) i = Some sess \<and> w_stage sess \<noteq> Finished))"

lemma ws_OnSession_fields [simp]:
  "wv_heap (ws_OnSession b i s) = wv_heap s" "wv_sessionManager (ws_OnSession b i s) = wv_sessionManager s"
  "wv_running (ws_OnSession b i s) = wv_running s" "wv_http (ws_OnSession b i s) = wv_http s"
  "wv_lis (ws_OnSession b i s) = wv_lis s" "wv_endpoint (ws_OnSession b i s) = wv_endpoint s"
  by (simp_all add: ws_OnSession_def split: option.split)

lemma ws_remove_fields:
  "wv_heap (ws_removeSession i s) = wv_heap s" "ws_table (ws_removeSession i s) = gomap_delete i (ws_table s)"
  "wv_running (ws_removeSession i s) = wv_running s" "wv_http (ws_removeSession i s) = wv_http s"
  "wv_lis (ws_removeSession i s) = wv_lis s" "wv_endpoint (ws_removeSession i s) = wv_endpoint s"
  by (simp_all add: ws_removeSession_def ws_table_def sm_sessions_remove Let_def)

lemma ws_close_effect:
  assumes "map_of (wv_heap s) i = Some sess" "w_stage sess \<noteq> Finished"
  shows "map_of (wv_heap (ws_closeSession i s)) = (map_of (wv_heap s))(i \<mapsto> ws_Close sess)"
    "ws_table (ws_closeSession i s) = gomap_delete i (ws_table s)"
    "wv_running (ws_closeSession i s) = wv_running s" "wv_http (ws_closeSession i s) = wv_http s"
    "wv_lis (ws_closeSession i s) = wv_lis s" "wv_endpoint (ws_closeSession i s) = wv_endpoint s"
  using assms ws_Close_fields(2) [OF assms(2)]
  by (simp_all add: ws_closeSession_def ws_remove_fields Let_def) (simp add: ws_table_def)

lemma ws_close_all:
  assumes "distinct is" "\<forall>i\<in>set is. \<exists>sess. map_of (wv_heap s) i = Some sess \<and> w_stage sess \<noteq> Finished"
  defines "s' \<equiv> fold ws_closeSession is s"
  shows "map_of (wv_heap s') = (\<lambda>i. if i \<in> set is then map_option ws_Close (map_of (wv_heap s) i) else map_of (wv_heap s) i)
     \<and> map_of (ws_table s') = map_of (ws_table s) |` (- set is) \<and> wv_running s' = wv_running s \<and> wv_http s' = wv_http s
     \<and> wv_lis s' = wv_lis s \<and> wv_endpoint s' = wv_endpoint s"
  using assms(1,2) unfolding s'_def
proof (induction "is" arbitrary: s)
  case Nil
  then show ?case by simp
next
  case (Cons i js)
  obtain sess where sess: "map_of (wv_heap s) i = Some sess" "w_stage sess \<noteq> Finished" using Cons.prems(2) by auto
  note e = ws_close_effect [OF sess]
  have "\<forall>j\<in>set js. \<exists>sess. map_of (wv_heap (ws_closeSession i s)) j = Some sess \<and> w_stage sess \<noteq> Finished"
    using Cons.prems by (auto simp: e(1))
  note IH = Cons.IH [OF _ this]
  have "map_of (ws_table (ws_closeSession i s)) = (map_of (ws_table s))(i := None)" by (simp add: e(2) gomap_simps fun_eq_iff)
  then show ?case using IH Cons.prems(1) sess by (auto simp: e fun_eq_iff restrict_map_def)
qed

section \<open>Properties\<close>

text \<open>
  A message reaches its typed handler unchanged, in both directions and with both payload types: what the client writes makes the server run
  the handler of its type on a pointer to exactly the value that was sent, and what the server queues for a session does the same at the
  client. The hypotheses are the round trip of the codec, of \<open>encoding/json\<close> for the text packet at hand, and that neither
  side has replaced the default hooks.
\<close>

theorem ws_message_roundtrip:
  assumes "ws_codec_into c t msg b" and "pt = PayloadTypeText \<Longrightarrow> ws_json_ok env mt b" and "pt \<noteq> PayloadTypeOther"
    and "wv_codec s = Some c" "wv_payloadType s = pt" "wv_netPacketMarshaler s \<in> {None, Some DefaultHook}"
    and "wv_netPacketUnmarshaler s \<in> {None, Some DefaultHook}" "wv_socketRawDataHandler s \<in> {None, Some DefaultHook}"
    and "wc_codec cl = Some c" "wc_payloadType cl = pt" "wc_conn cl"
    and "map_of (wv_messageHandlers s) mt = None" "map_of (wc_messageHandlers cl) mt = None"
  shows "\<exists>buf. ws_Client_SendMessage env None mt msg cl = (None, cl\<lparr>wc_sent := wc_sent cl @ [(ws_kind_of pt, buf)]\<rparr>)
     \<and> ws_handleSocketRawData env sid buf (ws_RegisterServerMessageHandler t zero mt f s)
         = (let (e, app) = f sid (DPtr t (Some msg)) (wv_app s) in (e, (ws_RegisterServerMessageHandler t zero mt f s)\<lparr>wv_app := app\<rparr>))
     \<and> ws_marshalMessage env s mt msg = Inr buf
     \<and> ws_messageHandler env buf (ws_RegisterClientMessageHandler t zero mt g cl)
         = (let (e, app) = g (DPtr t (Some msg)) (wc_app cl) in (e, (ws_RegisterClientMessageHandler t zero mt g cl)\<lparr>wc_app := app\<rparr>))"
proof -
  obtain buf where buf: "ws_packet env pt mt (Some b) = Inr buf" "ws_unpacket env pt buf = Inr (mt, b)"
    using ws_packet_roundtrip [OF assms(3,2)] by blast
  note m = ws_marshal_ok [OF assms(1,3), of env mt, unfolded buf(1)]
  let ?s = "ws_RegisterServerMessageHandler t zero mt f s" and ?c = "ws_RegisterClientMessageHandler t zero mt g cl"
  have s: "wv_codec ?s = Some c" "wv_payloadType ?s = pt" "wv_netPacketUnmarshaler ?s = wv_netPacketUnmarshaler s"
    "wv_socketRawDataHandler ?s = wv_socketRawDataHandler s" "wv_app ?s = wv_app s"
    "map_of (wv_messageHandlers ?s) mt = Some \<lparr>md_Handler = Some (typed_handler t f), md_Creator = Some (\<lambda>_. DPtr t (Some zero))\<rparr>"
    using assms(4,5,12) by (simp_all add: ws_RegisterServerMessageHandler_def ws_RegisterMessageHandler_def)
  have c: "wc_codec ?c = Some c" "wc_payloadType ?c = pt" "wc_app ?c = wc_app cl"
    "map_of (wc_messageHandlers ?c) mt = Some \<lparr>wd_Handler = Some (ws_client_typed t g), wd_Creator = Some (\<lambda>_. DPtr t (Some zero))\<rparr>"
    using assms(9,10,13) by (simp_all add: ws_RegisterClientMessageHandler_def ws_Client_RegisterMessageHandler_def)
  have "ws_Client_SendMessage env None mt msg cl = (None, cl\<lparr>wc_sent := wc_sent cl @ [(ws_kind_of pt, buf)]\<rparr>)"
    using m assms(3,9,10,11) by (cases pt) (simp_all add: ws_Client_SendMessage_def ws_client_write_def ws_kind_of_def)
  moreover have "ws_marshalMessage env s mt msg = Inr buf" using m assms(4,5,6) by (auto simp: ws_marshalMessage_def)
  moreover have "ws_handleSocketRawData env sid buf ?s = (let (e, app) = f sid (DPtr t (Some msg)) (wv_app s) in (e, ?s\<lparr>wv_app := app\<rparr>))"
    using ws_server_dispatch [OF assms(1) s(1) _ _ _ s(6)] buf(2) assms(7,8) by (simp add: s(2-5))
  moreover have "ws_messageHandler env buf ?c = (let (e, app) = g (DPtr t (Some msg)) (wc_app cl) in (e, ?c\<lparr>wc_app := app\<rparr>))"
    using ws_client_dispatch [OF assms(1) c(1) _ _ c(4)] buf(2) assms(3) by (simp add: c(2,3))
  ultimately show ?thesis by blast
qed

definition ws_test_codec :: codec where
  "ws_test_codec = \<lparr>c_Marshal = (\<lambda>v. case v of DString s \<Rightarrow> Inr (Some s) | _ \<Rightarrow> Inl (ErrNew ''unsupported'')),
     c_Unmarshal = (\<lambda>b v. Inr (ws_any_ptr (DPtr TString (Some (DString b)))))\<rparr>"

definition ws_test_env :: ws_env where
  "ws_test_env = \<lparr>we_Listen = (\<lambda>_ _. Inr (TcpListener 4711)), we_ParseIP = (\<lambda>_. Some (IPv4 10 0 0 7)),
     we_Interfaces = Inr [\<lparr>if_Up = True, if_Index = 1, if_Addrs = Inr [RIPNet (IPv4 10 0 0 7) ''10.0.0.7'']\<rparr>],
     we_GetCodec = (\<lambda>_. Some ws_test_codec), we_gob = ws_test_codec, we_json_Marshal = (\<lambda>t x. Inr x), we_json_Unmarshal = (\<lambda>b. Inr (7, b)),
     we_Shutdown = None\<rparr>"

lemma ws_test_env_Listen: "we_Listen ws_test_env n a = Inr (TcpListener 4711)"
  by (simp add: ws_test_env_def)

lemma ws_adjust_test: "\<exists>a. AdjustAddress (we_ParseIP ws_test_env) (we_Interfaces ws_test_env) addr (Some (TcpListener p)) = Inr a"
  by (auto simp: AdjustAddress_def Let_def ws_test_env_def split: sum.splits)

definition ws_test_server :: "dyn list ws_server" where
  "ws_test_server = ws_NewServer ws_test_env [ws_WithPayloadType PayloadTypeText] []"

lemma ws_test_fields:
  "wv_codec ws_test_server = Some ws_test_codec" "wv_payloadType ws_test_server = PayloadTypeText"
  "wv_netPacketMarshaler ws_test_server = Some DefaultHook" "wv_netPacketUnmarshaler ws_test_server = Some DefaultHook"
  "wv_socketRawDataHandler ws_test_server = Some DefaultHook" "wv_messageHandlers ws_test_server = []" "wv_app ws_test_server = []"
  "wv_http ws_test_server = HttpNew" "wv_running ws_test_server = False" "ws_table ws_test_server = []" "wv_heap ws_test_server = []"
  "wv_lis ws_test_server = None" "wv_timeout ws_test_server = 0" "wv_endpoint ws_test_server = None"
  by (simp_all add: ws_test_server_def ws_NewServer_def ws_init_def ws_WithPayloadType_def ws_test_env_def RegisterObserver_def
      NewSessionManager_def ws_table_def Let_def)

definition ws_test_client :: "dyn list ws_client" where
  "ws_test_client = snd (ws_Connect None (ws_NewClient ws_test_env Some [ws_WithClientPayloadType PayloadTypeText] []))"

lemma ws_test_client_fields:
  "wc_codec ws_test_client = Some ws_test_codec" "wc_payloadType ws_test_client = PayloadTypeText" "wc_conn ws_test_client"
  "wc_messageHandlers ws_test_client = []" "wc_app ws_test_client = []" "wc_sent ws_test_client = []"
  by (simp_all add: ws_test_client_def ws_Connect_def ws_NewClient_def ws_WithClientPayloadType_def ws_test_env_def Let_def)

theorem ws_message_roundtrip_witness:
  "\<exists>buf. ws_Client_SendMessage ws_test_env None 7 (DString ''hi'') ws_test_client = (None, ws_test_client\<lparr>wc_sent := [(TextMessage, buf)]\<rparr>)
     \<and> wv_app (snd (ws_handleSocketRawData ws_test_env ''s'' buf (ws_RegisterServerMessageHandler TString (DString '''') 7
         (\<lambda>i v app. (None, app @ [v])) ws_test_server))) = [DPtr TString (Some (DString ''hi''))]"
proof -
  have "ws_codec_into ws_test_codec TString (DString ''hi'') ''hi''" by (simp add: ws_codec_into_def ws_test_codec_def)
  moreover have "ws_json_ok ws_test_env 7 ''hi''" by (simp add: ws_json_ok_def ws_test_env_def)
  ultimately have "\<exists>buf. ws_Client_SendMessage ws_test_env None 7 (DString ''hi'') ws_test_client
        = (None, ws_test_client\<lparr>wc_sent := wc_sent ws_test_client @ [(ws_kind_of PayloadTypeText, buf)]\<rparr>)
     \<and> ws_handleSocketRawData ws_test_env ''s'' buf (ws_RegisterServerMessageHandler TString (DString '''') 7 (\<lambda>i v app. (None, app @ [v])) ws_test_server)
         = (let (e, app) = (None, wv_app ws_test_server @ [DPtr TString (Some (DString ''hi''))]) in
             (e, (ws_RegisterServerMessageHandler TString (DString '''') 7 (\<lambda>i v app. (None, app @ [v])) ws_test_server)\<lparr>wv_app := app\<rparr>))
     \<and> ws_marshalMessage ws_test_env ws_test_server 7 (DString ''hi'') = Inr buf
     \<and> ws_messageHandler ws_test_env buf (ws_RegisterClientMessageHandler TString (DString '''') 7 (\<lambda>v app. (None, app)) ws_test_client)
         = (let (e, app) = (None, wc_app ws_test_client) in
             (e, (ws_RegisterClientMessageHandler TString (DString '''') 7 (\<lambda>v app. (None, app)) ws_test_client)\<lparr>wc_app := app\<rparr>))"
    by (rule ws_message_roundtrip [where pt = PayloadTypeText]) (simp_all add: ws_test_fields ws_test_client_fields)
  then show ?thesis by (auto simp: ws_test_fields ws_test_client_fields ws_kind_of_def)
qed

text \<open>
  \<open>Stop\<close> of a running websocket server closes every session of its table with its connection, empties the table, and leaves the sessions that
  were not in it alone; a second \<open>Stop\<close> does nothing.
\<close>

theorem ws_Stop_closes_all_sessions:
  assumes "ws_wf s" and "wv_running s" and "ws_Stop env s = (err, s')"
  shows "\<not> wv_running s' \<and> map_of (ws_table s') = Map.empty \<and> ws_Stop env s' = (None, s')
     \<and> (\<forall>i. map_of (wv_heap s') i = (if i \<in> dom (map_of (ws_table s)) then map_option ws_Close (map_of (wv_heap s) i) else map_of (wv_heap s) i))
     \<and> (\<forall>i\<in>dom (map_of (ws_table s)). \<exists>sess. map_of (wv_heap s') i = Some sess \<and> w_stage sess = Finished)"
proof -
  let ?is = "map snd (ws_table s)" and ?t = "ws_Stop_shutdown s"
  have keys: "?is = map fst (ws_table s)"
  proof (rule map_cong [OF refl])
    fix x assume "x \<in> set (ws_table s)"
    then have "map_of (ws_table s) (fst x) = Some (snd x)" using assms(1) by (simp add: ws_wf_def)
    then show "snd x = fst x" using assms(1) unfolding ws_wf_def by metis
  qed
  have dist: "distinct ?is" using assms(1) unfolding keys by (simp add: ws_wf_def)
  have dom: "set ?is = dom (map_of (ws_table s))" unfolding keys by (simp add: dom_map_of_conv_image_fst)
  have "\<exists>sess. map_of (wv_heap ?t) i = Some sess \<and> w_stage sess \<noteq> Finished" if "i \<in> set ?is" for i
    using that assms(1) unfolding dom by (auto simp: ws_wf_def ws_Stop_shutdown_def)
  note f = ws_close_all [OF dist ballI [OF this], unfolded dom]
  have tab: "ws_table ?t = ws_table s" "wv_heap ?t = wv_heap s" "\<not> wv_running ?t" by (simp_all add: ws_table_def ws_Stop_shutdown_def)
  have s': "s' = (fold ws_closeSession ?is ?t)\<lparr>wv_err := None\<rparr>"
    using assms(2,3) by (simp add: ws_Stop_def ws_Stop_sessions_def rangeSessions_def ws_table_def ws_Stop_shutdown_def)
  have g: "wv_heap s' = wv_heap (fold ws_closeSession ?is ?t)" "ws_table s' = ws_table (fold ws_closeSession ?is ?t)"
    "wv_running s' = wv_running (fold ws_closeSession ?is ?t)" by (simp_all add: s' ws_table_def)
  have run: "\<not> wv_running s'" using f g(3) tab by simp
  moreover have "map_of (ws_table s') = Map.empty" using f by (simp add: g tab restrict_map_def fun_eq_iff domIff)
  moreover have h: "map_of (wv_heap s') i = (if i \<in> dom (map_of (ws_table s)) then map_option ws_Close (map_of (wv_heap s) i) else map_of (wv_heap s) i)" for i
    using f by (simp add: g tab)
  moreover have "\<exists>sess. map_of (wv_heap s') i = Some sess \<and> w_stage sess = Finished" if "i \<in> dom (map_of (ws_table s))" for i
  proof -
    have "\<exists>sess. map_of (wv_heap s) i = Some sess" using that assms(1) unfolding ws_wf_def by blast
    then show ?thesis using that h [of i] ws_Close_fields(1) by auto
  qed
  ultimately show ?thesis by (simp add: ws_Stop_def)
qed

text \<open>A running server with one session.\<close>

definition ws_test_running :: "dyn list ws_server" where
  "ws_test_running = snd (wsHandler_turn (HAdded ''a'') (snd (wsHandler_turn (HUpgraded ''a'' []) (ws_test_server\<lparr>wv_running := True, wv_http := HttpServing\<rparr>))))"

lemma ws_turn_table:
  "ws_table (snd (wsHandler_turn (HUpgraded i vars) s)) = gomap_put i i (ws_table s)"
  "wv_heap (snd (wsHandler_turn (HUpgraded i vars) s)) = gomap_put i (ws_NewSession i vars (wv_timeout s)) (wv_heap s)"
  "wv_running (snd (wsHandler_turn (HUpgraded i vars) s)) = wv_running s" "wv_http (snd (wsHandler_turn (HUpgraded i vars) s)) = wv_http s"
  by (simp_all add: ws_addSession_def ws_table_def sm_sessions_add Let_def)

lemma ws_turn_listen:
  "ws_table (snd (wsHandler_turn (HAdded i) s)) = ws_table s" "wv_running (snd (wsHandler_turn (HAdded i) s)) = wv_running s"
  "wv_http (snd (wsHandler_turn (HAdded i) s)) = wv_http s"
  "map_of (wv_heap s) i = Some sess \<Longrightarrow> map_of (wv_heap (snd (wsHandler_turn (HAdded i) s))) i = Some (ws_Listen sess)"
  by (simp_all add: ws_table_def split: option.split)

lemma ws_test_running_facts: "ws_wf ws_test_running" "wv_running ws_test_running" "map_of (ws_table ws_test_running) ''a'' = Some ''a''"
proof -
  let ?s = "ws_test_server\<lparr>wv_running := True, wv_http := HttpServing\<rparr>"
  have "ws_table ?s = []" "wv_heap ?s = []" "wv_timeout ?s = 0" using ws_test_fields(10,11,13) by (simp_all add: ws_table_def)
  note t = ws_turn_table [of "''a''" "[]" ?s, unfolded this]
  have tab: "ws_table ws_test_running = [(''a'', ''a'')]" unfolding ws_test_running_def ws_turn_listen t by (simp add: gomap_put_def)
  have hp: "map_of (wv_heap ws_test_running) ''a'' = Some (ws_Listen (ws_NewSession ''a'' [] 0))"
    unfolding ws_test_running_def by (rule ws_turn_listen(4)) (simp only: t gomap_put_def update.simps map_of.simps fun_upd_same fst_conv snd_conv)
  show "wv_running ws_test_running" unfolding ws_test_running_def ws_turn_listen t by simp
  show "map_of (ws_table ws_test_running) ''a'' = Some ''a''" by (simp add: tab)
  show "ws_wf ws_test_running" using hp by (auto simp: ws_wf_def tab ws_Listen_def ws_NewSession_def)
qed

theorem ws_Stop_closes_all_sessions_witness:
  "\<exists>sess. map_of (wv_heap (snd (ws_Stop ws_test_env ws_test_running))) ''a'' = Some sess \<and> w_stage sess = Finished"
proof -
  obtain e s' where st: "ws_Stop ws_test_env ws_test_running = (e, s')" by (rule prod.exhaust)
  have "''a'' \<in> dom (map_of (ws_table ws_test_running))" using ws_test_running_facts(3) by blast
  then show ?thesis using ws_Stop_closes_all_sessions [OF ws_test_running_facts(1,2) st] unfolding st snd_conv by blast
qed

text \<open>
  But a connection whose request was upgraded and not yet added when \<open>Stop\<close> took its snapshot survives: \<open>Shutdown\<close> does not wait for
  upgraded connections, so the handler adds a session to the table of the stopped server and starts its pumps; no later \<open>Stop\<close> closes
  it, because the server is not running.
\<close>

theorem ws_upgrade_survives_stop:
  assumes "wv_running s" and "ws_Stop env s = (err, s1)" and "wsHandler_turn (HUpgraded i vars) s1 = (pc, s2)" and "wsHandler_turn pc s2 = (pc', s3)"
  shows "\<not> wv_running s3 \<and> map_of (ws_table s3) i = Some i \<and> ws_Stop env s3 = (None, s3)
     \<and> (\<exists>sess. map_of (wv_heap s3) i = Some sess \<and> w_stage sess = Open \<and> w_wpump sess = Running)"
proof -
  have close: "wv_running (ws_closeSession j t) = wv_running t" for j and t :: "'a ws_server"
    by (simp add: ws_closeSession_def ws_remove_fields Let_def split: option.split)
  have run: "wv_running (fold ws_closeSession js t) = wv_running t" for js and t :: "'a ws_server"
    by (induction js arbitrary: t) (simp_all add: close)
  have s1: "\<not> wv_running s1"
    using assms(1,2) by (auto simp: ws_Stop_def ws_Stop_sessions_def ws_Stop_shutdown_def rangeSessions_def run)
  have pc: "pc = HAdded i" and s2: "s2 = snd (wsHandler_turn (HUpgraded i vars) s1)" using assms(3) by auto
  have s3: "s3 = snd (wsHandler_turn (HAdded i) s2)" using assms(4) pc by simp
  have hp: "map_of (wv_heap s2) i = Some (ws_NewSession i vars (wv_timeout s1))" unfolding s2 ws_turn_table by simp
  have "\<not> wv_running s3" using s1 unfolding s3 ws_turn_listen s2 ws_turn_table .
  moreover have "map_of (ws_table s3) i = Some i" unfolding s3 ws_turn_listen s2 ws_turn_table by simp
  moreover have "map_of (wv_heap s3) i = Some (ws_Listen (ws_NewSession i vars (wv_timeout s1)))" unfolding s3 by (rule ws_turn_listen(4) [OF hp])
  ultimately show ?thesis by (simp add: ws_Stop_def ws_Listen_def ws_NewSession_def)
qed

theorem ws_upgrade_survives_stop_witness:
  "\<exists>s3 sess. \<not> wv_running (s3 :: dyn list ws_server) \<and> map_of (wv_heap s3) ''b'' = Some sess \<and> w_stage sess = Open"
proof -
  obtain e s1 where a: "ws_Stop ws_test_env ws_test_running = (e, s1)" by (rule prod.exhaust)
  obtain pc s2 where b: "wsHandler_turn (HUpgraded ''b'' []) s1 = (pc, s2)" by (rule prod.exhaust)
  obtain pc' s3 where c: "wsHandler_turn pc s2 = (pc', s3)" by (rule prod.exhaust)
  show ?thesis using ws_upgrade_survives_stop [OF ws_test_running_facts(2) a b c] by blast
qed

text \<open>
  And a server that was stopped cannot be started again: \<open>Start\<close> returns nil at once with the server marked as running, because the HTTP server
  was shut down for good, and every further \<open>Start\<close> returns nil too.
\<close>

theorem ws_restart_serves_nothing:
  assumes "wv_running s" and "wv_lis s \<noteq> None" "wv_endpoint s \<noteq> None" and "ws_Stop env s = (err, s1)" and "ws_Start env s1 = (r, s2)"
  shows "r = StartReturns None \<and> wv_running s2 \<and> wv_http s2 = HttpShut \<and> ws_Start env s2 = (StartReturns None, s2)"
proof -
  have close: "wv_running (ws_closeSession j t) = wv_running t \<and> wv_http (ws_closeSession j t) = wv_http t
      \<and> wv_lis (ws_closeSession j t) = wv_lis t \<and> wv_endpoint (ws_closeSession j t) = wv_endpoint t" for j and t :: "'a ws_server"
    by (simp add: ws_closeSession_def ws_remove_fields Let_def split: option.split)
  have fold: "wv_running (fold ws_closeSession js t) = wv_running t \<and> wv_http (fold ws_closeSession js t) = wv_http t
      \<and> wv_lis (fold ws_closeSession js t) = wv_lis t \<and> wv_endpoint (fold ws_closeSession js t) = wv_endpoint t" for js and t :: "'a ws_server"
    by (induction js arbitrary: t) (simp_all add: close)
  have s1: "\<not> wv_running s1" "wv_http s1 = HttpShut" "wv_lis s1 \<noteq> None" "wv_endpoint s1 \<noteq> None"
    using assms(1-4) by (auto simp: ws_Stop_def ws_Stop_sessions_def ws_Stop_shutdown_def rangeSessions_def fold)
  then have "ws_listenAndEndpoint env s1 = (None, s1)" by (auto simp: ws_listenAndEndpoint_def)
  then have "r = StartReturns None" "s2 = s1\<lparr>wv_err := None, wv_running := True\<rparr>"
    using s1 assms(5) by (auto simp: ws_Start_def ws_Start_begin_def ws_Serve_def)
  then show ?thesis using s1 by (simp add: ws_Start_def ws_Start_begin_def)
qed

theorem ws_restart_serves_nothing_witness:
  "\<exists>s1 s2. ws_Start ws_test_env s1 = (StartReturns None, s2 :: dyn list ws_server) \<and> wv_running s2 \<and> wv_http s2 = HttpShut"
proof -
  obtain r s where st: "ws_Start ws_test_env ws_test_server = (r, s)" by (rule prod.exhaust)
  obtain a where "AdjustAddress (we_ParseIP ws_test_env) (we_Interfaces ws_test_env) (wv_address ws_test_server) (Some (TcpListener 4711)) = Inr a"
    using ws_adjust_test by blast
  then have "wv_running s \<and> wv_lis s \<noteq> None \<and> wv_endpoint s \<noteq> None"
    using st
    by (auto simp: ws_Start_def ws_Start_begin_def ws_Serve_def ws_listenAndEndpoint_def ws_test_fields ws_test_env_Listen split: sum.splits prod.splits if_splits)
  moreover obtain e s1 where "ws_Stop ws_test_env s = (e, s1)" by (rule prod.exhaust)
  moreover obtain r2 s2 where "ws_Start ws_test_env s1 = (r2, s2)" by (rule prod.exhaust)
  ultimately show ?thesis using ws_restart_serves_nothing [of s ws_test_env] by blast
qed

end
