(* ===== verification/Webrtc_Session.thy ===== *)
theory Webrtc_Session
  imports Ws_Session
begin

text \<open>
  A WebRTC session and its entry in the table of sessions: \<open>transport/webrtc/session.go\<close>, \<open>addSession\<close> and \<open>removeSession\<close> of \<open>session_manager.go\<close>, and the part of the
  server's \<open>signalHandler\<close> that adds a session when its data channel opens. A step is a send, a turn of the write pump, a statement of
  \<open>Close\<close>, a new data channel, or a statement of the callback for its opening, so that a \<open>Close\<close> can come between the test for a closed
  session and the insertion into the table. Messages reach the handler from the library's callback and not from a pump.
\<close>

section \<open>Definitions\<close>

datatype open_pc = NotOpened | AtCheck | AtStore | AtListen | OpenDone

text \<open>
  \<open>r_dc\<close> says that the session holds a data channel; \<open>r_wire\<close>, \<open>r_accepted\<close> and the counters record what happened; \<open>r_added\<close> and \<open>r_gone\<close> count the
  calls of the observer.
\<close>

record rsession =
  r_id :: string
  r_queries :: "(string, string list) gomap"
  r_dc :: bool
  r_send :: "bytes list"
  r_stage :: close_stage
  r_listenOnce :: bool
  r_openOnce :: open_pc
  r_wg :: nat
  r_wpump :: pump
  r_wire :: "(ws_kind \<times> bytes) list"
  r_accepted :: "bytes list"
  r_pc_closes :: nat
  r_table :: bool
  r_added :: nat
  r_gone :: nat

definition rtc_NewSession :: "string \<Rightarrow> (string, string list) gomap \<Rightarrow> rsession" where
  "rtc_NewSession i vars =
     \<lparr>r_id = i, r_queries = vars, r_dc = False, r_send = [], r_stage = Open, r_listenOnce = False, r_openOnce = NotOpened, r_wg = 0,
      r_wpump = NotStarted, r_wire = [], r_accepted = [], r_pc_closes = 0, r_table = False, r_added = 0, r_gone = 0\<rparr>"

definition rtc_IsClosed :: "rsession \<Rightarrow> bool" where "rtc_IsClosed s = (r_stage s \<noteq> Open)"

text \<open>\<open>PeerConnection()\<close> is not nil.\<close>

definition rtc_PeerConnection :: "rsession \<Rightarrow> bool" where "rtc_PeerConnection s = (r_stage s \<in> {Open, DoneClosed})"

definition rtc_send_possible :: "send_outcome \<Rightarrow> rsession \<Rightarrow> bool" where
  "rtc_send_possible oc s =
     (case oc of SendDone \<Rightarrow> rtc_IsClosed s | SendQueued \<Rightarrow> length (r_send s) < channelBufSize | SendTimeout \<Rightarrow> True)"

definition rtc_SendMessage :: "send_outcome \<Rightarrow> bytes \<Rightarrow> rsession \<Rightarrow> rsession" where
  "rtc_SendMessage oc message s =
     (case oc of SendQueued \<Rightarrow> s\<lparr>r_send := r_send s @ [message], r_accepted := r_accepted s @ [message]\<rparr> | _ \<Rightarrow> s)"

text \<open>\<open>BindDataChannel\<close>: the session holds the channel that was bound last.\<close>

definition rtc_BindDataChannel :: "rsession \<Rightarrow> rsession" where
  "rtc_BindDataChannel s = s\<lparr>r_dc := True\<rparr>"

definition rtc_closeConnection :: "rsession \<Rightarrow> rsession" where
  "rtc_closeConnection s =
     s\<lparr>r_stage := ConnClosed, r_dc := False, r_pc_closes := (if rtc_PeerConnection s then Suc (r_pc_closes s) else r_pc_closes s)\<rparr>"

text \<open>The session's part of \<open>removeSession\<close>: \<open>LoadAndDelete\<close>, and the observer when there was an entry.\<close>

definition rtc_leave :: "rsession \<Rightarrow> rsession" where
  "rtc_leave s = (if r_table s then s\<lparr>r_table := False, r_gone := Suc (r_gone s)\<rparr> else s)"

definition rtc_Close_step :: "rsession \<Rightarrow> rsession" where
  "rtc_Close_step s =
     (case r_stage s of
        Open \<Rightarrow> s\<lparr>r_stage := DoneClosed\<rparr>
      | DoneClosed \<Rightarrow> rtc_closeConnection s
      | ConnClosed \<Rightarrow> (rtc_leave s)\<lparr>r_stage := Finished\<rparr>
      | Finished \<Rightarrow> s)"

definition rtc_Close :: "rsession \<Rightarrow> rsession" where
  "rtc_Close s = rtc_Close_step (rtc_Close_step (rtc_Close_step s))"

definition rtc_Listen :: "rsession \<Rightarrow> rsession" where
  "rtc_Listen s = (if r_listenOnce s then s else s\<lparr>r_listenOnce := True, r_wg := Suc (r_wg s), r_wpump := Running\<rparr>)"

definition rtc_Wait_returns :: "rsession \<Rightarrow> bool" where "rtc_Wait_returns s = (r_wg s = 0)"

text \<open>The session's part of \<open>addSession\<close>, cut between its test and \<open>LoadOrStore\<close>, and \<open>Listen\<close> after it.\<close>

definition rtc_enter :: "rsession \<Rightarrow> rsession" where
  "rtc_enter s = (if r_table s then s else s\<lparr>r_table := True, r_added := Suc (r_added s)\<rparr>)"

definition rtc_open_step :: "rsession \<Rightarrow> rsession" where
  "rtc_open_step s =
     (case r_openOnce s of
        NotOpened \<Rightarrow> s\<lparr>r_openOnce := AtCheck\<rparr>
      | AtCheck \<Rightarrow> s\<lparr>r_openOnce := (if rtc_IsClosed s then AtListen else AtStore)\<rparr>
      | AtStore \<Rightarrow> (rtc_enter s)\<lparr>r_openOnce := AtListen\<rparr>
      | AtListen \<Rightarrow> (rtc_Listen s)\<lparr>r_openOnce := OpenDone\<rparr>
      | OpenDone \<Rightarrow> s)"

text \<open>One turn of the write pump: \<open>None\<close> when no branch of the \<open>select\<close> is ready; \<open>ok\<close> is whether the library accepts the message.\<close>

definition rtc_kind :: "payload_type \<Rightarrow> ws_kind" where
  "rtc_kind pt = (case pt of PayloadTypeText \<Rightarrow> TextMessage | _ \<Rightarrow> BinaryMessage)"

definition rtc_writePump_turn :: "payload_type \<Rightarrow> bool \<Rightarrow> bool \<Rightarrow> rsession \<Rightarrow> rsession option" where
  "rtc_writePump_turn pt take_done ok s =
     (if rtc_IsClosed s \<and> (take_done \<or> r_send s = []) then Some (s\<lparr>r_wpump := Exiting\<rparr>)
      else (case r_send s of
              [] \<Rightarrow> None
            | msg # q \<Rightarrow>
                if r_dc s \<and> ok then Some (s\<lparr>r_send := q, r_wire := r_wire s @ [(rtc_kind pt, msg)]\<rparr>)
                else Some (s\<lparr>r_send := q, r_wpump := Exiting\<rparr>)))"

definition rtc_writePump_exit :: "rsession \<Rightarrow> rsession" where
  "rtc_writePump_exit s = s\<lparr>r_wpump := Exited, r_wg := r_wg s - 1\<rparr>"

inductive rtc_step :: "payload_type \<Rightarrow> rsession \<Rightarrow> rsession \<Rightarrow> bool" for pt where
  send: "rtc_send_possible oc s \<Longrightarrow> rtc_step pt s (rtc_SendMessage oc m s)"
| bind: "rtc_step pt s (rtc_BindDataChannel s)"
| opened: "r_openOnce s \<noteq> OpenDone \<Longrightarrow> rtc_step pt s (rtc_open_step s)"
| close: "r_stage s \<noteq> Finished \<Longrightarrow> rtc_step pt s (rtc_Close_step s)"
| wturn: "\<lbrakk>r_wpump s = Running; rtc_writePump_turn pt td ok s = Some s'\<rbrakk> \<Longrightarrow> rtc_step pt s s'"
| wexit: "\<lbrakk>r_wpump s = Exiting; r_stage s = Finished\<rbrakk> \<Longrightarrow> rtc_step pt s (rtc_writePump_exit s)"

inductive rtc_reachable :: "payload_type \<Rightarrow> rsession \<Rightarrow> bool" for pt where
  init: "rtc_reachable pt (rtc_NewSession i vars)"
| step: "\<lbrakk>rtc_reachable pt s; rtc_step pt s s'\<rbrakk> \<Longrightarrow> rtc_reachable pt s'"

section \<open>Lemmas\<close>

lemmas rtc_defs [sess_defs] =
  rtc_IsClosed_def rtc_PeerConnection_def rtc_send_possible_def rtc_SendMessage_def rtc_BindDataChannel_def rtc_closeConnection_def rtc_leave_def
  rtc_Close_step_def rtc_Listen_def rtc_enter_def rtc_open_step_def rtc_writePump_turn_def rtc_writePump_exit_def

definition rtc_wire_ok :: "payload_type \<Rightarrow> rsession \<Rightarrow> bool" where
  "rtc_wire_ok pt s \<longleftrightarrow>
     (\<exists>lost. r_accepted s = map snd (r_wire s) @ lost @ r_send s \<and> (r_wpump s \<in> {NotStarted, Running} \<longrightarrow> lost = []))
     \<and> fst ` set (r_wire s) \<subseteq> {rtc_kind pt}"

definition rtc_life_ok :: "rsession \<Rightarrow> bool" where
  "rtc_life_ok s \<longleftrightarrow> length (r_send s) \<le> channelBufSize \<and> r_wpump s \<noteq> Blocked
     \<and> r_pc_closes s = (if r_stage s \<in> {ConnClosed, Finished} then 1 else 0)
     \<and> r_wg s = (if r_wpump s \<in> {Running, Exiting} then 1 else 0) \<and> (r_wpump s = Exited \<longrightarrow> r_stage s = Finished)
     \<and> (r_listenOnce s \<longleftrightarrow> r_openOnce s = OpenDone) \<and> (r_wpump s = NotStarted \<longleftrightarrow> \<not> r_listenOnce s)"

definition rtc_table_ok :: "rsession \<Rightarrow> bool" where
  "rtc_table_ok s \<longleftrightarrow> r_added s = r_gone s + (if r_table s then 1 else 0) \<and> r_added s \<le> (if r_openOnce s \<in> {AtListen, OpenDone} then 1 else 0)
     \<and> (r_gone s > 0 \<longrightarrow> r_stage s = Finished) \<and> (r_stage s = Open \<and> r_openOnce s \<in> {AtListen, OpenDone} \<longrightarrow> r_table s)"

lemma rtc_wire_frame:
  assumes "rtc_wire_ok pt s" "r_wire s' = r_wire s" "r_accepted s' = r_accepted s" "r_send s' = r_send s"
    "r_wpump s' \<in> {NotStarted, Running} \<Longrightarrow> r_wpump s \<in> {NotStarted, Running}"
  shows "rtc_wire_ok pt s'"
  using assms unfolding rtc_wire_ok_def by (metis (no_types, lifting))

lemma rtc_parts [simp]:
  "r_wire (rtc_leave s) = r_wire s" "r_accepted (rtc_leave s) = r_accepted s" "r_send (rtc_leave s) = r_send s" "r_wpump (rtc_leave s) = r_wpump s"
  "r_stage (rtc_leave s) = r_stage s" "r_wg (rtc_leave s) = r_wg s" "r_listenOnce (rtc_leave s) = r_listenOnce s" "r_openOnce (rtc_leave s) = r_openOnce s"
  "r_pc_closes (rtc_leave s) = r_pc_closes s" "r_added (rtc_leave s) = r_added s" "\<not> r_table (rtc_leave s)"
  "r_wire (rtc_enter s) = r_wire s" "r_accepted (rtc_enter s) = r_accepted s" "r_send (rtc_enter s) = r_send s" "r_wpump (rtc_enter s) = r_wpump s"
  "r_stage (rtc_enter s) = r_stage s" "r_wg (rtc_enter s) = r_wg s" "r_listenOnce (rtc_enter s) = r_listenOnce s"
  "r_pc_closes (rtc_enter s) = r_pc_closes s" "r_gone (rtc_enter s) = r_gone s" "r_table (rtc_enter s)"
  by (simp_all add: rtc_leave_def rtc_enter_def)

lemma rtc_close_ok:
  "rtc_life_ok s \<Longrightarrow> rtc_life_ok (rtc_Close_step s)" "rtc_table_ok s \<Longrightarrow> rtc_table_ok (rtc_Close_step s)" "rtc_wire_ok pt s \<Longrightarrow> rtc_wire_ok pt (rtc_Close_step s)"
proof -
  show "rtc_wire_ok pt s \<Longrightarrow> rtc_wire_ok pt (rtc_Close_step s)"
    by (erule rtc_wire_frame) (auto simp: rtc_Close_step_def rtc_closeConnection_def split: close_stage.splits)
  show "rtc_life_ok s \<Longrightarrow> rtc_life_ok (rtc_Close_step s)"
    by (cases "r_stage s") (simp_all add: rtc_life_ok_def rtc_Close_step_def rtc_closeConnection_def rtc_PeerConnection_def)
  show "rtc_table_ok s \<Longrightarrow> rtc_table_ok (rtc_Close_step s)"
    by (cases "r_stage s") (auto simp: rtc_table_ok_def rtc_Close_step_def rtc_closeConnection_def rtc_leave_def split: if_splits)
qed

lemma rtc_open_ok:
  assumes "rtc_life_ok s"
  shows "rtc_life_ok (rtc_open_step s)" "rtc_table_ok s \<Longrightarrow> rtc_table_ok (rtc_open_step s)" "rtc_wire_ok pt s \<Longrightarrow> rtc_wire_ok pt (rtc_open_step s)"
proof -
  show "rtc_life_ok (rtc_open_step s)"
    using assms by (cases "r_openOnce s") (auto simp: rtc_life_ok_def rtc_open_step_def rtc_Listen_def)
  show "rtc_wire_ok pt s \<Longrightarrow> rtc_wire_ok pt (rtc_open_step s)"
    by (erule rtc_wire_frame) (use assms in \<open>auto simp: rtc_open_step_def rtc_Listen_def rtc_life_ok_def split: open_pc.splits\<close>)
  show "rtc_table_ok s \<Longrightarrow> rtc_table_ok (rtc_open_step s)"
    by (cases "r_openOnce s") (auto simp: rtc_table_ok_def rtc_open_step_def rtc_enter_def rtc_Listen_def rtc_IsClosed_def split: if_splits)
qed

text \<open>A turn of the write pump ends it, with or without a message that is lost, or writes the oldest message.\<close>

lemma rtc_writePump_cases:
  assumes "rtc_writePump_turn pt td ok s = Some s'"
  obtains (idle) "s' = s\<lparr>r_wpump := Exiting\<rparr>"
  | (lost) msg q where "r_send s = msg # q" "s' = s\<lparr>r_send := q, r_wpump := Exiting\<rparr>"
  | (wrote) msg q where "r_send s = msg # q" "s' = s\<lparr>r_send := q, r_wire := r_wire s @ [(rtc_kind pt, msg)]\<rparr>"
  using assms by (auto simp: rtc_writePump_turn_def split: if_splits list.splits)

lemma rtc_write_ok:
  assumes "r_wpump s = Running" "rtc_writePump_turn pt td ok s = Some s'"
  shows "rtc_life_ok s \<Longrightarrow> rtc_life_ok s'" "rtc_table_ok s \<Longrightarrow> rtc_table_ok s'" "rtc_wire_ok pt s \<Longrightarrow> rtc_wire_ok pt s'"
proof -
  show "rtc_life_ok s \<Longrightarrow> rtc_life_ok s'"
    using assms(2) by (cases rule: rtc_writePump_cases) (use assms(1) in \<open>auto simp: rtc_life_ok_def\<close>)
  show "rtc_table_ok s \<Longrightarrow> rtc_table_ok s'"
    using assms(2) by (cases rule: rtc_writePump_cases) (simp_all add: rtc_table_ok_def)
  assume "rtc_wire_ok pt s"
  then have w: "r_accepted s = map snd (r_wire s) @ r_send s" "fst ` set (r_wire s) \<subseteq> {rtc_kind pt}" using assms(1) by (auto simp: rtc_wire_ok_def)
  show "rtc_wire_ok pt s'"
    using assms(2) by (cases rule: rtc_writePump_cases) (use w assms(1) in \<open>auto simp: rtc_wire_ok_def\<close>)
qed

lemma rtc_step_ok:
  assumes "rtc_step pt s s'" "rtc_life_ok s" "rtc_table_ok s" "rtc_wire_ok pt s"
  shows "rtc_life_ok s' \<and> rtc_table_ok s' \<and> rtc_wire_ok pt s'"
  using assms
proof (induction rule: rtc_step.induct)
  case (send oc s m)
  have "rtc_wire_ok pt (rtc_SendMessage oc m s)"
    using send(4) by (cases oc) (auto simp: rtc_wire_ok_def rtc_SendMessage_def)
  moreover have "rtc_life_ok (rtc_SendMessage oc m s) \<and> rtc_table_ok (rtc_SendMessage oc m s)"
    using send(1-3) by (cases oc) (auto simp: rtc_life_ok_def rtc_table_ok_def rtc_send_possible_def rtc_SendMessage_def)
  ultimately show ?case by blast
next
  case (bind s)
  then show ?case by (simp add: rtc_life_ok_def rtc_table_ok_def rtc_wire_ok_def rtc_BindDataChannel_def)
next
  case (wexit s)
  moreover have "rtc_wire_ok pt (rtc_writePump_exit s)" by (rule rtc_wire_frame [OF wexit(5)]) (simp_all add: rtc_writePump_exit_def)
  ultimately show ?case by (auto simp: rtc_life_ok_def rtc_table_ok_def rtc_writePump_exit_def)
next
  case (wturn s td ok s')
  then show ?case using rtc_write_ok [OF wturn(1,2)] by simp
qed (simp_all add: rtc_close_ok rtc_open_ok)

lemma rtc_reachable_ok: "rtc_reachable pt s \<Longrightarrow> rtc_life_ok s \<and> rtc_table_ok s \<and> rtc_wire_ok pt s"
proof (induction rule: rtc_reachable.induct)
  case init
  then show ?case by (simp add: rtc_life_ok_def rtc_table_ok_def rtc_wire_ok_def rtc_NewSession_def)
qed (use rtc_step_ok in blast)

lemma rtc_reachable_steps: "\<lbrakk>(rtc_step pt)\<^sup>*\<^sup>* s s'; rtc_reachable pt s\<rbrakk> \<Longrightarrow> rtc_reachable pt s'"
  by (induction rule: rtranclp_induct) (auto intro: rtc_reachable.step)


text \<open>A closed session keeps its entry in the table for ever.\<close>

lemma rtc_stale_stays: "(rtc_step pt)\<^sup>*\<^sup>* s s' \<Longrightarrow> r_stage s = Finished \<Longrightarrow> r_table s \<Longrightarrow> r_stage s' = Finished \<and> r_table s'"
proof (induction rule: rtranclp_induct)
  case (step y z)
  from step(2) step.IH [OF step.prems] show ?case
  proof (induction rule: rtc_step.induct)
    case (send oc s m)
    then show ?case by (cases oc) (simp_all add: rtc_SendMessage_def)
  next
    case (opened s)
    then show ?case by (cases "r_openOnce s") (simp_all add: rtc_open_step_def rtc_enter_def rtc_Listen_def)
  next
    case (wturn s td ok s')
    from wturn(2) show ?case by (cases rule: rtc_writePump_cases) (use wturn(3) in simp_all)
  qed (auto simp: rtc_BindDataChannel_def rtc_writePump_exit_def)
qed simp

section \<open>Properties\<close>

text \<open>
  In every reachable state of a WebRTC session, under any interleaving of the write pump, senders, closers and the opening of its data channel, the
  peer was sent a prefix of the messages that the send channel accepted, whole and in order; while the pump runs nothing is lost. The peer
  connection is closed at most once, the server is told of the session at most once and of its end only after that, and an
  open session whose channel has opened is in the table.
\<close>

theorem rtc_session_sends_in_order:
  assumes "rtc_reachable pt s"
  shows "(\<exists>lost. r_accepted s = map snd (r_wire s) @ lost @ r_send s \<and> (r_wpump s \<in> {NotStarted, Running} \<longrightarrow> lost = []))
     \<and> fst ` set (r_wire s) \<subseteq> {rtc_kind pt} \<and> length (r_send s) \<le> channelBufSize \<and> r_pc_closes s \<le> 1
     \<and> r_gone s \<le> r_added s \<and> r_added s \<le> 1 \<and> (r_stage s = Open \<and> r_openOnce s = OpenDone \<longrightarrow> r_table s \<and> r_gone s = 0)
     \<and> (rtc_Wait_returns s \<longleftrightarrow> r_wpump s \<in> {NotStarted, Exited})"
proof -
  have ok: "rtc_life_ok s" "rtc_table_ok s" "rtc_wire_ok pt s" using rtc_reachable_ok [OF assms] by auto
  have "r_pc_closes s \<le> 1 \<and> length (r_send s) \<le> channelBufSize \<and> (rtc_Wait_returns s \<longleftrightarrow> r_wpump s \<in> {NotStarted, Exited})"
    using ok(1) by (cases "r_wpump s") (auto simp: rtc_life_ok_def rtc_Wait_returns_def)
  moreover have "r_gone s \<le> r_added s \<and> r_added s \<le> 1 \<and> (r_stage s = Open \<and> r_openOnce s = OpenDone \<longrightarrow> r_table s \<and> r_gone s = 0)"
    using ok(2) by (auto simp: rtc_table_ok_def split: if_splits)
  ultimately show ?thesis using ok(3) by (simp add: rtc_wire_ok_def)
qed

theorem rtc_session_sends_in_order_witness:
  "\<exists>s. rtc_reachable PayloadTypeBinary s \<and> r_accepted s = [''m''] \<and> r_pc_closes s \<le> 1"
proof -
  let ?s = "rtc_SendMessage SendQueued ''m'' (rtc_NewSession ''a'' [])"
  have r: "rtc_reachable PayloadTypeBinary ?s"
    by (rule rtc_reachable.step [OF rtc_reachable.init rtc_step.send]) (simp add: rtc_NewSession_def rtc_send_possible_def channelBufSize_def)
  moreover have "r_accepted ?s = [''m'']" by (simp add: rtc_SendMessage_def rtc_NewSession_def)
  ultimately show ?thesis using rtc_session_sends_in_order [OF r] by blast
qed

text \<open>
  A session that is closed before its channel opens never gets into the table, as \<open>addSession\<close> intends. But \<open>addSession\<close> tests and stores in two steps: when
  \<open>Close\<close> comes between them, the closed session is put into the table after it was removed, and nothing ever takes it out.
\<close>

theorem rtc_close_while_opening_leaks_entry:
  assumes "rtc_reachable pt s" and "r_openOnce s = AtStore" and "r_stage s = Open"
  shows "\<exists>s'. (rtc_step pt)\<^sup>*\<^sup>* s s' \<and> r_stage s' = Finished \<and> r_table s' \<and> r_gone s' = 0 \<and> (\<forall>s''. (rtc_step pt)\<^sup>*\<^sup>* s' s'' \<longrightarrow> r_table s'')"
proof -
  have t: "rtc_table_ok s" using rtc_reachable_ok [OF assms(1)] by simp
  then have n: "r_gone s = 0" "\<not> r_table s" using assms(2) by (auto simp: rtc_table_ok_def split: if_splits)
  define a where "a = rtc_Close_step s"
  define b where "b = rtc_Close_step a"
  define c where "c = rtc_Close_step b"
  have st: "r_stage a = DoneClosed" "r_stage b = ConnClosed" "r_stage c = Finished" "r_openOnce c = AtStore" "r_gone c = 0" "\<not> r_table c"
    using assms(2,3) n by (simp_all add: a_def b_def c_def rtc_Close_step_def rtc_closeConnection_def rtc_leave_def)
  have "rtc_step pt s a" "rtc_step pt a b" "rtc_step pt b c" "rtc_step pt c (rtc_open_step c)"
    using rtc_step.close [of s pt] rtc_step.close [of a pt] rtc_step.close [of b pt] rtc_step.opened [of c pt] st assms(3)
    by (simp_all add: a_def b_def c_def)
  then have steps: "(rtc_step pt)\<^sup>*\<^sup>* s (rtc_open_step c)" by (meson converse_rtranclp_into_rtranclp r_into_rtranclp)
  have f: "r_stage (rtc_open_step c) = Finished" "r_table (rtc_open_step c)" "r_gone (rtc_open_step c) = 0"
    using st by (simp_all add: rtc_open_step_def rtc_enter_def)
  show ?thesis using steps f rtc_stale_stays [where s = "rtc_open_step c"] by blast
qed

theorem rtc_close_while_opening_leaks_entry_witness:
  "\<exists>s'. (rtc_step PayloadTypeText)\<^sup>*\<^sup>* (rtc_open_step (rtc_open_step (rtc_NewSession ''a'' []))) s' \<and> r_stage s' = Finished \<and> r_table s'"
proof -
  let ?a = "rtc_open_step (rtc_NewSession ''a'' [])"
  have o: "r_openOnce ?a = AtCheck" "r_stage ?a = Open" by (simp_all add: rtc_open_step_def rtc_NewSession_def)
  have "rtc_reachable PayloadTypeText ?a"
    by (rule rtc_reachable.step [OF rtc_reachable.init rtc_step.opened]) (simp add: rtc_NewSession_def)
  then have "rtc_reachable PayloadTypeText (rtc_open_step ?a)" by (rule rtc_reachable.step [OF _ rtc_step.opened]) (simp add: o)
  moreover have "r_openOnce (rtc_open_step ?a) = AtStore" "r_stage (rtc_open_step ?a) = Open"
    using o by (simp_all add: rtc_open_step_def rtc_IsClosed_def)
  ultimately show ?thesis using rtc_close_while_opening_leaks_entry by blast
qed

end
