(* ===== verification/Sfu_Router.thy ===== *)
theory Sfu_Router
  imports Prelude
begin

text \<open>
  The media router of the WebRTC transport: \<open>transport/webrtc/sfu_router.go\<close> and \<open>media_track.go\<close>. A media track is a cell of a heap, because the router's
  table, the forwarding goroutine of the track and a caller of \<open>Subscribe\<close> share it. Local tracks are numbers; what is written to them is the
  log \<open>sf_written\<close>. Go's maps are association lists; the order in which a \<open>range\<close> visits them is the one of the list.
\<close>

section \<open>Media tracks\<close>

record remote_track =
  rt_ID :: string
  rt_Kind :: string
  rt_Codec :: string

text \<open>The map of subscribers is nil after \<open>Close\<close>; it is only written when the track is not closed, so that nil is the empty map here.\<close>

record media_track =
  mt_id :: string
  mt_sessionID :: string
  mt_kind :: string
  mt_codec :: string
  mt_subscribers :: "(string, nat) gomap"
  mt_closed :: bool

definition NewMediaTrack :: "string \<Rightarrow> remote_track \<Rightarrow> media_track" where
  "NewMediaTrack sessionID track =
     \<lparr>mt_id = rt_ID track, mt_sessionID = sessionID, mt_kind = rt_Kind track, mt_codec = rt_Codec track, mt_subscribers = [], mt_closed = False\<rparr>"

definition AddSubscriber :: "string \<Rightarrow> nat \<Rightarrow> media_track \<Rightarrow> media_track" where
  "AddSubscriber subscriberID localTrack m =
     (if mt_closed m then m else m\<lparr>mt_subscribers := gomap_put subscriberID localTrack (mt_subscribers m)\<rparr>)"

definition RemoveSubscriber :: "string \<Rightarrow> media_track \<Rightarrow> media_track" where
  "RemoveSubscriber subscriberID m = m\<lparr>mt_subscribers := gomap_delete subscriberID (mt_subscribers m)\<rparr>"

definition GetSubscribers :: "media_track \<Rightarrow> (string, nat) gomap" where
  "GetSubscribers m = gomap_put_all (mt_subscribers m) []"

definition MediaTrack_Close :: "media_track \<Rightarrow> media_track" where
  "MediaTrack_Close m = (if mt_closed m then m else m\<lparr>mt_closed := True, mt_subscribers := []\<rparr>)"

text \<open>
  One turn of \<open>forwardRTP\<close>: \<open>r\<close> is the result of \<open>Read\<close>. The result is the track, what is written and whether the loop goes on; an error of a
  write is only logged.
\<close>

definition forwardRTP_turn :: "error + bytes \<Rightarrow> media_track \<Rightarrow> media_track \<times> (nat \<times> bytes) list \<times> bool" where
  "forwardRTP_turn r m =
     (case r of
        Inl e \<Rightarrow> (MediaTrack_Close m, [], False)
      | Inr packet \<Rightarrow> if mt_closed m then (m, [], False) else (m, map (\<lambda>(x, lt). (lt, packet)) (mt_subscribers m), True))"

section \<open>The router\<close>

record sfu =
  sf_tracks :: "(string, (string, nat) gomap) gomap"
  sf_subscriptions :: "(string, string list) gomap"
  sf_heap :: "media_track list"
  sf_locals :: nat
  sf_written :: "(nat \<times> bytes) list"

definition NewSFURouter :: sfu where
  "NewSFURouter = \<lparr>sf_tracks = [], sf_subscriptions = [], sf_heap = [], sf_locals = 0, sf_written = []\<rparr>"

definition track_at :: "(media_track \<Rightarrow> media_track) \<Rightarrow> nat \<Rightarrow> sfu \<Rightarrow> sfu" where
  "track_at f i r = r\<lparr>sf_heap := (sf_heap r)[i := f (sf_heap r ! i)]\<rparr>"

definition session_tracks :: "sfu \<Rightarrow> string \<Rightarrow> (string, nat) gomap" where
  "session_tracks r s = (case map_of (sf_tracks r) s of None \<Rightarrow> [] | Some ts \<Rightarrow> ts)"

definition track_of :: "sfu \<Rightarrow> string \<Rightarrow> string \<Rightarrow> nat option" where
  "track_of r s t = map_of (session_tracks r s) t"

definition AddTrack :: "string \<Rightarrow> remote_track \<Rightarrow> sfu \<Rightarrow> nat \<times> sfu" where
  "AddTrack sessionID track r =
     (let mediaTrack = length (sf_heap r);
          ts = session_tracks r sessionID
      in (mediaTrack, r\<lparr>sf_heap := sf_heap r @ [NewMediaTrack sessionID track],
                        sf_tracks := gomap_put sessionID (gomap_put (rt_ID track) mediaTrack ts) (sf_tracks r)\<rparr>))"

text \<open>The two loops that clean the subscriptions: one visits every list, the other leaves a list alone that does not change.\<close>

definition clean_all :: "(string \<Rightarrow> bool) \<Rightarrow> (string, string list) gomap \<Rightarrow> (string, string list) gomap" where
  "clean_all keep subs = filter (\<lambda>(x, ts). length ts \<noteq> 0) (map (\<lambda>(x, ts). (x, filter keep ts)) subs)"

definition clean_changed :: "(string \<Rightarrow> bool) \<Rightarrow> (string, string list) gomap \<Rightarrow> (string, string list) gomap" where
  "clean_changed keep subs =
     concat (map (\<lambda>(x, ts). let remaining = filter keep ts
        in if length remaining \<noteq> length ts then (if length remaining = 0 then [] else [(x, remaining)]) else [(x, ts)]) subs)"

definition RemoveTrack :: "string \<Rightarrow> string \<Rightarrow> sfu \<Rightarrow> sfu" where
  "RemoveTrack sessionID trackID r =
     (case map_of (sf_tracks r) sessionID of
        None \<Rightarrow> r
      | Some tracks \<Rightarrow>
          (let (r1, tracks1) =
             (case map_of tracks trackID of
                None \<Rightarrow> (r, tracks)
              | Some i \<Rightarrow>
                  ((track_at MediaTrack_Close i r)\<lparr>sf_tracks := gomap_put sessionID (gomap_delete trackID tracks) (sf_tracks r),
                      sf_subscriptions := clean_all (\<lambda>tid. tid \<noteq> trackID) (sf_subscriptions r)\<rparr>, gomap_delete trackID tracks))
           in if length tracks1 = 0 then r1\<lparr>sf_tracks := gomap_delete sessionID (sf_tracks r1)\<rparr> else r1))"

definition RemoveSessionTracks :: "string \<Rightarrow> sfu \<Rightarrow> sfu" where
  "RemoveSessionTracks sessionID r =
     (let r1 = (case map_of (sf_tracks r) sessionID of
                  None \<Rightarrow> r
                | Some tracks \<Rightarrow>
                    (fold (\<lambda>(t, i). track_at MediaTrack_Close i) tracks r)\<lparr>sf_tracks := gomap_delete sessionID (sf_tracks r),
                       sf_subscriptions := clean_changed (\<lambda>tid. tid \<notin> fst ` set tracks) (sf_subscriptions r)\<rparr>)
      in r1\<lparr>sf_subscriptions := gomap_delete sessionID (sf_subscriptions r1)\<rparr>)"

definition sfu_record :: "string \<Rightarrow> string \<Rightarrow> (string, string list) gomap \<Rightarrow> (string, string list) gomap" where
  "sfu_record subscriberID trackID subs =
     (let subs1 = (if map_of subs subscriberID = None then gomap_put subscriberID [] subs else subs)
      in gomap_put subscriberID (the (map_of subs1 subscriberID) @ [trackID]) subs1)"

definition sfu_Subscribe :: "string \<Rightarrow> string \<Rightarrow> sfu \<Rightarrow> nat list \<times> sfu" where
  "sfu_Subscribe subscriberID publisherID r =
     (case map_of (sf_tracks r) publisherID of
        None \<Rightarrow> ([], r)
      | Some tracks \<Rightarrow>
          (map snd tracks, r\<lparr>sf_subscriptions := fold (\<lambda>(trackID, i). sfu_record subscriberID trackID) tracks (sf_subscriptions r)\<rparr>))"

definition sfu_Unsubscribe :: "string \<Rightarrow> string \<Rightarrow> sfu \<Rightarrow> sfu" where
  "sfu_Unsubscribe subscriberID publisherID r =
     (case map_of (sf_subscriptions r) subscriberID of
        None \<Rightarrow> r
      | Some trackIDs \<Rightarrow>
          (let own = track_of r publisherID;
               r1 = fold (\<lambda>t. case own t of None \<Rightarrow> id | Some i \<Rightarrow> track_at (RemoveSubscriber subscriberID) i) trackIDs r;
               remaining = filter (\<lambda>t. own t = None) trackIDs
           in if length remaining = 0 then r1\<lparr>sf_subscriptions := gomap_delete subscriberID (sf_subscriptions r1)\<rparr>
              else r1\<lparr>sf_subscriptions := gomap_put subscriberID remaining (sf_subscriptions r1)\<rparr>))"

definition GetPublisherTracks :: "sfu \<Rightarrow> string \<Rightarrow> nat list" where
  "GetPublisherTracks r publisherID = map snd (session_tracks r publisherID)"

definition GetAllPublishers :: "sfu \<Rightarrow> string list" where
  "GetAllPublishers r = map fst (sf_tracks r)"

text \<open>\<open>err\<close> is the error of making the local track or of adding it to the peer connection.\<close>

definition CreateLocalTrackForSubscriber :: "error option \<Rightarrow> string \<Rightarrow> nat \<Rightarrow> sfu \<Rightarrow> (error + nat) \<times> sfu" where
  "CreateLocalTrackForSubscriber err subscriberID mediaTrack r =
     (case err of
        Some e \<Rightarrow> (Inl e, r)
      | None \<Rightarrow> (Inr (sf_locals r), (track_at (AddSubscriber subscriberID (sf_locals r)) mediaTrack r)\<lparr>sf_locals := Suc (sf_locals r)\<rparr>))"

text \<open>The loop of the server's \<open>SubscribeToPublisher\<close>: a local track for every track that is subscribed; it counts those that could be made.\<close>

fun sfu_create_all :: "(nat \<Rightarrow> error option) \<Rightarrow> string \<Rightarrow> nat list \<Rightarrow> sfu \<Rightarrow> nat \<times> sfu" where
  "sfu_create_all E x [] r = (0, r)"
| "sfu_create_all E x (i # is) r =
     (case CreateLocalTrackForSubscriber (E i) x i r of
        (Inl e, r1) \<Rightarrow> sfu_create_all E x is r1
      | (Inr lt, r1) \<Rightarrow> (let (added, r2) = sfu_create_all E x is r1 in (Suc added, r2)))"

definition sfu_forward :: "nat \<Rightarrow> error + bytes \<Rightarrow> sfu \<Rightarrow> sfu" where
  "sfu_forward i rd r =
     (let (m, out, go_on) = forwardRTP_turn rd (sf_heap r ! i) in (track_at (\<lambda>_. m) i r)\<lparr>sf_written := sf_written r @ out\<rparr>)"

text \<open>
  Every method of the router runs under its lock, every method of a track under the track's; the goroutines of the tracks and the callers run them
  in any order.
\<close>

inductive sfu_step :: "sfu \<Rightarrow> sfu \<Rightarrow> bool" where
  add: "sfu_step r (snd (AddTrack s t r))"
| remove: "sfu_step r (RemoveTrack s t r)"
| remove_session: "sfu_step r (RemoveSessionTracks s r)"
| subscribe: "sfu_step r (snd (sfu_Subscribe x p r))"
| unsubscribe: "sfu_step r (sfu_Unsubscribe x p r)"
| create: "i < length (sf_heap r) \<Longrightarrow> sfu_step r (snd (CreateLocalTrackForSubscriber err x i r))"
| forward: "i < length (sf_heap r) \<Longrightarrow> sfu_step r (sfu_forward i rd r)"

inductive sfu_reach :: "sfu \<Rightarrow> bool" where
  init: "sfu_reach NewSFURouter"
| step: "sfu_reach r \<Longrightarrow> sfu_step r r' \<Longrightarrow> sfu_reach r'"

section \<open>Lemmas\<close>

text \<open>Clean-up of a list of subscriptions; a track is of a session when the table says so.\<close>

definition track_ok :: "media_track \<Rightarrow> bool" where
  "track_ok m \<longleftrightarrow> gomap_wf (mt_subscribers m) \<and> (mt_closed m \<longrightarrow> mt_subscribers m = [])"

definition sfu_ok :: "sfu \<Rightarrow> bool" where
  "sfu_ok r \<longleftrightarrow> gomap_wf (sf_tracks r) \<and> (\<forall>s ts. map_of (sf_tracks r) s = Some ts \<longrightarrow> gomap_wf ts \<and> ts \<noteq> [])
     \<and> (\<forall>s t i. track_of r s t = Some i \<longrightarrow> i < length (sf_heap r) \<and> mt_id (sf_heap r ! i) = t \<and> mt_sessionID (sf_heap r ! i) = s)
     \<and> gomap_wf (sf_subscriptions r)
     \<and> (\<forall>x ts. map_of (sf_subscriptions r) x = Some ts \<longrightarrow> ts \<noteq> [] \<and> (\<forall>t\<in>set ts. \<exists>s. track_of r s t \<noteq> None))
     \<and> (\<forall>i<length (sf_heap r). track_ok (sf_heap r ! i))"

lemma sfu_okI:
  assumes "gomap_wf (sf_tracks r)" "\<And>s ts. map_of (sf_tracks r) s = Some ts \<Longrightarrow> gomap_wf ts \<and> ts \<noteq> []"
    "\<And>s t i. track_of r s t = Some i \<Longrightarrow> i < length (sf_heap r) \<and> mt_id (sf_heap r ! i) = t \<and> mt_sessionID (sf_heap r ! i) = s"
    "gomap_wf (sf_subscriptions r)" "\<And>x ts. map_of (sf_subscriptions r) x = Some ts \<Longrightarrow> ts \<noteq> []"
    "\<And>x ts t. map_of (sf_subscriptions r) x = Some ts \<Longrightarrow> t \<in> set ts \<Longrightarrow> \<exists>s. track_of r s t \<noteq> None"
    "\<And>i. i < length (sf_heap r) \<Longrightarrow> track_ok (sf_heap r ! i)"
  shows "sfu_ok r"
  using assms unfolding sfu_ok_def by blast

lemma sfu_okD:
  assumes "sfu_ok r"
  shows "gomap_wf (sf_tracks r)" "map_of (sf_tracks r) s = Some ts \<Longrightarrow> gomap_wf ts \<and> ts \<noteq> []"
    "track_of r s t = Some i \<Longrightarrow> i < length (sf_heap r) \<and> mt_id (sf_heap r ! i) = t \<and> mt_sessionID (sf_heap r ! i) = s"
    "gomap_wf (sf_subscriptions r)" "map_of (sf_subscriptions r) x = Some us \<Longrightarrow> us \<noteq> []"
    "map_of (sf_subscriptions r) x = Some us \<Longrightarrow> t \<in> set us \<Longrightarrow> \<exists>s. track_of r s t \<noteq> None"
    "j < length (sf_heap r) \<Longrightarrow> track_ok (sf_heap r ! j)"
  using assms unfolding sfu_ok_def by blast+

lemma track_at_simps [simp]:
  "sf_tracks (track_at f i r) = sf_tracks r" "sf_subscriptions (track_at f i r) = sf_subscriptions r" "sf_locals (track_at f i r) = sf_locals r"
  "sf_written (track_at f i r) = sf_written r" "length (sf_heap (track_at f i r)) = length (sf_heap r)"
  "j < length (sf_heap r) \<Longrightarrow> sf_heap (track_at f i r) ! j = (if j = i then f (sf_heap r ! i) else sf_heap r ! j)"
  by (simp_all add: track_at_def)

lemma tables_decide_track_of: "sf_tracks r' = sf_tracks r \<Longrightarrow> track_of r' = track_of r"
  by (simp add: track_of_def session_tracks_def fun_eq_iff)

lemma track_of_AddTrack:
  "track_of (snd (AddTrack s t r)) s' t' = (if s' = s \<and> t' = rt_ID t then Some (length (sf_heap r)) else track_of r s' t')"
  by (simp add: AddTrack_def Let_def track_of_def session_tracks_def split: option.split)

lemma deleted_all: "gomap_delete k m = [] \<Longrightarrow> k' \<noteq> k \<Longrightarrow> map_of m k' = None"
  by (metis fun_upd_apply map_of.simps(1) map_of_gomap_delete)

lemma track_of_RemoveTrack: "track_of (RemoveTrack s t r) s' t' = (if s' = s \<and> t' = t then None else track_of r s' t')"
  by (auto simp: RemoveTrack_def track_of_def session_tracks_def Let_def deleted_all split: option.split if_splits)

lemma fold_track_at_simps [simp]:
  "sf_tracks (fold (\<lambda>(t, i). track_at f i) ts r) = sf_tracks r" "sf_subscriptions (fold (\<lambda>(t, i). track_at f i) ts r) = sf_subscriptions r"
  "length (sf_heap (fold (\<lambda>(t, i). track_at f i) ts r)) = length (sf_heap r)"
  by (induction ts arbitrary: r) auto

lemma track_of_RemoveSessionTracks: "track_of (RemoveSessionTracks s r) s' t' = (if s' = s then None else track_of r s' t')"
  by (auto simp: RemoveSessionTracks_def track_of_def session_tracks_def Let_def split: option.split)


lemma heap_close:
  assumes "j < length (sf_heap r)"
  shows "sf_heap (fold (\<lambda>(t, i). track_at MediaTrack_Close i) ts r) ! j
       = (if j \<in> snd ` set ts then MediaTrack_Close (sf_heap r ! j) else sf_heap r ! j)"
  using assms
proof (induction ts arbitrary: r)
  case (Cons p ts)
  have twice: "MediaTrack_Close (MediaTrack_Close m) = MediaTrack_Close m" for m by (simp add: MediaTrack_Close_def)
  show ?case using Cons by (cases p) (simp add: twice)
qed simp

lemma heap_unsubscribe:
  assumes "j < length (sf_heap r)"
  shows "sf_heap (fold (\<lambda>t. case own t of None \<Rightarrow> id | Some i \<Rightarrow> track_at (RemoveSubscriber x) i) ts r) ! j
       = (if Some j \<in> own ` set ts then RemoveSubscriber x (sf_heap r ! j) else sf_heap r ! j)"
  using assms
proof (induction ts arbitrary: r)
  case (Cons t ts)
  have twice: "RemoveSubscriber x (RemoveSubscriber x m) = RemoveSubscriber x m" for m
    by (simp add: RemoveSubscriber_def gomap_delete_def AList.delete_eq)
  show ?case using Cons by (auto simp: twice split: option.split)
qed simp

lemma fold_unsubscribe_simps [simp]:
  fixes own :: "string \<Rightarrow> nat option" and x ts r
  defines "z \<equiv> fold (\<lambda>t. case own t of None \<Rightarrow> id | Some i \<Rightarrow> track_at (RemoveSubscriber x) i) ts r"
  shows "sf_tracks z = sf_tracks r" "sf_subscriptions z = sf_subscriptions r" "length (sf_heap z) = length (sf_heap r)"
    "sf_locals z = sf_locals r" "sf_written z = sf_written r"
  unfolding z_def by (induction ts arbitrary: r) (auto split: option.split)

lemma map_of_clean_all:
  "gomap_wf subs \<Longrightarrow> map_of (clean_all keep subs) x
     = (case map_of subs x of None \<Rightarrow> None | Some us \<Rightarrow> if filter keep us = [] then None else Some (filter keep us))"
proof (induction subs)
  case (Cons p subs)
  obtain y us where p: "p = (y, us)" by (rule prod.exhaust)
  have "y \<notin> fst ` set subs" using Cons.prems by (simp add: p)
  then have "map_of (clean_all keep subs) y = None" "map_of subs y = None" by (auto simp: map_of_eq_None_iff clean_all_def image_iff)
  then show ?case using Cons by (auto simp: p clean_all_def split: option.split)
qed (simp add: clean_all_def)

lemma clean_all_wf: "gomap_wf subs \<Longrightarrow> gomap_wf (clean_all keep subs)"
proof -
  assume "gomap_wf subs"
  then have "gomap_wf (map (\<lambda>(x, ts). (x, filter keep ts)) subs)" by (simp add: comp_def case_prod_unfold)
  then show ?thesis unfolding clean_all_def by (rule distinct_map_filter)
qed

lemma filter_same_length: "length (filter P xs) = length xs \<longleftrightarrow> filter P xs = xs"
  by (metis filter_True length_filter_less less_irrefl)

lemma clean_changed_all: "\<forall>ts\<in>snd ` set subs. ts \<noteq> [] \<Longrightarrow> clean_changed keep subs = clean_all keep subs"
  by (induction subs) (auto simp: clean_changed_def clean_all_def Let_def filter_same_length)

lemma track_ok_ops:
  "track_ok m \<Longrightarrow> track_ok (AddSubscriber x lt m)" "track_ok m \<Longrightarrow> track_ok (RemoveSubscriber x m)" "track_ok m \<Longrightarrow> track_ok (MediaTrack_Close m)"
  "track_ok (NewMediaTrack s t)"
  by (auto simp: track_ok_def AddSubscriber_def RemoveSubscriber_def MediaTrack_Close_def NewMediaTrack_def gomap_delete_absent)

lemma track_ident [simp]:
  "mt_id (AddSubscriber x lt m) = mt_id m" "mt_sessionID (AddSubscriber x lt m) = mt_sessionID m"
  "mt_id (RemoveSubscriber x m) = mt_id m" "mt_sessionID (RemoveSubscriber x m) = mt_sessionID m"
  "mt_id (MediaTrack_Close m) = mt_id m" "mt_sessionID (MediaTrack_Close m) = mt_sessionID m"
  "mt_id (NewMediaTrack s t) = rt_ID t" "mt_sessionID (NewMediaTrack s t) = s"
  by (simp_all add: AddSubscriber_def RemoveSubscriber_def MediaTrack_Close_def NewMediaTrack_def)

text \<open>A change of a cell that keeps its identity keeps the invariant.\<close>

lemma ok_cells:
  assumes "sfu_ok r" "sf_tracks r' = sf_tracks r" "sf_subscriptions r' = sf_subscriptions r" "length (sf_heap r') = length (sf_heap r)"
    and "\<And>i. i < length (sf_heap r) \<Longrightarrow> mt_id (sf_heap r' ! i) = mt_id (sf_heap r ! i) \<and> mt_sessionID (sf_heap r' ! i) = mt_sessionID (sf_heap r ! i)
           \<and> track_ok (sf_heap r' ! i)"
  shows "sfu_ok r'"
  using assms tables_decide_track_of [OF assms(2)] by (simp add: sfu_ok_def)

lemma session_tracks_wf: "sfu_ok r \<Longrightarrow> gomap_wf (session_tracks r s)"
  by (auto simp: sfu_ok_def session_tracks_def split: option.split)

lemma AddTrack_ok:
  assumes ok: "sfu_ok r" shows "sfu_ok (snd (AddTrack s t r))"
proof (rule sfu_okI)
  let ?r = "snd (AddTrack s t r)" and ?ts = "gomap_put (rt_ID t) (length (sf_heap r)) (session_tracks r s)"
  note d = sfu_okD [OF ok]
  have f: "sf_tracks ?r = gomap_put s ?ts (sf_tracks r)" "sf_heap ?r = sf_heap r @ [NewMediaTrack s t]" "sf_subscriptions ?r = sf_subscriptions r"
    by (simp_all add: AddTrack_def Let_def)
  have "?ts \<noteq> []" by (metis fun_upd_same map_of.simps(1) map_of_gomap_put option.distinct(1))
  then show "gomap_wf ts \<and> ts \<noteq> []" if "map_of (sf_tracks ?r) s' = Some ts" for s' ts
    using that d(2) session_tracks_wf [OF ok, of s] by (auto simp: f split: if_splits)
  show "i < length (sf_heap ?r) \<and> mt_id (sf_heap ?r ! i) = t' \<and> mt_sessionID (sf_heap ?r ! i) = s'" if "track_of ?r s' t' = Some i" for s' t' i
    using that d(3) [of s' t' i] by (auto simp: track_of_AddTrack f nth_append less_SucI split: if_splits)
  show "\<exists>s'. track_of ?r s' t' \<noteq> None" if "map_of (sf_subscriptions ?r) x = Some ts" "t' \<in> set ts" for x ts t'
    using d(6) [of x ts t'] that by (auto simp: f track_of_AddTrack)
  show "track_ok (sf_heap ?r ! i)" if "i < length (sf_heap ?r)" for i
    using that d(7) [of i] by (auto simp: f nth_append less_Suc_eq track_ok_ops)
qed (use sfu_okD [OF ok] in \<open>auto simp: AddTrack_def Let_def\<close>)

text \<open>When tracks leave the table, the subscriptions to their IDs go with them.\<close>

lemma ok_remove:
  assumes "sfu_ok r" and tab: "gomap_wf (sf_tracks r')" "\<And>s ts. map_of (sf_tracks r') s = Some ts \<Longrightarrow> gomap_wf ts \<and> ts \<noteq> []"
    and tr: "\<And>s t. track_of r' s t = (if gone s t then None else track_of r s t)"
    and subs: "sf_subscriptions r' = clean_all keep (sf_subscriptions r)" "\<And>s t. keep t \<Longrightarrow> track_of r s t \<noteq> None \<Longrightarrow> \<not> gone s t"
    and heap: "length (sf_heap r') = length (sf_heap r)"
      "\<And>i. i < length (sf_heap r) \<Longrightarrow> sf_heap r' ! i = sf_heap r ! i \<or> sf_heap r' ! i = MediaTrack_Close (sf_heap r ! i)"
  shows "sfu_ok r'"
proof (rule sfu_okI [OF tab])
  note d = sfu_okD [OF assms(1)]
  note mo = map_of_clean_all [OF d(4)]
  show "i < length (sf_heap r') \<and> mt_id (sf_heap r' ! i) = t \<and> mt_sessionID (sf_heap r' ! i) = s" if "track_of r' s t = Some i" for s t i
    using that d(3) [of s t i] heap(1) heap(2) [of i] by (auto simp: tr split: if_splits)
  show "gomap_wf (sf_subscriptions r')" using d(4) by (simp add: subs clean_all_wf)
  show "ts \<noteq> []" if "map_of (sf_subscriptions r') x = Some ts" for x ts
    using that by (auto simp: subs mo split: option.splits if_splits)
  show "\<exists>s. track_of r' s t \<noteq> None" if x: "map_of (sf_subscriptions r') x = Some ts" and t: "t \<in> set ts" for x ts t
  proof -
    obtain us where us: "map_of (sf_subscriptions r) x = Some us" "t \<in> set us" "keep t"
      using x t by (auto simp: subs mo split: option.splits if_splits)
    then obtain s where "track_of r s t \<noteq> None" using d(6) by blast
    then have "track_of r' s t \<noteq> None" using subs(2) [OF us(3)] by (simp add: tr)
    then show ?thesis by blast
  qed
  show "track_ok (sf_heap r' ! i)" if "i < length (sf_heap r')" for i
    using that heap(1) heap(2) [of i] d(7) [of i] track_ok_ops(3) by auto
qed

lemma RemoveTrack_absent:
  assumes "sfu_ok r" "track_of r s t = None" shows "RemoveTrack s t r = r"
  using assms(2) sfu_okD(2) [OF assms(1), of s] by (auto simp: RemoveTrack_def track_of_def session_tracks_def Let_def split: option.splits)

lemma RemoveTrack_ok:
  assumes ok: "sfu_ok r" shows "sfu_ok (RemoveTrack s t r)"
proof (cases "track_of r s t")
  case None
  then show ?thesis using ok RemoveTrack_absent by simp
next
  case (Some i)
  then obtain ts where ts: "map_of (sf_tracks r) s = Some ts" "map_of ts t = Some i"
    by (auto simp: track_of_def session_tracks_def split: option.splits)
  let ?r = "RemoveTrack s t r" and ?m = "gomap_put s (gomap_delete t ts) (sf_tracks r)"
  note d = sfu_okD [OF ok]
  have f: "sf_tracks ?r = (if gomap_delete t ts = [] then gomap_delete s ?m else ?m)"
    "sf_subscriptions ?r = clean_all (\<lambda>tid. tid \<noteq> t) (sf_subscriptions r)" "sf_heap ?r = sf_heap (track_at MediaTrack_Close i r)"
    using ts by (simp_all add: RemoveTrack_def Let_def)
  show ?thesis
  proof (rule ok_remove [OF ok _ _ track_of_RemoveTrack f(2)])
    show "gomap_wf (sf_tracks ?r)" using d(1) by (auto simp: f(1))
    show "gomap_wf ts' \<and> ts' \<noteq> []" if "map_of (sf_tracks ?r) s' = Some ts'" for s' ts'
      using that d(2) [of s' ts'] d(2) [OF ts(1)] by (auto simp: f(1) split: if_splits)
  qed (auto simp: f(3))
qed

lemma RemoveSessionTracks_ok:
  assumes ok: "sfu_ok r" shows "sfu_ok (RemoveSessionTracks s r)"
proof -
  note d = sfu_okD [OF ok]
  define r1 where "r1 = (case map_of (sf_tracks r) s of
                  None \<Rightarrow> r
                | Some tracks \<Rightarrow>
                    (fold (\<lambda>(t, i). track_at MediaTrack_Close i) tracks r)\<lparr>sf_tracks := gomap_delete s (sf_tracks r),
                       sf_subscriptions := clean_changed (\<lambda>tid. tid \<notin> fst ` set tracks) (sf_subscriptions r)\<rparr>)"
  have r: "RemoveSessionTracks s r = r1\<lparr>sf_subscriptions := gomap_delete s (sf_subscriptions r1)\<rparr>"
    by (simp add: RemoveSessionTracks_def r1_def Let_def)
  have "sfu_ok r1"
  proof (cases "map_of (sf_tracks r) s")
    case None
    then show ?thesis using ok by (simp add: r1_def)
  next
    case (Some ts)
    have ne: "\<forall>ts\<in>snd ` set (sf_subscriptions r). ts \<noteq> []" using d(4,5) by (auto simp: map_of_is_SomeI)
    have f: "sf_tracks r1 = gomap_delete s (sf_tracks r)" "sf_heap r1 = sf_heap (fold (\<lambda>(t, i). track_at MediaTrack_Close i) ts r)"
      "sf_subscriptions r1 = clean_all (\<lambda>tid. tid \<notin> fst ` set ts) (sf_subscriptions r)"
      using Some by (simp_all add: r1_def clean_changed_all [OF ne])
    have tr: "track_of r1 s' t = (if s' = s then None else track_of r s' t)" for s' t
      by (simp add: track_of_def session_tracks_def f(1))
    show ?thesis
    proof (rule ok_remove [OF ok _ _ tr f(3)])
      show "gomap_wf (sf_tracks r1)" using d(1) by (auto simp: f)
      show "gomap_wf ts' \<and> ts' \<noteq> []" if "map_of (sf_tracks r1) s' = Some ts'" for s' ts'
        using that d(2) [of s' ts'] by (auto simp: f(1) split: if_splits)
      show "\<not> s' = s" if "t \<notin> fst ` set ts" "track_of r s' t \<noteq> None" for s' t
        using that Some by (auto simp: track_of_def session_tracks_def map_of_eq_None_iff)
    qed (use heap_close [of _ r ts] in \<open>auto simp: f(2)\<close>)
  qed
  note d1 = sfu_okD [OF this]
  have tr: "track_of (RemoveSessionTracks s r) = track_of r1" by (rule tables_decide_track_of) (simp add: r)
  show ?thesis
    by (rule sfu_okI) (use d1 in \<open>auto simp: r tr [unfolded r] split: if_splits\<close>)
qed


lemma map_of_record: "map_of (sfu_record x t subs) = (map_of subs)(x \<mapsto> (case map_of subs x of None \<Rightarrow> [] | Some ts \<Rightarrow> ts) @ [t])"
  by (auto simp: sfu_record_def Let_def split: option.split)

lemma record_wf: "gomap_wf subs \<Longrightarrow> gomap_wf (sfu_record x t subs)"
  by (simp add: sfu_record_def Let_def gomap_wf_put)

lemma map_of_recorded:
  "map_of (fold (\<lambda>(t, i). sfu_record x t) tracks subs)
     = (if tracks = [] then map_of subs else (map_of subs)(x \<mapsto> (case map_of subs x of None \<Rightarrow> [] | Some ts \<Rightarrow> ts) @ map fst tracks))"
  by (induction tracks arbitrary: subs) (auto simp: map_of_record)

lemma recorded_wf: "gomap_wf subs \<Longrightarrow> gomap_wf (fold (\<lambda>(t, i). sfu_record x t) tracks subs)"
  by (induction tracks arbitrary: subs) (auto simp: record_wf)

lemma Subscribe_fields:
  "sf_tracks (snd (sfu_Subscribe x p r)) = sf_tracks r" "sf_heap (snd (sfu_Subscribe x p r)) = sf_heap r"
  "track_of (snd (sfu_Subscribe x p r)) = track_of r" "fst (sfu_Subscribe x p r) = map snd (session_tracks r p)"
  "sf_subscriptions (snd (sfu_Subscribe x p r)) = fold (\<lambda>(t, i). sfu_record x t) (session_tracks r p) (sf_subscriptions r)"
  by (auto simp: sfu_Subscribe_def track_of_def session_tracks_def fun_eq_iff split: option.split)

lemma Subscribe_ok:
  assumes ok: "sfu_ok r" shows "sfu_ok (snd (sfu_Subscribe x p r))"
proof (rule sfu_okI)
  note d = sfu_okD [OF ok] and S = Subscribe_fields [of x p r] and mo = map_of_recorded [of x "session_tracks r p" "sf_subscriptions r"]
  let ?r = "snd (sfu_Subscribe x p r)"
  show "ts \<noteq> []" if "map_of (sf_subscriptions ?r) y = Some ts" for y ts
    using that d(5) [of y ts] by (auto simp: S mo split: if_splits)
  show "\<exists>s. track_of ?r s t \<noteq> None" if y: "map_of (sf_subscriptions ?r) y = Some ts" "t \<in> set ts" for y ts t
  proof (cases "t \<in> fst ` set (session_tracks r p)")
    case True
    then have "track_of r p t \<noteq> None" by (simp add: track_of_def map_of_eq_None_iff)
    then show ?thesis unfolding S by blast
  next
    case False
    then have "\<exists>us. map_of (sf_subscriptions r) y = Some us \<and> t \<in> set us"
      using y by (auto simp: S mo split: if_splits option.splits)
    then show ?thesis using d(6) unfolding S by blast
  qed
qed (use sfu_okD [OF ok] in \<open>auto simp: Subscribe_fields recorded_wf\<close>)

lemma Unsubscribe_fields:
  assumes "map_of (sf_subscriptions r) x = Some ts"
  shows "sf_tracks (sfu_Unsubscribe x p r) = sf_tracks r" "length (sf_heap (sfu_Unsubscribe x p r)) = length (sf_heap r)"
    "map_of (sf_subscriptions (sfu_Unsubscribe x p r))
       = (map_of (sf_subscriptions r))(x := if filter (\<lambda>t. track_of r p t = None) ts = [] then None else Some (filter (\<lambda>t. track_of r p t = None) ts))"
    "j < length (sf_heap r) \<Longrightarrow> sf_heap (sfu_Unsubscribe x p r) ! j
       = (if Some j \<in> track_of r p ` set ts then RemoveSubscriber x (sf_heap r ! j) else sf_heap r ! j)"
    "gomap_wf (sf_subscriptions r) \<Longrightarrow> gomap_wf (sf_subscriptions (sfu_Unsubscribe x p r))"
  using assms heap_unsubscribe [where j = j and r = r and own = "track_of r p" and x = x and ts = ts] by (auto simp: sfu_Unsubscribe_def Let_def gomap_wf_put gomap_wf_delete)

lemma Unsubscribe_ok:
  assumes ok: "sfu_ok r" shows "sfu_ok (sfu_Unsubscribe x p r)"
proof (cases "map_of (sf_subscriptions r) x")
  case None
  then show ?thesis using ok by (simp add: sfu_Unsubscribe_def)
next
  case (Some ts)
  let ?r = "sfu_Unsubscribe x p r"
  note d = sfu_okD [OF ok] and U = Unsubscribe_fields [OF Some, where p = p]
  have tr: "track_of ?r = track_of r" by (rule tables_decide_track_of) (rule U)
  show ?thesis
  proof (rule sfu_okI)
    show "i < length (sf_heap ?r) \<and> mt_id (sf_heap ?r ! i) = t \<and> mt_sessionID (sf_heap ?r ! i) = s" if "track_of ?r s t = Some i" for s t i
      using that d(3) [of s t i] by (auto simp: tr U)
    show "us \<noteq> []" if "map_of (sf_subscriptions ?r) y = Some us" for y us
      using that d(5) [of y us] by (auto simp: U split: if_splits)
    show "\<exists>s. track_of ?r s t \<noteq> None" if y: "map_of (sf_subscriptions ?r) y = Some us" "t \<in> set us" for y us t
    proof -
      have "\<exists>vs. map_of (sf_subscriptions r) y = Some vs \<and> t \<in> set vs" using y Some by (auto simp: U split: if_splits)
      then show ?thesis using d(6) unfolding tr by blast
    qed
    show "track_ok (sf_heap ?r ! i)" if "i < length (sf_heap ?r)" for i
      using that d(7) [of i] track_ok_ops(2) by (auto simp: U)
  qed (use d in \<open>auto simp: U\<close>)
qed

lemma create_ok: assumes "sfu_ok r" shows "sfu_ok (snd (CreateLocalTrackForSubscriber err x i r))"
  by (rule ok_cells [OF assms]) (auto simp: CreateLocalTrackForSubscriber_def sfu_okD(7) [OF assms] track_ok_ops(1) split: option.split)

lemma forward_cell:
  "fst (forwardRTP_turn rd m) = m \<or> fst (forwardRTP_turn rd m) = MediaTrack_Close m"
  by (auto simp: forwardRTP_turn_def split: sum.split)

lemma forward_ok:
  assumes "sfu_ok r" shows "sfu_ok (sfu_forward i rd r)"
  using assms
proof (rule ok_cells)
  show "mt_id (sf_heap (sfu_forward i rd r) ! j) = mt_id (sf_heap r ! j) \<and> mt_sessionID (sf_heap (sfu_forward i rd r) ! j) = mt_sessionID (sf_heap r ! j)
      \<and> track_ok (sf_heap (sfu_forward i rd r) ! j)" if "j < length (sf_heap r)" for j
    using that sfu_okD(7) [OF assms, of j] forward_cell [of rd "sf_heap r ! i"] track_ok_ops(3)
    by (auto simp: sfu_forward_def Let_def case_prod_unfold)
qed (simp_all add: sfu_forward_def Let_def case_prod_unfold)

lemma sfu_step_ok: "sfu_step r r' \<Longrightarrow> sfu_ok r \<Longrightarrow> sfu_ok r'"
  by (induction rule: sfu_step.induct) (simp_all add: AddTrack_ok RemoveTrack_ok RemoveSessionTracks_ok Subscribe_ok Unsubscribe_ok create_ok forward_ok)

lemma sfu_reach_ok: "sfu_reach r \<Longrightarrow> sfu_ok r"
proof (induction rule: sfu_reach.induct)
  case init
  show ?case by (simp add: sfu_ok_def NewSFURouter_def track_of_def session_tracks_def)
qed (rule sfu_step_ok)


lemma create_all_fields:
  "sf_tracks (snd (sfu_create_all E x is r)) = sf_tracks r" "sf_subscriptions (snd (sfu_create_all E x is r)) = sf_subscriptions r"
  "length (sf_heap (snd (sfu_create_all E x is r))) = length (sf_heap r)" "sf_written (snd (sfu_create_all E x is r)) = sf_written r"
  "\<lbrakk>\<And>i. E i = None\<rbrakk> \<Longrightarrow> fst (sfu_create_all E x is r) = length is"
  by (induction "is" arbitrary: r) (auto simp: CreateLocalTrackForSubscriber_def Let_def case_prod_unfold split: option.split)

lemma create_all_heap:
  assumes "distinct is" "j < length (sf_heap r)"
  shows "sf_heap (snd (sfu_create_all (\<lambda>i. None) x is r)) ! j
       = (if j \<in> set is then AddSubscriber x (sf_locals r + length (takeWhile (\<lambda>i. i \<noteq> j) is)) (sf_heap r ! j) else sf_heap r ! j)"
  using assms
proof (induction "is" arbitrary: r)
  case (Cons i "is")
  define r' where "r' = (track_at (AddSubscriber x (sf_locals r)) i r)\<lparr>sf_locals := Suc (sf_locals r)\<rparr>"
  have f: "sf_locals r' = Suc (sf_locals r)" "length (sf_heap r') = length (sf_heap r)"
    "sf_heap r' ! j = (if j = i then AddSubscriber x (sf_locals r) (sf_heap r ! i) else sf_heap r ! j)"
    using Cons.prems(2) by (simp_all add: r'_def)
  have "snd (sfu_create_all (\<lambda>i. None) x (i # is) r) = snd (sfu_create_all (\<lambda>i. None) x is r')"
    by (simp add: CreateLocalTrackForSubscriber_def Let_def case_prod_unfold r'_def)
  moreover have "sf_heap (snd (sfu_create_all (\<lambda>i. None) x is r')) ! j
      = (if j \<in> set is then AddSubscriber x (Suc (sf_locals r) + length (takeWhile (\<lambda>i. i \<noteq> j) is)) (sf_heap r' ! j) else sf_heap r' ! j)"
    using Cons.IH [of r'] Cons.prems f by simp
  ultimately show ?case using Cons.prems(1) f(3) by auto
qed simp

lemma remove_added: "x \<notin> fst ` set (mt_subscribers m) \<Longrightarrow> RemoveSubscriber x (AddSubscriber x lt m) = m"
  by (simp add: RemoveSubscriber_def AddSubscriber_def gomap_put_absent gomap_delete_absent)
    (simp add: gomap_delete_def AList.delete_eq filter_id_conv image_iff split_beta)

lemma session_refs:
  assumes "sfu_ok r"
  shows "distinct (map snd (session_tracks r p))" "i \<in> snd ` set (session_tracks r p) \<longleftrightarrow> (\<exists>t. track_of r p t = Some i)"
proof -
  note d = sfu_okD [OF assms] and wf = session_tracks_wf [OF assms, of p]
  have "(t, i) \<in> set (session_tracks r p) \<longleftrightarrow> track_of r p t = Some i" for t i using wf by (simp add: track_of_def)
  then show "i \<in> snd ` set (session_tracks r p) \<longleftrightarrow> (\<exists>t. track_of r p t = Some i)" by force
  have "inj_on snd (set (session_tracks r p))"
  proof (rule inj_onI, clarsimp)
    fix t t' i assume "(t, i) \<in> set (session_tracks r p)" "(t', i) \<in> set (session_tracks r p)"
    then have "track_of r p t = Some i" "track_of r p t' = Some i" using wf by (simp_all add: track_of_def)
    then show "t = t'" using d(3) by blast
  qed
  then show "distinct (map snd (session_tracks r p))" using wf by (metis distinct_map)
qed


lemma unsubscribe_restores:
  fixes r r2 x p
  defines "T \<equiv> session_tracks r p" and "old \<equiv> (case map_of (sf_subscriptions r) x of None \<Rightarrow> [] | Some ts \<Rightarrow> ts)"
  assumes ok: "sfu_ok r" and C: "sf_tracks r2 = sf_tracks r" "length (sf_heap r2) = length (sf_heap r)"
    and subs: "map_of (sf_subscriptions r2) = (if T = [] then map_of (sf_subscriptions r) else (map_of (sf_subscriptions r))(x \<mapsto> old @ map fst T))"
    and heap: "\<And>j. j < length (sf_heap r) \<Longrightarrow> sf_heap r2 ! j = (if j \<in> snd ` set T then AddSubscriber x (L j) (sf_heap r ! j) else sf_heap r ! j)"
    and fresh: "\<forall>t\<in>fst ` set T. t \<notin> set old" "\<forall>i\<in>snd ` set T. x \<notin> fst ` set (mt_subscribers (sf_heap r ! i))"
  shows "sf_heap (sfu_Unsubscribe x p r2) = sf_heap r \<and> sf_tracks (sfu_Unsubscribe x p r2) = sf_tracks r
     \<and> map_of (sf_subscriptions (sfu_Unsubscribe x p r2)) = map_of (sf_subscriptions r)"
proof (cases "map_of (sf_subscriptions r2) x")
  case None
  then have T: "T = []" by (auto simp: subs split: if_splits)
  then have "sf_heap r2 = sf_heap r" using heap C(2) by (auto intro: nth_equalityI)
  then show ?thesis using None T subs C(1) by (simp add: sfu_Unsubscribe_def)
next
  case (Some us)
  note U = Unsubscribe_fields [OF Some, where p = p] and d = sfu_okD [OF ok]
  have tr: "track_of r2 = track_of r" by (rule tables_decide_track_of) (rule C)
  have own: "i \<in> snd ` set T \<longleftrightarrow> (\<exists>t. track_of r p t = Some i)" for i using session_refs(2) [OF ok] by (simp add: T_def)
  have in_T: "track_of r p t = None \<longleftrightarrow> t \<notin> fst ` set T" for t by (simp add: track_of_def map_of_eq_None_iff T_def)
  have us: "us = old @ map fst T" using Some by (auto simp: subs old_def split: if_splits)
  have "filter (\<lambda>t. t \<notin> fst ` set T) old = old" by (rule filter_True) (use fresh(1) in blast)
  moreover have "filter (\<lambda>t. t \<notin> fst ` set T) (map fst T) = []" by (auto simp: filter_empty_conv)
  ultimately have rest: "filter (\<lambda>t. track_of r2 p t = None) us = old" by (simp only: tr in_T us filter_append append_Nil2)
  have "map_of (sf_subscriptions (sfu_Unsubscribe x p r2)) = map_of (sf_subscriptions r)"
    unfolding U(3) rest using d(5) [of x] Some by (auto simp: subs old_def fun_eq_iff split: option.splits if_splits)
  moreover have "sf_heap (sfu_Unsubscribe x p r2) ! j = sf_heap r ! j" if j: "j < length (sf_heap r)" for j
  proof (cases "j \<in> snd ` set T")
    case True
    then obtain t where t: "track_of r p t = Some j" using own by blast
    then have "t \<in> set us" using in_T [of t] us by simp
    then have "Some j \<in> track_of r2 p ` set us" using t tr by (metis image_eqI)
    moreover have "RemoveSubscriber x (AddSubscriber x lt (sf_heap r ! j)) = sf_heap r ! j" for lt
      using fresh(2) True by (intro remove_added) blast
    ultimately show ?thesis using U(4) [of j] j C(2) heap [OF j] True by simp
  next
    case False
    then have "Some j \<notin> track_of r2 p ` set us" using own [of j] unfolding tr by force
    then show ?thesis using U(4) [of j] j C(2) heap [OF j] False by simp
  qed
  then have "sf_heap (sfu_Unsubscribe x p r2) = sf_heap r" using U(2) C(2) by (auto intro: nth_equalityI)
  ultimately show ?thesis using U(1) C(1) by simp
qed

section \<open>Properties\<close>

text \<open>
  C18: the tables of the media router stay consistent under every interleaving of its methods and of the forwarding goroutines: no session is in the
  table without a track, an entry of the table is a track of that session with that ID, every recorded subscription names a track that
  some session publishes, no list of subscriptions is empty, and a closed track has no subscribers. The hypothesis is that the state is reached from the
  new router by such steps, each one method under the lock of the router or of the track.
\<close>

theorem sfu_tables_are_consistent:
  assumes "sfu_reach r"
  shows "(\<forall>s\<in>set (GetAllPublishers r). GetPublisherTracks r s \<noteq> [])
     \<and> (\<forall>s t i. track_of r s t = Some i \<longrightarrow> i < length (sf_heap r) \<and> mt_id (sf_heap r ! i) = t \<and> mt_sessionID (sf_heap r ! i) = s)
     \<and> (\<forall>x ts t. map_of (sf_subscriptions r) x = Some ts \<and> t \<in> set ts \<longrightarrow> (\<exists>s. track_of r s t \<noteq> None))
     \<and> (\<forall>x ts. map_of (sf_subscriptions r) x = Some ts \<longrightarrow> ts \<noteq> [])
     \<and> (\<forall>i. i < length (sf_heap r) \<and> mt_closed (sf_heap r ! i) \<longrightarrow> mt_subscribers (sf_heap r ! i) = [])"
proof -
  note d = sfu_okD [OF sfu_reach_ok [OF assms]]
  have "GetPublisherTracks r s \<noteq> []" if s: "s \<in> set (GetAllPublishers r)" for s
  proof -
    obtain ts where "map_of (sf_tracks r) s = Some ts" using s by (force simp: GetAllPublishers_def dom_gomap [symmetric])
    then show ?thesis using d(2) by (simp add: GetPublisherTracks_def session_tracks_def)
  qed
  moreover have "mt_subscribers (sf_heap r ! i) = []" if "i < length (sf_heap r)" "mt_closed (sf_heap r ! i)" for i
    using d(7) [OF that(1)] that(2) by (simp add: track_ok_def)
  ultimately show ?thesis using d(3,5,6) by (intro conjI) blast+
qed

definition demo_remote :: "string \<Rightarrow> remote_track" where "demo_remote t = \<lparr>rt_ID = t, rt_Kind = ''video'', rt_Codec = ''video/VP8''\<rparr>"

theorem sfu_tables_are_consistent_witness:
  "mt_subscribers (sf_heap (RemoveTrack ''p'' ''v'' (snd (CreateLocalTrackForSubscriber None ''x'' 0
       (snd (AddTrack ''p'' (demo_remote ''v'') NewSFURouter))))) ! 0) = []"
proof -
  let ?r1 = "snd (AddTrack ''p'' (demo_remote ''v'') NewSFURouter)"
  let ?r2 = "snd (CreateLocalTrackForSubscriber None ''x'' 0 ?r1)"
  have "sfu_step ?r1 ?r2" by (rule sfu_step.create) (simp add: AddTrack_def NewSFURouter_def Let_def)
  then have "sfu_reach (RemoveTrack ''p'' ''v'' ?r2)"
    by (intro sfu_reach.step [OF sfu_reach.step [OF sfu_reach.step [OF sfu_reach.init sfu_step.add]] sfu_step.remove])
  moreover have "0 < length (sf_heap (RemoveTrack ''p'' ''v'' ?r2)) \<and> mt_closed (sf_heap (RemoveTrack ''p'' ''v'' ?r2) ! 0)"
    by (simp add: RemoveTrack_def CreateLocalTrackForSubscriber_def AddTrack_def NewSFURouter_def Let_def gomap_put_def session_tracks_def
        demo_remote_def track_at_def MediaTrack_Close_def AddSubscriber_def NewMediaTrack_def)
  ultimately show ?thesis using sfu_tables_are_consistent by blast
qed

text \<open>
  C38: subscribing to a publisher and unsubscribing is a round trip. In between, every packet of an open track of the publisher goes to the local tracks
  of before and to exactly one new one; afterwards all tracks have the subscribers of before, the table of tracks is that of before, and every
  session has its subscriptions of before. The hypotheses: the router is in a state that it can reach, a local track can be made for each of the publisher's
  tracks, and the session was not yet a subscriber of the publisher's tracks and had no subscription with one of their IDs.
\<close>

theorem sfu_subscribe_unsubscribe_roundtrip:
  assumes "sfu_reach r" and "sfu_Subscribe x p r = (refs, r1)" and "sfu_create_all (\<lambda>i. None) x refs r1 = (added, r2)"
    and fresh: "\<forall>t\<in>fst ` set (session_tracks r p). t \<notin> set (case map_of (sf_subscriptions r) x of None \<Rightarrow> [] | Some ts \<Rightarrow> ts)"
      "\<forall>i\<in>snd ` set (session_tracks r p). x \<notin> fst ` set (mt_subscribers (sf_heap r ! i))"
  shows "added = length (session_tracks r p)
     \<and> (\<forall>i\<in>snd ` set (session_tracks r p). \<not> mt_closed (sf_heap r ! i) \<longrightarrow>
          (\<exists>lt. fst (snd (forwardRTP_turn (Inr packet) (sf_heap r2 ! i))) = fst (snd (forwardRTP_turn (Inr packet) (sf_heap r ! i))) @ [(lt, packet)]))
     \<and> sf_heap (sfu_Unsubscribe x p r2) = sf_heap r \<and> sf_tracks (sfu_Unsubscribe x p r2) = sf_tracks r
     \<and> map_of (sf_subscriptions (sfu_Unsubscribe x p r2)) = map_of (sf_subscriptions r)"
proof -
  note ok = sfu_reach_ok [OF assms(1)]
  note d = sfu_okD [OF ok] and S = Subscribe_fields [of x p r, unfolded assms(2), simplified]
  let ?T = "session_tracks r p" and ?old = "case map_of (sf_subscriptions r) x of None \<Rightarrow> [] | Some ts \<Rightarrow> ts"
  have refs: "refs = map snd ?T" "distinct refs" "set refs = snd ` set ?T" using S(4) session_refs(1) [OF ok, of p] by auto
  have C: "sf_tracks r2 = sf_tracks r" "sf_subscriptions r2 = sf_subscriptions r1" "length (sf_heap r2) = length (sf_heap r)" "added = length ?T"
    using create_all_fields [of "\<lambda>i. None" x refs r1] assms(3) S(1,2) refs(1) by simp_all
  have heap: "sf_heap r2 ! j = (if j \<in> set refs then AddSubscriber x (sf_locals r1 + length (takeWhile (\<lambda>i. i \<noteq> j) refs)) (sf_heap r ! j) else sf_heap r ! j)"
    if "j < length (sf_heap r)" for j using create_all_heap [of refs j r1 x] assms(3) S(2) refs(2) that by simp
  have tr: "track_of r2 = track_of r" by (rule tables_decide_track_of) (rule C)
  have subs: "map_of (sf_subscriptions r2) = (if ?T = [] then map_of (sf_subscriptions r) else (map_of (sf_subscriptions r))(x \<mapsto> ?old @ map fst ?T))"
    by (simp add: C(2) S(5) map_of_recorded)
  have own: "i \<in> snd ` set ?T \<longleftrightarrow> (\<exists>t. track_of r p t = Some i)" for i using session_refs(2) [OF ok] .
  have one: "\<exists>lt. fst (snd (forwardRTP_turn (Inr packet) (sf_heap r2 ! i))) = fst (snd (forwardRTP_turn (Inr packet) (sf_heap r ! i))) @ [(lt, packet)]"
    if i: "i \<in> snd ` set ?T" "\<not> mt_closed (sf_heap r ! i)" for i
  proof -
    obtain t where "track_of r p t = Some i" using i(1) own by blast
    then have "i < length (sf_heap r)" using d(3) by blast
    then have "sf_heap r2 ! i = AddSubscriber x (sf_locals r1 + length (takeWhile (\<lambda>j. j \<noteq> i) refs)) (sf_heap r ! i)" using heap i(1) refs(3) by simp
    moreover have "x \<notin> fst ` set (mt_subscribers (sf_heap r ! i))" using fresh(2) i(1) by blast
    ultimately show ?thesis using i(2) by (simp add: AddSubscriber_def forwardRTP_turn_def gomap_put_absent)
  qed
  have "sf_heap (sfu_Unsubscribe x p r2) = sf_heap r \<and> sf_tracks (sfu_Unsubscribe x p r2) = sf_tracks r
     \<and> map_of (sf_subscriptions (sfu_Unsubscribe x p r2)) = map_of (sf_subscriptions r)"
    by (rule unsubscribe_restores [OF ok C(1,3) subs heap [unfolded refs(3)] fresh])
  then show ?thesis using C(4) one by blast
qed


theorem sfu_subscribe_unsubscribe_roundtrip_witness:
  "sf_heap (sfu_Unsubscribe ''x'' ''p'' (snd (sfu_create_all (\<lambda>i. None) ''x'' (fst (sfu_Subscribe ''x'' ''p'' (snd (AddTrack ''p'' (demo_remote ''v'') NewSFURouter))))
       (snd (sfu_Subscribe ''x'' ''p'' (snd (AddTrack ''p'' (demo_remote ''v'') NewSFURouter))))))) = [NewMediaTrack ''p'' (demo_remote ''v'')]"
proof -
  let ?r = "snd (AddTrack ''p'' (demo_remote ''v'') NewSFURouter)"
  have reach: "sfu_reach ?r" by (rule sfu_reach.step [OF sfu_reach.init sfu_step.add])
  obtain refs r1 where s: "sfu_Subscribe ''x'' ''p'' ?r = (refs, r1)" by (rule prod.exhaust)
  obtain added r2 where c: "sfu_create_all (\<lambda>i. None) ''x'' refs r1 = (added, r2)" by (rule prod.exhaust)
  have f: "session_tracks ?r ''p'' = [(''v'', 0)]" "sf_subscriptions ?r = []" "sf_heap ?r = [NewMediaTrack ''p'' (demo_remote ''v'')]"
    by (simp_all add: session_tracks_def AddTrack_def NewSFURouter_def Let_def gomap_put_def demo_remote_def)
  have "sf_heap (sfu_Unsubscribe ''x'' ''p'' r2) = sf_heap ?r"
    using sfu_subscribe_unsubscribe_roundtrip [OF reach s c] f by (simp add: NewMediaTrack_def)
  then show ?thesis using s c f(3) by simp
qed

text \<open>
  A session that leaves is not removed from the tracks it subscribes to: \<open>RemoveSessionTracks\<close> forgets its subscriptions, but packets of every track of
  another session are still written to the local tracks of the departed session, and \<open>Unsubscribe\<close>, which looks into the
  subscriptions first, can no longer stop that.
\<close>

theorem sfu_departed_subscriber_still_gets_packets:
  assumes "sfu_reach r" and "i < length (sf_heap r)" and "mt_sessionID (sf_heap r ! i) \<noteq> x"
  shows "fst (snd (forwardRTP_turn rd (sf_heap (sfu_Unsubscribe x p (RemoveSessionTracks x r)) ! i))) = fst (snd (forwardRTP_turn rd (sf_heap r ! i)))"
proof -
  note d = sfu_okD [OF sfu_reach_ok [OF assms(1)]]
  have "i \<notin> snd ` set ts" if "map_of (sf_tracks r) x = Some ts" for ts
    using session_refs(2) [OF sfu_reach_ok [OF assms(1)], of i x] that d(3) assms(3) by (fastforce simp: session_tracks_def)
  then have "sf_heap (RemoveSessionTracks x r) ! i = sf_heap r ! i"
  proof (cases "map_of (sf_tracks r) x")
    case (Some ts)
    then show ?thesis using heap_close [OF assms(2), of ts] \<open>\<And>ts. map_of (sf_tracks r) x = Some ts \<Longrightarrow> i \<notin> snd ` set ts\<close>
      by (simp add: RemoveSessionTracks_def Let_def)
  qed (simp add: RemoveSessionTracks_def Let_def)
  moreover have "map_of (sf_subscriptions (RemoveSessionTracks x r)) x = None" by (simp add: RemoveSessionTracks_def Let_def)
  ultimately show ?thesis by (simp add: sfu_Unsubscribe_def)
qed

theorem sfu_departed_subscriber_still_gets_packets_witness:
  "fst (snd (forwardRTP_turn (Inr ''rtp'') (sf_heap (sfu_Unsubscribe ''x'' ''p'' (RemoveSessionTracks ''x''
       (snd (CreateLocalTrackForSubscriber None ''x'' 0 (snd (AddTrack ''p'' (demo_remote ''v'') NewSFURouter)))))) ! 0))) = [(0, ''rtp'')]"
proof -
  let ?base = "snd (AddTrack ''p'' (demo_remote ''v'') NewSFURouter)"
  let ?r = "snd (CreateLocalTrackForSubscriber None ''x'' 0 ?base)"
  have h: "sf_heap ?base = [NewMediaTrack ''p'' (demo_remote ''v'')]" "sf_locals ?base = 0" by (simp_all add: AddTrack_def NewSFURouter_def Let_def)
  then have f: "sf_heap ?r = [AddSubscriber ''x'' 0 (NewMediaTrack ''p'' (demo_remote ''v''))]"
    by (simp add: CreateLocalTrackForSubscriber_def track_at_def)
  have "sfu_reach ?r" by (rule sfu_reach.step [OF sfu_reach.step [OF sfu_reach.init sfu_step.add] sfu_step.create]) (simp add: h)
  from sfu_departed_subscriber_still_gets_packets [OF this, of 0 "''x''" "Inr ''rtp''" "''p''"] show ?thesis
    by (simp add: f forwardRTP_turn_def AddSubscriber_def NewMediaTrack_def gomap_put_def)
qed

text \<open>
  Subscriptions are recorded by the ID of a track without its publisher. When two sessions publish a track with the same ID, the removal of one drops the
  record of the other: a subscriber with that record only goes on getting the packets of the other track, and \<open>Unsubscribe\<close> does nothing.
\<close>

theorem sfu_equal_track_ids_collide:
  assumes "sfu_reach r" and "track_of r p t = Some i" and "track_of r q t = Some j" and "p \<noteq> q" and "map_of (sf_subscriptions r) x = Some [t]"
  shows "map_of (sf_subscriptions (RemoveTrack p t r)) x = None \<and> track_of (RemoveTrack p t r) q t = Some j
     \<and> sf_heap (sfu_Unsubscribe x q (RemoveTrack p t r)) ! j = sf_heap r ! j"
proof -
  note d = sfu_okD [OF sfu_reach_ok [OF assms(1)]]
  obtain ts where ts: "map_of (sf_tracks r) p = Some ts" "map_of ts t = Some i"
    using assms(2) by (auto simp: track_of_def session_tracks_def split: option.splits)
  have f: "sf_subscriptions (RemoveTrack p t r) = clean_all (\<lambda>tid. tid \<noteq> t) (sf_subscriptions r)" "sf_heap (RemoveTrack p t r) = sf_heap (track_at MediaTrack_Close i r)"
    using ts by (simp_all add: RemoveTrack_def Let_def)
  have gone: "map_of (sf_subscriptions (RemoveTrack p t r)) x = None" using assms(5) by (simp add: f map_of_clean_all [OF d(4)])
  moreover have "sf_heap (RemoveTrack p t r) ! j = sf_heap r ! j" using d(3) [OF assms(2)] d(3) [OF assms(3)] assms(4) by (auto simp: f)
  ultimately show ?thesis using assms(3,4) by (simp add: track_of_RemoveTrack sfu_Unsubscribe_def)
qed

theorem sfu_equal_track_ids_collide_witness:
  "map_of (sf_subscriptions (RemoveTrack ''p'' ''v'' (snd (sfu_Subscribe ''x'' ''q'' (snd (AddTrack ''q'' (demo_remote ''v'')
       (snd (AddTrack ''p'' (demo_remote ''v'') NewSFURouter)))))))) ''x'' = None"
proof -
  let ?base = "snd (AddTrack ''q'' (demo_remote ''v'') (snd (AddTrack ''p'' (demo_remote ''v'') NewSFURouter)))"
  let ?r = "snd (sfu_Subscribe ''x'' ''q'' ?base)"
  have reach: "sfu_reach ?r"
    by (rule sfu_reach.step [OF sfu_reach.step [OF sfu_reach.step [OF sfu_reach.init sfu_step.add] sfu_step.add] sfu_step.subscribe])
  have t: "track_of ?r ''p'' ''v'' = Some 0" "track_of ?r ''q'' ''v'' = Some 1"
    by (simp_all add: Subscribe_fields track_of_AddTrack demo_remote_def) (simp_all add: AddTrack_def NewSFURouter_def Let_def)
  have q: "session_tracks ?base ''q'' = [(''v'', 1)]" "sf_subscriptions ?base = []"
    by (simp_all add: session_tracks_def AddTrack_def NewSFURouter_def Let_def gomap_put_def demo_remote_def)
  have "map_of (sf_subscriptions ?r) ''x'' = Some [''v'']" unfolding Subscribe_fields map_of_recorded q by simp
  from sfu_equal_track_ids_collide [OF reach t _ this] show ?thesis by simp
qed

end
