(* ===== verification/Webrtc_Server.thy ===== *)
theory Webrtc_Server
  imports Webrtc_Session Ws_Server Sfu_Router
begin

text \<open>
  The WebRTC transport: \<open>transport/webrtc/server.go\<close>, \<open>server_options.go\<close>, \<open>signaling.go\<close>, \<open>message.go\<close>, \<open>types.go\<close>, \<open>session_manager.go\<close>. The packets are those of the
  websocket transport; the session is the one of \<open>Webrtc_Session\<close>, whose field \<open>r_table\<close> is its entry in the table, and the media router is
  \<open>Sfu_Router\<close>. The WebRTC library is the environment: what its calls return is in the record \<open>pc_ops\<close>, and the calls a handler makes on a peer
  connection are listed in its result.
\<close>

section \<open>Signaling\<close>

text \<open>The type of a session description is 0 when it was not given.\<close>

record sdp =
  sd_Type :: nat
  sd_SDP :: string

text \<open>The two built-in messages; their field \<open>Type\<close> is a constant, which the codec parameters below write.\<close>

record reneg =
  rn_SessionID :: string
  rn_Offer :: "sdp option"
  rn_Answer :: "sdp option"

record track_msg =
  tm_PublisherID :: string
  tm_TrackID :: string
  tm_Kind :: string
  tm_Codec :: string

record signal_request =
  sq_Offer :: "sdp option"
  sq_Candidate :: "string option"

text \<open>\<open>re_reneg\<close>, \<open>re_unreneg\<close> and \<open>re_track\<close> are what the server's codec does with the two built-in messages.\<close>

record rtc_env =
  re_ws :: ws_env
  re_reneg :: "reneg \<Rightarrow> error + bytes"
  re_unreneg :: "bytes \<Rightarrow> error + reneg"
  re_track :: "track_msg \<Rightarrow> error + bytes"

record pc_ops =
  po_SetRemote :: "sdp \<Rightarrow> error option"
  po_CreateAnswer :: "error + sdp"
  po_CreateOffer :: "error + sdp"
  po_SetLocal :: "sdp \<Rightarrow> error option"
  po_Local :: "sdp option"

datatype pc_call = PcSetRemote sdp | PcCreateAnswer | PcCreateOffer | PcSetLocal sdp

definition MsgTypeSignalRenegotiation :: "32 word" where "MsgTypeSignalRenegotiation = 0x10001"

definition MsgTypeSignalTrackAvailable :: "32 word" where "MsgTypeSignalTrackAvailable = 0x10002"

text \<open>
  \<open>decodeSignalRequest\<close>: \<open>rd\<close> is what reading the body gives, \<open>None\<close> a request without one; \<open>w\<close> and \<open>d\<close> are what \<open>encoding/json\<close> makes of it as a
  wrapped request and as a description.
\<close>

definition decodeSignalRequest ::
    "(error + bytes) option \<Rightarrow> (bytes \<Rightarrow> error + signal_request) \<Rightarrow> (bytes \<Rightarrow> error + sdp) \<Rightarrow> error + sdp" where
  "decodeSignalRequest rd w d =
     (case rd of
        None \<Rightarrow> Inl (ErrNew ''empty request body'')
      | Some (Inl e) \<Rightarrow> Inl e
      | Some (Inr body) \<Rightarrow>
          if length body = 0 then Inl (ErrNew ''empty request body'')
          else (case (case w body of Inl e \<Rightarrow> None | Inr q \<Rightarrow> sq_Offer q) of
                  Some off \<Rightarrow> if sd_Type off = 0 \<or> sd_SDP off = '''' then Inl (ErrNew ''invalid offer'') else Inr off
                | None \<Rightarrow>
                    (case d body of
                       Inl e \<Rightarrow> Inl e
                     | Inr off \<Rightarrow> if sd_Type off = 0 \<or> sd_SDP off = '''' then Inl (ErrNew ''invalid offer'') else Inr off)))"

section \<open>State\<close>

text \<open>A registered handler: the built-in one for renegotiation, or one of the user.\<close>

datatype 'st rtc_handler = BuiltinRenegotiation | UserHandler "'st MessageHandlerData"

record rtc_request =
  rq_Method :: string
  rq_Origin :: string
  rq_Authorization :: string
  rq_Query :: queries
  rq_Body :: "error + bytes"
  rq_Json :: "bytes \<Rightarrow> error + signal_request"

record 'st rtc_server =
  rv_http :: http_state
  rv_lis :: "listener option"
  rv_endpoint :: "(url \<times> string) option"
  rv_network :: string
  rv_address :: string
  rv_path :: string
  rv_strictSlash :: bool
  rv_injectToken :: bool
  rv_tokenKey :: string
  rv_checkOrigin :: "(rtc_request \<Rightarrow> bool) option"
  rv_enableCORS :: bool
  rv_corsAllowOrigin :: string
  rv_corsAllowMethods :: string
  rv_corsAllowHeaders :: string
  rv_err :: "error option"
  rv_codec :: "codec option"
  rv_dataChannelLabel :: string
  rv_allowAnyDataLabel :: bool
  rv_sessions :: "(string, rsession) gomap"
  rv_sfuRouter :: sfu
  rv_payloadType :: payload_type
  rv_messageHandlers :: "(32 word, 'st rtc_handler) gomap"
  rv_netPacketMarshaler :: "(32 word \<Rightarrow> dyn \<Rightarrow> error + bytes) hook option"
  rv_netPacketUnmarshaler :: "(bytes \<Rightarrow> error + 'st MessageHandlerData \<times> dyn) hook option"
  rv_socketConnectHandler :: "(string \<Rightarrow> queries \<Rightarrow> bool \<Rightarrow> 'st \<Rightarrow> 'st) option"
  rv_socketRawDataHandler :: "(string \<Rightarrow> bytes \<Rightarrow> 'st \<Rightarrow> error option \<times> 'st) hook option"
  rv_running :: bool
  rv_app :: 'st

section \<open>Options and construction\<close>

type_synonym 'st rtc_option = "'st rtc_server \<Rightarrow> 'st rtc_server"

definition rtc_WithNetwork :: "string \<Rightarrow> 'st rtc_option" where
  "rtc_WithNetwork network s = (if network \<noteq> '''' then s\<lparr>rv_network := network\<rparr> else s)"

definition rtc_WithAddress :: "string \<Rightarrow> 'st rtc_option" where
  "rtc_WithAddress addr s = (if addr \<noteq> '''' then s\<lparr>rv_address := addr\<rparr> else s)"

definition rtc_WithStrictSlash :: "bool \<Rightarrow> 'st rtc_option" where
  "rtc_WithStrictSlash b s = s\<lparr>rv_strictSlash := b\<rparr>"

definition rtc_WithPath :: "string \<Rightarrow> 'st rtc_option" where
  "rtc_WithPath path s = (if path \<noteq> '''' then s\<lparr>rv_path := path\<rparr> else s)"

definition rtc_WithListener :: "listener option \<Rightarrow> 'st rtc_option" where
  "rtc_WithListener lis s = s\<lparr>rv_lis := lis\<rparr>"

definition rtc_WithCodec :: "rtc_env \<Rightarrow> string \<Rightarrow> 'st rtc_option" where
  "rtc_WithCodec env c s = (if c \<noteq> '''' then s\<lparr>rv_codec := we_GetCodec (re_ws env) c\<rparr> else s)"

definition rtc_WithCheckOrigin :: "string \<Rightarrow> 'st rtc_option" where
  "rtc_WithCheckOrigin domain s = s\<lparr>rv_checkOrigin := Some (\<lambda>r. rq_Origin r = domain)\<rparr>"

definition rtc_WithCheckOriginFunc :: "(rtc_request \<Rightarrow> bool) option \<Rightarrow> 'st rtc_option" where
  "rtc_WithCheckOriginFunc fn s = (case fn of None \<Rightarrow> s | Some f \<Rightarrow> s\<lparr>rv_checkOrigin := Some f\<rparr>)"

definition rtc_WithEnableCORS :: "bool \<Rightarrow> 'st rtc_option" where
  "rtc_WithEnableCORS enable s = s\<lparr>rv_enableCORS := enable\<rparr>"

definition rtc_WithCORS :: "string \<Rightarrow> string \<Rightarrow> string \<Rightarrow> 'st rtc_option" where
  "rtc_WithCORS allowOrigin allowMethods allowHeaders s =
     (let s1 = (if allowOrigin \<noteq> '''' then s\<lparr>rv_corsAllowOrigin := allowOrigin\<rparr> else s);
          s2 = (if allowMethods \<noteq> '''' then s1\<lparr>rv_corsAllowMethods := allowMethods\<rparr> else s1)
      in if allowHeaders \<noteq> '''' then s2\<lparr>rv_corsAllowHeaders := allowHeaders\<rparr> else s2)"

definition rtc_WithPayloadType :: "payload_type \<Rightarrow> 'st rtc_option" where
  "rtc_WithPayloadType pt s = s\<lparr>rv_payloadType := pt\<rparr>"

definition rtc_WithInjectTokenToQuery :: "bool \<Rightarrow> string \<Rightarrow> 'st rtc_option" where
  "rtc_WithInjectTokenToQuery enable key s = s\<lparr>rv_injectToken := enable, rv_tokenKey := key\<rparr>"

definition rtc_WithMessageMarshaler :: "(32 word \<Rightarrow> dyn \<Rightarrow> error + bytes) option \<Rightarrow> 'st rtc_option" where
  "rtc_WithMessageMarshaler m s = s\<lparr>rv_netPacketMarshaler := map_option CustomHook m\<rparr>"

definition rtc_WithMessageUnmarshaler :: "(bytes \<Rightarrow> error + 'st MessageHandlerData \<times> dyn) option \<Rightarrow> 'st rtc_option" where
  "rtc_WithMessageUnmarshaler m s = s\<lparr>rv_netPacketUnmarshaler := map_option CustomHook m\<rparr>"

definition rtc_WithSocketConnectHandler :: "(string \<Rightarrow> queries \<Rightarrow> bool \<Rightarrow> 'st \<Rightarrow> 'st) option \<Rightarrow> 'st rtc_option" where
  "rtc_WithSocketConnectHandler h s = s\<lparr>rv_socketConnectHandler := h\<rparr>"

definition rtc_WithSocketRawDataHandler :: "(string \<Rightarrow> bytes \<Rightarrow> 'st \<Rightarrow> error option \<times> 'st) option \<Rightarrow> 'st rtc_option" where
  "rtc_WithSocketRawDataHandler h s = (case h of None \<Rightarrow> s | Some f \<Rightarrow> s\<lparr>rv_socketRawDataHandler := Some (CustomHook f)\<rparr>)"

definition rtc_WithDataChannelLabel :: "string \<Rightarrow> 'st rtc_option" where
  "rtc_WithDataChannelLabel label s = s\<lparr>rv_dataChannelLabel := label\<rparr>"

definition rtc_WithAllowAnyDataChannelLabel :: "bool \<Rightarrow> 'st rtc_option" where
  "rtc_WithAllowAnyDataChannelLabel allow s = s\<lparr>rv_allowAnyDataLabel := allow\<rparr>"

definition rtc_register :: "32 word \<Rightarrow> 'st rtc_handler \<Rightarrow> 'st rtc_server \<Rightarrow> 'st rtc_server" where
  "rtc_register messageType h s =
     (if map_of (rv_messageHandlers s) messageType \<noteq> None then s
      else s\<lparr>rv_messageHandlers := gomap_put messageType h (rv_messageHandlers s)\<rparr>)"

definition rtc_RegisterMessageHandler ::
    "32 word \<Rightarrow> (string \<Rightarrow> dyn \<Rightarrow> 'st \<Rightarrow> error option \<times> 'st) option \<Rightarrow> (unit \<Rightarrow> dyn) option \<Rightarrow> 'st rtc_server \<Rightarrow> 'st rtc_server" where
  "rtc_RegisterMessageHandler messageType handler binder = rtc_register messageType (UserHandler \<lparr>md_Handler = handler, md_Creator = binder\<rparr>)"

definition rtc_RegisterServerMessageHandler ::
    "gotype \<Rightarrow> dyn \<Rightarrow> 32 word \<Rightarrow> (string \<Rightarrow> dyn \<Rightarrow> 'st \<Rightarrow> error option \<times> 'st) \<Rightarrow> 'st rtc_server \<Rightarrow> 'st rtc_server" where
  "rtc_RegisterServerMessageHandler t zero messageType handler =
     rtc_RegisterMessageHandler messageType (Some (typed_handler t handler)) (Some (\<lambda>_. DPtr t (Some zero)))"

definition rtc_DeregisterMessageHandler :: "32 word \<Rightarrow> 'st rtc_server \<Rightarrow> 'st rtc_server" where
  "rtc_DeregisterMessageHandler messageType s = s\<lparr>rv_messageHandlers := gomap_delete messageType (rv_messageHandlers s)\<rparr>"

definition rtc_rebuildHTTPServer :: "'st rtc_server \<Rightarrow> 'st rtc_server" where
  "rtc_rebuildHTTPServer s = s\<lparr>rv_http := HttpNew\<rparr>"

definition rtc_init :: "rtc_env \<Rightarrow> 'st rtc_option list \<Rightarrow> 'st rtc_server \<Rightarrow> 'st rtc_server" where
  "rtc_init env opts s =
     (let s0 = rtc_rebuildHTTPServer (fold (\<lambda>opt s. opt s) opts (rtc_register MsgTypeSignalRenegotiation BuiltinRenegotiation s));
          s1 = (if rv_netPacketMarshaler s0 = None then s0\<lparr>rv_netPacketMarshaler := Some DefaultHook\<rparr> else s0);
          s2 = (if rv_netPacketUnmarshaler s1 = None then s1\<lparr>rv_netPacketUnmarshaler := Some DefaultHook\<rparr> else s1);
          s3 = (if rv_socketRawDataHandler s2 = None then s2\<lparr>rv_socketRawDataHandler := Some DefaultHook\<rparr> else s2)
      in if rv_codec s3 = None
         then (let s4 = s3\<lparr>rv_codec := we_GetCodec (re_ws env) ''json''\<rparr>
               in if rv_codec s4 = None then s4\<lparr>rv_codec := we_GetCodec (re_ws env) ''bytes''\<rparr> else s4)
         else s3)"

definition rtc_NewServer :: "rtc_env \<Rightarrow> 'st rtc_option list \<Rightarrow> 'st \<Rightarrow> 'st rtc_server" where
  "rtc_NewServer env opts app =
     rtc_init env opts
       \<lparr>rv_http = HttpNew, rv_lis = None, rv_endpoint = None, rv_network = ''tcp'', rv_address = '':0'', rv_path = ''/signal'', rv_strictSlash = True,
        rv_injectToken = True, rv_tokenKey = ''token'', rv_checkOrigin = Some (\<lambda>_. True), rv_enableCORS = True, rv_corsAllowOrigin = ''*'',
        rv_corsAllowMethods = ''POST, OPTIONS'', rv_corsAllowHeaders = ''Content-Type, Authorization'', rv_err = None, rv_codec = None,
        rv_dataChannelLabel = ''kratos'', rv_allowAnyDataLabel = True, rv_sessions = [], rv_sfuRouter = NewSFURouter,
        rv_payloadType = PayloadTypeBinary, rv_messageHandlers = [], rv_netPacketMarshaler = None, rv_netPacketUnmarshaler = None,
        rv_socketConnectHandler = None, rv_socketRawDataHandler = None, rv_running = False, rv_app = app\<rparr>"


section \<open>The table of sessions\<close>

definition rtc_getSession :: "'st rtc_server \<Rightarrow> string \<Rightarrow> rsession option" where
  "rtc_getSession s i = (case map_of (rv_sessions s) i of None \<Rightarrow> None | Some sess \<Rightarrow> if r_table sess then Some sess else None)"

definition rtc_snapshot :: "'st rtc_server \<Rightarrow> string list" where
  "rtc_snapshot s = map fst (filter (\<lambda>(i, sess). r_table sess) (rv_sessions s))"

definition rtc_count :: "'st rtc_server \<Rightarrow> nat" where
  "rtc_count s = length (rtc_snapshot s)"

definition rtc_session_at :: "(rsession \<Rightarrow> rsession) \<Rightarrow> string \<Rightarrow> 'st rtc_server \<Rightarrow> 'st rtc_server" where
  "rtc_session_at f i s =
     (case map_of (rv_sessions s) i of None \<Rightarrow> s | Some sess \<Rightarrow> s\<lparr>rv_sessions := gomap_put i (f sess) (rv_sessions s)\<rparr>)"

definition rtc_queries :: "'st rtc_server \<Rightarrow> string \<Rightarrow> queries" where
  "rtc_queries s i = (case map_of (rv_sessions s) i of None \<Rightarrow> [] | Some sess \<Rightarrow> r_queries sess)"

definition rtc_OnSessionAdded :: "string \<Rightarrow> 'st rtc_server \<Rightarrow> 'st rtc_server" where
  "rtc_OnSessionAdded i s =
     (case rv_socketConnectHandler s of None \<Rightarrow> s | Some f \<Rightarrow> s\<lparr>rv_app := f i (rtc_queries s i) True (rv_app s)\<rparr>)"

definition rtc_OnSessionRemoved :: "string \<Rightarrow> 'st rtc_server \<Rightarrow> 'st rtc_server" where
  "rtc_OnSessionRemoved i s =
     (let s1 = (case rv_socketConnectHandler s of None \<Rightarrow> s | Some f \<Rightarrow> s\<lparr>rv_app := f i (rtc_queries s i) False (rv_app s)\<rparr>)
      in s1\<lparr>rv_sfuRouter := RemoveSessionTracks i (rv_sfuRouter s1)\<rparr>)"

text \<open>\<open>addSession\<close> and \<open>Close\<close> of a session that the server made, without interruption; \<open>Webrtc_Session\<close> has their steps.\<close>

definition rtc_addSession :: "string \<Rightarrow> 'st rtc_server \<Rightarrow> 'st rtc_server" where
  "rtc_addSession i s =
     (case map_of (rv_sessions s) i of
        None \<Rightarrow> s
      | Some sess \<Rightarrow>
          if rtc_IsClosed sess \<or> r_table sess then s else rtc_OnSessionAdded i (rtc_session_at rtc_enter i s))"

definition rtc_closeSession :: "string \<Rightarrow> 'st rtc_server \<Rightarrow> 'st rtc_server" where
  "rtc_closeSession i s =
     (case map_of (rv_sessions s) i of
        None \<Rightarrow> s
      | Some sess \<Rightarrow>
          (let s1 = rtc_session_at rtc_Close i s
           in if r_stage sess \<noteq> Finished \<and> r_table sess then rtc_OnSessionRemoved i s1 else s1))"

text \<open>\<open>closeAllAndWait\<close>: the sessions whose \<open>Wait\<close> it calls are those of a second snapshot.\<close>

definition rtc_closeAllAndWait :: "'st rtc_server \<Rightarrow> string list \<times> 'st rtc_server" where
  "rtc_closeAllAndWait s = (let s1 = fold rtc_closeSession (rtc_snapshot s) s in (rtc_snapshot s1, s1))"

section \<open>Messages\<close>

definition rtc_defaultMarshalNetPacket :: "rtc_env \<Rightarrow> codec option \<Rightarrow> payload_type \<Rightarrow> 32 word \<Rightarrow> dyn \<Rightarrow> error + bytes" where
  "rtc_defaultMarshalNetPacket env cod pt messageType message =
     (if pt = PayloadTypeOther then Inl (ErrNew ''unsupported payload type'')
      else (case Marshal (we_gob (re_ws env)) cod message of Inl e \<Rightarrow> Inl e | Inr payload \<Rightarrow> ws_packet (re_ws env) pt messageType payload))"

definition rtc_marshalMessage :: "rtc_env \<Rightarrow> 'st rtc_server \<Rightarrow> 32 word \<Rightarrow> dyn \<Rightarrow> error + bytes" where
  "rtc_marshalMessage env s messageType message =
     (case rv_netPacketMarshaler s of
        Some (CustomHook f) \<Rightarrow> f messageType message
      | _ \<Rightarrow> rtc_defaultMarshalNetPacket env (rv_codec s) (rv_payloadType s) messageType message)"

definition rtc_SendRawMessage :: "(rsession \<Rightarrow> send_outcome) \<Rightarrow> string \<Rightarrow> bytes \<Rightarrow> 'st rtc_server \<Rightarrow> error option \<times> 'st rtc_server" where
  "rtc_SendRawMessage oc sessionId message s =
     (case rtc_getSession s sessionId of
        None \<Rightarrow> (Some (ErrNew ''session not found''), s)
      | Some sess \<Rightarrow> (None, rtc_session_at (\<lambda>x. rtc_SendMessage (oc x) message x) sessionId s))"

definition rtc_Server_SendMessage ::
    "rtc_env \<Rightarrow> (rsession \<Rightarrow> send_outcome) \<Rightarrow> string \<Rightarrow> 32 word \<Rightarrow> dyn \<Rightarrow> 'st rtc_server \<Rightarrow> error option \<times> 'st rtc_server" where
  "rtc_Server_SendMessage env oc sessionId messageType message s =
     (case rtc_marshalMessage env s messageType message of Inl e \<Rightarrow> (Some e, s) | Inr buf \<Rightarrow> rtc_SendRawMessage oc sessionId buf s)"

definition rtc_Broadcast :: "rtc_env \<Rightarrow> (rsession \<Rightarrow> send_outcome) \<Rightarrow> 32 word \<Rightarrow> dyn \<Rightarrow> 'st rtc_server \<Rightarrow> 'st rtc_server" where
  "rtc_Broadcast env oc messageType message s =
     (case rtc_marshalMessage env s messageType message of
        Inl e \<Rightarrow> s
      | Inr buf \<Rightarrow> fold (rtc_session_at (\<lambda>x. rtc_SendMessage (oc x) buf x)) (rtc_snapshot s) s)"

text \<open>The packets of the built-in messages are always binary.\<close>

definition rtc_binary_packet :: "32 word \<Rightarrow> bytes \<Rightarrow> error + bytes" where
  "rtc_binary_packet messageType payload = NetPacket_Marshal LittleEndian \<lparr>np_Type = messageType, np_Payload = payload\<rparr>"

definition rtc_broadcastTrackAvailable :: "rtc_env \<Rightarrow> (rsession \<Rightarrow> send_outcome) \<Rightarrow> string \<Rightarrow> media_track \<Rightarrow> 'st rtc_server \<Rightarrow> 'st rtc_server" where
  "rtc_broadcastTrackAvailable env oc publisherID track s =
     (case re_track env \<lparr>tm_PublisherID = publisherID, tm_TrackID = mt_id track, tm_Kind = mt_kind track, tm_Codec = mt_codec track\<rparr> of
        Inl e \<Rightarrow> s
      | Inr payload \<Rightarrow>
          (case rtc_binary_packet MsgTypeSignalTrackAvailable payload of
             Inl e \<Rightarrow> s
           | Inr pkt \<Rightarrow> fold (\<lambda>i s. if i \<noteq> publisherID then rtc_session_at (\<lambda>x. rtc_SendMessage (oc x) pkt x) i s else s) (rtc_snapshot s) s))"

section \<open>Renegotiation\<close>

text \<open>\<open>sendRenegotiation\<close>: waiting for the candidates ends by itself or by its timeout.\<close>

definition rtc_sendRenegotiation ::
    "rtc_env \<Rightarrow> pc_ops \<Rightarrow> (rsession \<Rightarrow> send_outcome) \<Rightarrow> string \<Rightarrow> 'st rtc_server \<Rightarrow> error option \<times> pc_call list \<times> 'st rtc_server" where
  "rtc_sendRenegotiation env ops oc i s =
     (case po_CreateOffer ops of
        Inl e \<Rightarrow> (Some e, [PcCreateOffer], s)
      | Inr offer \<Rightarrow>
          (case po_SetLocal ops offer of
             Some e \<Rightarrow> (Some e, [PcCreateOffer, PcSetLocal offer], s)
           | None \<Rightarrow>
               (case po_Local ops of
                  None \<Rightarrow> (Some (ErrNew ''local description is nil''), [PcCreateOffer, PcSetLocal offer], s)
                | Some local \<Rightarrow>
                    (case re_reneg env \<lparr>rn_SessionID = i, rn_Offer = Some local, rn_Answer = None\<rparr> of
                       Inl e \<Rightarrow> (Some e, [PcCreateOffer, PcSetLocal offer], s)
                     | Inr payload \<Rightarrow>
                         (case rtc_binary_packet MsgTypeSignalRenegotiation payload of
                            Inl e \<Rightarrow> (Some e, [PcCreateOffer, PcSetLocal offer], s)
                          | Inr pkt \<Rightarrow> (None, [PcCreateOffer, PcSetLocal offer], rtc_session_at (\<lambda>x. rtc_SendMessage (oc x) pkt x) i s))))))"

text \<open>\<open>handleSignalRenegotiation\<close>; \<open>LocalDescription\<close> may be nil here, and then the reply has neither an offer nor an answer.\<close>

definition rtc_handleSignalRenegotiation ::
    "rtc_env \<Rightarrow> pc_ops \<Rightarrow> (rsession \<Rightarrow> send_outcome) \<Rightarrow> string \<Rightarrow> reneg \<Rightarrow> 'st rtc_server \<Rightarrow> error option \<times> pc_call list \<times> 'st rtc_server" where
  "rtc_handleSignalRenegotiation env ops oc i msg s =
     (case rtc_getSession s i of
        None \<Rightarrow> (Some (ErrNew ''session not found''), [], s)
      | Some sess \<Rightarrow>
          if \<not> rtc_PeerConnection sess then (Some (ErrNew ''peer connection not found''), [], s)
          else (case rn_Answer msg of
                  Some answer \<Rightarrow> (po_SetRemote ops answer, [PcSetRemote answer], s)
                | None \<Rightarrow>
                    (case rn_Offer msg of
                       None \<Rightarrow> (None, [], s)
                     | Some offer \<Rightarrow>
                         (case po_SetRemote ops offer of
                            Some e \<Rightarrow> (Some e, [PcSetRemote offer], s)
                          | None \<Rightarrow>
                              (case po_CreateAnswer ops of
                                 Inl e \<Rightarrow> (Some e, [PcSetRemote offer, PcCreateAnswer], s)
                               | Inr answer \<Rightarrow>
                                   (case po_SetLocal ops answer of
                                      Some e \<Rightarrow> (Some e, [PcSetRemote offer, PcCreateAnswer, PcSetLocal answer], s)
                                    | None \<Rightarrow>
                                        (case re_reneg env \<lparr>rn_SessionID = i, rn_Offer = None, rn_Answer = po_Local ops\<rparr> of
                                           Inl e \<Rightarrow> (Some e, [PcSetRemote offer, PcCreateAnswer, PcSetLocal answer], s)
                                         | Inr raw \<Rightarrow>
                                             (case rtc_binary_packet MsgTypeSignalRenegotiation raw of
                                                Inl e \<Rightarrow> (Some e, [PcSetRemote offer, PcCreateAnswer, PcSetLocal answer], s)
                                              | Inr pkt \<Rightarrow>
                                                  (None, [PcSetRemote offer, PcCreateAnswer, PcSetLocal answer],
                                                   rtc_session_at (\<lambda>x. rtc_SendMessage (oc x) pkt x) i s)))))))))"

section \<open>Incoming messages\<close>

datatype 'st rtc_dispatch = DispatchReneg reneg | DispatchUser "'st MessageHandlerData" dyn

definition rtc_any_ptr :: "dyn \<Rightarrow> dyn" where
  "rtc_any_ptr v = DPtr (TNamed ''webrtc.MessagePayload'') (Some v)"

definition rtc_defaultUnmarshalNetPacket :: "rtc_env \<Rightarrow> 'st rtc_server \<Rightarrow> bytes \<Rightarrow> error + 'st rtc_dispatch" where
  "rtc_defaultUnmarshalNetPacket env s buf =
     (case ws_unpacket (re_ws env) (rv_payloadType s) buf of
        Inl e \<Rightarrow> Inl e
      | Inr (messageType, rawPayload) \<Rightarrow>
          (case map_of (rv_messageHandlers s) messageType of
             None \<Rightarrow> Inl (ErrNew ''message handler not found'')
           | Some BuiltinRenegotiation \<Rightarrow> (case re_unreneg env rawPayload of Inl e \<Rightarrow> Inl e | Inr m \<Rightarrow> Inr (DispatchReneg m))
           | Some (UserHandler h) \<Rightarrow>
               (let payload = MessageHandlerData_Create h
                in if payload = DNil then Inr (DispatchUser h (DBytes (Some rawPayload)))
                   else (case Unmarshal (we_gob (re_ws env)) (rv_codec s) (Some rawPayload) (rtc_any_ptr payload) of
                           Inl e \<Rightarrow> Inl e
                         | Inr v \<Rightarrow> Inr (DispatchUser h (any_deref v payload))))))"

definition rtc_unmarshalNetPacket :: "rtc_env \<Rightarrow> 'st rtc_server \<Rightarrow> bytes \<Rightarrow> error + 'st rtc_dispatch" where
  "rtc_unmarshalNetPacket env s buf =
     (case rv_netPacketUnmarshaler s of
        Some (CustomHook f) \<Rightarrow> (case f buf of Inl e \<Rightarrow> Inl e | Inr (h, payload) \<Rightarrow> Inr (DispatchUser h payload))
      | _ \<Rightarrow> rtc_defaultUnmarshalNetPacket env s buf)"

definition rtc_defaultHandleSocketRawData ::
    "rtc_env \<Rightarrow> pc_ops \<Rightarrow> (rsession \<Rightarrow> send_outcome) \<Rightarrow> string \<Rightarrow> bytes \<Rightarrow> 'st rtc_server \<Rightarrow> error option \<times> pc_call list \<times> 'st rtc_server" where
  "rtc_defaultHandleSocketRawData env ops oc sessionId buf s =
     (case rtc_unmarshalNetPacket env s buf of
        Inl e \<Rightarrow> (Some e, [], s)
      | Inr (DispatchReneg m) \<Rightarrow> rtc_handleSignalRenegotiation env ops oc sessionId m s
      | Inr (DispatchUser h payload) \<Rightarrow>
          (case md_Handler h of
             None \<Rightarrow> (Some (GoPanic ''nil handler''), [], s)
           | Some f \<Rightarrow> (let (e, app) = f sessionId payload (rv_app s) in (e, [], s\<lparr>rv_app := app\<rparr>))))"

definition rtc_handleSocketRawData ::
    "rtc_env \<Rightarrow> pc_ops \<Rightarrow> (rsession \<Rightarrow> send_outcome) \<Rightarrow> string \<Rightarrow> bytes \<Rightarrow> 'st rtc_server \<Rightarrow> error option \<times> pc_call list \<times> 'st rtc_server" where
  "rtc_handleSocketRawData env ops oc sessionId buf s =
     (case rv_socketRawDataHandler s of
        Some (CustomHook f) \<Rightarrow> (let (e, app) = f sessionId buf (rv_app s) in (e, [], s\<lparr>rv_app := app\<rparr>))
      | _ \<Rightarrow> rtc_defaultHandleSocketRawData env ops oc sessionId buf s)"


section \<open>The callbacks of a peer connection\<close>

datatype pc_state = PcNew | PcConnecting | PcConnected | PcDisconnected | PcFailed | PcClosed

definition rtc_OnConnectionStateChange :: "string \<Rightarrow> pc_state \<Rightarrow> 'st rtc_server \<Rightarrow> 'st rtc_server" where
  "rtc_OnConnectionStateChange i st s = (if st \<in> {PcClosed, PcFailed, PcDisconnected} then rtc_closeSession i s else s)"

text \<open>A data channel: \<open>None\<close> when it is refused for its label.\<close>

definition rtc_OnDataChannel :: "string \<Rightarrow> string \<Rightarrow> 'st rtc_server \<Rightarrow> 'st rtc_server option" where
  "rtc_OnDataChannel i label s =
     (if \<not> rv_allowAnyDataLabel s \<and> rv_dataChannelLabel s \<noteq> '''' \<and> label \<noteq> rv_dataChannelLabel s then None
      else Some (rtc_session_at rtc_BindDataChannel i s))"

text \<open>The channel opens, for the first time of the session, without interruption.\<close>

definition rtc_OnOpen :: "string \<Rightarrow> 'st rtc_server \<Rightarrow> 'st rtc_server" where
  "rtc_OnOpen i s =
     (case map_of (rv_sessions s) i of
        None \<Rightarrow> s
      | Some sess \<Rightarrow>
          if r_openOnce sess \<noteq> NotOpened then s
          else rtc_session_at (\<lambda>x. (rtc_Listen x)\<lparr>r_openOnce := OpenDone\<rparr>) i (rtc_addSession i s))"

definition rtc_OnTrack :: "rtc_env \<Rightarrow> (rsession \<Rightarrow> send_outcome) \<Rightarrow> string \<Rightarrow> remote_track \<Rightarrow> 'st rtc_server \<Rightarrow> 'st rtc_server" where
  "rtc_OnTrack env oc i remote s =
     (let (m, sf) = AddTrack i remote (rv_sfuRouter s)
      in rtc_broadcastTrackAvailable env oc i (sf_heap sf ! m) (s\<lparr>rv_sfuRouter := sf\<rparr>))"

section \<open>Requests\<close>

datatype rtc_body = BodyNone | BodyError error | BodyOk | BodyAnswer sdp string

record rtc_response =
  rp_status :: nat
  rp_headers :: "(string \<times> string) list"
  rp_body :: rtc_body

definition rtc_writeCORSHeaders :: "'st rtc_server \<Rightarrow> (string \<times> string) list" where
  "rtc_writeCORSHeaders s =
     [(''Access-Control-Allow-Origin'', if rv_corsAllowOrigin s = '''' then ''*'' else rv_corsAllowOrigin s),
      (''Access-Control-Allow-Methods'', rv_corsAllowMethods s), (''Access-Control-Allow-Headers'', rv_corsAllowHeaders s),
      (''Vary'', ''Origin''), (''Vary'', ''Access-Control-Request-Method''), (''Vary'', ''Access-Control-Request-Headers'')]"

definition rtc_handleICECandidate :: "(nat \<times> rtc_body)" where
  "rtc_handleICECandidate = (200, BodyOk)"

definition rtc_vars :: "rtc_request \<Rightarrow> 'st rtc_server \<Rightarrow> queries" where
  "rtc_vars req s =
     (if rq_Authorization req \<noteq> '''' \<and> rv_injectToken s then gomap_put (rv_tokenKey s) [rq_Authorization req] (rq_Query req) else rq_Query req)"

text \<open>
  The negotiation of a valid offer: \<open>np\<close> is the error of making the peer connection, \<open>i\<close> the GUID of the session, \<open>enc\<close> the error of writing the answer.
\<close>

definition rtc_negotiate ::
    "pc_ops \<Rightarrow> error option \<Rightarrow> error option \<Rightarrow> string \<Rightarrow> queries \<Rightarrow> sdp \<Rightarrow> 'st rtc_server \<Rightarrow> (nat \<times> rtc_body) \<times> 'st rtc_server" where
  "rtc_negotiate ops np enc i vars offer s =
     (case np of
        Some e \<Rightarrow> ((500, BodyError e), s)
      | None \<Rightarrow>
          (let s1 = s\<lparr>rv_sessions := gomap_put i (rtc_NewSession i vars) (rv_sessions s)\<rparr>
           in case po_SetRemote ops offer of
                Some e \<Rightarrow> ((400, BodyError e), rtc_closeSession i s1)
              | None \<Rightarrow>
                  (case po_CreateAnswer ops of
                     Inl e \<Rightarrow> ((500, BodyError e), rtc_closeSession i s1)
                   | Inr answer \<Rightarrow>
                       (case po_SetLocal ops answer of
                          Some e \<Rightarrow> ((500, BodyError e), rtc_closeSession i s1)
                        | None \<Rightarrow>
                            (case po_Local ops of
                               None \<Rightarrow> ((500, BodyError (ErrNew ''local description is nil'')), rtc_closeSession i s1)
                             | Some local \<Rightarrow> ((200, BodyAnswer local i), if enc = None then s1 else rtc_closeSession i s1))))))"

definition rtc_signalHandler ::
    "pc_ops \<Rightarrow> error option \<Rightarrow> error option \<Rightarrow> string \<Rightarrow> rtc_request \<Rightarrow> 'st rtc_server \<Rightarrow> rtc_response \<times> 'st rtc_server" where
  "rtc_signalHandler ops np enc i req s =
     (let hs = (if rv_enableCORS s then rtc_writeCORSHeaders s else []);
          answer = (\<lambda>st b. \<lparr>rp_status = st, rp_headers = hs, rp_body = b\<rparr>)
      in if rq_Method req = ''OPTIONS'' then (answer 204 BodyNone, s)
         else if rq_Method req \<noteq> ''POST'' then (answer 405 BodyNone, s)
         else if (case rv_checkOrigin s of None \<Rightarrow> False | Some f \<Rightarrow> \<not> f req) then (answer 403 BodyNone, s)
         else (case rq_Body req of
                 Inl e \<Rightarrow> (answer 400 (BodyError e), s)
               | Inr body \<Rightarrow>
                   (case rq_Json req body of
                      Inl e \<Rightarrow> (answer 400 (BodyError e), s)
                    | Inr q \<Rightarrow>
                        if sq_Candidate q \<noteq> None then (answer (fst rtc_handleICECandidate) (snd rtc_handleICECandidate), s)
                        else (case sq_Offer q of
                                None \<Rightarrow> (answer 400 (BodyError (ErrNew ''invalid offer'')), s)
                              | Some offer \<Rightarrow>
                                  if sd_Type offer = 0 \<or> sd_SDP offer = '''' then (answer 400 (BodyError (ErrNew ''invalid offer'')), s)
                                  else (let ((st, b), s1) = rtc_negotiate ops np enc i (rtc_vars req s) offer s
                                        in (\<lparr>rp_status = st, rp_headers = (case b of BodyAnswer d j \<Rightarrow> hs @ [(''Content-Type'', ''application/json'')] | _ \<Rightarrow> hs),
                                             rp_body = b\<rparr>, s1))))))"

section \<open>Media\<close>

definition rtc_SubscribeToPublisher ::
    "rtc_env \<Rightarrow> pc_ops \<Rightarrow> (nat \<Rightarrow> error option) \<Rightarrow> (rsession \<Rightarrow> send_outcome) \<Rightarrow> string \<Rightarrow> string \<Rightarrow> 'st rtc_server
      \<Rightarrow> error option \<times> pc_call list \<times> 'st rtc_server" where
  "rtc_SubscribeToPublisher env ops E oc subscriberID publisherID s =
     (case rtc_getSession s subscriberID of
        None \<Rightarrow> (Some (ErrNew ''subscriber session not found''), [], s)
      | Some sess \<Rightarrow>
          if \<not> rtc_PeerConnection sess then (Some (ErrNew ''peer connection not found''), [], s)
          else (let (tracks, sf1) = sfu_Subscribe subscriberID publisherID (rv_sfuRouter s);
                    (added, sf2) = sfu_create_all E subscriberID tracks sf1;
                    s1 = s\<lparr>rv_sfuRouter := sf2\<rparr>
                in if length tracks = 0 then (None, [], s\<lparr>rv_sfuRouter := sf1\<rparr>)
                   else if added > 0 then (None, snd (rtc_sendRenegotiation env ops oc subscriberID s1))
                   else (None, [], s1)))"

definition rtc_UnsubscribeFromPublisher :: "string \<Rightarrow> string \<Rightarrow> 'st rtc_server \<Rightarrow> 'st rtc_server" where
  "rtc_UnsubscribeFromPublisher subscriberID publisherID s = s\<lparr>rv_sfuRouter := sfu_Unsubscribe subscriberID publisherID (rv_sfuRouter s)\<rparr>"

section \<open>Start and Stop\<close>

definition rtc_listenAndEndpoint :: "rtc_env \<Rightarrow> 'st rtc_server \<Rightarrow> error option \<times> 'st rtc_server" where
  "rtc_listenAndEndpoint env s =
     (case (case rv_lis s of
              Some l \<Rightarrow> Inr s
            | None \<Rightarrow> (case we_Listen (re_ws env) (rv_network s) (rv_address s) of Inl e \<Rightarrow> Inl e | Inr lis \<Rightarrow> Inr (s\<lparr>rv_lis := Some lis\<rparr>))) of
        Inl e \<Rightarrow> (Some e, s)
      | Inr s1 \<Rightarrow>
          (if rv_endpoint s1 = None
           then (case AdjustAddress (we_ParseIP (re_ws env)) (we_Interfaces (re_ws env)) (rv_address s1) (rv_lis s1) of
                   Inl e \<Rightarrow> (Some e, s1)
                 | Inr addr \<Rightarrow> (None, s1\<lparr>rv_endpoint := Some (NewRegistryEndpoint ''webrtc'' addr, rv_path s1)\<rparr>))
           else (None, s1)))"

definition rtc_Endpoint :: "rtc_env \<Rightarrow> 'st rtc_server \<Rightarrow> (error + (url \<times> string) option) \<times> 'st rtc_server" where
  "rtc_Endpoint env s = (case rtc_listenAndEndpoint env s of (Some e, s1) \<Rightarrow> (Inl e, s1) | (None, s1) \<Rightarrow> (Inr (rv_endpoint s1), s1))"

text \<open>
  \<open>Start\<close> up to \<open>Serve\<close>; \<open>Serve\<close>, which blocks until the server is shut down; and what \<open>Start\<close> does after it. The first component of the first part is what
  \<open>Start\<close> returns when it does not get to \<open>Serve\<close>.
\<close>

definition rtc_Start_begin :: "rtc_env \<Rightarrow> 'st rtc_server \<Rightarrow> error option option \<times> 'st rtc_server" where
  "rtc_Start_begin env s =
     (if rv_running s then (Some None, s)
      else (case rtc_listenAndEndpoint env s of
              (Some e, s1) \<Rightarrow> (Some (Some e), s1\<lparr>rv_err := Some e\<rparr>)
            | (None, s1) \<Rightarrow> (None, s1\<lparr>rv_err := None, rv_running := True\<rparr>)))"

definition rtc_Serve :: "'st rtc_server \<Rightarrow> 'st rtc_server" where
  "rtc_Serve s = (if rv_http s = HttpShut then s else s\<lparr>rv_http := HttpServing\<rparr>)"

definition rtc_Start_end :: "'st rtc_server \<Rightarrow> 'st rtc_server" where
  "rtc_Start_end s = s\<lparr>rv_running := False\<rparr>"

definition rtc_Stop :: "rtc_env \<Rightarrow> 'st rtc_server \<Rightarrow> error option \<times> 'st rtc_server" where
  "rtc_Stop env s =
     (if \<not> rv_running s then (None, s)
      else (let s1 = snd (rtc_closeAllAndWait (s\<lparr>rv_http := HttpShut\<rparr>));
                s2 = (rtc_rebuildHTTPServer s1)\<lparr>rv_lis := None, rv_endpoint := None\<rparr>
            in (we_Shutdown (re_ws env), s2\<lparr>rv_err := None, rv_running := False\<rparr>)))"


section \<open>Lemmas\<close>

text \<open>The handler table keeps the first registration, so that an option cannot replace the built-in handler.\<close>

interpretation rtc_handlers: first_wins_store "\<lambda>s. map_of (rv_messageHandlers s)" rtc_DeregisterMessageHandler
    "\<lambda>s. gomap_keys (rv_messageHandlers s)" "\<lambda>s. gomap_wf (rv_messageHandlers s)" rtc_register
  by unfold_locales (auto simp: rtc_DeregisterMessageHandler_def rtc_register_def gomap_simps gomap_keys_def dom_gomap)

lemma rtc_Close_fields: "r_stage (rtc_Close sess) = Finished" "r_stage sess \<noteq> Finished \<Longrightarrow> \<not> r_table (rtc_Close sess)"
  "\<not> r_table sess \<Longrightarrow> \<not> r_table (rtc_Close sess)"
  by (cases "r_stage sess"; simp add: rtc_Close_def rtc_Close_step_def rtc_closeConnection_def)+

lemma rtc_session_at_fields [simp]:
  "map_of (rv_sessions (rtc_session_at f i s)) = (map_of (rv_sessions s))(i := map_option f (map_of (rv_sessions s) i))"
  "gomap_wf (rv_sessions s) \<Longrightarrow> gomap_wf (rv_sessions (rtc_session_at f i s))"
  "rv_sfuRouter (rtc_session_at f i s) = rv_sfuRouter s" "rv_running (rtc_session_at f i s) = rv_running s" "rv_http (rtc_session_at f i s) = rv_http s"
  "rv_network (rtc_session_at f i s) = rv_network s" "rv_address (rtc_session_at f i s) = rv_address s" "rv_path (rtc_session_at f i s) = rv_path s"
  "rv_messageHandlers (rtc_session_at f i s) = rv_messageHandlers s" "rv_codec (rtc_session_at f i s) = rv_codec s"
  by (auto simp: rtc_session_at_def fun_eq_iff gomap_wf_put split: option.split)

lemma rtc_OnSessionRemoved_fields [simp]:
  "rv_sessions (rtc_OnSessionRemoved i s) = rv_sessions s" "rv_sfuRouter (rtc_OnSessionRemoved i s) = RemoveSessionTracks i (rv_sfuRouter s)"
  "rv_running (rtc_OnSessionRemoved i s) = rv_running s" "rv_http (rtc_OnSessionRemoved i s) = rv_http s"
  "rv_network (rtc_OnSessionRemoved i s) = rv_network s" "rv_address (rtc_OnSessionRemoved i s) = rv_address s" "rv_path (rtc_OnSessionRemoved i s) = rv_path s"
  by (simp_all add: rtc_OnSessionRemoved_def Let_def split: option.split)

lemma rtc_closeSession_fields:
  "map_of (rv_sessions (rtc_closeSession i s)) = (map_of (rv_sessions s))(i := map_option rtc_Close (map_of (rv_sessions s) i))"
  "gomap_wf (rv_sessions s) \<Longrightarrow> gomap_wf (rv_sessions (rtc_closeSession i s))"
  "rv_sfuRouter (rtc_closeSession i s) = (case map_of (rv_sessions s) i of None \<Rightarrow> rv_sfuRouter s
     | Some sess \<Rightarrow> if r_stage sess \<noteq> Finished \<and> r_table sess then RemoveSessionTracks i (rv_sfuRouter s) else rv_sfuRouter s)"
  "rv_running (rtc_closeSession i s) = rv_running s" "rv_http (rtc_closeSession i s) = rv_http s" "rv_network (rtc_closeSession i s) = rv_network s"
  "rv_address (rtc_closeSession i s) = rv_address s" "rv_path (rtc_closeSession i s) = rv_path s"
  by (auto simp: rtc_closeSession_def Let_def split: option.split)

lemma rtc_snapshot_set: "gomap_wf (rv_sessions s) \<Longrightarrow> i \<in> set (rtc_snapshot s) \<longleftrightarrow> rtc_getSession s i \<noteq> None"
proof -
  assume wf: "gomap_wf (rv_sessions s)"
  have "i \<in> set (rtc_snapshot s) \<longleftrightarrow> (\<exists>sess. (i, sess) \<in> set (rv_sessions s) \<and> r_table sess)" by (force simp: rtc_snapshot_def)
  also have "\<dots> \<longleftrightarrow> rtc_getSession s i \<noteq> None" unfolding map_of_eq_Some_iff [OF wf, symmetric] by (simp add: rtc_getSession_def split: option.split)
  finally show ?thesis .
qed

lemma rtc_close_all:
  "distinct is \<Longrightarrow> map_of (rv_sessions (fold rtc_closeSession is s)) i
     = (if i \<in> set is then map_option rtc_Close (map_of (rv_sessions s) i) else map_of (rv_sessions s) i)"
  "gomap_wf (rv_sessions s) \<Longrightarrow> gomap_wf (rv_sessions (fold rtc_closeSession is s))"
  "rv_running (fold rtc_closeSession is s) = rv_running s" "rv_network (fold rtc_closeSession is s) = rv_network s"
  "rv_address (fold rtc_closeSession is s) = rv_address s" "rv_path (fold rtc_closeSession is s) = rv_path s"
  by (induction "is" arbitrary: s) (auto simp: rtc_closeSession_fields)

lemma rtc_close_all_tracks:
  "distinct is \<Longrightarrow> track_of (rv_sfuRouter (fold rtc_closeSession is s)) i t
     = (if i \<in> set is \<and> (\<exists>sess. map_of (rv_sessions s) i = Some sess \<and> r_stage sess \<noteq> Finished \<and> r_table sess) then None else track_of (rv_sfuRouter s) i t)"
proof (induction "is" arbitrary: s)
  case (Cons j "is")
  have "track_of (rv_sfuRouter (rtc_closeSession j s)) i t
      = (if i = j \<and> (\<exists>sess. map_of (rv_sessions s) i = Some sess \<and> r_stage sess \<noteq> Finished \<and> r_table sess) then None else track_of (rv_sfuRouter s) i t)"
    by (auto simp: rtc_closeSession_fields track_of_RemoveSessionTracks split: option.split)
  then show ?case using Cons.IH [of "rtc_closeSession j s"] Cons.prems by (auto simp: rtc_closeSession_fields rtc_Close_fields)
qed simp

text \<open>The sessions that are in the table are not closed to the end.\<close>

definition rtc_wf :: "'st rtc_server \<Rightarrow> bool" where
  "rtc_wf s \<longleftrightarrow> gomap_wf (rv_sessions s) \<and> (\<forall>i sess. rtc_getSession s i = Some sess \<longrightarrow> r_stage sess \<noteq> Finished)"

lemma snapshot_distinct: "gomap_wf (rv_sessions s) \<Longrightarrow> distinct (rtc_snapshot s)"
  unfolding rtc_snapshot_def by (rule distinct_map_filter)

lemma rtc_closeAllAndWait_facts:
  assumes "rtc_wf s" and "rtc_closeAllAndWait s = (waited, s')"
  shows "waited = []" "map_of (rv_sessions s') i = (if rtc_getSession s i = None then map_of (rv_sessions s) i else map_option rtc_Close (map_of (rv_sessions s) i))"
    "rtc_getSession s' i = None" "track_of (rv_sfuRouter s') i t = (if rtc_getSession s i = None then track_of (rv_sfuRouter s) i t else None)"
    "gomap_wf (rv_sessions s')" "rv_network s' = rv_network s" "rv_address s' = rv_address s" "rv_path s' = rv_path s"
proof -
  have wf: "gomap_wf (rv_sessions s)" using assms(1) by (simp add: rtc_wf_def)
  note d = snapshot_distinct [OF wf]
  have s': "s' = fold rtc_closeSession (rtc_snapshot s) s" "waited = rtc_snapshot s'" using assms(2) by (auto simp: rtc_closeAllAndWait_def Let_def)
  have m: "map_of (rv_sessions s') i = (if rtc_getSession s i = None then map_of (rv_sessions s) i else map_option rtc_Close (map_of (rv_sessions s) i))" for i
    using rtc_close_all(1) [OF d, of s i] rtc_snapshot_set [OF wf, of i] by (auto simp: s'(1))
  then show "map_of (rv_sessions s') i = (if rtc_getSession s i = None then map_of (rv_sessions s) i else map_option rtc_Close (map_of (rv_sessions s) i))" .
  have g: "rtc_getSession s' i = None" for i
    using m [of i] assms(1) rtc_Close_fields(2) by (auto simp: rtc_getSession_def rtc_wf_def split: option.splits if_splits)
  then show "rtc_getSession s' i = None" .
  show wf': "gomap_wf (rv_sessions s')" using rtc_close_all(2) [OF wf] by (simp add: s'(1))
  show "waited = []" using rtc_snapshot_set [OF wf'] g by (metis list.set_intros(1) neq_Nil_conv s'(2))
  show "track_of (rv_sfuRouter s') i t = (if rtc_getSession s i = None then track_of (rv_sfuRouter s) i t else None)"
    using rtc_close_all_tracks [OF d, of s i t] rtc_snapshot_set [OF wf, of i] assms(1)
    by (auto simp: s'(1) rtc_getSession_def rtc_wf_def split: option.splits if_splits)
  show "rv_network s' = rv_network s" "rv_address s' = rv_address s" "rv_path s' = rv_path s" by (simp_all add: s'(1) rtc_close_all)
qed


lemma rtc_Stop_fields:
  assumes "rtc_wf s" and "rv_running s" and "rtc_Stop env s = (err, s')"
  shows "rtc_getSession s' i = None" "rtc_getSession s i \<noteq> None \<Longrightarrow> \<exists>sess. map_of (rv_sessions s') i = Some sess \<and> r_stage sess = Finished"
    "track_of (rv_sfuRouter s') i t = (if rtc_getSession s i = None then track_of (rv_sfuRouter s) i t else None)"
    "fst (rtc_closeAllAndWait (s\<lparr>rv_http := HttpShut\<rparr>)) = []" "\<not> rv_running s'" "rv_lis s' = None" "rv_endpoint s' = None" "rv_http s' = HttpNew"
    "rv_network s' = rv_network s" "rv_address s' = rv_address s"
proof -
  obtain waited s1 where c: "rtc_closeAllAndWait (s\<lparr>rv_http := HttpShut\<rparr>) = (waited, s1)" by (rule prod.exhaust)
  have wf: "rtc_wf (s\<lparr>rv_http := HttpShut\<rparr>)" using assms(1) by (simp add: rtc_wf_def rtc_getSession_def)
  note f = rtc_closeAllAndWait_facts [OF wf c]
  have s': "s' = (rtc_rebuildHTTPServer s1)\<lparr>rv_lis := None, rv_endpoint := None, rv_err := None, rv_running := False\<rparr>"
    using assms(2,3) c by (simp add: rtc_Stop_def Let_def)
  have g: "rv_sessions s' = rv_sessions s1" "rv_sfuRouter s' = rv_sfuRouter s1" "rtc_getSession s' = rtc_getSession s1"
    by (simp_all add: s' rtc_rebuildHTTPServer_def rtc_getSession_def fun_eq_iff)
  have old: "rtc_getSession (s\<lparr>rv_http := HttpShut\<rparr>) i = rtc_getSession s i" for i by (simp add: rtc_getSession_def)
  show "rtc_getSession s' i = None" using f(3) by (simp add: g)
  show "fst (rtc_closeAllAndWait (s\<lparr>rv_http := HttpShut\<rparr>)) = []" using f(1) c by simp
  show "rtc_getSession s i \<noteq> None \<Longrightarrow> \<exists>sess. map_of (rv_sessions s') i = Some sess \<and> r_stage sess = Finished"
    using f(2) [of i] rtc_Close_fields(1) by (auto simp: g old rtc_getSession_def split: option.splits if_splits)
  show "track_of (rv_sfuRouter s') i t = (if rtc_getSession s i = None then track_of (rv_sfuRouter s) i t else None)"
    using f(4) [of i t] by (simp add: g old)
qed (use assms rtc_closeAllAndWait_facts(6,7) [of "s\<lparr>rv_http := HttpShut\<rparr>"] in
    \<open>auto simp: rtc_Stop_def Let_def rtc_rebuildHTTPServer_def rtc_wf_def rtc_getSession_def split_beta prod_eq_iff\<close>)

lemma rtc_Stop_starts_again:
  assumes "rtc_wf s" and "rv_running s" and "rtc_Stop env s = (err, s')"
    and "we_Listen (re_ws env) (rv_network s) (rv_address s) = Inr lis"
    and "AdjustAddress (we_ParseIP (re_ws env)) (we_Interfaces (re_ws env)) (rv_address s) (Some lis) = Inr addr"
  shows "\<exists>s2. rtc_Start_begin env s' = (None, s2) \<and> rv_running s2 \<and> rv_lis s2 = Some lis \<and> rv_http (rtc_Serve s2) = HttpServing"
  using assms(4,5) rtc_Stop_fields(5-10) [OF assms(1-3)] by (simp add: rtc_Start_begin_def rtc_listenAndEndpoint_def rtc_Serve_def)

section \<open>Properties\<close>

text \<open>
  \<open>Stop\<close> of a running WebRTC server closes every session of its table to the end, empties the table, takes the tracks of those sessions from the media router,
  and leaves the server ready for another \<open>Start\<close>, which listens and serves again. But it waits for none of the write pumps it stops: the sessions
  to wait for are looked up in the table after they were removed from it.
\<close>

theorem rtc_Stop_and_restart:
  assumes "rtc_wf s" and "rv_running s" and "rtc_Stop env s = (err, s')"
  shows "(\<forall>i. rtc_getSession s' i = None \<and> (rtc_getSession s i \<noteq> None \<longrightarrow> (\<exists>sess. map_of (rv_sessions s') i = Some sess \<and> r_stage sess = Finished))
          \<and> (\<forall>t. track_of (rv_sfuRouter s') i t = (if rtc_getSession s i = None then track_of (rv_sfuRouter s) i t else None)))
     \<and> fst (rtc_closeAllAndWait (s\<lparr>rv_http := HttpShut\<rparr>)) = [] \<and> \<not> rv_running s' \<and> rv_lis s' = None
     \<and> (\<forall>lis addr. we_Listen (re_ws env) (rv_network s) (rv_address s) = Inr lis
          \<and> AdjustAddress (we_ParseIP (re_ws env)) (we_Interfaces (re_ws env)) (rv_address s) (Some lis) = Inr addr \<longrightarrow>
            (\<exists>s2. rtc_Start_begin env s' = (None, s2) \<and> rv_running s2 \<and> rv_lis s2 = Some lis \<and> rv_http (rtc_Serve s2) = HttpServing))"
  using rtc_Stop_fields [OF assms] rtc_Stop_starts_again [OF assms] by (intro conjI allI impI) (blast | simp)+

definition rtc_test_env :: rtc_env where
  "rtc_test_env = \<lparr>re_ws = ws_test_env, re_reneg = (\<lambda>m. Inr (if rn_Offer m \<noteq> None then ''o'' else ''a'')),
     re_unreneg = (\<lambda>b. Inr \<lparr>rn_SessionID = '''', rn_Offer = (if b = ''o'' then Some \<lparr>sd_Type = 1, sd_SDP = ''offer''\<rparr> else None),
        rn_Answer = (if b = ''a'' then Some \<lparr>sd_Type = 2, sd_SDP = ''answer''\<rparr> else None)\<rparr>), re_track = (\<lambda>t. Inr ''t'')\<rparr>"

definition rtc_test_server :: "dyn list rtc_server" where
  "rtc_test_server = (rtc_NewServer rtc_test_env [] [])\<lparr>rv_running := True, rv_http := HttpServing, rv_lis := Some (TcpListener 1),
     rv_sessions := [(''a'', (rtc_NewSession ''a'' [])\<lparr>r_table := True, r_added := 1\<rparr>), (''b'', rtc_NewSession ''b'' [])],
     rv_sfuRouter := snd (AddTrack ''b'' (demo_remote ''v'') NewSFURouter)\<rparr>"

lemma rtc_test_fields:
  "rv_running rtc_test_server" "rv_network rtc_test_server = ''tcp''" "rv_address rtc_test_server = '':0''"
  "rtc_getSession rtc_test_server i = (if i = ''a'' then Some ((rtc_NewSession ''a'' [])\<lparr>r_table := True, r_added := 1\<rparr>) else None)"
  "rv_sfuRouter rtc_test_server = snd (AddTrack ''b'' (demo_remote ''v'') NewSFURouter)" "gomap_wf (rv_sessions rtc_test_server)"
  by (simp_all add: rtc_test_server_def rtc_NewServer_def rtc_init_def rtc_register_def rtc_rebuildHTTPServer_def Let_def rtc_getSession_def rtc_NewSession_def
      split: option.split)

lemma rtc_test_wf: "rtc_wf rtc_test_server"
  using rtc_test_fields(6) by (auto simp: rtc_wf_def rtc_test_fields(4) rtc_NewSession_def split: if_splits)

theorem rtc_Stop_and_restart_witness:
  "rtc_getSession (snd (rtc_Stop rtc_test_env rtc_test_server)) ''a'' = None
     \<and> (\<exists>s2. rtc_Start_begin rtc_test_env (snd (rtc_Stop rtc_test_env rtc_test_server)) = (None, s2) \<and> rv_http (rtc_Serve s2) = HttpServing)"
proof -
  obtain err s' where p: "rtc_Stop rtc_test_env rtc_test_server = (err, s')" by (rule prod.exhaust)
  have e: "re_ws rtc_test_env = ws_test_env" by (simp add: rtc_test_env_def)
  obtain addr where "AdjustAddress (we_ParseIP ws_test_env) (we_Interfaces ws_test_env) (rv_address rtc_test_server) (Some (TcpListener 4711)) = Inr addr"
    using ws_adjust_test by blast
  then show ?thesis using rtc_Stop_and_restart [OF rtc_test_wf rtc_test_fields(1) p] ws_test_env_Listen p e by auto
qed

text \<open>
  The tracks of a session are removed from the media router only together with its entry in the table. A session that publishes media but whose data channel never
  opened has no entry: its tracks stay in the router when it closes and when the server stops.
\<close>

theorem rtc_unopened_publisher_leaks_tracks:
  assumes "rtc_wf s" and "rtc_getSession s i = None"
  shows "track_of (rv_sfuRouter (rtc_closeSession i s)) i t = track_of (rv_sfuRouter s) i t
     \<and> track_of (rv_sfuRouter (snd (rtc_Stop env (rtc_closeSession i s)))) i t = track_of (rv_sfuRouter s) i t"
proof -
  let ?s = "rtc_closeSession i s"
  have one: "track_of (rv_sfuRouter ?s) i t = track_of (rv_sfuRouter s) i t"
    using assms(2) by (auto simp: rtc_closeSession_fields rtc_getSession_def split: option.splits if_splits)
  have get: "rtc_getSession ?s j = (if j = i then None else rtc_getSession s j)" for j
    using assms(2) rtc_Close_fields(3) by (auto simp: rtc_getSession_def rtc_closeSession_fields split: option.splits if_splits)
  have wf: "rtc_wf ?s" using assms(1) rtc_closeSession_fields(2) by (auto simp: rtc_wf_def get)
  show ?thesis
  proof (cases "rv_running ?s")
    case True
    obtain err s' where "rtc_Stop env ?s = (err, s')" by (rule prod.exhaust)
    with rtc_Stop_fields(3) [OF wf True this, of i t] show ?thesis using one get [of i] by simp
  next
    case False
    then show ?thesis using one by (simp add: rtc_Stop_def)
  qed
qed

theorem rtc_unopened_publisher_leaks_tracks_witness:
  "track_of (rv_sfuRouter (snd (rtc_Stop rtc_test_env (rtc_closeSession ''b'' rtc_test_server)))) ''b'' ''v'' = Some 0"
proof -
  have "rtc_getSession rtc_test_server ''b'' = None" by (simp add: rtc_test_fields(4))
  from rtc_unopened_publisher_leaks_tracks [OF rtc_test_wf this] show ?thesis
    by (simp add: rtc_test_fields(5) track_of_AddTrack demo_remote_def NewSFURouter_def)
qed

text \<open>
  A restart can leave a server that cannot be stopped: when \<open>Start\<close> is called again before the first \<open>Start\<close> has got to its last statement, that statement clears the flag of the
  second, and \<open>Stop\<close>, which looks at the flag first, does nothing while the server serves.
\<close>

theorem rtc_restart_race:
  assumes "rtc_wf s" and "rv_running s" and "rtc_Stop env s = (err, s1)" and "rtc_Start_begin env s1 = (None, s2)"
  shows "rv_http (rtc_Start_end (rtc_Serve s2)) = HttpServing \<and> rtc_Stop env (rtc_Start_end (rtc_Serve s2)) = (None, rtc_Start_end (rtc_Serve s2))"
proof -
  have "rv_http s1 = HttpNew" "\<not> rv_running s1" using assms(2,3) by (auto simp: rtc_Stop_def Let_def rtc_rebuildHTTPServer_def)
  then have "rv_http s2 = HttpNew"
    using assms(4) by (auto simp: rtc_Start_begin_def rtc_listenAndEndpoint_def split: option.splits sum.splits if_splits)
  then show ?thesis by (simp add: rtc_Serve_def rtc_Start_end_def rtc_Stop_def)
qed

theorem rtc_restart_race_witness:
  "\<exists>s2. rtc_Start_begin rtc_test_env (snd (rtc_Stop rtc_test_env rtc_test_server)) = (None, s2)
     \<and> rtc_Stop rtc_test_env (rtc_Start_end (rtc_Serve s2)) = (None, rtc_Start_end (rtc_Serve s2))"
proof -
  obtain err s' where p: "rtc_Stop rtc_test_env rtc_test_server = (err, s')" by (rule prod.exhaust)
  have e: "re_ws rtc_test_env = ws_test_env" by (simp add: rtc_test_env_def)
  obtain addr where a: "AdjustAddress (we_ParseIP ws_test_env) (we_Interfaces ws_test_env) (rv_address rtc_test_server) (Some (TcpListener 4711)) = Inr addr"
    using ws_adjust_test by blast
  obtain s2 where s2: "rtc_Start_begin rtc_test_env s' = (None, s2)"
    using rtc_Stop_starts_again [OF rtc_test_wf rtc_test_fields(1) p, unfolded e, OF ws_test_env_Listen a] by blast
  from rtc_restart_race [OF rtc_test_wf rtc_test_fields(1) p s2] show ?thesis using p s2 by auto
qed

end
