(* ===== verification/Webrtc_Client.thy ===== *)
theory Webrtc_Client
  imports Webrtc_Server
begin

text \<open>
  The WebRTC client: \<open>transport/webrtc/client.go\<close> and \<open>client_options.go\<close>, and the properties of the server and the client together. What the library and the
  signaling request answer are parameters, as for the server.
\<close>

section \<open>Definitions\<close>

datatype 'st rtc_client_handler = ClientReneg | ClientUser "'st ws_client_handler"

text \<open>\<open>cl_pc\<close> and \<open>cl_dc\<close> say that the fields are not nil; \<open>cl_sent\<close> is what was given to the data channel.\<close>

record 'st rtc_client =
  cl_signalURL :: string
  cl_authorization :: string
  cl_codec :: "codec option"
  cl_payloadType :: payload_type
  cl_dataChannelLabel :: string
  cl_connectTimeout :: int
  cl_signalTimeout :: int
  cl_pc :: bool
  cl_dc :: bool
  cl_messageHandlers :: "(32 word, 'st rtc_client_handler) gomap"
  cl_localTracks :: "(string, nat) gomap"
  cl_remoteTracks :: "(string, remote_track) gomap"
  cl_sent :: "(ws_kind \<times> bytes) list"
  cl_app :: 'st

type_synonym 'st rtc_client_option = "'st rtc_client \<Rightarrow> 'st rtc_client"

definition rtc_WithSignalURL :: "string \<Rightarrow> 'st rtc_client_option" where
  "rtc_WithSignalURL uri c = c\<lparr>cl_signalURL := uri\<rparr>"

definition rtc_WithAuthorization :: "string \<Rightarrow> 'st rtc_client_option" where
  "rtc_WithAuthorization token c = c\<lparr>cl_authorization := token\<rparr>"

definition rtc_WithClientCodec :: "rtc_env \<Rightarrow> string \<Rightarrow> 'st rtc_client_option" where
  "rtc_WithClientCodec env name c = (if name \<noteq> '''' then c\<lparr>cl_codec := we_GetCodec (re_ws env) name\<rparr> else c)"

definition rtc_WithClientPayloadType :: "payload_type \<Rightarrow> 'st rtc_client_option" where
  "rtc_WithClientPayloadType pt c = c\<lparr>cl_payloadType := pt\<rparr>"

definition rtc_WithClientDataChannelLabel :: "string \<Rightarrow> 'st rtc_client_option" where
  "rtc_WithClientDataChannelLabel label c = (if label \<noteq> '''' then c\<lparr>cl_dataChannelLabel := label\<rparr> else c)"

definition rtc_WithClientConnectTimeout :: "int \<Rightarrow> 'st rtc_client_option" where
  "rtc_WithClientConnectTimeout timeout c = (if timeout > 0 then c\<lparr>cl_connectTimeout := timeout\<rparr> else c)"

definition rtc_WithClientSignalTimeout :: "int \<Rightarrow> 'st rtc_client_option" where
  "rtc_WithClientSignalTimeout timeout c = (if timeout > 0 then c\<lparr>cl_signalTimeout := timeout\<rparr> else c)"

definition rtc_client_register :: "32 word \<Rightarrow> 'st rtc_client_handler \<Rightarrow> 'st rtc_client \<Rightarrow> 'st rtc_client" where
  "rtc_client_register messageType h c =
     (if map_of (cl_messageHandlers c) messageType \<noteq> None then c
      else c\<lparr>cl_messageHandlers := gomap_put messageType h (cl_messageHandlers c)\<rparr>)"

definition rtc_NewClient :: "rtc_env \<Rightarrow> 'st rtc_client_option list \<Rightarrow> 'st \<Rightarrow> 'st rtc_client" where
  "rtc_NewClient env opts app =
     (let c = fold (\<lambda>opt c. opt c) opts (rtc_client_register MsgTypeSignalRenegotiation ClientReneg
            \<lparr>cl_signalURL = '''', cl_authorization = '''', cl_codec = we_GetCodec (re_ws env) ''json'', cl_payloadType = PayloadTypeBinary,
             cl_dataChannelLabel = ''kratos'', cl_connectTimeout = 10000000000, cl_signalTimeout = 10000000000, cl_pc = False, cl_dc = False,
             cl_messageHandlers = [], cl_localTracks = [], cl_remoteTracks = [], cl_sent = [], cl_app = app\<rparr>)
      in if cl_codec c = None then c\<lparr>cl_codec := we_GetCodec (re_ws env) ''json''\<rparr> else c)"

definition rtc_Client_RegisterMessageHandler ::
    "32 word \<Rightarrow> (dyn \<Rightarrow> 'st \<Rightarrow> error option \<times> 'st) option \<Rightarrow> (unit \<Rightarrow> dyn) option \<Rightarrow> 'st rtc_client \<Rightarrow> 'st rtc_client" where
  "rtc_Client_RegisterMessageHandler messageType handler binder =
     rtc_client_register messageType (ClientUser \<lparr>wd_Handler = handler, wd_Creator = binder\<rparr>)"

definition rtc_RegisterClientMessageHandler ::
    "gotype \<Rightarrow> dyn \<Rightarrow> 32 word \<Rightarrow> (dyn \<Rightarrow> 'st \<Rightarrow> error option \<times> 'st) \<Rightarrow> 'st rtc_client \<Rightarrow> 'st rtc_client" where
  "rtc_RegisterClientMessageHandler t zero messageType handler =
     rtc_Client_RegisterMessageHandler messageType (Some (ws_client_typed t handler)) (Some (\<lambda>_. DPtr t (Some zero)))"

definition rtc_Client_DeregisterMessageHandler :: "32 word \<Rightarrow> 'st rtc_client \<Rightarrow> 'st rtc_client" where
  "rtc_Client_DeregisterMessageHandler messageType c = c\<lparr>cl_messageHandlers := gomap_delete messageType (cl_messageHandlers c)\<rparr>"

definition rtc_Disconnect :: "error option \<Rightarrow> error option \<Rightarrow> 'st rtc_client \<Rightarrow> error option \<times> 'st rtc_client" where
  "rtc_Disconnect dce pce c =
     (let e1 = (if cl_dc c then dce else None);
          e2 = (if cl_pc c then pce else None)
      in (if e1 \<noteq> None then e1 else e2, c\<lparr>cl_dc := False, cl_pc := False\<rparr>))"

text \<open>
  \<open>sendOffer\<close>: \<open>post\<close> is the HTTP exchange, with the status and the body of the answer; \<open>w\<close> and \<open>d\<close> are what \<open>encoding/json\<close> makes of the body.
\<close>

definition rtc_sendOffer ::
    "(sdp \<Rightarrow> string \<Rightarrow> error + nat \<times> bytes) \<Rightarrow> (bytes \<Rightarrow> error + sdp) \<Rightarrow> (bytes \<Rightarrow> error + sdp) \<Rightarrow> sdp \<Rightarrow> 'st rtc_client \<Rightarrow> error + sdp" where
  "rtc_sendOffer post w d offer c =
     (case post offer (cl_authorization c) of
        Inl e \<Rightarrow> Inl e
      | Inr (status, respBody) \<Rightarrow>
          if status < 200 \<or> status \<ge> 300 then Inl (ErrNew ''signal request failed'')
          else (case (case w respBody of Inl e \<Rightarrow> None | Inr a \<Rightarrow> if sd_Type a \<noteq> 0 then Some a else None) of
                  Some a \<Rightarrow> Inr a
                | None \<Rightarrow>
                    (case d respBody of
                       Inl e \<Rightarrow> Inl e
                     | Inr a \<Rightarrow> if sd_Type a = 0 then Inl (ErrNew ''invalid answer from signaling server'') else Inr a)))"

text \<open>
  \<open>Connect\<close>: \<open>np\<close> and \<open>ndc\<close> are the errors of making the connection and the channel, \<open>opened\<close> says that the channel opens in time. The calls are those on the new
  peer connection; \<open>closed\<close> says that it is closed again.
\<close>

definition rtc_Connect ::
    "pc_ops \<Rightarrow> error option \<Rightarrow> error option \<Rightarrow> (sdp \<Rightarrow> error + sdp) \<Rightarrow> bool \<Rightarrow> 'st rtc_client \<Rightarrow> error option \<times> bool \<times> 'st rtc_client" where
  "rtc_Connect ops np ndc sendOffer opened c =
     (if cl_signalURL c = '''' then (Some (ErrNew ''signal url is empty''), False, c)
      else (case np of
              Some e \<Rightarrow> (Some e, False, c)
            | None \<Rightarrow>
                (case ndc of
                   Some e \<Rightarrow> (Some e, True, c)
                 | None \<Rightarrow>
                     (case po_CreateOffer ops of
                        Inl e \<Rightarrow> (Some e, True, c)
                      | Inr offer \<Rightarrow>
                          (case po_SetLocal ops offer of
                             Some e \<Rightarrow> (Some e, True, c)
                           | None \<Rightarrow>
                               (case po_Local ops of
                                  None \<Rightarrow> (Some (ErrNew ''local description is nil''), True, c)
                                | Some local \<Rightarrow>
                                    (case sendOffer local of
                                       Inl e \<Rightarrow> (Some e, True, c)
                                     | Inr answer \<Rightarrow>
                                         (case po_SetRemote ops answer of
                                            Some e \<Rightarrow> (Some e, True, c)
                                          | None \<Rightarrow>
                                              if opened then (None, False, c\<lparr>cl_pc := True, cl_dc := True\<rparr>)
                                              else (Some (ErrNew ''wait data channel open timeout''), True, c\<lparr>cl_pc := False, cl_dc := False\<rparr>)))))))))"

text \<open>The callback of \<open>OnTrack\<close>, and the tracks.\<close>

definition rtc_client_OnTrack :: "remote_track \<Rightarrow> 'st rtc_client \<Rightarrow> 'st rtc_client" where
  "rtc_client_OnTrack remote c = c\<lparr>cl_remoteTracks := gomap_put (rt_ID remote) remote (cl_remoteTracks c)\<rparr>"

definition rtc_client_stateChange :: "error option \<Rightarrow> error option \<Rightarrow> pc_state \<Rightarrow> 'st rtc_client \<Rightarrow> 'st rtc_client" where
  "rtc_client_stateChange dce pce st c = (if st \<in> {PcClosed, PcFailed} then snd (rtc_Disconnect dce pce c) else c)"

text \<open>\<open>wr\<close> is the error of \<open>Send\<close> or \<open>SendText\<close>.\<close>

definition rtc_client_write :: "error option \<Rightarrow> bytes \<Rightarrow> 'st rtc_client \<Rightarrow> error option \<times> 'st rtc_client" where
  "rtc_client_write wr buf c =
     (if \<not> cl_dc c then (Some (ErrNew ''data channel is nil''), c)
      else (case wr of Some e \<Rightarrow> (Some e, c) | None \<Rightarrow> (None, c\<lparr>cl_sent := cl_sent c @ [(rtc_kind (cl_payloadType c), buf)]\<rparr>)))"

definition rtc_Client_SendMessage :: "rtc_env \<Rightarrow> error option \<Rightarrow> 32 word \<Rightarrow> dyn \<Rightarrow> 'st rtc_client \<Rightarrow> error option \<times> 'st rtc_client" where
  "rtc_Client_SendMessage env wr messageType message c =
     (case rtc_defaultMarshalNetPacket env (cl_codec c) (cl_payloadType c) messageType message of
        Inl e \<Rightarrow> (Some e, c)
      | Inr buf \<Rightarrow> rtc_client_write wr buf c)"

text \<open>\<open>SendMessage\<close> of a built-in message, in the client's own payload type.\<close>

definition rtc_client_send_reneg :: "rtc_env \<Rightarrow> error option \<Rightarrow> reneg \<Rightarrow> 'st rtc_client \<Rightarrow> error option \<times> 'st rtc_client" where
  "rtc_client_send_reneg env wr m c =
     (case (if cl_payloadType c = PayloadTypeOther then Inl (ErrNew ''unsupported payload type'')
            else (case re_reneg env m of
                    Inl e \<Rightarrow> Inl e
                  | Inr payload \<Rightarrow> ws_packet (re_ws env) (cl_payloadType c) MsgTypeSignalRenegotiation (Some payload))) of
        Inl e \<Rightarrow> (Some e, c)
      | Inr buf \<Rightarrow> rtc_client_write wr buf c)"

definition rtc_client_negotiate :: "rtc_env \<Rightarrow> pc_ops \<Rightarrow> bool \<Rightarrow> error option \<Rightarrow> 'st rtc_client \<Rightarrow> error option \<times> pc_call list \<times> 'st rtc_client" where
  "rtc_client_negotiate env ops gathered wr c =
     (if \<not> cl_pc c then (Some (ErrNew ''peer connection not established''), [], c)
      else (case po_CreateOffer ops of
              Inl e \<Rightarrow> (Some e, [PcCreateOffer], c)
            | Inr offer \<Rightarrow>
                (case po_SetLocal ops offer of
                   Some e \<Rightarrow> (Some e, [PcCreateOffer, PcSetLocal offer], c)
                 | None \<Rightarrow>
                     if \<not> gathered then (Some (ErrNew ''ice gathering timeout''), [PcCreateOffer, PcSetLocal offer], c)
                     else (case po_Local ops of
                             None \<Rightarrow> (Some (ErrNew ''local description is nil''), [PcCreateOffer, PcSetLocal offer], c)
                           | Some local \<Rightarrow>
                               (let (e, c1) = rtc_client_send_reneg env wr \<lparr>rn_SessionID = '''', rn_Offer = Some local, rn_Answer = None\<rparr> c
                                in (e, [PcCreateOffer, PcSetLocal offer], c1))))))"

definition rtc_AddLocalTrack ::
    "rtc_env \<Rightarrow> pc_ops \<Rightarrow> error option \<Rightarrow> bool \<Rightarrow> error option \<Rightarrow> string \<Rightarrow> nat \<Rightarrow> 'st rtc_client \<Rightarrow> error option \<times> pc_call list \<times> 'st rtc_client" where
  "rtc_AddLocalTrack env ops adde gathered wr trackID track c =
     (if \<not> cl_pc c then (Some (ErrNew ''peer connection not established''), [], c)
      else (case adde of
              Some e \<Rightarrow> (Some e, [], c)
            | None \<Rightarrow> rtc_client_negotiate env ops gathered wr (c\<lparr>cl_localTracks := gomap_put trackID track (cl_localTracks c)\<rparr>)))"

definition rtc_RemoveLocalTrack :: "string \<Rightarrow> 'st rtc_client \<Rightarrow> 'st rtc_client" where
  "rtc_RemoveLocalTrack trackID c =
     (if map_of (cl_localTracks c) trackID \<noteq> None then c\<lparr>cl_localTracks := gomap_delete trackID (cl_localTracks c)\<rparr> else c)"

definition rtc_GetRemoteTracks :: "'st rtc_client \<Rightarrow> (string, remote_track) gomap" where
  "rtc_GetRemoteTracks c = gomap_put_all (cl_remoteTracks c) []"

definition rtc_client_handleSignalRenegotiation ::
    "rtc_env \<Rightarrow> pc_ops \<Rightarrow> error option \<Rightarrow> reneg \<Rightarrow> 'st rtc_client \<Rightarrow> error option \<times> pc_call list \<times> 'st rtc_client" where
  "rtc_client_handleSignalRenegotiation env ops wr msg c =
     (if \<not> cl_pc c then (Some (ErrNew ''peer connection not established''), [], c)
      else (case rn_Answer msg of
              Some answer \<Rightarrow> (po_SetRemote ops answer, [PcSetRemote answer], c)
            | None \<Rightarrow>
                (case rn_Offer msg of
                   None \<Rightarrow> (None, [], c)
                 | Some offer \<Rightarrow>
                     (case po_SetRemote ops offer of
                        Some e \<Rightarrow> (Some e, [PcSetRemote offer], c)
                      | None \<Rightarrow>
                          (case po_CreateAnswer ops of
                             Inl e \<Rightarrow> (Some e, [PcSetRemote offer, PcCreateAnswer], c)
                           | Inr answer \<Rightarrow>
                               (case po_SetLocal ops answer of
                                  Some e \<Rightarrow> (Some e, [PcSetRemote offer, PcCreateAnswer, PcSetLocal answer], c)
                                | None \<Rightarrow>
                                    (let (e, c1) = rtc_client_send_reneg env wr \<lparr>rn_SessionID = '''', rn_Offer = None, rn_Answer = po_Local ops\<rparr> c
                                     in (e, [PcSetRemote offer, PcCreateAnswer, PcSetLocal answer], c1))))))))"

text \<open>\<open>unmarshalMessage\<close>: \<open>Inr None\<close> is a notification of a new track that nobody asked for.\<close>

datatype 'st rtc_client_dispatch = CDispatchReneg reneg | CDispatchUser "'st ws_client_handler" dyn

definition rtc_unmarshalMessage :: "rtc_env \<Rightarrow> 'st rtc_client \<Rightarrow> bytes \<Rightarrow> error + 'st rtc_client_dispatch option" where
  "rtc_unmarshalMessage env c buf =
     (if cl_payloadType c = PayloadTypeOther then Inl (ErrNew ''unsupported payload type'')
      else (case ws_unpacket (re_ws env) (cl_payloadType c) buf of
              Inl e \<Rightarrow> Inl e
            | Inr (messageType, raw) \<Rightarrow>
                (case map_of (cl_messageHandlers c) messageType of
                   None \<Rightarrow> if messageType = MsgTypeSignalTrackAvailable then Inr None else Inl (ErrNew ''message handler not found'')
                 | Some ClientReneg \<Rightarrow> (case re_unreneg env raw of Inl e \<Rightarrow> Inl e | Inr m \<Rightarrow> Inr (Some (CDispatchReneg m)))
                 | Some (ClientUser h) \<Rightarrow>
                     (case wd_Creator h of
                        None \<Rightarrow> Inr (Some (CDispatchUser h (DBytes (Some raw))))
                      | Some f \<Rightarrow>
                          (case Unmarshal (we_gob (re_ws env)) (cl_codec c) (Some raw) (rtc_any_ptr (f ())) of
                             Inl e \<Rightarrow> Inl e
                           | Inr v \<Rightarrow> Inr (Some (CDispatchUser h (any_deref v (f ())))))))))"

definition rtc_messageHandler ::
    "rtc_env \<Rightarrow> pc_ops \<Rightarrow> error option \<Rightarrow> bytes \<Rightarrow> 'st rtc_client \<Rightarrow> error option \<times> pc_call list \<times> 'st rtc_client" where
  "rtc_messageHandler env ops wr buf c =
     (case rtc_unmarshalMessage env c buf of
        Inl e \<Rightarrow> (Some e, [], c)
      | Inr None \<Rightarrow> (None, [], c)
      | Inr (Some (CDispatchReneg m)) \<Rightarrow> rtc_client_handleSignalRenegotiation env ops wr m c
      | Inr (Some (CDispatchUser h payload)) \<Rightarrow>
          (case wd_Handler h of
             None \<Rightarrow> (None, [], c)
           | Some f \<Rightarrow> (let (e, app) = f payload (cl_app c) in (e, [], c\<lparr>cl_app := app\<rparr>))))"


section \<open>Lemmas\<close>

interpretation rtc_client_handlers: first_wins_store "\<lambda>c. map_of (cl_messageHandlers c)" rtc_Client_DeregisterMessageHandler
    "\<lambda>c. gomap_keys (cl_messageHandlers c)" "\<lambda>c. gomap_wf (cl_messageHandlers c)" rtc_client_register
  by unfold_locales (auto simp: rtc_Client_DeregisterMessageHandler_def rtc_client_register_def gomap_simps gomap_keys_def dom_gomap)

definition rtc_signal_packet :: "bytes \<Rightarrow> bytes" where
  "rtc_signal_packet payload = PutUint32 LittleEndian MsgTypeSignalRenegotiation @ payload"

lemma signal_packet:
  "rtc_binary_packet MsgTypeSignalRenegotiation payload = Inr (rtc_signal_packet payload)"
  "ws_packet env PayloadTypeBinary MsgTypeSignalRenegotiation (Some payload) = Inr (rtc_signal_packet payload)"
  "ws_unpacket env PayloadTypeBinary (rtc_signal_packet payload) = Inr (MsgTypeSignalRenegotiation, payload)"
  using packet_bytes_unmarshal(2) [of LittleEndian MsgTypeSignalRenegotiation payload]
  by (simp_all add: rtc_binary_packet_def NetPacket_Marshal_def rtc_signal_packet_def ws_packet_def slice_bytes_def ws_unpacket_def)

lemma signal_packet_head: "\<exists>b. rtc_signal_packet payload = CHR 0x01 # b"
  by (simp add: rtc_signal_packet_def MsgTypeSignalRenegotiation_def byte_of_def char_of_def)

section \<open>Properties\<close>

text \<open>
  C24: a renegotiation that the server starts runs to its end over the data channel, when both sides use binary packets: the packet with the server's offer makes the client apply the offer
  and answer, and the packet with the client's answer makes the server apply exactly that answer. The hypotheses are that the codec reads what it wrote and that
  the calls on the two peer connections succeed.
\<close>

theorem rtc_renegotiation_completes:
  assumes codec: "\<And>m b. re_reneg env m = Inr b \<Longrightarrow> re_unreneg env b = Inr m"
    and enc: "re_reneg env \<lparr>rn_SessionID = i, rn_Offer = Some lo, rn_Answer = None\<rparr> = Inr b1" "re_reneg env \<lparr>rn_SessionID = '''', rn_Offer = None, rn_Answer = Some la\<rparr> = Inr b2"
    and sess: "rtc_getSession s i = Some sess" "rtc_PeerConnection sess"
    and server: "po_CreateOffer ops = Inr off" "po_SetLocal ops off = None" "po_Local ops = Some lo" "rv_payloadType s = PayloadTypeBinary"
      "map_of (rv_messageHandlers s) MsgTypeSignalRenegotiation = Some BuiltinRenegotiation"
      "rv_socketRawDataHandler s = Some DefaultHook" "rv_netPacketUnmarshaler s = Some DefaultHook"
    and client: "po_SetRemote cops lo = None" "po_CreateAnswer cops = Inr ans" "po_SetLocal cops ans = None" "po_Local cops = Some la"
      "cl_payloadType c = PayloadTypeBinary" "cl_pc c" "cl_dc c" "map_of (cl_messageHandlers c) MsgTypeSignalRenegotiation = Some ClientReneg"
  shows "\<exists>pkt reply s1.
       rtc_sendRenegotiation env ops (\<lambda>_. SendQueued) i s = (None, [PcCreateOffer, PcSetLocal off], s1)
     \<and> rtc_getSession s1 i = Some (rtc_SendMessage SendQueued pkt sess)
     \<and> rtc_messageHandler env cops None pkt c
         = (None, [PcSetRemote lo, PcCreateAnswer, PcSetLocal ans], c\<lparr>cl_sent := cl_sent c @ [(BinaryMessage, reply)]\<rparr>)
     \<and> rtc_handleSocketRawData env ops oc i reply s1 = (po_SetRemote ops la, [PcSetRemote la], s1)"
proof -
  let ?pkt = "rtc_signal_packet b1" and ?reply = "rtc_signal_packet b2"
  let ?s1 = "rtc_session_at (\<lambda>x. rtc_SendMessage SendQueued ?pkt x) i s"
  have send: "rtc_sendRenegotiation env ops (\<lambda>_. SendQueued) i s = (None, [PcCreateOffer, PcSetLocal off], ?s1)"
    using server(1-3) enc(1) by (simp add: rtc_sendRenegotiation_def signal_packet)
  have m: "map_of (rv_sessions s) i = Some sess" "r_table sess" using sess(1) by (auto simp: rtc_getSession_def split: option.splits if_splits)
  then have get: "rtc_getSession ?s1 i = Some (rtc_SendMessage SendQueued ?pkt sess)" by (simp add: rtc_getSession_def rtc_SendMessage_def)
  have f: "rv_payloadType ?s1 = PayloadTypeBinary" "map_of (rv_messageHandlers ?s1) MsgTypeSignalRenegotiation = Some BuiltinRenegotiation"
    "rv_socketRawDataHandler ?s1 = Some DefaultHook" "rv_netPacketUnmarshaler ?s1 = Some DefaultHook"
    using server(4-7) m by (simp_all add: rtc_session_at_def)
  have cl: "rtc_messageHandler env cops None ?pkt c
      = (None, [PcSetRemote lo, PcCreateAnswer, PcSetLocal ans], c\<lparr>cl_sent := cl_sent c @ [(BinaryMessage, ?reply)]\<rparr>)"
    using client codec [OF enc(1)] enc(2)
    by (simp add: rtc_messageHandler_def rtc_unmarshalMessage_def signal_packet rtc_client_handleSignalRenegotiation_def rtc_client_send_reneg_def
        rtc_client_write_def rtc_kind_def)
  have "rtc_PeerConnection (rtc_SendMessage SendQueued ?pkt sess)" using sess(2) by (simp add: rtc_PeerConnection_def rtc_SendMessage_def)
  then have "rtc_handleSocketRawData env ops oc i ?reply ?s1 = (po_SetRemote ops la, [PcSetRemote la], ?s1)"
    using f codec [OF enc(2)] get
    by (simp add: rtc_handleSocketRawData_def rtc_defaultHandleSocketRawData_def rtc_unmarshalNetPacket_def rtc_defaultUnmarshalNetPacket_def signal_packet
        rtc_handleSignalRenegotiation_def)
  then show ?thesis using send get cl by blast
qed

definition rtc_good_pc :: "sdp \<Rightarrow> pc_ops" where
  "rtc_good_pc d = \<lparr>po_SetRemote = (\<lambda>_. None), po_CreateAnswer = Inr d, po_CreateOffer = Inr d, po_SetLocal = (\<lambda>_. None), po_Local = Some d\<rparr>"

definition rtc_tag_env :: rtc_env where
  "rtc_tag_env = rtc_test_env\<lparr>re_reneg := (\<lambda>m. if rn_Offer m = None then (if rn_SessionID m = '''' \<and> rn_Answer m = Some \<lparr>sd_Type = 3, sd_SDP = ''y''\<rparr> then Inr ''a'' else Inl ErrEOF)
       else if m = \<lparr>rn_SessionID = ''a'', rn_Offer = Some \<lparr>sd_Type = 1, sd_SDP = ''x''\<rparr>, rn_Answer = None\<rparr> then Inr ''o'' else Inl ErrEOF),
     re_unreneg := (\<lambda>b. if b = ''o'' then Inr \<lparr>rn_SessionID = ''a'', rn_Offer = Some \<lparr>sd_Type = 1, sd_SDP = ''x''\<rparr>, rn_Answer = None\<rparr>
       else Inr \<lparr>rn_SessionID = '''', rn_Offer = None, rn_Answer = Some \<lparr>sd_Type = 3, sd_SDP = ''y''\<rparr>\<rparr>)\<rparr>"

theorem rtc_renegotiation_completes_witness:
  "\<exists>pkt reply s1.
       rtc_sendRenegotiation rtc_tag_env (rtc_good_pc \<lparr>sd_Type = 1, sd_SDP = ''x''\<rparr>) (\<lambda>_. SendQueued) ''a'' rtc_test_server
         = (None, [PcCreateOffer, PcSetLocal \<lparr>sd_Type = 1, sd_SDP = ''x''\<rparr>], s1)
     \<and> fst (snd (rtc_messageHandler rtc_tag_env (rtc_good_pc \<lparr>sd_Type = 3, sd_SDP = ''y''\<rparr>) None pkt ((rtc_NewClient rtc_tag_env [] [] :: dyn list rtc_client)\<lparr>cl_pc := True, cl_dc := True\<rparr>)))
         = [PcSetRemote \<lparr>sd_Type = 1, sd_SDP = ''x''\<rparr>, PcCreateAnswer, PcSetLocal \<lparr>sd_Type = 3, sd_SDP = ''y''\<rparr>]
     \<and> fst (snd (rtc_handleSocketRawData rtc_tag_env (rtc_good_pc \<lparr>sd_Type = 1, sd_SDP = ''x''\<rparr>) (\<lambda>_. SendQueued) ''a'' reply s1)) = [PcSetRemote \<lparr>sd_Type = 3, sd_SDP = ''y''\<rparr>]"
proof -
  let ?x = "\<lparr>sd_Type = 1, sd_SDP = ''x''\<rparr>" and ?y = "\<lparr>sd_Type = 3, sd_SDP = ''y''\<rparr>"
  let ?c = "(rtc_NewClient rtc_tag_env [] [])\<lparr>cl_pc := True, cl_dc := True\<rparr> :: dyn list rtc_client"
  have codec: "re_unreneg rtc_tag_env b = Inr m" if "re_reneg rtc_tag_env m = Inr b" for m b
    using that by (cases m) (auto simp: rtc_tag_env_def split: if_splits)
  have "\<exists>pkt reply s1.
       rtc_sendRenegotiation rtc_tag_env (rtc_good_pc ?x) (\<lambda>_. SendQueued) ''a'' rtc_test_server = (None, [PcCreateOffer, PcSetLocal ?x], s1)
     \<and> rtc_getSession s1 ''a'' = Some (rtc_SendMessage SendQueued pkt ((rtc_NewSession ''a'' [])\<lparr>r_table := True, r_added := 1\<rparr>))
     \<and> rtc_messageHandler rtc_tag_env (rtc_good_pc ?y) None pkt ?c
         = (None, [PcSetRemote ?x, PcCreateAnswer, PcSetLocal ?y], ?c\<lparr>cl_sent := cl_sent ?c @ [(BinaryMessage, reply)]\<rparr>)
     \<and> rtc_handleSocketRawData rtc_tag_env (rtc_good_pc ?x) (\<lambda>_. SendQueued) ''a'' reply s1 = (po_SetRemote (rtc_good_pc ?x) ?y, [PcSetRemote ?y], s1)"
    by (rule rtc_renegotiation_completes [where ?b1.0 = "''o''" and ?b2.0 = "''a''" and lo = ?x and la = ?y, OF codec])
      (auto simp: rtc_tag_env_def rtc_good_pc_def rtc_test_fields rtc_PeerConnection_def rtc_NewSession_def rtc_test_server_def rtc_NewServer_def rtc_init_def
         rtc_register_def rtc_rebuildHTTPServer_def Let_def rtc_getSession_def rtc_NewClient_def rtc_client_register_def rtc_test_env_def ws_test_env_def gomap_put_def)
  then obtain pkt reply s1 c1 e2 where
    "rtc_sendRenegotiation rtc_tag_env (rtc_good_pc ?x) (\<lambda>_. SendQueued) ''a'' rtc_test_server = (None, [PcCreateOffer, PcSetLocal ?x], s1)"
    and "rtc_messageHandler rtc_tag_env (rtc_good_pc ?y) None pkt ?c = (None, [PcSetRemote ?x, PcCreateAnswer, PcSetLocal ?y], c1)"
    and "rtc_handleSocketRawData rtc_tag_env (rtc_good_pc ?x) (\<lambda>_. SendQueued) ''a'' reply s1 = (e2, [PcSetRemote ?y], s1)" by blast
  then have "rtc_sendRenegotiation rtc_tag_env (rtc_good_pc ?x) (\<lambda>_. SendQueued) ''a'' rtc_test_server = (None, [PcCreateOffer, PcSetLocal ?x], s1)"
    and "fst (snd (rtc_messageHandler rtc_tag_env (rtc_good_pc ?y) None pkt ?c)) = [PcSetRemote ?x, PcCreateAnswer, PcSetLocal ?y]"
    and "fst (snd (rtc_handleSocketRawData rtc_tag_env (rtc_good_pc ?x) (\<lambda>_. SendQueued) ''a'' reply s1)) = [PcSetRemote ?y]"
    by (simp_all only: fst_conv snd_conv)
  then show ?thesis by blast
qed

text \<open>
  With text payloads the built-in signaling does not work: the server packs it as a binary packet nevertheless, which is no JSON, so that a client that is configured like the server
  refuses every offer for renegotiation. The hypothesis is that no JSON text begins with the control character 1.
\<close>

theorem rtc_signaling_fails_on_text:
  assumes json: "\<And>b. \<exists>e. we_json_Unmarshal (re_ws env) (CHR 0x01 # b) = Inl e" and "cl_payloadType c = PayloadTypeText"
    and "rtc_sendRenegotiation env ops (\<lambda>_. SendQueued) i s = (None, calls, s1)"
  shows "\<exists>pkt e. s1 = rtc_session_at (\<lambda>x. rtc_SendMessage SendQueued pkt x) i s \<and> rtc_messageHandler env cops wr pkt c = (Some e, [], c)"
proof -
  obtain payload where p: "s1 = rtc_session_at (\<lambda>x. rtc_SendMessage SendQueued (rtc_signal_packet payload) x) i s"
    using assms(3) by (auto simp: rtc_sendRenegotiation_def signal_packet split: sum.splits option.splits)
  obtain b where b: "rtc_signal_packet payload = CHR 0x01 # b" using signal_packet_head by blast
  obtain e where "we_json_Unmarshal (re_ws env) (CHR 0x01 # b) = Inl e" using json by blast
  then have "rtc_messageHandler env cops wr (rtc_signal_packet payload) c = (Some e, [], c)"
    using assms(2) b by (simp add: rtc_messageHandler_def rtc_unmarshalMessage_def ws_unpacket_def)
  then show ?thesis using p by blast
qed

definition rtc_text_env :: rtc_env where
  "rtc_text_env = rtc_test_env\<lparr>re_ws := ws_test_env\<lparr>we_json_Unmarshal := (\<lambda>b. Inl ErrEOF)\<rparr>\<rparr>"

theorem rtc_signaling_fails_on_text_witness:
  "\<exists>pkt e. fst (rtc_messageHandler rtc_text_env (rtc_good_pc \<lparr>sd_Type = 3, sd_SDP = ''y''\<rparr>) None pkt
        (rtc_NewClient rtc_text_env [rtc_WithClientPayloadType PayloadTypeText] ())) = Some e
     \<and> snd (snd (rtc_sendRenegotiation rtc_text_env (rtc_good_pc \<lparr>sd_Type = 1, sd_SDP = ''x''\<rparr>) (\<lambda>_. SendQueued) ''a'' rtc_test_server))
         = rtc_session_at (\<lambda>x. rtc_SendMessage SendQueued pkt x) ''a'' rtc_test_server"
proof -
  let ?c = "rtc_NewClient rtc_text_env [rtc_WithClientPayloadType PayloadTypeText] () :: unit rtc_client" and ?x = "\<lparr>sd_Type = 1, sd_SDP = ''x''\<rparr>"
  obtain s1 where s1: "rtc_sendRenegotiation rtc_text_env (rtc_good_pc ?x) (\<lambda>_. SendQueued) ''a'' rtc_test_server = (None, [PcCreateOffer, PcSetLocal ?x], s1)"
    by (simp add: rtc_sendRenegotiation_def rtc_good_pc_def rtc_text_env_def rtc_test_env_def signal_packet)
  have "cl_payloadType ?c = PayloadTypeText"
    by (simp add: rtc_NewClient_def rtc_WithClientPayloadType_def rtc_client_register_def Let_def)
  moreover have "\<exists>e. we_json_Unmarshal (re_ws rtc_text_env) (CHR 0x01 # b) = Inl e" for b by (simp add: rtc_text_env_def)
  ultimately obtain pkt e where "s1 = rtc_session_at (\<lambda>x. rtc_SendMessage SendQueued pkt x) ''a'' rtc_test_server"
    "rtc_messageHandler rtc_text_env (rtc_good_pc \<lparr>sd_Type = 3, sd_SDP = ''y''\<rparr>) None pkt ?c = (Some e, [], ?c)"
    using rtc_signaling_fails_on_text [OF _ _ s1, of ?c "rtc_good_pc \<lparr>sd_Type = 3, sd_SDP = ''y''\<rparr>" None] by blast
  then show ?thesis using s1 by (intro exI [of _ pkt] exI [of _ e]) simp
qed

end
