(* ===== verification/Mqtt_Broker.thy ===== *)
theory Mqtt_Broker
  imports Redis_Stream Broker_Table Transport_Utils
begin

text \<open>
  The MQTT driver: \<open>broker/mqtt/mqtt.go\<close>, \<open>subscriber.go\<close>, \<open>publication.go\<close>, \<open>utils.go\<close>, \<open>options.go\<close>. The client library is the environment: what
  its tokens report is given by \<open>V\<close> for \<open>Subscribe\<close> and \<open>U\<close> for \<open>Unsubscribe\<close>. The requests that succeeded on the present connection are the list
  \<open>mw_calls\<close>; \<open>mqtt_route\<close> is what they add up to: the subscriptions that are in force at the MQTT server on this connection, each with the callback of the request that was
  granted last. A connection starts without subscriptions (a clean session, the default of the driver), so that the list is empty then, whatever callbacks the library still
  has from before. \<open>onConnect\<close>, which the library runs in a goroutine, is one step together with the connection: calls that overlap with it are not in the model. A
  subscriber and its callback have the same number.
\<close>

section \<open>Addresses\<close>

text \<open>\<open>strings.Split\<close> for a separator that is not empty.\<close>

fun split_at :: "string \<Rightarrow> string \<Rightarrow> (string \<times> string) option" where
  "split_at sep [] = None"
| "split_at sep (c # cs) =
     (if take (length sep) (c # cs) = sep then Some ([], drop (length sep) (c # cs))
      else (case split_at sep cs of None \<Rightarrow> None | Some (a, b) \<Rightarrow> Some (c # a, b)))"

lemma split_at_length: "split_at sep s = Some (a, b) \<Longrightarrow> length s = length a + length sep + length b"
proof (induction s arbitrary: a)
  case (Cons c cs)
  show ?case
  proof (cases "take (length sep) (c # cs) = sep")
    case True
    then have "length sep \<le> length (c # cs)" by (metis length_take min.cobounded1)
    then show ?thesis using Cons.prems True by auto
  qed (use Cons in \<open>auto split: option.splits\<close>)
qed simp

function Split :: "string \<Rightarrow> string \<Rightarrow> string list" where
  "Split sep s =
     (if sep = [] then [s] else (case split_at sep s of None \<Rightarrow> [s] | Some (a, b) \<Rightarrow> a # Split sep b))"
  by pat_completeness auto
termination
  by (relation "measure (\<lambda>(sep, s). length s)") (auto dest: split_at_length)

declare Split.simps [simp del]

text \<open>The value that \<open>strconv.Atoi\<close> returns, whatever its error, and the verb \<open>%d\<close>.\<close>

definition Atoi_value :: "string \<Rightarrow> int" where
  "Atoi_value s =
     (let (neg, ds) = (case s of [] \<Rightarrow> (False, []) | c # cs \<Rightarrow> if c = CHR ''-'' then (True, cs) else if c = CHR ''+'' then (False, cs) else (False, s))
      in if ds = [] \<or> \<not> list_all is_digit ds then 0
         else if neg then - min (int (digits_value ds)) (2 ^ 63) else min (int (digits_value ds)) (2 ^ 63 - 1))"

definition fmt_d :: "int \<Rightarrow> string" where
  "fmt_d i = (if i < 0 then ''-'' @ Itoa (nat (- i)) else Itoa (nat i))"

text \<open>One turn of the loop in \<open>setAddrs\<close>: \<open>None\<close> when the address is skipped.\<close>

definition mqtt_port :: "string \<Rightarrow> int" where
  "mqtt_port scheme = (if scheme = ''tcp'' then 1883 else if scheme = ''ssl'' then 8883 else if scheme = ''ws'' then 80 else 1883)"

definition mqtt_addr :: "string \<Rightarrow> string option" where
  "mqtt_addr addr =
     (if length addr = 0 then None
      else let parts = Split ''://'' addr;
               (scheme, parts) = (if length parts < 2 then (''tcp'', Split '':'' (parts ! 0)) else (parts ! 0, Split '':'' (parts ! 1)))
           in if length parts = 0 then None
              else if scheme \<notin> {''tcp'', ''ssl'', ''ws''} then None
              else let (host, port) = (if length parts < 2 then (parts ! 0, mqtt_port scheme) else (parts ! 0, Atoi_value (parts ! 1)))
                   in Some (scheme @ ''://'' @ host @ '':'' @ fmt_d port))"

definition mqtt_setAddrs :: "string list \<Rightarrow> string list" where
  "mqtt_setAddrs addrs =
     (let cAddrs = concat (map (\<lambda>a. case mqtt_addr a of None \<Rightarrow> [] | Some x \<Rightarrow> [x]) addrs)
      in if length cAddrs = 0 then [''tcp://127.0.0.1:1883''] else cAddrs)"

section \<open>Options\<close>

text \<open>The values that the options of the driver put into the context; the loggers are left out.\<close>

record mqtt_options =
  mo_Addrs :: "string list"
  mo_TLSConfig :: "string option"
  mo_auth :: "(string \<times> string) option"
  mo_clientId :: "string option"
  mo_protocolVersion :: "nat option"
  mo_keepAlive :: "int option"
  mo_maxReconnectInterval :: "int option"
  mo_connectRetryInterval :: "int option"
  mo_writeTimeout :: "int option"
  mo_connectTimeout :: "int option"
  mo_pingTimeout :: "int option"
  mo_cleanSession :: "bool option"
  mo_autoReconnect :: "bool option"
  mo_resumeSubs :: "bool option"
  mo_orderMatters :: "bool option"

type_synonym mqtt_option = "mqtt_options \<Rightarrow> mqtt_options"

definition mqtt_WithCleanSession :: "bool \<Rightarrow> mqtt_option" where "mqtt_WithCleanSession enable x = x\<lparr>mo_cleanSession := Some enable\<rparr>"

definition mqtt_WithAuth :: "string \<Rightarrow> string \<Rightarrow> mqtt_option" where "mqtt_WithAuth username password x = x\<lparr>mo_auth := Some (username, password)\<rparr>"

definition mqtt_WithClientId :: "string \<Rightarrow> mqtt_option" where "mqtt_WithClientId clientId x = x\<lparr>mo_clientId := Some clientId\<rparr>"

definition mqtt_WithAutoReconnect :: "bool \<Rightarrow> mqtt_option" where "mqtt_WithAutoReconnect enable x = x\<lparr>mo_autoReconnect := Some enable\<rparr>"

definition mqtt_WithResumeSubs :: "bool \<Rightarrow> mqtt_option" where "mqtt_WithResumeSubs enable x = x\<lparr>mo_resumeSubs := Some enable\<rparr>"

definition mqtt_WithOrderMatters :: "bool \<Rightarrow> mqtt_option" where "mqtt_WithOrderMatters enable x = x\<lparr>mo_orderMatters := Some enable\<rparr>"

definition mqtt_WithKeepAlive :: "int \<Rightarrow> mqtt_option" where "mqtt_WithKeepAlive k x = x\<lparr>mo_keepAlive := Some k\<rparr>"

definition mqtt_WithMaxReconnectInterval :: "int \<Rightarrow> mqtt_option" where "mqtt_WithMaxReconnectInterval k x = x\<lparr>mo_maxReconnectInterval := Some k\<rparr>"

definition mqtt_WithConnectRetryInterval :: "int \<Rightarrow> mqtt_option" where "mqtt_WithConnectRetryInterval k x = x\<lparr>mo_connectRetryInterval := Some k\<rparr>"

definition mqtt_WithWriteTimeout :: "int \<Rightarrow> mqtt_option" where "mqtt_WithWriteTimeout k x = x\<lparr>mo_writeTimeout := Some k\<rparr>"

definition mqtt_WithConnectTimeout :: "int \<Rightarrow> mqtt_option" where "mqtt_WithConnectTimeout k x = x\<lparr>mo_connectTimeout := Some k\<rparr>"

definition mqtt_WithPingTimeout :: "int \<Rightarrow> mqtt_option" where "mqtt_WithPingTimeout k x = x\<lparr>mo_pingTimeout := Some k\<rparr>"

definition mqtt_WithProtocolVersion :: "nat \<Rightarrow> mqtt_option" where "mqtt_WithProtocolVersion pv x = x\<lparr>mo_protocolVersion := Some pv\<rparr>"

text \<open>The calls on the options of the library; a later call of the same function overrides an earlier one.\<close>

datatype paho_set =
    SetCleanSession bool | SetAutoReconnect bool | SetResumeSubs bool | SetClientID string | AddBroker string | SetTLSConfig string
  | SetUsername string | SetPassword string | SetProtocolVersion nat | SetKeepAlive int | SetMaxReconnectInterval int | SetConnectRetryInterval int
  | SetWriteTimeout int | SetConnectTimeout int | SetPingTimeout int | SetOrderMatters bool

definition given :: "('a \<Rightarrow> paho_set) \<Rightarrow> 'a option \<Rightarrow> paho_set list" where
  "given f x = (case x of None \<Rightarrow> [] | Some v \<Rightarrow> [f v])"

text \<open>\<open>gen\<close> is the ID that \<open>generateClientId\<close> makes.\<close>

definition mqtt_newClient :: "string \<Rightarrow> string list \<Rightarrow> mqtt_options \<Rightarrow> paho_set list" where
  "mqtt_newClient gen addrs x =
     [SetCleanSession True, SetAutoReconnect False, SetResumeSubs True, SetClientID gen] @ map AddBroker addrs
   @ given SetTLSConfig (mo_TLSConfig x)
   @ (case mo_auth x of None \<Rightarrow> [] | Some (u, p) \<Rightarrow> [SetUsername u, SetPassword p])
   @ (case mo_clientId x of None \<Rightarrow> [] | Some v \<Rightarrow> if v \<noteq> '''' then [SetClientID v] else [])
   @ given SetProtocolVersion (mo_protocolVersion x) @ given SetKeepAlive (mo_keepAlive x)
   @ given SetMaxReconnectInterval (mo_maxReconnectInterval x) @ given SetConnectRetryInterval (mo_connectRetryInterval x)
   @ given SetWriteTimeout (mo_writeTimeout x) @ given SetConnectTimeout (mo_connectTimeout x) @ given SetPingTimeout (mo_pingTimeout x)
   @ given SetCleanSession (mo_cleanSession x) @ given SetAutoReconnect (mo_autoReconnect x) @ given SetResumeSubs (mo_resumeSubs x)
   @ given SetOrderMatters (mo_orderMatters x)"

section \<open>The broker\<close>

record msub =
  mu_topic :: string
  mu_qos :: nat
  mu_closed :: bool

datatype mqtt_call = CallSubscribe string nat nat | CallUnsubscribe string

record mqtt_world =
  mw_calls :: "mqtt_call list"
  mw_subs :: "nat \<Rightarrow> msub"

record mqtt_broker =
  mb_addrs :: "string list"
  mb_options :: mqtt_options
  mb_client :: "paho_set list"
  mb_connected :: bool
  mb_subscribers :: "(nat, mqtt_world) sub_state"
  mb_next :: nat

definition mqtt_NewBroker :: "string \<Rightarrow> mqtt_options \<Rightarrow> (nat \<Rightarrow> msub) \<Rightarrow> mqtt_broker" where
  "mqtt_NewBroker gen opts w =
     \<lparr>mb_addrs = mo_Addrs opts, mb_options = opts, mb_client = mqtt_newClient gen (mo_Addrs opts) opts, mb_connected = False,
      mb_subscribers = (NewSubscriberSyncMap, \<lparr>mw_calls = [], mw_subs = w\<rparr>), mb_next = 0\<rparr>"

text \<open>\<open>strings.Join\<close> of the addresses.\<close>

fun join_comma :: "string list \<Rightarrow> string" where
  "join_comma [] = ''''"
| "join_comma [a] = a"
| "join_comma (a # b # as) = a @ '','' @ join_comma (b # as)"

definition mqtt_Address :: "mqtt_broker \<Rightarrow> string" where
  "mqtt_Address b = join_comma (mb_addrs b)"

definition mqtt_Init :: "string \<Rightarrow> mqtt_option list \<Rightarrow> mqtt_broker \<Rightarrow> error option \<times> mqtt_broker" where
  "mqtt_Init gen opts b =
     (if mb_connected b then (Some (ErrNew ''cannot init while connected''), b)
      else let x = fold (\<lambda>opt x. opt x) opts (mb_options b); addrs = mqtt_setAddrs (mo_Addrs x)
           in (None, b\<lparr>mb_options := x, mb_addrs := addrs, mb_client := mqtt_newClient gen addrs x\<rparr>))"

definition mqtt_call :: "mqtt_call \<Rightarrow> mqtt_world \<Rightarrow> mqtt_world" where
  "mqtt_call c w = w\<lparr>mw_calls := mw_calls w @ [c]\<rparr>"

definition doSubscribe :: "(string \<Rightarrow> nat \<Rightarrow> error option) \<Rightarrow> string \<Rightarrow> nat \<Rightarrow> nat \<Rightarrow> mqtt_world \<Rightarrow> error option \<times> mqtt_world" where
  "doSubscribe V topic qos callback w =
     (case V topic qos of Some e \<Rightarrow> (Some e, w) | None \<Rightarrow> (None, mqtt_call (CallSubscribe topic qos callback) w))"

definition mqtt_onConnect :: "(string \<Rightarrow> nat \<Rightarrow> error option) \<Rightarrow> mqtt_broker \<Rightarrow> mqtt_broker" where
  "mqtt_onConnect V b =
     (let (m, w) = mb_subscribers b
      in b\<lparr>mb_subscribers :=
             (m, SubscriberSyncMap_Foreach (\<lambda>topic i w. snd (doSubscribe V (mu_topic (mw_subs w i)) (mu_qos (mw_subs w i)) i w)) m w)\<rparr>)"

text \<open>A new connection of the client, with the callback that the library runs then.\<close>

definition mqtt_session :: "(string \<Rightarrow> nat \<Rightarrow> error option) \<Rightarrow> mqtt_broker \<Rightarrow> mqtt_broker" where
  "mqtt_session V b =
     mqtt_onConnect V (b\<lparr>mb_connected := True, mb_subscribers := (fst (mb_subscribers b), (snd (mb_subscribers b))\<lparr>mw_calls := []\<rparr>)\<rparr>)"

definition mqtt_Connect :: "(string \<Rightarrow> nat \<Rightarrow> error option) \<Rightarrow> error option \<Rightarrow> mqtt_broker \<Rightarrow> error option \<times> mqtt_broker" where
  "mqtt_Connect V dial b =
     (if mb_connected b then (None, b) else (case dial of Some e \<Rightarrow> (Some e, b) | None \<Rightarrow> (None, mqtt_session V b)))"

definition mqtt_Unsubscribe :: "(string \<Rightarrow> error option) \<Rightarrow> (nat, mqtt_world) unsub_fn" where
  "mqtt_Unsubscribe U s removeFromManager st =
     (let w = snd st; topic = mu_topic (mw_subs w s);
          w1 = (if U topic = None then mqtt_call (CallUnsubscribe topic) w else w)
      in (U topic,
          (if removeFromManager then snd (SubscriberSyncMap_RemoveOnly topic (fst st)) else fst st,
           w1\<lparr>mw_subs := (mw_subs w1)(s := (mw_subs w1 s)\<lparr>mu_closed := True\<rparr>)\<rparr>)))"

definition mb_Unsubscribe :: "(string \<Rightarrow> error option) \<Rightarrow> nat \<Rightarrow> bool \<Rightarrow> mqtt_broker \<Rightarrow> error option \<times> mqtt_broker" where
  "mb_Unsubscribe U sub rm b = (let (e, st) = mqtt_Unsubscribe U sub rm (mb_subscribers b) in (e, b\<lparr>mb_subscribers := st\<rparr>))"

definition mqtt_Disconnect :: "(string \<Rightarrow> error option) \<Rightarrow> mqtt_broker \<Rightarrow> error option \<times> mqtt_broker" where
  "mqtt_Disconnect U b =
     (if \<not> mb_connected b then (None, b)
      else (None, b\<lparr>mb_connected := False, mb_subscribers := SubscriberSyncMap_Clear (mqtt_Unsubscribe U) (mb_subscribers b)\<rparr>))"

text \<open>\<open>Subscribe\<close>; the old subscriber of the topic is given up before the new request is made.\<close>

definition mqtt_give_up :: "(string \<Rightarrow> error option) \<Rightarrow> string \<Rightarrow> (nat, mqtt_world) sub_state \<Rightarrow> (nat, mqtt_world) sub_state" where
  "mqtt_give_up U topic st = (case SubscriberSyncMap_Get (fst st) topic of Some old \<Rightarrow> snd (mqtt_Unsubscribe U old False st) | None \<Rightarrow> st)"

definition mqtt_Subscribe ::
    "(string \<Rightarrow> nat \<Rightarrow> error option) \<Rightarrow> (string \<Rightarrow> error option) \<Rightarrow> string \<Rightarrow> nat option \<Rightarrow> mqtt_broker \<Rightarrow> (error + nat) \<times> mqtt_broker" where
  "mqtt_Subscribe V U topic qosKey b =
     (if \<not> mb_connected b then (Inl (ErrNew ''not connected''), b)
      else let qos = (case qosKey of None \<Rightarrow> 1 | Some q \<Rightarrow> q);
               st = mqtt_give_up U topic (mb_subscribers b); sub = mb_next b
           in (case doSubscribe V topic qos sub (snd st) of
                 (Some e, w) \<Rightarrow> (Inl e, b\<lparr>mb_subscribers := (fst st, w)\<rparr>)
               | (None, w) \<Rightarrow>
                   (Inr sub, b\<lparr>mb_subscribers := (SubscriberSyncMap_Add topic sub (fst st),
                        w\<lparr>mw_subs := (mw_subs w)(sub := \<lparr>mu_topic = topic, mu_qos = qos, mu_closed = False\<rparr>)\<rparr>), mb_next := Suc sub\<rparr>)))"

section \<open>Lost connections\<close>

text \<open>The loop of \<open>loopConnect\<close> on the outcomes of its attempts: how long it slept between them, in seconds, and whether it returned.\<close>

fun mqtt_loopConnect :: "nat \<Rightarrow> bool list \<Rightarrow> nat list \<times> bool" where
  "mqtt_loopConnect reconnectDelay [] = ([], False)"
| "mqtt_loopConnect reconnectDelay (ok # oks) =
     (if ok then ([], True)
      else let (sleeps, returned) = mqtt_loopConnect (if reconnectDelay < 30 then reconnectDelay * 2 else reconnectDelay) oks
           in (reconnectDelay # sleeps, returned))"

text \<open>\<open>onConnectionLost\<close> up to the loop, and its end.\<close>

definition mqtt_lost :: "mqtt_broker \<Rightarrow> mqtt_broker" where
  "mqtt_lost b = b\<lparr>mb_connected := False\<rparr>"

definition mqtt_onConnectionLost :: "(string \<Rightarrow> nat \<Rightarrow> error option) \<Rightarrow> bool list \<Rightarrow> mqtt_broker \<Rightarrow> mqtt_broker" where
  "mqtt_onConnectionLost V oks b = (if snd (mqtt_loopConnect 1 oks) then mqtt_session V (mqtt_lost b) else mqtt_lost b)"

section \<open>Messages\<close>

record mqtt_pub =
  mp_topic :: string
  mp_qos :: nat
  mp_retained :: bool
  mp_payload :: dyn

definition mqtt_publish ::
    "(mqtt_pub \<Rightarrow> error option) \<Rightarrow> string \<Rightarrow> nat option \<Rightarrow> bool option \<Rightarrow> message \<Rightarrow> mqtt_broker \<Rightarrow> error option \<times> mqtt_pub option" where
  "mqtt_publish pub topic qosKey retainedKey msg b =
     (if \<not> mb_connected b then (Some (ErrNew ''not connected''), None)
      else let p = \<lparr>mp_topic = topic, mp_qos = (case qosKey of None \<Rightarrow> 1 | Some q \<Rightarrow> q),
                    mp_retained = (case retainedKey of None \<Rightarrow> False | Some r \<Rightarrow> r), mp_payload = msg_Body msg\<rparr>
           in (pub p, Some p))"

definition mqtt_internalPublish ::
    "codec \<Rightarrow> codec option \<Rightarrow> (mqtt_pub \<Rightarrow> error option) \<Rightarrow> string \<Rightarrow> nat option \<Rightarrow> bool option \<Rightarrow> message \<Rightarrow> mqtt_broker
      \<Rightarrow> error option \<times> mqtt_pub option" where
  "mqtt_internalPublish gob cod pub topic qosKey retainedKey msg b =
     (case Marshal gob cod (msg_Body msg) of
        Inl e \<Rightarrow> (Some e, None)
      | Inr buf \<Rightarrow> mqtt_publish pub topic qosKey retainedKey ((Clone msg)\<lparr>msg_Body := DBytes buf\<rparr>) b)"

text \<open>What the callback of a subscription uses, and the callback on a message with its topic and payload.\<close>

record 'w mqtt_sub =
  mk_handler :: "'w Handler"
  mk_binder :: "(unit \<Rightarrow> dyn) option"
  mk_ErrorHandler :: "'w Handler option"
  mk_gob :: codec
  mk_Codec :: "codec option"

definition mqtt_publication :: "string \<Rightarrow> bytes \<Rightarrow> dyn \<Rightarrow> error option \<Rightarrow> 'w event" where
  "mqtt_publication topic payload body err =
     \<lparr>evt_Topic = topic, evt_Message = Some (empty_message\<lparr>msg_Body := body\<rparr>), evt_RawMessage = DOther ''paho.Message'' payload,
      evt_Ack = (\<lambda>w. (None, w)), evt_Error = err\<rparr>"

definition mqtt_eh :: "'w mqtt_sub \<Rightarrow> 'w event \<Rightarrow> 'w \<Rightarrow> 'w" where
  "mqtt_eh S p w = (case mk_ErrorHandler S of None \<Rightarrow> w | Some eh \<Rightarrow> snd (eh [] (Some p) w))"

definition mqtt_body :: "'w mqtt_sub \<Rightarrow> bytes \<Rightarrow> (error \<times> dyn) + dyn" where
  "mqtt_body S payload =
     (case mk_binder S of
        None \<Rightarrow> Inr (DBytes (Some payload))
      | Some b \<Rightarrow>
          (case Unmarshal (mk_gob S) (mk_Codec S) (Some payload) (DPtr (TNamed ''interface {}'') (Some (b ()))) of
             Inl e \<Rightarrow> Inl (e, b ())
           | Inr out \<Rightarrow> Inr (case pointee out of None \<Rightarrow> DNil | Some v \<Rightarrow> v)))"

definition mqtt_callback :: "'w mqtt_sub \<Rightarrow> string \<Rightarrow> bytes \<Rightarrow> 'w \<Rightarrow> 'w" where
  "mqtt_callback S topic payload w =
     (case mqtt_body S payload of
        Inl (e, body) \<Rightarrow> mqtt_eh S (mqtt_publication topic payload body (Some e)) w
      | Inr body \<Rightarrow>
          (case mk_handler S [] (Some (mqtt_publication topic payload body None)) w of
             (Some e, w1) \<Rightarrow> mqtt_eh S (mqtt_publication topic payload body (Some e)) w1
           | (None, w1) \<Rightarrow> w1))"

section \<open>What the requests amount to\<close>

text \<open>The routes of the library: the callback that a topic has, with its quality of service.\<close>

definition route_step :: "mqtt_call \<Rightarrow> (string \<Rightarrow> (nat \<times> nat) option) \<Rightarrow> string \<Rightarrow> (nat \<times> nat) option" where
  "route_step c r = (case c of CallSubscribe t q i \<Rightarrow> r(t \<mapsto> (q, i)) | CallUnsubscribe t \<Rightarrow> r(t := None))"

definition mqtt_route :: "mqtt_world \<Rightarrow> string \<Rightarrow> (nat \<times> nat) option" where
  "mqtt_route w = fold route_step (mw_calls w) Map.empty"

text \<open>A broker that is used by one call at a time, on a client whose requests succeed.\<close>

abbreviation all_granted :: "string \<Rightarrow> nat \<Rightarrow> error option" where "all_granted t q \<equiv> None"
abbreviation all_given_up :: "string \<Rightarrow> error option" where "all_given_up t \<equiv> None"

inductive mqtt_reach :: "mqtt_broker \<Rightarrow> bool" where
  new: "mqtt_reach (mqtt_NewBroker gen opts w)"
| init: "mqtt_reach b \<Longrightarrow> mqtt_reach (snd (mqtt_Init gen opts b))"
| connect: "mqtt_reach b \<Longrightarrow> mqtt_reach (snd (mqtt_Connect all_granted dial b))"
| disconnect: "mqtt_reach b \<Longrightarrow> mqtt_reach (snd (mqtt_Disconnect all_given_up b))"
| subscribe: "mqtt_reach b \<Longrightarrow> mqtt_reach (snd (mqtt_Subscribe all_granted all_given_up topic qos b))"
| unsubscribe: "mqtt_reach b \<Longrightarrow> i < mb_next b \<Longrightarrow> mqtt_reach (snd (mb_Unsubscribe all_given_up i True b))"
| lost: "mqtt_reach b \<Longrightarrow> mqtt_reach (mqtt_lost b)"
| reconnect: "mqtt_reach b \<Longrightarrow> mqtt_reach (mqtt_onConnectionLost all_granted oks b)"

section \<open>Lemmas\<close>

interpretation mqtt_tab: subscription_table "mqtt_Unsubscribe U" "\<lambda>w s. mu_topic (mw_subs w s)" "\<lambda>w s. mu_closed (mw_subs w s)" for U
proof unfold_locales
  fix s b and st :: "(nat, mqtt_world) sub_state"
  show "fst (snd (mqtt_Unsubscribe U s b st)) = (if b then gomap_delete (mu_topic (mw_subs (snd st) s)) (fst st) else fst st)"
    by (auto simp: mqtt_Unsubscribe_def Let_def SubscriberSyncMap_RemoveOnly_def dom_gomap [symmetric] domIff gomap_delete_absent split: option.splits)
qed (auto simp: mqtt_Unsubscribe_def mqtt_call_def Let_def fun_eq_iff)

lemma route_call [simp]: "mqtt_route (mqtt_call c w) = route_step c (mqtt_route w)"
  by (simp add: mqtt_route_def mqtt_call_def)

lemma route_frame [simp]: "mqtt_route (w\<lparr>mw_subs := f\<rparr>) = mqtt_route w" "mqtt_route (w\<lparr>mw_calls := []\<rparr>) = Map.empty"
  by (simp_all add: mqtt_route_def)

lemma call_subs [simp]: "mw_subs (mqtt_call c w) = mw_subs w"
  by (simp add: mqtt_call_def)

lemma onConnect_world:
  assumes "gomap_wf m"
  shows "SubscriberSyncMap_Foreach (\<lambda>topic i w. snd (doSubscribe all_granted (mu_topic (mw_subs w i)) (mu_qos (mw_subs w i)) i w)) m w
       = w\<lparr>mw_calls := mw_calls w @ map (\<lambda>(t, i). CallSubscribe (mu_topic (mw_subs w i)) (mu_qos (mw_subs w i)) i) m\<rparr>"
  unfolding SubscriberSyncMap_Foreach_def
  by (induction m arbitrary: w) (auto simp: doSubscribe_def mqtt_call_def)

lemma fold_routes:
  assumes "gomap_wf m" "\<And>t i. (t, i) \<in> set m \<Longrightarrow> mu_topic (f i) = t"
  shows "fold route_step (map (\<lambda>(t, i). CallSubscribe (mu_topic (f i)) (mu_qos (f i)) i) m) r
       = r ++ (\<lambda>t. map_option (\<lambda>i. (mu_qos (f i), i)) (map_of m t))"
  using assms
proof (induction m arbitrary: r)
  case (Cons x m)
  obtain t i where x: "x = (t, i)" by force
  have "map_of m t = None" using Cons.prems(1) x by (simp add: map_of_eq_None_iff)
  then show ?case using Cons x by (auto simp: route_step_def map_add_def fun_eq_iff split: option.split)
qed simp

definition mqtt_table_ok :: "mqtt_broker \<Rightarrow> bool" where
  "mqtt_table_ok b \<longleftrightarrow> gomap_wf (fst (mb_subscribers b))
     \<and> (\<forall>(t, i)\<in>set (fst (mb_subscribers b)). i < mb_next b \<and> mu_topic (mw_subs (snd (mb_subscribers b)) i) = t)"

definition mqtt_ok :: "mqtt_broker \<Rightarrow> bool" where
  "mqtt_ok b \<longleftrightarrow> mqtt_table_ok b \<and> (\<forall>(t, i)\<in>set (fst (mb_subscribers b)). \<not> mu_closed (mw_subs (snd (mb_subscribers b)) i))
     \<and> (mb_connected b \<longrightarrow> (\<forall>t. mqtt_route (snd (mb_subscribers b)) t
          = map_option (\<lambda>i. (mu_qos (mw_subs (snd (mb_subscribers b)) i), i)) (map_of (fst (mb_subscribers b)) t)))"

lemma session_routes:
  assumes "mqtt_table_ok b"
  shows "mb_connected (mqtt_session all_granted b)" "fst (mb_subscribers (mqtt_session all_granted b)) = fst (mb_subscribers b)"
    "mw_subs (snd (mb_subscribers (mqtt_session all_granted b))) = mw_subs (snd (mb_subscribers b))" "mb_next (mqtt_session all_granted b) = mb_next b"
    "mqtt_route (snd (mb_subscribers (mqtt_session all_granted b))) t
       = map_option (\<lambda>i. (mu_qos (mw_subs (snd (mb_subscribers b)) i), i)) (map_of (fst (mb_subscribers b)) t)"
proof -
  obtain m w where st: "mb_subscribers b = (m, w)" by force
  have wf: "gomap_wf m" and tp: "\<And>t i. (t, i) \<in> set m \<Longrightarrow> mu_topic (mw_subs w i) = t" using assms by (auto simp: mqtt_table_ok_def st)
  have eq: "mqtt_session all_granted b = b\<lparr>mb_connected := True,
      mb_subscribers := (m, w\<lparr>mw_calls := map (\<lambda>(t, i). CallSubscribe (mu_topic (mw_subs w i)) (mu_qos (mw_subs w i)) i) m\<rparr>)\<rparr>"
    using onConnect_world [OF wf, of "w\<lparr>mw_calls := []\<rparr>"] by (simp add: mqtt_session_def mqtt_onConnect_def st)
  show "mb_connected (mqtt_session all_granted b)" "fst (mb_subscribers (mqtt_session all_granted b)) = fst (mb_subscribers b)"
    "mw_subs (snd (mb_subscribers (mqtt_session all_granted b))) = mw_subs (snd (mb_subscribers b))" "mb_next (mqtt_session all_granted b) = mb_next b"
    by (simp_all add: eq st)
  show "mqtt_route (snd (mb_subscribers (mqtt_session all_granted b))) t
       = map_option (\<lambda>i. (mu_qos (mw_subs (snd (mb_subscribers b)) i), i)) (map_of (fst (mb_subscribers b)) t)"
    using fold_routes [OF wf, where f = "mw_subs w" and r = Map.empty] tp by (simp add: eq st mqtt_route_def)
qed

lemma session_ok: "mqtt_ok b \<Longrightarrow> mqtt_ok (mqtt_session all_granted b)"
  using session_routes [of b] by (simp add: mqtt_ok_def mqtt_table_ok_def)

text \<open>What giving up a subscriber does, and the new subscriber of a topic.\<close>

lemma give_up_fields:
  "fst (mqtt_give_up U topic st) = fst st"
  "mw_subs (snd (mqtt_give_up U topic st)) = (case map_of (fst st) topic of None \<Rightarrow> mw_subs (snd st)
      | Some old \<Rightarrow> (mw_subs (snd st))(old := (mw_subs (snd st) old)\<lparr>mu_closed := True\<rparr>))"
  "mqtt_route (snd (mqtt_give_up all_given_up topic st)) = (case map_of (fst st) topic of None \<Rightarrow> mqtt_route (snd st)
      | Some old \<Rightarrow> (mqtt_route (snd st))(mu_topic (mw_subs (snd st) old) := None))"
  by (auto simp: mqtt_give_up_def mqtt_Unsubscribe_def Let_def SubscriberSyncMap_Get_def route_step_def split: option.split)

text \<open>A request that is granted makes the new subscriber the one of its topic, in the table and on the client.\<close>

lemma subscribe_fields:
  fixes q :: "nat option" and topic :: string
  assumes "mqtt_table_ok b" and "mb_connected b"
  defines "b' \<equiv> snd (mqtt_Subscribe all_granted all_given_up topic q b)" and "n \<equiv> mb_next b"
    and "m \<equiv> fst (mb_subscribers b)" and "w \<equiv> snd (mb_subscribers b)" and "qos \<equiv> (case q of None \<Rightarrow> 1 | Some q \<Rightarrow> q)"
  shows "fst (mqtt_Subscribe all_granted all_given_up topic q b) = Inr n" "fst (mb_subscribers b') = gomap_put topic n m" "mb_next b' = Suc n"
    "mb_connected b'" "mw_subs (snd (mb_subscribers b')) n = \<lparr>mu_topic = topic, mu_qos = qos, mu_closed = False\<rparr>"
    "\<And>i. i \<noteq> n \<Longrightarrow> map_of m topic \<noteq> Some i \<Longrightarrow> mw_subs (snd (mb_subscribers b')) i = mw_subs w i"
    "mqtt_route (snd (mb_subscribers b')) = (mqtt_route w)(topic \<mapsto> (qos, n))"
proof -
  note g = give_up_fields [where st = "mb_subscribers b" and topic = topic, folded m_def w_def]
  have old: "mu_topic (mw_subs w i) = topic" if "map_of m topic = Some i" for i
    using that assms(1) by (auto simp: mqtt_table_ok_def m_def w_def dest: map_of_SomeD)
  have eq: "mqtt_Subscribe all_granted all_given_up topic q b =
      (Inr n, b\<lparr>mb_subscribers := (SubscriberSyncMap_Add topic n m,
         (mqtt_call (CallSubscribe topic qos n) (snd (mqtt_give_up all_given_up topic (mb_subscribers b))))
           \<lparr>mw_subs := (mw_subs (snd (mqtt_give_up all_given_up topic (mb_subscribers b))))(n := \<lparr>mu_topic = topic, mu_qos = qos, mu_closed = False\<rparr>)\<rparr>),
         mb_next := Suc n\<rparr>)"
    using assms(2) g(1) by (simp add: mqtt_Subscribe_def doSubscribe_def Let_def n_def qos_def)
  show "fst (mqtt_Subscribe all_granted all_given_up topic q b) = Inr n" "fst (mb_subscribers b') = gomap_put topic n m" "mb_next b' = Suc n"
    "mb_connected b'" "mw_subs (snd (mb_subscribers b')) n = \<lparr>mu_topic = topic, mu_qos = qos, mu_closed = False\<rparr>"
    using assms(2) by (simp_all add: b'_def eq SubscriberSyncMap_Add_def)
  show "mw_subs (snd (mb_subscribers b')) i = mw_subs w i" if "i \<noteq> n" "map_of m topic \<noteq> Some i" for i
    using that g(2) by (auto simp: b'_def eq split: option.split)
  show "mqtt_route (snd (mb_subscribers b')) = (mqtt_route w)(topic \<mapsto> (qos, n))"
    using g(3) old by (auto simp: b'_def eq route_step_def fun_eq_iff split: option.split)
qed

lemma subscribe_ok:
  assumes "mqtt_ok b"
  shows "mqtt_ok (snd (mqtt_Subscribe all_granted all_given_up topic q b))"
proof (cases "mb_connected b")
  case False
  then show ?thesis using assms by (simp add: mqtt_Subscribe_def)
next
  case True
  obtain m w where st: "mb_subscribers b = (m, w)" by force
  define n where "n = mb_next b"
  define b' where "b' = snd (mqtt_Subscribe all_granted all_given_up topic q b)"
  have tab: "mqtt_table_ok b" using assms by (simp add: mqtt_ok_def)
  have wf: "gomap_wf m" and mem: "\<And>t i. (t, i) \<in> set m \<Longrightarrow> i < n \<and> mu_topic (mw_subs w i) = t \<and> \<not> mu_closed (mw_subs w i)"
    and route: "\<And>t. mqtt_route w t = map_option (\<lambda>i. (mu_qos (mw_subs w i), i)) (map_of m t)"
    using assms True by (auto simp: mqtt_ok_def mqtt_table_ok_def st n_def)
  note f = subscribe_fields [OF tab True, where topic = topic and q = q, folded b'_def n_def, unfolded st fst_conv snd_conv]
  have wf': "gomap_wf (gomap_put topic n m)" using wf by blast
  have put: "t = topic \<and> i = n \<or> t \<noteq> topic \<and> (t, i) \<in> set m" if "(t, i) \<in> set (gomap_put topic n m)" for t i
    using map_of_is_SomeI [OF wf' that] by (auto split: if_splits dest: map_of_SomeD)
  have keep: "mw_subs (snd (mb_subscribers b')) i = mw_subs w i" if "(t, i) \<in> set m" "t \<noteq> topic" for t i
  proof (rule f(6))
    show "i \<noteq> n" using mem [OF that(1)] by simp
    show "map_of m topic \<noteq> Some i" using mem [OF that(1)] mem [of topic i] that(2) by (auto dest: map_of_SomeD)
  qed
  have "i < Suc n \<and> mu_topic (mw_subs (snd (mb_subscribers b')) i) = t \<and> \<not> mu_closed (mw_subs (snd (mb_subscribers b')) i)"
    if "(t, i) \<in> set (gomap_put topic n m)" for t i
    using put [OF that] mem [of t i] keep [of t i] f(5) by auto
  moreover have "mqtt_route (snd (mb_subscribers b')) t = map_option (\<lambda>i. (mu_qos (mw_subs (snd (mb_subscribers b')) i), i)) (map_of (gomap_put topic n m) t)" for t
    using route [of t] keep [of t] f(5,7) by (cases "map_of m t") (auto dest: map_of_SomeD)
  ultimately show ?thesis
    unfolding b'_def [symmetric] using wf' f(2,3) by (auto simp: mqtt_ok_def mqtt_table_ok_def)
qed

lemma unsubscribe_ok:
  assumes "mqtt_ok b"
  shows "mqtt_ok (snd (mb_Unsubscribe all_given_up i True b))"
proof -
  obtain m w where st: "mb_subscribers b = (m, w)" by force
  define t0 where "t0 = mu_topic (mw_subs w i)"
  define f where "f = (mw_subs w)(i := (mw_subs w i)\<lparr>mu_closed := True\<rparr>)"
  have mem: "\<And>t j. (t, j) \<in> set m \<Longrightarrow> j < mb_next b \<and> mu_topic (mw_subs w j) = t \<and> \<not> mu_closed (mw_subs w j)"
    and wf: "gomap_wf m" using assms by (auto simp: mqtt_ok_def mqtt_table_ok_def st)
  have del: "snd (SubscriberSyncMap_RemoveOnly t0 m) = gomap_delete t0 m"
    by (auto simp: SubscriberSyncMap_RemoveOnly_def dom_gomap [symmetric] domIff gomap_delete_absent)
  have eq: "snd (mb_Unsubscribe all_given_up i True b) = b\<lparr>mb_subscribers := (gomap_delete t0 m,
      (mqtt_call (CallUnsubscribe t0) w)\<lparr>mw_subs := f\<rparr>)\<rparr>"
    by (simp add: mb_Unsubscribe_def mqtt_Unsubscribe_def st Let_def t0_def [symmetric] f_def [symmetric] del)
  have rest: "(t, j) \<in> set m \<and> t \<noteq> t0 \<and> j \<noteq> i" if "(t, j) \<in> set (gomap_delete t0 m)" for t j
    using that mem [of t j] by (auto simp: gomap_delete_def AList.delete_eq t0_def)
  have look: "map_of m t = Some i \<Longrightarrow> t = t0" for t using mem [of t i] by (auto simp: t0_def dest: map_of_SomeD)
  have 1: "j < mb_next b \<and> mu_topic (f j) = t \<and> \<not> mu_closed (f j)" if "(t, j) \<in> set (gomap_delete t0 m)" for t j
    using rest [OF that] mem [of t j] by (simp add: f_def)
  have 2: "(mqtt_route w)(t0 := None) = (\<lambda>t. map_option (\<lambda>i. (mu_qos (f i), i)) (map_of (gomap_delete t0 m) t))" if "mb_connected b"
  proof
    fix t
    have "mqtt_route w t = map_option (\<lambda>i. (mu_qos (mw_subs w i), i)) (map_of m t)" using assms that by (simp add: mqtt_ok_def st)
    then show "((mqtt_route w)(t0 := None)) t = map_option (\<lambda>i. (mu_qos (f i), i)) (map_of (gomap_delete t0 m) t)"
      by (cases "map_of m t") (auto simp: f_def)
  qed
  have 3: "gomap_wf (gomap_delete t0 m)" using wf by blast
  show ?thesis
    unfolding mqtt_ok_def mqtt_table_ok_def eq using 3 by (auto simp: route_step_def 2 dest: 1 simp del: map_of_gomap_delete)
qed

lemma mqtt_reach_ok: "mqtt_reach b \<Longrightarrow> mqtt_ok b"
proof (induction rule: mqtt_reach.induct)
  case (new gen opts w)
  show ?case by (simp add: mqtt_ok_def mqtt_table_ok_def mqtt_NewBroker_def NewSubscriberSyncMap_def)
next
  case (init b gen opts)
  then show ?case by (simp add: mqtt_Init_def Let_def mqtt_ok_def mqtt_table_ok_def)
next
  case (connect b dial)
  then show ?case by (simp add: mqtt_Connect_def session_ok split: option.split)
next
  case (disconnect b)
  then show ?case
    using mqtt_tab.Clear_closes_all [of all_given_up "mb_subscribers b"] by (simp add: mqtt_Disconnect_def mqtt_ok_def mqtt_table_ok_def)
next
  case (lost b)
  then show ?case by (simp add: mqtt_lost_def mqtt_ok_def mqtt_table_ok_def)
next
  case (reconnect b oks)
  then have "mqtt_ok (mqtt_lost b)" by (simp add: mqtt_lost_def mqtt_ok_def mqtt_table_ok_def)
  then show ?case by (simp add: mqtt_onConnectionLost_def session_ok)
qed (simp_all add: subscribe_ok unsubscribe_ok)

text \<open>Splitting an address that \<open>setAddrs\<close> made.\<close>

lemma split_at_pieces: "split_at [c] s = None \<Longrightarrow> c \<notin> set s" "split_at [c] s = Some (a, b) \<Longrightarrow> c \<notin> set a"
  by (induction s arbitrary: a) (auto split: if_splits option.splits)

lemma Split_pieces: "x \<in> set (Split [c] s) \<Longrightarrow> c \<notin> set x"
proof (induction s rule: length_induct)
  case (1 s)
  show ?case
  proof (cases "split_at [c] s")
    case None
    then have "x = s" using 1(2) by (subst (asm) Split.simps) simp
    then show ?thesis using split_at_pieces(1) [OF None] by simp
  next
    case (Some p)
    obtain a b where p: "p = (a, b)" by force
    then have "x = a \<or> x \<in> set (Split [c] b)" using 1(2) Some by (subst (asm) Split.simps) simp
    moreover have "length b < length s" using split_at_length [of "[c]" s a b] Some p by simp
    ultimately show ?thesis using 1(1) split_at_pieces(2) [of c s a b] Some p by blast
  qed
qed

lemma split_at_once:
  assumes "CHR '':'' \<notin> set a"
  shows "split_at ''://'' (a @ ''://'' @ b) = Some (a, b)"
  using assms by (induction a) auto

lemma split_at_none:
  assumes "CHR '':'' \<notin> set h" and "CHR '':'' \<notin> set p" and "CHR ''/'' \<notin> set p"
  shows "split_at ''://'' (h @ '':'' @ p) = None"
proof -
  have p: "split_at ''://'' p = None" using assms(2) by (induction p) auto
  have "take (Suc (Suc 0)) p \<noteq> ''//''" using assms(3) by (cases p) auto
  then have "split_at ''://'' ('':'' @ p) = None" using p by simp
  then show ?thesis using assms(1) by (induction h) auto
qed

lemma split_at_colon:
  assumes "CHR '':'' \<notin> set h" and "CHR '':'' \<notin> set p"
  shows "Split '':'' (h @ '':'' @ p) = [h, p]"
proof -
  have "split_at '':'' p = None" using assms(2) by (induction p) auto
  moreover have "split_at '':'' (h @ '':'' @ p) = Some (h, p)" using assms(1) by (induction h) auto
  ultimately show ?thesis by (simp add: Split.simps [of "'':''"])
qed

lemma digits_plain: "list_all is_digit s \<Longrightarrow> CHR '':'' \<notin> set s \<and> CHR ''/'' \<notin> set s \<and> CHR ''-'' \<notin> set s \<and> CHR ''+'' \<notin> set s"
  by (induction s) (auto simp: is_digit_def)

lemma fmt_d_plain: "CHR '':'' \<notin> set (fmt_d i)" "CHR ''/'' \<notin> set (fmt_d i)"
  using digits_plain [OF Itoa_digits] by (auto simp: fmt_d_def)

lemma Atoi_fmt:
  assumes "- (2 ^ 63) \<le> i" "i < 2 ^ 63"
  shows "Atoi_value (fmt_d i) = i"
proof (cases "i < 0")
  case True
  then show ?thesis using assms by (simp add: fmt_d_def Atoi_value_def Itoa_digits Itoa_value)
next
  case False
  obtain c cs where c: "Itoa (nat i) = c # cs" by (cases "Itoa (nat i)") auto
  then have "c \<noteq> CHR ''-''" "c \<noteq> CHR ''+''" using digits_plain [OF Itoa_digits, of "nat i"] by auto
  moreover have "list_all is_digit (c # cs)" "digits_value (c # cs) = nat i" using Itoa_digits Itoa_value by (simp_all flip: c)
  ultimately show ?thesis using False assms by (simp add: fmt_d_def c Atoi_value_def)
qed

lemma Atoi_range: "- (2 ^ 63) \<le> Atoi_value s" "Atoi_value s < 2 ^ 63"
  by (auto simp: Atoi_value_def Let_def split: prod.split)

lemma mqtt_addr_of:
  assumes "scheme \<in> {''tcp'', ''ssl'', ''ws''}" and "CHR '':'' \<notin> set host" and "- (2 ^ 63) \<le> port" "port < 2 ^ 63"
  shows "mqtt_addr (scheme @ ''://'' @ host @ '':'' @ fmt_d port) = Some (scheme @ ''://'' @ host @ '':'' @ fmt_d port)"
proof -
  have sc: "CHR '':'' \<notin> set scheme" using assms(1) by auto
  let ?r = "host @ '':'' @ fmt_d port"
  have "Split ''://'' ?r = [?r]" using split_at_none [OF assms(2) fmt_d_plain] by (subst Split.simps) simp
  then have "Split ''://'' (scheme @ ''://'' @ ?r) = [scheme, ?r]"
    using split_at_once [OF sc, of ?r] by (subst Split.simps) simp
  moreover have "Split '':'' ?r = [host, fmt_d port]" using split_at_colon [OF assms(2) fmt_d_plain(1)] .
  ultimately show ?thesis using assms(1) Atoi_fmt [OF assms(3,4)] by (simp add: mqtt_addr_def Let_def)
qed

lemma mqtt_addr_form:
  assumes "mqtt_addr a = Some x"
  shows "\<exists>scheme host port. scheme \<in> {''tcp'', ''ssl'', ''ws''} \<and> CHR '':'' \<notin> set host \<and> - (2 ^ 63) \<le> port \<and> port < 2 ^ 63
     \<and> x = scheme @ ''://'' @ host @ '':'' @ fmt_d port"
proof -
  let ?p0 = "Split ''://'' a"
  define scheme where "scheme = (if length ?p0 < 2 then ''tcp'' else ?p0 ! 0)"
  define parts where "parts = Split '':'' (if length ?p0 < 2 then ?p0 ! 0 else ?p0 ! 1)"
  define port where "port = (if length parts < 2 then mqtt_port scheme else Atoi_value (parts ! 1))"
  have x: "parts \<noteq> []" "scheme \<in> {''tcp'', ''ssl'', ''ws''}" "x = scheme @ ''://'' @ parts ! 0 @ '':'' @ fmt_d port"
    using assms by (auto simp: mqtt_addr_def Let_def scheme_def parts_def port_def split: if_splits)
  have "CHR '':'' \<notin> set y" if "y \<in> set parts" for y using that Split_pieces unfolding parts_def by blast
  then have "CHR '':'' \<notin> set (parts ! 0)" using x(1) by simp
  moreover have "- (2 ^ 63) \<le> port \<and> port < 2 ^ 63" using Atoi_range by (simp add: port_def mqtt_port_def)
  ultimately show ?thesis using x by blast
qed

section \<open>Properties\<close>

text \<open>
  On a client whose requests succeed, the subscriptions in force on the connection and the subscription table of the broker agree whenever the broker is connected and \<open>onConnect\<close> has
  returned, across replaced subscriptions, disconnections and lost connections: the callback of a topic is the one of the subscriber that the table has for
  it, with its quality of service; and no subscriber of the table is closed. Calls run one after the other, and subscribers are given up with \<open>Unsubscribe(true)\<close>.
\<close>

theorem mqtt_routes_follow_table:
  assumes "mqtt_reach b"
  shows "(mb_connected b \<longrightarrow> (\<forall>t. mqtt_route (snd (mb_subscribers b)) t
            = map_option (\<lambda>i. (mu_qos (mw_subs (snd (mb_subscribers b)) i), i)) (SubscriberSyncMap_Get (fst (mb_subscribers b)) t)))
       \<and> (\<forall>t i. SubscriberSyncMap_Get (fst (mb_subscribers b)) t = Some i \<longrightarrow>
            mu_topic (mw_subs (snd (mb_subscribers b)) i) = t \<and> \<not> mu_closed (mw_subs (snd (mb_subscribers b)) i))"
  using mqtt_reach_ok [OF assms] by (auto simp: mqtt_ok_def mqtt_table_ok_def SubscriberSyncMap_Get_def dest: map_of_SomeD)

definition demo_mqtt_options :: mqtt_options where
  "demo_mqtt_options = \<lparr>mo_Addrs = [], mo_TLSConfig = None, mo_auth = None, mo_clientId = None, mo_protocolVersion = None, mo_keepAlive = None,
     mo_maxReconnectInterval = None, mo_connectRetryInterval = None, mo_writeTimeout = None, mo_connectTimeout = None, mo_pingTimeout = None,
     mo_cleanSession = None, mo_autoReconnect = None, mo_resumeSubs = None, mo_orderMatters = None\<rparr>"

definition demo_msubs :: "nat \<Rightarrow> msub" where "demo_msubs i = \<lparr>mu_topic = '''', mu_qos = 0, mu_closed = False\<rparr>"

definition demo_mqtt :: mqtt_broker where
  "demo_mqtt = snd (mqtt_Subscribe all_granted all_given_up ''t'' (Some 2) (snd (mqtt_Connect all_granted None (mqtt_NewBroker ''id'' demo_mqtt_options demo_msubs))))"

lemma demo_mqtt_reach: "mqtt_reach demo_mqtt"
  unfolding demo_mqtt_def by (intro mqtt_reach.intros)

lemma demo_mqtt_fields: "mb_connected demo_mqtt" "fst (mb_subscribers demo_mqtt) = [(''t'', 0)]"
  "mw_subs (snd (mb_subscribers demo_mqtt)) 0 = \<lparr>mu_topic = ''t'', mu_qos = 2, mu_closed = False\<rparr>" "mb_next demo_mqtt = 1"
  by (simp_all add: demo_mqtt_def mqtt_Connect_def mqtt_session_def mqtt_onConnect_def mqtt_NewBroker_def NewSubscriberSyncMap_def SubscriberSyncMap_Foreach_def
      mqtt_Subscribe_def mqtt_give_up_def doSubscribe_def SubscriberSyncMap_Add_def SubscriberSyncMap_Get_def gomap_put_def Let_def)

theorem mqtt_routes_follow_table_witness:
  "mqtt_route (snd (mb_subscribers (mqtt_onConnectionLost all_granted [False, True] demo_mqtt))) ''t'' = Some (2, 0)"
proof -
  let ?b = "mqtt_onConnectionLost all_granted [False, True] demo_mqtt"
  have t: "mqtt_table_ok (mqtt_lost demo_mqtt)" using mqtt_reach_ok [OF mqtt_reach.lost [OF demo_mqtt_reach]] by (simp add: mqtt_ok_def)
  have b: "?b = mqtt_session all_granted (mqtt_lost demo_mqtt)" by (simp add: mqtt_onConnectionLost_def)
  have "mb_connected ?b" "fst (mb_subscribers ?b) = [(''t'', 0)]" "mu_qos (mw_subs (snd (mb_subscribers ?b)) 0) = 2"
    unfolding b using session_routes(1-3) [OF t] demo_mqtt_fields by (simp_all add: mqtt_lost_def)
  then show ?thesis
    using mqtt_routes_follow_table [OF mqtt_reach.reconnect [OF demo_mqtt_reach, of "[False, True]"]] by (simp add: SubscriberSyncMap_Get_def)
qed

text \<open>
  A connection that was lost comes back with subscriptions that were given up. While the client reconnects, the broker counts as not connected, so that \<open>Disconnect\<close> does
  nothing and the loop goes on; and a subscriber that was closed with \<open>Unsubscribe(false)\<close>, as the server does, is still in the table: the new connection
  subscribes its topic again with its callback.
\<close>

theorem mqtt_reconnect_revives_closed:
  fixes U :: "string \<Rightarrow> error option"
  assumes "mqtt_reach b" and "SubscriberSyncMap_Get (fst (mb_subscribers b)) t = Some i"
  defines "b1 \<equiv> snd (mqtt_Disconnect U (snd (mb_Unsubscribe U i False (mqtt_lost b))))"
  shows "mu_closed (mw_subs (snd (mb_subscribers b1)) i) \<and> fst (mqtt_Disconnect U b1) = None
     \<and> mb_connected (mqtt_onConnectionLost all_granted (replicate n False @ [True]) b1)
     \<and> mqtt_route (snd (mb_subscribers (mqtt_onConnectionLost all_granted (replicate n False @ [True]) b1))) t = Some (mu_qos (mw_subs (snd (mb_subscribers b)) i), i)"
proof -
  obtain m w where st: "mb_subscribers b = (m, w)" by force
  have b1: "b1 = snd (mb_Unsubscribe U i False (mqtt_lost b))" "\<not> mb_connected b1"
    by (simp_all add: b1_def mqtt_Disconnect_def mb_Unsubscribe_def mqtt_lost_def Let_def case_prod_unfold)
  have f: "fst (mb_subscribers b1) = m" "mw_subs (snd (mb_subscribers b1)) = (mw_subs w)(i := (mw_subs w i)\<lparr>mu_closed := True\<rparr>)" "mb_next b1 = mb_next b"
    by (simp_all add: b1(1) mb_Unsubscribe_def mqtt_Unsubscribe_def mqtt_lost_def st Let_def)
  have "mqtt_table_ok b" using mqtt_reach_ok [OF assms(1)] by (simp add: mqtt_ok_def)
  then have t: "mqtt_table_ok b1" by (auto simp: mqtt_table_ok_def f st)
  then have tl: "mqtt_table_ok (mqtt_lost b1)" by (simp add: mqtt_table_ok_def mqtt_lost_def)
  have loop: "snd (mqtt_loopConnect d (replicate n False @ [True]))" for d by (induction n arbitrary: d) (simp_all add: case_prod_unfold)
  show ?thesis
    using assms(2) f b1(2) session_routes(1,5) [OF tl]
    by (simp add: mqtt_onConnectionLost_def loop mqtt_Disconnect_def SubscriberSyncMap_Get_def st mqtt_lost_def)
qed

theorem mqtt_reconnect_revives_closed_witness:
  "mqtt_route (snd (mb_subscribers (mqtt_onConnectionLost all_granted [False, True]
      (snd (mqtt_Disconnect all_given_up (snd (mb_Unsubscribe all_given_up 0 False (mqtt_lost demo_mqtt)))))))) ''t'' = Some (2, 0)"
  using mqtt_reconnect_revives_closed [OF demo_mqtt_reach, of "''t''" 0 all_given_up 1] by (simp add: SubscriberSyncMap_Get_def demo_mqtt_fields)

text \<open>
  The loop that reconnects returns at the first attempt that succeeds, and its pauses before that are 1, 2, 4, 8, 16 seconds and 32 seconds from then on: the
  delay is doubled while it is below the maximum of 30 seconds that the code names, so that it passes it.
\<close>

theorem mqtt_loopConnect_schedule:
  "mqtt_loopConnect 1 (replicate n False @ True # oks) = (map (\<lambda>i. 2 ^ min i 5) [0..<n], True)"
proof -
  have "mqtt_loopConnect (2 ^ min k 5) (replicate n False @ True # oks) = (map (\<lambda>i. 2 ^ min i 5) [k..<k + n], True)" for k
  proof (induction n arbitrary: k)
    case (Suc n)
    have p: "(2 :: nat) ^ min k 5 < 30 \<longleftrightarrow> k < 5"
    proof (cases "k < 5")
      case True
      then have "k \<in> {0, 1, 2, 3, 4}" by auto
      then show ?thesis by auto
    qed simp
    have "(if (2 :: nat) ^ min k 5 < 30 then 2 ^ min k 5 * 2 else 2 ^ min k 5) = (2 :: nat) ^ min (Suc k) 5"
      unfolding p by (cases "k < 5") (simp_all add: min_def)
    then show ?case using Suc.IH [of "Suc k"] by (simp add: upt_rec [of k] del: upt_Suc)
  qed simp
  from this [of 0] show ?thesis by simp
qed

text \<open>
  Normalizing addresses is idempotent: every address that \<open>setAddrs\<close> returns has one of the three schemes, a host and a port, the function maps it to itself, and
  there is always at least one address.
\<close>

theorem mqtt_setAddrs_idempotent:
  "mqtt_setAddrs addrs \<noteq> [] \<and> mqtt_setAddrs (mqtt_setAddrs addrs) = mqtt_setAddrs addrs
     \<and> list_all (\<lambda>x. \<exists>scheme host port. scheme \<in> {''tcp'', ''ssl'', ''ws''} \<and> CHR '':'' \<notin> set host \<and> x = scheme @ ''://'' @ host @ '':'' @ fmt_d port) (mqtt_setAddrs addrs)"
proof -
  let ?f = "\<lambda>a. case mqtt_addr a of None \<Rightarrow> [] | Some x \<Rightarrow> [x]"
  have form: "\<exists>scheme host port. scheme \<in> {''tcp'', ''ssl'', ''ws''} \<and> CHR '':'' \<notin> set host \<and> - (2 ^ 63) \<le> port \<and> port < 2 ^ 63
     \<and> x = scheme @ ''://'' @ host @ '':'' @ fmt_d port" if "x \<in> set (mqtt_setAddrs addrs)" for x
  proof (cases "concat (map ?f addrs) = []")
    case True
    then have x: "x = ''tcp://127.0.0.1:1883''" using that by (simp add: mqtt_setAddrs_def Let_def)
    have "fmt_d 1883 = ''1883''" by (simp add: fmt_d_def Itoa.simps digit_char_def char_of_def bit_0)
    then show ?thesis unfolding x by (intro exI [of _ "''tcp''"] exI [of _ "''127.0.0.1''"] exI [of _ 1883]) simp
  next
    case False
    then have "x \<in> set (concat (map ?f addrs))" using that by (simp add: mqtt_setAddrs_def Let_def split: if_splits)
    then obtain a where "mqtt_addr a = Some x" by (auto split: option.splits)
    then show ?thesis by (rule mqtt_addr_form)
  qed
  then have fix1: "mqtt_addr x = Some x" if "x \<in> set (mqtt_setAddrs addrs)" for x using form [OF that] mqtt_addr_of by force
  have ne: "mqtt_setAddrs addrs \<noteq> []" by (simp add: mqtt_setAddrs_def Let_def)
  have "concat (map ?f xs) = xs" if "\<And>x. x \<in> set xs \<Longrightarrow> mqtt_addr x = Some x" for xs using that by (induction xs) auto
  from this [OF fix1] have "mqtt_setAddrs (mqtt_setAddrs addrs) = mqtt_setAddrs addrs" using ne by (simp add: mqtt_setAddrs_def [of "mqtt_setAddrs addrs"] Let_def)
  then show ?thesis using ne form unfolding list_all_iff by blast
qed

text \<open>
  A message that is published to a topic reaches the typed handler of a subscription to it with the body that was published. Its headers do not travel: the handler gets none, and what is
  published does not depend on them, so that a request over MQTT arrives without the topic and the ID for its answer, and \<open>ReplyTo\<close> refuses.
\<close>

theorem mqtt_publish_consume_roundtrip:
  assumes "mqtt_internalPublish gob (Some c) pub topic q r msg b = (None, Some p)" and "mk_Codec S = Some c"
    and "mk_binder S = Some (Binder t zero)" and "mk_handler S = Subscribe_handler t h"
    and "\<And>buf. c_Marshal c (msg_Body msg) = Inr buf \<Longrightarrow> \<exists>x. buf = Some x \<and>
           c_Unmarshal c x (DPtr (TNamed ''interface {}'') (Some (DPtr t (Some zero))))
             = Inr (DPtr (TNamed ''interface {}'') (Some (DPtr t (Some (msg_Body msg)))))"
    and "h [] topic None (Some (msg_Body msg)) w = (None, w1)"
  shows "\<exists>x. mp_payload p = DBytes (Some x) \<and> mp_topic p = topic \<and> mqtt_callback S topic x w = w1
       \<and> snd (mqtt_internalPublish gob (Some c) pub topic q r (msg\<lparr>msg_Headers := other\<rparr>) b) = Some p
       \<and> ReplyTo rpub False (evt_Message (mqtt_publication topic x (msg_Body msg) None)) answer opts = (Some ErrRequestNoReplyTo, [])"
proof -
  obtain buf where buf: "Marshal gob (Some c) (msg_Body msg) = Inr buf" using assms(1) by (auto simp: mqtt_internalPublish_def split: sum.splits)
  have conn: "mb_connected b" using assms(1) buf by (auto simp: mqtt_internalPublish_def mqtt_publish_def split: if_splits)
  from buf have "c_Marshal c (msg_Body msg) = Inr buf" by (simp add: Marshal_def split: if_splits)
  from assms(5) [OF this] obtain x where x: "buf = Some x"
    "c_Unmarshal c x (DPtr (TNamed ''interface {}'') (Some (DPtr t (Some zero))))
       = Inr (DPtr (TNamed ''interface {}'') (Some (DPtr t (Some (msg_Body msg)))))" by blast
  have p: "mp_payload p = DBytes (Some x)" "mp_topic p = topic"
    using assms(1) buf conn x(1) by (auto simp: mqtt_internalPublish_def mqtt_publish_def Let_def)
  have cb: "mqtt_callback S topic x w = w1"
    using assms(2,3,4,6) x(2)
    by (simp add: mqtt_callback_def mqtt_body_def Binder_def Unmarshal_def Subscribe_handler_def mqtt_publication_def empty_message_def)
  have oth: "snd (mqtt_internalPublish gob (Some c) pub topic q r (msg\<lparr>msg_Headers := other\<rparr>) b) = Some p"
    using assms(1) buf conn by (simp add: mqtt_internalPublish_def mqtt_publish_def Let_def)
  have rep: "ReplyTo rpub False (evt_Message (mqtt_publication topic x (msg_Body msg) None)) answer opts = (Some ErrRequestNoReplyTo, [])"
    by (simp add: ReplyTo_def mqtt_publication_def empty_message_def GetHeader_def)
  show ?thesis using p cb oth rep by blast
qed

definition demo_mqtt_sub :: "nat mqtt_sub" where
  "demo_mqtt_sub = \<lparr>mk_handler = Subscribe_handler TInt (\<lambda>c topic hs d n. (None, n + 1)), mk_binder = Some (Binder TInt (DInt 0)), mk_ErrorHandler = None,
     mk_gob = redis_codec, mk_Codec = Some redis_codec\<rparr>"

theorem mqtt_publish_consume_roundtrip_witness:
  "\<exists>x. mqtt_callback demo_mqtt_sub ''t'' x 5 = 6"
proof -
  let ?msg = "NewMessage (DInt 7) [Some (WithHeader ''k'' ''v'')]"
  have body: "msg_Body ?msg = DInt 7" by (simp add: NewMessage_def WithHeader_def SetHeader_def)
  obtain p where p: "mqtt_internalPublish redis_codec (Some redis_codec) (\<lambda>p. None) ''t'' None None ?msg demo_mqtt = (None, Some p)"
    by (simp add: mqtt_internalPublish_def mqtt_publish_def Marshal_def redis_codec_def body demo_mqtt_fields Let_def)
  have "\<exists>x. mp_payload p = DBytes (Some x) \<and> mp_topic p = ''t'' \<and> mqtt_callback demo_mqtt_sub ''t'' x 5 = 6
       \<and> snd (mqtt_internalPublish redis_codec (Some redis_codec) (\<lambda>p. None) ''t'' None None (?msg\<lparr>msg_Headers := None\<rparr>) demo_mqtt) = Some p
       \<and> ReplyTo (\<lambda>t m opts. None) False (evt_Message (mqtt_publication ''t'' x (msg_Body ?msg) None)) (DInt 8) [] = (Some ErrRequestNoReplyTo, [])"
    by (rule mqtt_publish_consume_roundtrip [OF p, where t = TInt and zero = "DInt 0" and h = "\<lambda>c topic hs d n. (None, n + 1)"])
      (simp_all add: demo_mqtt_sub_def redis_codec_def body)
  then show ?thesis by blast
qed

end
