(* ===== verification/Mq_Mqtt.thy ===== *)
theory Mq_Mqtt
  imports Mq_Server Mqtt_Broker
begin

text \<open>
  The MQTT broker as the broker of \<open>transport/mqtt\<close>, whose server is the one of \<open>Mq_Server\<close>. The registration of a topic is its quality of service; \<open>dial\<close>,
  \<open>V\<close> and \<open>U\<close> are what the client library answers.
\<close>

definition mqtt_driver ::
    "string \<Rightarrow> error option \<Rightarrow> (string \<Rightarrow> nat \<Rightarrow> error option) \<Rightarrow> (string \<Rightarrow> error option) \<Rightarrow> (nat option, mqtt_broker) mq_driver" where
  "mqtt_driver gen dial V U =
     \<lparr>dr_Init = mqtt_Init gen [], dr_Connect = mqtt_Connect V dial, dr_Disconnect = mqtt_Disconnect U, dr_Subscribe = mqtt_Subscribe V U,
      dr_Unsubscribe = mb_Unsubscribe U\<rparr>"

definition mb_live :: "mqtt_broker \<Rightarrow> nat set" where
  "mb_live b = {i. i < mb_next b \<and> \<not> mu_closed (mw_subs (snd (mb_subscribers b)) i)}"

definition mb_topic :: "mqtt_broker \<Rightarrow> nat \<Rightarrow> string" where
  "mb_topic b i = mu_topic (mw_subs (snd (mb_subscribers b)) i)"

section \<open>Lemmas\<close>

lemma mb_tab:
  "mb_live b = mqtt_tab.tab_live (mb_subscribers b) (mb_next b)" "mqtt_table_ok b \<longleftrightarrow> mqtt_tab.tab_ok (mb_subscribers b) (mb_next b)"
  by (simp_all add: mb_live_def mqtt_table_ok_def mqtt_tab.tab_live_def mqtt_tab.tab_ok_def)

lemma Foreach_subs:
  "mw_subs (SubscriberSyncMap_Foreach (\<lambda>topic i w. snd (doSubscribe V (mu_topic (mw_subs w i)) (mu_qos (mw_subs w i)) i w)) m w) = mw_subs w"
  unfolding SubscriberSyncMap_Foreach_def
  by (induction m arbitrary: w) (auto simp: doSubscribe_def split: option.split)

lemma Connect_frame:
  "fst (mb_subscribers (snd (mqtt_Connect V dial b))) = fst (mb_subscribers b)" "mb_next (snd (mqtt_Connect V dial b)) = mb_next b"
  "mw_subs (snd (mb_subscribers (snd (mqtt_Connect V dial b)))) = mw_subs (snd (mb_subscribers b))"
  by (simp_all add: mqtt_Connect_def mqtt_session_def mqtt_onConnect_def Foreach_subs Let_def case_prod_unfold split: option.split)

text \<open>What \<open>Subscribe\<close> does to the table and the subscribers is what replacing a subscriber does.\<close>

lemma mqtt_Subscribe_facts:
  assumes ok: "mqtt_table_ok b" and sub: "mqtt_Subscribe V U t q b = (r, b')"
  shows "(case r of
      Inl e \<Rightarrow> mqtt_table_ok b' \<and> mb_live b' \<subseteq> mb_live b
    | Inr i \<Rightarrow> mqtt_table_ok b' \<and> i \<in> mb_live b' \<and> mb_live b' \<subseteq> insert i (mb_live b) \<and> mb_topic b' i = t
        \<and> (\<forall>j\<in>mb_live b. mb_topic b j \<noteq> t \<longrightarrow> j \<in> mb_live b' \<and> mb_topic b' j = mb_topic b j))"
proof (cases "mb_connected b")
  case False
  then show ?thesis using ok sub by (auto simp: mqtt_Subscribe_def)
next
  case True
  obtain m w where st: "mb_subscribers b = (m, w)" by force
  define n where "n = mb_next b"
  define qos where "qos = (case q of None \<Rightarrow> 1 | Some q \<Rightarrow> q)"
  define new where "new = \<lparr>mu_topic = t, mu_qos = qos, mu_closed = False\<rparr>"
  define w1 where "w1 = w\<lparr>mw_subs := (mw_subs w)(n := new)\<rparr>"
  define st1 where "st1 = replace_subscriber (mqtt_Unsubscribe U) t n (m, w1)"
  have ok': "mqtt_tab.tab_ok (m, w) n" using ok by (simp add: mb_tab st n_def)
  have old: "map_of m t = Some i \<Longrightarrow> i < n" for i using ok by (auto simp: mqtt_table_ok_def st n_def dest: map_of_SomeD)
  have wf: "(\<lambda>s. mu_topic (mw_subs w1 s)) = (\<lambda>s. mu_topic (mw_subs w s))(n := t)" "(\<lambda>s. mu_closed (mw_subs w1 s)) = (\<lambda>s. mu_closed (mw_subs w s))(n := False)"
    by (auto simp: w1_def new_def fun_eq_iff)
  note f = mqtt_tab.tab_replace [where U = U, OF ok' wf, folded st1_def]
  note g = give_up_fields(1,2) [where U = U and st = "(m, w)" and topic = t, unfolded fst_conv snd_conv]
  show ?thesis
  proof (cases "V t qos")
    case (Some e)
    then have r: "r = Inl e" "mb_subscribers b' = (m, snd (mqtt_give_up U t (m, w)))" "mb_next b' = n"
      using sub True g(1) by (auto simp: mqtt_Subscribe_def doSubscribe_def st Let_def qos_def n_def)
    then show ?thesis using ok g(2) by (auto simp: mqtt_table_ok_def mb_live_def st n_def split: option.splits if_splits)
  next
    case None
    then have r: "r = Inr n" "fst (mb_subscribers b') = gomap_put t n m" "mb_next b' = Suc n"
      "mw_subs (snd (mb_subscribers b')) = (mw_subs (snd (mqtt_give_up U t (m, w))))(n := new)"
      using sub True g(1) by (auto simp: mqtt_Subscribe_def doSubscribe_def st Let_def qos_def n_def new_def SubscriberSyncMap_Add_def)
    have s1: "fst st1 = gomap_put t n m" "mw_subs (snd st1) = (mw_subs (snd (mqtt_give_up U t (m, w))))(n := new)"
      using g(2) old
      by (auto simp: st1_def replace_subscriber_def SubscriberSyncMap_Get_def SubscriberSyncMap_Add_def mqtt_Unsubscribe_def Let_def w1_def mqtt_call_def fun_eq_iff
          split: option.split)
    have same: "mqtt_table_ok b' \<longleftrightarrow> mqtt_tab.tab_ok st1 (Suc n)" "mb_live b' = mqtt_tab.tab_live st1 (Suc n)"
      "mb_topic b' = (\<lambda>i. mu_topic (mw_subs (snd st1) i))"
      using r s1 by (simp_all add: mqtt_table_ok_def mqtt_tab.tab_ok_def mb_live_def mqtt_tab.tab_live_def mb_topic_def fun_eq_iff)
    have "mb_live b = mqtt_tab.tab_live (m, w) n" "mb_topic b = (\<lambda>i. mu_topic (mw_subs w i))" by (simp_all add: mb_tab st n_def mb_topic_def fun_eq_iff)
    then show ?thesis using r(1) f(1-5) by (simp add: same)
  qed
qed

interpretation mqtt_mq: mq_broker_live "mqtt_driver gen dial V U" mqtt_table_ok mb_live mb_topic for gen dial V U
proof unfold_locales
  fix b :: mqtt_broker assume b: "mqtt_table_ok b"
  let ?D = "mqtt_driver gen dial V U"
  show "mqtt_table_ok (snd (dr_Init ?D b)) \<and> mb_live (snd (dr_Init ?D b)) \<subseteq> mb_live b"
    using b by (simp add: mqtt_driver_def mqtt_Init_def Let_def mqtt_table_ok_def mb_live_def)
  show "mqtt_table_ok (snd (dr_Connect ?D b)) \<and> mb_live (snd (dr_Connect ?D b)) \<subseteq> mb_live b"
    using b by (simp add: mqtt_driver_def mqtt_table_ok_def mb_live_def Connect_frame)
  show "mqtt_table_ok (snd (dr_Disconnect ?D b)) \<and> mb_live (snd (dr_Disconnect ?D b)) \<subseteq> mb_live b"
    using b mqtt_tab.tab_clear [of U "mb_subscribers b" "mb_next b"] by (simp add: mqtt_driver_def mqtt_Disconnect_def mb_tab)
  show "mqtt_table_ok (snd (dr_Unsubscribe ?D i rm b)) \<and> mb_live (snd (dr_Unsubscribe ?D i rm b)) \<subseteq> mb_live b - {i}" for i rm
    using b mqtt_tab.tab_unsub [of "mb_subscribers b" "mb_next b" U i rm]
    by (simp add: mqtt_driver_def mb_Unsubscribe_def mb_tab Let_def case_prod_unfold)
  fix t x b' i e
  show "mqtt_table_ok b' \<and> mb_live b' \<subseteq> insert i (mb_live b)" if "dr_Subscribe ?D t x b = (Inr i, b')"
    using that mqtt_Subscribe_facts [OF b, of V U t x "Inr i" b'] by (simp add: mqtt_driver_def)
  show "mqtt_table_ok b' \<and> mb_live b' \<subseteq> mb_live b" if "dr_Subscribe ?D t x b = (Inl e, b')"
    using that mqtt_Subscribe_facts [OF b, of V U t x "Inl e" b'] by (simp add: mqtt_driver_def)
  show "i \<in> mb_live b' \<and> mb_topic b' i = t \<and> (\<forall>j\<in>mb_live b. mb_topic b j \<noteq> t \<longrightarrow> j \<in> mb_live b' \<and> mb_topic b' j = mb_topic b j)"
    if "dr_Subscribe ?D t x b = (Inr i, b')"
    using that mqtt_Subscribe_facts [OF b, of V U t x "Inr i" b'] by (simp add: mqtt_driver_def)
qed

text \<open>The part of \<open>Stop\<close> that gives up the subscribers leaves the broker's table alone.\<close>

lemma unsub_all_fields:
  "fst (mb_subscribers (mq_Broker (fold (mq_unsub (mqtt_driver gen dial V U)) js s))) = fst (mb_subscribers (mq_Broker s))"
  "mb_connected (mq_Broker (fold (mq_unsub (mqtt_driver gen dial V U)) js s)) = mb_connected (mq_Broker s)"
  "mb_next (mq_Broker (fold (mq_unsub (mqtt_driver gen dial V U)) js s)) = mb_next (mq_Broker s)"
  "mw_subs (snd (mb_subscribers (mq_Broker (fold (mq_unsub (mqtt_driver gen dial V U)) js s)))) j
     = (mw_subs (snd (mb_subscribers (mq_Broker s))) j)\<lparr>mu_closed := j \<in> set js \<or> mu_closed (mw_subs (snd (mb_subscribers (mq_Broker s))) j)\<rparr>"
  by (induction js arbitrary: s) (auto simp: mq_unsub_def mqtt_driver_def mb_Unsubscribe_def mqtt_Unsubscribe_def mqtt_call_def Let_def)

section \<open>Properties\<close>

text \<open>
  No interleaving of calls of \<open>Start\<close>, \<open>Stop\<close> and \<open>RegisterSubscriber\<close> leaks a subscriber of the MQTT transport, whatever the library answers: whenever no call is running, every
  subscriber that is not closed is in the server's table, where each topic has one entry, and when the server is stopped there is none.
\<close>

theorem mqtt_server_leaks_no_subscription:
  assumes "mq_reach (mqtt_driver gen dial V U) kenv kind (mqtt_NewBroker id0 opts w) (s, ps)" and "quiet ps"
  shows "mb_live (mq_Broker s) \<subseteq> snd ` set (mq_subscribers s) \<and> gomap_wf (mq_subscribers s) \<and> (mq_started s \<or> mb_live (mq_Broker s) = {})"
proof -
  have b: "mqtt_table_ok (mqtt_NewBroker id0 opts w)" "mb_live (mqtt_NewBroker id0 opts w) = {}"
    by (simp_all add: mqtt_table_ok_def mb_live_def mqtt_NewBroker_def NewSubscriberSyncMap_def)
  show ?thesis using mqtt_mq.quiet_no_leak [OF assms(1) b assms(2)] mqtt_mq.reach_tracked [OF assms(1) b] by (simp add: mqtt_mq.tracked_def)
qed

theorem mqtt_server_leaks_no_subscription_witness:
  "mb_live (mq_Broker (snd (mq_exec (mqtt_driver ''id'' None all_granted all_given_up) ka_test_env ''mqtt'' (PRegister ''t'' None)
      (mq_NewServer ka_test_env ''mqtt'' [] (mqtt_NewBroker ''id'' demo_mqtt_options demo_msubs))))) = {}"
proof -
  let ?D = "mqtt_driver ''id'' None all_granted all_given_up" and ?b = "mqtt_NewBroker ''id'' demo_mqtt_options demo_msubs"
  let ?pc = "PRegister ''t'' None"
  let ?s0 = "mq_NewServer ka_test_env ''mqtt'' [] ?b :: (nat option, mqtt_broker) mq_server"
  obtain pc s where e: "mq_exec ?D ka_test_env ''mqtt'' ?pc ?s0 = (pc, s)" by force
  have pc: "pc = PDone None" "\<not> mq_started s" using e by (auto simp: mq_NewServer_def mq_init_def)
  have "mq_reach ?D ka_test_env ''mqtt'' ?b (?s0, [?pc])"
    using mq_reach.step [OF mq_reach.init mq_step.call [of ?pc "''t''" None]] by force
  from mq_reach.step [OF this mq_step.go [of 0]] have "mq_reach ?D ka_test_env ''mqtt'' ?b (s, [pc])" using e by simp
  from mqtt_server_leaks_no_subscription [OF this] show ?thesis using pc e by (simp add: quiet_def)
qed

text \<open>
  C20: registering a topic again on a running MQTT server silently ends its delivery. The broker replaces the subscription in the right order, but then the server
  gives up the old subscriber once more, and that request removes the route of the topic, which is the new one: the registration succeeds, the tables of the
  server and of the broker hold the new subscriber, it is not closed, and the client has no callback for the topic.
\<close>

theorem mqtt_second_registration_is_lost:
  assumes "mqtt_reach (mq_Broker s)" and "mb_connected (mq_Broker s)" and "mq_started s"
    and "map_of (mq_subscribers s) t = Some old" and "SubscriberSyncMap_Get (fst (mb_subscribers (mq_Broker s))) t = Some old"
  shows "\<exists>s' new. mq_RegisterSubscriber (mqtt_driver gen dial all_granted all_given_up) t q s = (None, s')
     \<and> map_of (mq_subscribers s') t = Some new \<and> SubscriberSyncMap_Get (fst (mb_subscribers (mq_Broker s'))) t = Some new \<and> new \<in> mb_live (mq_Broker s')
     \<and> mqtt_route (snd (mb_subscribers (mq_Broker s'))) t = None"
proof -
  let ?D = "mqtt_driver gen dial all_granted all_given_up" and ?b = "mq_Broker s" and ?n = "mb_next (mq_Broker s)"
  obtain b1 where sub: "mqtt_Subscribe all_granted all_given_up t q ?b = (Inr ?n, b1)"
    using subscribe_fields(1) [OF _ assms(2), where topic = t and q = q] mqtt_reach_ok [OF assms(1)] by (metis mqtt_ok_def prod.collapse)
  have tab: "mqtt_table_ok ?b" using mqtt_reach_ok [OF assms(1)] by (simp add: mqtt_ok_def)
  note f = subscribe_fields [OF tab assms(2), where topic = t and q = q, unfolded sub fst_conv snd_conv]
  have old: "old < ?n" "mu_topic (mw_subs (snd (mb_subscribers ?b)) old) = t"
    using tab assms(5) by (auto simp: mqtt_table_ok_def SubscriberSyncMap_Get_def dest: map_of_SomeD)
  have ok1: "mqtt_ok b1" using subscribe_ok [OF mqtt_reach_ok [OF assms(1)], of t q] by (simp add: sub)
  have told: "mu_topic (mw_subs (snd (mb_subscribers b1)) old) = t"
    using sub old assms(2,5)
    by (auto simp: mqtt_Subscribe_def mqtt_give_up_def mqtt_Unsubscribe_def doSubscribe_def mqtt_call_def Let_def SubscriberSyncMap_Get_def)
  define s1 where "s1 = s\<lparr>mq_Broker := b1, mq_subscriberOpts := gomap_put t q (mq_subscriberOpts s), mq_subscribers := gomap_put t ?n (mq_subscribers s)\<rparr>"
  have reg: "mq_RegisterSubscriber ?D t q s = (None, mq_unsub ?D old s1)"
    using assms(3,4) sub by (simp add: mq_RegisterSubscriber_def doRegisterSubscriber_def reg_store_def mqtt_driver_def s1_def)
  let ?b2 = "mq_Broker (mq_unsub ?D old s1)"
  have b2: "mb_subscribers ?b2 = (fst (mb_subscribers b1), (mqtt_call (CallUnsubscribe t) (snd (mb_subscribers b1)))
      \<lparr>mw_subs := (mw_subs (snd (mb_subscribers b1)))(old := (mw_subs (snd (mb_subscribers b1)) old)\<lparr>mu_closed := True\<rparr>)\<rparr>)" "mb_next ?b2 = Suc ?n"
    using told f(3) by (simp_all add: mq_unsub_def s1_def mqtt_driver_def mb_Unsubscribe_def mqtt_Unsubscribe_def Let_def)
  have t1: "map_of (mq_subscribers (mq_unsub ?D old s1)) t = Some ?n" by (simp add: mq_unsub_def s1_def)
  have t2: "SubscriberSyncMap_Get (fst (mb_subscribers ?b2)) t = Some ?n" using f(2) by (simp add: b2 SubscriberSyncMap_Get_def)
  have t3: "?n \<in> mb_live ?b2" using f(5) old(1) by (simp add: mb_live_def b2)
  have t4: "mqtt_route (snd (mb_subscribers ?b2)) t = None" by (simp add: b2 route_step_def)
  show ?thesis using reg t1 t2 t3 t4 by blast
qed

definition demo_mqtt_server :: "(nat option, mqtt_broker) mq_server" where
  "demo_mqtt_server = (mq_NewServer ka_test_env ''mqtt'' [] demo_mqtt)\<lparr>mq_started := True, mq_subscribers := [(''t'', 0)]\<rparr>"

theorem mqtt_second_registration_is_lost_witness:
  "\<exists>s'. mq_RegisterSubscriber (mqtt_driver ''id'' None all_granted all_given_up) ''t'' None demo_mqtt_server = (None, s')
     \<and> mqtt_route (snd (mb_subscribers (mq_Broker s'))) ''t'' = None"
proof -
  have f: "mq_Broker demo_mqtt_server = demo_mqtt" "mq_started demo_mqtt_server" "map_of (mq_subscribers demo_mqtt_server) ''t'' = Some 0"
    by (simp_all add: demo_mqtt_server_def mq_NewServer_def mq_init_def)
  from mqtt_second_registration_is_lost [of demo_mqtt_server "''t''" 0 "''id''" None None] show ?thesis
    using f demo_mqtt_reach demo_mqtt_fields by (auto simp: SubscriberSyncMap_Get_def)
qed

text \<open>
  A server that is stopped while its client reconnects is not stopped: \<open>Stop\<close> closes the subscribers and returns without an error, and when the client has its connection
  back, every topic that the server had subscribed is subscribed again with the handler of the closed subscriber.
\<close>

theorem mqtt_stop_while_reconnecting:
  assumes "mqtt_reach (mq_Broker s)" and "\<not> mb_connected (mq_Broker s)" and "mq_started s" and "(t, i) \<in> set (mq_subscribers s)"
    and "SubscriberSyncMap_Get (fst (mb_subscribers (mq_Broker s))) t = Some i"
  shows "\<exists>s'. mq_Stop (mqtt_driver gen dial all_granted all_given_up) s = (None, s') \<and> \<not> mq_started s' \<and> i \<notin> mb_live (mq_Broker s')
     \<and> mqtt_route (snd (mb_subscribers (mqtt_session all_granted (mq_Broker s')))) t = Some (mu_qos (mw_subs (snd (mb_subscribers (mq_Broker s))) i), i)"
proof -
  let ?D = "mqtt_driver gen dial all_granted all_given_up"
  define s1 where "s1 = fold (mq_unsub ?D) (map snd (mq_subscribers s)) (s\<lparr>mq_started := False, mq_subscribers := []\<rparr>)"
  note f = unsub_all_fields [where gen = gen and dial = dial and V = all_granted and U = all_given_up
      and js = "map snd (mq_subscribers s)" and s = "s\<lparr>mq_started := False, mq_subscribers := []\<rparr>", folded s1_def, simplified]
  have st: "mq_started s1 = False" unfolding s1_def by (rule fold_invariant [where Q = "\<lambda>_. True"]) (simp_all add: mq_unsub_def)
  have stop: "mq_Stop ?D s = (None, s1\<lparr>mq_err := None, mq_ka := slot_stop (mq_ka s1)\<rparr>)"
    using assms(2,3) f(2) by (simp add: mq_Stop_def stop_end_def mqtt_driver_def mqtt_Disconnect_def s1_def [unfolded mqtt_driver_def, symmetric])
  have "mqtt_table_ok (mq_Broker s)" using mqtt_reach_ok [OF assms(1)] by (simp add: mqtt_ok_def)
  then have "mqtt_table_ok (mq_Broker s1)" by (auto simp: mqtt_table_ok_def f)
  from session_routes(5) [OF this, of t] have r: "mqtt_route (snd (mb_subscribers (mqtt_session all_granted (mq_Broker s1)))) t
      = Some (mu_qos (mw_subs (snd (mb_subscribers (mq_Broker s))) i), i)"
    using assms(5) by (simp add: f SubscriberSyncMap_Get_def)
  have "i \<notin> mb_live (mq_Broker s1)" using assms(4) by (force simp: mb_live_def f)
  then show ?thesis using stop st r by (intro exI [of _ "s1\<lparr>mq_err := None, mq_ka := slot_stop (mq_ka s1)\<rparr>"]) simp
qed

theorem mqtt_stop_while_reconnecting_witness:
  "\<exists>s'. mq_Stop (mqtt_driver ''id'' None all_granted all_given_up) (demo_mqtt_server\<lparr>mq_Broker := mqtt_lost demo_mqtt\<rparr>) = (None, s')
     \<and> mqtt_route (snd (mb_subscribers (mqtt_session all_granted (mq_Broker s')))) ''t'' = Some (2, 0)"
  using mqtt_stop_while_reconnecting [of "demo_mqtt_server\<lparr>mq_Broker := mqtt_lost demo_mqtt\<rparr>" "''t''" 0 "''id''" None]
    mqtt_reach.lost [OF demo_mqtt_reach] demo_mqtt_fields
  by (auto simp: mqtt_lost_def SubscriberSyncMap_Get_def demo_mqtt_server_def)

end
