(* ===== verification/Broker_Delivery.thy ===== *)
theory Broker_Delivery
  imports Redis_Stream
begin

text \<open>
  What the consuming parts of the drivers for SQS, NSQ, Pulsar and STOMP share: the body of a delivery is decoded into the value of the binder, and a typed handler gets what was
  published. The codec is a parameter; \<open>codec_reads\<close> says that it reads back what it wrote.
\<close>

definition bind_body :: "codec \<Rightarrow> codec option \<Rightarrow> (unit \<Rightarrow> dyn) option \<Rightarrow> bytes \<Rightarrow> (error \<times> dyn) + dyn" where
  "bind_body gob cod binder data =
     (case binder of
        None \<Rightarrow> Inr (DBytes (Some data))
      | Some b \<Rightarrow>
          (case Unmarshal gob cod (Some data) (DPtr (TNamed ''interface {}'') (Some (b ()))) of
             Inl e \<Rightarrow> Inl (e, b ())
           | Inr out \<Rightarrow> Inr (case pointee out of None \<Rightarrow> DNil | Some v \<Rightarrow> v)))"

definition codec_reads :: "codec \<Rightarrow> gotype \<Rightarrow> dyn \<Rightarrow> dyn \<Rightarrow> bool" where
  "codec_reads c t zero v \<longleftrightarrow>
     (case c_Marshal c v of
        Inl e \<Rightarrow> True
      | Inr None \<Rightarrow> False
      | Inr (Some x) \<Rightarrow> c_Unmarshal c x (DPtr (TNamed ''interface {}'') (Some (DPtr t (Some zero)))) = Inr (DPtr (TNamed ''interface {}'') (Some (DPtr t (Some v)))))"

lemma bind_body_published:
  assumes "Marshal gob (Some c) v = Inr buf" and "codec_reads c t zero v"
  obtains x where "buf = Some x" "bind_body gob' (Some c) (Some (Binder t zero)) x = Inr (DPtr t (Some v))"
proof -
  have "c_Marshal c v = Inr buf" using assms(1) by (simp add: Marshal_def split: if_splits)
  then show thesis using assms(2) that by (cases buf) (auto simp: codec_reads_def bind_body_def Binder_def Unmarshal_def)
qed

text \<open>A delivery with a typed body calls the typed handler.\<close>

lemma typed_delivery:
  assumes "evt_Message p = Some m" and "msg_Body m = DPtr t (Some v)"
  shows "Subscribe_handler t h c (Some p) w = h c (evt_Topic p) (msg_Headers m) (Some v) w"
  using assms by (simp add: Subscribe_handler_def split: prod.split option.split)

end
