(* ===== verification/Mq_Table.thy ===== *)
theory Mq_Table
  imports Mq_Server Broker_Table
begin

text \<open>
  The drivers whose \<open>Subscribe\<close> makes a subscriber and then replaces the old one of its topic, as the brokers of the message queue servers: the locale \<open>table_broker\<close> says
  what their operations do to the subscription table and to the subscribers, and gives the contract \<open>mq_broker_live\<close> of the server's broker. \<open>subs\<close> is the table with the
  driver's subscribers, \<open>nxt\<close> the number of the next one.
\<close>

locale table_broker = subscription_table unsub topic_of is_closed
  for unsub :: "(nat, 'w) unsub_fn" and topic_of :: "'w \<Rightarrow> nat \<Rightarrow> string" and is_closed :: "'w \<Rightarrow> nat \<Rightarrow> bool" +
  fixes D :: "('x, 'b) mq_driver" and subs :: "'b \<Rightarrow> (nat, 'w) sub_state" and nxt :: "'b \<Rightarrow> nat"
  assumes init_frame: "fst (subs (snd (dr_Init D b))) = fst (subs b) \<and> topic_of (snd (subs (snd (dr_Init D b)))) = topic_of (snd (subs b))
        \<and> is_closed (snd (subs (snd (dr_Init D b)))) = is_closed (snd (subs b)) \<and> nxt (snd (dr_Init D b)) = nxt b"
    and connect_frame: "fst (subs (snd (dr_Connect D b))) = fst (subs b) \<and> topic_of (snd (subs (snd (dr_Connect D b)))) = topic_of (snd (subs b))
        \<and> is_closed (snd (subs (snd (dr_Connect D b)))) = is_closed (snd (subs b)) \<and> nxt (snd (dr_Connect D b)) = nxt b"
    and disconnect_clears: "nxt (snd (dr_Disconnect D b)) = nxt b
        \<and> (\<exists>w. topic_of w = topic_of (snd (subs b)) \<and> is_closed w = is_closed (snd (subs b))
             \<and> subs (snd (dr_Disconnect D b)) \<in> {(fst (subs b), w), SubscriberSyncMap_Clear unsub (fst (subs b), w)})"
    and unsubscribe: "subs (snd (dr_Unsubscribe D i rm b)) = snd (unsub i rm (subs b)) \<and> nxt (snd (dr_Unsubscribe D i rm b)) = nxt b"
    and subscribe_fails: "dr_Subscribe D t x b = (Inl e, b') \<Longrightarrow> fst (subs b') = fst (subs b) \<and> topic_of (snd (subs b')) = topic_of (snd (subs b))
        \<and> is_closed (snd (subs b')) = is_closed (snd (subs b)) \<and> nxt b' = nxt b"
    and subscribe_replaces: "dr_Subscribe D t x b = (Inr i, b') \<Longrightarrow> i = nxt b \<and> nxt b' = Suc (nxt b)
        \<and> (\<exists>w1. topic_of w1 = (topic_of (snd (subs b)))(nxt b := t) \<and> is_closed w1 = (is_closed (snd (subs b)))(nxt b := False)
             \<and> subs b' = replace_subscriber unsub t (nxt b) (fst (subs b), w1))"
begin

definition tb_ok :: "'b \<Rightarrow> bool" where "tb_ok b \<longleftrightarrow> tab_ok (subs b) (nxt b)"

definition tb_live :: "'b \<Rightarrow> nat set" where "tb_live b = tab_live (subs b) (nxt b)"

definition tb_topic :: "'b \<Rightarrow> nat \<Rightarrow> string" where "tb_topic b = topic_of (snd (subs b))"

lemma tb_frame:
  assumes "fst (subs b') = fst (subs b) \<and> topic_of (snd (subs b')) = topic_of (snd (subs b)) \<and> is_closed (snd (subs b')) = is_closed (snd (subs b)) \<and> nxt b' = nxt b"
  shows "tb_ok b' = tb_ok b" "tb_live b' = tb_live b"
  using assms by (simp_all add: tb_ok_def tb_live_def tab_ok_def tab_live_def)

lemma tb_subscribe:
  assumes "tb_ok b" and "dr_Subscribe D t x b = (Inr i, b')"
  shows "tb_ok b'" "i \<in> tb_live b'" "tb_live b' \<subseteq> insert i (tb_live b)" "tb_topic b' i = t"
    "\<And>j. \<lbrakk>j \<in> tb_live b; tb_topic b j \<noteq> t\<rbrakk> \<Longrightarrow> j \<in> tb_live b' \<and> tb_topic b' j = tb_topic b j"
proof -
  from subscribe_replaces [OF assms(2)] obtain w1 where w: "i = nxt b" "nxt b' = Suc (nxt b)" "topic_of w1 = (topic_of (snd (subs b)))(nxt b := t)"
    "is_closed w1 = (is_closed (snd (subs b)))(nxt b := False)" "subs b' = replace_subscriber unsub t (nxt b) (fst (subs b), w1)" by blast
  have ok: "tab_ok (fst (subs b), snd (subs b)) (nxt b)" using assms(1) by (simp add: tb_ok_def)
  note f = tab_replace [OF ok w(3,4), folded w(5)]
  show "tb_ok b'" "i \<in> tb_live b'" "tb_live b' \<subseteq> insert i (tb_live b)" "tb_topic b' i = t"
    using f(1-4) w(1,2) by (simp_all add: tb_ok_def tb_live_def tb_topic_def)
  show "j \<in> tb_live b' \<and> tb_topic b' j = tb_topic b j" if "j \<in> tb_live b" "tb_topic b j \<noteq> t" for j
    using f(5) [of j] that w(2) by (simp add: tb_live_def tb_topic_def)
qed

end

sublocale table_broker \<subseteq> tb_mq: mq_broker_live D tb_ok tb_live tb_topic
proof unfold_locales
  fix b assume b: "tb_ok b"
  show "tb_ok (snd (dr_Init D b)) \<and> tb_live (snd (dr_Init D b)) \<subseteq> tb_live b" using b tb_frame [OF init_frame] by simp
  show "tb_ok (snd (dr_Connect D b)) \<and> tb_live (snd (dr_Connect D b)) \<subseteq> tb_live b" using b tb_frame [OF connect_frame] by simp
  show "tb_ok (snd (dr_Disconnect D b)) \<and> tb_live (snd (dr_Disconnect D b)) \<subseteq> tb_live b"
  proof -
    from disconnect_clears [of b] obtain w where w: "nxt (snd (dr_Disconnect D b)) = nxt b" "topic_of w = topic_of (snd (subs b))" "is_closed w = is_closed (snd (subs b))"
      "subs (snd (dr_Disconnect D b)) = (fst (subs b), w) \<or> subs (snd (dr_Disconnect D b)) = SubscriberSyncMap_Clear unsub (fst (subs b), w)" by blast
    have "tab_ok (fst (subs b), w) (nxt b)" "tab_live (fst (subs b), w) (nxt b) = tab_live (subs b) (nxt b)"
      using b w(2,3) by (simp_all add: tb_ok_def tab_ok_def tab_live_def)
    then show ?thesis using w(1,4) tab_clear [of "(fst (subs b), w)" "nxt b"] by (auto simp: tb_ok_def tb_live_def)
  qed
  show "tb_ok (snd (dr_Unsubscribe D i rm b)) \<and> tb_live (snd (dr_Unsubscribe D i rm b)) \<subseteq> tb_live b - {i}" for i rm
    using b unsubscribe [of i rm b] tab_unsub [of "subs b" "nxt b" i rm] by (simp add: tb_ok_def tb_live_def)
  fix t x b' i e
  show "tb_ok b' \<and> tb_live b' \<subseteq> insert i (tb_live b)" if "dr_Subscribe D t x b = (Inr i, b')" using tb_subscribe [OF b that] by simp
  show "tb_ok b' \<and> tb_live b' \<subseteq> tb_live b" if "dr_Subscribe D t x b = (Inl e, b')"
    using b tb_frame [OF subscribe_fails [OF that]] by simp
  show "i \<in> tb_live b' \<and> tb_topic b' i = t \<and> (\<forall>j\<in>tb_live b. tb_topic b j \<noteq> t \<longrightarrow> j \<in> tb_live b' \<and> tb_topic b' j = tb_topic b j)"
    if "dr_Subscribe D t x b = (Inr i, b')" using tb_subscribe [OF b that] by blast
qed

context table_broker
begin

text \<open>What the server guarantees over such a driver, from a broker without subscribers.\<close>

lemma tb_no_leak:
  assumes "mq_reach D kenv kind b0 (s, ps)" and "quiet ps" and "fst (subs b0) = []" and "nxt b0 = 0"
  shows "{i. i < nxt (mq_Broker s) \<and> \<not> is_closed (snd (subs (mq_Broker s))) i} \<subseteq> snd ` set (mq_subscribers s)" "gomap_wf (mq_subscribers s)"
    "mq_started s \<or> {i. i < nxt (mq_Broker s) \<and> \<not> is_closed (snd (subs (mq_Broker s))) i} = {}"
proof -
  have n: "tb_ok b0" "tb_live b0 = {}" using assms(3,4) by (simp_all add: tb_ok_def tb_live_def tab_ok_def tab_live_def)
  have live: "{i. i < nxt (mq_Broker s) \<and> \<not> is_closed (snd (subs (mq_Broker s))) i} = tb_live (mq_Broker s)" by (simp add: tb_live_def tab_live_def)
  note f = tb_mq.quiet_no_leak [OF assms(1) n assms(2)] tb_mq.reach_tracked [OF assms(1) n]
  show "{i. i < nxt (mq_Broker s) \<and> \<not> is_closed (snd (subs (mq_Broker s))) i} \<subseteq> snd ` set (mq_subscribers s)" "gomap_wf (mq_subscribers s)"
    "mq_started s \<or> {i. i < nxt (mq_Broker s) \<and> \<not> is_closed (snd (subs (mq_Broker s))) i} = {}"
    unfolding live using f by (simp_all add: tb_mq.tracked_def)
qed

end

end
