(* ===== verification/Sqs_Broker.thy ===== *)
theory Sqs_Broker
  imports Broker_Delivery Mq_Table
begin

text \<open>
  The SQS driver: \<open>broker/sqs/sqs.go\<close>, \<open>subscriber.go\<close>, \<open>publication.go\<close>, \<open>options.go\<close>, and its use by the server of \<open>transport/sqs\<close>, which is the one of \<open>Mq_Server\<close>. The AWS client is the
  environment: what its calls answer is given by \<open>cfg\<close>, \<open>G\<close> (\<open>GetQueueUrl\<close>), \<open>send\<close> and \<open>delete\<close>. The loop that receives is one function per turn.
\<close>

section \<open>The broker\<close>

record sqs_options =
  qo_Addrs :: "string list"
  qo_region :: "string option"
  qo_endpoint :: "string option"
  qo_queueUrl :: "string option"

type_synonym sqs_option = "sqs_options \<Rightarrow> sqs_options"

definition sqs_WithRegion :: "string \<Rightarrow> sqs_option" where "sqs_WithRegion region x = x\<lparr>qo_region := Some region\<rparr>"

definition sqs_WithEndpoint :: "string \<Rightarrow> sqs_option" where "sqs_WithEndpoint endpoint x = x\<lparr>qo_endpoint := Some endpoint\<rparr>"

definition sqs_WithQueueUrl :: "string \<Rightarrow> sqs_option" where "sqs_WithQueueUrl url x = x\<lparr>qo_queueUrl := Some url\<rparr>"

record qsub =
  qu_topic :: string
  qu_queueUrl :: string
  qu_closed :: bool

record sqs_broker =
  qb_options :: sqs_options
  qb_client :: bool
  qb_region :: string
  qb_endpoint :: string
  qb_running :: bool
  qb_subscribers :: "(nat, nat \<Rightarrow> qsub) sub_state"
  qb_next :: nat
  qb_queueUrlCache :: "(string, string) gomap"

definition sqs_NewBroker :: "sqs_options \<Rightarrow> (nat \<Rightarrow> qsub) \<Rightarrow> sqs_broker" where
  "sqs_NewBroker opts w =
     \<lparr>qb_options = opts, qb_client = False, qb_region = '''', qb_endpoint = '''', qb_running = False, qb_subscribers = (NewSubscriberSyncMap, w), qb_next = 0,
      qb_queueUrlCache = []\<rparr>"

definition sqs_Address :: "sqs_broker \<Rightarrow> string" where
  "sqs_Address b = (if length (qo_Addrs (qb_options b)) > 0 then qo_Addrs (qb_options b) ! 0 else ''http://127.0.0.1:9324'')"

definition sqs_configure :: "sqs_broker \<Rightarrow> sqs_broker" where
  "sqs_configure b =
     (let b1 = (case qo_region (qb_options b) of Some v \<Rightarrow> if v \<noteq> '''' then b\<lparr>qb_region := v\<rparr> else b | None \<Rightarrow> b)
      in (case qo_endpoint (qb_options b1) of Some v \<Rightarrow> if v \<noteq> '''' then b1\<lparr>qb_endpoint := v\<rparr> else b1 | None \<Rightarrow> b1))"

definition sqs_Init :: "sqs_option list \<Rightarrow> sqs_broker \<Rightarrow> error option \<times> sqs_broker" where
  "sqs_Init opts b = (None, sqs_configure (b\<lparr>qb_options := fold (\<lambda>opt x. opt x) opts (qb_options b)\<rparr>))"

text \<open>\<open>cfg\<close> is the error of loading the configuration for the region and the endpoint.\<close>

definition sqs_Connect :: "(string \<Rightarrow> string \<Rightarrow> error option) \<Rightarrow> sqs_broker \<Rightarrow> error option \<times> sqs_broker" where
  "sqs_Connect cfg b =
     (if qb_running b then (None, b)
      else let region = (if qb_region b = '''' then ''us-east-1'' else qb_region b)
           in (case cfg region (qb_endpoint b) of
                 Some e \<Rightarrow> (Some (ErrWrap ''failed to load AWS config'' e), b)
               | None \<Rightarrow> (None, b\<lparr>qb_client := True, qb_running := True\<rparr>)))"

definition sqs_Unsubscribe :: "(nat, nat \<Rightarrow> qsub) unsub_fn" where
  "sqs_Unsubscribe s removeFromManager st =
     (None, (if removeFromManager then snd (SubscriberSyncMap_RemoveOnly (qu_topic (snd st s)) (fst st)) else fst st,
             (snd st)(s := (snd st s)\<lparr>qu_closed := True\<rparr>)))"

definition qb_Unsubscribe :: "nat \<Rightarrow> bool \<Rightarrow> sqs_broker \<Rightarrow> error option \<times> sqs_broker" where
  "qb_Unsubscribe sub rm b = (let (e, st) = sqs_Unsubscribe sub rm (qb_subscribers b) in (e, b\<lparr>qb_subscribers := st\<rparr>))"

definition sqs_Disconnect :: "sqs_broker \<Rightarrow> error option \<times> sqs_broker" where
  "sqs_Disconnect b =
     (if \<not> qb_running b then (None, b)
      else (None, b\<lparr>qb_subscribers := SubscriberSyncMap_Clear sqs_Unsubscribe (qb_subscribers b), qb_client := False, qb_running := False\<rparr>))"

text \<open>
  \<open>resolveQueueUrl\<close>: \<open>key\<close> is what the options of the call put into its context. The table of URLs and the service come last; the second result says whether the service
  was asked.
\<close>

definition queue_lookup :: "(string \<Rightarrow> string option) \<Rightarrow> string \<Rightarrow> sqs_broker \<Rightarrow> string \<times> bool \<times> sqs_broker" where
  "queue_lookup G topic b =
     (case map_of (qb_queueUrlCache b) topic of
        Some cached \<Rightarrow> (cached, False, b)
      | None \<Rightarrow>
          if \<not> qb_client b then ('''', False, b)
          else (case G topic of
                  None \<Rightarrow> ('''', True, b)
                | Some url \<Rightarrow> (url, True, b\<lparr>qb_queueUrlCache := gomap_put topic url (qb_queueUrlCache b)\<rparr>)))"

definition resolveQueueUrl :: "(string \<Rightarrow> string option) \<Rightarrow> string option \<Rightarrow> string \<Rightarrow> sqs_broker \<Rightarrow> string \<times> bool \<times> sqs_broker" where
  "resolveQueueUrl G key topic b =
     (if key \<notin> {None, Some ''''} then (the key, False, b)
      else if qo_queueUrl (qb_options b) \<notin> {None, Some ''''} then (the (qo_queueUrl (qb_options b)), False, b)
      else queue_lookup G topic b)"

section \<open>Publishing\<close>

record sqs_input =
  si_QueueUrl :: string
  si_MessageBody :: string
  si_DelaySeconds :: int
  si_MessageGroupId :: "string option"
  si_MessageDeduplicationId :: "string option"
  si_MessageAttributes :: "(string, string) gomap option"

record sqs_pub_options =
  qp_queueUrl :: "string option"
  qp_delaySeconds :: "int option"
  qp_messageGroupId :: "string option"
  qp_messageDeduplicationId :: "string option"

definition sqs_input_of :: "string \<Rightarrow> sqs_pub_options \<Rightarrow> message \<Rightarrow> sqs_input" where
  "sqs_input_of queueUrl x msg =
     \<lparr>si_QueueUrl = queueUrl, si_MessageBody = (case BodyBytes msg of None \<Rightarrow> '''' | Some b \<Rightarrow> b),
      si_DelaySeconds = (case qp_delaySeconds x of Some v \<Rightarrow> if v > 0 then v else 0 | None \<Rightarrow> 0),
      si_MessageGroupId = (case qp_messageGroupId x of Some v \<Rightarrow> if v \<noteq> '''' then Some v else None | None \<Rightarrow> None),
      si_MessageDeduplicationId = (case qp_messageDeduplicationId x of Some v \<Rightarrow> if v \<noteq> '''' then Some v else None | None \<Rightarrow> None),
      si_MessageAttributes = (case msg_Headers msg of
          None \<Rightarrow> None
        | Some hs \<Rightarrow> (let attrs = gomap_put_all hs [] in if length attrs > 0 then Some attrs else None))\<rparr>"

definition sqs_publish ::
    "(string \<Rightarrow> string option) \<Rightarrow> (sqs_input \<Rightarrow> error option) \<Rightarrow> string \<Rightarrow> sqs_pub_options \<Rightarrow> message \<Rightarrow> sqs_broker \<Rightarrow> error option \<times> sqs_input option \<times> sqs_broker" where
  "sqs_publish G send topic x msg b =
     (if \<not> qb_client b then (Some (ErrNew ''SQS client is nil''), None, b)
      else (case resolveQueueUrl G (qp_queueUrl x) topic b of (queueUrl, asked, b1) \<Rightarrow>
              if queueUrl = '''' then (Some (ErrNew (''queue url not resolved for topic: '' @ topic)), None, b1)
              else let input = sqs_input_of queueUrl x msg
                   in (map_option (ErrWrap ''send message failed'') (send input), Some input, b1)))"

definition sqs_internalPublish ::
    "codec \<Rightarrow> codec option \<Rightarrow> (string \<Rightarrow> string option) \<Rightarrow> (sqs_input \<Rightarrow> error option) \<Rightarrow> string \<Rightarrow> sqs_pub_options \<Rightarrow> message \<Rightarrow> sqs_broker
      \<Rightarrow> error option \<times> sqs_input option \<times> sqs_broker" where
  "sqs_internalPublish gob cod G send topic x msg b =
     (case Marshal gob cod (msg_Body msg) of
        Inl e \<Rightarrow> (Some e, None, b)
      | Inr buf \<Rightarrow> sqs_publish G send topic x ((Clone msg)\<lparr>msg_Body := DBytes buf\<rparr>) b)"

section \<open>Subscribing\<close>

record recvOpts =
  ro_visibilityTimeout :: int
  ro_waitTimeSeconds :: int
  ro_maxMessages :: int

record sqs_sub_options =
  qs_queueUrl :: "string option"
  qs_visibilityTimeout :: "int option"
  qs_waitTimeSeconds :: "int option"
  qs_maxMessages :: "int option"

definition positive_or :: "int \<Rightarrow> int option \<Rightarrow> int" where
  "positive_or d x = (case x of Some v \<Rightarrow> if v > 0 then v else d | None \<Rightarrow> d)"

definition sqs_recvOpts :: "sqs_sub_options \<Rightarrow> recvOpts" where
  "sqs_recvOpts x =
     \<lparr>ro_visibilityTimeout = positive_or 30 (qs_visibilityTimeout x), ro_waitTimeSeconds = positive_or 20 (qs_waitTimeSeconds x),
      ro_maxMessages = positive_or 10 (qs_maxMessages x)\<rparr>"

definition sqs_Subscribe :: "(string \<Rightarrow> string option) \<Rightarrow> string \<Rightarrow> sqs_sub_options \<Rightarrow> sqs_broker \<Rightarrow> (error + nat) \<times> sqs_broker" where
  "sqs_Subscribe G topic x b =
     (if \<not> qb_client b then (Inl (ErrNew ''SQS client is nil, call Connect() first''), b)
      else (case resolveQueueUrl G (qs_queueUrl x) topic b of (queueUrl, asked, b1) \<Rightarrow>
              if queueUrl = '''' then (Inl (ErrNew (''queue url not resolved for topic: '' @ topic)), b1)
              else let (m, w) = qb_subscribers b1; sub = qb_next b1
                   in (Inr sub, b1\<lparr>qb_subscribers :=
                         replace_subscriber sqs_Unsubscribe topic sub (m, w(sub := \<lparr>qu_topic = topic, qu_queueUrl = queueUrl, qu_closed = False\<rparr>)),
                         qb_next := Suc sub\<rparr>)))"

section \<open>Receiving\<close>

record sqs_msg =
  qm_Body :: "string option"
  qm_MessageAttributes :: "(string, string option) gomap option"
  qm_ReceiptHandle :: "string option"

record 'w sqs_sub =
  qk_topic :: string
  qk_ctx :: ctx
  qk_handler :: "('w \<times> bool) Handler"
  qk_binder :: "(unit \<Rightarrow> dyn) option"
  qk_ErrorHandler :: "('w \<times> bool) Handler option"
  qk_gob :: codec
  qk_Codec :: "codec option"
  qk_AutoAck :: bool
  qk_client :: bool
  qk_delete :: "string \<Rightarrow> 'w \<Rightarrow> error option \<times> 'w"

text \<open>\<open>Ack\<close> with the flag \<open>acked\<close> of the publication.\<close>

definition sqs_Ack :: "'w sqs_sub \<Rightarrow> sqs_msg \<Rightarrow> 'w \<times> bool \<Rightarrow> error option \<times> 'w \<times> bool" where
  "sqs_Ack S msg st =
     (case st of (w, acked) \<Rightarrow>
        if acked then (None, w, acked)
        else if \<not> qk_client S then (Some (ErrNew ''SQS client is nil''), w, acked)
        else (case qm_ReceiptHandle msg of
                None \<Rightarrow> (Some (ErrNew ''SQS message or receipt handle is nil''), w, acked)
              | Some h \<Rightarrow>
                  (case qk_delete S h w of
                     (Some e, w1) \<Rightarrow> (Some (ErrWrap ''delete message failed'' e), w1, acked)
                   | (None, w1) \<Rightarrow> (None, w1, True))))"

definition sqs_publication :: "'w sqs_sub \<Rightarrow> sqs_msg \<Rightarrow> Headers option \<Rightarrow> dyn \<Rightarrow> error option \<Rightarrow> ('w \<times> bool) event" where
  "sqs_publication S msg hs body err =
     \<lparr>evt_Topic = qk_topic S, evt_Message = Some (empty_message\<lparr>msg_Headers := hs, msg_Body := body\<rparr>),
      evt_RawMessage = DOther ''*types.Message'' (case qm_ReceiptHandle msg of None \<Rightarrow> '''' | Some h \<Rightarrow> h), evt_Ack = sqs_Ack S msg, evt_Error = err\<rparr>"

definition sqs_headers :: "sqs_msg \<Rightarrow> Headers option" where
  "sqs_headers msg =
     map_option (\<lambda>attrs. fold (\<lambda>(k, v) hs. case v of None \<Rightarrow> hs | Some s \<Rightarrow> gomap_put k s hs) attrs []) (qm_MessageAttributes msg)"

definition sqs_eh :: "'w sqs_sub \<Rightarrow> ctx \<Rightarrow> ('w \<times> bool) event \<Rightarrow> 'w \<times> bool \<Rightarrow> 'w \<times> bool" where
  "sqs_eh S c p st = (case qk_ErrorHandler S of None \<Rightarrow> st | Some eh \<Rightarrow> snd (eh c (Some p) st))"

text \<open>A message without a body goes to the handler with a nil body.\<close>

definition sqs_body :: "'w sqs_sub \<Rightarrow> sqs_msg \<Rightarrow> (error \<times> dyn) + dyn" where
  "sqs_body S msg = (case qm_Body msg of None \<Rightarrow> Inr DNil | Some body \<Rightarrow> bind_body (qk_gob S) (qk_Codec S) (qk_binder S) body)"

definition processMessage :: "'w sqs_sub \<Rightarrow> ctx \<Rightarrow> sqs_msg \<Rightarrow> 'w \<Rightarrow> 'w" where
  "processMessage S c msg w =
     fst (case sqs_body S msg of
            Inl (e, body) \<Rightarrow> sqs_eh S (qk_ctx S) (sqs_publication S msg (sqs_headers msg) body (Some e)) (w, False)
          | Inr body \<Rightarrow>
              (case qk_handler S c (Some (sqs_publication S msg (sqs_headers msg) body None)) (w, False) of
                 (Some e, st) \<Rightarrow> sqs_eh S c (sqs_publication S msg (sqs_headers msg) body (Some e)) st
               | (None, st) \<Rightarrow> if qk_AutoAck S then snd (sqs_Ack S msg st) else st))"

text \<open>One turn of \<open>recv\<close>: \<open>None\<close> when the loop ends; \<open>paused\<close> says that the context ends in the pause after an error.\<close>

datatype sqs_result = Received "sqs_msg list" | ReceiveFailed error

definition sqs_recv_turn :: "'w sqs_sub \<Rightarrow> ctx \<Rightarrow> bool \<Rightarrow> bool \<Rightarrow> bool \<Rightarrow> sqs_result \<Rightarrow> 'w \<Rightarrow> 'w option" where
  "sqs_recv_turn S c done_before done_after paused r w =
     (if done_before then None
      else (case r of
              ReceiveFailed e \<Rightarrow> if done_after \<or> paused then None else Some w
            | Received msgs \<Rightarrow> Some (fold (processMessage S c) msgs w)))"

section \<open>The broker of the server\<close>

definition sqs_driver :: "(string \<Rightarrow> string \<Rightarrow> error option) \<Rightarrow> (string \<Rightarrow> string option) \<Rightarrow> (sqs_sub_options, sqs_broker) mq_driver" where
  "sqs_driver cfg G =
     \<lparr>dr_Init = sqs_Init [], dr_Connect = sqs_Connect cfg, dr_Disconnect = sqs_Disconnect, dr_Subscribe = sqs_Subscribe G, dr_Unsubscribe = qb_Unsubscribe\<rparr>"

section \<open>Lemmas\<close>

lemma resolve_frame:
  assumes "resolveQueueUrl G key topic b = (u, asked, b1)"
  shows "qb_subscribers b1 = qb_subscribers b" "qb_next b1 = qb_next b" "qb_client b1 = qb_client b" "qb_options b1 = qb_options b" "qb_running b1 = qb_running b"
  using assms by (auto simp: resolveQueueUrl_def queue_lookup_def split: if_splits option.splits)

interpretation sqs_tab: subscription_table sqs_Unsubscribe "\<lambda>w s. qu_topic (w s)" "\<lambda>w s. qu_closed (w s)"
proof unfold_locales
  fix s b and st :: "(nat, nat \<Rightarrow> qsub) sub_state"
  show "fst (snd (sqs_Unsubscribe s b st)) = (if b then gomap_delete (qu_topic (snd st s)) (fst st) else fst st)"
    by (auto simp: sqs_Unsubscribe_def SubscriberSyncMap_RemoveOnly_def dom_gomap [symmetric] domIff gomap_delete_absent split: option.splits)
qed (auto simp: sqs_Unsubscribe_def fun_eq_iff)

interpretation sqs_mq: table_broker sqs_Unsubscribe "\<lambda>w s. qu_topic (w s)" "\<lambda>w s. qu_closed (w s)" "sqs_driver cfg G" qb_subscribers qb_next for cfg G
proof unfold_locales
  fix b b' :: sqs_broker and t x e i
  show "fst (qb_subscribers b') = fst (qb_subscribers b) \<and> (\<lambda>s. qu_topic (snd (qb_subscribers b') s)) = (\<lambda>s. qu_topic (snd (qb_subscribers b) s))
      \<and> (\<lambda>s. qu_closed (snd (qb_subscribers b') s)) = (\<lambda>s. qu_closed (snd (qb_subscribers b) s)) \<and> qb_next b' = qb_next b"
    if "dr_Subscribe (sqs_driver cfg G) t x b = (Inl e, b')"
    using that resolve_frame(1,2) by (auto simp: sqs_driver_def sqs_Subscribe_def Let_def split: if_splits prod.splits)
  assume s: "dr_Subscribe (sqs_driver cfg G) t x b = (Inr i, b')"
  obtain u asked b1 where r: "resolveQueueUrl G (qs_queueUrl x) t b = (u, asked, b1)" by (rule prod_cases3)
  let ?w1 = "(snd (qb_subscribers b))(qb_next b := \<lparr>qu_topic = t, qu_queueUrl = u, qu_closed = False\<rparr>)"
  have f: "i = qb_next b \<and> qb_next b' = Suc (qb_next b) \<and> qb_subscribers b' = replace_subscriber sqs_Unsubscribe t (qb_next b) (fst (qb_subscribers b), ?w1)"
    using s r resolve_frame [OF r] by (auto simp: sqs_driver_def sqs_Subscribe_def Let_def split: if_splits prod.splits)
  have "(\<lambda>s. qu_topic (?w1 s)) = (\<lambda>s. qu_topic (snd (qb_subscribers b) s))(qb_next b := t)"
    "(\<lambda>s. qu_closed (?w1 s)) = (\<lambda>s. qu_closed (snd (qb_subscribers b) s))(qb_next b := False)" by (simp_all add: fun_eq_iff)
  with f show "i = qb_next b \<and> qb_next b' = Suc (qb_next b) \<and> (\<exists>w1. (\<lambda>s. qu_topic (w1 s)) = (\<lambda>s. qu_topic (snd (qb_subscribers b) s))(qb_next b := t)
      \<and> (\<lambda>s. qu_closed (w1 s)) = (\<lambda>s. qu_closed (snd (qb_subscribers b) s))(qb_next b := False)
      \<and> qb_subscribers b' = replace_subscriber sqs_Unsubscribe t (qb_next b) (fst (qb_subscribers b), w1))" by blast
next
  fix b :: sqs_broker
  show "qb_next (snd (dr_Disconnect (sqs_driver cfg G) b)) = qb_next b \<and> (\<exists>w. (\<lambda>s. qu_topic (w s)) = (\<lambda>s. qu_topic (snd (qb_subscribers b) s))
      \<and> (\<lambda>s. qu_closed (w s)) = (\<lambda>s. qu_closed (snd (qb_subscribers b) s))
      \<and> qb_subscribers (snd (dr_Disconnect (sqs_driver cfg G) b)) \<in> {(fst (qb_subscribers b), w), SubscriberSyncMap_Clear sqs_Unsubscribe (fst (qb_subscribers b), w)})"
    by (intro conjI exI [of _ "snd (qb_subscribers b)"]) (simp_all add: sqs_driver_def sqs_Disconnect_def)
qed (auto simp: sqs_driver_def sqs_Init_def sqs_configure_def sqs_Connect_def sqs_Disconnect_def qb_Unsubscribe_def Let_def case_prod_unfold split: option.split)

text \<open>The headers of a message survive the attributes; a message without headers has none on the other side.\<close>

lemma sqs_headers_back:
  assumes "gomap_wf hs" and "qm_MessageAttributes m = map_option (map (\<lambda>(k, v). (k, Some v))) (if hs = [] then None else Some hs)"
  shows "sqs_headers m = (if hs = [] then None else Some hs)"
proof -
  have "fold (\<lambda>(k, v) acc. case v of None \<Rightarrow> acc | Some s \<Rightarrow> gomap_put k s acc) (map (\<lambda>(k, v). (k, Some v)) xs) acc = fold (\<lambda>(k, v). gomap_put k v) xs acc"
    for xs :: "(string \<times> string) list" and acc by (induction xs arbitrary: acc) auto
  then show ?thesis using assms gomap_copy_id [OF assms(1)] by (simp add: sqs_headers_def gomap_put_all_def)
qed

section \<open>Properties\<close>

text \<open>
  No interleaving of calls of \<open>Start\<close>, \<open>Stop\<close> and \<open>RegisterSubscriber\<close> leaks a subscriber of the SQS transport, whatever the service answers: whenever no call is running,
  every subscriber that is not closed is in the server's table, where each topic has one entry, and when the server is stopped there is none.
\<close>

theorem sqs_server_leaks_no_subscription:
  assumes "mq_reach (sqs_driver cfg G) kenv kind (sqs_NewBroker opts w) (s, ps)" and "quiet ps"
  shows "{i. i < qb_next (mq_Broker s) \<and> \<not> qu_closed (snd (qb_subscribers (mq_Broker s)) i)} \<subseteq> snd ` set (mq_subscribers s) \<and> gomap_wf (mq_subscribers s)
       \<and> (mq_started s \<or> {i. i < qb_next (mq_Broker s) \<and> \<not> qu_closed (snd (qb_subscribers (mq_Broker s)) i)} = {})"
proof -
  have b: "fst (qb_subscribers (sqs_NewBroker opts w)) = []" "qb_next (sqs_NewBroker opts w) = 0" by (simp_all add: sqs_NewBroker_def NewSubscriberSyncMap_def)
  show ?thesis using sqs_mq.tb_no_leak [OF assms(1,2) b] by blast
qed

definition demo_sqs_options :: sqs_options where
  "demo_sqs_options = \<lparr>qo_Addrs = [], qo_region = None, qo_endpoint = None, qo_queueUrl = None\<rparr>"

definition demo_qsubs :: "nat \<Rightarrow> qsub" where "demo_qsubs i = \<lparr>qu_topic = '''', qu_queueUrl = '''', qu_closed = False\<rparr>"

definition demo_sqs_sub_options :: sqs_sub_options where
  "demo_sqs_sub_options = \<lparr>qs_queueUrl = None, qs_visibilityTimeout = None, qs_waitTimeSeconds = None, qs_maxMessages = None\<rparr>"

theorem sqs_server_leaks_no_subscription_witness:
  "gomap_wf (mq_subscribers (snd (mq_exec (sqs_driver (\<lambda>r e. None) Some) ka_test_env ''sqs'' (PRegister ''t'' demo_sqs_sub_options)
      (mq_NewServer ka_test_env ''sqs'' [] (sqs_NewBroker demo_sqs_options demo_qsubs)))))"
proof -
  let ?D = "sqs_driver (\<lambda>r e. None) Some" and ?b = "sqs_NewBroker demo_sqs_options demo_qsubs"
  let ?pc = "PRegister ''t'' demo_sqs_sub_options"
  let ?s0 = "mq_NewServer ka_test_env ''sqs'' [] ?b :: (sqs_sub_options, sqs_broker) mq_server"
  obtain pc s where e: "mq_exec ?D ka_test_env ''sqs'' ?pc ?s0 = (pc, s)" by force
  have pc: "pc = PDone None" using e by (auto simp: mq_NewServer_def mq_init_def)
  have "mq_reach ?D ka_test_env ''sqs'' ?b (?s0, [?pc])"
    using mq_reach.step [OF mq_reach.init mq_step.call [of ?pc "''t''" demo_sqs_sub_options]] by force
  from mq_reach.step [OF this mq_step.go [of 0]] have "mq_reach ?D ka_test_env ''sqs'' ?b (s, [pc])" using e by simp
  from sqs_server_leaks_no_subscription [OF this] show ?thesis using pc e by (simp add: quiet_def)
qed

text \<open>
  A message that is sent to a queue and received from it reaches the typed handler with the body and exactly the headers that were published, so that requests can be answered
  over SQS, and once it is handled it is deleted with its receipt handle. The hypotheses are that the codec reads what it wrote and that the service delivers the
  body and the attributes as they were sent.
\<close>

theorem sqs_publish_consume_roundtrip:
  assumes "sqs_internalPublish gob (Some c) G send topic x msg b = (None, Some input, b1)" and "codec_reads c t zero (msg_Body msg)"
    and "msg_Headers msg = Some hs" and "gomap_wf hs"
    and "qm_Body m = Some (si_MessageBody input)" and "qm_MessageAttributes m = map_option (map (\<lambda>(k, v). (k, Some v))) (si_MessageAttributes input)"
    and "qk_Codec S = Some c" and "qk_binder S = Some (Binder t zero)" and "qk_handler S = Subscribe_handler t h"
    and "h ctx0 (qk_topic S) (if hs = [] then None else Some hs) (Some (msg_Body msg)) (w, False) = (None, st)"
  shows "processMessage S ctx0 m w = fst (if qk_AutoAck S then snd (sqs_Ack S m st) else st)"
proof -
  obtain buf where buf: "Marshal gob (Some c) (msg_Body msg) = Inr buf" using assms(1) by (auto simp: sqs_internalPublish_def split: sum.splits)
  obtain y where y: "buf = Some y" "bind_body (qk_gob S) (Some c) (Some (Binder t zero)) y = Inr (DPtr t (Some (msg_Body msg)))"
    by (rule bind_body_published [OF buf assms(2)])
  obtain u where "input = sqs_input_of u x ((Clone msg)\<lparr>msg_Body := DBytes buf\<rparr>)"
    using assms(1) buf by (auto simp: sqs_internalPublish_def sqs_publish_def Let_def split: if_splits prod.splits)
  then have i: "si_MessageBody input = y" "si_MessageAttributes input = (if hs = [] then None else Some hs)"
    using assms(3,4) y(1) by (simp_all add: sqs_input_of_def BodyBytes_def Clone_def HeadersCopy_def gomap_copy_id Let_def)
  have "sqs_headers m = (if hs = [] then None else Some hs)" using sqs_headers_back [OF assms(4)] assms(6) i(2) by simp
  moreover have "sqs_body S m = Inr (DPtr t (Some (msg_Body msg)))" using assms(5,7,8) i(1) y(2) by (simp add: sqs_body_def)
  moreover have "qk_handler S ctx0 (Some (sqs_publication S m (if hs = [] then None else Some hs) (DPtr t (Some (msg_Body msg))) None)) (w, False) = (None, st)"
    unfolding assms(9) using assms(10) by (subst typed_delivery [where m = "empty_message\<lparr>msg_Headers := if hs = [] then None else Some hs, msg_Body := DPtr t (Some (msg_Body msg))\<rparr>"])
      (simp_all add: sqs_publication_def)
  ultimately show ?thesis by (simp add: processMessage_def)
qed

definition demo_sqs_sub :: "string list sqs_sub" where
  "demo_sqs_sub = \<lparr>qk_topic = ''t'', qk_ctx = [], qk_handler = Subscribe_handler TInt (\<lambda>c topic hs d st. (None, st)), qk_binder = Some (Binder TInt (DInt 0)), qk_ErrorHandler = None,
     qk_gob = redis_codec, qk_Codec = Some redis_codec, qk_AutoAck = True, qk_client = True, qk_delete = (\<lambda>h l. (None, l @ [h]))\<rparr>"

definition demo_sqs_broker :: sqs_broker where
  "demo_sqs_broker = snd (sqs_Connect (\<lambda>r e. None) (sqs_NewBroker demo_sqs_options demo_qsubs))"

definition demo_sqs_msg :: sqs_msg where
  "demo_sqs_msg = \<lparr>qm_Body = Some ''x'', qm_MessageAttributes = Some [(''k'', Some ''v'')], qm_ReceiptHandle = Some ''r1''\<rparr>"

theorem sqs_publish_consume_roundtrip_witness:
  "processMessage demo_sqs_sub [] demo_sqs_msg [] = [''r1'']"
proof -
  let ?x = "\<lparr>qp_queueUrl = None, qp_delaySeconds = None, qp_messageGroupId = None, qp_messageDeduplicationId = None\<rparr> :: sqs_pub_options"
  let ?msg = "NewMessage (DInt 7) [Some (WithHeader ''k'' ''v'')]"
  have f: "msg_Body ?msg = DInt 7" "msg_Headers ?msg = Some [(''k'', ''v'')]"
    by (simp_all add: NewMessage_def WithHeader_def SetHeader_def gomap_put_def)
  have "\<exists>input b1. sqs_internalPublish redis_codec (Some redis_codec) Some (\<lambda>i. None) ''t'' ?x ?msg demo_sqs_broker = (None, Some input, b1)
      \<and> si_MessageBody input = ''x'' \<and> si_MessageAttributes input = Some [(''k'', ''v'')]"
    using f by (simp add: sqs_internalPublish_def sqs_publish_def Marshal_def redis_codec_def demo_sqs_broker_def sqs_Connect_def sqs_NewBroker_def resolveQueueUrl_def
        queue_lookup_def demo_sqs_options_def sqs_input_of_def BodyBytes_def Clone_def HeadersCopy_def gomap_put_all_def gomap_put_def)
  then obtain input b1 where p: "sqs_internalPublish redis_codec (Some redis_codec) Some (\<lambda>i. None) ''t'' ?x ?msg demo_sqs_broker = (None, Some input, b1)"
    "si_MessageBody input = ''x''" "si_MessageAttributes input = Some [(''k'', ''v'')]" by blast
  have "processMessage demo_sqs_sub [] demo_sqs_msg [] = fst (if qk_AutoAck demo_sqs_sub then snd (sqs_Ack demo_sqs_sub demo_sqs_msg ([], False)) else ([], False))"
    by (rule sqs_publish_consume_roundtrip [OF p(1), where t = TInt and zero = "DInt 0" and hs = "[(''k'', ''v'')]" and h = "\<lambda>c topic hs d st. (None, st)"])
      (simp_all add: f p demo_sqs_msg_def demo_sqs_sub_def codec_reads_def redis_codec_def)
  then show ?thesis by (simp add: demo_sqs_sub_def sqs_Ack_def demo_sqs_msg_def)
qed

text \<open>
  The attempts to delete a message: \<open>log\<close> reads them off the world, each with its receipt handle and its success. \<open>sqs_acks\<close> says that a handler calls \<open>Ack\<close> of the event
  a number of times, and apart from that does what it likes with the rest of the world. \<open>tried\<close> is what such a run adds to the log: failures, and at most one
  success, after which nothing is tried any more.
\<close>

inductive sqs_acks :: "'w sqs_sub \<Rightarrow> ('w \<Rightarrow> (string \<times> bool) list) \<Rightarrow> sqs_msg \<Rightarrow> nat \<Rightarrow> 'w \<times> bool \<Rightarrow> 'w \<times> bool \<Rightarrow> bool"
  for S log m where
  none: "sqs_acks S log m 0 st st"
| other: "sqs_acks S log m n st (w, acked) \<Longrightarrow> log w1 = log w \<Longrightarrow> sqs_acks S log m n st (w1, acked)"
| ack: "sqs_acks S log m n st st1 \<Longrightarrow> sqs_acks S log m (Suc n) st (snd (sqs_Ack S m st1))"

definition tried :: "('w \<Rightarrow> (string \<times> bool) list) \<Rightarrow> string \<Rightarrow> nat \<Rightarrow> 'w \<times> bool \<Rightarrow> 'w \<times> bool \<Rightarrow> bool" where
  "tried log r n st st1 \<longleftrightarrow> (\<exists>k ok. log (fst st1) = log (fst st) @ replicate k (r, False) @ (if ok then [(r, True)] else [])
       \<and> (snd st1 \<longleftrightarrow> snd st \<or> ok) \<and> (if snd st then k = 0 \<and> \<not> ok else n = 0 \<longleftrightarrow> k = 0 \<and> \<not> ok))"

lemma tried_none: "log (fst st1) = log (fst st) \<Longrightarrow> snd st1 = snd st \<Longrightarrow> tried log r 0 st st1"
  unfolding tried_def by (intro exI [of _ "0 :: nat"] exI [of _ False]) simp

lemma tried_trans:
  assumes "tried log r n st st1" and "tried log r n1 st1 st2" shows "tried log r (n + n1) st st2"
proof -
  from assms(1) obtain k ok where a: "log (fst st1) = log (fst st) @ replicate k (r, False) @ (if ok then [(r, True)] else [])"
    "snd st1 \<longleftrightarrow> snd st \<or> ok" "if snd st then k = 0 \<and> \<not> ok else n = 0 \<longleftrightarrow> k = 0 \<and> \<not> ok" unfolding tried_def by blast
  from assms(2) obtain k1 ok1 where b: "log (fst st2) = log (fst st1) @ replicate k1 (r, False) @ (if ok1 then [(r, True)] else [])"
    "snd st2 \<longleftrightarrow> snd st1 \<or> ok1" "if snd st1 then k1 = 0 \<and> \<not> ok1 else n1 = 0 \<longleftrightarrow> k1 = 0 \<and> \<not> ok1" unfolding tried_def by blast
  show ?thesis unfolding tried_def
  proof (intro exI [of _ "k + k1"] exI [of _ "ok \<or> ok1"] conjI)
    show "log (fst st2) = log (fst st) @ replicate (k + k1) (r, False) @ (if ok \<or> ok1 then [(r, True)] else [])"
      using a b by (cases ok) (simp_all add: replicate_add)
    show "snd st2 \<longleftrightarrow> snd st \<or> (ok \<or> ok1)" using a(2) b(2) by blast
    show "if snd st then k + k1 = 0 \<and> \<not> (ok \<or> ok1) else (n + n1 = 0) = (k + k1 = 0 \<and> \<not> (ok \<or> ok1))"
      using a(2,3) b(3) by (auto split: if_splits)
  qed
qed

lemma tried_ack:
  assumes "qk_client S" and "qm_ReceiptHandle m = Some r" and del: "\<And>h w. log (snd (qk_delete S h w)) = log w @ [(h, fst (qk_delete S h w) = None)]"
  shows "tried log r 1 st (snd (sqs_Ack S m st))"
proof -
  obtain w acked where st: "st = (w, acked)" by (rule prod.exhaust)
  obtain e w1 where d: "qk_delete S r w = (e, w1)" by (rule prod.exhaust)
  have "log w1 = log w @ [(r, e = None)]" using del [of r w] d by simp
  then show ?thesis unfolding tried_def st using assms(1,2) d
    by (intro exI [of _ "if acked \<or> e = None then 0 else 1"] exI [of _ "\<not> acked \<and> e = None"]) (auto simp: sqs_Ack_def split: option.split)
qed

lemma acks_tried:
  assumes "qk_client S" and "qm_ReceiptHandle m = Some r" and "\<And>h w. log (snd (qk_delete S h w)) = log w @ [(h, fst (qk_delete S h w) = None)]"
    and "sqs_acks S log m n st st1"
  shows "tried log r n st st1"
  using assms(4)
proof induction
  case (none st)
  show ?case by (simp add: tried_none)
next
  case (other n st w acked w1)
  then show ?case using tried_trans [OF other.IH tried_none [of log "(w1, acked)" "(w, acked)" r]] by simp
next
  case (ack n st st1)
  then show ?case using tried_trans [OF ack.IH tried_ack [OF assms(1-3)]] by simp
qed

text \<open>
  C32: A message received from SQS is deleted at most once. The calls of \<open>DeleteMessage\<close> that \<open>processMessage\<close> makes for it, each with the receipt handle of the message, are a number of
  failures and then at most one success, and there is one at all exactly when \<open>Ack\<close> is called: by the error handler for a message
  whose body cannot be decoded, by the handler or by the error handler when the handler fails, and by the handler or by the
  subscription itself, with \<open>AutoAck\<close>, when the handler succeeds. Without an \<open>Ack\<close> the message stays in the queue. The hypotheses: the
  subscription has its client and the message a receipt handle, the log of the environment has every call of \<open>DeleteMessage\<close> with its success, which may change
  from call to call, and the handlers add to this log only by calling \<open>Ack\<close> of their event, \<open>hn\<close> and \<open>en\<close> times in the state they are called in.
\<close>

theorem sqs_deletes_acknowledged_once:
  assumes "qk_client S" and "qm_ReceiptHandle m = Some r" and "\<And>h w. log (snd (qk_delete S h w)) = log w @ [(h, fst (qk_delete S h w) = None)]"
    and handler: "\<And>body st. sqs_acks S log m (hn st) st (snd (qk_handler S c (Some (sqs_publication S m (sqs_headers m) body None)) st))"
    and eh: "\<And>h c body e st. qk_ErrorHandler S = Some h \<Longrightarrow> sqs_acks S log m (en st) st (snd (h c (Some (sqs_publication S m (sqs_headers m) body (Some e))) st))"
  shows "\<exists>k ok. log (processMessage S c m w) = log w @ replicate k (r, False) @ (if ok then [(r, True)] else [])
       \<and> (k > 0 \<or> ok \<longleftrightarrow>
            (case sqs_body S m of
               Inl x \<Rightarrow> qk_ErrorHandler S \<noteq> None \<and> en (w, False) > 0
             | Inr body \<Rightarrow> hn (w, False) > 0 \<or>
                 (case qk_handler S c (Some (sqs_publication S m (sqs_headers m) body None)) (w, False) of
                    (Some e, st) \<Rightarrow> qk_ErrorHandler S \<noteq> None \<and> en st > 0
                  | (None, st) \<Rightarrow> qk_AutoAck S)))"
proof -
  note run = acks_tried [where log = log, OF assms(1-3)]
  have on_err: "tried log r (if qk_ErrorHandler S = None then 0 else en st) st (sqs_eh S c' (sqs_publication S m (sqs_headers m) body (Some e)) st)" for c' body e st
    using run [OF eh] tried_none [of log st st r] by (auto simp: sqs_eh_def split: option.split)
  let ?C = "case sqs_body S m of
               Inl x \<Rightarrow> qk_ErrorHandler S \<noteq> None \<and> en (w, False) > 0
             | Inr body \<Rightarrow> hn (w, False) > 0 \<or>
                 (case qk_handler S c (Some (sqs_publication S m (sqs_headers m) body None)) (w, False) of
                    (Some e, st) \<Rightarrow> qk_ErrorHandler S \<noteq> None \<and> en st > 0
                  | (None, st) \<Rightarrow> qk_AutoAck S)"
  have fin: ?thesis if t: "tried log r n (w, False) st1" and "processMessage S c m w = fst st1" and "?C \<longleftrightarrow> n > 0" for n st1
  proof -
    from t obtain k ok where k: "log (fst st1) = log w @ replicate k (r, False) @ (if ok then [(r, True)] else [])" "n = 0 \<longleftrightarrow> k = 0 \<and> \<not> ok"
      unfolding tried_def by auto
    from k(2) have "k > 0 \<or> ok \<longleftrightarrow> ?C" unfolding that(3) by linarith
    with k(1) that(2) show ?thesis by auto
  qed
  show ?thesis
  proof (cases "sqs_body S m")
    case (Inl x)
    obtain e body where x: "x = (e, body)" by (rule prod.exhaust)
    show ?thesis by (rule fin [OF on_err [of "(w, False)" "qk_ctx S" body e]]) (simp_all add: processMessage_def Inl x)
  next
    case (Inr body)
    obtain e st where h: "qk_handler S c (Some (sqs_publication S m (sqs_headers m) body None)) (w, False) = (e, st)" by (rule prod.exhaust)
    have t: "tried log r (hn (w, False)) (w, False) st" using run [OF handler [of "(w, False)" body]] h by simp
    show ?thesis
    proof (cases e)
      case None
      have "tried log r (if qk_AutoAck S then 1 else 0) st (if qk_AutoAck S then snd (sqs_Ack S m st) else st)"
        using tried_ack [where log = log, OF assms(1-3)] tried_none [of log st st r] by simp
      then show ?thesis by (rule fin [OF tried_trans [OF t]]) (simp_all add: processMessage_def None Inr h)
    next
      case (Some er)
      show ?thesis by (rule fin [OF tried_trans [OF t on_err [of st c body er]]]) (simp_all add: processMessage_def Some Inr h)
    qed
  qed
qed

text \<open>The service of the example refuses the first deletion; the handler acknowledges twice and fails, and the error handler acknowledges once more.\<close>

definition log_sqs :: "(string \<times> bool) list sqs_sub" where
  "log_sqs = \<lparr>qk_topic = ''t'', qk_ctx = [], qk_handler = (\<lambda>c evt st. case evt of None \<Rightarrow> (None, st)
        | Some p \<Rightarrow> (Some (ErrNew ''no''), snd (evt_Ack p (snd (evt_Ack p st))))), qk_binder = None,
     qk_ErrorHandler = Some (\<lambda>c evt st. case evt of None \<Rightarrow> (None, st) | Some p \<Rightarrow> evt_Ack p st),
     qk_gob = redis_codec, qk_Codec = Some redis_codec, qk_AutoAck = True, qk_client = True,
     qk_delete = (\<lambda>h l. if l = [] then (Some (ErrNew ''later''), l @ [(h, False)]) else (None, l @ [(h, True)]))\<rparr>"

theorem sqs_deletes_acknowledged_once_witness:
  "processMessage log_sqs [] demo_sqs_msg [] = [(''r1'', False), (''r1'', True)]
   \<and> (\<exists>k ok. processMessage log_sqs [] demo_sqs_msg [] = [] @ replicate k (''r1'', False) @ (if ok then [(''r1'', True)] else []) \<and> (k > 0 \<or> ok))"
proof -
  have two: "sqs_acks log_sqs id m (Suc (Suc 0)) st (snd (sqs_Ack log_sqs m (snd (sqs_Ack log_sqs m st))))" for m st
    by (intro sqs_acks.ack sqs_acks.none)
  have h: "sqs_acks log_sqs id m (Suc (Suc 0)) st (snd (qk_handler log_sqs c (Some (sqs_publication log_sqs m hs body None)) st))" for m st c hs body
    using two by (simp add: log_sqs_def sqs_publication_def)
  have eh: "sqs_acks log_sqs id m (Suc 0) st (snd (h c (Some (sqs_publication log_sqs m hs body e)) st))" if "qk_ErrorHandler log_sqs = Some h" for m st c h hs body e
    using that sqs_acks.ack [OF sqs_acks.none, of log_sqs id m st] by (auto simp: log_sqs_def sqs_publication_def)
  have "\<exists>k ok. id (processMessage log_sqs [] demo_sqs_msg []) = id [] @ replicate k (''r1'', False) @ (if ok then [(''r1'', True)] else [])
       \<and> (k > 0 \<or> ok \<longleftrightarrow>
            (case sqs_body log_sqs demo_sqs_msg of
               Inl x \<Rightarrow> qk_ErrorHandler log_sqs \<noteq> None \<and> Suc 0 > 0
             | Inr body \<Rightarrow> Suc (Suc 0) > 0 \<or>
                 (case qk_handler log_sqs [] (Some (sqs_publication log_sqs demo_sqs_msg (sqs_headers demo_sqs_msg) body None)) ([], False) of
                    (Some e, st) \<Rightarrow> qk_ErrorHandler log_sqs \<noteq> None \<and> Suc 0 > 0
                  | (None, st) \<Rightarrow> qk_AutoAck log_sqs)))"
    by (rule sqs_deletes_acknowledged_once [where S = log_sqs and log = id and m = demo_sqs_msg and hn = "\<lambda>st. Suc (Suc 0)" and en = "\<lambda>st. Suc 0"])
      (simp add: log_sqs_def, simp add: demo_sqs_msg_def, simp add: log_sqs_def, rule h, erule eh)
  moreover have "sqs_body log_sqs demo_sqs_msg = Inr (DBytes (Some ''x''))" by (simp add: sqs_body_def log_sqs_def demo_sqs_msg_def bind_body_def)
  moreover have "processMessage log_sqs [] demo_sqs_msg [] = [(''r1'', False), (''r1'', True)]"
    by (simp add: processMessage_def log_sqs_def demo_sqs_msg_def sqs_body_def bind_body_def sqs_publication_def sqs_Ack_def sqs_eh_def)
  ultimately show ?thesis by simp
qed

text \<open>
  The URL of a queue is asked for once: after a resolution that succeeded, the same topic is resolved to the same URL without a request, whatever the service would answer, and a
  disconnection does not forget it.
\<close>

theorem sqs_queue_url_is_asked_once:
  assumes "resolveQueueUrl G key topic b = (url, asked, b1)" and "url \<noteq> ''''"
  shows "resolveQueueUrl G' key topic b1 = (url, False, b1) \<and> fst (resolveQueueUrl G' key topic (snd (sqs_Disconnect b1))) = url"
  using assms by (auto simp: resolveQueueUrl_def queue_lookup_def sqs_Disconnect_def split: if_splits option.splits)

theorem sqs_queue_url_is_asked_once_witness:
  "resolveQueueUrl (\<lambda>t. None) None ''t'' (snd (snd (resolveQueueUrl Some None ''t'' demo_sqs_broker)))
     = (''t'', False, snd (snd (resolveQueueUrl Some None ''t'' demo_sqs_broker)))"
proof -
  obtain asked b1 where r: "resolveQueueUrl Some None ''t'' demo_sqs_broker = (''t'', asked, b1)"
    by (simp add: resolveQueueUrl_def queue_lookup_def demo_sqs_broker_def sqs_Connect_def sqs_NewBroker_def demo_sqs_options_def)
  from sqs_queue_url_is_asked_once [OF r, of "\<lambda>t. None"] show ?thesis by (simp add: r)
qed

end
