(* ===== verification/Nsq_Broker.thy ===== *)
theory Nsq_Broker
  imports Broker_Delivery Mq_Table
begin

text \<open>
  The NSQ driver: \<open>broker/nsq/nsq.go\<close>, \<open>subscriber.go\<close>, \<open>publication.go\<close>, \<open>options.go\<close>, and its use by the server of \<open>transport/nsq\<close>. The client library is the environment: \<open>P\<close> is the
  error of making and pinging a producer, \<open>N\<close> that of making a consumer for a topic, \<open>C\<close> that of connecting it. A consumer is a number; \<open>zw_running\<close> lists those that were made and
  not stopped. A producer is a number with its address; \<open>zb_made\<close> lists those that were made and not stopped.
\<close>

section \<open>The broker\<close>

record nsq_options =
  zo_Addrs :: "string list"
  zo_lookupdAddrs :: "string list option"

type_synonym nsq_option = "nsq_options \<Rightarrow> nsq_options"

definition nsq_WithLookupdAddress :: "string list \<Rightarrow> nsq_option" where "nsq_WithLookupdAddress addrs x = x\<lparr>zo_lookupdAddrs := Some addrs\<rparr>"

record zsub =
  zs_topic :: string
  zs_queue :: string
  zs_consumer :: "nat option"
  zs_needsHandler :: bool
  zs_handlerFunc :: bool
  zs_closed :: bool

record nsq_world =
  zw_subs :: "nat \<Rightarrow> zsub"
  zw_running :: "nat list"
  zw_made :: nat

record nsq_broker =
  zb_options :: nsq_options
  zb_lookupAddrs :: "string list"
  zb_addrs :: "string list"
  zb_running :: bool
  zb_producers :: "(nat \<times> string) list"
  zb_made :: "(nat \<times> string) list"
  zb_fresh :: nat
  zb_subscribers :: "(nat, nsq_world) sub_state"
  zb_next :: nat

definition nsq_NewBroker :: "nsq_options \<Rightarrow> (nat \<Rightarrow> zsub) \<Rightarrow> nsq_broker" where
  "nsq_NewBroker opts f =
     \<lparr>zb_options = opts, zb_lookupAddrs = [], zb_addrs = [], zb_running = False, zb_producers = [], zb_made = [], zb_fresh = 0,
      zb_subscribers = (NewSubscriberSyncMap, \<lparr>zw_subs = f, zw_running = [], zw_made = 0\<rparr>), zb_next = 0\<rparr>"

definition nsq_Address :: "nsq_broker \<Rightarrow> string" where
  "nsq_Address b = (if length (zo_Addrs (zb_options b)) > 0 then zo_Addrs (zb_options b) ! 0 else ''127.0.0.1:4150'')"

definition nsq_configure :: "nsq_broker \<Rightarrow> nsq_broker" where
  "nsq_configure b = (case zo_lookupdAddrs (zb_options b) of Some v \<Rightarrow> b\<lparr>zb_lookupAddrs := v\<rparr> | None \<Rightarrow> b)"

definition nsq_Init :: "nsq_option list \<Rightarrow> nsq_broker \<Rightarrow> error option \<times> nsq_broker" where
  "nsq_Init opts b =
     (let x = fold (\<lambda>opt x. opt x) opts (zb_options b);
          addrs = filter (\<lambda>a. length a > 0) (zo_Addrs x)
      in (None, nsq_configure (b\<lparr>zb_options := x, zb_addrs := (if length addrs = 0 then [''127.0.0.1:4150''] else addrs)\<rparr>)))"

text \<open>The producers of \<open>Connect\<close>: a producer that cannot be pinged has been made.\<close>

datatype producer_result = ProducerError error | PingError error | ProducerOk

fun nsq_make_producers :: "(string \<Rightarrow> producer_result) \<Rightarrow> nat \<Rightarrow> string list \<Rightarrow> error option \<times> (nat \<times> string) list" where
  "nsq_make_producers P n [] = (None, [])"
| "nsq_make_producers P n (addr # addrs) =
     (case P addr of
        ProducerError e \<Rightarrow> (Some e, [])
      | PingError e \<Rightarrow> (Some e, [(n, addr)])
      | ProducerOk \<Rightarrow> (let (e, made) = nsq_make_producers P (Suc n) addrs in (e, (n, addr) # made)))"

text \<open>
  The consumer that \<open>Connect\<close> makes for a subscriber of the table; the consumer it had before is not stopped. The body of the loop is in two pieces, the test of
  \<open>IsClosed\<close> under the subscriber's lock and the rest, which runs without it: an \<open>Unsubscribe\<close> can come in between.
\<close>

definition nsq_rebuild ::
    "(string \<Rightarrow> error option) \<Rightarrow> (nat \<Rightarrow> error option) \<Rightarrow> bool \<Rightarrow> string \<Rightarrow> nat \<Rightarrow> error list \<times> nsq_world \<Rightarrow> error list \<times> nsq_world" where
  "nsq_rebuild N C lookup topic i st =
     (case st of (errs, w) \<Rightarrow>
        (let c = zw_subs w i
         in (case N (zs_topic c) of
               Some e \<Rightarrow> (errs @ [ErrWrap (''topic '' @ topic) e], w)
             | None \<Rightarrow>
                 (let cm = zw_made w;
                      c1 = c\<lparr>zs_consumer := Some cm, zs_handlerFunc := zs_handlerFunc c \<or> zs_needsHandler c\<rparr>;
                      w1 = w\<lparr>zw_subs := (zw_subs w)(i := c1), zw_running := cm # zw_running w, zw_made := Suc cm\<rparr>
                  in if lookup then (errs, w1)
                     else (case C cm of None \<Rightarrow> (errs, w1) | Some e \<Rightarrow> (errs @ [ErrWrap (''topic '' @ topic) e], w1))))))"

definition nsq_revive ::
    "(string \<Rightarrow> error option) \<Rightarrow> (nat \<Rightarrow> error option) \<Rightarrow> bool \<Rightarrow> string \<Rightarrow> nat \<Rightarrow> error list \<times> nsq_world \<Rightarrow> error list \<times> nsq_world" where
  "nsq_revive N C lookup topic i st = (if zs_closed (zw_subs (snd st) i) then st else nsq_rebuild N C lookup topic i st)"

definition nsq_Connect ::
    "(string \<Rightarrow> producer_result) \<Rightarrow> (string \<Rightarrow> error option) \<Rightarrow> (nat \<Rightarrow> error option) \<Rightarrow> nsq_broker \<Rightarrow> error option \<times> nsq_broker" where
  "nsq_Connect P N C b =
     (if zb_running b then (None, b)
      else (case nsq_make_producers P (zb_fresh b) (zb_addrs b) of
              (Some e, made) \<Rightarrow> (Some e, b\<lparr>zb_made := zb_made b @ made, zb_fresh := zb_fresh b + length made\<rparr>)
            | (None, made) \<Rightarrow>
                (let (m, w) = zb_subscribers b;
                     (errs, w1) = SubscriberSyncMap_Foreach (nsq_revive N C (length (zb_lookupAddrs b) > 0)) m ([], w);
                     b1 = b\<lparr>zb_made := zb_made b @ made, zb_fresh := zb_fresh b + length made, zb_producers := made, zb_subscribers := (m, w1)\<rparr>
                 in (case errors_Join errs of Some e \<Rightarrow> (Some e, b1) | None \<Rightarrow> (None, b1\<lparr>zb_running := True\<rparr>)))))"

definition nsq_stop_consumer :: "nat \<Rightarrow> nsq_world \<Rightarrow> nsq_world" where
  "nsq_stop_consumer i w = (case zs_consumer (zw_subs w i) of None \<Rightarrow> w | Some c \<Rightarrow> w\<lparr>zw_running := removeAll c (zw_running w)\<rparr>)"

definition nsq_Unsubscribe :: "(nat, nsq_world) unsub_fn" where
  "nsq_Unsubscribe s removeFromManager st =
     (let w = nsq_stop_consumer s (snd st)
      in (None, (if removeFromManager then snd (SubscriberSyncMap_RemoveOnly (zs_topic (zw_subs w s)) (fst st)) else fst st,
                 w\<lparr>zw_subs := (zw_subs w)(s := (zw_subs w s)\<lparr>zs_closed := True\<rparr>)\<rparr>)))"

definition zb_Unsubscribe :: "nat \<Rightarrow> bool \<Rightarrow> nsq_broker \<Rightarrow> error option \<times> nsq_broker" where
  "zb_Unsubscribe sub rm b = (let (e, st) = nsq_Unsubscribe sub rm (zb_subscribers b) in (e, b\<lparr>zb_subscribers := st\<rparr>))"

text \<open>The loop of \<open>Disconnect\<close> over the subscribers: \<open>False\<close> when it runs into a subscriber whose consumer is nil.\<close>

fun nsq_stop_all :: "nat list \<Rightarrow> nsq_world \<Rightarrow> bool \<times> nsq_world" where
  "nsq_stop_all [] w = (True, w)"
| "nsq_stop_all (i # is) w = (if zs_consumer (zw_subs w i) = None then (False, w) else nsq_stop_all is (nsq_stop_consumer i w))"

definition nsq_Disconnect :: "nsq_broker \<Rightarrow> error option \<times> nsq_broker" where
  "nsq_Disconnect b =
     (if \<not> zb_running b then (None, b)
      else let b1 = b\<lparr>zb_made := filter (\<lambda>a. a \<notin> set (zb_producers b)) (zb_made b)\<rparr>; (m, w) = zb_subscribers b1
           in (case nsq_stop_all (map snd m) w of
                 (False, w1) \<Rightarrow> (Some (GoPanic ''nil consumer''), b1\<lparr>zb_subscribers := (m, w1)\<rparr>)
               | (True, w1) \<Rightarrow>
                   (None, b1\<lparr>zb_subscribers := SubscriberSyncMap_Clear nsq_Unsubscribe (m, w1), zb_producers := [], zb_running := False\<rparr>)))"

text \<open>\<open>Subscribe\<close>: without a connection the subscriber is only stored. A consumer that cannot be connected has been made and is not stopped.\<close>

definition nsq_Subscribe :: "(string \<Rightarrow> error option) \<Rightarrow> (nat \<Rightarrow> error option) \<Rightarrow> string \<Rightarrow> string \<Rightarrow> nsq_broker \<Rightarrow> (error + nat) \<times> nsq_broker" where
  "nsq_Subscribe N C topic queue b =
     (let (m, w) = zb_subscribers b; sub = zb_next b
      in if \<not> zb_running b
         then (Inr sub, b\<lparr>zb_subscribers := replace_subscriber nsq_Unsubscribe topic sub
                 (m, w\<lparr>zw_subs := (zw_subs w)(sub := \<lparr>zs_topic = topic, zs_queue = queue, zs_consumer = None, zs_needsHandler = True, zs_handlerFunc = False,
                    zs_closed = False\<rparr>)\<rparr>), zb_next := Suc sub\<rparr>)
         else (case N topic of
                 Some e \<Rightarrow> (Inl e, b)
               | None \<Rightarrow>
                   (let cm = zw_made w; w1 = w\<lparr>zw_running := cm # zw_running w, zw_made := Suc cm\<rparr>
                    in (case C cm of
                          Some e \<Rightarrow> (Inl e, b\<lparr>zb_subscribers := (m, w1)\<rparr>)
                        | None \<Rightarrow>
                            (Inr sub, b\<lparr>zb_subscribers := replace_subscriber nsq_Unsubscribe topic sub
                               (m, w1\<lparr>zw_subs := (zw_subs w1)(sub := \<lparr>zs_topic = topic, zs_queue = queue, zs_consumer = Some cm, zs_needsHandler = False,
                                  zs_handlerFunc = True, zs_closed = False\<rparr>)\<rparr>), zb_next := Suc sub\<rparr>)))))"

section \<open>Messages\<close>

datatype nsq_call = NsqPublish string bytes | NsqDeferred string int bytes | NsqAsync string bytes | NsqDeferredAsync string int bytes

text \<open>\<open>r\<close> is the random index, below the number of producers; \<open>async\<close> says that a channel for the result was given.\<close>

definition nsq_getProducer :: "nat \<Rightarrow> nsq_broker \<Rightarrow> (nat \<times> string) option" where
  "nsq_getProducer r b = (if length (zb_producers b) = 0 then None else Some (zb_producers b ! r))"

definition nsq_publish ::
    "(nat \<times> string \<Rightarrow> nsq_call \<Rightarrow> error option) \<Rightarrow> nat \<Rightarrow> string \<Rightarrow> bool \<Rightarrow> int option \<Rightarrow> message \<Rightarrow> nsq_broker
      \<Rightarrow> error option \<times> ((nat \<times> string) \<times> nsq_call) option" where
  "nsq_publish pub r topic async delayKey msg b =
     (let delay = (case delayKey of None \<Rightarrow> 0 | Some d \<Rightarrow> d); body = (case BodyBytes msg of None \<Rightarrow> '''' | Some x \<Rightarrow> x)
      in (case nsq_getProducer r b of
            None \<Rightarrow> (Some (ErrNew ''producer is null''), None)
          | Some p \<Rightarrow>
              (let call = (if async then (if delay > 0 then NsqDeferredAsync topic delay body else NsqAsync topic body)
                           else (if delay > 0 then NsqDeferred topic delay body else NsqPublish topic body))
               in (pub p call, Some (p, call)))))"

definition nsq_internalPublish ::
    "codec \<Rightarrow> codec option \<Rightarrow> (nat \<times> string \<Rightarrow> nsq_call \<Rightarrow> error option) \<Rightarrow> nat \<Rightarrow> string \<Rightarrow> bool \<Rightarrow> int option \<Rightarrow> message \<Rightarrow> nsq_broker
      \<Rightarrow> error option \<times> ((nat \<times> string) \<times> nsq_call) option" where
  "nsq_internalPublish gob cod pub r topic async delayKey msg b =
     (case Marshal gob cod (msg_Body msg) of
        Inl e \<Rightarrow> (Some e, None)
      | Inr buf \<Rightarrow> nsq_publish pub r topic async delayKey ((Clone msg)\<lparr>msg_Body := DBytes buf\<rparr>) b)"

text \<open>A subscription; \<open>zk_Finish\<close> is \<open>Finish\<close> on the message with the given ID.\<close>

record nsq_msg =
  zm_ID :: string
  zm_Body :: bytes

record 'w nsq_sub =
  zk_topic :: string
  zk_bctx :: ctx
  zk_handler :: "'w Handler"
  zk_binder :: "(unit \<Rightarrow> dyn) option"
  zk_ErrorHandler :: "'w Handler option"
  zk_gob :: codec
  zk_Codec :: "codec option"
  zk_AutoAck :: bool
  zk_Finish :: "string \<Rightarrow> 'w \<Rightarrow> 'w"

definition nsq_Ack :: "'w nsq_sub \<Rightarrow> nsq_msg \<Rightarrow> 'w \<Rightarrow> error option \<times> 'w" where
  "nsq_Ack S nm w = (None, zk_Finish S (zm_ID nm) w)"

definition nsq_publication :: "'w nsq_sub \<Rightarrow> nsq_msg \<Rightarrow> dyn \<Rightarrow> error option \<Rightarrow> 'w event" where
  "nsq_publication S nm body err =
     \<lparr>evt_Topic = zk_topic S, evt_Message = Some (empty_message\<lparr>msg_Body := body\<rparr>), evt_RawMessage = DOther ''*nsq.Message'' (zm_ID nm),
      evt_Ack = nsq_Ack S nm, evt_Error = err\<rparr>"

definition nsq_eh :: "'w nsq_sub \<Rightarrow> 'w event \<Rightarrow> 'w \<Rightarrow> 'w" where
  "nsq_eh S p w = (case zk_ErrorHandler S of None \<Rightarrow> w | Some eh \<Rightarrow> snd (eh (zk_bctx S) (Some p) w))"

text \<open>The handler that the library calls; it never returns an error. The first result says that the library's own response is disabled.\<close>

definition nsq_fn :: "'w nsq_sub \<Rightarrow> nsq_msg \<Rightarrow> 'w \<Rightarrow> bool \<times> 'w" where
  "nsq_fn S nm w =
     (\<not> zk_AutoAck S,
      (case bind_body (zk_gob S) (zk_Codec S) (zk_binder S) (zm_Body nm) of
         Inl (e, body) \<Rightarrow> zk_Finish S (zm_ID nm) (nsq_eh S (nsq_publication S nm body (Some e)) w)
       | Inr body \<Rightarrow>
           (case zk_handler S (zk_bctx S) (Some (nsq_publication S nm body None)) w of
              (Some e, w1) \<Rightarrow> snd (nsq_Ack S nm (nsq_eh S (nsq_publication S nm body (Some e)) w1))
            | (None, w1) \<Rightarrow> w1)))"

section \<open>The broker of the server\<close>

definition nsq_driver :: "(string \<Rightarrow> producer_result) \<Rightarrow> (string \<Rightarrow> error option) \<Rightarrow> (nat \<Rightarrow> error option) \<Rightarrow> (string, nsq_broker) mq_driver" where
  "nsq_driver P N C =
     \<lparr>dr_Init = nsq_Init [], dr_Connect = nsq_Connect P N C, dr_Disconnect = nsq_Disconnect, dr_Subscribe = nsq_Subscribe N C, dr_Unsubscribe = zb_Unsubscribe\<rparr>"

section \<open>Lemmas\<close>

lemma stop_subs [simp]: "zw_subs (nsq_stop_consumer i w) = zw_subs w" "zw_made (nsq_stop_consumer i w) = zw_made w"
  by (simp_all add: nsq_stop_consumer_def split: option.split)

interpretation nsq_tab: subscription_table nsq_Unsubscribe "\<lambda>w s. zs_topic (zw_subs w s)" "\<lambda>w s. zs_closed (zw_subs w s)"
proof unfold_locales
  fix s b and st :: "(nat, nsq_world) sub_state"
  show "fst (snd (nsq_Unsubscribe s b st)) = (if b then gomap_delete (zs_topic (zw_subs (snd st) s)) (fst st) else fst st)"
    by (auto simp: nsq_Unsubscribe_def Let_def SubscriberSyncMap_RemoveOnly_def dom_gomap [symmetric] domIff gomap_delete_absent split: option.splits)
qed (auto simp: nsq_Unsubscribe_def Let_def fun_eq_iff)

lemma revive_frame:
  assumes "nsq_revive N C lk topic i (errs, w) = (errs', w')"
  shows "(\<lambda>s. zs_topic (zw_subs w' s)) = (\<lambda>s. zs_topic (zw_subs w s))" "(\<lambda>s. zs_closed (zw_subs w' s)) = (\<lambda>s. zs_closed (zw_subs w s))"
  using assms by (auto simp: nsq_revive_def nsq_rebuild_def Let_def fun_eq_iff split: if_splits option.splits)

lemma revive_all_frame:
  assumes "SubscriberSyncMap_Foreach (nsq_revive N C lk) m (errs, w) = (errs', w')"
  shows "(\<lambda>s. zs_topic (zw_subs w' s)) = (\<lambda>s. zs_topic (zw_subs w s))" "(\<lambda>s. zs_closed (zw_subs w' s)) = (\<lambda>s. zs_closed (zw_subs w s))"
proof -
  have "(\<lambda>s. zs_topic (zw_subs w' s)) = (\<lambda>s. zs_topic (zw_subs w s)) \<and> (\<lambda>s. zs_closed (zw_subs w' s)) = (\<lambda>s. zs_closed (zw_subs w s))"
    using assms
  proof (induction m arbitrary: errs w)
    case (Cons x m)
    obtain t i where x: "x = (t, i)" by force
    obtain e1 w1 where r: "nsq_revive N C lk t i (errs, w) = (e1, w1)" by force
    have "SubscriberSyncMap_Foreach (nsq_revive N C lk) m (e1, w1) = (errs', w')" using Cons.prems r by (simp add: SubscriberSyncMap_Foreach_def x)
    from Cons.IH [OF this] show ?case using revive_frame [OF r] by simp
  qed (simp add: SubscriberSyncMap_Foreach_def)
  then show "(\<lambda>s. zs_topic (zw_subs w' s)) = (\<lambda>s. zs_topic (zw_subs w s))" "(\<lambda>s. zs_closed (zw_subs w' s)) = (\<lambda>s. zs_closed (zw_subs w s))" by blast+
qed

lemma stop_all_frame: "nsq_stop_all is w = (ok, w') \<Longrightarrow> zw_subs w' = zw_subs w \<and> zw_made w' = zw_made w \<and> set (zw_running w') \<subseteq> set (zw_running w)"
  by (induction "is" arbitrary: w) (fastforce simp: nsq_stop_consumer_def split: if_splits option.splits)+

lemma Connect_nsq_frame:
  assumes "nsq_Connect P N C b = (e, b')"
  shows "fst (zb_subscribers b') = fst (zb_subscribers b)" "zb_next b' = zb_next b"
    "(\<lambda>s. zs_topic (zw_subs (snd (zb_subscribers b')) s)) = (\<lambda>s. zs_topic (zw_subs (snd (zb_subscribers b)) s))"
    "(\<lambda>s. zs_closed (zw_subs (snd (zb_subscribers b')) s)) = (\<lambda>s. zs_closed (zw_subs (snd (zb_subscribers b)) s))"
  using assms revive_all_frame by (auto simp: nsq_Connect_def Let_def split: if_splits prod.splits option.splits)

lemma Subscribe_nsq_fails:
  assumes "nsq_Subscribe N C t x b = (Inl e, b')"
  shows "fst (zb_subscribers b') = fst (zb_subscribers b) \<and> zw_subs (snd (zb_subscribers b')) = zw_subs (snd (zb_subscribers b)) \<and> zb_next b' = zb_next b"
  using assms by (auto simp: nsq_Subscribe_def Let_def split: if_splits prod.splits option.splits)

lemma Subscribe_nsq_replaces:
  assumes "nsq_Subscribe N C t x b = (Inr i, b')"
  obtains c w1 where "i = zb_next b" "zb_next b' = Suc (zb_next b)" "zs_topic c = t" "\<not> zs_closed c" "zb_running b' = zb_running b"
    "zw_subs w1 = (zw_subs (snd (zb_subscribers b)))(zb_next b := c)" "zb_subscribers b' = replace_subscriber nsq_Unsubscribe t (zb_next b) (fst (zb_subscribers b), w1)"
    "if zb_running b then zs_consumer c = Some (zw_made (snd (zb_subscribers b))) \<and> zw_running w1 = zw_made (snd (zb_subscribers b)) # zw_running (snd (zb_subscribers b))
     else zs_consumer c = None \<and> zw_running w1 = zw_running (snd (zb_subscribers b))"
proof -
  obtain m w where mw: "zb_subscribers b = (m, w)" by force
  show thesis
  proof (cases "zb_running b")
    case False
    show thesis
      by (rule that [of "\<lparr>zs_topic = t, zs_queue = x, zs_consumer = None, zs_needsHandler = True, zs_handlerFunc = False, zs_closed = False\<rparr>"
            "w\<lparr>zw_subs := (zw_subs w)(zb_next b := \<lparr>zs_topic = t, zs_queue = x, zs_consumer = None, zs_needsHandler = True, zs_handlerFunc = False, zs_closed = False\<rparr>)\<rparr>"])
        (use assms False mw in \<open>auto simp: nsq_Subscribe_def Let_def\<close>)
  next
    case True
    let ?c = "\<lparr>zs_topic = t, zs_queue = x, zs_consumer = Some (zw_made w), zs_needsHandler = False, zs_handlerFunc = True, zs_closed = False\<rparr>"
    have "N t = None" "C (zw_made w) = None" using assms True mw by (auto simp: nsq_Subscribe_def Let_def split: option.splits)
    then show thesis
      by (intro that [of ?c "w\<lparr>zw_running := zw_made w # zw_running w, zw_made := Suc (zw_made w), zw_subs := (zw_subs w)(zb_next b := ?c)\<rparr>"])
        (use assms True mw in \<open>auto simp: nsq_Subscribe_def Let_def\<close>)
  qed
qed

interpretation nsq_mq: table_broker nsq_Unsubscribe "\<lambda>w s. zs_topic (zw_subs w s)" "\<lambda>w s. zs_closed (zw_subs w s)" "nsq_driver P N C" zb_subscribers zb_next for P N C
proof unfold_locales
  fix b b' :: nsq_broker and t x e i
  show "fst (zb_subscribers (snd (dr_Connect (nsq_driver P N C) b))) = fst (zb_subscribers b)
      \<and> (\<lambda>s. zs_topic (zw_subs (snd (zb_subscribers (snd (dr_Connect (nsq_driver P N C) b)))) s)) = (\<lambda>s. zs_topic (zw_subs (snd (zb_subscribers b)) s))
      \<and> (\<lambda>s. zs_closed (zw_subs (snd (zb_subscribers (snd (dr_Connect (nsq_driver P N C) b)))) s)) = (\<lambda>s. zs_closed (zw_subs (snd (zb_subscribers b)) s))
      \<and> zb_next (snd (dr_Connect (nsq_driver P N C) b)) = zb_next b"
    using Connect_nsq_frame [OF surjective_pairing] by (simp add: nsq_driver_def)
  show "fst (zb_subscribers b') = fst (zb_subscribers b) \<and> (\<lambda>s. zs_topic (zw_subs (snd (zb_subscribers b')) s)) = (\<lambda>s. zs_topic (zw_subs (snd (zb_subscribers b)) s))
      \<and> (\<lambda>s. zs_closed (zw_subs (snd (zb_subscribers b')) s)) = (\<lambda>s. zs_closed (zw_subs (snd (zb_subscribers b)) s)) \<and> zb_next b' = zb_next b"
    if "dr_Subscribe (nsq_driver P N C) t x b = (Inl e, b')"
    using Subscribe_nsq_fails [of N C t x b e b'] that by (simp add: nsq_driver_def)
  assume "dr_Subscribe (nsq_driver P N C) t x b = (Inr i, b')"
  then have "nsq_Subscribe N C t x b = (Inr i, b')" by (simp add: nsq_driver_def)
  then obtain c w1 where f: "i = zb_next b" "zb_next b' = Suc (zb_next b)" "zs_topic c = t" "\<not> zs_closed c"
    "zw_subs w1 = (zw_subs (snd (zb_subscribers b)))(zb_next b := c)" "zb_subscribers b' = replace_subscriber nsq_Unsubscribe t (zb_next b) (fst (zb_subscribers b), w1)"
    by (rule Subscribe_nsq_replaces) blast
  have "(\<lambda>s. zs_topic (zw_subs w1 s)) = (\<lambda>s. zs_topic (zw_subs (snd (zb_subscribers b)) s))(zb_next b := t)"
    "(\<lambda>s. zs_closed (zw_subs w1 s)) = (\<lambda>s. zs_closed (zw_subs (snd (zb_subscribers b)) s))(zb_next b := False)" using f(3-5) by (simp_all add: fun_eq_iff)
  with f(1,2,6) show "i = zb_next b \<and> zb_next b' = Suc (zb_next b) \<and> (\<exists>w1. (\<lambda>s. zs_topic (zw_subs w1 s)) = (\<lambda>s. zs_topic (zw_subs (snd (zb_subscribers b)) s))(zb_next b := t)
      \<and> (\<lambda>s. zs_closed (zw_subs w1 s)) = (\<lambda>s. zs_closed (zw_subs (snd (zb_subscribers b)) s))(zb_next b := False)
      \<and> zb_subscribers b' = replace_subscriber nsq_Unsubscribe t (zb_next b) (fst (zb_subscribers b), w1))" by blast
next
  fix b :: nsq_broker
  obtain m w ok w1 where mw: "zb_subscribers b = (m, w)" "nsq_stop_all (map snd m) w = (ok, w1)" by (metis surj_pair)
  define d where "d = snd (dr_Disconnect (nsq_driver P N C) b)"
  have d: "zb_next d = zb_next b \<and> (zb_subscribers d = (m, w) \<or> zb_subscribers d \<in> {(m, w1), SubscriberSyncMap_Clear nsq_Unsubscribe (m, w1)})"
    using mw by (auto simp: d_def nsq_driver_def nsq_Disconnect_def Let_def split: bool.split)
  show "zb_next (snd (dr_Disconnect (nsq_driver P N C) b)) = zb_next b \<and> (\<exists>w. (\<lambda>s. zs_topic (zw_subs w s)) = (\<lambda>s. zs_topic (zw_subs (snd (zb_subscribers b)) s))
      \<and> (\<lambda>s. zs_closed (zw_subs w s)) = (\<lambda>s. zs_closed (zw_subs (snd (zb_subscribers b)) s))
      \<and> zb_subscribers (snd (dr_Disconnect (nsq_driver P N C) b)) \<in> {(fst (zb_subscribers b), w), SubscriberSyncMap_Clear nsq_Unsubscribe (fst (zb_subscribers b), w)})"
    unfolding d_def [symmetric] using d stop_all_frame [OF mw(2)] mw(1) by (metis fst_conv insertCI snd_conv)
qed (auto simp: nsq_driver_def nsq_Init_def nsq_configure_def zb_Unsubscribe_def Let_def case_prod_unfold split: option.split)

section \<open>Consumers\<close>

text \<open>
  With a client library that makes and connects consumers without an error, every consumer that runs belongs to a subscriber that is not closed; before \<open>Connect\<close> the open
  subscribers of the table have no consumer, so that the consumers that \<open>Connect\<close> makes replace none.
\<close>

definition owned :: "nsq_world \<Rightarrow> nat \<Rightarrow> bool" where
  "owned w n \<longleftrightarrow> (\<forall>c\<in>set (zw_running w). \<exists>i<n. \<not> zs_closed (zw_subs w i) \<and> zs_consumer (zw_subs w i) = Some c)"

definition waiting :: "(nat, nsq_world) sub_state \<Rightarrow> bool" where
  "waiting st \<longleftrightarrow> (\<forall>(t, i)\<in>set (fst st). zs_closed (zw_subs (snd st) i) \<or> zs_consumer (zw_subs (snd st) i) = None)"

definition nsq_inv :: "nsq_broker \<Rightarrow> bool" where
  "nsq_inv b \<longleftrightarrow> nsq_tab.tab_ok (zb_subscribers b) (zb_next b) \<and> owned (snd (zb_subscribers b)) (zb_next b) \<and> (zb_running b \<or> waiting (zb_subscribers b))"

lemma unsubscribe_owned:
  assumes "owned (snd st) n"
  shows "owned (snd (snd (nsq_Unsubscribe i rm st))) n"
proof -
  define w where "w = snd st"
  have r: "zw_running (snd (snd (nsq_Unsubscribe i rm st))) = (case zs_consumer (zw_subs w i) of None \<Rightarrow> zw_running w | Some c \<Rightarrow> removeAll c (zw_running w))"
    "zw_subs (snd (snd (nsq_Unsubscribe i rm st))) = (zw_subs w)(i := (zw_subs w i)\<lparr>zs_closed := True\<rparr>)"
    by (simp_all add: nsq_Unsubscribe_def nsq_stop_consumer_def w_def Let_def split: option.split)
  show ?thesis using assms unfolding owned_def r w_def [symmetric] by (force split: option.splits)
qed

lemma unsubscribe_waiting:
  assumes "waiting st"
  shows "waiting (snd (nsq_Unsubscribe i rm st))"
proof -
  have "set (fst (snd (nsq_Unsubscribe i rm st))) \<subseteq> set (fst st)"
    using nsq_tab.unsub_table [of i rm st] by (auto simp: gomap_delete_def AList.delete_eq)
  moreover have "zw_subs (snd (snd (nsq_Unsubscribe i rm st))) = (zw_subs (snd st))(i := (zw_subs (snd st) i)\<lparr>zs_closed := True\<rparr>)"
    by (simp add: nsq_Unsubscribe_def Let_def)
  ultimately show ?thesis using assms by (fastforce simp: waiting_def)
qed

lemma clear_owned: "owned (snd st) n \<Longrightarrow> owned (snd (SubscriberSyncMap_Clear nsq_Unsubscribe st)) n"
proof -
  have "owned (snd st) n \<Longrightarrow> owned (snd (fold (\<lambda>sub st. snd (nsq_Unsubscribe sub False st)) is st)) n" for "is" and st :: "(nat, nsq_world) sub_state"
  proof (induction "is" arbitrary: st)
    case (Cons i "is")
    show ?case using Cons.IH [OF unsubscribe_owned [OF Cons.prems, of i False]] by simp
  qed simp
  then show "owned (snd st) n \<Longrightarrow> ?thesis" by (simp add: SubscriberSyncMap_Clear_def)
qed

lemma put_subset: "set (gomap_put k v m) \<subseteq> insert (k, v) (set m)"
  unfolding gomap_put_def by (induction m) auto

lemma subscribe_inv:
  assumes "nsq_inv b" and "nsq_Subscribe N C t x b = (Inr i, b')"
  shows "owned (snd (zb_subscribers b')) (zb_next b')" "zb_running b' \<or> waiting (zb_subscribers b')"
proof -
  from assms(2) obtain c w1 where f: "i = zb_next b" "zb_next b' = Suc (zb_next b)" "\<not> zs_closed c" "zb_running b' = zb_running b"
    "zw_subs w1 = (zw_subs (snd (zb_subscribers b)))(zb_next b := c)" "zb_subscribers b' = replace_subscriber nsq_Unsubscribe t (zb_next b) (fst (zb_subscribers b), w1)"
    "if zb_running b then zs_consumer c = Some (zw_made (snd (zb_subscribers b))) \<and> zw_running w1 = zw_made (snd (zb_subscribers b)) # zw_running (snd (zb_subscribers b))
     else zs_consumer c = None \<and> zw_running w1 = zw_running (snd (zb_subscribers b))"
    by (rule Subscribe_nsq_replaces) blast
  have o: "owned (snd (zb_subscribers b)) (zb_next b)" using assms(1) by (simp add: nsq_inv_def)
  have "\<exists>k<Suc (zb_next b). \<not> zs_closed (zw_subs w1 k) \<and> zs_consumer (zw_subs w1 k) = Some d" if "d \<in> set (zw_running w1)" for d
  proof (cases "d \<in> set (zw_running (snd (zb_subscribers b)))")
    case True
    then obtain k where "k < zb_next b" "\<not> zs_closed (zw_subs (snd (zb_subscribers b)) k)" "zs_consumer (zw_subs (snd (zb_subscribers b)) k) = Some d"
      using o by (auto simp: owned_def)
    then show ?thesis using f(5) by (intro exI [of _ k]) simp
  next
    case False
    then show ?thesis using that f(3,5,7) by (intro exI [of _ "zb_next b"]) (auto split: if_splits)
  qed
  then have w1: "owned w1 (Suc (zb_next b))" by (simp add: owned_def)
  show "owned (snd (zb_subscribers b')) (zb_next b')"
    using w1 unsubscribe_owned [of "(fst (zb_subscribers b), w1)" "Suc (zb_next b)" _ False] by (simp add: f(2,6) replace_subscriber_def Let_def split: option.split)
  show "zb_running b' \<or> waiting (zb_subscribers b')"
  proof (cases "zb_running b")
    case False
    then have "zs_consumer c = None" "waiting (zb_subscribers b)" using f(7) assms(1) by (auto simp: nsq_inv_def)
    then have w: "waiting (fst (zb_subscribers b), w1)" using f(5) by (fastforce simp: waiting_def)
    have put: "waiting (SubscriberSyncMap_Add t (zb_next b) (fst st), snd st)" if "waiting st" "zs_consumer (zw_subs (snd st) (zb_next b)) = None" for st
      using that put_subset [of t "zb_next b" "fst st"] by (fastforce simp: waiting_def SubscriberSyncMap_Add_def)
    have n: "zs_consumer (zw_subs (snd (snd (nsq_Unsubscribe j False (m, w1)))) (zb_next b)) = None" for j m
      using \<open>zs_consumer c = None\<close> f(5) by (simp add: nsq_Unsubscribe_def Let_def)
    have "waiting (zb_subscribers b')"
      using put [OF w] put [OF unsubscribe_waiting [OF w] n] \<open>zs_consumer c = None\<close> f(5)
      by (simp add: f(6) replace_subscriber_def Let_def split: option.split)
    then show ?thesis ..
  qed (simp add: f(4))
qed

lemma revive_owned:
  assumes "owned w n" and "waiting ((t, i) # m, w)" and "i < n" and "i \<notin> snd ` set m"
  obtains w1 where "nsq_revive (\<lambda>t. None) (\<lambda>c. None) lk t i (errs, w) = (errs, w1)" "owned w1 n" "waiting (m, w1)"
proof (cases "zs_closed (zw_subs w i)")
  case True
  then show thesis using assms by (intro that [of w]) (simp_all add: nsq_revive_def waiting_def)
next
  case False
  let ?c = "(zw_subs w i)\<lparr>zs_consumer := Some (zw_made w), zs_handlerFunc := zs_handlerFunc (zw_subs w i) \<or> zs_needsHandler (zw_subs w i)\<rparr>"
  let ?w1 = "w\<lparr>zw_subs := (zw_subs w)(i := ?c), zw_running := zw_made w # zw_running w, zw_made := Suc (zw_made w)\<rparr>"
  have none: "zs_consumer (zw_subs w i) = None" using assms(2) False by (simp add: waiting_def)
  have "\<exists>k<n. \<not> zs_closed (zw_subs ?w1 k) \<and> zs_consumer (zw_subs ?w1 k) = Some d" if "d \<in> set (zw_running ?w1)" for d
  proof (cases "d \<in> set (zw_running w)")
    case True
    then obtain k where "k < n" "\<not> zs_closed (zw_subs w k)" "zs_consumer (zw_subs w k) = Some d" using assms(1) by (auto simp: owned_def)
    then show ?thesis using none by (intro exI [of _ k]) auto
  qed (use that assms(3) False in auto)
  then have "owned ?w1 n" by (simp add: owned_def)
  moreover have "waiting (m, ?w1)" using assms(2,4) by (force simp: waiting_def)
  ultimately show thesis using False by (intro that [of ?w1]) (simp_all add: nsq_revive_def nsq_rebuild_def Let_def)
qed

lemma revive_all_owned:
  assumes "owned w n" and "waiting (m, w)" and "distinct (map snd m)" and "list_all (\<lambda>(t, i). i < n) m"
  obtains w1 where "SubscriberSyncMap_Foreach (nsq_revive (\<lambda>t. None) (\<lambda>c. None) lk) m (errs, w) = (errs, w1)" "owned w1 n"
  using assms
proof (induction m arbitrary: w thesis)
  case Nil
  then show ?case by (simp add: SubscriberSyncMap_Foreach_def)
next
  case (Cons x m)
  obtain t i where x: "x = (t, i)" by force
  have i: "i < n" "i \<notin> snd ` set m" and wt: "waiting ((t, i) # m, w)" using Cons.prems x by auto
  obtain w1 where w1: "nsq_revive (\<lambda>t. None) (\<lambda>c. None) lk t i (errs, w) = (errs, w1)" "owned w1 n" "waiting (m, w1)"
    by (rule revive_owned [OF Cons.prems(2) wt i])
  have "distinct (map snd m)" "list_all (\<lambda>(t, i). i < n) m" using Cons.prems by simp_all
  then obtain w2 where "SubscriberSyncMap_Foreach (nsq_revive (\<lambda>t. None) (\<lambda>c. None) lk) m (errs, w1) = (errs, w2)" "owned w2 n"
    using Cons.IH [OF _ w1(2,3)] by blast
  then show ?case using Cons.prems(1) w1(1) by (simp add: SubscriberSyncMap_Foreach_def x)
qed

lemma tab_ok_entries:
  assumes "nsq_tab.tab_ok (m, w) n"
  shows "distinct (map snd m)" "list_all (\<lambda>(t, i). i < n) m"
proof -
  have m: "t = zs_topic (zw_subs w i)" "i < n" if "(t, i) \<in> set m" for t i using assms that by (auto simp: nsq_tab.tab_ok_def)
  have "distinct (map fst m)" using assms by (simp add: nsq_tab.tab_ok_def)
  moreover have "inj_on snd (set m)" by (rule inj_onI) (metis m(1) prod.collapse)
  ultimately show "distinct (map snd m)" by (simp add: distinct_map)
  show "list_all (\<lambda>(t, i). i < n) m" using m(2) by (auto simp: list_all_iff)
qed

lemma connect_inv:
  assumes "nsq_inv b" and "nsq_Connect P (\<lambda>t. None) (\<lambda>c. None) b = (e, b')"
  shows "owned (snd (zb_subscribers b')) (zb_next b')" "zb_running b' \<or> waiting (zb_subscribers b')"
proof -
  obtain m w where mw: "zb_subscribers b = (m, w)" by force
  have i: "nsq_tab.tab_ok (m, w) (zb_next b)" "owned w (zb_next b)" "zb_running b \<or> waiting (m, w)" using assms(1) by (simp_all add: nsq_inv_def mw)
  have "owned (snd (zb_subscribers b')) (zb_next b') \<and> (zb_running b' \<or> waiting (zb_subscribers b'))"
  proof (cases "zb_running b \<or> fst (nsq_make_producers P (zb_fresh b) (zb_addrs b)) \<noteq> None")
    case True
    then show ?thesis using assms(2) i mw by (auto simp: nsq_Connect_def split: if_splits prod.splits option.splits)
  next
    case False
    then obtain made where p: "nsq_make_producers P (zb_fresh b) (zb_addrs b) = (None, made)" "\<not> zb_running b" by (metis prod.collapse)
    obtain w1 where "SubscriberSyncMap_Foreach (nsq_revive (\<lambda>t. None) (\<lambda>c. None) (length (zb_lookupAddrs b) > 0)) m ([], w) = ([], w1)" "owned w1 (zb_next b)"
      using revive_all_owned [OF i(2) _ tab_ok_entries [OF i(1)]] i(3) p(2) by blast
    then show ?thesis using assms(2) p mw by (auto simp: nsq_Connect_def errors_Join_def Let_def)
  qed
  then show "owned (snd (zb_subscribers b')) (zb_next b')" "zb_running b' \<or> waiting (zb_subscribers b')" by blast+
qed

lemma disconnect_inv:
  assumes "nsq_inv b" and "nsq_Disconnect b = (e, b')"
  shows "owned (snd (zb_subscribers b')) (zb_next b')" "zb_running b' \<or> waiting (zb_subscribers b')"
proof -
  obtain m w ok w1 where mw: "zb_subscribers b = (m, w)" "nsq_stop_all (map snd m) w = (ok, w1)" by (metis surj_pair)
  have i: "owned w (zb_next b)" using assms(1) by (simp add: nsq_inv_def mw)
  then have w1: "owned w1 (zb_next b)" using stop_all_frame [OF mw(2)] by (auto simp: owned_def)
  have "fst (SubscriberSyncMap_Clear nsq_Unsubscribe (m, w1)) = []" using nsq_tab.Clear_closes_all [of "(m, w1)"] by simp
  then have c: "waiting (SubscriberSyncMap_Clear nsq_Unsubscribe (m, w1))" by (simp add: waiting_def)
  show "owned (snd (zb_subscribers b')) (zb_next b')" "zb_running b' \<or> waiting (zb_subscribers b')"
    using assms mw i w1 clear_owned [of "(m, w1)"] c by (auto simp: nsq_Disconnect_def nsq_inv_def Let_def split: if_splits bool.splits)
qed

interpretation nsq_owned: mq_broker "nsq_driver P (\<lambda>t. None) (\<lambda>c. None)" nsq_inv "\<lambda>b. nsq_tab.tab_live (zb_subscribers b) (zb_next b)" for P
proof unfold_locales
  fix b assume b: "nsq_inv b"
  let ?D = "nsq_driver P (\<lambda>t. None) (\<lambda>c. None)"
  have ok: "nsq_mq.tb_ok b" using b by (simp add: nsq_inv_def nsq_mq.tb_ok_def)
  have D: "dr_Init ?D = nsq_Init []" "dr_Connect ?D = nsq_Connect P (\<lambda>t. None) (\<lambda>c. None)" "dr_Disconnect ?D = nsq_Disconnect"
    "dr_Subscribe ?D = nsq_Subscribe (\<lambda>t. None) (\<lambda>c. None)" "dr_Unsubscribe ?D = zb_Unsubscribe" by (simp_all add: nsq_driver_def)
  note c = nsq_mq.tb_mq.Init [OF ok, of P "\<lambda>t. None" "\<lambda>c. None", unfolded D nsq_mq.tb_ok_def nsq_mq.tb_live_def]
    nsq_mq.tb_mq.Connect [OF ok, of P "\<lambda>t. None" "\<lambda>c. None", unfolded D nsq_mq.tb_ok_def nsq_mq.tb_live_def]
    nsq_mq.tb_mq.Disconnect [OF ok, of P "\<lambda>t. None" "\<lambda>c. None", unfolded D nsq_mq.tb_ok_def nsq_mq.tb_live_def]
  show "nsq_inv (snd (dr_Init ?D b)) \<and> nsq_tab.tab_live (zb_subscribers (snd (dr_Init ?D b))) (zb_next (snd (dr_Init ?D b))) \<subseteq> nsq_tab.tab_live (zb_subscribers b) (zb_next b)"
    using b by (simp add: D nsq_Init_def nsq_configure_def nsq_inv_def Let_def split: option.split)
  show "nsq_inv (snd (dr_Connect ?D b)) \<and> nsq_tab.tab_live (zb_subscribers (snd (dr_Connect ?D b))) (zb_next (snd (dr_Connect ?D b))) \<subseteq> nsq_tab.tab_live (zb_subscribers b) (zb_next b)"
    using c(2) connect_inv [OF b surjective_pairing, of P] by (simp add: D nsq_inv_def)
  show "nsq_inv (snd (dr_Disconnect ?D b))
      \<and> nsq_tab.tab_live (zb_subscribers (snd (dr_Disconnect ?D b))) (zb_next (snd (dr_Disconnect ?D b))) \<subseteq> nsq_tab.tab_live (zb_subscribers b) (zb_next b)"
    using c(3) disconnect_inv [OF b surjective_pairing] by (simp add: D nsq_inv_def)
  fix t x i b' e rm
  show "nsq_inv b' \<and> nsq_tab.tab_live (zb_subscribers b') (zb_next b') \<subseteq> insert i (nsq_tab.tab_live (zb_subscribers b) (zb_next b))"
    if s: "dr_Subscribe ?D t x b = (Inr i, b')"
    using nsq_mq.tb_mq.Subscribe_ok [OF ok s] subscribe_inv [OF b s [unfolded D]] by (simp add: nsq_inv_def nsq_mq.tb_ok_def nsq_mq.tb_live_def)
  show "nsq_inv b' \<and> nsq_tab.tab_live (zb_subscribers b') (zb_next b') \<subseteq> nsq_tab.tab_live (zb_subscribers b) (zb_next b)"
    if s: "dr_Subscribe ?D t x b = (Inl e, b')"
    using s by (auto simp: D nsq_Subscribe_def Let_def split: if_splits prod.splits)
  have "zb_running (snd (zb_Unsubscribe i rm b)) = zb_running b" by (simp add: zb_Unsubscribe_def case_prod_unfold Let_def)
  then show "nsq_inv (snd (dr_Unsubscribe ?D i rm b))
      \<and> nsq_tab.tab_live (zb_subscribers (snd (dr_Unsubscribe ?D i rm b))) (zb_next (snd (dr_Unsubscribe ?D i rm b))) \<subseteq> nsq_tab.tab_live (zb_subscribers b) (zb_next b) - {i}"
    using b nsq_mq.unsubscribe [of P "\<lambda>t. None" "\<lambda>c. None" i rm b] nsq_tab.tab_unsub [of "zb_subscribers b" "zb_next b" i rm]
      unsubscribe_owned [of "zb_subscribers b" "zb_next b" i rm] unsubscribe_waiting [of "zb_subscribers b" i rm] by (auto simp: D nsq_inv_def)
qed

section \<open>Properties\<close>

definition demo_zsubs :: "nat \<Rightarrow> zsub" where
  "demo_zsubs i = \<lparr>zs_topic = '''', zs_queue = '''', zs_consumer = None, zs_needsHandler = False, zs_handlerFunc = False, zs_closed = False\<rparr>"

definition demo_nsq_options :: nsq_options where "demo_nsq_options = \<lparr>zo_Addrs = [''a''], zo_lookupdAddrs = None\<rparr>"

text \<open>
  No interleaving of calls of \<open>Start\<close>, \<open>Stop\<close> and \<open>RegisterSubscriber\<close> leaks a subscriber of the NSQ transport, whatever the library answers.
\<close>

theorem nsq_server_leaks_no_subscription:
  assumes "mq_reach (nsq_driver P N C) kenv kind (nsq_NewBroker opts f) (s, ps)" and "quiet ps"
  shows "{i. i < zb_next (mq_Broker s) \<and> \<not> zs_closed (zw_subs (snd (zb_subscribers (mq_Broker s))) i)} \<subseteq> snd ` set (mq_subscribers s) \<and> gomap_wf (mq_subscribers s)
       \<and> (mq_started s \<or> {i. i < zb_next (mq_Broker s) \<and> \<not> zs_closed (zw_subs (snd (zb_subscribers (mq_Broker s))) i)} = {})"
proof -
  have b: "fst (zb_subscribers (nsq_NewBroker opts f)) = []" "zb_next (nsq_NewBroker opts f) = 0" by (simp_all add: nsq_NewBroker_def NewSubscriberSyncMap_def)
  show ?thesis using nsq_mq.tb_no_leak [OF assms(1,2) b] by blast
qed

text \<open>
  When the NSQ library makes and connects consumers without an error, every consumer of the NSQ transport that runs while no call is in progress belongs to a subscriber in the
  server's table, and a stopped server has no running consumer, however \<open>Start\<close>, \<open>Stop\<close> and \<open>RegisterSubscriber\<close> interleave between the calls of the driver. Producers may
  fail. Here every call of the driver is one step; an \<open>Unsubscribe\<close> inside of \<open>Connect\<close> is the subject of the next theorem.
\<close>

theorem nsq_stopped_server_runs_no_consumer:
  assumes "mq_reach (nsq_driver P (\<lambda>t. None) (\<lambda>c. None)) kenv kind (nsq_NewBroker opts f) (s, ps)" and "quiet ps"
  shows "set (zw_running (snd (zb_subscribers (mq_Broker s))))
          \<subseteq> {c. \<exists>i\<in>snd ` set (mq_subscribers s). zs_consumer (zw_subs (snd (zb_subscribers (mq_Broker s))) i) = Some c}
       \<and> (mq_started s \<or> zw_running (snd (zb_subscribers (mq_Broker s))) = [])"
proof -
  let ?b = "mq_Broker s"
  have b0: "nsq_inv (nsq_NewBroker opts f)" "nsq_tab.tab_live (zb_subscribers (nsq_NewBroker opts f)) (zb_next (nsq_NewBroker opts f)) = {}"
    by (simp_all add: nsq_NewBroker_def NewSubscriberSyncMap_def nsq_inv_def nsq_tab.tab_ok_def nsq_tab.tab_live_def owned_def waiting_def)
  have "nsq_inv ?b" using nsq_owned.reach_tracked [OF assms(1) b0] by (simp add: nsq_owned.tracked_def)
  then have own: "owned (snd (zb_subscribers ?b)) (zb_next ?b)" by (simp add: nsq_inv_def)
  note q = nsq_owned.quiet_no_leak [OF assms(1) b0 assms(2)]
  have live: "\<exists>i\<in>nsq_tab.tab_live (zb_subscribers ?b) (zb_next ?b). zs_consumer (zw_subs (snd (zb_subscribers ?b)) i) = Some c"
    if "c \<in> set (zw_running (snd (zb_subscribers ?b)))" for c
    using own that unfolding owned_def nsq_tab.tab_live_def by (metis (mono_tags, lifting) mem_Collect_eq)
  have "mq_started s \<or> set (zw_running (snd (zb_subscribers ?b))) = {}" 
    using q(2) live by (metis ball_empty bex_empty equals0I)
  moreover have "\<exists>i\<in>snd ` set (mq_subscribers s). zs_consumer (zw_subs (snd (zb_subscribers ?b)) i) = Some c"
    if "c \<in> set (zw_running (snd (zb_subscribers ?b)))" for c
    using live [OF that] q(1) by (meson subsetD)
  ultimately show ?thesis by (simp add: subset_iff)
qed

definition demo_zworld :: nsq_world where
  "demo_zworld = \<lparr>zw_subs = (\<lambda>i. \<lparr>zs_topic = ''t'', zs_queue = '''', zs_consumer = None, zs_needsHandler = True, zs_handlerFunc = False, zs_closed = False\<rparr>), zw_running = [], zw_made = 0\<rparr>"

lemma stop_all_keeps:
  assumes "\<forall>j\<in>set is. zs_consumer (zw_subs w j) \<noteq> Some c" and "c \<in> set (zw_running w)"
  shows "c \<in> set (zw_running (snd (nsq_stop_all is w)))"
  using assms
proof (induction "is" arbitrary: w)
  case (Cons j "is")
  then show ?case by (auto simp: nsq_stop_consumer_def split: option.split)
qed simp

lemma clear_keeps:
  assumes "\<forall>j\<in>set is. zs_consumer (zw_subs (snd st) j) \<noteq> Some c" and "c \<in> set (zw_running (snd st))"
  shows "c \<in> set (zw_running (snd (fold (\<lambda>sub st. snd (nsq_Unsubscribe sub False st)) is st)))"
  using assms
proof (induction "is" arbitrary: st)
  case (Cons j "is")
  have "zs_consumer (zw_subs (snd (snd (nsq_Unsubscribe j False st))) k) = zs_consumer (zw_subs (snd st) k)" for k
    by (simp add: nsq_Unsubscribe_def Let_def)
  moreover have "c \<in> set (zw_running (snd (snd (nsq_Unsubscribe j False st))))"
    using Cons.prems by (auto simp: nsq_Unsubscribe_def nsq_stop_consumer_def Let_def split: option.split)
  ultimately show ?case using Cons.IH [of "snd (nsq_Unsubscribe j False st)"] Cons.prems by simp
qed simp

text \<open>
  C27: An \<open>Unsubscribe(true)\<close> of an NSQ subscriber that falls into \<open>Connect\<close>, between the test of \<open>IsClosed\<close> and the assignment of the new consumer, leaves a running consumer of a
  closed subscriber. \<open>Unsubscribe\<close> takes only the subscriber's lock, and the assignment takes none. The subscriber is no longer in the broker's table, so that the next
  \<open>Disconnect\<close> does not stop the consumer. When \<open>Unsubscribe\<close> comes after the assignment, the consumer is stopped. The hypotheses: the subscriber is open when it is
  tested, the table has it under its topic only, the consumers of the subscribers have numbers that were given before, and \<open>NewConsumer\<close> succeeds.
\<close>

theorem nsq_unsubscribe_during_connect_leaks:
  assumes sub: "\<not> zs_closed (zw_subs w i)" "i \<in> snd ` set m" "\<And>t. (t, i) \<in> set m \<Longrightarrow> t = zs_topic (zw_subs w i)"
    and numbered: "\<And>j c. zs_consumer (zw_subs w j) = Some c \<Longrightarrow> c < zw_made w" and "N (zs_topic (zw_subs w i)) = None"
    and race: "nsq_Unsubscribe i True (m, w) = (None, m1, w1)" "nsq_rebuild N C lookup topic i ([], w1) = (errs, w2)"
    and order: "nsq_revive N C lookup topic i ([], w) = (errs', v1)" "nsq_Unsubscribe i True (m, v1) = (None, m2, v2)"
  shows "zs_closed (zw_subs w2 i) \<and> i \<notin> snd ` set m1 \<and> zs_consumer (zw_subs w2 i) = Some (zw_made w) \<and> zw_made w \<in> set (zw_running w2)
       \<and> zw_made w \<in> set (zw_running (snd (zb_subscribers (snd (nsq_Disconnect (b\<lparr>zb_subscribers := (m1, w2), zb_running := True\<rparr>))))))
       \<and> zw_made w \<notin> set (zw_running v2)"
proof -
  have w1: "zw_subs w1 = (zw_subs w)(i := (zw_subs w i)\<lparr>zs_closed := True\<rparr>)" "zw_made w1 = zw_made w"
    using race(1) by (auto simp: nsq_Unsubscribe_def Let_def)
  have m1: "m1 = gomap_delete (zs_topic (zw_subs w i)) m" using nsq_tab.unsub_table [of i True "(m, w)"] race(1) by simp
  then have gone: "i \<notin> snd ` set m1" using sub(3) by (auto simp: gomap_delete_def AList.delete_eq)
  have w2: "zw_subs w2 = (zw_subs w1)(i := (zw_subs w1 i)\<lparr>zs_consumer := Some (zw_made w), zs_handlerFunc := zs_handlerFunc (zw_subs w i) \<or> zs_needsHandler (zw_subs w i)\<rparr>)"
    "zw_running w2 = zw_made w # zw_running w1"
    using race(2) assms(5) w1 by (auto simp: nsq_rebuild_def Let_def split: if_splits option.splits)
  have others: "\<forall>j\<in>set (map snd m1). zs_consumer (zw_subs w2 j) \<noteq> Some (zw_made w)"
  proof
    fix j assume "j \<in> set (map snd m1)"
    then have "j \<noteq> i" using gone by auto
    then have "zs_consumer (zw_subs w2 j) = zs_consumer (zw_subs w j)" by (simp add: w2(1) w1(1))
    then show "zs_consumer (zw_subs w2 j) \<noteq> Some (zw_made w)" using numbered [of j "zw_made w"] by auto
  qed
  let ?b = "b\<lparr>zb_subscribers := (m1, w2), zb_running := True\<rparr>"
  obtain ok w3 where s: "nsq_stop_all (map snd m1) w2 = (ok, w3)" by (rule prod.exhaust)
  have w3: "zw_made w \<in> set (zw_running w3)" "zw_subs w3 = zw_subs w2"
    using stop_all_keeps [OF others] s stop_all_frame [OF s] by (simp_all add: w2(2))
  then have "zw_made w \<in> set (zw_running (snd (SubscriberSyncMap_Clear nsq_Unsubscribe (m1, w3))))"
    using clear_keeps [of "map snd m1" "([], w3)" "zw_made w"] others by (simp add: SubscriberSyncMap_Clear_def)
  then have dis: "zw_made w \<in> set (zw_running (snd (zb_subscribers (snd (nsq_Disconnect ?b)))))"
    using s w3(1) by (cases ok) (simp_all add: nsq_Disconnect_def)
  have "zs_consumer (zw_subs v1 i) = Some (zw_made w)"
    using order(1) sub(1) assms(5) by (auto simp: nsq_revive_def nsq_rebuild_def Let_def split: if_splits option.splits)
  then have "zw_made w \<notin> set (zw_running v2)" using order(2) by (auto simp: nsq_Unsubscribe_def nsq_stop_consumer_def Let_def)
  then show ?thesis using gone dis by (simp add: w1 w2)
qed

theorem nsq_unsubscribe_during_connect_leaks_witness:
  "\<exists>m1 w1 errs w2. nsq_Unsubscribe 0 True ([(''t'', 0)], demo_zworld) = (None, m1, w1)
     \<and> nsq_rebuild (\<lambda>t. None) (\<lambda>c. None) False ''t'' 0 ([], w1) = (errs, w2) \<and> zs_closed (zw_subs w2 0) \<and> 0 \<in> set (zw_running w2)
     \<and> 0 \<in> set (zw_running (snd (zb_subscribers (snd (nsq_Disconnect ((nsq_NewBroker demo_nsq_options demo_zsubs)\<lparr>zb_subscribers := (m1, w2), zb_running := True\<rparr>))))))"
proof -
  obtain e m1 w1 where r1: "nsq_Unsubscribe 0 True ([(''t'', 0)], demo_zworld) = (e, m1, w1)" by (rule prod_cases3)
  obtain errs w2 where r2: "nsq_rebuild (\<lambda>t. None) (\<lambda>c. None) False ''t'' 0 ([], w1) = (errs, w2)" by (rule prod.exhaust)
  obtain errs' v1 where o1: "nsq_revive (\<lambda>t. None) (\<lambda>c. None) False ''t'' 0 ([], demo_zworld) = (errs', v1)" by (rule prod.exhaust)
  obtain e' m2 v2 where o2: "nsq_Unsubscribe 0 True ([(''t'', 0)], v1) = (e', m2, v2)" by (rule prod_cases3)
  have none: "e = None" "e' = None" using r1 o2 by (simp_all add: nsq_Unsubscribe_def Let_def)
  have d: "\<not> zs_closed (zw_subs demo_zworld 0)" "zs_topic (zw_subs demo_zworld 0) = ''t''" "\<And>j. zs_consumer (zw_subs demo_zworld j) = None" "zw_made demo_zworld = 0"
    by (simp_all add: demo_zworld_def)
  note leak = nsq_unsubscribe_during_connect_leaks [of demo_zworld 0 "[(''t'', 0)]" "\<lambda>t. None", OF d(1) _ _ _ refl r1 [unfolded none] r2 o1 o2 [unfolded none],
      of "nsq_NewBroker demo_nsq_options demo_zsubs"]
  show ?thesis using leak r1 r2 none d by (intro exI [of _ m1] exI [of _ w1] exI [of _ errs] exI [of _ w2]) simp
qed

theorem nsq_stopped_server_runs_no_consumer_witness:
  "zw_running (snd (zb_subscribers (mq_Broker (mq_NewServer ka_test_env ''nsq'' [] (nsq_NewBroker demo_nsq_options demo_zsubs) :: (string, nsq_broker) mq_server)))) = []"
proof -
  let ?D = "nsq_driver (\<lambda>a. ProducerOk) (\<lambda>t. None) (\<lambda>c. None)" and ?b = "nsq_NewBroker demo_nsq_options demo_zsubs"
  let ?s = "mq_NewServer ka_test_env ''nsq'' [] ?b :: (string, nsq_broker) mq_server"
  have "mq_reach ?D ka_test_env ''nsq'' ?b (?s, [])" by (rule mq_reach.init)
  from nsq_stopped_server_runs_no_consumer [OF this] show ?thesis by (simp add: quiet_def mq_NewServer_def mq_init_def)
qed

text \<open>
  The hypothesis on the library is needed: when a subscriber that was stored before \<open>Connect\<close> cannot be connected, \<open>Connect\<close> fails, its consumer keeps running and \<open>Disconnect\<close> does
  nothing. A second \<open>Connect\<close> that succeeds makes another consumer for the same subscriber, and the first one is never stopped.
\<close>

theorem nsq_failed_connect_leaks_a_consumer:
  fixes opts f t q e
  defines "b0 \<equiv> nsq_NewBroker opts f"
  defines "b1 \<equiv> snd (nsq_Subscribe (\<lambda>t. None) (\<lambda>c. None) t q b0)"
  defines "b2 \<equiv> snd (nsq_Connect (\<lambda>a. ProducerOk) (\<lambda>t. None) (\<lambda>c. Some e) b1)"
  defines "b3 \<equiv> snd (nsq_Connect (\<lambda>a. ProducerOk) (\<lambda>t. None) (\<lambda>c. None) (snd (nsq_Disconnect b2)))"
  shows "fst (nsq_Connect (\<lambda>a. ProducerOk) (\<lambda>t. None) (\<lambda>c. Some e) b1) \<noteq> None \<and> zw_running (snd (zb_subscribers (snd (nsq_Disconnect b2)))) = [0]
       \<and> fst (nsq_Connect (\<lambda>a. ProducerOk) (\<lambda>t. None) (\<lambda>c. None) (snd (nsq_Disconnect b2))) = None
       \<and> zw_running (snd (zb_subscribers b3)) = [1, 0] \<and> zw_running (snd (zb_subscribers (snd (nsq_Disconnect b3)))) = [0]"
proof -
  have p: "nsq_make_producers (\<lambda>a. ProducerOk) n [] = (None, [])" for n by simp
  have b1: "zb_running b1 = False" "zb_addrs b1 = []" "zb_lookupAddrs b1 = []" "fst (zb_subscribers b1) = [(t, 0)]" "zw_running (snd (zb_subscribers b1)) = []"
    "zw_made (snd (zb_subscribers b1)) = 0" "zb_producers b1 = []"
    "zw_subs (snd (zb_subscribers b1)) 0 = \<lparr>zs_topic = t, zs_queue = q, zs_consumer = None, zs_needsHandler = True, zs_handlerFunc = False, zs_closed = False\<rparr>"
    by (simp_all add: b1_def b0_def nsq_NewBroker_def nsq_Subscribe_def NewSubscriberSyncMap_def replace_subscriber_def SubscriberSyncMap_Get_def SubscriberSyncMap_Add_def
        gomap_put_def Let_def)
  obtain m w where mw: "zb_subscribers b1 = (m, w)" by force
  note b1 = b1 [unfolded mw fst_conv snd_conv]
  let ?c = "\<lparr>zs_topic = t, zs_queue = q, zs_consumer = Some 0, zs_needsHandler = True, zs_handlerFunc = True, zs_closed = False\<rparr>"
  let ?w = "w\<lparr>zw_subs := (zw_subs w)(0 := ?c), zw_running := [0], zw_made := 1\<rparr>"
  have c1: "nsq_Connect (\<lambda>a. ProducerOk) (\<lambda>t. None) (\<lambda>c. Some e) b1
      = (Some (ErrJoin [ErrWrap (''topic '' @ t) e]), b1\<lparr>zb_made := zb_made b1 @ [], zb_fresh := zb_fresh b1 + 0, zb_producers := [], zb_subscribers := (m, ?w)\<rparr>)"
    using b1 by (simp add: nsq_Connect_def mw SubscriberSyncMap_Foreach_def nsq_revive_def nsq_rebuild_def errors_Join_def Let_def)
  have b2: "b2 = b1\<lparr>zb_made := zb_made b1 @ [], zb_fresh := zb_fresh b1 + 0, zb_producers := [], zb_subscribers := (m, ?w)\<rparr>" by (simp add: b2_def c1)
  have d2: "snd (nsq_Disconnect b2) = b2" using b1(1) by (simp add: nsq_Disconnect_def b2)
  let ?w3 = "?w\<lparr>zw_subs := (zw_subs w)(0 := ?c\<lparr>zs_consumer := Some 1\<rparr>), zw_running := [1, 0], zw_made := 2\<rparr>"
  have c3: "fst (nsq_Connect (\<lambda>a. ProducerOk) (\<lambda>t. None) (\<lambda>c. None) b2) = None" "zb_running b3" "zb_subscribers b3 = (m, ?w3)"
    using b1 unfolding b3_def d2 by (simp_all add: nsq_Connect_def b2 SubscriberSyncMap_Foreach_def nsq_revive_def nsq_rebuild_def errors_Join_def Let_def)
  have d3: "zw_running (snd (zb_subscribers (snd (nsq_Disconnect b3)))) = [0]"
    using b1(4) c3(2,3) by (simp add: nsq_Disconnect_def nsq_stop_consumer_def SubscriberSyncMap_Clear_def nsq_Unsubscribe_def Let_def)
  show ?thesis using c1 c3 d2 d3 by (simp add: b2)
qed

text \<open>
  \<open>Disconnect\<close> panics, after it has stopped the producers, when a subscriber of the table has no consumer: one that was stored before \<open>Connect\<close> and unsubscribed without being
  removed from the table.
\<close>

theorem nsq_disconnect_panics:
  fixes opts f t q
  defines "b1 \<equiv> snd (zb_Unsubscribe 0 False (snd (nsq_Subscribe (\<lambda>t. None) (\<lambda>c. None) t q (nsq_NewBroker opts f))))"
  shows "fst (nsq_Connect (\<lambda>a. ProducerOk) N C b1) = None \<and> fst (nsq_Disconnect (snd (nsq_Connect (\<lambda>a. ProducerOk) N C b1))) = Some (GoPanic ''nil consumer'')"
proof -
  have b1: "zb_running b1 = False" "zb_addrs b1 = []" "fst (zb_subscribers b1) = [(t, 0)]"
    "zs_closed (zw_subs (snd (zb_subscribers b1)) 0)" "zs_consumer (zw_subs (snd (zb_subscribers b1)) 0) = None"
    by (simp_all add: b1_def zb_Unsubscribe_def nsq_Unsubscribe_def nsq_stop_consumer_def nsq_NewBroker_def nsq_Subscribe_def NewSubscriberSyncMap_def replace_subscriber_def
        SubscriberSyncMap_Get_def SubscriberSyncMap_Add_def gomap_put_def Let_def)
  obtain m w where mw: "zb_subscribers b1 = (m, w)" by force
  note b1 = b1 [unfolded mw fst_conv snd_conv]
  show ?thesis using b1 by (simp add: nsq_Connect_def mw SubscriberSyncMap_Foreach_def nsq_revive_def nsq_rebuild_def errors_Join_def nsq_Disconnect_def Let_def)
qed

text \<open>
  A delivery is finished by the driver exactly when its body cannot be decoded or its handler fails: such a message is finished once, after the error handler saw it, and not
  delivered again. For the others the driver does nothing, and the library responds unless the subscription acknowledges by hand. The world of the handlers here
  is \<open>'v\<close>, beside the list of finished messages.
\<close>

theorem nsq_failed_message_is_finished:
  fixes S :: "(string list \<times> 'v) nsq_sub"
  assumes "\<And>i l v. zk_Finish S i (l, v) = (l @ [i], v)" and "\<And>c p l v. fst (snd (zk_handler S c p (l, v))) = l"
    and "\<And>eh c p l v. zk_ErrorHandler S = Some eh \<Longrightarrow> fst (snd (eh c p (l, v))) = l"
  shows "fst (snd (nsq_fn S nm (l, v))) = l @ (case bind_body (zk_gob S) (zk_Codec S) (zk_binder S) (zm_Body nm) of
            Inl e \<Rightarrow> [zm_ID nm]
          | Inr body \<Rightarrow> if fst (zk_handler S (zk_bctx S) (Some (nsq_publication S nm body None)) (l, v)) = None then [] else [zm_ID nm])
       \<and> fst (nsq_fn S nm (l, v)) = (\<not> zk_AutoAck S)"
proof -
  have eh: "fst (nsq_eh S p w) = fst w" for p w using assms(3) by (cases w) (auto simp: nsq_eh_def split: option.split)
  have fin: "fst (zk_Finish S i w) = fst w @ [i]" for i w using assms(1) by (cases w) simp
  have h: "l' = l" if "zk_handler S c p (l, v) = (r, l', v')" for c p r l' v' using assms(2) [of c p l v] that by simp
  show ?thesis by (auto simp: nsq_fn_def nsq_Ack_def eh fin split: sum.split prod.split option.split dest: h)
qed

definition demo_nsq_sub :: "(string list \<times> nat) nsq_sub" where
  "demo_nsq_sub = \<lparr>zk_topic = ''t'', zk_bctx = [], zk_handler = (\<lambda>c p st. (Some (ErrNew ''bad''), st)), zk_binder = None, zk_ErrorHandler = None,
     zk_gob = redis_codec, zk_Codec = Some redis_codec, zk_AutoAck = True, zk_Finish = (\<lambda>i st. (fst st @ [i], snd st))\<rparr>"

theorem nsq_failed_message_is_finished_witness:
  "fst (snd (nsq_fn demo_nsq_sub \<lparr>zm_ID = ''m1'', zm_Body = ''x''\<rparr> ([], 0))) = [''m1'']"
  using nsq_failed_message_is_finished [of demo_nsq_sub "\<lparr>zm_ID = ''m1'', zm_Body = ''x''\<rparr>" "[]" 0] by (simp add: demo_nsq_sub_def bind_body_def)

text \<open>
  A message that is published to NSQ and delivered as it was sent reaches the typed handler with its body, and without the headers it was published with: NSQ messages carry
  none, and the driver does not put them into the body.
\<close>

theorem nsq_publish_consume:
  assumes "nsq_internalPublish gob (Some c) pub r topic False None msg b = (None, Some (p, NsqPublish topic body))" and "codec_reads c t zero (msg_Body msg)"
    and "zm_Body nm = body" and "zk_Codec S = Some c" and "zk_binder S = Some (Binder t zero)" and "zk_handler S = Subscribe_handler t h"
    and "h (zk_bctx S) (zk_topic S) None (Some (msg_Body msg)) w = (None, w1)"
  shows "nsq_fn S nm w = (\<not> zk_AutoAck S, w1)"
proof -
  obtain buf where buf: "Marshal gob (Some c) (msg_Body msg) = Inr buf" using assms(1) by (auto simp: nsq_internalPublish_def split: sum.splits)
  obtain y where y: "buf = Some y" "bind_body (zk_gob S) (Some c) (Some (Binder t zero)) y = Inr (DPtr t (Some (msg_Body msg)))"
    by (rule bind_body_published [OF buf assms(2)])
  have body: "body = y" using assms(1) buf y(1) by (auto simp: nsq_internalPublish_def nsq_publish_def BodyBytes_def Let_def split: option.splits)
  have "zk_handler S (zk_bctx S) (Some (nsq_publication S nm (DPtr t (Some (msg_Body msg))) None)) w = (None, w1)"
    unfolding assms(6) using assms(7) by (subst typed_delivery [where m = "empty_message\<lparr>msg_Body := DPtr t (Some (msg_Body msg))\<rparr>"])
      (simp_all add: nsq_publication_def empty_message_def)
  then show ?thesis using assms(3-5) y(2) body by (simp add: nsq_fn_def)
qed

theorem nsq_publish_consume_witness:
  "nsq_fn (demo_nsq_sub\<lparr>zk_handler := Subscribe_handler TInt (\<lambda>c topic hs d st. (None, (fst st, 1))), zk_binder := Some (Binder TInt (DInt 0))\<rparr>) \<lparr>zm_ID = ''m1'', zm_Body = ''x''\<rparr> ([], 0)
     = (False, [], 1)"
proof -
  let ?S = "demo_nsq_sub\<lparr>zk_handler := Subscribe_handler TInt (\<lambda>c topic hs d st. (None, (fst st, 1))), zk_binder := Some (Binder TInt (DInt 0))\<rparr>"
  let ?b = "(nsq_NewBroker demo_nsq_options demo_zsubs)\<lparr>zb_producers := [(0, ''a'')]\<rparr>"
  have p: "nsq_internalPublish redis_codec (Some redis_codec) (\<lambda>p c. None) 0 ''t'' False None (NewMessage (DInt 7) []) ?b = (None, Some ((0, ''a''), NsqPublish ''t'' ''x''))"
    by (simp add: nsq_internalPublish_def nsq_publish_def nsq_getProducer_def Marshal_def redis_codec_def BodyBytes_def NewMessage_def)
  have "nsq_fn ?S \<lparr>zm_ID = ''m1'', zm_Body = ''x''\<rparr> ([], 0) = (\<not> zk_AutoAck ?S, [], 1)"
    by (rule nsq_publish_consume [OF p, where t = TInt and zero = "DInt 0" and h = "\<lambda>c topic hs d st. (None, (fst st, 1))"])
      (simp_all add: demo_nsq_sub_def codec_reads_def redis_codec_def NewMessage_def)
  then show ?thesis by (simp add: demo_nsq_sub_def)
qed

end
