(* ===== verification/Spec2Isabelle.thy ===== *)
theory Spec2Isabelle
  imports Broker_Encoding Broker_Handler Broker_Message Broker_Options Broker_Request Broker_Subscriber
    Kafka_Consumer Mq_Kafka Tcp_Client Sse_Server Timer_Server Cron_Server Asynq_Server Mq_Rabbit Mq_Redis Mq_Nats Ws_Server
    Webrtc_Client Mq_Mqtt Sqs_Broker Nsq_Broker
begin

text \<open>
  A verification development for \<open>kratos-transport\<close>, a Go library that gives the Kratos framework message
  brokers (\<open>src/broker\<close>) and servers over many protocols (\<open>src/transport\<close>).

  \<^bold>\<open>The parts of the program and how they interact.\<close> The package \<open>broker\<close> defines messages, options, handlers,
  middleware, the table of subscriptions and request/reply on top of any driver. The drivers below it wrap
  third-party clients and add what those lack: reconnection, retries, acknowledgement, the replacement of a
  topic's subscriber. The packages below \<open>transport\<close> are servers with a common life cycle (\<open>Start\<close>, \<open>Stop\<close>,
  \<open>Endpoint\<close>). The message queue servers are one server, copied per driver, that registers subscriptions on a
  broker and starts a keepalive server beside it. The others have logic of their own: TCP (frames, sessions with
  two goroutines each, a session manager, a server and a client), websocket (the same over whole messages), WebRTC (sessions over data channels that are negotiated over HTTP, and a router
  that forwards the media tracks of one session to others), SSE (events on the wire, streams with an event
  loop and a replay log, a server over HTTP, a client), the high precision timer (a heap of tasks and the loop
  that fires them), cron and asynq (tables of jobs over a scheduler).

  \<^bold>\<open>The shared theories.\<close>

  \<^item> \<open>Prelude\<close>: Go values (bytes, errors, dynamic values, maps, contexts) and the lemmas on them.
  \<^item> \<open>Interfaces\<close>: the contracts between components as locales. \<open>kv_store\<close> with \<open>last_wins_store\<close> and
    \<open>first_wins_store\<close> are keyed stores that differ in what a second insertion does; \<open>framing\<close> is a
    writer and a reader of frames over a stream of chunks; \<open>timed_queue\<close> is a priority queue. Each is
    interpreted on the model's own operations: the handler tables of the TCP, websocket and WebRTC servers and clients, the stream
    manager, TCP frames, SSE blocks, the timer heap.

  \<^bold>\<open>The broker package and its drivers.\<close>

  \<^item> \<open>Broker_Message\<close>, \<open>Broker_Options\<close>, \<open>Broker_Encoding\<close>, \<open>Broker_Handler\<close>, \<open>Broker_Subscriber\<close>,
    \<open>Broker_Request\<close>: the files of \<open>src/broker\<close> with the same names and \<open>transport/register.go\<close>. The locale
    \<open>subscriber_driver\<close> says what the table needs of a driver's \<open>Unsubscribe\<close>.
  \<^item> \<open>Broker_Table\<close>: the way every driver replaces the subscriber of a topic. Its locale \<open>subscription_table\<close> extends
    \<open>subscriber_driver\<close>; kafka, RabbitMQ, NATS, MQTT, SQS, NSQ and the redis drivers interpret it.
  \<^item> \<open>Kafka_Publish\<close>, \<open>Kafka_Consumer\<close>: \<open>broker/kafka\<close>. Publishing with its table of writers and the replacement of a
    failed writer (locale \<open>writer_slot\<close>), the two consumption loops with batches, retries and backoff (locale
    \<open>consume_loop\<close>).
  \<^item> \<open>Rabbit_Connection\<close>, \<open>Rabbit_Message\<close>, \<open>Rabbit_Broker\<close>: \<open>broker/rabbitmq\<close>. The connection with the goroutine that
    reconnects is the step relation \<open>rabbit_step\<close>, where Go channels are numbers into a list that says which are
    closed, so that a second close is the panic it is in Go; the goroutine of a subscriber is \<open>resub_step\<close>.
  \<^item> \<open>Redis_Stream\<close>, \<open>Redis_Broker\<close>: \<open>broker/redis\<close>. The message paths of the two drivers over the replies of the redigo
    client, the options, the brokers (locale \<open>pooled_broker\<close>), and the receiving goroutine \<open>recv_step\<close> of the
    pubsub driver.
  \<^item> \<open>Nats_Broker\<close>: \<open>broker/nats\<close>, core NATS and JetStream. The status of the connection and the errors of the library are
    inputs; the channel of the drain callbacks is the number of values in its buffer, so that an operation that blocks on it for
    ever has no result.
  \<^item> \<open>Mqtt_Broker\<close>: \<open>broker/mqtt\<close>. The state has the list of the requests that were granted on the present connection, so that a theorem can say which callback
    a topic has after lost connections, replaced subscriptions and re-subscriptions. \<open>onConnect\<close> is one step together with the connection.
  \<^item> \<open>Broker_Delivery\<close>, \<open>Sqs_Broker\<close>, \<open>Nsq_Broker\<close>: \<open>broker/sqs\<close> and \<open>broker/nsq\<close> over what their deliveries share. What was acknowledged, and which consumers and producers
    run, is part of the state, since the drivers delete, finish and stop them on some paths and forget them on others.

  \<^bold>\<open>The servers.\<close>

  \<^item> \<open>Mq_Server\<close>: the server of the message queue transports, each call cut at its locks, so that \<open>mq_step\<close>
    interleaves any number of calls. The locale \<open>mq_broker\<close> and its extension \<open>mq_broker_live\<close> say what the server
    needs of a driver; \<open>Mq_Kafka\<close>, \<open>Mq_Rabbit\<close>, \<open>Mq_Nats\<close> and \<open>Mq_Redis\<close> interpret them on the drivers, the last by a
    sublocale of \<open>pooled_broker\<close>. \<open>Mq_Mqtt\<close> is the server over MQTT; \<open>Mq_Table\<close> has the locale \<open>table_broker\<close>, a \<open>subscription_table\<close> with a driver
    over it, which gives \<open>mq_broker_live\<close> by a sublocale and is interpreted on SQS and NSQ.
  \<^item> \<open>Keepalive\<close>: \<open>transport/keepalive\<close>, with a \<open>Stop\<close> that may come between any two steps of \<open>Start\<close>.
  \<^item> \<open>Transport_Utils\<close>: \<open>transport/utils.go\<close>; the interfaces of the host are parameters.
  \<^item> \<open>Tcp_Frame\<close>, \<open>Tcp_Session\<close>, \<open>Tcp_Server\<close>, \<open>Tcp_Client\<close>: \<open>transport/tcp\<close>. A session is a record and its two
    pumps, its senders and its closers are the rules of \<open>sess_step\<close>; the ghost fields \<open>s_accepted\<close>,
    \<open>s_wire\<close> and \<open>s_conn_closes\<close> record what happened.
  \<^item> \<open>Ws_Session\<close>, \<open>Ws_Server\<close>: \<open>transport/websocket\<close>, session, server and client. A session is \<open>ws_step\<close>, with a flag for the crash of the process;
    a request is a handler goroutine that \<open>Stop\<close> can overtake.
  \<^item> \<open>Sfu_Router\<close>, \<open>Webrtc_Session\<close>, \<open>Webrtc_Server\<close>, \<open>Webrtc_Client\<close>: \<open>transport/webrtc\<close>. The router keeps its media tracks in a list that its tables index, so that tables
    and forwarding goroutines share a track; \<open>sfu_step\<close> has its operations and the turns of the goroutines. A session is \<open>rtc_step\<close>, with \<open>Close\<close> and
    the opening of the data channel cut into their steps. What the calls on a peer connection return is a record of the environment.
  \<^item> \<open>Base64\<close>, \<open>Sse_Wire\<close>, \<open>Sse_Stream\<close>, \<open>Sse_Server\<close>: \<open>transport/sse\<close>. The loop of a stream and the goroutines
    around it are the rules of \<open>stream_step\<close>.
  \<^item> \<open>Timer_Heap\<close>, \<open>Timer_Engine\<close>, \<open>Timer_Server\<close>: \<open>transport/hptimer\<close>, with the loops of \<open>container/heap\<close>; the main loop of
    the engine beside its clients and the clock is \<open>run_step\<close>.
  \<^item> \<open>Cron_Server\<close>, \<open>Asynq_Options\<close>, \<open>Asynq_Server\<close>: \<open>transport/cron\<close> and \<open>transport/asynq\<close>; the schedulers are parameters.

  \<^bold>\<open>What the lemmas show.\<close> Round trips of everything that is encoded (packets, frames under any chunking,
  events as text and base64, messages through kafka, RabbitMQ, NATS, MQTT, SQS, NSQ and asynq, values between contexts and headers);
  invariants of the interleaved parts (what a session wrote is what was accepted, in order; every subscriber of
  a stream gets every event once and in order; connections, channels and writers are closed once; no
  interleaving of a server's calls loses a subscription; a RabbitMQ subscriber never has two consumers; the heap and the map of the timer and the tables of the media router
  agree); the life cycles
  (\<open>Stop\<close> releases everything, closed sessions end their goroutines, lost connections come back); refinements
  (the consumption loops handle the sequence of fetched messages, the timer heap is a priority queue); equivalences (the typed adapters, middleware chains);
  bounds (frame size, backoff, log size); errors on every branch of dispatch, authorization and settlement.
  Some theorems prove that the code does something its comments deny; they are stated like the others.

  \<^bold>\<open>Bounds and fuel.\<close> Loops over data are structural, the frame and event readers terminate by measures on the
  remaining input, the sifting loops of the heap by the index. Loops that run forever are step relations; where
  a theorem says what such a loop does next, it names the turns (\<open>rc_run\<close>, \<open>resub_run\<close>, \<open>recv_run\<close>). Only the polling
  loop of asynq's \<open>waitResult\<close> takes fuel, one unit per poll, and \<open>asynq_wait_terminates\<close> shows how much is enough.

  \<^bold>\<open>Not modelled.\<close> The other drivers below \<open>broker\<close> (Pulsar, RocketMQ, STOMP, Google Pub/Sub, Azure Service Bus) and the servers below \<open>transport\<close> that wrap a third-party
  framework; logging and tracing; \<open>GetPublicIP\<close>; the SSE client's reconnection, which a backoff library
  drives; TLS. Codecs, UUIDs, clocks, the network and the third-party clients are parameters.
\<close>

end
